(* ===== verification/BTree_Map.thy ===== *)
theory BTree_Map
  imports Rust_Prelude
begin

text \<open>
  \<open>std::collections::BTreeMap\<close> as the crate uses it: an association list strictly increasing
  in the key's \<open>Ord\<close>. The operations see keys only through the strict order they are given, as
  \<open>BTreeMap\<close> sees them only through \<open>Ord::cmp\<close> (in particular \<open>insert\<close> keeps the key that is
  already stored). The locale \<open>btree_order\<close> states what a key type must promise on the keys that
  are actually stored, and derives the map laws from it once; it is interpreted at the end for
  \<open>u64\<close> keys, and for decimal prices and capture lanes in the theories that declare them.
\<close>

section \<open>Operations\<close>

fun bt_get :: "('k \<Rightarrow> 'k \<Rightarrow> bool) \<Rightarrow> 'k \<Rightarrow> ('k \<times> 'v) list \<Rightarrow> 'v option" where
  "bt_get lt k [] = None"
| "bt_get lt k ((a, b) # ps) =
     (if lt k a then None else if lt a k then bt_get lt k ps else Some b)"

fun bt_insert :: "('k \<Rightarrow> 'k \<Rightarrow> bool) \<Rightarrow> 'k \<Rightarrow> 'v \<Rightarrow> ('k \<times> 'v) list \<Rightarrow> ('k \<times> 'v) list" where
  "bt_insert lt k v [] = [(k, v)]"
| "bt_insert lt k v ((a, b) # ps) =
     (if lt k a then (k, v) # (a, b) # ps
      else if lt a k then (a, b) # bt_insert lt k v ps
      else (a, v) # ps)"

fun bt_remove :: "('k \<Rightarrow> 'k \<Rightarrow> bool) \<Rightarrow> 'k \<Rightarrow> ('k \<times> 'v) list \<Rightarrow> ('k \<times> 'v) list" where
  "bt_remove lt k [] = []"
| "bt_remove lt k ((a, b) # ps) =
     (if lt k a then (a, b) # ps
      else if lt a k then (a, b) # bt_remove lt k ps
      else ps)"

text \<open>\<open>first_key_value\<close> and \<open>last_key_value\<close>.\<close>

definition bt_first :: "('k \<times> 'v) list \<Rightarrow> ('k \<times> 'v) option" where
  "bt_first m = (case m of [] \<Rightarrow> None | p # _ \<Rightarrow> Some p)"

definition bt_last :: "('k \<times> 'v) list \<Rightarrow> ('k \<times> 'v) option" where
  "bt_last m = (if m = [] then None else Some (last m))"

definition bt_wf :: "('k \<Rightarrow> 'k \<Rightarrow> bool) \<Rightarrow> ('k \<Rightarrow> bool) \<Rightarrow> ('k \<times> 'v) list \<Rightarrow> bool" where
  "bt_wf lt valid m \<longleftrightarrow> sorted_wrt lt (map fst m) \<and> (\<forall>k\<in>set (map fst m). valid k)"

section \<open>The contract of an ordered key\<close>

locale btree_order =
  fixes lt :: "'k \<Rightarrow> 'k \<Rightarrow> bool"
    and valid :: "'k \<Rightarrow> bool"
  assumes lt_irrefl: "valid x \<Longrightarrow> \<not> lt x x"
    and lt_trans: "valid x \<Longrightarrow> valid y \<Longrightarrow> valid z \<Longrightarrow> lt x y \<Longrightarrow> lt y z \<Longrightarrow> lt x z"
    and lt_total: "valid x \<Longrightarrow> valid y \<Longrightarrow> \<not> lt x y \<Longrightarrow> \<not> lt y x \<Longrightarrow> x = y"
begin

lemma wf_Nil: "bt_wf lt valid []"
  by (simp add: bt_wf_def)

lemma wf_Cons:
  "bt_wf lt valid ((a, b) # m) \<longleftrightarrow> valid a \<and> (\<forall>k\<in>fst ` set m. lt a k) \<and> bt_wf lt valid m"
  by (auto simp: bt_wf_def)

lemma wf_append:
  "bt_wf lt valid (m @ n) \<longleftrightarrow>
     bt_wf lt valid m \<and> bt_wf lt valid n \<and> (\<forall>a\<in>fst ` set m. \<forall>b\<in>fst ` set n. lt a b)"
  by (auto simp: bt_wf_def sorted_wrt_append)

lemma lt_neq: "valid x \<Longrightarrow> lt x y \<Longrightarrow> x \<noteq> y"
  using lt_irrefl by auto

lemma lt_asym: "valid x \<Longrightarrow> valid y \<Longrightarrow> lt x y \<Longrightarrow> \<not> lt y x"
  using lt_irrefl lt_trans by blast

lemma wf_validD: "bt_wf lt valid m \<Longrightarrow> k \<in> fst ` set m \<Longrightarrow> valid k"
  by (auto simp: bt_wf_def)

lemma wf_distinct: "bt_wf lt valid m \<Longrightarrow> distinct (map fst m)"
proof (induction m)
  case Nil
  then show ?case by simp
next
  case (Cons p m)
  obtain a b where p: "p = (a, b)" by fastforce
  with Cons.prems have "valid a" and "\<forall>k\<in>fst ` set m. lt a k" and "bt_wf lt valid m"
    by (simp_all add: wf_Cons)
  with Cons.IH p show ?case using lt_irrefl by auto
qed

lemma map_of_below: "\<forall>a\<in>fst ` set m. lt k a \<Longrightarrow> valid k \<Longrightarrow> map_of m k = None"
  using lt_irrefl by (auto simp: map_of_eq_None_iff)

lemma below_all:
  assumes "valid k" "lt k a" "bt_wf lt valid ((a, b) # m)"
  shows "\<forall>c\<in>fst ` set ((a, b) # m). lt k c"
proof
  fix c
  assume c: "c \<in> fst ` set ((a, b) # m)"
  show "lt k c"
  proof (cases "c = a")
    case True
    with assms(2) show ?thesis by simp
  next
    case False
    with c assms(3) have "lt a c" by (auto simp: wf_Cons)
    moreover from c assms(3) have "valid a" "valid c" by (auto simp: bt_wf_def)
    ultimately show ?thesis using assms(1,2) lt_trans by blast
  qed
qed

lemma get_eq_map_of: "bt_wf lt valid m \<Longrightarrow> valid k \<Longrightarrow> bt_get lt k m = map_of m k"
proof (induction m)
  case Nil
  then show ?case by simp
next
  case (Cons p m)
  obtain a b where p: "p = (a, b)" by fastforce
  from Cons.prems p have a: "valid a" "\<forall>c\<in>fst ` set m. lt a c" "bt_wf lt valid m"
    by (simp_all add: wf_Cons)
  show ?case
  proof (cases "lt k a")
    case True
    then have "\<forall>c\<in>fst ` set ((a, b) # m). lt k c"
      using below_all [OF Cons.prems(2)] Cons.prems(1) p by simp
    then have "map_of ((a, b) # m) k = None" using Cons.prems(2) by (rule map_of_below)
    with True p show ?thesis by simp
  next
    case nk: False
    show ?thesis
    proof (cases "lt a k")
      case True
      from lt_neq [OF a(1) True] have "k \<noteq> a" by simp
      with True nk Cons.IH [OF a(3) Cons.prems(2)] p show ?thesis by simp
    next
      case False
      with nk lt_total [OF Cons.prems(2) a(1)] p show ?thesis by simp
    qed
  qed
qed

lemma keys_insert: "fst ` set (bt_insert lt k v m) \<subseteq> insert k (fst ` set m)"
proof (induction m)
  case Nil
  then show ?case by simp
next
  case (Cons p m)
  then show ?case by (cases p) auto
qed

lemma wf_insert: "bt_wf lt valid m \<Longrightarrow> valid k \<Longrightarrow> bt_wf lt valid (bt_insert lt k v m)"
proof (induction m)
  case Nil
  then show ?case by (simp add: bt_wf_def)
next
  case (Cons p m)
  obtain a b where p: "p = (a, b)" by fastforce
  from Cons.prems p have a: "valid a" "\<forall>c\<in>fst ` set m. lt a c" "bt_wf lt valid m"
    by (simp_all add: wf_Cons)
  show ?case
  proof (cases "lt k a")
    case True
    then have "\<forall>c\<in>fst ` set m. lt k c"
      using below_all [of k a b m] Cons.prems p by auto
    with True a Cons.prems(2) p show ?thesis by (simp add: wf_Cons)
  next
    case nk: False
    show ?thesis
    proof (cases "lt a k")
      case True
      have "\<forall>c\<in>fst ` set (bt_insert lt k v m). lt a c"
        using a(2) True keys_insert [of k v m] by blast
      with True nk Cons.IH a Cons.prems(2) p show ?thesis by (simp add: wf_Cons)
    next
      case False
      with nk a p show ?thesis by (simp add: wf_Cons)
    qed
  qed
qed

lemma map_of_insert:
  "bt_wf lt valid m \<Longrightarrow> valid k \<Longrightarrow> map_of (bt_insert lt k v m) = (map_of m)(k \<mapsto> v)"
proof (induction m)
  case Nil
  then show ?case by simp
next
  case (Cons p m)
  obtain a b where p: "p = (a, b)" by fastforce
  from Cons.prems p have a: "valid a" "bt_wf lt valid m" by (simp_all add: wf_Cons)
  show ?case
  proof (cases "lt k a \<or> lt a k")
    case True
    then have "k \<noteq> a" using lt_irrefl a(1) by auto
    with True Cons.IH [OF a(2) Cons.prems(2)] p show ?thesis by (auto simp: fun_eq_iff)
  next
    case False
    with lt_total [OF Cons.prems(2) a(1)] p show ?thesis by (auto simp: fun_eq_iff)
  qed
qed

lemma keys_remove: "set (bt_remove lt k m) \<subseteq> set m"
  by (induction m) (auto split: if_splits)

lemma wf_remove: "bt_wf lt valid m \<Longrightarrow> bt_wf lt valid (bt_remove lt k m)"
proof (induction m)
  case Nil
  then show ?case by simp
next
  case (Cons p m)
  obtain a b where p: "p = (a, b)" by fastforce
  have "fst ` set (bt_remove lt k m) \<subseteq> fst ` set m" using keys_remove by (rule image_mono)
  then have "\<forall>c\<in>fst ` set (bt_remove lt k m). lt a c"
    using Cons.prems p by (simp only: wf_Cons) blast
  with Cons p show ?case by (simp add: wf_Cons)
qed

lemma map_of_remove:
  "bt_wf lt valid m \<Longrightarrow> valid k \<Longrightarrow> map_of (bt_remove lt k m) = (map_of m)(k := None)"
proof (induction m)
  case Nil
  then show ?case by simp
next
  case (Cons p m)
  obtain a b where p: "p = (a, b)" by fastforce
  from Cons.prems p have a: "valid a" "\<forall>c\<in>fst ` set m. lt a c" "bt_wf lt valid m"
    by (simp_all add: wf_Cons)
  consider (lt) "lt k a" | (gt) "\<not> lt k a" "lt a k" | (eq) "\<not> lt k a" "\<not> lt a k" by blast
  then show ?case
  proof cases
    case lt
    then have "\<forall>c\<in>fst ` set (p # m). lt k c"
      using below_all [OF Cons.prems(2), of a b m] Cons.prems(1) p by simp
    then have "map_of (p # m) k = None" using Cons.prems(2) by (rule map_of_below)
    then have "(map_of (p # m))(k := None) = map_of (p # m)" by (rule fun_upd_idem)
    moreover from lt p have "bt_remove lt k (p # m) = p # m" by simp
    ultimately show ?thesis by (simp only:)
  next
    case gt
    then have "k \<noteq> a" using lt_irrefl a(1) by auto
    with gt Cons.IH [OF a(3) Cons.prems(2)] p show ?thesis by (simp add: fun_eq_iff)
  next
    case eq
    with lt_total [OF Cons.prems(2) a(1)] have "k = a" by simp
    moreover from a have "map_of m a = None" by (simp add: map_of_below)
    ultimately show ?thesis using eq p by (simp add: fun_eq_iff)
  qed
qed

lemma insert_above:
  "\<forall>a\<in>fst ` set m. lt a k \<and> \<not> lt k a \<Longrightarrow> bt_insert lt k v m = m @ [(k, v)]"
  by (induction m) auto

lemma wf_ext:
  assumes "bt_wf lt valid m" "bt_wf lt valid n" "map_of m = map_of n"
  shows "m = n"
  using assms
proof (induction m arbitrary: n)
  case Nil
  then have "map_of n = Map.empty" by simp
  then show ?case by simp
next
  case (Cons p m)
  obtain a b where p: "p = (a, b)" by fastforce
  have "map_of n a = Some b" using fun_cong [OF Cons.prems(3), of a] p by simp
  then have "n \<noteq> []" by auto
  then obtain c d n' where n: "n = (c, d) # n'" by (cases n) auto
  from Cons.prems p n have a: "valid a" "\<forall>k\<in>fst ` set m. lt a k" "bt_wf lt valid m"
    and c: "valid c" "\<forall>k\<in>fst ` set n'. lt c k" "bt_wf lt valid n'"
    by (simp_all add: wf_Cons)
  have dom: "insert a (fst ` set m) = insert c (fst ` set n')"
    using arg_cong [OF Cons.prems(3), of dom] p n
    by (simp only: dom_map_of_conv_image_fst list.simps(15) image_insert fst_conv)
  have ac: "a = c"
  proof (rule ccontr)
    assume ne: "a \<noteq> c"
    with dom have "c \<in> fst ` set m" and "a \<in> fst ` set n'" by auto
    with a(2) c(2) have "lt a c" and "lt c a" by auto
    with lt_asym [OF a(1) c(1)] show False by blast
  qed
  have bd: "b = d" using fun_cong [OF Cons.prems(3), of a] p n ac by simp
  have "map_of m k = map_of n' k" for k
  proof (cases "k = a")
    case True
    then show ?thesis using map_of_below [OF a(2,1)] map_of_below [OF c(2,1)] ac by simp
  next
    case False
    then show ?thesis using fun_cong [OF Cons.prems(3), of k] p n ac by simp
  qed
  then have "m = n'" using Cons.IH a(3) c(3) by blast
  with p n ac bd show ?case by simp
qed

lemma mem_iff_map_of: "bt_wf lt valid m \<Longrightarrow> (k, v) \<in> set m \<longleftrightarrow> map_of m k = Some v"
  using wf_distinct by (auto dest: map_of_SomeD intro: map_of_is_SomeI)

lemma mem_insert_iff:
  "bt_wf lt valid m \<Longrightarrow> valid k \<Longrightarrow>
     (a, b) \<in> set (bt_insert lt k v m) \<longleftrightarrow> a = k \<and> b = v \<or> a \<noteq> k \<and> (a, b) \<in> set m"
  by (auto simp: mem_iff_map_of wf_insert map_of_insert)

lemma mem_remove_iff:
  "bt_wf lt valid m \<Longrightarrow> valid k \<Longrightarrow> (a, b) \<in> set (bt_remove lt k m) \<longleftrightarrow> a \<noteq> k \<and> (a, b) \<in> set m"
  by (auto simp: mem_iff_map_of wf_remove map_of_remove)

lemma key_set_insert:
  "bt_wf lt valid m \<Longrightarrow> valid k \<Longrightarrow> fst ` set (bt_insert lt k v m) = insert k (fst ` set m)"
  by (simp flip: dom_map_of_conv_image_fst add: map_of_insert)

end

section \<open>Keys ordered by their type\<close>

interpretation nat_key: btree_order "(<) :: nat \<Rightarrow> nat \<Rightarrow> bool" "\<lambda>_. True"
  by unfold_locales auto

abbreviation u64_map_wf :: "(nat \<times> 'v) list \<Rightarrow> bool" where
  "u64_map_wf \<equiv> bt_wf (<) (\<lambda>_. True)"

lemma u64_map_wf_sorted: "u64_map_wf m \<longleftrightarrow> sorted_wrt (<) (map fst m)"
  by (simp add: bt_wf_def)

lemma bt_first_simps [simp]:
  "bt_first [] = None"
  "bt_first (p # m) = Some p"
  by (simp_all add: bt_first_def)

lemma bt_last_simps [simp]:
  "bt_last [] = None"
  "bt_last (m @ [p]) = Some p"
  by (simp_all add: bt_last_def)

end
