(* ===== verification/Fixed_Decimal.thy ===== *)
theory Fixed_Decimal
  imports BTree_Map
begin

text \<open>
  \<open>FixedDecimal\<close> of \<open>src/rust/lob-replay/src/lib.rs\<close>: the exact decimals that carry every price
  and quantity. An \<open>i128\<close> coefficient is an \<^typ>\<open>int\<close> with the range written out, a scale is a
  \<^typ>\<open>nat\<close>. The reference semantics is \<open>units\<close>, the value in units of \<open>10 ^ (-18)\<close>, an integer
  for every scale the parser accepts: comparison, addition, subtraction, parsing and printing are
  proved exact against it, and the order is interpreted as a \<open>BTreeMap\<close> key order.
\<close>

section \<open>Definitions\<close>

definition POW10_18 :: int where
  "POW10_18 = 1000000000000000000"

definition MAX_SAFE_COEFFICIENT :: int where
  "MAX_SAFE_COEFFICIENT = i128_max div POW10_18"

record fixed_decimal =
  coefficient :: int
  scale :: nat

datatype ordering = Less | Equal | Greater

text \<open>The loop of \<open>canonical\<close>; \<open>%\<close> is zero exactly where \<open>mod\<close> is, and then \<open>/\<close> is exact.\<close>

fun canonical_loop :: "int \<Rightarrow> nat \<Rightarrow> fixed_decimal" where
  "canonical_loop c 0 = \<lparr>coefficient = c, scale = 0\<rparr>"
| "canonical_loop c (Suc s) =
     (if c mod 10 = 0 then canonical_loop (c div 10) s else \<lparr>coefficient = c, scale = Suc s\<rparr>)"

definition canonical :: "fixed_decimal \<Rightarrow> fixed_decimal" where
  "canonical d = canonical_loop (coefficient d) (scale d)"

definition starts_with :: "char \<Rightarrow> string \<Rightarrow> bool" where
  "starts_with c s = (case s of [] \<Rightarrow> False | x # _ \<Rightarrow> x = c)"

definition fd_parse :: "string \<Rightarrow> fixed_decimal res" where
  "fd_parse text =
     (if text = [] \<or> starts_with (CHR ''+'') text \<or> CHR ''e'' \<in> set text \<or> CHR ''E'' \<in> set text
      then Err (FailS ''invalid plain decimal'' [text])
      else
        let (negative, unsigned) =
              (if starts_with (CHR ''-'') text then (True, tl text) else (False, text));
            parts = split_char (CHR ''.'') unsigned;
            whole = hd parts
        in if 2 < length parts \<or> whole = [] \<or> \<not> list_all is_ascii_digit whole
              \<or> 1 < length whole \<and> starts_with (CHR ''0'') whole
           then Err (FailS ''invalid plain decimal'' [text])
           else
             let fraction = (case tl parts of [] \<Rightarrow> [] | f # _ \<Rightarrow> f)
             in if 18 < length fraction \<or> CHR ''.'' \<in> set text \<and> fraction = []
                   \<or> \<not> list_all is_ascii_digit fraction
                then Err (FailS ''invalid decimal scale'' [text])
                else
                  let digits = int (digits_val (whole @ fraction))
                  in if i128_max < digits then Err (Fail ''decimal coefficient overflow'')
                     else if MAX_SAFE_COEFFICIENT < digits
                     then Err (Fail ''decimal outside comparison-safe range'')
                     else Ok (canonical \<lparr>coefficient = (if negative then - digits else digits),
                                         scale = length fraction\<rparr>))"

definition is_zero :: "fixed_decimal \<Rightarrow> bool" where
  "is_zero d \<longleftrightarrow> coefficient d = 0"

definition is_negative :: "fixed_decimal \<Rightarrow> bool" where
  "is_negative d \<longleftrightarrow> coefficient d < 0"

text \<open>Unchecked \<open>i128\<close> multiplication and \<open>10_i128.pow\<close>: out of range is an abort.\<close>

definition mul_i128 :: "int \<Rightarrow> int \<Rightarrow> int res" where
  "mul_i128 a b = (if in_i128 (a * b) then Ok (a * b) else Err Panic)"

definition pow10_i128 :: "nat \<Rightarrow> int res" where
  "pow10_i128 n = (if in_i128 (10 ^ n) then Ok (10 ^ n) else Err Panic)"

definition aligned :: "fixed_decimal \<Rightarrow> fixed_decimal \<Rightarrow> (int \<times> int) res" where
  "aligned x y =
     (let s = max (scale x) (scale y) in
      rbind (pow10_i128 (s - scale x)) (\<lambda>p. rbind (mul_i128 (coefficient x) p) (\<lambda>left.
      rbind (pow10_i128 (s - scale y)) (\<lambda>q. rbind (mul_i128 (coefficient y) q) (\<lambda>right.
      Ok (left, right))))))"

definition fd_checked_sub :: "fixed_decimal \<Rightarrow> fixed_decimal \<Rightarrow> fixed_decimal res" where
  "fd_checked_sub x y =
     rbind (aligned x y) (\<lambda>(left, right).
       if in_i128 (left - right)
       then Ok (canonical \<lparr>coefficient = left - right, scale = max (scale x) (scale y)\<rparr>)
       else Err (Fail ''decimal subtraction overflow''))"

definition fd_checked_add :: "fixed_decimal \<Rightarrow> fixed_decimal \<Rightarrow> fixed_decimal res" where
  "fd_checked_add x y =
     rbind (aligned x y) (\<lambda>(left, right).
       if in_i128 (left + right)
       then Ok (canonical \<lparr>coefficient = left + right, scale = max (scale x) (scale y)\<rparr>)
       else Err (Fail ''decimal addition overflow''))"

definition cmp_int :: "int \<Rightarrow> int \<Rightarrow> ordering" where
  "cmp_int a b = (if a < b then Less else if a = b then Equal else Greater)"

definition fd_cmp :: "fixed_decimal \<Rightarrow> fixed_decimal \<Rightarrow> ordering res" where
  "fd_cmp x y = rbind (aligned x y) (\<lambda>(left, right). Ok (cmp_int left right))"

text \<open>The strict order a \<open>BTreeMap\<close> keyed by decimals uses.\<close>

definition fd_less :: "fixed_decimal \<Rightarrow> fixed_decimal \<Rightarrow> bool" where
  "fd_less x y \<longleftrightarrow> fd_cmp x y = Ok Less"

definition fd_display :: "fixed_decimal \<Rightarrow> string" where
  "fd_display d =
     (let sign = (if coefficient d < 0 then ''-'' else []);
          digits = dec_str (nat \<bar>coefficient d\<bar>)
      in if scale d = 0 then sign @ digits
         else
           let minimum = scale d + 1;
               padded = (if length digits < minimum
                         then replicate (minimum - length digits) (CHR ''0'') @ digits else digits);
               split = length padded - scale d
           in sign @ take split padded @ CHR ''.'' # drop split padded)"

subsection \<open>Sums and ratios of the monitor\<close>

definition PPM_SCALE :: int where "PPM_SCALE = 1000000"

fun sum_from :: "fixed_decimal \<Rightarrow> fixed_decimal list \<Rightarrow> fixed_decimal res" where
  "sum_from acc [] = Ok acc"
| "sum_from acc (x # xs) = rbind (fd_checked_add acc x) (\<lambda>acc'. sum_from acc' xs)"

definition sum_decimals :: "fixed_decimal list \<Rightarrow> fixed_decimal res" where
  "sum_decimals xs = sum_from \<lparr>coefficient = 0, scale = 0\<rparr> xs"

text \<open>Integer division that truncates towards zero.\<close>

definition trunc_div :: "int \<Rightarrow> int \<Rightarrow> int" where
  "trunc_div a b = sgn a * sgn b * (\<bar>a\<bar> div \<bar>b\<bar>)"

definition checked_mul_i128 :: "int \<Rightarrow> int \<Rightarrow> int option" where
  "checked_mul_i128 a b = (if in_i128 (a * b) then Some (a * b) else None)"

definition ratio_ppm :: "fixed_decimal \<Rightarrow> fixed_decimal \<Rightarrow> int res" where
  "ratio_ppm numerator denominator =
     (if coefficient denominator \<le> 0 then Err (Fail ''ratio denominator must be positive'')
      else
        let s = max (scale numerator) (scale denominator) in
        rbind (pow10_i128 (s - scale numerator)) (\<lambda>p.
        rbind (ok_or (Fail ''ppm numerator overflow'')
                 (Option.bind (checked_mul_i128 (coefficient numerator) p)
                    (\<lambda>v. checked_mul_i128 v PPM_SCALE))) (\<lambda>num.
        rbind (pow10_i128 (s - scale denominator)) (\<lambda>q.
        rbind (mul_i128 (coefficient denominator) q) (\<lambda>den.
        let r = trunc_div num den in
        if i64_min \<le> r \<and> r \<le> i64_max then Ok r
        else Err (Fail ''ppm result outside i64''))))))"

definition imbalance_ppm :: "fixed_decimal \<Rightarrow> fixed_decimal \<Rightarrow> int res" where
  "imbalance_ppm l r =
     rbind (fd_checked_sub l r) (\<lambda>d. rbind (fd_checked_add l r) (\<lambda>s. ratio_ppm d s))"

section \<open>Reference semantics\<close>

definition units :: "fixed_decimal \<Rightarrow> int" where
  "units d = coefficient d * 10 ^ (18 - scale d)"

definition safe_range :: "fixed_decimal \<Rightarrow> bool" where
  "safe_range d \<longleftrightarrow> scale d \<le> 18 \<and> \<bar>coefficient d\<bar> \<le> MAX_SAFE_COEFFICIENT"

definition canonical_form :: "fixed_decimal \<Rightarrow> bool" where
  "canonical_form d \<longleftrightarrow> scale d = 0 \<or> coefficient d mod 10 \<noteq> 0"

definition valid_decimal :: "fixed_decimal \<Rightarrow> bool" where
  "valid_decimal d \<longleftrightarrow> safe_range d \<and> canonical_form d"

lemma fixed_decimal_eqI:
  "coefficient x = coefficient y \<Longrightarrow> scale x = scale y \<Longrightarrow> (x :: fixed_decimal) = y"
  by simp

section \<open>Canonical form\<close>

lemma canonical_loop_form: "canonical_form (canonical_loop c s)"
  by (induction c s rule: canonical_loop.induct) (auto simp: canonical_form_def)

lemma canonical_loop_scale: "scale (canonical_loop c s) \<le> s"
proof (induction c s rule: canonical_loop.induct)
  case (1 c)
  then show ?case by simp
next
  case (2 c s)
  then show ?case by (cases "c mod 10 = 0") auto
qed

lemma canonical_loop_value: "coefficient (canonical_loop c s) * 10 ^ (s - scale (canonical_loop c s)) = c"
proof (induction c s rule: canonical_loop.induct)
  case (1 c)
  then show ?case by simp
next
  case (2 c s)
  show ?case
  proof (cases "c mod 10 = 0")
    case True
    let ?d = "canonical_loop (c div 10) s"
    have le: "scale ?d \<le> s" by (rule canonical_loop_scale)
    have "coefficient ?d * 10 ^ (Suc s - scale ?d) = 10 * (coefficient ?d * 10 ^ (s - scale ?d))"
      using le by (simp add: Suc_diff_le)
    also have "\<dots> = 10 * (c div 10)" using 2 True by simp
    also have "\<dots> = c" using True by auto
    finally show ?thesis using True by simp
  next
    case False
    then show ?thesis by simp
  qed
qed

lemma canonical_loop_abs: "\<bar>coefficient (canonical_loop c s)\<bar> \<le> \<bar>c\<bar>"
proof -
  let ?d = "canonical_loop c s" and ?p = "10 ^ (s - scale (canonical_loop c s)) :: int"
  have "\<bar>coefficient ?d\<bar> * 1 \<le> \<bar>coefficient ?d\<bar> * ?p" by (rule mult_left_mono) simp_all
  also have "\<dots> = \<bar>c\<bar>" using canonical_loop_value [of c s] by (metis abs_mult abs_of_nonneg zero_le_power
        zero_le_numeral)
  finally show ?thesis by simp
qed

lemma canonical_idem: "canonical_form d \<Longrightarrow> canonical d = d"
  by (cases "scale d") (auto simp: canonical_form_def canonical_def)

lemma units_canonical: "scale d \<le> 18 \<Longrightarrow> units (canonical d) = units d"
proof -
  assume s: "scale d \<le> 18"
  let ?e = "canonical_loop (coefficient d) (scale d)"
  have le: "scale ?e \<le> scale d" by (rule canonical_loop_scale)
  then have "18 - scale ?e = (scale d - scale ?e) + (18 - scale d)" using s by simp
  then have "units ?e = (coefficient ?e * 10 ^ (scale d - scale ?e)) * 10 ^ (18 - scale d)"
    by (simp add: units_def power_add)
  then show ?thesis by (simp add: canonical_loop_value canonical_def units_def)
qed

lemma canonical_form_canonical: "canonical_form (canonical d)"
  by (simp add: canonical_def canonical_loop_form)

lemma scale_canonical: "scale (canonical d) \<le> scale d"
  by (simp add: canonical_def canonical_loop_scale)

lemma valid_canonical: "safe_range d \<Longrightarrow> valid_decimal (canonical d)"
  using canonical_loop_scale [of "coefficient d" "scale d"] canonical_loop_abs [of "coefficient d" "scale d"]
  by (auto simp: valid_decimal_def safe_range_def canonical_def canonical_loop_form)

section \<open>Comparison is exact and total on parsed decimals\<close>

lemma aligned_safe:
  assumes "safe_range x" "safe_range y"
  defines "s \<equiv> max (scale x) (scale y)"
  shows "aligned x y = Ok (coefficient x * 10 ^ (s - scale x), coefficient y * 10 ^ (s - scale y))"
proof -
  have le: "s - scale x \<le> 18" "s - scale y \<le> 18"
    using assms by (auto simp: safe_range_def)
  have pow: "pow10_i128 n = Ok (10 ^ n)" if "n \<le> 18" for n
  proof -
    have "(10 :: int) ^ n \<le> 10 ^ 18" using that by (rule power_increasing) simp
    then have "10 ^ n \<le> i128_max" by (simp add: i128_max_def)
    moreover have "i128_min \<le> 10 ^ n"
      by (rule order_trans [of _ 0]) (simp_all add: i128_min_def)
    ultimately show ?thesis by (simp add: pow10_i128_def in_i128_def)
  qed
  have mul: "mul_i128 c (10 ^ n) = Ok (c * 10 ^ n)"
    if "n \<le> 18" "\<bar>c\<bar> \<le> MAX_SAFE_COEFFICIENT" for c :: int and n
  proof -
    have "\<bar>c * 10 ^ n\<bar> = \<bar>c\<bar> * 10 ^ n" by (simp add: abs_mult)
    also have "\<dots> \<le> MAX_SAFE_COEFFICIENT * 10 ^ 18"
      using that by (intro mult_mono power_increasing) (auto simp: MAX_SAFE_COEFFICIENT_def i128_max_def POW10_18_def)
    finally have "\<bar>c * 10 ^ n\<bar> \<le> 170141183460469231731000000000000000000"
      by (simp add: MAX_SAFE_COEFFICIENT_def i128_max_def POW10_18_def)
    then have "in_i128 (c * 10 ^ n)"
      unfolding in_i128_def i128_max_def i128_min_def by linarith
    then show ?thesis by (simp add: mul_i128_def)
  qed
  show ?thesis
    using assms(1,2) le by (simp add: aligned_def Let_def pow mul safe_range_def flip: s_def)
qed

lemma aligned_units:
  assumes "scale x \<le> 18" "scale y \<le> 18"
  defines "s \<equiv> max (scale x) (scale y)"
  shows "coefficient x * 10 ^ (s - scale x) * 10 ^ (18 - s) = units x"
    and "coefficient y * 10 ^ (s - scale y) * 10 ^ (18 - s) = units y"
proof -
  have "(s - scale x) + (18 - s) = 18 - scale x" "(s - scale y) + (18 - s) = 18 - scale y"
    using assms by auto
  then show "coefficient x * 10 ^ (s - scale x) * 10 ^ (18 - s) = units x"
    and "coefficient y * 10 ^ (s - scale y) * 10 ^ (18 - s) = units y"
    by (simp_all add: units_def mult.assoc flip: power_add)
qed

lemma units_less_iff:
  assumes "scale x \<le> 18" "scale y \<le> 18"
  defines "s \<equiv> max (scale x) (scale y)"
  shows "coefficient x * 10 ^ (s - scale x) < coefficient y * 10 ^ (s - scale y) \<longleftrightarrow> units x < units y"
    and "coefficient x * 10 ^ (s - scale x) = coefficient y * 10 ^ (s - scale y) \<longleftrightarrow> units x = units y"
  using aligned_units [OF assms(1,2)] by (simp_all flip: s_def) (metis mult_less_cancel_right_pos
      zero_less_power zero_less_numeral mult_cancel_right power_not_zero zero_neq_numeral)+

lemma units_inject:
  assumes "canonical_form x" "canonical_form y" "scale x \<le> 18" "scale y \<le> 18" "units x = units y"
  shows "x = y"
proof -
  have aux: "scale b \<le> scale a"
    if "canonical_form b" "scale a \<le> 18" "scale b \<le> 18" "units a = units b" for a b
  proof (rule ccontr)
    assume "\<not> scale b \<le> scale a"
    then have lt: "scale a < scale b" by simp
    then have m: "max (scale a) (scale b) = scale b" by simp
    from units_less_iff(2) [OF that(2,3)] that(4) m
    have "coefficient a * 10 ^ (scale b - scale a) = coefficient b" by simp
    moreover have "(10 :: int) dvd 10 ^ (scale b - scale a)" using lt by (simp add: dvd_power)
    ultimately have "10 dvd coefficient b" by (metis dvd_mult)
    with that(1) lt show False by (auto simp: canonical_form_def mod_eq_0_iff_dvd)
  qed
  have "scale x = scale y" using aux [of y x] aux [of x y] assms by (simp add: le_antisym)
  with assms(5) show ?thesis by (simp add: units_def)
qed

lemma fd_cmp_units:
  assumes "safe_range x" "safe_range y"
  shows "fd_cmp x y = Ok (cmp_int (units x) (units y))"
proof -
  have "scale x \<le> 18" "scale y \<le> 18" using assms by (simp_all add: safe_range_def)
  note iff = units_less_iff [OF this]
  show ?thesis by (simp add: fd_cmp_def aligned_safe [OF assms] cmp_int_def iff)
qed

lemma fd_less_units: "safe_range x \<Longrightarrow> safe_range y \<Longrightarrow> fd_less x y \<longleftrightarrow> units x < units y"
  by (simp add: fd_less_def fd_cmp_units cmp_int_def)

lemma valid_safe: "valid_decimal d \<Longrightarrow> safe_range d"
  by (simp add: valid_decimal_def)

lemma valid_units_inject: "valid_decimal x \<Longrightarrow> valid_decimal y \<Longrightarrow> units x = units y \<Longrightarrow> x = y"
  by (rule units_inject) (auto simp: valid_decimal_def safe_range_def)

interpretation price_key: btree_order fd_less valid_decimal
proof
  show "\<not> fd_less x x" if "valid_decimal x" for x
    using that by (simp add: fd_less_units valid_safe)
  show "fd_less x z"
    if "valid_decimal x" "valid_decimal y" "valid_decimal z" "fd_less x y" "fd_less y z" for x y z
    using that by (simp add: fd_less_units valid_safe)
  show "x = y" if "valid_decimal x" "valid_decimal y" "\<not> fd_less x y" "\<not> fd_less y x" for x y
    using that by (intro valid_units_inject) (simp_all add: fd_less_units valid_safe)
qed

abbreviation price_map_wf :: "(fixed_decimal \<times> 'v) list \<Rightarrow> bool" where
  "price_map_wf \<equiv> bt_wf fd_less valid_decimal"


section \<open>Sums and differences\<close>

lemma fd_checked_add_units:
  assumes "safe_range x" "safe_range y" "fd_checked_add x y = Ok z"
  shows "units z = units x + units y" and "canonical_form z" and "scale z \<le> 18"
proof -
  let ?s = "max (scale x) (scale y)"
  let ?c = "coefficient x * 10 ^ (?s - scale x) + coefficient y * 10 ^ (?s - scale y)"
  have le: "scale x \<le> 18" "scale y \<le> 18" using assms by (simp_all add: safe_range_def)
  from assms(3) have z: "z = canonical \<lparr>coefficient = ?c, scale = ?s\<rparr>"
    by (auto simp: fd_checked_add_def aligned_safe [OF assms(1,2)] split: if_splits)
  have s: "?s \<le> 18" using le by simp
  have "units z = ?c * 10 ^ (18 - ?s)" using s by (simp add: z units_canonical) (simp add: units_def)
  then show "units z = units x + units y"
    using aligned_units [OF le] by (simp add: distrib_right)
  show "canonical_form z" by (simp add: z canonical_form_canonical)
  show "scale z \<le> 18" unfolding z by (rule order_trans [OF scale_canonical]) (simp add: le)
qed

lemma fd_checked_sub_units:
  assumes "safe_range x" "safe_range y" "fd_checked_sub x y = Ok z"
  shows "units z = units x - units y" and "canonical_form z" and "scale z \<le> 18"
proof -
  let ?s = "max (scale x) (scale y)"
  let ?c = "coefficient x * 10 ^ (?s - scale x) - coefficient y * 10 ^ (?s - scale y)"
  have le: "scale x \<le> 18" "scale y \<le> 18" using assms by (simp_all add: safe_range_def)
  from assms(3) have z: "z = canonical \<lparr>coefficient = ?c, scale = ?s\<rparr>"
    by (auto simp: fd_checked_sub_def aligned_safe [OF assms(1,2)] split: if_splits)
  have s: "?s \<le> 18" using le by simp
  have "units z = ?c * 10 ^ (18 - ?s)" using s by (simp add: z units_canonical) (simp add: units_def)
  then show "units z = units x - units y"
    using aligned_units [OF le] by (simp add: left_diff_distrib)
  show "canonical_form z" by (simp add: z canonical_form_canonical)
  show "scale z \<le> 18" unfolding z by (rule order_trans [OF scale_canonical]) (simp add: le)
qed

lemma fd_checked_add_no_panic:
  "safe_range x \<Longrightarrow> safe_range y \<Longrightarrow> fd_checked_add x y \<noteq> Err Panic"
  by (simp add: fd_checked_add_def aligned_safe)

lemma fd_checked_sub_no_panic:
  "safe_range x \<Longrightarrow> safe_range y \<Longrightarrow> fd_checked_sub x y \<noteq> Err Panic"
  by (simp add: fd_checked_sub_def aligned_safe)

section \<open>Parsing and printing\<close>

lemma starts_with_simps [simp]:
  "starts_with c [] = False"
  "starts_with c (x # xs) = (x = c)"
  by (simp_all add: starts_with_def)

lemma digit_not_special:
  "is_ascii_digit c \<Longrightarrow> c \<noteq> CHR ''.'' \<and> c \<noteq> CHR ''e'' \<and> c \<noteq> CHR ''E'' \<and> c \<noteq> CHR ''+'' \<and> c \<noteq> CHR ''-''"
  by (auto simp: is_ascii_digit_def)

lemma digits_not_special:
  "list_all is_ascii_digit s \<Longrightarrow>
     CHR ''.'' \<notin> set s \<and> CHR ''e'' \<notin> set s \<and> CHR ''E'' \<notin> set s \<and> CHR ''+'' \<notin> set s \<and> CHR ''-'' \<notin> set s"
  using digit_not_special by (auto simp: list_all_iff)

definition whole_ok :: "string \<Rightarrow> bool" where
  "whole_ok w \<longleftrightarrow> w \<noteq> [] \<and> list_all is_ascii_digit w \<and> (starts_with (CHR ''0'') w \<longrightarrow> length w = 1)"

definition sign_str :: "bool \<Rightarrow> string" where
  "sign_str n = (if n then ''-'' else [])"

lemma whole_okD:
  assumes "whole_ok w"
  shows "w \<noteq> []" "list_all is_ascii_digit w" "\<not> (1 < length w \<and> starts_with (CHR ''0'') w)"
    "\<not> starts_with (CHR ''+'') w" "\<not> starts_with (CHR ''-'') w"
  using assms digits_not_special [of w] by (cases w; auto simp: whole_ok_def)+

lemma fd_parse_integer:
  assumes "whole_ok w" "int (digits_val w) \<le> MAX_SAFE_COEFFICIENT"
  shows "fd_parse (sign_str n @ w) =
           Ok \<lparr>coefficient = (if n then - int (digits_val w) else int (digits_val w)), scale = 0\<rparr>"
proof -
  note w = whole_okD [OF assms(1)] and ns = digits_not_special [OF whole_okD(2) [OF assms(1)]]
  have "int (digits_val w) \<le> i128_max"
    using assms(2) by (simp add: MAX_SAFE_COEFFICIENT_def i128_max_def POW10_18_def)
  with assms(2) w ns show ?thesis
    by (cases n) (auto simp: fd_parse_def sign_str_def Let_def split_char_no_sep canonical_def)
qed

lemma fd_parse_fraction:
  assumes "whole_ok w" "f \<noteq> []" "list_all is_ascii_digit f" "length f \<le> 18"
    and "int (digits_val (w @ f)) \<le> MAX_SAFE_COEFFICIENT"
  shows "fd_parse (sign_str n @ w @ CHR ''.'' # f) =
           Ok (canonical \<lparr>coefficient = (if n then - int (digits_val (w @ f)) else int (digits_val (w @ f))),
                          scale = length f\<rparr>)"
proof -
  note w = whole_okD [OF assms(1)] and ns = digits_not_special [OF whole_okD(2) [OF assms(1)]]
  have nf: "CHR ''.'' \<notin> set f \<and> CHR ''e'' \<notin> set f \<and> CHR ''E'' \<notin> set f"
    using digits_not_special [OF assms(3)] by simp
  have st: "starts_with c (w @ r) = starts_with c w" for c r using w(1) by (cases w) auto
  have "int (digits_val (w @ f)) \<le> i128_max"
    using assms(5) by (simp add: MAX_SAFE_COEFFICIENT_def i128_max_def POW10_18_def)
  with assms w ns nf st show ?thesis
    by (cases n) (auto simp: fd_parse_def sign_str_def Let_def split_char_no_sep split_char_append_sep)
qed

lemma fd_parse_valid: "fd_parse s = Ok d \<Longrightarrow> valid_decimal d"
  by (auto simp: fd_parse_def Let_def safe_range_def split: if_splits prod.splits intro!: valid_canonical)

lemma dec_str_whole_ok: "whole_ok (dec_str n)"
proof -
  have "length (dec_str n) = 1" if "starts_with (CHR ''0'') (dec_str n)"
  proof -
    from that have "hd (dec_str n) = CHR ''0''" by (cases "dec_str n") auto
    then have "n = 0" by (simp add: dec_str_hd_zero)
    then show ?thesis by simp
  qed
  then show ?thesis by (simp add: whole_ok_def dec_str_digits)
qed

lemma digits_val_zeros: "digits_val (replicate k (CHR ''0'') @ s) = digits_val s"
proof -
  have "digits_val (replicate k (CHR ''0'')) = 0"
    by (induction k) (simp_all flip: replicate_append_same add: digit_val_def)
  then show ?thesis by (simp add: digits_val_append)
qed

lemma padded_split:
  assumes "0 < n" "0 < s"
  defines "ds \<equiv> dec_str n"
  defines "p \<equiv> (if length ds < s + 1 then replicate (s + 1 - length ds) (CHR ''0'') @ ds else ds)"
  shows "whole_ok (take (length p - s) p)" and "list_all is_ascii_digit (drop (length p - s) p)"
    and "length (drop (length p - s) p) = s" and "digits_val p = n"
proof -
  have len: "s + 1 \<le> length p" by (simp add: p_def)
  have dig: "list_all is_ascii_digit p"
    using dec_str_digits [of n] by (auto simp: p_def ds_def list_all_iff is_ascii_digit_def)
  then show "list_all is_ascii_digit (drop (length p - s) p)"
    by (rule list_all_set_mono) (rule set_drop_subset)
  have t: "list_all is_ascii_digit (take (length p - s) p)"
    using dig by (rule list_all_set_mono) (rule set_take_subset)
  show "length (drop (length p - s) p) = s" using len by simp
  show "digits_val p = n" by (simp add: p_def ds_def digits_val_zeros)
  have "length (take (length p - s) p) = 1" if z: "starts_with (CHR ''0'') (take (length p - s) p)"
  proof (cases "length ds < s + 1")
    case True
    then have "length p = s + 1" by (simp add: p_def)
    then show ?thesis by simp
  next
    case False
    from z have "hd p = CHR ''0''" by (cases p; cases "length p - s") auto
    then have "hd (dec_str n) = CHR ''0''" using False by (simp add: p_def ds_def)
    with assms(1) show ?thesis by (simp add: dec_str_hd_zero)
  qed
  moreover have "take (length p - s) p \<noteq> []" using len by auto
  ultimately show "whole_ok (take (length p - s) p)" using t by (simp add: whole_ok_def)
qed

lemma fd_parse_display:
  assumes "valid_decimal d"
  shows "fd_parse (fd_display d) = Ok d"
proof -
  define n where "n = nat \<bar>coefficient d\<bar>"
  have bound: "int n \<le> MAX_SAFE_COEFFICIENT" using assms by (simp add: valid_decimal_def safe_range_def n_def)
  have sign: "(if coefficient d < 0 then - int n else int n) = coefficient d" by (simp add: n_def)
  show ?thesis
  proof (cases "scale d = 0")
    case True
    have "fd_display d = sign_str (coefficient d < 0) @ dec_str n"
      using True by (simp add: fd_display_def sign_str_def n_def Let_def)
    moreover have "fd_parse \<dots> = Ok \<lparr>coefficient = coefficient d, scale = 0\<rparr>"
      using fd_parse_integer [OF dec_str_whole_ok, of n "coefficient d < 0"] bound
      by (simp, simp add: n_def)
    ultimately show ?thesis using True by simp
  next
    case False
    then have c: "coefficient d mod 10 \<noteq> 0" using assms by (auto simp: valid_decimal_def canonical_form_def)
    then have pos: "0 < n" by (auto simp: n_def)
    define ds where "ds = dec_str n"
    define p where "p = (if length ds < scale d + 1
                         then replicate (scale d + 1 - length ds) (CHR ''0'') @ ds else ds)"
    note sp = padded_split [OF pos, of "scale d", folded ds_def, folded p_def]
    have disp: "fd_display d = sign_str (coefficient d < 0)
                  @ take (length p - scale d) p @ CHR ''.'' # drop (length p - scale d) p"
      using False by (simp add: fd_display_def sign_str_def n_def Let_def p_def ds_def)
    have "fd_parse (fd_display d) =
            Ok (canonical \<lparr>coefficient = coefficient d, scale = scale d\<rparr>)"
      unfolding disp using False sp bound sign assms
      by (subst fd_parse_fraction) (auto simp: valid_decimal_def safe_range_def)
    moreover have "\<lparr>coefficient = coefficient d, scale = scale d\<rparr> = d" by simp
    ultimately show ?thesis using assms by (simp add: canonical_idem valid_decimal_def)
  qed
qed

lemma units_digits:
  "length f \<le> 18 \<Longrightarrow>
     units \<lparr>coefficient = int (digits_val (w @ f)), scale = length f\<rparr>
       = int (digits_val w) * 10 ^ 18 + int (digits_val f) * 10 ^ (18 - length f)"
proof -
  assume "length f \<le> 18"
  then have "(10 :: int) ^ 18 = 10 ^ length f * 10 ^ (18 - length f)" by (simp flip: power_add)
  then show ?thesis by (simp add: units_def digits_val_append distrib_right del: power_numeral)
qed

end
