(* ===== verification/Fixed_Decimal_Safety.thy ===== *)
theory Fixed_Decimal_Safety
  imports Fixed_Decimal
begin

text \<open>
  The theorems on fixed decimals: which texts parse and to which value, printing and parsing again,
  exact comparison consistent with equality, exact sums and differences, and the abort a sum can
  reach once an intermediate total has left the comparison-safe range.
\<close>

section \<open>The accepted texts\<close>

text \<open>A plain decimal: an optional minus, a whole part without leading zeros, an optional fraction.\<close>

definition numeral_text :: "bool \<Rightarrow> string \<Rightarrow> string \<Rightarrow> string" where
  "numeral_text n w f = sign_str n @ w @ (if f = [] then [] else CHR ''.'' # f)"

definition numeral_units :: "bool \<Rightarrow> string \<Rightarrow> string \<Rightarrow> int" where
  "numeral_units n w f =
     (if n then - 1 else 1) * (int (digits_val w) * 10 ^ 18 + int (digits_val f) * 10 ^ (18 - length f))"

definition numeral_ok :: "string \<Rightarrow> string \<Rightarrow> bool" where
  "numeral_ok w f \<longleftrightarrow> whole_ok w \<and> list_all is_ascii_digit f \<and> length f \<le> 18
     \<and> int (digits_val (w @ f)) \<le> MAX_SAFE_COEFFICIENT"

lemma units_neg: "units \<lparr>coefficient = - c, scale = s\<rparr> = - units \<lparr>coefficient = c, scale = s\<rparr>"
  by (simp add: units_def)

lemma numeral_parses:
  assumes "numeral_ok w f"
  shows "\<exists>d. fd_parse (numeral_text n w f) = Ok d \<and> units d = numeral_units n w f"
proof -
  let ?c = "int (digits_val (w @ f))"
  let ?d = "\<lparr>coefficient = (if n then - ?c else ?c), scale = length f\<rparr>"
  have "fd_parse (numeral_text n w f) = Ok (canonical ?d)"
  proof (cases "f = []")
    case True
    then show ?thesis using assms fd_parse_integer [of w n]
      by (simp add: numeral_text_def numeral_ok_def canonical_def)
  next
    case False
    then show ?thesis using assms fd_parse_fraction [of w f n]
      by (simp add: numeral_text_def numeral_ok_def)
  qed
  moreover have "units (canonical ?d) = numeral_units n w f"
    using assms units_digits [of f w] by (simp add: units_canonical numeral_ok_def numeral_units_def units_neg)
  ultimately show ?thesis by blast
qed

lemma split_char_two:
  assumes "length (split_char c s) \<le> 2"
  shows "c \<notin> set s \<and> split_char c s = [s] \<or>
    (\<exists>w f. s = w @ c # f \<and> c \<notin> set w \<and> c \<notin> set f \<and> split_char c s = [w, f])"
proof (cases "c \<in> set s")
  case False
  then show ?thesis by (simp add: split_char_no_sep)
next
  case True
  then obtain w r where s: "s = w @ c # r" "c \<notin> set w" by (meson split_list_first)
  have "c \<notin> set r"
  proof
    assume "c \<in> set r"
    then obtain w2 r2 where r: "r = w2 @ c # r2" "c \<notin> set w2" by (meson split_list_first)
    have "split_char c r2 \<noteq> []" by (induction r2) (auto split: list.splits)
    then show False using assms s r by (cases "split_char c r2") (auto simp: split_char_append_sep)
  qed
  then show ?thesis using s by (auto simp: split_char_append_sep split_char_no_sep)
qed

lemma fd_parse_numeral:
  assumes "fd_parse s = Ok d"
  shows "\<exists>n w f. s = numeral_text n w f \<and> numeral_ok w f"
proof -
  define n where "n = starts_with (CHR ''-'') s"
  define u where "u = (if n then tl s else s)"
  have s: "s = sign_str n @ u" by (cases s) (auto simp: u_def n_def sign_str_def)
  define parts where "parts = split_char (CHR ''.'') u"
  define f where "f = (case tl parts of [] \<Rightarrow> [] | f # _ \<Rightarrow> f)"
  from assms have c: "length parts \<le> 2" "hd parts \<noteq> []" "list_all is_ascii_digit (hd parts)"
    "\<not> (1 < length (hd parts) \<and> starts_with (CHR ''0'') (hd parts))"
    "length f \<le> 18" "CHR ''.'' \<in> set s \<longrightarrow> f \<noteq> []" "list_all is_ascii_digit f"
    "int (digits_val (hd parts @ f)) \<le> MAX_SAFE_COEFFICIENT"
    by (auto simp: fd_parse_def Let_def n_def [symmetric] u_def [symmetric] parts_def [symmetric]
        f_def [symmetric] split: if_splits prod.splits)
      (auto simp: u_def parts_def f_def split: if_splits)
  have w: "whole_ok (hd parts)" using c(2-4) by (cases "hd parts") (auto simp: whole_ok_def)
  have "u = hd parts @ (if f = [] then [] else CHR ''.'' # f)"
    using split_char_two [of "CHR ''.''" u] c(1,6) by (auto simp: parts_def f_def s)
  then have "s = numeral_text n (hd parts) f" by (simp add: numeral_text_def s)
  moreover have "numeral_ok (hd parts) f" using w c by (simp add: numeral_ok_def)
  ultimately show ?thesis by blast
qed

section \<open>Theorems\<close>

text \<open>
  The parser accepts exactly the plain decimals with at most eighteen fractional digits and a
  comparison-safe coefficient, and the decimal it answers has exactly the value of the text.
\<close>

theorem decimal_parse_exact:
  "((\<exists>d. fd_parse s = Ok d) \<longleftrightarrow> (\<exists>n w f. s = numeral_text n w f \<and> numeral_ok w f))
    \<and> (\<forall>n w f. numeral_ok w f \<longrightarrow>
         (\<exists>d. fd_parse (numeral_text n w f) = Ok d \<and> units d = numeral_units n w f))"
  using fd_parse_numeral numeral_parses by metis

text \<open>
  Round trip: a parsed decimal is in canonical form, and printing it and parsing the text again
  gives the same decimal.
\<close>

theorem decimal_round_trip:
  assumes "fd_parse s = Ok d"
  shows "canonical_form d \<and> fd_parse (fd_display d) = Ok d"
  using fd_parse_valid [OF assms] fd_parse_display by (simp add: valid_decimal_def)

text \<open>
  Comparing two parsed decimals never aborts, compares their exact values, and answers Equal
  only for identical decimals, so that \<open>Ord\<close> agrees with \<open>Eq\<close>.
\<close>

theorem decimal_compare_exact:
  assumes "fd_parse s = Ok x" "fd_parse t = Ok y"
  shows "fd_cmp x y = Ok (cmp_int (units x) (units y)) \<and> (fd_cmp x y = Ok Equal \<longleftrightarrow> x = y)"
proof -
  have v: "valid_decimal x" "valid_decimal y" using assms fd_parse_valid by blast+
  then have c: "fd_cmp x y = Ok (cmp_int (units x) (units y))" by (simp add: fd_cmp_units valid_safe)
  then show ?thesis using valid_units_inject [OF v] by (auto simp: cmp_int_def)
qed

text \<open>
  The sum and the difference of two parsed decimals never abort; when they are in range they
  are exact, and otherwise they are reported as errors.
\<close>

theorem decimal_sum_exact:
  assumes "fd_parse s = Ok x" "fd_parse t = Ok y"
  shows "(case fd_checked_add x y of Inl e \<Rightarrow> e = Fail ''decimal addition overflow''
            | Inr z \<Rightarrow> units z = units x + units y \<and> canonical_form z)
    \<and> (case fd_checked_sub x y of Inl e \<Rightarrow> e = Fail ''decimal subtraction overflow''
            | Inr z \<Rightarrow> units z = units x - units y \<and> canonical_form z)"
proof -
  have v: "safe_range x" "safe_range y" using assms fd_parse_valid valid_safe by blast+
  have "e = Fail ''decimal addition overflow''" if "fd_checked_add x y = Err e" for e
    using that v by (auto simp: fd_checked_add_def aligned_safe split: if_splits)
  moreover have "e = Fail ''decimal subtraction overflow''" if "fd_checked_sub x y = Err e" for e
    using that v by (auto simp: fd_checked_sub_def aligned_safe split: if_splits)
  ultimately show ?thesis
    using fd_checked_add_units [OF v] fd_checked_sub_units [OF v] by (auto split: sum.split)
qed

definition big_text :: string where "big_text = ''170141183460469231731''"
definition tiny_text :: string where "tiny_text = ''0.000000000000000001''"

text \<open>
  \<open>sum_decimals\<close> can abort on parsed decimals: its running total may leave the range that
  \<open>FixedDecimal::parse\<close> guarantees, and the multiplication that aligns two scales is not checked.
\<close>

theorem sum_decimals_can_abort:
  "\<exists>x y. fd_parse big_text = Ok x \<and> fd_parse tiny_text = Ok y \<and> sum_decimals [x, x, y] = Err Panic"
proof -
  have "fd_parse big_text = Ok \<lparr>coefficient = 170141183460469231731, scale = 0\<rparr>"
    by (simp add: big_text_def fd_parse_def Let_def starts_with_def is_ascii_digit_def digits_val_def digit_val_def
        MAX_SAFE_COEFFICIENT_def i128_max_def POW10_18_def canonical_def)
  moreover have "fd_parse tiny_text = Ok \<lparr>coefficient = 1, scale = 18\<rparr>"
  proof -
    have t: "tiny_text = sign_str False @ ''0'' @ CHR ''.'' # ''000000000000000001''"
      by (simp add: tiny_text_def sign_str_def)
    have d: "digits_val (''0'' @ ''000000000000000001'') = 1"
      by (simp add: digits_val_def digit_val_def)
    have "canonical \<lparr>coefficient = 1, scale = 18\<rparr> = \<lparr>coefficient = 1, scale = 18\<rparr>"
      by (rule canonical_idem) (simp add: canonical_form_def)
    moreover have "length ''000000000000000001'' = 18" by simp
    ultimately show ?thesis
      unfolding t using d by (subst fd_parse_fraction)
        (simp_all only: if_False of_nat_1,
         simp_all add: whole_ok_def is_ascii_digit_def MAX_SAFE_COEFFICIENT_def i128_max_def POW10_18_def)
  qed
  moreover have "sum_decimals [\<lparr>coefficient = 170141183460469231731, scale = 0\<rparr>,
      \<lparr>coefficient = 170141183460469231731, scale = 0\<rparr>, \<lparr>coefficient = 1, scale = 18\<rparr>] = Err Panic"
    by (simp add: sum_decimals_def fd_checked_add_def aligned_def Let_def pow10_i128_def mul_i128_def in_i128_def
        i128_max_def i128_min_def canonical_def)
  ultimately show ?thesis by blast
qed

text \<open>Witnesses.\<close>

lemma parse_one_two:
  "fd_parse ''1'' = Ok \<lparr>coefficient = 1, scale = 0\<rparr>" "fd_parse ''-2'' = Ok \<lparr>coefficient = - 2, scale = 0\<rparr>"
  by (simp_all add: fd_parse_def Let_def starts_with_def is_ascii_digit_def digits_val_def digit_val_def
      MAX_SAFE_COEFFICIENT_def i128_max_def POW10_18_def canonical_def)

theorem decimal_round_trip_witness:
  "fd_parse (fd_display \<lparr>coefficient = - 2, scale = 0\<rparr>) = Ok \<lparr>coefficient = - 2, scale = 0\<rparr>"
  using decimal_round_trip [OF parse_one_two(2)] by simp

theorem decimal_compare_exact_witness:
  "fd_cmp \<lparr>coefficient = 1, scale = 0\<rparr> \<lparr>coefficient = - 2, scale = 0\<rparr> = Ok Greater"
  using decimal_compare_exact [OF parse_one_two] by (simp add: units_def cmp_int_def)

theorem decimal_sum_exact_witness:
  "case fd_checked_add \<lparr>coefficient = 1, scale = 0\<rparr> \<lparr>coefficient = - 2, scale = 0\<rparr> of
     Inl e \<Rightarrow> e = Fail ''decimal addition overflow'' | Inr z \<Rightarrow> units z = - (10 ^ 18)"
  using decimal_sum_exact [OF parse_one_two] by (auto simp: units_def split: sum.splits)

text \<open>Witness: the bounded implication at a concrete text.\<close>

theorem decimal_parse_exact_witness:
  "\<exists>d. fd_parse (numeral_text True ''2'' ''5'') = Ok d \<and> units d = - 2500000000000000000"
proof -
  have "numeral_ok ''2'' ''5''"
    by (simp add: numeral_ok_def whole_ok_def is_ascii_digit_def digits_val_def digit_val_def
        MAX_SAFE_COEFFICIENT_def i128_max_def POW10_18_def)
  moreover have "numeral_units True ''2'' ''5'' = - 2500000000000000000"
    by (simp add: numeral_units_def digits_val_def digit_val_def)
  ultimately show ?thesis using decimal_parse_exact [of "[]"] by metis
qed

end
