(* ===== verification/Externals.thy ===== *)
theory Externals
  imports Rust_Prelude
begin

text \<open>
  The third-party crates the modelled code calls, as parameters. \<open>sha2::Sha256::digest\<close>,
  \<open>base64\<close> and the reading half of \<open>serde_json\<close> (\<open>from_slice\<close> and the accessors of \<open>Value\<close>) are
  the fields of one record that every definition using them takes as its first argument; nothing
  is assumed about them except in the named hypotheses below, each of which states documented
  behaviour. \<open>value[field]\<close> on a missing field is \<open>Value::Null\<close>, on which every \<open>as_*\<close> accessor
  answers \<open>None\<close>, so an indexed read is \<open>json_get\<close> followed by the accessor.
\<close>

record 'v externals =
  sha256 :: "bytes \<Rightarrow> bytes"
  b64_encode :: "bytes \<Rightarrow> string"
  b64_decode :: "string \<Rightarrow> bytes option"
  json_from_slice :: "bytes \<Rightarrow> 'v option"
  json_get :: "'v \<Rightarrow> string \<Rightarrow> 'v option"
  json_as_str :: "'v \<Rightarrow> string option"
  json_as_u64 :: "'v \<Rightarrow> nat option"
  json_as_i64 :: "'v \<Rightarrow> int option"
  json_as_bool :: "'v \<Rightarrow> bool option"
  json_as_array :: "'v \<Rightarrow> 'v list option"
  json_is_null :: "'v \<Rightarrow> bool"
  json_object_keys :: "'v \<Rightarrow> string list option"

text \<open>\<open>is_object\<close>, by the keys of \<open>as_object\<close>.\<close>

definition json_is_object :: "'v externals \<Rightarrow> 'v \<Rightarrow> bool" where
  "json_is_object E v \<longleftrightarrow> json_object_keys E v \<noteq> None"

definition field_str :: "'v externals \<Rightarrow> 'v \<Rightarrow> string \<Rightarrow> string option" where
  "field_str E v f = Option.bind (json_get E v f) (json_as_str E)"

definition field_u64 :: "'v externals \<Rightarrow> 'v \<Rightarrow> string \<Rightarrow> nat option" where
  "field_u64 E v f = Option.bind (json_get E v f) (json_as_u64 E)"

definition field_i64 :: "'v externals \<Rightarrow> 'v \<Rightarrow> string \<Rightarrow> int option" where
  "field_i64 E v f = Option.bind (json_get E v f) (json_as_i64 E)"

definition field_bool :: "'v externals \<Rightarrow> 'v \<Rightarrow> string \<Rightarrow> bool option" where
  "field_bool E v f = Option.bind (json_get E v f) (json_as_bool E)"

definition field_array :: "'v externals \<Rightarrow> 'v \<Rightarrow> string \<Rightarrow> 'v list option" where
  "field_array E v f = Option.bind (json_get E v f) (json_as_array E)"

definition required_str :: "'v externals \<Rightarrow> 'v \<Rightarrow> string \<Rightarrow> string res" where
  "required_str E v f = ok_or (FailS ''missing/invalid string field'' [f]) (field_str E v f)"

definition required_u64 :: "'v externals \<Rightarrow> 'v \<Rightarrow> string \<Rightarrow> nat res" where
  "required_u64 E v f = ok_or (FailS ''missing/invalid integer field'' [f]) (field_u64 E v f)"

lemma required_str_Ok [simp]: "required_str E v f = Inr s \<longleftrightarrow> field_str E v f = Some s"
  by (simp add: required_str_def)

lemma required_u64_Ok [simp]: "required_u64 E v f = Inr n \<longleftrightarrow> field_u64 E v f = Some n"
  by (simp add: required_u64_def)

text \<open>\<open>hex(&Sha256::digest(bytes))\<close>.\<close>

definition sha256_hex :: "'v externals \<Rightarrow> bytes \<Rightarrow> string" where
  "sha256_hex E bs = hex (sha256 E bs)"

text \<open>Documented behaviour the theorems name as hypotheses.\<close>

definition sha256_len32 :: "'v externals \<Rightarrow> bool" where
  "sha256_len32 E \<longleftrightarrow> (\<forall>bs. length (sha256 E bs) = 32)"

definition b64_round_trip :: "'v externals \<Rightarrow> bool" where
  "b64_round_trip E \<longleftrightarrow> (\<forall>bs. b64_decode E (b64_encode E bs) = Some bs)"

lemma length_sha256_hex: "sha256_len32 E \<Longrightarrow> length (sha256_hex E bs) = 64"
  by (simp add: sha256_hex_def sha256_len32_def)

lemma lower_hex_sha256_hex: "list_all is_lower_hex (sha256_hex E bs)"
  by (simp add: sha256_hex_def is_lower_hex_hex)

end
