(* ===== verification/Raw_Log.thy ===== *)
theory Raw_Log
  imports Externals "HOL-Library.List_Lexorder" "HOL-Library.Char_ord" "HOL-Library.Product_Lexorder"
begin

text \<open>
  The raw capture log of \<open>src/rust/lob-replay/src/lib.rs\<close>: the hash-chained, length-prefixed
  record file (\<open>BNRAW\<close>), its writer \<open>RawLogWriter\<close> with the durability acknowledgements, segment
  geneses and seals, and the data types the readers return. A file is the list of its bytes. The
  sink behind the writer is a byte list with a plan of outcomes for its next operations, so that a
  failing or short write and a failing sync are inputs of the model.
\<close>

section \<open>Constants and data\<close>

definition MAGIC :: bytes where
  "MAGIC = [66, 78, 82, 65, 87, 0, 1, 10]"

definition MAX_RECORD_BYTES :: nat where
  "MAX_RECORD_BYTES = 4 * 1024 * 1024"

definition ZERO_DIGEST :: string where
  "ZERO_DIGEST = replicate 64 (CHR ''0'')"

record raw_frame =
  rf_venue :: string
  rf_environment :: string
  rf_endpoint :: string
  rf_symbol :: string
  rf_stream :: string
  rf_connection_epoch :: string
  rf_frame_index :: nat
  rf_receive_wall_ns :: nat
  rf_receive_mono_ns :: nat
  rf_payload :: bytes
  rf_clock_quality :: string
  rf_clock_source :: string
  rf_clock_offset_ns :: "int option"
  rf_clock_uncertainty_ns :: "nat option"
  rf_recorder_state :: string
  rf_spec_revision :: string

record raw_record_envelope =
  re_record_index :: nat
  re_start_offset :: nat
  re_end_offset :: nat
  re_record_sha256 :: string
  re_frame :: raw_frame

record captured_frame =
  cf_venue :: string
  cf_environment :: string
  cf_endpoint :: string
  cf_stream :: string
  cf_symbol :: string
  cf_connection_epoch :: string
  cf_frame_index :: nat
  cf_receive_wall_ns :: nat
  cf_receive_mono_ns :: nat
  cf_clock_quality :: string
  cf_clock_source :: string
  cf_payload :: bytes
  cf_spec_revision :: string

type_synonym stream_key = "string \<times> string"

text \<open>\<open>HashMap<(String, String), u64>\<close>, the next expected frame index of each stream.\<close>

type_synonym expected_map = "(stream_key \<times> nat) list"

record stream_watermark =
  wm_connection_epoch :: string
  wm_stream :: string
  wm_durable_through_frame_index :: nat

record durability_ack =
  da_schema :: string
  da_durable_record_count :: nat
  da_durable_through_offset :: nat
  da_last_record_sha256 :: string
  da_streams :: "stream_watermark list"

record append_receipt =
  ar_record_index :: nat
  ar_end_offset :: nat
  ar_record_sha256 :: string
  ar_durability_ack :: "durability_ack option"

record segment_genesis =
  sg_schema :: string
  sg_segment_index :: nat
  sg_previous_segment_terminal_sha256 :: string
  sg_connection_epoch :: string
  sg_stream :: string
  sg_next_frame_index :: nat

record segment_seal =
  ss_schema :: string
  ss_segment_index :: nat
  ss_raw_file :: string
  ss_connection_epoch :: string
  ss_stream :: string
  ss_first_frame_index :: nat
  ss_last_frame_index :: nat
  ss_records :: nat
  ss_durable_through_offset :: nat
  ss_previous_segment_terminal_sha256 :: string
  ss_terminal_record_sha256 :: string

text \<open>The JSON body of one record, before \<open>serde_json::to_vec\<close>.\<close>

record raw_record =
  rr_schema :: string
  rr_venue :: string
  rr_environment :: string
  rr_endpoint :: string
  rr_stream :: string
  rr_symbol :: string
  rr_connection_epoch :: string
  rr_frame_index :: nat
  rr_receive_wall_ns :: nat
  rr_receive_mono_ns :: nat
  rr_clock_quality :: string
  rr_clock_source :: string
  rr_clock_offset_ns :: "int option"
  rr_clock_uncertainty_ns :: "nat option"
  rr_payload_length :: nat
  rr_payload_sha256 :: string
  rr_payload_base64 :: string
  rr_recorder_state :: string
  rr_spec_revision :: string
  rr_previous_record_sha256 :: string

section \<open>The sink\<close>

text \<open>
  A \<open>DurableSink\<close>. Each operation consumes one outcome of the plan (an exhausted plan means
  success): \<open>IoErr k\<close> is an \<open>io::Error\<close> after \<open>k\<close> bytes of the buffer reached the file. By the
  contract of \<open>Write\<close> a failing call writes nothing, and \<open>write_all\<close> calls \<open>write\<close> only while bytes
  are left, so a failing \<open>write_all\<close> leaves out at least the last byte.
  \<open>sk_synced\<close> is the length known to be on stable storage.
\<close>

datatype io_outcome = IoOk | IoErr nat

record sink =
  sk_data :: bytes
  sk_synced :: nat
  sk_plan :: "io_outcome list"

definition sink_write_all :: "bytes \<Rightarrow> sink \<Rightarrow> bool \<times> sink" where
  "sink_write_all bs s =
     (case sk_plan s of
        [] \<Rightarrow> (True, s\<lparr>sk_data := sk_data s @ bs\<rparr>)
      | IoOk # p \<Rightarrow> (True, s\<lparr>sk_data := sk_data s @ bs, sk_plan := p\<rparr>)
      | IoErr k # p \<Rightarrow> (False, s\<lparr>sk_data := sk_data s @ take (min k (length bs - 1)) bs, sk_plan := p\<rparr>))"

text \<open>\<open>flush().and_then(|_| sync_all())\<close>.\<close>

definition sink_sync :: "sink \<Rightarrow> bool \<times> sink" where
  "sink_sync s =
     (case sk_plan s of
        [] \<Rightarrow> (True, s\<lparr>sk_synced := length (sk_data s)\<rparr>)
      | IoOk # p \<Rightarrow> (True, s\<lparr>sk_synced := length (sk_data s), sk_plan := p\<rparr>)
      | IoErr k # p \<Rightarrow> (False, s\<lparr>sk_plan := p\<rparr>))"

section \<open>The writer\<close>

record raw_log_writer =
  w_sink :: sink
  w_previous_digest :: string
  w_expected :: expected_map
  w_sync_every :: nat
  w_since_sync :: nat
  w_record_count :: nat
  w_end_offset :: nat
  w_poisoned :: bool
  w_last_ack :: "durability_ack option"
  w_locked_identity :: "stream_key option"

definition validate_sha256 :: "string \<Rightarrow> string \<Rightarrow> unit res" where
  "validate_sha256 value field =
     check (length value = 64 \<and> list_all is_lower_hex value)
       (FailS ''must be a lowercase SHA-256 hex digest'' [field])"

definition validate_segment_genesis :: "segment_genesis \<Rightarrow> unit res" where
  "validate_segment_genesis g =
     (if sg_schema g \<noteq> ''RawSegmentGenesisV1'' \<or> trim_is_empty (sg_connection_epoch g)
         \<or> trim_is_empty (sg_stream g)
      then Err (Fail ''invalid raw segment genesis'')
      else rbind (validate_sha256 (sg_previous_segment_terminal_sha256 g)
                    ''previous_segment_terminal_sha256'') (\<lambda>_.
        let is_root = (sg_segment_index g = 0
              \<and> sg_previous_segment_terminal_sha256 g = ZERO_DIGEST \<and> sg_next_frame_index g = 0);
            is_successor = (0 < sg_segment_index g
              \<and> sg_previous_segment_terminal_sha256 g \<noteq> ZERO_DIGEST \<and> 0 < sg_next_frame_index g)
        in check (is_root \<or> is_successor)
             (Fail ''raw segment genesis is neither a root nor a successor'')))"

definition writer_initialize :: "sink \<Rightarrow> nat \<Rightarrow> segment_genesis option \<Rightarrow> raw_log_writer res" where
  "writer_initialize sk sync_every genesis =
     (if sync_every = 0 then Err (Fail ''sync_every must be positive'')
      else
        let (ok1, sk1) = sink_write_all MAGIC sk in
        if \<not> ok1 then Err (Fail ''write raw magic'')
        else
          let (ok2, sk2) = sink_sync sk1 in
          if \<not> ok2 then Err (Fail ''sync raw magic'')
          else
            let (expected, previous, locked) =
                  (case genesis of
                     Some g \<Rightarrow>
                       let identity = (sg_connection_epoch g, sg_stream g)
                       in ([(identity, sg_next_frame_index g)],
                           sg_previous_segment_terminal_sha256 g, Some identity)
                   | None \<Rightarrow> ([], ZERO_DIGEST, None))
            in Ok \<lparr>w_sink = sk2, w_previous_digest = previous, w_expected = expected,
                   w_sync_every = sync_every, w_since_sync = 0, w_record_count = 0,
                   w_end_offset = length MAGIC, w_poisoned = False, w_last_ack = None,
                   w_locked_identity = locked\<rparr>)"

definition writer_from_sink :: "sink \<Rightarrow> nat \<Rightarrow> raw_log_writer res" where
  "writer_from_sink sk sync_every = writer_initialize sk sync_every None"

definition writer_from_sink_segment ::
    "sink \<Rightarrow> nat \<Rightarrow> segment_genesis \<Rightarrow> raw_log_writer res" where
  "writer_from_sink_segment sk sync_every g =
     rbind (validate_segment_genesis g) (\<lambda>_. writer_initialize sk sync_every (Some g))"

definition watermark_of :: "stream_key \<times> nat \<Rightarrow> stream_watermark option" where
  "watermark_of e =
     map_option (\<lambda>n. \<lparr>wm_connection_epoch = fst (fst e), wm_stream = snd (fst e),
                      wm_durable_through_frame_index = n\<rparr>)
       (checked_sub (snd e) 1)"

definition durability_watermarks :: "expected_map \<Rightarrow> stream_watermark list" where
  "durability_watermarks expected =
     sort_key (\<lambda>m. (wm_connection_epoch m, wm_stream m)) (List.map_filter watermark_of expected)"

definition writer_sync :: "raw_log_writer \<Rightarrow> durability_ack res \<times> raw_log_writer" where
  "writer_sync w =
     (if w_poisoned w then (Err (Fail ''raw writer is poisoned''), w)
      else
        let (ok, sk) = sink_sync (w_sink w) in
        if \<not> ok then
          (Err (Fail ''sync raw log; writer poisoned''), w\<lparr>w_sink := sk, w_poisoned := True\<rparr>)
        else
          let ack = \<lparr>da_schema = ''DurabilityAckV1'',
                     da_durable_record_count = w_record_count w,
                     da_durable_through_offset = w_end_offset w,
                     da_last_record_sha256 = w_previous_digest w,
                     da_streams = durability_watermarks (w_expected w)\<rparr>
          in (Ok ack, w\<lparr>w_sink := sk, w_since_sync := 0, w_last_ack := Some ack\<rparr>))"

definition raw_record_of :: "'v externals \<Rightarrow> string \<Rightarrow> captured_frame \<Rightarrow> raw_record" where
  "raw_record_of E previous f =
     \<lparr>rr_schema = ''RawFrameV1'', rr_venue = cf_venue f, rr_environment = cf_environment f,
      rr_endpoint = cf_endpoint f, rr_stream = cf_stream f, rr_symbol = cf_symbol f,
      rr_connection_epoch = cf_connection_epoch f, rr_frame_index = cf_frame_index f,
      rr_receive_wall_ns = cf_receive_wall_ns f, rr_receive_mono_ns = cf_receive_mono_ns f,
      rr_clock_quality = cf_clock_quality f, rr_clock_source = cf_clock_source f,
      rr_clock_offset_ns = None, rr_clock_uncertainty_ns = None,
      rr_payload_length = length (cf_payload f), rr_payload_sha256 = sha256_hex E (cf_payload f),
      rr_payload_base64 = b64_encode E (cf_payload f), rr_recorder_state = ''PENDING'',
      rr_spec_revision = cf_spec_revision f, rr_previous_record_sha256 = previous\<rparr>"

definition encode_record :: "'v externals \<Rightarrow> bytes \<Rightarrow> bytes" where
  "encode_record E body = be_bytes 4 (length body) @ body @ sha256 E body"

definition expected_next :: "expected_map \<Rightarrow> stream_key \<Rightarrow> nat" where
  "expected_next expected key = (case map_of expected key of None \<Rightarrow> 0 | Some n \<Rightarrow> n)"

definition frame_key :: "captured_frame \<Rightarrow> stream_key" where
  "frame_key f = (cf_connection_epoch f, cf_stream f)"

text \<open>What \<open>append\<close> does after the encoded record reached the sink.\<close>

definition append_commit ::
    "'v externals \<Rightarrow> raw_log_writer \<Rightarrow> captured_frame \<Rightarrow> bytes \<Rightarrow> append_receipt res \<times> raw_log_writer" where
  "append_commit E w f body =
     (let key = frame_key f; nxt = expected_next (w_expected w) key;
          record_index = w_record_count w;
          w1 = w\<lparr>w_previous_digest := sha256_hex E body\<rparr>
      in if u64_max < nxt + 1 then (Err Panic, w1)
         else
           let w2 = w1\<lparr>w_expected := AList.update key (nxt + 1) (w_expected w1)\<rparr>
           in if u64_max < record_index + 1 then (Err Panic, w2)
              else
                let w3 = w2\<lparr>w_record_count := record_index + 1\<rparr>
                in case checked_add (w_end_offset w) (length (encode_record E body)) of
                     None \<Rightarrow> (Err (Fail ''raw offset overflow''), w3)
                   | Some end_offset \<Rightarrow>
                     let w4 = w3\<lparr>w_end_offset := end_offset\<rparr>
                     in if u64_max < w_since_sync w4 + 1 then (Err Panic, w4)
                        else
                          let w5 = w4\<lparr>w_since_sync := w_since_sync w4 + 1\<rparr>;
                              receipt = (\<lambda>wr ack. \<lparr>ar_record_index = record_index,
                                                 ar_end_offset = w_end_offset wr,
                                                 ar_record_sha256 = w_previous_digest wr,
                                                 ar_durability_ack = ack\<rparr>)
                          in if w_sync_every w5 \<le> w_since_sync w5 then
                               (case writer_sync w5 of
                                  (Inl e, w6) \<Rightarrow> (Err e, w6)
                                | (Inr ack, w6) \<Rightarrow> (Ok (receipt w6 (Some ack)), w6))
                             else (Ok (receipt w5 None), w5))"

definition writer_append ::
    "'v externals \<Rightarrow> (raw_record \<Rightarrow> bytes option) \<Rightarrow> raw_log_writer \<Rightarrow> captured_frame
      \<Rightarrow> append_receipt res \<times> raw_log_writer" where
  "writer_append E to_vec w f =
     (if w_poisoned w then (Err (Fail ''raw writer is poisoned''), w)
      else if (case w_locked_identity w of None \<Rightarrow> False | Some identity \<Rightarrow> identity \<noteq> frame_key f)
      then (Err (Fail ''raw segment identity mismatch''), w)
      else
        let nxt = expected_next (w_expected w) (frame_key f) in
        if cf_frame_index f \<noteq> nxt
        then (Err (FailN ''non-contiguous captured frame'' [nxt, cf_frame_index f]), w)
        else case to_vec (raw_record_of E (w_previous_digest w) f) of
            None \<Rightarrow> (Err (Fail ''serialize raw record''), w)
          | Some body \<Rightarrow>
            if MAX_RECORD_BYTES < length body
            then (Err (Fail ''raw record exceeds maximum size''), w)
            else if u32_max < length body
            then (Err (Fail ''raw record length does not fit u32''), w)
            else
              let (ok, sk) = sink_write_all (encode_record E body) (w_sink w) in
              if \<not> ok then (Err (Fail ''write raw record; writer poisoned''),
                           w\<lparr>w_sink := sk, w_poisoned := True\<rparr>)
              else append_commit E (w\<lparr>w_sink := sk\<rparr>) f body)"

text \<open>Dropping the writer syncs what is pending and ignores the outcome.\<close>

definition writer_drop :: "raw_log_writer \<Rightarrow> raw_log_writer" where
  "writer_drop w = (if \<not> w_poisoned w \<and> 0 < w_since_sync w then snd (writer_sync w) else w)"

definition seal_raw_segment :: "segment_genesis \<Rightarrow> string \<Rightarrow> durability_ack \<Rightarrow> segment_seal res" where
  "seal_raw_segment g raw_file ack =
     rbind (validate_segment_genesis g) (\<lambda>_.
     if trim_is_empty raw_file \<or> da_schema ack \<noteq> ''DurabilityAckV1''
        \<or> da_durable_record_count ack = 0 \<or> length (da_streams ack) \<noteq> 1
     then Err (Fail ''invalid raw segment seal input'')
     else
       rbind (validate_sha256 (da_last_record_sha256 ack) ''last_record_sha256'') (\<lambda>_.
       let watermark = hd (da_streams ack) in
       if wm_connection_epoch watermark \<noteq> sg_connection_epoch g \<or> wm_stream watermark \<noteq> sg_stream g
          \<or> wm_durable_through_frame_index watermark < sg_next_frame_index g
       then Err (Fail ''raw segment seal identity or frame range mismatch'')
       else
         rbind (ok_or (Fail ''raw segment record range overflow'')
                  (Option.bind (checked_sub (wm_durable_through_frame_index watermark)
                                  (sg_next_frame_index g))
                     (\<lambda>distance. checked_add distance 1))) (\<lambda>expected_records.
         if da_durable_record_count ack \<noteq> expected_records
         then Err (Fail ''raw segment ACK count does not match frame range'')
         else Ok \<lparr>ss_schema = ''RawSegmentSealV1'', ss_segment_index = sg_segment_index g,
                  ss_raw_file = raw_file, ss_connection_epoch = sg_connection_epoch g,
                  ss_stream = sg_stream g, ss_first_frame_index = sg_next_frame_index g,
                  ss_last_frame_index = wm_durable_through_frame_index watermark,
                  ss_records = da_durable_record_count ack,
                  ss_durable_through_offset = da_durable_through_offset ack,
                  ss_previous_segment_terminal_sha256 = sg_previous_segment_terminal_sha256 g,
                  ss_terminal_record_sha256 = da_last_record_sha256 ack\<rparr>)))"

end
