(* ===== verification/Raw_Log_Reader.thy ===== *)
theory Raw_Log_Reader
  imports Raw_Log
begin

text \<open>
  Reading raw logs back (\<open>lib.rs\<close>, \<open>read_next_raw_record\<close> to \<open>recover_raw_log_prefix\<close>): one
  record at a time with its digest, chain, payload and contiguity checks; whole logs and segments;
  the tolerant scan that stops at the first bad record; and the recovery of the valid prefix. A
  reader is the list of bytes still to read, so a short read is the end of that list; read errors
  of the operating system are outside the model. An absent file is \<open>None\<close>.
\<close>

section \<open>One record\<close>

text \<open>\<open>read_exact\<close> of \<open>n\<close> bytes.\<close>

definition read_exact :: "nat \<Rightarrow> bytes \<Rightarrow> (bytes \<times> bytes) option" where
  "read_exact n bs = (if n \<le> length bs then Some (take n bs, drop n bs) else None)"

text \<open>The checks on a record body before its frame index: digest, JSON, schema, chain, payload.\<close>

definition decode_header ::
    "'v externals \<Rightarrow> string \<Rightarrow> bytes \<Rightarrow> bytes \<Rightarrow> ('v \<times> bytes \<times> string \<times> string \<times> nat) res" where
  "decode_header E previous body digest =
     rbind (check (sha256 E body = digest) (Fail ''record digest mismatch'')) (\<lambda>_.
     rbind (ok_or (Fail ''invalid record JSON'') (json_from_slice E body)) (\<lambda>value.
     rbind (required_str E value ''schema'') (\<lambda>schema.
     rbind (check (schema = ''RawFrameV1'') (Fail ''unknown raw schema'')) (\<lambda>_.
     rbind (required_str E value ''previous_record_sha256'') (\<lambda>prev.
     rbind (check (prev = previous) (Fail ''record chain mismatch'')) (\<lambda>_.
     rbind (required_str E value ''recorder_state'') (\<lambda>st.
     rbind (check (st \<in> {''PENDING'', ''DURABLE'', ''FAILED''}) (Fail ''invalid recorder state'')) (\<lambda>_.
     rbind (required_str E value ''payload_base64'') (\<lambda>b64.
     rbind (ok_or (Fail ''invalid payload base64'') (b64_decode E b64)) (\<lambda>payload.
     rbind (required_u64 E value ''payload_length'') (\<lambda>len.
     rbind (check (length payload = len) (Fail ''payload length mismatch'')) (\<lambda>_.
     rbind (required_str E value ''payload_sha256'') (\<lambda>psha.
     rbind (check (sha256_hex E payload = psha) (Fail ''payload digest mismatch'')) (\<lambda>_.
     rbind (required_str E value ''stream'') (\<lambda>stream.
     rbind (required_str E value ''connection_epoch'') (\<lambda>epoch.
     rbind (required_u64 E value ''frame_index'') (\<lambda>frame_index.
     Ok (value, payload, stream, epoch, frame_index))))))))))))))))))"

text \<open>The remaining fields of the frame.\<close>

definition decode_frame ::
    "'v externals \<Rightarrow> 'v \<Rightarrow> bytes \<Rightarrow> string \<Rightarrow> string \<Rightarrow> nat \<Rightarrow> raw_frame res" where
  "decode_frame E value payload stream epoch frame_index =
     rbind (required_str E value ''venue'') (\<lambda>venue.
     rbind (required_str E value ''environment'') (\<lambda>environment.
     rbind (required_str E value ''endpoint'') (\<lambda>endpoint.
     rbind (required_str E value ''symbol'') (\<lambda>symbol.
     rbind (required_u64 E value ''receive_wall_ns'') (\<lambda>wall.
     rbind (required_u64 E value ''receive_mono_ns'') (\<lambda>mono.
     rbind (required_str E value ''clock_quality'') (\<lambda>quality.
     rbind (required_str E value ''clock_source'') (\<lambda>source.
     rbind (required_str E value ''recorder_state'') (\<lambda>st.
     rbind (required_str E value ''spec_revision'') (\<lambda>rev.
     Ok \<lparr>rf_venue = venue, rf_environment = environment, rf_endpoint = endpoint,
         rf_symbol = symbol, rf_stream = stream, rf_connection_epoch = epoch,
         rf_frame_index = frame_index, rf_receive_wall_ns = wall, rf_receive_mono_ns = mono,
         rf_payload = payload, rf_clock_quality = quality, rf_clock_source = source,
         rf_clock_offset_ns = field_i64 E value ''clock_offset_ns'',
         rf_clock_uncertainty_ns = field_u64 E value ''clock_uncertainty_ns'',
         rf_recorder_state = st, rf_spec_revision = rev\<rparr>))))))))))"

text \<open>
  The frame-index check and the update of \<open>expected\<close>, which happens before the last fields are
  read: \<open>expected\<close> is a \<open>&mut\<close> argument, so its changes outlive an error.
\<close>

definition accept_record ::
    "'v externals \<Rightarrow> string \<Rightarrow> expected_map \<Rightarrow> bytes \<Rightarrow> bytes \<Rightarrow> raw_frame res \<times> expected_map" where
  "accept_record E previous expected body digest =
     (case decode_header E previous body digest of
        Inl e \<Rightarrow> (Err e, expected)
      | Inr (value, payload, stream, epoch, frame_index) \<Rightarrow>
        let key = (epoch, stream); nxt = expected_next expected key in
        if frame_index \<noteq> nxt
        then (Err (FailN ''non-contiguous frame index'' [nxt, frame_index]),
              AList.update key nxt expected)
        else if u64_max < nxt + 1 then (Err Panic, AList.update key nxt expected)
        else (decode_frame E value payload stream epoch frame_index,
              AList.update key (nxt + 1) expected))"

definition read_next_raw_record ::
    "'v externals \<Rightarrow> string \<Rightarrow> expected_map \<Rightarrow> bytes
      \<Rightarrow> (raw_frame \<times> string \<times> nat) option res \<times> expected_map \<times> bytes" where
  "read_next_raw_record E previous expected bs =
     (if bs = [] then (Ok None, expected, [])
      else case read_exact 4 bs of
          None \<Rightarrow> (Err (Fail ''partial length prefix''), expected, [])
        | Some (prefix, r1) \<Rightarrow>
          let body_length = from_be_bytes prefix in
          if MAX_RECORD_BYTES < body_length
          then (Err (Fail ''record length exceeds limit''), expected, r1)
          else case read_exact body_length r1 of
              None \<Rightarrow> (Err (Fail ''partial record body''), expected, [])
            | Some (body, r2) \<Rightarrow>
              (case read_exact 32 r2 of
                 None \<Rightarrow> (Err (Fail ''partial record digest''), expected, [])
               | Some (digest, r3) \<Rightarrow>
                 (case accept_record E previous expected body digest of
                    (Inl e, expected') \<Rightarrow> (Err e, expected', r3)
                  | (Inr frame, expected') \<Rightarrow>
                    (Ok (Some (frame, hex digest, 4 + body_length + 32)), expected', r3))))"

lemma read_exact_SomeD: "read_exact n bs = Some (xs, ys) \<Longrightarrow> bs = xs @ ys \<and> length xs = n"
  by (auto simp: read_exact_def split: if_splits)

lemma read_exact_append: "length xs = n \<Longrightarrow> read_exact n (xs @ ys) = Some (xs, ys)"
  by (simp add: read_exact_def)

lemma read_exact_short: "length bs < n \<Longrightarrow> read_exact n bs = None"
  by (simp add: read_exact_def)

lemma read_next_shape:
  assumes "read_next_raw_record E previous expected bs = (Inr (Some (frame, d, len)), expected', rest)"
  obtains body digest where
    "bs = be_bytes 4 (length body) @ body @ digest @ rest" "length digest = 32"
    "length body \<le> MAX_RECORD_BYTES" "d = hex digest" "len = 4 + length body + 32"
    "accept_record E previous expected body digest = (Inr frame, expected')"
proof -
  from assms obtain prefix r1 body r2 digest where
    p: "read_exact 4 bs = Some (prefix, r1)" and
    b: "read_exact (from_be_bytes prefix) r1 = Some (body, r2)" and
    g: "read_exact 32 r2 = Some (digest, rest)" and
    m: "from_be_bytes prefix \<le> MAX_RECORD_BYTES" and
    a: "accept_record E previous expected body digest = (Inr frame, expected')"
    and d: "d = hex digest" and len: "len = 4 + from_be_bytes prefix + 32"
    by (auto simp: read_next_raw_record_def Let_def split: if_splits option.splits prod.splits sum.splits)
  from read_exact_SomeD [OF p] read_exact_SomeD [OF b] read_exact_SomeD [OF g]
  have bs: "bs = prefix @ body @ digest @ rest" and l: "length prefix = 4"
    "length body = from_be_bytes prefix" "length digest = 32" by auto
  have "le_bytes 4 (from_le_bytes (rev prefix)) = rev prefix"
    using le_bytes_from_le_bytes [of "rev prefix"] l by simp
  then have "be_bytes 4 (from_be_bytes prefix) = prefix"
    by (simp add: be_bytes_def from_be_bytes_def)
  with bs l(2) have bs': "bs = be_bytes 4 (length body) @ body @ digest @ rest" by (simp only:)
  from m l(2) have m': "length body \<le> MAX_RECORD_BYTES" by simp
  from len l(2) have len': "len = 4 + length body + 32" by simp
  show thesis by (rule that [OF bs' l(3) m' d len' a])
qed

lemma read_next_shrinks:
  assumes "(Inr (Some r), expected', rest) = read_next_raw_record E previous expected bs"
  shows "length rest < length bs"
proof -
  obtain frame d len where "r = (frame, d, len)" by (cases r)
  with assms have "read_next_raw_record E previous expected bs = (Inr (Some (frame, d, len)), expected', rest)"
    by simp
  then show ?thesis by (rule read_next_shape) simp
qed

section \<open>Whole logs\<close>

definition read_magic :: "bytes \<Rightarrow> bytes res" where
  "read_magic bs =
     (case read_exact 8 bs of
        None \<Rightarrow> Err (Fail ''bad raw log magic'')
      | Some (magic, rest) \<Rightarrow>
        if magic \<noteq> MAGIC then Err (Fail ''bad raw log magic'') else Ok rest)"

text \<open>The loop of \<open>read_raw_records_after_magic\<close>; \<open>count\<close> is \<open>records.len()\<close>.\<close>

function read_raw_records_after_magic ::
    "'v externals \<Rightarrow> nat \<Rightarrow> string \<Rightarrow> expected_map \<Rightarrow> nat \<Rightarrow> bytes \<Rightarrow> raw_record_envelope list res" where
  "read_raw_records_after_magic E start_offset previous expected count bs =
     (case read_next_raw_record E previous expected bs of
        (Inl e, _, _) \<Rightarrow> Err e
      | (Inr None, _, _) \<Rightarrow> Ok []
      | (Inr (Some (frame, digest, encoded_length)), expected', rest) \<Rightarrow>
        (case checked_add start_offset encoded_length of
           None \<Rightarrow> Err (Fail ''raw record offset overflow'')
         | Some end_offset \<Rightarrow>
           rbind (read_raw_records_after_magic E end_offset digest expected' (count + 1) rest)
             (\<lambda>records. Ok (\<lparr>re_record_index = count, re_start_offset = start_offset,
                             re_end_offset = end_offset, re_record_sha256 = digest,
                             re_frame = frame\<rparr> # records))))"
  by pat_completeness auto
termination
proof (relation "measure (\<lambda>(E, s, p, x, c, bs). length bs)")
  show "wf (measure (\<lambda>(E :: 'v externals, s :: nat, p :: string, x :: expected_map, c :: nat, bs :: bytes). length bs))"
    by simp
qed (auto dest: read_next_shrinks)

declare read_raw_records_after_magic.simps [simp del]

definition open_file :: "bytes option \<Rightarrow> bytes res" where
  "open_file file = ok_or (Fail ''open'') file"

definition read_raw_records :: "'v externals \<Rightarrow> bytes option \<Rightarrow> raw_record_envelope list res" where
  "read_raw_records E file =
     rbind (open_file file) (\<lambda>bs. rbind (read_magic bs) (\<lambda>rest.
       read_raw_records_after_magic E (length MAGIC) ZERO_DIGEST [] 0 rest))"

definition read_raw_log :: "'v externals \<Rightarrow> bytes option \<Rightarrow> raw_frame list res" where
  "read_raw_log E file = rbind (read_raw_records E file) (\<lambda>rs. Ok (map re_frame rs))"

definition read_raw_segment_records ::
    "'v externals \<Rightarrow> bytes option \<Rightarrow> segment_genesis \<Rightarrow> raw_record_envelope list res" where
  "read_raw_segment_records E file g =
     rbind (validate_segment_genesis g) (\<lambda>_.
     rbind (open_file file) (\<lambda>bs. rbind (read_magic bs) (\<lambda>rest.
     let identity = (sg_connection_epoch g, sg_stream g) in
     rbind (read_raw_records_after_magic E (length MAGIC) (sg_previous_segment_terminal_sha256 g)
              [(identity, sg_next_frame_index g)] 0 rest) (\<lambda>records.
     if list_ex (\<lambda>r. (rf_connection_epoch (re_frame r), rf_stream (re_frame r)) \<noteq> identity) records
     then Err (Fail ''raw segment identity mismatch'')
     else Ok records))))"

definition read_raw_records_through_offset ::
    "'v externals \<Rightarrow> bytes option \<Rightarrow> nat \<Rightarrow> raw_record_envelope list res" where
  "read_raw_records_through_offset E file durable_through_offset =
     (if durable_through_offset < length MAGIC then Err (Fail ''raw prefix ends before magic'')
      else
        rbind (open_file file) (\<lambda>bs.
        if length bs < durable_through_offset
        then Err (Fail ''raw file is shorter than requested durable prefix'')
        else
          rbind (read_magic (take durable_through_offset bs)) (\<lambda>rest.
          rbind (read_raw_records_after_magic E (length MAGIC) ZERO_DIGEST [] 0 rest) (\<lambda>records.
          let end_offset = (if records = [] then length MAGIC else re_end_offset (last records)) in
          if end_offset \<noteq> durable_through_offset
          then Err (Fail ''requested durable prefix does not end on a record boundary'')
          else Ok records))))"

definition read_raw_record_range ::
    "'v externals \<Rightarrow> bytes option \<Rightarrow> nat \<Rightarrow> nat \<Rightarrow> string \<Rightarrow> string \<Rightarrow> string \<Rightarrow> nat
      \<Rightarrow> raw_record_envelope list res" where
  "read_raw_record_range E file start_offset end_offset previous epoch stream next_frame_index =
     (if start_offset < length MAGIC \<or> end_offset \<le> start_offset
      then Err (Fail ''invalid raw record range'')
      else
        rbind (open_file file) (\<lambda>bs.
        if length bs < end_offset
        then Err (Fail ''raw file is shorter than requested record range'')
        else
          rbind (read_raw_records_after_magic E start_offset previous
                   [((epoch, stream), next_frame_index)] 0
                   (take (end_offset - start_offset) (drop start_offset bs))) (\<lambda>records.
          if records = [] \<or> re_end_offset (last records) \<noteq> end_offset
          then Err (Fail ''raw record range does not end on the requested boundary'')
          else Ok records)))"

section \<open>The tolerant scan and recovery\<close>

record raw_log_scan =
  sc_file_size :: nat
  sc_records :: nat
  sc_last_good_offset :: nat
  sc_clean_eof :: bool
  sc_reason :: "error option"
  sc_last_record_sha256 :: string
  sc_streams :: "stream_watermark list"

text \<open>
  The loop of \<open>scan_raw_log_from\<close>: it returns the record count, the last good offset, the reason
  it stopped, the last digest and the final \<open>expected\<close> map.
\<close>

function scan_loop ::
    "'v externals \<Rightarrow> stream_key option \<Rightarrow> string \<Rightarrow> expected_map \<Rightarrow> nat \<Rightarrow> nat \<Rightarrow> bytes
      \<Rightarrow> (nat \<times> nat \<times> error option \<times> string \<times> expected_map) res" where
  "scan_loop E locked previous expected records last_good bs =
     (case read_next_raw_record E previous expected bs of
        (Inl e, expected', _) \<Rightarrow>
          if e = Panic then Err Panic else Ok (records, last_good, Some e, previous, expected')
      | (Inr None, expected', _) \<Rightarrow> Ok (records, last_good, None, previous, expected')
      | (Inr (Some (frame, digest, encoded_length)), expected', rest) \<Rightarrow>
        if (case locked of None \<Rightarrow> False
            | Some identity \<Rightarrow> (rf_connection_epoch frame, rf_stream frame) \<noteq> identity)
        then Ok (records, last_good, Some (Fail ''raw segment identity mismatch''), previous, expected')
        else if u64_max < records + 1 then Err Panic
        else case checked_add last_good encoded_length of
            None \<Rightarrow> Err (Fail ''raw scan offset overflow'')
          | Some good \<Rightarrow> scan_loop E locked digest expected' (records + 1) good rest)"
  by pat_completeness auto
termination
proof (relation "measure (\<lambda>(E, l, p, x, r, g, bs). length bs)")
  show "wf (measure (\<lambda>(E :: 'v externals, l :: stream_key option, p :: string, x :: expected_map,
      r :: nat, g :: nat, bs :: bytes). length bs))"
    by simp
qed (auto dest: read_next_shrinks)

declare scan_loop.simps [simp del]

definition scan_raw_log_from ::
    "'v externals \<Rightarrow> bytes option \<Rightarrow> string \<Rightarrow> expected_map \<Rightarrow> stream_key option \<Rightarrow> raw_log_scan res" where
  "scan_raw_log_from E file initial_previous expected locked =
     rbind (open_file file) (\<lambda>bs.
     case read_magic bs of
       Inl _ \<Rightarrow>
         Ok \<lparr>sc_file_size = length bs, sc_records = 0, sc_last_good_offset = 0, sc_clean_eof = False,
             sc_reason = Some (Fail ''bad raw log magic''),
             sc_last_record_sha256 = initial_previous, sc_streams = []\<rparr>
     | Inr rest \<Rightarrow>
         rbind (scan_loop E locked initial_previous expected 0 (length MAGIC) rest)
           (\<lambda>(records, good, reason, previous, expected').
             Ok \<lparr>sc_file_size = length bs, sc_records = records, sc_last_good_offset = good,
                 sc_clean_eof = (reason = None), sc_reason = reason,
                 sc_last_record_sha256 = previous, sc_streams = durability_watermarks expected'\<rparr>))"

definition scan_raw_log :: "'v externals \<Rightarrow> bytes option \<Rightarrow> raw_log_scan res" where
  "scan_raw_log E file = scan_raw_log_from E file ZERO_DIGEST [] None"

definition scan_raw_segment :: "'v externals \<Rightarrow> bytes option \<Rightarrow> segment_genesis \<Rightarrow> raw_log_scan res" where
  "scan_raw_segment E file g =
     rbind (validate_segment_genesis g) (\<lambda>_.
       let identity = (sg_connection_epoch g, sg_stream g) in
       scan_raw_log_from E file (sg_previous_segment_terminal_sha256 g)
         [(identity, sg_next_frame_index g)] (Some identity))"

record raw_recovery =
  rv_source_file_size :: nat
  rv_copied_valid_prefix_bytes :: nat
  rv_excluded_tail_bytes :: nat
  rv_recovered_records :: nat
  rv_last_record_sha256 :: string

text \<open>
  \<open>recover_raw_log_prefix\<close>: \<open>destination\<close> is the file already there, if any (\<open>create_new\<close> refuses
  it); the result carries the bytes of the recovered file. The copy and the sync themselves succeed.
\<close>

definition recover_raw_log_prefix ::
    "'v externals \<Rightarrow> bytes option \<Rightarrow> bytes option \<Rightarrow> (raw_recovery \<times> bytes) res" where
  "recover_raw_log_prefix E source destination =
     rbind (scan_raw_log E source) (\<lambda>src.
     if sc_clean_eof src then Err (Fail ''source raw log already has a clean EOF'')
     else if sc_last_good_offset src < length MAGIC
     then Err (Fail ''source has no recoverable BNRAW prefix'')
     else rbind (open_file source) (\<lambda>bs.
       if destination \<noteq> None then Err (Fail ''create recovery output'')
       else
         let output = take (sc_last_good_offset src) bs; copied = length output in
         if copied \<noteq> sc_last_good_offset src
         then Err (FailN ''short recovery copy'' [sc_last_good_offset src, copied])
         else rbind (scan_raw_log E (Some output)) (\<lambda>rec.
           if \<not> sc_clean_eof rec \<or> sc_records rec \<noteq> sc_records src
              \<or> sc_last_record_sha256 rec \<noteq> sc_last_record_sha256 src
           then Err (Fail ''recovered raw prefix failed verification'')
           else Ok (\<lparr>rv_source_file_size = sc_file_size src, rv_copied_valid_prefix_bytes = copied,
                     rv_excluded_tail_bytes = sc_file_size src - copied,
                     rv_recovered_records = sc_records rec,
                     rv_last_record_sha256 = sc_last_record_sha256 rec\<rparr>, output))))"

end
