(* ===== verification/Raw_Log_Correct.thy ===== *)
theory Raw_Log_Correct
  imports Raw_Log_Reader
begin

text \<open>
  What the raw log guarantees. \<open>raw_chain\<close> is the abstract view of a log file: the frames a writer
  accepted, the bytes they occupy, the digest and the per-stream counters at the end. The writer
  keeps this view under every outcome of its sink; the readers and the scan invert it, also on a
  file cut at any byte; and a durability acknowledgement names a prefix that no later cut at or
  beyond the synced length can lose.
\<close>

section \<open>Hypotheses on serde_json\<close>

definition record_wf :: "raw_record \<Rightarrow> bool" where
  "record_wf r \<longleftrightarrow> rr_frame_index r \<le> u64_max \<and> rr_receive_wall_ns r \<le> u64_max
     \<and> rr_receive_mono_ns r \<le> u64_max \<and> rr_payload_length r \<le> u64_max"

text \<open>A JSON value carries the fields of a serialized record.\<close>

definition record_json :: "'v externals \<Rightarrow> 'v \<Rightarrow> raw_record \<Rightarrow> bool" where
  "record_json E v r \<longleftrightarrow>
     field_str E v ''schema'' = Some (rr_schema r)
   \<and> field_str E v ''venue'' = Some (rr_venue r)
   \<and> field_str E v ''environment'' = Some (rr_environment r)
   \<and> field_str E v ''endpoint'' = Some (rr_endpoint r)
   \<and> field_str E v ''stream'' = Some (rr_stream r)
   \<and> field_str E v ''symbol'' = Some (rr_symbol r)
   \<and> field_str E v ''connection_epoch'' = Some (rr_connection_epoch r)
   \<and> field_u64 E v ''frame_index'' = Some (rr_frame_index r)
   \<and> field_u64 E v ''receive_wall_ns'' = Some (rr_receive_wall_ns r)
   \<and> field_u64 E v ''receive_mono_ns'' = Some (rr_receive_mono_ns r)
   \<and> field_str E v ''clock_quality'' = Some (rr_clock_quality r)
   \<and> field_str E v ''clock_source'' = Some (rr_clock_source r)
   \<and> field_i64 E v ''clock_offset_ns'' = rr_clock_offset_ns r
   \<and> field_u64 E v ''clock_uncertainty_ns'' = rr_clock_uncertainty_ns r
   \<and> field_u64 E v ''payload_length'' = Some (rr_payload_length r)
   \<and> field_str E v ''payload_sha256'' = Some (rr_payload_sha256 r)
   \<and> field_str E v ''payload_base64'' = Some (rr_payload_base64 r)
   \<and> field_str E v ''recorder_state'' = Some (rr_recorder_state r)
   \<and> field_str E v ''spec_revision'' = Some (rr_spec_revision r)
   \<and> field_str E v ''previous_record_sha256'' = Some (rr_previous_record_sha256 r)"

text \<open>\<open>from_slice\<close> after \<open>to_vec\<close> gives a value with the record's fields.\<close>

definition serde_round_trip :: "'v externals \<Rightarrow> (raw_record \<Rightarrow> bytes option) \<Rightarrow> bool" where
  "serde_round_trip E to_vec \<longleftrightarrow>
     (\<forall>r body. record_wf r \<longrightarrow> to_vec r = Some body \<longrightarrow>
        (\<exists>v. json_from_slice E body = Some v \<and> record_json E v r))"

definition raw_externals_ok :: "'v externals \<Rightarrow> (raw_record \<Rightarrow> bytes option) \<Rightarrow> bool" where
  "raw_externals_ok E to_vec \<longleftrightarrow> sha256_len32 E \<and> b64_round_trip E \<and> serde_round_trip E to_vec"

section \<open>The abstract log\<close>

definition raw_frame_of :: "captured_frame \<Rightarrow> raw_frame" where
  "raw_frame_of f =
     \<lparr>rf_venue = cf_venue f, rf_environment = cf_environment f, rf_endpoint = cf_endpoint f,
      rf_symbol = cf_symbol f, rf_stream = cf_stream f, rf_connection_epoch = cf_connection_epoch f,
      rf_frame_index = cf_frame_index f, rf_receive_wall_ns = cf_receive_wall_ns f,
      rf_receive_mono_ns = cf_receive_mono_ns f, rf_payload = cf_payload f,
      rf_clock_quality = cf_clock_quality f, rf_clock_source = cf_clock_source f,
      rf_clock_offset_ns = None, rf_clock_uncertainty_ns = None, rf_recorder_state = ''PENDING'',
      rf_spec_revision = cf_spec_revision f\<rparr>"

text \<open>The \<open>u64\<close> and \<open>usize\<close> fields of a captured frame are in range.\<close>

definition frame_wf :: "captured_frame \<Rightarrow> bool" where
  "frame_wf f \<longleftrightarrow> cf_frame_index f \<le> u64_max \<and> cf_receive_wall_ns f \<le> u64_max
     \<and> cf_receive_mono_ns f \<le> u64_max \<and> length (cf_payload f) \<le> u64_max"

inductive raw_chain ::
    "'v externals \<Rightarrow> (raw_record \<Rightarrow> bytes option) \<Rightarrow> string \<Rightarrow> expected_map
      \<Rightarrow> captured_frame list \<Rightarrow> bytes \<Rightarrow> string \<Rightarrow> expected_map \<Rightarrow> bool"
  for E :: "'v externals" and to_vec :: "raw_record \<Rightarrow> bytes option"
    and p :: string and x :: expected_map where
  chain_nil: "raw_chain E to_vec p x [] [] p x"
| chain_snoc:
    "raw_chain E to_vec p x fs bs p' x' \<Longrightarrow> frame_wf f \<Longrightarrow>
     cf_frame_index f = expected_next x' (frame_key f) \<Longrightarrow> cf_frame_index f + 1 \<le> u64_max \<Longrightarrow>
     to_vec (raw_record_of E p' f) = Some body \<Longrightarrow> length body \<le> MAX_RECORD_BYTES \<Longrightarrow>
     raw_chain E to_vec p x (fs @ [f]) (bs @ encode_record E body) (sha256_hex E body)
       (AList.update (frame_key f) (cf_frame_index f + 1) x')"

inductive_cases raw_chain_NilE: "raw_chain E to_vec p x [] bs p' x'"

lemma length_encode_record: "sha256_len32 E \<Longrightarrow> length (encode_record E body) = 36 + length body"
  by (simp add: encode_record_def sha256_len32_def)

section \<open>Reading back one record\<close>

lemma decode_header_encoded:
  assumes "raw_externals_ok E to_vec" "frame_wf f" "to_vec (raw_record_of E p f) = Some body"
  obtains v where "record_json E v (raw_record_of E p f)"
    "decode_header E p body (sha256 E body)
       = Ok (v, cf_payload f, cf_stream f, cf_connection_epoch f, cf_frame_index f)"
proof -
  have "record_wf (raw_record_of E p f)"
    using assms(2) by (simp add: record_wf_def frame_wf_def raw_record_of_def)
  with assms(1,3) obtain v where v: "json_from_slice E body = Some v"
    and rj: "record_json E v (raw_record_of E p f)"
    unfolding raw_externals_ok_def serde_round_trip_def by blast
  have b64: "b64_decode E (b64_encode E (cf_payload f)) = Some (cf_payload f)"
    using assms(1) by (simp add: raw_externals_ok_def b64_round_trip_def)
  have "decode_header E p body (sha256 E body)
          = Ok (v, cf_payload f, cf_stream f, cf_connection_epoch f, cf_frame_index f)"
    using rj v b64
    by (simp add: decode_header_def record_json_def raw_record_of_def required_str_def required_u64_def)
  with rj that show thesis by blast
qed

lemma decode_frame_encoded:
  "record_json E v (raw_record_of E p f) \<Longrightarrow>
     decode_frame E v (cf_payload f) (cf_stream f) (cf_connection_epoch f) (cf_frame_index f)
       = Ok (raw_frame_of f)"
  by (simp add: decode_frame_def record_json_def raw_record_of_def required_str_def required_u64_def
      raw_frame_of_def)

lemma accept_record_encoded:
  assumes "raw_externals_ok E to_vec" "frame_wf f" "to_vec (raw_record_of E p f) = Some body"
    and "cf_frame_index f = expected_next x (frame_key f)" "cf_frame_index f + 1 \<le> u64_max"
  shows "accept_record E p x body (sha256 E body)
           = (Ok (raw_frame_of f), AList.update (frame_key f) (cf_frame_index f + 1) x)"
proof -
  obtain v where rj: "record_json E v (raw_record_of E p f)"
    and dh: "decode_header E p body (sha256 E body)
       = Ok (v, cf_payload f, cf_stream f, cf_connection_epoch f, cf_frame_index f)"
    by (rule decode_header_encoded [OF assms(1-3)])
  have nx: "expected_next x (cf_connection_epoch f, cf_stream f) = cf_frame_index f"
    using assms(4) by (simp add: frame_key_def)
  show ?thesis
    using dh decode_frame_encoded [OF rj] assms(5)
    by (simp add: accept_record_def frame_key_def Let_def nx)
qed

lemma MAX_RECORD_BYTES_u32: "n \<le> MAX_RECORD_BYTES \<Longrightarrow> n < 256 ^ 4"
  by (simp add: MAX_RECORD_BYTES_def)

lemma read_next_encoded:
  assumes "raw_externals_ok E to_vec" "frame_wf f" "to_vec (raw_record_of E p f) = Some body"
    and "cf_frame_index f = expected_next x (frame_key f)" "cf_frame_index f + 1 \<le> u64_max"
    and "length body \<le> MAX_RECORD_BYTES"
  shows "read_next_raw_record E p x (encode_record E body @ rest)
           = (Ok (Some (raw_frame_of f, sha256_hex E body, length (encode_record E body))),
              AList.update (frame_key f) (cf_frame_index f + 1) x, rest)"
proof -
  have len: "length (sha256 E body) = 32" "sha256_len32 E"
    using assms(1) by (simp_all add: raw_externals_ok_def sha256_len32_def)
  have n: "from_be_bytes (be_bytes 4 (length body)) = length body"
    by (rule from_be_bytes_be_bytes) (rule MAX_RECORD_BYTES_u32 [OF assms(6)])
  have "encode_record E body @ rest \<noteq> []" using len(1) by (auto simp: encode_record_def)
  then show ?thesis
    using assms(6) len accept_record_encoded [OF assms(1-5)]
    by (simp add: read_next_raw_record_def encode_record_def read_exact_append n Let_def
        sha256_hex_def)
qed

lemma read_next_torn:
  assumes "sha256_len32 E" "length body \<le> MAX_RECORD_BYTES" "0 < k" "k < length (encode_record E body)"
  obtains msg where "read_next_raw_record E p x (take k (encode_record E body)) = (Err (Fail msg), x, [])"
proof -
  have len: "length (sha256 E body) = 32" using assms(1) by (simp add: sha256_len32_def)
  have n: "from_be_bytes (be_bytes 4 (length body)) = length body"
    by (rule from_be_bytes_be_bytes) (rule MAX_RECORD_BYTES_u32 [OF assms(2)])
  have ne: "take k (encode_record E body) \<noteq> []" using assms(3,4) by auto
  consider (a) "k < 4" | (b) "4 \<le> k" "k - 4 < length body" | (c) "4 + length body \<le> k" by linarith
  then show thesis
  proof cases
    case a
    then have "read_exact 4 (take k (encode_record E body)) = None" by (intro read_exact_short) simp
    with ne that show thesis by (simp add: read_next_raw_record_def)
  next
    case b
    then have t: "take k (encode_record E body) = be_bytes 4 (length body) @ take (k - 4) (body @ sha256 E body)"
      by (simp add: encode_record_def)
    have "read_exact (length body) (take (k - 4) (body @ sha256 E body)) = None"
      using b by (intro read_exact_short) simp
    with ne that assms(2) show thesis
      by (simp add: read_next_raw_record_def t read_exact_append n Let_def)
  next
    case c
    then have t: "take k (encode_record E body)
        = be_bytes 4 (length body) @ body @ take (k - 4 - length body) (sha256 E body)"
      by (simp add: encode_record_def)
    have "read_exact 32 (take (k - 4 - length body) (sha256 E body)) = None"
      using assms(4) len c by (intro read_exact_short) (simp add: encode_record_def)
    with ne that assms(2) show thesis
      by (simp add: read_next_raw_record_def t read_exact_append n Let_def)
  qed
qed

section \<open>Reading and scanning a chain\<close>

lemma scan_loop_chain:
  assumes "raw_chain E to_vec p x fs bs p' x'" "raw_externals_ok E to_vec"
    and "r + length fs \<le> u64_max" "g + length bs \<le> u64_max"
  shows "scan_loop E None p x r g (bs @ rest) = scan_loop E None p' x' (r + length fs) (g + length bs) rest"
  using assms
proof (induction arbitrary: rest rule: raw_chain.induct)
  case chain_nil
  then show ?case by simp
next
  case (chain_snoc fs bs p' x' f body)
  let ?x = "AList.update (frame_key f) (cf_frame_index f + 1) x'"
  have "scan_loop E None p x r g (bs @ encode_record E body @ rest)
      = scan_loop E None p' x' (r + length fs) (g + length bs) (encode_record E body @ rest)"
    using chain_snoc by simp
  also have "\<dots> = scan_loop E None (sha256_hex E body) ?x (r + length fs + 1)
                   (g + length bs + length (encode_record E body)) rest"
    using chain_snoc read_next_encoded [OF chain_snoc.prems(1) chain_snoc.hyps(2,5,3,4,6)]
    by (subst scan_loop.simps) (simp add: checked_add_def)
  finally show ?case by (simp add: algebra_simps)
qed

definition envelopes_of :: "nat \<Rightarrow> captured_frame list \<Rightarrow> raw_record_envelope list \<Rightarrow> bool" where
  "envelopes_of n fs envs \<longleftrightarrow> map re_frame envs = map raw_frame_of fs
     \<and> map re_record_index envs = [n ..< n + length fs]"

text \<open>Where each record of a chain ends, and the digest the chain has there.\<close>

definition chain_positions ::
    "'v externals \<Rightarrow> (raw_record \<Rightarrow> bytes option) \<Rightarrow> string \<Rightarrow> expected_map \<Rightarrow> nat
      \<Rightarrow> captured_frame list \<Rightarrow> raw_record_envelope list \<Rightarrow> bool" where
  "chain_positions E to_vec p x s fs envs \<longleftrightarrow> length envs = length fs
     \<and> (\<forall>k<length fs. \<exists>b q y. raw_chain E to_vec p x (take (Suc k) fs) b q y
          \<and> re_end_offset (envs ! k) = s + length b \<and> re_record_sha256 (envs ! k) = q)"

lemma chain_positions_snoc:
  assumes "chain_positions E to_vec p x s fs envs" "raw_chain E to_vec p x (fs @ [f]) b q y"
    and "re_end_offset env = s + length b" "re_record_sha256 env = q"
  shows "chain_positions E to_vec p x s (fs @ [f]) (envs @ [env])"
  using assms by (fastforce simp: chain_positions_def nth_append less_Suc_eq)

lemma read_records_chain:
  assumes "raw_chain E to_vec p x fs bs p' x'" "raw_externals_ok E to_vec" "s + length bs \<le> u64_max"
  shows "\<exists>envs. envelopes_of n fs envs \<and> chain_positions E to_vec p x s fs envs
     \<and> (if envs = [] then s else re_end_offset (last envs)) = s + length bs
     \<and> (\<forall>rest. read_raw_records_after_magic E s p x n (bs @ rest)
          = rbind (read_raw_records_after_magic E (s + length bs) p' x' (n + length fs) rest)
              (\<lambda>rs. Ok (envs @ rs)))"
  using assms
proof (induction rule: raw_chain.induct)
  case chain_nil
  have "rbind m (\<lambda>rs. Ok ([] @ rs)) = m" for m :: "raw_record_envelope list res"
    by (cases m) auto
  then show ?case by (intro exI [of _ "[]"]) (simp add: envelopes_of_def chain_positions_def)
next
  case (chain_snoc fs bs p' x' f body)
  then obtain envs where envs: "envelopes_of n fs envs" "chain_positions E to_vec p x s fs envs"
    and rd: "\<And>rest. read_raw_records_after_magic E s p x n (bs @ rest)
          = rbind (read_raw_records_after_magic E (s + length bs) p' x' (n + length fs) rest)
              (\<lambda>rs. Ok (envs @ rs))"
    by auto
  define env where "env = \<lparr>re_record_index = n + length fs, re_start_offset = s + length bs,
    re_end_offset = s + length bs + length (encode_record E body),
    re_record_sha256 = sha256_hex E body, re_frame = raw_frame_of f\<rparr>"
  have "read_raw_records_after_magic E s p x n ((bs @ encode_record E body) @ rest)
      = rbind (read_raw_records_after_magic E (s + length (bs @ encode_record E body)) (sha256_hex E body)
               (AList.update (frame_key f) (cf_frame_index f + 1) x') (n + length (fs @ [f])) rest)
          (\<lambda>rs. Ok ((envs @ [env]) @ rs))" for rest
    using chain_snoc.prems(2) read_next_encoded [OF chain_snoc.prems(1) chain_snoc.hyps(2,5,3,4,6)]
    by (simp add: rd, subst read_raw_records_after_magic.simps)
      (simp add: checked_add_def rbind_assoc add.assoc env_def)
  moreover have "envelopes_of n (fs @ [f]) (envs @ [env])"
    using envs(1) by (simp add: envelopes_of_def env_def)
  moreover have "chain_positions E to_vec p x s (fs @ [f]) (envs @ [env])"
    by (rule chain_positions_snoc [OF envs(2) raw_chain.chain_snoc [OF chain_snoc.hyps]]) (simp_all add: env_def)
  ultimately show ?case by (intro exI [of _ "envs @ [env]"]) (simp add: env_def)
qed

lemma read_records_empty [simp]: "read_raw_records_after_magic E s p x n [] = Ok []"
  by (subst read_raw_records_after_magic.simps) (simp add: read_next_raw_record_def)

lemma scan_loop_empty [simp]: "scan_loop E l p x r g [] = Ok (r, g, None, p, x)"
  by (subst scan_loop.simps) (simp add: read_next_raw_record_def)

lemma read_magic_MAGIC [simp]: "read_magic (MAGIC @ rest) = Ok rest"
  by (simp add: read_magic_def MAGIC_def read_exact_def)

lemma length_MAGIC [simp]: "length MAGIC = 8"
  by (simp add: MAGIC_def)

lemma read_raw_records_chain:
  assumes "raw_chain E to_vec ZERO_DIGEST [] fs bs p' x'" "raw_externals_ok E to_vec"
    and "8 + length bs \<le> u64_max"
  shows "\<exists>envs. read_raw_records E (Some (MAGIC @ bs)) = Ok envs \<and> envelopes_of 0 fs envs
     \<and> (if envs = [] then 8 else re_end_offset (last envs)) = 8 + length bs"
proof -
  from read_records_chain [OF assms, of 0] obtain envs where e: "envelopes_of 0 fs envs"
    "(if envs = [] then 8 else re_end_offset (last envs)) = 8 + length bs"
    and rd: "\<And>rest. read_raw_records_after_magic E 8 ZERO_DIGEST [] 0 (bs @ rest)
          = rbind (read_raw_records_after_magic E (8 + length bs) p' x' (0 + length fs) rest)
              (\<lambda>rs. Ok (envs @ rs))" by blast
  from rd [of "[]"] have "read_raw_records_after_magic E 8 ZERO_DIGEST [] 0 bs = Ok envs" by simp
  with e show ?thesis by (auto simp: read_raw_records_def open_file_def)
qed

section \<open>Chains: prefixes and cuts\<close>

text \<open>A torn tail: nothing, or a proper non-empty part of one encoded record.\<close>

definition torn :: "'v externals \<Rightarrow> bytes \<Rightarrow> bool" where
  "torn E tail \<longleftrightarrow> tail = [] \<or>
     (\<exists>body k. length body \<le> MAX_RECORD_BYTES \<and> 0 < k \<and> k < length (encode_record E body)
        \<and> tail = take k (encode_record E body))"

lemma encode_record_min: "4 \<le> length (encode_record E body)"
  by (simp add: encode_record_def)

lemma raw_chain_length: "raw_chain E to_vec p x fs bs p' x' \<Longrightarrow> length fs \<le> length bs"
proof (induction rule: raw_chain.induct)
  case chain_nil
  then show ?case by simp
next
  case (chain_snoc fs bs p' x' f body)
  have "Suc (length fs) \<le> length bs + length (encode_record E body)"
    using chain_snoc.IH encode_record_min [of E body] by linarith
  then show ?case by simp
qed

lemma raw_chain_det:
  "raw_chain E to_vec p x fs bs p' x' \<Longrightarrow> raw_chain E to_vec p x fs bs2 p2 x2
    \<Longrightarrow> bs2 = bs \<and> p2 = p' \<and> x2 = x'"
proof (induction arbitrary: bs2 p2 x2 rule: raw_chain.induct)
  case chain_nil
  then show ?case by (auto elim: raw_chain_NilE)
next
  case (chain_snoc fs bs p' x' f body)
  from chain_snoc.prems show ?case
    by (rule raw_chain.cases) (use chain_snoc.IH chain_snoc.hyps in fastforce)+
qed

lemma raw_chain_split:
  "raw_chain E to_vec p x (fs1 @ fs2) bs p' x'
    \<Longrightarrow> \<exists>bs1 bs2 p1 x1. raw_chain E to_vec p x fs1 bs1 p1 x1 \<and> raw_chain E to_vec p1 x1 fs2 bs2 p' x' \<and> bs = bs1 @ bs2"
proof (induction fs2 arbitrary: bs p' x' rule: rev_induct)
  case Nil
  then show ?case by (intro exI [of _ bs] exI [of _ "[]"] exI [of _ p'] exI [of _ x']) (auto intro: chain_nil)
next
  case (snoc f fs2)
  from snoc.prems show ?case
  proof (cases rule: raw_chain.cases)
    case (chain_snoc fs bs0 p0 x0 f' body)
    then have "raw_chain E to_vec p x (fs1 @ fs2) bs0 p0 x0" by simp
    from snoc.IH [OF this] obtain bs1 bs2 p1 x1
      where "raw_chain E to_vec p x fs1 bs1 p1 x1" "raw_chain E to_vec p1 x1 fs2 bs2 p0 x0" "bs0 = bs1 @ bs2" by blast
    with chain_snoc show ?thesis by (fastforce dest: raw_chain.chain_snoc)
  qed simp
qed

lemma raw_chain_append:
  "raw_chain E to_vec p x (fs1 @ fs2) bs p' x'
    \<Longrightarrow> \<exists>bs1 bs2 p1 x1. raw_chain E to_vec p x fs1 bs1 p1 x1 \<and> bs = bs1 @ bs2"
  using raw_chain_split by blast

lemma raw_chain_prefix_length:
  assumes "raw_chain E to_vec p x (fs1 @ fs2) bs p' x'" "raw_chain E to_vec p x fs1 bs1 p1 x1"
  shows "length bs1 \<le> length bs"
proof -
  from raw_chain_append [OF assms(1)] obtain b1 b2 q y
    where "raw_chain E to_vec p x fs1 b1 q y" "bs = b1 @ b2" by blast
  with raw_chain_det [OF assms(2)] show ?thesis by auto
qed

lemma raw_chain_cut:
  assumes "raw_chain E to_vec p x fs bs p' x'" "n \<le> length bs"
  shows "\<exists>fs1 fs2 bs1 p1 x1 tail. fs = fs1 @ fs2 \<and> raw_chain E to_vec p x fs1 bs1 p1 x1
     \<and> take n bs = bs1 @ tail \<and> torn E tail
     \<and> (fs2 \<noteq> [] \<longrightarrow> (\<exists>b p2 x2. raw_chain E to_vec p x (fs1 @ [hd fs2]) b p2 x2 \<and> n < length b))"
  using assms
proof (induction rule: raw_chain.induct)
  case chain_nil
  then show ?case by (intro exI [of _ "[]"] exI) (auto simp: torn_def intro: raw_chain.chain_nil)
next
  case (chain_snoc fs bs p' x' f body)
  let ?enc = "encode_record E body"
  note next_chain = raw_chain.chain_snoc [OF chain_snoc.hyps]
  show ?case
  proof (cases "n \<le> length bs")
    case True
    from chain_snoc.IH [OF True] obtain fs1 fs2 bs1 p1 x1 tail where
      c: "fs = fs1 @ fs2" "raw_chain E to_vec p x fs1 bs1 p1 x1" "take n bs = bs1 @ tail" "torn E tail"
      and m: "fs2 \<noteq> [] \<longrightarrow> (\<exists>b p2 x2. raw_chain E to_vec p x (fs1 @ [hd fs2]) b p2 x2 \<and> n < length b)"
      by blast
    have "n < length (bs @ ?enc)" using True encode_record_min [of E body] by simp
    then have "\<exists>b p2 x2. raw_chain E to_vec p x (fs1 @ [hd (fs2 @ [f])]) b p2 x2 \<and> n < length b"
    proof (cases "fs2 = []")
      case True
      with next_chain c(1) \<open>n < length (bs @ ?enc)\<close> show ?thesis by fastforce
    next
      case False
      with m show ?thesis by simp
    qed
    with c True show ?thesis
      by (intro exI [of _ fs1] exI [of _ "fs2 @ [f]"] exI [of _ bs1] exI [of _ p1] exI [of _ x1]
          exI [of _ tail]) simp
  next
    case False
    then have tk: "take n (bs @ ?enc) = bs @ take (n - length bs) ?enc" by simp
    show ?thesis
    proof (cases "n = length (bs @ ?enc)")
      case True
      then have "take n (bs @ ?enc) = (bs @ ?enc) @ []" by simp
      with next_chain show ?thesis
        by (intro exI [of _ "fs @ [f]"] exI [of _ "[]"] exI) (auto simp: torn_def)
    next
      case ne: False
      then have "n < length (bs @ ?enc)" using chain_snoc.prems by simp
      then have "torn E (take (n - length bs) ?enc)"
        unfolding torn_def using False chain_snoc.hyps(6)
        by (intro disjI2 exI [of _ body] exI [of _ "n - length bs"]) auto
      with tk chain_snoc.hyps(1) next_chain \<open>n < length (bs @ ?enc)\<close> show ?thesis
        by - (rule exI [of _ fs], rule exI [of _ "[f]"], rule exI [of _ bs],
            rule exI [of _ p'], rule exI [of _ x'],
            rule exI [of _ "take (n - length bs) ?enc"], fastforce)
    qed
  qed
qed

lemma scan_loop_torn:
  assumes "sha256_len32 E" "torn E tail"
  shows "\<exists>reason. scan_loop E None p x r g tail = Ok (r, g, reason, p, x) \<and> (reason = None \<longleftrightarrow> tail = [])"
proof (cases "tail = []")
  case True
  then show ?thesis by simp
next
  case False
  with assms(2) obtain body k where "length body \<le> MAX_RECORD_BYTES" "0 < k"
    "k < length (encode_record E body)" "tail = take k (encode_record E body)"
    by (auto simp: torn_def)
  moreover from read_next_torn [OF assms(1) this(1-3)] obtain msg where
    "read_next_raw_record E p x (take k (encode_record E body)) = (Err (Fail msg), x, [])" by blast
  ultimately show ?thesis using False by (subst scan_loop.simps) simp
qed

text \<open>What a scan reports about the file of a chain with a torn tail.\<close>

lemma scan_raw_log_chain:
  assumes "raw_chain E to_vec ZERO_DIGEST [] fs bs p' x'" "raw_externals_ok E to_vec" "torn E tail"
    and "8 + length bs \<le> u64_max"
  shows "\<exists>sc. scan_raw_log E (Some (MAGIC @ bs @ tail)) = Ok sc \<and> sc_records sc = length fs
     \<and> sc_last_good_offset sc = 8 + length bs \<and> sc_clean_eof sc = (tail = [])
     \<and> sc_last_record_sha256 sc = p' \<and> sc_streams sc = durability_watermarks x'
     \<and> sc_file_size sc = 8 + length bs + length tail"
proof -
  have "sha256_len32 E" using assms(2) by (simp add: raw_externals_ok_def)
  from scan_loop_torn [OF this assms(3), of p' x' "length fs" "8 + length bs"] obtain reason where
    t: "scan_loop E None p' x' (length fs) (8 + length bs) tail = Ok (length fs, 8 + length bs, reason, p', x')"
    "reason = None \<longleftrightarrow> tail = []" by blast
  have "length fs \<le> u64_max" using raw_chain_length [OF assms(1)] assms(4) by simp
  then have "scan_loop E None ZERO_DIGEST [] 0 8 (bs @ tail)
      = scan_loop E None p' x' (length fs) (8 + length bs) tail"
    using scan_loop_chain [OF assms(1,2), of 0 8 tail] assms(4) by simp
  with t show ?thesis by (simp add: scan_raw_log_def scan_raw_log_from_def open_file_def)
qed

end
