(* ===== verification/Raw_Log_Safety.thy ===== *)
theory Raw_Log_Safety
  imports Raw_Log_Correct
begin

text \<open>
  The writer's invariant and the claims about the raw log. \<open>writer_log\<close> ties a writer to the frames
  it has put in the file; every operation keeps it, whatever its sink does, unless it aborts or
  exhausts the \<open>u64\<close> offset space. The properties then follow from the chain lemmas of
  \<open>Raw_Log_Correct\<close>.
\<close>

section \<open>The writer invariant\<close>

definition ack_covers ::
    "'v externals \<Rightarrow> (raw_record \<Rightarrow> bytes option) \<Rightarrow> string \<Rightarrow> expected_map
      \<Rightarrow> captured_frame list \<Rightarrow> durability_ack \<Rightarrow> bool" where
  "ack_covers E to_vec p x fs a \<longleftrightarrow>
     (\<exists>fs1 fs2 bs1 x1. fs = fs1 @ fs2 \<and> raw_chain E to_vec p x fs1 bs1 (da_last_record_sha256 a) x1
        \<and> da_durable_record_count a = length fs1 \<and> da_durable_through_offset a = 8 + length bs1
        \<and> da_streams a = durability_watermarks x1)"

definition writer_log ::
    "'v externals \<Rightarrow> (raw_record \<Rightarrow> bytes option) \<Rightarrow> string \<Rightarrow> expected_map
      \<Rightarrow> captured_frame list \<Rightarrow> raw_log_writer \<Rightarrow> bool" where
  "writer_log E to_vec p x fs w \<longleftrightarrow>
     (\<exists>bs tail. raw_chain E to_vec p x fs bs (w_previous_digest w) (w_expected w)
        \<and> sk_data (w_sink w) = MAGIC @ bs @ tail \<and> torn E tail \<and> (\<not> w_poisoned w \<longrightarrow> tail = [])
        \<and> w_record_count w = length fs \<and> w_end_offset w = 8 + length bs \<and> 8 + length bs \<le> u64_max)
   \<and> (\<forall>a. w_last_ack w = Some a \<longrightarrow>
        ack_covers E to_vec p x fs a \<and> da_durable_through_offset a \<le> sk_synced (w_sink w))
   \<and> sk_synced (w_sink w) \<le> length (sk_data (w_sink w))"

text \<open>An abort, or the one error after which the writer's counters lag behind the file.\<close>

definition fatal :: "'a res \<Rightarrow> bool" where
  "fatal r \<longleftrightarrow> r = Err Panic \<or> r = Err (Fail ''raw offset overflow'')"

lemma ack_covers_mono: "ack_covers E to_vec p x fs a \<Longrightarrow> ack_covers E to_vec p x (fs @ gs) a"
  unfolding ack_covers_def by (metis append_assoc)

lemma sink_sync_props:
  assumes "sink_sync s = (ok, s')"
  shows "sk_data s' = sk_data s"
    and "sk_synced s' = (if ok then length (sk_data s) else sk_synced s)"
  using assms by (auto simp: sink_sync_def split: list.splits io_outcome.splits)

lemma writer_sync_log:
  assumes "writer_log E to_vec p x fs w" "writer_sync w = (r, w')"
  shows "writer_log E to_vec p x fs w'"
proof (cases "w_poisoned w")
  case True
  with assms show ?thesis by (simp add: writer_sync_def)
next
  case False
  obtain ok sk where sk: "sink_sync (w_sink w) = (ok, sk)" by fastforce
  from assms(1) False obtain bs where
    bs: "raw_chain E to_vec p x fs bs (w_previous_digest w) (w_expected w)"
    "sk_data (w_sink w) = MAGIC @ bs" "w_record_count w = length fs" "w_end_offset w = 8 + length bs"
    "8 + length bs \<le> u64_max"
    and a: "\<And>a. w_last_ack w = Some a \<Longrightarrow>
      ack_covers E to_vec p x fs a \<and> da_durable_through_offset a \<le> sk_synced (w_sink w)"
    and y: "sk_synced (w_sink w) \<le> length (sk_data (w_sink w))"
    by (auto simp: writer_log_def)
  note sp = sink_sync_props [OF sk]
  have t: "torn E []" by (simp add: torn_def)
  show ?thesis
  proof (cases ok)
    case True
    have "ack_covers E to_vec p x fs \<lparr>da_schema = ''DurabilityAckV1'', da_durable_record_count = length fs,
        da_durable_through_offset = 8 + length bs, da_last_record_sha256 = w_previous_digest w,
        da_streams = durability_watermarks (w_expected w)\<rparr>"
      using bs(1) by (auto simp: ack_covers_def)
    with True False assms(2) bs sp sk t show ?thesis
      by (auto simp: writer_sync_def writer_log_def Let_def)
  next
    case nok: False
    with False assms(2) bs sp sk t a y show ?thesis
      by (auto simp: writer_sync_def writer_log_def Let_def)
  qed
qed

lemma append_commit_log:
  assumes "writer_log E to_vec p x fs (w\<lparr>w_sink := skin\<rparr>)" "\<not> w_poisoned w"
    and "sk_data sk = sk_data skin @ encode_record E body" "sk_synced sk = sk_synced skin"
    and "frame_wf f" "cf_frame_index f = expected_next (w_expected w) (frame_key f)"
    and "to_vec (raw_record_of E (w_previous_digest w) f) = Some body" "length body \<le> MAX_RECORD_BYTES"
    and "append_commit E (w\<lparr>w_sink := sk\<rparr>) f body = (r, w')" "\<not> fatal r"
  shows "writer_log E to_vec p x (fs @ [f]) w'"
proof -
  from assms(1,2) obtain bs where
    bs: "raw_chain E to_vec p x fs bs (w_previous_digest w) (w_expected w)"
    "sk_data skin = MAGIC @ bs" "w_record_count w = length fs" "w_end_offset w = 8 + length bs"
    and a: "\<And>a. w_last_ack w = Some a \<Longrightarrow>
      ack_covers E to_vec p x fs a \<and> da_durable_through_offset a \<le> sk_synced skin"
    and y: "sk_synced skin \<le> length (sk_data skin)"
    by (auto simp: writer_log_def)
  define w5 where "w5 = w\<lparr>w_sink := sk, w_previous_digest := sha256_hex E body,
    w_expected := AList.update (frame_key f) (cf_frame_index f + 1) (w_expected w),
    w_record_count := w_record_count w + 1,
    w_end_offset := w_end_offset w + length (encode_record E body),
    w_since_sync := w_since_sync w + 1\<rparr>"
  from assms(6,9,10) have ov: "cf_frame_index f + 1 \<le> u64_max"
    "w_end_offset w + length (encode_record E body) \<le> u64_max"
    and r: "(r, w') = (if w_sync_every w5 \<le> w_since_sync w5
        then (case writer_sync w5 of (Inl e, w6) \<Rightarrow> (Err e, w6)
              | (Inr ack, w6) \<Rightarrow> (Ok \<lparr>ar_record_index = w_record_count w, ar_end_offset = w_end_offset w6,
                   ar_record_sha256 = w_previous_digest w6, ar_durability_ack = Some ack\<rparr>, w6))
        else (Ok \<lparr>ar_record_index = w_record_count w, ar_end_offset = w_end_offset w5,
                   ar_record_sha256 = w_previous_digest w5, ar_durability_ack = None\<rparr>, w5))"
    by (auto simp: append_commit_def Let_def fatal_def w5_def split: if_splits option.splits)
  have chain: "raw_chain E to_vec p x (fs @ [f]) (bs @ encode_record E body) (sha256_hex E body)
      (AList.update (frame_key f) (cf_frame_index f + 1) (w_expected w))"
    using raw_chain.chain_snoc [OF bs(1) assms(5,6) ov(1) assms(7,8)] .
  have "writer_log E to_vec p x (fs @ [f]) w5"
    unfolding writer_log_def
  proof (intro conjI)
    show "\<exists>b tail. raw_chain E to_vec p x (fs @ [f]) b (w_previous_digest w5) (w_expected w5)
        \<and> sk_data (w_sink w5) = MAGIC @ b @ tail \<and> torn E tail \<and> (\<not> w_poisoned w5 \<longrightarrow> tail = [])
        \<and> w_record_count w5 = length (fs @ [f]) \<and> w_end_offset w5 = 8 + length b \<and> 8 + length b \<le> u64_max"
      using chain assms(3) bs ov
      by (intro exI [of _ "bs @ encode_record E body"] exI [of _ "[]"]) (auto simp: w5_def torn_def)
    show "\<forall>a. w_last_ack w5 = Some a \<longrightarrow> ack_covers E to_vec p x (fs @ [f]) a
        \<and> da_durable_through_offset a \<le> sk_synced (w_sink w5)"
      using a assms(4) by (auto simp: w5_def intro: ack_covers_mono)
    show "sk_synced (w_sink w5) \<le> length (sk_data (w_sink w5))"
      using y assms(3,4) by (simp add: w5_def)
  qed
  with r writer_sync_log show ?thesis
    by (auto split: if_splits prod.splits sum.splits)
qed

lemma sink_write_all_props:
  assumes "sink_write_all bs s = (ok, s')"
  shows "sk_synced s' = sk_synced s"
    and "ok \<Longrightarrow> sk_data s' = sk_data s @ bs"
    and "\<not> ok \<Longrightarrow> \<exists>k. sk_data s' = sk_data s @ take (min k (length bs - 1)) bs"
  using assms by (auto simp: sink_write_all_def split: list.splits io_outcome.splits)

text \<open>Every append keeps the invariant, for the same frames or for one more.\<close>

lemma writer_sync_poison:
  "writer_sync w = (r, w') \<Longrightarrow> \<not> w_poisoned w \<Longrightarrow> w_poisoned w' \<longleftrightarrow> (\<exists>e. r = Err e)"
  by (auto simp: writer_sync_def Let_def split: if_splits prod.splits)

lemma append_commit_poison:
  "append_commit E w f body = (r, w') \<Longrightarrow> \<not> fatal r \<Longrightarrow> \<not> w_poisoned w \<Longrightarrow>
     w_poisoned w' \<longleftrightarrow> (\<exists>e. r = Err e)"
  by (auto simp: append_commit_def Let_def fatal_def dest: writer_sync_poison
      split: if_splits option.splits prod.splits sum.splits)

lemma writer_append_log:
  assumes "writer_log E to_vec p x fs w" "frame_wf f"
    and "writer_append E to_vec w f = (r, w')" "\<not> fatal r"
  shows "case r of Inr _ \<Rightarrow> writer_log E to_vec p x (fs @ [f]) w' \<and> \<not> w_poisoned w'
     | Inl _ \<Rightarrow> writer_log E to_vec p x fs w' \<and> (w' = w \<or> w_poisoned w')
         \<or> writer_log E to_vec p x (fs @ [f]) w' \<and> w_poisoned w' \<and> \<not> w_poisoned w"
proof (cases "w' = w \<and> (\<forall>a. r \<noteq> Ok a)")
  case True
  with assms(1) show ?thesis by (auto split: sum.splits)
next
  case changed: False
  from assms(3) changed obtain body ok sk where
    np: "\<not> w_poisoned w" and idx: "cf_frame_index f = expected_next (w_expected w) (frame_key f)"
    and body: "to_vec (raw_record_of E (w_previous_digest w) f) = Some body"
    and len: "length body \<le> MAX_RECORD_BYTES"
    and sk: "sink_write_all (encode_record E body) (w_sink w) = (ok, sk)"
    and r: "(r, w') = (if ok then append_commit E (w\<lparr>w_sink := sk\<rparr>) f body
        else (Err (Fail ''write raw record; writer poisoned''), w\<lparr>w_sink := sk, w_poisoned := True\<rparr>))"
    by (auto simp: writer_append_def Let_def split: if_splits option.splits prod.splits)
  note sp = sink_write_all_props [OF sk]
  show ?thesis
  proof (cases ok)
    case True
    have "writer_log E to_vec p x (fs @ [f]) w'"
      by (rule append_commit_log [where skin = "w_sink w" and sk = sk and w = w and body = body and r = r])
        (use assms np idx body len sp True r in auto)
    moreover have "w_poisoned w' \<longleftrightarrow> (\<exists>e. r = Err e)"
      by (rule append_commit_poison [of E "w\<lparr>w_sink := sk\<rparr>" f body]) (use True r np assms(4) in auto)
    ultimately show ?thesis using np by (auto split: sum.splits)
  next
    case False
    then obtain k where k: "sk_data sk = sk_data (w_sink w) @ take (min k (length (encode_record E body) - 1))
        (encode_record E body)" using sp(3) by blast
    have "torn E (take (min k (length (encode_record E body) - 1)) (encode_record E body))"
      using len encode_record_min [of E body]
      by (cases "k = 0") (auto simp: torn_def intro!: exI [of _ body]
          exI [of _ "min k (length (encode_record E body) - 1)"])
    with assms(1) np r False k sp(1) show ?thesis
      by (auto simp: writer_log_def)
  qed
qed

lemma writer_initialize_log:
  assumes "writer_initialize skin sync_every g = Ok w" "sk_data skin = []"
  shows "writer_log E to_vec (w_previous_digest w) (w_expected w) [] w" and "\<not> w_poisoned w"
proof -
  obtain ok1 sk1 where s1: "sink_write_all MAGIC skin = (ok1, sk1)" by fastforce
  obtain ok2 sk2 where s2: "sink_sync sk1 = (ok2, sk2)" by fastforce
  from assms(1) s1 s2 have ok: "ok1" "ok2" and w: "w_sink w = sk2" "w_record_count w = 0"
    "w_end_offset w = 8" "\<not> w_poisoned w" "w_last_ack w = None"
    by (auto simp: writer_initialize_def Let_def split: if_splits option.splits)
  have "sk_data sk2 = MAGIC" "sk_synced sk2 = 8"
    using sink_write_all_props(2) [OF s1 ok(1)] sink_sync_props [OF s2] ok(2) assms(2) by simp_all
  then show "writer_log E to_vec (w_previous_digest w) (w_expected w) [] w"
    using w by (auto simp: writer_log_def torn_def u64_max_def intro: raw_chain.chain_nil)
  show "\<not> w_poisoned w" by (rule w)
qed

section \<open>A whole capture session\<close>

text \<open>
  A session: appends and syncs in any order from a writer \<open>w0\<close>, for as long as none of them is
  fatal. \<open>session E to_vec w0 acc w\<close> says that \<open>w\<close> is reached and \<open>acc\<close> are the frames whose append
  returned \<open>Ok\<close>.
\<close>

inductive session ::
    "'v externals \<Rightarrow> (raw_record \<Rightarrow> bytes option) \<Rightarrow> raw_log_writer \<Rightarrow> captured_frame list
      \<Rightarrow> raw_log_writer \<Rightarrow> bool"
  for E :: "'v externals" and to_vec :: "raw_record \<Rightarrow> bytes option" and w0 :: raw_log_writer where
  session_start: "session E to_vec w0 [] w0"
| session_append: "session E to_vec w0 acc w \<Longrightarrow> frame_wf f \<Longrightarrow>
     writer_append E to_vec w f = (Inr receipt, w') \<Longrightarrow> session E to_vec w0 (acc @ [f]) w'"
| session_reject: "session E to_vec w0 acc w \<Longrightarrow> frame_wf f \<Longrightarrow>
     writer_append E to_vec w f = (Inl e, w') \<Longrightarrow> \<not> fatal (Inl e :: append_receipt res) \<Longrightarrow>
     session E to_vec w0 acc w'"
| session_sync: "session E to_vec w0 acc w \<Longrightarrow> writer_sync w = (r, w') \<Longrightarrow> session E to_vec w0 acc w'"

text \<open>The frames in the file: the acknowledged ones, and at most one whose sync failed.\<close>

definition file_frames :: "captured_frame list \<Rightarrow> raw_log_writer \<Rightarrow> captured_frame list \<Rightarrow> bool" where
  "file_frames acc w fs \<longleftrightarrow> fs = acc \<or> w_poisoned w \<and> (\<exists>f. fs = acc @ [f])"

lemma poisoned_append: "w_poisoned w \<Longrightarrow> writer_append E to_vec w f = (Err (Fail ''raw writer is poisoned''), w)"
  by (simp add: writer_append_def)

lemma poisoned_sync: "w_poisoned w \<Longrightarrow> writer_sync w = (Err (Fail ''raw writer is poisoned''), w)"
  by (simp add: writer_sync_def)

lemma session_log:
  assumes "session E to_vec w0 acc w" "writer_log E to_vec p x [] w0"
  shows "\<exists>fs. writer_log E to_vec p x fs w \<and> file_frames acc w fs"
  using assms
proof (induction rule: session.induct)
  case session_start
  then show ?case by (auto simp: file_frames_def)
next
  case (session_append acc w f receipt w')
  then obtain fs where fs: "writer_log E to_vec p x fs w" "file_frames acc w fs" by blast
  have "\<not> w_poisoned w" using session_append(3) by (auto simp: writer_append_def)
  with fs have "fs = acc" by (simp add: file_frames_def)
  with writer_append_log [OF fs(1) session_append(2,3)] show ?case
    by (auto simp: file_frames_def fatal_def)
next
  case (session_reject acc w f e w')
  then obtain fs where fs: "writer_log E to_vec p x fs w" "file_frames acc w fs" by blast
  from writer_append_log [OF fs(1) session_reject(2-4)] consider
    (same) "writer_log E to_vec p x fs w'" "w' = w \<or> w_poisoned w'"
    | (more) "writer_log E to_vec p x (fs @ [f]) w'" "w_poisoned w'" "\<not> w_poisoned w"
    by auto
  then show ?case
  proof cases
    case same
    with fs(2) show ?thesis by (auto simp: file_frames_def)
  next
    case more
    with fs(2) show ?thesis by (auto simp: file_frames_def)
  qed
next
  case (session_sync acc w r w')
  then obtain fs where fs: "writer_log E to_vec p x fs w" "file_frames acc w fs" by blast
  from writer_sync_log [OF fs(1) session_sync(2)] fs(2) show ?case
    using poisoned_sync session_sync(2) by (fastforce simp: file_frames_def)
qed

lemma fresh_log:
  assumes "writer_from_sink sk sync_every = Ok w0" "sk_data sk = []"
  shows "writer_log E to_vec ZERO_DIGEST [] [] w0"
proof -
  from assms(1) have "w_previous_digest w0 = ZERO_DIGEST" "w_expected w0 = []"
    by (auto simp: writer_from_sink_def writer_initialize_def Let_def split: if_splits prod.splits)
  with writer_initialize_log(1) [OF assms(1) [unfolded writer_from_sink_def] assms(2)] show ?thesis
    by metis
qed

section \<open>Crashes\<close>

lemma torn_take: "torn E tail \<Longrightarrow> torn E (take m tail)"
proof (cases "take m tail = []")
  case True
  then show ?thesis by (simp add: torn_def)
next
  case False
  assume t: "torn E tail"
  with False obtain body k where b: "length body \<le> MAX_RECORD_BYTES" "0 < k"
    "k < length (encode_record E body)" "tail = take k (encode_record E body)"
    by (auto simp: torn_def)
  with False show ?thesis
    by (auto simp: torn_def min_def intro!: exI [of _ body] exI [of _ "min m k"])
qed

lemma chain_prefix_max:
  assumes "raw_chain E to_vec p x (fs1 @ [hd fs2]) b p2 x2" "n < length b" "fs2 \<noteq> []"
    and "fs1 @ fs2 = fsA @ z" "raw_chain E to_vec p x fsA bsA pA xA" "length bsA \<le> n"
  shows "length fsA \<le> length fs1"
proof (rule ccontr)
  assume "\<not> length fsA \<le> length fs1"
  with assms(3,4) obtain y where "fsA = (fs1 @ [hd fs2]) @ y"
    by (auto simp: append_eq_append_conv2 Cons_eq_append_conv neq_Nil_conv)
  with assms(1,5) have "length b \<le> length bsA" using raw_chain_prefix_length by blast
  with assms(2,6) show False by simp
qed

lemma cut_data:
  assumes "writer_log E to_vec p x fs w" "8 \<le> n" "n \<le> length (sk_data (w_sink w))"
  shows "\<exists>fs1 fs2 bs1 p1 x1 tail. fs = fs1 @ fs2 \<and> raw_chain E to_vec p x fs1 bs1 p1 x1
     \<and> take n (sk_data (w_sink w)) = MAGIC @ bs1 @ tail \<and> torn E tail \<and> 8 + length bs1 \<le> u64_max
     \<and> (\<forall>fsA z bsA pA xA. fs = fsA @ z \<longrightarrow> raw_chain E to_vec p x fsA bsA pA xA
          \<longrightarrow> 8 + length bsA \<le> n \<longrightarrow> length fsA \<le> length fs1)"
proof -
  from assms(1) obtain bs tl where c: "raw_chain E to_vec p x fs bs (w_previous_digest w) (w_expected w)"
    and d: "sk_data (w_sink w) = MAGIC @ bs @ tl" and t: "torn E tl" and u: "8 + length bs \<le> u64_max"
    by (auto simp: writer_log_def)
  show ?thesis
  proof (cases "n \<le> 8 + length bs")
    case True
    then have "n - 8 \<le> length bs" by simp
    from raw_chain_cut [OF c this] obtain fs1 fs2 bs1 p1 x1 tail where
      f: "fs = fs1 @ fs2" and c1: "raw_chain E to_vec p x fs1 bs1 p1 x1"
      and tk: "take (n - 8) bs = bs1 @ tail" and t1: "torn E tail"
      and m: "fs2 \<noteq> [] \<longrightarrow> (\<exists>b p2 x2. raw_chain E to_vec p x (fs1 @ [hd fs2]) b p2 x2 \<and> n - 8 < length b)"
      by blast
    have "take n (sk_data (w_sink w)) = MAGIC @ bs1 @ tail" using True assms(2) tk by (simp add: d)
    moreover have "8 + length bs1 \<le> u64_max" using u raw_chain_prefix_length [of E to_vec p x fs1 fs2] c f c1 by force
    moreover have "length fsA \<le> length fs1"
      if h: "fs = fsA @ z" "raw_chain E to_vec p x fsA bsA pA xA" "8 + length bsA \<le> n" for fsA z bsA pA xA
    proof (cases "fs2 = []")
      case True
      with h(1) f show ?thesis by auto
    next
      case False
      with m obtain b p2 x2 where b: "raw_chain E to_vec p x (fs1 @ [hd fs2]) b p2 x2" "n - 8 < length b" by blast
      show ?thesis
        by (rule chain_prefix_max [OF b False]) (use h f in auto)
    qed
    ultimately show ?thesis using f c1 t1 by blast
  next
    case False
    then have "take n (sk_data (w_sink w)) = MAGIC @ bs @ take (n - 8 - length bs) tl" by (simp add: d)
    with c t u show ?thesis
      by - (rule exI [of _ fs], rule exI [of _ "[]"], rule exI [of _ bs], rule exI [of _ "w_previous_digest w"],
          rule exI [of _ "w_expected w"], rule exI [of _ "take (n - 8 - length bs) tl"],
          auto intro: torn_take)
  qed
qed

section \<open>Claims\<close>

lemma envelopes_frames: "envelopes_of n fs envs \<Longrightarrow> map re_frame envs = map raw_frame_of fs"
  by (simp add: envelopes_of_def)

text \<open>
  C18. Round trip of the raw log. For any sequence of appends and syncs on a fresh log, with any
  sink failures, as long as the writer is not poisoned: reading the file back yields exactly the
  frames whose append returned \<open>Ok\<close>, in order.
\<close>

theorem raw_log_round_trip:
  assumes "raw_externals_ok E to_vec" "writer_from_sink sk sync_every = Ok w0" "sk_data sk = []"
    and "session E to_vec w0 acc w" "\<not> w_poisoned w"
  shows "read_raw_log E (Some (sk_data (w_sink w))) = Ok (map raw_frame_of acc)"
proof -
  from session_log [OF assms(4) fresh_log [OF assms(2,3)]] assms(5)
  have "writer_log E to_vec ZERO_DIGEST [] acc w" by (auto simp: file_frames_def)
  with assms(5) obtain bs where bs: "raw_chain E to_vec ZERO_DIGEST [] acc bs (w_previous_digest w) (w_expected w)"
    "sk_data (w_sink w) = MAGIC @ bs" "8 + length bs \<le> u64_max"
    by (auto simp: writer_log_def)
  from read_raw_records_chain [OF bs(1) assms(1) bs(3)] obtain envs where
    "read_raw_records E (Some (MAGIC @ bs)) = Ok envs" "envelopes_of 0 acc envs" by blast
  with bs(2) show ?thesis by (simp add: read_raw_log_def envelopes_frames)
qed

text \<open>
  C1. Nothing acknowledged is ever lost. Cut the file of a session at any length \<open>n\<close> that keeps
  the bytes known to be synced (a crash): the scan of what is left succeeds, it covers at least the
  records and the offset of the last durability acknowledgement, and reading the good prefix yields
  exactly the first frames of the session.
\<close>

theorem raw_log_crash_safe:
  assumes "raw_externals_ok E to_vec" "writer_from_sink sk sync_every = Ok w0" "sk_data sk = []"
    and "session E to_vec w0 acc w" "w_last_ack w = Some a"
    and "sk_synced (w_sink w) \<le> n" "n \<le> length (sk_data (w_sink w))"
  shows "\<exists>sc fs1 fs2. scan_raw_log E (Some (take n (sk_data (w_sink w)))) = Ok sc
     \<and> file_frames acc w (fs1 @ fs2) \<and> sc_records sc = length fs1
     \<and> da_durable_record_count a \<le> sc_records sc
     \<and> da_durable_through_offset a \<le> sc_last_good_offset sc \<and> sc_last_good_offset sc \<le> n
     \<and> read_raw_log E (Some (take (sc_last_good_offset sc) (sk_data (w_sink w)))) = Ok (map raw_frame_of fs1)"
proof -
  from session_log [OF assms(4) fresh_log [OF assms(2,3)]] obtain fs where
    fs: "writer_log E to_vec ZERO_DIGEST [] fs w" "file_frames acc w fs" by blast
  from fs(1) assms(5) have cov: "ack_covers E to_vec ZERO_DIGEST [] fs a"
    and off: "da_durable_through_offset a \<le> sk_synced (w_sink w)" by (auto simp: writer_log_def)
  from cov obtain fsA z bsA xA where A: "fs = fsA @ z"
    "raw_chain E to_vec ZERO_DIGEST [] fsA bsA (da_last_record_sha256 a) xA"
    "da_durable_record_count a = length fsA" "da_durable_through_offset a = 8 + length bsA"
    by (auto simp: ack_covers_def)
  have "8 \<le> n" using A(4) off assms(6) by simp
  from cut_data [OF fs(1) this assms(7)] obtain fs1 fs2 bs1 p1 x1 tail where
    f: "fs = fs1 @ fs2" and c: "raw_chain E to_vec ZERO_DIGEST [] fs1 bs1 p1 x1"
    and tk: "take n (sk_data (w_sink w)) = MAGIC @ bs1 @ tail" and t: "torn E tail"
    and u: "8 + length bs1 \<le> u64_max"
    and mx: "\<And>fsA z bsA pA xA. fs = fsA @ z \<Longrightarrow> raw_chain E to_vec ZERO_DIGEST [] fsA bsA pA xA
          \<Longrightarrow> 8 + length bsA \<le> n \<Longrightarrow> length fsA \<le> length fs1"
    by blast
  from scan_raw_log_chain [OF c assms(1) t u] obtain sc where
    sc: "scan_raw_log E (Some (MAGIC @ bs1 @ tail)) = Ok sc" "sc_records sc = length fs1"
    "sc_last_good_offset sc = 8 + length bs1" by blast
  have le: "length fsA \<le> length fs1" using mx [OF A(1,2)] A(4) off assms(6) by simp
  then have "\<exists>y. fs1 = fsA @ y" using A(1) f by (metis append_eq_append_conv_if append_take_drop_id)
  then obtain y where y: "fs1 = fsA @ y" ..
  have off': "da_durable_through_offset a \<le> 8 + length bs1"
    using A(2,4) c y raw_chain_prefix_length by fastforce
  have ln: "8 + length bs1 \<le> n" using arg_cong [OF tk, of length] assms(7) by simp
  have "take (8 + length bs1) (sk_data (w_sink w)) = take (8 + length bs1) (take n (sk_data (w_sink w)))"
    using ln by (simp add: min_def)
  also have "\<dots> = MAGIC @ bs1" by (simp add: tk)
  finally have tk1: "take (8 + length bs1) (sk_data (w_sink w)) = MAGIC @ bs1" .
  from read_raw_records_chain [OF c assms(1) u] have
    "read_raw_log E (Some (MAGIC @ bs1)) = Ok (map raw_frame_of fs1)"
    by (auto simp: read_raw_log_def envelopes_frames)
  with sc tk tk1 le off' ln A(3) fs(2) f show ?thesis by auto
qed

text \<open>
  C26. Recovery of a torn log keeps every complete record. Cut the file of a session anywhere after the magic so
  that the scan does not end cleanly: \<open>recover_raw_log_prefix\<close> succeeds and writes the magic and the chained records of
  the first frames of the session, byte for byte as they stand in the cut file; no longer run of the session's
  records fits into the cut. The output reads back as exactly those frames and scans clean, and the report counts
  them, names the digest of the last one and accounts for every byte of the source.
\<close>

theorem raw_log_recovery:
  assumes "raw_externals_ok E to_vec" "writer_from_sink sk sync_every = Ok w0" "sk_data sk = []"
    and "session E to_vec w0 acc w" "8 \<le> n" "n \<le> length (sk_data (w_sink w))"
    and "scan_raw_log E (Some (take n (sk_data (w_sink w)))) = Ok sc" "\<not> sc_clean_eof sc"
  shows "\<exists>rv fs1 fs2 bs1 p1 x1 tail.
     recover_raw_log_prefix E (Some (take n (sk_data (w_sink w)))) None = Ok (rv, MAGIC @ bs1)
     \<and> file_frames acc w (fs1 @ fs2) \<and> raw_chain E to_vec ZERO_DIGEST [] fs1 bs1 p1 x1
     \<and> take n (sk_data (w_sink w)) = MAGIC @ bs1 @ tail
     \<and> (\<forall>fsA z bsA pA xA. fs1 @ fs2 = fsA @ z \<longrightarrow> raw_chain E to_vec ZERO_DIGEST [] fsA bsA pA xA
          \<longrightarrow> 8 + length bsA \<le> n \<longrightarrow> length fsA \<le> length fs1)
     \<and> read_raw_log E (Some (MAGIC @ bs1)) = Ok (map raw_frame_of fs1)
     \<and> (\<exists>sc'. scan_raw_log E (Some (MAGIC @ bs1)) = Ok sc' \<and> sc_clean_eof sc')
     \<and> rv = \<lparr>rv_source_file_size = n, rv_copied_valid_prefix_bytes = 8 + length bs1, rv_excluded_tail_bytes = length tail,
         rv_recovered_records = length fs1, rv_last_record_sha256 = p1\<rparr>"
proof -
  from session_log [OF assms(4) fresh_log [OF assms(2,3)]] obtain fs where
    fs: "writer_log E to_vec ZERO_DIGEST [] fs w" "file_frames acc w fs" by blast
  from cut_data [OF fs(1) assms(5,6)] obtain fs1 fs2 bs1 p1 x1 tail where
    f: "fs = fs1 @ fs2" and c: "raw_chain E to_vec ZERO_DIGEST [] fs1 bs1 p1 x1"
    and tk: "take n (sk_data (w_sink w)) = MAGIC @ bs1 @ tail" and t: "torn E tail"
    and u: "8 + length bs1 \<le> u64_max"
    and m: "\<forall>fsA z bsA pA xA. fs = fsA @ z \<longrightarrow> raw_chain E to_vec ZERO_DIGEST [] fsA bsA pA xA
        \<longrightarrow> 8 + length bsA \<le> n \<longrightarrow> length fsA \<le> length fs1" by blast
  from scan_raw_log_chain [OF c assms(1) t u] assms(7) tk have
    sc: "sc_records sc = length fs1" "sc_last_good_offset sc = 8 + length bs1"
    "sc_last_record_sha256 sc = p1" "sc_file_size sc = 8 + length bs1 + length tail" by auto
  have "torn E []" by (simp add: torn_def)
  from scan_raw_log_chain [OF c assms(1) this u] obtain sc' where
    sc': "scan_raw_log E (Some (MAGIC @ bs1)) = Ok sc'" "sc_records sc' = length fs1"
    "sc_clean_eof sc'" "sc_last_record_sha256 sc' = p1" by auto
  have n: "n = 8 + length bs1 + length tail" using arg_cong [OF tk, of length] assms(6) by simp
  from read_raw_records_chain [OF c assms(1) u] have
    rd: "read_raw_log E (Some (MAGIC @ bs1)) = Ok (map raw_frame_of fs1)"
    by (auto simp: read_raw_log_def envelopes_frames)
  have "recover_raw_log_prefix E (Some (MAGIC @ bs1 @ tail)) None
      = Ok (\<lparr>rv_source_file_size = n, rv_copied_valid_prefix_bytes = 8 + length bs1,
            rv_excluded_tail_bytes = length tail, rv_recovered_records = length fs1,
            rv_last_record_sha256 = p1\<rparr>, MAGIC @ bs1)"
    using assms(7) [unfolded tk] assms(8) sc sc' n
    by (simp add: recover_raw_log_prefix_def open_file_def Let_def)
  with rd sc'(1,3) fs(2) c m show ?thesis unfolding tk f
    by (intro exI [of _ fs1] exI [of _ fs2] exI [of _ bs1] exI [of _ p1] exI [of _ x1] exI [of _ tail] exI) simp
qed

end
