(* ===== verification/Raw_Log_Total.thy ===== *)
theory Raw_Log_Total
  imports Raw_Log_Correct
begin

text \<open>
  The scan of a raw log on arbitrary bytes: the loop ends, and no content makes it abort. The only plain
  addition that could overflow is the expected frame index of a stream, which counts records of the file.
\<close>

definition counted_below :: "nat \<Rightarrow> expected_map \<Rightarrow> bool" where
  "counted_below n x \<longleftrightarrow> (\<forall>k. expected_next x k \<le> n)"

lemma counted_below_update:
  "counted_below n x \<Longrightarrow> i \<le> n \<Longrightarrow> n \<le> m \<Longrightarrow> counted_below m (AList.update k i x)"
  by (auto simp: counted_below_def expected_next_def update_conv' intro: le_trans split: option.splits if_splits)

lemma accept_record_counted:
  assumes "accept_record E p x body digest = (q, x')" "counted_below n x" "n < u64_max"
  shows "q \<noteq> Err Panic \<and> counted_below (Suc n) x'"
proof (cases "decode_header E p body digest")
  case (Inl e)
  then have "e \<noteq> Panic"
    by (auto simp: decode_header_def rbind_eq_Err check_def ok_or_def required_str_def required_u64_def split: if_splits option.splits)
  then show ?thesis using assms(1,2) Inl by (auto simp: accept_record_def counted_below_def intro: le_SucI)
next
  case (Inr h)
  obtain v payload stream epoch i where h: "h = (v, payload, stream, epoch, i)" by (cases h)
  let ?k = "(epoch, stream)"
  have le: "expected_next x ?k \<le> n" using assms(2) by (simp add: counted_below_def)
  have fits: "\<not> u64_max < expected_next x ?k + 1" using le assms(3) by simp
  have "decode_frame E v payload stream epoch i \<noteq> Err Panic"
    by (auto simp: decode_frame_def rbind_eq_Err ok_or_def required_str_def required_u64_def split: option.splits)
  then show ?thesis
    using assms Inr h le fits counted_below_update [OF assms(2) le, of "Suc n" ?k]
      counted_below_update [of "Suc n" x "expected_next x ?k + 1" "Suc n" ?k]
    by (auto simp: accept_record_def Let_def counted_below_def le_SucI split: if_splits)
qed

lemma read_next_counted:
  assumes "read_next_raw_record E p x bs = (q, x', rest)" "counted_below n x" "n < u64_max"
  shows "q \<noteq> Err Panic \<and> counted_below (Suc n) x'"
proof -
  have s: "counted_below (Suc n) x" using assms(2) by (auto simp: counted_below_def intro: le_SucI)
  show ?thesis
  proof (cases "\<exists>body digest q1. accept_record E p x body digest = (q1, x') \<and> (q1 = Err Panic \<longleftrightarrow> q = Err Panic)")
    case True
    then show ?thesis using accept_record_counted [OF _ assms(2,3)] by blast
  next
    case False
    then show ?thesis using assms(1) s
      by (auto simp: read_next_raw_record_def Let_def split: if_splits option.splits prod.splits sum.splits)
  qed
qed

lemma scan_loop_total:
  assumes "counted_below records x" "36 * records \<le> last_good" "last_good + length bs \<le> u64_max"
  shows "\<exists>r g reason q y. scan_loop E None p x records last_good bs = Ok (r, g, reason, q, y)
    \<and> last_good \<le> g \<and> g \<le> last_good + length bs \<and> 36 * (r - records) \<le> g - last_good \<and> records \<le> r"
  using assms
proof (induction "length bs" arbitrary: p x records last_good bs rule: less_induct)
  case less
  obtain z x' rest where z: "read_next_raw_record E p x bs = (z, x', rest)" by (metis prod_cases3)
  have n: "records < u64_max" using less.prems(2,3) by (simp add: u64_max_def)
  note c = read_next_counted [OF z less.prems(1) n]
  show ?case
  proof (cases "\<exists>frame d len. z = Inr (Some (frame, d, len))")
    case False
    then show ?thesis using z c by (subst scan_loop.simps) (auto split: sum.splits option.splits)
  next
    case True
    then obtain frame d len where e: "read_next_raw_record E p x bs = (Inr (Some (frame, d, len)), x', rest)" using z by blast
    have l: "length bs = len + length rest" "36 \<le> len" by (rule read_next_shape [OF e], simp)+
    have step: "scan_loop E None p x records last_good bs = scan_loop E None d x' (records + 1) (last_good + len) rest"
      using e l less.prems(3) n by (subst scan_loop.simps) (simp add: checked_add_def)
    have ih: "\<exists>r g reason q y. scan_loop E None p1 x' (records + 1) (last_good + len) rest = Ok (r, g, reason, q, y)
        \<and> last_good + len \<le> g \<and> g \<le> last_good + len + length rest \<and> 36 * (r - (records + 1)) \<le> g - (last_good + len)
        \<and> records + 1 \<le> r" for p1
      by (rule less.hyps) (use less.prems l c in auto)
    obtain r g reason q y where "scan_loop E None d x' (records + 1) (last_good + len) rest = Ok (r, g, reason, q, y)"
      "last_good + len \<le> g" "g \<le> last_good + len + length rest" "36 * (r - (records + 1)) \<le> g - (last_good + len)" "records + 1 \<le> r"
      using ih [of d] by auto
    then show ?thesis using step l by auto
  qed
qed

text \<open>
  C35. The scan of a raw log always ends and never aborts: on any bytes of a file whose length is a \<open>u64\<close> it
  returns a report, after at most one pass of its loop for every 36 bytes of the file, and the offset it
  calls good lies in the file.
\<close>

theorem scan_raw_log_total:
  assumes "length bs \<le> u64_max"
  shows "\<exists>sc. scan_raw_log E (Some bs) = Ok sc \<and> 36 * sc_records sc \<le> length bs \<and> sc_last_good_offset sc \<le> length bs
    \<and> sc_file_size sc = length bs"
proof (cases "read_magic bs")
  case (Inl e)
  then show ?thesis by (simp add: scan_raw_log_def scan_raw_log_from_def open_file_def)
next
  case (Inr rest)
  then have l: "length bs = 8 + length rest"
    by (auto simp: read_magic_def split: if_splits option.splits prod.splits dest: read_exact_SomeD)
  have "counted_below 0 []" by (simp add: counted_below_def expected_next_def)
  from scan_loop_total [OF this, of 8 rest E ZERO_DIGEST] obtain r g reason q y where
    s: "scan_loop E None ZERO_DIGEST [] 0 8 rest = Ok (r, g, reason, q, y)" "8 \<le> g" "g \<le> 8 + length rest" "36 * r \<le> g - 8"
    using assms l by auto
  then show ?thesis using Inr l by (simp add: scan_raw_log_def scan_raw_log_from_def open_file_def)
qed

end
