(* ===== verification/Concrete_Externals.thy ===== *)
theory Concrete_Externals
  imports Externals
begin

text \<open>
  A concrete instance of the third-party parameters, used by the witnesses only: JSON values as a
  datatype with the documented accessors of \<open>serde_json::Value\<close>, a 32-byte digest that pads or cuts
  its input, a byte-per-character stand-in for base64, and a reader given as a finite table from
  byte strings to values.
\<close>

datatype jv =
    JNull
  | JBool bool
  | JNum int
  | JStr string
  | JArr "jv list"
  | JObj "(string \<times> jv) list"

fun jv_get :: "jv \<Rightarrow> string \<Rightarrow> jv option" where
  "jv_get (JObj kvs) k = map_of kvs k"
| "jv_get _ k = None"

fun jv_str :: "jv \<Rightarrow> string option" where
  "jv_str (JStr s) = Some s"
| "jv_str _ = None"

fun jv_u64 :: "jv \<Rightarrow> nat option" where
  "jv_u64 (JNum n) = (if 0 \<le> n \<and> n \<le> int u64_max then Some (nat n) else None)"
| "jv_u64 _ = None"

fun jv_i64 :: "jv \<Rightarrow> int option" where
  "jv_i64 (JNum n) = (if i64_min \<le> n \<and> n \<le> i64_max then Some n else None)"
| "jv_i64 _ = None"

fun jv_bool :: "jv \<Rightarrow> bool option" where
  "jv_bool (JBool b) = Some b"
| "jv_bool _ = None"

fun jv_array :: "jv \<Rightarrow> jv list option" where
  "jv_array (JArr vs) = Some vs"
| "jv_array _ = None"

definition jv_is_null :: "jv \<Rightarrow> bool" where "jv_is_null v \<longleftrightarrow> v = JNull"

fun jv_keys :: "jv \<Rightarrow> string list option" where
  "jv_keys (JObj kvs) = Some (map fst kvs)"
| "jv_keys _ = None"

definition pad32 :: "bytes \<Rightarrow> bytes" where
  "pad32 bs = take 32 (bs @ replicate 32 0)"

definition bytes_str :: "bytes \<Rightarrow> string" where
  "bytes_str bs = map (\<lambda>b. char_of (unat b)) bs"

definition table_externals :: "(bytes \<times> jv) list \<Rightarrow> jv externals" where
  "table_externals t =
     \<lparr>sha256 = pad32, b64_encode = bytes_str, b64_decode = (\<lambda>s. Some (str_bytes s)),
      json_from_slice = map_of t, json_get = jv_get, json_as_str = jv_str, json_as_u64 = jv_u64,
      json_as_i64 = jv_i64, json_as_bool = jv_bool, json_as_array = jv_array, json_is_null = jv_is_null,
      json_object_keys = jv_keys\<rparr>"

lemma table_externals_simps [simp]:
  "sha256 (table_externals t) = pad32"
  "b64_encode (table_externals t) = bytes_str"
  "b64_decode (table_externals t) = (\<lambda>s. Some (str_bytes s))"
  "json_from_slice (table_externals t) = map_of t"
  "json_get (table_externals t) = jv_get"
  "json_as_str (table_externals t) = jv_str"
  "json_as_u64 (table_externals t) = jv_u64"
  "json_as_i64 (table_externals t) = jv_i64"
  "json_as_bool (table_externals t) = jv_bool"
  "json_as_array (table_externals t) = jv_array"
  "json_is_null (table_externals t) = jv_is_null"
  "json_object_keys (table_externals t) = jv_keys"
  by (simp_all add: table_externals_def)

lemma pad32_len: "sha256_len32 (table_externals t)"
  by (auto simp: sha256_len32_def pad32_def min_def)

lemma str_bytes_bytes_str: "str_bytes (bytes_str bs) = bs"
proof (induction bs)
  case Nil
  then show ?case by (simp add: str_bytes_def bytes_str_def)
next
  case (Cons b bs)
  have "(of_char (char_of (unat b)) :: nat) = unat b" by simp
  with Cons show ?case by (simp add: str_bytes_def bytes_str_def)
qed

lemma table_b64: "b64_round_trip (table_externals t)"
  by (simp add: b64_round_trip_def str_bytes_bytes_str)

end
