(* ===== verification/Raw_Log_Witness.thy ===== *)
theory Raw_Log_Witness
  imports Raw_Log_Safety Raw_Log_Total Concrete_Externals
begin

text \<open>
  A concrete capture session for the raw log: one frame, serialized by a one-entry table. It shows
  that the hypotheses of the raw-log theorems hold together.
\<close>

definition demo_frame :: captured_frame where
  "demo_frame = \<lparr>cf_venue = ''v'', cf_environment = ''n'', cf_endpoint = ''p'', cf_stream = ''s'',
     cf_symbol = ''BTCUSDT'', cf_connection_epoch = ''e'', cf_frame_index = 0, cf_receive_wall_ns = 5,
     cf_receive_mono_ns = 6, cf_clock_quality = ''q'', cf_clock_source = ''c'', cf_payload = [1, 2],
     cf_spec_revision = ''r''\<rparr>"

definition demo_record :: raw_record where
  "demo_record = raw_record_of (table_externals []) ZERO_DIGEST demo_frame"

definition record_value :: "raw_record \<Rightarrow> jv" where
  "record_value r = JObj
     [(''schema'', JStr (rr_schema r)), (''venue'', JStr (rr_venue r)),
      (''environment'', JStr (rr_environment r)), (''endpoint'', JStr (rr_endpoint r)),
      (''stream'', JStr (rr_stream r)), (''symbol'', JStr (rr_symbol r)),
      (''connection_epoch'', JStr (rr_connection_epoch r)),
      (''frame_index'', JNum (int (rr_frame_index r))),
      (''receive_wall_ns'', JNum (int (rr_receive_wall_ns r))),
      (''receive_mono_ns'', JNum (int (rr_receive_mono_ns r))),
      (''clock_quality'', JStr (rr_clock_quality r)), (''clock_source'', JStr (rr_clock_source r)),
      (''payload_length'', JNum (int (rr_payload_length r))),
      (''payload_sha256'', JStr (rr_payload_sha256 r)),
      (''payload_base64'', JStr (rr_payload_base64 r)),
      (''recorder_state'', JStr (rr_recorder_state r)),
      (''spec_revision'', JStr (rr_spec_revision r)),
      (''previous_record_sha256'', JStr (rr_previous_record_sha256 r))]"

definition demo_E :: "jv externals" where
  "demo_E = table_externals [([7], record_value demo_record)]"

definition demo_to_vec :: "raw_record \<Rightarrow> bytes option" where
  "demo_to_vec r = (if r = demo_record then Some [7] else None)"

definition empty_sink :: "io_outcome list \<Rightarrow> sink" where
  "empty_sink plan = \<lparr>sk_data = [], sk_synced = 0, sk_plan = plan\<rparr>"

definition demo_w0 :: raw_log_writer where
  "demo_w0 = \<lparr>w_sink = \<lparr>sk_data = MAGIC, sk_synced = 8, sk_plan = []\<rparr>, w_previous_digest = ZERO_DIGEST,
     w_expected = [], w_sync_every = 1, w_since_sync = 0, w_record_count = 0, w_end_offset = 8,
     w_poisoned = False, w_last_ack = None, w_locked_identity = None\<rparr>"

definition demo_w1 :: raw_log_writer where
  "demo_w1 = snd (writer_append demo_E demo_to_vec demo_w0 demo_frame)"

lemma demo_w0_fresh: "writer_from_sink (empty_sink []) 1 = Ok demo_w0"
  by (simp add: writer_from_sink_def writer_initialize_def sink_write_all_def sink_sync_def
      empty_sink_def demo_w0_def Let_def)

lemma empty_sink_data: "sk_data (empty_sink plan) = []"
  by (simp add: empty_sink_def)

lemma record_value_json:
  "record_wf r \<Longrightarrow> rr_clock_offset_ns r = None \<Longrightarrow> rr_clock_uncertainty_ns r = None \<Longrightarrow>
     record_json (table_externals t) (record_value r) r"
  by (simp add: record_json_def record_value_def field_str_def field_u64_def field_i64_def record_wf_def)

lemma raw_record_of_table: "raw_record_of (table_externals t) p f = raw_record_of (table_externals u) p f"
  by (simp add: raw_record_of_def sha256_hex_def)

lemma demo_externals_ok: "raw_externals_ok demo_E demo_to_vec"
proof -
  have "serde_round_trip demo_E demo_to_vec"
    by (auto simp: serde_round_trip_def demo_to_vec_def demo_E_def demo_record_def raw_record_of_def
        intro!: record_value_json)
  then show ?thesis by (simp add: raw_externals_ok_def demo_E_def pad32_len table_b64)
qed

lemma demo_frame_wf: "frame_wf demo_frame"
  by (simp add: frame_wf_def demo_frame_def u64_max_def)

lemma demo_to_vec_record: "demo_to_vec (raw_record_of demo_E ZERO_DIGEST demo_frame) = Some [7]"
  unfolding demo_to_vec_def demo_record_def demo_E_def using raw_record_of_table by metis

lemma demo_encode_length: "length (encode_record demo_E [7]) = 37"
  by (simp add: length_encode_record demo_E_def pad32_len)

lemma demo_frame_sel [simp]:
  "cf_frame_index demo_frame = 0" "cf_connection_epoch demo_frame = ''e''" "cf_stream demo_frame = ''s''"
  by (simp_all add: demo_frame_def)

lemma demo_append:
  "writer_append demo_E demo_to_vec demo_w0 demo_frame = (Inr (\<lparr>ar_record_index = 0, ar_end_offset = 45,
     ar_record_sha256 = w_previous_digest demo_w1, ar_durability_ack = w_last_ack demo_w1\<rparr>), demo_w1)"
  and demo_not_poisoned: "\<not> w_poisoned demo_w1"
  and demo_data_length: "length (sk_data (w_sink demo_w1)) = 45"
  and demo_synced: "sk_synced (w_sink demo_w1) = 45"
  and demo_ack: "w_last_ack demo_w1 = Some \<lparr>da_schema = ''DurabilityAckV1'', da_durable_record_count = 1,
     da_durable_through_offset = 45, da_last_record_sha256 = w_previous_digest demo_w1,
     da_streams = [\<lparr>wm_connection_epoch = ''e'', wm_stream = ''s'', wm_durable_through_frame_index = 0\<rparr>]\<rparr>"
  and demo_data: "sk_data (w_sink demo_w1) = MAGIC @ encode_record demo_E [7]"
proof -
  have wm: "durability_watermarks [((''e'', ''s''), Suc 0)]
      = [\<lparr>wm_connection_epoch = ''e'', wm_stream = ''s'', wm_durable_through_frame_index = 0\<rparr>]"
    by (simp add: durability_watermarks_def List.map_filter_def watermark_of_def checked_sub_def)
  note defs = writer_append_def append_commit_def writer_sync_def Let_def sink_write_all_def sink_sync_def
    demo_w0_def demo_w1_def demo_to_vec_record demo_encode_length MAX_RECORD_BYTES_def u32_max_def u64_max_def
    frame_key_def expected_next_def checked_add_def wm
  show "writer_append demo_E demo_to_vec demo_w0 demo_frame = (Inr (\<lparr>ar_record_index = 0, ar_end_offset = 45,
     ar_record_sha256 = w_previous_digest demo_w1, ar_durability_ack = w_last_ack demo_w1\<rparr>), demo_w1)"
    and "\<not> w_poisoned demo_w1" and "length (sk_data (w_sink demo_w1)) = 45"
    and "sk_synced (w_sink demo_w1) = 45"
    and "w_last_ack demo_w1 = Some \<lparr>da_schema = ''DurabilityAckV1'', da_durable_record_count = 1,
     da_durable_through_offset = 45, da_last_record_sha256 = w_previous_digest demo_w1,
     da_streams = [\<lparr>wm_connection_epoch = ''e'', wm_stream = ''s'', wm_durable_through_frame_index = 0\<rparr>]\<rparr>"
    and "sk_data (w_sink demo_w1) = MAGIC @ encode_record demo_E [7]"
    by (simp_all add: defs)
qed

lemma demo_session: "session demo_E demo_to_vec demo_w0 [demo_frame] demo_w1"
  using session_append [OF session_start demo_frame_wf demo_append] by simp

text \<open>Witness at the one-frame session.\<close>

theorem raw_log_round_trip_witness:
  "session demo_E demo_to_vec demo_w0 [demo_frame] demo_w1 \<and> \<not> w_poisoned demo_w1
    \<and> read_raw_log demo_E (Some (sk_data (w_sink demo_w1))) = Ok [raw_frame_of demo_frame]"
  using raw_log_round_trip [OF demo_externals_ok demo_w0_fresh empty_sink_data demo_session demo_not_poisoned]
    demo_session demo_not_poisoned by simp

text \<open>Witness: the session's file, with its acknowledgement, kept whole.\<close>

theorem raw_log_crash_safe_witness:
  "\<exists>sc fs1 fs2. scan_raw_log demo_E (Some (take 45 (sk_data (w_sink demo_w1)))) = Ok sc
     \<and> file_frames [demo_frame] demo_w1 (fs1 @ fs2) \<and> sc_records sc = length fs1 \<and> 1 \<le> sc_records sc
     \<and> 45 \<le> sc_last_good_offset sc \<and> sc_last_good_offset sc \<le> 45
     \<and> read_raw_log demo_E (Some (take (sc_last_good_offset sc) (sk_data (w_sink demo_w1))))
         = Ok (map raw_frame_of fs1)"
  using raw_log_crash_safe [OF demo_externals_ok demo_w0_fresh empty_sink_data demo_session demo_ack,
      of 45] by (simp add: demo_data_length demo_synced)

text \<open>Witness: a file that is not a raw log.\<close>

theorem scan_raw_log_total_witness:
  "\<exists>sc. scan_raw_log demo_E (Some [1, 2, 3]) = Ok sc \<and> sc_records sc = 0"
  using scan_raw_log_total [of "[1, 2, 3]" demo_E] by (auto simp: u64_max_def)

end
