(* ===== verification/Order_Book.thy ===== *)
theory Order_Book
  imports Fixed_Decimal Externals
begin

text \<open>
  \<open>LocalOrderBook\<close> of \<open>src/rust/lob-replay/src/lib.rs\<close> (lines 1045-1502): the two sides as
  ordered maps from price to quantity, the state machine Empty, Syncing, Live, Gap, Invalid, the
  snapshot loader, the depth updates prepared against the expected update id and then applied, the
  XOR fingerprint of the levels kept incrementally, the canonical state digest and the checkpoint.
  An operation on \<open>&mut self\<close> answers its result and the book it leaves behind, error paths
  included.
\<close>

unbundle bit_operations_syntax

section \<open>Data\<close>

datatype book_state = Empty | Syncing | Live | Gap | Invalid

type_synonym level = "fixed_decimal \<times> fixed_decimal"
type_synonym side = "level list"
type_synonym fingerprint = "64 word list"

record order_book_checkpoint =
  cp_schema :: string
  cp_symbol :: string
  cp_last_update_id :: nat
  cp_bids :: "(string \<times> string) list"
  cp_asks :: "(string \<times> string) list"
  cp_state_sha256 :: string

record local_order_book =
  lb_symbol :: string
  lb_state :: book_state
  lb_last_update_id :: "nat option"
  lb_bids :: side
  lb_asks :: side
  lb_fingerprint :: fingerprint

datatype apply_outcome = Applied | Old

datatype prepared_depth_update =
    PreparedOld nat nat
  | PreparedApply nat nat "level list" "level list"

section \<open>Levels\<close>

definition parse_level :: "'v externals \<Rightarrow> string \<Rightarrow> 'v \<Rightarrow> level res" where
  "parse_level E side v =
     (case json_as_array E v of
        Some [p, q] \<Rightarrow>
          rbind (ok_or (FailS ''invalid price'' [side]) (json_as_str E p)) (\<lambda>pt.
          rbind (fd_parse pt) (\<lambda>price.
          rbind (ok_or (FailS ''invalid quantity'' [side]) (json_as_str E q)) (\<lambda>qt.
          rbind (fd_parse qt) (\<lambda>quantity.
          if is_zero price \<or> is_negative price \<or> is_negative quantity
          then Err (FailS ''invalid price/quantity'' [side])
          else Ok (price, quantity)))))
      | _ \<Rightarrow> Err (FailS ''invalid level'' [side]))"

text \<open>\<open>i128::to_le_bytes\<close>, two's complement over sixteen bytes.\<close>

definition i128_le_bytes :: "int \<Rightarrow> bytes" where
  "i128_le_bytes c = le_bytes 16 (nat (c mod 2 ^ 128))"

definition level_fingerprint :: "'v externals \<Rightarrow> byte \<Rightarrow> fixed_decimal \<Rightarrow> fixed_decimal \<Rightarrow> fingerprint" where
  "level_fingerprint E side_tag price quantity =
     (let bs = sha256 E (side_tag # i128_le_bytes (coefficient price) @ [word_of_nat (scale price)]
                          @ i128_le_bytes (coefficient quantity) @ [word_of_nat (scale quantity)])
      in map (\<lambda>index. word_of_nat (from_le_bytes (take 8 (drop (index * 8) bs)))) [0, 1, 2, 3])"

definition xor_level_fingerprint :: "fingerprint \<Rightarrow> fingerprint \<Rightarrow> fingerprint" where
  "xor_level_fingerprint target value = map2 (XOR) target value"

definition bid_tag :: byte where "bid_tag = 98"
definition ask_tag :: byte where "ask_tag = 97"

text \<open>The loop \<open>for (price, quantity) in &side { xor(...) }\<close>.\<close>

fun side_fingerprint :: "'v externals \<Rightarrow> byte \<Rightarrow> side \<Rightarrow> fingerprint \<Rightarrow> fingerprint" where
  "side_fingerprint E tag [] fp = fp"
| "side_fingerprint E tag ((p, q) # m) fp =
     side_fingerprint E tag m (xor_level_fingerprint fp (level_fingerprint E tag p q))"

section \<open>Construction and queries\<close>

definition new_book :: "string \<Rightarrow> local_order_book res" where
  "new_book symbol =
     (if symbol \<noteq> ''BTCUSDT'' \<and> symbol \<noteq> ''ETHUSDT'' then Err (FailS ''symbol outside scope'' [symbol])
      else Ok \<lparr>lb_symbol = symbol, lb_state = Empty, lb_last_update_id = None, lb_bids = [], lb_asks = [],
               lb_fingerprint = [0, 0, 0, 0]\<rparr>)"

definition best_bid :: "local_order_book \<Rightarrow> fixed_decimal res" where
  "best_bid b = ok_or (Fail ''empty bid side'') (map_option fst (bt_last (lb_bids b)))"

definition best_ask :: "local_order_book \<Rightarrow> fixed_decimal res" where
  "best_ask b = ok_or (Fail ''empty ask side'') (map_option fst (bt_first (lb_asks b)))"

definition check_invariants :: "local_order_book \<Rightarrow> unit res \<times> local_order_book" where
  "check_invariants b =
     (case rbind (best_bid b) (\<lambda>bid. rbind (best_ask b) (\<lambda>ask.
             rbind (fd_cmp bid ask) (\<lambda>c. Ok (bid, ask, c)))) of
        Inl e \<Rightarrow> (Err e, b)
      | Inr (bid, ask, c) \<Rightarrow>
          if c \<noteq> Less
          then (Err (FailS ''crossed/locked book'' [fd_display bid, fd_display ask]), b\<lparr>lb_state := Invalid\<rparr>)
          else (Ok (), b))"

text \<open>The loop over the levels of one side, with the comma before every level but the first.\<close>

fun canonical_levels :: "bool \<Rightarrow> side \<Rightarrow> string" where
  "canonical_levels comma [] = []"
| "canonical_levels comma ((p, q) # m) =
     (if comma then '','' else []) @ ''[\"'' @ fd_display p @ ''\",\"'' @ fd_display q @ ''\"]''
       @ canonical_levels True m"

definition canonical_state :: "local_order_book \<Rightarrow> string" where
  "canonical_state b =
     ''{\"asks\":['' @ canonical_levels False (lb_asks b)
       @ ''],\"bids\":['' @ canonical_levels False (rev (lb_bids b))
       @ ''],\"last_update_id\":'' @ dec_str (case lb_last_update_id b of None \<Rightarrow> 0 | Some n \<Rightarrow> n)
       @ '',\"symbol\":\"'' @ lb_symbol b @ ''\"}''"

definition state_digest :: "'v externals \<Rightarrow> local_order_book \<Rightarrow> string" where
  "state_digest E b = sha256_hex E (str_bytes (canonical_state b))"

definition same_state :: "local_order_book \<Rightarrow> local_order_book \<Rightarrow> bool" where
  "same_state a b \<longleftrightarrow> lb_symbol a = lb_symbol b \<and> lb_state a = lb_state b
     \<and> lb_last_update_id a = lb_last_update_id b \<and> lb_bids a = lb_bids b \<and> lb_asks a = lb_asks b"

definition same_state_fingerprint :: "local_order_book \<Rightarrow> local_order_book \<Rightarrow> bool" where
  "same_state_fingerprint a b \<longleftrightarrow> lb_last_update_id a = lb_last_update_id b
     \<and> length (lb_bids a) = length (lb_bids b) \<and> length (lb_asks a) = length (lb_asks b)
     \<and> lb_fingerprint a = lb_fingerprint b"

definition is_live :: "local_order_book \<Rightarrow> bool" where
  "is_live b \<longleftrightarrow> lb_state b = Live"

definition level_counts :: "local_order_book \<Rightarrow> nat \<times> nat" where
  "level_counts b = (length (lb_bids b), length (lb_asks b))"

section \<open>Snapshot\<close>

fun load_side_loop :: "'v externals \<Rightarrow> string \<Rightarrow> 'v list \<Rightarrow> side \<Rightarrow> side res" where
  "load_side_loop E side [] result = Ok result"
| "load_side_loop E side (v # vs) result =
     rbind (parse_level E side v) (\<lambda>(price, quantity).
       if is_zero quantity then load_side_loop E side vs result
       else if bt_get fd_less price result \<noteq> None then Err (FailS ''duplicate price'' [side])
       else load_side_loop E side vs (bt_insert fd_less price quantity result))"

definition load_side :: "'v externals \<Rightarrow> 'v list option \<Rightarrow> string \<Rightarrow> side res" where
  "load_side E levels side =
     rbind (ok_or (FailS ''snapshot side is not array'' [side]) levels) (\<lambda>vs.
     rbind (load_side_loop E side vs []) (\<lambda>result.
     if result = [] then Err (FailS ''empty side'' [side]) else Ok result))"

definition load_snapshot :: "'v externals \<Rightarrow> local_order_book \<Rightarrow> bytes \<Rightarrow> nat res \<times> local_order_book" where
  "load_snapshot E b payload =
     (if lb_state b \<noteq> Empty then (Err (Fail ''snapshot requires empty book''), b)
      else case json_from_slice E payload of
        None \<Rightarrow> (Err (Fail ''invalid snapshot JSON''), b)
      | Some v \<Rightarrow>
          (case required_u64 E v ''lastUpdateId'' of
             Inl e \<Rightarrow> (Err e, b)
           | Inr update_id \<Rightarrow>
               (case load_side E (field_array E v ''bids'') ''bid'' of
                  Inl e \<Rightarrow> (Err e, b)
                | Inr bids \<Rightarrow>
                    (case load_side E (field_array E v ''asks'') ''ask'' of
                       Inl e \<Rightarrow> (Err e, b\<lparr>lb_bids := bids\<rparr>)
                     | Inr asks \<Rightarrow>
                         let fp = side_fingerprint E ask_tag asks
                                    (side_fingerprint E bid_tag bids [0, 0, 0, 0]);
                             b1 = b\<lparr>lb_bids := bids, lb_asks := asks, lb_fingerprint := fp,
                                    lb_last_update_id := Some update_id, lb_state := Syncing\<rparr>
                         in (case check_invariants b1 of
                               (Inl e, b2) \<Rightarrow> (Err e, b2)
                             | (Inr _, b2) \<Rightarrow> (Ok update_id, b2))))))"

section \<open>Depth updates\<close>

fun apply_side :: "'v externals \<Rightarrow> side \<Rightarrow> level list \<Rightarrow> byte \<Rightarrow> fingerprint \<Rightarrow> side \<times> fingerprint" where
  "apply_side E side [] tag fp = (side, fp)"
| "apply_side E side ((price, quantity) # updates) tag fp =
     (let fp1 = (case bt_get fd_less price side of
                   Some old_quantity \<Rightarrow> xor_level_fingerprint fp (level_fingerprint E tag price old_quantity)
                 | None \<Rightarrow> fp)
      in if is_zero quantity then apply_side E (bt_remove fd_less price side) updates tag fp1
         else apply_side E (bt_insert fd_less price quantity side) updates tag
                (xor_level_fingerprint fp1 (level_fingerprint E tag price quantity)))"

definition accepts_depth :: "local_order_book \<Rightarrow> bool" where
  "accepts_depth b \<longleftrightarrow> lb_state b = Syncing \<or> lb_state b = Live"

text \<open>The id the next update has to bridge: \<open>last_update_id + 1\<close>, both error paths included.\<close>

definition expected_update :: "local_order_book \<Rightarrow> nat res" where
  "expected_update b =
     rbind (ok_or (Fail ''snapshot not loaded'') (lb_last_update_id b)) (\<lambda>n.
       ok_or (Fail ''update ID overflow'') (checked_add n 1))"

text \<open>The checks of \<open>prepare_depth_value\<close> before the position test.\<close>

definition depth_ids :: "'v externals \<Rightarrow> local_order_book \<Rightarrow> 'v \<Rightarrow> (nat \<times> nat \<times> nat) res" where
  "depth_ids E b v =
     rbind (check (accepts_depth b) (Fail ''book cannot accept depth in current state'')) (\<lambda>_.
     rbind (required_str E v ''e'') (\<lambda>e.
     rbind (check (e = ''depthUpdate'') (Fail ''unexpected depth type/symbol'')) (\<lambda>_.
     rbind (required_str E v ''s'') (\<lambda>s.
     rbind (check (s = lb_symbol b) (Fail ''unexpected depth type/symbol'')) (\<lambda>_.
     rbind (required_u64 E v ''U'') (\<lambda>first_id.
     rbind (required_u64 E v ''u'') (\<lambda>final_id.
     rbind (check (first_id \<le> final_id) (Fail ''invalid depth IDs'')) (\<lambda>_.
     rbind (expected_update b) (\<lambda>expected.
     Ok (first_id, final_id, expected))))))))))"

definition depth_levels :: "'v externals \<Rightarrow> 'v \<Rightarrow> (level list \<times> level list) res" where
  "depth_levels E v =
     rbind (ok_or (Fail ''depth bids not array'') (field_array E v ''b'')) (\<lambda>bids.
     rbind (ok_or (Fail ''depth asks not array'') (field_array E v ''a'')) (\<lambda>asks.
     rbind (traverse (parse_level E ''bid'') bids) (\<lambda>bid_updates.
     rbind (traverse (parse_level E ''ask'') asks) (\<lambda>ask_updates.
     Ok (bid_updates, ask_updates)))))"

definition prepare_depth_value ::
  "'v externals \<Rightarrow> local_order_book \<Rightarrow> 'v \<Rightarrow> prepared_depth_update res \<times> local_order_book" where
  "prepare_depth_value E b v =
     (case depth_ids E b v of
        Inl e \<Rightarrow> (Err e, b)
      | Inr (first_id, final_id, expected) \<Rightarrow>
          if final_id < expected then (Ok (PreparedOld first_id final_id), b)
          else if expected < first_id \<or> final_id < expected
          then (Err (FailN ''depth gap'' [expected, first_id, final_id]), b\<lparr>lb_state := Gap\<rparr>)
          else (rbind (depth_levels E v) (\<lambda>(bids, asks). Ok (PreparedApply first_id final_id bids asks)), b))"

definition apply_prepared_depth ::
  "'v externals \<Rightarrow> local_order_book \<Rightarrow> prepared_depth_update \<Rightarrow> apply_outcome res \<times> local_order_book" where
  "apply_prepared_depth E b u =
     (case rbind (check (accepts_depth b) (Fail ''book cannot accept prepared depth in current state''))
             (\<lambda>_. expected_update b) of
        Inl e \<Rightarrow> (Err e, b)
      | Inr expected \<Rightarrow>
          (case u of
             PreparedOld first_id final_id \<Rightarrow>
               if final_id < first_id \<or> expected \<le> final_id
               then (Err (Fail ''prepared old depth no longer matches book position''), b\<lparr>lb_state := Gap\<rparr>)
               else (Ok Old, b)
           | PreparedApply first_id final_id bids asks \<Rightarrow>
               if final_id < first_id \<or> expected < first_id \<or> final_id < expected
               then (Err (Fail ''prepared depth does not bridge book position''), b\<lparr>lb_state := Gap\<rparr>)
               else
                 let (bids', fp1) = apply_side E (lb_bids b) bids bid_tag (lb_fingerprint b);
                     (asks', fp2) = apply_side E (lb_asks b) asks ask_tag fp1;
                     b1 = b\<lparr>lb_bids := bids', lb_asks := asks', lb_fingerprint := fp2,
                            lb_last_update_id := Some final_id,
                            lb_state := (if lb_state b = Syncing then Live else lb_state b)\<rparr>
                 in (case check_invariants b1 of
                       (Inl e, b2) \<Rightarrow> (Err e, b2)
                     | (Inr _, b2) \<Rightarrow> (Ok Applied, b2))))"

definition apply_depth_value ::
  "'v externals \<Rightarrow> local_order_book \<Rightarrow> 'v \<Rightarrow> apply_outcome res \<times> local_order_book" where
  "apply_depth_value E b v =
     (case prepare_depth_value E b v of
        (Inl e, b1) \<Rightarrow> (Err e, b1)
      | (Inr prepared, b1) \<Rightarrow> apply_prepared_depth E b1 prepared)"

definition apply_depth ::
  "'v externals \<Rightarrow> local_order_book \<Rightarrow> bytes \<Rightarrow> apply_outcome res \<times> local_order_book" where
  "apply_depth E b payload =
     (case json_from_slice E payload of
        None \<Rightarrow> (Err (Fail ''invalid depth JSON''), b)
      | Some v \<Rightarrow> apply_depth_value E b v)"

section \<open>Checkpoint\<close>

definition display_level :: "level \<Rightarrow> string \<times> string" where
  "display_level l = (fd_display (fst l), fd_display (snd l))"

definition checkpoint :: "'v externals \<Rightarrow> local_order_book \<Rightarrow> order_book_checkpoint res" where
  "checkpoint E b =
     rbind (check (is_live b) (Fail ''checkpoint requires a live book'')) (\<lambda>_.
     rbind (ok_or (Fail ''checkpoint book has no update ID'') (lb_last_update_id b)) (\<lambda>n.
     Ok \<lparr>cp_schema = ''OrderBookCheckpointV1'', cp_symbol = lb_symbol b, cp_last_update_id = n,
         cp_bids = map display_level (rev (lb_bids b)), cp_asks = map display_level (lb_asks b),
         cp_state_sha256 = state_digest E b\<rparr>))"

text \<open>\<open>old <= price\<close> for a descending side, \<open>old >= price\<close> otherwise.\<close>

definition out_of_order :: "bool \<Rightarrow> fixed_decimal option \<Rightarrow> fixed_decimal \<Rightarrow> bool res" where
  "out_of_order descending previous price =
     (case previous of
        None \<Rightarrow> Ok False
      | Some old \<Rightarrow> rbind (fd_cmp old price) (\<lambda>c. Ok (if descending then c \<noteq> Greater else c \<noteq> Less)))"

fun checkpoint_side_loop ::
  "string \<Rightarrow> bool \<Rightarrow> (string \<times> string) list \<Rightarrow> side \<Rightarrow> fixed_decimal option \<Rightarrow> side res" where
  "checkpoint_side_loop side descending [] result previous = Ok result"
| "checkpoint_side_loop side descending ((pt, qt) # levels) result previous =
     rbind (fd_parse pt) (\<lambda>price. rbind (fd_parse qt) (\<lambda>quantity.
       if is_zero price \<or> is_negative price \<or> is_zero quantity \<or> is_negative quantity
       then Err (FailS ''invalid checkpoint price/quantity'' [side])
       else rbind (out_of_order descending previous price) (\<lambda>bad.
         if bad then Err (FailS ''checkpoint levels are not canonically ordered'' [side])
         else if bt_get fd_less price result \<noteq> None then Err (FailS ''duplicate checkpoint price'' [side])
         else checkpoint_side_loop side descending levels (bt_insert fd_less price quantity result)
                (Some price))))"

definition checkpoint_side :: "(string \<times> string) list \<Rightarrow> string \<Rightarrow> bool \<Rightarrow> side res" where
  "checkpoint_side levels side descending =
     (if levels = [] then Err (FailS ''book checkpoint has empty side'' [side])
      else checkpoint_side_loop side descending levels [] None)"

definition from_checkpoint :: "'v externals \<Rightarrow> order_book_checkpoint \<Rightarrow> local_order_book res" where
  "from_checkpoint E c =
     (if cp_schema c \<noteq> ''OrderBookCheckpointV1'' \<or> length (cp_state_sha256 c) \<noteq> 64
         \<or> \<not> list_all is_lower_hex (cp_state_sha256 c)
      then Err (Fail ''book checkpoint identity is invalid'')
      else rbind (new_book (cp_symbol c)) (\<lambda>book.
        rbind (checkpoint_side (cp_bids c) ''bid'' True) (\<lambda>bids.
        rbind (checkpoint_side (cp_asks c) ''ask'' False) (\<lambda>asks.
        let b1 = book\<lparr>lb_bids := bids, lb_asks := asks, lb_last_update_id := Some (cp_last_update_id c),
                      lb_state := Live,
                      lb_fingerprint := side_fingerprint E ask_tag asks
                                          (side_fingerprint E bid_tag bids (lb_fingerprint book))\<rparr>
        in (case check_invariants b1 of
              (Inl e, _) \<Rightarrow> Err e
            | (Inr _, b2) \<Rightarrow>
                if state_digest E b2 \<noteq> cp_state_sha256 c
                then Err (Fail ''book checkpoint state digest is invalid'')
                else Ok b2)))))"

end
