(* ===== verification/Order_Book_Correct.thy ===== *)
theory Order_Book_Correct
  imports Order_Book
begin

text \<open>
  Correctness of the order book: the incremental fingerprint equals the fingerprint recomputed from
  the levels, a batch of level updates acts as the obvious update of a finite map, every operation
  keeps the book invariant, and the checkpoint of a live book restores that book exactly.
\<close>

section \<open>Fingerprints\<close>

abbreviation fp_xor :: "fingerprint \<Rightarrow> fingerprint \<Rightarrow> fingerprint" where
  "fp_xor \<equiv> xor_level_fingerprint"

lemma fp_xor_Cons [simp]:
  "fp_xor (a # as) (b # bs) = (a XOR b) # fp_xor as bs"
  "fp_xor [] bs = []" "fp_xor as [] = []"
  by (simp_all add: xor_level_fingerprint_def)

lemma fp_xor_commute: "fp_xor a b = fp_xor b a"
  by (induction a b rule: list_induct2') (simp_all add: xor.commute)

lemma fp_xor_assoc: "fp_xor (fp_xor a b) c = fp_xor a (fp_xor b c)"
proof (induction a b arbitrary: c rule: list_induct2')
  case (4 x xs y ys)
  then show ?case by (cases c) (simp_all add: xor.assoc)
qed simp_all

lemma fp_xor_left_commute: "fp_xor a (fp_xor b c) = fp_xor b (fp_xor a c)"
  by (metis fp_xor_assoc fp_xor_commute)

lemmas fp_xor_ac = fp_xor_assoc fp_xor_commute fp_xor_left_commute

lemma fp_xor_cancel: "length a \<le> length b \<Longrightarrow> fp_xor (fp_xor a b) b = a"
  by (induction a b rule: list_induct2') (simp_all add: xor.assoc)

lemma length_fp_xor [simp]: "length (fp_xor a b) = min (length a) (length b)"
  by (simp add: xor_level_fingerprint_def)

lemma length_level_fingerprint [simp]: "length (level_fingerprint E t p q) = 4"
  by (simp add: level_fingerprint_def Let_def)

lemma length_side_fingerprint: "length fp = 4 \<Longrightarrow> length (side_fingerprint E t m fp) = 4"
  by (induction E t m fp rule: side_fingerprint.induct) simp_all

lemma side_fingerprint_xor:
  "side_fingerprint E t m (fp_xor fp x) = fp_xor (side_fingerprint E t m fp) x"
proof (induction E t m fp arbitrary: x rule: side_fingerprint.induct)
  case (2 E t p q m fp)
  have "fp_xor (fp_xor fp x) (level_fingerprint E t p q) = fp_xor (fp_xor fp (level_fingerprint E t p q)) x"
    by (simp add: fp_xor_ac)
  with 2 show ?case by simp
qed simp

text \<open>The fingerprint with the level at \<open>k\<close>, if any, taken out.\<close>

definition unset_fp :: "'v externals \<Rightarrow> byte \<Rightarrow> fixed_decimal \<Rightarrow> side \<Rightarrow> fingerprint \<Rightarrow> fingerprint" where
  "unset_fp E t k m fp = (case bt_get fd_less k m of
     Some q \<Rightarrow> fp_xor fp (level_fingerprint E t k q) | None \<Rightarrow> fp)"

lemma side_fingerprint_insert:
  assumes "price_map_wf m" "valid_decimal k" "length fp = 4"
  shows "side_fingerprint E t (bt_insert fd_less k v m) fp
           = fp_xor (unset_fp E t k m (side_fingerprint E t m fp)) (level_fingerprint E t k v)"
  using assms
proof (induction m arbitrary: fp)
  case Nil
  then show ?case by (simp add: unset_fp_def)
next
  case (Cons l m)
  obtain a b where l: "l = (a, b)" by (cases l)
  have wf: "price_map_wf m" "valid_decimal a" using Cons.prems l by (simp_all add: price_key.wf_Cons)
  consider "fd_less k a" | "\<not> fd_less k a" "fd_less a k" | "k = a" "\<not> fd_less k a" "\<not> fd_less a k"
    using price_key.lt_total Cons.prems(2) wf(2) by blast
  then show ?case
  proof cases
    case 1
    then show ?thesis by (simp add: l unset_fp_def side_fingerprint_xor fp_xor_ac)
  next
    case 2
    then have "unset_fp E t k (l # m) = unset_fp E t k m" by (simp add: fun_eq_iff unset_fp_def l)
    with 2 Cons wf show ?thesis by (simp add: l)
  next
    case 3
    have len: "length (side_fingerprint E t m fp) = 4" using Cons.prems by (simp add: length_side_fingerprint)
    from 3 have "unset_fp E t k (l # m) (side_fingerprint E t (l # m) fp) = side_fingerprint E t m fp"
      by (simp add: unset_fp_def l side_fingerprint_xor fp_xor_cancel len)
    with 3 show ?thesis by (simp add: l side_fingerprint_xor)
  qed
qed

lemma side_fingerprint_remove:
  assumes "price_map_wf m" "valid_decimal k" "length fp = 4"
  shows "side_fingerprint E t (bt_remove fd_less k m) fp = unset_fp E t k m (side_fingerprint E t m fp)"
  using assms
proof (induction m arbitrary: fp)
  case Nil
  then show ?case by (simp add: unset_fp_def)
next
  case (Cons l m)
  obtain a b where l: "l = (a, b)" by (cases l)
  have wf: "price_map_wf m" "valid_decimal a" using Cons.prems l by (simp_all add: price_key.wf_Cons)
  consider "fd_less k a" | "\<not> fd_less k a" "fd_less a k" | "k = a" "\<not> fd_less k a" "\<not> fd_less a k"
    using price_key.lt_total Cons.prems(2) wf(2) by blast
  then show ?case
  proof cases
    case 1
    then show ?thesis by (simp add: l unset_fp_def)
  next
    case 2
    then have "unset_fp E t k (l # m) = unset_fp E t k m" by (simp add: fun_eq_iff unset_fp_def l)
    with 2 Cons wf show ?thesis by (simp add: l)
  next
    case 3
    have len: "length (side_fingerprint E t m fp) = 4" using Cons.prems by (simp add: length_side_fingerprint)
    with 3 show ?thesis by (simp add: unset_fp_def l side_fingerprint_xor fp_xor_cancel)
  qed
qed

section \<open>Sides\<close>

definition level_ok :: "level \<Rightarrow> bool" where
  "level_ok l \<longleftrightarrow> valid_decimal (fst l) \<and> valid_decimal (snd l) \<and> 0 < coefficient (fst l)
     \<and> 0 \<le> coefficient (snd l)"

text \<open>An ordered side whose prices and quantities are positive.\<close>

definition side_ok :: "side \<Rightarrow> bool" where
  "side_ok m \<longleftrightarrow> price_map_wf m \<and> (\<forall>l\<in>set m. level_ok l \<and> 0 < coefficient (snd l))"

text \<open>Reference semantics of a batch: set or delete, in order, in a finite map.\<close>

fun update_map :: "(fixed_decimal \<rightharpoonup> fixed_decimal) \<Rightarrow> level list \<Rightarrow> (fixed_decimal \<rightharpoonup> fixed_decimal)" where
  "update_map m [] = m"
| "update_map m ((p, q) # us) = update_map (if is_zero q then m(p := None) else m(p \<mapsto> q)) us"

lemma parse_level_ok: "parse_level E side v = Ok l \<Longrightarrow> level_ok l"
  by (auto simp: parse_level_def level_ok_def is_zero_def is_negative_def fd_parse_valid
      split: option.splits list.splits if_splits dest: fd_parse_valid)

lemma set_bt_insert:
  "price_map_wf m \<Longrightarrow> valid_decimal k \<Longrightarrow> set (bt_insert fd_less k v m) \<subseteq> insert (k, v) (set m)"
  by (auto simp: price_key.mem_insert_iff)

lemma side_ok_insert:
  "side_ok m \<Longrightarrow> level_ok (p, q) \<Longrightarrow> \<not> is_zero q \<Longrightarrow> side_ok (bt_insert fd_less p q m)"
  using set_bt_insert [of m p q]
  by (auto simp: side_ok_def level_ok_def is_zero_def price_key.wf_insert)

lemma side_ok_remove: "side_ok m \<Longrightarrow> side_ok (bt_remove fd_less p m)"
  using price_key.keys_remove [of p m] by (auto simp: side_ok_def price_key.wf_remove)

lemma side_ok_Nil [simp]: "side_ok []"
  by (simp add: side_ok_def price_key.wf_Nil)

lemma side_ok_wf: "side_ok m \<Longrightarrow> price_map_wf m"
  by (simp add: side_ok_def)

lemma apply_side_ok:
  "side_ok m \<Longrightarrow> \<forall>l\<in>set us. level_ok l \<Longrightarrow> side_ok (fst (apply_side E m us t fp))"
proof (induction E m us t fp rule: apply_side.induct)
  case (2 E m p q us t fp)
  then show ?case by (simp add: Let_def side_ok_insert side_ok_remove)
qed simp

lemma apply_side_map:
  "side_ok m \<Longrightarrow> \<forall>l\<in>set us. level_ok l \<Longrightarrow>
     map_of (fst (apply_side E m us t fp)) = update_map (map_of m) us"
proof (induction E m us t fp rule: apply_side.induct)
  case (2 E m p q us t fp)
  have "valid_decimal p" "price_map_wf m" using 2(3,4) by (simp_all add: level_ok_def side_ok_def)
  then have "map_of (bt_remove fd_less p m) = (map_of m)(p := None)"
    "map_of (bt_insert fd_less p q m) = (map_of m)(p \<mapsto> q)"
    by (simp_all add: price_key.map_of_remove price_key.map_of_insert)
  with 2 show ?case by (simp add: Let_def side_ok_insert side_ok_remove del: fun_upd_apply)
qed simp

lemma apply_side_fingerprint:
  "side_ok m \<Longrightarrow> \<forall>l\<in>set us. level_ok l \<Longrightarrow> length fp = 4 \<Longrightarrow>
     snd (apply_side E m us t (side_fingerprint E t m fp))
       = side_fingerprint E t (fst (apply_side E m us t (side_fingerprint E t m fp))) fp"
proof (induction us arbitrary: m)
  case Nil
  then show ?case by simp
next
  case (Cons u us)
  obtain p q where u: "u = (p, q)" by (cases u)
  have wf: "price_map_wf m" "valid_decimal p" using Cons.prems u by (simp_all add: level_ok_def side_ok_def)
  have un: "(case bt_get fd_less p m of None \<Rightarrow> fp' | Some old \<Rightarrow> fp_xor fp' (level_fingerprint E t p old))
              = unset_fp E t p m fp'" for fp'
    by (simp add: unset_fp_def split: option.splits)
  show ?case
  proof (cases "is_zero q")
    case True
    with Cons.IH [of "bt_remove fd_less p m"] Cons.prems u show ?thesis
      by (simp add: Let_def un side_ok_remove flip: side_fingerprint_remove [OF wf Cons.prems(3)])
  next
    case False
    with Cons.IH [of "bt_insert fd_less p q m"] Cons.prems u show ?thesis
      by (simp add: Let_def un side_ok_insert flip: side_fingerprint_insert [OF wf Cons.prems(3)])
  qed
qed

section \<open>The book invariant\<close>

definition book_fingerprint :: "'v externals \<Rightarrow> side \<Rightarrow> side \<Rightarrow> fingerprint" where
  "book_fingerprint E bids asks =
     side_fingerprint E ask_tag asks (side_fingerprint E bid_tag bids [0, 0, 0, 0])"

definition uncrossed :: "side \<Rightarrow> side \<Rightarrow> bool" where
  "uncrossed bids asks \<longleftrightarrow> units (fst (last bids)) < units (fst (hd asks))"

definition book_ok :: "'v externals \<Rightarrow> local_order_book \<Rightarrow> bool" where
  "book_ok E b \<longleftrightarrow> side_ok (lb_bids b) \<and> side_ok (lb_asks b)
     \<and> (lb_symbol b = ''BTCUSDT'' \<or> lb_symbol b = ''ETHUSDT'')
     \<and> (lb_state b \<noteq> Empty \<longrightarrow>
          lb_fingerprint b = book_fingerprint E (lb_bids b) (lb_asks b) \<and> lb_last_update_id b \<noteq> None)
     \<and> (accepts_depth b \<and> lb_bids b \<noteq> [] \<and> lb_asks b \<noteq> [] \<longrightarrow> uncrossed (lb_bids b) (lb_asks b))"

lemma side_fingerprint_commute:
  "side_fingerprint E s m (side_fingerprint E t n fp) = side_fingerprint E t n (side_fingerprint E s m fp)"
proof (induction E s m fp rule: side_fingerprint.induct)
  case (2 E s p q m fp)
  then show ?case by (simp flip: side_fingerprint_xor)
qed simp

lemma side_ok_hd: "side_ok m \<Longrightarrow> m \<noteq> [] \<Longrightarrow> safe_range (fst (hd m))"
  by (cases m) (auto simp: side_ok_def level_ok_def valid_safe)

lemma side_ok_last: "side_ok m \<Longrightarrow> m \<noteq> [] \<Longrightarrow> safe_range (fst (last m))"
  using last_in_set [of m] by (auto simp: side_ok_def level_ok_def valid_safe)

lemma best_bid_last: "lb_bids b \<noteq> [] \<Longrightarrow> best_bid b = Ok (fst (last (lb_bids b)))"
  by (simp add: best_bid_def bt_last_def)

lemma best_ask_hd: "lb_asks b \<noteq> [] \<Longrightarrow> best_ask b = Ok (fst (hd (lb_asks b)))"
  by (cases "lb_asks b") (simp_all add: best_ask_def)

lemma check_invariants_empty:
  "lb_bids b = [] \<or> lb_asks b = [] \<Longrightarrow> \<exists>e. check_invariants b = (Err e, b)"
  by (cases "lb_bids b = []") (auto simp: check_invariants_def best_bid_last, auto simp: best_bid_def best_ask_def)

lemma check_invariants_full:
  assumes "side_ok (lb_bids b)" "side_ok (lb_asks b)" "lb_bids b \<noteq> []" "lb_asks b \<noteq> []"
  shows "if uncrossed (lb_bids b) (lb_asks b) then check_invariants b = (Ok (), b)
         else \<exists>e. check_invariants b = (Err e, b\<lparr>lb_state := Invalid\<rparr>)"
proof -
  have "fd_cmp (fst (last (lb_bids b))) (fst (hd (lb_asks b)))
      = Ok (cmp_int (units (fst (last (lb_bids b)))) (units (fst (hd (lb_asks b)))))"
    using assms by (simp add: fd_cmp_units side_ok_hd side_ok_last)
  then show ?thesis
    using assms by (auto simp: check_invariants_def best_bid_last best_ask_hd uncrossed_def cmp_int_def)
qed

lemma check_invariants_cases [consumes 2, case_names empty crossed fine]:
  assumes "side_ok (lb_bids b)" "side_ok (lb_asks b)"
  obtains e where "lb_bids b = [] \<or> lb_asks b = []" "check_invariants b = (Err e, b)"
  | e where "lb_bids b \<noteq> []" "lb_asks b \<noteq> []" "\<not> uncrossed (lb_bids b) (lb_asks b)"
      "check_invariants b = (Err e, b\<lparr>lb_state := Invalid\<rparr>)"
  | "lb_bids b \<noteq> []" "lb_asks b \<noteq> []" "uncrossed (lb_bids b) (lb_asks b)" "check_invariants b = (Ok (), b)"
  using check_invariants_empty [of b] check_invariants_full [OF assms]
  by (cases "lb_bids b = [] \<or> lb_asks b = []"; cases "uncrossed (lb_bids b) (lb_asks b)") auto

text \<open>What \<open>check_invariants\<close> makes of a book that satisfies everything but the crossing test.\<close>

lemma check_invariants_ok:
  assumes "side_ok (lb_bids b)" "side_ok (lb_asks b)" "lb_symbol b = ''BTCUSDT'' \<or> lb_symbol b = ''ETHUSDT''"
    and "lb_fingerprint b = book_fingerprint E (lb_bids b) (lb_asks b)" "lb_last_update_id b \<noteq> None"
  shows "book_ok E (snd (check_invariants b))"
  using assms(1,2)
  by (cases rule: check_invariants_cases) (use assms in \<open>auto simp: book_ok_def accepts_depth_def\<close>)

lemma new_book_ok: "new_book s = Ok b \<Longrightarrow> book_ok E b"
  by (auto simp: new_book_def book_ok_def accepts_depth_def split: if_splits)

lemma load_side_loop_ok: "load_side_loop E side vs m = Ok m' \<Longrightarrow> side_ok m \<Longrightarrow> side_ok m'"
proof (induction vs arbitrary: m)
  case Nil
  then show ?case by simp
next
  case (Cons v vs)
  then obtain p q where pq: "parse_level E side v = Ok (p, q)" by auto
  note l = parse_level_ok [OF pq]
  show ?case
  proof (cases "is_zero q")
    case True
    with Cons pq show ?thesis by simp
  next
    case False
    with Cons.IH [of "bt_insert fd_less p q m"] Cons.prems pq l show ?thesis
      by (simp add: side_ok_insert split: if_splits)
  qed
qed

lemma load_side_ok: "load_side E vs side = Ok m \<Longrightarrow> side_ok m"
  by (auto simp: load_side_def split: if_splits dest: load_side_loop_ok)

lemma snd_after_check:
  "snd (case check_invariants b of (Inl e, b') \<Rightarrow> (Err e, b') | (Inr _, b') \<Rightarrow> (Ok x, b'))
     = snd (check_invariants b)"
  by (auto split: prod.splits sum.splits)

lemma load_snapshot_ok:
  assumes "book_ok E b"
  shows "book_ok E (snd (load_snapshot E b p))"
proof -
  have part: "book_ok E (b\<lparr>lb_bids := bids\<rparr>)" if "lb_state b = Empty" "side_ok bids" for bids
    using that assms by (simp add: book_ok_def accepts_depth_def)
  have full: "book_ok E (snd (check_invariants (b\<lparr>lb_bids := bids, lb_asks := asks,
      lb_fingerprint := side_fingerprint E ask_tag asks (side_fingerprint E bid_tag bids [0, 0, 0, 0]),
      lb_last_update_id := Some n, lb_state := Syncing\<rparr>)))"
    if "side_ok bids" "side_ok asks" for bids asks n
    by (rule check_invariants_ok) (use that assms in \<open>simp_all add: book_ok_def book_fingerprint_def\<close>)
  show ?thesis
    unfolding load_snapshot_def Let_def
    by (simp add: assms part full snd_after_check load_side_ok split: option.split sum.split)
qed

section \<open>Depth updates\<close>

lemma traverse_parse_level_ok: "traverse (parse_level E side) vs = Ok ls \<Longrightarrow> l \<in> set ls \<Longrightarrow> level_ok l"
  using traverse_Ok_set parse_level_ok by metis

lemma depth_levels_ok:
  "depth_levels E v = Ok (ub, ua) \<Longrightarrow> (\<forall>l\<in>set ub. level_ok l) \<and> (\<forall>l\<in>set ua. level_ok l)"
  by (auto simp: depth_levels_def traverse_parse_level_ok)

text \<open>The updated book, before \<open>check_invariants\<close>.\<close>

definition applied_book ::
  "'v externals \<Rightarrow> local_order_book \<Rightarrow> nat \<Rightarrow> level list \<Rightarrow> level list \<Rightarrow> local_order_book" where
  "applied_book E b final_id ub ua =
     (let bids = fst (apply_side E (lb_bids b) ub bid_tag (lb_fingerprint b));
          asks = fst (apply_side E (lb_asks b) ua ask_tag (lb_fingerprint b))
      in b\<lparr>lb_bids := bids, lb_asks := asks, lb_fingerprint := book_fingerprint E bids asks,
           lb_last_update_id := Some final_id, lb_state := Live\<rparr>)"

lemma apply_side_fst_fp: "fst (apply_side E m us t fp) = fst (apply_side E m us t fp')"
  by (induction us arbitrary: m fp fp') (auto simp: Let_def split_beta)

lemma apply_both_sides:
  assumes "side_ok bids" "side_ok asks" "\<forall>l\<in>set ub. level_ok l" "\<forall>l\<in>set ua. level_ok l"
    and fp: "fp = book_fingerprint E bids asks"
    and s1: "apply_side E bids ub bid_tag fp = (bids', fp1)"
    and s2: "apply_side E asks ua ask_tag fp1 = (asks', fp2)"
  shows "fp2 = book_fingerprint E bids' asks'"
proof -
  let ?z = "[0, 0, 0, 0] :: fingerprint"
  have z4: "length ?z = 4" by simp
  have "fp1 = side_fingerprint E bid_tag bids' (side_fingerprint E ask_tag asks ?z)"
    using apply_side_fingerprint [OF assms(1,3), of "side_fingerprint E ask_tag asks ?z" E bid_tag] s1
    by (simp add: fp book_fingerprint_def length_side_fingerprint z4
        flip: side_fingerprint_commute [of E ask_tag asks])
  then have "fp1 = side_fingerprint E ask_tag asks (side_fingerprint E bid_tag bids' ?z)"
    by (simp add: side_fingerprint_commute)
  then show ?thesis
    using apply_side_fingerprint [OF assms(2,4), of "side_fingerprint E bid_tag bids' ?z" E ask_tag] s2
    by (simp add: book_fingerprint_def length_side_fingerprint z4)
qed

lemma apply_prepared_Apply:
  assumes "book_ok E b" "accepts_depth b" "\<forall>l\<in>set ub. level_ok l" "\<forall>l\<in>set ua. level_ok l"
    and "expected_update b = Ok x" "f \<le> x" "x \<le> l"
  shows "apply_prepared_depth E b (PreparedApply f l ub ua) =
           (case check_invariants (applied_book E b l ub ua) of
              (Inl e, b') \<Rightarrow> (Err e, b') | (Inr _, b') \<Rightarrow> (Ok Applied, b'))"
proof -
  obtain bids fp1 where s1: "apply_side E (lb_bids b) ub bid_tag (lb_fingerprint b) = (bids, fp1)"
    by fastforce
  obtain asks fp2 where s2: "apply_side E (lb_asks b) ua ask_tag fp1 = (asks, fp2)" by fastforce
  have fp: "lb_fingerprint b = book_fingerprint E (lb_bids b) (lb_asks b)"
    using assms(1,2) by (auto simp: book_ok_def accepts_depth_def)
  have "fp2 = book_fingerprint E bids asks"
    using assms by (intro apply_both_sides [OF _ _ _ _ fp s1 s2]) (simp_all add: book_ok_def)
  moreover have "fst (apply_side E (lb_asks b) ua ask_tag (lb_fingerprint b)) = asks"
    using apply_side_fst_fp s2 by (metis fst_conv)
  moreover have "(if lb_state b = Syncing then Live else lb_state b) = Live"
    using assms(2) by (auto simp: accepts_depth_def)
  ultimately have "b\<lparr>lb_bids := bids, lb_asks := asks, lb_fingerprint := fp2, lb_last_update_id := Some l,
      lb_state := (if lb_state b = Syncing then Live else lb_state b)\<rparr> = applied_book E b l ub ua"
    using s1 by (simp add: applied_book_def Let_def)
  then show ?thesis
    using assms by (simp add: apply_prepared_depth_def s1 s2 Let_def)
qed

lemma applied_book_sel [simp]:
  "lb_symbol (applied_book E b l ub ua) = lb_symbol b"
  "lb_last_update_id (applied_book E b l ub ua) = Some l"
  "lb_state (applied_book E b l ub ua) = Live"
  "lb_fingerprint (applied_book E b l ub ua)
     = book_fingerprint E (lb_bids (applied_book E b l ub ua)) (lb_asks (applied_book E b l ub ua))"
  by (simp_all add: applied_book_def Let_def)

lemma applied_book_sides:
  assumes "side_ok (lb_bids b)" "side_ok (lb_asks b)" "\<forall>l\<in>set ub. level_ok l" "\<forall>l\<in>set ua. level_ok l"
  shows "side_ok (lb_bids (applied_book E b l ub ua))" "side_ok (lb_asks (applied_book E b l ub ua))"
    "map_of (lb_bids (applied_book E b l ub ua)) = update_map (map_of (lb_bids b)) ub"
    "map_of (lb_asks (applied_book E b l ub ua)) = update_map (map_of (lb_asks b)) ua"
  using assms by (simp_all add: applied_book_def Let_def apply_side_ok apply_side_map)

definition prepared_ok :: "prepared_depth_update \<Rightarrow> bool" where
  "prepared_ok u = (case u of PreparedOld _ _ \<Rightarrow> True
     | PreparedApply _ _ ub ua \<Rightarrow> (\<forall>l\<in>set ub. level_ok l) \<and> (\<forall>l\<in>set ua. level_ok l))"

lemma book_ok_Gap: "book_ok E b \<Longrightarrow> lb_state b \<noteq> Empty \<Longrightarrow> book_ok E (b\<lparr>lb_state := Gap\<rparr>)"
  by (simp add: book_ok_def accepts_depth_def)

lemma accepts_not_Empty: "accepts_depth b \<Longrightarrow> lb_state b \<noteq> Empty"
  by (auto simp: accepts_depth_def)

lemma depth_ids_accepts: "depth_ids E b v = Ok (f, l, x) \<Longrightarrow> accepts_depth b \<and> expected_update b = Ok x \<and> f \<le> l"
  by (auto simp: depth_ids_def)

lemma prepare_depth_value_ok: "book_ok E b \<Longrightarrow> book_ok E (snd (prepare_depth_value E b v))"
  by (auto simp: prepare_depth_value_def book_ok_Gap dest!: depth_ids_accepts accepts_not_Empty
      split: sum.splits prod.splits)

lemma prepare_depth_value_prepared:
  "prepare_depth_value E b v = (Ok u, b') \<Longrightarrow> prepared_ok u \<and> b' = b"
  by (auto simp: prepare_depth_value_def prepared_ok_def dest: depth_levels_ok
      split: sum.splits prod.splits if_splits)

lemma apply_prepared_depth_ok:
  assumes "book_ok E b" "prepared_ok u"
  shows "book_ok E (snd (apply_prepared_depth E b u))"
proof (cases "accepts_depth b \<and> (\<exists>x. expected_update b = Ok x)")
  case False
  then show ?thesis using assms(1)
    by (cases "expected_update b") (auto simp: apply_prepared_depth_def check_def)
next
  case True
  then obtain x where x: "accepts_depth b" "expected_update b = Ok x" by blast
  note gap = book_ok_Gap [OF assms(1) accepts_not_Empty [OF x(1)]]
  show ?thesis
  proof (cases u)
    case (PreparedOld f l)
    then show ?thesis using x assms(1) gap by (simp add: apply_prepared_depth_def)
  next
    case (PreparedApply f l ub ua)
    show ?thesis
    proof (cases "f \<le> x \<and> x \<le> l")
      case True
      have "book_ok E (snd (check_invariants (applied_book E b l ub ua)))"
        using assms PreparedApply
        by (intro check_invariants_ok applied_book_sides) (auto simp: book_ok_def prepared_ok_def)
      moreover have "apply_prepared_depth E b u = (case check_invariants (applied_book E b l ub ua) of
              (Inl e, b') \<Rightarrow> (Err e, b') | (Inr _, b') \<Rightarrow> (Ok Applied, b'))"
        unfolding PreparedApply using assms(2) PreparedApply True
        by (intro apply_prepared_Apply [OF assms(1) x(1) _ _ x(2)]) (simp_all add: prepared_ok_def)
      ultimately show ?thesis by (simp add: snd_after_check)
    next
      case False
      then show ?thesis using x gap PreparedApply by (auto simp: apply_prepared_depth_def)
    qed
  qed
qed

lemma apply_depth_value_ok: "book_ok E b \<Longrightarrow> book_ok E (snd (apply_depth_value E b v))"
  using prepare_depth_value_ok [of E b v]
  by (auto simp: apply_depth_value_def split: prod.split sum.split
      dest: prepare_depth_value_prepared intro: apply_prepared_depth_ok)

end
