(* ===== verification/Order_Book_Safety.thy ===== *)
theory Order_Book_Safety
  imports Order_Book_Correct
begin

text \<open>
  The theorems on the order book: the invariant of every reachable book, the effect of a depth
  update on every branch, redelivery, the checkpoint round trip and the sticky error states.
\<close>

section \<open>Checkpoints\<close>

lemma side_ok_append:
  "side_ok (m @ n) \<longleftrightarrow> side_ok m \<and> side_ok n \<and> (\<forall>a\<in>fst ` set m. \<forall>b\<in>fst ` set n. fd_less a b)"
  by (auto simp: side_ok_def price_key.wf_append)

lemma side_ok_valid: "side_ok m \<Longrightarrow> (a, b) \<in> set m \<Longrightarrow> valid_decimal a"
  by (auto simp: side_ok_def level_ok_def)

lemma side_ok_Cons: "side_ok ((p, q) # m) \<Longrightarrow> side_ok m \<and> (\<forall>a\<in>fst ` set m. fd_less p a)"
  by (auto simp: side_ok_def price_key.wf_Cons)

lemma level_display:
  assumes "level_ok (p, q)" "0 < coefficient q"
  shows "fd_parse (fd_display p) = Ok p" "fd_parse (fd_display q) = Ok q"
    "\<not> (is_zero p \<or> is_negative p \<or> is_zero q \<or> is_negative q)"
  using assms by (simp_all add: level_ok_def fd_parse_display is_zero_def is_negative_def)

lemma out_of_order_fine:
  "safe_range a \<Longrightarrow> safe_range b \<Longrightarrow> units a < units b \<Longrightarrow> out_of_order False (Some a) b = Ok False"
  "safe_range a \<Longrightarrow> safe_range b \<Longrightarrow> units a < units b \<Longrightarrow> out_of_order True (Some b) a = Ok False"
  by (simp_all add: out_of_order_def fd_cmp_units cmp_int_def)

lemma fd_less_unitsD:
  "valid_decimal a \<Longrightarrow> valid_decimal b \<Longrightarrow> fd_less a b \<Longrightarrow>
     safe_range a \<and> safe_range b \<and> units a < units b \<and> \<not> fd_less b a"
  by (simp add: fd_less_units valid_safe)

lemma checkpoint_asks_loop:
  assumes "side_ok (acc @ m)" "prev = (if acc = [] then None else Some (fst (last acc)))"
  shows "checkpoint_side_loop side False (map display_level m) acc prev = Ok (acc @ m)"
  using assms
proof (induction m arbitrary: acc prev)
  case Nil
  then show ?case by simp
next
  case (Cons l m)
  obtain p q where l: "l = (p, q)" by (cases l)
  have lev: "level_ok (p, q)" "0 < coefficient q" using Cons.prems(1) l by (auto simp: side_ok_def)
  have vp: "valid_decimal p" using lev by (simp add: level_ok_def)
  have below: "valid_decimal a \<and> fd_less a p" if "a \<in> fst ` set acc" for a
    using Cons.prems(1) that l by (auto simp: side_ok_append dest: side_ok_valid)
  then have less: "\<forall>a\<in>fst ` set acc. fd_less a p \<and> \<not> fd_less p a" using fd_less_unitsD vp by blast
  have ord: "out_of_order False prev p = Ok False"
  proof (cases "acc = []")
    case True
    with Cons.prems(2) show ?thesis by (simp add: out_of_order_def)
  next
    case False
    then have "fst (last acc) \<in> fst ` set acc" by simp
    from below [OF this] have a: "valid_decimal (fst (last acc))" "fd_less (fst (last acc)) p" by simp_all
    have "out_of_order False (Some (fst (last acc))) p = Ok False"
      using fd_less_unitsD [OF a(1) vp a(2)] by (intro out_of_order_fine) simp_all
    with False Cons.prems(2) show ?thesis by simp
  qed
  have none: "bt_get fd_less p acc = None" using less by (induction acc) auto
  have "bt_insert fd_less p q acc = acc @ [(p, q)]" by (rule price_key.insert_above [OF less])
  then show ?case
    using Cons.IH [of "acc @ [(p, q)]" "Some p"] Cons.prems(1) level_display [OF lev] ord none
    by (simp add: l display_level_def)
qed

lemma checkpoint_bids_loop:
  assumes "side_ok (m @ acc)" "prev = (if acc = [] then None else Some (fst (hd acc)))"
  shows "checkpoint_side_loop side True (map display_level (rev m)) acc prev = Ok (m @ acc)"
  using assms
proof (induction m arbitrary: acc prev rule: rev_induct)
  case Nil
  then show ?case by simp
next
  case (snoc l m)
  obtain p q where l: "l = (p, q)" by (cases l)
  have lev: "level_ok (p, q)" "0 < coefficient q" using snoc.prems(1) l by (auto simp: side_ok_def)
  have vp: "valid_decimal p" using lev by (simp add: level_ok_def)
  have above: "valid_decimal a \<and> fd_less p a" if "a \<in> fst ` set acc" for a
    using snoc.prems(1) that l by (auto simp: side_ok_append dest: side_ok_valid dest!: side_ok_Cons)
  have ord: "out_of_order True prev p = Ok False"
  proof (cases acc)
    case Nil
    with snoc.prems(2) show ?thesis by (simp add: out_of_order_def)
  next
    case (Cons a as)
    then have "fst a \<in> fst ` set acc" by simp
    from above [OF this] have a: "valid_decimal (fst a)" "fd_less p (fst a)" by simp_all
    have "out_of_order True (Some (fst a)) p = Ok False"
      using fd_less_unitsD [OF vp a(1) a(2)] by (intro out_of_order_fine) simp_all
    with Cons snoc.prems(2) show ?thesis by simp
  qed
  have none: "bt_get fd_less p acc = None" and ins: "bt_insert fd_less p q acc = (p, q) # acc"
    using above by (cases acc; auto)+
  show ?case
    using snoc.IH [of "(p, q) # acc" "Some p"] snoc.prems(1) level_display [OF lev] ord none ins
    by (simp add: l display_level_def)
qed

lemma checkpoint_side_display:
  assumes "side_ok m" "m \<noteq> []"
  shows "checkpoint_side (map display_level m) side False = Ok m"
    and "checkpoint_side (map display_level (rev m)) side True = Ok m"
  using assms checkpoint_asks_loop [of "[]" m None side] checkpoint_bids_loop [of m "[]" None side]
  by (simp_all add: checkpoint_side_def)

lemma checkpoint_restores:
  assumes "sha256_len32 E" "book_ok E b" "lb_bids b \<noteq> []" "lb_asks b \<noteq> []" "checkpoint E b = Ok c"
  shows "from_checkpoint E c = Ok b"
proof -
  obtain n where n: "lb_last_update_id b = Some n" "lb_state b = Live"
    using assms(5) by (auto simp: checkpoint_def is_live_def)
  have c: "c = \<lparr>cp_schema = ''OrderBookCheckpointV1'', cp_symbol = lb_symbol b, cp_last_update_id = n,
         cp_bids = map display_level (rev (lb_bids b)), cp_asks = map display_level (lb_asks b),
         cp_state_sha256 = state_digest E b\<rparr>"
    using assms(5) n by (auto simp: checkpoint_def is_live_def)
  have so: "side_ok (lb_bids b)" "side_ok (lb_asks b)" and un: "uncrossed (lb_bids b) (lb_asks b)"
    and sym: "lb_symbol b = ''BTCUSDT'' \<or> lb_symbol b = ''ETHUSDT''"
    and fp: "lb_fingerprint b = book_fingerprint E (lb_bids b) (lb_asks b)"
    using assms n by (auto simp: book_ok_def accepts_depth_def)
  have nb: "new_book (lb_symbol b) = Ok \<lparr>lb_symbol = lb_symbol b, lb_state = Empty, lb_last_update_id = None,
      lb_bids = [], lb_asks = [], lb_fingerprint = [0, 0, 0, 0]\<rparr>"
    using sym by (simp add: new_book_def)
  have b1: "\<lparr>lb_symbol = lb_symbol b, lb_state = Live, lb_last_update_id = Some n, lb_bids = lb_bids b,
      lb_asks = lb_asks b, lb_fingerprint = book_fingerprint E (lb_bids b) (lb_asks b)\<rparr> = b"
    using n fp by simp
  have inv: "check_invariants b = (Ok (), b)"
    using check_invariants_full [OF so assms(3,4)] un by simp
  show ?thesis
    using assms(1)
    by (simp add: c from_checkpoint_def nb checkpoint_side_display so assms(3,4) Let_def
        length_sha256_hex lower_hex_sha256_hex state_digest_def [symmetric] b1 inv
        book_fingerprint_def [symmetric]) (simp_all add: state_digest_def length_sha256_hex lower_hex_sha256_hex)
qed

lemma checkpoint_side_loop_ok:
  "checkpoint_side_loop side d ls m prev = Ok m' \<Longrightarrow> side_ok m \<Longrightarrow> side_ok m'"
proof (induction ls arbitrary: m prev)
  case Nil
  then show ?case by simp
next
  case (Cons l ls)
  obtain pt qt where l: "l = (pt, qt)" by (cases l)
  from Cons.prems(1) l obtain p q where pq: "fd_parse pt = Ok p" "fd_parse qt = Ok q"
    and ok: "\<not> (is_zero p \<or> is_negative p \<or> is_zero q \<or> is_negative q)"
    and rest: "checkpoint_side_loop side d ls (bt_insert fd_less p q m) (Some p) = Ok m'"
    by (auto split: if_splits)
  have "level_ok (p, q)" using pq ok fd_parse_valid by (auto simp: level_ok_def is_zero_def is_negative_def)
  then show ?case using Cons.IH [OF rest] Cons.prems(2) ok by (simp add: side_ok_insert)
qed

lemma from_checkpoint_ok: "from_checkpoint E c = Ok b \<Longrightarrow> book_ok E b \<and> is_live b \<and> lb_bids b \<noteq> [] \<and> lb_asks b \<noteq> []"
proof -
  assume a: "from_checkpoint E c = Ok b"
  then obtain book bids asks where
    nb: "new_book (cp_symbol c) = Ok book" and bids: "checkpoint_side (cp_bids c) ''bid'' True = Ok bids"
    and asks: "checkpoint_side (cp_asks c) ''ask'' False = Ok asks"
    by (auto simp: from_checkpoint_def split: if_splits)
  define b1 where "b1 = book\<lparr>lb_bids := bids, lb_asks := asks, lb_last_update_id := Some (cp_last_update_id c),
      lb_state := Live, lb_fingerprint := book_fingerprint E bids asks\<rparr>"
  have so: "side_ok (lb_bids b1)" "side_ok (lb_asks b1)"
    using bids asks checkpoint_side_loop_ok by (auto simp: checkpoint_side_def b1_def split: if_splits)
  have fp0: "lb_fingerprint book = [0, 0, 0, 0]" and sym: "lb_symbol book = ''BTCUSDT'' \<or> lb_symbol book = ''ETHUSDT''"
    using nb by (auto simp: new_book_def split: if_splits)
  have "from_checkpoint E c = (case check_invariants b1 of (Inl e, _) \<Rightarrow> Err e | (Inr _, b2) \<Rightarrow>
      if state_digest E b2 \<noteq> cp_state_sha256 c then Err (Fail ''book checkpoint state digest is invalid'') else Ok b2)"
    using a by (auto simp: from_checkpoint_def nb bids asks Let_def b1_def book_fingerprint_def fp0
        cong: if_cong split: if_splits)
  with a so have "b = b1 \<and> lb_bids b1 \<noteq> [] \<and> lb_asks b1 \<noteq> [] \<and> uncrossed (lb_bids b1) (lb_asks b1)"
    by (cases rule: check_invariants_cases [OF so]) (auto split: if_splits)
  then show ?thesis using so sym by (auto simp: book_ok_def b1_def is_live_def)
qed

section \<open>Reachable books\<close>

text \<open>
  A book starts empty or restored from a checkpoint; it is then driven by snapshots, by depth
  values prepared against it, and by applying updates prepared against this or any other book
  (the live pipeline prepares and applies in separate calls).
\<close>

inductive book_reachable :: "'v externals \<Rightarrow> local_order_book \<Rightarrow> bool" for E where
  reach_new: "new_book s = Ok b \<Longrightarrow> book_reachable E b"
| reach_restore: "from_checkpoint E c = Ok b \<Longrightarrow> book_reachable E b"
| reach_snapshot: "book_reachable E b \<Longrightarrow> book_reachable E (snd (load_snapshot E b p))"
| reach_prepare: "book_reachable E b \<Longrightarrow> book_reachable E (snd (prepare_depth_value E b v))"
| reach_apply: "book_reachable E b \<Longrightarrow> prepare_depth_value E b0 v = (Ok u, b1) \<Longrightarrow>
    book_reachable E (snd (apply_prepared_depth E b u))"

lemma reachable_ok: "book_reachable E b \<Longrightarrow> book_ok E b"
proof (induction rule: book_reachable.induct)
  case (reach_apply b b0 v u b1)
  then show ?case using prepare_depth_value_prepared [OF reach_apply(2)] by (simp add: apply_prepared_depth_ok)
qed (auto intro: new_book_ok load_snapshot_ok prepare_depth_value_ok dest: from_checkpoint_ok)

text \<open>
  A book without a snapshot: no asks, no id and the fingerprint of no levels. Bids may be there, left by a snapshot whose
  ask side was refused.
\<close>

definition empty_ok :: "local_order_book \<Rightarrow> bool" where
  "empty_ok b \<longleftrightarrow> (lb_state b = Empty \<longrightarrow> lb_asks b = [] \<and> lb_last_update_id b = None \<and> lb_fingerprint b = [0, 0, 0, 0])"

lemma check_invariants_state: "lb_state (snd (check_invariants b)) = Empty \<Longrightarrow> lb_state b = Empty"
  by (auto simp: check_invariants_def split: sum.splits prod.splits if_splits)

lemma load_snapshot_empty: "empty_ok b \<Longrightarrow> empty_ok (snd (load_snapshot E b p))"
  by (auto simp: load_snapshot_def Let_def empty_ok_def snd_after_check dest!: check_invariants_state split: option.split sum.split)

lemma depth_empty:
  "empty_ok b \<Longrightarrow> empty_ok (snd (prepare_depth_value E b v))"
  "empty_ok b \<Longrightarrow> empty_ok (snd (apply_prepared_depth E b u))"
proof -
  show "empty_ok b \<Longrightarrow> empty_ok (snd (prepare_depth_value E b v))"
    by (auto simp: prepare_depth_value_def empty_ok_def split: sum.split prod.split)
  show "empty_ok b \<Longrightarrow> empty_ok (snd (apply_prepared_depth E b u))"
  proof (cases "accepts_depth b")
    case True
    have "lb_state (snd (apply_prepared_depth E b u)) \<noteq> Empty"
      using True by (auto simp: apply_prepared_depth_def Let_def snd_after_check accepts_depth_def dest!: check_invariants_state
          split: option.split sum.split prod.split prepared_depth_update.split)
    then show ?thesis by (simp add: empty_ok_def)
  qed (simp add: apply_prepared_depth_def)
qed

lemma reachable_empty: "book_reachable E b \<Longrightarrow> empty_ok b"
proof (induction rule: book_reachable.induct)
  case (reach_new s b)
  then show ?case by (auto simp: new_book_def empty_ok_def split: if_splits)
next
  case (reach_restore c b)
  then show ?case using from_checkpoint_ok [of E c b] by (simp add: empty_ok_def is_live_def)
qed (intro load_snapshot_empty depth_empty; assumption)+

lemma apply_depth_value_levels:
  assumes "depth_ids E b v = Ok (f, l, x)" "f \<le> x" "x \<le> l"
  shows "apply_depth_value E b v = (case depth_levels E v of Inl e \<Rightarrow> (Err e, b)
           | Inr (ub, ua) \<Rightarrow> apply_prepared_depth E b (PreparedApply f l ub ua))"
  using assms by (auto simp: apply_depth_value_def prepare_depth_value_def split: sum.splits prod.splits)

lemma apply_depth_value_old:
  assumes "depth_ids E b v = Ok (f, l, x)" "l < x"
  shows "apply_depth_value E b v = (Ok Old, b)"
proof -
  have "accepts_depth b" "expected_update b = Ok x" "f \<le> l" using depth_ids_accepts [OF assms(1)] by auto
  with assms show ?thesis
    by (auto simp: apply_depth_value_def prepare_depth_value_def apply_prepared_depth_def)
qed

lemma apply_depth_value_gap:
  assumes "depth_ids E b v = Ok (f, l, x)" "x < f"
  shows "apply_depth_value E b v = (Err (FailN ''depth gap'' [x, f, l]), b\<lparr>lb_state := Gap\<rparr>)"
proof -
  have "f \<le> l" using depth_ids_accepts [OF assms(1)] by auto
  with assms show ?thesis by (auto simp: apply_depth_value_def prepare_depth_value_def)
qed

section \<open>Theorems\<close>

text \<open>
  C5. Invariant. In every reachable book both sides are strictly ordered by price with positive prices and
  quantities. Once a snapshot is loaded, the book has an update id and the incrementally maintained fingerprint is the one
  recomputed from the levels; before that it has neither id nor asks, its fingerprint is that of no levels, and it accepts no
  updates. A book that accepts updates and has both sides is uncrossed.
\<close>

theorem order_book_invariant:
  assumes "book_reachable E b"
  shows "sorted_wrt (\<lambda>p q. units p < units q) (map fst (lb_bids b))
    \<and> sorted_wrt (\<lambda>p q. units p < units q) (map fst (lb_asks b))
    \<and> (\<forall>(p, q)\<in>set (lb_bids b @ lb_asks b). 0 < units p \<and> 0 < units q)
    \<and> (if lb_state b = Empty then lb_asks b = [] \<and> lb_last_update_id b = None \<and> lb_fingerprint b = [0, 0, 0, 0] \<and> \<not> accepts_depth b
       else lb_last_update_id b \<noteq> None \<and> lb_fingerprint b = book_fingerprint E (lb_bids b) (lb_asks b))
    \<and> (accepts_depth b \<longrightarrow> (\<forall>bid ask. best_bid b = Ok bid \<longrightarrow> best_ask b = Ok ask \<longrightarrow> units bid < units ask))"
proof -
  note ok = reachable_ok [OF assms]
  have srt: "sorted_wrt (\<lambda>p q. units p < units q) (map fst m)" if "side_ok m" for m
  proof -
    have "sorted_wrt fd_less (map fst m)" "\<forall>p\<in>set (map fst m). safe_range p"
      using that by (auto simp: side_ok_def bt_wf_def valid_safe)
    then show ?thesis by (auto simp: sorted_wrt_iff_nth_less fd_less_units)
  qed
  have pos: "0 < units (fst l) \<and> 0 < units (snd l)" if "side_ok m" "l \<in> set m" for l m
    using that by (auto simp: side_ok_def level_ok_def units_def)
  have "units bid < units ask" if "accepts_depth b" "best_bid b = Ok bid" "best_ask b = Ok ask" for bid ask
  proof -
    have "lb_bids b \<noteq> []" "lb_asks b \<noteq> []" using that(2,3) by (auto simp: best_bid_def best_ask_def)
    with that ok show ?thesis by (simp add: book_ok_def uncrossed_def best_bid_last best_ask_hd)
  qed
  moreover have "if lb_state b = Empty then lb_asks b = [] \<and> lb_last_update_id b = None \<and> lb_fingerprint b = [0, 0, 0, 0] \<and> \<not> accepts_depth b
      else lb_last_update_id b \<noteq> None \<and> lb_fingerprint b = book_fingerprint E (lb_bids b) (lb_asks b)"
    using ok reachable_empty [OF assms] by (simp add: book_ok_def empty_ok_def accepts_depth_def)
  ultimately show ?thesis using ok srt pos unfolding book_ok_def by fastforce
qed

text \<open>
  C8. The effect of a depth update on every branch: stale updates change nothing, a hole in the
  update ids puts the book in Gap, and a bridging update whose levels parse leaves exactly the two
  maps the batch of set and delete operations defines, with the new update id; it is accepted if
  and only if both resulting sides are non-empty and uncrossed.
\<close>

theorem depth_update_effect:
  assumes "book_reachable E b" "depth_ids E b v = Ok (first_id, final_id, expected)"
  shows "(final_id < expected \<longrightarrow> apply_depth_value E b v = (Ok Old, b))
    \<and> (expected < first_id \<longrightarrow> apply_depth_value E b v =
         (Err (FailN ''depth gap'' [expected, first_id, final_id]), b\<lparr>lb_state := Gap\<rparr>))
    \<and> (first_id \<le> expected \<and> expected \<le> final_id \<longrightarrow>
         (\<forall>e. depth_levels E v = Err e \<longrightarrow> apply_depth_value E b v = (Err e, b))
       \<and> (\<forall>ub ua. depth_levels E v = Ok (ub, ua) \<longrightarrow>
            (\<exists>r b'. apply_depth_value E b v = (r, b')
              \<and> map_of (lb_bids b') = update_map (map_of (lb_bids b)) ub
              \<and> map_of (lb_asks b') = update_map (map_of (lb_asks b)) ua
              \<and> lb_last_update_id b' = Some final_id
              \<and> lb_fingerprint b' = book_fingerprint E (lb_bids b') (lb_asks b')
              \<and> (r = Ok Applied \<longleftrightarrow> lb_bids b' \<noteq> [] \<and> lb_asks b' \<noteq> [] \<and> uncrossed (lb_bids b') (lb_asks b'))
              \<and> lb_state b' = (if lb_bids b' \<noteq> [] \<and> lb_asks b' \<noteq> [] \<and> \<not> uncrossed (lb_bids b') (lb_asks b')
                                 then Invalid else Live))))"
proof -
  note ok = reachable_ok [OF assms(1)] and acc = depth_ids_accepts [OF assms(2)]
  have app: "\<exists>r b'. apply_depth_value E b v = (r, b')
              \<and> map_of (lb_bids b') = update_map (map_of (lb_bids b)) ub
              \<and> map_of (lb_asks b') = update_map (map_of (lb_asks b)) ua
              \<and> lb_last_update_id b' = Some final_id
              \<and> lb_fingerprint b' = book_fingerprint E (lb_bids b') (lb_asks b')
              \<and> (r = Ok Applied \<longleftrightarrow> lb_bids b' \<noteq> [] \<and> lb_asks b' \<noteq> [] \<and> uncrossed (lb_bids b') (lb_asks b'))
              \<and> lb_state b' = (if lb_bids b' \<noteq> [] \<and> lb_asks b' \<noteq> [] \<and> \<not> uncrossed (lb_bids b') (lb_asks b')
                                 then Invalid else Live)"
    if pos: "first_id \<le> expected" "expected \<le> final_id" and lev: "depth_levels E v = Ok (ub, ua)" for ub ua
  proof -
    note lo = depth_levels_ok [OF lev]
    let ?b = "applied_book E b final_id ub ua"
    have so: "side_ok (lb_bids b)" "side_ok (lb_asks b)" using ok by (simp_all add: book_ok_def)
    note sides = applied_book_sides [OF so conjunct1 [OF lo] conjunct2 [OF lo], of E final_id]
    have eq: "apply_depth_value E b v = (case check_invariants ?b of
              (Inl e, b') \<Rightarrow> (Err e, b') | (Inr _, b') \<Rightarrow> (Ok Applied, b'))"
      using apply_depth_value_levels [OF assms(2) pos] apply_prepared_Apply [OF ok _ _ _ _ pos] lo acc lev
      by simp
    from sides(1,2) show ?thesis
      by (cases rule: check_invariants_cases) (use sides eq in auto)
  qed
  show ?thesis
    using app apply_depth_value_old [OF assms(2)] apply_depth_value_gap [OF assms(2)]
      apply_depth_value_levels [OF assms(2)] by auto
qed

text \<open>
  Redelivery. The redundant lanes deliver every depth update more than once: applying an
  accepted update again is reported as old and leaves the book as it is.
\<close>

theorem depth_redelivery:
  assumes "book_reachable E b" "apply_depth_value E b v = (Ok Applied, b')"
    and "lb_last_update_id b' = Some n" "n < u64_max"
  shows "apply_depth_value E b' v = (Ok Old, b')"
proof -
  note ok = reachable_ok [OF assms(1)]
  obtain f l x where ids: "depth_ids E b v = Ok (f, l, x)"
    using assms(2) by (auto simp: apply_depth_value_def prepare_depth_value_def split: sum.splits)
  have pos: "f \<le> x" "x \<le> l"
    using assms(2) apply_depth_value_old [OF ids] apply_depth_value_gap [OF ids] by (cases "x < f"; cases "l < x"; auto)+
  then obtain ub ua where lev: "depth_levels E v = Ok (ub, ua)"
    using assms(2) apply_depth_value_levels [OF ids] by (auto split: sum.splits)
  note lo = depth_levels_ok [OF lev]
  let ?b = "applied_book E b l ub ua"
  have so: "side_ok (lb_bids b)" "side_ok (lb_asks b)" using ok by (simp_all add: book_ok_def)
  note sides = applied_book_sides [OF so conjunct1 [OF lo] conjunct2 [OF lo], of E l]
  have eq: "apply_depth_value E b v = (case check_invariants ?b of
              (Inl e, b') \<Rightarrow> (Err e, b') | (Inr _, b') \<Rightarrow> (Ok Applied, b'))"
    using apply_depth_value_levels [OF ids pos] apply_prepared_Apply [OF ok _ _ _ _ pos] lo
      depth_ids_accepts [OF ids] lev by simp
  from sides(1,2) have b': "b' = ?b"
    by (cases rule: check_invariants_cases) (use eq assms(2) in auto)
  with assms(3) have n: "n = l" by simp
  have "depth_ids E b' v = Ok (f, l, Suc l)"
    using ids assms(4) by (auto simp: depth_ids_def b' accepts_depth_def expected_update_def n)
  then show ?thesis by (rule apply_depth_value_old) simp
qed

text \<open>
  C23. Checkpoint round trip. The checkpoint of a reachable live book with both sides restores
  exactly that book, fingerprint included.
\<close>

theorem checkpoint_round_trip:
  assumes "sha256_len32 E" "book_reachable E b" "lb_bids b \<noteq> []" "lb_asks b \<noteq> []" "is_live b"
  shows "\<exists>c. checkpoint E b = Ok c \<and> from_checkpoint E c = Ok b"
proof -
  note ok = reachable_ok [OF assms(2)]
  then obtain n where "lb_last_update_id b = Some n" using assms(5) by (auto simp: book_ok_def is_live_def)
  with assms(5) obtain c where "checkpoint E b = Ok c" by (simp add: checkpoint_def)
  with checkpoint_restores [OF assms(1) ok assms(3,4)] show ?thesis by blast
qed

text \<open>
  Sticky error states. A book in Gap or Invalid refuses every operation and is left unchanged:
  only a new book, from a new snapshot or a checkpoint, resumes.
\<close>

theorem error_state_sticky:
  assumes "lb_state b = Gap \<or> lb_state b = Invalid"
  shows "(\<exists>e. load_snapshot E b p = (Err e, b)) \<and> (\<exists>e. apply_depth E b p = (Err e, b))
    \<and> (\<exists>e. prepare_depth_value E b v = (Err e, b)) \<and> (\<exists>e. apply_prepared_depth E b u = (Err e, b))
    \<and> (\<exists>e. checkpoint E b = Err e)"
proof -
  have "\<not> accepts_depth b" "lb_state b \<noteq> Empty" "\<not> is_live b"
    using assms by (auto simp: accepts_depth_def is_live_def)
  then show ?thesis
    by (auto simp: load_snapshot_def apply_depth_def apply_depth_value_def prepare_depth_value_def depth_ids_def
        apply_prepared_depth_def checkpoint_def split: option.splits)
qed

text \<open>
  No false alarm. Two reachable books in the same state carry the same fingerprint, so the cheap
  comparison of the redundant lanes never separates equal books.
\<close>

theorem same_state_same_fingerprint:
  assumes "book_reachable E a" "book_reachable E b" "same_state a b" "lb_state a \<noteq> Empty"
  shows "same_state_fingerprint a b"
  using reachable_ok [OF assms(1)] reachable_ok [OF assms(2)] assms(3,4)
  by (auto simp: book_ok_def same_state_def same_state_fingerprint_def)

text \<open>
  A depth update that empties the bid side is reported as an error, but the book it leaves is
  still Live with the new update id: unlike the crossed case, no error state is entered. The
  checkpoint of that book is produced and cannot be restored.
\<close>

theorem emptied_side_stays_live:
  assumes "book_reachable E b" "depth_ids E b v = Ok (f, l, x)" "f \<le> x" "x \<le> l"
    and "depth_levels E v = Ok (ub, ua)" "update_map (map_of (lb_bids b)) ub = Map.empty"
  shows "\<exists>e b' c e'. apply_depth_value E b v = (Err e, b') \<and> is_live b' \<and> lb_bids b' = []
    \<and> lb_last_update_id b' = Some l \<and> checkpoint E b' = Ok c \<and> from_checkpoint E c = Err e'"
proof -
  note ok = reachable_ok [OF assms(1)] and lo = depth_levels_ok [OF assms(5)]
  let ?b = "applied_book E b l ub ua"
  have so: "side_ok (lb_bids b)" "side_ok (lb_asks b)" using ok by (simp_all add: book_ok_def)
  note sides = applied_book_sides [OF so conjunct1 [OF lo] conjunct2 [OF lo], of E l]
  have eq: "apply_depth_value E b v = (case check_invariants ?b of
              (Inl e, b') \<Rightarrow> (Err e, b') | (Inr _, b') \<Rightarrow> (Ok Applied, b'))"
    using apply_depth_value_levels [OF assms(2-4)] apply_prepared_Apply [OF ok _ _ _ _ assms(3,4)] lo
      depth_ids_accepts [OF assms(2)] assms(5) by simp
  have nil: "lb_bids ?b = []" using sides(3) assms(6) by (cases "lb_bids ?b") auto
  obtain e where e: "check_invariants ?b = (Err e, ?b)" using check_invariants_empty [of ?b] nil by auto
  obtain c where c: "checkpoint E ?b = Ok c" by (simp add: checkpoint_def is_live_def)
  have "cp_bids c = []" using c nil by (auto simp: checkpoint_def)
  then have "from_checkpoint E c \<noteq> Ok b2" for b2
    by (auto simp: from_checkpoint_def checkpoint_side_def)
  then obtain e' where "from_checkpoint E c = Err e'" by (cases "from_checkpoint E c") auto
  with eq e nil c show ?thesis by (auto simp: is_live_def)
qed

end
