(* ===== verification/Order_Book_Witness.thy ===== *)
theory Order_Book_Witness
  imports Order_Book_Safety Concrete_Externals
begin

text \<open>
  A concrete book for the order-book theorems: a snapshot with one level on each side, then depth
  updates that replace a quantity, leave a gap, and empty a side.
\<close>

definition jlevel :: "string \<Rightarrow> string \<Rightarrow> jv" where
  "jlevel p q = JArr [JStr p, JStr q]"

definition demo_snapshot :: jv where
  "demo_snapshot = JObj [(''lastUpdateId'', JNum 10), (''bids'', JArr [jlevel ''1'' ''2'']),
     (''asks'', JArr [jlevel ''3'' ''4''])]"

definition demo_depth :: "int \<Rightarrow> int \<Rightarrow> string \<Rightarrow> jv" where
  "demo_depth first final quantity = JObj [(''e'', JStr ''depthUpdate''), (''s'', JStr ''BTCUSDT''),
     (''U'', JNum first), (''u'', JNum final), (''b'', JArr [jlevel ''1'' quantity]), (''a'', JArr [])]"

definition book_E :: "jv externals" where
  "book_E = table_externals [([1], demo_snapshot)]"

definition dec :: "int \<Rightarrow> fixed_decimal" where "dec n = \<lparr>coefficient = n, scale = 0\<rparr>"

definition demo_book :: local_order_book where
  "demo_book = snd (load_snapshot book_E \<lparr>lb_symbol = ''BTCUSDT'', lb_state = Empty, lb_last_update_id = None,
     lb_bids = [], lb_asks = [], lb_fingerprint = [0, 0, 0, 0]\<rparr> [1])"

lemma parse_small [simp]:
  "fd_parse ''0'' = Ok (dec 0)" "fd_parse ''1'' = Ok (dec 1)" "fd_parse ''2'' = Ok (dec 2)"
  "fd_parse ''3'' = Ok (dec 3)" "fd_parse ''4'' = Ok (dec 4)" "fd_parse ''5'' = Ok (dec 5)"
  by (simp_all add: fd_parse_def Let_def starts_with_def is_ascii_digit_def digits_val_def digit_val_def
      MAX_SAFE_COEFFICIENT_def i128_max_def POW10_18_def canonical_def dec_def)

lemma cmp_small [simp]:
  "\<bar>m\<bar> \<le> 9 \<Longrightarrow> \<bar>n\<bar> \<le> 9 \<Longrightarrow> fd_cmp (dec m) (dec n) = Ok (cmp_int m n)"
  using fd_cmp_units [of "dec m" "dec n"]
  by (simp add: safe_range_def dec_def MAX_SAFE_COEFFICIENT_def i128_max_def POW10_18_def units_def cmp_int_def)

lemma less_small [simp]: "\<bar>m\<bar> \<le> 9 \<Longrightarrow> \<bar>n\<bar> \<le> 9 \<Longrightarrow> fd_less (dec m) (dec n) \<longleftrightarrow> m < n"
  by (simp add: fd_less_def cmp_int_def)

lemma dec_sel [simp]: "is_zero (dec n) \<longleftrightarrow> n = 0" "is_negative (dec n) \<longleftrightarrow> n < 0"
  by (simp_all add: is_zero_def is_negative_def dec_def)

lemma level_small:
  "parse_level book_E side (jlevel p q) = rbind (fd_parse p) (\<lambda>a. rbind (fd_parse q) (\<lambda>b.
     if is_zero a \<or> is_negative a \<or> is_negative b then Err (FailS ''invalid price/quantity'' [side]) else Ok (a, b)))"
  by (simp add: parse_level_def jlevel_def book_E_def)

lemma demo_book_eq:
  "load_snapshot book_E \<lparr>lb_symbol = ''BTCUSDT'', lb_state = Empty, lb_last_update_id = None,
     lb_bids = [], lb_asks = [], lb_fingerprint = [0, 0, 0, 0]\<rparr> [1] = (Ok 10, demo_book)"
  "demo_book = \<lparr>lb_symbol = ''BTCUSDT'', lb_state = Syncing, lb_last_update_id = Some 10,
     lb_bids = [(dec 1, dec 2)], lb_asks = [(dec 3, dec 4)],
     lb_fingerprint = book_fingerprint book_E [(dec 1, dec 2)] [(dec 3, dec 4)]\<rparr>"
proof -
  have j: "json_from_slice book_E [1] = Some demo_snapshot" by (simp add: book_E_def)
  have f: "field_u64 book_E demo_snapshot ''lastUpdateId'' = Some 10"
    "field_array book_E demo_snapshot ''bids'' = Some [jlevel ''1'' ''2'']"
    "field_array book_E demo_snapshot ''asks'' = Some [jlevel ''3'' ''4'']"
    by (simp_all add: field_u64_def field_array_def book_E_def demo_snapshot_def u64_max_def)
  have c: "check_invariants \<lparr>lb_symbol = ''BTCUSDT'', lb_state = Syncing, lb_last_update_id = Some 10,
     lb_bids = [(dec 1, dec 2)], lb_asks = [(dec 3, dec 4)], lb_fingerprint = fp\<rparr>
     = (Ok (), \<lparr>lb_symbol = ''BTCUSDT'', lb_state = Syncing, lb_last_update_id = Some 10,
     lb_bids = [(dec 1, dec 2)], lb_asks = [(dec 3, dec 4)], lb_fingerprint = fp\<rparr>)" for fp
    by (simp add: check_invariants_def best_bid_def best_ask_def bt_last_def cmp_int_def)
  have "load_snapshot book_E \<lparr>lb_symbol = ''BTCUSDT'', lb_state = Empty, lb_last_update_id = None,
     lb_bids = [], lb_asks = [], lb_fingerprint = [0, 0, 0, 0]\<rparr> [1]
     = (Ok 10, \<lparr>lb_symbol = ''BTCUSDT'', lb_state = Syncing, lb_last_update_id = Some 10,
     lb_bids = [(dec 1, dec 2)], lb_asks = [(dec 3, dec 4)],
     lb_fingerprint = book_fingerprint book_E [(dec 1, dec 2)] [(dec 3, dec 4)]\<rparr>)"
    by (simp add: load_snapshot_def j f load_side_def level_small c Let_def book_fingerprint_def required_u64_def)
  then show "load_snapshot book_E \<lparr>lb_symbol = ''BTCUSDT'', lb_state = Empty, lb_last_update_id = None,
     lb_bids = [], lb_asks = [], lb_fingerprint = [0, 0, 0, 0]\<rparr> [1] = (Ok 10, demo_book)"
    and "demo_book = \<lparr>lb_symbol = ''BTCUSDT'', lb_state = Syncing, lb_last_update_id = Some 10,
     lb_bids = [(dec 1, dec 2)], lb_asks = [(dec 3, dec 4)],
     lb_fingerprint = book_fingerprint book_E [(dec 1, dec 2)] [(dec 3, dec 4)]\<rparr>"
    by (simp_all add: demo_book_def)
qed

lemma demo_book_reachable: "book_reachable book_E demo_book"
  unfolding demo_book_def by (rule reach_snapshot, rule reach_new [of "''BTCUSDT''"]) (simp add: new_book_def)

lemma demo_ids:
  "0 \<le> f \<Longrightarrow> f \<le> l \<Longrightarrow> l \<le> 100 \<Longrightarrow> lb_last_update_id b = Some n \<Longrightarrow> n < 100 \<Longrightarrow> accepts_depth b \<Longrightarrow>
     lb_symbol b = ''BTCUSDT'' \<Longrightarrow> depth_ids book_E b (demo_depth f l q) = Ok (nat f, nat l, Suc n)"
  by (simp add: depth_ids_def book_E_def demo_depth_def expected_update_def field_str_def field_u64_def
      required_str_def required_u64_def u64_max_def checked_add_def)

lemma demo_levels:
  "fd_parse q = Ok d \<Longrightarrow> \<not> is_negative d \<Longrightarrow> depth_levels book_E (demo_depth f l q) = Ok ([(dec 1, d)], [])"
proof -
  assume q: "fd_parse q = Ok d" "\<not> is_negative d"
  have "field_array book_E (demo_depth f l q) ''b'' = Some [jlevel ''1'' q]"
    "field_array book_E (demo_depth f l q) ''a'' = Some []"
    by (simp_all add: field_array_def book_E_def demo_depth_def)
  then show ?thesis using q by (simp add: depth_levels_def level_small)
qed

lemma demo_accepts: "accepts_depth demo_book" "lb_last_update_id demo_book = Some 10" "lb_symbol demo_book = ''BTCUSDT''"
  by (simp_all add: demo_book_eq(2) accepts_depth_def)

text \<open>Witness.\<close>

theorem order_book_invariant_witness:
  "book_reachable book_E demo_book \<and> sorted_wrt (\<lambda>p q. units p < units q) (map fst (lb_bids demo_book))
    \<and> lb_fingerprint demo_book = book_fingerprint book_E (lb_bids demo_book) (lb_asks demo_book)"
proof -
  have "lb_state demo_book \<noteq> Empty" by (simp add: demo_book_eq(2))
  then show ?thesis using order_book_invariant [OF demo_book_reachable] demo_book_reachable by simp
qed

text \<open>Witness: a hole in the ids.\<close>

theorem depth_update_effect_witness:
  "apply_depth_value book_E demo_book (demo_depth 12 13 ''5'')
     = (Err (FailN ''depth gap'' [11, 12, 13]), demo_book\<lparr>lb_state := Gap\<rparr>)"
  using depth_update_effect [OF demo_book_reachable demo_ids [OF _ _ _ demo_accepts(2) _ demo_accepts(1,3)],
      of 12 13 "''5''"] by simp

text \<open>The book after an accepted update.\<close>

definition live_book :: local_order_book where
  "live_book = snd (apply_depth_value book_E demo_book (demo_depth 11 12 ''5''))"

lemma live_book_eq:
  "apply_depth_value book_E demo_book (demo_depth 11 12 ''5'') = (Ok Applied, live_book)"
  "live_book = \<lparr>lb_symbol = ''BTCUSDT'', lb_state = Live, lb_last_update_id = Some 12,
     lb_bids = [(dec 1, dec 5)], lb_asks = [(dec 3, dec 4)],
     lb_fingerprint = book_fingerprint book_E [(dec 1, dec 5)] [(dec 3, dec 4)]\<rparr>"
proof -
  have ids: "depth_ids book_E demo_book (demo_depth 11 12 ''5'') = Ok (11, 12, 11)"
    using demo_ids [of 11 12 demo_book 10 "''5''"] demo_accepts by simp
  have lev: "depth_levels book_E (demo_depth 11 12 ''5'') = Ok ([(dec 1, dec 5)], [])"
    by (rule demo_levels) simp_all
  have ok: "book_ok book_E demo_book" using demo_book_reachable by (rule reachable_ok)
  have lv: "level_ok (dec 1, dec 5)"
    using depth_levels_ok [OF lev] by simp
  have ab: "applied_book book_E demo_book 12 [(dec 1, dec 5)] [] = \<lparr>lb_symbol = ''BTCUSDT'', lb_state = Live,
     lb_last_update_id = Some 12, lb_bids = [(dec 1, dec 5)], lb_asks = [(dec 3, dec 4)],
     lb_fingerprint = book_fingerprint book_E [(dec 1, dec 5)] [(dec 3, dec 4)]\<rparr>" (is "_ = ?b")
    by (simp add: applied_book_def Let_def demo_book_eq(2))
  have c: "check_invariants ?b = (Ok (), ?b)"
    by (simp add: check_invariants_def best_bid_def best_ask_def bt_last_def cmp_int_def)
  have "apply_depth_value book_E demo_book (demo_depth 11 12 ''5'') = (Ok Applied, ?b)"
    using apply_depth_value_levels [OF ids] lev depth_ids_accepts [OF ids]
      apply_prepared_Apply [OF ok, of "[(dec 1, dec 5)]" "[]" 11 11 12] lv ab c by simp
  then show "apply_depth_value book_E demo_book (demo_depth 11 12 ''5'') = (Ok Applied, live_book)"
    and "live_book = ?b" by (simp_all add: live_book_def)
qed

lemma live_book_reachable: "book_reachable book_E live_book"
proof -
  obtain u where u: "prepare_depth_value book_E demo_book (demo_depth 11 12 ''5'') = (Ok u, demo_book)"
    "apply_prepared_depth book_E demo_book u = (Ok Applied, live_book)"
    using live_book_eq(1) prepare_depth_value_prepared [of book_E demo_book]
    by (auto simp: apply_depth_value_def split: prod.splits sum.splits)
  from reach_apply [OF demo_book_reachable u(1)] u(2) show ?thesis by simp
qed

text \<open>Witness.\<close>

theorem depth_redelivery_witness:
  "apply_depth_value book_E demo_book (demo_depth 11 12 ''5'') = (Ok Applied, live_book)
    \<and> apply_depth_value book_E live_book (demo_depth 11 12 ''5'') = (Ok Old, live_book)"
proof -
  have "lb_last_update_id live_book = Some 12" "12 < u64_max" by (simp_all add: live_book_eq(2) u64_max_def)
  from depth_redelivery [OF demo_book_reachable live_book_eq(1) this] live_book_eq(1) show ?thesis by blast
qed

text \<open>Witness.\<close>

theorem checkpoint_round_trip_witness:
  "\<exists>c. checkpoint book_E live_book = Ok c \<and> from_checkpoint book_E c = Ok live_book"
  by (rule checkpoint_round_trip [OF _ live_book_reachable])
    (simp_all add: live_book_eq(2) is_live_def book_E_def pad32_len)

text \<open>Witness.\<close>

theorem error_state_sticky_witness:
  "\<exists>e. apply_depth book_E (demo_book\<lparr>lb_state := Gap\<rparr>) [1] = (Err e, demo_book\<lparr>lb_state := Gap\<rparr>)"
  using error_state_sticky [of "demo_book\<lparr>lb_state := Gap\<rparr>" book_E "[1]"] by simp

text \<open>Witness.\<close>

theorem same_state_same_fingerprint_witness:
  "same_state live_book live_book \<and> same_state_fingerprint live_book live_book"
  using same_state_same_fingerprint [OF live_book_reachable live_book_reachable]
  by (simp add: same_state_def live_book_eq(2))

text \<open>Witness: the only bid is deleted.\<close>

theorem emptied_side_stays_live_witness:
  "\<exists>e b' c e'. apply_depth_value book_E live_book (demo_depth 13 14 ''0'') = (Err e, b') \<and> is_live b'
    \<and> lb_bids b' = [] \<and> lb_last_update_id b' = Some 14 \<and> checkpoint book_E b' = Ok c
    \<and> from_checkpoint book_E c = Err e'"
proof -
  have ids: "depth_ids book_E live_book (demo_depth 13 14 ''0'') = Ok (13, 14, 13)"
    using demo_ids [of 13 14 live_book 12 "''0''"] by (simp add: live_book_eq(2) accepts_depth_def)
  have lev: "depth_levels book_E (demo_depth 13 14 ''0'') = Ok ([(dec 1, dec 0)], [])"
    by (rule demo_levels) simp_all
  show ?thesis
    by (rule emptied_side_stays_live [OF live_book_reachable ids _ _ lev]) (simp_all add: live_book_eq(2) fun_eq_iff)
qed

end
