(* ===== verification/Identity_Log.thy ===== *)
theory Identity_Log
  imports Raw_Log
begin

text \<open>
  \<open>TradeIdentityLog\<close> of \<open>src/rust/lob-replay/src/live_arbitration.rs\<close> (lines 84-380): the durable
  log of published trade identities. The file is the byte list of a sink with scripted write
  failures; a 32-byte header carries the committed record count, records have 40 bytes, lookup is
  a binary search by offset. Reads can fail only at the end of the file.
\<close>

section \<open>Data\<close>

record identity_log =
  il_file :: sink
  il_count :: nat
  il_last_id :: "nat option"
  il_dirty :: bool

definition IDENTITY_LOG_MAGIC :: bytes where
  "IDENTITY_LOG_MAGIC = str_bytes ''LOBIDLOG''"

definition IDENTITY_LOG_VERSION :: nat where "IDENTITY_LOG_VERSION = 1"
definition IDENTITY_LOG_HEADER_BYTES :: nat where "IDENTITY_LOG_HEADER_BYTES = 32"
definition IDENTITY_LOG_RECORD_BYTES :: nat where "IDENTITY_LOG_RECORD_BYTES = 40"

section \<open>Digests\<close>

definition nibble :: "char \<Rightarrow> nat" where
  "nibble c = (let n = of_char c :: nat in
     if 48 \<le> n \<and> n \<le> 57 then n - 48 else if 97 \<le> n \<and> n \<le> 102 then n - 97 + 10 else n - 65 + 10)"

fun decode_pairs :: "string \<Rightarrow> bytes" where
  "decode_pairs (high # low # s) = word_of_nat (16 * nibble high + nibble low) # decode_pairs s"
| "decode_pairs _ = []"

definition hex_decode_32 :: "string \<Rightarrow> bytes res" where
  "hex_decode_32 h =
     (if length h \<noteq> 64 \<or> \<not> list_all is_ascii_hexdigit h
      then Err (Fail ''trade identity digest is not a 64-character hex SHA-256'')
      else Ok (decode_pairs h))"

section \<open>Operations\<close>

definition header_bytes :: "nat \<Rightarrow> bytes" where
  "header_bytes count =
     IDENTITY_LOG_MAGIC @ le_bytes 4 IDENTITY_LOG_VERSION @ le_bytes 8 count @ replicate 12 0"

text \<open>A write at offset 0 over existing bytes, with the failure convention of \<open>sink_write_all\<close>.\<close>

definition sink_overwrite :: "bytes \<Rightarrow> sink \<Rightarrow> bool \<times> sink" where
  "sink_overwrite bs s =
     (case sk_plan s of
        [] \<Rightarrow> (True, s\<lparr>sk_data := bs @ drop (length bs) (sk_data s)\<rparr>)
      | IoOk # p \<Rightarrow> (True, s\<lparr>sk_data := bs @ drop (length bs) (sk_data s), sk_plan := p\<rparr>)
      | IoErr k # p \<Rightarrow>
          let part = take (min k (length bs - 1)) bs
          in (False, s\<lparr>sk_data := part @ drop (length part) (sk_data s), sk_plan := p\<rparr>))"

text \<open>\<open>create_new\<close> gives an empty file; \<open>plan\<close> scripts its writes.\<close>

definition identity_create :: "io_outcome list \<Rightarrow> identity_log res" where
  "identity_create plan =
     (case sink_write_all (header_bytes 0) \<lparr>sk_data = [], sk_synced = 0, sk_plan = plan\<rparr> of
        (False, _) \<Rightarrow> Err (Fail ''sync trade identity header'')
      | (True, s1) \<Rightarrow>
          (case sink_sync s1 of
             (False, _) \<Rightarrow> Err (Fail ''sync trade identity header'')
           | (True, s2) \<Rightarrow> Ok \<lparr>il_file = s2, il_count = 0, il_last_id = None, il_dirty = False\<rparr>))"

definition read_record_at :: "bytes \<Rightarrow> nat \<Rightarrow> (nat \<times> bytes) res" where
  "read_record_at data index =
     rbind (ok_or (Fail ''trade identity record offset overflow'')
              (Option.bind (checked_mul index IDENTITY_LOG_RECORD_BYTES)
                 (\<lambda>n. checked_add IDENTITY_LOG_HEADER_BYTES n))) (\<lambda>offset.
       if length data < offset + IDENTITY_LOG_RECORD_BYTES
       then Err (Fail ''read trade identity record'')
       else let bs = take IDENTITY_LOG_RECORD_BYTES (drop offset data)
            in Ok (from_le_bytes (take 8 bs), take 32 (drop 8 bs)))"

definition identity_open :: "sink \<Rightarrow> identity_log res" where
  "identity_open file =
     (let data = sk_data file in
      if length data < IDENTITY_LOG_HEADER_BYTES
      then Err (Fail ''trade identity log is shorter than its header'')
      else if take 8 data \<noteq> IDENTITY_LOG_MAGIC
              \<or> from_le_bytes (take 4 (drop 8 data)) \<noteq> IDENTITY_LOG_VERSION
      then Err (Fail ''trade identity log carries an unknown header'')
      else
        let count = from_le_bytes (take 8 (drop 12 data)) in
        rbind (ok_or (Fail ''trade identity log length overflow'')
                 (checked_add IDENTITY_LOG_HEADER_BYTES (saturating_mul count IDENTITY_LOG_RECORD_BYTES)))
          (\<lambda>expected.
        if length data < expected
        then Err (FailN ''trade identity log is truncated'' [count])
        else rbind (if count = 0 then Ok None
                    else rbind (read_record_at data (count - 1)) (\<lambda>(tid, _). Ok (Some tid))) (\<lambda>last_id.
          Ok \<lparr>il_file = file, il_count = count, il_last_id = last_id, il_dirty = False\<rparr>)))"

definition id_regressed :: "nat option \<Rightarrow> nat \<Rightarrow> bool" where
  "id_regressed lst tid = (case lst of None \<Rightarrow> False | Some n \<Rightarrow> tid \<le> n)"

definition identity_record :: "nat \<Rightarrow> bytes \<Rightarrow> bytes" where
  "identity_record tid digest = le_bytes 8 tid @ digest"

definition identity_insert :: "identity_log \<Rightarrow> nat \<Rightarrow> string \<Rightarrow> unit res \<times> identity_log" where
  "identity_insert l tid digest_hex =
     (if id_regressed (il_last_id l) tid
      then (Err (FailN ''trade identity log insert regressed'' [tid]), l)
      else case hex_decode_32 digest_hex of
        Inl e \<Rightarrow> (Err e, l)
      | Inr digest \<Rightarrow>
          (case sink_write_all (identity_record tid digest) (il_file l) of
             (False, s) \<Rightarrow> (Err (Fail ''write trade identity record''), l\<lparr>il_file := s\<rparr>)
           | (True, s) \<Rightarrow>
               (case checked_add (il_count l) 1 of
                  None \<Rightarrow> (Err (Fail ''trade identity log count overflow''), l\<lparr>il_file := s\<rparr>)
                | Some n \<Rightarrow>
                    (Ok (), l\<lparr>il_file := s, il_count := n, il_last_id := Some tid, il_dirty := True\<rparr>))))"

definition identity_sync :: "identity_log \<Rightarrow> unit res \<times> identity_log" where
  "identity_sync l =
     (if \<not> il_dirty l then (Ok (), l)
      else case sink_overwrite (header_bytes (il_count l)) (il_file l) of
        (False, s1) \<Rightarrow> (Err (Fail ''sync trade identity header''), l\<lparr>il_file := s1\<rparr>)
      | (True, s1) \<Rightarrow>
          (case sink_sync s1 of
             (False, s2) \<Rightarrow> (Err (Fail ''sync trade identity header''), l\<lparr>il_file := s2\<rparr>)
           | (True, s2) \<Rightarrow> (Ok (), l\<lparr>il_file := s2, il_dirty := False\<rparr>)))"

text \<open>The loop of \<open>lookup\<close>.\<close>

function identity_search :: "bytes \<Rightarrow> nat \<Rightarrow> nat \<Rightarrow> nat \<Rightarrow> nat res" where
  "identity_search data tid low high =
     (if low < high then
        let middle = low + (high - low) div 2 in
        rbind (read_record_at data middle) (\<lambda>(candidate, _).
          if candidate < tid then identity_search data tid (middle + 1) high
          else identity_search data tid low middle)
      else Ok low)"
  by pat_completeness auto
termination
  by (relation "measure (\<lambda>(data, tid, low, high). high - low)") auto

declare identity_search.simps [simp del]

definition identity_lookup :: "identity_log \<Rightarrow> nat \<Rightarrow> string option res" where
  "identity_lookup l tid =
     (let data = sk_data (il_file l) in
      rbind (identity_search data tid 0 (il_count l)) (\<lambda>low.
        if low < il_count l then
          rbind (read_record_at data low) (\<lambda>(candidate, digest).
            if candidate = tid then Ok (Some (hex digest)) else Ok None)
        else Ok None))"

text \<open>The loop of \<open>validate\<close> over the indices \<open>i..<count\<close>.\<close>

fun validate_loop :: "bytes \<Rightarrow> nat list \<Rightarrow> nat option \<Rightarrow> unit res" where
  "validate_loop data [] previous = Ok ()"
| "validate_loop data (index # is) previous =
     rbind (read_record_at data index) (\<lambda>(tid, digest).
       if id_regressed previous tid
       then Err (FailN ''trade identity log IDs are not strictly increasing'' [index])
       else if digest = replicate 32 0
       then Err (FailN ''trade identity log record carries a zero digest'' [index])
       else validate_loop data is (Some tid))"

definition identity_validate :: "identity_log \<Rightarrow> unit res" where
  "identity_validate l =
     (let data = sk_data (il_file l) in
      if length data < saturating_add IDENTITY_LOG_HEADER_BYTES
                          (saturating_mul (il_count l) IDENTITY_LOG_RECORD_BYTES)
      then Err (Fail ''trade identity log is truncated'')
      else validate_loop data [0..<il_count l] None)"

section \<open>Hexadecimal digests\<close>

lemma nibble_hex_digit: "n < 16 \<Longrightarrow> nibble (hex_digit n) = n"
  by (simp add: nibble_def of_char_hex_digit Let_def)

lemma decode_pairs_hex: "decode_pairs (hex bs) = bs"
proof (induction bs)
  case (Cons b bs)
  have "unat b div 16 < 16" by (simp add: less_mult_imp_div_less)
  then have "16 * nibble (hex_digit (unat b div 16)) + nibble (hex_digit (unat b mod 16)) = unat b"
    by (simp add: nibble_hex_digit)
  with Cons show ?case by simp
qed simp

lemma length_decode_pairs: "length (decode_pairs h) = length h div 2"
  by (induction h rule: decode_pairs.induct) auto

lemma hex_digit_nibble: "is_lower_hex c \<Longrightarrow> hex_digit (nibble c) = c \<and> nibble c < 16"
  by (auto simp: is_lower_hex_def is_ascii_digit_def nibble_def hex_digit_def Let_def)

lemma hex_decode_pairs:
  "even (length h) \<Longrightarrow> list_all is_lower_hex h \<Longrightarrow> hex (decode_pairs h) = h"
proof (induction h rule: decode_pairs.induct)
  case (1 high low s)
  have n: "hex_digit (nibble high) = high" "nibble high < 16" "hex_digit (nibble low) = low" "nibble low < 16"
    using 1(3) hex_digit_nibble by auto
  then have lt: "16 * nibble high + nibble low < 256" by simp
  have "(16 * nibble high + nibble low) div 16 = nibble high" "(16 * nibble high + nibble low) mod 16 = nibble low"
    using n by simp_all
  moreover have "unat (word_of_nat (16 * nibble high + nibble low) :: byte) = 16 * nibble high + nibble low"
    using lt by (simp only: unat_word8_of_nat mod_less)
  ultimately show ?case using 1 n by (simp del: of_nat_add of_nat_mult)
qed auto

lemma hex_decode_32_Ok: "hex_decode_32 h = Ok d \<Longrightarrow> length d = 32 \<and> d = decode_pairs h"
  by (auto simp: hex_decode_32_def length_decode_pairs split: if_splits)

lemma hex_decode_32_lower:
  "length h = 64 \<Longrightarrow> list_all is_lower_hex h \<Longrightarrow> \<exists>d. hex_decode_32 h = Ok d \<and> hex d = h"
  by (auto simp: hex_decode_32_def hex_decode_pairs is_ascii_hexdigit_def list_all_iff)

section \<open>The records of a file\<close>

definition records_bytes :: "(nat \<times> bytes) list \<Rightarrow> bytes" where
  "records_bytes es = concat (map (\<lambda>(tid, d). identity_record tid d) es)"

definition entry_ok :: "nat \<times> bytes \<Rightarrow> bool" where
  "entry_ok e \<longleftrightarrow> fst e \<le> u64_max \<and> length (snd e) = 32"

lemma length_records_bytes: "list_all entry_ok es \<Longrightarrow> length (records_bytes es) = 40 * length es"
  by (induction es) (auto simp: records_bytes_def identity_record_def entry_ok_def)

lemma records_bytes_append: "records_bytes (es @ fs) = records_bytes es @ records_bytes fs"
  by (simp add: records_bytes_def)

lemma read_record_at_nth:
  assumes "data = hdr @ records_bytes es @ rest" "length hdr = 32" "list_all entry_ok es"
    and "i < length es" "length data \<le> u64_max"
  shows "read_record_at data i = Ok (es ! i)"
proof -
  obtain tid d where e: "es ! i = (tid, d)" by (cases "es ! i")
  have ok: "tid < 256 ^ 8" "length d = 32"
    using assms(3,4) e nth_mem [OF assms(4)] by (auto simp: list_all_iff entry_ok_def u64_max_def)
  have es: "es = take i es @ (tid, d) # drop (Suc i) es" using assms(4) e by (metis id_take_nth_drop)
  have len: "length (records_bytes (take i es)) = 40 * i"
    using assms(3,4) by (subst length_records_bytes) (auto simp: list_all_iff dest: in_set_takeD)
  define post where "post = records_bytes (drop (Suc i) es) @ rest"
  have "records_bytes es = records_bytes (take i es) @ identity_record tid d @ records_bytes (drop (Suc i) es)"
    by (subst es) (simp add: records_bytes_def)
  then have data: "data = (hdr @ records_bytes (take i es)) @ identity_record tid d @ post"
    using assms(1) by (simp add: post_def)
  have drop: "drop (32 + i * 40) data = identity_record tid d @ post"
    unfolding data using assms(2) len by simp
  have l: "length data = 32 + 40 * i + 40 + length post"
    unfolding data using assms(2) len ok by (simp add: identity_record_def)
  then have "Option.bind (checked_mul i IDENTITY_LOG_RECORD_BYTES)
                 (\<lambda>n. checked_add IDENTITY_LOG_HEADER_BYTES n) = Some (32 + i * 40)"
    using assms(5) by (simp add: checked_mul_def checked_add_def IDENTITY_LOG_RECORD_BYTES_def
        IDENTITY_LOG_HEADER_BYTES_def)
  then show ?thesis
    using l ok drop e by (simp add: read_record_at_def IDENTITY_LOG_RECORD_BYTES_def Let_def
        identity_record_def from_le_bytes_le_bytes)
qed

section \<open>Lookup is correct\<close>

text \<open>
  \<open>log_view l es rest\<close>: the first \<open>il_count\<close> records of the file are \<open>es\<close>, with ids strictly
  increasing; \<open>rest\<close> are the bytes after them.
\<close>

definition log_view :: "identity_log \<Rightarrow> (nat \<times> bytes) list \<Rightarrow> bytes \<Rightarrow> bool" where
  "log_view l es rest \<longleftrightarrow> (\<exists>hdr. length hdr = 32 \<and> sk_data (il_file l) = hdr @ records_bytes es @ rest)
     \<and> il_count l = length es \<and> list_all entry_ok es \<and> sorted_wrt (<) (map fst es)
     \<and> length (sk_data (il_file l)) \<le> u64_max"

lemma log_view_read:
  "log_view l es rest \<Longrightarrow> i < length es \<Longrightarrow> read_record_at (sk_data (il_file l)) i = Ok (es ! i)"
  by (auto simp: log_view_def intro: read_record_at_nth)

lemma identity_search_done: "identity_search data tid n n = Ok n"
  by (simp add: identity_search.simps [of data tid n n])

lemma identity_search_step:
  assumes "low < high" "m = low + (high - low) div 2" "read_record_at data m = Ok (c, d)"
  shows "identity_search data tid low high =
    (if c < tid then identity_search data tid (m + 1) high else identity_search data tid low m)"
  using assms by (simp add: identity_search.simps [of data tid low high] Let_def)

lemma identity_search_spec:
  assumes "\<And>i. i < length es \<Longrightarrow> read_record_at data i = Ok (es ! i)"
    and "sorted_wrt (<) (map fst es)" "low \<le> high" "high \<le> length es"
    and "\<forall>i<low. fst (es ! i) < tid" "\<forall>i. high \<le> i \<and> i < length es \<longrightarrow> tid \<le> fst (es ! i)"
  shows "\<exists>n\<le>length es. identity_search data tid low high = Ok n
     \<and> (\<forall>i<n. fst (es ! i) < tid) \<and> (\<forall>i. n \<le> i \<and> i < length es \<longrightarrow> tid \<le> fst (es ! i))"
  using assms(3-6)
proof (induction "high - low" arbitrary: low high rule: less_induct)
  case less
  have mono: "fst (es ! i) \<le> fst (es ! j)" if "i \<le> j" "j < length es" for i j
    using assms(2) that by (cases "i = j") (auto simp: sorted_wrt_iff_nth_less less_imp_le)
  show ?case
  proof (cases "low < high")
    case False
    then have "low = high" using less.prems(1) by simp
    then show ?thesis using less.prems identity_search_done [of data tid high] by blast
  next
    case True
    define m where "m = low + (high - low) div 2"
    have m: "low \<le> m" "m < high" using True by (auto simp: m_def)
    obtain c d where e: "es ! m = (c, d)" by (cases "es ! m")
    have rd: "read_record_at data m = Ok (c, d)" using assms(1) [of m] m e less.prems(2) by simp
    note step = identity_search_step [OF True m_def rd, of tid]
    show ?thesis
    proof (cases "c < tid")
      case True
      have "\<forall>i<m + 1. fst (es ! i) < tid"
      proof (intro allI impI)
        fix i assume "i < m + 1"
        then show "fst (es ! i) < tid" using mono [of i m] m less.prems(2) True e by simp
      qed
      then show ?thesis
        unfolding step using True m less.prems by (simp, intro less.hyps) auto
    next
      case False
      have "\<forall>i. m \<le> i \<and> i < length es \<longrightarrow> tid \<le> fst (es ! i)"
        using mono [of m] False e by fastforce
      then show ?thesis
        unfolding step using False m less.prems by (simp, intro less.hyps) auto
    qed
  qed
qed

lemma sorted_map_of_nth:
  "sorted_wrt (<) (map fst es) \<Longrightarrow> n < length es \<Longrightarrow> map_of es (fst (es ! n)) = Some (snd (es ! n))"
  for es :: "(nat \<times> 'b) list"
  by (rule map_of_is_SomeI) (auto simp: strict_sorted_iff)

lemma identity_lookup_view:
  assumes "log_view l es rest"
  shows "identity_lookup l tid = Ok (map_option hex (map_of es tid))"
proof -
  note rd = log_view_read [OF assms]
  have so: "sorted_wrt (<) (map fst es)" and cnt: "il_count l = length es" using assms by (auto simp: log_view_def)
  obtain n where n: "n \<le> length es" "identity_search (sk_data (il_file l)) tid 0 (length es) = Ok n"
    "\<forall>i<n. fst (es ! i) < tid" "\<forall>i. n \<le> i \<and> i < length es \<longrightarrow> tid \<le> fst (es ! i)"
    using identity_search_spec [OF rd so, of 0 "length es" tid] by auto
  have none: "map_of es tid = None" if "\<forall>i<length es. fst (es ! i) \<noteq> tid"
    using that by (auto simp: map_of_eq_None_iff in_set_conv_nth) (metis fst_conv)
  show ?thesis
  proof (cases "n < length es \<and> fst (es ! n) = tid")
    case True
    then have "map_of es tid = Some (snd (es ! n))" using sorted_map_of_nth [OF so, of n] by simp
    with True n rd [of n] cnt show ?thesis
      by (cases "es ! n") (simp add: identity_lookup_def Let_def)
  next
    case False
    have "fst (es ! i) \<noteq> tid" if "i < length es" for i
    proof (cases "i < n")
      case True
      then show ?thesis using n(3) by auto
    next
      case ge: False
      show ?thesis
      proof (cases "i = n")
        case True
        then show ?thesis using False that by simp
      next
        case ne: False
        then have "n < i" using ge by simp
        then have "fst (es ! n) < fst (es ! i)" using so that by (auto simp: sorted_wrt_iff_nth_less)
        moreover have "tid \<le> fst (es ! n)" using n(4) \<open>n < i\<close> that by simp
        ultimately show ?thesis by simp
      qed
    qed
    then have "map_of es tid = None" using none by blast
    with False n rd [of n] cnt show ?thesis
      by (cases "es ! n") (auto simp: identity_lookup_def Let_def)
  qed
qed

section \<open>Appending, committing and reopening\<close>

definition last_id_of :: "(nat \<times> 'a) list \<Rightarrow> nat option" where
  "last_id_of es = (if es = [] then None else Some (fst (last es)))"

definition log_clean :: "identity_log \<Rightarrow> (nat \<times> bytes) list \<Rightarrow> bool" where
  "log_clean l es \<longleftrightarrow> log_view l es [] \<and> il_last_id l = last_id_of es
     \<and> (\<not> il_dirty l \<longrightarrow> take 32 (sk_data (il_file l)) = header_bytes (il_count l))"

lemma length_header_bytes [simp]: "length (header_bytes n) = 32"
  by (simp add: header_bytes_def IDENTITY_LOG_MAGIC_def str_bytes_def)

lemma sink_write_all_True: "sink_write_all bs s = (True, s') \<Longrightarrow> sk_data s' = sk_data s @ bs"
  by (auto simp: sink_write_all_def split: list.splits io_outcome.splits)

lemma sink_overwrite_True:
  "sink_overwrite bs s = (True, s') \<Longrightarrow> sk_data s' = bs @ drop (length bs) (sk_data s)"
  by (auto simp: sink_overwrite_def Let_def split: list.splits io_outcome.splits)

lemma sink_sync_data: "sink_sync s = (b, s') \<Longrightarrow> sk_data s' = sk_data s"
  by (auto simp: sink_sync_def split: list.splits io_outcome.splits)

lemma identity_create_clean: "identity_create plan = Ok l \<Longrightarrow> log_clean l []"
  by (auto simp: identity_create_def log_clean_def log_view_def records_bytes_def last_id_of_def u64_max_def
      split: prod.splits bool.splits dest!: sink_write_all_True sink_sync_data)

lemma last_id_regressed:
  "sorted_wrt (<) (map fst es) \<Longrightarrow> \<not> id_regressed (last_id_of es) tid \<Longrightarrow> e \<in> set es \<Longrightarrow> fst e < tid"
  for es :: "(nat \<times> 'a) list"
proof (induction es rule: rev_induct)
  case (snoc x xs)
  then show ?case by (auto simp: sorted_wrt_append last_id_of_def id_regressed_def)
qed simp

lemma identity_insert_Ok:
  assumes "identity_insert l tid h = (Ok (), l')"
  shows "\<not> id_regressed (il_last_id l) tid" "hex_decode_32 h = Ok (decode_pairs h)"
    "sk_data (il_file l') = sk_data (il_file l) @ identity_record tid (decode_pairs h)"
    "il_count l' = Suc (il_count l)" "il_last_id l' = Some tid" "il_dirty l'"
  using assms sink_write_all_True hex_decode_32_Ok
  by (auto simp: identity_insert_def split: if_splits sum.splits prod.splits bool.splits option.splits)

lemma identity_insert_clean:
  assumes "log_clean l es" "identity_insert l tid h = (Ok (), l')" "tid \<le> u64_max"
    and "length (sk_data (il_file l')) \<le> u64_max"
  shows "log_clean l' (es @ [(tid, decode_pairs h)])"
proof -
  note ok = identity_insert_Ok [OF assms(2)]
  have d: "length (decode_pairs h) = 32" using hex_decode_32_Ok [OF ok(2)] by simp
  obtain hdr where v: "length hdr = 32" "sk_data (il_file l) = hdr @ records_bytes es" "il_count l = length es"
    "list_all entry_ok es" "sorted_wrt (<) (map fst es)" "il_last_id l = last_id_of es"
    using assms(1) by (auto simp: log_clean_def log_view_def)
  have "\<forall>e\<in>set es. fst e < tid" using last_id_regressed [OF v(5)] ok(1) v(6) by auto
  then have "sorted_wrt (<) (map fst (es @ [(tid, decode_pairs h)]))" using v(5) by (auto simp: sorted_wrt_append)
  moreover have "sk_data (il_file l') = hdr @ records_bytes (es @ [(tid, decode_pairs h)]) @ []"
    using v(2) ok(3) by (simp add: records_bytes_def)
  moreover have "list_all entry_ok (es @ [(tid, decode_pairs h)])" using v(4) d assms(3) by (simp add: entry_ok_def)
  ultimately have "log_view l' (es @ [(tid, decode_pairs h)]) []"
    unfolding log_view_def using v(1,3) ok(4) assms(4) by auto
  then show ?thesis using ok(5,6) by (simp add: log_clean_def last_id_of_def)
qed

lemma identity_sync_clean:
  assumes "log_clean l es" "identity_sync l = (Ok (), l')"
  shows "log_clean l' es \<and> \<not> il_dirty l'"
proof (cases "il_dirty l")
  case False
  then show ?thesis using assms by (simp add: identity_sync_def)
next
  case True
  then obtain s1 s2 where s: "sink_overwrite (header_bytes (il_count l)) (il_file l) = (True, s1)"
    "sink_sync s1 = (True, s2)" "l' = l\<lparr>il_file := s2, il_dirty := False\<rparr>"
    using assms(2) by (auto simp: identity_sync_def split: prod.splits bool.splits)
  obtain hdr where v: "length hdr = 32" "sk_data (il_file l) = hdr @ records_bytes es"
    using assms(1) by (auto simp: log_clean_def log_view_def)
  have "sk_data (il_file l') = header_bytes (il_count l) @ records_bytes es"
    using sink_overwrite_True [OF s(1)] sink_sync_data [OF s(2)] s(3) v by simp
  then show ?thesis
    using assms(1) s(3) v(1) by (auto simp: log_clean_def log_view_def v(2))
qed

lemma header_fields:
  assumes "take 32 data = header_bytes n" "n \<le> u64_max"
  shows "32 \<le> length data" "take 8 data = IDENTITY_LOG_MAGIC"
    "from_le_bytes (take 4 (drop 8 data)) = IDENTITY_LOG_VERSION" "from_le_bytes (take 8 (drop 12 data)) = n"
proof -
  have "length (take 32 data) = 32" using assms(1) by simp
  then show "32 \<le> length data" by simp
  have m: "length IDENTITY_LOG_MAGIC = 8" by (simp add: IDENTITY_LOG_MAGIC_def str_bytes_def)
  have "take 8 data = take 8 (take 32 data)" by (simp add: min_def)
  then show "take 8 data = IDENTITY_LOG_MAGIC" using m by (simp add: assms(1) header_bytes_def)
  have "take 4 (drop 8 data) = take 4 (drop 8 (take 32 data))" by (simp add: drop_take min_def)
  then show "from_le_bytes (take 4 (drop 8 data)) = IDENTITY_LOG_VERSION"
    using m by (simp add: assms(1) header_bytes_def from_le_bytes_le_bytes IDENTITY_LOG_VERSION_def)
  have "take 8 (drop 12 data) = take 8 (drop 12 (take 32 data))" by (simp add: drop_take min_def)
  then show "from_le_bytes (take 8 (drop 12 data)) = n"
    using m assms(2) by (simp add: assms(1) header_bytes_def from_le_bytes_le_bytes u64_max_def)
qed

text \<open>Opening a file whose header commits the records \<open>es\<close>, whatever follows them.\<close>

lemma identity_open_committed:
  assumes "take 32 (sk_data f) = header_bytes (length es)"
    and "sk_data f = take 32 (sk_data f) @ records_bytes es @ rest"
    and "list_all entry_ok es" "sorted_wrt (<) (map fst es)" "length (sk_data f) \<le> u64_max"
  shows "identity_open f = Ok \<lparr>il_file = f, il_count = length es, il_last_id = last_id_of es, il_dirty = False\<rparr>"
    (is "_ = Ok ?l")
proof -
  have "length (sk_data f) = 32 + 40 * length es + length rest"
    using arg_cong [OF assms(2), of length] assms(1) length_records_bytes [OF assms(3)] by simp
  then have len: "32 + length es * 40 \<le> length (sk_data f)" "32 + length es * 40 \<le> u64_max" "length es \<le> u64_max"
    using assms(5) by simp_all
  note h = header_fields [OF assms(1) len(3)]
  have view: "log_view ?l es rest" using assms h(1) by (auto simp: log_view_def intro!: exI [of _ "take 32 (sk_data f)"])
  have rd: "read_record_at (sk_data f) (length es - 1) = Ok (last es)" if "es \<noteq> []"
    using log_view_read [OF view, of "length es - 1"] that by (simp add: last_conv_nth)
  have "saturating_mul (length es) IDENTITY_LOG_RECORD_BYTES = length es * 40"
    using len by (simp add: saturating_mul_def IDENTITY_LOG_RECORD_BYTES_def)
  then show ?thesis
    using h len rd by (cases "last es")
      (simp add: identity_open_def Let_def IDENTITY_LOG_HEADER_BYTES_def checked_add_def last_id_of_def)
qed

lemma identity_open_clean:
  assumes "log_clean l es" "\<not> il_dirty l"
  shows "identity_open (il_file l) = Ok l"
proof -
  obtain hdr where v: "length hdr = 32" "sk_data (il_file l) = hdr @ records_bytes es" "il_count l = length es"
    "list_all entry_ok es" "sorted_wrt (<) (map fst es)" "il_last_id l = last_id_of es"
    "length (sk_data (il_file l)) \<le> u64_max" "take 32 (sk_data (il_file l)) = header_bytes (length es)"
    using assms by (auto simp: log_clean_def log_view_def)
  have "identity_open (il_file l) = Ok \<lparr>il_file = il_file l, il_count = length es, il_last_id = last_id_of es,
      il_dirty = False\<rparr>"
    by (rule identity_open_committed [where rest = "[]"]) (use v in simp_all)
  moreover have "\<lparr>il_file = il_file l, il_count = length es, il_last_id = last_id_of es, il_dirty = False\<rparr> = l"
    using v assms(2) by (cases l) simp
  ultimately show ?thesis by simp
qed

end
