(* ===== verification/Identity_Log_Safety.thy ===== *)
theory Identity_Log_Safety
  imports Identity_Log
begin

text \<open>
  The contract of a durable identity store as a locale, its interpretation on the trade identity
  log, the theorem that a reopened log answers every committed identity, and the behaviour after
  a crash that left uncommitted records behind.
\<close>

section \<open>The contract\<close>

fun store_all :: "('s \<Rightarrow> nat \<Rightarrow> string \<Rightarrow> unit res \<times> 's) \<Rightarrow> 's \<Rightarrow> (nat \<times> string) list \<Rightarrow> unit res \<times> 's" where
  "store_all ins s [] = (Ok (), s)"
| "store_all ins s ((k, d) # es) =
     (case ins s k d of (Inl e, s') \<Rightarrow> (Err e, s') | (Inr _, s') \<Rightarrow> store_all ins s' es)"

text \<open>
  \<open>good s m\<close>: the store \<open>s\<close> holds the identities \<open>m\<close>; \<open>fits s\<close>: its file is within the offsets of
  the platform; \<open>ident k d\<close>: an id and a digest the client may store.
\<close>

locale identity_store =
  fixes good :: "'s \<Rightarrow> (nat \<rightharpoonup> string) \<Rightarrow> bool"
    and fits :: "'s \<Rightarrow> bool"
    and ident :: "nat \<Rightarrow> string \<Rightarrow> bool"
    and lookup :: "'s \<Rightarrow> nat \<Rightarrow> string option res"
    and ins :: "'s \<Rightarrow> nat \<Rightarrow> string \<Rightarrow> unit res \<times> 's"
  assumes lookup_good: "good s m \<Longrightarrow> lookup s k = Ok (m k)"
    and ins_good: "good s m \<Longrightarrow> ins s k d = (Ok (), s') \<Longrightarrow> ident k d \<Longrightarrow> fits s' \<Longrightarrow> good s' (m(k \<mapsto> d))"
    and ins_fresh: "good s m \<Longrightarrow> ins s k d = (Ok (), s') \<Longrightarrow> m k = None"
    and ins_fits: "ins s k d = (Ok (), s') \<Longrightarrow> fits s' \<Longrightarrow> fits s"
begin

lemma all_fits: "store_all ins s es = (Ok (), s') \<Longrightarrow> fits s' \<Longrightarrow> fits s"
proof (induction es arbitrary: s)
  case (Cons e es)
  then show ?case by (cases e) (auto split: prod.splits sum.splits dest: ins_fits)
qed simp

lemma all_good:
  assumes "good s m" "store_all ins s es = (Ok (), s')" "list_all (\<lambda>(k, d). ident k d) es" "fits s'"
  shows "good s' (m ++ map_of es) \<and> dom m \<inter> dom (map_of es) = {}"
  using assms
proof (induction es arbitrary: s m)
  case Nil
  then show ?case by simp
next
  case (Cons e es)
  obtain k d where e: "e = (k, d)" by (cases e)
  obtain s1 where s1: "ins s k d = (Ok (), s1)" "store_all ins s1 es = (Ok (), s')"
    using Cons.prems(2) e by (auto split: prod.splits sum.splits)
  have g1: "good s1 (m(k \<mapsto> d))"
    using ins_good [OF Cons.prems(1) s1(1)] all_fits [OF s1(2) Cons.prems(4)] Cons.prems(3) e by simp
  note ih = Cons.IH [OF g1 s1(2) _ Cons.prems(4)]
  have ih: "good s' (m(k \<mapsto> d) ++ map_of es)" and d: "dom (m(k \<mapsto> d)) \<inter> dom (map_of es) = {}"
    using ih Cons.prems(3) by (simp_all del: fun_upd_apply)
  then have eq: "m ++ map_of (e # es) = m(k \<mapsto> d) ++ map_of es"
    by (auto simp: e map_add_def fun_eq_iff split: option.splits)
  have "m k = None" by (rule ins_fresh [OF Cons.prems(1) s1(1)])
  then have "dom m \<inter> dom (map_of (e # es)) = {}" using d by (auto simp: e domIff)
  then show ?case unfolding eq using ih by blast
qed

text \<open>What a client gets back after storing a sequence of identities.\<close>

lemma all_lookup:
  assumes "good s m" "store_all ins s es = (Ok (), s')" "list_all (\<lambda>(k, d). ident k d) es" "fits s'"
  shows "lookup s' k = Ok ((m ++ map_of es) k)"
  using all_good [OF assms] lookup_good by blast

end

section \<open>The trade identity log as an identity store\<close>

definition log_fits :: "identity_log \<Rightarrow> bool" where
  "log_fits l \<longleftrightarrow> length (sk_data (il_file l)) \<le> u64_max"

definition identity_ok :: "nat \<Rightarrow> string \<Rightarrow> bool" where
  "identity_ok k d \<longleftrightarrow> k \<le> u64_max \<and> length d = 64 \<and> list_all is_lower_hex d"

definition log_holds :: "identity_log \<Rightarrow> (nat \<rightharpoonup> string) \<Rightarrow> bool" where
  "log_holds l m \<longleftrightarrow> (\<exists>es. log_clean l es \<and> m = map_option hex \<circ> map_of es)"

lemma map_of_snoc:
  "k \<notin> fst ` set es \<Longrightarrow> map_of (es @ [(k, v)]) = (map_of es)(k \<mapsto> v)"
  by (auto simp: map_add_def fun_eq_iff map_of_eq_None_iff [THEN iffD2] split: option.splits)

lemma clean_fresh:
  "log_clean l es \<Longrightarrow> identity_insert l k d = (Ok (), l') \<Longrightarrow> k \<notin> fst ` set es"
  using last_id_regressed identity_insert_Ok(1) by (fastforce simp: log_clean_def log_view_def)

interpretation id_log: identity_store log_holds log_fits identity_ok identity_lookup identity_insert
proof
  show "identity_lookup s k = Ok (m k)" if "log_holds s m" for s m k
    using that identity_lookup_view by (fastforce simp: log_holds_def log_clean_def)
next
  fix s m k d s'
  assume a: "log_holds s m" "identity_insert s k d = (Ok (), s')" "identity_ok k d" "log_fits s'"
  obtain es where es: "log_clean s es" "m = map_option hex \<circ> map_of es" using a(1) by (auto simp: log_holds_def)
  have c: "log_clean s' (es @ [(k, decode_pairs d)])"
    using identity_insert_clean [OF es(1) a(2)] a(3,4) by (simp add: identity_ok_def log_fits_def)
  have "hex (decode_pairs d) = d" using a(3) by (simp add: identity_ok_def hex_decode_pairs)
  then have "m(k \<mapsto> d) = map_option hex \<circ> map_of (es @ [(k, decode_pairs d)])"
    using clean_fresh [OF es(1) a(2)] by (simp add: map_of_snoc es(2) fun_eq_iff del: map_of_append)
  with c show "log_holds s' (m(k \<mapsto> d))" by (auto simp: log_holds_def)
next
  show "m k = None" if "log_holds s m" "identity_insert s k d = (Ok (), s')" for s m k d s'
    using that clean_fresh by (fastforce simp: log_holds_def map_of_eq_None_iff)
next
  show "log_fits s" if "identity_insert s k d = (Ok (), s')" "log_fits s'" for s k d s'
    using that(2) identity_insert_Ok(3) [OF that(1)] by (simp add: log_fits_def)
qed

section \<open>Theorems\<close>

text \<open>
  C24. A log that was created, filled with published identities and synced is reopened as it was, and
  its binary search then answers every stored identity, and only those.
\<close>

theorem identity_log_answers:
  assumes "identity_create plan = Ok l0" "store_all identity_insert l0 es = (Ok (), l1)"
    and "identity_sync l1 = (Ok (), l2)" "list_all (\<lambda>(k, d). identity_ok k d) es" "log_fits l1"
  shows "\<exists>l3. identity_open (il_file l2) = Ok l3 \<and> (\<forall>k. identity_lookup l3 k = Ok (map_of es k))"
proof -
  have h0: "log_holds l0 Map.empty" using identity_create_clean [OF assms(1)] by (auto simp: log_holds_def)
  then have "log_holds l1 (map_of es)" using id_log.all_good [OF h0 assms(2,4,5)] by simp
  then obtain rs where rs: "log_clean l1 rs" "map_of es = map_option hex \<circ> map_of rs" by (auto simp: log_holds_def)
  have l2: "log_clean l2 rs" "\<not> il_dirty l2" using identity_sync_clean [OF rs(1) assms(3)] by auto
  have "identity_lookup l2 k = Ok (map_of es k)" for k
    using identity_lookup_view [of l2 rs "[]"] l2(1) rs(2) by (simp add: log_clean_def)
  then show ?thesis using identity_open_clean [OF l2] by blast
qed

text \<open>
  A crash between the record writes and the header sync leaves uncommitted records in the file.
  Opening ignores them, but insertion still writes at the end of the file, so the new record lands
  beyond the index the count gives it: the identity just stored is not found by lookup, and the
  leftover record, which was never committed, is found instead.
\<close>

theorem identity_torn_tail_hides_insert:
  assumes "take 32 (sk_data f) = header_bytes (length es)"
    and "sk_data f = take 32 (sk_data f) @ records_bytes es @ records_bytes [(t, d)]"
    and "list_all entry_ok (es @ [(t, d)])" "sorted_wrt (<) (map fst (es @ [(t, d)]))"
    and "identity_open f = Ok l" "identity_insert l k h = (Ok (), l')" "log_fits l'" "k \<noteq> t"
  shows "identity_lookup l' k = Ok None \<and> identity_lookup l' t = Ok (Some (hex d))"
proof -
  have fit: "length (sk_data f) \<le> u64_max"
  proof -
    have "il_file l = f" using assms(5) by (auto simp: identity_open_def Let_def split: if_splits)
    then show ?thesis using identity_insert_Ok(3) [OF assms(6)] assms(7) by (simp add: log_fits_def)
  qed
  have so: "sorted_wrt (<) (map fst es)" using assms(4) by (simp add: sorted_wrt_append)
  have l: "l = \<lparr>il_file = f, il_count = length es, il_last_id = last_id_of es, il_dirty = False\<rparr>"
    using identity_open_committed [OF assms(1,2) _ so fit] assms(3,5) by simp
  note ins = identity_insert_Ok [OF assms(6)]
  define hdr where "hdr = take 32 (sk_data f)"
  have h32: "length hdr = 32" unfolding hdr_def by (simp add: assms(1))
  have data: "sk_data f = hdr @ records_bytes (es @ [(t, d)])"
    by (subst assms(2)) (simp add: hdr_def records_bytes_append)
  have "sk_data (il_file l') = hdr @ records_bytes (es @ [(t, d)]) @ identity_record k (decode_pairs h)"
    using ins(3) data by (simp add: l)
  then have view: "log_view l' (es @ [(t, d)]) (identity_record k (decode_pairs h))"
    unfolding log_view_def using h32 ins(4) assms(3,4,7) by (auto simp: l log_fits_def)
  have lt: "fst e < k" if "e \<in> set es" for e using last_id_regressed [OF so _ that] ins(1) by (simp add: l)
  then have "map_of (es @ [(t, d)]) k = None" using assms(8) by (auto simp: map_of_eq_None_iff)
  moreover have "map_of (es @ [(t, d)]) t = Some d" using assms(4) by (intro map_of_is_SomeI) (auto simp: strict_sorted_iff)
  ultimately show ?thesis using identity_lookup_view [OF view] by simp
qed

section \<open>Witnesses\<close>

definition demo_digest :: string where "demo_digest = replicate 64 (CHR ''1'')"

lemma demo_digest_ok: "k \<le> u64_max \<Longrightarrow> identity_ok k demo_digest"
  by (simp add: identity_ok_def demo_digest_def is_lower_hex_def is_ascii_digit_def list_all_iff)

definition demo_bytes :: bytes where "demo_bytes = decode_pairs demo_digest"

lemma demo_bytes_len: "length demo_bytes = 32"
  by (simp add: demo_bytes_def length_decode_pairs demo_digest_def)

lemma demo_decode: "hex_decode_32 demo_digest = Ok demo_bytes"
  using demo_digest_ok [of 0] by (auto simp: hex_decode_32_def demo_bytes_def identity_ok_def
      is_ascii_hexdigit_def list_all_iff)

definition demo_log :: "nat list \<Rightarrow> nat \<Rightarrow> sink" where
  "demo_log ks committed = \<lparr>sk_data = header_bytes committed @ records_bytes (map (\<lambda>k. (k, demo_bytes)) ks),
     sk_synced = 0, sk_plan = []\<rparr>"

text \<open>Witness: two identities stored in a new log.\<close>

theorem identity_log_answers_witness:
  "\<exists>l0 l1 l2 l3. identity_create [] = Ok l0
    \<and> store_all identity_insert l0 [(3, demo_digest), (5, demo_digest)] = (Ok (), l1)
    \<and> identity_sync l1 = (Ok (), l2) \<and> identity_open (il_file l2) = Ok l3
    \<and> identity_lookup l3 5 = Ok (Some demo_digest) \<and> identity_lookup l3 4 = Ok None"
proof -
  define l0 where "l0 = \<lparr>il_file = \<lparr>sk_data = header_bytes 0, sk_synced = 32, sk_plan = []\<rparr>, il_count = 0,
      il_last_id = None, il_dirty = False\<rparr>"
  define l1 where "l1 = \<lparr>il_file = \<lparr>sk_data = header_bytes 0 @ identity_record 3 demo_bytes @ identity_record 5 demo_bytes,
      sk_synced = 32, sk_plan = []\<rparr>, il_count = 2, il_last_id = Some 5, il_dirty = True\<rparr>"
  have c: "identity_create [] = Ok l0"
    by (simp add: identity_create_def sink_write_all_def sink_sync_def l0_def)
  have s: "store_all identity_insert l0 [(3, demo_digest), (5, demo_digest)] = (Ok (), l1)"
    by (simp add: l0_def l1_def identity_insert_def id_regressed_def demo_decode sink_write_all_def
        checked_add_def u64_max_def)
  obtain l2 where y: "identity_sync l1 = (Ok (), l2)"
    by (simp add: l1_def identity_sync_def sink_overwrite_def sink_sync_def)
  have "log_fits l1" by (simp add: log_fits_def l1_def identity_record_def demo_bytes_len u64_max_def)
  moreover have "list_all (\<lambda>(k, d). identity_ok k d) [(3, demo_digest), (5, demo_digest)]"
    by (simp add: demo_digest_ok u64_max_def)
  ultimately obtain l3 where "identity_open (il_file l2) = Ok l3"
    "\<forall>k. identity_lookup l3 k = Ok (map_of [(3, demo_digest), (5, demo_digest)] k)"
    using identity_log_answers [OF c s y] by blast
  then have "identity_open (il_file l2) = Ok l3 \<and> identity_lookup l3 5 = Ok (Some demo_digest)
      \<and> identity_lookup l3 4 = Ok None" by simp
  with c s y show ?thesis by blast
qed

text \<open>Witness: one committed record, one left over, then id 9 is inserted.\<close>

theorem identity_torn_tail_hides_insert_witness:
  "\<exists>l l'. identity_open (demo_log [3, 5] 1) = Ok l \<and> identity_insert l 9 demo_digest = (Ok (), l')
    \<and> identity_lookup l' 9 = Ok None \<and> identity_lookup l' 5 = Ok (Some (hex demo_bytes))"
proof -
  let ?f = "demo_log [3, 5] 1"
  have d: "take 32 (sk_data ?f) = header_bytes (length [(3 :: nat, demo_bytes)])"
    "sk_data ?f = take 32 (sk_data ?f) @ records_bytes [(3, demo_bytes)] @ records_bytes [(5, demo_bytes)]"
    by (simp_all add: demo_log_def records_bytes_def)
  have e: "list_all entry_ok ([(3, demo_bytes)] @ [(5, demo_bytes)])" "list_all entry_ok [(3, demo_bytes)]"
    by (simp_all add: entry_ok_def demo_bytes_len u64_max_def)
  have len: "length (sk_data ?f) = 112"
    by (simp add: demo_log_def records_bytes_def identity_record_def demo_bytes_len)
  define l where "l = \<lparr>il_file = ?f, il_count = 1, il_last_id = Some 3, il_dirty = False\<rparr>"
  have o: "identity_open ?f = Ok l"
    using identity_open_committed [OF d e(2)] len by (simp add: l_def last_id_of_def u64_max_def)
  obtain l' where i: "identity_insert l 9 demo_digest = (Ok (), l')"
    by (simp add: l_def identity_insert_def id_regressed_def demo_decode sink_write_all_def demo_log_def
        checked_add_def u64_max_def)
  have "log_fits l'"
    using identity_insert_Ok(3) [OF i] len by (simp add: log_fits_def l_def identity_record_def
        demo_bytes_len u64_max_def flip: demo_bytes_def)
  then show ?thesis
    using identity_torn_tail_hides_insert [OF d e(1) _ o i] o i by auto
qed

end
