(* ===== verification/Lanes.thy ===== *)
theory Lanes
  imports BTree_Map
begin

text \<open>
  The vocabulary shared by the arbitration components: \<open>CaptureLane\<close> with its derived order
  (\<open>src/rust/lob-replay/src/hot_redundancy.rs\<close>) and the materialized observation
  (\<open>src/rust/lob-replay/src/boundary.rs\<close>).
\<close>

datatype capture_lane = Primary | Shadow

definition lane_as_str :: "capture_lane \<Rightarrow> string" where
  "lane_as_str l = (case l of Primary \<Rightarrow> ''PRIMARY'' | Shadow \<Rightarrow> ''SHADOW'')"

definition ALL_LANES :: "capture_lane list" where
  "ALL_LANES = [Primary, Shadow]"

instantiation capture_lane :: linorder
begin

definition less_capture_lane :: "capture_lane \<Rightarrow> capture_lane \<Rightarrow> bool" where
  "less_capture_lane a b \<longleftrightarrow> a = Primary \<and> b = Shadow"

definition less_eq_capture_lane :: "capture_lane \<Rightarrow> capture_lane \<Rightarrow> bool" where
  "less_eq_capture_lane a b \<longleftrightarrow> a = b \<or> a = Primary \<and> b = Shadow"

instance
proof
  fix x y z :: capture_lane
  show "x < y \<longleftrightarrow> x \<le> y \<and> \<not> y \<le> x" by (auto simp: less_capture_lane_def less_eq_capture_lane_def)
  show "x \<le> x" by (simp add: less_eq_capture_lane_def)
  show "x \<le> y \<Longrightarrow> y \<le> z \<Longrightarrow> x \<le> z" by (auto simp: less_eq_capture_lane_def)
  show "x \<le> y \<Longrightarrow> y \<le> x \<Longrightarrow> x = y" by (auto simp: less_eq_capture_lane_def)
  show "x \<le> y \<or> y \<le> x" by (cases x; cases y) (auto simp: less_eq_capture_lane_def)
qed

end

lemma lane_less [simp]: "Primary < Shadow" "\<not> Shadow < Primary"
  by (simp_all add: less_capture_lane_def)

interpretation lane_key: btree_order "(<) :: capture_lane \<Rightarrow> capture_lane \<Rightarrow> bool" "\<lambda>_. True"
  by unfold_locales auto

abbreviation lane_map_wf :: "(capture_lane \<times> 'v) list \<Rightarrow> bool" where
  "lane_map_wf \<equiv> bt_wf (<) (\<lambda>_. True)"

datatype boundary_stream_kind = Depth | Trade

record canonical_observation =
  co_symbol :: string
  co_stream_kind :: boundary_stream_kind
  co_stream :: string
  co_connection_epoch :: string
  co_frame_index :: nat
  co_first_sequence :: nat
  co_final_sequence :: nat
  co_record_sha256 :: string
  co_observation_sha256 :: string

text \<open>Ranges that continue one another from \<open>l\<close> to \<open>l'\<close>, trades one by one.\<close>

fun contiguous_ranges :: "boundary_stream_kind \<Rightarrow> nat \<Rightarrow> (nat \<times> nat) list \<Rightarrow> nat \<Rightarrow> bool" where
  "contiguous_ranges k l [] l' = (l' = l)"
| "contiguous_ranges k l ((first, final) # rs) l' =
     (first \<le> l + 1 \<and> l + 1 \<le> final \<and> (k = Trade \<longrightarrow> first = l + 1 \<and> final = l + 1)
      \<and> contiguous_ranges k final rs l')"

end
