(* ===== verification/Trade_Union.thy ===== *)
theory Trade_Union
  imports Identity_Log_Safety Lanes
begin

text \<open>
  \<open>TradeUnionState\<close> of \<open>src/rust/lob-replay/src/live_arbitration.rs\<close> (lines 31-825): the
  deduplicated union of the trades of the redundant lanes, published in strictly increasing id
  order below the minimum of the lanes' delivery cursors. Every \<open>&mut self\<close> operation answers its
  result and the state it leaves behind.
\<close>

section \<open>Data\<close>

datatype late_correction_kind = Duplicate | Unknown

type_synonym trade_batch = "(capture_lane \<times> canonical_observation) list"

datatype trade_union_disposition =
    Publishable trade_batch
  | Buffered
  | Late canonical_observation late_correction_kind
  | Conflict nat string string

record trade_union_entry =
  te_observation :: canonical_observation
  te_lineages :: "(capture_lane \<times> string) list"

definition PUBLISHED_CAP :: nat where "PUBLISHED_CAP = 65536"

record trade_union =
  tu_buffer :: "(nat \<times> trade_union_entry) list"
  tu_lane_next :: "(capture_lane \<times> nat) list"
  tu_last_published_id :: "nat option"
  tu_consumed_floor :: "nat option"
  tu_published :: "(nat \<times> string) list"
  tu_corrected :: "(nat \<times> string) list"
  tu_durable :: "identity_log option"
  tu_emission_clamps :: "(capture_lane \<times> nat) list"

section \<open>Configuration and recovery\<close>

definition union_new :: trade_union where
  "union_new = \<lparr>tu_buffer = [], tu_lane_next = [], tu_last_published_id = None, tu_consumed_floor = None,
     tu_published = [], tu_corrected = [], tu_durable = None, tu_emission_clamps = []\<rparr>"

definition set_identity_log :: "identity_log \<Rightarrow> trade_union \<Rightarrow> trade_union" where
  "set_identity_log l u = u\<lparr>tu_durable := Some l\<rparr>"

definition take_identity_log :: "trade_union \<Rightarrow> identity_log option \<times> trade_union" where
  "take_identity_log u = (tu_durable u, u\<lparr>tu_durable := None\<rparr>)"

definition restore_startup_floor :: "nat \<Rightarrow> trade_union \<Rightarrow> trade_union" where
  "restore_startup_floor f u = u\<lparr>tu_consumed_floor := Some f\<rparr>"

definition restore_corrected_identity :: "nat \<Rightarrow> string \<Rightarrow> trade_union \<Rightarrow> unit res \<times> trade_union" where
  "restore_corrected_identity tid digest u =
     (case bt_get (<) tid (tu_corrected u) of
        Some previous \<Rightarrow>
          if previous \<noteq> digest then (Err (Fail ''corrected trade identity conflicts on recovery''), u)
          else (Ok (), u\<lparr>tu_corrected := bt_insert (<) tid digest (tu_corrected u)\<rparr>)
      | None \<Rightarrow> (Ok (), u\<lparr>tu_corrected := bt_insert (<) tid digest (tu_corrected u)\<rparr>))"

text \<open>The loop that evicts the oldest identity while the map is over its cap.\<close>

fun trim_published :: "(nat \<times> string) list \<Rightarrow> (nat \<times> string) list" where
  "trim_published [] = []"
| "trim_published (p # m) = (if PUBLISHED_CAP < length (p # m) then trim_published m else p # m)"

definition restore_published_identity :: "nat \<Rightarrow> string \<Rightarrow> trade_union \<Rightarrow> trade_union" where
  "restore_published_identity tid digest u =
     u\<lparr>tu_published := trim_published (bt_insert (<) tid digest (tu_published u))\<rparr>"

definition restore_published_floor :: "nat \<Rightarrow> trade_union \<Rightarrow> unit res \<times> trade_union" where
  "restore_published_floor flr u =
     (case tu_last_published_id u of
        Some lst \<Rightarrow>
          if flr < lst then (Err (Fail ''trade union published floor regressed''), u)
          else (Ok (), u\<lparr>tu_last_published_id := Some flr\<rparr>)
      | None \<Rightarrow> (Ok (), u\<lparr>tu_last_published_id := Some flr\<rparr>))"

section \<open>Watermarks\<close>

text \<open>\<open>lane_next.values().copied().min()\<close>.\<close>

definition min_option :: "nat list \<Rightarrow> nat option" where
  "min_option ns = (case ns of [] \<Rightarrow> None | n # ns \<Rightarrow> Some (fold min ns n))"

definition watermark :: "trade_union \<Rightarrow> nat option" where
  "watermark u = min_option (map snd (tu_lane_next u))"

definition live_lanes :: "trade_union \<Rightarrow> nat" where
  "live_lanes u = length (tu_lane_next u)"

definition set_emission_clamp :: "capture_lane \<Rightarrow> nat \<Rightarrow> trade_union \<Rightarrow> trade_union" where
  "set_emission_clamp lane bound u =
     u\<lparr>tu_emission_clamps := bt_insert (<) lane bound (tu_emission_clamps u)\<rparr>"

definition clear_emission_clamp :: "capture_lane \<Rightarrow> trade_union \<Rightarrow> trade_union" where
  "clear_emission_clamp lane u = u\<lparr>tu_emission_clamps := bt_remove (<) lane (tu_emission_clamps u)\<rparr>"

definition lane_bound :: "(capture_lane \<times> nat) list \<Rightarrow> capture_lane \<times> nat \<Rightarrow> nat" where
  "lane_bound clamps p =
     (case bt_get (<) (fst p) clamps of Some clamp \<Rightarrow> min (snd p) clamp | None \<Rightarrow> snd p)"

text \<open>The loop over the lanes with the running minimum.\<close>

fun emission_bound :: "(capture_lane \<times> nat) list \<Rightarrow> (capture_lane \<times> nat) list \<Rightarrow> nat option \<Rightarrow> nat option" where
  "emission_bound clamps [] bound = bound"
| "emission_bound clamps (p # ps) bound =
     emission_bound clamps ps
       (Some (case bound of Some current \<Rightarrow> min current (lane_bound clamps p) | None \<Rightarrow> lane_bound clamps p))"

definition emission_watermark :: "trade_union \<Rightarrow> nat option" where
  "emission_watermark u = emission_bound (tu_emission_clamps u) (tu_lane_next u) None"

definition register_lane :: "capture_lane \<Rightarrow> trade_union \<Rightarrow> trade_union" where
  "register_lane lane u =
     (case bt_get (<) lane (tu_lane_next u) of
        None \<Rightarrow> u\<lparr>tu_lane_next := bt_insert (<) lane 0 (tu_lane_next u)\<rparr>
      | Some _ \<Rightarrow> u)"

definition exclude_lane :: "capture_lane \<Rightarrow> trade_union \<Rightarrow> trade_union" where
  "exclude_lane lane u = u\<lparr>tu_lane_next := bt_remove (<) lane (tu_lane_next u)\<rparr>"

section \<open>Observing\<close>

text \<open>The two checks \<open>observe\<close> and \<open>fast_forward\<close> share.\<close>

definition exact_trade :: "canonical_observation \<Rightarrow> nat res" where
  "exact_trade obs =
     (if co_stream_kind obs \<noteq> Trade then Err (Fail ''trade union received a non-trade observation'')
      else if co_first_sequence obs \<noteq> co_final_sequence obs
      then Err (Fail ''trade observation carries a range instead of one exact trade ID'')
      else Ok (co_final_sequence obs))"

text \<open>The cursor of a lane moves to \<open>id + 1\<close> unless it is already there or beyond.\<close>

definition advance_lane :: "capture_lane \<Rightarrow> nat \<Rightarrow> trade_union \<Rightarrow> trade_union" where
  "advance_lane lane tid u =
     (let nxt = saturating_add tid 1 in
      case bt_get (<) lane (tu_lane_next u) of
        None \<Rightarrow> u\<lparr>tu_lane_next := bt_insert (<) lane nxt (tu_lane_next u)\<rparr>
      | Some current \<Rightarrow>
          if current < nxt then u\<lparr>tu_lane_next := bt_insert (<) lane nxt (tu_lane_next u)\<rparr> else u)"

definition fast_forward :: "capture_lane \<Rightarrow> canonical_observation \<Rightarrow> trade_union \<Rightarrow> unit res \<times> trade_union" where
  "fast_forward lane obs u =
     (case exact_trade obs of
        Inl e \<Rightarrow> (Err e, u)
      | Inr tid \<Rightarrow>
          let u1 = advance_lane lane tid u in
          (Ok (), if (case tu_consumed_floor u1 of None \<Rightarrow> True | Some f \<Rightarrow> f < tid)
                  then u1\<lparr>tu_consumed_floor := Some tid\<rparr> else u1))"

text \<open>
  The loop of \<open>drain\<close> over the buffer in id order: the batch and whether an identity was inserted
  are the accumulators. Removing the first key of the map leaves the rest of it.
\<close>

fun drain_loop ::
  "nat \<Rightarrow> (nat \<times> trade_union_entry) list \<Rightarrow> trade_union \<Rightarrow> trade_batch \<Rightarrow> bool
     \<Rightarrow> (trade_batch \<times> bool) res \<times> trade_union" where
  "drain_loop w [] u batch inserted = (Ok (batch, inserted), u\<lparr>tu_buffer := []\<rparr>)"
| "drain_loop w ((tid, entry) # rest) u batch inserted =
     (if w \<le> tid then (Ok (batch, inserted), u\<lparr>tu_buffer := (tid, entry) # rest\<rparr>)
      else if id_regressed (tu_last_published_id u) tid
      then (Err (Fail ''trade union emission order regressed''), u\<lparr>tu_buffer := rest\<rparr>)
      else
        let digest = co_observation_sha256 (te_observation entry);
            u1 = u\<lparr>tu_last_published_id := Some tid,
                   tu_published := bt_insert (<) tid digest (tu_published u)\<rparr>;
            lane = (case te_lineages entry of (l, _) # _ \<Rightarrow> l | [] \<Rightarrow> Primary);
            batch' = batch @ [(lane, te_observation entry)]
        in (case tu_durable u1 of
              None \<Rightarrow>
                drain_loop w rest (u1\<lparr>tu_published := trim_published (tu_published u1)\<rparr>) batch' inserted
            | Some log \<Rightarrow>
                (case identity_insert log tid digest of
                   (Inl e, log') \<Rightarrow> (Err e, u1\<lparr>tu_durable := Some log', tu_buffer := rest\<rparr>)
                 | (Inr _, log') \<Rightarrow>
                     drain_loop w rest
                       (u1\<lparr>tu_durable := Some log', tu_published := trim_published (tu_published u1)\<rparr>)
                       batch' True)))"

definition drain_watermark :: "trade_union \<Rightarrow> nat" where
  "drain_watermark u = (case emission_watermark u of Some w \<Rightarrow> w | None \<Rightarrow> u64_max)"

definition drain :: "trade_union \<Rightarrow> trade_union_disposition res \<times> trade_union" where
  "drain u =
     (if emission_watermark u = None \<and> tu_lane_next u \<noteq> [] then (Ok Buffered, u)
      else case drain_loop (drain_watermark u) (tu_buffer u) u [] False of
        (Inl e, u1) \<Rightarrow> (Err e, u1)
      | (Inr (batch, inserted), u1) \<Rightarrow>
          let disp = (if batch = [] then Buffered else Publishable batch) in
          if inserted then
            (case tu_durable u1 of
               None \<Rightarrow> (Err Panic, u1)
             | Some log \<Rightarrow>
                 (case identity_sync log of
                    (Inl e, log') \<Rightarrow> (Err e, u1\<lparr>tu_durable := Some log'\<rparr>)
                  | (Inr _, log') \<Rightarrow> (Ok disp, u1\<lparr>tu_durable := Some log'\<rparr>)))
          else (Ok disp, u1))"

definition flush :: "trade_union \<Rightarrow> trade_union_disposition res \<times> trade_union" where
  "flush u = drain u"

text \<open>The branch of \<open>observe\<close> for an id at or below the published position.\<close>

definition classify_published ::
  "nat \<Rightarrow> canonical_observation \<Rightarrow> trade_union \<Rightarrow> trade_union_disposition res \<times> trade_union" where
  "classify_published tid obs u =
     (let sha = co_observation_sha256 obs;
          against = (\<lambda>digest. if digest = sha then Late obs Duplicate else Conflict tid digest sha)
      in case bt_get (<) tid (tu_corrected u) of
        Some digest \<Rightarrow> (Ok (against digest), u)
      | None \<Rightarrow>
          (case (case tu_durable u of Some log \<Rightarrow> identity_lookup log tid | None \<Rightarrow> Ok None) of
             Inl e \<Rightarrow> (Err e, u)
           | Inr durable_digest \<Rightarrow>
               (case bt_get (<) tid (tu_published u) of
                  Some digest \<Rightarrow> (Ok (against digest), u)
                | None \<Rightarrow>
                    (case durable_digest of
                       Some digest \<Rightarrow> (Ok (against digest), u)
                     | None \<Rightarrow>
                         (Ok (Late obs Unknown),
                          u\<lparr>tu_corrected := bt_insert (<) tid sha (tu_corrected u)\<rparr>)))))"

definition observe ::
  "capture_lane \<Rightarrow> canonical_observation \<Rightarrow> trade_union \<Rightarrow> trade_union_disposition res \<times> trade_union" where
  "observe lane obs u =
     (case exact_trade obs of
        Inl e \<Rightarrow> (Err e, u)
      | Inr tid \<Rightarrow>
          if id_regressed (tu_consumed_floor u) tid then (Ok Buffered, u)
          else if id_regressed (tu_last_published_id u) tid then classify_published tid obs u
          else
            (case bt_get (<) tid (tu_buffer u) of
               None \<Rightarrow>
                 drain (advance_lane lane tid (u\<lparr>tu_buffer := bt_insert (<) tid
                   \<lparr>te_observation = obs, te_lineages = [(lane, co_record_sha256 obs)]\<rparr> (tu_buffer u)\<rparr>))
             | Some entry \<Rightarrow>
                 if co_observation_sha256 (te_observation entry) \<noteq> co_observation_sha256 obs
                 then (Ok (Conflict tid (co_observation_sha256 (te_observation entry))
                             (co_observation_sha256 obs)), u)
                 else
                   drain (advance_lane lane tid (u\<lparr>tu_buffer := bt_insert (<) tid
                     (entry\<lparr>te_lineages := te_lineages entry @ [(lane, co_record_sha256 obs)]\<rparr>)
                     (tu_buffer u)\<rparr>))))"

end
