(* ===== verification/Trade_Union_Correct.thy ===== *)
theory Trade_Union_Correct
  imports Trade_Union
begin

text \<open>
  The library behind the trade-union theorems: what one drain emits and keeps, the bound the
  emission watermark puts on a batch, and the runs of the union with their invariant.
\<close>

section \<open>Watermarks\<close>

lemma emission_bound_le:
  "(case bound of None \<Rightarrow> True | Some b \<Rightarrow> w \<le> b) \<and> (\<forall>p\<in>set ps. w \<le> lane_bound c p) \<Longrightarrow>
     (case emission_bound c ps bound of None \<Rightarrow> True | Some b \<Rightarrow> w \<le> b)"
  by (induction c ps bound rule: emission_bound.induct) (auto split: option.splits)

lemma emission_bound_lower:
  "emission_bound c ps bound = Some b \<Longrightarrow>
     (case bound of None \<Rightarrow> True | Some a \<Rightarrow> b \<le> a) \<and> (\<forall>p\<in>set ps. b \<le> lane_bound c p)"
  by (induction c ps bound rule: emission_bound.induct) (force split: option.splits)+

lemma emission_bound_None: "emission_bound c ps bound = None \<longleftrightarrow> ps = [] \<and> bound = None"
  by (induction c ps bound rule: emission_bound.induct) auto

lemma lane_bound_le: "lane_bound c p \<le> snd p"
  by (simp add: lane_bound_def split: option.split)

lemma emission_watermark_None [simp]: "emission_watermark u = None \<longleftrightarrow> tu_lane_next u = []"
  by (simp add: emission_watermark_def emission_bound_None)

lemma emission_watermark_lane:
  "emission_watermark u = Some w \<Longrightarrow> (l, n) \<in> set (tu_lane_next u) \<Longrightarrow>
     w \<le> n \<and> (\<forall>c. bt_get (<) l (tu_emission_clamps u) = Some c \<longrightarrow> w \<le> c)"
  using emission_bound_lower [of "tu_emission_clamps u" "tu_lane_next u" None w]
  by (fastforce simp: emission_watermark_def lane_bound_def split: option.splits)

section \<open>One drain\<close>

definition entry_pub :: "nat \<times> trade_union_entry \<Rightarrow> capture_lane \<times> canonical_observation" where
  "entry_pub p = ((case te_lineages (snd p) of (l, _) # _ \<Rightarrow> l | [] \<Rightarrow> Primary), te_observation (snd p))"

abbreviation below :: "nat \<Rightarrow> (nat \<times> trade_union_entry) list \<Rightarrow> (nat \<times> trade_union_entry) list" where
  "below w \<equiv> takeWhile (\<lambda>p. fst p < w)"

abbreviation beyond :: "nat \<Rightarrow> (nat \<times> trade_union_entry) list \<Rightarrow> (nat \<times> trade_union_entry) list" where
  "beyond w \<equiv> dropWhile (\<lambda>p. fst p < w)"

definition last_key :: "(nat \<times> 'a) list \<Rightarrow> nat option \<Rightarrow> nat option" where
  "last_key ps d = (if ps = [] then d else Some (fst (last ps)))"

definition keys_above :: "nat option \<Rightarrow> (nat \<times> 'a) list \<Rightarrow> bool" where
  "keys_above lst ps \<longleftrightarrow> sorted_wrt (<) (map fst ps) \<and> (\<forall>p\<in>set ps. \<not> id_regressed lst (fst p))"

lemma keys_above_Cons:
  "keys_above lst (p # ps) \<Longrightarrow> \<not> id_regressed lst (fst p) \<and> keys_above (Some (fst p)) ps"
  by (auto simp: keys_above_def id_regressed_def not_le)

text \<open>Everything a drain leaves alone.\<close>

definition same_config :: "trade_union \<Rightarrow> trade_union \<Rightarrow> bool" where
  "same_config u u' \<longleftrightarrow> tu_lane_next u' = tu_lane_next u \<and> tu_consumed_floor u' = tu_consumed_floor u
     \<and> tu_corrected u' = tu_corrected u \<and> tu_emission_clamps u' = tu_emission_clamps u"

lemma drain_loop_Ok:
  assumes "drain_loop w buf u batch ins = (Ok (batch', ins'), u')" "keys_above (tu_last_published_id u) buf"
  shows "batch' = batch @ map entry_pub (below w buf) \<and> tu_buffer u' = beyond w buf
    \<and> tu_last_published_id u' = last_key (below w buf) (tu_last_published_id u) \<and> same_config u u'"
  using assms
proof (induction w buf u batch ins rule: drain_loop.induct)
  case (1 w u batch ins)
  then show ?case by (auto simp: last_key_def same_config_def)
next
  case (2 w tid entry rest u batch ins)
  show ?case
  proof (cases "w \<le> tid")
    case True
    then show ?thesis using 2(3) by (auto simp: last_key_def same_config_def)
  next
    case False
    note k = keys_above_Cons [OF 2(4)]
    show ?thesis
    proof (cases "tu_durable u")
      case None
      then show ?thesis using 2(1) [OF False _ refl refl refl refl] 2(3) False k
        by (auto simp: last_key_def same_config_def entry_pub_def Let_def)
    next
      case (Some log)
      then show ?thesis using 2(2) [OF False _ refl refl refl refl] 2(3) False k
        by (auto simp: last_key_def same_config_def entry_pub_def Let_def split: prod.splits sum.splits)
    qed
  qed
qed

definition published_of :: "trade_union_disposition \<Rightarrow> canonical_observation list" where
  "published_of d = (case d of Publishable b \<Rightarrow> map snd b | _ \<Rightarrow> [])"

lemma drain_Ok:
  assumes "drain u = (Ok d, u')" "keys_above (tu_last_published_id u) (tu_buffer u)"
  defines "w \<equiv> drain_watermark u"
  shows "d = (if below w (tu_buffer u) = [] then Buffered
              else Publishable (map entry_pub (below w (tu_buffer u))))
    \<and> tu_buffer u' = beyond w (tu_buffer u)
    \<and> tu_last_published_id u' = last_key (below w (tu_buffer u)) (tu_last_published_id u) \<and> same_config u u'"
proof -
  obtain batch ins u1 where l: "drain_loop w (tu_buffer u) u [] False = (Ok (batch, ins), u1)"
    using assms(1) by (auto simp: drain_def w_def split: prod.splits sum.splits if_splits)
  note ok = drain_loop_Ok [OF l assms(2)]
  have u': "u' = u1 \<or> (\<exists>log. u' = u1\<lparr>tu_durable := Some log\<rparr>)" "d = (if batch = [] then Buffered else Publishable batch)"
    using assms(1) l by (auto simp: drain_def Let_def simp flip: w_def
        split: prod.splits sum.splits if_splits option.splits)
  show ?thesis using ok u' by (auto simp: same_config_def)
qed

text \<open>Only the durable log can make a drain fail.\<close>

definition identity_log_fails :: "error \<Rightarrow> bool" where
  "identity_log_fails e \<longleftrightarrow> (\<exists>log. fst (identity_sync log) = Err e \<or> (\<exists>tid digest. fst (identity_insert log tid digest) = Err e))"

lemma drain_loop_Err:
  assumes "drain_loop w buf u batch ins = (Err e, u')" "keys_above (tu_last_published_id u) buf"
  shows "tu_durable u \<noteq> None \<and> identity_log_fails e"
  using assms
proof (induction w buf u batch ins rule: drain_loop.induct)
  case (2 w tid entry rest u batch ins)
  then have w: "\<not> w \<le> tid" by auto
  note k = keys_above_Cons [OF 2(4)]
  show ?case
  proof (cases "tu_durable u")
    case None
    then show ?thesis using 2(1) [OF w _ refl refl refl refl] 2(3) w k by (auto simp: Let_def)
  next
    case (Some log)
    obtain r log' where i: "identity_insert log tid (co_observation_sha256 (te_observation entry)) = (r, log')" by fastforce
    show ?thesis
    proof (cases r)
      case (Inl e1)
      then have "e1 = e" using 2(3) Some i w k by (simp add: Let_def)
      then have "fst (identity_insert log tid (co_observation_sha256 (te_observation entry))) = Err e" using i Inl by simp
      then show ?thesis using Some unfolding identity_log_fails_def by blast
    next
      case (Inr x)
      then show ?thesis using 2(2) [OF w _ refl refl refl refl, of log "Inr x" log' x] 2(3) Some i w k by (simp add: Let_def)
    qed
  qed
qed simp

lemma drain_loop_durable:
  assumes "drain_loop w buf u batch ins = (Ok (batch', ins'), u')" "ins \<longrightarrow> tu_durable u \<noteq> None"
  shows "(ins' \<longrightarrow> tu_durable u' \<noteq> None) \<and> (tu_durable u' = None \<longleftrightarrow> tu_durable u = None)"
  using assms
  by (induction w buf u batch ins rule: drain_loop.induct)
    (fastforce simp: Let_def split: if_splits option.splits prod.splits sum.splits)+

lemma drain_Err:
  assumes "drain u = (Err e, u')" "keys_above (tu_last_published_id u) (tu_buffer u)"
  shows "tu_durable u \<noteq> None \<and> identity_log_fails e"
proof (cases "drain_loop (drain_watermark u) (tu_buffer u) u [] False")
  case (Pair r u1)
  then show ?thesis
  proof (cases r)
    case (Inl e1)
    then show ?thesis using drain_loop_Err [OF _ assms(2)] Pair assms(1)
      by (fastforce simp: drain_def split: if_splits)
  next
    case (Inr b)
    obtain batch ins where b: "b = (batch, ins)" by (cases b)
    have dl: "(ins \<longrightarrow> tu_durable u1 \<noteq> None) \<and> (tu_durable u1 = None \<longleftrightarrow> tu_durable u = None)"
      using drain_loop_durable [of "drain_watermark u" "tu_buffer u" u "[]" False] Pair Inr b by auto
    obtain log where "ins" "tu_durable u1 = Some log" "fst (identity_sync log) = Err e"
      using assms(1) Pair Inr b dl
      by (auto simp: drain_def Let_def split: if_splits option.splits prod.splits sum.splits)
    then show ?thesis using dl by (auto simp: identity_log_fails_def)
  qed
qed

lemma published_of_drain:
  "published_of (if b = [] then Buffered else Publishable (map entry_pub b)) = map (te_observation \<circ> snd) b"
  by (simp add: published_of_def entry_pub_def)

section \<open>Runs\<close>

abbreviation obs_id :: "canonical_observation \<Rightarrow> nat" where
  "obs_id \<equiv> co_final_sequence"

text \<open>A state before the first observation: some lanes registered, perhaps fast-forwarded to a floor.\<close>

definition union_start :: "trade_union \<Rightarrow> bool" where
  "union_start u \<longleftrightarrow> tu_buffer u = [] \<and> tu_last_published_id u = None \<and> tu_corrected u = [] \<and> tu_published u = []
     \<and> lane_map_wf (tu_lane_next u)
     \<and> (\<forall>(l, n)\<in>set (tu_lane_next u). n = 0 \<or> (\<exists>f. tu_consumed_floor u = Some f \<and> n \<le> Suc f))"

text \<open>
  A run observes trades from live lanes. The venue delivers each lane in increasing id order, so the
  rule for an observation asks that the lane has delivered only smaller ids before. Between
  observations the handover clamps change, a lane that will not deliver any more is excluded, and
  the buffer may be flushed. \<open>seen\<close> collects what the lanes delivered, \<open>out\<close> what was published.
\<close>

inductive union_run ::
  "trade_union \<Rightarrow> (capture_lane \<times> canonical_observation) list \<Rightarrow> canonical_observation list \<Rightarrow> trade_union \<Rightarrow> bool"
  for u0 where
  run_start: "union_start u0 \<Longrightarrow> union_run u0 [] [] u0"
| run_observe: "union_run u0 seen out u \<Longrightarrow> observe lane obs u = (Ok d, u') \<Longrightarrow>
    bt_get (<) lane (tu_lane_next u) = Some n \<Longrightarrow> obs_id obs < u64_max \<Longrightarrow>
    \<forall>(l, o')\<in>set seen. l = lane \<longrightarrow> obs_id o' < obs_id obs \<Longrightarrow>
    union_run u0 (seen @ [(lane, obs)]) (out @ published_of d) u'"
| run_clamp: "union_run u0 seen out u \<Longrightarrow> union_run u0 seen out (set_emission_clamp lane bound u)"
| run_clear: "union_run u0 seen out u \<Longrightarrow> union_run u0 seen out (clear_emission_clamp lane u)"
| run_exclude: "union_run u0 seen out u \<Longrightarrow> union_run u0 seen out (exclude_lane lane u)"
| run_flush: "union_run u0 seen out u \<Longrightarrow> flush u = (Ok d, u') \<Longrightarrow> union_run u0 seen (out @ published_of d) u'"

definition accepted_ids :: "nat option \<Rightarrow> (capture_lane \<times> canonical_observation) list \<Rightarrow> nat set" where
  "accepted_ids flr seen = {obs_id obs | l obs. (l, obs) \<in> set seen \<and> \<not> id_regressed flr (obs_id obs)}"

definition union_inv :: "(capture_lane \<times> canonical_observation) list \<Rightarrow> canonical_observation list \<Rightarrow> trade_union \<Rightarrow> bool" where
  "union_inv seen out u \<longleftrightarrow>
     lane_map_wf (tu_lane_next u) \<and> tu_corrected u = []
     \<and> sorted_wrt (<) (map obs_id out @ map fst (tu_buffer u))
     \<and> set (map obs_id out @ map fst (tu_buffer u)) = accepted_ids (tu_consumed_floor u) seen
     \<and> tu_last_published_id u = (if out = [] then None else Some (obs_id (last out)))
     \<and> (\<forall>(l, n)\<in>set (tu_lane_next u). \<forall>obs\<in>set out. obs_id obs < n)
     \<and> (\<forall>(l, n)\<in>set (tu_lane_next u). n = 0 \<or> (\<exists>f. tu_consumed_floor u = Some f \<and> n \<le> Suc f)
           \<or> (\<exists>obs. (l, obs) \<in> set seen \<and> n \<le> Suc (obs_id obs)))
     \<and> (\<forall>(t, e)\<in>set (tu_buffer u). obs_id (te_observation e) = t \<and> te_observation e \<in> snd ` set seen)
     \<and> (\<forall>obs\<in>set out. obs \<in> snd ` set seen)"

lemma union_invI:
  assumes "lane_map_wf (tu_lane_next u)" "tu_corrected u = []"
    and "sorted_wrt (<) (map obs_id out @ map fst (tu_buffer u))"
    and "set (map obs_id out @ map fst (tu_buffer u)) = accepted_ids (tu_consumed_floor u) seen"
    and "tu_last_published_id u = (if out = [] then None else Some (obs_id (last out)))"
    and "\<And>l n obs. (l, n) \<in> set (tu_lane_next u) \<Longrightarrow> obs \<in> set out \<Longrightarrow> obs_id obs < n"
    and "\<And>l n. (l, n) \<in> set (tu_lane_next u) \<Longrightarrow> n = 0 \<or> (\<exists>f. tu_consumed_floor u = Some f \<and> n \<le> Suc f)
           \<or> (\<exists>obs. (l, obs) \<in> set seen \<and> n \<le> Suc (obs_id obs))"
    and "\<And>t e. (t, e) \<in> set (tu_buffer u) \<Longrightarrow> obs_id (te_observation e) = t \<and> te_observation e \<in> snd ` set seen"
    and "\<And>obs. obs \<in> set out \<Longrightarrow> obs \<in> snd ` set seen"
  shows "union_inv seen out u"
  unfolding union_inv_def using assms by blast

lemma union_invD:
  assumes "union_inv seen out u"
  shows "lane_map_wf (tu_lane_next u)" "tu_corrected u = []"
    and "sorted_wrt (<) (map obs_id out @ map fst (tu_buffer u))"
    and "set (map obs_id out @ map fst (tu_buffer u)) = accepted_ids (tu_consumed_floor u) seen"
    and "tu_last_published_id u = (if out = [] then None else Some (obs_id (last out)))"
    and "\<And>l n obs. (l, n) \<in> set (tu_lane_next u) \<Longrightarrow> obs \<in> set out \<Longrightarrow> obs_id obs < n"
    and "\<And>l n. (l, n) \<in> set (tu_lane_next u) \<Longrightarrow> n = 0 \<or> (\<exists>f. tu_consumed_floor u = Some f \<and> n \<le> Suc f)
           \<or> (\<exists>obs. (l, obs) \<in> set seen \<and> n \<le> Suc (obs_id obs))"
    and "\<And>t e. (t, e) \<in> set (tu_buffer u) \<Longrightarrow> obs_id (te_observation e) = t \<and> te_observation e \<in> snd ` set seen"
    and "\<And>obs. obs \<in> set out \<Longrightarrow> obs \<in> snd ` set seen"
  using assms unfolding union_inv_def by blast+

lemma union_inv_keys_above:
  assumes "union_inv seen out u"
  shows "keys_above (tu_last_published_id u) (tu_buffer u)" "u64_map_wf (tu_buffer u)"
proof -
  note d = union_invD(3,5) [OF assms]
  then have "\<not> id_regressed (tu_last_published_id u) (fst p)" if "p \<in> set (tu_buffer u)" for p
    using that by (auto simp: id_regressed_def sorted_wrt_append not_le)
  then show "keys_above (tu_last_published_id u) (tu_buffer u)" "u64_map_wf (tu_buffer u)"
    using d(1) by (auto simp: keys_above_def sorted_wrt_append u64_map_wf_sorted)
qed

lemma union_inv_start: "union_start u \<Longrightarrow> union_inv [] [] u"
  by (rule union_invI) (auto simp: union_start_def accepted_ids_def)

text \<open>Draining keeps the invariant.\<close>

lemma union_inv_drain:
  assumes "union_inv seen out u" "drain u = (Ok d, u')"
  shows "union_inv seen (out @ published_of d) u'"
proof -
  note inv = union_invD [OF assms(1)]
  define w where "w = drain_watermark u"
  define b where "b = below w (tu_buffer u)"
  define r where "r = beyond w (tu_buffer u)"
  have br: "tu_buffer u = b @ r" by (simp add: b_def r_def)
  note ok = drain_Ok [OF assms(2) union_inv_keys_above(1) [OF assms(1)], folded w_def, folded b_def r_def]
  have ent: "obs_id (te_observation e) = t \<and> te_observation e \<in> snd ` set seen" if "(t, e) \<in> set (b @ r)" for t e
    using inv(8) that by (simp add: br)
  have pub: "published_of d = map (te_observation \<circ> snd) b"
    using ok published_of_drain [of b] by simp
  then have ids: "map obs_id (published_of d) = map fst b" using ent by auto
  have wn: "w \<le> n" if "(l, n) \<in> set (tu_lane_next u)" for l n
  proof -
    have "emission_watermark u \<noteq> None" using that by auto
    then obtain w' where "emission_watermark u = Some w'" by blast
    then show ?thesis using emission_watermark_lane [OF _ that] by (simp add: w_def drain_watermark_def)
  qed
  have lt: "obs_id obs < w" if "obs \<in> set (published_of d)" for obs
  proof -
    have "obs_id obs \<in> set (map fst b)" using that unfolding ids [symmetric] by simp
    then show ?thesis using set_takeWhileD unfolding b_def by fastforce
  qed
  have cfg: "tu_lane_next u' = tu_lane_next u" "tu_consumed_floor u' = tu_consumed_floor u"
    "tu_corrected u' = tu_corrected u" "tu_buffer u' = r" using ok by (auto simp: same_config_def)
  have lastp: "tu_last_published_id u' = (if out @ published_of d = [] then None else Some (obs_id (last (out @ published_of d))))"
  proof (cases "b = []")
    case True
    then show ?thesis using ok inv(5) pub by (simp add: last_key_def)
  next
    case False
    then have "obs_id (last (published_of d)) = fst (last b)" using ids pub by (metis last_map map_is_Nil_conv)
    with False show ?thesis using ok pub by (simp add: last_key_def)
  qed
  have all: "map obs_id (out @ published_of d) @ map fst (tu_buffer u') = map obs_id out @ map fst (tu_buffer u)"
    by (simp add: br ids cfg)
  show ?thesis
  proof (rule union_invI)
    show "obs_id obs < n" if "(l, n) \<in> set (tu_lane_next u')" "obs \<in> set (out @ published_of d)" for l n obs
      using that inv(6) [of l n obs] wn [of l n] lt [of obs] by (auto simp: cfg)
    show "obs \<in> snd ` set seen" if mem: "obs \<in> set (out @ published_of d)" for obs
    proof (cases "obs \<in> set out")
      case False
      then obtain p where "p \<in> set b" "obs = te_observation (snd p)" using mem by (auto simp: pub)
      then show ?thesis using ent [of "fst p" "snd p"] by simp
    qed (rule inv(9))
    show "obs_id (te_observation e) = t \<and> te_observation e \<in> snd ` set seen" if "(t, e) \<in> set (tu_buffer u')" for t e
      using ent [of t e] that by (simp add: cfg)
    show "sorted_wrt (<) (map obs_id (out @ published_of d) @ map fst (tu_buffer u'))" unfolding all by (rule inv(3))
    show "set (map obs_id (out @ published_of d) @ map fst (tu_buffer u')) = accepted_ids (tu_consumed_floor u') seen"
      unfolding all cfg(2) by (rule inv(4))
  qed (use inv lastp in \<open>simp_all add: cfg\<close>)
qed

text \<open>The cursor of a live lane is at most an id the lane delivers next.\<close>

lemma lane_cursor_le:
  assumes "union_inv seen out u" "bt_get (<) lane (tu_lane_next u) = Some n"
    and "\<forall>(l, o')\<in>set seen. l = lane \<longrightarrow> obs_id o' < tid" "\<not> id_regressed (tu_consumed_floor u) tid"
  shows "n \<le> tid" "(lane, n) \<in> set (tu_lane_next u)"
proof -
  note inv = union_invD [OF assms(1)]
  show mem: "(lane, n) \<in> set (tu_lane_next u)"
    using assms(2) lane_key.get_eq_map_of [OF inv(1)] by (metis map_of_SomeD)
  consider "n = 0" | f where "tu_consumed_floor u = Some f" "n \<le> Suc f"
    | obs where "(lane, obs) \<in> set seen" "n \<le> Suc (obs_id obs)"
    using inv(7) [OF mem] by blast
  then show "n \<le> tid"
  proof cases
    case 2
    then show ?thesis using assms(4) by (simp add: id_regressed_def)
  next
    case 3
    then have "obs_id obs < tid" using assms(3) by blast
    with 3 show ?thesis by simp
  qed simp
qed

text \<open>So a trade delivered in order by a live lane is never at or below the published position.\<close>

lemma in_order_not_published:
  assumes "union_inv seen out u" "bt_get (<) lane (tu_lane_next u) = Some n"
    and "\<forall>(l, o')\<in>set seen. l = lane \<longrightarrow> obs_id o' < tid" "\<not> id_regressed (tu_consumed_floor u) tid"
  shows "\<not> id_regressed (tu_last_published_id u) tid" and "\<And>obs. obs \<in> set out \<Longrightarrow> obs_id obs < tid"
proof -
  note c = lane_cursor_le [OF assms] and inv = union_invD [OF assms(1)]
  show lt: "obs_id obs < tid" if "obs \<in> set out" for obs using inv(6) [OF c(2) that] c(1) by simp
  show "\<not> id_regressed (tu_last_published_id u) tid"
    using lt [of "last out"] inv(5) by (cases "out = []") (simp_all add: id_regressed_def)
qed

lemma advance_lane_eq:
  assumes "bt_get (<) lane (tu_lane_next u) = Some n" "n \<le> tid" "tid < u64_max"
  shows "advance_lane lane tid u = u\<lparr>tu_lane_next := bt_insert (<) lane (Suc tid) (tu_lane_next u)\<rparr>"
proof -
  have "saturating_add tid 1 = Suc tid" using assms(3) by (simp add: saturating_add_def)
  then show ?thesis using assms by (simp add: advance_lane_def)
qed

text \<open>Storing an entry at a fresh or already buffered id and advancing the lane keeps the invariant.\<close>

lemma union_inv_buffer:
  assumes u: "union_inv seen out u" and get: "bt_get (<) lane (tu_lane_next u) = Some n"
    and ord: "\<forall>(l, o')\<in>set seen. l = lane \<longrightarrow> obs_id o' < tid" and fl: "\<not> id_regressed (tu_consumed_floor u) tid"
    and obs: "tid = obs_id obs" "tid < u64_max"
    and ent: "obs_id (te_observation e) = tid" "te_observation e \<in> snd ` set (seen @ [(lane, obs)])"
  shows "union_inv (seen @ [(lane, obs)]) out
           (advance_lane lane tid (u\<lparr>tu_buffer := bt_insert (<) tid e (tu_buffer u)\<rparr>))"
proof -
  note inv = union_invD [OF u] and c = lane_cursor_le [OF u get ord fl]
    and outlt = in_order_not_published(2) [OF u get ord fl] and wfb = union_inv_keys_above(2) [OF u]
  define b where "b = bt_insert (<) tid e (tu_buffer u)"
  define ln where "ln = bt_insert (<) lane (Suc tid) (tu_lane_next u)"
  have eq: "advance_lane lane tid (u\<lparr>tu_buffer := b\<rparr>) = u\<lparr>tu_buffer := b, tu_lane_next := ln\<rparr>"
    using advance_lane_eq [of lane "u\<lparr>tu_buffer := b\<rparr>" n tid] get c(1) obs(2) by (simp add: ln_def)
  have keys: "fst ` set b = insert tid (fst ` set (tu_buffer u))"
    using wfb by (simp add: b_def nat_key.key_set_insert)
  have "x < y" if "x \<in> obs_id ` set out" "y \<in> fst ` set b" for x y
    using that inv(3) outlt by (auto simp: keys sorted_wrt_append)
  moreover have "sorted_wrt (<) (map fst b)"
    using wfb nat_key.wf_insert [of "tu_buffer u" tid e] by (simp add: b_def u64_map_wf_sorted)
  ultimately have so: "sorted_wrt (<) (map obs_id out @ map fst b)" using inv(3) by (simp add: sorted_wrt_append)
  have "accepted_ids (tu_consumed_floor u) (seen @ [(lane, obs)]) = insert tid (accepted_ids (tu_consumed_floor u) seen)"
    using fl obs(1) by (auto simp: accepted_ids_def)
  then have ids: "set (map obs_id out @ map fst b) = accepted_ids (tu_consumed_floor u) (seen @ [(lane, obs)])"
    using inv(4) keys by simp
  show ?thesis
    unfolding b_def [symmetric] eq
  proof (rule union_invI)
    show "lane_map_wf (tu_lane_next (u\<lparr>tu_buffer := b, tu_lane_next := ln\<rparr>))"
      using inv(1) by (simp add: ln_def lane_key.wf_insert)
    show "obs_id o' < k" if "(l, k) \<in> set (tu_lane_next (u\<lparr>tu_buffer := b, tu_lane_next := ln\<rparr>))" "o' \<in> set out" for l k o'
      using that inv(6) [of l k o'] outlt [of o'] by (auto simp: ln_def lane_key.mem_insert_iff inv(1))
    show "k = 0 \<or> (\<exists>f. tu_consumed_floor (u\<lparr>tu_buffer := b, tu_lane_next := ln\<rparr>) = Some f \<and> k \<le> Suc f)
           \<or> (\<exists>o'. (l, o') \<in> set (seen @ [(lane, obs)]) \<and> k \<le> Suc (obs_id o'))"
      if "(l, k) \<in> set (tu_lane_next (u\<lparr>tu_buffer := b, tu_lane_next := ln\<rparr>))" for l k
      using that inv(7) [of l k] obs(1) by (auto simp: ln_def lane_key.mem_insert_iff inv(1))
    show "obs_id (te_observation x) = t \<and> te_observation x \<in> snd ` set (seen @ [(lane, obs)])"
      if "(t, x) \<in> set (tu_buffer (u\<lparr>tu_buffer := b, tu_lane_next := ln\<rparr>))" for t x
      using that inv(8) [of t x] ent by (auto simp: b_def nat_key.mem_insert_iff wfb)
    show "o' \<in> snd ` set (seen @ [(lane, obs)])" if "o' \<in> set out" for o' using inv(9) [OF that] by auto
  qed (use inv so ids in \<open>simp_all del: map_append set_append\<close>)
qed

lemma exact_trade_Ok: "exact_trade obs = Ok tid \<Longrightarrow> tid = obs_id obs"
  by (auto simp: exact_trade_def split: if_splits)

lemma union_inv_seen_more:
  assumes "union_inv seen out u" "id_regressed (tu_consumed_floor u) (obs_id obs) \<or> obs_id obs \<in> fst ` set (tu_buffer u)"
  shows "union_inv (seen @ [(lane, obs)]) out u"
proof -
  note inv = union_invD [OF assms(1)]
  have "obs_id obs \<in> accepted_ids (tu_consumed_floor u) seen" if "obs_id obs \<in> fst ` set (tu_buffer u)"
    using that by (simp flip: inv(4))
  moreover have "accepted_ids (tu_consumed_floor u) (seen @ [(lane, obs)]) = accepted_ids (tu_consumed_floor u) seen
      \<union> (if id_regressed (tu_consumed_floor u) (obs_id obs) then {} else {obs_id obs})"
    by (auto simp: accepted_ids_def)
  ultimately have "accepted_ids (tu_consumed_floor u) (seen @ [(lane, obs)]) = accepted_ids (tu_consumed_floor u) seen"
    using assms(2) by auto
  then show ?thesis
  proof (intro union_invI)
    show "n = 0 \<or> (\<exists>f. tu_consumed_floor u = Some f \<and> n \<le> Suc f)
           \<or> (\<exists>o'. (l, o') \<in> set (seen @ [(lane, obs)]) \<and> n \<le> Suc (obs_id o'))"
      if "(l, n) \<in> set (tu_lane_next u)" for l n
      using inv(7) [OF that] by auto
    show "obs_id (te_observation e) = t \<and> te_observation e \<in> snd ` set (seen @ [(lane, obs)])"
      if "(t, e) \<in> set (tu_buffer u)" for t e
      using inv(8) [OF that] by auto
    show "o' \<in> snd ` set (seen @ [(lane, obs)])" if "o' \<in> set out" for o' using inv(9) [OF that] by auto
  qed (use inv in \<open>simp_all del: map_append set_append\<close>)
qed

text \<open>What an observation does in a run.\<close>

lemma observe_in_run [consumes 4, case_names floor conflict buffered]:
  assumes "union_inv seen out u" "bt_get (<) lane (tu_lane_next u) = Some n" "observe lane obs u = (Ok d, u')"
    and ord: "\<forall>(l, o')\<in>set seen. l = lane \<longrightarrow> obs_id o' < obs_id obs"
  obtains "id_regressed (tu_consumed_floor u) (obs_id obs)" "d = Buffered" "u' = u"
  | e where "(obs_id obs, e) \<in> set (tu_buffer u)" "u' = u" "\<not> id_regressed (tu_consumed_floor u) (obs_id obs)"
      "co_observation_sha256 (te_observation e) \<noteq> co_observation_sha256 obs"
      "d = Conflict (obs_id obs) (co_observation_sha256 (te_observation e)) (co_observation_sha256 obs)"
  | e where "\<not> id_regressed (tu_consumed_floor u) (obs_id obs)"
      "te_observation e = obs \<or> (\<exists>e0. (obs_id obs, e0) \<in> set (tu_buffer u) \<and> te_observation e = te_observation e0)"
      "drain (advance_lane lane (obs_id obs) (u\<lparr>tu_buffer := bt_insert (<) (obs_id obs) e (tu_buffer u)\<rparr>)) = (Ok d, u')"
proof -
  obtain tid where t: "exact_trade obs = Ok tid" using assms(3) by (cases "exact_trade obs") (auto simp: observe_def)
  have tid: "tid = obs_id obs" by (rule exact_trade_Ok [OF t])
  show thesis
  proof (cases "id_regressed (tu_consumed_floor u) (obs_id obs)")
    case True
    then show thesis using that(1) assms(3) t tid by (simp add: observe_def)
  next
    case fl: False
    note np = in_order_not_published(1) [OF assms(1,2) ord fl]
    have wfb: "u64_map_wf (tu_buffer u)" by (rule union_inv_keys_above(2) [OF assms(1)])
    show thesis
    proof (cases "bt_get (<) (obs_id obs) (tu_buffer u)")
      case None
      then show thesis
        using assms(3) t tid fl np that(3) [OF fl, of "\<lparr>te_observation = obs, te_lineages = [(lane, co_record_sha256 obs)]\<rparr>"]
        by (simp add: observe_def)
    next
      case (Some e)
      then have mem: "(obs_id obs, e) \<in> set (tu_buffer u)"
        using nat_key.get_eq_map_of [OF wfb] by (metis map_of_SomeD)
      show thesis
      proof (cases "co_observation_sha256 (te_observation e) = co_observation_sha256 obs")
        case True
        then show thesis
          using assms(3) t tid fl np Some mem
            that(3) [OF fl, of "e\<lparr>te_lineages := te_lineages e @ [(lane, co_record_sha256 obs)]\<rparr>"]
          by (auto simp: observe_def)
      next
        case False
        then show thesis using that(2) [OF mem _ fl False] assms(3) t tid fl np Some by (simp add: observe_def)
      qed
    qed
  qed
qed

lemma union_inv_observe:
  assumes "union_inv seen out u" "bt_get (<) lane (tu_lane_next u) = Some n" "observe lane obs u = (Ok d, u')"
    and "obs_id obs < u64_max" "\<forall>(l, o')\<in>set seen. l = lane \<longrightarrow> obs_id o' < obs_id obs"
  shows "union_inv (seen @ [(lane, obs)]) (out @ published_of d) u'"
  using assms(1,2,3,5)
proof (cases rule: observe_in_run)
  case floor
  then show ?thesis using union_inv_seen_more [OF assms(1)] by (simp add: published_of_def)
next
  case (conflict e)
  then show ?thesis using union_inv_seen_more [OF assms(1)] by (force simp: published_of_def)
next
  case (buffered e)
  have "obs_id (te_observation e) = obs_id obs \<and> te_observation e \<in> snd ` set (seen @ [(lane, obs)])"
    using buffered(2) union_invD(8) [OF assms(1)] by auto
  then show ?thesis
    using union_inv_drain [OF union_inv_buffer [OF assms(1,2,5) buffered(1) refl assms(4)] buffered(3)] by blast
qed

lemma union_inv_config:
  assumes "union_inv seen out u"
  shows "union_inv seen out (set_emission_clamp lane bound u)" "union_inv seen out (clear_emission_clamp lane u)"
    "union_inv seen out (exclude_lane lane u)"
proof -
  note inv = union_invD [OF assms]
  show "union_inv seen out (set_emission_clamp lane bound u)" "union_inv seen out (clear_emission_clamp lane u)"
    using assms by (simp_all add: set_emission_clamp_def clear_emission_clamp_def union_inv_def)
  show "union_inv seen out (exclude_lane lane u)"
    unfolding exclude_lane_def
  proof (rule union_invI)
    show "lane_map_wf (tu_lane_next (u\<lparr>tu_lane_next := bt_remove (<) lane (tu_lane_next u)\<rparr>))"
      using inv(1) by (simp add: lane_key.wf_remove)
  qed (use inv in \<open>auto simp: lane_key.mem_remove_iff\<close>)
qed

lemma union_run_inv: "union_run u0 seen out u \<Longrightarrow> union_inv seen out u"
proof (induction rule: union_run.induct)
  case run_start
  then show ?case by (rule union_inv_start)
next
  case (run_observe seen out u lane obs d u' n)
  then show ?case using union_inv_observe by blast
next
  case (run_flush seen out u d u')
  then show ?case using union_inv_drain by (simp add: flush_def)
qed (simp_all add: union_inv_config)

lemma union_run_bound: "union_run u0 seen out u \<Longrightarrow> (l, obs) \<in> set seen \<Longrightarrow> obs_id obs < u64_max"
  by (induction rule: union_run.induct) auto

end
