(* ===== verification/Trade_Union_Safety.thy ===== *)
theory Trade_Union_Safety
  imports Trade_Union_Correct
begin

text \<open>
  The theorems on the trade union: nothing is lost or duplicated, publication is in strictly
  increasing id order, a finished run publishes exactly the union of the lanes, clamps hold the
  emission back, and a published identity is never forgotten while the durable log is attached.
\<close>

section \<open>Retained identities\<close>

definition idents :: "canonical_observation list \<Rightarrow> (nat \<times> string) list" where
  "idents out = map (\<lambda>obs. (obs_id obs, co_observation_sha256 obs)) out"

definition obs_identity_ok :: "canonical_observation \<Rightarrow> bool" where
  "obs_identity_ok obs \<longleftrightarrow> identity_ok (obs_id obs) (co_observation_sha256 obs)"

definition retained :: "canonical_observation list \<Rightarrow> trade_union \<Rightarrow> bool" where
  "retained out u \<longleftrightarrow> u64_map_wf (tu_published u) \<and> set (tu_published u) \<subseteq> set (idents out)
     \<and> (\<forall>log. tu_durable u = Some log \<longrightarrow> log_fits log \<longrightarrow> log_holds log (map_of (idents out)))"

lemma trim_published_suffix: "\<exists>k. trim_published m = drop k m"
proof (induction m)
  case (Cons p m)
  then obtain k where "trim_published m = drop k m" by blast
  then show ?case using drop_0 [of "p # m"] drop_Suc_Cons [of k p m] by (metis trim_published.simps(2))
qed simp

lemma trim_published_keeps:
  "u64_map_wf m \<Longrightarrow> u64_map_wf (trim_published m) \<and> set (trim_published m) \<subseteq> set m"
proof -
  assume wf: "u64_map_wf m"
  obtain k where k: "trim_published m = drop k m" using trim_published_suffix by blast
  have "m = take k m @ drop k m" by simp
  then have "u64_map_wf (drop k m)" using wf nat_key.wf_append by metis
  then show ?thesis by (simp add: k set_drop_subset)
qed

lemma retained_publish:
  assumes "retained out u" "obs_identity_ok obs" "obs_id obs = tid"
    and "tu_durable u = None \<longrightarrow> dur = None"
    and "\<And>log. tu_durable u = Some log \<Longrightarrow>
           \<exists>log'. dur = Some log' \<and> identity_insert log tid (co_observation_sha256 obs) = (Ok (), log')"
  shows "retained (out @ [obs]) (u\<lparr>tu_last_published_id := Some tid, tu_durable := dur,
      tu_published := trim_published (bt_insert (<) tid (co_observation_sha256 obs) (tu_published u))\<rparr>)"
proof -
  let ?m = "bt_insert (<) tid (co_observation_sha256 obs) (tu_published u)"
  have wf: "u64_map_wf (tu_published u)" using assms(1) by (simp add: retained_def)
  have "set ?m \<subseteq> set (idents (out @ [obs]))"
    using assms(1,3) wf by (auto simp: retained_def idents_def nat_key.mem_insert_iff)
  moreover have "u64_map_wf ?m" using wf by (simp add: nat_key.wf_insert)
  ultimately have pub: "u64_map_wf (trim_published ?m) \<and> set (trim_published ?m) \<subseteq> set (idents (out @ [obs]))"
    using trim_published_keeps by blast
  have "log_holds log' (map_of (idents (out @ [obs])))" if dur: "dur = Some log'" "log_fits log'" for log'
  proof -
    obtain log where log: "tu_durable u = Some log" "identity_insert log tid (co_observation_sha256 obs) = (Ok (), log')"
      using assms(4,5) dur(1) by (cases "tu_durable u") auto
    have h: "log_holds log (map_of (idents out))"
      using assms(1) log(1) id_log.ins_fits [OF log(2) dur(2)] by (simp add: retained_def)
    have "log_holds log' ((map_of (idents out))(tid \<mapsto> co_observation_sha256 obs))"
      using id_log.ins_good [OF h log(2) _ dur(2)] assms(2,3) by (simp add: obs_identity_ok_def)
    moreover have "tid \<notin> fst ` set (idents out)"
      using id_log.ins_fresh [OF h log(2)] by (simp add: map_of_eq_None_iff)
    ultimately show ?thesis
      using map_of_snoc [of tid "idents out" "co_observation_sha256 obs"] assms(3)
      by (simp add: idents_def del: map_of_append)
  qed
  then show ?thesis using pub by (simp add: retained_def)
qed

lemma drain_loop_retained:
  assumes "drain_loop w buf u batch ins = (Ok (batch', ins'), u')" "keys_above (tu_last_published_id u) buf"
    and "retained out u" "\<forall>(t, e)\<in>set buf. obs_id (te_observation e) = t \<and> obs_identity_ok (te_observation e)"
  shows "retained (out @ map (te_observation \<circ> snd) (below w buf)) u'"
  using assms
proof (induction w buf u batch ins arbitrary: out rule: drain_loop.induct)
  case (1 w u batch ins)
  then show ?case by (auto simp: retained_def)
next
  case (2 w tid entry rest u batch ins)
  have e: "obs_id (te_observation entry) = tid" "obs_identity_ok (te_observation entry)" using 2(6) by auto
  note k = keys_above_Cons [OF 2(4)]
  show ?case
  proof (cases "w \<le> tid")
    case True
    then show ?thesis using 2(3,5) by (auto simp: retained_def)
  next
    case False
    show ?thesis
    proof (cases "tu_durable u")
      case None
      have r: "retained (out @ [te_observation entry]) (u\<lparr>tu_last_published_id := Some tid, tu_published :=
          trim_published (bt_insert (<) tid (co_observation_sha256 (te_observation entry)) (tu_published u))\<rparr>)"
        using retained_publish [OF 2(5) e(2,1), of None] None by (simp add: retained_def)
      show ?thesis using 2(1) [OF False _ refl refl refl refl, of "out @ [te_observation entry]"] 2(3,6) None False k r
        by (simp add: Let_def)
    next
      case (Some log)
      obtain log' where i: "identity_insert log tid (co_observation_sha256 (te_observation entry)) = (Ok (), log')"
        using 2(3) False k Some by (auto simp: Let_def split: prod.splits sum.splits)
      have r: "retained (out @ [te_observation entry]) (u\<lparr>tu_last_published_id := Some tid, tu_durable := Some log',
          tu_published := trim_published (bt_insert (<) tid (co_observation_sha256 (te_observation entry)) (tu_published u))\<rparr>)"
        using retained_publish [OF 2(5) e(2,1), of "Some log'"] Some i by simp
      show ?thesis using 2(2) [OF False _ refl refl refl refl _ i [symmetric] refl, of "out @ [te_observation entry]"]
          2(3,6) Some False k r i by (simp add: Let_def)
    qed
  qed
qed

lemma identity_sync_fits: "identity_sync log = (Ok (), log') \<Longrightarrow> log_fits log' \<Longrightarrow> log_fits log"
  by (auto simp: identity_sync_def log_fits_def split: if_splits prod.splits bool.splits
      dest!: sink_overwrite_True sink_sync_data)

lemma identity_sync_holds: "log_holds log m \<Longrightarrow> identity_sync log = (Ok (), log') \<Longrightarrow> log_holds log' m"
  using identity_sync_clean by (auto simp: log_holds_def)

lemma drain_retained:
  assumes "drain u = (Ok d, u')" "keys_above (tu_last_published_id u) (tu_buffer u)" "retained out u"
    and "\<forall>(t, e)\<in>set (tu_buffer u). obs_id (te_observation e) = t \<and> obs_identity_ok (te_observation e)"
  shows "retained (out @ published_of d) u'"
proof -
  let ?w = "drain_watermark u"
  obtain batch ins u1 where l: "drain_loop ?w (tu_buffer u) u [] False = (Ok (batch, ins), u1)"
    using assms(1) by (auto simp: drain_def split: prod.splits sum.splits if_splits)
  have r: "retained (out @ published_of d) u1"
  proof -
    have "published_of d = map (te_observation \<circ> snd) (below ?w (tu_buffer u))"
      using drain_Ok [OF assms(1,2)] published_of_drain [of "below ?w (tu_buffer u)"] by simp
    then show ?thesis using drain_loop_retained [OF l assms(2-4)] by simp
  qed
  show ?thesis
  proof (cases "ins")
    case False
    then show ?thesis using assms(1) l r by (auto simp: drain_def Let_def split: if_splits)
  next
    case True
    then obtain log log' where s: "tu_durable u1 = Some log" "identity_sync log = (Ok (), log')"
      "u' = u1\<lparr>tu_durable := Some log'\<rparr>"
      using assms(1) l by (auto simp: drain_def Let_def split: if_splits option.splits prod.splits sum.splits)
    then show ?thesis using r identity_sync_fits [OF s(2)] identity_sync_holds [OF _ s(2)]
      by (simp add: retained_def)
  qed
qed

lemma advance_lane_sel [simp]:
  "tu_last_published_id (advance_lane l t u) = tu_last_published_id u" "tu_buffer (advance_lane l t u) = tu_buffer u"
  "tu_published (advance_lane l t u) = tu_published u" "tu_durable (advance_lane l t u) = tu_durable u"
  by (simp_all add: advance_lane_def Let_def split: option.splits)

lemma entries_identity_ok:
  assumes "union_inv seen out u" "\<forall>(l, obs)\<in>set seen. obs_identity_ok obs"
  shows "\<forall>(t, e)\<in>set (tu_buffer u). obs_id (te_observation e) = t \<and> obs_identity_ok (te_observation e)"
proof clarify
  fix t e
  assume "(t, e) \<in> set (tu_buffer u)"
  from union_invD(8) [OF assms(1) this] show "obs_id (te_observation e) = t \<and> obs_identity_ok (te_observation e)"
    using assms(2) by auto
qed

lemma observe_retained:
  assumes "union_inv seen out u" "retained out u" "observe lane obs u = (Ok d, u')"
    and "bt_get (<) lane (tu_lane_next u) = Some n" "obs_id obs < u64_max"
    and "\<forall>(l, o')\<in>set seen. l = lane \<longrightarrow> obs_id o' < obs_id obs"
    and "\<forall>(l, o')\<in>set (seen @ [(lane, obs)]). obs_identity_ok o'"
  shows "retained (out @ published_of d) u'"
  using assms(1,4,3,6)
proof (cases rule: observe_in_run)
  case (buffered e)
  let ?u = "advance_lane lane (obs_id obs) (u\<lparr>tu_buffer := bt_insert (<) (obs_id obs) e (tu_buffer u)\<rparr>)"
  have "obs_id (te_observation e) = obs_id obs \<and> te_observation e \<in> snd ` set (seen @ [(lane, obs)])"
    using buffered(2) union_invD(8) [OF assms(1)] by auto
  then have inv: "union_inv (seen @ [(lane, obs)]) out ?u"
    using union_inv_buffer [OF assms(1,4,6) buffered(1) refl assms(5)] by blast
  have "retained out ?u" using assms(2) by (simp add: retained_def)
  then show ?thesis
    using drain_retained [OF buffered(3) union_inv_keys_above(1) [OF inv] _ entries_identity_ok [OF inv assms(7)]]
    by blast
qed (use assms(2) in \<open>simp_all add: published_of_def\<close>)

text \<open>The durable log, if any, was attached empty.\<close>

definition fresh_identity_log :: "trade_union \<Rightarrow> bool" where
  "fresh_identity_log u = (case tu_durable u of None \<Rightarrow> True | Some log \<Rightarrow> log_holds log Map.empty)"

lemma union_run_retained:
  "union_run u0 seen out u \<Longrightarrow> fresh_identity_log u0 \<Longrightarrow> \<forall>(l, obs)\<in>set seen. obs_identity_ok obs \<Longrightarrow> retained out u"
proof (induction rule: union_run.induct)
  case run_start
  then show ?case
    by (auto simp: retained_def fresh_identity_log_def union_start_def idents_def nat_key.wf_Nil split: option.splits)
next
  case (run_observe seen out u lane obs d u' n)
  have "retained out u" using run_observe by auto
  then show ?case
    using observe_retained [OF union_run_inv [OF run_observe(1)] _ run_observe(2-5)] run_observe(8) by blast
next
  case (run_flush seen out u d u')
  note inv = union_run_inv [OF run_flush(1)]
  show ?case
    using drain_retained [OF _ union_inv_keys_above(1) [OF inv] _ entries_identity_ok [OF inv]] run_flush
    by (simp add: flush_def)
qed (simp_all add: retained_def set_emission_clamp_def clear_emission_clamp_def exclude_lane_def)

section \<open>Theorems\<close>

text \<open>
  C2. No loss, no duplicate, no reordering. At any point of a run the published trades are in
  strictly increasing id order, each is an observation some lane delivered, and the ids delivered
  above the startup floor are exactly those published and those still buffered, all of them above
  the published ones.
\<close>

theorem trade_union_no_loss:
  assumes "union_run u0 seen out u"
  shows "sorted_wrt (<) (map obs_id out @ map fst (tu_buffer u))
    \<and> set (map obs_id out) \<union> set (map fst (tu_buffer u)) = accepted_ids (tu_consumed_floor u) seen
    \<and> (\<forall>obs\<in>set out. \<exists>lane. (lane, obs) \<in> set seen)"
proof -
  note inv = union_invD [OF union_run_inv [OF assms]]
  have "\<exists>lane. (lane, obs) \<in> set seen" if "obs \<in> set out" for obs using inv(9) [OF that] by auto
  then show ?thesis using inv(3,4) by simp
qed

text \<open>
  C25. Completeness. When every lane has finished, the flush publishes the rest: the buffer is empty
  and the whole publication is the sorted list of all the ids delivered above the floor, each once.
  It can fail only with an error of the durable identity log, when one is attached.
\<close>

theorem trade_union_complete:
  assumes "union_run u0 seen out u" "tu_lane_next u = []"
  shows "case flush u of
      (Inl e, u') \<Rightarrow> tu_durable u \<noteq> None \<and> identity_log_fails e
    | (Inr d, u') \<Rightarrow> tu_buffer u' = []
        \<and> map obs_id (out @ published_of d) = sorted_list_of_set (accepted_ids (tu_consumed_floor u) seen)"
proof -
  note inv = union_run_inv [OF assms(1)] and ka = union_inv_keys_above(1) [OF union_run_inv [OF assms(1)]]
  have "tu_buffer u' = [] \<and> map obs_id (out @ published_of d) = sorted_list_of_set (accepted_ids (tu_consumed_floor u) seen)"
    if d: "drain u = (Ok d, u')" for d u'
  proof -
    have "accepted_ids (tu_consumed_floor u) seen \<subseteq> {..<u64_max}"
      using union_run_bound [OF assms(1)] by (auto simp: accepted_ids_def)
    then have lt: "fst p < u64_max" if "p \<in> set (tu_buffer u)" for p
      using that union_invD(4) [OF inv] by auto
    have "drain_watermark u = u64_max" using assms(2) by (simp add: drain_watermark_def flip: emission_watermark_None)
    then have b: "tu_buffer u' = []" using drain_Ok [OF d ka] lt by (simp add: dropWhile_eq_Nil_conv)
    have "tu_consumed_floor u' = tu_consumed_floor u" using drain_Ok [OF d ka] by (simp add: same_config_def)
    then have "sorted_wrt (<) (map obs_id (out @ published_of d))"
      "set (map obs_id (out @ published_of d)) = accepted_ids (tu_consumed_floor u) seen"
      using union_invD(3,4) [OF union_inv_drain [OF inv d]] b by simp_all
    then show ?thesis using b by (metis sorted_list_of_set.idem_if_sorted_distinct strict_sorted_iff)
  qed
  then show ?thesis using drain_Err [OF _ ka] by (simp add: flush_def split: prod.split sum.split)
qed

text \<open>
  A trade delivered in order by a live lane is never classified as late, and a conflict is
  always genuine: another delivery of the same id carried a different digest.
\<close>

theorem in_order_trade_not_late:
  assumes "union_run u0 seen out u" "bt_get (<) lane (tu_lane_next u) = Some n"
    and "\<forall>(l, o')\<in>set seen. l = lane \<longrightarrow> obs_id o' < obs_id obs" "observe lane obs u = (Ok d, u')"
  shows "(\<forall>o' k. d \<noteq> Late o' k) \<and> (\<forall>t a b. d = Conflict t a b \<longrightarrow>
    (\<exists>l o'. (l, o') \<in> set seen \<and> obs_id o' = obs_id obs \<and> co_observation_sha256 o' \<noteq> co_observation_sha256 obs))"
proof -
  note inv = union_run_inv [OF assms(1)]
  show ?thesis
    using inv assms(2,4,3)
  proof (cases rule: observe_in_run)
    case (conflict e)
    then have "obs_id (te_observation e) = obs_id obs" "te_observation e \<in> snd ` set seen"
      using union_invD(8) [OF inv conflict(1)] by auto
    then obtain l where "(l, te_observation e) \<in> set seen" by auto
    then show ?thesis using conflict(4,5) \<open>obs_id (te_observation e) = obs_id obs\<close> by blast
  next
    case (buffered e)
    let ?u = "advance_lane lane (obs_id obs) (u\<lparr>tu_buffer := bt_insert (<) (obs_id obs) e (tu_buffer u)\<rparr>)"
    have "d = Buffered \<or> (\<exists>b. d = Publishable b)"
      using buffered(3) by (auto simp: drain_def Let_def split: if_splits prod.splits sum.splits option.splits)
    then show ?thesis by auto
  qed simp
qed

text \<open>
  Eviction does not degrade a classification. With the durable identity log attached, any later
  delivery of a published id, by any lane and in any order, is a duplicate when its digest is the
  published one and a conflict otherwise, however many identities the bounded cache has evicted.
\<close>

theorem published_identity_not_forgotten:
  assumes "union_run u0 seen out u" "fresh_identity_log u0" "\<forall>(l, o')\<in>set seen. obs_identity_ok o'"
    and "tu_durable u = Some log" "log_fits log" "pub \<in> set out" "exact_trade obs = Ok (obs_id pub)"
  shows "observe lane obs u = (Ok (if co_observation_sha256 pub = co_observation_sha256 obs then Late obs Duplicate
           else Conflict (obs_id pub) (co_observation_sha256 pub) (co_observation_sha256 obs)), u)"
proof -
  note inv = union_run_inv [OF assms(1)] and ret = union_run_retained [OF assms(1-3)]
  let ?t = "obs_id pub" and ?p = "co_observation_sha256 pub"
  have "sorted_wrt (<) (map fst (idents out))"
    using union_invD(3) [OF inv] by (simp add: idents_def sorted_wrt_append comp_def)
  then have dist: "distinct (map fst (idents out))" by (simp add: strict_sorted_iff)
  have pub: "map_of (idents out) ?t = Some ?p"
    using dist assms(6) by (intro map_of_is_SomeI) (auto simp: idents_def)
  have "log_holds log (map_of (idents out))" using ret assms(4,5) by (simp add: retained_def)
  then have look: "identity_lookup log ?t = Ok (Some ?p)" using id_log.lookup_good pub by metis
  have cache: "bt_get (<) ?t (tu_published u) = None \<or> bt_get (<) ?t (tu_published u) = Some ?p"
  proof (cases "bt_get (<) ?t (tu_published u)")
    case (Some q)
    then have "(?t, q) \<in> set (tu_published u)" using ret nat_key.get_eq_map_of by (metis map_of_SomeD retained_def)
    then have "(?t, q) \<in> set (idents out)" using ret by (auto simp: retained_def)
    then have "map_of (idents out) ?t = Some q" by (rule map_of_is_SomeI [OF dist])
    then show ?thesis using pub Some by simp
  qed simp
  have "?t \<in> set (map obs_id out @ map fst (tu_buffer u))" using assms(6) by simp
  then have "?t \<in> accepted_ids (tu_consumed_floor u) seen" by (simp only: union_invD(4) [OF inv])
  then have fl: "\<not> id_regressed (tu_consumed_floor u) ?t" by (auto simp: accepted_ids_def)
  have "?t \<le> obs_id (last out)"
  proof -
    have srt: "sorted_wrt (<) (map obs_id out)" using union_invD(3) [OF inv] by (simp add: sorted_wrt_append)
    obtain i where i: "i < length out" "out ! i = pub" using assms(6) by (auto simp: in_set_conv_nth)
    have "i < length out - 1 \<Longrightarrow> obs_id (out ! i) < obs_id (out ! (length out - 1))"
      using srt i(1) by (auto simp: sorted_wrt_iff_nth_less)
    then have "i = length out - 1 \<or> obs_id (out ! i) < obs_id (out ! (length out - 1))"
      using i(1) by linarith
    moreover have "last out = out ! (length out - 1)" using i(1) by (intro last_conv_nth) auto
    ultimately show ?thesis using i(2) by auto
  qed
  then have np: "id_regressed (tu_last_published_id u) ?t"
    using union_invD(5) [OF inv] assms(6) by (auto simp: id_regressed_def)
  have "bt_get (<) ?t (tu_corrected u) = None" using union_invD(2) [OF inv] by simp
  then show ?thesis
    using assms(4,7) fl np look cache by (auto simp: observe_def classify_published_def Let_def)
qed

text \<open>
  Emission is held back. Every trade an observation releases is below the delivery cursor of
  every live lane and below the handover clamp of every live lane that has one, so nothing a
  lane or an unfinished predecessor tail may still deliver is skipped.
\<close>

theorem emission_respects_clamps:
  assumes "union_run u0 seen out u" "bt_get (<) lane (tu_lane_next u) = Some n"
    and "\<forall>(l, o')\<in>set seen. l = lane \<longrightarrow> obs_id o' < obs_id obs" "obs_id obs < u64_max"
    and "observe lane obs u = (Ok d, u')" "p \<in> set (published_of d)" "(l, k) \<in> set (tu_lane_next u')"
  shows "obs_id p < k \<and> (\<forall>c. bt_get (<) l (tu_emission_clamps u') = Some c \<longrightarrow> obs_id p < c)"
proof -
  note inv = union_run_inv [OF assms(1)]
  show ?thesis
    using inv assms(2,5,3)
  proof (cases rule: observe_in_run)
    case (buffered e)
    let ?u = "advance_lane lane (obs_id obs) (u\<lparr>tu_buffer := bt_insert (<) (obs_id obs) e (tu_buffer u)\<rparr>)"
    have "obs_id (te_observation e) = obs_id obs \<and> te_observation e \<in> snd ` set (seen @ [(lane, obs)])"
      using buffered(2) union_invD(8) [OF inv] by auto
    then have inv': "union_inv (seen @ [(lane, obs)]) out ?u"
      using union_inv_buffer [OF inv assms(2,3) buffered(1) refl assms(4)] by blast
    note ok = drain_Ok [OF buffered(3) union_inv_keys_above(1) [OF inv']]
    then have cfg: "tu_lane_next u' = tu_lane_next ?u" "tu_emission_clamps u' = tu_emission_clamps ?u"
      by (simp_all add: same_config_def)
    define b where "b = below (drain_watermark ?u) (tu_buffer ?u)"
    have "published_of d = map (te_observation \<circ> snd) b"
      using ok published_of_drain [of b] unfolding b_def [symmetric] by simp
    then obtain q where q: "q \<in> set (below (drain_watermark ?u) (tu_buffer ?u))" "p = te_observation (snd q)"
      using assms(6) by (auto simp: b_def)
    have "obs_id p = fst q"
      using union_invD(8) [OF inv', of "fst q" "snd q"] q set_takeWhileD [OF q(1)] by simp
    then have lt: "obs_id p < drain_watermark ?u" using set_takeWhileD [OF q(1)] by simp
    have "emission_watermark ?u \<noteq> None" using assms(7) cfg by auto
    then obtain w where "emission_watermark ?u = Some w" by blast
    then show ?thesis
      using emission_watermark_lane [of ?u w l k] assms(7) lt by (auto simp: cfg drain_watermark_def)
  qed (use assms(6) in \<open>simp_all add: published_of_def\<close>)
qed

end
