(* ===== verification/Trade_Union_Witness.thy ===== *)
theory Trade_Union_Witness
  imports Trade_Union_Safety
begin

text \<open>
  A concrete run for the trade-union theorems: the lanes of the omission the arbiter was fixed for,
  Primary delivering 100 and 102, Shadow delivering 101 and 102, with and without a durable log.
\<close>

definition demo_trade :: "nat \<Rightarrow> canonical_observation" where
  "demo_trade t = \<lparr>co_symbol = ''BTCUSDT'', co_stream_kind = Trade, co_stream = ''trade'', co_connection_epoch = ''e'',
     co_frame_index = t, co_first_sequence = t, co_final_sequence = t, co_record_sha256 = ''r'',
     co_observation_sha256 = demo_digest\<rparr>"

definition demo_start :: "identity_log option \<Rightarrow> trade_union" where
  "demo_start dur = (register_lane Shadow (register_lane Primary union_new))\<lparr>tu_durable := dur\<rparr>"

definition entry_of :: "(capture_lane \<times> string) list \<Rightarrow> nat \<Rightarrow> trade_union_entry" where
  "entry_of ls t = \<lparr>te_observation = demo_trade t, te_lineages = ls\<rparr>"

lemma demo_start_eq:
  "demo_start dur = \<lparr>tu_buffer = [], tu_lane_next = [(Primary, 0), (Shadow, 0)], tu_last_published_id = None,
     tu_consumed_floor = None, tu_published = [], tu_corrected = [], tu_durable = dur, tu_emission_clamps = []\<rparr>"
  by (simp add: demo_start_def register_lane_def union_new_def)

lemma demo_trade_simps [simp]:
  "exact_trade (demo_trade t) = Ok t" "obs_id (demo_trade t) = t" "co_observation_sha256 (demo_trade t) = demo_digest"
  "co_record_sha256 (demo_trade t) = ''r''"
  by (simp_all add: demo_trade_def exact_trade_def)

lemma demo_start_union_start: "union_start (demo_start dur)"
  by (simp add: union_start_def demo_start_eq bt_wf_def)

definition demo_u1 :: "identity_log option \<Rightarrow> trade_union" where
  "demo_u1 dur = snd (observe Primary (demo_trade 100) (demo_start dur))"

definition demo_u2 :: "identity_log option \<Rightarrow> trade_union" where
  "demo_u2 dur = snd (observe Shadow (demo_trade 101) (demo_u1 dur))"

lemma demo_u1_eq:
  "observe Primary (demo_trade 100) (demo_start dur) = (Ok Buffered, demo_u1 dur)"
  "demo_u1 dur = \<lparr>tu_buffer = [(100, entry_of [(Primary, ''r'')] 100)], tu_lane_next = [(Primary, 101), (Shadow, 0)],
     tu_last_published_id = None, tu_consumed_floor = None, tu_published = [], tu_corrected = [], tu_durable = dur,
     tu_emission_clamps = []\<rparr>"
proof -
  have "observe Primary (demo_trade 100) (demo_start dur) = (Ok Buffered,
     \<lparr>tu_buffer = [(100, entry_of [(Primary, ''r'')] 100)], tu_lane_next = [(Primary, 101), (Shadow, 0)],
     tu_last_published_id = None, tu_consumed_floor = None, tu_published = [], tu_corrected = [], tu_durable = dur,
     tu_emission_clamps = []\<rparr>)"
    by (simp add: observe_def demo_start_eq id_regressed_def advance_lane_def saturating_add_def u64_max_def drain_def
        emission_watermark_def lane_bound_def drain_watermark_def entry_of_def)
  then show "observe Primary (demo_trade 100) (demo_start dur) = (Ok Buffered, demo_u1 dur)"
    and "demo_u1 dur = \<lparr>tu_buffer = [(100, entry_of [(Primary, ''r'')] 100)], tu_lane_next = [(Primary, 101), (Shadow, 0)],
     tu_last_published_id = None, tu_consumed_floor = None, tu_published = [], tu_corrected = [], tu_durable = dur,
     tu_emission_clamps = []\<rparr>"
    by (simp_all add: demo_u1_def)
qed

lemma demo_u2_eq:
  "observe Shadow (demo_trade 101) (demo_u1 None) = (Ok (Publishable [(Primary, demo_trade 100)]), demo_u2 None)"
  "demo_u2 None = \<lparr>tu_buffer = [(101, entry_of [(Shadow, ''r'')] 101)], tu_lane_next = [(Primary, 101), (Shadow, 102)],
     tu_last_published_id = Some 100, tu_consumed_floor = None, tu_published = [(100, demo_digest)], tu_corrected = [],
     tu_durable = None, tu_emission_clamps = []\<rparr>"
proof -
  have "observe Shadow (demo_trade 101) (demo_u1 None) = (Ok (Publishable [(Primary, demo_trade 100)]),
     \<lparr>tu_buffer = [(101, entry_of [(Shadow, ''r'')] 101)], tu_lane_next = [(Primary, 101), (Shadow, 102)],
     tu_last_published_id = Some 100, tu_consumed_floor = None, tu_published = [(100, demo_digest)], tu_corrected = [],
     tu_durable = None, tu_emission_clamps = []\<rparr>)"
    by (simp add: observe_def demo_u1_eq(2) id_regressed_def advance_lane_def saturating_add_def u64_max_def drain_def
        emission_watermark_def lane_bound_def drain_watermark_def entry_of_def PUBLISHED_CAP_def)
  then show "observe Shadow (demo_trade 101) (demo_u1 None) = (Ok (Publishable [(Primary, demo_trade 100)]), demo_u2 None)"
    and "demo_u2 None = \<lparr>tu_buffer = [(101, entry_of [(Shadow, ''r'')] 101)], tu_lane_next = [(Primary, 101), (Shadow, 102)],
     tu_last_published_id = Some 100, tu_consumed_floor = None, tu_published = [(100, demo_digest)], tu_corrected = [],
     tu_durable = None, tu_emission_clamps = []\<rparr>"
    by (simp_all add: demo_u2_def)
qed

lemma demo_run1: "union_run (demo_start dur) [(Primary, demo_trade 100)] [] (demo_u1 dur)"
proof -
  have "bt_get (<) Primary (tu_lane_next (demo_start dur)) = Some 0" "obs_id (demo_trade 100) < u64_max"
    by (simp_all add: demo_start_eq u64_max_def)
  from run_observe [OF run_start [OF demo_start_union_start] demo_u1_eq(1) this] show ?thesis
    by (simp add: published_of_def)
qed

lemma demo_shadow_live: "bt_get (<) Shadow (tu_lane_next (demo_u1 dur)) = Some 0" "obs_id (demo_trade 101) < u64_max"
  by (simp_all add: demo_u1_eq(2) u64_max_def)

lemma demo_shadow_order: "\<forall>(l, o')\<in>set [(Primary, demo_trade 100)]. l = Shadow \<longrightarrow> obs_id o' < obs_id (demo_trade 101)"
  by simp

lemma demo_run2: "union_run (demo_start None) [(Primary, demo_trade 100), (Shadow, demo_trade 101)] [demo_trade 100] (demo_u2 None)"
  using run_observe [OF demo_run1 demo_u2_eq(1) demo_shadow_live demo_shadow_order] by (simp add: published_of_def)

text \<open>Witness.\<close>

theorem trade_union_no_loss_witness:
  "set (map obs_id [demo_trade 100]) \<union> set (map fst (tu_buffer (demo_u2 None)))
     = accepted_ids (tu_consumed_floor (demo_u2 None)) [(Primary, demo_trade 100), (Shadow, demo_trade 101)]
   \<and> map fst (tu_buffer (demo_u2 None)) = [101]"
  using trade_union_no_loss [OF demo_run2] by (simp add: demo_u2_eq(2))

text \<open>Witness: the delivery of 101 by the second lane.\<close>

theorem in_order_trade_not_late_witness:
  "observe Shadow (demo_trade 101) (demo_u1 None) = (Ok (Publishable [(Primary, demo_trade 100)]), demo_u2 None)
    \<and> (\<forall>o' k. Publishable [(Primary, demo_trade 100)] \<noteq> Late o' k)"
  using in_order_trade_not_late [OF demo_run1 demo_shadow_live(1) demo_shadow_order demo_u2_eq(1)] demo_u2_eq(1)
  by blast

text \<open>Witness: the release of 100 is below both cursors.\<close>

theorem emission_respects_clamps_witness:
  "obs_id (demo_trade 100) < 101 \<and> (Primary, 101) \<in> set (tu_lane_next (demo_u2 None))"
proof -
  have "demo_trade 100 \<in> set (published_of (Publishable [(Primary, demo_trade 100)]))"
    and mem: "(Primary, 101) \<in> set (tu_lane_next (demo_u2 None))"
    by (simp_all add: published_of_def demo_u2_eq(2))
  then show ?thesis
    using emission_respects_clamps [OF demo_run1 demo_shadow_live(1) demo_shadow_order demo_shadow_live(2) demo_u2_eq(1)]
    by blast
qed

section \<open>With a durable log\<close>

definition demo_l0 :: identity_log where
  "demo_l0 = \<lparr>il_file = \<lparr>sk_data = header_bytes 0, sk_synced = 32, sk_plan = []\<rparr>, il_count = 0,
     il_last_id = None, il_dirty = False\<rparr>"

definition demo_l2 :: identity_log where
  "demo_l2 = \<lparr>il_file = \<lparr>sk_data = header_bytes 1 @ identity_record 100 demo_bytes, sk_synced = 72, sk_plan = []\<rparr>,
     il_count = 1, il_last_id = Some 100, il_dirty = False\<rparr>"

lemma demo_l0_create: "identity_create [] = Ok demo_l0"
  by (simp add: identity_create_def sink_write_all_def sink_sync_def demo_l0_def)

lemma demo_l0_fresh: "fresh_identity_log (demo_start (Some demo_l0))"
  using identity_create_clean [OF demo_l0_create] by (auto simp: fresh_identity_log_def demo_start_eq log_holds_def)

definition demo_flushable :: trade_union where
  "demo_flushable = \<lparr>tu_buffer = [(101, entry_of [(Shadow, ''r'')] 101)], tu_lane_next = [(Primary, 101), (Shadow, 102)],
     tu_last_published_id = Some 100, tu_consumed_floor = None, tu_published = [(100, demo_digest)], tu_corrected = [],
     tu_durable = Some demo_l2, tu_emission_clamps = []\<rparr>"

lemma demo_durable_publish:
  "observe Shadow (demo_trade 101) (demo_u1 (Some demo_l0))
     = (Ok (Publishable [(Primary, demo_trade 100)]), demo_u2 (Some demo_l0))"
  "tu_durable (demo_u2 (Some demo_l0)) = Some demo_l2"
  "demo_u2 (Some demo_l0) = demo_flushable"
proof -
  let ?l1 = "\<lparr>il_file = \<lparr>sk_data = header_bytes 0 @ identity_record 100 demo_bytes, sk_synced = 32, sk_plan = []\<rparr>,
     il_count = Suc 0, il_last_id = Some 100, il_dirty = True\<rparr>"
  have i: "identity_insert demo_l0 100 demo_digest = (Ok (), ?l1)"
    by (simp add: demo_l0_def identity_insert_def id_regressed_def demo_decode sink_write_all_def
        checked_add_def u64_max_def)
  have y: "identity_sync ?l1 = (Ok (), demo_l2)"
    by (simp add: identity_sync_def sink_overwrite_def sink_sync_def demo_l2_def identity_record_def demo_bytes_len)
  show eq: "observe Shadow (demo_trade 101) (demo_u1 (Some demo_l0)) = (Ok (Publishable [(Primary, demo_trade 100)]),
     demo_u2 (Some demo_l0))"
    and "demo_u2 (Some demo_l0) = demo_flushable"
    by (simp_all add: demo_u2_def observe_def demo_u1_eq(2) id_regressed_def advance_lane_def saturating_add_def u64_max_def drain_def
        emission_watermark_def lane_bound_def drain_watermark_def entry_of_def PUBLISHED_CAP_def i y demo_flushable_def)
  then show "tu_durable (demo_u2 (Some demo_l0)) = Some demo_l2" by (simp add: demo_flushable_def)
qed

lemma demo_durable_flush:
  "\<exists>u'. flush (exclude_lane Shadow (exclude_lane Primary (demo_u2 (Some demo_l0))))
      = (Ok (Publishable [(Shadow, demo_trade 101)]), u')"
proof -
  let ?l = "\<lparr>il_file = \<lparr>sk_data = header_bytes 1 @ identity_record 100 demo_bytes @ identity_record 101 demo_bytes,
      sk_synced = 72, sk_plan = []\<rparr>, il_count = 2, il_last_id = Some 101, il_dirty = True\<rparr>"
  have i: "identity_insert demo_l2 101 demo_digest = (Ok (), ?l)"
    by (simp add: demo_l2_def identity_insert_def id_regressed_def demo_decode sink_write_all_def checked_add_def u64_max_def)
  have y: "\<exists>l. identity_sync ?l = (Ok (), l)"
    by (simp add: identity_sync_def sink_overwrite_def sink_sync_def)
  show ?thesis using y
    by (auto simp: flush_def drain_def demo_durable_publish(3) demo_flushable_def exclude_lane_def emission_watermark_def
        drain_watermark_def id_regressed_def u64_max_def entry_of_def PUBLISHED_CAP_def i)
qed

lemma demo_durable_run:
  "union_run (demo_start (Some demo_l0)) [(Primary, demo_trade 100), (Shadow, demo_trade 101)]
     [demo_trade 100] (demo_u2 (Some demo_l0))"
  using run_observe [OF demo_run1 demo_durable_publish(1) demo_shadow_live demo_shadow_order]
  by (simp add: published_of_def)

text \<open>Witness: both lanes are excluded after the two deliveries, and the flush stores 101 in the log.\<close>

theorem trade_union_complete_witness:
  "\<exists>u'. flush (exclude_lane Shadow (exclude_lane Primary (demo_u2 (Some demo_l0))))
      = (Ok (Publishable [(Shadow, demo_trade 101)]), u')
    \<and> map obs_id [demo_trade 100, demo_trade 101] = sorted_list_of_set {100, 101}"
proof -
  let ?u = "exclude_lane Shadow (exclude_lane Primary (demo_u2 (Some demo_l0)))"
  let ?seen = "[(Primary, demo_trade 100), (Shadow, demo_trade 101)]"
  have "accepted_ids None ?seen = {100, 101}"
    by (auto simp: accepted_ids_def id_regressed_def) (metis demo_trade_simps(2))+
  moreover have u: "tu_lane_next ?u = []" "tu_consumed_floor ?u = None"
    by (simp_all add: exclude_lane_def demo_durable_publish(3) demo_flushable_def)
  moreover obtain u' where "flush ?u = (Ok (Publishable [(Shadow, demo_trade 101)]), u')"
    using demo_durable_flush by blast
  ultimately show ?thesis
    using trade_union_complete [OF run_exclude [OF run_exclude [OF demo_durable_run]], of Shadow Primary]
    by (simp add: published_of_def)
qed

text \<open>Witness: Shadow repeats the published 100 with another digest.\<close>

theorem published_identity_not_forgotten_witness:
  "observe Shadow ((demo_trade 100)\<lparr>co_observation_sha256 := ''x''\<rparr>) (demo_u2 (Some demo_l0))
     = (Ok (Conflict 100 demo_digest ''x''), demo_u2 (Some demo_l0))"
proof -
  have "\<forall>(l, o')\<in>set [(Primary, demo_trade 100), (Shadow, demo_trade 101)]. obs_identity_ok o'"
    by (simp add: obs_identity_ok_def demo_digest_ok u64_max_def)
  moreover have "log_fits demo_l2" by (simp add: log_fits_def demo_l2_def identity_record_def demo_bytes_len u64_max_def)
  moreover have "exact_trade ((demo_trade 100)\<lparr>co_observation_sha256 := ''x''\<rparr>) = Ok (obs_id (demo_trade 100))"
    by (simp add: exact_trade_def demo_trade_def)
  moreover have "demo_digest \<noteq> ''x''"
  proof
    assume "demo_digest = ''x''"
    then have "length demo_digest = length ''x''" by (rule arg_cong)
    then show False by (simp add: demo_digest_def)
  qed
  ultimately show ?thesis
    using published_identity_not_forgotten [OF demo_durable_run demo_l0_fresh _ demo_durable_publish(2), of "demo_trade 100"] by simp
qed

end
