(* ===== verification/Depth_Frontier.thy ===== *)
theory Depth_Frontier
  imports Lanes Rust_Prelude
begin

text \<open>
  The depth side of the live arbiter, \<open>src/rust/lob-replay/src/live_arbitration.rs\<close> (lines
  827-955): classification of a frame against the canonical next update id, trimming of the pending
  queue, geometric coverage by a sibling window, and the switch decision.
\<close>

datatype depth_frontier_disposition =
    Contiguous
  | Missing nat nat
  | Straddle nat nat nat
  | Covered nat nat

definition classify_depth_frontier :: "nat option \<Rightarrow> nat \<Rightarrow> nat \<Rightarrow> depth_frontier_disposition res" where
  "classify_depth_frontier expected first_id final_id =
     (if first_id = 0 \<or> final_id < first_id
      then Err (Fail ''depth observation carries an invalid update-ID range'')
      else case expected of
        None \<Rightarrow> Ok (Straddle 0 first_id final_id)
      | Some e \<Rightarrow>
          if first_id = e then Ok Contiguous
          else if e < first_id then Ok (Missing e first_id)
          else if e \<le> final_id then Ok (Straddle e first_id final_id)
          else Ok (Covered e final_id))"

fun trim_pending_depth :: "canonical_observation list \<Rightarrow> nat \<Rightarrow> canonical_observation list" where
  "trim_pending_depth [] canonical_final = []"
| "trim_pending_depth (obs # pending) canonical_final =
     (if co_final_sequence obs \<le> canonical_final then trim_pending_depth pending canonical_final
      else obs # pending)"

datatype depth_window_coverage = Covers | Behind | MissingWindow

definition evaluate_depth_window_coverage :: "nat \<Rightarrow> nat \<Rightarrow> nat \<Rightarrow> depth_window_coverage res" where
  "evaluate_depth_window_coverage canonical_next sibling_first sibling_final =
     (if sibling_first = 0 \<or> sibling_final < sibling_first \<or> sibling_final = 0
      then Err (Fail ''sibling depth window carries an invalid update-ID range'')
      else if canonical_next = 0 then Err (Fail ''canonical next-expected update ID is not initialized'')
      else if sibling_final < canonical_next then Ok Behind
      else if canonical_next < sibling_first then Ok MissingWindow
      else Ok Covers)"

datatype depth_switch_outcome = ProvenSwitch | GapRequired

definition decide_depth_switch :: "depth_window_coverage \<Rightarrow> bool \<Rightarrow> depth_switch_outcome" where
  "decide_depth_switch coverage digests_converge =
     (if coverage = Covers \<and> digests_converge then ProvenSwitch else GapRequired)"

section \<open>Theorems\<close>

text \<open>The update ids a frame carries.\<close>

definition update_ids :: "nat \<Rightarrow> nat \<Rightarrow> nat set" where
  "update_ids first_id final_id = {first_id..final_id}"

lemma trim_pending_suffix:
  "\<exists>dropped. pending = dropped @ trim_pending_depth pending c \<and> (\<forall>obs\<in>set dropped. co_final_sequence obs \<le> c)"
proof (induction pending)
  case (Cons obs pending)
  then obtain d where d: "pending = d @ trim_pending_depth pending c" "\<forall>obs\<in>set d. co_final_sequence obs \<le> c" by blast
  show ?case
  proof (cases "co_final_sequence obs \<le> c")
    case True
    then show ?thesis using d by (intro exI [of _ "obs # d"]) auto
  qed simp
qed simp

text \<open>
  The frontier classes are exact: for a well-formed frame and a known canonical cursor, the
  class says precisely how the frame's update ids lie with respect to the next expected one.
\<close>

theorem depth_frontier_exact:
  assumes "0 < first_id" "first_id \<le> final_id"
  shows "\<exists>d. classify_depth_frontier (Some e) first_id final_id = Ok d
    \<and> (d = Contiguous \<longleftrightarrow> e = Min (update_ids first_id final_id))
    \<and> ((\<exists>a b. d = Missing a b) \<longleftrightarrow> (\<forall>i\<in>update_ids first_id final_id. e < i))
    \<and> ((\<exists>a b c. d = Straddle a b c) \<longleftrightarrow> e \<in> update_ids first_id final_id \<and> e \<noteq> first_id)
    \<and> ((\<exists>a b. d = Covered a b) \<longleftrightarrow> (\<forall>i\<in>update_ids first_id final_id. i < e))"
proof -
  have m: "Min {first_id..final_id} = first_id" using assms(2) by (intro Min_eqI) auto
  have a: "(\<forall>i\<in>{first_id..final_id}. e < i) \<longleftrightarrow> e < first_id" using assms(2) by auto
  have b: "(\<forall>i\<in>{first_id..final_id}. i < e) \<longleftrightarrow> final_id < e" using assms(2) by auto
  show ?thesis
    unfolding update_ids_def m a b using assms
    by (cases "first_id = e"; cases "e < first_id"; cases "e \<le> final_id")
      (auto simp: classify_depth_frontier_def)
qed

text \<open>
  A lane switch is proven only when the sibling's window holds the next canonical update id and
  the reconstructed books agree; in every other case the decision is a gap.
\<close>

theorem depth_switch_sound:
  assumes "evaluate_depth_window_coverage nxt f l = Ok c"
  shows "decide_depth_switch c converge = ProvenSwitch \<longleftrightarrow> nxt \<in> update_ids f l \<and> converge"
  using assms by (auto simp: evaluate_depth_window_coverage_def decide_depth_switch_def update_ids_def split: if_splits)

text \<open>
  Trimming the pending queue drops a prefix of already covered frames and nothing else: every
  frame that carries an id beyond the canonical position stays, in order, and in a queue in venue
  order no covered frame is left.
\<close>

theorem trim_keeps_unpublished:
  "(\<exists>dropped. pending = dropped @ trim_pending_depth pending c \<and> (\<forall>obs\<in>set dropped. co_final_sequence obs \<le> c))
    \<and> filter (\<lambda>obs. c < co_final_sequence obs) (trim_pending_depth pending c)
        = filter (\<lambda>obs. c < co_final_sequence obs) pending
    \<and> (sorted (map co_final_sequence pending) \<longrightarrow> (\<forall>obs\<in>set (trim_pending_depth pending c). c < co_final_sequence obs))"
proof -
  have "filter (\<lambda>obs. c < co_final_sequence obs) (trim_pending_depth pending c)
      = filter (\<lambda>obs. c < co_final_sequence obs) pending"
    by (induction pending) auto
  moreover have "sorted (map co_final_sequence pending) \<Longrightarrow> \<forall>obs\<in>set (trim_pending_depth pending c). c < co_final_sequence obs"
    by (induction pending) (auto simp: not_le intro: less_le_trans)
  ultimately show ?thesis using trim_pending_suffix [of pending c] by blast
qed

text \<open>Witnesses.\<close>

theorem depth_frontier_exact_witness:
  "classify_depth_frontier (Some 7) 5 9 = Ok (Straddle 7 5 9) \<and> 7 \<in> update_ids 5 9"
  using depth_frontier_exact [of 5 9 7] by (auto simp: classify_depth_frontier_def update_ids_def)

theorem depth_switch_sound_witness:
  "evaluate_depth_window_coverage 7 5 9 = Ok Covers \<and> decide_depth_switch Covers True = ProvenSwitch"
proof -
  have c: "evaluate_depth_window_coverage 7 5 9 = Ok Covers" by (simp add: evaluate_depth_window_coverage_def)
  then show ?thesis using depth_switch_sound [OF c, of True] by (simp add: update_ids_def)
qed

definition demo_depth_obs :: "nat \<Rightarrow> canonical_observation" where
  "demo_depth_obs n = \<lparr>co_symbol = ''BTCUSDT'', co_stream_kind = Depth, co_stream = ''depth'', co_connection_epoch = ''e'',
     co_frame_index = n, co_first_sequence = n, co_final_sequence = n, co_record_sha256 = ''r'', co_observation_sha256 = ''o''\<rparr>"

theorem trim_keeps_unpublished_witness:
  "trim_pending_depth [demo_depth_obs 3, demo_depth_obs 5] 4 = [demo_depth_obs 5] \<and> 4 < co_final_sequence (demo_depth_obs 5)"
  using trim_keeps_unpublished [of "[demo_depth_obs 3, demo_depth_obs 5]" 4] by (simp add: demo_depth_obs_def)

end
