(* ===== verification/Byte_Lines.thy ===== *)
theory Byte_Lines
  imports Rust_Prelude
begin

text \<open>
  Files of lines: bytes in which every line ends with a line feed, and what follows the last one. The JSONL
  journals of the crate are read line by line or in chunks that cut lines anywhere.
\<close>

definition newline :: byte where "newline = 10"

definition lines_bytes :: "bytes list \<Rightarrow> bytes" where
  "lines_bytes ls = concat (map (\<lambda>l. l @ [newline]) ls)"

lemma lines_bytes_simps [simp]:
  "lines_bytes [] = []" "lines_bytes (l # ls) = l @ newline # lines_bytes ls" "lines_bytes (ls @ ms) = lines_bytes ls @ lines_bytes ms"
  by (simp_all add: lines_bytes_def)

text \<open>A cut file is some complete lines and a piece of the next line.\<close>

lemma take_lines_bytes:
  assumes "\<forall>l\<in>set ls. newline \<notin> set l"
  shows "\<exists>j tail. take n (lines_bytes ls) = lines_bytes (take j ls) @ tail \<and> newline \<notin> set tail"
  using assms
proof (induction ls arbitrary: n)
  case Nil
  then show ?case by (intro exI [of _ 0] exI [of _ "[]"]) (simp add: lines_bytes_def)
next
  case (Cons l ls)
  show ?case
  proof (cases "n \<le> length l")
    case True
    then have "take n (lines_bytes (l # ls)) = lines_bytes (take 0 (l # ls)) @ take n l" by (simp add: lines_bytes_def)
    moreover have "newline \<notin> set (take n l)" using Cons.prems by (auto dest: in_set_takeD)
    ultimately show ?thesis by blast
  next
    case False
    then obtain m where m: "n = length l + 1 + m" by (metis Suc_eq_plus1 add.commute add_Suc le_Suc_ex not_less_eq_eq)
    obtain j tail where j: "take m (lines_bytes ls) = lines_bytes (take j ls) @ tail" "newline \<notin> set tail"
      using Cons.IH [of m] Cons.prems by auto
    have "take n (lines_bytes (l # ls)) = lines_bytes (take (Suc j) (l # ls)) @ tail"
      using j(1) by (simp add: lines_bytes_def m)
    then show ?thesis using j(2) by blast
  qed
qed

text \<open>A file split in two: the first part ends in a piece of the line the second part goes on with.\<close>

lemma lines_split:
  assumes "lines_bytes ls @ tail = b1 @ b2" "\<forall>l\<in>set ls. newline \<notin> set l" "newline \<notin> set tail"
  shows "\<exists>ls1 ls2 t. ls = ls1 @ ls2 \<and> b1 = lines_bytes ls1 @ t \<and> newline \<notin> set t \<and> t @ b2 = lines_bytes ls2 @ tail"
  using assms
proof (induction ls arbitrary: b1)
  case Nil
  then show ?case by (intro exI [of _ "[]"] exI [of _ b1]) auto
next
  case (Cons l ls)
  show ?case
  proof (cases "length b1 \<le> length l")
    case True
    then have t: "b1 = take (length b1) l" using arg_cong [OF Cons.prems(1), of "take (length b1)"] by simp
    then have "newline \<notin> set b1" using Cons.prems(2) by (metis in_set_takeD list.set_intros(1))
    then show ?thesis using Cons.prems(1) by (intro exI [of _ "[]"] exI [of _ "l # ls"] exI [of _ b1]) simp
  next
    case False
    have "take (length l + 1) b1 = l @ [newline]"
      using arg_cong [OF Cons.prems(1), of "take (length l + 1)"] False by simp
    then obtain c where c: "b1 = l @ newline # c" by (metis append_Cons append_Nil append_assoc append_take_drop_id)
    then have "lines_bytes ls @ tail = c @ b2" using Cons.prems(1) by simp
    from Cons.IH [OF this] Cons.prems(2,3) obtain ls1 ls2 t where
      "ls = ls1 @ ls2" "c = lines_bytes ls1 @ t" "newline \<notin> set t" "t @ b2 = lines_bytes ls2 @ tail" by auto
    then show ?thesis using c by (intro exI [of _ "l # ls1"] exI [of _ ls2] exI [of _ t]) simp
  qed
qed

lemma piece_length:
  assumes "t @ b2 = lines_bytes ls @ tail" "newline \<notin> set t" "\<forall>l\<in>set ls. length l \<le> m" "length tail \<le> m"
  shows "length t \<le> m"
proof (cases ls)
  case Nil
  then show ?thesis using arg_cong [OF assms(1), of length] assms(4) by simp
next
  case (Cons l ms)
  have "length t \<le> length l"
  proof (rule ccontr)
    assume "\<not> length t \<le> length l"
    then have "t ! length l = newline" "length l < length t"
      using arg_cong [OF assms(1), of "\<lambda>xs. xs ! length l"] Cons by (simp_all add: nth_append)
    then show False using assms(2) by (metis nth_mem)
  qed
  then show ?thesis using assms(3) Cons by auto
qed

lemma take_line: "newline \<notin> set l \<Longrightarrow> takeWhile (\<lambda>b. b \<noteq> newline) (l @ newline # rest) = l"
  by (subst takeWhile_append2) auto

text \<open>The first line of a file that has one.\<close>

lemma first_line:
  assumes "newline \<in> set bs"
  shows "bs = takeWhile (\<lambda>b. b \<noteq> newline) bs @ newline # drop (length (takeWhile (\<lambda>b. b \<noteq> newline) bs) + 1) bs"
proof -
  have ne: "dropWhile (\<lambda>b. b \<noteq> newline) bs \<noteq> []" using assms by (simp add: dropWhile_eq_Nil_conv)
  then have h: "hd (dropWhile (\<lambda>b. b \<noteq> newline) bs) = newline" using hd_dropWhile by blast
  have "bs = takeWhile (\<lambda>b. b \<noteq> newline) bs @ newline # tl (dropWhile (\<lambda>b. b \<noteq> newline) bs)"
    using h ne by (metis list.collapse takeWhile_dropWhile_id)
  moreover have "tl (dropWhile (\<lambda>b. b \<noteq> newline) bs) = drop (length (takeWhile (\<lambda>b. b \<noteq> newline) bs) + 1) bs"
    by (simp add: dropWhile_eq_drop drop_Suc drop_tl)
  ultimately show ?thesis by simp
qed

end
