(* ===== verification/Journal_Audit.thy ===== *)
theory Journal_Audit
  imports Identity_Log Externals BTree_Map Byte_Lines
begin

text \<open>
  The canonical live journal of \<open>src/rust/lob-replay/src/live_arbitration.rs\<close> (lines 957-1850):
  the append-only hash-chained JSONL writer, the audit of one record against the shared audit
  state, the walk of a segment file and of a resume-chained set of files, the strict, incremental,
  tail and recovery scans, and the rebuild of the identity log from a segment. A file is its bytes,
  or nothing when it cannot be opened. The audit state is local to a scan, so a record that is
  refused ends the scan with the error and the state is gone. Its counters count records read from
  files and cannot reach the bound of \<open>u64\<close>; they are natural numbers.
\<close>

section \<open>Records and their encoding\<close>

record 'v journal_body =
  jb_schema :: string
  jb_record_index :: nat
  jb_wall_ns :: nat
  jb_mono_ns :: nat
  jb_channel :: string
  jb_payload :: 'v
  jb_previous_record_sha256 :: string

record 'v journal_envelope =
  je_body :: "'v journal_body"
  je_record_sha256 :: string

text \<open>
  \<open>serde_json::to_vec\<close> on the body and the envelope and \<open>serde_json::from_slice\<close> into the envelope:
  the derived (de)serializers of the two structs, parameters of the model.
\<close>

record 'v journal_codec =
  body_to_vec :: "'v journal_body \<Rightarrow> bytes option"
  envelope_to_vec :: "'v journal_envelope \<Rightarrow> bytes option"
  envelope_from_slice :: "bytes \<Rightarrow> 'v journal_envelope option"

definition JOURNAL_SCHEMA :: string where "JOURNAL_SCHEMA = ''LiveArbitrationJournalRecordV1''"
definition JOURNAL_MAX_RECORD_BYTES :: nat where "JOURNAL_MAX_RECORD_BYTES = 1024 * 1024"

section \<open>The writer\<close>

record journal_writer =
  jw_file :: sink
  jw_next_index :: nat
  jw_previous :: string

text \<open>\<open>create_new\<close> on a path that did not exist; \<open>plan\<close> scripts the writes of the new file.\<close>

definition journal_create :: "io_outcome list \<Rightarrow> journal_writer" where
  "journal_create plan = \<lparr>jw_file = \<lparr>sk_data = [], sk_synced = 0, sk_plan = plan\<rparr>, jw_next_index = 0,
     jw_previous = ZERO_DIGEST\<rparr>"

definition next_envelope ::
  "'v externals \<Rightarrow> 'v journal_codec \<Rightarrow> journal_writer \<Rightarrow> nat \<Rightarrow> nat \<Rightarrow> string \<Rightarrow> 'v \<Rightarrow> 'v journal_envelope res" where
  "next_envelope E C w wall_ns mono_ns channel payload =
     (let body = \<lparr>jb_schema = JOURNAL_SCHEMA, jb_record_index = jw_next_index w, jb_wall_ns = wall_ns,
                  jb_mono_ns = mono_ns, jb_channel = channel, jb_payload = payload,
                  jb_previous_record_sha256 = jw_previous w\<rparr>
      in rbind (ok_or (Fail ''serialize arbitration journal body'') (body_to_vec C body)) (\<lambda>bs.
           Ok \<lparr>je_body = body, je_record_sha256 = sha256_hex E bs\<rparr>))"

definition journal_append ::
  "'v externals \<Rightarrow> 'v journal_codec \<Rightarrow> nat res \<Rightarrow> journal_writer \<Rightarrow> nat \<Rightarrow> string \<Rightarrow> 'v
     \<Rightarrow> string res \<times> journal_writer" where
  "journal_append E C unix_ns w mono_ns channel payload =
     (case rbind unix_ns (\<lambda>wall. rbind (next_envelope E C w wall mono_ns channel payload) (\<lambda>env.
             rbind (ok_or (Fail ''serialize arbitration journal record'') (envelope_to_vec C env)) (\<lambda>bs.
             Ok (env, bs @ [newline])))) of
        Inl e \<Rightarrow> (Err e, w)
      | Inr (env, bs) \<Rightarrow>
          (case sink_write_all bs (jw_file w) of
             (False, s1) \<Rightarrow> (Err (Fail ''sync arbitration journal''), w\<lparr>jw_file := s1\<rparr>)
           | (True, s1) \<Rightarrow>
               (case sink_sync s1 of
                  (False, s2) \<Rightarrow> (Err (Fail ''sync arbitration journal''), w\<lparr>jw_file := s2\<rparr>)
                | (True, s2) \<Rightarrow>
                    (case checked_add (jw_next_index w) 1 of
                       None \<Rightarrow> (Err (Fail ''arbitration journal index overflow''), w\<lparr>jw_file := s2\<rparr>)
                     | Some n \<Rightarrow>
                         (Ok (je_record_sha256 env),
                          w\<lparr>jw_file := s2, jw_next_index := n, jw_previous := je_record_sha256 env\<rparr>)))))"

section \<open>The audit state\<close>

record live_arbitration_scan =
  ls_records :: nat
  ls_observations :: nat
  ls_trades :: nat
  ls_depth_frames :: nat
  ls_gaps :: nat
  ls_late_corrections :: nat
  ls_rebootstrap :: nat
  ls_status_records :: nat
  ls_last_record_sha256 :: string
  ls_last_trade_id :: "nat option"
  ls_last_depth_sequence :: "nat option"
  ls_published_trades :: nat
  ls_trade_floor :: "nat option"
  ls_symbol :: "string option"
  ls_segments :: nat
  ls_terminal_seen :: bool

record audit_state =
  as_previous :: string
  as_observations :: nat
  as_trades :: nat
  as_depth_frames :: nat
  as_gaps :: nat
  as_late_corrections :: nat
  as_rebootstrap :: nat
  as_status_records :: nat
  as_records :: nat
  as_last_trade_id :: "nat option"
  as_last_depth_sequence :: "nat option"
  as_exact_next_depth :: "nat option"
  as_published :: "(nat \<times> string) list"
  as_corrected :: "(nat \<times> string) list"
  as_started_seen :: bool
  as_terminal_seen :: bool
  as_trade_floor :: "nat option"
  as_symbol :: "string option"
  as_segments :: nat
  as_last_segment_sha :: "string option"
  as_last_segment_tail :: nat
  as_preset_context :: bool
  as_tail_depth_seeded :: bool

definition audit_default :: audit_state where
  "audit_default = \<lparr>as_previous = [], as_observations = 0, as_trades = 0, as_depth_frames = 0, as_gaps = 0,
     as_late_corrections = 0, as_rebootstrap = 0, as_status_records = 0, as_records = 0, as_last_trade_id = None,
     as_last_depth_sequence = None, as_exact_next_depth = None, as_published = [], as_corrected = [],
     as_started_seen = False, as_terminal_seen = False, as_trade_floor = None, as_symbol = None, as_segments = 0,
     as_last_segment_sha = None, as_last_segment_tail = 0, as_preset_context = False, as_tail_depth_seeded = False\<rparr>"

section \<open>One record\<close>

definition payload_hex64 :: "'v externals \<Rightarrow> 'v \<Rightarrow> string \<Rightarrow> string \<Rightarrow> string res" where
  "payload_hex64 E payload field_name record_name =
     rbind (ok_or (FailS ''lacks field'' [record_name, field_name]) (field_str E payload field_name)) (\<lambda>v.
       if length v \<noteq> 64 \<or> \<not> list_all is_ascii_hexdigit v
       then Err (FailS ''carries a non-hex-SHA-256 field'' [record_name, field_name])
       else Ok v)"

definition opt_max :: "nat option \<Rightarrow> nat option \<Rightarrow> nat" where
  "opt_max a b = max (case a of None \<Rightarrow> 0 | Some x \<Rightarrow> x) (case b of None \<Rightarrow> 0 | Some x \<Rightarrow> x)"

definition audit_started :: "'v externals \<Rightarrow> audit_state \<Rightarrow> 'v \<Rightarrow> bool \<Rightarrow> audit_state res" where
  "audit_started E st payload first_of_file =
     rbind (check (first_of_file \<and> as_segments st = 0)
              (Fail ''arbitration journal does not begin with ARBITRATION_STARTED'')) (\<lambda>_.
     rbind (ok_or (Fail ''ARBITRATION_STARTED lacks its symbol'') (field_str E payload ''symbol'')) (\<lambda>symbol.
     Ok (st\<lparr>as_symbol := Some symbol, as_trade_floor := field_u64 E payload ''trade_floor'',
            as_started_seen := True\<rparr>)))"

definition audit_resumed :: "'v externals \<Rightarrow> audit_state \<Rightarrow> 'v \<Rightarrow> bool \<Rightarrow> audit_state res" where
  "audit_resumed E st payload first_of_file =
     rbind (check (first_of_file \<and> as_segments st \<noteq> 0)
              (Fail ''ARBITRATION_RESUMED must open a later journal segment'')) (\<lambda>_.
     rbind (check (as_started_seen st) (Fail ''ARBITRATION_RESUMED lacks its ARBITRATION_STARTED segment'')) (\<lambda>_.
     rbind (ok_or (Fail ''ARBITRATION_RESUMED lacks its symbol'') (field_str E payload ''symbol'')) (\<lambda>symbol.
     rbind (check (as_preset_context st \<or> as_symbol st = Some symbol)
              (Fail ''ARBITRATION_RESUMED changes the journal symbol'')) (\<lambda>_.
     let st1 = (if as_preset_context st then st\<lparr>as_symbol := Some symbol\<rparr> else st) in
     rbind (payload_hex64 E payload ''previous_journal_sha256'' ''ARBITRATION_RESUMED'') (\<lambda>previous.
     rbind (ok_or (Fail ''ARBITRATION_RESUMED has no previous segment to chain'') (as_last_segment_sha st1)) (\<lambda>chained.
     rbind (check (previous = chained)
              (FailS ''ARBITRATION_RESUMED does not chain the previous journal segment'' [previous, chained])) (\<lambda>_.
     rbind (ok_or (Fail ''ARBITRATION_RESUMED lacks its trade_floor'') (field_u64 E payload ''trade_floor'')) (\<lambda>flr.
     rbind (check (flr = opt_max (as_trade_floor st1) (as_last_trade_id st1))
              (FailN ''ARBITRATION_RESUMED trade floor'' [flr])) (\<lambda>_.
     rbind (check (field_str E payload ''mode'' \<noteq> None) (Fail ''ARBITRATION_RESUMED lacks its mode'')) (\<lambda>_.
     let tail = (case field_u64 E payload ''previous_tail_bytes'' of None \<Rightarrow> 0 | Some n \<Rightarrow> n) in
     rbind (check (as_preset_context st1 \<or> tail = as_last_segment_tail st1)
              (FailN ''ARBITRATION_RESUMED previous_tail_bytes'' [tail, as_last_segment_tail st1])) (\<lambda>_.
     Ok (if as_preset_context st1 then st1\<lparr>as_last_segment_tail := tail\<rparr> else st1))))))))))))"

definition audit_terminal :: "'v externals \<Rightarrow> audit_state \<Rightarrow> 'v \<Rightarrow> audit_state res" where
  "audit_terminal E st payload =
     rbind (check (as_started_seen st) (Fail ''arbitration journal has no ARBITRATION_STARTED'')) (\<lambda>_.
     rbind (ok_or (Fail ''ARBITRATION_TERMINAL lacks its status'') (field_str E payload ''status'')) (\<lambda>status.
     rbind (check (status = ''COMPLETE'') (FailS ''arbitration journal terminal status is not COMPLETE'' [status])) (\<lambda>_.
     rbind (check (as_preset_context st
                   \<or> (field_u64 E payload ''trades'' = Some (as_trades st)
                      \<and> field_u64 E payload ''depth_frames'' = Some (as_depth_frames st)
                      \<and> field_u64 E payload ''gaps'' = Some (as_gaps st)
                      \<and> field_u64 E payload ''late_corrections'' = Some (as_late_corrections st)))
              (FailN ''arbitration journal terminal counters do not match the audit''
                 [as_trades st, as_depth_frames st, as_gaps st, as_late_corrections st])) (\<lambda>_.
     Ok (st\<lparr>as_terminal_seen := True\<rparr>)))))"

definition audit_trade :: "'v externals \<Rightarrow> audit_state \<Rightarrow> 'v \<Rightarrow> audit_state res" where
  "audit_trade E st payload =
     rbind (ok_or (Fail ''trade observation lacks an exact trade ID'') (field_u64 E payload ''trade_id'')) (\<lambda>tid.
     rbind (payload_hex64 E payload ''observation_sha256'' ''trade observation'') (\<lambda>sha.
     rbind (payload_hex64 E payload ''record_sha256'' ''trade observation'') (\<lambda>_.
     rbind (check (\<not> id_regressed (as_last_trade_id st) tid)
              (Fail ''arbitration journal trade IDs are not strictly increasing'')) (\<lambda>_.
     rbind (check (\<not> id_regressed (as_trade_floor st) tid)
              (Fail ''arbitration journal publishes a trade at or below its declared floor'')) (\<lambda>_.
     Ok (st\<lparr>as_last_trade_id := Some tid, as_published := bt_insert (<) tid sha (as_published st),
            as_trades := as_trades st + 1, as_observations := as_observations st + 1\<rparr>))))))"

definition audit_correction :: "'v externals \<Rightarrow> audit_state \<Rightarrow> 'v \<Rightarrow> audit_state res" where
  "audit_correction E st payload =
     rbind (ok_or (Fail ''trade late correction lacks an exact trade ID'') (field_u64 E payload ''trade_id'')) (\<lambda>tid.
     rbind (check (id_regressed (as_last_trade_id st) tid)
              (Fail ''trade late correction is not below the canonical position'')) (\<lambda>_.
     rbind (check (as_preset_context st \<or> \<not> id_regressed (as_trade_floor st) tid)
              (Fail ''trade late correction is at or below the startup floor'')) (\<lambda>_.
     rbind (payload_hex64 E payload ''observation_sha256'' ''trade late correction'') (\<lambda>sha.
     rbind (let known = (case bt_get (<) tid (as_published st) of
                           Some d \<Rightarrow> Some d | None \<Rightarrow> bt_get (<) tid (as_corrected st))
            in if field_str E payload ''kind'' = Some ''duplicate'' then
                 (case known of
                    Some d \<Rightarrow>
                      if d = sha then Ok st
                      else Err (Fail ''trade late correction kind=duplicate contradicts the published identity'')
                  | None \<Rightarrow> Err (Fail ''trade late correction kind=duplicate references an unpublished identity''))
               else if field_str E payload ''kind'' = Some ''unknown'' then
                 (if known \<noteq> None
                  then Err (Fail ''trade late correction kind=unknown contradicts the published identity'')
                  else Ok (st\<lparr>as_corrected := bt_insert (<) tid sha (as_corrected st)\<rparr>))
               else Err (Fail ''trade late correction lacks its classification'')) (\<lambda>st1.
     Ok (st1\<lparr>as_late_corrections := as_late_corrections st1 + 1\<rparr>))))))"

definition audit_depth :: "'v externals \<Rightarrow> audit_state \<Rightarrow> 'v \<Rightarrow> audit_state res" where
  "audit_depth E st payload =
     rbind (ok_or (Fail ''depth observation lacks first_sequence'') (field_u64 E payload ''first_sequence'')) (\<lambda>fst_seq.
     rbind (ok_or (Fail ''depth observation lacks final_sequence'') (field_u64 E payload ''final_sequence'')) (\<lambda>fin_seq.
     rbind (check (fst_seq \<noteq> 0 \<and> fst_seq \<le> fin_seq) (Fail ''arbitration journal depth range is invalid'')) (\<lambda>_.
     rbind (ok_or (Fail ''depth observation lacks its lane'') (field_str E payload ''lane'')) (\<lambda>_.
     rbind (payload_hex64 E payload ''observation_sha256'' ''depth observation'') (\<lambda>_.
     rbind (payload_hex64 E payload ''record_sha256'' ''depth observation'') (\<lambda>_.
     rbind (case as_exact_next_depth st of
              Some expected \<Rightarrow>
                check (fst_seq = expected) (Fail ''arbitration journal depth ranges are not exactly contiguous'')
            | None \<Rightarrow>
                check (\<not> ((\<not> as_preset_context st \<or> as_tail_depth_seeded st)
                         \<and> id_regressed (as_last_depth_sequence st) fst_seq))
                  (Fail ''arbitration journal depth ranges regress outside a typed gap'')) (\<lambda>_.
     Ok (st\<lparr>as_tail_depth_seeded := True, as_exact_next_depth := Some (saturating_add fin_seq 1),
            as_last_depth_sequence := Some fin_seq, as_depth_frames := as_depth_frames st + 1,
            as_observations := as_observations st + 1\<rparr>))))))))"

definition audit_gap :: "'v externals \<Rightarrow> audit_state \<Rightarrow> 'v \<Rightarrow> audit_state res" where
  "audit_gap E st payload =
     rbind (ok_or (Fail ''arbitration gap lacks its canonical boundary'')
              (field_u64 E payload ''canonical_last_sequence'')) (\<lambda>declared.
     rbind (check (as_preset_context st
                   \<or> declared = (case as_last_depth_sequence st of None \<Rightarrow> 0 | Some n \<Rightarrow> n))
              (FailN ''arbitration gap boundary does not equal the canonical cursor'' [declared])) (\<lambda>_.
     let st1 = (if as_preset_context st
                then st\<lparr>as_last_depth_sequence := Some declared, as_tail_depth_seeded := False\<rparr> else st)
     in Ok (st1\<lparr>as_exact_next_depth := None, as_gaps := as_gaps st1 + 1\<rparr>)))"

definition audit_rebootstrap :: "'v externals \<Rightarrow> audit_state \<Rightarrow> 'v \<Rightarrow> audit_state res" where
  "audit_rebootstrap E st payload =
     rbind (check (as_gaps st \<noteq> 0 \<and> as_exact_next_depth st = None)
              (Fail ''DEPTH_REBOOTSTRAP must follow a typed gap'')) (\<lambda>_.
     rbind (check (list_all (\<lambda>f. json_get E payload f \<noteq> None)
                     [''generation'', ''snapshot_record_sha256'', ''snapshot_last_update_id''])
              (Fail ''DEPTH_REBOOTSTRAP lacks a field'')) (\<lambda>_.
     Ok (st\<lparr>as_rebootstrap := as_rebootstrap st + 1, as_status_records := as_status_records st + 1\<rparr>)))"

definition audit_status :: "'v externals \<Rightarrow> audit_state \<Rightarrow> 'v \<Rightarrow> string \<Rightarrow> error \<Rightarrow> audit_state res" where
  "audit_status E st payload needed e =
     rbind (check (needed = [] \<or> field_u64 E payload needed \<noteq> None) e) (\<lambda>_.
     Ok (st\<lparr>as_status_records := as_status_records st + 1\<rparr>))"

text \<open>The \<open>match event\<close>.\<close>

definition audit_event :: "'v externals \<Rightarrow> audit_state \<Rightarrow> 'v \<Rightarrow> bool \<Rightarrow> string \<Rightarrow> audit_state res" where
  "audit_event E st payload first_of_file event =
     (if event = ''ARBITRATION_STARTED'' then audit_started E st payload first_of_file
      else if event = ''ARBITRATION_RESUMED'' then audit_resumed E st payload first_of_file
      else if event = ''ARBITRATION_TERMINAL'' then audit_terminal E st payload
      else if event = ''TRADE_OBSERVATION'' then audit_trade E st payload
      else if event = ''TRADE_LATE_CORRECTION'' then audit_correction E st payload
      else if event = ''TRADE_LAG'' then
        audit_status E st payload ''buffered'' (Fail ''TRADE_LAG lacks its buffered count'')
      else if event = ''TRADE_CONFLICT'' then
        audit_status E st payload ''trade_id'' (Fail ''TRADE_CONFLICT lacks its trade ID'')
      else if event = ''DEPTH_OBSERVATION'' then audit_depth E st payload
      else if event = ''GAP'' then audit_gap E st payload
      else if event = ''DEPTH_REBOOTSTRAP'' then audit_rebootstrap E st payload
      else if event = ''DEPTH_SWITCH_PROVEN'' then audit_status E st payload [] (Fail [])
      else Err (FailS ''arbitration journal carries an unknown event'' [event]))"

definition apply_audit_record ::
  "'v externals \<Rightarrow> 'v journal_codec \<Rightarrow> audit_state \<Rightarrow> 'v journal_envelope \<Rightarrow> nat \<Rightarrow> bool \<Rightarrow> audit_state res" where
  "apply_audit_record E C st env file_index first_of_file =
     rbind (ok_or (Fail ''serialize scanned arbitration journal body'') (body_to_vec C (je_body env))) (\<lambda>body_bytes.
     let digest = sha256_hex E body_bytes; body = je_body env in
     rbind (check (jb_schema body = JOURNAL_SCHEMA \<and> jb_record_index body = file_index
                   \<and> jb_channel body = ''LIVE'' \<and> jb_previous_record_sha256 body = as_previous st
                   \<and> je_record_sha256 env = digest)
              (Fail ''arbitration journal hash chain is invalid'')) (\<lambda>_.
     rbind (check (\<not> as_terminal_seen st) (Fail ''arbitration journal carries records after its terminal'')) (\<lambda>_.
     rbind (ok_or (Fail ''arbitration journal record lacks an event'') (field_str E (jb_payload body) ''event'')) (\<lambda>event.
     rbind (audit_event E st (jb_payload body) first_of_file event) (\<lambda>st1.
     Ok (st1\<lparr>as_previous := digest, as_records := as_records st1 + 1\<rparr>))))))"

section \<open>Files\<close>

text \<open>\<open>read_until(b'\n')\<close>: the complete lines of a file and what follows the last newline.\<close>

fun split_lines :: "bytes \<Rightarrow> bytes list \<times> bytes" where
  "split_lines [] = ([], [])"
| "split_lines (b # bs) =
     (case split_lines bs of
        (ls, tail) \<Rightarrow>
          if b = newline then ([] # ls, tail)
          else (case ls of [] \<Rightarrow> ([], b # tail) | l # ls' \<Rightarrow> ((b # l) # ls', tail)))"

fun walk_lines ::
  "'v externals \<Rightarrow> 'v journal_codec \<Rightarrow> bytes list \<Rightarrow> nat \<Rightarrow> audit_state \<Rightarrow> (audit_state \<times> nat) res" where
  "walk_lines E C [] file_index st = Ok (st, file_index)"
| "walk_lines E C (l # ls) file_index st =
     (if l = [] then walk_lines E C ls file_index st
      else if JOURNAL_MAX_RECORD_BYTES < length l
      then Err (Fail ''arbitration journal record exceeds its bound'')
      else rbind (ok_or (Fail ''invalid arbitration journal JSON'') (envelope_from_slice C l)) (\<lambda>env.
        rbind (apply_audit_record E C st env file_index (file_index = 0)) (\<lambda>st1.
        walk_lines E C ls (file_index + 1) st1)))"

definition open_segment :: "bool \<Rightarrow> audit_state \<Rightarrow> audit_state" where
  "open_segment preserve_context st =
     (if 0 < as_segments st \<and> \<not> preserve_context then st\<lparr>as_last_segment_sha := Some (as_previous st)\<rparr> else st)
       \<lparr>as_previous := ZERO_DIGEST, as_terminal_seen := False\<rparr>"

definition walk_audit_file_with_context ::
  "'v externals \<Rightarrow> 'v journal_codec \<Rightarrow> bytes option \<Rightarrow> bool \<Rightarrow> audit_state \<Rightarrow> bool \<Rightarrow> bool
     \<Rightarrow> (audit_state \<times> bool \<times> nat) res" where
  "walk_audit_file_with_context E C file incremental st tolerate_tail preserve_context =
     rbind (ok_or (Fail ''open'') file) (\<lambda>data.
     let (ls, tail) = split_lines data in
     rbind (walk_lines E C ls 0 (open_segment preserve_context st)) (\<lambda>(st1, file_index).
     rbind (check (tail = [] \<or> incremental \<or> tolerate_tail)
              (Fail ''arbitration journal ends with a partial tail'')) (\<lambda>_.
     rbind (check (file_index \<noteq> 0) (Fail ''arbitration journal is empty'')) (\<lambda>_.
     Ok (st1\<lparr>as_segments := as_segments st1 + 1, as_last_segment_tail := length tail\<rparr>, tail = [], length tail)))))"

definition walk_audit_file ::
  "'v externals \<Rightarrow> 'v journal_codec \<Rightarrow> bytes option \<Rightarrow> bool \<Rightarrow> audit_state \<Rightarrow> bool
     \<Rightarrow> (audit_state \<times> bool \<times> nat) res" where
  "walk_audit_file E C file incremental st tolerate_tail =
     walk_audit_file_with_context E C file incremental st tolerate_tail False"

definition finish_audit :: "audit_state \<Rightarrow> bool \<Rightarrow> live_arbitration_scan res" where
  "finish_audit st incremental =
     (if \<not> as_started_seen st then Err (Fail ''arbitration journal lacks ARBITRATION_STARTED'')
      else if \<not> incremental \<and> \<not> as_terminal_seen st
      then Err (Fail ''arbitration journal lacks a terminal record'')
      else Ok \<lparr>ls_records = as_records st, ls_observations = as_observations st, ls_trades = as_trades st,
               ls_depth_frames = as_depth_frames st, ls_gaps = as_gaps st,
               ls_late_corrections = as_late_corrections st, ls_rebootstrap = as_rebootstrap st,
               ls_status_records = as_status_records st, ls_last_record_sha256 = as_previous st,
               ls_last_trade_id = as_last_trade_id st, ls_last_depth_sequence = as_last_depth_sequence st,
               ls_published_trades = length (as_published st), ls_trade_floor = as_trade_floor st,
               ls_symbol = as_symbol st, ls_segments = as_segments st, ls_terminal_seen = as_terminal_seen st\<rparr>)"

section \<open>Scans\<close>

definition scan_live_arbitration_journal ::
  "'v externals \<Rightarrow> 'v journal_codec \<Rightarrow> bytes option \<Rightarrow> live_arbitration_scan res" where
  "scan_live_arbitration_journal E C file =
     rbind (walk_audit_file E C file False audit_default False) (\<lambda>(st, clean, tail).
     rbind (check clean (FailN ''arbitration journal ends with a partial tail'' [tail])) (\<lambda>_.
     finish_audit st False))"

definition scan_live_arbitration_journal_incremental ::
  "'v externals \<Rightarrow> 'v journal_codec \<Rightarrow> bytes option \<Rightarrow> (live_arbitration_scan \<times> bool \<times> nat) res" where
  "scan_live_arbitration_journal_incremental E C file =
     rbind (walk_audit_file E C file True audit_default True) (\<lambda>(st, clean, tail).
     rbind (finish_audit st True) (\<lambda>scan. Ok (scan, clean, tail)))"

text \<open>The loop of the set scans; \<open>tolerate\<close> says, from the number of files left, whether a tail is tolerated.\<close>

fun walk_set ::
  "'v externals \<Rightarrow> 'v journal_codec \<Rightarrow> bool \<Rightarrow> (nat \<Rightarrow> bool) \<Rightarrow> bytes option list \<Rightarrow> audit_state
     \<Rightarrow> bool \<times> nat \<Rightarrow> (audit_state \<times> bool \<times> nat) res" where
  "walk_set E C incremental tolerate [] st final_tail = Ok (st, final_tail)"
| "walk_set E C incremental tolerate (f # fs) st final_tail =
     rbind (walk_audit_file E C f incremental st (tolerate (length fs))) (\<lambda>(st1, clean, tail).
     rbind (check (incremental \<or> clean \<or> tolerate (length fs))
              (FailN ''arbitration journal segment ends with a partial tail'' [tail])) (\<lambda>_.
     walk_set E C incremental tolerate fs st1 (clean, tail)))"

definition scan_live_arbitration_journal_set ::
  "'v externals \<Rightarrow> 'v journal_codec \<Rightarrow> bytes option list \<Rightarrow> live_arbitration_scan res" where
  "scan_live_arbitration_journal_set E C files =
     (if files = [] then Err (Fail ''arbitration journal set is empty'')
      else rbind (walk_set E C False (\<lambda>left. 0 < left) files audit_default (True, 0)) (\<lambda>(st, _).
        finish_audit st False))"

definition scan_live_arbitration_journal_set_incremental ::
  "'v externals \<Rightarrow> 'v journal_codec \<Rightarrow> bytes option list \<Rightarrow> (live_arbitration_scan \<times> bool \<times> nat) res" where
  "scan_live_arbitration_journal_set_incremental E C files =
     (if files = [] then Err (Fail ''arbitration journal set is empty'')
      else rbind (walk_set E C True (\<lambda>_. True) files audit_default (True, 0)) (\<lambda>(st, final_tail).
        rbind (finish_audit st True) (\<lambda>scan. Ok (scan, final_tail))))"

definition scan_live_arbitration_journal_set_recovery ::
  "'v externals \<Rightarrow> 'v journal_codec \<Rightarrow> bytes option list \<Rightarrow> live_arbitration_scan res" where
  "scan_live_arbitration_journal_set_recovery E C files =
     (if files = [] then Err (Fail ''arbitration journal set is empty'')
      else rbind (walk_set E C True (\<lambda>left. left = 0) files audit_default (True, 0)) (\<lambda>(st, _).
        finish_audit st True))"

definition tail_context :: "string \<Rightarrow> nat \<Rightarrow> audit_state" where
  "tail_context previous_segment_sha256 trade_floor =
     audit_default\<lparr>as_segments := 1, as_started_seen := True, as_preset_context := True,
       as_last_segment_sha := Some previous_segment_sha256, as_last_trade_id := Some trade_floor,
       as_trade_floor := Some trade_floor\<rparr>"

definition scan_live_arbitration_journal_tail ::
  "'v externals \<Rightarrow> 'v journal_codec \<Rightarrow> bytes option \<Rightarrow> string \<Rightarrow> nat \<Rightarrow> live_arbitration_scan res" where
  "scan_live_arbitration_journal_tail E C file previous_segment_sha256 trade_floor =
     rbind (walk_audit_file_with_context E C file False (tail_context previous_segment_sha256 trade_floor) False True)
       (\<lambda>(st, clean, tail).
     rbind (check clean (FailN ''arbitration journal tail segment ends with a partial tail'' [tail])) (\<lambda>_.
     finish_audit st False))"

definition scan_live_arbitration_journal_tail_incremental ::
  "'v externals \<Rightarrow> 'v journal_codec \<Rightarrow> bytes option \<Rightarrow> string \<Rightarrow> nat \<Rightarrow> (live_arbitration_scan \<times> bool \<times> nat) res" where
  "scan_live_arbitration_journal_tail_incremental E C file previous_segment_sha256 trade_floor =
     rbind (walk_audit_file_with_context E C file True (tail_context previous_segment_sha256 trade_floor) True True)
       (\<lambda>(st, clean, tail). rbind (finish_audit st True) (\<lambda>scan. Ok (scan, clean, tail)))"

definition verify_trade_identity :: "nat list \<Rightarrow> nat list \<Rightarrow> unit res" where
  "verify_trade_identity canonical_ids oracle_ids =
     check (canonical_ids = oracle_ids)
       (FailN ''canonical trade stream differs from the sibling oracle'' [length canonical_ids, length oracle_ids])"

section \<open>Rebuilding the identity log\<close>

text \<open>The line loop of \<open>rebuild_trade_identity_from_journal\<close>; the log is a \<open>&mut\<close> argument.\<close>

fun rebuild_lines ::
  "'v externals \<Rightarrow> 'v journal_codec \<Rightarrow> bytes list \<Rightarrow> identity_log \<Rightarrow> nat \<Rightarrow> nat res \<times> identity_log" where
  "rebuild_lines E C [] log rebuilt = (Ok rebuilt, log)"
| "rebuild_lines E C (l # ls) log rebuilt =
     (if l = [] then rebuild_lines E C ls log rebuilt
      else case envelope_from_slice C l of
        None \<Rightarrow> (Err (Fail ''invalid arbitration journal JSON''), log)
      | Some env \<Rightarrow>
          (let payload = jb_payload (je_body env) in
           case field_str E payload ''event'' of
             None \<Rightarrow> (Err (Fail ''arbitration journal record lacks an event''), log)
           | Some event \<Rightarrow>
               if event \<noteq> ''TRADE_OBSERVATION'' then rebuild_lines E C ls log rebuilt
               else (case field_u64 E payload ''trade_id'' of
                   None \<Rightarrow> (Err (Fail ''trade observation lacks an exact trade ID''), log)
                 | Some tid \<Rightarrow>
                     (case field_str E payload ''observation_sha256'' of
                        None \<Rightarrow> (Err (Fail ''trade observation lacks its observation digest''), log)
                      | Some digest \<Rightarrow>
                          if id_regressed (il_last_id log) tid then rebuild_lines E C ls log rebuilt
                          else (case identity_insert log tid digest of
                              (Inl e, log') \<Rightarrow> (Err e, log')
                            | (Inr _, log') \<Rightarrow> rebuild_lines E C ls log' (rebuilt + 1))))))"

definition rebuild_trade_identity_from_journal ::
  "'v externals \<Rightarrow> 'v journal_codec \<Rightarrow> bytes option \<Rightarrow> identity_log \<Rightarrow> nat res \<times> identity_log" where
  "rebuild_trade_identity_from_journal E C journal log =
     (case journal of
        None \<Rightarrow> (Err (Fail ''open''), log)
      | Some data \<Rightarrow>
          (case rebuild_lines E C (fst (split_lines data)) log 0 of
             (Inl e, log') \<Rightarrow> (Err e, log')
           | (Inr rebuilt, log') \<Rightarrow>
               (case identity_sync log' of
                  (Inl e, log'') \<Rightarrow> (Err e, log'')
                | (Inr _, log'') \<Rightarrow> (Ok rebuilt, log''))))"

end
