(* ===== verification/Journal_Audit_Correct.thy ===== *)
theory Journal_Audit_Correct
  imports Journal_Audit
begin

text \<open>
  What an accepted journal says: the trades and depth ranges of its records as plain lists, the
  reference predicates on them, and the invariant that ties the audit state to the records it has
  read, over one segment and over a resume-chained set.
\<close>

section \<open>The content of a journal\<close>

definition event_of :: "'v externals \<Rightarrow> 'v journal_envelope \<Rightarrow> string option" where
  "event_of E env = field_str E (jb_payload (je_body env)) ''event''"

abbreviation env_u64 :: "'v externals \<Rightarrow> 'v journal_envelope \<Rightarrow> string \<Rightarrow> nat option" where
  "env_u64 E env f \<equiv> field_u64 E (jb_payload (je_body env)) f"

abbreviation env_str :: "'v externals \<Rightarrow> 'v journal_envelope \<Rightarrow> string \<Rightarrow> string option" where
  "env_str E env f \<equiv> field_str E (jb_payload (je_body env)) f"

fun trade_of :: "'v externals \<Rightarrow> 'v journal_envelope \<Rightarrow> (nat \<times> string) list" where
  "trade_of E env =
     (if event_of E env = Some ''TRADE_OBSERVATION'' then
        (case (env_u64 E env ''trade_id'', env_str E env ''observation_sha256'') of
           (Some t, Some d) \<Rightarrow> [(t, d)] | _ \<Rightarrow> [])
      else [])"

fun correction_of :: "'v externals \<Rightarrow> string \<Rightarrow> 'v journal_envelope \<Rightarrow> (nat \<times> string) list" where
  "correction_of E kind env =
     (if event_of E env = Some ''TRADE_LATE_CORRECTION'' \<and> env_str E env ''kind'' = Some kind then
        (case (env_u64 E env ''trade_id'', env_str E env ''observation_sha256'') of
           (Some t, Some d) \<Rightarrow> [(t, d)] | _ \<Rightarrow> [])
      else [])"

datatype depth_item = Range nat nat | GapMark

fun depth_of :: "'v externals \<Rightarrow> 'v journal_envelope \<Rightarrow> depth_item list" where
  "depth_of E env =
     (if event_of E env = Some ''DEPTH_OBSERVATION'' then
        (case (env_u64 E env ''first_sequence'', env_u64 E env ''final_sequence'') of
           (Some a, Some b) \<Rightarrow> [Range a b] | _ \<Rightarrow> [])
      else if event_of E env = Some ''GAP'' then [GapMark] else [])"

definition journal_trades :: "'v externals \<Rightarrow> 'v journal_envelope list \<Rightarrow> (nat \<times> string) list" where
  "journal_trades E envs = concat (map (trade_of E) envs)"

definition journal_corrections :: "'v externals \<Rightarrow> string \<Rightarrow> 'v journal_envelope list \<Rightarrow> (nat \<times> string) list" where
  "journal_corrections E kind envs = concat (map (correction_of E kind) envs)"

definition journal_depth :: "'v externals \<Rightarrow> 'v journal_envelope list \<Rightarrow> depth_item list" where
  "journal_depth E envs = concat (map (depth_of E) envs)"

declare trade_of.simps [simp del] correction_of.simps [simp del] depth_of.simps [simp del]

lemma journal_snoc [simp]:
  "journal_trades E (envs @ [env]) = journal_trades E envs @ trade_of E env"
  "journal_corrections E k (envs @ [env]) = journal_corrections E k envs @ correction_of E k env"
  "journal_depth E (envs @ [env]) = journal_depth E envs @ depth_of E env"
  "journal_trades E [] = []" "journal_corrections E k [] = []" "journal_depth E [] = []"
  by (simp_all add: journal_trades_def journal_corrections_def journal_depth_def)

section \<open>Contiguous depth\<close>

text \<open>
  A range follows the range before it exactly, unless a typed gap stands between them; after a gap
  it starts beyond everything published.
\<close>

fun depth_from :: "nat option \<Rightarrow> bool \<Rightarrow> depth_item list \<Rightarrow> bool" where
  "depth_from lst contiguous [] = True"
| "depth_from lst contiguous (GapMark # items) = depth_from lst False items"
| "depth_from lst contiguous (Range a b # items) =
     (0 < a \<and> a \<le> b
      \<and> (case lst of None \<Rightarrow> True | Some n \<Rightarrow> if contiguous then a = saturating_add n 1 else n < a)
      \<and> depth_from (Some b) True items)"

definition last_range :: "depth_item list \<Rightarrow> nat option" where
  "last_range items = foldl (\<lambda>l i. case i of Range a b \<Rightarrow> Some b | GapMark \<Rightarrow> l) None items"

definition ends_in_range :: "depth_item list \<Rightarrow> bool" where
  "ends_in_range items = (items \<noteq> [] \<and> last items \<noteq> GapMark)"

lemma depth_from_snoc:
  "depth_from lst c (items @ [i]) \<longleftrightarrow> depth_from lst c items \<and>
     depth_from (foldl (\<lambda>l i. case i of Range a b \<Rightarrow> Some b | GapMark \<Rightarrow> l) lst items)
       (if items = [] then c else last items \<noteq> GapMark) [i]"
  by (induction lst c items rule: depth_from.induct) (auto split: depth_item.splits)

lemma last_range_snoc [simp]:
  "last_range [] = None" "last_range (items @ [Range a b]) = Some b" "last_range (items @ [GapMark]) = last_range items"
  by (simp_all add: last_range_def)

lemma depth_from_Range:
  "depth_from None False (items @ [Range a b]) \<longleftrightarrow> depth_from None False items \<and> 0 < a \<and> a \<le> b
     \<and> (case last_range items of None \<Rightarrow> True
        | Some n \<Rightarrow> if ends_in_range items then a = saturating_add n 1 else n < a)"
  by (auto simp: depth_from_snoc last_range_def ends_in_range_def split: option.splits)

lemma depth_from_Gap: "depth_from None False (items @ [GapMark]) \<longleftrightarrow> depth_from None False items"
  by (simp add: depth_from_snoc)

section \<open>The audit invariant\<close>

text \<open>\<open>k\<close> is the index of the next record in the current file.\<close>

definition audit_inv :: "'v externals \<Rightarrow> 'v journal_envelope list \<Rightarrow> nat \<Rightarrow> audit_state \<Rightarrow> bool" where
  "audit_inv E envs k st \<longleftrightarrow>
     \<not> as_preset_context st
     \<and> (as_segments st = 0 \<longrightarrow> length envs = k)
     \<and> (\<not> as_started_seen st \<longrightarrow> as_trade_floor st = None)
     \<and> as_records st = length envs
     \<and> as_published st = journal_trades E envs \<and> sorted_wrt (<) (map fst (journal_trades E envs))
     \<and> as_last_trade_id st = last_id_of (journal_trades E envs)
     \<and> as_trades st = length (journal_trades E envs)
     \<and> (\<forall>e\<in>set (journal_trades E envs). \<not> id_regressed (as_trade_floor st) (fst e))
     \<and> u64_map_wf (as_corrected st) \<and> set (as_corrected st) = set (journal_corrections E ''unknown'' envs)
     \<and> (\<forall>c\<in>set (journal_corrections E ''unknown'' envs).
           id_regressed (last_id_of (journal_trades E envs)) (fst c) \<and> fst c \<notin> fst ` set (journal_trades E envs))
     \<and> set (journal_corrections E ''duplicate'' envs)
         \<subseteq> set (journal_trades E envs) \<union> set (journal_corrections E ''unknown'' envs)
     \<and> depth_from None False (journal_depth E envs)
     \<and> as_last_depth_sequence st = last_range (journal_depth E envs)
     \<and> as_exact_next_depth st = (if ends_in_range (journal_depth E envs)
          then map_option (\<lambda>n. saturating_add n 1) (last_range (journal_depth E envs)) else None)
     \<and> as_depth_frames st = length (filter (\<lambda>i. i \<noteq> GapMark) (journal_depth E envs))
     \<and> as_gaps st = length (filter (\<lambda>i. i = GapMark) (journal_depth E envs))"

lemma audit_inv_start: "audit_inv E [] 0 (open_segment b audit_default)"
  by (simp add: audit_inv_def audit_default_def open_segment_def last_id_of_def ends_in_range_def nat_key.wf_Nil)

text \<open>The fields of the audit state the invariant speaks of, apart from the floor.\<close>

definition audit_core :: "audit_state \<Rightarrow> _" where
  "audit_core st = (as_preset_context st, as_segments st, as_records st, as_published st, as_last_trade_id st,
     as_trades st, as_corrected st, as_last_depth_sequence st, as_exact_next_depth st, as_depth_frames st, as_gaps st)"

definition neutral :: "'v externals \<Rightarrow> 'v journal_envelope \<Rightarrow> bool" where
  "neutral E env \<longleftrightarrow> trade_of E env = [] \<and> depth_of E env = []
     \<and> correction_of E ''unknown'' env = [] \<and> correction_of E ''duplicate'' env = []"

lemma neutralI:
  "event_of E env = Some ev \<Longrightarrow>
     ev \<notin> {''TRADE_OBSERVATION'', ''TRADE_LATE_CORRECTION'', ''DEPTH_OBSERVATION'', ''GAP''} \<Longrightarrow> neutral E env"
  by (simp add: neutral_def trade_of.simps depth_of.simps correction_of.simps)

definition tick :: "string \<Rightarrow> audit_state \<Rightarrow> audit_state" where
  "tick d st = st\<lparr>as_previous := d, as_records := as_records st + 1\<rparr>"

lemma audit_inv_neutral:
  assumes "audit_inv E envs k st" "neutral E env" "audit_core st1 = audit_core st"
    and "as_trade_floor st1 = as_trade_floor st \<and> as_started_seen st1 = as_started_seen st
         \<or> as_started_seen st1 \<and> journal_trades E envs = []"
  shows "audit_inv E (envs @ [env]) (Suc k) (tick d st1)"
proof -
  have f: "as_preset_context st1 = as_preset_context st" "as_segments st1 = as_segments st"
    "as_records st1 = as_records st" "as_published st1 = as_published st"
    "as_last_trade_id st1 = as_last_trade_id st" "as_trades st1 = as_trades st" "as_corrected st1 = as_corrected st"
    "as_last_depth_sequence st1 = as_last_depth_sequence st" "as_exact_next_depth st1 = as_exact_next_depth st"
    "as_depth_frames st1 = as_depth_frames st" "as_gaps st1 = as_gaps st"
    using assms(3) by (simp_all add: audit_core_def)
  have e: "trade_of E env = []" "depth_of E env = []" "correction_of E ''unknown'' env = []"
    "correction_of E ''duplicate'' env = []"
    using assms(2) by (simp_all add: neutral_def)
  have "(\<not> as_started_seen st1 \<longrightarrow> as_trade_floor st1 = None)
      \<and> (\<forall>e\<in>set (journal_trades E envs). \<not> id_regressed (as_trade_floor st1) (fst e))"
    using assms(1,4) unfolding audit_inv_def by auto
  then show ?thesis using assms(1) unfolding audit_inv_def tick_def by (simp add: f e)
qed

lemma payload_hex64_Ok: "payload_hex64 E p f r = Ok v \<Longrightarrow> field_str E p f = Some v"
  by (auto simp: payload_hex64_def split: if_splits)

lemma audit_trade_inv:
  assumes "audit_inv E envs k st" "event_of E env = Some ''TRADE_OBSERVATION''"
    and "audit_trade E st (jb_payload (je_body env)) = Ok st1"
  shows "audit_inv E (envs @ [env]) (Suc k) (tick d st1)"
proof -
  obtain t sha where t: "env_u64 E env ''trade_id'' = Some t" "env_str E env ''observation_sha256'' = Some sha"
    "\<not> id_regressed (as_last_trade_id st) t" "\<not> id_regressed (as_trade_floor st) t"
    and st1: "st1 = st\<lparr>as_last_trade_id := Some t, as_published := bt_insert (<) t sha (as_published st),
            as_trades := as_trades st + 1, as_observations := as_observations st + 1\<rparr>"
    using assms(3) by (auto simp: audit_trade_def dest: payload_hex64_Ok)
  have p: "trade_of E env = [(t, sha)]" "depth_of E env = []"
    "correction_of E ''unknown'' env = []" "correction_of E ''duplicate'' env = []"
    using assms(2) t by (simp_all add: trade_of.simps depth_of.simps correction_of.simps)
  let ?T = "journal_trades E envs"
  have T: "as_published st = ?T" "sorted_wrt (<) (map fst ?T)" "as_last_trade_id st = last_id_of ?T"
    using assms(1) by (simp_all add: audit_inv_def)
  have lt: "fst e < t" if "e \<in> set ?T" for e
    using last_id_regressed [OF T(2) _ that] t(3) T(3) by simp
  then have "\<forall>a\<in>fst ` set ?T. a < t \<and> \<not> t < a" by fastforce
  then have ins: "bt_insert (<) t sha ?T = ?T @ [(t, sha)]" by (rule nat_key.insert_above)
  have unk: "\<forall>c\<in>set (journal_corrections E ''unknown'' envs).
      id_regressed (Some t) (fst c) \<and> fst c \<notin> fst ` set (?T @ [(t, sha)])"
  proof
    fix c
    assume "c \<in> set (journal_corrections E ''unknown'' envs)"
    then have c: "id_regressed (last_id_of ?T) (fst c)" "fst c \<notin> fst ` set ?T"
      using assms(1) unfolding audit_inv_def by blast+
    then have "fst c \<noteq> t" "id_regressed (Some t) (fst c)"
      using t(3) T(3) by (auto simp: id_regressed_def split: option.splits)
    then show "id_regressed (Some t) (fst c) \<and> fst c \<notin> fst ` set (?T @ [(t, sha)])" using c(2) by auto
  qed
  have flo: "\<forall>e\<in>set (?T @ [(t, sha)]). \<not> id_regressed (as_trade_floor st) (fst e)"
    using assms(1) t(4) unfolding audit_inv_def by auto
  have so: "sorted_wrt (<) (map fst (?T @ [(t, sha)]))" using T(2) lt by (auto simp: sorted_wrt_append)
  have dup: "set (journal_corrections E ''duplicate'' envs)
      \<subseteq> set (?T @ [(t, sha)]) \<union> set (journal_corrections E ''unknown'' envs)"
    using assms(1) unfolding audit_inv_def by auto
  show ?thesis
    using assms(1) unk flo so dup unfolding audit_inv_def tick_def st1
    by (simp add: p ins last_id_of_def)
qed

lemma audit_correction_inv:
  assumes "audit_inv E envs k st" "event_of E env = Some ''TRADE_LATE_CORRECTION''"
    and "audit_correction E st (jb_payload (je_body env)) = Ok st1"
  shows "audit_inv E (envs @ [env]) (Suc k) (tick d st1)"
proof -
  let ?T = "journal_trades E envs" and ?U = "journal_corrections E ''unknown'' envs"
  define known where "known t = (case bt_get (<) t (as_published st) of
      Some d \<Rightarrow> Some d | None \<Rightarrow> bt_get (<) t (as_corrected st))" for t
  from assms(3) obtain t sha where t: "env_u64 E env ''trade_id'' = Some t"
    "env_str E env ''observation_sha256'' = Some sha" "id_regressed (as_last_trade_id st) t"
    and cases: "env_str E env ''kind'' = Some ''duplicate'' \<and> known t = Some sha
        \<and> st1 = st\<lparr>as_late_corrections := as_late_corrections st + 1\<rparr>
      \<or> env_str E env ''kind'' = Some ''unknown'' \<and> known t = None
        \<and> st1 = st\<lparr>as_corrected := bt_insert (<) t sha (as_corrected st),
                    as_late_corrections := as_late_corrections st + 1\<rparr>"
    unfolding audit_correction_def Let_def known_def
    by (auto dest!: payload_hex64_Ok split: if_splits option.splits)
  have p: "trade_of E env = []" "depth_of E env = []"
    using assms(2) by (simp_all add: trade_of.simps depth_of.simps)
  have T: "as_published st = ?T" "u64_map_wf ?T" and U: "u64_map_wf (as_corrected st)" "set (as_corrected st) = set ?U"
    using assms(1) by (simp_all add: audit_inv_def u64_map_wf_sorted)
  have kn: "known t = (case map_of ?T t of Some d \<Rightarrow> Some d | None \<Rightarrow> map_of (as_corrected st) t)"
  proof -
    have "bt_get (<) t ?T = map_of ?T t" by (rule nat_key.get_eq_map_of [OF T(2)]) simp
    moreover have "bt_get (<) t (as_corrected st) = map_of (as_corrected st) t"
      by (rule nat_key.get_eq_map_of [OF U(1)]) simp
    ultimately show ?thesis by (simp add: known_def T(1) split: option.split)
  qed
  from cases show ?thesis
  proof (elim disjE conjE)
    assume a: "env_str E env ''kind'' = Some ''duplicate''" "known t = Some sha"
      "st1 = st\<lparr>as_late_corrections := as_late_corrections st + 1\<rparr>"
    have c: "correction_of E ''unknown'' env = []" "correction_of E ''duplicate'' env = [(t, sha)]"
      using assms(2) t a(1) by (simp_all add: correction_of.simps)
    have "(t, sha) \<in> set ?T \<union> set ?U"
      using a(2) kn U(2) by (auto split: option.splits dest: map_of_SomeD)
    then show ?thesis using assms(1) unfolding audit_inv_def tick_def a(3) by (auto simp: p c)
  next
    assume a: "env_str E env ''kind'' = Some ''unknown''" "known t = None"
      "st1 = st\<lparr>as_corrected := bt_insert (<) t sha (as_corrected st), as_late_corrections := as_late_corrections st + 1\<rparr>"
    have c: "correction_of E ''unknown'' env = [(t, sha)]" "correction_of E ''duplicate'' env = []"
      using assms(2) t a(1) by (simp_all add: correction_of.simps)
    have nt: "t \<notin> fst ` set ?T" "map_of (as_corrected st) t = None"
      using a(2) kn by (auto simp: map_of_eq_None_iff split: option.splits)
    then have "set (bt_insert (<) t sha (as_corrected st)) = insert (t, sha) (set (as_corrected st))"
      using U(1) by (auto simp: nat_key.mem_insert_iff nat_key.mem_iff_map_of [OF U(1)])
    moreover have "u64_map_wf (bt_insert (<) t sha (as_corrected st))" using U(1) by (simp add: nat_key.wf_insert)
    ultimately show ?thesis
      using assms(1) t(3) nt(1) unfolding audit_inv_def tick_def a(3) by (auto simp: p c)
  qed
qed

lemma audit_depth_inv:
  assumes "audit_inv E envs k st" "event_of E env = Some ''DEPTH_OBSERVATION''"
    and "audit_depth E st (jb_payload (je_body env)) = Ok st1"
  shows "audit_inv E (envs @ [env]) (Suc k) (tick d st1)"
proof -
  let ?D = "journal_depth E envs"
  have pre: "\<not> as_preset_context st" using assms(1) by (simp add: audit_inv_def)
  from assms(3) obtain a b where ab: "env_u64 E env ''first_sequence'' = Some a"
    "env_u64 E env ''final_sequence'' = Some b" "0 < a" "a \<le> b"
    "case as_exact_next_depth st of Some x \<Rightarrow> a = x | None \<Rightarrow> \<not> id_regressed (as_last_depth_sequence st) a"
    and st1: "st1 = st\<lparr>as_tail_depth_seeded := True, as_exact_next_depth := Some (saturating_add b 1),
            as_last_depth_sequence := Some b, as_depth_frames := as_depth_frames st + 1,
            as_observations := as_observations st + 1\<rparr>"
    using pre by (auto simp: audit_depth_def split: option.splits)
  have p: "depth_of E env = [Range a b]" "trade_of E env = []"
    "correction_of E ''unknown'' env = []" "correction_of E ''duplicate'' env = []"
    using assms(2) ab by (simp_all add: trade_of.simps depth_of.simps correction_of.simps)
  have "depth_from None False (?D @ [Range a b])"
    using assms(1) ab(3-5)
    by (auto simp: depth_from_Range audit_inv_def id_regressed_def split: option.splits if_splits)
  then show ?thesis using assms(1) unfolding audit_inv_def tick_def st1
    by (auto simp: p ends_in_range_def)
qed

lemma audit_gap_inv:
  assumes "audit_inv E envs k st" "event_of E env = Some ''GAP''"
    and "audit_gap E st (jb_payload (je_body env)) = Ok st1"
  shows "audit_inv E (envs @ [env]) (Suc k) (tick d st1)"
proof -
  have "\<not> as_preset_context st" using assms(1) by (simp add: audit_inv_def)
  then have st1: "st1 = st\<lparr>as_exact_next_depth := None, as_gaps := as_gaps st + 1\<rparr>"
    using assms(3) by (auto simp: audit_gap_def)
  have p: "depth_of E env = [GapMark]" "trade_of E env = []"
    "correction_of E ''unknown'' env = []" "correction_of E ''duplicate'' env = []"
    using assms(2) by (simp_all add: trade_of.simps depth_of.simps correction_of.simps)
  show ?thesis using assms(1) unfolding audit_inv_def tick_def st1
    by (auto simp: p ends_in_range_def depth_from_Gap)
qed

definition audit_unmoved :: "audit_state \<Rightarrow> audit_state \<Rightarrow> bool" where
  "audit_unmoved st st1 \<longleftrightarrow> audit_core st1 = audit_core st \<and> as_trade_floor st1 = as_trade_floor st
     \<and> as_started_seen st1 = as_started_seen st"

lemma unmoved_resumed: "audit_resumed E st p f = Ok st1 \<Longrightarrow> \<not> as_preset_context st \<Longrightarrow> audit_unmoved st st1"
  by (auto simp: audit_resumed_def audit_unmoved_def Let_def)

lemma unmoved_others:
  "audit_terminal E st p = Ok st1 \<Longrightarrow> audit_unmoved st st1"
  "audit_status E st p needed e = Ok st1 \<Longrightarrow> audit_unmoved st st1"
  "audit_rebootstrap E st p = Ok st1 \<Longrightarrow> audit_unmoved st st1"
  by (auto simp: audit_terminal_def audit_status_def audit_rebootstrap_def audit_unmoved_def audit_core_def)

lemma one_of_five:
  "(e = a \<Longrightarrow> P) \<Longrightarrow> (e = b \<Longrightarrow> P) \<Longrightarrow> (e = c \<Longrightarrow> P) \<Longrightarrow> (e = d \<Longrightarrow> P) \<Longrightarrow> (e = f \<Longrightarrow> P) \<Longrightarrow>
     (e \<notin> {a, b, c, d, f} \<Longrightarrow> P) \<Longrightarrow> P"
  by blast

lemma audit_event_inv:
  assumes "audit_inv E envs k st" "event_of E env = Some ev"
    and "audit_event E st (jb_payload (je_body env)) (k = 0) ev = Ok st1"
  shows "audit_inv E (envs @ [env]) (Suc k) (tick d st1)"
proof -
  have pre: "\<not> as_preset_context st" using assms(1) by (simp add: audit_inv_def)
  consider "ev = ''TRADE_OBSERVATION''" | "ev = ''TRADE_LATE_CORRECTION''" | "ev = ''DEPTH_OBSERVATION''" | "ev = ''GAP''"
    | "ev = ''ARBITRATION_STARTED''"
    | "ev \<notin> {''TRADE_OBSERVATION'', ''TRADE_LATE_CORRECTION'', ''DEPTH_OBSERVATION'', ''GAP'', ''ARBITRATION_STARTED''}"
    by (rule one_of_five)
  then show ?thesis
  proof cases
    case 5
    then have s: "k = 0" "as_segments st = 0" "audit_core st1 = audit_core st" "as_started_seen st1"
      using assms(3) by (auto simp: audit_event_def audit_started_def audit_core_def)
    then have "journal_trades E envs = []" using assms(1) by (auto simp: audit_inv_def)
    then show ?thesis using audit_inv_neutral [OF assms(1) neutralI [OF assms(2)] s(3)] s(4) 5 by simp
  next
    case 6
    then have "audit_unmoved st st1"
      using assms(3) unmoved_resumed [OF _ pre] unmoved_others
      unfolding audit_event_def by (simp split: if_splits)
    then show ?thesis
      using audit_inv_neutral [OF assms(1) neutralI [OF assms(2)]] 6 by (simp add: audit_unmoved_def)
  next
    case 1
    then show ?thesis using assms(3) by (intro audit_trade_inv [OF assms(1)]) (simp_all add: audit_event_def assms(2))
  next
    case 2
    then show ?thesis using assms(3) by (intro audit_correction_inv [OF assms(1)]) (simp_all add: audit_event_def assms(2))
  next
    case 3
    then show ?thesis using assms(3) by (intro audit_depth_inv [OF assms(1)]) (simp_all add: audit_event_def assms(2))
  next
    case 4
    then show ?thesis using assms(3) by (intro audit_gap_inv [OF assms(1)]) (simp_all add: audit_event_def assms(2))
  qed
qed

lemma apply_audit_record_inv:
  assumes "audit_inv E envs k st" "apply_audit_record E C st env k (k = 0) = Ok st'"
  shows "audit_inv E (envs @ [env]) (Suc k) st'" "as_previous st' = je_record_sha256 env"
    "jb_previous_record_sha256 (je_body env) = as_previous st" "jb_record_index (je_body env) = k"
    "map_option (sha256_hex E) (body_to_vec C (je_body env)) = Some (je_record_sha256 env)"
proof -
  obtain ev st1 where e: "event_of E env = Some ev" "audit_event E st (jb_payload (je_body env)) (k = 0) ev = Ok st1"
    "st' = tick (je_record_sha256 env) st1"
    using assms(2) by (auto simp: apply_audit_record_def event_of_def tick_def Let_def)
  then show "audit_inv E (envs @ [env]) (Suc k) st'" using audit_event_inv [OF assms(1) e(1,2)] by simp
  show "as_previous st' = je_record_sha256 env" by (simp add: e(3) tick_def)
  show "jb_previous_record_sha256 (je_body env) = as_previous st" "jb_record_index (je_body env) = k"
    "map_option (sha256_hex E) (body_to_vec C (je_body env)) = Some (je_record_sha256 env)"
    using assms(2) by (auto simp: apply_audit_record_def Let_def)
qed

section \<open>Segments\<close>

definition parsed :: "'v journal_codec \<Rightarrow> bytes list \<Rightarrow> 'v journal_envelope list" where
  "parsed C ls = map (\<lambda>l. the (envelope_from_slice C l)) (filter (\<lambda>l. l \<noteq> []) ls)"

definition file_envelopes :: "'v journal_codec \<Rightarrow> bytes \<Rightarrow> 'v journal_envelope list" where
  "file_envelopes C data = parsed C (fst (split_lines data))"

text \<open>
  A hash chain: consecutive indices, each record naming the digest of its predecessor, and every stored digest the
  SHA-256 of the record's own serialized body.
\<close>

fun journal_chain :: "'v externals \<Rightarrow> 'v journal_codec \<Rightarrow> string \<Rightarrow> nat \<Rightarrow> 'v journal_envelope list \<Rightarrow> bool" where
  "journal_chain E C p k [] = True"
| "journal_chain E C p k (env # envs) =
     (jb_previous_record_sha256 (je_body env) = p \<and> jb_record_index (je_body env) = k
      \<and> map_option (sha256_hex E) (body_to_vec C (je_body env)) = Some (je_record_sha256 env)
      \<and> journal_chain E C (je_record_sha256 env) (k + 1) envs)"

definition closes_with_terminal :: "'v externals \<Rightarrow> 'v journal_envelope list \<Rightarrow> bool" where
  "closes_with_terminal E envs \<longleftrightarrow> (\<exists>pre t. envs = pre @ [t] \<and> event_of E t = Some ''ARBITRATION_TERMINAL''
     \<and> env_u64 E t ''trades'' = Some (length (journal_trades E envs))
     \<and> env_u64 E t ''gaps'' = Some (length (filter (\<lambda>i. i = GapMark) (journal_depth E envs))))"

lemma terminal_trade: "audit_trade E st p = Ok st1 \<Longrightarrow> as_terminal_seen st1 = as_terminal_seen st"
  by (auto simp: audit_trade_def Let_def split: if_splits option.splits)

lemma terminal_depth: "audit_depth E st p = Ok st1 \<Longrightarrow> as_terminal_seen st1 = as_terminal_seen st"
  by (auto simp: audit_depth_def Let_def split: if_splits option.splits)

lemma terminal_gap: "audit_gap E st p = Ok st1 \<Longrightarrow> as_terminal_seen st1 = as_terminal_seen st"
  by (cases "as_preset_context st") (auto simp: audit_gap_def)

lemma terminal_started: "audit_started E st p f = Ok st1 \<Longrightarrow> as_terminal_seen st1 = as_terminal_seen st"
  by (auto simp: audit_started_def Let_def split: if_splits option.splits)

lemma terminal_resumed: "audit_resumed E st p f = Ok st1 \<Longrightarrow> as_terminal_seen st1 = as_terminal_seen st"
  by (clarsimp simp: audit_resumed_def Let_def)

lemma terminal_status: "audit_status E st p n e = Ok st1 \<Longrightarrow> as_terminal_seen st1 = as_terminal_seen st"
  by (auto simp: audit_status_def Let_def split: if_splits option.splits)

lemma terminal_rebootstrap: "audit_rebootstrap E st p = Ok st1 \<Longrightarrow> as_terminal_seen st1 = as_terminal_seen st"
  by (auto simp: audit_rebootstrap_def Let_def split: if_splits option.splits)

lemma terminal_correction: "audit_correction E st p = Ok st1 \<Longrightarrow> as_terminal_seen st1 = as_terminal_seen st"
  by (auto simp: audit_correction_def Let_def split: if_splits option.splits)

lemmas terminal_frame = terminal_trade terminal_depth terminal_gap terminal_started terminal_resumed terminal_status terminal_rebootstrap terminal_correction

lemma audit_event_terminal:
  assumes "audit_event E st p f ev = Ok st1" "\<not> as_terminal_seen st"
  shows "as_terminal_seen st1 \<longleftrightarrow> ev = ''ARBITRATION_TERMINAL''"
proof (cases "ev = ''ARBITRATION_TERMINAL''")
  case True
  then show ?thesis using assms(1) by (auto simp: audit_event_def audit_terminal_def)
next
  case False
  then show ?thesis using assms unfolding audit_event_def by (auto split: if_splits dest: terminal_frame)
qed

lemma apply_audit_record_terminal:
  assumes "audit_inv E envs k st" "apply_audit_record E C st env k (k = 0) = Ok st'"
  shows "\<not> as_terminal_seen st" "as_terminal_seen st' \<Longrightarrow> closes_with_terminal E (envs @ [env])"
proof -
  obtain ev st1 where e: "event_of E env = Some ev" "audit_event E st (jb_payload (je_body env)) (k = 0) ev = Ok st1"
    "st' = tick (je_record_sha256 env) st1" "\<not> as_terminal_seen st"
    using assms(2) by (auto simp: apply_audit_record_def event_of_def tick_def Let_def)
  then show "\<not> as_terminal_seen st" by simp
  assume "as_terminal_seen st'"
  then have ev: "ev = ''ARBITRATION_TERMINAL''" using audit_event_terminal [OF e(2,4)] by (simp add: e(3) tick_def)
  have "audit_terminal E st (jb_payload (je_body env)) = Ok st1" using e(2) ev by (simp add: audit_event_def)
  then have f: "env_u64 E env ''trades'' = Some (as_trades st)" "env_u64 E env ''gaps'' = Some (as_gaps st)"
    using assms(1) by (auto simp: audit_terminal_def audit_inv_def)
  have n: "trade_of E env = []" "depth_of E env = []"
    using neutralI [OF e(1)] ev by (simp_all add: neutral_def)
  show "closes_with_terminal E (envs @ [env])"
    unfolding closes_with_terminal_def
    using f e(1) ev assms(1) by (intro exI [of _ envs] exI [of _ env]) (simp add: n audit_inv_def)
qed

lemma walk_lines_inv:
  assumes "audit_inv E envs k st" "walk_lines E C ls k st = Ok (st', k')"
    and "as_terminal_seen st \<longrightarrow> closes_with_terminal E envs"
  shows "audit_inv E (envs @ parsed C ls) k' st'" "k' = k + length (parsed C ls)"
    "journal_chain E C (as_previous st) k (parsed C ls)" "as_terminal_seen st' \<longrightarrow> closes_with_terminal E (envs @ parsed C ls)"
  using assms
proof (induction ls arbitrary: envs k st)
  case Nil
  {
    case 1
    then show ?case by (simp add: parsed_def)
  next
    case 2
    then show ?case by (simp add: parsed_def)
  next
    case 3
    then show ?case by (simp add: parsed_def)
  next
    case 4
    then show ?case by (simp add: parsed_def)
  }
next
  case (Cons l ls)
  have step: "audit_inv E (envs @ parsed C (l # ls)) k' st' \<and> k' = k + length (parsed C (l # ls))
      \<and> journal_chain E C (as_previous st) k (parsed C (l # ls))
      \<and> (as_terminal_seen st' \<longrightarrow> closes_with_terminal E (envs @ parsed C (l # ls)))"
    if a: "audit_inv E envs k st" "walk_lines E C (l # ls) k st = Ok (st', k')"
      "as_terminal_seen st \<longrightarrow> closes_with_terminal E envs" for envs k st
  proof (cases "l = []")
    case True
    then show ?thesis using Cons.IH [of envs k st] a by (simp add: parsed_def)
  next
    case False
    then obtain env st1 where e: "envelope_from_slice C l = Some env"
      "apply_audit_record E C st env k (k = 0) = Ok st1" "walk_lines E C ls (Suc k) st1 = Ok (st', k')"
      using a(2) by (auto split: if_splits)
    have p: "parsed C (l # ls) = env # parsed C ls" using False e(1) by (simp add: parsed_def)
    note r = apply_audit_record_inv [OF a(1) e(2)] and t = apply_audit_record_terminal [OF a(1) e(2)]
    show ?thesis
      using Cons.IH [OF r(1) e(3)] r t by (simp add: p)
  qed
  {
    case 1
    then show ?case using step by blast
  next
    case 2
    then show ?case using step by blast
  next
    case 3
    then show ?case using step by blast
  next
    case 4
    then show ?case using step by blast
  }
qed

lemma audit_inv_open:
  "audit_inv E envs k st \<Longrightarrow> as_segments st \<noteq> 0 \<or> envs = [] \<Longrightarrow> audit_inv E envs 0 (open_segment False st)"
  unfolding audit_inv_def open_segment_def by auto

lemma audit_inv_close:
  "audit_inv E envs k st \<Longrightarrow> audit_inv E envs j (st\<lparr>as_segments := as_segments st + 1, as_last_segment_tail := n\<rparr>)"
  unfolding audit_inv_def by simp

lemma walk_audit_file_inv:
  assumes "audit_inv E envs k st" "as_segments st \<noteq> 0 \<or> envs = []"
    and "walk_audit_file E C f incremental st tol = Ok (st', clean, tail)"
  shows "\<exists>data. f = Some data \<and> audit_inv E (envs @ file_envelopes C data) 0 st' \<and> as_segments st' \<noteq> 0
    \<and> journal_chain E C ZERO_DIGEST 0 (file_envelopes C data)
    \<and> (as_terminal_seen st' \<longrightarrow> closes_with_terminal E (envs @ file_envelopes C data))"
proof -
  obtain data where f: "f = Some data"
    using assms(3) by (auto simp: walk_audit_file_def walk_audit_file_with_context_def)
  obtain ls tl where l: "split_lines data = (ls, tl)" by (cases "split_lines data")
  obtain st1 n where w: "f = Some data" "split_lines data = (ls, tl)"
    "walk_lines E C ls 0 (open_segment False st) = Ok (st1, n)"
    "st' = st1\<lparr>as_segments := as_segments st1 + 1, as_last_segment_tail := length tl\<rparr>"
    using assms(3) f l by (auto simp: walk_audit_file_def walk_audit_file_with_context_def)
  have "\<not> as_terminal_seen (open_segment False st)" "as_previous (open_segment False st) = ZERO_DIGEST"
    by (simp_all add: open_segment_def)
  then have "audit_inv E (envs @ parsed C ls) n st1" "journal_chain E C ZERO_DIGEST 0 (parsed C ls)"
    "as_terminal_seen st1 \<longrightarrow> closes_with_terminal E (envs @ parsed C ls)"
    using walk_lines_inv [OF audit_inv_open [OF assms(1,2)] w(3)] by simp_all
  then show ?thesis using w(1,2,4) audit_inv_close by (auto simp: file_envelopes_def)
qed

lemma walk_set_inv:
  assumes "audit_inv E envs k st" "as_segments st \<noteq> 0 \<or> envs = []"
    and "walk_set E C incremental tol files st ft = Ok (st', ft')"
  shows "\<exists>datas. files = map Some datas \<and> (\<exists>k. audit_inv E (envs @ concat (map (file_envelopes C) datas)) k st')
    \<and> (\<forall>data\<in>set datas. journal_chain E C ZERO_DIGEST 0 (file_envelopes C data))
    \<and> (files \<noteq> [] \<longrightarrow> as_terminal_seen st' \<longrightarrow>
         closes_with_terminal E (envs @ concat (map (file_envelopes C) datas)))"
  using assms
proof (induction files arbitrary: envs k st ft)
  case Nil
  then show ?case by auto
next
  case (Cons f fs)
  obtain st1 clean tail where w: "walk_audit_file E C f incremental st (tol (length fs)) = Ok (st1, clean, tail)"
    "walk_set E C incremental tol fs st1 (clean, tail) = Ok (st', ft')"
    using Cons.prems(3) by (auto split: prod.splits)
  obtain data where d: "f = Some data" "audit_inv E (envs @ file_envelopes C data) 0 st1" "as_segments st1 \<noteq> 0"
    "journal_chain E C ZERO_DIGEST 0 (file_envelopes C data)"
    "as_terminal_seen st1 \<longrightarrow> closes_with_terminal E (envs @ file_envelopes C data)"
    using walk_audit_file_inv [OF Cons.prems(1,2) w(1)] by blast
  from Cons.IH [OF d(2) _ w(2)] d(3) obtain datas k' where ih: "fs = map Some datas"
    "audit_inv E ((envs @ file_envelopes C data) @ concat (map (file_envelopes C) datas)) k' st'"
    "\<forall>data\<in>set datas. journal_chain E C ZERO_DIGEST 0 (file_envelopes C data)"
    "fs \<noteq> [] \<longrightarrow> as_terminal_seen st' \<longrightarrow>
       closes_with_terminal E ((envs @ file_envelopes C data) @ concat (map (file_envelopes C) datas))"
    by blast
  have "st' = st1" if "fs = []" using w(2) that by simp
  then have "as_terminal_seen st' \<longrightarrow> closes_with_terminal E (envs @ concat (map (file_envelopes C) (data # datas)))"
    using d(5) ih(1,4) by (cases "fs = []") auto
  then show ?case using ih d by (intro exI [of _ "data # datas"]) auto
qed

section \<open>The links between segments\<close>

text \<open>The fields that link a segment to the one before it.\<close>

definition link_of :: "audit_state \<Rightarrow> bool \<times> nat \<times> string option \<times> nat" where
  "link_of st = (as_preset_context st, as_segments st, as_last_segment_sha st, as_last_segment_tail st)"

definition keeps_link :: "audit_state \<Rightarrow> audit_state \<Rightarrow> bool" where
  "keeps_link st st1 \<longleftrightarrow> link_of st1 = link_of st \<and> as_started_seen st1 = as_started_seen st"

lemma link_trade: "audit_trade E st p = Ok st1 \<Longrightarrow> keeps_link st st1"
  by (auto simp: audit_trade_def Let_def keeps_link_def link_of_def split: if_splits option.splits)

lemma link_depth: "audit_depth E st p = Ok st1 \<Longrightarrow> keeps_link st st1"
  by (auto simp: audit_depth_def Let_def keeps_link_def link_of_def split: if_splits option.splits)

lemma link_gap: "audit_gap E st p = Ok st1 \<Longrightarrow> keeps_link st st1"
  by (cases "as_preset_context st") (auto simp: audit_gap_def keeps_link_def link_of_def)

lemma link_status: "audit_status E st p n e = Ok st1 \<Longrightarrow> keeps_link st st1"
  by (auto simp: audit_status_def Let_def keeps_link_def link_of_def split: if_splits option.splits)

lemma link_rebootstrap: "audit_rebootstrap E st p = Ok st1 \<Longrightarrow> keeps_link st st1"
  by (auto simp: audit_rebootstrap_def Let_def keeps_link_def link_of_def split: if_splits option.splits)

lemma link_correction: "audit_correction E st p = Ok st1 \<Longrightarrow> keeps_link st st1"
  by (auto simp: audit_correction_def Let_def keeps_link_def link_of_def split: if_splits option.splits)

lemma link_terminal: "audit_terminal E st p = Ok st1 \<Longrightarrow> keeps_link st st1"
  by (auto simp: audit_terminal_def keeps_link_def link_of_def)

lemma link_started:
  "audit_started E st p f = Ok st1 \<Longrightarrow> f \<and> as_segments st = 0 \<and> link_of st1 = link_of st \<and> as_started_seen st1"
  by (auto simp: audit_started_def link_of_def)

text \<open>What a resume record says of the segment before it.\<close>

definition names_predecessor :: "'v externals \<Rightarrow> string option \<Rightarrow> nat \<Rightarrow> 'v \<Rightarrow> bool" where
  "names_predecessor E sha tail payload \<longleftrightarrow> field_str E payload ''previous_journal_sha256'' = sha
     \<and> (case field_u64 E payload ''previous_tail_bytes'' of None \<Rightarrow> 0 | Some n \<Rightarrow> n) = tail"

lemma link_resumed:
  assumes "audit_resumed E st p f = Ok st1" "\<not> as_preset_context st"
  shows "f \<and> as_segments st \<noteq> 0 \<and> keeps_link st st1 \<and> names_predecessor E (as_last_segment_sha st) (as_last_segment_tail st) p"
  using assms by (auto simp: audit_resumed_def Let_def keeps_link_def names_predecessor_def dest: payload_hex64_Ok)

lemmas link_others = link_trade link_depth link_gap link_status link_rebootstrap link_correction link_terminal

lemma audit_event_link:
  assumes "audit_event E st p f ev = Ok st1" "\<not> as_preset_context st"
  shows "link_of st1 = link_of st" "as_started_seen st1 \<longleftrightarrow> as_started_seen st \<or> ev = ''ARBITRATION_STARTED''"
    "ev = ''ARBITRATION_STARTED'' \<Longrightarrow> f \<and> as_segments st = 0"
    "ev = ''ARBITRATION_RESUMED'' \<Longrightarrow> f \<and> names_predecessor E (as_last_segment_sha st) (as_last_segment_tail st) p"
proof -
  consider (started) "ev = ''ARBITRATION_STARTED''" | (resumed) "ev = ''ARBITRATION_RESUMED''"
    | (other) "ev \<noteq> ''ARBITRATION_STARTED''" "ev \<noteq> ''ARBITRATION_RESUMED''" by blast
  then have "link_of st1 = link_of st \<and> (as_started_seen st1 \<longleftrightarrow> as_started_seen st \<or> ev = ''ARBITRATION_STARTED'')
      \<and> (ev = ''ARBITRATION_STARTED'' \<longrightarrow> f \<and> as_segments st = 0)
      \<and> (ev = ''ARBITRATION_RESUMED'' \<longrightarrow> f \<and> names_predecessor E (as_last_segment_sha st) (as_last_segment_tail st) p)"
  proof cases
    case started
    then show ?thesis using assms(1) link_started [of E st p f st1] by (simp add: audit_event_def)
  next
    case resumed
    then show ?thesis using assms link_resumed [of E st p f st1] by (simp add: audit_event_def keeps_link_def)
  next
    case other
    then have "keeps_link st st1" using assms(1) unfolding audit_event_def by (auto split: if_split_asm dest: link_others)
    then show ?thesis using other by (simp add: keeps_link_def)
  qed
  then show "link_of st1 = link_of st" "as_started_seen st1 \<longleftrightarrow> as_started_seen st \<or> ev = ''ARBITRATION_STARTED''"
    "ev = ''ARBITRATION_STARTED'' \<Longrightarrow> f \<and> as_segments st = 0"
    "ev = ''ARBITRATION_RESUMED'' \<Longrightarrow> f \<and> names_predecessor E (as_last_segment_sha st) (as_last_segment_tail st) p" by blast+
qed

lemma apply_audit_record_link:
  assumes "apply_audit_record E C st env k f = Ok st'" "\<not> as_preset_context st"
  shows "link_of st' = link_of st" "as_started_seen st' \<longleftrightarrow> as_started_seen st \<or> event_of E env = Some ''ARBITRATION_STARTED''"
    "event_of E env = Some ''ARBITRATION_STARTED'' \<Longrightarrow> f \<and> as_segments st = 0"
    "event_of E env = Some ''ARBITRATION_RESUMED'' \<Longrightarrow>
       f \<and> names_predecessor E (as_last_segment_sha st) (as_last_segment_tail st) (jb_payload (je_body env))"
    "as_previous st' = je_record_sha256 env"
proof -
  obtain ev st1 where e: "event_of E env = Some ev" "audit_event E st (jb_payload (je_body env)) f ev = Ok st1"
    "st' = tick (je_record_sha256 env) st1"
    using assms(1) by (auto simp: apply_audit_record_def event_of_def tick_def Let_def)
  note l = audit_event_link [OF e(2) assms(2)]
  show "link_of st' = link_of st" "as_started_seen st' \<longleftrightarrow> as_started_seen st \<or> event_of E env = Some ''ARBITRATION_STARTED''"
    "as_previous st' = je_record_sha256 env"
    using l(1,2) e(1,3) by (simp_all add: tick_def link_of_def)
  show "event_of E env = Some ''ARBITRATION_STARTED'' \<Longrightarrow> f \<and> as_segments st = 0"
    "event_of E env = Some ''ARBITRATION_RESUMED'' \<Longrightarrow>
       f \<and> names_predecessor E (as_last_segment_sha st) (as_last_segment_tail st) (jb_payload (je_body env))"
    using l(3,4) e(1) by simp_all
qed

text \<open>Past the first record of a file there is no opening record, and the links stay.\<close>

definition opens_segment :: "'v externals \<Rightarrow> 'v journal_envelope \<Rightarrow> bool" where
  "opens_segment E env \<longleftrightarrow> event_of E env \<in> {Some ''ARBITRATION_STARTED'', Some ''ARBITRATION_RESUMED''}"

lemma walk_lines_later:
  assumes "walk_lines E C ls k st = Ok (st', k')" "0 < k" "\<not> as_preset_context st"
  shows "list_all (\<lambda>env. \<not> opens_segment E env) (parsed C ls) \<and> link_of st' = link_of st \<and> as_started_seen st' = as_started_seen st
    \<and> as_previous st' = (if parsed C ls = [] then as_previous st else je_record_sha256 (last (parsed C ls)))"
  using assms
proof (induction ls arbitrary: k st)
  case Nil
  then show ?case by (simp add: parsed_def)
next
  case (Cons l ls)
  show ?case
  proof (cases "l = []")
    case True
    then show ?thesis using Cons.IH [of k st] Cons.prems by (simp add: parsed_def)
  next
    case False
    then obtain env st1 where e: "envelope_from_slice C l = Some env"
      "apply_audit_record E C st env k (k = 0) = Ok st1" "walk_lines E C ls (Suc k) st1 = Ok (st', k')"
      using Cons.prems(1) by (auto split: if_splits)
    note l = apply_audit_record_link [OF e(2) Cons.prems(3)]
    have "\<not> opens_segment E env" using l(3,4) Cons.prems(2) by (auto simp: opens_segment_def)
    moreover have "\<not> as_preset_context st1" using l(1) Cons.prems(3) by (simp add: link_of_def)
    ultimately show ?thesis using Cons.IH [OF e(3)] l(1,2,5) False e(1) by (simp add: parsed_def opens_segment_def)
  qed
qed

text \<open>How a segment opens, given what the state says of the one before it.\<close>

definition segment_opens :: "'v externals \<Rightarrow> audit_state \<Rightarrow> 'v journal_envelope list \<Rightarrow> bool" where
  "segment_opens E st envs \<longleftrightarrow> envs \<noteq> [] \<and> list_all (\<lambda>env. \<not> opens_segment E env) (tl envs)
     \<and> (event_of E (hd envs) = Some ''ARBITRATION_STARTED'' \<longrightarrow> as_segments st = 0)
     \<and> (event_of E (hd envs) = Some ''ARBITRATION_RESUMED'' \<longrightarrow>
          names_predecessor E (as_last_segment_sha st) (as_last_segment_tail st) (jb_payload (je_body (hd envs))))"

lemma walk_lines_first:
  assumes "walk_lines E C ls 0 st = Ok (st', k')" "k' \<noteq> 0" "\<not> as_preset_context st"
  shows "segment_opens E st (parsed C ls) \<and> link_of st' = link_of st
    \<and> (as_started_seen st' \<longleftrightarrow> as_started_seen st \<or> event_of E (hd (parsed C ls)) = Some ''ARBITRATION_STARTED'')
    \<and> as_previous st' = je_record_sha256 (last (parsed C ls))"
  using assms(1,2)
proof (induction ls)
  case (Cons l ls)
  show ?case
  proof (cases "l = []")
    case True
    then show ?thesis using Cons.IH Cons.prems by (simp add: parsed_def)
  next
    case False
    then obtain env st1 where e: "envelope_from_slice C l = Some env"
      "apply_audit_record E C st env 0 True = Ok st1" "walk_lines E C ls 1 st1 = Ok (st', k')"
      using Cons.prems(1) by (auto split: if_splits)
    note l = apply_audit_record_link [OF e(2) assms(3)]
    have "\<not> as_preset_context st1" using l(1) assms(3) by (simp add: link_of_def)
    note w = walk_lines_later [OF e(3) _ this]
    have p: "parsed C (l # ls) = env # parsed C ls" using False e(1) by (simp add: parsed_def)
    show ?thesis unfolding p using w l by (simp add: segment_opens_def)
  qed
qed simp

lemma walk_audit_file_link:
  assumes "walk_audit_file E C (Some data) incremental st tol = Ok (st', clean, tail)" "\<not> as_preset_context st"
  shows "segment_opens E (open_segment False st) (file_envelopes C data)"
    "\<not> as_preset_context st'" "as_segments st' = as_segments st + 1" "as_last_segment_tail st' = length (snd (split_lines data))"
    "as_previous st' = je_record_sha256 (last (file_envelopes C data))"
    "as_started_seen st' \<longleftrightarrow> as_started_seen st \<or> event_of E (hd (file_envelopes C data)) = Some ''ARBITRATION_STARTED''"
proof -
  obtain st1 n where w: "walk_lines E C (fst (split_lines data)) 0 (open_segment False st) = Ok (st1, n)" "n \<noteq> 0"
    "st' = st1\<lparr>as_segments := as_segments st1 + 1, as_last_segment_tail := length (snd (split_lines data))\<rparr>"
    using assms(1) by (auto simp: walk_audit_file_def walk_audit_file_with_context_def split: prod.splits)
  have pre: "\<not> as_preset_context (open_segment False st)" "as_segments (open_segment False st) = as_segments st"
    "as_started_seen (open_segment False st) = as_started_seen st"
    using assms(2) by (simp_all add: open_segment_def)
  note f = walk_lines_first [OF w(1,2) pre(1)]
  show "segment_opens E (open_segment False st) (file_envelopes C data)" "\<not> as_preset_context st'"
    "as_segments st' = as_segments st + 1" "as_last_segment_tail st' = length (snd (split_lines data))"
    "as_previous st' = je_record_sha256 (last (file_envelopes C data))"
    "as_started_seen st' \<longleftrightarrow> as_started_seen st \<or> event_of E (hd (file_envelopes C data)) = Some ''ARBITRATION_STARTED''"
    using f pre w(3) by (simp_all add: file_envelopes_def link_of_def)
qed

text \<open>
  The links of a set: the first segment opens with the start record and no other one has it; a resume record stands
  only at the head of a later segment and names the last digest and the torn tail of the segment before it.
\<close>

definition follows_segment :: "'v externals \<Rightarrow> 'v journal_codec \<Rightarrow> bytes \<Rightarrow> bytes \<Rightarrow> bool" where
  "follows_segment E C before data \<longleftrightarrow>
     event_of E (hd (file_envelopes C data)) \<noteq> Some ''ARBITRATION_STARTED''
     \<and> (event_of E (hd (file_envelopes C data)) = Some ''ARBITRATION_RESUMED'' \<longrightarrow>
          names_predecessor E (Some (je_record_sha256 (last (file_envelopes C before)))) (length (snd (split_lines before)))
            (jb_payload (je_body (hd (file_envelopes C data)))))"

fun segments_follow :: "'v externals \<Rightarrow> 'v journal_codec \<Rightarrow> bytes \<Rightarrow> bytes list \<Rightarrow> bool" where
  "segments_follow E C before [] = True"
| "segments_follow E C before (data # datas) = (follows_segment E C before data \<and> segments_follow E C data datas)"

definition one_opening :: "'v externals \<Rightarrow> 'v journal_envelope list \<Rightarrow> bool" where
  "one_opening E envs \<longleftrightarrow> envs \<noteq> [] \<and> list_all (\<lambda>env. \<not> opens_segment E env) (tl envs)"

lemma walk_set_follow:
  assumes "walk_set E C incremental tol (map Some datas) st ft = Ok (st', ft')" "\<not> as_preset_context st" "as_segments st \<noteq> 0"
    and "as_previous st = je_record_sha256 (last (file_envelopes C before))" "as_last_segment_tail st = length (snd (split_lines before))"
  shows "segments_follow E C before datas \<and> list_all (\<lambda>d. one_opening E (file_envelopes C d)) datas
    \<and> as_started_seen st' = as_started_seen st"
  using assms
proof (induction datas arbitrary: st ft before)
  case (Cons data datas)
  obtain st1 clean tail where w: "walk_audit_file E C (Some data) incremental st (tol (length datas)) = Ok (st1, clean, tail)"
    "walk_set E C incremental tol (map Some datas) st1 (clean, tail) = Ok (st', ft')"
    using Cons.prems(1) by (auto split: prod.splits)
  note l = walk_audit_file_link [OF w(1) Cons.prems(2)]
  have "as_last_segment_sha (open_segment False st) = Some (as_previous st)"
    "as_last_segment_tail (open_segment False st) = as_last_segment_tail st" "as_segments (open_segment False st) \<noteq> 0"
    using Cons.prems(3) by (simp_all add: open_segment_def)
  then have f: "follows_segment E C before data" "one_opening E (file_envelopes C data)"
    using l(1) Cons.prems(4,5) by (auto simp: segment_opens_def follows_segment_def one_opening_def)
  then have "as_started_seen st1 = as_started_seen st" using l(6) by (simp add: follows_segment_def)
  then show ?case using Cons.IH [OF w(2) l(2) _ l(5,4)] l(3) f by simp
qed simp

lemma walk_set_links:
  assumes "walk_set E C incremental tol (map Some (data # datas)) audit_default ft = Ok (st', ft')" "as_started_seen st'"
  shows "event_of E (hd (file_envelopes C data)) = Some ''ARBITRATION_STARTED''" "segments_follow E C data datas"
    "list_all (\<lambda>d. one_opening E (file_envelopes C d)) (data # datas)"
proof -
  obtain st1 clean tail where w: "walk_audit_file E C (Some data) incremental audit_default (tol (length datas)) = Ok (st1, clean, tail)"
    "walk_set E C incremental tol (map Some datas) st1 (clean, tail) = Ok (st', ft')"
    using assms(1) by (auto split: prod.splits)
  have d: "\<not> as_preset_context audit_default" "\<not> as_started_seen audit_default" by (simp_all add: audit_default_def)
  note l = walk_audit_file_link [OF w(1) d(1)]
  note f = walk_set_follow [OF w(2) l(2) _ l(5,4)]
  show "event_of E (hd (file_envelopes C data)) = Some ''ARBITRATION_STARTED''" "segments_follow E C data datas"
    using f l(3,6) assms(2) d(2) by auto
  show "list_all (\<lambda>d. one_opening E (file_envelopes C d)) (data # datas)"
    using f l(1,3) by (simp add: segment_opens_def one_opening_def)
qed

end
