(* ===== verification/Journal_Audit_Safety.thy ===== *)
theory Journal_Audit_Safety
  imports Journal_Audit_Correct Identity_Log_Safety Concrete_Externals
begin

text \<open>
  The theorems on the canonical live journal: what acceptance of a resume-chained set guarantees,
  the equivalence of the recovery and the incremental scans, reading back what the writer wrote
  after any crash, and the rebuild of the identity log from a segment.
\<close>

section \<open>Lines\<close>

lemma split_lines_line:
  "newline \<notin> set l \<Longrightarrow> split_lines (l @ newline # rest) = (l # fst (split_lines rest), snd (split_lines rest))"
  by (induction l) (auto split: prod.splits)

lemma split_lines_partial: "newline \<notin> set l \<Longrightarrow> split_lines l = ([], l)"
  by (induction l) auto

lemma split_lines_bytes:
  "\<forall>l\<in>set ls. newline \<notin> set l \<Longrightarrow> newline \<notin> set tail \<Longrightarrow> split_lines (lines_bytes ls @ tail) = (ls, tail)"
  by (induction ls) (auto simp: lines_bytes_def split_lines_line split_lines_partial)

section \<open>Writer sessions\<close>

definition journal_codec_ok :: "'v journal_codec \<Rightarrow> bool" where
  "journal_codec_ok C \<longleftrightarrow> (\<forall>env bs. envelope_to_vec C env = Some bs \<longrightarrow>
     envelope_from_slice C bs = Some env \<and> newline \<notin> set bs \<and> bs \<noteq> [])"

inductive journal_session :: "'v externals \<Rightarrow> 'v journal_codec \<Rightarrow> io_outcome list \<Rightarrow> 'v journal_envelope list \<Rightarrow> journal_writer \<Rightarrow> bool"
  for E C plan where
  session_create: "journal_session E C plan [] (journal_create plan)"
| session_record: "journal_session E C plan envs w \<Longrightarrow> next_envelope E C w wall mono_ns channel payload = Ok env \<Longrightarrow>
    journal_append E C (Ok wall) w mono_ns channel payload = (Ok d, w') \<Longrightarrow> journal_session E C plan (envs @ [env]) w'"

lemma journal_append_Ok:
  assumes "journal_append E C (Ok wall) w mono_ns channel payload = (Ok d, w')"
    and "next_envelope E C w wall mono_ns channel payload = Ok env"
  shows "\<exists>bs. envelope_to_vec C env = Some bs \<and> sk_data (jw_file w') = sk_data (jw_file w) @ bs @ [newline]"
    "jw_previous w' = je_record_sha256 env" "jw_next_index w' = jw_next_index w + 1"
  using assms by (auto simp: journal_append_def split: sum.splits prod.splits bool.splits option.splits
      dest!: sink_write_all_True sink_sync_data)

lemma next_envelope_Ok:
  assumes "next_envelope E C w wall mono_ns channel payload = Ok env"
  shows "jb_previous_record_sha256 (je_body env) = jw_previous w" "jb_record_index (je_body env) = jw_next_index w"
    "map_option (sha256_hex E) (body_to_vec C (je_body env)) = Some (je_record_sha256 env)"
  using assms by (auto simp: next_envelope_def Let_def)

lemma journal_chain_snoc:
  "journal_chain E C p k (envs @ [env]) \<longleftrightarrow> journal_chain E C p k envs
     \<and> jb_previous_record_sha256 (je_body env) = (if envs = [] then p else je_record_sha256 (last envs))
     \<and> jb_record_index (je_body env) = k + length envs
     \<and> map_option (sha256_hex E) (body_to_vec C (je_body env)) = Some (je_record_sha256 env)"
  by (induction E C p k envs rule: journal_chain.induct) auto

lemma journal_session_data:
  assumes "journal_session E C plan envs w" "journal_codec_ok C"
  shows "\<exists>ls. sk_data (jw_file w) = lines_bytes ls \<and> map (envelope_from_slice C) ls = map Some envs
      \<and> (\<forall>l\<in>set ls. newline \<notin> set l \<and> l \<noteq> [])"
    and "journal_chain E C ZERO_DIGEST 0 envs \<and> jw_next_index w = length envs \<and> jw_previous w = (if envs = [] then ZERO_DIGEST else je_record_sha256 (last envs))"
  using assms
proof (induction rule: journal_session.induct)
  case session_create
  {
    case 1
    then show ?case by (intro exI [of _ "[]"]) (simp add: journal_create_def lines_bytes_def)
  next
    case 2
    then show ?case by (simp add: journal_create_def)
  }
next
  case (session_record envs w wall mono_ns channel payload env d w')
  {
    case 1
    obtain ls where ls: "sk_data (jw_file w) = lines_bytes ls" "map (envelope_from_slice C) ls = map Some envs"
      "\<forall>l\<in>set ls. newline \<notin> set l \<and> l \<noteq> []" using session_record.IH(1) 1 by blast
    obtain bs where bs: "envelope_to_vec C env = Some bs" "sk_data (jw_file w') = sk_data (jw_file w) @ bs @ [newline]"
      using journal_append_Ok(1) [OF session_record.hyps(3,2)] by blast
    have "envelope_from_slice C bs = Some env \<and> newline \<notin> set bs \<and> bs \<noteq> []"
      using 1 bs(1) by (simp add: journal_codec_ok_def)
    then show ?case using ls bs(2) by (intro exI [of _ "ls @ [bs]"]) (auto simp: lines_bytes_def)
  next
    case 2
    then show ?case
      using session_record.IH(2) journal_append_Ok(2,3) [OF session_record.hyps(3,2)]
        next_envelope_Ok [OF session_record.hyps(2)] by (simp add: journal_chain_snoc)
  }
qed

section \<open>Theorems\<close>

text \<open>
  C7. What an accepted journal set guarantees. Every segment is a hash chain from the zero digest with consecutive indices,
  in which every stored digest is the SHA-256 of the record's body. The first segment, and no other, opens with the start
  record; a resume record stands only at the head of a later segment, and names the last digest and the torn tail of
  the segment before it. Across all segments trade ids are strictly increasing, above the declared floor and
  counted exactly; depth ranges are contiguous except across typed gaps and never go back; a duplicate correction repeats
  a published or corrected identity, an unknown one never an id that was published; and the journal closes with
  a terminal that declares the audited totals.
\<close>

theorem journal_set_sound:
  assumes "scan_live_arbitration_journal_set E C files = Ok sc"
  shows "\<exists>data datas envs. files = map Some (data # datas) \<and> envs = concat (map (file_envelopes C) (data # datas))
    \<and> list_all (\<lambda>d. journal_chain E C ZERO_DIGEST 0 (file_envelopes C d) \<and> one_opening E (file_envelopes C d)) (data # datas)
    \<and> event_of E (hd (file_envelopes C data)) = Some ''ARBITRATION_STARTED'' \<and> segments_follow E C data datas
    \<and> sorted_wrt (<) (map fst (journal_trades E envs))
    \<and> (\<forall>e\<in>set (journal_trades E envs). \<not> id_regressed (ls_trade_floor sc) (fst e))
    \<and> ls_trades sc = length (journal_trades E envs) \<and> ls_last_trade_id sc = last_id_of (journal_trades E envs)
    \<and> depth_from None False (journal_depth E envs) \<and> ls_last_depth_sequence sc = last_range (journal_depth E envs)
    \<and> (\<forall>c\<in>set (journal_corrections E ''unknown'' envs). fst c \<notin> fst ` set (journal_trades E envs))
    \<and> set (journal_corrections E ''duplicate'' envs)
        \<subseteq> set (journal_trades E envs) \<union> set (journal_corrections E ''unknown'' envs)
    \<and> closes_with_terminal E envs"
proof -
  have ne: "files \<noteq> []" using assms by (auto simp: scan_live_arbitration_journal_set_def)
  obtain st ft where w: "walk_set E C False (\<lambda>left. 0 < left) files audit_default (True, 0) = Ok (st, ft)"
    "finish_audit st False = Ok sc"
    using assms ne by (auto simp: scan_live_arbitration_journal_set_def)
  have i: "audit_inv E [] 0 audit_default"
    using audit_inv_start [of E False] by (simp add: audit_inv_def open_segment_def audit_default_def)
  obtain all k where a: "files = map Some all" "audit_inv E (concat (map (file_envelopes C) all)) k st"
    "\<forall>data\<in>set all. journal_chain E C ZERO_DIGEST 0 (file_envelopes C data)"
    "as_terminal_seen st \<longrightarrow> closes_with_terminal E (concat (map (file_envelopes C) all))"
    using walk_set_inv [OF i _ w(1)] ne by auto
  obtain data datas where d: "all = data # datas" using a(1) ne by (cases all) auto
  have f: "as_terminal_seen st" "as_started_seen st" "ls_trade_floor sc = as_trade_floor st" "ls_trades sc = as_trades st"
    "ls_last_trade_id sc = as_last_trade_id st" "ls_last_depth_sequence sc = as_last_depth_sequence st"
    using w(2) by (auto simp: finish_audit_def split: if_splits)
  note l = walk_set_links [OF w(1) [unfolded a(1) d] f(2)]
  have chains: "list_all (\<lambda>d. journal_chain E C ZERO_DIGEST 0 (file_envelopes C d) \<and> one_opening E (file_envelopes C d)) (data # datas)"
    using a(3) d l(3) by (auto simp: list_all_iff)
  define envs where "envs = concat (map (file_envelopes C) (data # datas))"
  have inv: "audit_inv E envs k st" "closes_with_terminal E envs" using a(2,4) f(1) unfolding d envs_def by blast+
  have files: "files = map Some (data # datas)" using a(1) d by simp
  show ?thesis
    by (intro exI [of _ data] exI [of _ datas] exI [of _ envs] conjI; (rule files envs_def chains l(1,2) inv(2))?)
      (use inv(1) f in \<open>simp_all add: audit_inv_def\<close>)
qed

text \<open>
  The recovery scan and the incremental set scan accept the same journals with the same result:
  the tail tolerance the recovery scan computes per segment has no effect, and what keeps a torn
  predecessor out is only the tail length the next segment declares.
\<close>

theorem recovery_scan_is_incremental:
  "scan_live_arbitration_journal_set_recovery E C files =
     rbind (scan_live_arbitration_journal_set_incremental E C files) (\<lambda>(sc, _). Ok sc)"
proof -
  have onefile: "walk_audit_file E C f True st tol = walk_audit_file E C f True st tol'" for f st tol tol'
    by (simp add: walk_audit_file_def walk_audit_file_with_context_def)
  have same: "walk_set E C True tol fs st ft = walk_set E C True tol' fs st ft" for tol tol' fs st ft
  proof (induction fs arbitrary: st ft)
    case (Cons f fs)
    then show ?case using onefile [of f st "tol (length fs)" "tol' (length fs)"] by (simp cong: rbind_cong)
  qed simp
  have lam: "(\<lambda>(st, _). finish_audit st True) = (\<lambda>x. finish_audit (fst x) True)" by auto
  show ?thesis
    using same [of "\<lambda>left. left = 0" files audit_default "(True, 0)" "\<lambda>_. True"]
    by (auto simp: scan_live_arbitration_journal_set_recovery_def scan_live_arbitration_journal_set_incremental_def
        rbind_assoc split_beta lam)
qed

text \<open>
  Crash-safe writing. A journal written by successful appends reads back as exactly the appended
  records, chained from the zero digest, and after a cut at any byte it still reads as a prefix of
  them.
\<close>

theorem journal_reads_back:
  assumes "journal_session E C plan envs w" "journal_codec_ok C"
  shows "file_envelopes C (sk_data (jw_file w)) = envs \<and> journal_chain E C ZERO_DIGEST 0 envs
    \<and> (\<forall>n. \<exists>rest. envs = file_envelopes C (take n (sk_data (jw_file w))) @ rest)"
proof -
  obtain ls where ls: "sk_data (jw_file w) = lines_bytes ls" "map (envelope_from_slice C) ls = map Some envs"
    "\<forall>l\<in>set ls. newline \<notin> set l \<and> l \<noteq> []" using journal_session_data(1) [OF assms] by blast
  have parse: "parsed C (take j ls) = take j envs" for j
  proof -
    have "filter (\<lambda>l. l \<noteq> []) (take j ls) = take j ls" using ls(3) by (auto simp: filter_id_conv dest: in_set_takeD)
    then have "parsed C (take j ls) = map the (take j (map (envelope_from_slice C) ls))" by (simp add: parsed_def take_map)
    also have "\<dots> = take j envs" by (simp add: ls(2) take_map)
    finally show ?thesis .
  qed
  have cut: "\<exists>j. file_envelopes C (take n (lines_bytes ls)) = take j envs" for n
  proof -
    obtain j tail where j: "take n (lines_bytes ls) = lines_bytes (take j ls) @ tail" "newline \<notin> set tail"
      using take_lines_bytes [of ls n] ls(3) by blast
    have "split_lines (take n (lines_bytes ls)) = (take j ls, tail)"
      unfolding j(1) using ls(3) j(2) by (intro split_lines_bytes) (auto dest: in_set_takeD)
    then show ?thesis using parse [of j] by (auto simp: file_envelopes_def)
  qed
  have "split_lines (lines_bytes ls @ []) = (ls, [])" using ls(3) by (intro split_lines_bytes) auto
  then have "file_envelopes C (lines_bytes ls) = envs"
    using parse [of "length ls"] arg_cong [OF ls(2), of length] by (simp add: file_envelopes_def)
  moreover have "\<exists>rest. envs = file_envelopes C (take n (lines_bytes ls)) @ rest" for n
  proof -
    obtain j where "file_envelopes C (take n (lines_bytes ls)) = take j envs" using cut by blast
    then show ?thesis by (intro exI [of _ "drop j envs"]) simp
  qed
  ultimately show ?thesis using journal_session_data(2) [OF assms] ls(1) by simp
qed

text \<open>The trades a segment adds to a log whose last id is \<open>lst\<close>.\<close>

definition missing_trades :: "nat option \<Rightarrow> (nat \<times> string) list \<Rightarrow> (nat \<times> string) list" where
  "missing_trades lst ts = filter (\<lambda>e. \<not> id_regressed lst (fst e)) ts"

lemma missing_trades_all:
  "sorted_wrt (<) (map fst ((t, d) # ts)) \<Longrightarrow> \<not> id_regressed lst t \<Longrightarrow> missing_trades (Some t) ts = missing_trades lst ts"
  unfolding missing_trades_def
  by (rule filter_cong) (cases lst; fastforce simp: id_regressed_def)+

lemma rebuild_fits: "rebuild_lines E C ls log r = (Ok n, log') \<Longrightarrow> log_fits log' \<Longrightarrow> log_fits log"
proof (induction ls arbitrary: log r)
  case (Cons l ls)
  then show ?case
    by (auto simp: Let_def split: if_splits option.splits prod.splits sum.splits dest: id_log.ins_fits)
qed simp

lemma rebuild_lines_holds:
  assumes "log_holds log m" "rebuild_lines E C ls log r = (Ok n, log')" "log_fits log'"
    and "sorted_wrt (<) (map fst (journal_trades E (parsed C ls)))"
    and "list_all (\<lambda>(k, d). identity_ok k d) (journal_trades E (parsed C ls))"
  shows "log_fits log \<and> n = r + length (missing_trades (il_last_id log) (journal_trades E (parsed C ls)))
    \<and> log_holds log' (m ++ map_of (missing_trades (il_last_id log) (journal_trades E (parsed C ls))))"
  using assms
proof (induction ls arbitrary: log m r)
  case Nil
  then show ?case by (simp add: parsed_def missing_trades_def)
next
  case (Cons l ls)
  show ?case
  proof (cases "l = []")
    case True
    then show ?thesis using Cons by (simp add: parsed_def)
  next
    case ne: False
    obtain env ev where env: "envelope_from_slice C l = Some env" "event_of E env = Some ev"
      using Cons.prems(2) ne by (auto simp: Let_def event_of_def split: option.splits)
    have T: "journal_trades E (parsed C (l # ls)) = trade_of E env @ journal_trades E (parsed C ls)"
      using ne env(1) by (simp add: parsed_def journal_trades_def)
    show ?thesis
    proof (cases "ev = ''TRADE_OBSERVATION''")
      case False
      then have "trade_of E env = []" using env(2) by (simp add: trade_of.simps)
      then show ?thesis using Cons ne env False by (simp add: T event_of_def Let_def)
    next
      case tr: True
      obtain t d where td: "env_u64 E env ''trade_id'' = Some t" "env_str E env ''observation_sha256'' = Some d"
        using Cons.prems(2) ne env tr by (auto simp: Let_def event_of_def split: option.splits)
      have one: "trade_of E env = [(t, d)]" using env(2) td tr by (simp add: trade_of.simps)
      let ?S = "journal_trades E (parsed C ls)"
      have so: "sorted_wrt (<) (map fst ((t, d) # ?S))" using Cons.prems(4) by (simp add: T one)
      show ?thesis
      proof (cases "id_regressed (il_last_id log) t")
        case True
        then show ?thesis using Cons ne env td tr
          by (simp add: T one event_of_def Let_def missing_trades_def)
      next
        case False
        obtain log1 where i: "identity_insert log t d = (Ok (), log1)" "rebuild_lines E C ls log1 (r + 1) = (Ok n, log')"
          using Cons.prems(2) ne env td tr False
          by (auto simp: Let_def event_of_def split: prod.splits sum.splits)
        have l1: "il_last_id log1 = Some t" by (rule identity_insert_Ok(5) [OF i(1)])
        have holds1: "log_holds log1 (m(t \<mapsto> d))"
        proof -
          have "length (sk_data (il_file log1)) \<le> u64_max" using rebuild_fits [OF i(2) Cons.prems(3)] by (simp add: log_fits_def)
          then show ?thesis using id_log.ins_good [OF Cons.prems(1) i(1)] Cons.prems(5) by (simp add: T one log_fits_def)
        qed
        note ih = Cons.IH [OF holds1 i(2) Cons.prems(3)]
        have miss: "missing_trades (il_last_id log) ((t, d) # ?S) = (t, d) # missing_trades (Some t) ?S"
          using missing_trades_all [OF so False] False by (simp add: missing_trades_def)
        have "t \<notin> fst ` set (missing_trades (Some t) ?S)" by (auto simp: missing_trades_def id_regressed_def)
        then have "m(t \<mapsto> d) ++ map_of (missing_trades (Some t) ?S) = m ++ map_of ((t, d) # missing_trades (Some t) ?S)"
          by (intro ext) (simp add: map_add_def map_of_eq_None_iff [symmetric] split: option.splits)
        then show ?thesis
          using ih Cons.prems(4,5) id_log.ins_fits [OF i(1)] miss l1 by (simp add: T one del: fun_upd_apply)
      qed
    qed
  qed
qed

text \<open>
  Rebuild on resume. Walking a journal segment adds to the identity log exactly the trades of the
  segment beyond the log's last id, so that afterwards every lookup answers the identities the log
  had and those of the segment.
\<close>

theorem journal_rebuild_restores:
  assumes "log_holds log m" "rebuild_trade_identity_from_journal E C (Some data) log = (Ok n, log')" "log_fits log'"
    and "sorted_wrt (<) (map fst (journal_trades E (file_envelopes C data)))"
    and "list_all (\<lambda>(k, d). identity_ok k d) (journal_trades E (file_envelopes C data))"
  shows "n = length (missing_trades (il_last_id log) (journal_trades E (file_envelopes C data)))
    \<and> (\<forall>k. identity_lookup log' k
          = Ok ((m ++ map_of (missing_trades (il_last_id log) (journal_trades E (file_envelopes C data)))) k))"
proof -
  obtain log1 where r: "rebuild_lines E C (fst (split_lines data)) log 0 = (Ok n, log1)" "identity_sync log1 = (Ok (), log')"
    using assms(2) by (auto simp: rebuild_trade_identity_from_journal_def split: prod.splits sum.splits)
  have "log_fits log1" using assms(3) r(2)
    by (auto simp: identity_sync_def log_fits_def split: if_splits prod.splits bool.splits
        dest!: sink_overwrite_True sink_sync_data)
  then have h: "n = 0 + length (missing_trades (il_last_id log) (journal_trades E (file_envelopes C data)))"
    "log_holds log1 (m ++ map_of (missing_trades (il_last_id log) (journal_trades E (file_envelopes C data))))"
    using rebuild_lines_holds [OF assms(1) r(1)] assms(4,5) unfolding file_envelopes_def by blast+
  then have "log_holds log' (m ++ map_of (missing_trades (il_last_id log) (journal_trades E (file_envelopes C data))))"
    using identity_sync_clean [OF _ r(2)] by (auto simp: log_holds_def)
  then show ?thesis using h(1) id_log.lookup_good by fastforce
qed

end
