(* ===== verification/Journal_Audit_Witness.thy ===== *)
theory Journal_Audit_Witness
  imports Journal_Audit_Safety
begin

text \<open>
  Concrete runs for the theorems on the canonical live journal: a closed journal of two segments with
  one trade, a writer session, and a rebuild of an empty identity log. The struct codec is a finite
  table from lines to records.
\<close>

section \<open>A codec and three records\<close>

definition demo_ext :: "jv externals" where "demo_ext = table_externals []"

definition demo_started :: jv where
  "demo_started = JObj [(''event'', JStr ''ARBITRATION_STARTED''), (''symbol'', JStr ''BTCUSDT'')]"

definition demo_trade :: jv where
  "demo_trade = JObj [(''event'', JStr ''TRADE_OBSERVATION''), (''trade_id'', JNum 7),
     (''observation_sha256'', JStr demo_digest), (''record_sha256'', JStr demo_digest)]"

definition demo_terminal :: jv where
  "demo_terminal = JObj [(''event'', JStr ''ARBITRATION_TERMINAL''), (''status'', JStr ''COMPLETE''), (''trades'', JNum 1),
     (''depth_frames'', JNum 0), (''gaps'', JNum 0), (''late_corrections'', JNum 0)]"

definition demo_sha :: "nat \<Rightarrow> string" where "demo_sha k = hex (pad32 [word_of_nat k])"

definition demo_env :: "nat \<Rightarrow> jv \<Rightarrow> jv journal_envelope" where
  "demo_env k payload =
     \<lparr>je_body = \<lparr>jb_schema = JOURNAL_SCHEMA, jb_record_index = k, jb_wall_ns = 1, jb_mono_ns = 1, jb_channel = ''LIVE'',
        jb_payload = payload, jb_previous_record_sha256 = (if k = 0 then ZERO_DIGEST else demo_sha (k - 1))\<rparr>,
      je_record_sha256 = demo_sha k\<rparr>"

definition demo_resumed :: jv where
  "demo_resumed = JObj [(''event'', JStr ''ARBITRATION_RESUMED''), (''symbol'', JStr ''BTCUSDT''), (''mode'', JStr ''RESUMED''),
     (''previous_journal_sha256'', JStr (demo_sha 2)), (''trade_floor'', JNum 7)]"

definition demo_codec :: "jv journal_codec" where
  "demo_codec =
     \<lparr>body_to_vec = (\<lambda>b. Some [word_of_nat (jb_record_index b)]),
      envelope_to_vec = (\<lambda>e. if e = demo_env 0 demo_started then Some [65] else if e = demo_env 1 demo_trade then Some [66]
        else if e = demo_env 2 demo_terminal then Some [67] else None),
      envelope_from_slice = map_of [([65], demo_env 0 demo_started), ([66], demo_env 1 demo_trade),
        ([67], demo_env 2 demo_terminal), ([68], demo_env 0 demo_resumed), ([69], demo_env 1 demo_terminal),
        ([70], demo_env 0 demo_terminal)]\<rparr>"

lemma demo_codec_ok: "journal_codec_ok demo_codec"
  by (simp add: journal_codec_ok_def demo_codec_def newline_def)

lemma demo_from_slice [simp]:
  "envelope_from_slice demo_codec [65] = Some (demo_env 0 demo_started)"
  "envelope_from_slice demo_codec [66] = Some (demo_env 1 demo_trade)"
  "envelope_from_slice demo_codec [67] = Some (demo_env 2 demo_terminal)"
  "envelope_from_slice demo_codec [68] = Some (demo_env 0 demo_resumed)"
  "envelope_from_slice demo_codec [69] = Some (demo_env 1 demo_terminal)"
  "envelope_from_slice demo_codec [70] = Some (demo_env 0 demo_terminal)"
  by (simp_all add: demo_codec_def)

definition demo_file :: bytes where "demo_file = [65, 10, 66, 10, 67, 10]"

definition demo_later :: bytes where "demo_later = [68, 10, 69, 10]"

lemma demo_split [simp]: "split_lines demo_file = ([[65], [66], [67]], [])" "split_lines demo_later = ([[68], [69]], [])"
  by (simp_all add: demo_file_def demo_later_def newline_def)

lemma demo_chain [simp]:
  "body_to_vec demo_codec (je_body (demo_env k p)) = Some [word_of_nat k]"
  "sha256_hex demo_ext [word_of_nat k] = demo_sha k"
  "jb_schema (je_body (demo_env k p)) = JOURNAL_SCHEMA" "jb_record_index (je_body (demo_env k p)) = k"
  "jb_channel (je_body (demo_env k p)) = ''LIVE''" "jb_payload (je_body (demo_env k p)) = p"
  "je_record_sha256 (demo_env k p) = demo_sha k"
  "jb_previous_record_sha256 (je_body (demo_env k p)) = (if k = 0 then ZERO_DIGEST else demo_sha (k - 1))"
  by (simp_all add: demo_codec_def demo_env_def sha256_hex_def demo_ext_def demo_sha_def)

lemma demo_shas [simp]:
  "sha256_hex demo_ext [0] = demo_sha 0" "sha256_hex demo_ext [1] = demo_sha (Suc 0)" "sha256_hex demo_ext [2] = demo_sha 2"
  by (simp_all add: sha256_hex_def demo_ext_def demo_sha_def)

lemma demo_fields [simp]:
  "field_str demo_ext demo_started ''event'' = Some ''ARBITRATION_STARTED''"
  "field_str demo_ext demo_started ''symbol'' = Some ''BTCUSDT''"
  "field_u64 demo_ext demo_started ''trade_floor'' = None"
  "field_str demo_ext demo_trade ''event'' = Some ''TRADE_OBSERVATION''"
  "field_u64 demo_ext demo_trade ''trade_id'' = Some 7"
  "field_str demo_ext demo_trade ''observation_sha256'' = Some demo_digest"
  "field_str demo_ext demo_trade ''record_sha256'' = Some demo_digest"
  "field_str demo_ext demo_terminal ''event'' = Some ''ARBITRATION_TERMINAL''"
  "field_str demo_ext demo_terminal ''status'' = Some ''COMPLETE''"
  "field_u64 demo_ext demo_terminal ''trades'' = Some 1"
  "field_u64 demo_ext demo_terminal ''depth_frames'' = Some 0"
  "field_u64 demo_ext demo_terminal ''gaps'' = Some 0"
  "field_u64 demo_ext demo_terminal ''late_corrections'' = Some 0"
  "field_str demo_ext demo_resumed ''event'' = Some ''ARBITRATION_RESUMED''"
  "field_str demo_ext demo_resumed ''symbol'' = Some ''BTCUSDT''" "field_str demo_ext demo_resumed ''mode'' = Some ''RESUMED''"
  "field_str demo_ext demo_resumed ''previous_journal_sha256'' = Some (demo_sha 2)"
  "field_u64 demo_ext demo_resumed ''trade_floor'' = Some 7" "field_u64 demo_ext demo_resumed ''previous_tail_bytes'' = None"
  by (simp_all add: field_str_def field_u64_def demo_ext_def demo_resumed_def demo_started_def demo_trade_def demo_terminal_def u64_max_def)

lemma demo_hex64 [simp]:
  "payload_hex64 demo_ext demo_trade ''observation_sha256'' r = Ok demo_digest"
  "payload_hex64 demo_ext demo_trade ''record_sha256'' r = Ok demo_digest"
  by (simp_all add: payload_hex64_def demo_digest_def list_all_iff is_ascii_hexdigit_def is_lower_hex_def is_ascii_digit_def)

lemma demo_resumed_hex64 [simp]: "payload_hex64 demo_ext demo_resumed ''previous_journal_sha256'' r = Ok (demo_sha 2)"
proof -
  have "length (demo_sha 2) = 64" "list_all is_ascii_hexdigit (demo_sha 2)" by code_simp+
  then show ?thesis by (simp add: payload_hex64_def)
qed

section \<open>The closed journal\<close>

definition demo_st1 :: audit_state where
  "demo_st1 = (open_segment False audit_default)
     \<lparr>as_symbol := Some ''BTCUSDT'', as_started_seen := True, as_previous := demo_sha 0, as_records := 1\<rparr>"

definition demo_st2 :: audit_state where
  "demo_st2 = demo_st1\<lparr>as_last_trade_id := Some 7, as_published := [(7, demo_digest)], as_trades := 1, as_observations := 1,
     as_previous := demo_sha 1, as_records := 2\<rparr>"

lemma demo_step1: "apply_audit_record demo_ext demo_codec (open_segment False audit_default) (demo_env 0 demo_started) 0 True
    = Ok demo_st1"
  by (simp add: apply_audit_record_def audit_event_def audit_started_def demo_st1_def open_segment_def audit_default_def
      Let_def check_def)

lemma demo_step2: "apply_audit_record demo_ext demo_codec demo_st1 (demo_env 1 demo_trade) 1 False = Ok demo_st2"
  by (simp add: apply_audit_record_def audit_event_def audit_trade_def demo_st1_def demo_st2_def open_segment_def
      audit_default_def Let_def check_def id_regressed_def)

definition demo_st3 :: audit_state where
  "demo_st3 = demo_st2\<lparr>as_terminal_seen := True, as_previous := demo_sha 2, as_records := 3\<rparr>"

definition demo_st4 :: audit_state where
  "demo_st4 = (open_segment False (demo_st3\<lparr>as_segments := 1\<rparr>))\<lparr>as_previous := demo_sha 0, as_records := 4\<rparr>"

lemmas demo_states = demo_st1_def demo_st2_def demo_st3_def demo_st4_def open_segment_def audit_default_def Let_def check_def

lemma demo_step3: "apply_audit_record demo_ext demo_codec demo_st2 (demo_env 2 demo_terminal) 2 False = Ok demo_st3"
  by (simp add: apply_audit_record_def audit_event_def audit_terminal_def demo_states)

lemma demo_step4:
  "apply_audit_record demo_ext demo_codec (open_segment False (demo_st3\<lparr>as_segments := 1\<rparr>)) (demo_env 0 demo_resumed) 0 True = Ok demo_st4"
  by (simp add: apply_audit_record_def audit_event_def audit_resumed_def demo_states opt_max_def)

lemma demo_step5: "\<exists>st. apply_audit_record demo_ext demo_codec demo_st4 (demo_env 1 demo_terminal) 1 False = Ok st
    \<and> as_started_seen st \<and> as_terminal_seen st \<and> as_trades st = 1 \<and> as_last_trade_id st = Some 7"
  by (simp add: apply_audit_record_def audit_event_def audit_terminal_def demo_states)

lemma demo_scan: "\<exists>sc. scan_live_arbitration_journal_set demo_ext demo_codec [Some demo_file, Some demo_later] = Ok sc \<and> ls_trades sc = 1"
proof -
  have one: "walk_lines demo_ext demo_codec [[65], [66], [67]] 0 (open_segment False audit_default) = Ok (demo_st3, 3)"
    by (simp add: demo_step1 demo_step2 [unfolded One_nat_def] demo_step3 [unfolded numeral_2_eq_2] numeral_2_eq_2 JOURNAL_MAX_RECORD_BYTES_def)
  obtain st where st: "apply_audit_record demo_ext demo_codec demo_st4 (demo_env 1 demo_terminal) 1 False = Ok st"
    "as_started_seen st" "as_terminal_seen st" "as_trades st = 1" using demo_step5 by blast
  have two: "walk_lines demo_ext demo_codec [[68], [69]] 0 (open_segment False (demo_st3\<lparr>as_segments := 1\<rparr>)) = Ok (st, 2)"
    using st(1) by (simp add: demo_step4 [unfolded One_nat_def] JOURNAL_MAX_RECORD_BYTES_def)
  have "demo_st3\<lparr>as_segments := as_segments demo_st3 + 1, as_last_segment_tail := 0\<rparr> = demo_st3\<lparr>as_segments := 1\<rparr>"
    by (simp add: demo_states)
  then show ?thesis
    using one two st(2-4) by (simp add: scan_live_arbitration_journal_set_def walk_audit_file_def walk_audit_file_with_context_def
        finish_audit_def check_def)
qed

lemma demo_trades [simp]: "journal_trades demo_ext (file_envelopes demo_codec demo_file) = [(7, demo_digest)]"
  by (simp add: journal_trades_def trade_of.simps event_of_def file_envelopes_def parsed_def)

text \<open>Witness: the closed journal with trade 7 and the segment that resumes it.\<close>

theorem journal_set_sound_witness:
  "\<exists>sc. scan_live_arbitration_journal_set demo_ext demo_codec [Some demo_file, Some demo_later] = Ok sc \<and> ls_trades sc = 1
    \<and> follows_segment demo_ext demo_codec demo_file demo_later
    \<and> journal_chain demo_ext demo_codec ZERO_DIGEST 0 (file_envelopes demo_codec demo_file)"
proof -
  obtain sc where sc: "scan_live_arbitration_journal_set demo_ext demo_codec [Some demo_file, Some demo_later] = Ok sc" "ls_trades sc = 1"
    using demo_scan by blast
  obtain data datas where d: "[Some demo_file, Some demo_later] = map Some (data # datas)"
    "list_all (\<lambda>d. journal_chain demo_ext demo_codec ZERO_DIGEST 0 (file_envelopes demo_codec d)
       \<and> one_opening demo_ext (file_envelopes demo_codec d)) (data # datas)"
    "segments_follow demo_ext demo_codec data datas"
    using journal_set_sound [OF sc(1)] by (elim exE conjE) (rule that)
  then have "data = demo_file" "datas = [demo_later]" by auto
  then show ?thesis using sc d(2,3) by simp
qed

text \<open>
  The audit checks a resume record where there is one, but asks for none: a first segment with a torn tail followed by
  a segment that holds nothing but a terminal, linked to nothing, passes.
\<close>

theorem unlinked_segment_accepted:
  "\<exists>sc. scan_live_arbitration_journal_set demo_ext demo_codec [Some (demo_file @ [1]), Some [70, 10]] = Ok sc
    \<and> file_envelopes demo_codec [70, 10] = [demo_env 0 demo_terminal]"
proof -
  let ?st = "demo_st3\<lparr>as_segments := 1, as_last_segment_tail := 1\<rparr>"
  have split: "split_lines (demo_file @ [1]) = ([[65], [66], [67]], [1])" "split_lines [70, 10] = ([[70]], [])"
    by (simp_all add: demo_file_def newline_def)
  have one: "walk_lines demo_ext demo_codec [[65], [66], [67]] 0 (open_segment False audit_default) = Ok (demo_st3, 3)"
    by (simp add: demo_step1 demo_step2 [unfolded One_nat_def] demo_step3 [unfolded numeral_2_eq_2] numeral_2_eq_2 JOURNAL_MAX_RECORD_BYTES_def)
  obtain st where st: "apply_audit_record demo_ext demo_codec (open_segment False ?st) (demo_env 0 demo_terminal) 0 True = Ok st"
    "as_started_seen st" "as_terminal_seen st"
    by (simp add: apply_audit_record_def audit_event_def audit_terminal_def demo_states)
  have two: "walk_lines demo_ext demo_codec [[70]] 0 (open_segment False ?st) = Ok (st, 1)"
    using st(1) by (simp add: JOURNAL_MAX_RECORD_BYTES_def)
  have "demo_st3\<lparr>as_segments := as_segments demo_st3 + 1, as_last_segment_tail := 1\<rparr> = ?st" by (simp add: demo_states)
  then show ?thesis
    using one two split st(2-3) by (simp add: scan_live_arbitration_journal_set_def walk_audit_file_def walk_audit_file_with_context_def
        finish_audit_def check_def file_envelopes_def parsed_def)
qed

section \<open>A writer session\<close>

text \<open>Witness: the opening record written to a new file and read back after any cut.\<close>

theorem journal_reads_back_witness:
  "\<exists>w. journal_session demo_ext demo_codec [] [demo_env 0 demo_started] w
    \<and> file_envelopes demo_codec (sk_data (jw_file w)) = [demo_env 0 demo_started]"
proof -
  have n: "next_envelope demo_ext demo_codec (journal_create []) 1 1 ''LIVE'' demo_started = Ok (demo_env 0 demo_started)"
    by (simp add: next_envelope_def journal_create_def demo_env_def demo_codec_def sha256_hex_def demo_ext_def demo_sha_def Let_def)
  have v: "envelope_to_vec demo_codec (demo_env 0 demo_started) = Some [65]" by (simp add: demo_codec_def)
  obtain d w where a: "journal_append demo_ext demo_codec (Ok 1) (journal_create []) 1 ''LIVE'' demo_started = (Ok d, w)"
    using v by (simp add: journal_append_def n [unfolded One_nat_def])
      (simp add: journal_create_def sink_write_all_def sink_sync_def checked_add_def u64_max_def)
  have s: "journal_session demo_ext demo_codec [] [demo_env 0 demo_started] w"
    using session_record [OF session_create n a] by simp
  then show ?thesis using journal_reads_back [OF s demo_codec_ok] by blast
qed

section \<open>A rebuild\<close>

text \<open>Witness: the closed journal rebuilt into an empty log.\<close>

theorem journal_rebuild_restores_witness:
  "\<exists>l0 l1. identity_create [] = Ok l0
    \<and> rebuild_trade_identity_from_journal demo_ext demo_codec (Some demo_file) l0 = (Ok 1, l1)
    \<and> identity_lookup l1 7 = Ok (Some demo_digest) \<and> identity_lookup l1 8 = Ok None"
proof -
  define l0 where "l0 = \<lparr>il_file = \<lparr>sk_data = header_bytes 0, sk_synced = 32, sk_plan = []\<rparr>, il_count = 0,
      il_last_id = None, il_dirty = False\<rparr>"
  have c: "identity_create [] = Ok l0"
    by (simp add: identity_create_def sink_write_all_def sink_sync_def l0_def)
  have h: "log_holds l0 Map.empty" using identity_create_clean [OF c] by (auto simp: log_holds_def)
  define l2 where "l2 = \<lparr>il_file = \<lparr>sk_data = header_bytes 0 @ identity_record 7 demo_bytes, sk_synced = 32, sk_plan = []\<rparr>,
      il_count = 1, il_last_id = Some 7, il_dirty = True\<rparr>"
  have i: "identity_insert l0 7 demo_digest = (Ok (), l2)"
    by (simp add: l0_def l2_def identity_insert_def id_regressed_def demo_decode sink_write_all_def checked_add_def u64_max_def)
  obtain l1 where y: "identity_sync l2 = (Ok (), l1)" "log_fits l1"
    by (simp add: l2_def identity_sync_def sink_overwrite_def sink_sync_def log_fits_def identity_record_def demo_bytes_len
        u64_max_def)
  have r: "rebuild_trade_identity_from_journal demo_ext demo_codec (Some demo_file) l0 = (Ok 1, l1)"
    using i y by (simp add: rebuild_trade_identity_from_journal_def l0_def id_regressed_def)
  have "\<forall>k. identity_lookup l1 k = Ok ((Map.empty ++ map_of (missing_trades (il_last_id l0)
          (journal_trades demo_ext (file_envelopes demo_codec demo_file)))) k)"
    using journal_rebuild_restores [OF h r y(2)] by (simp add: demo_digest_ok u64_max_def)
  then have "identity_lookup l1 7 = Ok (Some demo_digest)" "identity_lookup l1 8 = Ok None"
    by (simp_all add: missing_trades_def l0_def id_regressed_def)
  with c r show ?thesis by blast
qed

end
