(* ===== verification/Handover.thy ===== *)
theory Handover
  imports Rust_Prelude "HOL-Library.Char_ord"
begin

text \<open>
  The connection-epoch handover controller of \<open>src/rust/lob-replay/src/handover.rs\<close>. Every
  \<open>&mut self\<close> operation answers its result and the controller it leaves behind, since
  \<open>observe_book\<close> and \<open>close_draining\<close> change the controller and still answer an error. The event
  index is the length of the event vector, which lives in memory, so its increment cannot overflow.
\<close>

section \<open>Data\<close>

datatype epoch_state =
    Connecting | Buffering | Snapshotting | Syncing | LiveBook | Active | Draining | Closed | Failed

datatype publication_state = PubUnavailable | PubLive | PubHandover | PubGap

record epoch_status =
  es_epoch :: string
  es_state :: epoch_state
  es_final_update_id :: "nat option"
  es_state_sha256 :: "string option"

record handover_event =
  he_event_index :: nat
  he_action :: string
  he_epoch :: string
  he_from :: "epoch_state option"
  he_to :: "epoch_state option"
  he_reason :: "string option"

record epoch_failure =
  ef_epoch :: string
  ef_prior_state :: epoch_state
  ef_reason :: string

record handover_controller =
  hc_symbol :: string
  hc_publication :: publication_state
  hc_active :: epoch_status
  hc_candidate :: "epoch_status option"
  hc_draining :: "epoch_status option"
  hc_failures :: "epoch_failure list"
  hc_events :: "handover_event list"
  hc_used_epochs :: "string set"
  hc_next_event_index :: nat

definition in_scope :: "string \<Rightarrow> bool" where
  "in_scope symbol \<longleftrightarrow> symbol = ''BTCUSDT'' \<or> symbol = ''ETHUSDT''"

definition validate_digest :: "string \<Rightarrow> unit res" where
  "validate_digest d =
     (if length d \<noteq> 64 \<or> \<not> list_all is_lower_hex d
      then Err (Fail ''state digest must be 64 lowercase hexadecimal characters'') else Ok ())"

section \<open>Operations\<close>

definition connecting :: "string \<Rightarrow> epoch_status res" where
  "connecting epoch =
     (if trim_is_empty epoch then Err (Fail ''connection epoch must not be empty'')
      else Ok \<lparr>es_epoch = epoch, es_state = Connecting, es_final_update_id = None, es_state_sha256 = None\<rparr>)"

definition record_event ::
  "string \<Rightarrow> string \<Rightarrow> epoch_state option \<Rightarrow> epoch_state option \<Rightarrow> string option \<Rightarrow> handover_controller
     \<Rightarrow> handover_controller" where
  "record_event action epoch from to reason c =
     c\<lparr>hc_events := hc_events c @ [\<lparr>he_event_index = hc_next_event_index c, he_action = action, he_epoch = epoch,
         he_from = from, he_to = to, he_reason = reason\<rparr>],
       hc_next_event_index := hc_next_event_index c + 1\<rparr>"

definition handover_new :: "string \<Rightarrow> string \<Rightarrow> handover_controller res" where
  "handover_new symbol initial_epoch =
     (if \<not> in_scope symbol then Err (FailS ''symbol outside scope'' [symbol])
      else rbind (connecting initial_epoch) (\<lambda>active.
        Ok (record_event ''BEGIN_INITIAL_EPOCH'' initial_epoch None (Some Connecting) None
          \<lparr>hc_symbol = symbol, hc_publication = PubUnavailable, hc_active = active, hc_candidate = None, hc_draining = None,
           hc_failures = [], hc_events = [], hc_used_epochs = {initial_epoch}, hc_next_event_index = 0\<rparr>)))"

definition is_epoch :: "string \<Rightarrow> epoch_status option \<Rightarrow> bool" where
  "is_epoch epoch s = (case s of Some st \<Rightarrow> es_epoch st = epoch | None \<Rightarrow> False)"

text \<open>\<open>epoch\<close>, the status of a known epoch, and the update through \<open>epoch_mut\<close>.\<close>

definition find_epoch :: "handover_controller \<Rightarrow> string \<Rightarrow> epoch_status res" where
  "find_epoch c epoch =
     (if es_epoch (hc_active c) = epoch then Ok (hc_active c)
      else if is_epoch epoch (hc_candidate c) then Ok (the (hc_candidate c))
      else if is_epoch epoch (hc_draining c) then Ok (the (hc_draining c))
      else Err (FailS ''unknown connection epoch'' [epoch]))"

definition update_epoch :: "string \<Rightarrow> (epoch_status \<Rightarrow> epoch_status) \<Rightarrow> handover_controller \<Rightarrow> handover_controller" where
  "update_epoch epoch f c =
     (if es_epoch (hc_active c) = epoch then c\<lparr>hc_active := f (hc_active c)\<rparr>
      else if is_epoch epoch (hc_candidate c) then c\<lparr>hc_candidate := map_option f (hc_candidate c)\<rparr>
      else if is_epoch epoch (hc_draining c) then c\<lparr>hc_draining := map_option f (hc_draining c)\<rparr>
      else c)"

definition allowed_transition :: "epoch_state \<Rightarrow> epoch_state \<Rightarrow> bool" where
  "allowed_transition current target \<longleftrightarrow>
     (current = Connecting \<and> target = Buffering) \<or> (current = Buffering \<and> target = Snapshotting)
     \<or> (current = Snapshotting \<and> target = Syncing)"

definition transition_epoch :: "string \<Rightarrow> epoch_state \<Rightarrow> handover_controller \<Rightarrow> unit res \<times> handover_controller" where
  "transition_epoch epoch target c =
     (case find_epoch c epoch of
        Inl e \<Rightarrow> (Err e, c)
      | Inr s \<Rightarrow>
          if \<not> allowed_transition (es_state s) target
          then (Err (FailS ''illegal epoch transition'' [epoch]), c)
          else (Ok (), record_event ''TRANSITION'' epoch (Some (es_state s)) (Some target) None
                  (update_epoch epoch (\<lambda>st. st\<lparr>es_state := target\<rparr>) c)))"

definition mark_live :: "string \<Rightarrow> nat \<Rightarrow> string \<Rightarrow> handover_controller \<Rightarrow> unit res \<times> handover_controller" where
  "mark_live epoch update_id digest c =
     (case rbind (validate_digest digest) (\<lambda>_. find_epoch c epoch) of
        Inl e \<Rightarrow> (Err e, c)
      | Inr s \<Rightarrow>
          if es_state s \<noteq> Syncing then (Err (FailS ''epoch cannot become LIVE'' [epoch]), c)
          else (Ok (), record_event ''BOOK_LIVE'' epoch (Some (es_state s)) (Some LiveBook) None
                  (update_epoch epoch (\<lambda>st. st\<lparr>es_state := LiveBook, es_final_update_id := Some update_id,
                     es_state_sha256 := Some digest\<rparr>) c)))"

definition activate_initial :: "handover_controller \<Rightarrow> unit res \<times> handover_controller" where
  "activate_initial c =
     (if hc_publication c \<noteq> PubUnavailable \<or> hc_candidate c \<noteq> None \<or> hc_draining c \<noteq> None
         \<or> es_state (hc_active c) \<noteq> LiveBook
      then (Err (Fail ''initial epoch is not ready for activation''), c)
      else (Ok (), record_event ''ACTIVATE_INITIAL'' (es_epoch (hc_active c)) (Some LiveBook) (Some Active) None
              (c\<lparr>hc_active := (hc_active c)\<lparr>es_state := Active\<rparr>, hc_publication := PubLive\<rparr>)))"

definition begin_handover :: "string \<Rightarrow> handover_controller \<Rightarrow> unit res \<times> handover_controller" where
  "begin_handover candidate_epoch c =
     (if hc_publication c \<noteq> PubLive \<or> es_state (hc_active c) \<noteq> Active
      then (Err (Fail ''handover requires an active LIVE publication''), c)
      else if hc_candidate c \<noteq> None \<or> hc_draining c \<noteq> None
      then (Err (Fail ''another candidate or draining epoch already exists''), c)
      else if candidate_epoch \<in> hc_used_epochs c
      then (Err (FailS ''connection epoch cannot be reused'' [candidate_epoch]), c)
      else case connecting candidate_epoch of
        Inl e \<Rightarrow> (Err e, c)
      | Inr s \<Rightarrow>
          (Ok (), record_event ''BEGIN_CANDIDATE_EPOCH'' candidate_epoch None (Some Connecting) None
             (c\<lparr>hc_candidate := Some s, hc_used_epochs := insert candidate_epoch (hc_used_epochs c),
                hc_publication := PubHandover\<rparr>)))"

definition failure_of :: "string \<Rightarrow> epoch_state \<Rightarrow> string \<Rightarrow> epoch_failure" where
  "failure_of epoch prior reason = \<lparr>ef_epoch = epoch, ef_prior_state = prior, ef_reason = reason\<rparr>"

definition fail_epoch :: "string \<Rightarrow> string \<Rightarrow> handover_controller \<Rightarrow> unit res \<times> handover_controller" where
  "fail_epoch epoch reason c =
     (if trim_is_empty reason then (Err (Fail ''failure reason must not be empty''), c)
      else if es_epoch (hc_active c) = epoch then
        (let prior = es_state (hc_active c) in
         if prior = Failed \<or> prior = Closed then (Err (Fail ''active epoch is already terminal''), c)
         else (Ok (), record_event ''ACTIVE_FAILED'' epoch (Some prior) (Some Failed) (Some reason)
                 (c\<lparr>hc_active := (hc_active c)\<lparr>es_state := Failed\<rparr>, hc_publication := PubGap,
                    hc_failures := hc_failures c @ [failure_of epoch prior reason]\<rparr>)))
      else if is_epoch epoch (hc_draining c) then
        (let prior = es_state (the (hc_draining c)) in
         (Ok (), record_event ''DRAINING_FAILED'' epoch (Some prior) (Some Failed) (Some reason)
            (c\<lparr>hc_draining := None, hc_failures := hc_failures c @ [failure_of epoch prior reason]\<rparr>)))
      else if is_epoch epoch (hc_candidate c) then
        (let prior = es_state (the (hc_candidate c)) in
         (Ok (), record_event ''CANDIDATE_FAILED'' epoch (Some prior) (Some Failed) (Some reason)
            (c\<lparr>hc_candidate := None, hc_failures := hc_failures c @ [failure_of epoch prior reason],
               hc_publication := PubLive\<rparr>)))
      else (Err (FailS ''unknown or non-failable epoch'' [epoch]), c))"

text \<open>\<open>self.fail_epoch(epoch, &reason)?; return Err(reason)\<close>.\<close>

definition fail_and_report :: "string \<Rightarrow> string \<Rightarrow> handover_controller \<Rightarrow> unit res \<times> handover_controller" where
  "fail_and_report epoch reason c =
     (case fail_epoch epoch reason c of
        (Inl e, c') \<Rightarrow> (Err e, c')
      | (Inr _, c') \<Rightarrow> (Err (Fail reason), c'))"

definition regressed_reason :: "nat \<Rightarrow> nat \<Rightarrow> string" where
  "regressed_reason previous update_id =
     ''book update ID regressed from '' @ dec_str previous @ '' to '' @ dec_str update_id"

definition conflicting_reason :: "nat \<Rightarrow> string" where
  "conflicting_reason update_id = ''same update ID '' @ dec_str update_id @ '' produced a different digest''"

definition observe_book :: "string \<Rightarrow> nat \<Rightarrow> string \<Rightarrow> handover_controller \<Rightarrow> unit res \<times> handover_controller" where
  "observe_book epoch update_id digest c =
     (case rbind (validate_digest digest) (\<lambda>_. find_epoch c epoch) of
        Inl e \<Rightarrow> (Err e, c)
      | Inr s \<Rightarrow>
          if es_state s \<notin> {LiveBook, Active, Draining}
          then (Err (FailS ''epoch cannot publish book observations'' [epoch]), c)
          else
            (let advance = (Ok (), record_event ''BOOK_ADVANCE'' epoch None None None
               (update_epoch epoch (\<lambda>st. st\<lparr>es_final_update_id := Some update_id, es_state_sha256 := Some digest\<rparr>) c))
             in case es_final_update_id s of
               None \<Rightarrow> advance
             | Some previous \<Rightarrow>
                 if update_id < previous then fail_and_report epoch (regressed_reason previous update_id) c
                 else if update_id = previous then
                   (if es_state_sha256 s = Some digest then (Ok (), c)
                    else fail_and_report epoch (conflicting_reason update_id) c)
                 else advance))"

definition candidate_converged :: "handover_controller \<Rightarrow> bool" where
  "candidate_converged c =
     (case hc_candidate c of
        None \<Rightarrow> False
      | Some s \<Rightarrow>
          es_state s = LiveBook \<and> es_state (hc_active c) = Active
          \<and> es_final_update_id s = es_final_update_id (hc_active c)
          \<and> es_state_sha256 s = es_state_sha256 (hc_active c) \<and> es_final_update_id s \<noteq> None)"

definition promote_candidate :: "handover_controller \<Rightarrow> unit res \<times> handover_controller" where
  "promote_candidate c =
     (if hc_publication c \<noteq> PubHandover \<or> \<not> candidate_converged c
      then (Err (Fail ''candidate cannot be promoted without exact convergence''), c)
      else case hc_candidate c of
        None \<Rightarrow> (Err (Fail ''candidate disappeared''), c)
      | Some s \<Rightarrow>
          (Ok (), record_event ''PROMOTE_CANDIDATE'' (es_epoch s) (Some LiveBook) (Some Active)
             (Some (''replaced '' @ es_epoch (hc_active c) @ '' after exact convergence''))
             (c\<lparr>hc_candidate := None, hc_active := s\<lparr>es_state := Active\<rparr>,
                hc_draining := Some ((hc_active c)\<lparr>es_state := Draining\<rparr>), hc_publication := PubLive\<rparr>)))"

definition close_draining :: "handover_controller \<Rightarrow> unit res \<times> handover_controller" where
  "close_draining c =
     (case hc_draining c of
        None \<Rightarrow> (Err (Fail ''no draining epoch''), c)
      | Some s \<Rightarrow>
          let c1 = c\<lparr>hc_draining := None\<rparr> in
          if es_state s \<noteq> Draining then (Err (Fail ''retired epoch is not draining''), c1)
          else (Ok (), record_event ''CLOSE_DRAINING'' (es_epoch s) (Some Draining) (Some Closed) None c1))"

definition rotation_deadline_expired :: "string \<Rightarrow> handover_controller \<Rightarrow> unit res \<times> handover_controller" where
  "rotation_deadline_expired reason c =
     (if hc_publication c \<noteq> PubHandover then (Err (Fail ''rotation deadline applies only during handover''), c)
      else fail_epoch (es_epoch (hc_active c)) reason c)"

section \<open>The state machine\<close>

datatype handover_op =
    TransitionEpoch string epoch_state
  | MarkLive string nat string
  | ActivateInitial
  | BeginHandover string
  | ObserveBook string nat string
  | PromoteCandidate
  | CloseDraining
  | FailEpoch string string
  | DeadlineExpired string

fun handover_step :: "handover_op \<Rightarrow> handover_controller \<Rightarrow> unit res \<times> handover_controller" where
  "handover_step (TransitionEpoch e t) c = transition_epoch e t c"
| "handover_step (MarkLive e u d) c = mark_live e u d c"
| "handover_step ActivateInitial c = activate_initial c"
| "handover_step (BeginHandover e) c = begin_handover e c"
| "handover_step (ObserveBook e u d) c = observe_book e u d c"
| "handover_step PromoteCandidate c = promote_candidate c"
| "handover_step CloseDraining c = close_draining c"
| "handover_step (FailEpoch e r) c = fail_epoch e r c"
| "handover_step (DeadlineExpired r) c = rotation_deadline_expired r c"

inductive handover_reachable :: "handover_controller \<Rightarrow> bool" where
  hr_new: "handover_new symbol epoch = Ok c \<Longrightarrow> handover_reachable c"
| hr_step: "handover_reachable c \<Longrightarrow> handover_reachable (snd (handover_step op c))"

end
