(* ===== verification/Handover_Safety.thy ===== *)
theory Handover_Safety
  imports Handover
begin

text \<open>
  The invariant of the handover controller over every sequence of operations, refused and failing
  ones included, and the theorems on it: what promotion continues, that the published book never
  goes back, and the publication state after a candidate fails behind a failed active epoch.
\<close>

section \<open>The invariant\<close>

definition pre_live :: "epoch_state \<Rightarrow> bool" where
  "pre_live s \<longleftrightarrow> s = Connecting \<or> s = Buffering \<or> s = Snapshotting \<or> s = Syncing"

definition book_live :: "epoch_state \<Rightarrow> bool" where
  "book_live s \<longleftrightarrow> s = LiveBook \<or> s = Active \<or> s = Draining"

definition status_ok :: "epoch_status \<Rightarrow> bool" where
  "status_ok s \<longleftrightarrow> (pre_live (es_state s) \<longrightarrow> es_final_update_id s = None \<and> es_state_sha256 s = None)
     \<and> (book_live (es_state s) \<longrightarrow> es_final_update_id s \<noteq> None \<and> es_state_sha256 s \<noteq> None)"

definition roles_ok :: "handover_controller \<Rightarrow> bool" where
  "roles_ok c \<longleftrightarrow> status_ok (hc_active c) \<and> es_state (hc_active c) \<noteq> Draining \<and> es_state (hc_active c) \<noteq> Closed
     \<and> (\<forall>s. hc_candidate c = Some s \<longrightarrow> status_ok s \<and> (pre_live (es_state s) \<or> es_state s = LiveBook))
     \<and> (\<forall>s. hc_draining c = Some s \<longrightarrow> status_ok s \<and> es_state s = Draining)
     \<and> (hc_candidate c = None \<or> hc_draining c = None)"

definition epochs_ok :: "handover_controller \<Rightarrow> bool" where
  "epochs_ok c \<longleftrightarrow> es_epoch (hc_active c) \<in> hc_used_epochs c
     \<and> (\<forall>s. hc_candidate c = Some s \<longrightarrow> es_epoch s \<in> hc_used_epochs c \<and> es_epoch s \<noteq> es_epoch (hc_active c))
     \<and> (\<forall>s. hc_draining c = Some s \<longrightarrow> es_epoch s \<in> hc_used_epochs c \<and> es_epoch s \<noteq> es_epoch (hc_active c))"

definition publication_ok :: "handover_controller \<Rightarrow> bool" where
  "publication_ok c \<longleftrightarrow>
     (hc_publication c = PubUnavailable \<longrightarrow> hc_candidate c = None \<and> hc_draining c = None
        \<and> (pre_live (es_state (hc_active c)) \<or> es_state (hc_active c) = LiveBook))
     \<and> (hc_publication c = PubLive \<longrightarrow>
        hc_candidate c = None \<and> (es_state (hc_active c) = Active
          \<or> es_state (hc_active c) = Failed \<and> ef_epoch (last (hc_failures c)) \<noteq> es_epoch (hc_active c)))
     \<and> (hc_publication c = PubHandover \<longrightarrow> hc_candidate c \<noteq> None \<and> es_state (hc_active c) = Active)
     \<and> (hc_publication c = PubGap \<longrightarrow> es_state (hc_active c) = Failed)"

definition failures_ok :: "handover_controller \<Rightarrow> bool" where
  "failures_ok c \<longleftrightarrow> distinct (map ef_epoch (hc_failures c)) \<and> ef_epoch ` set (hc_failures c) \<subseteq> hc_used_epochs c
     \<and> (es_epoch (hc_active c) \<in> ef_epoch ` set (hc_failures c) \<longleftrightarrow> es_state (hc_active c) = Failed)
     \<and> (\<forall>s. hc_candidate c = Some s \<longrightarrow> es_epoch s \<notin> ef_epoch ` set (hc_failures c))
     \<and> (\<forall>s. hc_draining c = Some s \<longrightarrow> es_epoch s \<notin> ef_epoch ` set (hc_failures c))"

definition events_ok :: "handover_controller \<Rightarrow> bool" where
  "events_ok c \<longleftrightarrow> hc_next_event_index c = length (hc_events c)
     \<and> map he_event_index (hc_events c) = [0..<length (hc_events c)]"

definition handover_inv :: "handover_controller \<Rightarrow> bool" where
  "handover_inv c \<longleftrightarrow> roles_ok c \<and> epochs_ok c \<and> publication_ok c \<and> failures_ok c \<and> events_ok c"

lemma handover_invI:
  "roles_ok c \<Longrightarrow> epochs_ok c \<Longrightarrow> publication_ok c \<Longrightarrow> failures_ok c \<Longrightarrow> events_ok c \<Longrightarrow> handover_inv c"
  by (simp add: handover_inv_def)

lemma handover_invD:
  assumes "handover_inv c"
  shows "roles_ok c" "epochs_ok c" "publication_ok c" "failures_ok c" "events_ok c"
  using assms by (simp_all add: handover_inv_def)

lemmas part_defs = roles_ok_def epochs_ok_def publication_ok_def failures_ok_def

text \<open>Recording an event touches the event log only.\<close>

lemma record_event_simps [simp]:
  "hc_symbol (record_event a e f t r c) = hc_symbol c"
  "hc_publication (record_event a e f t r c) = hc_publication c"
  "hc_active (record_event a e f t r c) = hc_active c"
  "hc_candidate (record_event a e f t r c) = hc_candidate c"
  "hc_draining (record_event a e f t r c) = hc_draining c"
  "hc_failures (record_event a e f t r c) = hc_failures c"
  "hc_used_epochs (record_event a e f t r c) = hc_used_epochs c"
  by (simp_all add: record_event_def)

lemma events_update [simp]:
  "events_ok (c\<lparr>hc_active := a\<rparr>) = events_ok c" "events_ok (c\<lparr>hc_candidate := k\<rparr>) = events_ok c"
  "events_ok (c\<lparr>hc_draining := k\<rparr>) = events_ok c" "events_ok (c\<lparr>hc_failures := fs\<rparr>) = events_ok c"
  "events_ok (c\<lparr>hc_publication := p\<rparr>) = events_ok c" "events_ok (c\<lparr>hc_used_epochs := us\<rparr>) = events_ok c"
  by (simp_all add: events_ok_def)

lemma events_record [simp]: "events_ok c \<Longrightarrow> events_ok (record_event a e f t r c)"
  by (simp add: events_ok_def record_event_def)

lemma parts_record [simp]:
  "roles_ok (record_event a e f t r c) = roles_ok c" "epochs_ok (record_event a e f t r c) = epochs_ok c"
  "publication_ok (record_event a e f t r c) = publication_ok c" "failures_ok (record_event a e f t r c) = failures_ok c"
  by (simp_all add: part_defs)

lemma inv_record: "handover_inv c \<Longrightarrow> handover_inv (record_event a e f t r c)"
  by (simp add: handover_inv_def)

lemma update_epoch_simps [simp]:
  "hc_symbol (update_epoch e f c) = hc_symbol c" "hc_publication (update_epoch e f c) = hc_publication c"
  "hc_failures (update_epoch e f c) = hc_failures c" "hc_used_epochs (update_epoch e f c) = hc_used_epochs c"
  "events_ok (update_epoch e f c) = events_ok c"
  by (simp_all add: update_epoch_def events_ok_def)

text \<open>
  An update of one epoch keeps the invariant when it keeps the name and moves the state the way the
  role of the epoch allows.
\<close>

lemma find_epoch_roles:
  assumes "handover_inv c" "find_epoch c epoch = Ok s"
  shows "status_ok s" "es_epoch s = epoch"
  using assms by (auto simp: handover_inv_def roles_ok_def find_epoch_def is_epoch_def split: if_splits option.splits)

lemma inv_update_epoch:
  assumes inv: "handover_inv c" and s: "find_epoch c epoch = Ok s"
    and f: "es_epoch (f s) = es_epoch s" "status_ok (f s)"
      "es_state (f s) = es_state s
       \<or> pre_live (es_state s) \<and> (pre_live (es_state (f s)) \<or> es_state (f s) = LiveBook)"
  shows "handover_inv (update_epoch epoch f c)"
proof (rule handover_invI)
  note d = handover_invD [OF inv]
  have st: "\<not> pre_live Failed" "\<not> pre_live Active" "\<not> pre_live Draining" "\<not> pre_live Closed" "\<not> pre_live LiveBook"
    by (simp_all add: pre_live_def)
  show "roles_ok (update_epoch epoch f c)"
    using d(1) s f st by (auto simp: roles_ok_def update_epoch_def find_epoch_def is_epoch_def split: if_splits option.splits)
  show "epochs_ok (update_epoch epoch f c)"
    using d(2) s f(1) by (auto simp: epochs_ok_def update_epoch_def find_epoch_def is_epoch_def split: if_splits option.splits)
  show "publication_ok (update_epoch epoch f c)"
    using d(3) s f(1,3) st by (auto simp: publication_ok_def update_epoch_def find_epoch_def is_epoch_def
        split: if_splits option.splits)
  show "failures_ok (update_epoch epoch f c)"
    using d(4) s f(1,3) st by (auto simp: failures_ok_def update_epoch_def find_epoch_def is_epoch_def
        split: if_splits option.splits)
  show "events_ok (update_epoch epoch f c)" using d(5) by simp
qed

section \<open>Every operation keeps it\<close>

lemma handover_new_inv: "handover_new symbol epoch = Ok c \<Longrightarrow> handover_inv c"
  by (auto simp: handover_new_def connecting_def handover_inv_def part_defs events_ok_def status_ok_def pre_live_def
      book_live_def record_event_def split: if_splits)

lemma transition_inv: "handover_inv c \<Longrightarrow> handover_inv (snd (transition_epoch epoch target c))"
proof -
  assume inv: "handover_inv c"
  show ?thesis
  proof (cases "find_epoch c epoch")
    case (Inr s)
    have "handover_inv (update_epoch epoch (\<lambda>st. st\<lparr>es_state := target\<rparr>) c)" if "allowed_transition (es_state s) target"
      using that find_epoch_roles(1) [OF inv Inr]
      by (intro inv_update_epoch [OF inv Inr])
        (auto simp: allowed_transition_def pre_live_def status_ok_def book_live_def)
    then show ?thesis using inv Inr by (auto simp: transition_epoch_def inv_record)
  qed (use inv in \<open>simp add: transition_epoch_def\<close>)
qed

lemma mark_live_inv: "handover_inv c \<Longrightarrow> handover_inv (snd (mark_live epoch u d c))"
proof -
  assume inv: "handover_inv c"
  show ?thesis
  proof (cases "rbind (validate_digest d) (\<lambda>_. find_epoch c epoch)")
    case (Inr s)
    then have s: "find_epoch c epoch = Ok s" by auto
    have "handover_inv (update_epoch epoch (\<lambda>st. st\<lparr>es_state := LiveBook, es_final_update_id := Some u,
        es_state_sha256 := Some d\<rparr>) c)" if "es_state s = Syncing"
      using that find_epoch_roles(1) [OF inv s]
      by (intro inv_update_epoch [OF inv s]) (auto simp: pre_live_def status_ok_def book_live_def)
    then show ?thesis using inv Inr by (auto simp: mark_live_def inv_record)
  qed (use inv in \<open>simp add: mark_live_def\<close>)
qed

lemma is_epoch_iff: "is_epoch epoch s \<longleftrightarrow> (\<exists>st. s = Some st \<and> es_epoch st = epoch)"
  by (simp add: is_epoch_def split: option.split)

lemma inv_fail_active:
  assumes inv: "handover_inv c" and st: "es_state (hc_active c) \<noteq> Failed"
  shows "handover_inv (c\<lparr>hc_active := (hc_active c)\<lparr>es_state := Failed\<rparr>, hc_publication := PubGap,
    hc_failures := hc_failures c @ [failure_of (es_epoch (hc_active c)) prior reason]\<rparr>)"
proof (rule handover_invI, goal_cases)
  case 1
  show ?case using handover_invD(1) [OF inv] by (simp add: roles_ok_def status_ok_def pre_live_def book_live_def)
next
  case 2
  show ?case using handover_invD(2) [OF inv] by (simp add: epochs_ok_def)
next
  case 3
  show ?case using handover_invD(3) [OF inv] by (simp add: publication_ok_def)
next
  case 4
  show ?case using handover_invD(2,4) [OF inv] st by (auto simp: failures_ok_def epochs_ok_def failure_of_def)
next
  case 5
  show ?case using handover_invD(5) [OF inv] by simp
qed

lemma inv_fail_draining:
  assumes inv: "handover_inv c" and s: "hc_draining c = Some s"
  shows "handover_inv (c\<lparr>hc_draining := None, hc_failures := hc_failures c @ [failure_of (es_epoch s) prior reason]\<rparr>)"
proof (rule handover_invI, goal_cases)
  case 1
  show ?case using handover_invD(1) [OF inv] by (simp add: roles_ok_def)
next
  case 2
  show ?case using handover_invD(2) [OF inv] by (simp add: epochs_ok_def)
next
  case 3
  show ?case using handover_invD(2,3) [OF inv] s by (auto simp: publication_ok_def epochs_ok_def failure_of_def)
next
  case 4
  show ?case using handover_invD(1,2,4) [OF inv] s by (auto simp: failures_ok_def epochs_ok_def roles_ok_def failure_of_def)
next
  case 5
  show ?case using handover_invD(5) [OF inv] by simp
qed

lemma inv_fail_candidate:
  assumes inv: "handover_inv c" and s: "hc_candidate c = Some s"
  shows "handover_inv (c\<lparr>hc_candidate := None, hc_failures := hc_failures c @ [failure_of (es_epoch s) prior reason],
    hc_publication := PubLive\<rparr>)"
proof (rule handover_invI, goal_cases)
  case 1
  show ?case using handover_invD(1) [OF inv] by (simp add: roles_ok_def)
next
  case 2
  show ?case using handover_invD(2) [OF inv] by (simp add: epochs_ok_def)
next
  case 3
  show ?case using handover_invD(2,3) [OF inv] s
    by (cases "hc_publication c") (auto simp: publication_ok_def epochs_ok_def failure_of_def)
next
  case 4
  show ?case using handover_invD(1,2,4) [OF inv] s by (auto simp: failures_ok_def epochs_ok_def roles_ok_def failure_of_def)
next
  case 5
  show ?case using handover_invD(5) [OF inv] by simp
qed

lemma fail_epoch_inv:
  assumes inv: "handover_inv c"
  shows "handover_inv (snd (fail_epoch epoch reason c))"
proof -
  consider "es_epoch (hc_active c) = epoch" | s where "es_epoch (hc_active c) \<noteq> epoch" "hc_draining c = Some s" "es_epoch s = epoch"
    | s where "es_epoch (hc_active c) \<noteq> epoch" "\<not> is_epoch epoch (hc_draining c)" "hc_candidate c = Some s" "es_epoch s = epoch"
    | "es_epoch (hc_active c) \<noteq> epoch" "\<not> is_epoch epoch (hc_draining c)" "\<not> is_epoch epoch (hc_candidate c)"
    unfolding is_epoch_iff by blast
  then show ?thesis
  proof cases
    case 1
    then show ?thesis using inv inv_fail_active [OF inv] by (simp add: fail_epoch_def Let_def inv_record)
  next
    case (2 s)
    then show ?thesis using inv inv_fail_draining [OF inv 2(2)] by (simp add: fail_epoch_def Let_def inv_record is_epoch_def)
  next
    case (3 s)
    then show ?thesis using inv inv_fail_candidate [OF inv 3(3)]
      by (simp add: fail_epoch_def Let_def inv_record)
  next
    case 4
    then show ?thesis using inv by (simp add: fail_epoch_def)
  qed
qed

lemma fail_and_report_snd [simp]: "snd (fail_and_report epoch reason c) = snd (fail_epoch epoch reason c)"
  by (auto simp: fail_and_report_def split: prod.split sum.split)

lemma observe_book_inv: "handover_inv c \<Longrightarrow> handover_inv (snd (observe_book epoch u d c))"
proof -
  assume inv: "handover_inv c"
  show ?thesis
  proof (cases "rbind (validate_digest d) (\<lambda>_. find_epoch c epoch)")
    case (Inr s)
    then have s: "find_epoch c epoch = Ok s" by auto
    have "handover_inv (update_epoch epoch (\<lambda>st. st\<lparr>es_final_update_id := Some u, es_state_sha256 := Some d\<rparr>) c)"
      if "es_state s \<in> {LiveBook, Active, Draining}"
      using that find_epoch_roles(1) [OF inv s]
      by (intro inv_update_epoch [OF inv s]) (auto simp: pre_live_def status_ok_def book_live_def)
    then show ?thesis using inv Inr fail_epoch_inv [OF inv]
      by (auto simp: observe_book_def inv_record Let_def split: option.split)
  qed (use inv in \<open>simp add: observe_book_def\<close>)
qed

lemma activate_initial_inv:
  assumes inv: "handover_inv c"
  shows "handover_inv (snd (activate_initial c))"
proof -
  have "handover_inv (c\<lparr>hc_active := (hc_active c)\<lparr>es_state := Active\<rparr>, hc_publication := PubLive\<rparr>)"
    if a: "hc_publication c = PubUnavailable" "hc_candidate c = None" "hc_draining c = None" "es_state (hc_active c) = LiveBook"
  proof (rule handover_invI, goal_cases)
    case 1
    show ?case using a handover_invD(1) [OF inv] by (simp add: roles_ok_def status_ok_def pre_live_def book_live_def)
  next
    case 2
    show ?case using handover_invD(2) [OF inv] by (simp add: epochs_ok_def)
  next
    case 3
    show ?case using a by (simp add: publication_ok_def)
  next
    case 4
    show ?case using a handover_invD(4) [OF inv] by (simp add: failures_ok_def)
  next
    case 5
    show ?case using handover_invD(5) [OF inv] by simp
  qed
  then show ?thesis using inv by (auto simp: activate_initial_def inv_record)
qed

lemma begin_handover_inv:
  assumes inv: "handover_inv c"
  shows "handover_inv (snd (begin_handover e c))"
proof -
  have "handover_inv (c\<lparr>hc_candidate := Some s, hc_used_epochs := insert e (hc_used_epochs c), hc_publication := PubHandover\<rparr>)"
    if a: "es_state (hc_active c) = Active" "hc_draining c = None" "e \<notin> hc_used_epochs c" "connecting e = Ok s" for s
  proof (rule handover_invI, goal_cases)
    case 1
    show ?case using a handover_invD(1) [OF inv]
      by (auto simp: roles_ok_def status_ok_def pre_live_def book_live_def connecting_def split: if_splits)
  next
    case 2
    show ?case using a handover_invD(2) [OF inv] by (auto simp: epochs_ok_def connecting_def split: if_splits)
  next
    case 3
    show ?case using a by (simp add: publication_ok_def)
  next
    case 4
    show ?case using a handover_invD(4) [OF inv] by (auto simp: failures_ok_def connecting_def split: if_splits)
  next
    case 5
    show ?case using handover_invD(5) [OF inv] by simp
  qed
  then show ?thesis using inv by (auto simp: begin_handover_def inv_record split: sum.split)
qed

lemma promote_inv:
  assumes inv: "handover_inv c"
  shows "handover_inv (snd (promote_candidate c))"
proof -
  have "handover_inv (c\<lparr>hc_candidate := None, hc_active := s\<lparr>es_state := Active\<rparr>,
      hc_draining := Some ((hc_active c)\<lparr>es_state := Draining\<rparr>), hc_publication := PubLive\<rparr>)"
    if a: "hc_candidate c = Some s" "es_state s = LiveBook" "es_state (hc_active c) = Active" for s
  proof (rule handover_invI, goal_cases)
    case 1
    show ?case using a handover_invD(1) [OF inv] by (simp add: roles_ok_def status_ok_def pre_live_def book_live_def)
  next
    case 2
    show ?case using a handover_invD(2) [OF inv] by (auto simp: epochs_ok_def)
  next
    case 3
    show ?case by (simp add: publication_ok_def)
  next
    case 4
    show ?case using a handover_invD(4) [OF inv] by (simp add: failures_ok_def)
  next
    case 5
    show ?case using handover_invD(5) [OF inv] by simp
  qed
  then show ?thesis using inv by (auto simp: promote_candidate_def candidate_converged_def inv_record split: option.split)
qed

lemma close_draining_inv:
  assumes inv: "handover_inv c"
  shows "handover_inv (snd (close_draining c))"
proof -
  have "handover_inv (c\<lparr>hc_draining := None\<rparr>)"
    using handover_invD [OF inv] by (intro handover_invI) (simp_all add: part_defs)
  then show ?thesis using inv by (auto simp: close_draining_def Let_def inv_record split: option.split)
qed

lemma handover_step_inv: "handover_inv c \<Longrightarrow> handover_inv (snd (handover_step op c))"
  by (cases op) (auto simp: transition_inv mark_live_inv activate_initial_inv begin_handover_inv observe_book_inv
      promote_inv close_draining_inv fail_epoch_inv rotation_deadline_expired_def)

lemma reachable_inv: "handover_reachable c \<Longrightarrow> handover_inv c"
  by (induction rule: handover_reachable.induct) (auto intro: handover_new_inv handover_step_inv)

section \<open>The published book\<close>

definition book_of :: "epoch_status \<Rightarrow> nat option \<times> string option" where
  "book_of s = (es_final_update_id s, es_state_sha256 s)"

text \<open>A later book: the update id moved forward, or the book is the same one.\<close>

fun book_later :: "nat option \<times> string option \<Rightarrow> nat option \<times> string option \<Rightarrow> bool" where
  "book_later (None, _) b = True"
| "book_later (Some u, d) (None, d') = False"
| "book_later (Some u, d) (Some u', d') = (u < u' \<or> u = u' \<and> d = d')"

lemma book_later_refl [simp]: "book_later b b"
  by (cases b; cases "fst b") auto

lemma update_epoch_active:
  "hc_active (update_epoch epoch f c) = (if es_epoch (hc_active c) = epoch then f (hc_active c) else hc_active c)"
  by (simp add: update_epoch_def)

lemma fail_epoch_book: "book_of (hc_active (snd (fail_epoch epoch reason c))) = book_of (hc_active c)"
  by (simp add: fail_epoch_def Let_def book_of_def)

lemma find_epoch_active: "find_epoch c epoch = Ok s \<Longrightarrow> es_epoch (hc_active c) = epoch \<Longrightarrow> s = hc_active c"
  by (simp add: find_epoch_def)

lemma handover_step_book:
  assumes inv: "handover_inv c"
  shows "book_later (book_of (hc_active c)) (book_of (hc_active (snd (handover_step op c))))"
proof (cases op)
  case (TransitionEpoch e t)
  then show ?thesis
    by (auto simp: transition_epoch_def update_epoch_active book_of_def split: sum.split)
next
  case (MarkLive e u d)
  have "es_final_update_id (hc_active c) = None" if "es_state (hc_active c) = Syncing"
    using that handover_invD(1) [OF inv] by (simp add: roles_ok_def status_ok_def pre_live_def)
  then show ?thesis using MarkLive
    by (auto simp: mark_live_def update_epoch_active book_of_def split: sum.split dest: find_epoch_active)
next
  case (ObserveBook e u d)
  then show ?thesis
    by (auto simp: observe_book_def Let_def update_epoch_active fail_epoch_book split: sum.split option.split)
      (auto simp: book_of_def dest: find_epoch_active)
next
  case PromoteCandidate
  then show ?thesis by (auto simp: promote_candidate_def candidate_converged_def book_of_def split: option.split)
next
  case (FailEpoch e r)
  then show ?thesis by (simp add: fail_epoch_book)
next
  case (DeadlineExpired r)
  then show ?thesis by (simp add: rotation_deadline_expired_def fail_epoch_book)
qed (auto simp: activate_initial_def begin_handover_def close_draining_def Let_def book_of_def split: sum.split option.split)

lemma fail_epoch_name [simp]: "es_epoch (hc_active (snd (fail_epoch epoch reason c))) = es_epoch (hc_active c)"
  by (simp add: fail_epoch_def Let_def)

lemma active_name_kept:
  "op \<noteq> PromoteCandidate \<Longrightarrow> es_epoch (hc_active (snd (handover_step op c))) = es_epoch (hc_active c)"
  by (cases op) (auto simp: transition_epoch_def mark_live_def observe_book_def activate_initial_def begin_handover_def
      close_draining_def rotation_deadline_expired_def update_epoch_active Let_def split: sum.split option.split)

section \<open>Theorems\<close>

definition present_epochs :: "handover_controller \<Rightarrow> string list" where
  "present_epochs c = es_epoch (hc_active c)
     # (case hc_candidate c of Some s \<Rightarrow> [es_epoch s] | None \<Rightarrow> []) @ (case hc_draining c of Some s \<Rightarrow> [es_epoch s] | None \<Rightarrow> [])"

text \<open>
  C13. The controller is consistent after any sequence of operations: the epochs it holds are distinct and were all
  registered, so none is ever used twice; it never holds a candidate and a draining epoch together. The publication
  state determines the roles: unavailable means the first epoch alone, not yet active; live means no candidate and an
  active epoch that is active, or has failed behind a candidate that failed later; a handover has a candidate beside an
  active epoch; a gap means the active epoch failed. Every active epoch has an update id and a digest; an epoch fails at
  most once and does not come back; and the event log is numbered without holes.
\<close>

theorem handover_controller_consistent:
  assumes "handover_reachable c"
  shows "distinct (present_epochs c) \<and> set (present_epochs c) \<subseteq> hc_used_epochs c
    \<and> (hc_candidate c = None \<or> hc_draining c = None)
    \<and> (case hc_publication c of
         PubUnavailable \<Rightarrow> hc_candidate c = None \<and> hc_draining c = None
           \<and> es_state (hc_active c) \<in> {Connecting, Buffering, Snapshotting, Syncing, LiveBook}
       | PubLive \<Rightarrow> hc_candidate c = None \<and> es_state (hc_active c) \<in> {Active, Failed}
           \<and> (es_state (hc_active c) = Failed \<longrightarrow> ef_epoch (last (hc_failures c)) \<noteq> es_epoch (hc_active c))
       | PubHandover \<Rightarrow> hc_candidate c \<noteq> None \<and> es_state (hc_active c) = Active
       | PubGap \<Rightarrow> es_state (hc_active c) = Failed)
    \<and> (es_state (hc_active c) = Active \<longrightarrow> es_final_update_id (hc_active c) \<noteq> None \<and> es_state_sha256 (hc_active c) \<noteq> None)
    \<and> distinct (map ef_epoch (hc_failures c))
    \<and> ef_epoch ` set (hc_failures c) \<inter> set (present_epochs c)
        = (if es_state (hc_active c) = Failed then {es_epoch (hc_active c)} else {})
    \<and> map he_event_index (hc_events c) = [0..<length (hc_events c)]"
proof -
  note d = handover_invD [OF reachable_inv [OF assms]]
  have "distinct (present_epochs c)" "set (present_epochs c) \<subseteq> hc_used_epochs c"
    by (cases "hc_candidate c"; cases "hc_draining c"; use d(1,2) in \<open>simp add: present_epochs_def roles_ok_def epochs_ok_def\<close>; fastforce)+
  moreover have "es_state (hc_active c) = Active \<longrightarrow> es_final_update_id (hc_active c) \<noteq> None \<and> es_state_sha256 (hc_active c) \<noteq> None"
    using d(1) by (simp add: roles_ok_def status_ok_def book_live_def)
  moreover have "ef_epoch ` set (hc_failures c) \<inter> set (present_epochs c)
      = (if es_state (hc_active c) = Failed then {es_epoch (hc_active c)} else {})"
    by (cases "hc_candidate c"; cases "hc_draining c") (use d(4) in \<open>simp_all add: present_epochs_def failures_ok_def\<close>)
  moreover have "case hc_publication c of
       PubUnavailable \<Rightarrow> hc_candidate c = None \<and> hc_draining c = None
         \<and> es_state (hc_active c) \<in> {Connecting, Buffering, Snapshotting, Syncing, LiveBook}
     | PubLive \<Rightarrow> hc_candidate c = None \<and> es_state (hc_active c) \<in> {Active, Failed}
         \<and> (es_state (hc_active c) = Failed \<longrightarrow> ef_epoch (last (hc_failures c)) \<noteq> es_epoch (hc_active c))
     | PubHandover \<Rightarrow> hc_candidate c \<noteq> None \<and> es_state (hc_active c) = Active
     | PubGap \<Rightarrow> es_state (hc_active c) = Failed"
    using d(3) by (cases "hc_publication c") (auto simp: publication_ok_def pre_live_def)
  ultimately show ?thesis
    using d(1,4,5) by (simp add: roles_ok_def failures_ok_def events_ok_def)
qed

text \<open>
  The published book never goes back. Whatever operation is applied, promotion of another epoch
  included, the update id of the active epoch moves forward or the book is exactly the same one.
\<close>

theorem published_book_never_regresses:
  assumes "handover_reachable c"
  shows "book_later (book_of (hc_active c)) (book_of (hc_active (snd (handover_step op c))))"
  by (rule handover_step_book [OF reachable_inv [OF assms]])

text \<open>
  Authority moves by promotion only. If an operation changes the active epoch, it is the
  promotion of the candidate of a handover in progress whose book equals the active one, and the
  former active epoch is left draining.
\<close>

theorem authority_moves_by_promotion:
  assumes "es_epoch (hc_active (snd (handover_step op c))) \<noteq> es_epoch (hc_active c)"
  shows "op = PromoteCandidate \<and> hc_publication c = PubHandover
    \<and> (\<exists>s. hc_candidate c = Some s \<and> es_state s = LiveBook \<and> book_of s = book_of (hc_active c)
         \<and> hc_active (snd (handover_step op c)) = s\<lparr>es_state := Active\<rparr>
         \<and> hc_draining (snd (handover_step op c)) = Some ((hc_active c)\<lparr>es_state := Draining\<rparr>)
         \<and> hc_publication (snd (handover_step op c)) = PubLive)"
proof -
  have "op = PromoteCandidate" using assms active_name_kept by blast
  then show ?thesis using assms
    by (auto simp: promote_candidate_def candidate_converged_def book_of_def split: if_splits option.splits)
qed

text \<open>
  A gap can be hidden. When the active epoch has failed during a handover, the publication is a
  gap; the failure of the candidate then sets the publication back to live although the active epoch
  is still the failed one.
\<close>

theorem candidate_failure_hides_gap:
  assumes "handover_reachable c" "hc_publication c = PubGap" "hc_candidate c = Some s" "\<not> trim_is_empty reason"
  shows "\<exists>c'. fail_epoch (es_epoch s) reason c = (Ok (), c') \<and> hc_publication c' = PubLive \<and> es_state (hc_active c') = Failed"
proof -
  note d = handover_invD [OF reachable_inv [OF assms(1)]]
  have "es_epoch (hc_active c) \<noteq> es_epoch s" "hc_draining c = None" "es_state (hc_active c) = Failed"
    using d(1,2,3) assms(2,3) by (auto simp: roles_ok_def epochs_ok_def publication_ok_def)
  then show ?thesis using assms(3,4) by (simp add: fail_epoch_def is_epoch_iff Let_def)
qed

section \<open>Witnesses\<close>

definition demo_sha64 :: string where "demo_sha64 = replicate 64 (CHR ''a'')"

lemma demo_sha64_ok [simp]: "validate_digest demo_sha64 = Ok ()"
  by (simp add: validate_digest_def demo_sha64_def list_all_iff is_lower_hex_def)

fun handover_run :: "handover_op list \<Rightarrow> handover_controller \<Rightarrow> handover_controller" where
  "handover_run [] c = c"
| "handover_run (op # ops) c = handover_run ops (snd (handover_step op c))"

lemma handover_run_reachable: "handover_reachable c \<Longrightarrow> handover_reachable (handover_run ops c)"
  by (induction ops c rule: handover_run.induct) (auto intro: hr_step)

definition demo_handover :: handover_controller where
  "demo_handover = \<lparr>hc_symbol = ''BTCUSDT'', hc_publication = PubUnavailable,
     hc_active = \<lparr>es_epoch = ''A'', es_state = Connecting, es_final_update_id = None, es_state_sha256 = None\<rparr>,
     hc_candidate = None, hc_draining = None, hc_failures = [],
     hc_events = [\<lparr>he_event_index = 0, he_action = ''BEGIN_INITIAL_EPOCH'', he_epoch = ''A'', he_from = None,
       he_to = Some Connecting, he_reason = None\<rparr>],
     hc_used_epochs = {''A''}, hc_next_event_index = 1\<rparr>"

lemma demo_handover_reachable: "handover_reachable demo_handover"
  by (rule hr_new [of "''BTCUSDT''" "''A''"])
    (simp add: handover_new_def in_scope_def connecting_def trim_is_empty_def record_event_def demo_handover_def)

definition to_live :: "string \<Rightarrow> nat \<Rightarrow> handover_op list" where
  "to_live e u = [TransitionEpoch e Buffering, TransitionEpoch e Snapshotting, TransitionEpoch e Syncing,
     MarkLive e u demo_sha64]"

lemmas demo_eval = to_live_def demo_handover_def transition_epoch_def mark_live_def activate_initial_def begin_handover_def
  connecting_def find_epoch_def is_epoch_def update_epoch_def allowed_transition_def record_event_def trim_is_empty_def
  promote_candidate_def candidate_converged_def

definition demo_converged :: handover_controller where
  "demo_converged = handover_run (to_live ''A'' 9 @ [ActivateInitial, BeginHandover ''B''] @ to_live ''B'' 9) demo_handover"

lemma demo_converged_state:
  "hc_publication demo_converged = PubHandover"
  "hc_active demo_converged = \<lparr>es_epoch = ''A'', es_state = Active, es_final_update_id = Some 9, es_state_sha256 = Some demo_sha64\<rparr>"
  "hc_candidate demo_converged
     = Some \<lparr>es_epoch = ''B'', es_state = LiveBook, es_final_update_id = Some 9, es_state_sha256 = Some demo_sha64\<rparr>"
  "hc_draining demo_converged = None"
  by (simp_all add: demo_converged_def demo_eval)

lemma demo_converged_reachable: "handover_reachable demo_converged"
  unfolding demo_converged_def by (rule handover_run_reachable [OF demo_handover_reachable])

text \<open>Witness: the controller with a converged candidate.\<close>

theorem handover_controller_consistent_witness:
  "hc_publication demo_converged = PubHandover \<and> distinct (present_epochs demo_converged)
    \<and> es_state (hc_active demo_converged) = Active \<and> distinct (map ef_epoch (hc_failures demo_converged))"
  using handover_controller_consistent [OF demo_converged_reachable] by (simp add: demo_converged_state)

text \<open>Witness: the promotion of the candidate.\<close>

theorem published_book_never_regresses_witness:
  "book_later (Some 9, Some demo_sha64) (book_of (hc_active (snd (handover_step PromoteCandidate demo_converged))))"
  using published_book_never_regresses [OF demo_converged_reachable, of PromoteCandidate]
  by (simp add: demo_converged_state book_of_def)

theorem authority_moves_by_promotion_witness:
  "es_epoch (hc_active (snd (handover_step PromoteCandidate demo_converged))) = ''B''
    \<and> hc_draining (snd (handover_step PromoteCandidate demo_converged)) = Some ((hc_active demo_converged)\<lparr>es_state := Draining\<rparr>)"
proof -
  have n: "es_epoch (hc_active (snd (handover_step PromoteCandidate demo_converged))) = ''B''"
    by (simp add: promote_candidate_def candidate_converged_def demo_converged_state)
  then have "es_epoch (hc_active (snd (handover_step PromoteCandidate demo_converged))) \<noteq> es_epoch (hc_active demo_converged)"
    by (simp add: demo_converged_state)
  from authority_moves_by_promotion [OF this] n show ?thesis by blast
qed

text \<open>Witness: the active epoch of the handover fails, then the candidate.\<close>

theorem candidate_failure_hides_gap_witness:
  "\<exists>c c'. snd (handover_step (FailEpoch ''A'' ''lost'') demo_converged) = c \<and> hc_publication c = PubGap
    \<and> fail_epoch ''B'' ''lost'' c = (Ok (), c') \<and> hc_publication c' = PubLive \<and> es_state (hc_active c') = Failed"
proof -
  define c where "c = snd (handover_step (FailEpoch ''A'' ''lost'') demo_converged)"
  have r: "handover_reachable c" unfolding c_def by (rule hr_step [OF demo_converged_reachable])
  have g: "hc_publication c = PubGap" "\<not> trim_is_empty ''lost''"
    "hc_candidate c = Some \<lparr>es_epoch = ''B'', es_state = LiveBook, es_final_update_id = Some 9, es_state_sha256 = Some demo_sha64\<rparr>"
    by (simp_all add: c_def fail_epoch_def trim_is_empty_def demo_converged_state)
  have "\<exists>c'. fail_epoch ''B'' ''lost'' c = (Ok (), c') \<and> hc_publication c' = PubLive \<and> es_state (hc_active c') = Failed"
    using candidate_failure_hides_gap [OF r g(1,3,2)] by simp
  then show ?thesis using g(1) c_def by blast
qed

end
