(* ===== verification/Hot_Redundancy.thy ===== *)
theory Hot_Redundancy
  imports Lanes Externals
begin

text \<open>
  The availability supervisor of two raw-capture lanes, \<open>src/rust/lob-replay/src/hot_redundancy.rs\<close>:
  lane states, the per-lane circuit breaker, bounded reconnect delays, and the coverage state with
  its gap intervals. The lane map is built with both lanes and no operation removes one, so it is a
  function on lanes. Every \<open>&mut self\<close> operation answers its result and the supervisor it leaves:
  the clock and the used tokens advance also when the operation is refused.
\<close>

section \<open>Data\<close>

datatype lane_state = Absent | Starting | Ready | Backoff | LaneTerminal

datatype circuit_state = CircuitClosed | CircuitOpen | HalfOpen

datatype coverage_state = CovStarting | Redundant | Degraded | CovGap | CovTerminal

record hot_redundancy_config =
  hrc_backoff_initial_ns :: nat
  hrc_backoff_max_ns :: nat
  hrc_jitter_max_ns :: nat
  hrc_backoff_reset_after_ns :: nat
  hrc_circuit_failure_threshold :: nat
  hrc_circuit_reset_cooldown_ns :: nat

definition validate_config :: "hot_redundancy_config \<Rightarrow> unit res" where
  "validate_config cfg =
     (if hrc_backoff_initial_ns cfg = 0 \<or> hrc_backoff_max_ns cfg = 0 \<or> hrc_backoff_reset_after_ns cfg = 0
         \<or> hrc_backoff_max_ns cfg < hrc_backoff_initial_ns cfg \<or> hrc_backoff_max_ns cfg < hrc_jitter_max_ns cfg
      then Err (Fail ''invalid hot-redundancy reconnect policy'')
      else if 0 < hrc_circuit_failure_threshold cfg \<and> hrc_circuit_reset_cooldown_ns cfg = 0
      then Err (Fail ''circuit breaker reset cooldown must be positive when the breaker is enabled'')
      else Ok ())"

record lane_status =
  ls_lane :: capture_lane
  ls_state :: lane_state
  ls_run_token :: "string option"
  ls_launch_attempt :: nat
  ls_consecutive_failures :: nat
  ls_started_mono_ns :: "nat option"
  ls_ready_mono_ns :: "nat option"
  ls_restart_not_before_mono_ns :: "nat option"
  ls_last_failure_reason :: "string option"
  ls_circuit_state :: circuit_state
  ls_circuit_open_mono_ns :: "nat option"

definition absent :: "capture_lane \<Rightarrow> lane_status" where
  "absent lane = \<lparr>ls_lane = lane, ls_state = Absent, ls_run_token = None, ls_launch_attempt = 0,
     ls_consecutive_failures = 0, ls_started_mono_ns = None, ls_ready_mono_ns = None,
     ls_restart_not_before_mono_ns = None, ls_last_failure_reason = None, ls_circuit_state = CircuitClosed,
     ls_circuit_open_mono_ns = None\<rparr>"

record gap_interval =
  gi_gap_id :: nat
  gi_opened_mono_ns :: nat
  gi_closed_mono_ns :: "nat option"
  gi_unavailable_ns :: "nat option"

record restart_request =
  rq_lane :: capture_lane
  rq_not_before_mono_ns :: nat
  rq_next_launch_attempt :: nat

record coverage_transition =
  ct_previous :: coverage_state
  ct_current :: coverage_state
  ct_opened_gap :: "gap_interval option"
  ct_closed_gap :: "gap_interval option"

record supervisor =
  sv_config :: hot_redundancy_config
  sv_lanes :: "capture_lane \<Rightarrow> lane_status"
  sv_used_run_tokens :: "string set"
  sv_coverage :: coverage_state
  sv_ever_ready :: bool
  sv_open_gap :: "gap_interval option"
  sv_next_gap_id :: nat
  sv_last_mono_ns :: nat
  sv_terminal :: bool

definition supervisor_new :: "hot_redundancy_config \<Rightarrow> nat \<Rightarrow> supervisor res" where
  "supervisor_new cfg now =
     rbind (validate_config cfg) (\<lambda>_.
     Ok \<lparr>sv_config = cfg, sv_lanes = absent, sv_used_run_tokens = {}, sv_coverage = CovStarting, sv_ever_ready = False,
         sv_open_gap = None, sv_next_gap_id = 0, sv_last_mono_ns = now, sv_terminal = False\<rparr>)"

section \<open>Coverage\<close>

definition ready_count :: "supervisor \<Rightarrow> nat" where
  "ready_count s = length (filter (\<lambda>l. ls_state (sv_lanes s l) = Ready) ALL_LANES)"

definition current_coverage :: "supervisor \<Rightarrow> coverage_state" where
  "current_coverage s =
     (if sv_terminal s then CovTerminal
      else if ready_count s = 2 then Redundant
      else if ready_count s = 1 then Degraded
      else if sv_ever_ready s then CovGap else CovStarting)"

definition recompute_coverage :: "nat \<Rightarrow> supervisor \<Rightarrow> coverage_transition res \<times> supervisor" where
  "recompute_coverage now s =
     (let current = current_coverage s;
          answer = (\<lambda>opened closed s1.
            (Ok \<lparr>ct_previous = sv_coverage s, ct_current = current, ct_opened_gap = opened, ct_closed_gap = closed\<rparr>,
             s1\<lparr>sv_coverage := current\<rparr>))
      in if current = CovGap \<and> sv_open_gap s = None then
           (let gap = \<lparr>gi_gap_id = sv_next_gap_id s, gi_opened_mono_ns = now, gi_closed_mono_ns = None,
                       gi_unavailable_ns = None\<rparr>
            in case checked_add (sv_next_gap_id s) 1 of
                 None \<Rightarrow> (Err (Fail ''gap identity overflow''), s)
               | Some n \<Rightarrow> answer (Some gap) None (s\<lparr>sv_next_gap_id := n, sv_open_gap := Some gap\<rparr>))
         else if ready_count s \<noteq> 0 then
           (case sv_open_gap s of
              None \<Rightarrow> answer None None s
            | Some gap \<Rightarrow>
                answer None
                  (Some (gap\<lparr>gi_closed_mono_ns := Some now,
                             gi_unavailable_ns := Some (saturating_sub now (gi_opened_mono_ns gap))\<rparr>))
                  (s\<lparr>sv_open_gap := None\<rparr>))
         else answer None None s)"

definition set_lane :: "capture_lane \<Rightarrow> lane_status \<Rightarrow> supervisor \<Rightarrow> supervisor" where
  "set_lane lane st s = s\<lparr>sv_lanes := (sv_lanes s)(lane := st)\<rparr>"

definition advance_clock :: "nat \<Rightarrow> supervisor \<Rightarrow> supervisor res" where
  "advance_clock now s =
     (if now < sv_last_mono_ns s then Err (FailN ''hot-redundancy monotonic time regressed'' [sv_last_mono_ns s, now])
      else Ok (s\<lparr>sv_last_mono_ns := now\<rparr>))"

section \<open>Reconnect delay\<close>

definition reconnect_base_ns :: "hot_redundancy_config \<Rightarrow> nat \<Rightarrow> nat" where
  "reconnect_base_ns cfg failures =
     min (saturating_mul (hrc_backoff_initial_ns cfg) (2 ^ min (saturating_sub failures 1) 63)) (hrc_backoff_max_ns cfg)"

definition jitter_sample :: "'v externals \<Rightarrow> capture_lane \<Rightarrow> nat \<Rightarrow> nat \<Rightarrow> string \<Rightarrow> nat" where
  "jitter_sample E lane launch_attempt failures run_token =
     from_le_bytes (take 8 (sha256 E (str_bytes (lane_as_str lane) @ le_bytes 8 launch_attempt @ le_bytes 4 failures
       @ str_bytes run_token)))"

definition reconnect_delay_ns ::
  "'v externals \<Rightarrow> hot_redundancy_config \<Rightarrow> capture_lane \<Rightarrow> nat \<Rightarrow> nat \<Rightarrow> string \<Rightarrow> nat" where
  "reconnect_delay_ns E cfg lane launch_attempt failures run_token =
     (let base = reconnect_base_ns cfg failures in
      if hrc_jitter_max_ns cfg = 0 then base
      else min (saturating_add base
                  (jitter_sample E lane launch_attempt failures run_token mod saturating_add (hrc_jitter_max_ns cfg) 1))
             (hrc_backoff_max_ns cfg))"

section \<open>Operations\<close>

text \<open>An \<open>OPEN\<close> circuit whose cooldown has not elapsed.\<close>

definition circuit_blocked :: "hot_redundancy_config \<Rightarrow> nat \<Rightarrow> lane_status \<Rightarrow> bool" where
  "circuit_blocked cfg now st \<longleftrightarrow> ls_circuit_state st = CircuitOpen
     \<and> (case ls_circuit_open_mono_ns st of
          Some opened \<Rightarrow> saturating_sub now opened < hrc_circuit_reset_cooldown_ns cfg | None \<Rightarrow> False)"

definition start_lane ::
  "capture_lane \<Rightarrow> string \<Rightarrow> nat \<Rightarrow> supervisor \<Rightarrow> coverage_transition res \<times> supervisor" where
  "start_lane lane run_token now s0 =
     (case advance_clock now s0 of
        Inl e \<Rightarrow> (Err e, s0)
      | Inr s1 \<Rightarrow>
          if sv_terminal s1 then (Err (Fail ''cannot start a lane after supervisor termination''), s1)
          else if trim_is_empty run_token \<or> run_token \<in> sv_used_run_tokens s1
          then (Err (Fail ''capture lane run token must be non-empty and never reused''), s1)
          else
            let s = s1\<lparr>sv_used_run_tokens := insert run_token (sv_used_run_tokens s1)\<rparr>;
                st = sv_lanes s lane
            in if ls_state st \<noteq> Absent \<and> ls_state st \<noteq> Backoff
               then (Err (FailS ''lane is not eligible to start'' [lane_as_str lane]), s)
               else if (case ls_restart_not_before_mono_ns st of Some d \<Rightarrow> now < d | None \<Rightarrow> False)
               then (Err (FailS ''lane reconnect backoff has not elapsed'' [lane_as_str lane]), s)
               else if circuit_blocked (sv_config s) now st
               then (Err (FailS ''lane circuit breaker is open'' [lane_as_str lane]), s)
               else
                 let st1 = (if ls_circuit_state st = CircuitOpen then st\<lparr>ls_circuit_state := HalfOpen\<rparr> else st)
                             \<lparr>ls_state := Starting, ls_run_token := Some run_token\<rparr>
                 in case checked_add (ls_launch_attempt st1) 1 of
                      None \<Rightarrow> (Err (Fail ''lane launch-attempt overflow''), set_lane lane st1 s)
                    | Some n \<Rightarrow>
                        recompute_coverage now
                          (set_lane lane (st1\<lparr>ls_launch_attempt := n, ls_started_mono_ns := Some now,
                             ls_ready_mono_ns := None, ls_restart_not_before_mono_ns := None,
                             ls_last_failure_reason := None\<rparr>) s))"

definition mark_ready ::
  "capture_lane \<Rightarrow> string \<Rightarrow> nat \<Rightarrow> supervisor \<Rightarrow> coverage_transition res \<times> supervisor" where
  "mark_ready lane run_token now s0 =
     (case advance_clock now s0 of
        Inl e \<Rightarrow> (Err e, s0)
      | Inr s \<Rightarrow>
          let st = sv_lanes s lane in
          if ls_run_token st \<noteq> Some run_token
          then (Err (FailS ''readiness references a stale run token'' [lane_as_str lane]), s)
          else if ls_state st = Ready then recompute_coverage now s
          else if ls_state st \<noteq> Starting
          then (Err (FailS ''readiness is illegal from its current state'' [lane_as_str lane]), s)
          else recompute_coverage now
            ((set_lane lane (st\<lparr>ls_state := Ready, ls_ready_mono_ns := Some now, ls_circuit_state := CircuitClosed,
                ls_circuit_open_mono_ns := None\<rparr>) s)\<lparr>sv_ever_ready := True\<rparr>))"

text \<open>The breaker update of a failure.\<close>

definition trip_circuit :: "hot_redundancy_config \<Rightarrow> nat \<Rightarrow> lane_status \<Rightarrow> lane_status" where
  "trip_circuit cfg now st =
     (if 0 < hrc_circuit_failure_threshold cfg
         \<and> (ls_circuit_state st = HalfOpen
            \<or> ls_circuit_state st = CircuitClosed \<and> hrc_circuit_failure_threshold cfg \<le> ls_consecutive_failures st)
      then st\<lparr>ls_circuit_state := CircuitOpen, ls_circuit_open_mono_ns := Some now\<rparr> else st)"

definition fail_lane ::
  "'v externals \<Rightarrow> capture_lane \<Rightarrow> string \<Rightarrow> string \<Rightarrow> nat \<Rightarrow> supervisor \<Rightarrow> coverage_transition res \<times> supervisor" where
  "fail_lane E lane run_token reason now s0 =
     (case advance_clock now s0 of
        Inl e \<Rightarrow> (Err e, s0)
      | Inr s \<Rightarrow>
          if trim_is_empty reason then (Err (Fail ''lane failure reason must not be empty''), s)
          else
            let st = sv_lanes s lane in
            if ls_run_token st \<noteq> Some run_token
            then (Err (FailS ''failure references a stale run token'' [lane_as_str lane]), s)
            else if ls_state st \<noteq> Starting \<and> ls_state st \<noteq> Ready
            then (Err (FailS ''failure is duplicate or illegal'' [lane_as_str lane]), s)
            else
              let st1 = st\<lparr>ls_state := Backoff, ls_ready_mono_ns := None, ls_last_failure_reason := Some reason,
                           ls_consecutive_failures := min u32_max (ls_consecutive_failures st + 1)\<rparr>;
                  st2 = trip_circuit (sv_config s) now st1;
                  delay = reconnect_delay_ns E (sv_config s) lane (ls_launch_attempt st2)
                            (ls_consecutive_failures st2) run_token
              in recompute_coverage now
                   (set_lane lane (st2\<lparr>ls_restart_not_before_mono_ns := Some (saturating_add now delay)\<rparr>) s))"

definition retire_lane ::
  "capture_lane \<Rightarrow> string \<Rightarrow> nat \<Rightarrow> supervisor \<Rightarrow> coverage_transition res \<times> supervisor" where
  "retire_lane lane run_token now s0 =
     (case advance_clock now s0 of
        Inl e \<Rightarrow> (Err e, s0)
      | Inr s \<Rightarrow>
          let st = sv_lanes s lane in
          if ls_run_token st \<noteq> Some run_token
          then (Err (FailS ''retirement references a stale run token'' [lane_as_str lane]), s)
          else if ls_state st \<noteq> Ready
          then (Err (FailS ''retirement requires a ready lane'' [lane_as_str lane]), s)
          else recompute_coverage now
            (set_lane lane (st\<lparr>ls_state := Backoff, ls_ready_mono_ns := None,
               ls_restart_not_before_mono_ns := Some now, ls_last_failure_reason := None, ls_consecutive_failures := 0,
               ls_circuit_state := CircuitClosed, ls_circuit_open_mono_ns := None\<rparr>) s))"

definition request_for :: "nat \<Rightarrow> supervisor \<Rightarrow> capture_lane \<Rightarrow> restart_request list" where
  "request_for now s lane =
     (let st = sv_lanes s lane in
      case ls_restart_not_before_mono_ns st of
        Some deadline \<Rightarrow>
          if ls_state st = Backoff \<and> deadline \<le> now \<and> \<not> circuit_blocked (sv_config s) now st
          then [\<lparr>rq_lane = lane, rq_not_before_mono_ns = deadline,
                 rq_next_launch_attempt = saturating_add (ls_launch_attempt st) 1\<rparr>]
          else []
      | None \<Rightarrow> [])"

definition restart_requests :: "nat \<Rightarrow> supervisor \<Rightarrow> restart_request list res \<times> supervisor" where
  "restart_requests now s0 =
     (case advance_clock now s0 of
        Inl e \<Rightarrow> (Err e, s0)
      | Inr s \<Rightarrow>
          if sv_terminal s then (Ok [], s)
          else (Ok (concat (map (request_for now s) ALL_LANES)), s))"

definition settle :: "hot_redundancy_config \<Rightarrow> nat \<Rightarrow> lane_status \<Rightarrow> lane_status" where
  "settle cfg now st =
     (if ls_state st = Ready
         \<and> (case ls_ready_mono_ns st of
              Some ready \<Rightarrow> hrc_backoff_reset_after_ns cfg \<le> saturating_sub now ready | None \<Rightarrow> False)
      then st\<lparr>ls_consecutive_failures := 0\<rparr> else st)"

definition advance_time :: "nat \<Rightarrow> supervisor \<Rightarrow> coverage_transition res \<times> supervisor" where
  "advance_time now s0 =
     (case advance_clock now s0 of
        Inl e \<Rightarrow> (Err e, s0)
      | Inr s \<Rightarrow> recompute_coverage now (s\<lparr>sv_lanes := (\<lambda>l. settle (sv_config s) now (sv_lanes s l))\<rparr>))"

definition terminate :: "nat \<Rightarrow> supervisor \<Rightarrow> coverage_transition res \<times> supervisor" where
  "terminate now s0 =
     (case advance_clock now s0 of
        Inl e \<Rightarrow> (Err e, s0)
      | Inr s \<Rightarrow>
          (Ok \<lparr>ct_previous = sv_coverage s, ct_current = CovTerminal, ct_opened_gap = None, ct_closed_gap = None\<rparr>,
           s\<lparr>sv_terminal := True,
             sv_lanes := (\<lambda>l. (sv_lanes s l)\<lparr>ls_state := LaneTerminal, ls_restart_not_before_mono_ns := None\<rparr>),
             sv_coverage := CovTerminal\<rparr>))"

end
