(* ===== verification/Hot_Redundancy_Safety.thy ===== *)
theory Hot_Redundancy_Safety
  imports Hot_Redundancy Concrete_Externals
begin

text \<open>
  The theorems on the availability supervisor: the coverage state says exactly how many lanes are
  ready, the gap intervals it reports measure exactly the time without a ready lane, reconnect
  delays are bounded, and a failed lane is offered for restart once its delay has passed.
\<close>

section \<open>Runs\<close>

datatype lane_op =
    StartLane capture_lane string
  | MarkReady capture_lane string
  | FailLane capture_lane string string
  | RetireLane capture_lane string
  | RestartRequests
  | AdvanceTime
  | Terminate

fun outcome :: "coverage_transition res \<times> supervisor \<Rightarrow> coverage_transition option \<times> supervisor" where
  "outcome (Inr t, s) = (Some t, s)"
| "outcome (Inl _, s) = (None, s)"

fun hot_step :: "'v externals \<Rightarrow> lane_op \<Rightarrow> nat \<Rightarrow> supervisor \<Rightarrow> coverage_transition option \<times> supervisor" where
  "hot_step E (StartLane l t) now s = outcome (start_lane l t now s)"
| "hot_step E (MarkReady l t) now s = outcome (mark_ready l t now s)"
| "hot_step E (FailLane l t r) now s = outcome (fail_lane E l t r now s)"
| "hot_step E (RetireLane l t) now s = outcome (retire_lane l t now s)"
| "hot_step E RestartRequests now s = (None, snd (restart_requests now s))"
| "hot_step E AdvanceTime now s = outcome (advance_time now s)"
| "hot_step E Terminate now s = outcome (terminate now s)"

text \<open>No lane is ready although one was before, and the supervisor still runs.\<close>

definition in_outage :: "supervisor \<Rightarrow> bool" where
  "in_outage s \<longleftrightarrow> \<not> sv_terminal s \<and> sv_ever_ready s \<and> ready_count s = 0"

definition outage_time :: "supervisor \<Rightarrow> nat \<Rightarrow> nat" where
  "outage_time s now = (if in_outage s then now - sv_last_mono_ns s else 0)"

definition closed_by :: "coverage_transition option \<Rightarrow> gap_interval list" where
  "closed_by t = (case t of Some tr \<Rightarrow> (case ct_closed_gap tr of Some g \<Rightarrow> [g] | None \<Rightarrow> []) | None \<Rightarrow> [])"

text \<open>A run with the gaps it reported closed and the time it spent in outage, measured from outside.\<close>

inductive hot_run :: "'v externals \<Rightarrow> supervisor \<Rightarrow> gap_interval list \<Rightarrow> nat \<Rightarrow> bool" for E where
  run_new: "supervisor_new cfg now = Ok s \<Longrightarrow> hot_run E s [] 0"
| run_step: "hot_run E s gaps outage \<Longrightarrow> hot_step E op now s = (t, s') \<Longrightarrow>
    hot_run E s' (gaps @ closed_by t) (outage + outage_time s (sv_last_mono_ns s'))"

section \<open>The invariant\<close>

definition open_list :: "supervisor \<Rightarrow> gap_interval list" where
  "open_list s = (case sv_open_gap s of Some g \<Rightarrow> [g] | None \<Rightarrow> [])"

definition closed_ok :: "gap_interval \<Rightarrow> bool" where
  "closed_ok g \<longleftrightarrow> (\<exists>t. gi_closed_mono_ns g = Some t \<and> gi_unavailable_ns g = Some (t - gi_opened_mono_ns g))"

definition gap_times :: "gap_interval \<Rightarrow> nat list" where
  "gap_times g = [gi_opened_mono_ns g, the (gi_closed_mono_ns g)]"

definition gap_length :: "gap_interval \<Rightarrow> nat" where
  "gap_length g = the (gi_unavailable_ns g)"

definition lanes_ok :: "supervisor \<Rightarrow> bool" where
  "lanes_ok s \<longleftrightarrow> (sv_terminal s \<longrightarrow> (\<forall>l. ls_state (sv_lanes s l) = LaneTerminal))
     \<and> (0 < ready_count s \<longrightarrow> sv_ever_ready s)"

definition gaps_ok :: "supervisor \<Rightarrow> gap_interval list \<Rightarrow> nat \<Rightarrow> bool" where
  "gaps_ok s gaps outage \<longleftrightarrow>
     map gi_gap_id (gaps @ open_list s) = [0..<sv_next_gap_id s] \<and> list_all closed_ok gaps
     \<and> sorted (concat (map gap_times gaps) @ map gi_opened_mono_ns (open_list s) @ [sv_last_mono_ns s])
     \<and> (\<not> sv_terminal s \<longrightarrow> outage = sum_list (map gap_length gaps)
          + sum_list (map (\<lambda>g. sv_last_mono_ns s - gi_opened_mono_ns g) (open_list s)))"

definition hot_inv :: "supervisor \<Rightarrow> gap_interval list \<Rightarrow> nat \<Rightarrow> bool" where
  "hot_inv s gaps outage \<longleftrightarrow> sv_coverage s = current_coverage s \<and> lanes_ok s
     \<and> (\<not> sv_terminal s \<longrightarrow> (sv_open_gap s \<noteq> None \<longleftrightarrow> in_outage s)) \<and> gaps_ok s gaps outage"

lemma ready_count_le: "ready_count s \<le> 2"
  by (simp add: ready_count_def ALL_LANES_def)

lemma ready_count_pos: "0 < ready_count s \<longleftrightarrow> (\<exists>l. ls_state (sv_lanes s l) = Ready)"
proof -
  have "(\<exists>l. ls_state (sv_lanes s l) = Ready) \<longleftrightarrow> ls_state (sv_lanes s Primary) = Ready \<or> ls_state (sv_lanes s Shadow) = Ready"
    by (metis capture_lane.exhaust)
  then show ?thesis by (simp add: ready_count_def ALL_LANES_def)
qed

lemma ready_count_terminal: "lanes_ok s \<Longrightarrow> sv_terminal s \<Longrightarrow> ready_count s = 0"
  by (simp add: lanes_ok_def ready_count_def)

lemma coverage_gap_iff: "current_coverage s = CovGap \<longleftrightarrow> in_outage s"
  using ready_count_le [of s] by (auto simp: current_coverage_def in_outage_def)

lemma sorted_last_later: "sorted (xs @ [a]) \<Longrightarrow> a \<le> (b :: nat) \<Longrightarrow> sorted (xs @ [b])"
  by (auto simp: sorted_append)

lemma gaps_later:
  assumes "gaps_ok s gaps outage" "open_list s' = open_list s" "sv_next_gap_id s' = sv_next_gap_id s"
    and "sv_terminal s' = sv_terminal s" "sv_last_mono_ns s \<le> sv_last_mono_ns s'"
    and g: "\<not> sv_terminal s \<Longrightarrow> sv_open_gap s \<noteq> None \<longleftrightarrow> in_outage s"
  shows "gaps_ok s' gaps (outage + outage_time s (sv_last_mono_ns s'))"
proof -
  have so: "sorted (concat (map gap_times gaps) @ map gi_opened_mono_ns (open_list s) @ [sv_last_mono_ns s'])"
    using sorted_last_later [of "concat (map gap_times gaps) @ map gi_opened_mono_ns (open_list s)" "sv_last_mono_ns s"
        "sv_last_mono_ns s'"] assms(1,5) by (simp add: gaps_ok_def)
  have sum: "outage + outage_time s (sv_last_mono_ns s') = sum_list (map gap_length gaps)
      + sum_list (map (\<lambda>g. sv_last_mono_ns s' - gi_opened_mono_ns g) (open_list s))" if "\<not> sv_terminal s"
  proof (cases "sv_open_gap s")
    case None
    then show ?thesis using that assms(1) g by (simp add: gaps_ok_def open_list_def outage_time_def)
  next
    case (Some gp)
    then have "gi_opened_mono_ns gp \<le> sv_last_mono_ns s" using assms(1) by (simp add: gaps_ok_def open_list_def sorted_append)
    then show ?thesis using that assms(1,5) g Some by (simp add: gaps_ok_def open_list_def outage_time_def)
  qed
  show ?thesis using so sum assms(1-4) by (simp add: gaps_ok_def)
qed

text \<open>Time passes and the readiness stays the same.\<close>

lemma hot_idle:
  assumes inv: "hot_inv s gaps outage"
    and same: "sv_terminal s' = sv_terminal s" "sv_ever_ready s' = sv_ever_ready s" "ready_count s' = ready_count s"
      "sv_open_gap s' = sv_open_gap s" "sv_next_gap_id s' = sv_next_gap_id s" "sv_coverage s' = sv_coverage s" "lanes_ok s'"
    and now: "sv_last_mono_ns s \<le> sv_last_mono_ns s'"
  shows "hot_inv s' gaps (outage + outage_time s (sv_last_mono_ns s'))"
proof -
  have o: "in_outage s' = in_outage s" "open_list s' = open_list s" "current_coverage s' = current_coverage s"
    using same by (simp_all add: in_outage_def open_list_def current_coverage_def)
  have "gaps_ok s' gaps (outage + outage_time s (sv_last_mono_ns s'))"
    using inv same(1,5) now o(2) by (intro gaps_later) (auto simp: hot_inv_def)
  then show ?thesis using inv same o by (simp add: hot_inv_def)
qed

text \<open>Readiness changes and the coverage is recomputed.\<close>

lemma hot_recompute:
  assumes inv: "hot_inv s gaps outage"
    and same: "sv_terminal s1 = sv_terminal s" "sv_open_gap s1 = sv_open_gap s" "sv_next_gap_id s1 = sv_next_gap_id s"
      "lanes_ok s1" "sv_ever_ready s \<longrightarrow> sv_ever_ready s1"
    and now: "sv_last_mono_ns s \<le> now" "sv_last_mono_ns s1 = now"
    and r: "recompute_coverage now s1 = (Ok t, s2)"
  shows "hot_inv s2 (gaps @ closed_by (Some t)) (outage + outage_time s now)"
proof -
  have g: "gaps_ok s gaps outage" "\<not> sv_terminal s \<Longrightarrow> sv_open_gap s \<noteq> None \<longleftrightarrow> in_outage s"
    using inv by (auto simp: hot_inv_def)
  consider (opens) "in_outage s1" "sv_open_gap s = None" | (closes) gp where "ready_count s1 \<noteq> 0" "sv_open_gap s = Some gp"
    | (stays) "in_outage s1 \<longleftrightarrow> sv_open_gap s1 \<noteq> None" "\<not> (ready_count s1 \<noteq> 0 \<and> sv_open_gap s \<noteq> None)"
    | (stopped) "sv_terminal s"
    using g(2) same by (auto simp: in_outage_def)
  then show ?thesis
  proof cases
    case opens
    define gp where "gp = \<lparr>gi_gap_id = sv_next_gap_id s, gi_opened_mono_ns = now, gi_closed_mono_ns = None, gi_unavailable_ns = None\<rparr>"
    have s2: "s2 = s1\<lparr>sv_next_gap_id := sv_next_gap_id s + 1, sv_open_gap := Some gp, sv_coverage := CovGap\<rparr>"
      "ct_closed_gap t = None"
      using r opens same by (auto simp: recompute_coverage_def Let_def coverage_gap_iff gp_def split: option.splits)
    have nt: "\<not> sv_terminal s" "\<not> in_outage s" using opens same(1) g(2) by (auto simp: in_outage_def)
    have "gaps_ok s2 gaps outage"
      using g(1) nt(1) now opens(2) by (simp add: gaps_ok_def s2 gp_def open_list_def sorted_append) fastforce
    moreover have "sv_coverage s2 = current_coverage s2" "lanes_ok s2" "in_outage s2"
      using opens(1) same(4) by (simp_all add: s2 current_coverage_def in_outage_def lanes_ok_def ready_count_def)
    ultimately show ?thesis using nt(2) by (simp add: hot_inv_def s2 closed_by_def outage_time_def)
  next
    case (closes gp)
    define gc where "gc = gp\<lparr>gi_closed_mono_ns := Some now, gi_unavailable_ns := Some (now - gi_opened_mono_ns gp)\<rparr>"
    have nt: "\<not> sv_terminal s" using closes(1) ready_count_terminal [OF same(4)] same(1) by auto
    then have o: "in_outage s" using closes(2) g(2) by simp
    have s2: "s2 = s1\<lparr>sv_open_gap := None, sv_coverage := current_coverage s1\<rparr>" "ct_closed_gap t = Some gc"
      using r closes same by (auto simp: recompute_coverage_def Let_def coverage_gap_iff in_outage_def gc_def saturating_sub_def)
    have le: "gi_opened_mono_ns gp \<le> sv_last_mono_ns s"
      using g(1) closes(2) by (simp add: gaps_ok_def open_list_def sorted_append)
    have "gaps_ok s2 (gaps @ [gc]) (outage + (now - sv_last_mono_ns s))"
      using g(1) nt now closes(2) le
      by (simp add: gaps_ok_def s2 gc_def open_list_def sorted_append gap_times_def gap_length_def closed_ok_def same(3))
        (meson order_trans)
    moreover have "sv_coverage s2 = current_coverage s2" "lanes_ok s2" "\<not> in_outage s2"
      using closes(1) same(4) by (simp_all add: s2 current_coverage_def in_outage_def lanes_ok_def ready_count_def)
    ultimately show ?thesis using o by (simp add: hot_inv_def s2 closed_by_def outage_time_def)
  next
    case stays
    have s2: "s2 = s1\<lparr>sv_coverage := current_coverage s1\<rparr>" "ct_closed_gap t = None"
      using r stays same by (auto simp: recompute_coverage_def Let_def coverage_gap_iff split: option.splits if_splits)
    have o: "open_list s2 = open_list s" using same(2) by (simp add: open_list_def s2)
    have "gaps_ok s2 gaps (outage + outage_time s now)"
      using gaps_later [OF g(1) o _ _ _ g(2)] same(1,3) now by (simp add: s2)
    moreover have "sv_coverage s2 = current_coverage s2" "lanes_ok s2" "in_outage s2 = in_outage s1"
      using same(4) by (simp_all add: s2 current_coverage_def in_outage_def lanes_ok_def ready_count_def)
    ultimately show ?thesis using stays(1) by (simp add: hot_inv_def s2 closed_by_def)
  next
    case stopped
    have rc: "ready_count s1 = 0" "\<not> in_outage s1" "\<not> in_outage s"
      using ready_count_terminal [OF same(4)] same(1) stopped by (auto simp: in_outage_def)
    have s2: "s2 = s1\<lparr>sv_coverage := current_coverage s1\<rparr>" "ct_closed_gap t = None"
      using r rc by (auto simp: recompute_coverage_def Let_def coverage_gap_iff split: option.splits if_splits)
    have o: "open_list s2 = open_list s" using same(2) by (simp add: open_list_def s2)
    have "gaps_ok s2 gaps outage"
      using gaps_later [OF g(1) o _ _ _ g(2)] rc(3) same(1,3) now by (simp add: s2 outage_time_def)
    moreover have "sv_coverage s2 = current_coverage s2" "lanes_ok s2" "sv_terminal s2"
      using same(1,4) stopped by (simp_all add: s2 current_coverage_def lanes_ok_def ready_count_def)
    ultimately show ?thesis using rc by (simp add: hot_inv_def s2 closed_by_def outage_time_def)
  qed
qed

section \<open>Every operation keeps it\<close>

lemma recompute_next_gap: "sv_next_gap_id s \<le> sv_next_gap_id (snd (recompute_coverage now s))"
  by (simp add: recompute_coverage_def Let_def split: option.split)

lemma recompute_fails: "recompute_coverage now s = (Inl e, s') \<Longrightarrow> sv_next_gap_id s = u64_max \<or> u64_max < sv_next_gap_id s"
  by (auto simp: recompute_coverage_def Let_def split: if_splits option.splits)

lemma recompute_keeps [simp]:
  "sv_config (snd (recompute_coverage now s)) = sv_config s"
  "sv_last_mono_ns (snd (recompute_coverage now s)) = sv_last_mono_ns s"
  "sv_lanes (snd (recompute_coverage now s)) = sv_lanes s"
  "sv_terminal (snd (recompute_coverage now s)) = sv_terminal s"
  by (simp_all add: recompute_coverage_def Let_def split: option.split)

lemma set_lane_simps [simp]:
  "sv_config (set_lane l st s) = sv_config s" "sv_terminal (set_lane l st s) = sv_terminal s"
  "sv_ever_ready (set_lane l st s) = sv_ever_ready s" "sv_open_gap (set_lane l st s) = sv_open_gap s"
  "sv_next_gap_id (set_lane l st s) = sv_next_gap_id s" "sv_last_mono_ns (set_lane l st s) = sv_last_mono_ns s"
  "sv_coverage (set_lane l st s) = sv_coverage s" "sv_lanes (set_lane l st s) = (sv_lanes s)(l := st)"
  by (simp_all add: set_lane_def)

lemma set_lane_ever: "(set_lane l st s)\<lparr>sv_ever_ready := b\<rparr> = set_lane l st (s\<lparr>sv_ever_ready := b\<rparr>)"
  by (simp add: set_lane_def)

lemma ready_count_cong: "(\<And>l. ls_state (sv_lanes s' l) = Ready \<longleftrightarrow> ls_state (sv_lanes s l) = Ready) \<Longrightarrow> ready_count s' = ready_count s"
  by (simp add: ready_count_def)

lemma outcome_recompute:
  assumes inv: "hot_inv s gaps outage" and u: "sv_next_gap_id s < u64_max"
    and same: "sv_terminal s1 = sv_terminal s" "sv_open_gap s1 = sv_open_gap s" "sv_next_gap_id s1 = sv_next_gap_id s"
      "lanes_ok s1" "sv_ever_ready s \<longrightarrow> sv_ever_ready s1"
    and now: "sv_last_mono_ns s \<le> now" "sv_last_mono_ns s1 = now"
    and r: "outcome (recompute_coverage now s1) = (t, s2)"
  shows "hot_inv s2 (gaps @ closed_by t) (outage + outage_time s (sv_last_mono_ns s2))"
proof (cases "fst (recompute_coverage now s1)")
  case (Inl e)
  then have "recompute_coverage now s1 = (Inl e, snd (recompute_coverage now s1))" by (simp add: prod_eq_iff)
  then show ?thesis using recompute_fails u same(3) by fastforce
next
  case (Inr tr)
  then have e: "recompute_coverage now s1 = (Ok tr, s2)" "t = Some tr" using r by (cases "recompute_coverage now s1"; simp)+
  have "sv_last_mono_ns s2 = now" using recompute_keeps(2) [of now s1] e(1) now(2) by simp
  then show ?thesis using hot_recompute [OF inv same now e(1)] e(2) by simp
qed

text \<open>The refused operations: the clock and the tokens move, the lanes do not become ready or stop being it.\<close>

lemma outcome_refused:
  assumes inv: "hot_inv s gaps outage"
    and same: "sv_terminal s' = sv_terminal s" "sv_ever_ready s' = sv_ever_ready s" "ready_count s' = ready_count s"
      "sv_open_gap s' = sv_open_gap s" "sv_next_gap_id s' = sv_next_gap_id s" "sv_coverage s' = sv_coverage s" "lanes_ok s'"
    and now: "sv_last_mono_ns s \<le> sv_last_mono_ns s'"
  shows "hot_inv s' (gaps @ closed_by None) (outage + outage_time s (sv_last_mono_ns s'))"
  using hot_idle [OF assms] by (simp add: closed_by_def)

lemma clock_refused:
  assumes inv: "hot_inv s gaps outage" and "sv_last_mono_ns s \<le> now"
  shows "hot_inv (s\<lparr>sv_last_mono_ns := now\<rparr>) (gaps @ closed_by None)
      (outage + outage_time s (sv_last_mono_ns (s\<lparr>sv_last_mono_ns := now\<rparr>)))"
    "hot_inv (s\<lparr>sv_last_mono_ns := now, sv_used_run_tokens := ts\<rparr>) (gaps @ closed_by None)
      (outage + outage_time s (sv_last_mono_ns (s\<lparr>sv_last_mono_ns := now, sv_used_run_tokens := ts\<rparr>)))"
    "hot_inv s (gaps @ closed_by None) (outage + outage_time s (sv_last_mono_ns s))"
  using inv assms(2)
  by (intro outcome_refused; simp add: hot_inv_def lanes_ok_def ready_count_def)+

lemma lanes_ok_set:
  assumes "lanes_ok s" "\<not> sv_terminal s" "sv_lanes s1 = (sv_lanes s)(l := st)" "sv_terminal s1 = sv_terminal s"
    and "sv_ever_ready s \<longrightarrow> sv_ever_ready s1" "ls_state st = Ready \<Longrightarrow> sv_ever_ready s1"
  shows "lanes_ok s1"
proof -
  have "sv_ever_ready s1" if r: "ls_state (sv_lanes s1 k) = Ready" for k
  proof (cases "k = l")
    case True
    then show ?thesis using r assms(3,6) by simp
  next
    case False
    then have "0 < ready_count s" using r assms(3) ready_count_pos by fastforce
    then show ?thesis using assms(1,5) by (simp add: lanes_ok_def)
  qed
  then have "0 < ready_count s1 \<longrightarrow> sv_ever_ready s1" using ready_count_pos by blast
  then show ?thesis using assms(2,4) by (simp add: lanes_ok_def)
qed

definition keeps_hot :: "supervisor \<Rightarrow> gap_interval list \<Rightarrow> nat \<Rightarrow> coverage_transition option \<times> supervisor \<Rightarrow> bool" where
  "keeps_hot s gaps outage r \<longleftrightarrow> hot_inv (snd r) (gaps @ closed_by (fst r)) (outage + outage_time s (sv_last_mono_ns (snd r)))"

lemma keeps_clock:
  assumes "hot_inv s gaps outage"
  shows "keeps_hot s gaps outage (None, s)"
    "\<not> now < sv_last_mono_ns s \<Longrightarrow> keeps_hot s gaps outage (None, s\<lparr>sv_last_mono_ns := now\<rparr>)"
    "\<not> now < sv_last_mono_ns s \<Longrightarrow> keeps_hot s gaps outage (None, s\<lparr>sv_last_mono_ns := now, sv_used_run_tokens := ts\<rparr>)"
  using clock_refused [OF assms] clock_refused(3) [OF assms order_refl] by (simp_all add: keeps_hot_def)

text \<open>A lane of a running supervisor gets a new status and the coverage is recomputed.\<close>

lemma keeps_set_lane:
  assumes inv: "hot_inv s gaps outage" and u: "sv_next_gap_id s < u64_max" and now: "\<not> now < sv_last_mono_ns s"
    and l: "ls_state (sv_lanes s lane) \<noteq> LaneTerminal" "ls_state st = Ready \<Longrightarrow> er"
  shows "keeps_hot s gaps outage (outcome (recompute_coverage now (set_lane lane st (s\<lparr>sv_last_mono_ns := now,
      sv_used_run_tokens := ts, sv_ever_ready := sv_ever_ready s \<or> er\<rparr>))))"
proof -
  have nt: "\<not> sv_terminal s" "lanes_ok s" using inv l(1) by (auto simp: hot_inv_def lanes_ok_def)
  let ?s1 = "set_lane lane st (s\<lparr>sv_last_mono_ns := now, sv_used_run_tokens := ts, sv_ever_ready := sv_ever_ready s \<or> er\<rparr>)"
  have "lanes_ok ?s1" by (rule lanes_ok_set [OF nt(2,1)]) (use l(2) in auto)
  then show ?thesis
    unfolding keeps_hot_def
    by (intro outcome_recompute [OF inv u]) (use now in \<open>simp_all add: prod_eq_iff\<close>)
qed

lemma upd_noop [simp]:
  "s\<lparr>sv_last_mono_ns := now, sv_used_run_tokens := sv_used_run_tokens s, sv_ever_ready := sv_ever_ready s\<rparr> = s\<lparr>sv_last_mono_ns := now\<rparr>"
  "s\<lparr>sv_last_mono_ns := now, sv_used_run_tokens := ts, sv_ever_ready := sv_ever_ready s\<rparr>
     = s\<lparr>sv_last_mono_ns := now, sv_used_run_tokens := ts\<rparr>"
  "s\<lparr>sv_last_mono_ns := now, sv_used_run_tokens := sv_used_run_tokens s, sv_ever_ready := True\<rparr>
     = s\<lparr>sv_last_mono_ns := now, sv_ever_ready := True\<rparr>"
  by simp_all

lemma keeps_set_idle:
  assumes "hot_inv s gaps outage" "sv_next_gap_id s < u64_max" "\<not> now < sv_last_mono_ns s"
    "ls_state (sv_lanes s lane) \<noteq> LaneTerminal" "ls_state st \<noteq> Ready"
  shows "keeps_hot s gaps outage (outcome (recompute_coverage now (set_lane lane st (s\<lparr>sv_last_mono_ns := now\<rparr>))))"
    "keeps_hot s gaps outage (outcome (recompute_coverage now (set_lane lane st (s\<lparr>sv_last_mono_ns := now, sv_used_run_tokens := ts\<rparr>))))"
  using keeps_set_lane [OF assms(1-4), of st False "sv_used_run_tokens s"] keeps_set_lane [OF assms(1-4), of st False ts] assms(5)
  by simp_all

lemma trip_circuit_state [simp]: "ls_state (trip_circuit cfg now st) = ls_state st"
  by (simp add: trip_circuit_def)

lemma mark_ready_keeps:
  assumes inv: "hot_inv s gaps outage" and u: "sv_next_gap_id s < u64_max"
  shows "keeps_hot s gaps outage (outcome (mark_ready lane tok now s))"
proof -
  consider (clock) "now < sv_last_mono_ns s"
    | (refused) "\<not> now < sv_last_mono_ns s" "ls_run_token (sv_lanes s lane) \<noteq> Some tok
        \<or> ls_state (sv_lanes s lane) \<noteq> Ready \<and> ls_state (sv_lanes s lane) \<noteq> Starting"
    | (again) "\<not> now < sv_last_mono_ns s" "ls_run_token (sv_lanes s lane) = Some tok" "ls_state (sv_lanes s lane) = Ready"
    | (ready) "\<not> now < sv_last_mono_ns s" "ls_run_token (sv_lanes s lane) = Some tok" "ls_state (sv_lanes s lane) = Starting"
    by blast
  then show ?thesis
  proof cases
    case clock
    then show ?thesis using keeps_clock(1) [OF inv] by (simp add: mark_ready_def advance_clock_def)
  next
    case refused
    then show ?thesis using keeps_clock(2) [OF inv] by (auto simp: mark_ready_def advance_clock_def Let_def)
  next
    case again
    have "lanes_ok s" using inv by (simp add: hot_inv_def)
    then have "keeps_hot s gaps outage (outcome (recompute_coverage now (s\<lparr>sv_last_mono_ns := now\<rparr>)))"
      unfolding keeps_hot_def
      by (intro outcome_recompute [OF inv u]) (use again in \<open>simp_all add: prod_eq_iff lanes_ok_def ready_count_def\<close>)
    then show ?thesis using again by (simp add: mark_ready_def advance_clock_def)
  next
    case ready
    then show ?thesis
      using keeps_set_lane [OF inv u ready(1), of lane "(sv_lanes s lane)\<lparr>ls_state := Ready, ls_ready_mono_ns := Some now,
          ls_circuit_state := CircuitClosed, ls_circuit_open_mono_ns := None\<rparr>" True "sv_used_run_tokens s"]
      by (simp add: mark_ready_def advance_clock_def set_lane_ever)
  qed
qed

lemma fail_lane_keeps:
  assumes inv: "hot_inv s gaps outage" and u: "sv_next_gap_id s < u64_max"
  shows "keeps_hot s gaps outage (outcome (fail_lane E lane tok reason now s))"
  using keeps_clock [OF inv] keeps_set_idle(1) [OF inv u]
  by (auto simp: fail_lane_def advance_clock_def Let_def)

lemma retire_lane_keeps:
  assumes inv: "hot_inv s gaps outage" and u: "sv_next_gap_id s < u64_max"
  shows "keeps_hot s gaps outage (outcome (retire_lane lane tok now s))"
  using keeps_clock [OF inv] keeps_set_idle(1) [OF inv u]
  by (auto simp: retire_lane_def advance_clock_def Let_def)

lemma start_lane_keeps:
  assumes inv: "hot_inv s gaps outage" and u: "sv_next_gap_id s < u64_max"
  shows "keeps_hot s gaps outage (outcome (start_lane lane tok now s))"
proof -
  have over: "keeps_hot s gaps outage (None, set_lane lane st (s\<lparr>sv_last_mono_ns := now, sv_used_run_tokens := ts\<rparr>))"
    if "\<not> now < sv_last_mono_ns s" "ls_state st = Starting" "ls_state (sv_lanes s lane) = Absent \<or> ls_state (sv_lanes s lane) = Backoff"
    for st ts
  proof -
    have nt: "\<not> sv_terminal s" "lanes_ok s" using inv that(3) by (auto simp: hot_inv_def lanes_ok_def)
    let ?s1 = "set_lane lane st (s\<lparr>sv_last_mono_ns := now, sv_used_run_tokens := ts\<rparr>)"
    have "lanes_ok ?s1" by (rule lanes_ok_set [OF nt(2,1)]) (use that in auto)
    moreover have "ready_count ?s1 = ready_count s" by (rule ready_count_cong) (use that in auto)
    ultimately have "hot_inv ?s1 (gaps @ closed_by None) (outage + outage_time s (sv_last_mono_ns ?s1))"
      by (intro outcome_refused [OF inv]) (use that(1) in auto)
    then show ?thesis by (simp add: keeps_hot_def)
  qed
  show ?thesis
    using keeps_clock [OF inv] keeps_set_idle(2) [OF inv u] over
    by (auto simp: start_lane_def advance_clock_def Let_def split: option.split)
qed

lemma hot_step_keeps:
  assumes inv: "hot_inv s gaps outage" and u: "sv_next_gap_id s < u64_max"
  shows "keeps_hot s gaps outage (hot_step E op now s)"
proof (cases op)
  case RestartRequests
  then show ?thesis using keeps_clock [OF inv] by (auto simp: restart_requests_def advance_clock_def)
next
  case AdvanceTime
  let ?s1 = "s\<lparr>sv_last_mono_ns := now, sv_lanes := (\<lambda>l. settle (sv_config s) now (sv_lanes s l))\<rparr>"
  have st: "ls_state (settle cfg now st) = ls_state st" for cfg st by (simp add: settle_def)
  have "lanes_ok ?s1" using inv st by (simp add: hot_inv_def lanes_ok_def ready_count_def)
  then have "keeps_hot s gaps outage (outcome (recompute_coverage now ?s1))" if "\<not> now < sv_last_mono_ns s"
    unfolding keeps_hot_def by (intro outcome_recompute [OF inv u]) (use that in \<open>simp_all add: prod_eq_iff\<close>)
  then show ?thesis using AdvanceTime keeps_clock [OF inv] by (auto simp: advance_time_def advance_clock_def)
next
  case Terminate
  have "hot_inv (s\<lparr>sv_last_mono_ns := now, sv_terminal := True,
      sv_lanes := (\<lambda>l. (sv_lanes s l)\<lparr>ls_state := LaneTerminal, ls_restart_not_before_mono_ns := None\<rparr>), sv_coverage := CovTerminal\<rparr>)
      gaps out'" if "\<not> now < sv_last_mono_ns s" for out'
    using inv that sorted_last_later [of "concat (map gap_times gaps) @ map gi_opened_mono_ns (open_list s)" "sv_last_mono_ns s" now]
    by (simp add: hot_inv_def current_coverage_def lanes_ok_def ready_count_def gaps_ok_def open_list_def)
  then show ?thesis using Terminate keeps_clock [OF inv]
    by (auto simp: terminate_def advance_clock_def keeps_hot_def closed_by_def)
qed (use assms in \<open>auto intro: start_lane_keeps mark_ready_keeps fail_lane_keeps retire_lane_keeps\<close>)

lemma hot_step_next_gap: "sv_next_gap_id s \<le> sv_next_gap_id (snd (hot_step E op now s))"
proof -
  have o: "snd (outcome r) = snd r" for r by (cases r rule: outcome.cases) auto
  have r: "a \<le> sv_next_gap_id x \<Longrightarrow> a \<le> sv_next_gap_id (snd (recompute_coverage now x))" for a x
    using recompute_next_gap order_trans by blast
  show ?thesis
    by (cases op) (auto simp: o start_lane_def mark_ready_def fail_lane_def retire_lane_def restart_requests_def advance_time_def
        terminate_def advance_clock_def Let_def intro!: r split: option.split)
qed

lemma supervisor_new_inv: "supervisor_new cfg now = Ok s \<Longrightarrow> hot_inv s [] 0"
  by (auto simp: supervisor_new_def hot_inv_def current_coverage_def lanes_ok_def ready_count_def absent_def gaps_ok_def
      open_list_def in_outage_def)

lemma hot_run_inv:
  assumes "hot_run E s gaps outage" "sv_next_gap_id s < u64_max"
  shows "hot_inv s gaps outage"
  using assms
proof (induction rule: hot_run.induct)
  case (run_new cfg now s)
  then show ?case by (simp add: supervisor_new_inv)
next
  case (run_step s gaps outage op now t s')
  have "sv_next_gap_id s < u64_max"
    using run_step.prems run_step.hyps(2) hot_step_next_gap [of s E op now] by simp
  then show ?case using hot_step_keeps [OF run_step.IH, of E op now] run_step.hyps(2) by (simp add: keeps_hot_def)
qed

section \<open>Circuit and configuration\<close>

definition circuit_ok :: "supervisor \<Rightarrow> bool" where
  "circuit_ok s \<longleftrightarrow> validate_config (sv_config s) = Ok ()
     \<and> (\<forall>l t. ls_circuit_open_mono_ns (sv_lanes s l) = Some t \<longrightarrow> t \<le> sv_last_mono_ns s)"

lemma circuit_recompute [simp]: "circuit_ok (snd (recompute_coverage now s)) = circuit_ok s"
  by (simp add: circuit_ok_def)

lemma circuit_clock:
  "circuit_ok s \<Longrightarrow> \<not> now < sv_last_mono_ns s \<Longrightarrow> circuit_ok (s\<lparr>sv_last_mono_ns := now\<rparr>)"
  "circuit_ok s \<Longrightarrow> \<not> now < sv_last_mono_ns s \<Longrightarrow> circuit_ok (s\<lparr>sv_last_mono_ns := now, sv_used_run_tokens := ts\<rparr>)"
  by (fastforce simp: circuit_ok_def not_less)+

lemma circuit_set:
  assumes "circuit_ok s" "\<And>t. ls_circuit_open_mono_ns st = Some t \<Longrightarrow> t \<le> sv_last_mono_ns s"
  shows "circuit_ok (set_lane l st s)" "circuit_ok ((set_lane l st s)\<lparr>sv_ever_ready := b\<rparr>)"
  using assms by (auto simp: circuit_ok_def)

lemma circuit_get: "circuit_ok s \<Longrightarrow> ls_circuit_open_mono_ns (sv_lanes s l) = Some t \<Longrightarrow> \<not> now < sv_last_mono_ns s \<Longrightarrow> t \<le> now"
  by (fastforce simp: circuit_ok_def)

lemma outcome_snd [simp]: "snd (outcome r) = snd r"
  by (cases r rule: outcome.cases) auto

lemma hot_step_circuit:
  assumes c: "circuit_ok s"
  shows "circuit_ok (snd (hot_step E op now s))"
proof (cases op)
  case (StartLane l t)
  then show ?thesis using c circuit_clock [OF c] circuit_get [OF c, of l _ now]
    by (auto simp: start_lane_def advance_clock_def Let_def split: option.split intro!: circuit_set)
next
  case (MarkReady l t)
  then show ?thesis using c circuit_clock [OF c]
    by (auto simp: mark_ready_def advance_clock_def Let_def intro!: circuit_set)
next
  case (FailLane l t r)
  then show ?thesis using c circuit_clock [OF c] circuit_get [OF c, of l _ now]
    by (auto simp: fail_lane_def advance_clock_def Let_def trip_circuit_def split: if_splits intro!: circuit_set)
next
  case (RetireLane l t)
  then show ?thesis using c circuit_clock [OF c]
    by (auto simp: retire_lane_def advance_clock_def Let_def intro!: circuit_set)
next
  case AdvanceTime
  have "ls_circuit_open_mono_ns (settle cfg now st) = ls_circuit_open_mono_ns st" for cfg st by (simp add: settle_def)
  then show ?thesis using AdvanceTime c by (fastforce simp: advance_time_def advance_clock_def circuit_ok_def)
next
  case Terminate
  then show ?thesis using c by (fastforce simp: terminate_def advance_clock_def circuit_ok_def)
next
  case RestartRequests
  then show ?thesis using c circuit_clock [OF c] by (auto simp: restart_requests_def advance_clock_def)
qed

lemma hot_run_circuit: "hot_run E s gaps outage \<Longrightarrow> circuit_ok s"
proof (induction rule: hot_run.induct)
  case (run_new cfg now s)
  then show ?case by (auto simp: supervisor_new_def circuit_ok_def absent_def)
next
  case (run_step s gaps outage op now t s')
  then show ?case using hot_step_circuit [of s E op now] by simp
qed

section \<open>Theorems\<close>

text \<open>
  The coverage state tells the readiness of the lanes. After any run, refused operations
  included, it is redundant, degraded or a gap exactly as two, one or none of the lanes are ready
  (starting before any lane ever was, terminal after termination), a gap interval is open exactly
  while it is a gap, and the gaps are numbered in the order they opened.
\<close>

theorem coverage_tells_readiness:
  assumes "hot_run E s gaps outage" "sv_next_gap_id s < u64_max" "\<not> sv_terminal s"
  shows "(sv_coverage s = Redundant \<longleftrightarrow> (\<forall>l. ls_state (sv_lanes s l) = Ready))
    \<and> (sv_coverage s = CovGap \<longleftrightarrow> sv_ever_ready s \<and> (\<forall>l. ls_state (sv_lanes s l) \<noteq> Ready))
    \<and> (sv_coverage s = CovStarting \<longleftrightarrow> \<not> sv_ever_ready s)
    \<and> (sv_open_gap s \<noteq> None \<longleftrightarrow> sv_coverage s = CovGap)
    \<and> map gi_gap_id (gaps @ open_list s) = [0..<sv_next_gap_id s]"
proof -
  have i: "hot_inv s gaps outage" by (rule hot_run_inv [OF assms(1,2)])
  then have c: "sv_coverage s = current_coverage s" "sv_open_gap s \<noteq> None \<longleftrightarrow> in_outage s" "lanes_ok s"
    using assms(3) by (auto simp: hot_inv_def)
  have all: "(\<forall>l. P l) \<longleftrightarrow> P Primary \<and> P Shadow" for P by (metis capture_lane.exhaust)
  have "(sv_coverage s = Redundant \<longleftrightarrow> (\<forall>l. ls_state (sv_lanes s l) = Ready))"
    "(sv_coverage s = CovGap \<longleftrightarrow> sv_ever_ready s \<and> (\<forall>l. ls_state (sv_lanes s l) \<noteq> Ready))"
    "(sv_coverage s = CovStarting \<longleftrightarrow> \<not> sv_ever_ready s)"
    unfolding c(1) all using assms(3) c(3) by (auto simp: current_coverage_def ready_count_def ALL_LANES_def lanes_ok_def)
  then show ?thesis using c i coverage_gap_iff by (simp add: hot_inv_def gaps_ok_def)
qed

text \<open>
  C27. The reported gaps account for the whole outage. While the supervisor is not terminated, each
  closed gap carries the length of its interval, the intervals are disjoint and in order, and their
  lengths with the age of the gap still open add up to exactly the time the supervisor ran without a
  ready lane since a lane was first ready.
\<close>

theorem outage_accounted:
  assumes "hot_run E s gaps outage" "sv_next_gap_id s < u64_max" "\<not> sv_terminal s"
  shows "outage = sum_list (map gap_length gaps)
      + sum_list (map (\<lambda>g. sv_last_mono_ns s - gi_opened_mono_ns g) (open_list s))
    \<and> list_all closed_ok gaps
    \<and> sorted (concat (map gap_times gaps) @ map gi_opened_mono_ns (open_list s) @ [sv_last_mono_ns s])"
  using hot_run_inv [OF assms(1,2)] assms(3) by (simp add: hot_inv_def gaps_ok_def)

lemma reconnect_base_bounds:
  assumes "validate_config cfg = Ok ()" "hrc_backoff_max_ns cfg \<le> u64_max"
  shows "hrc_backoff_initial_ns cfg \<le> reconnect_base_ns cfg n" "reconnect_base_ns cfg n \<le> hrc_backoff_max_ns cfg"
proof -
  have "hrc_backoff_initial_ns cfg \<le> hrc_backoff_initial_ns cfg * 2 ^ k" for k :: nat by simp
  then show "hrc_backoff_initial_ns cfg \<le> reconnect_base_ns cfg n"
    using assms by (auto simp: validate_config_def reconnect_base_ns_def saturating_mul_def split: if_splits)
qed (simp add: reconnect_base_ns_def)

text \<open>
  Reconnect delays are bounded. Under a valid policy the delay is at least the initial backoff
  and at most the maximum, the jitter adds at most its own bound, and the backoff under the jitter
  never shrinks as failures accumulate.
\<close>

theorem reconnect_delay_bounded:
  assumes "validate_config cfg = Ok ()" "hrc_backoff_max_ns cfg \<le> u64_max"
  shows "hrc_backoff_initial_ns cfg \<le> reconnect_delay_ns E cfg lane attempt n tok
    \<and> reconnect_delay_ns E cfg lane attempt n tok \<le> hrc_backoff_max_ns cfg
    \<and> reconnect_base_ns cfg n \<le> reconnect_delay_ns E cfg lane attempt n tok
    \<and> reconnect_delay_ns E cfg lane attempt n tok \<le> reconnect_base_ns cfg n + hrc_jitter_max_ns cfg
    \<and> reconnect_base_ns cfg n \<le> reconnect_base_ns cfg (n + 1)"
proof -
  note b = reconnect_base_bounds [OF assms, of n]
  have j: "x mod saturating_add (hrc_jitter_max_ns cfg) 1 \<le> hrc_jitter_max_ns cfg" for x
  proof -
    have "x mod saturating_add (hrc_jitter_max_ns cfg) 1 < saturating_add (hrc_jitter_max_ns cfg) 1"
      by (simp add: saturating_add_def u64_max_def)
    then show ?thesis by (simp add: saturating_add_def)
  qed
  have "hrc_backoff_initial_ns cfg * 2 ^ min (n - 1) 63 \<le> hrc_backoff_initial_ns cfg * 2 ^ min n 63"
    by (intro mult_left_mono power_increasing) auto
  then have m: "reconnect_base_ns cfg n \<le> reconnect_base_ns cfg (n + 1)"
    unfolding reconnect_base_ns_def saturating_mul_def saturating_sub_def diff_add_inverse2
    by (intro min.mono order_refl)
  define jit where "jit = jitter_sample E lane attempt n tok mod saturating_add (hrc_jitter_max_ns cfg) 1"
  have "jit \<le> hrc_jitter_max_ns cfg" unfolding jit_def by (rule j)
  then have "reconnect_base_ns cfg n \<le> reconnect_delay_ns E cfg lane attempt n tok"
    "reconnect_delay_ns E cfg lane attempt n tok \<le> hrc_backoff_max_ns cfg"
    "reconnect_delay_ns E cfg lane attempt n tok \<le> reconnect_base_ns cfg n + hrc_jitter_max_ns cfg"
    using b assms(2) unfolding reconnect_delay_ns_def Let_def jit_def [symmetric] by (auto simp: saturating_add_def)
  then show ?thesis using b m by linarith
qed

lemma in_concat_map: "x \<in> set xs \<Longrightarrow> y \<in> set (f x) \<Longrightarrow> y \<in> set (concat (map f xs))"
  by auto

lemma trip_circuit_keeps:
  "ls_launch_attempt (trip_circuit cfg now st) = ls_launch_attempt st"
  "ls_circuit_open_mono_ns (trip_circuit cfg now st) = Some t0 \<Longrightarrow> t0 = now \<or> ls_circuit_open_mono_ns st = Some t0"
  by (auto simp: trip_circuit_def split: if_splits)

lemma fail_lane_Ok:
  assumes "fail_lane E lane tok reason t s = (Ok tr, s')"
  shows "\<not> t < sv_last_mono_ns s \<and> (\<exists>st k. recompute_coverage t (set_lane lane st (s\<lparr>sv_last_mono_ns := t\<rparr>)) = (Ok tr, s')
    \<and> ls_state st = Backoff \<and> ls_launch_attempt st = ls_launch_attempt (sv_lanes s lane)
    \<and> ls_restart_not_before_mono_ns st
        = Some (saturating_add t (reconnect_delay_ns E (sv_config s) lane (ls_launch_attempt st) k tok))
    \<and> (\<forall>t0. ls_circuit_open_mono_ns st = Some t0 \<longrightarrow> t0 = t \<or> ls_circuit_open_mono_ns (sv_lanes s lane) = Some t0))"
proof -
  define st1 where "st1 = (sv_lanes s lane)\<lparr>ls_state := Backoff, ls_ready_mono_ns := None, ls_last_failure_reason := Some reason,
    ls_consecutive_failures := min u32_max (ls_consecutive_failures (sv_lanes s lane) + 1)\<rparr>"
  define st2 where "st2 = trip_circuit (sv_config s) t st1"
  have p: "ls_state st2 = Backoff" "ls_launch_attempt st2 = ls_launch_attempt (sv_lanes s lane)"
    "\<And>t0. ls_circuit_open_mono_ns st2 = Some t0 \<Longrightarrow> t0 = t \<or> ls_circuit_open_mono_ns (sv_lanes s lane) = Some t0"
    using trip_circuit_keeps(2) [of "sv_config s" t st1] by (auto simp: st2_def st1_def trip_circuit_keeps(1))
  let ?st = "st2\<lparr>ls_restart_not_before_mono_ns := Some (saturating_add t (reconnect_delay_ns E (sv_config s) lane
      (ls_launch_attempt st2) (ls_consecutive_failures st2) tok))\<rparr>"
  have "\<not> t < sv_last_mono_ns s \<and> recompute_coverage t (set_lane lane ?st (s\<lparr>sv_last_mono_ns := t\<rparr>)) = (Ok tr, s')"
    using assms by (auto simp: fail_lane_def advance_clock_def Let_def st1_def st2_def split: if_splits)
  then show ?thesis using p by (intro conjI exI [of _ ?st] exI [of _ "ls_consecutive_failures st2"]) auto
qed

text \<open>
  A failed lane comes back. Once the maximum backoff and the circuit cooldown have passed since
  a failure, the supervisor lists the lane for restart, and starting it with a fresh token succeeds.
\<close>

theorem failed_lane_restarts:
  assumes "hot_run E s gaps outage" "\<not> sv_terminal s" "fail_lane E lane tok reason t s = (Ok tr, s')"
    and "hrc_backoff_max_ns (sv_config s) \<le> u64_max" "sv_next_gap_id s' < u64_max"
    and "t + hrc_backoff_max_ns (sv_config s) \<le> now" "t + hrc_circuit_reset_cooldown_ns (sv_config s) \<le> now"
    and "\<not> trim_is_empty tok'" "tok' \<notin> sv_used_run_tokens s'" "ls_launch_attempt (sv_lanes s lane) < u64_max"
  shows "(\<exists>reqs s''. restart_requests now s' = (Ok reqs, s'') \<and> lane \<in> rq_lane ` set reqs)
    \<and> (\<exists>tr' s''. start_lane lane tok' now s' = (Ok tr', s'') \<and> ls_state (sv_lanes s'' lane) = Starting)"
proof -
  have c: "circuit_ok s" by (rule hot_run_circuit [OF assms(1)])
  obtain st where st: "sv_lanes s' lane = st" "ls_state st = Backoff" "sv_terminal s' = sv_terminal s" "sv_config s' = sv_config s"
      "sv_last_mono_ns s' = t" "ls_launch_attempt st = ls_launch_attempt (sv_lanes s lane)"
      "\<exists>d. ls_restart_not_before_mono_ns st = Some d \<and> d \<le> t + hrc_backoff_max_ns (sv_config s)"
      "\<And>t0. ls_circuit_open_mono_ns st = Some t0 \<Longrightarrow> t0 \<le> t"
  proof -
    obtain st k where f: "recompute_coverage t (set_lane lane st (s\<lparr>sv_last_mono_ns := t\<rparr>)) = (Ok tr, s')"
      "ls_state st = Backoff" "ls_launch_attempt st = ls_launch_attempt (sv_lanes s lane)" "\<not> t < sv_last_mono_ns s"
      "ls_restart_not_before_mono_ns st = Some (saturating_add t (reconnect_delay_ns E (sv_config s) lane (ls_launch_attempt st) k tok))"
      "\<forall>t0. ls_circuit_open_mono_ns st = Some t0 \<longrightarrow> t0 = t \<or> ls_circuit_open_mono_ns (sv_lanes s lane) = Some t0"
      using fail_lane_Ok [OF assms(3)] by blast
    have k: "reconnect_delay_ns E (sv_config s) lane a n tok \<le> hrc_backoff_max_ns (sv_config s)" for a n
      by (auto simp: reconnect_delay_ns_def Let_def reconnect_base_ns_def)
    have "\<exists>d. ls_restart_not_before_mono_ns st = Some d \<and> d \<le> t + hrc_backoff_max_ns (sv_config s)"
      using f(5) k [of "ls_launch_attempt st" k] by (simp add: saturating_add_def min.coboundedI2)
    moreover have "t0 \<le> t" if "ls_circuit_open_mono_ns st = Some t0" for t0
      using that f(4,6) circuit_get [OF c] by blast
    ultimately show ?thesis using that [of st] f recompute_keeps [of t "set_lane lane st (s\<lparr>sv_last_mono_ns := t\<rparr>)"] by simp
  qed
  have nb: "\<not> circuit_blocked (sv_config s) now st"
    using st(8) assms(7) by (fastforce simp: circuit_blocked_def saturating_sub_def split: option.splits)
  obtain d where d: "ls_restart_not_before_mono_ns st = Some d" "d \<le> now" using st(7) assms(6) by fastforce
  have now: "\<not> now < t" using assms(6) by simp
  define r where "r = \<lparr>rq_lane = lane, rq_not_before_mono_ns = d, rq_next_launch_attempt = saturating_add (ls_launch_attempt st) 1\<rparr>"
  define f where "f = request_for now (s'\<lparr>sv_last_mono_ns := now\<rparr>)"
  have la: "lane \<in> set ALL_LANES" by (cases lane) (simp_all add: ALL_LANES_def)
  have fl: "f lane = [r]" using d nb st(1,2,4) by (simp add: request_for_def f_def r_def)
  have "r \<in> set (f lane)" unfolding fl by simp
  with la have "r \<in> set (concat (map f ALL_LANES))" by (rule in_concat_map)
  then have "rq_lane r \<in> rq_lane ` set (concat (map f ALL_LANES))" by (rule imageI)
  then have "lane \<in> rq_lane ` set (concat (map (request_for now (s'\<lparr>sv_last_mono_ns := now\<rparr>)) ALL_LANES))"
    by (simp add: r_def f_def)
  then have 1: "\<exists>reqs s''. restart_requests now s' = (Ok reqs, s'') \<and> lane \<in> rq_lane ` set reqs"
    using st(3,5) assms(2) now by (simp add: restart_requests_def advance_clock_def)
  have ok: "\<exists>tr'. fst (recompute_coverage now x) = Ok tr'" if "sv_next_gap_id x = sv_next_gap_id s'" for x
    using that assms(5) by (auto simp: recompute_coverage_def Let_def split: option.split)
  define x where "x = set_lane lane ((if ls_circuit_state st = CircuitOpen then st\<lparr>ls_circuit_state := HalfOpen\<rparr> else st)
      \<lparr>ls_state := Starting, ls_run_token := Some tok', ls_launch_attempt := ls_launch_attempt (sv_lanes s lane) + 1,
       ls_started_mono_ns := Some now, ls_ready_mono_ns := None, ls_restart_not_before_mono_ns := None,
       ls_last_failure_reason := None\<rparr>) (s'\<lparr>sv_last_mono_ns := now, sv_used_run_tokens := insert tok' (sv_used_run_tokens s')\<rparr>)"
  have "start_lane lane tok' now s' = recompute_coverage now x"
    using st(1-6) assms(2,8,9,10) now d nb by (simp add: start_lane_def advance_clock_def Let_def x_def split: option.split)
  moreover have "ls_state (sv_lanes x lane) = Starting" "sv_next_gap_id x = sv_next_gap_id s'" by (simp_all add: x_def)
  ultimately have "\<exists>x tr'. start_lane lane tok' now s' = recompute_coverage now x \<and> ls_state (sv_lanes x lane) = Starting
      \<and> fst (recompute_coverage now x) = Ok tr'" using ok by blast
  then have 2: "\<exists>tr' s''. start_lane lane tok' now s' = (Ok tr', s'') \<and> ls_state (sv_lanes s'' lane) = Starting"
    by (metis prod.collapse recompute_keeps(3))
  show ?thesis using 1 2 by blast
qed

section \<open>Witnesses\<close>

definition demo_policy :: hot_redundancy_config where
  "demo_policy = \<lparr>hrc_backoff_initial_ns = 10, hrc_backoff_max_ns = 100, hrc_jitter_max_ns = 0, hrc_backoff_reset_after_ns = 50,
     hrc_circuit_failure_threshold = 1, hrc_circuit_reset_cooldown_ns = 30\<rparr>"

definition demo_hot :: supervisor where
  "demo_hot = \<lparr>sv_config = demo_policy, sv_lanes = absent, sv_used_run_tokens = {}, sv_coverage = CovStarting,
     sv_ever_ready = False, sv_open_gap = None, sv_next_gap_id = 0, sv_last_mono_ns = 0, sv_terminal = False\<rparr>"

lemma demo_policy_ok [simp]: "validate_config demo_policy = Ok ()"
  by (simp add: validate_config_def demo_policy_def)

lemma demo_hot_new: "supervisor_new demo_policy 0 = Ok demo_hot"
  by (simp add: supervisor_new_def demo_hot_def)

definition demo_hot1 :: supervisor where
  "demo_hot1 = snd (start_lane Primary ''r1'' 1 demo_hot)"

definition demo_hot2 :: supervisor where
  "demo_hot2 = snd (mark_ready Primary ''r1'' 2 demo_hot1)"

definition demo_hot3 :: supervisor where
  "demo_hot3 = snd (fail_lane (table_externals []) Primary ''r1'' ''lost'' 5 demo_hot2)"

lemmas demo_hot_eval = start_lane_def mark_ready_def fail_lane_def advance_clock_def recompute_coverage_def set_lane_def
  current_coverage_def ready_count_def ALL_LANES_def trim_is_empty_def absent_def circuit_blocked_def trip_circuit_def
  reconnect_delay_ns_def reconnect_base_ns_def saturating_mul_def saturating_sub_def saturating_add_def u64_max_def u32_max_def
  checked_add_def

lemma demo_hot1_eq: "demo_hot1 = demo_hot\<lparr>sv_last_mono_ns := 1, sv_used_run_tokens := {''r1''}, sv_lanes := absent(Primary :=
    (absent Primary)\<lparr>ls_state := Starting, ls_run_token := Some ''r1'', ls_launch_attempt := 1, ls_started_mono_ns := Some 1\<rparr>)\<rparr>"
  by (simp add: demo_hot1_def demo_hot_def demo_hot_eval)

lemma demo_hot2_eq: "demo_hot2 = demo_hot1\<lparr>sv_last_mono_ns := 2, sv_coverage := Degraded, sv_ever_ready := True,
    sv_lanes := absent(Primary := (sv_lanes demo_hot1 Primary)\<lparr>ls_state := Ready, ls_ready_mono_ns := Some 2\<rparr>)\<rparr>"
  by (simp add: demo_hot2_def demo_hot1_eq demo_hot_def demo_hot_eval)

lemma demo_fail: "\<exists>tr. fail_lane (table_externals []) Primary ''r1'' ''lost'' 5 demo_hot2 = (Ok tr, demo_hot3)"
  "sv_open_gap demo_hot3 = Some \<lparr>gi_gap_id = 0, gi_opened_mono_ns = 5, gi_closed_mono_ns = None, gi_unavailable_ns = None\<rparr>"
  "sv_next_gap_id demo_hot3 = 1" "\<not> sv_terminal demo_hot3" "sv_used_run_tokens demo_hot3 = {''r1''}" "sv_last_mono_ns demo_hot3 = 5"
  by (simp_all add: demo_hot3_def demo_hot2_eq demo_hot1_eq demo_hot_def demo_hot_eval demo_policy_def Let_def)

lemma demo_hot_run2: "hot_run (table_externals []) demo_hot2 [] 0"
proof -
  have 0: "hot_run (table_externals []) demo_hot [] 0" by (rule run_new [OF demo_hot_new])
  have 1: "hot_step (table_externals []) (StartLane Primary ''r1'') 1 demo_hot = (Some \<lparr>ct_previous = CovStarting, ct_current = CovStarting,
      ct_opened_gap = None, ct_closed_gap = None\<rparr>, demo_hot1)"
    by (simp add: demo_hot1_eq demo_hot_def demo_hot_eval)
  have 2: "hot_step (table_externals []) (MarkReady Primary ''r1'') 2 demo_hot1 = (Some \<lparr>ct_previous = CovStarting, ct_current = Degraded,
      ct_opened_gap = None, ct_closed_gap = None\<rparr>, demo_hot2)"
    by (simp add: demo_hot2_eq demo_hot1_eq demo_hot_def demo_hot_eval)
  show ?thesis using run_step [OF run_step [OF 0 1] 2]
    by (simp add: closed_by_def outage_time_def in_outage_def demo_hot1_eq demo_hot_def ready_count_def absent_def)
qed

lemma demo_hot_run3: "hot_run (table_externals []) demo_hot3 [] 0"
proof -
  obtain tr where "fail_lane (table_externals []) Primary ''r1'' ''lost'' 5 demo_hot2 = (Ok tr, demo_hot3)" using demo_fail(1) by blast
  moreover have "ct_closed_gap tr = None"
    using calculation by (auto simp: demo_hot2_eq demo_hot1_eq demo_hot_def demo_hot_eval demo_policy_def Let_def)
  moreover have "\<not> in_outage demo_hot2"
    by (simp add: in_outage_def demo_hot2_eq demo_hot1_eq demo_hot_def ready_count_def ALL_LANES_def)
  ultimately show ?thesis using run_step [OF demo_hot_run2, of "FailLane Primary ''r1'' ''lost''" 5 "Some tr" demo_hot3]
    by (simp add: closed_by_def outage_time_def)
qed

text \<open>Witness: the primary lane was ready and failed; the shadow lane was never started.\<close>

theorem coverage_tells_readiness_witness:
  "hot_run (table_externals []) demo_hot3 [] 0 \<and> sv_coverage demo_hot3 = CovGap"
  using coverage_tells_readiness [OF demo_hot_run3] demo_hot_run3 by (simp add: demo_fail u64_max_def)

text \<open>The shadow lane takes over: it is started at 6 and ready at 9, which closes the gap opened at 5.\<close>

definition demo_hot4 :: supervisor where
  "demo_hot4 = snd (start_lane Shadow ''r2'' 6 demo_hot3)"

definition demo_hot5 :: supervisor where
  "demo_hot5 = snd (mark_ready Shadow ''r2'' 9 demo_hot4)"

definition demo_closed :: gap_interval where
  "demo_closed = \<lparr>gi_gap_id = 0, gi_opened_mono_ns = 5, gi_closed_mono_ns = Some 9, gi_unavailable_ns = Some 4\<rparr>"

lemma demo_failed_lane: "sv_lanes demo_hot3 Shadow = absent Shadow" "ls_state (sv_lanes demo_hot3 Primary) \<noteq> Ready"
  "sv_coverage demo_hot3 = CovGap" "sv_ever_ready demo_hot3" "sv_config demo_hot3 = demo_policy"
  by (simp_all add: demo_hot3_def demo_hot2_eq demo_hot1_eq demo_hot_def demo_hot_eval demo_policy_def Let_def)

lemma demo_hot4_eq: "start_lane Shadow ''r2'' 6 demo_hot3 = (Ok \<lparr>ct_previous = CovGap, ct_current = CovGap,
      ct_opened_gap = None, ct_closed_gap = None\<rparr>, demo_hot4)"
  "demo_hot4 = demo_hot3\<lparr>sv_last_mono_ns := 6, sv_used_run_tokens := {''r2'', ''r1''}, sv_coverage := CovGap, sv_lanes := (sv_lanes demo_hot3)(Shadow :=
    (absent Shadow)\<lparr>ls_state := Starting, ls_run_token := Some ''r2'', ls_launch_attempt := 1, ls_started_mono_ns := Some 6\<rparr>)\<rparr>"
  by (simp_all add: demo_hot4_def demo_failed_lane demo_fail demo_hot_eval)

lemma demo_takeover:
  "hot_step (table_externals []) (StartLane Shadow ''r2'') 6 demo_hot3 = (Some \<lparr>ct_previous = CovGap, ct_current = CovGap,
      ct_opened_gap = None, ct_closed_gap = None\<rparr>, demo_hot4)"
  "hot_step (table_externals []) (MarkReady Shadow ''r2'') 9 demo_hot4 = (Some \<lparr>ct_previous = CovGap, ct_current = Degraded,
      ct_opened_gap = None, ct_closed_gap = Some demo_closed\<rparr>, demo_hot5)"
  "in_outage demo_hot3" "in_outage demo_hot4" "sv_last_mono_ns demo_hot4 = 6" "sv_last_mono_ns demo_hot5 = 9"
  "sv_open_gap demo_hot5 = None" "sv_next_gap_id demo_hot5 = 1" "\<not> sv_terminal demo_hot5"
  by (simp_all add: demo_hot4_eq demo_hot5_def demo_failed_lane demo_fail demo_hot_eval demo_closed_def in_outage_def)

text \<open>Witness: the gap from 5 to 9 is the whole outage of 4.\<close>

theorem outage_accounted_witness:
  "hot_run (table_externals []) demo_hot5 [demo_closed] 4 \<and> 4 = sum_list (map gap_length [demo_closed])
    \<and> closed_ok demo_closed \<and> sorted [5, 9, sv_last_mono_ns demo_hot5]"
proof -
  have r: "hot_run (table_externals []) demo_hot5 [demo_closed] 4"
    using run_step [OF run_step [OF demo_hot_run3 demo_takeover(1)] demo_takeover(2)]
    by (simp add: closed_by_def outage_time_def demo_takeover demo_fail)
  show ?thesis using outage_accounted [OF r] r
    by (simp add: demo_takeover u64_max_def open_list_def gap_times_def demo_closed_def)
qed

theorem reconnect_delay_bounded_witness:
  "validate_config demo_policy = Ok () \<and> 10 \<le> reconnect_delay_ns (table_externals []) demo_policy Primary 1 4 ''r1''
    \<and> reconnect_delay_ns (table_externals []) demo_policy Primary 1 4 ''r1'' \<le> 100"
  using reconnect_delay_bounded [of demo_policy "table_externals []" Primary 1 4 "''r1''"]
  by (simp add: demo_policy_def [THEN arg_cong, of hrc_backoff_max_ns] demo_policy_def [THEN arg_cong, of hrc_backoff_initial_ns] u64_max_def)

theorem failed_lane_restarts_witness:
  "\<exists>reqs s''. restart_requests 105 demo_hot3 = (Ok reqs, s'') \<and> Primary \<in> rq_lane ` set reqs"
proof -
  obtain tr where f: "fail_lane (table_externals []) Primary ''r1'' ''lost'' 5 demo_hot2 = (Ok tr, demo_hot3)" using demo_fail(1) by blast
  have h: "\<not> sv_terminal demo_hot2" "hrc_backoff_max_ns (sv_config demo_hot2) = 100"
    "hrc_circuit_reset_cooldown_ns (sv_config demo_hot2) = 30" "ls_launch_attempt (sv_lanes demo_hot2 Primary) = 1"
    by (simp_all add: demo_hot2_eq demo_hot1_eq demo_hot_def demo_policy_def)
  show ?thesis using failed_lane_restarts [OF demo_hot_run2 h(1) f, of 105 "''r2''"] h demo_fail
    by (simp add: u64_max_def trim_is_empty_def)
qed

end
