(* ===== verification/Watchdog.thy ===== *)
theory Watchdog
  imports BTree_Map "HOL-Library.List_Lexorder" "HOL-Library.Char_ord"
begin

text \<open>
  The progress watchdog of \<open>src/rust/lob-replay/src/liveness.rs\<close>: per stream the last value and the
  time it last advanced, against one deadline, with a caller-supplied monotonic time. The theorem
  shows that the state is exactly what the accepted observations say, and that the check accepts
  exactly when every stream has advanced within the deadline.
\<close>

section \<open>Model\<close>

record progress_state =
  ps_value :: nat
  ps_last_advance_ns :: nat

record progress_watchdog =
  pw_deadline_ns :: nat
  pw_streams :: "(string \<times> progress_state) list"

definition watchdog_new :: "nat \<Rightarrow> progress_watchdog res" where
  "watchdog_new deadline_ns =
     (if deadline_ns = 0 then Err (Fail ''progress watchdog deadline must be positive'')
      else Ok \<lparr>pw_deadline_ns = deadline_ns, pw_streams = []\<rparr>)"

definition check_one :: "nat \<Rightarrow> string \<Rightarrow> progress_state \<Rightarrow> nat \<Rightarrow> unit res" where
  "check_one deadline_ns name st now =
     rbind (ok_or (FailS ''monotonic watchdog time regressed'' [name]) (checked_sub now (ps_last_advance_ns st))) (\<lambda>age.
       check (age < deadline_ns) (FailN ''progress stalled'' [ps_value st, age, deadline_ns]))"

definition watchdog_observe :: "string \<Rightarrow> nat \<Rightarrow> nat \<Rightarrow> progress_watchdog \<Rightarrow> unit res \<times> progress_watchdog" where
  "watchdog_observe name val now w =
     (if trim_is_empty name then (Err (Fail ''progress watchdog stream name must not be empty''), w)
      else
        let put = w\<lparr>pw_streams := bt_insert (<) name \<lparr>ps_value = val, ps_last_advance_ns = now\<rparr> (pw_streams w)\<rparr>
        in case bt_get (<) name (pw_streams w) of
             None \<Rightarrow> (Ok (), put)
           | Some previous \<Rightarrow>
               if val < ps_value previous then (Err (FailN ''progress regressed'' [ps_value previous, val]), w)
               else if now < ps_last_advance_ns previous
               then (Err (FailS ''monotonic watchdog time regressed'' [name]), w)
               else if ps_value previous < val then (Ok (), put)
               else (check_one (pw_deadline_ns w) name previous now, w))"

fun check_streams :: "nat \<Rightarrow> nat \<Rightarrow> (string \<times> progress_state) list \<Rightarrow> unit res" where
  "check_streams deadline_ns now [] = Ok ()"
| "check_streams deadline_ns now ((name, st) # ss) =
     rbind (check_one deadline_ns name st now) (\<lambda>_. check_streams deadline_ns now ss)"

definition watchdog_check :: "progress_watchdog \<Rightarrow> nat \<Rightarrow> unit res" where
  "watchdog_check w now = check_streams (pw_deadline_ns w) now (pw_streams w)"

section \<open>What the accepted observations say\<close>

interpretation string_key: btree_order "(<) :: string \<Rightarrow> string \<Rightarrow> bool" "\<lambda>_. True"
  by unfold_locales auto

abbreviation streams_wf :: "(string \<times> progress_state) list \<Rightarrow> bool" where
  "streams_wf \<equiv> bt_wf (<) (\<lambda>_. True)"

type_synonym progress_log = "(string \<times> nat \<times> nat) list"

text \<open>The accepted observations \<open>(name, value, time)\<close> of a watchdog in order.\<close>

inductive watched :: "nat \<Rightarrow> progress_log \<Rightarrow> progress_watchdog \<Rightarrow> bool" for deadline where
  watched_new: "watchdog_new deadline = Ok w \<Longrightarrow> watched deadline [] w"
| watched_accept: "watched deadline obs w \<Longrightarrow> watchdog_observe name val now w = (Ok (), w') \<Longrightarrow>
    watched deadline (obs @ [(name, val, now)]) w'"
| watched_refuse: "watched deadline obs w \<Longrightarrow> watchdog_observe name val now w = (Err e, w') \<Longrightarrow> watched deadline obs w'"

text \<open>The last value of a stream and the time of the first observation that reached it.\<close>

definition stream_log :: "string \<Rightarrow> progress_log \<Rightarrow> (nat \<times> nat) list" where
  "stream_log name obs = map snd (filter (\<lambda>e. fst e = name) obs)"

fun progress_of :: "(nat \<times> nat) list \<Rightarrow> progress_state option" where
  "progress_of [] = None"
| "progress_of (e # es) =
     (let v = fst (last (e # es)) in
      Some \<lparr>ps_value = v, ps_last_advance_ns = snd (hd (filter (\<lambda>x. fst x = v) (e # es)))\<rparr>)"

lemma stream_log_snoc:
  "stream_log name (obs @ [(n, v, t)]) = (if n = name then stream_log name obs @ [(v, t)] else stream_log name obs)"
  by (simp add: stream_log_def)

lemma progress_of_snoc:
  assumes "list_all (\<lambda>x. fst x \<le> fst (last es)) es" "es \<noteq> []"
  shows "progress_of (es @ [(v, t)]) = (if fst (last es) < v then Some \<lparr>ps_value = v, ps_last_advance_ns = t\<rparr>
      else if v = fst (last es) then progress_of es else progress_of (es @ [(v, t)]))"
proof -
  obtain e es' where es: "es = e # es'" using assms(2) by (cases es) auto
  have p: "progress_of (es @ [(v, t)]) = Some \<lparr>ps_value = v, ps_last_advance_ns = snd (hd (filter (\<lambda>x. fst x = v) (es @ [(v, t)])))\<rparr>"
    by (simp add: es)
  show ?thesis
  proof (cases "fst (last es) < v")
    case True
    then have "filter (\<lambda>x. fst x = v) es = []" using assms(1) by (auto simp: filter_empty_conv list_all_iff)
    then show ?thesis using True by (simp add: p)
  next
    case False
    have "filter (\<lambda>x. fst x = fst (last es)) es \<noteq> []" using assms(2) by (auto simp: filter_empty_conv)
    then show ?thesis using False by (auto simp: p es hd_append Let_def)
  qed
qed

definition watch_inv :: "nat \<Rightarrow> progress_log \<Rightarrow> progress_watchdog \<Rightarrow> bool" where
  "watch_inv deadline obs w \<longleftrightarrow> pw_deadline_ns w = deadline \<and> streams_wf (pw_streams w)
     \<and> (\<forall>name. map_of (pw_streams w) name = progress_of (stream_log name obs))
     \<and> (\<forall>name. list_all (\<lambda>x. fst x \<le> fst (last (stream_log name obs))) (stream_log name obs))"

lemma watch_inv_put:
  assumes inv: "watch_inv deadline obs w"
    and later: "stream_log name obs \<noteq> [] \<Longrightarrow> fst (last (stream_log name obs)) < val"
  shows "watch_inv deadline (obs @ [(name, val, now)])
    (w\<lparr>pw_streams := bt_insert (<) name \<lparr>ps_value = val, ps_last_advance_ns = now\<rparr> (pw_streams w)\<rparr>)"
proof -
  have i: "streams_wf (pw_streams w)" "\<And>n. map_of (pw_streams w) n = progress_of (stream_log n obs)"
    "\<And>n. list_all (\<lambda>x. fst x \<le> fst (last (stream_log n obs))) (stream_log n obs)"
    using inv by (auto simp: watch_inv_def)
  have "progress_of (stream_log name obs @ [(val, now)]) = Some \<lparr>ps_value = val, ps_last_advance_ns = now\<rparr>"
    using progress_of_snoc [OF i(3), of name val now] later by (cases "stream_log name obs = []") auto
  moreover have "list_all (\<lambda>x. fst x \<le> val) (stream_log name obs)"
    using i(3) [of name] later by (cases "stream_log name obs = []") (auto simp: list_all_iff intro: order_trans less_imp_le)
  ultimately show ?thesis
    using inv i string_key.wf_insert [OF i(1)] string_key.map_of_insert [OF i(1)]
    by (simp add: watch_inv_def stream_log_snoc)
qed

lemma watch_inv_same:
  assumes inv: "watch_inv deadline obs w" and s: "stream_log name obs \<noteq> []" "fst (last (stream_log name obs)) = val"
  shows "watch_inv deadline (obs @ [(name, val, now)]) w"
proof -
  have i: "\<And>n. list_all (\<lambda>x. fst x \<le> fst (last (stream_log n obs))) (stream_log n obs)" using inv by (simp add: watch_inv_def)
  have "progress_of (stream_log name obs @ [(val, now)]) = progress_of (stream_log name obs)"
    using progress_of_snoc [OF i s(1), of val now] s(2) by simp
  then show ?thesis using inv s i [of name] by (simp add: watch_inv_def stream_log_snoc)
qed

lemma progress_of_Some: "progress_of es = Some st \<Longrightarrow> es \<noteq> [] \<and> ps_value st = fst (last es)"
  by (cases es) (auto simp: Let_def)

lemma watched_inv: "watched deadline obs w \<Longrightarrow> watch_inv deadline obs w"
proof (induction rule: watched.induct)
  case (watched_new w)
  then show ?case by (auto simp: watchdog_new_def watch_inv_def stream_log_def string_key.wf_Nil split: if_splits)
next
  case (watched_accept obs w name val now w')
  have g: "bt_get (<) name (pw_streams w) = progress_of (stream_log name obs)"
    using watched_accept.IH string_key.get_eq_map_of [of "pw_streams w" name] by (simp add: watch_inv_def)
  show ?case
  proof (cases "progress_of (stream_log name obs)")
    case None
    then have "stream_log name obs = []" by (cases "stream_log name obs") (auto simp: Let_def)
    then show ?thesis using watched_accept.hyps(2) None g watch_inv_put [OF watched_accept.IH]
      by (auto simp: watchdog_observe_def Let_def split: if_splits)
  next
    case (Some st)
    note p = progress_of_Some [OF Some]
    show ?thesis using watched_accept.hyps(2) Some g p watch_inv_put [OF watched_accept.IH, of name val now]
        watch_inv_same [OF watched_accept.IH, of name val now]
      by (auto simp: watchdog_observe_def Let_def split: if_splits)
  qed
next
  case (watched_refuse obs w name val now e w')
  then show ?case by (auto simp: watchdog_observe_def Let_def split: if_splits option.splits)
qed

lemma check_streams_Ok:
  "check_streams deadline now ss = Ok () \<longleftrightarrow>
     (\<forall>e\<in>set ss. ps_last_advance_ns (snd e) \<le> now \<and> now - ps_last_advance_ns (snd e) < deadline)"
  by (induction ss) (auto simp: check_one_def)

section \<open>Theorem\<close>

text \<open>
  The watchdog answers exactly what the accepted observations say: for every stream it holds the
  last reported value and the time that value was first reached, values never go down, and the check
  succeeds exactly when every observed stream reached its value within the deadline.
\<close>

theorem watchdog_exact:
  assumes "watched deadline obs w"
  shows "(\<forall>name. map_of (pw_streams w) name = progress_of (stream_log name obs))
    \<and> (\<forall>name. list_all (\<lambda>x. fst x \<le> fst (last (stream_log name obs))) (stream_log name obs))
    \<and> (watchdog_check w now = Ok () \<longleftrightarrow> (\<forall>name st. progress_of (stream_log name obs) = Some st \<longrightarrow>
         ps_last_advance_ns st \<le> now \<and> now < ps_last_advance_ns st + deadline))"
proof -
  note i = watched_inv [OF assms]
  have m: "map_of (pw_streams w) name = progress_of (stream_log name obs)" for name using i by (simp add: watch_inv_def)
  have d: "distinct (map fst (pw_streams w))" using i string_key.wf_distinct by (auto simp: watch_inv_def)
  have "(\<forall>e\<in>set (pw_streams w). P (snd e)) \<longleftrightarrow> (\<forall>name st. map_of (pw_streams w) name = Some st \<longrightarrow> P st)" for P
    using d by (force simp: map_of_eq_Some_iff)
  then have "watchdog_check w now = Ok () \<longleftrightarrow> (\<forall>name st. progress_of (stream_log name obs) = Some st \<longrightarrow>
      ps_last_advance_ns st \<le> now \<and> now - ps_last_advance_ns st < deadline)"
    using i m by (simp add: watchdog_check_def check_streams_Ok watch_inv_def)
  moreover have "a \<le> now \<and> now - a < deadline \<longleftrightarrow> a \<le> now \<and> now < a + deadline" for a by auto
  ultimately show ?thesis using i by (simp add: watch_inv_def)
qed

text \<open>Witness: one stream that advances and then repeats its value.\<close>

theorem watchdog_exact_witness:
  "\<exists>w. watched 10 [(''raw'', 1, 0), (''raw'', 2, 5), (''raw'', 2, 8)] w \<and> watchdog_check w 14 = Ok () \<and> watchdog_check w 15 \<noteq> Ok ()"
proof -
  define w where "w = (\<lambda>v t. \<lparr>pw_deadline_ns = 10, pw_streams = [(''raw'', \<lparr>ps_value = v, ps_last_advance_ns = t\<rparr>)]\<rparr>)"
  define w0 where "w0 = \<lparr>pw_deadline_ns = 10, pw_streams = []\<rparr>"
  have 0: "watchdog_new 10 = Ok w0" by (simp add: watchdog_new_def w0_def)
  have 1: "watchdog_observe ''raw'' 1 0 w0 = (Ok (), w 1 0)"
    by (simp add: watchdog_observe_def trim_is_empty_def w0_def w_def)
  have 2: "watchdog_observe ''raw'' 2 5 (w 1 0) = (Ok (), w 2 5)" by (simp add: watchdog_observe_def trim_is_empty_def w_def)
  have 3: "watchdog_observe ''raw'' 2 8 (w 2 5) = (Ok (), w 2 5)"
    by (simp add: watchdog_observe_def trim_is_empty_def w_def check_one_def checked_sub_def)
  have r: "watched 10 [(''raw'', 1, 0), (''raw'', 2, 5), (''raw'', 2, 8)] (w 2 5)"
    using watched_accept [OF watched_accept [OF watched_accept [OF watched_new [OF 0] 1] 2] 3] by simp
  have p: "progress_of (stream_log name [(''raw'', 1, 0), (''raw'', 2, 5), (''raw'', 2, 8)])
      = (if name = ''raw'' then Some \<lparr>ps_value = 2, ps_last_advance_ns = 5\<rparr> else None)" for name
    by (simp add: stream_log_def)
  have "watchdog_check (w 2 5) now = Ok () \<longleftrightarrow> 5 \<le> now \<and> now < 15" for now
    using watchdog_exact [OF r, of now] by (simp add: p [unfolded One_nat_def])
  then show ?thesis using r by (intro exI [of _ "w 2 5"]) simp
qed

end
