(* ===== verification/Framed_Log.thy ===== *)
theory Framed_Log
  imports Raw_Log
begin

text \<open>
  The record framing the boundary journal (\<open>boundary.rs\<close>) and the ownership ledger
  (\<open>ownership.rs\<close>) share: an eight-byte magic, then records of a big-endian \<open>u32\<close> length, the JSON
  body and its SHA-256. The scan loop of both files is one function here, with the semantic check of
  a record as its parameter, and so is the write-and-sync step of both writers. A file is its bytes;
  its length is a \<open>u64\<close>, so the running offset of a scan cannot overflow.
\<close>

section \<open>Frames\<close>

definition encode_frame :: "'v externals \<Rightarrow> bytes \<Rightarrow> bytes" where
  "encode_frame E body = be_bytes 4 (length body) @ body @ sha256 E body"

datatype frame = FrameEof | FrameBad string | Frame bytes bytes bytes

definition next_frame :: "'v externals \<Rightarrow> string \<Rightarrow> nat \<Rightarrow> bytes \<Rightarrow> frame" where
  "next_frame E noun limit bs =
     (if bs = [] then FrameEof
      else if length bs < 4 then FrameBad (''partial '' @ noun @ '' length prefix'')
      else
        let n = from_be_bytes (take 4 bs); rest = drop 4 bs in
        if limit < n then FrameBad (noun @ '' record length exceeds limit'')
        else if length rest < n then FrameBad (''partial '' @ noun @ '' record body'')
        else if length rest < n + 32 then FrameBad (''partial '' @ noun @ '' record digest'')
        else if sha256 E (take n rest) \<noteq> take 32 (drop n rest) then FrameBad (noun @ '' record digest mismatch'')
        else Frame (take n rest) (take 32 (drop n rest)) (drop (n + 32) rest))"

lemma next_frame_rest: "next_frame E noun limit bs = Frame body d rest \<Longrightarrow> length rest < length bs"
  by (auto simp: next_frame_def Let_def split: if_splits)

text \<open>
  The scan loop: the state, the offset of the last good record and the reason it stopped, if any. The
  check of a record answers an error or accepts it and leaves the state it changed in both cases.
\<close>

function frame_scan ::
  "'v externals \<Rightarrow> string \<Rightarrow> nat \<Rightarrow> (bytes \<Rightarrow> 'r option) \<Rightarrow> ('r \<Rightarrow> string \<Rightarrow> 's \<Rightarrow> unit res \<times> 's) \<Rightarrow> bytes \<Rightarrow> nat \<Rightarrow> 's
     \<Rightarrow> 's \<times> nat \<times> error option" where
  "frame_scan E noun limit parse step bs off s =
     (case next_frame E noun limit bs of
        FrameEof \<Rightarrow> (s, off, None)
      | FrameBad m \<Rightarrow> (s, off, Some (Fail m))
      | Frame body d rest \<Rightarrow>
          (case parse body of
             None \<Rightarrow> (s, off, Some (Fail (''invalid '' @ noun @ '' record JSON'')))
           | Some r \<Rightarrow>
               (case step r (hex d) s of
                  (Inl e, s1) \<Rightarrow> (s1, off, Some e)
                | (Inr _, s1) \<Rightarrow> frame_scan E noun limit parse step rest (off + (4 + length body + 32)) s1)))"
  by pat_completeness auto
termination
  by (relation "measure (\<lambda>(E, noun, limit, parse, step, bs, off, s). length bs)") (auto dest: next_frame_rest)

declare frame_scan.simps [simp del]

lemma frame_scan_cases:
  "next_frame E noun limit bs = FrameEof \<Longrightarrow> frame_scan E noun limit parse step bs off s = (s, off, None)"
  "next_frame E noun limit bs = FrameBad m \<Longrightarrow> frame_scan E noun limit parse step bs off s = (s, off, Some (Fail m))"
  "next_frame E noun limit bs = Frame body d rest \<Longrightarrow> frame_scan E noun limit parse step bs off s =
     (case parse body of
        None \<Rightarrow> (s, off, Some (Fail (''invalid '' @ noun @ '' record JSON'')))
      | Some r \<Rightarrow>
          (case step r (hex d) s of
             (Inl e, s1) \<Rightarrow> (s1, off, Some e)
           | (Inr _, s1) \<Rightarrow> frame_scan E noun limit parse step rest (off + (4 + length body + 32)) s1))"
  by (subst frame_scan.simps; simp)+

lemma be_bytes_from: "length p = 4 \<Longrightarrow> be_bytes 4 (from_be_bytes p) = p"
  using le_bytes_from_le_bytes [of "rev p"] by (simp add: be_bytes_def from_be_bytes_def)

lemma from_be_bytes_four: "length p = 4 \<Longrightarrow> from_be_bytes p < 256 ^ 4"
  using from_le_bytes_bound [of "rev p"] by (simp add: from_be_bytes_def)

lemma split_three: "xs = take n xs @ take m (drop n xs) @ drop (n + m) xs"
  by (simp add: add.commute flip: drop_drop)

lemma next_frame_sound:
  assumes "next_frame E noun limit bs = Frame body d rest"
  shows "bs = encode_frame E body @ rest" "d = sha256 E body" "length body \<le> limit" "length d = 32"
    "length body = from_be_bytes (take 4 bs)"
proof -
  let ?n = "from_be_bytes (take 4 bs)" and ?r = "drop 4 bs"
  have f: "4 \<le> length bs" "?n + 32 \<le> length ?r" "?n \<le> limit" "body = take ?n ?r" "d = take 32 (drop ?n ?r)"
    "rest = drop (?n + 32) ?r" "sha256 E body = d"
    using assms by (auto simp: next_frame_def Let_def not_less split: if_splits)
  have n: "length body = ?n" using f(2,4) by simp
  have "bs = take 4 bs @ ?r" by simp
  also have "?r = body @ d @ rest"
    unfolding f(4-6) by (rule split_three)
  also have "take 4 bs = be_bytes 4 (length body)" using f(1) n be_bytes_from [of "take 4 bs"] by simp
  finally show "bs = encode_frame E body @ rest" using f(7) by (simp add: encode_frame_def)
  show "d = sha256 E body" "length body \<le> limit" "length d = 32" using f n by auto
  show "length body = from_be_bytes (take 4 bs)" by (rule n)
qed

lemma next_frame_encode:
  assumes "sha256_len32 E" "length body \<le> limit" "length body < 256 ^ 4"
  shows "next_frame E noun limit (encode_frame E body @ rest) = Frame body (sha256 E body) rest"
proof -
  have l: "length (sha256 E body) = 32" using assms(1) by (simp add: sha256_len32_def)
  have n: "from_be_bytes (be_bytes 4 (length body)) = length body" by (rule from_be_bytes_be_bytes [OF assms(3)])
  have ne: "be_bytes 4 k \<noteq> []" for k by (metis length_0_conv length_be_bytes zero_neq_numeral)
  show ?thesis using assms(2) l n by (simp add: next_frame_def encode_frame_def ne)
qed

text \<open>A cut frame is never read as a record.\<close>

lemma next_frame_cut:
  assumes "sha256_len32 E" "length body \<le> limit" "length body < 256 ^ 4" "0 < k" "k < length (encode_frame E body)"
  shows "\<exists>m. next_frame E noun limit (take k (encode_frame E body)) = FrameBad m"
proof (cases "next_frame E noun limit (take k (encode_frame E body))")
  case (Frame b d rest)
  have l: "length (sha256 E x) = 32" for x using assms(1) by (simp add: sha256_len32_def)
  note f = next_frame_sound [OF Frame]
  have "4 \<le> length (take k (encode_frame E body))" using f(1) by (simp add: encode_frame_def)
  then have "4 \<le> k" by simp
  then have "take 4 (take k (encode_frame E body)) = be_bytes 4 (length body)" by (simp add: encode_frame_def min_def)
  moreover have "take 4 (take k (encode_frame E body)) = be_bytes 4 (length b)" unfolding f(1) by (simp add: encode_frame_def)
  ultimately have "from_be_bytes (be_bytes 4 (length body)) = from_be_bytes (be_bytes 4 (length b))" by simp
  moreover have "length b < 256 ^ 4"
  proof -
    have "length b \<le> length (take k (encode_frame E body))" unfolding f(1) by (simp add: encode_frame_def)
    then have "length b < length body + 36" using assms(5) l by (simp add: encode_frame_def)
    moreover have "from_be_bytes (take 4 (take k (encode_frame E body))) = length b"
      using f(5) by simp
    moreover have "from_be_bytes (take 4 (take k (encode_frame E body))) < 256 ^ 4"
      using \<open>4 \<le> length (take k (encode_frame E body))\<close> by (intro from_be_bytes_four) simp
    ultimately show ?thesis by simp
  qed
  ultimately have "length body = length b" using assms(3) by (simp add: from_be_bytes_be_bytes)
  then have "length (encode_frame E b) = length (encode_frame E body)" using l by (simp add: encode_frame_def)
  then have "False" using arg_cong [OF f(1), of length] assms(5) by simp
  then show ?thesis by simp
qed (use assms(4,5) in \<open>auto simp: next_frame_def Let_def split: if_splits\<close>)

section \<open>Scanning what was framed\<close>

fun run_steps :: "('r \<Rightarrow> string \<Rightarrow> 's \<Rightarrow> unit res \<times> 's) \<Rightarrow> ('r \<times> string) list \<Rightarrow> 's \<Rightarrow> 's option" where
  "run_steps step [] s = Some s"
| "run_steps step ((r, d) # rs) s = (case step r d s of (Inl e, s1) \<Rightarrow> None | (Inr _, s1) \<Rightarrow> run_steps step rs s1)"

lemma run_steps_append:
  "run_steps step (xs @ ys) s = (case run_steps step xs s of None \<Rightarrow> None | Some s1 \<Rightarrow> run_steps step ys s1)"
  by (induction step xs s rule: run_steps.induct) (auto split: sum.split prod.split)

text \<open>The records of a list of bodies, each with the digest of its body.\<close>

definition frames_of :: "'v externals \<Rightarrow> (bytes \<Rightarrow> 'r option) \<Rightarrow> bytes list \<Rightarrow> ('r \<times> string) list" where
  "frames_of E parse bodies = map (\<lambda>b. (the (parse b), sha256_hex E b)) bodies"

definition frames_fit :: "nat \<Rightarrow> (bytes \<Rightarrow> 'r option) \<Rightarrow> bytes list \<Rightarrow> bool" where
  "frames_fit limit parse bodies \<longleftrightarrow> (\<forall>b\<in>set bodies. length b \<le> limit \<and> length b < 256 ^ 4 \<and> parse b \<noteq> None)"

definition frame_bytes :: "'v externals \<Rightarrow> bytes list \<Rightarrow> bytes" where
  "frame_bytes E bodies = concat (map (encode_frame E) bodies)"

lemma frame_bytes_simps [simp]:
  "frame_bytes E [] = []"
  "frame_bytes E (b # bodies) = encode_frame E b @ frame_bytes E bodies"
  "frame_bytes E (xs @ ys) = frame_bytes E xs @ frame_bytes E ys"
  by (simp_all add: frame_bytes_def)

lemma length_encode_frame: "sha256_len32 E \<Longrightarrow> length (encode_frame E b) = 4 + length b + 32"
  by (simp add: encode_frame_def sha256_len32_def)

lemma frame_bytes_bound:
  assumes "sha256_len32 E" "\<And>b. b \<in> set bodies \<Longrightarrow> length b \<le> m"
  shows "length (frame_bytes E bodies) \<le> length bodies * (m + 36)"
  using assms(2)
proof (induction bodies)
  case (Cons b bodies)
  have "length b \<le> m" using Cons.prems by simp
  moreover have "length (frame_bytes E bodies) \<le> length bodies * (m + 36)" using Cons.prems by (intro Cons.IH) simp
  ultimately show ?case using length_encode_frame [OF assms(1), of b] by simp
qed simp

lemma frame_scan_written:
  assumes "sha256_len32 E" "frames_fit limit parse bodies" "run_steps step (frames_of E parse bodies) s = Some s'"
  shows "frame_scan E noun limit parse step (frame_bytes E bodies @ rest) off s
    = frame_scan E noun limit parse step rest (off + length (frame_bytes E bodies)) s'"
  using assms(2,3)
proof (induction bodies arbitrary: off s)
  case (Cons b bodies)
  have l: "length (sha256 E b) = 32" using assms(1) by (simp add: sha256_len32_def)
  obtain r where r: "parse b = Some r" "length b \<le> limit" "length b < 256 ^ 4" using Cons.prems(1) by (auto simp: frames_fit_def)
  obtain s1 where s1: "step r (sha256_hex E b) s = (Inr (), s1)" "run_steps step (frames_of E parse bodies) s1 = Some s'"
    using Cons.prems(2) r(1) by (auto simp: frames_of_def split: prod.splits sum.splits)
  have "frame_scan E noun limit parse step (frame_bytes E (b # bodies) @ rest) off s
      = frame_scan E noun limit parse step (encode_frame E b @ (frame_bytes E bodies @ rest)) off s" by simp
  also have "\<dots> = frame_scan E noun limit parse step (frame_bytes E bodies @ rest) (off + (4 + length b + 32)) s1"
    unfolding frame_scan_cases(3) [OF next_frame_encode [OF assms(1) r(2,3), where rest = "frame_bytes E bodies @ rest"]] r(1)
    using s1(1) unfolding sha256_hex_def by simp
  also have "\<dots> = frame_scan E noun limit parse step rest (off + (4 + length b + 32) + length (frame_bytes E bodies)) s'"
    using Cons.IH [OF _ s1(2)] Cons.prems(1) by (simp add: frames_fit_def)
  also have "off + (4 + length b + 32) + length (frame_bytes E bodies) = off + length (frame_bytes E (b # bodies))"
    using length_encode_frame [OF assms(1), of b] by simp
  finally show ?case .
qed (simp add: frames_of_def)

lemma frame_scan_cut:
  assumes "sha256_len32 E" "length body \<le> limit" "length body < 256 ^ 4" "k < length (encode_frame E body)"
  shows "\<exists>reason. frame_scan E noun limit parse step (take k (encode_frame E body)) off s = (s, off, reason)
    \<and> (reason = None \<longleftrightarrow> k = 0)"
proof (cases "k = 0")
  case True
  then have "next_frame E noun limit (take k (encode_frame E body)) = FrameEof" by (simp add: next_frame_def)
  then show ?thesis using True frame_scan_cases(1) by fastforce
next
  case False
  then obtain m where "next_frame E noun limit (take k (encode_frame E body)) = FrameBad m" using next_frame_cut assms by blast
  then show ?thesis using False frame_scan_cases(2) by fastforce
qed

text \<open>What the scan accepts to the end is a list of frames, and its state is the run of their checks.\<close>

lemma frame_scan_accepts:
  assumes "frame_scan E noun limit parse step bs off s = (s', off', None)"
  shows "\<exists>bodies. bs = frame_bytes E bodies \<and> off' = off + length bs \<and> (\<forall>b\<in>set bodies. parse b \<noteq> None)
    \<and> run_steps step (frames_of E parse bodies) s = Some s'"
  using assms
proof (induction E noun limit parse step bs off s rule: frame_scan.induct)
  case (1 E noun limit parse step bs off s)
  show ?case
  proof (cases "next_frame E noun limit bs")
    case FrameEof
    then have "bs = []" by (auto simp: next_frame_def Let_def split: if_splits)
    moreover have "s' = s \<and> off' = off"
      using "1.prems" frame_scan_cases(1) [OF FrameEof, of parse step off s] by simp
    ultimately show ?thesis by (intro exI [of _ "[]"]) (simp add: frames_of_def)
  next
    case (FrameBad m)
    then show ?thesis using "1.prems" frame_scan_cases(2) [OF FrameBad, of parse step off s] by simp
  next
    case (Frame body d rest)
    note f = next_frame_sound [OF Frame]
    obtain r s1 where r: "parse body = Some r" "step r (hex d) s = (Inr (), s1)"
      "frame_scan E noun limit parse step rest (off + (4 + length body + 32)) s1 = (s', off', None)"
      using "1.prems" [unfolded frame_scan_cases(3) [OF Frame]] by (auto split: option.splits prod.splits sum.splits)
    obtain bodies where b: "rest = frame_bytes E bodies" "off' = off + (4 + length body + 32) + length rest"
      "\<forall>b\<in>set bodies. parse b \<noteq> None" "run_steps step (frames_of E parse bodies) s1 = Some s'"
      using "1.IH" [OF Frame r(1) r(2) [symmetric] refl r(3)] by (elim exE conjE) (rule that)
    have "bs = frame_bytes E (body # bodies)" using f(1) b(1) by (simp add: frame_bytes_def)
    moreover have "off' = off + length bs"
      using b(2) arg_cong [OF f(1), of length] f(2,4) by (simp add: encode_frame_def)
    moreover have "run_steps step (frames_of E parse (body # bodies)) s = Some s'"
      using r(1,2) b(4) f(2) by (simp add: frames_of_def sha256_hex_def)
    ultimately show ?thesis using r(1) b(3) by (intro exI [of _ "body # bodies"]) simp
  qed
qed

section \<open>Writing a frame\<close>

text \<open>\<open>write_all(&encoded).and_then(flush).and_then(sync_all)\<close>.\<close>

definition write_frame :: "'v externals \<Rightarrow> bytes \<Rightarrow> sink \<Rightarrow> bool \<times> sink" where
  "write_frame E body sk =
     (case sink_write_all (encode_frame E body) sk of
        (False, sk1) \<Rightarrow> (False, sk1)
      | (True, sk1) \<Rightarrow> sink_sync sk1)"

lemma write_frame_True:
  "write_frame E body sk = (True, sk') \<Longrightarrow>
     sk_data sk' = sk_data sk @ encode_frame E body \<and> sk_synced sk' = length (sk_data sk')"
  by (auto simp: write_frame_def sink_write_all_def sink_sync_def split: bool.splits list.splits io_outcome.splits)

lemma write_frame_False:
  assumes "write_frame E body sk = (False, sk')"
  shows "\<exists>k. sk_data sk' = sk_data sk @ take k (encode_frame E body) \<and> sk_synced sk' = sk_synced sk"
proof (cases "sink_write_all (encode_frame E body) sk")
  case (Pair ok sk1)
  show ?thesis
  proof (cases ok)
    case True
    then have "sk_data sk1 = sk_data sk @ encode_frame E body \<and> sk_synced sk1 = sk_synced sk"
      using Pair by (auto simp: sink_write_all_def split: list.splits io_outcome.splits)
    moreover have "sink_sync sk1 = (False, sk')" using assms Pair True by (simp add: write_frame_def)
    ultimately show ?thesis
      by (intro exI [of _ "length (encode_frame E body)"])
        (auto simp: sink_sync_def split: list.splits io_outcome.splits)
  next
    case False
    then have "sk' = sk1" using assms Pair by (simp add: write_frame_def)
    then show ?thesis using Pair False by (auto simp: sink_write_all_def split: list.splits io_outcome.splits)
  qed
qed

text \<open>What is left of a journal of whole frames and one cut frame after a crash, and its scan.\<close>

lemma take_journal:
  assumes "length (magic @ done) \<le> n"
  shows "\<exists>j\<le>k. take n (magic @ done @ take k fr) = magic @ done @ take j fr"
  using assms by (intro exI [of _ "min (n - length (magic @ done)) k"]) (simp add: min.commute)

lemma scan_cut_journal:
  assumes "sha256_len32 E" "frames_fit limit parse (bodies @ [t])"
    "run_steps step (frames_of E parse bodies) s = Some s1"
    "run_steps step (frames_of E parse (bodies @ [t])) s = Some s2"
  shows "\<exists>off' reason. frame_scan E noun limit parse step (frame_bytes E bodies @ take j (encode_frame E t)) off s
     = (if j < length (encode_frame E t) then s1 else s2, off', reason)
     \<and> (reason = None \<longleftrightarrow> j = 0 \<or> length (encode_frame E t) \<le> j)"
proof (cases "j < length (encode_frame E t)")
  case True
  have fit: "frames_fit limit parse bodies" "length t \<le> limit" "length t < 256 ^ 4"
    using assms(2) by (auto simp: frames_fit_def)
  have eq: "frame_scan E noun limit parse step (frame_bytes E bodies @ take j (encode_frame E t)) off s
      = frame_scan E noun limit parse step (take j (encode_frame E t)) (off + length (frame_bytes E bodies)) s1"
    by (rule frame_scan_written [OF assms(1) fit(1) assms(3)])
  obtain reason where "frame_scan E noun limit parse step (take j (encode_frame E t)) (off + length (frame_bytes E bodies)) s1
      = (s1, off + length (frame_bytes E bodies), reason)" "reason = None \<longleftrightarrow> j = 0"
    using frame_scan_cut [OF assms(1) fit(2,3) True, where noun = noun and parse = parse and step = step
        and off = "off + length (frame_bytes E bodies)" and s = s1] by (elim exE conjE) (rule that)
  then show ?thesis unfolding eq using True by (intro exI [of _ "off + length (frame_bytes E bodies)"] exI [of _ reason]) simp
next
  case False
  then have t: "take j (encode_frame E t) = encode_frame E t" by simp
  have nil: "next_frame E noun limit [] = FrameEof" by (simp add: next_frame_def)
  have eq: "frame_bytes E bodies @ take j (encode_frame E t) = frame_bytes E (bodies @ [t]) @ []" using t by simp
  show ?thesis
    using False unfolding eq frame_scan_written [OF assms(1,2,4)] frame_scan_cases(1) [OF nil] by simp
qed

lemma scan_whole_journal:
  assumes "sha256_len32 E" "frames_fit limit parse bodies" "run_steps step (frames_of E parse bodies) s = Some s1"
  shows "frame_scan E noun limit parse step (frame_bytes E bodies) off s
     = (s1, off + length (frame_bytes E bodies), None)"
proof -
  have nil: "next_frame E noun limit [] = FrameEof" by (simp add: next_frame_def)
  show ?thesis using frame_scan_written [OF assms, of noun "[]"] frame_scan_cases(1) [OF nil] by simp
qed

text \<open>
  What any scan has read, when a refused record leaves the state alone: whole frames up to the offset it
  reports, whose checks lead to the state it answers.
\<close>

lemma frame_scan_prefix:
  assumes "\<And>r d s e s1. step r d s = (Inl e, s1) \<Longrightarrow> s1 = s"
    and "frame_scan E noun limit parse step bs off s = (s', off', reason)"
  shows "\<exists>bodies rest. bs = frame_bytes E bodies @ rest \<and> off' = off + length (frame_bytes E bodies)
    \<and> frames_fit limit parse bodies \<and> run_steps step (frames_of E parse bodies) s = Some s'
    \<and> (reason = None \<longrightarrow> rest = [])"
  using assms(2)
proof (induction "length bs" arbitrary: bs off s rule: less_induct)
  case less
  show ?case
  proof (cases "next_frame E noun limit bs")
    case FrameEof
    then have "bs = []" by (auto simp: next_frame_def Let_def split: if_splits)
    then show ?thesis using less.prems frame_scan_cases(1) [OF FrameEof, of parse step off s]
      by (intro exI [of _ "[]"]) (simp add: frames_of_def frames_fit_def)
  next
    case (FrameBad m)
    then show ?thesis using less.prems frame_scan_cases(2) [OF FrameBad, of parse step off s]
      by (intro exI [of _ "[]"] exI [of _ bs]) (auto simp: frames_of_def frames_fit_def)
  next
    case (Frame body d rest)
    note f = next_frame_sound [OF Frame] and eq = less.prems [unfolded frame_scan_cases(3) [OF Frame]]
    show ?thesis
    proof (cases "\<exists>r s1. parse body = Some r \<and> step r (hex d) s = (Inr (), s1)")
      case False
      then have "s' = s \<and> off' = off \<and> reason \<noteq> None"
        using eq assms(1) by (auto split: option.splits prod.splits sum.splits)
      then show ?thesis by (intro exI [of _ "[]"] exI [of _ bs]) (auto simp: frames_of_def frames_fit_def)
    next
      case True
      then obtain r s1 where r: "parse body = Some r" "step r (hex d) s = (Inr (), s1)"
        and sc: "frame_scan E noun limit parse step rest (off + (4 + length body + 32)) s1 = (s', off', reason)"
        using eq by auto
      obtain bodies rest' where b: "rest = frame_bytes E bodies @ rest'"
        "off' = off + (4 + length body + 32) + length (frame_bytes E bodies)" "frames_fit limit parse bodies"
        "run_steps step (frames_of E parse bodies) s1 = Some s'" "reason = None \<longrightarrow> rest' = []"
        using less.hyps [OF next_frame_rest [OF Frame] sc] by (elim exE conjE) (rule that)
      have "4 \<le> length bs" using f(1) by (simp add: encode_frame_def)
      then have "length body < 256 ^ 4" unfolding f(5) by (intro from_be_bytes_four) simp
      moreover have "length (encode_frame E body) = 4 + length body + 32" using f(2,4) by (simp add: encode_frame_def)
      ultimately show ?thesis using f(1,2,3) r b
        by (intro exI [of _ "body # bodies"] exI [of _ rest'])
          (auto simp: frames_of_def frames_fit_def sha256_hex_def)
    qed
  qed
qed

section \<open>What the writers share\<close>

text \<open>\<open>serde_json\<close> reads back what it wrote, the named hypothesis on a record's codec.\<close>

definition record_round_trip :: "('r \<Rightarrow> bytes) \<Rightarrow> (bytes \<Rightarrow> 'r option) \<Rightarrow> bool" where
  "record_round_trip to_vec from_slice \<longleftrightarrow> (\<forall>r. from_slice (to_vec r) = Some r)"

text \<open>\<open>serde_json\<close> writes at least the braces of a struct.\<close>

definition nonempty_codec :: "('r \<Rightarrow> bytes) \<Rightarrow> bool" where
  "nonempty_codec to_vec \<longleftrightarrow> (\<forall>r. to_vec r \<noteq> [])"

text \<open>The parser of a scan that refuses an empty body.\<close>

definition nonempty_body :: "(bytes \<Rightarrow> 'r option) \<Rightarrow> bytes \<Rightarrow> 'r option" where
  "nonempty_body from_slice b = (if b = [] then None else from_slice b)"

lemma count_le_bytes:
  assumes "sha256_len32 E"
  shows "length bodies \<le> length (frame_bytes E bodies)"
proof (induction bodies)
  case (Cons b bodies)
  then show ?case using length_encode_frame [OF assms, of b] by simp
qed simp

lemma write_magic:
  "sink_write_all m sk = (True, sk1) \<Longrightarrow> sink_sync sk1 = (True, sk2) \<Longrightarrow> sk_data sk = [] \<Longrightarrow>
     sk_data sk2 = m \<and> sk_synced sk2 = length m"
  by (auto simp: sink_write_all_def sink_sync_def split: list.splits io_outcome.splits)

section \<open>The file of a record log under failing writes\<close>

text \<open>The bodies of a log that its scan accepts, and the state the scan reaches.\<close>

definition journal_bodies ::
  "'v externals \<Rightarrow> nat \<Rightarrow> (bytes \<Rightarrow> 'r option) \<Rightarrow> ('r \<Rightarrow> string \<Rightarrow> 's \<Rightarrow> unit res \<times> 's) \<Rightarrow> 's \<Rightarrow> bytes list \<Rightarrow> 's \<Rightarrow> bool" where
  "journal_bodies E limit parse step s0 bodies st \<longleftrightarrow>
     frames_fit limit parse bodies \<and> run_steps step (frames_of E parse bodies) s0 = Some st"

text \<open>
  The file behind a log writer: all bodies are synced; a writer whose last write failed may have left a part of
  the frame of one more acceptable body \<open>P\<close> allows.
\<close>

definition journal_image ::
  "'v externals \<Rightarrow> nat \<Rightarrow> (bytes \<Rightarrow> 'r option) \<Rightarrow> ('r \<Rightarrow> string \<Rightarrow> 's \<Rightarrow> unit res \<times> 's) \<Rightarrow> 's \<Rightarrow> bytes
     \<Rightarrow> ('r \<Rightarrow> bool) \<Rightarrow> sink \<Rightarrow> bool \<Rightarrow> bytes list \<Rightarrow> 's \<Rightarrow> bool" where
  "journal_image E limit parse step s0 magic P sk poisoned bodies st \<longleftrightarrow>
     journal_bodies E limit parse step s0 bodies st \<and> length magic + length (frame_bytes E bodies) \<le> sk_synced sk
     \<and> (sk_data sk = magic @ frame_bytes E bodies
        \<or> poisoned \<and> (\<exists>body st1 k. journal_bodies E limit parse step s0 (bodies @ [body]) st1 \<and> P (the (parse body))
            \<and> sk_data sk = magic @ frame_bytes E bodies @ take k (encode_frame E body)))"

lemma journal_bodies_snoc:
  assumes "journal_bodies E limit parse step s0 bodies st" "parse body = Some r" "length body \<le> limit" "length body < 256 ^ 4"
    "step r (sha256_hex E body) st = (Inr u, st')"
  shows "journal_bodies E limit parse step s0 (bodies @ [body]) st'"
  using assms by (auto simp: journal_bodies_def frames_fit_def frames_of_def run_steps_append)

lemma journal_image_written:
  assumes "journal_image E limit parse step s0 magic P sk False bodies st" "write_frame E body sk = (True, sk')"
    "journal_bodies E limit parse step s0 (bodies @ [body]) st'"
  shows "journal_image E limit parse step s0 magic P sk' poisoned (bodies @ [body]) st'"
  using assms(1,3) write_frame_True [OF assms(2)] by (simp add: journal_image_def)

lemma journal_image_torn:
  assumes "journal_image E limit parse step s0 magic P sk False bodies st" "write_frame E body sk = (False, sk')"
    "journal_bodies E limit parse step s0 (bodies @ [body]) st'" "P (the (parse body))"
  shows "journal_image E limit parse step s0 magic P sk' True bodies st"
  using assms(1,3,4) write_frame_False [OF assms(2)] by (fastforce simp: journal_image_def)

text \<open>What is left of the file after a crash scans to the synced records and at most the torn one.\<close>

lemma journal_image_crash:
  assumes "sha256_len32 E" "journal_image E limit parse step s0 magic P sk poisoned bodies st" "sk_synced sk \<le> n"
  obtains bs bodies' st' reason where "take n (sk_data sk) = magic @ bs"
    "frame_scan E noun limit parse step bs (length magic) s0 = (st', length magic + length (frame_bytes E bodies'), reason)"
    "journal_bodies E limit parse step s0 bodies' st'"
    "bodies' = bodies \<or> (\<exists>body. bodies' = bodies @ [body] \<and> P (the (parse body)))"
    "\<not> poisoned \<Longrightarrow> bodies' = bodies \<and> reason = None"
proof -
  have f: "frames_fit limit parse bodies" "run_steps step (frames_of E parse bodies) s0 = Some st"
    "length (magic @ frame_bytes E bodies) \<le> n"
    using assms(2,3) by (auto simp: journal_image_def journal_bodies_def)
  show thesis
  proof (cases "sk_data sk = magic @ frame_bytes E bodies")
    case True
    show thesis
      by (rule that [of "frame_bytes E bodies" st bodies None])
        (use True f scan_whole_journal [OF assms(1) f(1,2), of noun "length magic"] in \<open>simp_all add: journal_bodies_def\<close>)
  next
    case False
    then obtain body st1 k where t: "poisoned" "journal_bodies E limit parse step s0 (bodies @ [body]) st1" "P (the (parse body))"
      "sk_data sk = magic @ frame_bytes E bodies @ take k (encode_frame E body)"
      using assms(2) by (auto simp: journal_image_def)
    obtain j where j: "take n (sk_data sk) = magic @ frame_bytes E bodies @ take j (encode_frame E body)"
      using take_journal [OF f(3), of k "encode_frame E body"] t(4) by auto
    have fit: "length body \<le> limit" "length body < 256 ^ 4" using t(2) by (auto simp: journal_bodies_def frames_fit_def)
    show thesis
    proof (cases "j < length (encode_frame E body)")
      case True
      obtain reason where cut: "frame_scan E noun limit parse step (take j (encode_frame E body))
          (length magic + length (frame_bytes E bodies)) st = (st, length magic + length (frame_bytes E bodies), reason)"
        using frame_scan_cut [OF assms(1) fit True, of noun parse step "length magic + length (frame_bytes E bodies)" st] by blast
      show thesis
        by (rule that [of "frame_bytes E bodies @ take j (encode_frame E body)" st bodies reason])
          (use j f t(1) cut frame_scan_written [OF assms(1) f(1,2), of noun "take j (encode_frame E body)" "length magic"]
            in \<open>simp_all add: journal_bodies_def\<close>)
    next
      case False
      have b: "frames_fit limit parse (bodies @ [body])" "run_steps step (frames_of E parse (bodies @ [body])) s0 = Some st1"
        using t(2) by (simp_all add: journal_bodies_def)
      show thesis
        by (rule that [of "frame_bytes E (bodies @ [body])" st1 "bodies @ [body]" None])
          (use False j t scan_whole_journal [OF assms(1) b, of noun "length magic"] in auto)
    qed
  qed
qed

section \<open>The contract of a chained record log\<close>

text \<open>
  What the semantic check of a journal promises: an accepted record carries the digest of the record
  before it, and is counted.
\<close>

locale chained_log =
  fixes step :: "'r \<Rightarrow> string \<Rightarrow> 's \<Rightarrow> unit res \<times> 's"
    and count :: "'s \<Rightarrow> nat"
    and prev :: "'s \<Rightarrow> string"
    and prev_of :: "'r \<Rightarrow> string"
  assumes step_chains: "step r d s = (Inr u, s') \<Longrightarrow> count s' = count s + 1 \<and> prev s' = d \<and> prev_of r = prev s"
begin

fun linked :: "string \<Rightarrow> ('r \<times> string) list \<Rightarrow> bool" where
  "linked p [] = True"
| "linked p ((r, d) # rs) = (prev_of r = p \<and> linked d rs)"

lemma run_linked:
  "run_steps step rs s = Some s' \<Longrightarrow>
     linked (prev s) rs \<and> count s' = count s + length rs \<and> prev s' = (if rs = [] then prev s else snd (last rs))"
proof (induction rs arbitrary: s)
  case (Cons x rs)
  obtain r d where x: "x = (r, d)" by (cases x)
  obtain s1 where s1: "step r d s = (Inr (), s1)" "run_steps step rs s1 = Some s'"
    using Cons.prems x by (auto split: prod.splits sum.splits)
  show ?case using Cons.IH [OF s1(2)] step_chains [OF s1(1)] x by simp
qed simp

lemma linked_nth:
  "linked p rs \<Longrightarrow> Suc i < length rs \<Longrightarrow> prev_of (fst (rs ! Suc i)) = snd (rs ! i)"
proof (induction p rs arbitrary: i rule: linked.induct)
  case (2 p r d rs)
  then show ?case by (cases i; cases rs) auto
qed simp

end

end
