(* ===== verification/Boundary.thy ===== *)
theory Boundary
  imports Framed_Log Handover Lanes
begin

text \<open>
  Handover boundaries: \<open>src/rust/lob-replay/src/boundary.rs\<close>, the validated statement that two
  connection epochs converged at one sequence, the canonical selection of observations around it and
  the two-record journal that commits it; and \<open>src/rust/lob-replay/src/splice.rs\<close>, which derives a
  boundary from the observations of both epochs. The JSON codec of a journal record and of the
  selection digest material are parameters. A journal is its bytes, so the scan does not carry the path.
\<close>

section \<open>Data\<close>

record raw_position =
  rp_connection_epoch :: string
  rp_stream :: string
  rp_frame_index :: nat
  rp_record_sha256 :: string

record boundary_durability =
  bd_durable_through_frame_index :: nat
  bd_durable_through_offset :: nat
  bd_last_record_sha256 :: string

record handover_boundary =
  hb_schema :: string
  hb_boundary_id :: string
  hb_environment :: string
  hb_symbol :: string
  hb_stream_kind :: boundary_stream_kind
  hb_stream :: string
  hb_predecessor_epoch :: string
  hb_successor_epoch :: string
  hb_boundary_sequence :: nat
  hb_boundary_sha256 :: string
  hb_predecessor_last_selected :: raw_position
  hb_successor_boundary_observation :: raw_position
  hb_successor_first_selected :: raw_position
  hb_predecessor_durability :: boundary_durability
  hb_successor_durability :: boundary_durability
  hb_spec_revision :: string
  hb_selector_version :: string

record selected_observation =
  so_connection_epoch :: string
  so_frame_index :: nat
  so_first_sequence :: nat
  so_final_sequence :: nat
  so_record_sha256 :: string

record canonical_selection =
  cs_schema :: string
  cs_boundary_id :: string
  cs_symbol :: string
  cs_stream_kind :: boundary_stream_kind
  cs_boundary_sequence :: nat
  cs_selected :: "selected_observation list"
  cs_excluded_overlap_records :: nat
  cs_excluded_duplicate_records :: nat
  cs_first_sequence :: nat
  cs_final_sequence :: nat
  cs_selection_sha256 :: string

record selection_digest_material =
  sm_schema :: string
  sm_boundary_id :: string
  sm_symbol :: string
  sm_stream_kind :: boundary_stream_kind
  sm_boundary_sequence :: nat
  sm_selected :: "selected_observation list"

section \<open>Validation\<close>

definition validate_boundary_digest :: "string \<Rightarrow> unit res" where
  "validate_boundary_digest d =
     (if length d \<noteq> 64 \<or> \<not> list_all is_lower_hex d
      then Err (Fail ''digest must be 64 lowercase hexadecimal characters'') else Ok ())"

fun validate_digests :: "string list \<Rightarrow> unit res" where
  "validate_digests [] = Ok ()"
| "validate_digests (d # ds) = rbind (validate_boundary_digest d) (\<lambda>_. validate_digests ds)"

definition validate_boundary :: "handover_boundary \<Rightarrow> unit res" where
  "validate_boundary b =
     (if hb_schema b \<noteq> ''HandoverBoundaryV1'' \<or> trim_is_empty (hb_boundary_id b)
         \<or> hb_environment b \<noteq> ''production-public-market-data'' \<or> \<not> in_scope (hb_symbol b)
         \<or> trim_is_empty (hb_predecessor_epoch b) \<or> trim_is_empty (hb_successor_epoch b)
         \<or> hb_predecessor_epoch b = hb_successor_epoch b
         \<or> trim_is_empty (hb_spec_revision b) \<or> trim_is_empty (hb_selector_version b)
      then Err (Fail ''invalid handover boundary identity/scope'')
      else rbind (validate_boundary_digest (hb_boundary_sha256 b)) (\<lambda>_.
        rbind (validate_digests
                 [rp_record_sha256 (hb_predecessor_last_selected b),
                  rp_record_sha256 (hb_successor_boundary_observation b),
                  rp_record_sha256 (hb_successor_first_selected b),
                  bd_last_record_sha256 (hb_predecessor_durability b),
                  bd_last_record_sha256 (hb_successor_durability b)]) (\<lambda>_.
        if rp_connection_epoch (hb_predecessor_last_selected b) \<noteq> hb_predecessor_epoch b
           \<or> rp_connection_epoch (hb_successor_boundary_observation b) \<noteq> hb_successor_epoch b
           \<or> rp_connection_epoch (hb_successor_first_selected b) \<noteq> hb_successor_epoch b
           \<or> rp_stream (hb_predecessor_last_selected b) \<noteq> hb_stream b
           \<or> rp_stream (hb_successor_boundary_observation b) \<noteq> hb_stream b
           \<or> rp_stream (hb_successor_first_selected b) \<noteq> hb_stream b
        then Err (Fail ''raw position does not match boundary epoch/stream'')
        else if rp_frame_index (hb_successor_first_selected b) \<le> rp_frame_index (hb_successor_boundary_observation b)
        then Err (Fail ''successor first-selected position must follow overlap boundary'')
        else if bd_durable_through_frame_index (hb_predecessor_durability b) < rp_frame_index (hb_predecessor_last_selected b)
           \<or> bd_durable_through_frame_index (hb_successor_durability b) < rp_frame_index (hb_successor_first_selected b)
        then Err (Fail ''boundary references a raw position beyond durable watermark'')
        else Ok ())))"

section \<open>Canonical selection\<close>

definition observation_fits :: "handover_boundary \<Rightarrow> string \<Rightarrow> canonical_observation \<Rightarrow> bool" where
  "observation_fits b expected_epoch o1 \<longleftrightarrow>
     co_symbol o1 = hb_symbol b \<and> co_stream_kind o1 = hb_stream_kind b \<and> co_stream o1 = hb_stream b
     \<and> co_connection_epoch o1 = expected_epoch \<and> co_first_sequence o1 \<le> co_final_sequence o1"

text \<open>\<open>previous + 1\<close> aborts on overflow.\<close>

fun validate_observation_loop ::
  "handover_boundary \<Rightarrow> string \<Rightarrow> nat option \<Rightarrow> canonical_observation list \<Rightarrow> unit res" where
  "validate_observation_loop b expected_epoch previous_frame [] = Ok ()"
| "validate_observation_loop b expected_epoch previous_frame (x # xs) =
     (if \<not> observation_fits b expected_epoch x
      then Err (Fail ''observation identity/range does not match boundary'')
      else rbind (validate_boundary_digest (co_record_sha256 x)) (\<lambda>_.
        rbind (validate_boundary_digest (co_observation_sha256 x)) (\<lambda>_.
        rbind (case previous_frame of
                 None \<Rightarrow> Ok ()
               | Some previous \<Rightarrow> rbind (add_u64 previous 1) (\<lambda>next.
                   check (co_frame_index x = next) (Fail ''raw frame index gap/reorder in canonical source''))) (\<lambda>_.
        validate_observation_loop b expected_epoch (Some (co_frame_index x)) xs))))"

definition validate_observations :: "handover_boundary \<Rightarrow> canonical_observation list \<Rightarrow> string \<Rightarrow> unit res" where
  "validate_observations b observations expected_epoch =
     (if observations = [] then Err (Fail ''canonical source observations are empty'')
      else validate_observation_loop b expected_epoch None observations)"

definition find_position :: "canonical_observation list \<Rightarrow> raw_position \<Rightarrow> canonical_observation res" where
  "find_position observations position =
     rbind (ok_or (Fail ''committed raw position is absent from observations'')
              (find (\<lambda>x. co_frame_index x = rp_frame_index position) observations)) (\<lambda>x.
     if co_connection_epoch x \<noteq> rp_connection_epoch position \<or> co_stream x \<noteq> rp_stream position
        \<or> co_record_sha256 x \<noteq> rp_record_sha256 position
     then Err (Fail ''committed raw position digest/identity mismatch'') else Ok x)"

definition validate_boundary_observations ::
  "handover_boundary \<Rightarrow> canonical_observation \<Rightarrow> canonical_observation \<Rightarrow> canonical_observation \<Rightarrow> unit res" where
  "validate_boundary_observations b predecessor successor_boundary successor_first =
     (if co_final_sequence predecessor \<noteq> hb_boundary_sequence b
         \<or> co_final_sequence successor_boundary \<noteq> hb_boundary_sequence b
         \<or> co_observation_sha256 predecessor \<noteq> hb_boundary_sha256 b
         \<or> co_observation_sha256 successor_boundary \<noteq> hb_boundary_sha256 b
      then Err (Fail ''A/B observations do not prove the committed convergence'')
      else rbind (ok_or (Fail ''boundary sequence overflow'') (checked_add (hb_boundary_sequence b) 1)) (\<lambda>next.
        case hb_stream_kind b of
          Depth \<Rightarrow>
            if next < co_first_sequence successor_first \<or> co_final_sequence successor_first < next
            then Err (Fail ''successor depth frame does not bridge K+1'') else Ok ()
        | Trade \<Rightarrow>
            if co_first_sequence predecessor \<noteq> hb_boundary_sequence b
               \<or> co_first_sequence successor_boundary \<noteq> hb_boundary_sequence b
               \<or> co_first_sequence successor_first \<noteq> next \<or> co_final_sequence successor_first \<noteq> next
            then Err (Fail ''successor trade does not continue at T+1'') else Ok ()))"

text \<open>The loop over the candidates: \<open>selected\<close> in order, its last element and the duplicate count.\<close>

fun select_sequence_loop ::
  "boundary_stream_kind \<Rightarrow> canonical_observation list \<Rightarrow> nat \<Rightarrow> canonical_observation list
     \<Rightarrow> (canonical_observation list \<times> nat) res" where
  "select_sequence_loop kind selected duplicates [] = Ok (selected, duplicates)"
| "select_sequence_loop kind selected duplicates (x # xs) =
     (if selected = [] then select_sequence_loop kind (selected @ [x]) duplicates xs
      else
        let previous = last selected in
        rbind (ok_or (Fail ''canonical sequence overflow'') (checked_add (co_final_sequence previous) 1)) (\<lambda>next.
        if co_final_sequence x < next then
          (if co_final_sequence x = co_final_sequence previous
              \<and> co_observation_sha256 x = co_observation_sha256 previous
           then select_sequence_loop kind selected (duplicates + 1) xs
           else Err (Fail ''stale/conflicting canonical observation''))
        else if next < co_first_sequence x then Err (Fail ''gap in canonical observation sequence'')
        else if kind = Trade \<and> (co_first_sequence x \<noteq> next \<or> co_final_sequence x \<noteq> next)
        then Err (Fail ''trade sequence is not exactly contiguous'')
        else select_sequence_loop kind (selected @ [x]) duplicates xs))"

definition validate_and_select_sequence ::
  "boundary_stream_kind \<Rightarrow> canonical_observation list \<Rightarrow> (canonical_observation list \<times> nat) res" where
  "validate_and_select_sequence kind candidates = select_sequence_loop kind [] 0 candidates"

definition selected_ref :: "canonical_observation \<Rightarrow> selected_observation" where
  "selected_ref x =
     \<lparr>so_connection_epoch = co_connection_epoch x, so_frame_index = co_frame_index x,
      so_first_sequence = co_first_sequence x, so_final_sequence = co_final_sequence x,
      so_record_sha256 = co_record_sha256 x\<rparr>"

definition selection_candidates ::
  "handover_boundary \<Rightarrow> canonical_observation list \<Rightarrow> canonical_observation list \<Rightarrow> canonical_observation list" where
  "selection_candidates b predecessor successor =
     filter (\<lambda>x. co_frame_index x \<le> rp_frame_index (hb_predecessor_last_selected b)) predecessor
     @ filter (\<lambda>x. rp_frame_index (hb_successor_first_selected b) \<le> co_frame_index x) successor"

definition excluded_overlap ::
  "handover_boundary \<Rightarrow> canonical_observation list \<Rightarrow> canonical_observation list \<Rightarrow> nat" where
  "excluded_overlap b predecessor successor =
     length (filter (\<lambda>x. rp_frame_index (hb_predecessor_last_selected b) < co_frame_index x) predecessor)
     + length (filter (\<lambda>x. co_frame_index x < rp_frame_index (hb_successor_first_selected b)) successor)"

definition select_canonical ::
  "'v externals \<Rightarrow> (selection_digest_material \<Rightarrow> bytes) \<Rightarrow> handover_boundary \<Rightarrow> canonical_observation list
     \<Rightarrow> canonical_observation list \<Rightarrow> canonical_selection res" where
  "select_canonical E to_vec b predecessor successor =
     rbind (validate_boundary b) (\<lambda>_.
     rbind (validate_observations b predecessor (hb_predecessor_epoch b)) (\<lambda>_.
     rbind (validate_observations b successor (hb_successor_epoch b)) (\<lambda>_.
     rbind (find_position predecessor (hb_predecessor_last_selected b)) (\<lambda>predecessor_boundary.
     rbind (find_position successor (hb_successor_boundary_observation b)) (\<lambda>successor_boundary.
     rbind (find_position successor (hb_successor_first_selected b)) (\<lambda>successor_first.
     rbind (validate_boundary_observations b predecessor_boundary successor_boundary successor_first) (\<lambda>_.
     rbind (validate_and_select_sequence (hb_stream_kind b) (selection_candidates b predecessor successor))
       (\<lambda>(selected, duplicates).
     if selected = [] then Err (Fail ''canonical selection is empty'')
     else
       rbind (ok_or (Fail ''canonical selection has no predecessor boundary'')
         (find (\<lambda>x. co_connection_epoch x = hb_predecessor_epoch b) (rev selected))) (\<lambda>last_predecessor.
       rbind (ok_or (Fail ''canonical selection has no successor continuation'')
         (find (\<lambda>x. co_connection_epoch x = hb_successor_epoch b) selected)) (\<lambda>first_successor.
       if co_final_sequence last_predecessor \<noteq> hb_boundary_sequence b
          \<or> co_frame_index first_successor \<noteq> rp_frame_index (hb_successor_first_selected b)
       then Err (Fail ''canonical splice does not match committed boundary'')
       else
         let refs = map selected_ref selected;
             material = \<lparr>sm_schema = ''CanonicalSelectionDigestV1'', sm_boundary_id = hb_boundary_id b,
               sm_symbol = hb_symbol b, sm_stream_kind = hb_stream_kind b,
               sm_boundary_sequence = hb_boundary_sequence b, sm_selected = refs\<rparr>
         in Ok \<lparr>cs_schema = ''CanonicalSelectionV1'', cs_boundary_id = hb_boundary_id b, cs_symbol = hb_symbol b,
              cs_stream_kind = hb_stream_kind b, cs_boundary_sequence = hb_boundary_sequence b, cs_selected = refs,
              cs_excluded_overlap_records = excluded_overlap b predecessor successor,
              cs_excluded_duplicate_records = duplicates, cs_first_sequence = so_first_sequence (hd refs),
              cs_final_sequence = so_final_sequence (last refs),
              cs_selection_sha256 = sha256_hex E (to_vec material)\<rparr>))))))))))"

section \<open>The boundary journal\<close>

datatype boundary_journal_action = Proposed | Committed

record boundary_journal_record =
  bj_schema :: string
  bj_record_index :: nat
  bj_action :: boundary_journal_action
  bj_boundary_id :: string
  bj_boundary :: "handover_boundary option"
  bj_proposal_record_sha256 :: "string option"
  bj_previous_record_sha256 :: string

record boundary_journal_ack =
  ba_schema :: string
  ba_action :: boundary_journal_action
  ba_boundary_id :: string
  ba_durable_record_count :: nat
  ba_durable_through_offset :: nat
  ba_last_record_sha256 :: string

record boundary_journal_scan =
  bs_schema :: string
  bs_file_size :: nat
  bs_records :: nat
  bs_last_good_offset :: nat
  bs_clean_eof :: bool
  bs_reason :: "error option"
  bs_proposal :: "handover_boundary option"
  bs_committed :: "handover_boundary option"
  bs_last_record_sha256 :: string

record boundary_journal_writer =
  bw_sink :: sink
  bw_end_offset :: nat
  bw_previous_digest :: string
  bw_proposal :: "(handover_boundary \<times> string) option"
  bw_committed :: bool
  bw_poisoned :: bool

definition BOUNDARY_MAGIC :: bytes where
  "BOUNDARY_MAGIC = [66, 78, 72, 78, 68, 0, 1, 10]"

definition BOUNDARY_MAX_RECORD_BYTES :: nat where
  "BOUNDARY_MAX_RECORD_BYTES = 256 * 1024"

definition boundary_from_sink :: "sink \<Rightarrow> boundary_journal_writer res" where
  "boundary_from_sink sk =
     (case sink_write_all BOUNDARY_MAGIC sk of
        (False, _) \<Rightarrow> Err (Fail ''write boundary magic'')
      | (True, sk1) \<Rightarrow>
          (case sink_sync sk1 of
             (False, _) \<Rightarrow> Err (Fail ''sync boundary magic'')
           | (True, sk2) \<Rightarrow>
               Ok \<lparr>bw_sink = sk2, bw_end_offset = length BOUNDARY_MAGIC, bw_previous_digest = ZERO_DIGEST,
                   bw_proposal = None, bw_committed = False, bw_poisoned = False\<rparr>))"

definition boundary_append ::
  "'v externals \<Rightarrow> (boundary_journal_record \<Rightarrow> bytes) \<Rightarrow> boundary_journal_record \<Rightarrow> boundary_journal_writer
     \<Rightarrow> boundary_journal_ack res \<times> boundary_journal_writer" where
  "boundary_append E to_vec r w =
     (if bw_poisoned w then (Err (Fail ''boundary journal is poisoned''), w)
      else
        let body = to_vec r in
        if BOUNDARY_MAX_RECORD_BYTES < length body
        then (Err (Fail ''boundary journal record exceeds maximum size''), w)
        else if u32_max < length body then (Err (Fail ''boundary record length does not fit u32''), w)
        else
          (case write_frame E body (bw_sink w) of
             (False, sk) \<Rightarrow>
               (Err (Fail ''sync boundary record; journal poisoned''), w\<lparr>bw_sink := sk, bw_poisoned := True\<rparr>)
           | (True, sk) \<Rightarrow>
               (case checked_add (bw_end_offset w) (length (encode_frame E body)) of
                  None \<Rightarrow> (Err (Fail ''boundary journal offset overflow''), w\<lparr>bw_sink := sk\<rparr>)
                | Some offset \<Rightarrow>
                    let w1 = w\<lparr>bw_sink := sk, bw_end_offset := offset, bw_previous_digest := sha256_hex E body\<rparr>
                    in (Ok \<lparr>ba_schema = ''BoundaryJournalAckV1'', ba_action = bj_action r,
                            ba_boundary_id = bj_boundary_id r, ba_durable_record_count = bj_record_index r + 1,
                            ba_durable_through_offset = offset, ba_last_record_sha256 = sha256_hex E body\<rparr>, w1))))"

definition proposal_record :: "string \<Rightarrow> handover_boundary \<Rightarrow> boundary_journal_record" where
  "proposal_record previous b =
     \<lparr>bj_schema = ''BoundaryJournalRecordV1'', bj_record_index = 0, bj_action = Proposed,
      bj_boundary_id = hb_boundary_id b, bj_boundary = Some b, bj_proposal_record_sha256 = None,
      bj_previous_record_sha256 = previous\<rparr>"

definition commit_record :: "string \<Rightarrow> string \<Rightarrow> string \<Rightarrow> boundary_journal_record" where
  "commit_record previous boundary_id proposal_digest =
     \<lparr>bj_schema = ''BoundaryJournalRecordV1'', bj_record_index = 1, bj_action = Committed,
      bj_boundary_id = boundary_id, bj_boundary = None, bj_proposal_record_sha256 = Some proposal_digest,
      bj_previous_record_sha256 = previous\<rparr>"

definition boundary_propose ::
  "'v externals \<Rightarrow> (boundary_journal_record \<Rightarrow> bytes) \<Rightarrow> handover_boundary \<Rightarrow> boundary_journal_writer
     \<Rightarrow> boundary_journal_ack res \<times> boundary_journal_writer" where
  "boundary_propose E to_vec b w =
     (if bw_proposal w \<noteq> None \<or> bw_committed w then (Err (Fail ''boundary journal already has a proposal''), w)
      else case validate_boundary b of
        Inl e \<Rightarrow> (Err e, w)
      | Inr _ \<Rightarrow>
          (case boundary_append E to_vec (proposal_record (bw_previous_digest w) b) w of
             (Inl e, w1) \<Rightarrow> (Err e, w1)
           | (Inr ack, w1) \<Rightarrow> (Ok ack, w1\<lparr>bw_proposal := Some (b, ba_last_record_sha256 ack)\<rparr>)))"

definition boundary_commit ::
  "'v externals \<Rightarrow> (boundary_journal_record \<Rightarrow> bytes) \<Rightarrow> string \<Rightarrow> boundary_journal_writer
     \<Rightarrow> boundary_journal_ack res \<times> boundary_journal_writer" where
  "boundary_commit E to_vec boundary_id w =
     (if bw_committed w then (Err (Fail ''boundary journal is already committed''), w)
      else case bw_proposal w of
        None \<Rightarrow> (Err (Fail ''boundary cannot commit before durable proposal''), w)
      | Some (b, proposal_digest) \<Rightarrow>
          if hb_boundary_id b \<noteq> boundary_id then (Err (Fail ''commit boundary ID does not match proposal''), w)
          else
            (case boundary_append E to_vec (commit_record (bw_previous_digest w) boundary_id proposal_digest) w of
               (Inl e, w1) \<Rightarrow> (Err e, w1)
             | (Inr ack, w1) \<Rightarrow> (Ok ack, w1\<lparr>bw_committed := True\<rparr>)))"

subsection \<open>Scanning it\<close>

record boundary_scan_state =
  bx_records :: nat
  bx_previous :: string
  bx_proposal :: "(handover_boundary \<times> string) option"
  bx_committed :: "handover_boundary option"

definition validate_scanned_record ::
  "boundary_journal_record \<Rightarrow> nat \<Rightarrow> string \<Rightarrow> (handover_boundary \<times> string) option \<Rightarrow> bool \<Rightarrow> unit res" where
  "validate_scanned_record r expected_index previous proposal already_committed =
     (if bj_schema r \<noteq> ''BoundaryJournalRecordV1'' \<or> bj_record_index r \<noteq> expected_index
         \<or> bj_previous_record_sha256 r \<noteq> previous
      then Err (Fail ''boundary journal chain/index mismatch'')
      else case bj_action r of
        Proposed \<Rightarrow>
          if expected_index \<noteq> 0 \<or> proposal \<noteq> None \<or> already_committed
          then Err (Fail ''illegal duplicate boundary proposal'')
          else rbind (ok_or (Fail ''proposal missing boundary'') (bj_boundary r)) (\<lambda>b.
            rbind (validate_boundary b) (\<lambda>_.
            if hb_boundary_id b \<noteq> bj_boundary_id r \<or> bj_proposal_record_sha256 r \<noteq> None
            then Err (Fail ''proposal identity/reference mismatch'') else Ok ()))
      | Committed \<Rightarrow>
          rbind (ok_or (Fail ''commit has no valid proposal'') proposal) (\<lambda>(b, proposal_digest).
            if expected_index \<noteq> 1 \<or> already_committed \<or> bj_boundary r \<noteq> None
               \<or> bj_boundary_id r \<noteq> hb_boundary_id b \<or> bj_proposal_record_sha256 r \<noteq> Some proposal_digest
            then Err (Fail ''commit identity/reference mismatch'') else Ok ()))"

definition boundary_scan_step ::
  "boundary_journal_record \<Rightarrow> string \<Rightarrow> boundary_scan_state \<Rightarrow> unit res \<times> boundary_scan_state" where
  "boundary_scan_step r digest s =
     (case validate_scanned_record r (bx_records s) (bx_previous s) (bx_proposal s) (bx_committed s \<noteq> None) of
        Inl e \<Rightarrow> (Err e, s)
      | Inr _ \<Rightarrow>
          let s1 = (case bj_action r of
                      Proposed \<Rightarrow> s\<lparr>bx_proposal := Some (the (bj_boundary r), digest)\<rparr>
                    | Committed \<Rightarrow> s\<lparr>bx_committed := map_option fst (bx_proposal s)\<rparr>)
          in (Ok (), s1\<lparr>bx_records := bx_records s + 1, bx_previous := digest\<rparr>))"

definition boundary_scan_start :: boundary_scan_state where
  "boundary_scan_start = \<lparr>bx_records = 0, bx_previous = ZERO_DIGEST, bx_proposal = None, bx_committed = None\<rparr>"

definition scan_failure :: "nat \<Rightarrow> nat \<Rightarrow> nat \<Rightarrow> string \<Rightarrow> boundary_journal_scan" where
  "scan_failure file_size records last_good_offset reason =
     \<lparr>bs_schema = ''BoundaryJournalScanV1'', bs_file_size = file_size, bs_records = records,
      bs_last_good_offset = last_good_offset, bs_clean_eof = False, bs_reason = Some (Fail reason),
      bs_proposal = None, bs_committed = None, bs_last_record_sha256 = ZERO_DIGEST\<rparr>"

definition scan_boundary_journal ::
  "'v externals \<Rightarrow> (bytes \<Rightarrow> boundary_journal_record option) \<Rightarrow> bytes \<Rightarrow> boundary_journal_scan" where
  "scan_boundary_journal E from_slice bs =
     (if take 8 bs \<noteq> BOUNDARY_MAGIC then scan_failure (length bs) 0 0 ''bad boundary journal magic''
      else
        let (s, offset, reason) =
              frame_scan E ''boundary'' BOUNDARY_MAX_RECORD_BYTES from_slice boundary_scan_step (drop 8 bs)
                (length BOUNDARY_MAGIC) boundary_scan_start
        in \<lparr>bs_schema = ''BoundaryJournalScanV1'', bs_file_size = length bs, bs_records = bx_records s,
            bs_last_good_offset = offset, bs_clean_eof = (reason = None), bs_reason = reason,
            bs_proposal = map_option fst (bx_proposal s), bs_committed = bx_committed s,
            bs_last_record_sha256 = bx_previous s\<rparr>)"

section \<open>Deriving a boundary\<close>

definition SELECTOR_VERSION :: string where
  "SELECTOR_VERSION = ''CanonicalSelectorV1''"

definition position :: "canonical_observation \<Rightarrow> raw_position" where
  "position x =
     \<lparr>rp_connection_epoch = co_connection_epoch x, rp_stream = co_stream x, rp_frame_index = co_frame_index x,
      rp_record_sha256 = co_record_sha256 x\<rparr>"

text \<open>
  \<open>collect::<HashMap<_, _>>()\<close> keeps the last observation of a sequence; the hash map is the
  association list of the observations in reverse.
\<close>

definition predecessor_by_sequence :: "canonical_observation list \<Rightarrow> nat \<Rightarrow> canonical_observation option" where
  "predecessor_by_sequence predecessor = map_of (map (\<lambda>x. (co_final_sequence x, x)) (rev predecessor))"

definition continues ::
  "boundary_stream_kind \<Rightarrow> canonical_observation \<Rightarrow> canonical_observation \<Rightarrow> canonical_observation \<Rightarrow> nat \<Rightarrow> bool" where
  "continues kind predecessor_boundary boundary continuation next =
     (case kind of
        Depth \<Rightarrow> co_first_sequence continuation \<le> next \<and> next \<le> co_final_sequence continuation
      | Trade \<Rightarrow>
          co_first_sequence predecessor_boundary = co_final_sequence boundary
          \<and> co_first_sequence boundary = co_final_sequence boundary
          \<and> co_first_sequence continuation = next \<and> co_final_sequence continuation = next)"

type_synonym splice = "canonical_observation \<times> canonical_observation \<times> canonical_observation"

text \<open>The loop over \<open>successor.windows(2)\<close>.\<close>

fun splice_loop ::
  "boundary_stream_kind \<Rightarrow> (nat \<Rightarrow> canonical_observation option) \<Rightarrow> splice option \<Rightarrow> canonical_observation list
     \<Rightarrow> splice option res" where
  "splice_loop kind by_sequence selected (boundary # continuation # rest) =
     (case by_sequence (co_final_sequence boundary) of
        None \<Rightarrow> splice_loop kind by_sequence selected (continuation # rest)
      | Some predecessor_boundary \<Rightarrow>
          if co_observation_sha256 predecessor_boundary \<noteq> co_observation_sha256 boundary
          then splice_loop kind by_sequence selected (continuation # rest)
          else rbind (ok_or (Fail ''boundary sequence overflow'') (checked_add (co_final_sequence boundary) 1)) (\<lambda>next.
            splice_loop kind by_sequence
              (if continues kind predecessor_boundary boundary continuation next
                  \<and> (case selected of None \<Rightarrow> True
                      | Some (old, _, _) \<Rightarrow> co_final_sequence old < co_final_sequence predecessor_boundary)
               then Some (predecessor_boundary, boundary, continuation) else selected)
              (continuation # rest)))"
| "splice_loop kind by_sequence selected _ = Ok selected"

definition derive_handover_boundary ::
  "string \<Rightarrow> boundary_stream_kind \<Rightarrow> canonical_observation list \<Rightarrow> canonical_observation list \<Rightarrow> boundary_durability
     \<Rightarrow> boundary_durability \<Rightarrow> string \<Rightarrow> handover_boundary res" where
  "derive_handover_boundary boundary_id kind predecessor successor predecessor_durability successor_durability
     spec_revision =
     (if trim_is_empty boundary_id then Err (Fail ''boundary ID is required'')
      else case predecessor of
        [] \<Rightarrow> Err (Fail ''predecessor observations are empty'')
      | first_predecessor # _ \<Rightarrow>
     (case successor of
        [] \<Rightarrow> Err (Fail ''successor observations are empty'')
      | first_successor # _ \<Rightarrow>
     if co_symbol first_predecessor \<noteq> co_symbol first_successor
        \<or> co_stream first_predecessor \<noteq> co_stream first_successor
        \<or> co_stream_kind first_predecessor \<noteq> kind \<or> co_stream_kind first_successor \<noteq> kind
        \<or> co_connection_epoch first_predecessor = co_connection_epoch first_successor
     then Err (Fail ''A/B observation identity does not define independent matching epochs'')
     else rbind (splice_loop kind (predecessor_by_sequence predecessor) None successor) (\<lambda>selected.
       rbind (ok_or (Fail ''no converged A/B boundary with a venue-valid B continuation'') selected)
         (\<lambda>(predecessor_boundary, successor_boundary, successor_continuation).
       let b = \<lparr>hb_schema = ''HandoverBoundaryV1'', hb_boundary_id = boundary_id,
             hb_environment = ''production-public-market-data'', hb_symbol = co_symbol first_predecessor,
             hb_stream_kind = kind, hb_stream = co_stream first_predecessor,
             hb_predecessor_epoch = co_connection_epoch first_predecessor,
             hb_successor_epoch = co_connection_epoch first_successor,
             hb_boundary_sequence = co_final_sequence predecessor_boundary,
             hb_boundary_sha256 = co_observation_sha256 predecessor_boundary,
             hb_predecessor_last_selected = position predecessor_boundary,
             hb_successor_boundary_observation = position successor_boundary,
             hb_successor_first_selected = position successor_continuation,
             hb_predecessor_durability = predecessor_durability, hb_successor_durability = successor_durability,
             hb_spec_revision = spec_revision, hb_selector_version = SELECTOR_VERSION\<rparr>
       in rbind (validate_boundary b) (\<lambda>_. Ok b)))))"

end
