(* ===== verification/Ownership.thy ===== *)
theory Ownership
  imports Boundary
begin

text \<open>
  Live-source ownership: \<open>src/rust/lob-replay/src/ownership.rs\<close>. A source pointer names the connection
  epochs that may publish, with a fencing token; an activation moves it to the successor epochs two
  committed boundaries prove; the ledger is the durable sequence of initialised, prepared and activated
  records. The JSON codecs of a ledger record and of the pointer digest are parameters. A ledger is its
  bytes, so the scan does not carry the path.
\<close>

section \<open>Snapshots and activations\<close>

record source_pointer_snapshot =
  sp_schema :: string
  sp_symbol :: string
  sp_generation_id :: string
  sp_depth_epoch :: string
  sp_trade_epoch :: string
  sp_fencing_token :: nat
  sp_depth_last_sequence :: nat
  sp_trade_last_sequence :: nat

definition validate_snapshot :: "source_pointer_snapshot \<Rightarrow> unit res" where
  "validate_snapshot s =
     (if sp_schema s \<noteq> ''SourcePointerSnapshotV1'' \<or> \<not> in_scope (sp_symbol s)
         \<or> trim_is_empty (sp_generation_id s) \<or> trim_is_empty (sp_depth_epoch s)
         \<or> trim_is_empty (sp_trade_epoch s) \<or> sp_fencing_token s = 0
      then Err (Fail ''invalid source pointer snapshot'') else Ok ())"

definition snapshot_digest ::
  "'v externals \<Rightarrow> (source_pointer_snapshot \<Rightarrow> bytes) \<Rightarrow> source_pointer_snapshot \<Rightarrow> string res" where
  "snapshot_digest E to_vec s = rbind (validate_snapshot s) (\<lambda>_. Ok (sha256_hex E (to_vec s)))"

record committed_boundary_proof =
  cp_boundary :: handover_boundary
  cp_commit_record_sha256 :: string

definition load_committed_boundary_proof ::
  "'v externals \<Rightarrow> (bytes \<Rightarrow> boundary_journal_record option) \<Rightarrow> bytes \<Rightarrow> committed_boundary_proof res" where
  "load_committed_boundary_proof E from_slice bs =
     (let scan = scan_boundary_journal E from_slice bs in
      if \<not> bs_clean_eof scan \<or> bs_records scan \<noteq> 2
      then Err (Fail ''boundary journal lacks one complete committed boundary'')
      else rbind (ok_or (Fail ''boundary journal is not committed'') (bs_committed scan)) (\<lambda>b.
        rbind (validate_boundary_digest (bs_last_record_sha256 scan)) (\<lambda>_.
        Ok \<lparr>cp_boundary = b, cp_commit_record_sha256 = bs_last_record_sha256 scan\<rparr>)))"

record ownership_activation =
  oa_schema :: string
  oa_activation_id :: string
  oa_symbol :: string
  oa_predecessor_generation :: string
  oa_successor_generation :: string
  oa_predecessor_depth_epoch :: string
  oa_predecessor_trade_epoch :: string
  oa_successor_depth_epoch :: string
  oa_successor_trade_epoch :: string
  oa_depth_boundary_id :: string
  oa_trade_boundary_id :: string
  oa_depth_commit_record_sha256 :: string
  oa_trade_commit_record_sha256 :: string
  oa_depth_boundary_sequence :: nat
  oa_trade_boundary_sequence :: nat
  oa_fencing_token :: nat

definition validate_activation :: "ownership_activation \<Rightarrow> unit res" where
  "validate_activation a =
     (if oa_schema a \<noteq> ''OwnershipActivationV1'' \<or> trim_is_empty (oa_activation_id a) \<or> \<not> in_scope (oa_symbol a)
         \<or> trim_is_empty (oa_predecessor_generation a) \<or> trim_is_empty (oa_successor_generation a)
         \<or> oa_predecessor_generation a = oa_successor_generation a
         \<or> trim_is_empty (oa_predecessor_depth_epoch a) \<or> trim_is_empty (oa_predecessor_trade_epoch a)
         \<or> trim_is_empty (oa_successor_depth_epoch a) \<or> trim_is_empty (oa_successor_trade_epoch a)
         \<or> oa_predecessor_depth_epoch a = oa_successor_depth_epoch a
         \<or> oa_predecessor_trade_epoch a = oa_successor_trade_epoch a
         \<or> trim_is_empty (oa_depth_boundary_id a) \<or> trim_is_empty (oa_trade_boundary_id a)
         \<or> oa_depth_boundary_id a = oa_trade_boundary_id a \<or> oa_fencing_token a = 0
      then Err (Fail ''invalid ownership activation identity'')
      else rbind (validate_boundary_digest (oa_depth_commit_record_sha256 a)) (\<lambda>_.
        validate_boundary_digest (oa_trade_commit_record_sha256 a)))"

definition successor_snapshot :: "ownership_activation \<Rightarrow> source_pointer_snapshot" where
  "successor_snapshot a =
     \<lparr>sp_schema = ''SourcePointerSnapshotV1'', sp_symbol = oa_symbol a, sp_generation_id = oa_successor_generation a,
      sp_depth_epoch = oa_successor_depth_epoch a, sp_trade_epoch = oa_successor_trade_epoch a,
      sp_fencing_token = oa_fencing_token a, sp_depth_last_sequence = oa_depth_boundary_sequence a,
      sp_trade_last_sequence = oa_trade_boundary_sequence a\<rparr>"

definition validate_activation_proofs ::
  "ownership_activation \<Rightarrow> committed_boundary_proof \<Rightarrow> committed_boundary_proof \<Rightarrow> unit res" where
  "validate_activation_proofs a depth trade =
     rbind (validate_boundary (cp_boundary depth)) (\<lambda>_.
     rbind (validate_boundary (cp_boundary trade)) (\<lambda>_.
     if hb_stream_kind (cp_boundary depth) \<noteq> Depth \<or> hb_stream_kind (cp_boundary trade) \<noteq> Trade
        \<or> oa_symbol a \<noteq> hb_symbol (cp_boundary depth) \<or> oa_symbol a \<noteq> hb_symbol (cp_boundary trade)
        \<or> oa_predecessor_depth_epoch a \<noteq> hb_predecessor_epoch (cp_boundary depth)
        \<or> oa_predecessor_trade_epoch a \<noteq> hb_predecessor_epoch (cp_boundary trade)
        \<or> oa_successor_depth_epoch a \<noteq> hb_successor_epoch (cp_boundary depth)
        \<or> oa_successor_trade_epoch a \<noteq> hb_successor_epoch (cp_boundary trade)
        \<or> oa_depth_boundary_id a \<noteq> hb_boundary_id (cp_boundary depth)
        \<or> oa_trade_boundary_id a \<noteq> hb_boundary_id (cp_boundary trade)
        \<or> oa_depth_boundary_sequence a \<noteq> hb_boundary_sequence (cp_boundary depth)
        \<or> oa_trade_boundary_sequence a \<noteq> hb_boundary_sequence (cp_boundary trade)
        \<or> oa_depth_commit_record_sha256 a \<noteq> cp_commit_record_sha256 depth
        \<or> oa_trade_commit_record_sha256 a \<noteq> cp_commit_record_sha256 trade
     then Err (Fail ''ownership activation does not match committed boundary proofs'') else Ok ()))"

definition derive_ownership_activation ::
  "string \<Rightarrow> string \<Rightarrow> source_pointer_snapshot \<Rightarrow> committed_boundary_proof \<Rightarrow> committed_boundary_proof
     \<Rightarrow> ownership_activation res" where
  "derive_ownership_activation activation_id successor_generation current depth trade =
     rbind (validate_snapshot current) (\<lambda>_.
     rbind (validate_boundary (cp_boundary depth)) (\<lambda>_.
     rbind (validate_boundary (cp_boundary trade)) (\<lambda>_.
     rbind (validate_boundary_digest (cp_commit_record_sha256 depth)) (\<lambda>_.
     rbind (validate_boundary_digest (cp_commit_record_sha256 trade)) (\<lambda>_.
     if hb_stream_kind (cp_boundary depth) \<noteq> Depth \<or> hb_stream_kind (cp_boundary trade) \<noteq> Trade
        \<or> hb_symbol (cp_boundary depth) \<noteq> sp_symbol current \<or> hb_symbol (cp_boundary trade) \<noteq> sp_symbol current
        \<or> hb_predecessor_epoch (cp_boundary depth) \<noteq> sp_depth_epoch current
        \<or> hb_predecessor_epoch (cp_boundary trade) \<noteq> sp_trade_epoch current
        \<or> hb_boundary_sequence (cp_boundary depth) \<noteq> sp_depth_last_sequence current
        \<or> hb_boundary_sequence (cp_boundary trade) \<noteq> sp_trade_last_sequence current
     then Err (Fail ''boundary proofs do not continue the active source generation'')
     else rbind (ok_or (Fail ''fencing token overflow'') (checked_add (sp_fencing_token current) 1)) (\<lambda>token.
       let a = \<lparr>oa_schema = ''OwnershipActivationV1'', oa_activation_id = activation_id, oa_symbol = sp_symbol current,
             oa_predecessor_generation = sp_generation_id current, oa_successor_generation = successor_generation,
             oa_predecessor_depth_epoch = sp_depth_epoch current, oa_predecessor_trade_epoch = sp_trade_epoch current,
             oa_successor_depth_epoch = hb_successor_epoch (cp_boundary depth),
             oa_successor_trade_epoch = hb_successor_epoch (cp_boundary trade),
             oa_depth_boundary_id = hb_boundary_id (cp_boundary depth),
             oa_trade_boundary_id = hb_boundary_id (cp_boundary trade),
             oa_depth_commit_record_sha256 = cp_commit_record_sha256 depth,
             oa_trade_commit_record_sha256 = cp_commit_record_sha256 trade,
             oa_depth_boundary_sequence = hb_boundary_sequence (cp_boundary depth),
             oa_trade_boundary_sequence = hb_boundary_sequence (cp_boundary trade), oa_fencing_token = token\<rparr>
       in rbind (validate_activation a) (\<lambda>_. rbind (validate_activation_proofs a depth trade) (\<lambda>_. Ok a))))))))"

text \<open>\<open>checked_add(1).unwrap_or(0)\<close>: a validated activation never carries the token zero.\<close>

definition validate_activation_predecessor :: "source_pointer_snapshot \<Rightarrow> ownership_activation \<Rightarrow> unit res" where
  "validate_activation_predecessor active a =
     rbind (validate_snapshot active) (\<lambda>_.
     rbind (validate_activation a) (\<lambda>_.
     if oa_symbol a \<noteq> sp_symbol active \<or> oa_predecessor_generation a \<noteq> sp_generation_id active
        \<or> oa_predecessor_depth_epoch a \<noteq> sp_depth_epoch active
        \<or> oa_predecessor_trade_epoch a \<noteq> sp_trade_epoch active
        \<or> oa_fencing_token a \<noteq> (case checked_add (sp_fencing_token active) 1 of None \<Rightarrow> 0 | Some t \<Rightarrow> t)
     then Err (Fail ''ownership activation does not exactly continue active owner'') else Ok ()))"

section \<open>The ledger\<close>

datatype ownership_action = Initialized | Prepared | Activated

record ownership_record =
  or_schema :: string
  or_record_index :: nat
  or_action :: ownership_action
  or_initial_owner :: "source_pointer_snapshot option"
  or_activation :: "ownership_activation option"
  or_prepared_record_sha256 :: "string option"
  or_previous_record_sha256 :: string

record ownership_ledger_ack =
  ol_schema :: string
  ol_action :: ownership_action
  ol_durable_record_count :: nat
  ol_durable_through_offset :: nat
  ol_last_record_sha256 :: string

record ownership_ledger_scan =
  os_schema :: string
  os_file_size :: nat
  os_records :: nat
  os_last_good_offset :: nat
  os_clean_eof :: bool
  os_reason :: "error option"
  os_active_owner :: "source_pointer_snapshot option"
  os_pending_activation :: "ownership_activation option"
  os_last_activation :: "ownership_activation option"
  os_last_record_sha256 :: string

record ownership_ledger_writer =
  ow_sink :: sink
  ow_end_offset :: nat
  ow_previous_digest :: string
  ow_record_count :: nat
  ow_active_owner :: source_pointer_snapshot
  ow_pending :: "(ownership_activation \<times> string) option"
  ow_poisoned :: bool

definition OWNERSHIP_MAGIC :: bytes where
  "OWNERSHIP_MAGIC = [66, 78, 79, 87, 78, 0, 1, 10]"

definition OWNERSHIP_MAX_RECORD_BYTES :: nat where
  "OWNERSHIP_MAX_RECORD_BYTES = 256 * 1024"

text \<open>
  The record count is a plain \<open>u64\<close> addition, so it aborts on overflow. The count grows before the
  checked offset, which is what an offset overflow leaves behind.
\<close>

definition ownership_append ::
  "'v externals \<Rightarrow> (ownership_record \<Rightarrow> bytes) \<Rightarrow> ownership_record \<Rightarrow> ownership_ledger_writer
     \<Rightarrow> ownership_ledger_ack res \<times> ownership_ledger_writer" where
  "ownership_append E to_vec r w =
     (if ow_poisoned w then (Err (Fail ''ownership ledger is poisoned''), w)
      else
        let body = to_vec r in
        if OWNERSHIP_MAX_RECORD_BYTES < length body
        then (Err (Fail ''ownership record exceeds maximum size''), w)
        else if u32_max < length body then (Err (Fail ''ownership record length does not fit u32''), w)
        else
          (case write_frame E body (ow_sink w) of
             (False, sk) \<Rightarrow>
               (Err (Fail ''sync ownership record; ledger poisoned''), w\<lparr>ow_sink := sk, ow_poisoned := True\<rparr>)
           | (True, sk) \<Rightarrow>
               (case add_u64 (ow_record_count w) 1 of
                  Inl e \<Rightarrow> (Err e, w\<lparr>ow_sink := sk\<rparr>)
                | Inr count \<Rightarrow>
                    (case checked_add (ow_end_offset w) (length (encode_frame E body)) of
                       None \<Rightarrow>
                         (Err (Fail ''ownership offset overflow''), w\<lparr>ow_sink := sk, ow_record_count := count\<rparr>)
                     | Some offset \<Rightarrow>
                         (Ok \<lparr>ol_schema = ''OwnershipLedgerAckV1'', ol_action = or_action r,
                              ol_durable_record_count = count, ol_durable_through_offset = offset,
                              ol_last_record_sha256 = sha256_hex E body\<rparr>,
                          w\<lparr>ow_sink := sk, ow_record_count := count, ow_end_offset := offset,
                            ow_previous_digest := sha256_hex E body\<rparr>)))))"

definition initialized_record :: "source_pointer_snapshot \<Rightarrow> ownership_record" where
  "initialized_record initial =
     \<lparr>or_schema = ''OwnershipRecordV1'', or_record_index = 0, or_action = Initialized,
      or_initial_owner = Some initial, or_activation = None, or_prepared_record_sha256 = None,
      or_previous_record_sha256 = ZERO_DIGEST\<rparr>"

definition prepared_record :: "nat \<Rightarrow> string \<Rightarrow> ownership_activation \<Rightarrow> ownership_record" where
  "prepared_record index previous a =
     \<lparr>or_schema = ''OwnershipRecordV1'', or_record_index = index, or_action = Prepared, or_initial_owner = None,
      or_activation = Some a, or_prepared_record_sha256 = None, or_previous_record_sha256 = previous\<rparr>"

definition activated_record :: "nat \<Rightarrow> string \<Rightarrow> string \<Rightarrow> ownership_record" where
  "activated_record index previous prepared_digest =
     \<lparr>or_schema = ''OwnershipRecordV1'', or_record_index = index, or_action = Activated, or_initial_owner = None,
      or_activation = None, or_prepared_record_sha256 = Some prepared_digest, or_previous_record_sha256 = previous\<rparr>"

definition ownership_from_sink ::
  "'v externals \<Rightarrow> (ownership_record \<Rightarrow> bytes) \<Rightarrow> sink \<Rightarrow> source_pointer_snapshot \<Rightarrow> ownership_ledger_writer res" where
  "ownership_from_sink E to_vec sk initial =
     (case validate_snapshot initial of
        Inl e \<Rightarrow> Err e
      | Inr _ \<Rightarrow>
     (case sink_write_all OWNERSHIP_MAGIC sk of
        (False, _) \<Rightarrow> Err (Fail ''write ownership magic'')
      | (True, sk1) \<Rightarrow>
     (case sink_sync sk1 of
        (False, _) \<Rightarrow> Err (Fail ''sync ownership magic'')
      | (True, sk2) \<Rightarrow>
     (case ownership_append E to_vec (initialized_record initial)
             \<lparr>ow_sink = sk2, ow_end_offset = length OWNERSHIP_MAGIC, ow_previous_digest = ZERO_DIGEST,
              ow_record_count = 0, ow_active_owner = initial, ow_pending = None, ow_poisoned = False\<rparr> of
        (Inl e, _) \<Rightarrow> Err e
      | (Inr _, w) \<Rightarrow> Ok w))))"

definition ownership_prepare ::
  "'v externals \<Rightarrow> (ownership_record \<Rightarrow> bytes) \<Rightarrow> ownership_activation \<Rightarrow> ownership_ledger_writer
     \<Rightarrow> ownership_ledger_ack res \<times> ownership_ledger_writer" where
  "ownership_prepare E to_vec a w =
     (if ow_pending w \<noteq> None then (Err (Fail ''ownership ledger already has a pending activation''), w)
      else case validate_activation_predecessor (ow_active_owner w) a of
        Inl e \<Rightarrow> (Err e, w)
      | Inr _ \<Rightarrow>
          (case ownership_append E to_vec (prepared_record (ow_record_count w) (ow_previous_digest w) a) w of
             (Inl e, w1) \<Rightarrow> (Err e, w1)
           | (Inr ack, w1) \<Rightarrow> (Ok ack, w1\<lparr>ow_pending := Some (a, ol_last_record_sha256 ack)\<rparr>)))"

definition ownership_activate ::
  "'v externals \<Rightarrow> (ownership_record \<Rightarrow> bytes) \<Rightarrow> string \<Rightarrow> ownership_ledger_writer
     \<Rightarrow> ownership_ledger_ack res \<times> ownership_ledger_writer" where
  "ownership_activate E to_vec activation_id w =
     (case ow_pending w of
        None \<Rightarrow> (Err (Fail ''ownership cannot activate before durable prepare''), w)
      | Some (a, prepared_digest) \<Rightarrow>
          if oa_activation_id a \<noteq> activation_id
          then (Err (Fail ''ownership activation ID does not match prepared record''), w)
          else
            (case ownership_append E to_vec
                    (activated_record (ow_record_count w) (ow_previous_digest w) prepared_digest) w of
               (Inl e, w1) \<Rightarrow> (Err e, w1)
             | (Inr ack, w1) \<Rightarrow> (Ok ack, w1\<lparr>ow_pending := None, ow_active_owner := successor_snapshot a\<rparr>)))"

subsection \<open>Scanning it\<close>

record ownership_scan_state =
  ox_records :: nat
  ox_previous :: string
  ox_active_owner :: "source_pointer_snapshot option"
  ox_pending :: "(ownership_activation \<times> string) option"
  ox_last_activation :: "ownership_activation option"

text \<open>
  The semantic check of one record. An activation takes the pending entry before it looks at the rest
  of the record, so a mismatching activation leaves none behind.
\<close>

definition ownership_check ::
  "ownership_record \<Rightarrow> string \<Rightarrow> ownership_scan_state \<Rightarrow> unit res \<times> ownership_scan_state" where
  "ownership_check r digest s =
     (if or_schema r \<noteq> ''OwnershipRecordV1'' \<or> or_record_index r \<noteq> ox_records s
         \<or> or_previous_record_sha256 r \<noteq> ox_previous s
      then (Err (Fail ''ownership ledger chain/index mismatch''), s)
      else case or_action r of
        Initialized \<Rightarrow>
          if ox_records s \<noteq> 0 \<or> ox_active_owner s \<noteq> None \<or> ox_pending s \<noteq> None
          then (Err (Fail ''illegal ownership initialization''), s)
          else (case or_initial_owner r of
            None \<Rightarrow> (Err (Fail ''ownership initialization lacks owner''), s)
          | Some owner \<Rightarrow>
              if or_activation r \<noteq> None \<or> or_prepared_record_sha256 r \<noteq> None
              then (Err (Fail ''ownership initialization has illegal fields''), s)
              else (case validate_snapshot owner of
                Inl e \<Rightarrow> (Err e, s)
              | Inr _ \<Rightarrow> (Ok (), s\<lparr>ox_active_owner := Some owner\<rparr>)))
      | Prepared \<Rightarrow>
          (case ox_active_owner s of
             None \<Rightarrow> (Err (Fail ''ownership prepare precedes initialization''), s)
           | Some owner \<Rightarrow>
               if ox_pending s \<noteq> None \<or> or_initial_owner r \<noteq> None \<or> or_prepared_record_sha256 r \<noteq> None
               then (Err (Fail ''illegal ownership prepare''), s)
               else (case or_activation r of
                 None \<Rightarrow> (Err (Fail ''ownership prepare lacks activation''), s)
               | Some a \<Rightarrow>
                   (case validate_activation_predecessor owner a of
                      Inl e \<Rightarrow> (Err e, s)
                    | Inr _ \<Rightarrow> (Ok (), s\<lparr>ox_pending := Some (a, digest)\<rparr>))))
      | Activated \<Rightarrow>
          (case ox_pending s of
             None \<Rightarrow> (Err (Fail ''ownership activation has no prepared record''), s)
           | Some (a, prepared_digest) \<Rightarrow>
               let s1 = s\<lparr>ox_pending := None\<rparr> in
               if or_initial_owner r \<noteq> None \<or> or_activation r \<noteq> None
                  \<or> or_prepared_record_sha256 r \<noteq> Some prepared_digest
               then (Err (Fail ''ownership activation reference mismatch''), s1)
               else (Ok (), s1\<lparr>ox_active_owner := Some (successor_snapshot a), ox_last_activation := Some a\<rparr>)))"

text \<open>A file of \<open>u64\<close> length holds fewer than \<open>u64::MAX\<close> records, so the counts cannot overflow.\<close>

definition ownership_scan_step ::
  "ownership_record \<Rightarrow> string \<Rightarrow> ownership_scan_state \<Rightarrow> unit res \<times> ownership_scan_state" where
  "ownership_scan_step r digest s =
     (case ownership_check r digest s of
        (Inl e, s1) \<Rightarrow> (Err e, s1)
      | (Inr _, s1) \<Rightarrow> (Ok (), s1\<lparr>ox_records := ox_records s + 1, ox_previous := digest\<rparr>))"

definition ownership_scan_start :: ownership_scan_state where
  "ownership_scan_start =
     \<lparr>ox_records = 0, ox_previous = ZERO_DIGEST, ox_active_owner = None, ox_pending = None, ox_last_activation = None\<rparr>"

definition scan_ownership_ledger ::
  "'v externals \<Rightarrow> (bytes \<Rightarrow> ownership_record option) \<Rightarrow> bytes \<Rightarrow> ownership_ledger_scan" where
  "scan_ownership_ledger E from_slice bs =
     (if take 8 bs \<noteq> OWNERSHIP_MAGIC then
        \<lparr>os_schema = ''OwnershipLedgerScanV1'', os_file_size = length bs, os_records = 0, os_last_good_offset = 0,
         os_clean_eof = False, os_reason = Some (Fail ''bad ownership ledger magic''), os_active_owner = None,
         os_pending_activation = None, os_last_activation = None, os_last_record_sha256 = ZERO_DIGEST\<rparr>
      else
        let (s, offset, reason) =
              frame_scan E ''ownership'' OWNERSHIP_MAX_RECORD_BYTES from_slice ownership_scan_step (drop 8 bs)
                (length OWNERSHIP_MAGIC) ownership_scan_start
        in \<lparr>os_schema = ''OwnershipLedgerScanV1'', os_file_size = length bs, os_records = ox_records s,
            os_last_good_offset = offset, os_clean_eof = (reason = None), os_reason = reason,
            os_active_owner = ox_active_owner s, os_pending_activation = map_option fst (ox_pending s),
            os_last_activation = ox_last_activation s, os_last_record_sha256 = ox_previous s\<rparr>)"

section \<open>The published pointer\<close>

datatype live_publication_state = PointerLive | PointerGap

record canonical_source_pointer =
  ptr_owner :: source_pointer_snapshot
  ptr_state :: live_publication_state
  ptr_fenced_rejections :: nat
  ptr_gap_reason :: "string option"

definition pointer_recover ::
  "ownership_ledger_scan \<Rightarrow> (committed_boundary_proof \<times> committed_boundary_proof) option \<Rightarrow> canonical_source_pointer res" where
  "pointer_recover scan proofs =
     (if \<not> os_clean_eof scan \<or> os_records scan = 0
      then Err (Fail ''ownership ledger is not a clean recoverable authority'')
      else rbind (ok_or (Fail ''ownership ledger has no active owner'') (os_active_owner scan)) (\<lambda>owner.
        rbind (validate_snapshot owner) (\<lambda>_.
        rbind (case (os_last_activation scan, proofs) of
                 (None, None) \<Rightarrow> Ok ()
               | (Some a, Some (depth, trade)) \<Rightarrow>
                   rbind (validate_activation_proofs a depth trade) (\<lambda>_.
                   check (successor_snapshot a = owner)
                     (Fail ''active owner does not match last durable activation''))
               | (Some _, None) \<Rightarrow> Err (Fail ''activated ownership recovery requires both boundary proofs'')
               | (None, Some _) \<Rightarrow> Err (Fail ''initial ownership recovery received unexpected boundary proofs'')) (\<lambda>_.
        Ok \<lparr>ptr_owner = owner, ptr_state = PointerLive, ptr_fenced_rejections = 0, ptr_gap_reason = None\<rparr>))))"

definition gap_message :: "nat \<Rightarrow> nat \<Rightarrow> nat \<Rightarrow> string" where
  "gap_message expected first final =
     ''active canonical sequence gap: expected '' @ dec_str expected @ '', got '' @ dec_str first @ ''..'' @ dec_str final"

text \<open>The plain counter of rejections aborts on overflow.\<close>

definition fence_reject :: "string \<Rightarrow> canonical_source_pointer \<Rightarrow> unit res \<times> canonical_source_pointer" where
  "fence_reject message p =
     (case add_u64 (ptr_fenced_rejections p) 1 of
        Inl e \<Rightarrow> (Err e, p)
      | Inr n \<Rightarrow> (Err (Fail message), p\<lparr>ptr_fenced_rejections := n\<rparr>))"

definition owner_epoch :: "boundary_stream_kind \<Rightarrow> source_pointer_snapshot \<Rightarrow> string" where
  "owner_epoch kind s = (case kind of Depth \<Rightarrow> sp_depth_epoch s | Trade \<Rightarrow> sp_trade_epoch s)"

definition owner_last :: "boundary_stream_kind \<Rightarrow> source_pointer_snapshot \<Rightarrow> nat" where
  "owner_last kind s = (case kind of Depth \<Rightarrow> sp_depth_last_sequence s | Trade \<Rightarrow> sp_trade_last_sequence s)"

definition set_owner_last :: "boundary_stream_kind \<Rightarrow> nat \<Rightarrow> source_pointer_snapshot \<Rightarrow> source_pointer_snapshot" where
  "set_owner_last kind n s =
     (case kind of Depth \<Rightarrow> s\<lparr>sp_depth_last_sequence := n\<rparr> | Trade \<Rightarrow> s\<lparr>sp_trade_last_sequence := n\<rparr>)"

definition pointer_accept ::
  "boundary_stream_kind \<Rightarrow> string \<Rightarrow> nat \<Rightarrow> nat \<Rightarrow> nat \<Rightarrow> canonical_source_pointer \<Rightarrow> unit res \<times> canonical_source_pointer" where
  "pointer_accept kind epoch token first final p =
     (if ptr_state p \<noteq> PointerLive then (Err (Fail ''canonical publication is GAP''), p)
      else if epoch \<noteq> owner_epoch kind (ptr_owner p) \<or> token \<noteq> sp_fencing_token (ptr_owner p)
      then fence_reject ''publication rejected by active ownership fence'' p
      else case checked_add (owner_last kind (ptr_owner p)) 1 of
        None \<Rightarrow> (Err (Fail ''canonical sequence overflow''), p)
      | Some expected \<Rightarrow>
          if \<not> (case kind of Depth \<Rightarrow> first \<le> expected \<and> expected \<le> final
                  | Trade \<Rightarrow> first = expected \<and> final = expected)
          then (Err (Fail (gap_message expected first final)),
                p\<lparr>ptr_state := PointerGap, ptr_gap_reason := Some (gap_message expected first final)\<rparr>)
          else (Ok (), p\<lparr>ptr_owner := set_owner_last kind final (ptr_owner p)\<rparr>))"

definition pointer_fail_active :: "string \<Rightarrow> string \<Rightarrow> canonical_source_pointer \<Rightarrow> unit res \<times> canonical_source_pointer" where
  "pointer_fail_active epoch reason p =
     (if trim_is_empty reason then (Err (Fail ''active failure reason is required''), p)
      else if epoch \<noteq> sp_depth_epoch (ptr_owner p) \<and> epoch \<noteq> sp_trade_epoch (ptr_owner p)
      then fence_reject ''failure source is not the active owner'' p
      else (Ok (), p\<lparr>ptr_state := PointerGap, ptr_gap_reason := Some reason\<rparr>))"

end
