(* ===== verification/Boundary_Journal.thy ===== *)
theory Boundary_Journal
  imports Boundary
begin

text \<open>
  The boundary journal as a two-record commit: whatever the sink does and wherever a crash cuts the
  file after its last sync, the scan finds exactly the boundary that was acknowledged.
\<close>

section \<open>The scan is a chained log\<close>

lemma boundary_step_chains:
  "boundary_scan_step r d s = (Inr u, s') \<Longrightarrow>
     bx_records s' = bx_records s + 1 \<and> bx_previous s' = d \<and> bj_previous_record_sha256 r = bx_previous s"
  by (auto simp: boundary_scan_step_def validate_scanned_record_def Let_def
      split: sum.splits if_splits boundary_journal_action.splits)

interpretation boundary_log: chained_log boundary_scan_step bx_records bx_previous bj_previous_record_sha256
  by unfold_locales (rule boundary_step_chains)

section \<open>The records of a journal\<close>

definition proposal_body :: "(boundary_journal_record \<Rightarrow> bytes) \<Rightarrow> handover_boundary \<Rightarrow> bytes" where
  "proposal_body to_vec b = to_vec (proposal_record ZERO_DIGEST b)"

definition commit_body :: "'v externals \<Rightarrow> (boundary_journal_record \<Rightarrow> bytes) \<Rightarrow> handover_boundary \<Rightarrow> bytes" where
  "commit_body E to_vec b =
     (let d = sha256_hex E (proposal_body to_vec b) in to_vec (commit_record d (hb_boundary_id b) d))"

definition boundary_bodies :: "'v externals \<Rightarrow> (boundary_journal_record \<Rightarrow> bytes) \<Rightarrow> handover_boundary option \<Rightarrow> bool \<Rightarrow> bytes list" where
  "boundary_bodies E to_vec proposal committed =
     (case proposal of
        None \<Rightarrow> []
      | Some b \<Rightarrow> proposal_body to_vec b # (if committed then [commit_body E to_vec b] else []))"

definition boundary_scanned :: "'v externals \<Rightarrow> (boundary_journal_record \<Rightarrow> bytes) \<Rightarrow> handover_boundary option \<Rightarrow> bool \<Rightarrow> boundary_scan_state" where
  "boundary_scanned E to_vec proposal committed =
     \<lparr>bx_records = length (boundary_bodies E to_vec proposal committed),
      bx_previous = (case proposal of None \<Rightarrow> ZERO_DIGEST
        | Some b \<Rightarrow> sha256_hex E (if committed then commit_body E to_vec b else proposal_body to_vec b)),
      bx_proposal = map_option (\<lambda>b. (b, sha256_hex E (proposal_body to_vec b))) proposal,
      bx_committed = (if committed then proposal else None)\<rparr>"

lemma boundary_bodies_accepted:
  assumes "record_round_trip to_vec from_slice" "\<And>b. proposal = Some b \<Longrightarrow> validate_boundary b = Ok ()"
  shows "run_steps boundary_scan_step (frames_of E from_slice (boundary_bodies E to_vec proposal committed)) boundary_scan_start
    = Some (boundary_scanned E to_vec proposal committed)"
  using assms
  by (cases proposal)
    (auto simp: record_round_trip_def boundary_bodies_def boundary_scanned_def boundary_scan_start_def frames_of_def
      proposal_body_def commit_body_def Let_def boundary_scan_step_def validate_scanned_record_def proposal_record_def
      commit_record_def)

section \<open>The writer's invariant\<close>

definition boundary_fits :: "'v externals \<Rightarrow> (boundary_journal_record \<Rightarrow> bytes) \<Rightarrow> handover_boundary option \<Rightarrow> bool \<Rightarrow> bool" where
  "boundary_fits E to_vec proposal committed \<longleftrightarrow>
     (\<forall>body\<in>set (boundary_bodies E to_vec proposal committed). length body \<le> BOUNDARY_MAX_RECORD_BYTES)
     \<and> (\<forall>b. proposal = Some b \<longrightarrow> validate_boundary b = Ok ())"

text \<open>
  What the file holds: the acknowledged records, all of them synced, and after a failed append some
  prefix of the record that failed, which is the next one of the protocol.
\<close>

definition boundary_tail ::
  "'v externals \<Rightarrow> (boundary_journal_record \<Rightarrow> bytes) \<Rightarrow> handover_boundary option \<Rightarrow> bool \<Rightarrow> handover_boundary option \<Rightarrow> bool \<Rightarrow> bool" where
  "boundary_tail E to_vec proposal committed proposal' committed' \<longleftrightarrow>
     boundary_fits E to_vec proposal' committed'
     \<and> ((proposal = None \<and> \<not> committed \<and> proposal' \<noteq> None \<and> \<not> committed')
        \<or> (proposal \<noteq> None \<and> \<not> committed \<and> proposal' = proposal \<and> committed'))"

definition boundary_file ::
  "'v externals \<Rightarrow> (boundary_journal_record \<Rightarrow> bytes) \<Rightarrow> (handover_boundary \<Rightarrow> bool) \<Rightarrow> (string \<Rightarrow> bool) \<Rightarrow> sink
     \<Rightarrow> handover_boundary option \<Rightarrow> bool \<Rightarrow> bool \<Rightarrow> bool" where
  "boundary_file E to_vec proposed committing sk proposal committed poisoned \<longleftrightarrow>
     (let whole = BOUNDARY_MAGIC @ frame_bytes E (boundary_bodies E to_vec proposal committed) in
      length whole \<le> sk_synced sk
      \<and> (sk_data sk = whole
         \<or> poisoned \<and> (\<exists>proposal' committed' k. boundary_tail E to_vec proposal committed proposal' committed'
              \<and> (\<forall>b. proposal' = Some b \<longrightarrow> proposed b \<and> (committed' \<longrightarrow> committing (hb_boundary_id b)))
              \<and> sk_data sk = whole @ take k (encode_frame E (last (boundary_bodies E to_vec proposal' committed'))))))"

definition boundary_inv ::
  "'v externals \<Rightarrow> (boundary_journal_record \<Rightarrow> bytes) \<Rightarrow> (handover_boundary \<Rightarrow> bool) \<Rightarrow> (string \<Rightarrow> bool)
     \<Rightarrow> boundary_journal_writer \<Rightarrow> bool" where
  "boundary_inv E to_vec proposed committing w \<longleftrightarrow>
     (let proposal = map_option fst (bw_proposal w); bodies = boundary_bodies E to_vec proposal (bw_committed w) in
      boundary_file E to_vec proposed committing (bw_sink w) proposal (bw_committed w) (bw_poisoned w)
      \<and> boundary_fits E to_vec proposal (bw_committed w)
      \<and> (\<forall>b d. bw_proposal w = Some (b, d) \<longrightarrow> proposed b \<and> d = sha256_hex E (proposal_body to_vec b)
           \<and> (bw_committed w \<longrightarrow> committing (hb_boundary_id b)))
      \<and> (bw_committed w \<longrightarrow> bw_proposal w \<noteq> None)
      \<and> bw_end_offset w = length (BOUNDARY_MAGIC @ frame_bytes E bodies)
      \<and> bw_previous_digest w = bx_previous (boundary_scanned E to_vec proposal (bw_committed w)))"

lemma boundary_inv_start:
  assumes "boundary_from_sink sk = Ok w" "sk_data sk = []"
  shows "boundary_inv E to_vec proposed committing w"
  using assms
  by (auto simp: boundary_from_sink_def boundary_inv_def boundary_file_def boundary_fits_def boundary_bodies_def
      boundary_scanned_def sink_write_all_def sink_sync_def Let_def
      split: bool.splits prod.splits list.splits io_outcome.splits)

lemma boundary_offset_bound:
  assumes "sha256_len32 E" "boundary_inv E to_vec proposed committing w"
  shows "bw_end_offset w + (BOUNDARY_MAX_RECORD_BYTES + 36) \<le> u64_max"
proof -
  let ?bodies = "boundary_bodies E to_vec (map_option fst (bw_proposal w)) (bw_committed w)"
  have f: "boundary_fits E to_vec (map_option fst (bw_proposal w)) (bw_committed w)"
    and e: "bw_end_offset w = length BOUNDARY_MAGIC + length (frame_bytes E ?bodies)"
    using assms(2) by (simp_all add: boundary_inv_def Let_def)
  have l: "length (frame_bytes E ?bodies) \<le> length ?bodies * (BOUNDARY_MAX_RECORD_BYTES + 36)"
    using f by (intro frame_bytes_bound [OF assms(1)]) (simp add: boundary_fits_def)
  have two: "length ?bodies \<le> 2" by (simp add: boundary_bodies_def split: option.split)
  have "length (frame_bytes E ?bodies) \<le> 2 * (BOUNDARY_MAX_RECORD_BYTES + 36)"
    using order_trans [OF l mult_le_mono1 [OF two]] .
  then show ?thesis unfolding e by (simp add: BOUNDARY_MAGIC_def BOUNDARY_MAX_RECORD_BYTES_def u64_max_def)
qed

lemma boundary_append_cases:
  assumes "sha256_len32 E" "bw_end_offset w + (BOUNDARY_MAX_RECORD_BYTES + 36) \<le> u64_max"
  obtains (same) e where "boundary_append E to_vec r w = (Err e, w)"
  | (torn) e sk k where "\<not> bw_poisoned w" "length (to_vec r) \<le> BOUNDARY_MAX_RECORD_BYTES"
      "boundary_append E to_vec r w = (Err e, w\<lparr>bw_sink := sk, bw_poisoned := True\<rparr>)"
      "sk_data sk = sk_data (bw_sink w) @ take k (encode_frame E (to_vec r))" "sk_synced sk = sk_synced (bw_sink w)"
  | (acked) ack sk where "\<not> bw_poisoned w" "length (to_vec r) \<le> BOUNDARY_MAX_RECORD_BYTES"
      "boundary_append E to_vec r w = (Ok ack, w\<lparr>bw_sink := sk,
         bw_end_offset := bw_end_offset w + length (encode_frame E (to_vec r)),
         bw_previous_digest := sha256_hex E (to_vec r)\<rparr>)"
      "ba_last_record_sha256 ack = sha256_hex E (to_vec r)"
      "sk_data sk = sk_data (bw_sink w) @ encode_frame E (to_vec r)" "sk_synced sk = length (sk_data sk)"
proof (cases "bw_poisoned w \<or> BOUNDARY_MAX_RECORD_BYTES < length (to_vec r)")
  case True
  show ?thesis
  proof (cases "bw_poisoned w")
    case True
    then show ?thesis by (intro same [of "Fail ''boundary journal is poisoned''"]) (simp add: boundary_append_def)
  next
    case False
    then show ?thesis using True
      by (intro same [of "Fail ''boundary journal record exceeds maximum size''"]) (simp add: boundary_append_def Let_def)
  qed
next
  case False
  then have u: "\<not> bw_poisoned w" "length (to_vec r) \<le> BOUNDARY_MAX_RECORD_BYTES" "\<not> u32_max < length (to_vec r)"
    by (auto simp: BOUNDARY_MAX_RECORD_BYTES_def u32_max_def)
  obtain ok sk where wf: "write_frame E (to_vec r) (bw_sink w) = (ok, sk)" by (cases "write_frame E (to_vec r) (bw_sink w)")
  show ?thesis
  proof (cases ok)
    case True
    have "bw_end_offset w + length (encode_frame E (to_vec r)) \<le> u64_max"
      using assms(2) u(2) length_encode_frame [OF assms(1), of "to_vec r"] by simp
    then have eq: "boundary_append E to_vec r w = (Ok \<lparr>ba_schema = ''BoundaryJournalAckV1'', ba_action = bj_action r,
          ba_boundary_id = bj_boundary_id r, ba_durable_record_count = bj_record_index r + 1,
          ba_durable_through_offset = bw_end_offset w + length (encode_frame E (to_vec r)),
          ba_last_record_sha256 = sha256_hex E (to_vec r)\<rparr>,
        w\<lparr>bw_sink := sk, bw_end_offset := bw_end_offset w + length (encode_frame E (to_vec r)),
          bw_previous_digest := sha256_hex E (to_vec r)\<rparr>)"
      using u wf True by (simp add: boundary_append_def Let_def checked_add_def)
    have "write_frame E (to_vec r) (bw_sink w) = (True, sk)" using wf True by simp
    from write_frame_True [OF this] show ?thesis by (intro acked [OF u(1,2) eq]) simp_all
  next
    case False
    obtain k where "sk_data sk = sk_data (bw_sink w) @ take k (encode_frame E (to_vec r))"
      "sk_synced sk = sk_synced (bw_sink w)" using write_frame_False [of E "to_vec r" "bw_sink w" sk] wf False by auto
    then show ?thesis using u wf False by (intro torn [of _ sk k]) (simp_all add: boundary_append_def Let_def)
  qed
qed

lemma boundary_file_torn:
  assumes "boundary_file E to_vec proposed committing sk0 p c False" "sk_synced sk = sk_synced sk0"
    "sk_data sk = sk_data sk0 @ take k (encode_frame E (last (boundary_bodies E to_vec p' c')))"
    "boundary_tail E to_vec p c p' c'"
    "\<And>b. p' = Some b \<Longrightarrow> proposed b \<and> (c' \<longrightarrow> committing (hb_boundary_id b))"
  shows "boundary_file E to_vec proposed committing sk p c True"
proof -
  have "sk_data sk0 = BOUNDARY_MAGIC @ frame_bytes E (boundary_bodies E to_vec p c)"
    and "length (BOUNDARY_MAGIC @ frame_bytes E (boundary_bodies E to_vec p c)) \<le> sk_synced sk0"
    using assms(1) by (simp_all add: boundary_file_def Let_def)
  then show ?thesis unfolding boundary_file_def Let_def using assms(2-5) by auto
qed

lemma boundary_file_acked:
  assumes "boundary_file E to_vec proposed committing sk0 p c False" "sk_synced sk = length (sk_data sk)"
    "sk_data sk = sk_data sk0 @ encode_frame E body"
    "boundary_bodies E to_vec p' c' = boundary_bodies E to_vec p c @ [body]"
  shows "boundary_file E to_vec proposed committing sk p' c' b"
  using assms by (simp add: boundary_file_def Let_def)

lemma boundary_invD:
  assumes "boundary_inv E to_vec proposed committing w" "p = map_option fst (bw_proposal w)" "c = bw_committed w"
  shows "boundary_file E to_vec proposed committing (bw_sink w) p c (bw_poisoned w)"
    "boundary_fits E to_vec p c" "bw_end_offset w = length (BOUNDARY_MAGIC @ frame_bytes E (boundary_bodies E to_vec p c))"
    "bw_previous_digest w = bx_previous (boundary_scanned E to_vec p c)"
  using assms by (simp_all add: boundary_inv_def Let_def)

lemma propose_inv:
  assumes "sha256_len32 E" "boundary_inv E to_vec proposed committing w" "proposed b"
  shows "boundary_inv E to_vec proposed committing (snd (boundary_propose E to_vec b w))"
proof (cases "bw_proposal w \<noteq> None \<or> bw_committed w \<or> validate_boundary b \<noteq> Ok ()")
  case True
  then have "snd (boundary_propose E to_vec b w) = w"
    by (cases "validate_boundary b") (auto simp: boundary_propose_def)
  then show ?thesis using assms(2) by simp
next
  case False
  then have n: "bw_proposal w = None" "\<not> bw_committed w" and v: "validate_boundary b = Ok ()" by blast+
  note inv = boundary_invD [OF assms(2), of None False, unfolded n option.map, OF refl] n
  have prev: "bw_previous_digest w = ZERO_DIGEST" using inv(4) n by (simp add: boundary_scanned_def)
  let ?body = "proposal_body to_vec b"
  have bodies: "boundary_bodies E to_vec (Some b) False = boundary_bodies E to_vec None False @ [?body]"
    by (simp add: boundary_bodies_def)
  have rec: "to_vec (proposal_record (bw_previous_digest w) b) = ?body" by (simp add: prev proposal_body_def)
  have fits: "boundary_fits E to_vec (Some b) False" if "length ?body \<le> BOUNDARY_MAX_RECORD_BYTES"
    using that v by (simp add: boundary_fits_def boundary_bodies_def)
  show ?thesis
  proof (cases rule: boundary_append_cases [OF assms(1) boundary_offset_bound [OF assms(1,2)], of to_vec "proposal_record (bw_previous_digest w) b",
        case_names same torn acked])
    case (same e)
    then show ?thesis using n v assms(2) by (simp add: boundary_propose_def)
  next
    case (torn e sk k)
    have f: "boundary_file E to_vec proposed committing sk None False True"
      using boundary_file_torn [of E to_vec proposed committing "bw_sink w" None False sk k "Some b" False] inv(1) n torn
        fits assms(3) unfolding rec bodies by (simp add: boundary_tail_def)
    show ?thesis using assms(2) f n v torn by (simp add: boundary_propose_def boundary_inv_def Let_def)
  next
    case (acked ack sk)
    note acked = acked [unfolded rec]
    have f: "boundary_file E to_vec proposed committing sk (Some b) False False"
      using boundary_file_acked [of E to_vec proposed committing "bw_sink w" None False sk ?body "Some b" False] inv(1) n acked
      unfolding rec bodies by simp
    show ?thesis using assms(3) f n v acked(3,4) fits [OF acked(2)] inv(3) acked(1)
      by (simp add: boundary_propose_def boundary_inv_def Let_def boundary_scanned_def bodies)
  qed
qed

lemma commit_inv:
  assumes "sha256_len32 E" "boundary_inv E to_vec proposed committing w" "committing i"
  shows "boundary_inv E to_vec proposed committing (snd (boundary_commit E to_vec i w))"
proof (cases "bw_committed w \<or> bw_proposal w = None \<or> hb_boundary_id (fst (the (bw_proposal w))) \<noteq> i")
  case True
  then have "snd (boundary_commit E to_vec i w) = w"
    by (cases "bw_proposal w") (auto simp: boundary_commit_def)
  then show ?thesis using assms(2) by simp
next
  case False
  then obtain b d where n: "bw_proposal w = Some (b, d)" "\<not> bw_committed w" and i: "hb_boundary_id b = i" by auto
  note inv = boundary_invD [OF assms(2), of "Some b" False, unfolded n option.map fst_conv, OF refl] n
  have p: "proposed b" "d = sha256_hex E (proposal_body to_vec b)"
    using assms(2) n by (auto simp: boundary_inv_def Let_def)
  have prev: "bw_previous_digest w = d" using inv(4) n p(2) by (simp add: boundary_scanned_def)
  let ?body = "commit_body E to_vec b"
  have bodies: "boundary_bodies E to_vec (Some b) True = boundary_bodies E to_vec (Some b) False @ [?body]"
    by (simp add: boundary_bodies_def)
  have rec: "to_vec (commit_record (bw_previous_digest w) i d) = ?body"
    by (simp add: prev commit_body_def p(2) i Let_def)
  have fits: "boundary_fits E to_vec (Some b) True" if "length ?body \<le> BOUNDARY_MAX_RECORD_BYTES"
    using that inv(2) n by (simp add: boundary_fits_def boundary_bodies_def)
  show ?thesis
  proof (cases rule: boundary_append_cases [OF assms(1) boundary_offset_bound [OF assms(1,2)], of to_vec "commit_record (bw_previous_digest w) i d",
        case_names same torn acked])
    case (same e)
    then show ?thesis using n i assms(2) by (simp add: boundary_commit_def)
  next
    case (torn e sk k)
    have f: "boundary_file E to_vec proposed committing sk (Some b) False True"
      using boundary_file_torn [of E to_vec proposed committing "bw_sink w" "Some b" False sk k "Some b" True] inv(1) n torn
        fits assms(3) p(1) i unfolding rec bodies by (simp add: boundary_tail_def)
    show ?thesis using assms(2) f n i torn by (simp add: boundary_commit_def boundary_inv_def Let_def)
  next
    case (acked ack sk)
    note acked = acked [unfolded rec]
    have f: "boundary_file E to_vec proposed committing sk (Some b) True False"
      using boundary_file_acked [of E to_vec proposed committing "bw_sink w" "Some b" False sk ?body "Some b" True] inv(1) n acked
      unfolding rec bodies by simp
    show ?thesis using assms(3) p f n i acked(3,4) fits [OF acked(2)] inv(3) acked(1)
      by (simp add: boundary_commit_def boundary_inv_def Let_def boundary_scanned_def bodies)
  qed
qed

section \<open>Sessions and crashes\<close>

datatype boundary_op = ProposeBoundary handover_boundary | CommitBoundary string

fun boundary_step ::
  "'v externals \<Rightarrow> (boundary_journal_record \<Rightarrow> bytes) \<Rightarrow> boundary_op \<Rightarrow> boundary_journal_writer
     \<Rightarrow> boundary_journal_ack res \<times> boundary_journal_writer" where
  "boundary_step E to_vec (ProposeBoundary b) w = boundary_propose E to_vec b w"
| "boundary_step E to_vec (CommitBoundary i) w = boundary_commit E to_vec i w"

fun boundary_run ::
  "'v externals \<Rightarrow> (boundary_journal_record \<Rightarrow> bytes) \<Rightarrow> boundary_op list \<Rightarrow> boundary_journal_writer
     \<Rightarrow> (boundary_op \<times> boundary_journal_ack res) list \<times> boundary_journal_writer" where
  "boundary_run E to_vec [] w = ([], w)"
| "boundary_run E to_vec (op # ops) w =
     (let (r, w1) = boundary_step E to_vec op w; (log, w2) = boundary_run E to_vec ops w1 in ((op, r) # log, w2))"

text \<open>What is proposed or committed stays so.\<close>

definition boundary_kept :: "boundary_journal_writer \<Rightarrow> boundary_journal_writer \<Rightarrow> bool" where
  "boundary_kept w w' \<longleftrightarrow> (bw_proposal w \<noteq> None \<longrightarrow> bw_proposal w' = bw_proposal w) \<and> (bw_committed w \<longrightarrow> bw_committed w')"

lemma boundary_append_keeps:
  "boundary_append E to_vec r w = (res, w') \<Longrightarrow> bw_proposal w' = bw_proposal w \<and> bw_committed w' = bw_committed w"
  by (auto simp: boundary_append_def Let_def split: if_splits prod.splits bool.splits option.splits)

lemma boundary_step_kept: "boundary_kept w (snd (boundary_step E to_vec op w))"
  by (cases op)
    (auto simp: boundary_kept_def boundary_propose_def boundary_commit_def dest: boundary_append_keeps
      split: sum.splits option.splits prod.splits)

lemma boundary_step_effect:
  "boundary_step E to_vec (ProposeBoundary b) w = (Ok ack, w') \<Longrightarrow> \<exists>d. bw_proposal w' = Some (b, d)"
  "boundary_step E to_vec (CommitBoundary i) w = (Ok ack, w') \<Longrightarrow>
     bw_committed w' \<and> (\<exists>b d. bw_proposal w' = Some (b, d) \<and> hb_boundary_id b = i)"
  by (auto simp: boundary_propose_def boundary_commit_def dest: boundary_append_keeps
      split: if_splits sum.splits option.splits prod.splits)

lemma boundary_run_log:
  assumes "boundary_run E to_vec ops w = (log, w')"
  shows "boundary_kept w w'"
    and "(ProposeBoundary b, Ok ack) \<in> set log \<Longrightarrow> \<exists>d. bw_proposal w' = Some (b, d)"
    and "(CommitBoundary i, Ok ack) \<in> set log \<Longrightarrow>
      bw_committed w' \<and> (\<exists>b d. bw_proposal w' = Some (b, d) \<and> hb_boundary_id b = i)"
proof -
  have "boundary_kept w w' \<and> (\<forall>b ack. (ProposeBoundary b, Ok ack) \<in> set log \<longrightarrow> (\<exists>d. bw_proposal w' = Some (b, d)))
    \<and> (\<forall>i ack. (CommitBoundary i, Ok ack) \<in> set log \<longrightarrow>
        bw_committed w' \<and> (\<exists>b d. bw_proposal w' = Some (b, d) \<and> hb_boundary_id b = i))"
    using assms
  proof (induction ops arbitrary: w log)
    case (Cons op ops)
    obtain r w1 where s: "boundary_step E to_vec op w = (r, w1)" by (cases "boundary_step E to_vec op w")
    obtain log1 where t: "boundary_run E to_vec ops w1 = (log1, w')" "log = (op, r) # log1"
      using Cons.prems s by (auto split: prod.splits)
    have k: "boundary_kept w w1" using boundary_step_kept [of w E to_vec op] s by simp
    note ih = Cons.IH [OF t(1)]
    have "boundary_kept w w'" using k ih by (auto simp: boundary_kept_def)
    moreover have "\<exists>d. bw_proposal w' = Some (b, d)" if "(ProposeBoundary b, Ok ack) \<in> set log" for b ack
      using that t(2) ih s boundary_step_effect(1) [of E to_vec b w ack w1] by (auto simp: boundary_kept_def)
    moreover have "bw_committed w' \<and> (\<exists>b d. bw_proposal w' = Some (b, d) \<and> hb_boundary_id b = i)"
      if "(CommitBoundary i, Ok ack) \<in> set log" for i ack
      using that t(2) ih s boundary_step_effect(2) [of E to_vec i w ack w1] by (auto simp: boundary_kept_def)
    ultimately show ?case by blast
  qed (simp add: boundary_kept_def)
  then show "boundary_kept w w'"
    and "(ProposeBoundary b, Ok ack) \<in> set log \<Longrightarrow> \<exists>d. bw_proposal w' = Some (b, d)"
    and "(CommitBoundary i, Ok ack) \<in> set log \<Longrightarrow>
      bw_committed w' \<and> (\<exists>b d. bw_proposal w' = Some (b, d) \<and> hb_boundary_id b = i)" by blast+
qed

lemma boundary_run_inv:
  assumes "sha256_len32 E" "boundary_inv E to_vec proposed committing w" "boundary_run E to_vec ops w = (log, w')"
    "\<And>b. ProposeBoundary b \<in> set ops \<Longrightarrow> proposed b" "\<And>i. CommitBoundary i \<in> set ops \<Longrightarrow> committing i"
  shows "boundary_inv E to_vec proposed committing w'"
  using assms(2-5)
proof (induction ops arbitrary: w log)
  case (Cons op ops)
  obtain r w1 where s: "boundary_step E to_vec op w = (r, w1)" by (cases "boundary_step E to_vec op w")
  obtain log1 where t: "boundary_run E to_vec ops w1 = (log1, w')" using Cons.prems(2) s by (auto split: prod.splits)
  have "boundary_inv E to_vec proposed committing (snd (boundary_step E to_vec op w))"
    using Cons.prems(1,3,4) propose_inv [OF assms(1)] commit_inv [OF assms(1)] by (cases op) simp_all
  then have "boundary_inv E to_vec proposed committing w1" using s by simp
  then show ?case using Cons.IH [OF _ t] Cons.prems(3,4) by simp
qed simp

section \<open>What a crash leaves\<close>

definition scan_of :: "boundary_scan_state \<Rightarrow> boundary_journal_scan \<Rightarrow> bool" where
  "scan_of st sc \<longleftrightarrow> bs_proposal sc = map_option fst (bx_proposal st) \<and> bs_committed sc = bx_committed st
     \<and> bs_records sc = bx_records st \<and> bs_last_record_sha256 sc = bx_previous st"

lemma scan_boundary_frames:
  assumes "frame_scan E ''boundary'' BOUNDARY_MAX_RECORD_BYTES from_slice boundary_scan_step bs
    (length BOUNDARY_MAGIC) boundary_scan_start = (st, off, reason)"
  shows "scan_of st (scan_boundary_journal E from_slice (BOUNDARY_MAGIC @ bs))"
    "bs_clean_eof (scan_boundary_journal E from_slice (BOUNDARY_MAGIC @ bs)) \<longleftrightarrow> reason = None"
  using assms by (simp_all add: scan_boundary_journal_def scan_of_def BOUNDARY_MAGIC_def)

lemma fits_frames:
  assumes "record_round_trip to_vec from_slice" "boundary_fits E to_vec p c"
  shows "frames_fit BOUNDARY_MAX_RECORD_BYTES from_slice (boundary_bodies E to_vec p c)"
  using assms
  by (auto simp: frames_fit_def record_round_trip_def boundary_fits_def boundary_bodies_def proposal_body_def commit_body_def
      Let_def BOUNDARY_MAX_RECORD_BYTES_def split: option.splits)

lemma tail_bodies:
  "boundary_tail E to_vec p c p' c' \<Longrightarrow>
     boundary_bodies E to_vec p' c' = boundary_bodies E to_vec p c @ [last (boundary_bodies E to_vec p' c')]"
  by (auto simp: boundary_tail_def boundary_bodies_def split: option.splits)

text \<open>A crash image shows the acknowledged state, or that of the record whose sync failed.\<close>

lemma crash_image_scan:
  assumes "sha256_len32 E" "record_round_trip to_vec from_slice" "boundary_fits E to_vec p c"
    "boundary_file E to_vec proposed committing sk p c poisoned" "sk_synced sk \<le> n"
  obtains p' c' where
    "scan_of (boundary_scanned E to_vec p' c') (scan_boundary_journal E from_slice (take n (sk_data sk)))"
    "(p', c') = (p, c) \<and> (poisoned \<or> bs_clean_eof (scan_boundary_journal E from_slice (take n (sk_data sk))))
     \<or> poisoned \<and> boundary_tail E to_vec p c p' c'
         \<and> (\<forall>b. p' = Some b \<longrightarrow> proposed b \<and> (c' \<longrightarrow> committing (hb_boundary_id b)))"
proof -
  let ?whole = "BOUNDARY_MAGIC @ frame_bytes E (boundary_bodies E to_vec p c)"
  have run: "run_steps boundary_scan_step (frames_of E from_slice (boundary_bodies E to_vec p c)) boundary_scan_start
      = Some (boundary_scanned E to_vec p c)"
    using assms(3) by (intro boundary_bodies_accepted [OF assms(2)]) (simp add: boundary_fits_def)
  have l: "length ?whole \<le> n" using assms(4,5) by (simp add: boundary_file_def Let_def)
  consider (whole) "sk_data sk = ?whole"
    | (tail) p' c' k where "poisoned" "boundary_tail E to_vec p c p' c'"
        "\<forall>b. p' = Some b \<longrightarrow> proposed b \<and> (c' \<longrightarrow> committing (hb_boundary_id b))"
        "sk_data sk = ?whole @ take k (encode_frame E (last (boundary_bodies E to_vec p' c')))"
    using assms(4) unfolding boundary_file_def Let_def by blast
  then show ?thesis
  proof cases
    case whole
    have img: "take n (sk_data sk) = ?whole" using whole l by simp
    have sc: "frame_scan E ''boundary'' BOUNDARY_MAX_RECORD_BYTES from_slice boundary_scan_step
        (frame_bytes E (boundary_bodies E to_vec p c)) (length BOUNDARY_MAGIC) boundary_scan_start
      = (boundary_scanned E to_vec p c, length BOUNDARY_MAGIC + length (frame_bytes E (boundary_bodies E to_vec p c)), None)"
      by (rule scan_whole_journal [OF assms(1) fits_frames [OF assms(2,3)] run])
    show ?thesis by (rule that [of p c]) (use scan_boundary_frames [OF sc] img in simp_all)
  next
    case tail
    let ?fr = "encode_frame E (last (boundary_bodies E to_vec p' c'))"
    obtain j where j: "take n (sk_data sk) = BOUNDARY_MAGIC @ frame_bytes E (boundary_bodies E to_vec p c) @ take j ?fr"
      using take_journal [OF l, of k ?fr] tail(4) by auto
    have fits': "boundary_fits E to_vec p' c'" using tail(2) by (simp add: boundary_tail_def)
    note b = tail_bodies [OF tail(2), symmetric]
    have run': "run_steps boundary_scan_step (frames_of E from_slice (boundary_bodies E to_vec p' c')) boundary_scan_start
        = Some (boundary_scanned E to_vec p' c')"
      using fits' by (intro boundary_bodies_accepted [OF assms(2)]) (simp add: boundary_fits_def)
    obtain off reason where sc: "frame_scan E ''boundary'' BOUNDARY_MAX_RECORD_BYTES from_slice boundary_scan_step
        (frame_bytes E (boundary_bodies E to_vec p c) @ take j ?fr) (length BOUNDARY_MAGIC) boundary_scan_start
      = (if j < length ?fr then boundary_scanned E to_vec p c else boundary_scanned E to_vec p' c', off, reason)"
      using scan_cut_journal [OF assms(1) _ run, where t = "last (boundary_bodies E to_vec p' c')"
          and noun = "''boundary''" and j = j and off = "length BOUNDARY_MAGIC", unfolded b, OF fits_frames [OF assms(2) fits'] run']
      by (elim exE conjE) (rule that)
    note s = scan_boundary_frames [OF sc, folded j]
    show ?thesis
    proof (cases "j < length ?fr")
      case True
      then show ?thesis using s(1) tail(1) by (intro that [of p c]) simp_all
    next
      case False
      then show ?thesis using s(1) tail(1-3) by (intro that [of p' c']) simp_all
    qed
  qed
qed

lemma boundary_crash_scan:
  assumes "sha256_len32 E" "record_round_trip to_vec from_slice"
    and "boundary_from_sink sk0 = Ok w0" "sk_data sk0 = []" "boundary_run E to_vec ops w0 = (log, w)"
    and "sk_synced (bw_sink w) \<le> n"
    and "scan = scan_boundary_journal E from_slice (take n (sk_data (bw_sink w)))"
  obtains p' c' where "bs_proposal scan = p'" "bs_committed scan = (if c' then p' else None)"
    "bs_records scan = length (boundary_bodies E to_vec p' c')"
    "bw_proposal w \<noteq> None \<Longrightarrow> p' = map_option fst (bw_proposal w)" "bw_committed w \<Longrightarrow> c'"
    "\<And>b. p' = Some b \<Longrightarrow> ProposeBoundary b \<in> set ops
       \<and> (c' \<longrightarrow> CommitBoundary (hb_boundary_id b) \<in> set ops) \<and> validate_boundary b = Ok ()"
    "bw_poisoned w \<or> bs_clean_eof scan"
proof -
  let ?proposed = "\<lambda>b. ProposeBoundary b \<in> set ops" and ?committing = "\<lambda>i. CommitBoundary i \<in> set ops"
  have inv: "boundary_inv E to_vec ?proposed ?committing w"
    by (rule boundary_run_inv [OF assms(1) boundary_inv_start [OF assms(3,4)] assms(5)])
  define p c where "p = map_option fst (bw_proposal w)" and "c = bw_committed w"
  note i = boundary_invD [OF inv p_def c_def]
  have i2: "?proposed b \<and> (c \<longrightarrow> ?committing (hb_boundary_id b)) \<and> validate_boundary b = Ok ()" if prem: "p = Some b" for b
    using inv prem i(2) unfolding boundary_inv_def Let_def boundary_fits_def p_def c_def by auto
  obtain p' c' where s: "scan_of (boundary_scanned E to_vec p' c') scan"
    "(p', c') = (p, c) \<and> (bw_poisoned w \<or> bs_clean_eof scan)
     \<or> bw_poisoned w \<and> boundary_tail E to_vec p c p' c'
         \<and> (\<forall>b. p' = Some b \<longrightarrow> ?proposed b \<and> (c' \<longrightarrow> ?committing (hb_boundary_id b)))"
    unfolding assms(7) by (rule crash_image_scan [OF assms(1,2) i(2,1) assms(6)])
  have pr: "bs_proposal scan = p'" and co: "bs_committed scan = (if c' then p' else None)"
    and re: "bs_records scan = length (boundary_bodies E to_vec p' c')"
    using s(1) by (auto simp: scan_of_def boundary_scanned_def option.map_comp o_def option.map_ident)
  have keep: "p \<noteq> None \<Longrightarrow> p' = p" "c \<Longrightarrow> c'" using s(2) by (auto simp: boundary_tail_def)
  have all: "?proposed b \<and> (c' \<longrightarrow> ?committing (hb_boundary_id b)) \<and> validate_boundary b = Ok ()" if prem: "p' = Some b" for b
    using s(2)
  proof
    assume "(p', c') = (p, c) \<and> (bw_poisoned w \<or> bs_clean_eof scan)"
    then show ?thesis using i2 prem by simp
  next
    assume t: "bw_poisoned w \<and> boundary_tail E to_vec p c p' c'
      \<and> (\<forall>b. p' = Some b \<longrightarrow> ?proposed b \<and> (c' \<longrightarrow> ?committing (hb_boundary_id b)))"
    then have "boundary_fits E to_vec p' c'" by (simp add: boundary_tail_def)
    then show ?thesis using t prem by (simp add: boundary_fits_def)
  qed
  have eof: "bw_poisoned w \<or> bs_clean_eof scan" using s(2) by blast
  show thesis
    by (rule that [OF pr co re _ _ all eof]) (use keep in \<open>simp_all add: p_def c_def\<close>)
qed

text \<open>
  C6. The boundary journal commits atomically: whatever the sink reports and wherever a crash cuts the
  file after the last sync, the scan finds every acknowledged proposal and commit, finds no boundary that
  was not proposed, and reports as committed only the proposed boundary whose commit was asked for.
\<close>

theorem boundary_commit_crash_safe:
  assumes "sha256_len32 E" "record_round_trip to_vec from_slice"
    and "boundary_from_sink sk0 = Ok w0" "sk_data sk0 = []" "boundary_run E to_vec ops w0 = (log, w)"
    and "sk_synced (bw_sink w) \<le> n"
    and "scan = scan_boundary_journal E from_slice (take n (sk_data (bw_sink w)))"
  shows "(\<forall>b ack. (ProposeBoundary b, Ok ack) \<in> set log \<longrightarrow> bs_proposal scan = Some b)
    \<and> (\<forall>i ack. (CommitBoundary i, Ok ack) \<in> set log \<longrightarrow>
      (\<exists>b. bs_committed scan = Some b \<and> hb_boundary_id b = i \<and> bs_records scan = 2))
    \<and> (\<forall>b. bs_proposal scan = Some b \<longrightarrow> ProposeBoundary b \<in> set ops \<and> validate_boundary b = Ok ())
    \<and> (\<forall>b. bs_committed scan = Some b \<longrightarrow> bs_proposal scan = Some b \<and> CommitBoundary (hb_boundary_id b) \<in> set ops)
    \<and> (\<not> bw_poisoned w \<longrightarrow> bs_clean_eof scan)"
proof -
  obtain p' c' where pr: "bs_proposal scan = p'" and co: "bs_committed scan = (if c' then p' else None)"
    and re: "bs_records scan = length (boundary_bodies E to_vec p' c')"
    and keep: "bw_proposal w \<noteq> None \<Longrightarrow> p' = map_option fst (bw_proposal w)" "bw_committed w \<Longrightarrow> c'"
    and all: "\<And>b. p' = Some b \<Longrightarrow> ProposeBoundary b \<in> set ops
       \<and> (c' \<longrightarrow> CommitBoundary (hb_boundary_id b) \<in> set ops) \<and> validate_boundary b = Ok ()"
    and eof: "bw_poisoned w \<or> bs_clean_eof scan"
    by (rule boundary_crash_scan [OF assms]) (rule that, assumption+)
  have r1: "\<forall>b ack. (ProposeBoundary b, Ok ack) \<in> set log \<longrightarrow> bs_proposal scan = Some b"
    using boundary_run_log(2) [OF assms(5)] keep(1) by (fastforce simp: pr)
  have r2: "\<forall>i ack. (CommitBoundary i, Ok ack) \<in> set log \<longrightarrow>
      (\<exists>b. bs_committed scan = Some b \<and> hb_boundary_id b = i \<and> bs_records scan = 2)"
  proof (intro allI impI)
    fix i ack
    assume "(CommitBoundary i, Ok ack) \<in> set log"
    then obtain b d where "bw_committed w" "bw_proposal w = Some (b, d)" "hb_boundary_id b = i"
      using boundary_run_log(3) [OF assms(5)] by blast
    then show "\<exists>b. bs_committed scan = Some b \<and> hb_boundary_id b = i \<and> bs_records scan = 2"
      using keep by (auto simp: co re boundary_bodies_def)
  qed
  have r3: "\<forall>b. bs_proposal scan = Some b \<longrightarrow> ProposeBoundary b \<in> set ops \<and> validate_boundary b = Ok ()" using all pr by simp
  have r4: "\<forall>b. bs_committed scan = Some b \<longrightarrow> bs_proposal scan = Some b \<and> CommitBoundary (hb_boundary_id b) \<in> set ops"
    using all pr co by (auto split: if_splits)
  have r5: "\<not> bw_poisoned w \<longrightarrow> bs_clean_eof scan" using eof by blast
  show ?thesis by (rule conjI [OF r1 conjI [OF r2 conjI [OF r3 conjI [OF r4 r5]]]])
qed

end
