(* ===== verification/Ownership_Ledger.thy ===== *)
theory Ownership_Ledger
  imports Ownership Boundary_Journal
begin

text \<open>
  The ownership ledger: what any accepted ledger says about its owners, and that the scan of whatever a
  crash leaves of a written ledger finds the writer's owner.
\<close>

section \<open>Accepted ledgers\<close>

lemma ownership_step_chains:
  "ownership_scan_step r d s = (Inr u, s') \<Longrightarrow>
     ox_records s' = ox_records s + 1 \<and> ox_previous s' = d \<and> or_previous_record_sha256 r = ox_previous s"
  by (auto simp: ownership_scan_step_def ownership_check_def Let_def
      split: sum.splits if_splits prod.splits option.splits ownership_action.splits)

interpretation ownership_log: chained_log ownership_scan_step ox_records ox_previous or_previous_record_sha256
  by unfold_locales (rule ownership_step_chains)

definition continues_owner :: "source_pointer_snapshot \<Rightarrow> ownership_activation \<Rightarrow> bool" where
  "continues_owner o1 a \<longleftrightarrow> oa_fencing_token a = sp_fencing_token o1 + 1 \<and> oa_symbol a = sp_symbol o1
     \<and> oa_predecessor_generation a = sp_generation_id o1 \<and> oa_predecessor_depth_epoch a = sp_depth_epoch o1
     \<and> oa_predecessor_trade_epoch a = sp_trade_epoch o1 \<and> validate_activation a = Ok ()"

lemma validate_predecessor_Ok:
  assumes "validate_activation_predecessor o1 a = Ok ()"
  shows "continues_owner o1 a" "validate_snapshot o1 = Ok ()"
proof -
  have v: "validate_activation a = Ok ()" "validate_snapshot o1 = Ok ()"
    and t: "oa_fencing_token a = (case checked_add (sp_fencing_token o1) 1 of None \<Rightarrow> 0 | Some t \<Rightarrow> t)"
    and r: "oa_symbol a = sp_symbol o1" "oa_predecessor_generation a = sp_generation_id o1"
      "oa_predecessor_depth_epoch a = sp_depth_epoch o1" "oa_predecessor_trade_epoch a = sp_trade_epoch o1"
    using assms by (auto simp: validate_activation_predecessor_def split: if_splits)
  have "oa_fencing_token a \<noteq> 0" using v(1) by (auto simp: validate_activation_def split: if_splits)
  then have "oa_fencing_token a = sp_fencing_token o1 + 1" using t by (auto split: option.splits)
  then show "continues_owner o1 a" using v r by (simp add: continues_owner_def)
  show "validate_snapshot o1 = Ok ()" by (rule v(2))
qed

text \<open>The owner a prefix of the ledger leaves, and how many activations led to it.\<close>

definition activations :: "(ownership_record \<times> string) list \<Rightarrow> nat" where
  "activations rs = length (filter (\<lambda>(r, d). or_action r = Activated) rs)"

definition ledger_state_ok :: "(ownership_record \<times> string) list \<Rightarrow> ownership_scan_state \<Rightarrow> bool" where
  "ledger_state_ok rs st \<longleftrightarrow>
     (\<exists>first owner. or_action (fst (hd rs)) = Initialized \<and> or_initial_owner (fst (hd rs)) = Some first
        \<and> validate_snapshot first = Ok () \<and> ox_active_owner st = Some owner
        \<and> sp_fencing_token owner = sp_fencing_token first + activations rs \<and> sp_symbol owner = sp_symbol first
        \<and> (\<forall>a d. ox_pending st = Some (a, d) \<longrightarrow> continues_owner owner a)
        \<and> (ox_last_activation st = None \<longrightarrow> activations rs = 0 \<and> owner = first)
        \<and> (\<forall>a. ox_last_activation st = Some a \<longrightarrow> owner = successor_snapshot a \<and> validate_activation a = Ok ()))"

lemma check_initialized:
  assumes "ownership_check r d st = (Inr u, st')" "or_action r = Initialized"
  shows "ox_records st = 0" "ox_active_owner st = None"
    "\<exists>owner. or_initial_owner r = Some owner \<and> validate_snapshot owner = Ok () \<and> st' = st\<lparr>ox_active_owner := Some owner\<rparr>"
  using assms by (auto simp: ownership_check_def split: sum.splits if_splits option.splits)

lemma check_prepared:
  assumes "ownership_check r d st = (Inr u, st')" "or_action r = Prepared"
  shows "\<exists>owner a. ox_active_owner st = Some owner \<and> ox_pending st = None \<and> or_activation r = Some a
    \<and> validate_activation_predecessor owner a = Ok () \<and> st' = st\<lparr>ox_pending := Some (a, d)\<rparr>"
  using assms by (cases "ox_pending st") (auto simp: ownership_check_def split: sum.splits if_splits option.splits)

lemma check_activated:
  assumes "ownership_check r d st = (Inr u, st')" "or_action r = Activated"
  shows "\<exists>a pd. ox_pending st = Some (a, pd) \<and> or_prepared_record_sha256 r = Some pd
    \<and> st' = st\<lparr>ox_pending := None, ox_active_owner := Some (successor_snapshot a), ox_last_activation := Some a\<rparr>"
  using assms by (auto simp: ownership_check_def Let_def split: sum.splits if_splits option.splits)

lemma step_Ok:
  assumes "ownership_scan_step r d st = (Inr u, st')"
  shows "\<exists>s1. ownership_check r d st = (Inr (), s1) \<and> st' = s1\<lparr>ox_records := ox_records st + 1, ox_previous := d\<rparr>"
  using assms by (auto simp: ownership_scan_step_def split: prod.splits sum.splits)

lemma ledger_state_step:
  assumes "ledger_state_ok rs st" "rs \<noteq> []" "0 < ox_records st" "ownership_scan_step r d st = (Inr u, st')"
  shows "ledger_state_ok (rs @ [(r, d)]) st'"
proof -
  obtain s1 where c: "ownership_check r d st = (Inr (), s1)"
    and st': "st' = s1\<lparr>ox_records := ox_records st + 1, ox_previous := d\<rparr>" using step_Ok [OF assms(4)] by blast
  have act: "activations (rs @ [(r, d)]) = activations rs + (if or_action r = Activated then 1 else 0)"
    by (simp add: activations_def)
  have hd: "hd (rs @ [(r, d)]) = hd rs" using assms(2) by simp
  show ?thesis
  proof (cases "or_action r")
    case Initialized
    then show ?thesis using check_initialized(1) [OF c] assms(3) by simp
  next
    case Prepared
    obtain owner a where p: "ox_active_owner st = Some owner" "validate_activation_predecessor owner a = Ok ()"
      "s1 = st\<lparr>ox_pending := Some (a, d)\<rparr>" using check_prepared [OF c Prepared] by blast
    show ?thesis using assms(1) validate_predecessor_Ok(1) [OF p(2)] p(1)
      unfolding ledger_state_ok_def hd act st' p(3) Prepared by auto
  next
    case Activated
    obtain a pd where p: "ox_pending st = Some (a, pd)"
      "s1 = st\<lparr>ox_pending := None, ox_active_owner := Some (successor_snapshot a), ox_last_activation := Some a\<rparr>"
      using check_activated [OF c Activated] by blast
    show ?thesis using assms(1) p(1) unfolding ledger_state_ok_def hd act st' p(2) Activated
      by (auto simp: continues_owner_def successor_snapshot_def)
  qed
qed

lemma accepted_ledger_ok:
  assumes "run_steps ownership_scan_step rs ownership_scan_start = Some st" "rs \<noteq> []"
  shows "ledger_state_ok rs st"
  using assms
proof (induction rs arbitrary: st rule: rev_induct)
  case (snoc x rs)
  obtain r d where x: "x = (r, d)" by (cases x)
  obtain st0 where s: "run_steps ownership_scan_step rs ownership_scan_start = Some st0" "ownership_scan_step r d st0 = (Inr (), st)"
    using snoc.prems(1) x by (auto simp: run_steps_append split: option.splits prod.splits sum.splits)
  show ?case
  proof (cases "rs = []")
    case True
    then have z: "st0 = ownership_scan_start" using s(1) by simp
    obtain s1 where c: "ownership_check r d st0 = (Inr (), s1)"
      and st: "st = s1\<lparr>ox_records := ox_records st0 + 1, ox_previous := d\<rparr>" using step_Ok [OF s(2)] by blast
    have "or_action r = Initialized"
      using check_prepared [OF c] check_activated [OF c] z by (cases "or_action r") (auto simp: ownership_scan_start_def)
    then show ?thesis using check_initialized(3) [OF c] True x z st
      by (auto simp: ledger_state_ok_def activations_def ownership_scan_start_def)
  next
    case False
    then have "0 < ox_records st0" using ownership_log.run_linked [OF s(1)] by (simp add: ownership_scan_start_def)
    then show ?thesis using ledger_state_step [OF snoc.IH [OF s(1) False] False _ s(2)] x by simp
  qed
qed simp

section \<open>The writer's invariant\<close>

definition ledger_view :: "ownership_ledger_writer \<Rightarrow> ownership_scan_state \<Rightarrow> bool" where
  "ledger_view w st \<longleftrightarrow> ox_records st = ow_record_count w \<and> ox_previous st = ow_previous_digest w
     \<and> ox_active_owner st = Some (ow_active_owner w) \<and> ox_pending st = ow_pending w"

definition ledger_bodies ::
  "'v externals \<Rightarrow> (bytes \<Rightarrow> ownership_record option) \<Rightarrow> bytes list \<Rightarrow> ownership_scan_state \<Rightarrow> bool" where
  "ledger_bodies E from_slice bodies st \<longleftrightarrow>
     frames_fit OWNERSHIP_MAX_RECORD_BYTES from_slice bodies \<and> bodies \<noteq> []
     \<and> run_steps ownership_scan_step (frames_of E from_slice bodies) ownership_scan_start = Some st"

text \<open>The owner a torn record would leave: the present one or the pending successor.\<close>

definition torn_owner :: "ownership_ledger_writer \<Rightarrow> ownership_scan_state \<Rightarrow> bool" where
  "torn_owner w st \<longleftrightarrow> ox_active_owner st = Some (ow_active_owner w)
     \<or> (\<exists>a d. ow_pending w = Some (a, d) \<and> ox_active_owner st = Some (successor_snapshot a))"

definition ledger_inv ::
  "'v externals \<Rightarrow> (bytes \<Rightarrow> ownership_record option) \<Rightarrow> ownership_ledger_writer \<Rightarrow> bytes list \<Rightarrow> ownership_scan_state \<Rightarrow> bool" where
  "ledger_inv E from_slice w bodies st \<longleftrightarrow>
     ledger_bodies E from_slice bodies st \<and> ledger_view w st
     \<and> ow_end_offset w = length (OWNERSHIP_MAGIC @ frame_bytes E bodies) \<and> ow_end_offset w \<le> sk_synced (ow_sink w)
     \<and> (sk_data (ow_sink w) = OWNERSHIP_MAGIC @ frame_bytes E bodies
        \<or> ow_poisoned w \<and> (\<exists>body st' k. ledger_bodies E from_slice (bodies @ [body]) st' \<and> torn_owner w st'
             \<and> sk_data (ow_sink w) = OWNERSHIP_MAGIC @ frame_bytes E bodies @ take k (encode_frame E body)))"

lemma ledger_bodies_snoc:
  assumes "frames_fit OWNERSHIP_MAX_RECORD_BYTES from_slice bodies"
    "run_steps ownership_scan_step (frames_of E from_slice bodies) ownership_scan_start = Some st"
    "record_round_trip to_vec from_slice"
    "length (to_vec r) \<le> OWNERSHIP_MAX_RECORD_BYTES" "ownership_scan_step r (sha256_hex E (to_vec r)) st = (Ok (), st')"
  shows "ledger_bodies E from_slice (bodies @ [to_vec r]) st'"
  using assms
  by (auto simp: ledger_bodies_def frames_fit_def frames_of_def run_steps_append record_round_trip_def
      OWNERSHIP_MAX_RECORD_BYTES_def)

text \<open>The outcomes of an append, as long as the file stays within \<open>u64\<close>.\<close>

lemma ownership_append_cases:
  assumes "sha256_len32 E" "ow_record_count w + 1 \<le> u64_max"
    "\<not> ow_poisoned w \<longrightarrow> ow_end_offset w = length (sk_data (ow_sink w))"
    "length (sk_data (ow_sink (snd (ownership_append E to_vec r w)))) \<le> u64_max"
  obtains (same) e where "ownership_append E to_vec r w = (Err e, w)"
  | (torn) e sk k where "\<not> ow_poisoned w" "length (to_vec r) \<le> OWNERSHIP_MAX_RECORD_BYTES"
      "ownership_append E to_vec r w = (Err e, w\<lparr>ow_sink := sk, ow_poisoned := True\<rparr>)"
      "sk_data sk = sk_data (ow_sink w) @ take k (encode_frame E (to_vec r))" "sk_synced sk = sk_synced (ow_sink w)"
  | (acked) ack sk where "\<not> ow_poisoned w" "length (to_vec r) \<le> OWNERSHIP_MAX_RECORD_BYTES"
      "ownership_append E to_vec r w = (Ok ack, w\<lparr>ow_sink := sk, ow_record_count := ow_record_count w + 1,
         ow_end_offset := ow_end_offset w + length (encode_frame E (to_vec r)),
         ow_previous_digest := sha256_hex E (to_vec r)\<rparr>)"
      "ol_last_record_sha256 ack = sha256_hex E (to_vec r)"
      "sk_data sk = sk_data (ow_sink w) @ encode_frame E (to_vec r)" "sk_synced sk = length (sk_data sk)"
proof (cases "ow_poisoned w \<or> OWNERSHIP_MAX_RECORD_BYTES < length (to_vec r)")
  case True
  show ?thesis
  proof (cases "ow_poisoned w")
    case True
    then show ?thesis by (intro same [of "Fail ''ownership ledger is poisoned''"]) (simp add: ownership_append_def)
  next
    case False
    then show ?thesis using True
      by (intro same [of "Fail ''ownership record exceeds maximum size''"]) (simp add: ownership_append_def Let_def)
  qed
next
  case False
  then have u: "\<not> ow_poisoned w" "length (to_vec r) \<le> OWNERSHIP_MAX_RECORD_BYTES" "\<not> u32_max < length (to_vec r)"
    by (auto simp: OWNERSHIP_MAX_RECORD_BYTES_def u32_max_def)
  obtain ok sk where wf: "write_frame E (to_vec r) (ow_sink w) = (ok, sk)" by (cases "write_frame E (to_vec r) (ow_sink w)")
  show ?thesis
  proof (cases ok)
    case True
    have wt: "write_frame E (to_vec r) (ow_sink w) = (True, sk)" using wf True by simp
    note d = write_frame_True [OF wt]
    have "ow_sink (snd (ownership_append E to_vec r w)) = sk"
      using u wt by (auto simp: ownership_append_def Let_def split: sum.split option.split)
    then have fit: "ow_end_offset w + length (encode_frame E (to_vec r)) \<le> u64_max"
      using assms(3,4) u(1) d by simp
    have eq: "ownership_append E to_vec r w = (Ok \<lparr>ol_schema = ''OwnershipLedgerAckV1'', ol_action = or_action r,
          ol_durable_record_count = ow_record_count w + 1,
          ol_durable_through_offset = ow_end_offset w + length (encode_frame E (to_vec r)),
          ol_last_record_sha256 = sha256_hex E (to_vec r)\<rparr>,
        w\<lparr>ow_sink := sk, ow_record_count := ow_record_count w + 1,
          ow_end_offset := ow_end_offset w + length (encode_frame E (to_vec r)),
          ow_previous_digest := sha256_hex E (to_vec r)\<rparr>)"
      using u wt fit assms(2) by (simp add: ownership_append_def Let_def checked_add_def add_u64_def)
    show ?thesis using d by (intro acked [OF u(1,2) eq]) simp_all
  next
    case False
    obtain k where "sk_data sk = sk_data (ow_sink w) @ take k (encode_frame E (to_vec r))"
      "sk_synced sk = sk_synced (ow_sink w)" using write_frame_False [of E "to_vec r" "ow_sink w" sk] wf False by auto
    then show ?thesis using u wf False by (intro torn [of _ sk k]) (simp_all add: ownership_append_def Let_def)
  qed
qed

definition ledger_bounded :: "ownership_ledger_writer \<Rightarrow> bool" where
  "ledger_bounded w \<longleftrightarrow> length (sk_data (ow_sink w)) \<le> u64_max"

lemma ledger_inv_counts:
  assumes "sha256_len32 E" "ledger_inv E from_slice w bodies st" "ledger_bounded w"
  shows "ow_record_count w + 1 \<le> u64_max" "\<not> ow_poisoned w \<longrightarrow> ow_end_offset w = length (sk_data (ow_sink w))"
proof -
  have "ox_records st = length bodies"
    using assms(2) ownership_log.run_linked [of "frames_of E from_slice bodies" ownership_scan_start st]
    by (auto simp: ledger_inv_def ledger_bodies_def ownership_scan_start_def frames_of_def)
  then have "ow_record_count w = length bodies" using assms(2) by (simp add: ledger_inv_def ledger_view_def)
  moreover have "length OWNERSHIP_MAGIC + length (frame_bytes E bodies) \<le> length (sk_data (ow_sink w))"
    using assms(2) by (auto simp: ledger_inv_def)
  ultimately show "ow_record_count w + 1 \<le> u64_max"
    using count_le_bytes [OF assms(1), of bodies] assms(3) by (simp add: ledger_bounded_def OWNERSHIP_MAGIC_def)
  show "\<not> ow_poisoned w \<longrightarrow> ow_end_offset w = length (sk_data (ow_sink w))" using assms(2) by (auto simp: ledger_inv_def)
qed

lemma ledger_append:
  assumes "sha256_len32 E" "record_round_trip to_vec from_slice" "ledger_inv E from_slice w bodies st" "ledger_bounded w"
    "ownership_scan_step r (sha256_hex E (to_vec r)) st = (Ok (), st1)" "torn_owner w st1"
    "ledger_bounded (snd (ownership_append E to_vec r w))"
  obtains (refused) e w1 where "ownership_append E to_vec r w = (Err e, w1)" "ledger_inv E from_slice w1 bodies st"
      "ow_active_owner w1 = ow_active_owner w" "ow_pending w1 = ow_pending w"
  | (acked) ack sk where "ownership_append E to_vec r w = (Ok ack, w\<lparr>ow_sink := sk, ow_record_count := ow_record_count w + 1,
         ow_end_offset := ow_end_offset w + length (encode_frame E (to_vec r)),
         ow_previous_digest := sha256_hex E (to_vec r)\<rparr>)"
      "ol_last_record_sha256 ack = sha256_hex E (to_vec r)" "ledger_bodies E from_slice (bodies @ [to_vec r]) st1"
      "\<not> ow_poisoned w" "sk_data sk = OWNERSHIP_MAGIC @ frame_bytes E (bodies @ [to_vec r])"
      "sk_synced sk = length (sk_data sk)"
      "ow_end_offset w + length (encode_frame E (to_vec r)) = length (OWNERSHIP_MAGIC @ frame_bytes E (bodies @ [to_vec r]))"
proof -
  note inv = assms(3) [unfolded ledger_inv_def]
  have fits: "ledger_bodies E from_slice (bodies @ [to_vec r]) st1" if "length (to_vec r) \<le> OWNERSHIP_MAX_RECORD_BYTES"
    using inv that by (intro ledger_bodies_snoc [OF _ _ assms(2) _ assms(5)]) (auto simp: ledger_bodies_def)
  have data: "sk_data (ow_sink w) = OWNERSHIP_MAGIC @ frame_bytes E bodies" if "\<not> ow_poisoned w" using inv that by blast
  show ?thesis
  proof (cases rule: ownership_append_cases [OF assms(1) ledger_inv_counts [OF assms(1,3,4)] assms(7) [unfolded ledger_bounded_def],
        case_names same torn acked])
    case (same e)
    then show ?thesis using assms(3) by (intro refused) auto
  next
    case (torn e sk k)
    have tail: "ledger_bodies E from_slice (bodies @ [to_vec r]) st1 \<and> torn_owner (w\<lparr>ow_sink := sk, ow_poisoned := True\<rparr>) st1
        \<and> sk_data sk = OWNERSHIP_MAGIC @ frame_bytes E bodies @ take k (encode_frame E (to_vec r))"
      using fits [OF torn(2)] assms(6) torn(4) data [OF torn(1)] by (simp add: torn_owner_def)
    have "ledger_inv E from_slice (w\<lparr>ow_sink := sk, ow_poisoned := True\<rparr>) bodies st"
      unfolding ledger_inv_def using inv torn(5) exI [of _ "to_vec r"] tail by (auto simp: ledger_view_def)
    then show ?thesis by (intro refused [OF torn(3)]) simp_all
  next
    case (acked ack sk)
    show ?thesis
      by (rule that(2) [OF acked(3,4) fits [OF acked(2)] acked(1) _ acked(6)])
        (use acked(5) data [OF acked(1)] inv in simp_all)
  qed
qed

lemma prepare_step:
  assumes "ledger_view w st" "ow_pending w = None" "validate_activation_predecessor (ow_active_owner w) a = Ok ()"
  shows "ownership_scan_step (prepared_record (ow_record_count w) (ow_previous_digest w) a) d st
    = (Ok (), st\<lparr>ox_pending := Some (a, d), ox_records := ow_record_count w + 1, ox_previous := d\<rparr>)"
  using assms by (simp add: ownership_scan_step_def ownership_check_def prepared_record_def ledger_view_def)

lemma activate_step:
  assumes "ledger_view w st" "ow_pending w = Some (a, pd)"
  shows "ownership_scan_step (activated_record (ow_record_count w) (ow_previous_digest w) pd) d st
    = (Ok (), st\<lparr>ox_pending := None, ox_active_owner := Some (successor_snapshot a), ox_last_activation := Some a,
         ox_records := ow_record_count w + 1, ox_previous := d\<rparr>)"
  using assms by (simp add: ownership_scan_step_def ownership_check_def activated_record_def ledger_view_def Let_def)

section \<open>Sessions\<close>

datatype ownership_op = PrepareOwner ownership_activation | ActivateOwner string

fun ownership_step ::
  "'v externals \<Rightarrow> (ownership_record \<Rightarrow> bytes) \<Rightarrow> ownership_op \<Rightarrow> ownership_ledger_writer
     \<Rightarrow> ownership_ledger_ack res \<times> ownership_ledger_writer" where
  "ownership_step E to_vec (PrepareOwner a) w = ownership_prepare E to_vec a w"
| "ownership_step E to_vec (ActivateOwner i) w = ownership_activate E to_vec i w"

fun ownership_run ::
  "'v externals \<Rightarrow> (ownership_record \<Rightarrow> bytes) \<Rightarrow> ownership_op list \<Rightarrow> ownership_ledger_writer
     \<Rightarrow> (ownership_op \<times> ownership_ledger_ack res) list \<times> ownership_ledger_writer" where
  "ownership_run E to_vec [] w = ([], w)"
| "ownership_run E to_vec (op # ops) w =
     (let (r, w1) = ownership_step E to_vec op w; (log, w2) = ownership_run E to_vec ops w1 in ((op, r) # log, w2))"

definition is_activation :: "ownership_op \<times> ownership_ledger_ack res \<Rightarrow> bool" where
  "is_activation x = (case x of (ActivateOwner i, Inr ack) \<Rightarrow> True | _ \<Rightarrow> False)"

lemma prepare_inv:
  assumes "sha256_len32 E" "record_round_trip to_vec from_slice" "ledger_inv E from_slice w bodies st" "ledger_bounded w"
    "ownership_prepare E to_vec a w = (res, w')" "ledger_bounded w'"
  shows "\<exists>bodies st. ledger_inv E from_slice w' bodies st" "ow_active_owner w' = ow_active_owner w"
proof -
  let ?r = "prepared_record (ow_record_count w) (ow_previous_digest w) a"
  have "(\<exists>bodies st. ledger_inv E from_slice w' bodies st) \<and> ow_active_owner w' = ow_active_owner w"
  proof (cases "ow_pending w = None \<and> validate_activation_predecessor (ow_active_owner w) a = Ok ()")
    case False
    then have "w' = w" using assms(5)
      by (cases "validate_activation_predecessor (ow_active_owner w) a") (auto simp: ownership_prepare_def split: if_splits)
    then show ?thesis using assms(3) by blast
  next
    case True
    have view: "ledger_view w st" using assms(3) by (simp add: ledger_inv_def)
    note step = prepare_step [OF view True [THEN conjunct1] True [THEN conjunct2], of "sha256_hex E (to_vec ?r)"]
    have eq: "ownership_prepare E to_vec a w = (case ownership_append E to_vec ?r w of
         (Inl e, w1) \<Rightarrow> (Err e, w1)
       | (Inr ack, w1) \<Rightarrow> (Ok ack, w1\<lparr>ow_pending := Some (a, ol_last_record_sha256 ack)\<rparr>))"
      using True by (simp add: ownership_prepare_def)
    have b: "ledger_bounded (snd (ownership_append E to_vec ?r w))"
      using assms(5,6) unfolding eq by (auto simp: ledger_bounded_def split: prod.splits sum.splits)
    have t: "torn_owner w (st\<lparr>ox_pending := Some (a, sha256_hex E (to_vec ?r)), ox_records := ow_record_count w + 1,
        ox_previous := sha256_hex E (to_vec ?r)\<rparr>)"
      using view by (simp add: torn_owner_def ledger_view_def)
    show ?thesis
    proof (cases rule: ledger_append [OF assms(1-4) step t b, case_names refused acked])
      case (refused e w1)
      then show ?thesis using assms(5) unfolding eq by auto
    next
      case (acked ack sk)
      have w': "w' = w\<lparr>ow_sink := sk, ow_record_count := ow_record_count w + 1,
          ow_end_offset := ow_end_offset w + length (encode_frame E (to_vec ?r)),
          ow_previous_digest := sha256_hex E (to_vec ?r), ow_pending := Some (a, sha256_hex E (to_vec ?r))\<rparr>"
        using assms(5) acked(1,2) unfolding eq by simp
      have "ledger_inv E from_slice w' (bodies @ [to_vec ?r]) (st\<lparr>ox_pending := Some (a, sha256_hex E (to_vec ?r)),
          ox_records := ow_record_count w + 1, ox_previous := sha256_hex E (to_vec ?r)\<rparr>)"
        unfolding ledger_inv_def w' using acked(3,5-7) view by (simp add: ledger_view_def)
      then show ?thesis unfolding w' by auto
    qed
  qed
  then show "\<exists>bodies st. ledger_inv E from_slice w' bodies st" "ow_active_owner w' = ow_active_owner w" by blast+
qed

text \<open>What a refused operation leaves: the writer as it was, or a poisoned one.\<close>

lemma append_refused:
  assumes "sha256_len32 E" "ledger_inv E from_slice w bodies st" "ledger_bounded w"
    "ownership_append E to_vec r w = (Err e, w')" "ledger_bounded w'"
  shows "w' = w \<or> ow_poisoned w' \<and> ow_pending w' = ow_pending w"
proof -
  have "length (sk_data (ow_sink (snd (ownership_append E to_vec r w)))) \<le> u64_max" using assms(4,5) by (simp add: ledger_bounded_def)
  note cs = ownership_append_cases [OF assms(1) ledger_inv_counts [OF assms(1-3)] this, case_names same torn acked]
  show ?thesis using assms(4) by (cases rule: cs) auto
qed

lemma prepare_refused:
  assumes "sha256_len32 E" "ledger_inv E from_slice w bodies st" "ledger_bounded w"
    "ownership_prepare E to_vec a w = (Err e, w')" "ledger_bounded w'"
  shows "w' = w \<or> ow_poisoned w'"
  using assms(4) append_refused [OF assms(1-3) _ assms(5)]
  by (auto simp: ownership_prepare_def split: if_splits sum.splits prod.splits)

lemma activate_refused:
  assumes "sha256_len32 E" "ledger_inv E from_slice w bodies st" "ledger_bounded w"
    "ownership_activate E to_vec i w = (Err e, w')" "ledger_bounded w'"
  shows "w' = w \<or> ow_poisoned w'"
  using assms(4) append_refused [OF assms(1-3) _ assms(5)]
  by (auto simp: ownership_activate_def split: if_splits option.splits sum.splits prod.splits)

lemma prepare_pending: "ownership_prepare E to_vec a w = (Ok ack, w') \<Longrightarrow> map_option fst (ow_pending w') = Some a"
  by (auto simp: ownership_prepare_def split: if_splits sum.splits prod.splits)

text \<open>A writer that is poisoned or has an activation pending prepares no other.\<close>

lemma closed_ledger: "ow_poisoned w \<or> ow_pending w \<noteq> None \<Longrightarrow> \<exists>e. ownership_prepare E to_vec a w = (Err e, w)"
  by (cases "validate_activation_predecessor (ow_active_owner w) a") (auto simp: ownership_prepare_def ownership_append_def)

lemma activate_inv:
  assumes "sha256_len32 E" "record_round_trip to_vec from_slice" "ledger_inv E from_slice w bodies st" "ledger_bounded w"
    "ownership_activate E to_vec i w = (res, w')" "ledger_bounded w'"
  shows "\<exists>bodies st. ledger_inv E from_slice w' bodies st
      \<and> (\<forall>ack. res = Inr ack \<longrightarrow> ox_last_activation st = map_option fst (ow_pending w))"
    "case res of Inl e \<Rightarrow> ow_active_owner w' = ow_active_owner w
       | Inr ack \<Rightarrow> \<exists>a d. ow_pending w = Some (a, d) \<and> oa_activation_id a = i \<and> ow_active_owner w' = successor_snapshot a
           \<and> ow_pending w' = None \<and> \<not> ow_poisoned w'"
proof -
  have "(\<exists>bodies st. ledger_inv E from_slice w' bodies st
      \<and> (\<forall>ack. res = Inr ack \<longrightarrow> ox_last_activation st = map_option fst (ow_pending w))) \<and>
    (case res of Inl e \<Rightarrow> ow_active_owner w' = ow_active_owner w
       | Inr ack \<Rightarrow> \<exists>a d. ow_pending w = Some (a, d) \<and> oa_activation_id a = i \<and> ow_active_owner w' = successor_snapshot a
           \<and> ow_pending w' = None \<and> \<not> ow_poisoned w')"
  proof (cases "\<exists>a pd. ow_pending w = Some (a, pd) \<and> oa_activation_id a = i")
    case False
    then have "w' = w \<and> (\<exists>e. res = Inl e)" using assms(5) by (cases "ow_pending w") (auto simp: ownership_activate_def split: if_splits)
    then show ?thesis using assms(3) by auto
  next
    case True
    then obtain a pd where p: "ow_pending w = Some (a, pd)" "oa_activation_id a = i" by blast
    let ?r = "activated_record (ow_record_count w) (ow_previous_digest w) pd"
    let ?st = "st\<lparr>ox_pending := None, ox_active_owner := Some (successor_snapshot a), ox_last_activation := Some a,
         ox_records := ow_record_count w + 1, ox_previous := sha256_hex E (to_vec ?r)\<rparr>"
    have view: "ledger_view w st" using assms(3) by (simp add: ledger_inv_def)
    note step = activate_step [OF view p(1), of "sha256_hex E (to_vec ?r)"]
    have eq: "ownership_activate E to_vec i w = (case ownership_append E to_vec ?r w of
         (Inl e, w1) \<Rightarrow> (Err e, w1)
       | (Inr ack, w1) \<Rightarrow> (Ok ack, w1\<lparr>ow_pending := None, ow_active_owner := successor_snapshot a\<rparr>))"
      using p by (simp add: ownership_activate_def)
    have b: "ledger_bounded (snd (ownership_append E to_vec ?r w))"
      using assms(5,6) unfolding eq by (auto simp: ledger_bounded_def split: prod.splits sum.splits)
    have t: "torn_owner w ?st" using p by (simp add: torn_owner_def)
    show ?thesis
    proof (cases rule: ledger_append [OF assms(1-4) step t b, case_names refused acked])
      case (refused e w1)
      then show ?thesis using assms(5) unfolding eq by auto
    next
      case (acked ack sk)
      have w': "w' = w\<lparr>ow_sink := sk, ow_record_count := ow_record_count w + 1,
          ow_end_offset := ow_end_offset w + length (encode_frame E (to_vec ?r)),
          ow_previous_digest := sha256_hex E (to_vec ?r), ow_pending := None, ow_active_owner := successor_snapshot a\<rparr>"
        and r: "res = Inr ack"
        using assms(5) acked(1,2) unfolding eq by simp_all
      have "ledger_inv E from_slice w' (bodies @ [to_vec ?r]) ?st"
        unfolding ledger_inv_def w' using acked(3,5-7) view by (simp add: ledger_view_def)
      then have "\<exists>bodies st. ledger_inv E from_slice w' bodies st
          \<and> (\<forall>ack. res = Inr ack \<longrightarrow> ox_last_activation st = map_option fst (ow_pending w))"
        using p(1) by (intro exI [of _ "bodies @ [to_vec ?r]"] exI [of _ ?st]) simp
      then show ?thesis unfolding r using p acked(4) by (simp add: w')
    qed
  qed
  then show "\<exists>bodies st. ledger_inv E from_slice w' bodies st
      \<and> (\<forall>ack. res = Inr ack \<longrightarrow> ox_last_activation st = map_option fst (ow_pending w))"
    "case res of Inl e \<Rightarrow> ow_active_owner w' = ow_active_owner w
       | Inr ack \<Rightarrow> \<exists>a d. ow_pending w = Some (a, d) \<and> oa_activation_id a = i \<and> ow_active_owner w' = successor_snapshot a
           \<and> ow_pending w' = None \<and> \<not> ow_poisoned w'" by blast+
qed

lemma write_frame_grows: "length (sk_data sk) \<le> length (sk_data (snd (write_frame E body sk)))"
  by (auto simp: write_frame_def sink_write_all_def sink_sync_def split: prod.split list.split io_outcome.split bool.split)

lemma ownership_append_grows:
  "length (sk_data (ow_sink w)) \<le> length (sk_data (ow_sink (snd (ownership_append E to_vec r w))))"
  using write_frame_grows [of "ow_sink w" E "to_vec r"]
  by (auto simp: ownership_append_def Let_def split: prod.split bool.split sum.split option.split)

lemma ownership_step_grows:
  assumes "ledger_bounded (snd (ownership_step E to_vec op w))"
  shows "ledger_bounded w"
proof (cases op)
  case (PrepareOwner a)
  then show ?thesis using assms ownership_append_grows [of w E to_vec "prepared_record (ow_record_count w) (ow_previous_digest w) a"]
    by (auto simp: ledger_bounded_def ownership_prepare_def split: prod.splits sum.splits if_splits)
next
  case (ActivateOwner i)
  then show ?thesis
    using assms ownership_append_grows [of w E to_vec
        "activated_record (ow_record_count w) (ow_previous_digest w) (snd (the (ow_pending w)))"]
    by (cases "ow_pending w")
      (auto simp: ledger_bounded_def ownership_activate_def split: prod.splits sum.splits if_splits)
qed

lemma ownership_run_grows: "ownership_run E to_vec ops w = (log, w') \<Longrightarrow> ledger_bounded w' \<Longrightarrow> ledger_bounded w"
proof (induction ops arbitrary: w log)
  case (Cons op ops)
  obtain r w1 where s: "ownership_step E to_vec op w = (r, w1)" by (cases "ownership_step E to_vec op w")
  have "ledger_bounded w1" using Cons s by (auto split: prod.splits)
  then show ?case using ownership_step_grows [of E to_vec op w] s by simp
qed simp

lemma ledger_inv_pending:
  assumes "ledger_inv E from_slice w bodies st" "ow_pending w = Some (a, d)"
  shows "continues_owner (ow_active_owner w) a"
proof -
  have "ledger_state_ok (frames_of E from_slice bodies) st"
    using assms(1) by (intro accepted_ledger_ok) (auto simp: ledger_inv_def ledger_bodies_def frames_of_def)
  moreover have "ox_pending st = Some (a, d)" "ox_active_owner st = Some (ow_active_owner w)"
    using assms by (simp_all add: ledger_inv_def ledger_view_def)
  ultimately show ?thesis by (auto simp: ledger_state_ok_def)
qed

lemma ownership_run_inv:
  assumes "sha256_len32 E" "record_round_trip to_vec from_slice" "ledger_inv E from_slice w bodies st"
    "ownership_run E to_vec ops w = (log, w')" "ledger_bounded w'"
  shows "\<exists>bodies st. ledger_inv E from_slice w' bodies st"
    "sp_fencing_token (ow_active_owner w') = sp_fencing_token (ow_active_owner w) + length (filter is_activation log)"
proof -
  have "(\<exists>bodies st. ledger_inv E from_slice w' bodies st)
    \<and> sp_fencing_token (ow_active_owner w') = sp_fencing_token (ow_active_owner w) + length (filter is_activation log)"
    using assms(3-5)
  proof (induction ops arbitrary: w log bodies st)
    case (Cons op ops)
    obtain r w1 where s: "ownership_step E to_vec op w = (r, w1)" by (cases "ownership_step E to_vec op w")
    obtain log1 where t: "ownership_run E to_vec ops w1 = (log1, w')" "log = (op, r) # log1"
      using Cons.prems(2) s by (auto split: prod.splits)
    have b1: "ledger_bounded w1" by (rule ownership_run_grows [OF t(1) Cons.prems(3)])
    have b: "ledger_bounded w" using ownership_step_grows [of E to_vec op w] s b1 by simp
    have here: "(\<exists>bodies st. ledger_inv E from_slice w1 bodies st) \<and>
      sp_fencing_token (ow_active_owner w1) = sp_fencing_token (ow_active_owner w) + (if is_activation (op, r) then 1 else 0)"
    proof (cases op)
      case (PrepareOwner a)
      then show ?thesis using prepare_inv [OF assms(1,2) Cons.prems(1) b _ b1] s by (simp add: is_activation_def)
    next
      case (ActivateOwner i)
      have e: "ownership_activate E to_vec i w = (r, w1)" using s ActivateOwner by simp
      note a = activate_inv [OF assms(1,2) Cons.prems(1) b e b1]
      show ?thesis
      proof (cases r)
        case (Inl x)
        then show ?thesis using a ActivateOwner by (simp add: is_activation_def)
      next
        case (Inr ack)
        then obtain x d where x: "ow_pending w = Some (x, d)" "ow_active_owner w1 = successor_snapshot x" using a(2) by auto
        have "sp_fencing_token (successor_snapshot x) = sp_fencing_token (ow_active_owner w) + 1"
          using ledger_inv_pending [OF Cons.prems(1) x(1)] by (simp add: continues_owner_def successor_snapshot_def)
        then show ?thesis using a(1) x(2) ActivateOwner Inr by (auto simp: is_activation_def)
      qed
    qed
    obtain bodies1 st1 where i1: "ledger_inv E from_slice w1 bodies1 st1" using here by blast
    show ?case using Cons.IH [OF i1 t(1) Cons.prems(3)] here t(2) by simp
  qed auto
  then show "\<exists>bodies st. ledger_inv E from_slice w' bodies st"
    "sp_fencing_token (ow_active_owner w') = sp_fencing_token (ow_active_owner w) + length (filter is_activation log)" by blast+
qed

lemma ledger_start:
  assumes "sha256_len32 E" "record_round_trip to_vec from_slice" "ownership_from_sink E to_vec sk initial = Ok w"
    "sk_data sk = []" "ledger_bounded w"
  shows "\<exists>bodies st. ledger_inv E from_slice w bodies st" "ow_active_owner w = initial" "ow_pending w = None"
    "\<not> ow_poisoned w"
proof -
  let ?r = "initialized_record initial"
  obtain sk1 sk2 ack where f: "sink_write_all OWNERSHIP_MAGIC sk = (True, sk1)" "sink_sync sk1 = (True, sk2)"
    "validate_snapshot initial = Ok ()"
    "ownership_append E to_vec ?r \<lparr>ow_sink = sk2, ow_end_offset = length OWNERSHIP_MAGIC, ow_previous_digest = ZERO_DIGEST,
       ow_record_count = 0, ow_active_owner = initial, ow_pending = None, ow_poisoned = False\<rparr> = (Ok ack, w)"
    using assms(3) unfolding ownership_from_sink_def by (auto split: prod.splits bool.splits sum.splits)
  have s: "sk_data sk2 = OWNERSHIP_MAGIC" "sk_synced sk2 = length OWNERSHIP_MAGIC" "validate_snapshot initial = Ok ()"
    "ownership_append E to_vec ?r \<lparr>ow_sink = sk2, ow_end_offset = length OWNERSHIP_MAGIC, ow_previous_digest = ZERO_DIGEST,
       ow_record_count = 0, ow_active_owner = initial, ow_pending = None, ow_poisoned = False\<rparr> = (Ok ack, w)"
    using write_magic [OF f(1,2) assms(4)] f(3,4) by simp_all
  define w0 where "w0 = \<lparr>ow_sink = sk2, ow_end_offset = length OWNERSHIP_MAGIC, ow_previous_digest = ZERO_DIGEST,
       ow_record_count = 0, ow_active_owner = initial, ow_pending = None, ow_poisoned = False\<rparr>"
  let ?st = "ownership_scan_start\<lparr>ox_active_owner := Some initial, ox_records := 1, ox_previous := sha256_hex E (to_vec ?r)\<rparr>"
  have step: "ownership_scan_step ?r (sha256_hex E (to_vec ?r)) ownership_scan_start = (Ok (), ?st)"
    using s(3) by (simp add: ownership_scan_step_def ownership_check_def initialized_record_def ownership_scan_start_def)
  have c: "ow_record_count w0 + 1 \<le> u64_max" by (simp add: w0_def u64_max_def)
  have o: "\<not> ow_poisoned w0 \<longrightarrow> ow_end_offset w0 = length (sk_data (ow_sink w0))" using s(1) by (simp add: w0_def)
  have b: "length (sk_data (ow_sink (snd (ownership_append E to_vec ?r w0)))) \<le> u64_max"
    using assms(5) s(4) by (simp add: w0_def ledger_bounded_def)
  have "(\<exists>bodies st. ledger_inv E from_slice w bodies st) \<and> ow_active_owner w = initial \<and> ow_pending w = None \<and> \<not> ow_poisoned w"
  proof (cases rule: ownership_append_cases [OF assms(1) c o b, case_names same torn acked])
    case (acked ack' sk3)
    have w: "w = w0\<lparr>ow_sink := sk3, ow_record_count := ow_record_count w0 + 1,
         ow_end_offset := ow_end_offset w0 + length (encode_frame E (to_vec ?r)),
         ow_previous_digest := sha256_hex E (to_vec ?r)\<rparr>"
      using acked(3) s(4) by (simp add: w0_def)
    have "ledger_bodies E from_slice ([] @ [to_vec ?r]) ?st"
      by (rule ledger_bodies_snoc [OF _ _ assms(2) acked(2) step]) (simp_all add: frames_fit_def frames_of_def)
    then have "ledger_inv E from_slice w [to_vec ?r] ?st"
      using acked(5,6) s(1) by (simp add: ledger_inv_def w w0_def ledger_view_def ownership_scan_start_def)
    then show ?thesis unfolding w by (auto simp: w0_def)
  qed (use s(4) in \<open>simp_all add: w0_def\<close>)
  then show "\<exists>bodies st. ledger_inv E from_slice w bodies st" "ow_active_owner w = initial" "ow_pending w = None"
    "\<not> ow_poisoned w" by blast+
qed

end
