(* ===== verification/Ownership_Safety.thy ===== *)
theory Ownership_Safety
  imports Ownership_Ledger
begin

text \<open>
  The properties of \<open>ownership.rs\<close>: what a ledger that scans cleanly says, what a crash can leave of
  one that was written, and what the published source pointer lets through.
\<close>

section \<open>The scan of a ledger\<close>

lemma scan_ownership_frames:
  assumes "frame_scan E ''ownership'' OWNERSHIP_MAX_RECORD_BYTES from_slice ownership_scan_step bs
    (length OWNERSHIP_MAGIC) ownership_scan_start = (st, off, reason)"
    and "scan = scan_ownership_ledger E from_slice (OWNERSHIP_MAGIC @ bs)"
  shows "os_active_owner scan = ox_active_owner st" "os_pending_activation scan = map_option fst (ox_pending st)"
    "os_last_activation scan = ox_last_activation st" "os_records scan = ox_records st"
    "os_clean_eof scan \<longleftrightarrow> reason = None"
  using assms by (simp_all add: scan_ownership_ledger_def OWNERSHIP_MAGIC_def)

lemma scan_ownership_clean:
  assumes "os_clean_eof (scan_ownership_ledger E from_slice bs)"
  shows "\<exists>rest st off. bs = OWNERSHIP_MAGIC @ rest
    \<and> frame_scan E ''ownership'' OWNERSHIP_MAX_RECORD_BYTES from_slice ownership_scan_step rest
        (length OWNERSHIP_MAGIC) ownership_scan_start = (st, off, None)"
proof -
  have m: "take 8 bs = OWNERSHIP_MAGIC" using assms by (auto simp: scan_ownership_ledger_def split: if_splits)
  obtain st off reason where f: "frame_scan E ''ownership'' OWNERSHIP_MAX_RECORD_BYTES from_slice ownership_scan_step (drop 8 bs)
      (length OWNERSHIP_MAGIC) ownership_scan_start = (st, off, reason)" by (rule prod_cases3)
  have "reason = None" using assms m f by (simp add: scan_ownership_ledger_def)
  moreover have "bs = OWNERSHIP_MAGIC @ drop 8 bs" using m by (metis append_take_drop_id)
  ultimately show ?thesis using f by blast
qed

text \<open>
  C30. A ledger that scans cleanly is a chain of whole records that starts with an initial owner: every
  record names the digest of the one before it, the owner it ends with has the initial fencing token plus
  one for every activation record, and it is the initial owner or the successor of the last activation.
\<close>

theorem accepted_ledger_fences:
  assumes "scan = scan_ownership_ledger E from_slice bs" "os_clean_eof scan" "0 < os_records scan"
  shows "\<exists>bodies rs first owner. bs = OWNERSHIP_MAGIC @ frame_bytes E bodies \<and> rs = frames_of E from_slice bodies
     \<and> length rs = os_records scan \<and> (\<forall>i. Suc i < length rs \<longrightarrow> or_previous_record_sha256 (fst (rs ! Suc i)) = snd (rs ! i))
     \<and> or_initial_owner (fst (hd rs)) = Some first \<and> validate_snapshot first = Ok ()
     \<and> os_active_owner scan = Some owner \<and> sp_symbol owner = sp_symbol first
     \<and> sp_fencing_token owner = sp_fencing_token first + activations rs
     \<and> (case os_last_activation scan of None \<Rightarrow> activations rs = 0 \<and> owner = first
         | Some a \<Rightarrow> owner = successor_snapshot a \<and> validate_activation a = Ok ())"
proof -
  obtain rest st off where f: "bs = OWNERSHIP_MAGIC @ rest"
    "frame_scan E ''ownership'' OWNERSHIP_MAX_RECORD_BYTES from_slice ownership_scan_step rest
        (length OWNERSHIP_MAGIC) ownership_scan_start = (st, off, None)"
    using scan_ownership_clean assms(1,2) by blast
  obtain bodies where b: "rest = frame_bytes E bodies"
    "run_steps ownership_scan_step (frames_of E from_slice bodies) ownership_scan_start = Some st"
    using frame_scan_accepts [OF f(2)] by (elim exE conjE) (rule that)
  note s = scan_ownership_frames [OF f(2) assms(1) [unfolded f(1)]]
  note l = ownership_log.run_linked [OF b(2)]
  have n: "length (frames_of E from_slice bodies) = os_records scan" using l s(4) by (simp add: ownership_scan_start_def)
  have "frames_of E from_slice bodies \<noteq> []" using n assms(3) by auto
  note ok = accepted_ledger_ok [OF b(2) this, unfolded ledger_state_ok_def]
  then obtain first owner where o: "or_initial_owner (fst (hd (frames_of E from_slice bodies))) = Some first"
    "validate_snapshot first = Ok ()" "ox_active_owner st = Some owner"
    "sp_fencing_token owner = sp_fencing_token first + activations (frames_of E from_slice bodies)"
    "sp_symbol owner = sp_symbol first"
    "ox_last_activation st = None \<longrightarrow> activations (frames_of E from_slice bodies) = 0 \<and> owner = first"
    "\<forall>a. ox_last_activation st = Some a \<longrightarrow> owner = successor_snapshot a \<and> validate_activation a = Ok ()"
    by (elim exE conjE) (rule that)
  have c: "case os_last_activation scan of None \<Rightarrow> activations (frames_of E from_slice bodies) = 0 \<and> owner = first
      | Some a \<Rightarrow> owner = successor_snapshot a \<and> validate_activation a = Ok ()"
    using o(6,7) s(3) by (cases "ox_last_activation st") simp_all
  show ?thesis
    using f(1) b(1) n o(1-5) c s(1) ownership_log.linked_nth [OF l [THEN conjunct1]]
    by (intro exI [of _ bodies] exI [of _ "frames_of E from_slice bodies"] exI [of _ first] exI [of _ owner] conjI)
      simp_all
qed

section \<open>Crashes\<close>

lemma ledger_crash_scan:
  assumes "sha256_len32 E" "ledger_inv E from_slice w bodies st" "sk_synced (ow_sink w) \<le> n"
    "scan = scan_ownership_ledger E from_slice (take n (sk_data (ow_sink w)))"
  shows "\<not> ow_poisoned w \<longrightarrow> os_clean_eof scan \<and> os_active_owner scan = Some (ow_active_owner w)
       \<and> os_pending_activation scan = map_option fst (ow_pending w) \<and> os_records scan = ow_record_count w
       \<and> os_last_activation scan = ox_last_activation st"
    and "os_active_owner scan = Some (ow_active_owner w)
       \<or> ow_poisoned w \<and> (\<exists>a d. ow_pending w = Some (a, d) \<and> os_active_owner scan = Some (successor_snapshot a))"
proof -
  note inv = assms(2) [unfolded ledger_inv_def]
  have run: "frames_fit OWNERSHIP_MAX_RECORD_BYTES from_slice bodies"
    "run_steps ownership_scan_step (frames_of E from_slice bodies) ownership_scan_start = Some st"
    and view: "ledger_view w st" using inv by (simp_all add: ledger_bodies_def)
  have l: "length (OWNERSHIP_MAGIC @ frame_bytes E bodies) \<le> n" using inv assms(3) by simp
  consider (whole) "sk_data (ow_sink w) = OWNERSHIP_MAGIC @ frame_bytes E bodies"
    | (tail) body st' k where "ow_poisoned w" "ledger_bodies E from_slice (bodies @ [body]) st'" "torn_owner w st'"
        "sk_data (ow_sink w) = OWNERSHIP_MAGIC @ frame_bytes E bodies @ take k (encode_frame E body)"
    using inv by blast
  then have "(\<not> ow_poisoned w \<longrightarrow> os_clean_eof scan \<and> os_active_owner scan = Some (ow_active_owner w)
       \<and> os_pending_activation scan = map_option fst (ow_pending w) \<and> os_records scan = ow_record_count w
       \<and> os_last_activation scan = ox_last_activation st)
    \<and> (os_active_owner scan = Some (ow_active_owner w)
       \<or> ow_poisoned w \<and> (\<exists>a d. ow_pending w = Some (a, d) \<and> os_active_owner scan = Some (successor_snapshot a)))"
  proof cases
    case whole
    have img: "take n (sk_data (ow_sink w)) = OWNERSHIP_MAGIC @ frame_bytes E bodies" using whole l by simp
    note s = scan_ownership_frames [OF scan_whole_journal [OF assms(1) run] assms(4) [unfolded img]]
    show ?thesis using s view by (simp add: ledger_view_def)
  next
    case tail
    obtain j where j: "take n (sk_data (ow_sink w)) = OWNERSHIP_MAGIC @ frame_bytes E bodies @ take j (encode_frame E body)"
      using take_journal [OF l, of k "encode_frame E body"] tail(4) by auto
    have run': "frames_fit OWNERSHIP_MAX_RECORD_BYTES from_slice (bodies @ [body])"
      "run_steps ownership_scan_step (frames_of E from_slice (bodies @ [body])) ownership_scan_start = Some st'"
      using tail(2) by (simp_all add: ledger_bodies_def)
    obtain off reason where sc: "frame_scan E ''ownership'' OWNERSHIP_MAX_RECORD_BYTES from_slice ownership_scan_step
        (frame_bytes E bodies @ take j (encode_frame E body)) (length OWNERSHIP_MAGIC) ownership_scan_start
      = (if j < length (encode_frame E body) then st else st', off, reason)"
      using scan_cut_journal [OF assms(1) run'(1) run(2) run'(2), where noun = "''ownership''" and j = j
          and off = "length OWNERSHIP_MAGIC"] by (elim exE conjE) (rule that)
    note s = scan_ownership_frames(1) [OF sc assms(4) [unfolded j]]
    show ?thesis using s tail(1,3) view by (auto simp: torn_owner_def ledger_view_def)
  qed
  then show "\<not> ow_poisoned w \<longrightarrow> os_clean_eof scan \<and> os_active_owner scan = Some (ow_active_owner w)
       \<and> os_pending_activation scan = map_option fst (ow_pending w) \<and> os_records scan = ow_record_count w
       \<and> os_last_activation scan = ox_last_activation st"
    and "os_active_owner scan = Some (ow_active_owner w)
       \<or> ow_poisoned w \<and> (\<exists>a d. ow_pending w = Some (a, d) \<and> os_active_owner scan = Some (successor_snapshot a))" by blast+
qed

text \<open>
  C4. The ownership ledger survives crashes: after any sequence of prepares and activations on any sink,
  the scan of what a crash leaves of the file finds the writer's owner, or, when the sync of an
  activation record failed, at most the prepared successor; the writer's owner has the initial token plus
  one per acknowledged activation; and a ledger whose writer saw no failure scans cleanly with the writer's
  record count and pending activation.
\<close>

theorem ownership_survives_crash:
  assumes "sha256_len32 E" "record_round_trip to_vec from_slice"
    and "ownership_from_sink E to_vec sk0 initial = Ok w0" "sk_data sk0 = []"
    and "ownership_run E to_vec ops w0 = (log, w)" "length (sk_data (ow_sink w)) \<le> u64_max"
    and "sk_synced (ow_sink w) \<le> n" "scan = scan_ownership_ledger E from_slice (take n (sk_data (ow_sink w)))"
  shows "(os_active_owner scan = Some (ow_active_owner w)
       \<or> ow_poisoned w \<and> (\<exists>a d. ow_pending w = Some (a, d) \<and> os_active_owner scan = Some (successor_snapshot a)))
    \<and> (sp_fencing_token (ow_active_owner w) = sp_fencing_token initial + length (filter is_activation log))
    \<and> (\<not> ow_poisoned w \<longrightarrow> os_clean_eof scan \<and> os_active_owner scan = Some (ow_active_owner w)
       \<and> os_pending_activation scan = map_option fst (ow_pending w) \<and> os_records scan = ow_record_count w)"
proof -
  have b: "ledger_bounded w" "ledger_bounded w0"
    using assms(6) ownership_run_grows [OF assms(5)] by (simp_all add: ledger_bounded_def)
  obtain bodies0 st0 where i0: "ledger_inv E from_slice w0 bodies0 st0" using ledger_start(1) [OF assms(1-4) b(2)] by blast
  note r = ownership_run_inv [OF assms(1,2) i0 assms(5) b(1)]
  obtain bodies st where i: "ledger_inv E from_slice w bodies st" using r(1) by blast
  note c = ledger_crash_scan [OF assms(1) i assms(7,8)]
  have r1: "os_active_owner scan = Some (ow_active_owner w)
       \<or> ow_poisoned w \<and> (\<exists>a d. ow_pending w = Some (a, d) \<and> os_active_owner scan = Some (successor_snapshot a))" by (rule c(2))
  have r2: "sp_fencing_token (ow_active_owner w) = sp_fencing_token initial + length (filter is_activation log)"
    using r(2) ledger_start(2) [OF assms(1-4) b(2)] by simp
  have r3: "\<not> ow_poisoned w \<longrightarrow> os_clean_eof scan \<and> os_active_owner scan = Some (ow_active_owner w)
       \<and> os_pending_activation scan = map_option fst (ow_pending w) \<and> os_records scan = ow_record_count w"
    using c(1) by blast
  show ?thesis by (rule conjI [OF r1 conjI [OF r2 r3]])
qed

text \<open>A ledger in use: created on an empty file and written by prepares and activations.\<close>

definition written_ledger :: "'v externals \<Rightarrow> (ownership_record \<Rightarrow> bytes) \<Rightarrow> ownership_ledger_writer \<Rightarrow> bool" where
  "written_ledger E to_vec w \<longleftrightarrow>
     (\<exists>sk initial w0 ops log. ownership_from_sink E to_vec sk initial = Ok w0 \<and> sk_data sk = []
        \<and> ownership_run E to_vec ops w0 = (log, w))"

lemma written_ledger_inv:
  assumes "sha256_len32 E" "record_round_trip to_vec from_slice" "written_ledger E to_vec w" "ledger_bounded w"
  shows "\<exists>bodies st. ledger_inv E from_slice w bodies st"
proof -
  obtain sk initial w0 ops log where w: "ownership_from_sink E to_vec sk initial = Ok w0" "sk_data sk = []"
    "ownership_run E to_vec ops w0 = (log, w)" using assms(3) by (auto simp: written_ledger_def)
  have "ledger_bounded w0" by (rule ownership_run_grows [OF w(3) assms(4)])
  then obtain bodies0 st0 where "ledger_inv E from_slice w0 bodies0 st0" using ledger_start(1) [OF assms(1,2) w(1,2)] by blast
  then show ?thesis by (rule ownership_run_inv(1) [OF assms(1,2) _ w(3) assms(4)])
qed

section \<open>The published pointer\<close>

datatype pointer_op = AcceptObservation boundary_stream_kind string nat nat nat | FailActive string string

fun pointer_step :: "pointer_op \<Rightarrow> canonical_source_pointer \<Rightarrow> unit res \<times> canonical_source_pointer" where
  "pointer_step (AcceptObservation kind epoch token first final) p = pointer_accept kind epoch token first final p"
| "pointer_step (FailActive epoch reason) p = pointer_fail_active epoch reason p"

fun pointer_run ::
  "pointer_op list \<Rightarrow> canonical_source_pointer \<Rightarrow> (pointer_op \<times> unit res) list \<times> canonical_source_pointer" where
  "pointer_run [] p = ([], p)"
| "pointer_run (op # ops) p = (let (r, p1) = pointer_step op p; (log, p2) = pointer_run ops p1 in ((op, r) # log, p2))"

text \<open>The ranges accepted on a stream, and that they continue one another from a sequence to another.\<close>

fun accepted_ranges :: "boundary_stream_kind \<Rightarrow> (pointer_op \<times> unit res) list \<Rightarrow> (nat \<times> nat) list" where
  "accepted_ranges k ((AcceptObservation kind epoch token first final, Inr u) # log) =
     (if kind = k then (first, final) # accepted_ranges k log else accepted_ranges k log)"
| "accepted_ranges k (x # log) = accepted_ranges k log"
| "accepted_ranges k [] = []"

definition same_owner :: "source_pointer_snapshot \<Rightarrow> source_pointer_snapshot \<Rightarrow> bool" where
  "same_owner o1 o2 \<longleftrightarrow> sp_depth_epoch o2 = sp_depth_epoch o1 \<and> sp_trade_epoch o2 = sp_trade_epoch o1
     \<and> sp_fencing_token o2 = sp_fencing_token o1 \<and> sp_generation_id o2 = sp_generation_id o1 \<and> sp_symbol o2 = sp_symbol o1"

lemma pointer_accept_Ok:
  assumes "pointer_accept kind epoch token first final p = (Inr u, p')"
  shows "ptr_state p = PointerLive" "epoch = owner_epoch kind (ptr_owner p)" "token = sp_fencing_token (ptr_owner p)"
    "first \<le> owner_last kind (ptr_owner p) + 1" "owner_last kind (ptr_owner p) + 1 \<le> final"
    "kind = Trade \<longrightarrow> first = owner_last kind (ptr_owner p) + 1 \<and> final = owner_last kind (ptr_owner p) + 1"
    "p' = p\<lparr>ptr_owner := set_owner_last kind final (ptr_owner p)\<rparr>"
  using assms
  by (auto simp: pointer_accept_def fence_reject_def split: if_splits option.splits boundary_stream_kind.splits sum.splits)

lemma pointer_step_owner:
  assumes "pointer_step op p = (r, p')"
  shows "same_owner (ptr_owner p) (ptr_owner p')" "ptr_state p' = PointerLive \<Longrightarrow> ptr_state p = PointerLive"
  using assms
  by (cases op; auto simp: pointer_accept_def pointer_fail_active_def fence_reject_def same_owner_def set_owner_last_def
      split: if_splits option.splits boundary_stream_kind.splits sum.splits)+

lemma set_owner_last_simps [simp]:
  "owner_last k (set_owner_last kind n s) = (if k = kind then n else owner_last k s)"
  by (cases k; cases kind) (simp_all add: owner_last_def set_owner_last_def)

lemma pointer_refused_keeps:
  assumes "pointer_step op p = (Inl e, p')"
  shows "ptr_owner p' = ptr_owner p"
  using assms by (cases op) (auto simp: pointer_accept_def pointer_fail_active_def fence_reject_def
      split: if_splits option.splits boundary_stream_kind.splits sum.splits)

lemma pointer_fail_keeps: "ptr_owner (snd (pointer_fail_active epoch reason p)) = ptr_owner p"
  by (simp add: pointer_fail_active_def fence_reject_def split: sum.split)

lemma pointer_step_ranges:
  assumes "pointer_step op p = (r, p')" "contiguous_ranges k (owner_last k (ptr_owner p')) rs l"
  shows "contiguous_ranges k (owner_last k (ptr_owner p)) (accepted_ranges k [(op, r)] @ rs) l"
proof (cases op)
  case (AcceptObservation kind epoch token first final)
  show ?thesis
  proof (cases r)
    case (Inl e)
    then have "ptr_owner p' = ptr_owner p" using pointer_refused_keeps [of op p e p'] assms(1) by simp
    then show ?thesis using assms(2) AcceptObservation Inl by simp
  next
    case (Inr u)
    then have "pointer_accept kind epoch token first final p = (Inr u, p')" using assms(1) AcceptObservation by simp
    note a = pointer_accept_Ok [OF this]
    show ?thesis using a(4-7) assms(2) AcceptObservation Inr by (cases "kind = k") auto
  qed
next
  case (FailActive epoch reason)
  then have "ptr_owner p' = ptr_owner p" using assms(1) pointer_fail_keeps [of epoch reason p] by simp
  then show ?thesis using assms(2) FailActive by simp
qed

lemma accepted_ranges_Cons: "accepted_ranges k (x # log) = accepted_ranges k [x] @ accepted_ranges k log"
  by (cases x; cases "fst x"; cases "snd x") auto

lemma pointer_run_fenced:
  assumes "pointer_run ops p = (log, p')"
  shows "same_owner (ptr_owner p) (ptr_owner p')
    \<and> (\<forall>kind epoch token first final u. (AcceptObservation kind epoch token first final, Inr u) \<in> set log \<longrightarrow>
      epoch = owner_epoch kind (ptr_owner p) \<and> token = sp_fencing_token (ptr_owner p) \<and> ptr_state p = PointerLive)
    \<and> (\<forall>kind. contiguous_ranges kind (owner_last kind (ptr_owner p)) (accepted_ranges kind log) (owner_last kind (ptr_owner p')))
    \<and> (ptr_state p' = PointerLive \<longrightarrow> ptr_state p = PointerLive)"
  using assms
proof (induction ops arbitrary: p log)
  case (Cons op ops)
  obtain r p1 where s: "pointer_step op p = (r, p1)" by (cases "pointer_step op p")
  obtain log1 where t: "pointer_run ops p1 = (log1, p')" "log = (op, r) # log1"
    using Cons.prems s by (auto split: prod.splits)
  note ih = Cons.IH [OF t(1)] and o = pointer_step_owner [OF s]
  have e: "owner_epoch kind (ptr_owner p1) = owner_epoch kind (ptr_owner p)" for kind
    using o(1) by (cases kind) (simp_all add: same_owner_def owner_epoch_def)
  have "same_owner (ptr_owner p) (ptr_owner p')" using ih o(1) by (simp add: same_owner_def)
  moreover have "epoch = owner_epoch kind (ptr_owner p) \<and> token = sp_fencing_token (ptr_owner p) \<and> ptr_state p = PointerLive"
    if "(AcceptObservation kind epoch token first final, Inr u) \<in> set log" for kind epoch token first final u
  proof (cases "(AcceptObservation kind epoch token first final, Inr u) \<in> set log1")
    case True
    have "epoch = owner_epoch kind (ptr_owner p1) \<and> token = sp_fencing_token (ptr_owner p1) \<and> ptr_state p1 = PointerLive"
      using ih True by blast
    then show ?thesis using o e by (simp add: same_owner_def)
  next
    case False
    then have "pointer_accept kind epoch token first final p = (Inr u, p1)" using that t(2) s by auto
    note a = pointer_accept_Ok [OF this]
    show ?thesis using a(1-3) by blast
  qed
  moreover have "contiguous_ranges kind (owner_last kind (ptr_owner p)) (accepted_ranges kind log) (owner_last kind (ptr_owner p'))"
    for kind
  proof -
    have eq: "accepted_ranges kind log = accepted_ranges kind [(op, r)] @ accepted_ranges kind log1"
      by (subst t(2)) (rule accepted_ranges_Cons)
    show ?thesis unfolding eq using ih by (intro pointer_step_ranges [OF s]) blast
  qed
  ultimately show ?case using ih o(2) by blast
qed (simp add: same_owner_def)

text \<open>
  C15. The source pointer publishes one owner's contiguous stream: in any sequence of observations and
  failures the owner's epochs and fencing token do not change, every accepted observation carries them and
  arrives while the pointer is live, the accepted ranges of a stream continue one another without a gap
  from the sequence the pointer started with to the one it ends with, and a gap is never left.
\<close>

theorem fenced_publication_contiguous:
  assumes "pointer_run ops p = (log, p')"
  shows "(same_owner (ptr_owner p) (ptr_owner p'))
    \<and> (\<forall>kind epoch token first final u. (AcceptObservation kind epoch token first final, Inr u) \<in> set log \<longrightarrow>
      epoch = owner_epoch kind (ptr_owner p) \<and> token = sp_fencing_token (ptr_owner p) \<and> ptr_state p = PointerLive)
    \<and> (contiguous_ranges kind (owner_last kind (ptr_owner p)) (accepted_ranges kind log) (owner_last kind (ptr_owner p')))
    \<and> (ptr_state p' = PointerLive \<longrightarrow> ptr_state p = PointerLive)"
  using pointer_run_fenced [OF assms] by blast

end
