(* ===== verification/Transport.thy ===== *)
theory Transport
  imports Externals
begin

text \<open>
  The public WebSocket session of \<open>src/rust/lob-replay/src/transport.rs\<close>: data frames enter a bounded
  queue, pings are answered within a rate limit, a watchdog sends its own pings, and every irregularity
  ends the session. Times are nanoseconds of a monotonic clock. The plain counters of the queue cannot
  overflow: \<open>enqueued\<close> is the checked frame index, \<open>drained\<close> does not pass it, and a session that
  dropped a frame has failed and takes no other.
\<close>

section \<open>Data\<close>

definition ONE_SECOND_NS :: nat where "ONE_SECOND_NS = 1000000000"
definition MAX_CLIENT_CONTROL_PER_SECOND :: nat where "MAX_CLIENT_CONTROL_PER_SECOND = 5"
definition MAX_CONTROL_PAYLOAD_BYTES :: nat where "MAX_CONTROL_PAYLOAD_BYTES = 125"
definition MAX_DATA_PAYLOAD_BYTES :: nat where "MAX_DATA_PAYLOAD_BYTES = 4 * 1024 * 1024"

datatype ws_input =
    WsData bytes
  | WsPing bytes
  | WsPong bytes
  | WsClose "nat option" string
  | WsTransportError string

datatype transport_state = TsOpen | TsShutdownAnnounced | TsClosed | TsFailed

datatype transport_action =
    RawEnqueued nat
  | RespondPong bytes
  | SendPing bytes
  | ActBeginHandover string
  | EpochClosed string
  | InvalidateEpoch string

record queued_raw_frame =
  qf_frame_index :: nat
  qf_receive_mono_ns :: nat
  qf_payload :: bytes

record bounded_raw_sink =
  rk_capacity :: nat
  rk_queue :: "queued_raw_frame list"
  rk_enqueued :: nat
  rk_drained :: nat
  rk_max_depth :: nat
  rk_local_drops :: nat

record public_ws_session =
  ws_epoch :: string
  ws_state :: transport_state
  ws_raw_sink :: bounded_raw_sink
  ws_next_frame_index :: nat
  ws_last_receive_mono_ns :: "nat option"
  ws_outbound_control_ns :: "nat list"
  ws_last_ping_sent_mono_ns :: "nat option"
  ws_awaiting_pong :: bool
  ws_last_pong_mono_ns :: "nat option"
  ws_last_ping_rtt_ns :: "nat option"
  ws_last_watchdog_tick_mono_ns :: "nat option"

section \<open>The bounded queue\<close>

definition raw_sink_new :: "nat \<Rightarrow> bounded_raw_sink res" where
  "raw_sink_new capacity =
     (if capacity = 0 then Err (Fail ''raw sink capacity must be positive'')
      else Ok \<lparr>rk_capacity = capacity, rk_queue = [], rk_enqueued = 0, rk_drained = 0, rk_max_depth = 0,
               rk_local_drops = 0\<rparr>)"

definition drain_one :: "bounded_raw_sink \<Rightarrow> queued_raw_frame option \<times> bounded_raw_sink" where
  "drain_one k =
     (case rk_queue k of
        [] \<Rightarrow> (None, k)
      | frame # rest \<Rightarrow> (Some frame, k\<lparr>rk_queue := rest, rk_drained := rk_drained k + 1\<rparr>))"

definition raw_enqueue :: "queued_raw_frame \<Rightarrow> bounded_raw_sink \<Rightarrow> bool \<times> bounded_raw_sink" where
  "raw_enqueue frame k =
     (if rk_capacity k \<le> length (rk_queue k) then (False, k\<lparr>rk_local_drops := rk_local_drops k + 1\<rparr>)
      else
        let queue = rk_queue k @ [frame] in
        (True, k\<lparr>rk_queue := queue, rk_enqueued := rk_enqueued k + 1, rk_max_depth := max (rk_max_depth k) (length queue)\<rparr>))"

section \<open>The session\<close>

definition ws_session_new :: "string \<Rightarrow> nat \<Rightarrow> public_ws_session res" where
  "ws_session_new epoch raw_capacity =
     (if trim_is_empty epoch then Err (Fail ''transport epoch must not be empty'')
      else rbind (raw_sink_new raw_capacity) (\<lambda>k.
        Ok \<lparr>ws_epoch = epoch, ws_state = TsOpen, ws_raw_sink = k, ws_next_frame_index = 0,
            ws_last_receive_mono_ns = None, ws_outbound_control_ns = [], ws_last_ping_sent_mono_ns = None,
            ws_awaiting_pong = False, ws_last_pong_mono_ns = None, ws_last_ping_rtt_ns = None,
            ws_last_watchdog_tick_mono_ns = None\<rparr>))"

definition invalidate :: "string \<Rightarrow> public_ws_session \<Rightarrow> transport_action list res \<times> public_ws_session" where
  "invalidate reason s = (Ok [InvalidateEpoch reason], s\<lparr>ws_state := TsFailed\<rparr>)"

text \<open>\<open>value[field] == "text"\<close>: a missing field is null, which equals no string.\<close>

definition json_field_is :: "'v externals \<Rightarrow> 'v \<Rightarrow> string \<Rightarrow> string \<Rightarrow> bool" where
  "json_field_is E v field text \<longleftrightarrow> field_str E v field = Some text"

definition classify_server_shutdown :: "'v externals \<Rightarrow> bytes \<Rightarrow> bool res" where
  "classify_server_shutdown E payload =
     (case json_from_slice E payload of
        None \<Rightarrow> Ok False
      | Some v \<Rightarrow>
          let data = json_get E v ''data'';
              raw_shutdown = json_field_is E v ''e'' ''serverShutdown'';
              combined_shutdown = json_field_is E v ''stream'' ''!serverShutdown''
                \<and> (case data of None \<Rightarrow> False | Some d \<Rightarrow> json_field_is E d ''e'' ''serverShutdown'')
          in if \<not> raw_shutdown \<and> \<not> combined_shutdown then Ok False
             else
               let event = (if raw_shutdown then Some v else data) in
               if (case event of None \<Rightarrow> None | Some d \<Rightarrow> field_u64 E d ''E'') = None
               then Err (Fail ''serverShutdown event has invalid event time'')
               else Ok True)"

definition error_text :: "error \<Rightarrow> string" where
  "error_text e = (case e of Fail m \<Rightarrow> m | FailN m _ \<Rightarrow> m | FailS m _ \<Rightarrow> m | Panic \<Rightarrow> [])"

definition handle_data ::
  "'v externals \<Rightarrow> bytes \<Rightarrow> nat \<Rightarrow> public_ws_session \<Rightarrow> transport_action list res \<times> public_ws_session" where
  "handle_data E payload mono_ns s =
     (if MAX_DATA_PAYLOAD_BYTES < length payload then invalidate ''websocket data payload exceeds 4 MiB'' s
      else case checked_add (ws_next_frame_index s) 1 of
        None \<Rightarrow> invalidate ''transport frame index overflow'' s
      | Some next_frame_index \<Rightarrow>
          let frame_index = ws_next_frame_index s;
              frame = \<lparr>qf_frame_index = frame_index, qf_receive_mono_ns = mono_ns, qf_payload = payload\<rparr> in
          (case raw_enqueue frame (ws_raw_sink s) of
             (False, k) \<Rightarrow>
               invalidate ''bounded raw sink overflow; received frame was not durable'' (s\<lparr>ws_raw_sink := k\<rparr>)
           | (True, k) \<Rightarrow>
               let s1 = s\<lparr>ws_raw_sink := k, ws_next_frame_index := next_frame_index\<rparr> in
               (case classify_server_shutdown E payload of
                  Inl e \<Rightarrow>
                    (Ok [RawEnqueued frame_index, InvalidateEpoch (error_text e)], s1\<lparr>ws_state := TsFailed\<rparr>)
                | Inr shutdown \<Rightarrow>
                    if shutdown \<and> ws_state s1 = TsOpen
                    then (Ok [RawEnqueued frame_index, ActBeginHandover ''official serverShutdown event''],
                          s1\<lparr>ws_state := TsShutdownAnnounced\<rparr>)
                    else (Ok [RawEnqueued frame_index], s1))))"

definition handle_ping ::
  "bytes \<Rightarrow> nat \<Rightarrow> public_ws_session \<Rightarrow> transport_action list res \<times> public_ws_session" where
  "handle_ping payload mono_ns s =
     (if MAX_CONTROL_PAYLOAD_BYTES < length payload
      then invalidate ''ping payload exceeds WebSocket control-frame limit'' s
      else
        let control = dropWhile (\<lambda>oldest. ONE_SECOND_NS \<le> saturating_sub mono_ns oldest) (ws_outbound_control_ns s);
            s1 = s\<lparr>ws_outbound_control_ns := control\<rparr> in
        if MAX_CLIENT_CONTROL_PER_SECOND \<le> length control
        then invalidate ''client control-message rate would exceed 5 per second'' s1
        else (Ok [RespondPong payload], s1\<lparr>ws_outbound_control_ns := control @ [mono_ns]\<rparr>))"

definition close_code :: "nat option \<Rightarrow> string" where
  "close_code code = (case code of None \<Rightarrow> ''None'' | Some n \<Rightarrow> ''Some('' @ dec_str n @ '')'')"

definition terminal_session :: "public_ws_session \<Rightarrow> bool" where
  "terminal_session s \<longleftrightarrow> ws_state s = TsClosed \<or> ws_state s = TsFailed"

definition terminal_name :: "public_ws_session \<Rightarrow> string" where
  "terminal_name s = (if ws_state s = TsClosed then ''Closed'' else ''Failed'')"

definition ws_handle ::
  "'v externals \<Rightarrow> ws_input \<Rightarrow> nat \<Rightarrow> public_ws_session \<Rightarrow> transport_action list res \<times> public_ws_session" where
  "ws_handle E input mono_ns s =
     (if terminal_session s then (Err (FailS ''transport epoch is terminal'' [terminal_name s]), s)
      else if (case ws_last_receive_mono_ns s of None \<Rightarrow> False | Some previous \<Rightarrow> mono_ns < previous)
      then invalidate ''monotonic receive time regressed'' s
      else
        let s1 = s\<lparr>ws_last_receive_mono_ns := Some mono_ns\<rparr> in
        (case input of
           WsData payload \<Rightarrow> handle_data E payload mono_ns s1
         | WsPing payload \<Rightarrow> handle_ping payload mono_ns s1
         | WsPong _ \<Rightarrow>
             if ws_awaiting_pong s1
             then (Ok [], s1\<lparr>ws_awaiting_pong := False, ws_last_pong_mono_ns := Some mono_ns,
                     ws_last_ping_rtt_ns := (case ws_last_ping_sent_mono_ns s1 of
                        None \<Rightarrow> ws_last_ping_rtt_ns s1 | Some sent \<Rightarrow> Some (saturating_sub mono_ns sent))\<rparr>)
             else (Ok [], s1)
         | WsClose code reason \<Rightarrow>
             (Ok [EpochClosed (''websocket close code='' @ close_code code @ '' reason='' @ reason)],
              s1\<lparr>ws_state := TsClosed\<rparr>)
         | WsTransportError reason \<Rightarrow> invalidate (''websocket transport error: '' @ reason) s1))"

definition watchdog_tick ::
  "nat \<Rightarrow> nat \<Rightarrow> nat \<Rightarrow> public_ws_session \<Rightarrow> transport_action list res \<times> public_ws_session" where
  "watchdog_tick now_mono_ns ping_interval_ns pong_deadline_ns s =
     (if terminal_session s then (Err (FailS ''transport epoch is terminal'' [terminal_name s]), s)
      else if ping_interval_ns = 0 \<or> pong_deadline_ns = 0
      then (Err (Fail ''watchdog ping interval and pong deadline must be positive''), s)
      else if (case ws_last_watchdog_tick_mono_ns s of None \<Rightarrow> False | Some previous \<Rightarrow> now_mono_ns < previous)
      then (Err (Fail ''watchdog monotonic tick time regressed''), s)
      else
        let s1 = s\<lparr>ws_last_watchdog_tick_mono_ns := Some now_mono_ns\<rparr> in
        if ws_awaiting_pong s1 then
          (if (case ws_last_ping_sent_mono_ns s1 of None \<Rightarrow> False
                | Some sent \<Rightarrow> pong_deadline_ns \<le> saturating_sub now_mono_ns sent)
           then invalidate ''watchdog pong deadline exceeded: transport dead'' s1
           else (Ok [], s1))
        else if (case ws_last_ping_sent_mono_ns s1 of None \<Rightarrow> True
                   | Some sent \<Rightarrow> ping_interval_ns \<le> saturating_sub now_mono_ns sent)
        then (Ok [SendPing []], s1\<lparr>ws_last_ping_sent_mono_ns := Some now_mono_ns, ws_awaiting_pong := True\<rparr>)
        else (Ok [], s1))"

text \<open>The scripted socket: inputs are handled until an error or a terminal state.\<close>

fun fake_websocket_run ::
  "'v externals \<Rightarrow> (nat \<times> ws_input) list \<Rightarrow> public_ws_session
     \<Rightarrow> transport_action list res \<times> (nat \<times> ws_input) list \<times> public_ws_session" where
  "fake_websocket_run E [] s = (Ok [], [], s)"
| "fake_websocket_run E ((mono_ns, input) # inputs) s =
     (case ws_handle E input mono_ns s of
        (Inl e, s1) \<Rightarrow> (Err e, inputs, s1)
      | (Inr actions, s1) \<Rightarrow>
          if terminal_session s1 then (Ok actions, inputs, s1)
          else (case fake_websocket_run E inputs s1 of
                  (Inl e, rest, s2) \<Rightarrow> (Err e, rest, s2)
                | (Inr later, rest, s2) \<Rightarrow> (Ok (actions @ later), rest, s2)))"

end
