(* ===== verification/Live_Rotation.thy ===== *)
theory Live_Rotation
  imports Ownership_Safety Handover_Safety Transport
begin

text \<open>
  The components put together: \<open>src/rust/lob-replay/src/live_rotation.rs\<close>, which moves publication
  from one connection epoch to the next through the handover controller, the ownership ledger and the
  source pointer, and \<open>src/rust/lob-replay/src/orchestrator.rs\<close>, which turns transport actions into
  handover operations. Reading the ledger's path back is a parameter: it answers an error or the bytes
  found there, given the ledger's sink.
\<close>

section \<open>The coordinator\<close>

record live_activation_report =
  lr_schema :: string
  lr_status :: string
  lr_depth_boundary_commit_sha256 :: string
  lr_trade_boundary_commit_sha256 :: string
  lr_prepare_ack :: ownership_ledger_ack
  lr_activate_ack :: ownership_ledger_ack
  lr_active_owner_sha256 :: string
  lr_active_generation :: string
  lr_fencing_token :: nat

record live_rotation_coordinator =
  lc_handover :: handover_controller
  lc_pointer :: canonical_source_pointer

definition coordinator_new ::
  "handover_controller \<Rightarrow> canonical_source_pointer \<Rightarrow> live_rotation_coordinator res" where
  "coordinator_new h p =
     (if (hc_publication h \<noteq> PubLive \<and> hc_publication h \<noteq> PubHandover) \<or> es_state (hc_active h) \<noteq> Active
         \<or> ptr_state p \<noteq> PointerLive \<or> hc_symbol h \<noteq> sp_symbol (ptr_owner p)
         \<or> es_epoch (hc_active h) \<noteq> sp_depth_epoch (ptr_owner p)
      then Err (Fail ''handover and source pointer do not describe the same active publication'')
      else Ok \<lparr>lc_handover = h, lc_pointer = p\<rparr>)"

definition depth_proof_matches :: "handover_controller \<Rightarrow> epoch_status \<Rightarrow> committed_boundary_proof \<Rightarrow> committed_boundary_proof \<Rightarrow> bool" where
  "depth_proof_matches h candidate depth trade \<longleftrightarrow>
     hb_stream_kind (cp_boundary depth) = Depth \<and> hb_stream_kind (cp_boundary trade) = Trade
     \<and> hb_predecessor_epoch (cp_boundary depth) = es_epoch (hc_active h)
     \<and> hb_successor_epoch (cp_boundary depth) = es_epoch candidate
     \<and> es_final_update_id (hc_active h) = Some (hb_boundary_sequence (cp_boundary depth))
     \<and> es_final_update_id candidate = Some (hb_boundary_sequence (cp_boundary depth))
     \<and> es_state_sha256 (hc_active h) = Some (hb_boundary_sha256 (cp_boundary depth))
     \<and> es_state_sha256 candidate = Some (hb_boundary_sha256 (cp_boundary depth))"

definition proofs_continue_pointer :: "source_pointer_snapshot \<Rightarrow> committed_boundary_proof \<Rightarrow> committed_boundary_proof \<Rightarrow> bool" where
  "proofs_continue_pointer owner depth trade \<longleftrightarrow>
     sp_depth_epoch owner = hb_predecessor_epoch (cp_boundary depth)
     \<and> sp_trade_epoch owner = hb_predecessor_epoch (cp_boundary trade)
     \<and> sp_depth_last_sequence owner = hb_boundary_sequence (cp_boundary depth)
     \<and> sp_trade_last_sequence owner = hb_boundary_sequence (cp_boundary trade)"

text \<open>From the durable activation on: rescan, check, switch the pointer, promote.\<close>

definition rescan_pointer ::
  "'v externals \<Rightarrow> (bytes \<Rightarrow> ownership_record option) \<Rightarrow> (sink \<Rightarrow> bytes res) \<Rightarrow> ownership_ledger_writer
     \<Rightarrow> epoch_status \<Rightarrow> nat \<Rightarrow> committed_boundary_proof \<Rightarrow> committed_boundary_proof \<Rightarrow> canonical_source_pointer res" where
  "rescan_pointer E from_slice read_path ledger candidate token depth trade =
     rbind (read_path (ow_sink ledger)) (\<lambda>bs.
     rbind (pointer_recover (scan_ownership_ledger E from_slice bs) (Some (depth, trade))) (\<lambda>recovered.
     if sp_depth_epoch (ptr_owner recovered) \<noteq> es_epoch candidate
        \<or> sp_trade_epoch (ptr_owner recovered) \<noteq> hb_successor_epoch (cp_boundary trade)
     then Err (Fail ''durable ownership rescan did not recover the expected successor'')
     else rbind (add_u64 token 1) (\<lambda>expected.
       if sp_fencing_token (ptr_owner recovered) \<noteq> expected
       then Err (Fail ''durable ownership rescan did not recover the expected successor'')
       else Ok recovered)))"

definition promotion_failed :: "error \<Rightarrow> string" where
  "promotion_failed e = ''controller promotion failed after durable activation: '' @ error_text e"

definition finish_activation ::
  "'v externals \<Rightarrow> (source_pointer_snapshot \<Rightarrow> bytes) \<Rightarrow> committed_boundary_proof \<Rightarrow> committed_boundary_proof
     \<Rightarrow> ownership_ledger_ack \<Rightarrow> ownership_ledger_ack \<Rightarrow> canonical_source_pointer \<Rightarrow> live_rotation_coordinator
     \<Rightarrow> live_activation_report res \<times> live_rotation_coordinator" where
  "finish_activation E snap_vec depth trade prepare_ack activate_ack recovered c =
     (case promote_candidate (lc_handover c) of
        (Inl e, h) \<Rightarrow>
          (Err (Fail (promotion_failed e)),
           c\<lparr>lc_handover := h, lc_pointer :=
             snd (pointer_fail_active (hb_successor_epoch (cp_boundary depth)) (promotion_failed e) recovered)\<rparr>)
      | (Inr _, h) \<Rightarrow>
          (case snapshot_digest E snap_vec (ptr_owner recovered) of
             Inl e \<Rightarrow> (Err e, c\<lparr>lc_handover := h, lc_pointer := recovered\<rparr>)
           | Inr digest \<Rightarrow>
               (Ok \<lparr>lr_schema = ''LiveActivationReportV1'', lr_status = ''ACTIVATED_LIVE_AUTHORITY'',
                    lr_depth_boundary_commit_sha256 = cp_commit_record_sha256 depth,
                    lr_trade_boundary_commit_sha256 = cp_commit_record_sha256 trade,
                    lr_prepare_ack = prepare_ack, lr_activate_ack = activate_ack, lr_active_owner_sha256 = digest,
                    lr_active_generation = sp_generation_id (ptr_owner recovered),
                    lr_fencing_token = sp_fencing_token (ptr_owner recovered)\<rparr>,
                c\<lparr>lc_handover := h, lc_pointer := recovered\<rparr>)))"

definition awaiting_rescan :: "live_rotation_coordinator \<Rightarrow> live_rotation_coordinator" where
  "awaiting_rescan c =
     c\<lparr>lc_pointer := (lc_pointer c)\<lparr>ptr_state := PointerGap,
         ptr_gap_reason := Some ''durable activation awaiting verified rescan''\<rparr>\<rparr>"

definition activate_committed ::
  "'v externals \<Rightarrow> (ownership_record \<Rightarrow> bytes) \<Rightarrow> (bytes \<Rightarrow> ownership_record option) \<Rightarrow> (source_pointer_snapshot \<Rightarrow> bytes)
     \<Rightarrow> (sink \<Rightarrow> bytes res) \<Rightarrow> string \<Rightarrow> string \<Rightarrow> committed_boundary_proof \<Rightarrow> committed_boundary_proof
     \<Rightarrow> live_rotation_coordinator \<Rightarrow> ownership_ledger_writer
     \<Rightarrow> live_activation_report res \<times> live_rotation_coordinator \<times> ownership_ledger_writer" where
  "activate_committed E to_vec from_slice snap_vec read_path activation_id successor_generation depth trade c ledger =
     (if \<not> candidate_converged (lc_handover c)
      then (Err (Fail ''live ownership activation requires exact candidate convergence''), c, ledger)
      else case hc_candidate (lc_handover c) of
        None \<Rightarrow> (Err (Fail ''converged candidate disappeared''), c, ledger)
      | Some candidate \<Rightarrow>
     (if \<not> depth_proof_matches (lc_handover c) candidate depth trade
      then (Err (Fail ''committed depth proof does not match converged live books''), c, ledger)
      else if \<not> proofs_continue_pointer (ptr_owner (lc_pointer c)) depth trade
      then (Err (Fail ''committed proofs do not continue the current canonical pointer''), c, ledger)
      else case derive_ownership_activation activation_id successor_generation (ptr_owner (lc_pointer c)) depth trade of
        Inl e \<Rightarrow> (Err e, c, ledger)
      | Inr activation \<Rightarrow>
     (case ownership_prepare E to_vec activation ledger of
        (Inl e, ledger1) \<Rightarrow> (Err e, c, ledger1)
      | (Inr prepare_ack, ledger1) \<Rightarrow>
     (case ownership_activate E to_vec (oa_activation_id activation) ledger1 of
        (Inl e, ledger2) \<Rightarrow> (Err e, c, ledger2)
      | (Inr activate_ack, ledger2) \<Rightarrow>
     (case rescan_pointer E from_slice read_path ledger2 candidate (sp_fencing_token (ptr_owner (lc_pointer c))) depth trade of
        Inl e \<Rightarrow> (Err e, awaiting_rescan c, ledger2)
      | Inr recovered \<Rightarrow>
          (case finish_activation E snap_vec depth trade prepare_ack activate_ack recovered (awaiting_rescan c) of
             (r, c1) \<Rightarrow> (r, c1, ledger2)))))))"

definition coordinator_accept ::
  "boundary_stream_kind \<Rightarrow> string \<Rightarrow> nat \<Rightarrow> nat \<Rightarrow> nat \<Rightarrow> live_rotation_coordinator \<Rightarrow> unit res \<times> live_rotation_coordinator" where
  "coordinator_accept kind epoch token first final c =
     (if kind = Depth
         \<and> (hc_publication (lc_handover c) \<noteq> PubLive \<or> es_state (hc_active (lc_handover c)) \<noteq> Active)
      then (Err (Fail ''depth publication controller is not LIVE''), c)
      else case pointer_accept kind epoch token first final (lc_pointer c) of
        (r, p) \<Rightarrow> (r, c\<lparr>lc_pointer := p\<rparr>))"

definition coordinator_fail_active ::
  "boundary_stream_kind \<Rightarrow> string \<Rightarrow> live_rotation_coordinator \<Rightarrow> unit res \<times> live_rotation_coordinator" where
  "coordinator_fail_active kind reason c =
     (let epoch = owner_epoch kind (ptr_owner (lc_pointer c)) in
      case pointer_fail_active epoch reason (lc_pointer c) of
        (Inl e, p) \<Rightarrow> (Err e, c\<lparr>lc_pointer := p\<rparr>)
      | (Inr _, p) \<Rightarrow>
          if kind = Depth \<and> es_epoch (hc_active (lc_handover c)) = epoch
          then (case fail_epoch epoch reason (lc_handover c) of
                  (r, h) \<Rightarrow> (r, c\<lparr>lc_pointer := p, lc_handover := h\<rparr>))
          else (Ok (), c\<lparr>lc_pointer := p\<rparr>))"

section \<open>The orchestrator\<close>

definition apply_transport_action ::
  "string \<Rightarrow> string option \<Rightarrow> transport_action \<Rightarrow> handover_controller \<Rightarrow> unit res \<times> handover_controller" where
  "apply_transport_action source_epoch candidate_epoch action h =
     (case action of
        RawEnqueued _ \<Rightarrow> (Ok (), h)
      | RespondPong _ \<Rightarrow> (Ok (), h)
      | SendPing _ \<Rightarrow> (Ok (), h)
      | ActBeginHandover _ \<Rightarrow>
          if es_epoch (hc_active h) \<noteq> source_epoch then (Err (Fail ''only the active epoch may initiate handover''), h)
          else (case candidate_epoch of
                  None \<Rightarrow> (Err (Fail ''handover action requires a fresh candidate epoch''), h)
                | Some epoch \<Rightarrow> begin_handover epoch h)
      | EpochClosed reason \<Rightarrow>
          if is_epoch source_epoch (hc_draining h) then close_draining h else fail_epoch source_epoch reason h
      | InvalidateEpoch reason \<Rightarrow> fail_epoch source_epoch reason h)"

fun apply_transport_actions ::
  "string \<Rightarrow> string option \<Rightarrow> transport_action list \<Rightarrow> handover_controller \<Rightarrow> unit res \<times> handover_controller" where
  "apply_transport_actions source_epoch candidate_epoch [] h = (Ok (), h)"
| "apply_transport_actions source_epoch candidate_epoch (a # as) h =
     (case apply_transport_action source_epoch candidate_epoch a h of
        (Inl e, h1) \<Rightarrow> (Err e, h1)
      | (Inr _, h1) \<Rightarrow> apply_transport_actions source_epoch candidate_epoch as h1)"

end
