(* ===== verification/Live_Rotation_Safety.thy ===== *)
theory Live_Rotation_Safety
  imports Live_Rotation
begin

text \<open>
  The rotation of the publishing epoch: an activation that is not completed leaves the old owner in
  place or publication closed, and one whose ledger reads back is all or nothing.
\<close>

section \<open>Promotion\<close>

lemma promote_converged:
  assumes "handover_reachable h" "candidate_converged h" "hc_candidate h = Some s"
  shows "\<exists>h'. promote_candidate h = (Ok (), h') \<and> hc_publication h' = PubLive \<and> es_epoch (hc_active h') = es_epoch s
    \<and> es_state (hc_active h') = Active \<and> hc_draining h' = Some ((hc_active h)\<lparr>es_state := Draining\<rparr>)
    \<and> hc_candidate h' = None"
proof -
  note d = handover_invD [OF reachable_inv [OF assms(1)]]
  have a: "es_state (hc_active h) = Active" using assms(2,3) by (simp add: candidate_converged_def)
  have "hc_publication h = PubHandover"
    using d(3) a assms(3) by (cases "hc_publication h") (auto simp: publication_ok_def pre_live_def)
  then show ?thesis using assms(2,3) by (simp add: promote_candidate_def)
qed

section \<open>Derived activations\<close>

lemma derive_activation_Ok:
  assumes "derive_ownership_activation i g current depth trade = Ok a"
  shows "oa_fencing_token a = sp_fencing_token current + 1" "sp_fencing_token current + 1 \<le> u64_max"
    "validate_activation a = Ok ()" "validate_activation_proofs a depth trade = Ok ()"
    "oa_successor_generation a = g" "oa_symbol a = sp_symbol current"
    "oa_successor_depth_epoch a = hb_successor_epoch (cp_boundary depth)"
    "oa_successor_trade_epoch a = hb_successor_epoch (cp_boundary trade)"
    "oa_depth_boundary_sequence a = hb_boundary_sequence (cp_boundary depth)"
    "oa_trade_boundary_sequence a = hb_boundary_sequence (cp_boundary trade)"
  using assms unfolding derive_ownership_activation_def by (auto simp: Let_def split: if_splits)

lemma validate_successor:
  assumes "validate_activation a = Ok ()"
  shows "validate_snapshot (successor_snapshot a) = Ok ()"
  using assms by (simp add: validate_activation_def validate_snapshot_def successor_snapshot_def split: if_splits)

lemma activations_proofs_fields:
  assumes "validate_activation_proofs a depth trade = Ok ()"
  shows "oa_successor_depth_epoch a = hb_successor_epoch (cp_boundary depth)"
    "oa_successor_trade_epoch a = hb_successor_epoch (cp_boundary trade)"
    "oa_depth_boundary_sequence a = hb_boundary_sequence (cp_boundary depth)"
    "oa_trade_boundary_sequence a = hb_boundary_sequence (cp_boundary trade)"
    "oa_symbol a = hb_symbol (cp_boundary depth)"
  using assms unfolding validate_activation_proofs_def by (auto split: if_splits)

section \<open>Recovery\<close>

lemma recover_Ok:
  assumes "pointer_recover scan (Some (depth, trade)) = Ok p"
  shows "ptr_state p = PointerLive" "os_clean_eof scan" "os_active_owner scan = Some (ptr_owner p)"
    "validate_snapshot (ptr_owner p) = Ok ()"
    "\<exists>a. os_last_activation scan = Some a \<and> validate_activation_proofs a depth trade = Ok () \<and> ptr_owner p = successor_snapshot a"
  using assms unfolding pointer_recover_def by (auto split: if_splits option.splits prod.splits)

lemma rescan_Ok:
  assumes "rescan_pointer E from_slice read_path ledger candidate token depth trade = Ok p"
  shows "ptr_state p = PointerLive" "sp_fencing_token (ptr_owner p) = token + 1"
    "sp_depth_epoch (ptr_owner p) = es_epoch candidate"
    "sp_trade_epoch (ptr_owner p) = hb_successor_epoch (cp_boundary trade)"
    "sp_depth_last_sequence (ptr_owner p) = hb_boundary_sequence (cp_boundary depth)"
    "sp_trade_last_sequence (ptr_owner p) = hb_boundary_sequence (cp_boundary trade)"
    "validate_snapshot (ptr_owner p) = Ok ()"
proof -
  obtain bs where r: "pointer_recover (scan_ownership_ledger E from_slice bs) (Some (depth, trade)) = Ok p"
    "sp_fencing_token (ptr_owner p) = token + 1" "sp_depth_epoch (ptr_owner p) = es_epoch candidate"
    "sp_trade_epoch (ptr_owner p) = hb_successor_epoch (cp_boundary trade)"
    using assms unfolding rescan_pointer_def by (auto split: if_splits)
  note rec = recover_Ok [OF r(1)]
  obtain a where a: "validate_activation_proofs a depth trade = Ok ()" "ptr_owner p = successor_snapshot a" using rec(5) by blast
  show "ptr_state p = PointerLive" "validate_snapshot (ptr_owner p) = Ok ()" by (rule rec(1), rule rec(4))
  show "sp_fencing_token (ptr_owner p) = token + 1" "sp_depth_epoch (ptr_owner p) = es_epoch candidate"
    "sp_trade_epoch (ptr_owner p) = hb_successor_epoch (cp_boundary trade)" by (rule r)+
  show "sp_depth_last_sequence (ptr_owner p) = hb_boundary_sequence (cp_boundary depth)"
    "sp_trade_last_sequence (ptr_owner p) = hb_boundary_sequence (cp_boundary trade)"
    using activations_proofs_fields(3,4) [OF a(1)] by (simp_all add: a(2) successor_snapshot_def)
qed

section \<open>The activation\<close>

text \<open>The outcomes of an activation, on a reachable controller.\<close>

lemma activate_committed_cases:
  assumes "handover_reachable (lc_handover c)"
    and "activate_committed E to_vec from_slice snap_vec read_path i g depth trade c l = (r, c', l')"
  obtains (refused) e where "r = Err e" "c' = c" "l' = l"
  | (unprepared) e a where "r = Err e" "c' = c" "ownership_prepare E to_vec a l = (Err e, l')"
  | (unactivated) e a ack l1 where "r = Err e" "c' = c" "ownership_prepare E to_vec a l = (Ok ack, l1)"
      "ownership_activate E to_vec (oa_activation_id a) l1 = (Err e, l')"
      "derive_ownership_activation i g (ptr_owner (lc_pointer c)) depth trade = Ok a"
  | (unread) e a ack1 l1 ack2 candidate where "r = Err e" "c' = awaiting_rescan c"
      "derive_ownership_activation i g (ptr_owner (lc_pointer c)) depth trade = Ok a"
      "ownership_prepare E to_vec a l = (Ok ack1, l1)"
      "ownership_activate E to_vec (oa_activation_id a) l1 = (Ok ack2, l')"
      "hc_candidate (lc_handover c) = Some candidate" "depth_proof_matches (lc_handover c) candidate depth trade"
      "rescan_pointer E from_slice read_path l' candidate (sp_fencing_token (ptr_owner (lc_pointer c))) depth trade = Err e"
  | (moved) report h p a ack1 l1 ack2 candidate where "r = Ok report" "c' = \<lparr>lc_handover = h, lc_pointer = p\<rparr>"
      "derive_ownership_activation i g (ptr_owner (lc_pointer c)) depth trade = Ok a"
      "ownership_prepare E to_vec a l = (Ok ack1, l1)"
      "ownership_activate E to_vec (oa_activation_id a) l1 = (Ok ack2, l')"
      "hc_candidate (lc_handover c) = Some candidate" "candidate_converged (lc_handover c)"
      "rescan_pointer E from_slice read_path l' candidate (sp_fencing_token (ptr_owner (lc_pointer c))) depth trade = Ok p"
      "promote_candidate (lc_handover c) = (Ok (), h)" "lr_fencing_token report = sp_fencing_token (ptr_owner p)"
proof (cases "candidate_converged (lc_handover c)")
  case False
  then show ?thesis using assms(2) by (intro refused) (auto simp: activate_committed_def)
next
  case conv: True
  then obtain candidate where cand: "hc_candidate (lc_handover c) = Some candidate"
    by (auto simp: candidate_converged_def split: option.splits)
  note def = assms(2) [unfolded activate_committed_def cand option.case]
  show ?thesis
  proof (cases "depth_proof_matches (lc_handover c) candidate depth trade \<and> proofs_continue_pointer (ptr_owner (lc_pointer c)) depth trade")
    case False
    have "c' = c \<and> l' = l \<and> (\<exists>e. r = Err e)"
    proof (cases "depth_proof_matches (lc_handover c) candidate depth trade")
      case True
      then have "\<not> proofs_continue_pointer (ptr_owner (lc_pointer c)) depth trade" using False by blast
      then show ?thesis using def conv True by auto
    next
      case False
      then show ?thesis using def conv by auto
    qed
    then show ?thesis using refused by blast
  next
    case match: True
    show ?thesis
    proof (cases "derive_ownership_activation i g (ptr_owner (lc_pointer c)) depth trade")
      case (Inl e)
      then have "c' = c \<and> l' = l \<and> r = Err e" using def conv match by simp
      then show ?thesis using refused by blast
    next
      case (Inr a)
      obtain r1 l1 where p: "ownership_prepare E to_vec a l = (r1, l1)" by (cases "ownership_prepare E to_vec a l")
      obtain r2 l2 where q: "ownership_activate E to_vec (oa_activation_id a) l1 = (r2, l2)"
        by (cases "ownership_activate E to_vec (oa_activation_id a) l1")
      show ?thesis
      proof (cases r1)
        case (Inl e)
        then have "c' = c \<and> l' = l1 \<and> r = Err e" using def conv match Inr p by simp
        then show ?thesis using p Inl by (intro unprepared [of e a]) simp_all
      next
        case ack1: (Inr ack1)
        show ?thesis
        proof (cases r2)
          case (Inl e)
          then have "c' = c \<and> l' = l2 \<and> r = Err e" using def conv match Inr p q ack1 by simp
          then show ?thesis using Inr p q ack1 Inl by (intro unactivated [of e a ack1 l1]) simp_all
        next
          case ack2: (Inr ack2)
          show ?thesis
          proof (cases "rescan_pointer E from_slice read_path l2 candidate (sp_fencing_token (ptr_owner (lc_pointer c))) depth trade")
            case (Inl e)
            then have "c' = awaiting_rescan c \<and> l' = l2 \<and> r = Err e" using def conv match Inr p q ack1 ack2 by simp
            then show ?thesis using match Inr p q ack1 ack2 cand Inl
              by (intro unread [of e a ack1 l1 ack2 candidate]) simp_all
          next
            case rec: (Inr x)
            obtain h where h: "promote_candidate (lc_handover c) = (Ok (), h)" using promote_converged [OF assms(1) conv cand] by blast
            have sd: "snapshot_digest E snap_vec (ptr_owner x) = Ok (sha256_hex E (snap_vec (ptr_owner x)))"
              using rescan_Ok(7) [OF rec] by (simp add: snapshot_digest_def)
            have e: "(r, c', l') = (case finish_activation E snap_vec depth trade ack1 ack2 x (awaiting_rescan c) of
                (r, c1) \<Rightarrow> (r, c1, l2))"
              using def conv match Inr p q ack1 ack2 rec by simp
            have hc: "lc_handover (awaiting_rescan c) = lc_handover c" by (simp add: awaiting_rescan_def)
            have c': "c' = \<lparr>lc_handover = h, lc_pointer = x\<rparr>" "l' = l2"
              "\<exists>report. r = Ok report \<and> lr_fencing_token report = sp_fencing_token (ptr_owner x)"
              using e by (auto simp: finish_activation_def hc h sd awaiting_rescan_def)
            then obtain report where "r = Ok report" "lr_fencing_token report = sp_fencing_token (ptr_owner x)" by blast
            then show ?thesis using Inr p q ack1 ack2 rec h cand conv c'(1,2) by (intro moved [of report h x a ack1 l1 ack2 candidate]) simp_all
          qed
        qed
      qed
    qed
  qed
qed

text \<open>
  C14. An activation fails closed, whatever the ledger's path reads back: it succeeds only with the pointer
  live at the successor epochs and the next fencing token, continuing exactly at the committed boundaries,
  with the candidate promoted and the old epoch draining; when it answers an error, the controller is
  unchanged and either nothing was acknowledged and the pointer is unchanged too, or the pointer is a gap.
\<close>

theorem activation_fails_closed:
  assumes "handover_reachable (lc_handover c)" "hc_candidate (lc_handover c) = Some candidate"
    and "activate_committed E to_vec from_slice snap_vec read_path i g depth trade c l = (r, c', l')"
    and "written_ledger E to_vec l" "ledger_bounded l'" "ledger_bounded l"
    and "sha256_len32 E" "record_round_trip to_vec from_slice"
  shows "case r of
      Inl e \<Rightarrow> lc_handover c' = lc_handover c
        \<and> (lc_pointer c' = lc_pointer c \<and> ow_active_owner l' = ow_active_owner l \<or> ptr_state (lc_pointer c') = PointerGap)
    | Inr report \<Rightarrow> ptr_state (lc_pointer c') = PointerLive
        \<and> sp_fencing_token (ptr_owner (lc_pointer c')) = sp_fencing_token (ptr_owner (lc_pointer c)) + 1
        \<and> sp_depth_epoch (ptr_owner (lc_pointer c')) = es_epoch candidate
        \<and> sp_trade_epoch (ptr_owner (lc_pointer c')) = hb_successor_epoch (cp_boundary trade)
        \<and> sp_depth_last_sequence (ptr_owner (lc_pointer c')) = hb_boundary_sequence (cp_boundary depth)
        \<and> sp_trade_last_sequence (ptr_owner (lc_pointer c')) = hb_boundary_sequence (cp_boundary trade)
        \<and> hc_publication (lc_handover c') = PubLive \<and> es_epoch (hc_active (lc_handover c')) = es_epoch candidate
        \<and> hc_draining (lc_handover c') = Some ((hc_active (lc_handover c))\<lparr>es_state := Draining\<rparr>)"
proof -
  obtain bodies st where inv: "ledger_inv E from_slice l bodies st" using written_ledger_inv [OF assms(7,8,4,6)] by blast
  show ?thesis
  proof (cases rule: activate_committed_cases [OF assms(1,3), case_names refused unprepared unactivated unread moved])
    case (unprepared e a)
    then show ?thesis using prepare_inv(2) [OF assms(7,8) inv assms(6) unprepared(3) assms(5)] by simp
  next
    case (unactivated e a ack l1)
    have b1: "ledger_bounded l1" using ownership_step_grows [of E to_vec "ActivateOwner (oa_activation_id a)" l1] unactivated(4) assms(5) by simp
    obtain bodies1 st1 where i1: "ledger_inv E from_slice l1 bodies1 st1"
      using prepare_inv(1) [OF assms(7,8) inv assms(6) unactivated(3) b1] by blast
    have "ow_active_owner l' = ow_active_owner l1" using activate_inv(2) [OF assms(7,8) i1 b1 unactivated(4) assms(5)] by simp
    then show ?thesis using unactivated(1,2) prepare_inv(2) [OF assms(7,8) inv assms(6) unactivated(3) b1] by simp
  next
    case (moved report h p a ack1 l1 ack2 candidate')
    then have "candidate' = candidate" using assms(2) by simp
    note m = moved [unfolded this]
    obtain h' where "promote_candidate (lc_handover c) = (Ok (), h')" "hc_publication h' = PubLive"
      "es_epoch (hc_active h') = es_epoch candidate" "hc_draining h' = Some ((hc_active (lc_handover c))\<lparr>es_state := Draining\<rparr>)"
      using promote_converged [OF assms(1) m(7,6)] by blast
    then show ?thesis using m(1,2,9) rescan_Ok [OF m(8)] by simp
  qed (simp_all add: awaiting_rescan_def)
qed

lemma own_file_rescan:
  assumes "sha256_len32 E" "ledger_inv E from_slice l bodies st" "\<not> ow_poisoned l"
    "ow_active_owner l = successor_snapshot a" "ox_last_activation st = Some a"
    "read_path (ow_sink l) = Ok (sk_data (ow_sink l))"
    "derive_ownership_activation i g owner depth trade = Ok a" "hb_successor_epoch (cp_boundary depth) = es_epoch candidate"
  shows "rescan_pointer E from_slice read_path l candidate (sp_fencing_token owner) depth trade
    = Ok \<lparr>ptr_owner = successor_snapshot a, ptr_state = PointerLive, ptr_fenced_rejections = 0, ptr_gap_reason = None\<rparr>"
proof -
  define n where "n = max (sk_synced (ow_sink l)) (length (sk_data (ow_sink l)))"
  define scan where "scan = scan_ownership_ledger E from_slice (take n (sk_data (ow_sink l)))"
  have n: "sk_synced (ow_sink l) \<le> n" "take n (sk_data (ow_sink l)) = sk_data (ow_sink l)" by (simp_all add: n_def)
  note sc = ledger_crash_scan(1) [OF assms(1,2) n(1) scan_def] and d = derive_activation_Ok [OF assms(7)]
  have s: "os_clean_eof scan" "os_active_owner scan = Some (successor_snapshot a)" "os_records scan = ow_record_count l"
    "os_last_activation scan = Some a" using sc assms(3-5) by simp_all
  have r: "ow_record_count l \<noteq> 0"
    using assms(2) ownership_log.run_linked [of "frames_of E from_slice bodies" ownership_scan_start st]
    by (auto simp: ledger_inv_def ledger_bodies_def ledger_view_def ownership_scan_start_def frames_of_def)
  have "pointer_recover scan (Some (depth, trade))
      = Ok \<lparr>ptr_owner = successor_snapshot a, ptr_state = PointerLive, ptr_fenced_rejections = 0, ptr_gap_reason = None\<rparr>"
    using s r validate_successor [OF d(3)] d(4) by (simp add: pointer_recover_def)
  then show ?thesis using d(1,2,7,8) assms(6,8) n(2)
    by (simp add: rescan_pointer_def scan_def successor_snapshot_def add_u64_def)
qed

text \<open>
  C3. When the path is the ledger's own file, an activation is all or nothing for the right to publish: either it
  succeeds and the pointer holds the ledger's new owner, of the asked generation and with the next token, or it
  answers an error with the coordinator as it was and the ledger's owner unchanged. After an error the ledger
  writer is also as it was, or it is closed: poisoned, or with the prepared activation still pending, and then it
  refuses every later activation.
\<close>

theorem activation_all_or_nothing:
  assumes "sha256_len32 E" "record_round_trip to_vec from_slice" "handover_reachable (lc_handover c)"
    and "written_ledger E to_vec l" "ledger_bounded l" "ledger_bounded l'"
    and "\<forall>sk. read_path sk = Ok (sk_data sk)"
    and "activate_committed E to_vec from_slice snap_vec read_path i g depth trade c l = (r, c', l')"
  shows "case r of
      Inl e \<Rightarrow> c' = c \<and> ow_active_owner l' = ow_active_owner l
        \<and> (l' = l \<or> (ow_poisoned l' \<or> ow_pending l' \<noteq> None) \<and> (\<forall>a. \<exists>e'. ownership_prepare E to_vec a l' = (Err e', l')))
    | Inr report \<Rightarrow> ptr_state (lc_pointer c') = PointerLive \<and> ptr_owner (lc_pointer c') = ow_active_owner l'
        \<and> sp_generation_id (ow_active_owner l') = g \<and> lr_fencing_token report = sp_fencing_token (ow_active_owner l')
        \<and> sp_fencing_token (ow_active_owner l') = sp_fencing_token (ptr_owner (lc_pointer c)) + 1"
proof -
  obtain bodies st where inv: "ledger_inv E from_slice l bodies st" using written_ledger_inv [OF assms(1,2,4,5)] by blast
  have whole: "\<exists>st. ow_active_owner l' = successor_snapshot a
      \<and> rescan_pointer E from_slice read_path l' candidate (sp_fencing_token (ptr_owner (lc_pointer c))) depth trade
        = Ok \<lparr>ptr_owner = successor_snapshot a, ptr_state = PointerLive, ptr_fenced_rejections = 0, ptr_gap_reason = None\<rparr>"
    if d: "derive_ownership_activation i g (ptr_owner (lc_pointer c)) depth trade = Ok a"
      and p: "ownership_prepare E to_vec a l = (Ok ack1, l1)"
      and q: "ownership_activate E to_vec (oa_activation_id a) l1 = (Ok ack2, l')"
      and e: "hb_successor_epoch (cp_boundary depth) = es_epoch candidate" for a ack1 ack2 l1 candidate
  proof -
    have b1: "ledger_bounded l1" using ownership_step_grows [of E to_vec "ActivateOwner (oa_activation_id a)" l1] q assms(6) by simp
    obtain bodies1 st1 where i1: "ledger_inv E from_slice l1 bodies1 st1" using prepare_inv(1) [OF assms(1,2) inv assms(5) p b1] by blast
    note pend = prepare_pending [OF p]
    note act = activate_inv [OF assms(1,2) i1 b1 q assms(6)]
    have o: "ow_active_owner l' = successor_snapshot a" "\<not> ow_poisoned l'" using act(2) pend by auto
    obtain bodies2 st2 where i2: "ledger_inv E from_slice l' bodies2 st2" "ox_last_activation st2 = Some a" using act(1) pend by auto
    show ?thesis using own_file_rescan [OF assms(1) i2(1) o(2,1) i2(2) _ d e] assms(7) o(1) by simp
  qed
  show ?thesis
  proof (cases rule: activate_committed_cases [OF assms(3,8), case_names refused unprepared unactivated unread moved])
    case (unprepared e a)
    then show ?thesis
      using prepare_inv(2) [OF assms(1,2) inv assms(5) unprepared(3) assms(6)] prepare_refused [OF assms(1) inv assms(5) unprepared(3) assms(6)]
        closed_ledger [of l' E to_vec] by auto
  next
    case (unactivated e a ack l1)
    have b1: "ledger_bounded l1"
      using ownership_step_grows [of E to_vec "ActivateOwner (oa_activation_id a)" l1] unactivated(4) assms(6) by simp
    obtain bodies1 st1 where i1: "ledger_inv E from_slice l1 bodies1 st1"
      using prepare_inv(1) [OF assms(1,2) inv assms(5) unactivated(3) b1] by blast
    have "ow_active_owner l' = ow_active_owner l1" using activate_inv(2) [OF assms(1,2) i1 b1 unactivated(4) assms(6)] by simp
    moreover have "ow_poisoned l' \<or> ow_pending l' \<noteq> None"
      using activate_refused [OF assms(1) i1 b1 unactivated(4) assms(6)] prepare_pending [OF unactivated(3)] by auto
    ultimately show ?thesis
      using unactivated(1,2) prepare_inv(2) [OF assms(1,2) inv assms(5) unactivated(3) b1] closed_ledger [of l' E to_vec] by auto
  next
    case (unread e a ack1 l1 ack2 candidate)
    have "hb_successor_epoch (cp_boundary depth) = es_epoch candidate" using unread(7) by (simp add: depth_proof_matches_def)
    then show ?thesis using whole [OF unread(3-5)] unread(8) by auto
  next
    case (moved report h p a ack1 l1 ack2 candidate)
    have "hb_successor_epoch (cp_boundary depth) = es_epoch candidate"
      using rescan_Ok(3) [OF moved(8)] recover_Ok(5) moved(8) derive_activation_Ok(7) [OF moved(3)]
        activations_proofs_fields(1) unfolding rescan_pointer_def by (fastforce simp: successor_snapshot_def split: if_splits)
    then have o: "ow_active_owner l' = successor_snapshot a" "ptr_owner p = successor_snapshot a"
      using whole [OF moved(3-5)] moved(8) by auto
    show ?thesis using moved(1,2,10) o rescan_Ok(1) [OF moved(8)] derive_activation_Ok(1,5) [OF moved(3)]
      by (simp add: successor_snapshot_def)
  qed simp_all
qed

section \<open>An activation whose sync fails\<close>

lemma unsynced_activate:
  assumes "sha256_len32 E" "record_round_trip to_vec from_slice" "ledger_inv E from_slice l bodies st" "\<not> ow_poisoned l"
    "ow_pending l = Some (a, pd)" "sk_plan (ow_sink l) = IoOk # IoErr k # plan"
    "length (to_vec (activated_record (ow_record_count l) (ow_previous_digest l) pd)) \<le> OWNERSHIP_MAX_RECORD_BYTES"
  shows "\<exists>e l'. ownership_activate E to_vec (oa_activation_id a) l = (Err e, l')
     \<and> (\<exists>scan. scan = scan_ownership_ledger E from_slice (sk_data (ow_sink l')) \<and> os_clean_eof scan
          \<and> 0 < os_records scan \<and> os_active_owner scan = Some (successor_snapshot a) \<and> os_last_activation scan = Some a)"
proof -
  let ?r = "activated_record (ow_record_count l) (ow_previous_digest l) pd"
  let ?st = "st\<lparr>ox_pending := None, ox_active_owner := Some (successor_snapshot a), ox_last_activation := Some a,
         ox_records := ow_record_count l + 1, ox_previous := sha256_hex E (to_vec ?r)\<rparr>"
  note inv = assms(3) [unfolded ledger_inv_def]
  have data: "sk_data (ow_sink l) = OWNERSHIP_MAGIC @ frame_bytes E bodies" using inv assms(4) by blast
  have u: "\<not> u32_max < length (to_vec ?r)" using assms(7) by (simp add: OWNERSHIP_MAX_RECORD_BYTES_def u32_max_def)
  have wf: "write_frame E (to_vec ?r) (ow_sink l)
      = (False, (ow_sink l)\<lparr>sk_data := sk_data (ow_sink l) @ encode_frame E (to_vec ?r), sk_plan := plan\<rparr>)"
    using assms(6) by (simp add: write_frame_def sink_write_all_def sink_sync_def)
  have act: "ownership_activate E to_vec (oa_activation_id a) l = (Err (Fail ''sync ownership record; ledger poisoned''),
      l\<lparr>ow_sink := (ow_sink l)\<lparr>sk_data := sk_data (ow_sink l) @ encode_frame E (to_vec ?r), sk_plan := plan\<rparr>,
        ow_poisoned := True\<rparr>)"
    using assms(4,5,7) u wf by (simp add: ownership_activate_def ownership_append_def Let_def)
  have view: "ledger_view l st" using inv by blast
  have b: "ledger_bodies E from_slice (bodies @ [to_vec ?r]) ?st"
    using inv by (intro ledger_bodies_snoc [OF _ _ assms(2,7) activate_step [OF view assms(5)]]) (auto simp: ledger_bodies_def)
  define scan where "scan = scan_ownership_ledger E from_slice (OWNERSHIP_MAGIC @ frame_bytes E (bodies @ [to_vec ?r]))"
  have fit: "frames_fit OWNERSHIP_MAX_RECORD_BYTES from_slice (bodies @ [to_vec ?r])"
    "run_steps ownership_scan_step (frames_of E from_slice (bodies @ [to_vec ?r])) ownership_scan_start = Some ?st"
    using b by (simp_all add: ledger_bodies_def)
  note s = scan_ownership_frames [OF scan_whole_journal [OF assms(1) fit] scan_def]
  have eq: "sk_data (ow_sink l) @ encode_frame E (to_vec ?r) = OWNERSHIP_MAGIC @ frame_bytes E (bodies @ [to_vec ?r])"
    using data by simp
  show ?thesis unfolding act
    using s unfolding scan_def eq [symmetric] by simp
qed

text \<open>
  C40. A failed sync leaves two owners. When the record of the activation reaches the file but its sync
  fails, the activation answers an error and the coordinator keeps publishing for the old owner, while
  the ledger on disk already recovers the successor as the live owner.
\<close>

theorem unsynced_activation_leaves_two_owners:
  assumes "sha256_len32 E" "record_round_trip to_vec from_slice" "written_ledger E to_vec l1" "ledger_bounded l1"
    and "candidate_converged (lc_handover c)" "hc_candidate (lc_handover c) = Some candidate"
    and "depth_proof_matches (lc_handover c) candidate depth trade" "proofs_continue_pointer (ptr_owner (lc_pointer c)) depth trade"
    and "derive_ownership_activation i g (ptr_owner (lc_pointer c)) depth trade = Ok a"
    and "ownership_prepare E to_vec a l = (Ok ack, l1)" "\<not> ow_poisoned l1" "ptr_state (lc_pointer c) = PointerLive"
    and "sk_plan (ow_sink l1) = IoOk # IoErr k # plan"
    and "length (to_vec (activated_record (ow_record_count l1) (ow_previous_digest l1) (ow_previous_digest l1)))
      \<le> OWNERSHIP_MAX_RECORD_BYTES"
  shows "\<exists>e l' p. activate_committed E to_vec from_slice snap_vec read_path i g depth trade c l = (Err e, c, l')
     \<and> ptr_state (lc_pointer c) = PointerLive
     \<and> pointer_recover (scan_ownership_ledger E from_slice (sk_data (ow_sink l'))) (Some (depth, trade)) = Ok p
     \<and> ptr_state p = PointerLive \<and> sp_fencing_token (ptr_owner p) = sp_fencing_token (ptr_owner (lc_pointer c)) + 1"
proof -
  obtain bodies st where inv: "ledger_inv E from_slice l1 bodies st" using written_ledger_inv [OF assms(1-4)] by blast
  have pend: "ow_pending l1 = Some (a, ow_previous_digest l1)"
    using assms(10) by (auto simp: ownership_prepare_def ownership_append_def Let_def
        split: if_splits sum.splits prod.splits bool.splits option.splits)
  obtain e l' scan where u: "ownership_activate E to_vec (oa_activation_id a) l1 = (Err e, l')"
    "scan = scan_ownership_ledger E from_slice (sk_data (ow_sink l'))" "os_clean_eof scan" "0 < os_records scan"
    "os_active_owner scan = Some (successor_snapshot a)" "os_last_activation scan = Some a"
    using unsynced_activate [OF assms(1,2) inv assms(11) pend assms(13,14)] by blast
  have act: "activate_committed E to_vec from_slice snap_vec read_path i g depth trade c l = (Err e, c, l')"
    using assms(5-10) u(1) by (simp add: activate_committed_def)
  note d = derive_activation_Ok [OF assms(9)]
  have "pointer_recover scan (Some (depth, trade))
      = Ok \<lparr>ptr_owner = successor_snapshot a, ptr_state = PointerLive, ptr_fenced_rejections = 0, ptr_gap_reason = None\<rparr>"
    using u(3-6) validate_successor [OF d(3)] d(4) by (simp add: pointer_recover_def)
  then show ?thesis using act assms(12) d(1) unfolding u(2)
    by (intro exI [of _ e] exI [of _ l'] exI [of _ "\<lparr>ptr_owner = successor_snapshot a, ptr_state = PointerLive,
        ptr_fenced_rejections = 0, ptr_gap_reason = None\<rparr>"] conjI) (simp_all add: successor_snapshot_def)
qed

section \<open>Transport failures\<close>

lemma action_reachable:
  "handover_reachable h \<Longrightarrow> handover_reachable (snd (apply_transport_action e cand a h))"
  using hr_step [of h "BeginHandover (the cand)"] hr_step [of h CloseDraining] hr_step [of h "FailEpoch e _"]
  by (cases a) (auto simp: apply_transport_action_def split: option.splits)

lemma actions_reachable:
  "handover_reachable h \<Longrightarrow> handover_reachable (snd (apply_transport_actions e cand as h))"
proof (induction e cand as h rule: apply_transport_actions.induct)
  case (2 e cand a as h)
  obtain r h1 where s: "apply_transport_action e cand a h = (r, h1)" by (cases "apply_transport_action e cand a h")
  have "handover_reachable h1" using action_reachable [OF 2(2), of e cand a] s by simp
  then show ?case using 2(1) s by (cases r) auto
qed simp

text \<open>What a session reports on the step that ends it.\<close>

definition ending_actions :: "transport_action list \<Rightarrow> bool" where
  "ending_actions as \<longleftrightarrow>
     (\<exists>pre reason. (pre = [] \<or> (\<exists>n. pre = [RawEnqueued n])) \<and> \<not> trim_is_empty reason
        \<and> (as = pre @ [InvalidateEpoch reason] \<or> as = pre @ [EpochClosed reason]))"

lemma not_blank_w: "\<not> trim_is_empty (CHR ''w'' # s)" "\<not> trim_is_empty (CHR ''m'' # s)" "\<not> trim_is_empty (CHR ''b'' # s)"
  "\<not> trim_is_empty (CHR ''t'' # s)" "\<not> trim_is_empty (CHR ''p'' # s)" "\<not> trim_is_empty (CHR ''c'' # s)"
  "\<not> trim_is_empty (CHR ''s'' # s)"
  by (simp_all add: trim_is_empty_def split: list.split)

lemma ending_invalidate: "\<not> trim_is_empty m \<Longrightarrow> ending_actions [InvalidateEpoch m]" "\<not> trim_is_empty m \<Longrightarrow> ending_actions [EpochClosed m]"
  "\<not> trim_is_empty m \<Longrightarrow> ending_actions [RawEnqueued n, InvalidateEpoch m]"
  by (auto simp: ending_actions_def Cons_eq_append_conv)

lemma classify_error: "classify_server_shutdown E p = Inl e \<Longrightarrow> error_text e = ''serverShutdown event has invalid event time''"
  by (auto simp: classify_server_shutdown_def Let_def error_text_def split: option.splits if_splits)

lemma data_ending:
  assumes "handle_data E p t s = (Inr as, s')" "\<not> terminal_session s" "terminal_session s'"
  shows "ending_actions as"
  using assms
  by (auto simp: handle_data_def invalidate_def Let_def terminal_session_def classify_error not_blank_w
      split: if_splits option.splits prod.splits bool.splits sum.splits intro!: ending_invalidate)

lemma ping_ending:
  assumes "handle_ping p t s = (Inr as, s')" "\<not> terminal_session s" "terminal_session s'"
  shows "ending_actions as"
  using assms
  by (auto simp: handle_ping_def invalidate_def Let_def terminal_session_def not_blank_w
      split: if_splits intro!: ending_invalidate)

lemma handle_ending:
  assumes "ws_handle E input t s = (Inr as, s')" "\<not> terminal_session s" "terminal_session s'"
  shows "ending_actions as"
proof (cases "case ws_last_receive_mono_ns s of None \<Rightarrow> False | Some previous \<Rightarrow> t < previous")
  case True
  then show ?thesis using assms by (auto simp: ws_handle_def invalidate_def not_blank_w intro!: ending_invalidate)
next
  case False
  let ?s = "s\<lparr>ws_last_receive_mono_ns := Some t\<rparr>"
  have a: "\<not> terminal_session ?s" using assms(2) by (simp add: terminal_session_def)
  show ?thesis
  proof (cases input)
    case (WsData p)
    then have "handle_data E p t ?s = (Inr as, s')" using assms(1,2) False by (simp add: ws_handle_def Let_def)
    then show ?thesis by (rule data_ending [OF _ a assms(3)])
  next
    case (WsPing p)
    then have "handle_ping p t ?s = (Inr as, s')" using assms(1,2) False by (simp add: ws_handle_def Let_def)
    then show ?thesis by (rule ping_ending [OF _ a assms(3)])
  qed (use assms False in \<open>auto simp: ws_handle_def Let_def invalidate_def terminal_session_def not_blank_w
      split: if_splits intro!: ending_invalidate\<close>)
qed

lemma tick_ending:
  assumes "watchdog_tick now i d s = (Inr as, s')" "\<not> terminal_session s" "terminal_session s'"
  shows "ending_actions as"
  using assms by (auto simp: watchdog_tick_def invalidate_def Let_def terminal_session_def not_blank_w
      split: if_splits intro!: ending_invalidate)

text \<open>
  A transport that ends opens a gap: when the session of the active epoch closes or fails, on any input
  or watchdog tick, the actions it reports move the handover controller to a failed active epoch with the
  publication a gap.
\<close>

theorem transport_end_opens_gap:
  assumes "handover_reachable h" "es_epoch (hc_active h) = ws_epoch s" "es_state (hc_active h) \<noteq> Failed"
    and "ws_handle E input t s = (Ok as, s') \<or> watchdog_tick t i d s = (Ok as, s')"
    and "\<not> terminal_session s" "terminal_session s'"
  shows "\<exists>h'. apply_transport_actions (ws_epoch s) cand as h = (Ok (), h') \<and> hc_publication h' = PubGap
    \<and> es_state (hc_active h') = Failed \<and> handover_reachable h'"
proof -
  note inv = handover_invD [OF reachable_inv [OF assms(1)]]
  have "ending_actions as" using assms(4) handle_ending [OF _ assms(5,6)] tick_ending [OF _ assms(5,6)] by blast
  then obtain pre reason where as: "pre = [] \<or> (\<exists>n. pre = [RawEnqueued n])" "\<not> trim_is_empty reason"
    "as = pre @ [InvalidateEpoch reason] \<or> as = pre @ [EpochClosed reason]" by (auto simp: ending_actions_def)
  have nd: "\<not> is_epoch (ws_epoch s) (hc_draining h)"
    using inv(2) assms(2) by (auto simp: epochs_ok_def is_epoch_def split: option.splits)
  have nc: "es_state (hc_active h) \<noteq> Closed" using inv(1) by (simp add: roles_ok_def)
  obtain h' where f: "fail_epoch (ws_epoch s) reason h = (Ok (), h')" "hc_publication h' = PubGap" "es_state (hc_active h') = Failed"
    using as(2) assms(2,3) nc by (auto simp: fail_epoch_def Let_def)
  have "apply_transport_actions (ws_epoch s) cand as h = (Ok (), h')"
    using as(1,3) f(1) nd by (auto simp: apply_transport_action_def)
  then show ?thesis using f(2,3) actions_reachable [OF assms(1), of "ws_epoch s" cand as] by simp
qed

end
