(* ===== verification/Boundary_Selection.thy ===== *)
theory Boundary_Selection
  imports Boundary "HOL-Library.Sublist"
begin

text \<open>
  What the canonical selection of \<open>boundary.rs\<close> promises about the sequences it selects, and that a
  boundary derived by \<open>splice.rs\<close> is one the selection accepts.
\<close>

section \<open>The selected sequence\<close>

definition follows :: "boundary_stream_kind \<Rightarrow> canonical_observation \<Rightarrow> canonical_observation \<Rightarrow> bool" where
  "follows kind p x \<longleftrightarrow> co_final_sequence p < co_final_sequence x \<and> co_first_sequence x \<le> co_final_sequence p + 1
     \<and> (kind = Trade \<longrightarrow>
          co_first_sequence x = co_final_sequence p + 1 \<and> co_final_sequence x = co_final_sequence p + 1)"

lemma successively_snoc: "successively P (xs @ [x]) \<longleftrightarrow> successively P xs \<and> (xs \<noteq> [] \<longrightarrow> P (last xs) x)"
  by (auto simp: successively_append_iff)

lemma select_sequence_Ok:
  assumes "select_sequence_loop kind selected d xs = Ok (out, d')" "successively (follows kind) selected"
  shows "\<exists>more. out = selected @ more \<and> subseq more xs \<and> successively (follows kind) out \<and> length more + d' = length xs + d"
  using assms
proof (induction kind selected d xs rule: select_sequence_loop.induct)
  case (2 kind selected d x xs)
  have pushed: ?case if "select_sequence_loop kind (selected @ [x]) d xs = Ok (out, d')"
    "successively (follows kind) (selected @ [x])"
    "\<exists>more. out = (selected @ [x]) @ more \<and> subseq more xs \<and> successively (follows kind) out
       \<and> length more + d' = length xs + d"
    using that(3)
  proof (elim exE conjE)
    fix more
    assume "out = (selected @ [x]) @ more" "subseq more xs" "successively (follows kind) out"
      "length more + d' = length xs + d"
    then show ?case by (intro exI [of _ "x # more"]) simp
  qed
  show ?case
  proof (cases "selected = []")
    case True
    show ?thesis
    proof (rule pushed)
      show s: "successively (follows kind) (selected @ [x])" using True by simp
      show r: "select_sequence_loop kind (selected @ [x]) d xs = Ok (out, d')" using "2.prems"(1) True by simp
      show "\<exists>more. out = (selected @ [x]) @ more \<and> subseq more xs \<and> successively (follows kind) out
        \<and> length more + d' = length xs + d" by (rule "2.IH"(1) [OF True r s])
    qed
  next
    case False
    let ?n = "co_final_sequence (last selected) + 1"
    have n: "?n \<le> u64_max" using "2.prems"(1) False by (cases "checked_add (co_final_sequence (last selected)) 1") (auto simp: Let_def)
    then have ca: "ok_or e (checked_add (co_final_sequence (last selected)) 1) = Inr ?n" for e
      by (simp add: checked_add_def)
    note step = "2.prems"(1) [unfolded select_sequence_loop.simps Let_def ca rbind_simps]
    show ?thesis
    proof (cases "co_final_sequence x < ?n")
      case True
      have c: "co_final_sequence x = co_final_sequence (last selected)
          \<and> co_observation_sha256 x = co_observation_sha256 (last selected)"
        and r: "select_sequence_loop kind selected (d + 1) xs = Ok (out, d')"
        using step False True by (auto split: if_splits)
      obtain more where "out = selected @ more" "subseq more xs" "successively (follows kind) out"
        "length more + d' = length xs + (d + 1)"
        using "2.IH"(2) [OF False refl ca True c r "2.prems"(2)] by (elim exE conjE) (rule that)
      then show ?thesis by (intro exI [of _ more]) auto
    next
      case F2: False
      have g: "\<not> ?n < co_first_sequence x"
        "\<not> (kind = Trade \<and> (co_first_sequence x \<noteq> ?n \<or> co_final_sequence x \<noteq> ?n))"
        "select_sequence_loop kind (selected @ [x]) d xs = Ok (out, d')"
        using step False F2 by (auto split: if_splits)
      have s: "successively (follows kind) (selected @ [x])"
        using "2.prems"(2) F2 g(1,2) by (auto simp: successively_snoc follows_def)
      show ?thesis by (rule pushed [OF g(3) s]) (rule "2.IH"(3) [OF False refl ca F2 g(1,2,3) s])
    qed
  qed
qed simp

text \<open>Every sequence between the first and the last selected one lies in a selected observation.\<close>

lemma successively_covers:
  assumes "successively (follows kind) xs" "xs \<noteq> []" "co_first_sequence (hd xs) \<le> n" "n \<le> co_final_sequence (last xs)"
  shows "\<exists>x\<in>set xs. co_first_sequence x \<le> n \<and> n \<le> co_final_sequence x"
  using assms
proof (induction xs rule: rev_induct)
  case (snoc x xs)
  show ?case
  proof (cases "xs = []")
    case True
    then show ?thesis using snoc.prems by simp
  next
    case False
    then have f: "follows kind (last xs) x" "successively (follows kind) xs"
      using snoc.prems(1) by (auto simp: successively_snoc)
    show ?thesis
    proof (cases "n \<le> co_final_sequence (last xs)")
      case True
      then show ?thesis using snoc.IH [OF f(2) False _ True] snoc.prems(3) False by auto
    next
      case F2: False
      then show ?thesis using f(1) snoc.prems(4) by (auto simp: follows_def)
    qed
  qed
qed simp

lemma successively_final_sorted:
  "successively (follows kind) xs \<Longrightarrow> sorted_wrt (\<lambda>x y. co_final_sequence x < co_final_sequence y) xs"
proof (induction xs rule: rev_induct)
  case (snoc x xs)
  have s: "successively (follows kind) xs" "xs \<noteq> [] \<Longrightarrow> follows kind (last xs) x"
    using snoc.prems by (auto simp: successively_snoc)
  have "co_final_sequence y < co_final_sequence x" if "y \<in> set xs" for y
  proof -
    have "y = last xs \<or> co_final_sequence y < co_final_sequence (last xs)"
      using snoc.IH [OF s(1)] that by (cases xs rule: rev_cases) (auto simp: sorted_wrt_append)
    moreover have "follows kind (last xs) x" using s(2) that by (cases xs) auto
    ultimately show ?thesis by (auto simp: follows_def)
  qed
  then show ?case using snoc.IH [OF s(1)] by (simp add: sorted_wrt_append)
qed simp

section \<open>The accepted observations\<close>

lemma validate_loop_fits:
  "validate_observation_loop b e p xs = Ok () \<Longrightarrow> x \<in> set xs \<Longrightarrow> observation_fits b e x"
  by (induction b e p xs rule: validate_observation_loop.induct) (auto split: if_splits)

lemma validate_observations_fits:
  "validate_observations b xs e = Ok () \<Longrightarrow> x \<in> set xs \<Longrightarrow> observation_fits b e x"
  by (auto simp: validate_observations_def validate_loop_fits split: if_splits)

lemma validate_loop_frames:
  "validate_observation_loop b e p xs = Ok () \<Longrightarrow>
     map co_frame_index xs = [(case p of None \<Rightarrow> co_frame_index (hd xs) | Some f \<Rightarrow> f + 1)..<
       (case p of None \<Rightarrow> co_frame_index (hd xs) | Some f \<Rightarrow> f + 1) + length xs]"
proof (induction b e p xs rule: validate_observation_loop.induct)
  case (2 b e p x xs)
  have rest: "validate_observation_loop b e (Some (co_frame_index x)) xs = Ok ()"
    and here: "p = Some f \<Longrightarrow> co_frame_index x = f + 1" for f
    using 2(2) by (auto split: if_splits option.splits)
  have "map co_frame_index xs = [co_frame_index x + 1..<co_frame_index x + 1 + length xs]"
    using 2(1) [OF _ _ _ _ rest] 2(2) by (auto split: if_splits)
  moreover have "(case p of None \<Rightarrow> co_frame_index (hd (x # xs)) | Some f \<Rightarrow> f + 1) = co_frame_index x"
    using here by (cases p) auto
  moreover have "[c..<c + length (x # xs)] = c # [c + 1..<c + 1 + length xs]" for c
    by (simp add: upt_conv_Cons del: upt_Suc)
  ultimately show ?case by (simp only: list.map)
qed simp

lemma observations_distinct: "validate_observations b xs e = Ok () \<Longrightarrow> distinct (map co_frame_index xs)"
proof -
  assume "validate_observations b xs e = Ok ()"
  then have "validate_observation_loop b e None xs = Ok ()"
    by (auto simp: validate_observations_def split: if_splits)
  then show ?thesis using validate_loop_frames by fastforce
qed

section \<open>The selection\<close>

lemma find_last_of:
  assumes "find P (rev (xs @ ys)) = Some z" "\<forall>y\<in>set ys. \<not> P y" "\<forall>x\<in>set xs. P x"
  shows "xs \<noteq> [] \<and> z = last xs"
proof -
  have "find P (rev ys @ rev xs) = find P (rev xs)" using assms(2) by (induction ys rule: rev_induct) auto
  then show ?thesis using assms(1,3) by (cases xs rule: rev_cases) auto
qed

lemma find_first_of:
  assumes "find P (xs @ ys) = Some z" "\<forall>x\<in>set xs. \<not> P x"
  shows "ys \<noteq> []"
proof -
  have "find P (xs @ ys) = find P ys" using assms(2) by (induction xs) auto
  then show ?thesis using assms(1) by auto
qed

lemma filter_le_split: "length (filter (\<lambda>x. f x \<le> (c::nat)) xs) + length (filter (\<lambda>x. c < f x) xs) = length xs"
  by (induction xs) auto

lemma filter_ge_split: "length (filter (\<lambda>x. (c::nat) \<le> f x) xs) + length (filter (\<lambda>x. f x < c) xs) = length xs"
  by (induction xs) auto

lemma selected_ref_sel [simp]:
  "so_connection_epoch (selected_ref x) = co_connection_epoch x" "so_frame_index (selected_ref x) = co_frame_index x"
  "so_first_sequence (selected_ref x) = co_first_sequence x" "so_final_sequence (selected_ref x) = co_final_sequence x"
  by (simp_all add: selected_ref_def)

lemma select_canonical_Ok:
  assumes "select_canonical E to_vec b predecessor successor = Ok sel"
  obtains selected where
    "validate_boundary b = Ok ()"
    "validate_observations b predecessor (hb_predecessor_epoch b) = Ok ()"
    "validate_observations b successor (hb_successor_epoch b) = Ok ()"
    "validate_and_select_sequence (hb_stream_kind b) (selection_candidates b predecessor successor)
       = Ok (selected, cs_excluded_duplicate_records sel)"
    "selected \<noteq> []" "cs_selected sel = map selected_ref selected"
    "cs_excluded_overlap_records sel = excluded_overlap b predecessor successor"
    "cs_first_sequence sel = co_first_sequence (hd selected)"
    "cs_final_sequence sel = co_final_sequence (last selected)"
    "\<exists>p. find (\<lambda>x. co_connection_epoch x = hb_predecessor_epoch b) (rev selected) = Some p
       \<and> co_final_sequence p = hb_boundary_sequence b"
    "\<exists>q. find (\<lambda>x. co_connection_epoch x = hb_successor_epoch b) selected = Some q"
    "cs_stream_kind sel = hb_stream_kind b"
  using assms unfolding select_canonical_def
  by (auto simp: Let_def hd_map last_map split: if_splits prod.splits intro: that)

lemma subseq_set: "subseq xs ys \<Longrightarrow> x \<in> set xs \<Longrightarrow> x \<in> set ys"
  using subseq_conv_nths [of xs ys] set_nths_subset [of ys] by (auto simp: subset_iff)

definition covers :: "selected_observation \<Rightarrow> nat \<Rightarrow> bool" where
  "covers x n \<longleftrightarrow> so_first_sequence x \<le> n \<and> n \<le> so_final_sequence x"

definition ref_follows :: "boundary_stream_kind \<Rightarrow> selected_observation \<Rightarrow> selected_observation \<Rightarrow> bool" where
  "ref_follows kind p x \<longleftrightarrow> so_final_sequence p < so_final_sequence x \<and> so_first_sequence x \<le> so_final_sequence p + 1
     \<and> (kind = Trade \<longrightarrow>
          so_first_sequence x = so_final_sequence p + 1 \<and> so_final_sequence x = so_final_sequence p + 1)"

lemma ref_follows_iff [simp]: "ref_follows kind (selected_ref p) (selected_ref x) = follows kind p x"
  by (simp add: ref_follows_def follows_def)

lemma selected_split:
  assumes "subseq selected (selection_candidates b predecessor successor)"
    and "successively (follows (hb_stream_kind b)) selected" "hb_predecessor_epoch b \<noteq> hb_successor_epoch b"
    and "validate_observations b predecessor (hb_predecessor_epoch b) = Ok ()"
    and "validate_observations b successor (hb_successor_epoch b) = Ok ()"
    and "\<exists>p. find (\<lambda>x. co_connection_epoch x = hb_predecessor_epoch b) (rev selected) = Some p
       \<and> co_final_sequence p = hb_boundary_sequence b"
    and "\<exists>q. find (\<lambda>x. co_connection_epoch x = hb_successor_epoch b) selected = Some q"
  shows "\<exists>old new. map selected_ref selected = old @ new \<and> old \<noteq> [] \<and> new \<noteq> []
       \<and> so_final_sequence (last old) = hb_boundary_sequence b
       \<and> (\<forall>x\<in>set old. so_connection_epoch x = hb_predecessor_epoch b \<and> so_final_sequence x \<le> hb_boundary_sequence b)
       \<and> (\<forall>x\<in>set new. so_connection_epoch x = hb_successor_epoch b \<and> hb_boundary_sequence b < so_final_sequence x)"
proof -
  obtain old new where u: "selected = old @ new"
    "subseq old (filter (\<lambda>x. co_frame_index x \<le> rp_frame_index (hb_predecessor_last_selected b)) predecessor)"
    "subseq new (filter (\<lambda>x. rp_frame_index (hb_successor_first_selected b) \<le> co_frame_index x) successor)"
    using assms(1) [unfolded selection_candidates_def subseq_append_iff] by (elim exE conjE) (rule that)
  have old: "\<forall>x\<in>set old. co_connection_epoch x = hb_predecessor_epoch b"
    using validate_observations_fits [OF assms(4)] subseq_set [OF u(2)] by (auto simp: observation_fits_def)
  have new: "\<forall>x\<in>set new. co_connection_epoch x = hb_successor_epoch b"
    using validate_observations_fits [OF assms(5)] subseq_set [OF u(3)] by (auto simp: observation_fits_def)
  have o: "old \<noteq> [] \<and> co_final_sequence (last old) = hb_boundary_sequence b"
    using assms(6) find_last_of [of _ old new] old new assms(3) unfolding u(1) by fastforce
  have n: "new \<noteq> []" using assms(7) find_first_of [of _ old new] old assms(3) unfolding u(1) by fastforce
  have sw: "sorted_wrt (\<lambda>x y. co_final_sequence x < co_final_sequence y) (old @ new)"
    using successively_final_sorted [OF assms(2)] u(1) by simp
  have "\<forall>x\<in>set old. co_final_sequence x \<le> hb_boundary_sequence b"
    using sw o by (cases old rule: rev_cases) (auto simp: sorted_wrt_append)
  moreover have "\<forall>x\<in>set new. hb_boundary_sequence b < co_final_sequence x"
  proof
    fix x
    assume x: "x \<in> set new"
    have "last old \<in> set old" using o by simp
    then have "co_final_sequence (last old) < co_final_sequence x" using sw x unfolding sorted_wrt_append by blast
    then show "hb_boundary_sequence b < co_final_sequence x" using o by simp
  qed
  ultimately show ?thesis
    using o n old new u(1)
    by (intro exI [of _ "map selected_ref old"] exI [of _ "map selected_ref new"]) (auto simp: last_map)
qed

text \<open>
  C16. A canonical selection that is accepted leaves no sequence out and takes none twice: every
  sequence from its first to its last is covered by a selected observation, each selected observation
  reaches further than the one before it without a gap (on a trade stream by exactly one), everything
  up to the boundary comes from the predecessor epoch and everything after it from the successor epoch,
  and every observation is accounted for as selected, duplicate or overlap.
\<close>

theorem canonical_selection_contiguous:
  assumes "select_canonical E to_vec b predecessor successor = Ok sel"
  shows "(\<forall>n\<in>{cs_first_sequence sel..cs_final_sequence sel}. \<exists>x\<in>set (cs_selected sel). covers x n)
    \<and> (successively (ref_follows (hb_stream_kind b)) (cs_selected sel))
    \<and> (\<exists>old new. cs_selected sel = old @ new \<and> old \<noteq> [] \<and> new \<noteq> []
       \<and> so_final_sequence (last old) = hb_boundary_sequence b
       \<and> (\<forall>x\<in>set old. so_connection_epoch x = hb_predecessor_epoch b \<and> so_final_sequence x \<le> hb_boundary_sequence b)
       \<and> (\<forall>x\<in>set new. so_connection_epoch x = hb_successor_epoch b \<and> hb_boundary_sequence b < so_final_sequence x))
    \<and> (length (cs_selected sel) + cs_excluded_duplicate_records sel + cs_excluded_overlap_records sel
       = length predecessor + length successor)"
proof -
  obtain selected where s: "validate_boundary b = Ok ()"
    "validate_observations b predecessor (hb_predecessor_epoch b) = Ok ()"
    "validate_observations b successor (hb_successor_epoch b) = Ok ()"
    "validate_and_select_sequence (hb_stream_kind b) (selection_candidates b predecessor successor)
       = Ok (selected, cs_excluded_duplicate_records sel)"
    "selected \<noteq> []" "cs_selected sel = map selected_ref selected"
    "cs_excluded_overlap_records sel = excluded_overlap b predecessor successor"
    "cs_first_sequence sel = co_first_sequence (hd selected)"
    "cs_final_sequence sel = co_final_sequence (last selected)"
    "\<exists>p. find (\<lambda>x. co_connection_epoch x = hb_predecessor_epoch b) (rev selected) = Some p
       \<and> co_final_sequence p = hb_boundary_sequence b"
    "\<exists>q. find (\<lambda>x. co_connection_epoch x = hb_successor_epoch b) selected = Some q"
    by (rule select_canonical_Ok [OF assms])
  have sub: "subseq selected (selection_candidates b predecessor successor)"
    and suc: "successively (follows (hb_stream_kind b)) selected"
    and len: "length selected + cs_excluded_duplicate_records sel = length (selection_candidates b predecessor successor)"
    using select_sequence_Ok [OF s(4) [unfolded validate_and_select_sequence_def]] by auto
  have r1: "\<forall>n\<in>{cs_first_sequence sel..cs_final_sequence sel}. \<exists>x\<in>set (cs_selected sel). covers x n"
    using successively_covers [OF suc s(5)] s(6,8,9) by (auto simp: covers_def)
  have r2: "successively (ref_follows (hb_stream_kind b)) (cs_selected sel)"
    using suc s(6) by (simp add: successively_map)
  have r4: "length (cs_selected sel) + cs_excluded_duplicate_records sel + cs_excluded_overlap_records sel
       = length predecessor + length successor"
    using len filter_le_split [of co_frame_index "rp_frame_index (hb_predecessor_last_selected b)" predecessor]
      filter_ge_split [of "rp_frame_index (hb_successor_first_selected b)" co_frame_index successor]
    unfolding s(6,7) excluded_overlap_def selection_candidates_def length_map length_append by linarith
  have ne: "hb_predecessor_epoch b \<noteq> hb_successor_epoch b" using s(1) by (auto simp: validate_boundary_def)
  note r3 = selected_split [OF sub suc ne s(2,3,10,11), folded s(6)]
  show ?thesis by (rule conjI [OF r1 conjI [OF r2 conjI [OF r3 r4]]])
qed

section \<open>Derived boundaries\<close>

text \<open>A splice: the two sides observed the same thing at one sequence and the successor goes on.\<close>

definition splice_ok ::
  "boundary_stream_kind \<Rightarrow> (nat \<Rightarrow> canonical_observation option) \<Rightarrow> canonical_observation list \<Rightarrow> splice \<Rightarrow> bool" where
  "splice_ok kind by_sequence successor t =
     (case t of (p, s, c) \<Rightarrow>
        (\<exists>i. Suc i < length successor \<and> s = successor ! i \<and> c = successor ! Suc i)
        \<and> by_sequence (co_final_sequence s) = Some p \<and> co_observation_sha256 p = co_observation_sha256 s
        \<and> co_final_sequence s + 1 \<le> u64_max \<and> continues kind p s c (co_final_sequence s + 1))"

lemma splice_ok_Cons: "splice_ok kind m xs t \<Longrightarrow> splice_ok kind m (x # xs) t"
  by (auto simp: splice_ok_def)

lemma splice_ok_Cons_cases:
  assumes "splice_ok kind m (x # y # xs) (p, s, c)"
  shows "(s = x \<and> c = y) \<or> splice_ok kind m (y # xs) (p, s, c)"
proof -
  obtain i where i: "Suc i < length (x # y # xs)" "s = (x # y # xs) ! i" "c = (x # y # xs) ! Suc i"
    using assms by (auto simp: splice_ok_def)
  show ?thesis
  proof (cases i)
    case (Suc j)
    then have "Suc j < length (y # xs) \<and> s = (y # xs) ! j \<and> c = (y # xs) ! Suc j" using i by simp
    then have "\<exists>i. Suc i < length (y # xs) \<and> s = (y # xs) ! i \<and> c = (y # xs) ! Suc i" by blast
    then show ?thesis using assms by (simp add: splice_ok_def)
  qed (use i in simp)
qed

definition splice_best :: "nat \<Rightarrow> splice option \<Rightarrow> bool" where
  "splice_best k out = (case out of None \<Rightarrow> False | Some (q, _, _) \<Rightarrow> k \<le> co_final_sequence q)"

lemma splice_best_chosen:
  "splice_best k sel \<Longrightarrow> splice_best k
     (if P \<and> (case sel of None \<Rightarrow> True | Some (old, _, _) \<Rightarrow> co_final_sequence old < co_final_sequence p)
      then Some (p, s, c) else sel)"
  "P \<Longrightarrow> splice_best (co_final_sequence p)
     (if P \<and> (case sel of None \<Rightarrow> True | Some (old, _, _) \<Rightarrow> co_final_sequence old < co_final_sequence p)
      then Some (p, s, c) else sel)"
  by (auto simp: splice_best_def split: option.splits prod.splits)

lemma splice_loop_Ok:
  assumes "splice_loop kind m sel successor = Ok out"
  shows "out = sel \<or> (\<exists>t. out = Some t \<and> splice_ok kind m successor t)"
    and "splice_best k sel \<Longrightarrow> splice_best k out"
    and "splice_ok kind m successor (p, s, c) \<Longrightarrow> splice_best (co_final_sequence p) out"
proof -
  have "(out = sel \<or> (\<exists>t. out = Some t \<and> splice_ok kind m successor t)) \<and> (\<forall>k. splice_best k sel \<longrightarrow> splice_best k out)
      \<and> (\<forall>p s c. splice_ok kind m successor (p, s, c) \<longrightarrow> splice_best (co_final_sequence p) out)"
    using assms
  proof (induction kind m sel successor rule: splice_loop.induct)
    case (1 kind m sel x y rest)
    have skip: ?case if r: "splice_loop kind m sel (y # rest) = Ok out"
      and ih: "(out = sel \<or> (\<exists>t. out = Some t \<and> splice_ok kind m (y # rest) t)) \<and> (\<forall>k. splice_best k sel \<longrightarrow> splice_best k out)
        \<and> (\<forall>p s c. splice_ok kind m (y # rest) (p, s, c) \<longrightarrow> splice_best (co_final_sequence p) out)"
      and no: "\<And>p. \<not> (m (co_final_sequence x) = Some p \<and> co_observation_sha256 p = co_observation_sha256 x)"
    proof (intro conjI allI impI)
      show "out = sel \<or> (\<exists>t. out = Some t \<and> splice_ok kind m (x # y # rest) t)" using ih splice_ok_Cons by blast
      show "splice_best k out" if "splice_best k sel" for k using ih that by blast
      show "splice_best (co_final_sequence p) out" if "splice_ok kind m (x # y # rest) (p, s, c)" for p s c
        using splice_ok_Cons_cases [OF that]
      proof
        assume "s = x \<and> c = y"
        then show ?thesis using that no [of p] by (auto simp: splice_ok_def)
      qed (use ih in blast)
    qed
    show ?case
    proof (cases "m (co_final_sequence x)")
      case None
      then show ?thesis using "1.prems" "1.IH"(1) [OF None] by (intro skip) simp_all
    next
      case (Some q)
      show ?thesis
      proof (cases "co_observation_sha256 q = co_observation_sha256 x")
        case False
        then show ?thesis using "1.prems" "1.IH"(2) [OF Some False] Some by (intro skip) (simp_all, auto)
      next
        case True
        define sel' where "sel' = (if continues kind q x y (co_final_sequence x + 1)
            \<and> (case sel of None \<Rightarrow> True | Some (old, _, _) \<Rightarrow> co_final_sequence old < co_final_sequence q)
          then Some (q, x, y) else sel)"
        have n: "co_final_sequence x + 1 \<le> u64_max" using "1.prems" Some True
          by (cases "checked_add (co_final_sequence x) 1") auto
        then have ca: "ok_or e (checked_add (co_final_sequence x) 1) = Inr (co_final_sequence x + 1)" for e
          by (simp add: checked_add_def)
        have r: "splice_loop kind m sel' (y # rest) = Ok out"
          using "1.prems" unfolding splice_loop.simps Some sel'_def using True by (simp only: option.case ca rbind_simps if_False not_not simp_thms if_True)
        note ih = "1.IH"(3) [OF Some _ ca, folded sel'_def, OF _ r]
        have ih: "(out = sel' \<or> (\<exists>t. out = Some t \<and> splice_ok kind m (y # rest) t))
            \<and> (\<forall>k. splice_best k sel' \<longrightarrow> splice_best k out)
            \<and> (\<forall>p s c. splice_ok kind m (y # rest) (p, s, c) \<longrightarrow> splice_best (co_final_sequence p) out)"
          using ih True by simp
        have here: "splice_ok kind m (x # y # rest) (q, x, y)" if "continues kind q x y (co_final_sequence x + 1)"
          using Some True n that by (auto simp: splice_ok_def intro: exI [of _ 0])
        show ?thesis
        proof (intro conjI allI impI)
          show "out = sel \<or> (\<exists>t. out = Some t \<and> splice_ok kind m (x # y # rest) t)"
            using ih splice_ok_Cons here unfolding sel'_def by (smt (verit))
          show "splice_best k out" if "splice_best k sel" for k
            using ih splice_best_chosen(1) [OF that] unfolding sel'_def by blast
          show "splice_best (co_final_sequence p) out" if sp: "splice_ok kind m (x # y # rest) (p, s, c)" for p s c
            using splice_ok_Cons_cases [OF sp]
          proof
            assume "s = x \<and> c = y"
            then have "p = q \<and> continues kind q x y (co_final_sequence x + 1)" using sp Some by (auto simp: splice_ok_def)
            then show ?thesis using ih splice_best_chosen(2) unfolding sel'_def by blast
          qed (use ih in blast)
        qed
      qed
    qed
  qed (auto simp: splice_ok_def)
  then show "out = sel \<or> (\<exists>t. out = Some t \<and> splice_ok kind m successor t)"
    and "splice_best k sel \<Longrightarrow> splice_best k out"
    and "splice_ok kind m successor (p, s, c) \<Longrightarrow> splice_best (co_final_sequence p) out" by blast+
qed

lemma by_sequence_Some:
  assumes "predecessor_by_sequence predecessor k = Some p"
  shows "p \<in> set predecessor" "co_final_sequence p = k"
  using map_of_SomeD [OF assms [unfolded predecessor_by_sequence_def]] by auto

lemma find_unique:
  assumes "distinct (map f xs)" "x \<in> set xs"
  shows "find (\<lambda>y. f y = f x) xs = Some x"
  using assms by (induction xs) (auto simp: rev_image_eqI)

lemma find_position_self:
  assumes "validate_observations b xs e = Ok ()" "x \<in> set xs"
  shows "find_position xs (position x) = Ok x"
  using find_unique [OF observations_distinct [OF assms(1)] assms(2)] by (simp add: find_position_def position_def)

lemma derive_Ok:
  assumes "derive_handover_boundary i kind predecessor successor pd sd revision = Ok b"
  obtains p s c where
    "splice_loop kind (predecessor_by_sequence predecessor) None successor = Ok (Some (p, s, c))"
    "validate_boundary b = Ok ()" "hb_stream_kind b = kind" "hb_boundary_sequence b = co_final_sequence p"
    "hb_boundary_sha256 b = co_observation_sha256 p" "hb_predecessor_last_selected b = position p"
    "hb_successor_boundary_observation b = position s" "hb_successor_first_selected b = position c"
    "hb_boundary_id b = i"
  using assms unfolding derive_handover_boundary_def
  by (auto simp: Let_def split: if_splits list.splits prod.splits intro: that)

text \<open>
  C31. A derived boundary is one the canonical selection can use: it is valid, it names the latest
  convergence of the two epochs that the successor continues, and on observations that pass their own
  validation the three positions it names are found and prove the convergence, so that the selection
  never fails on the boundary itself.
\<close>

theorem derived_boundary_is_proved:
  assumes "derive_handover_boundary i kind predecessor successor pd sd revision = Ok b"
    and "validate_observations b predecessor (hb_predecessor_epoch b) = Ok ()"
    and "validate_observations b successor (hb_successor_epoch b) = Ok ()"
  shows "(validate_boundary b = Ok ())
    \<and> (\<exists>p s c. find_position predecessor (hb_predecessor_last_selected b) = Ok p
       \<and> find_position successor (hb_successor_boundary_observation b) = Ok s
       \<and> find_position successor (hb_successor_first_selected b) = Ok c
       \<and> validate_boundary_observations b p s c = Ok ())
    \<and> (\<forall>p s c. splice_ok kind (predecessor_by_sequence predecessor) successor (p, s, c)
       \<longrightarrow> co_final_sequence p \<le> hb_boundary_sequence b)"
proof -
  obtain p s c where d: "splice_loop kind (predecessor_by_sequence predecessor) None successor = Ok (Some (p, s, c))"
    "validate_boundary b = Ok ()" "hb_stream_kind b = kind" "hb_boundary_sequence b = co_final_sequence p"
    "hb_boundary_sha256 b = co_observation_sha256 p" "hb_predecessor_last_selected b = position p"
    "hb_successor_boundary_observation b = position s" "hb_successor_first_selected b = position c"
    by (rule derive_Ok [OF assms(1)])
  have ok: "splice_ok kind (predecessor_by_sequence predecessor) successor (p, s, c)"
    using splice_loop_Ok(1) [OF d(1)] by auto
  have mem: "p \<in> set predecessor" "s \<in> set successor" "c \<in> set successor" "co_final_sequence p = co_final_sequence s"
    using ok by_sequence_Some [of predecessor "co_final_sequence s" p] by (auto simp: splice_ok_def)
  have "validate_boundary_observations b p s c = Ok ()"
    using ok mem(4) d(3-5)
    by (cases kind) (auto simp: validate_boundary_observations_def splice_ok_def continues_def checked_add_def)
  then have r2: "\<exists>p s c. find_position predecessor (hb_predecessor_last_selected b) = Ok p
       \<and> find_position successor (hb_successor_boundary_observation b) = Ok s
       \<and> find_position successor (hb_successor_first_selected b) = Ok c
       \<and> validate_boundary_observations b p s c = Ok ()"
    using find_position_self [OF assms(2) mem(1)] find_position_self [OF assms(3) mem(2)]
      find_position_self [OF assms(3) mem(3)] d(6-8)
    by (intro exI [of _ p] exI [of _ s] exI [of _ c]) simp
  have r1: "validate_boundary b = Ok ()" by (rule d(2))
  have r3: "\<forall>p s c. splice_ok kind (predecessor_by_sequence predecessor) successor (p, s, c)
       \<longrightarrow> co_final_sequence p \<le> hb_boundary_sequence b"
    using splice_loop_Ok(3) [OF d(1)] d(4) by (auto simp: splice_best_def)
  show ?thesis by (rule conjI [OF r1 conjI [OF r2 r3]])
qed

end
