(* ===== verification/Canonical_Output.thy ===== *)
theory Canonical_Output
  imports Framed_Log Lanes
begin

text \<open>
  The durable downstream output of one canonical stream, \<open>src/rust/lob-replay/src/canonical_output.rs\<close>:
  a framed, hash-chained file of observations and ownership changes, its writer, its scan, resuming it and
  recovering its valid prefix. A file is its bytes, \<open>serde_json\<close> on the record is a pair of parameters,
  and the writer's sink scripts the failures of its writes. Plain \<open>u64\<close> additions abort on overflow.
\<close>

section \<open>Data\<close>

definition OUTPUT_MAGIC :: bytes where
  "OUTPUT_MAGIC = [66, 78, 80, 85, 66, 0, 1, 10]"

definition OUTPUT_MAX_RECORD_BYTES :: nat where
  "OUTPUT_MAX_RECORD_BYTES = 262144"

datatype canonical_output_action = OutInitialized | OutObservation | OutOwnershipChanged

record canonical_output_owner =
  oo_generation_id :: string
  oo_connection_epoch :: string
  oo_fencing_token :: nat
  oo_last_sequence :: nat

record canonical_output_record =
  cr_schema :: string
  cr_record_index :: nat
  cr_action :: canonical_output_action
  cr_symbol :: string
  cr_stream_kind :: boundary_stream_kind
  cr_owner :: canonical_output_owner
  cr_observation :: "canonical_observation option"
  cr_ownership_activation_record_sha256 :: "string option"
  cr_previous_record_sha256 :: string

record canonical_output_ack =
  ca_schema :: string
  ca_action :: canonical_output_action
  ca_durable_record_count :: nat
  ca_durable_through_offset :: nat
  ca_last_record_sha256 :: string
  ca_owner :: canonical_output_owner

record canonical_output_scan =
  cn_schema :: string
  cn_records :: nat
  cn_observations :: nat
  cn_ownership_changes :: nat
  cn_last_good_offset :: nat
  cn_clean_eof :: bool
  cn_reason :: "string option"
  cn_symbol :: "string option"
  cn_stream_kind :: "boundary_stream_kind option"
  cn_owner :: "canonical_output_owner option"
  cn_last_observation :: "canonical_observation option"
  cn_last_record_sha256 :: string

record canonical_output_writer =
  cw_sink :: sink
  cw_symbol :: string
  cw_stream_kind :: boundary_stream_kind
  cw_owner :: canonical_output_owner
  cw_record_count :: nat
  cw_end_offset :: nat
  cw_previous_digest :: string
  cw_poisoned :: bool

definition validate_output_identity :: "string \<Rightarrow> canonical_output_owner \<Rightarrow> unit res" where
  "validate_output_identity symbol owner =
     (if symbol \<notin> {''BTCUSDT'', ''ETHUSDT''} \<or> trim_is_empty (oo_generation_id owner)
         \<or> trim_is_empty (oo_connection_epoch owner) \<or> oo_fencing_token owner = 0
      then Err (Fail ''invalid canonical output identity'') else Ok ())"

definition valid_digest :: "string \<Rightarrow> bool" where
  "valid_digest d \<longleftrightarrow> length d = 64 \<and> list_all is_lower_hex d"

section \<open>The writer\<close>

definition output_record ::
  "canonical_output_action \<Rightarrow> canonical_output_owner \<Rightarrow> canonical_observation option \<Rightarrow> string option
     \<Rightarrow> canonical_output_writer \<Rightarrow> canonical_output_record" where
  "output_record action owner observation activation w =
     \<lparr>cr_schema = ''CanonicalOutputRecordV1'', cr_record_index = cw_record_count w, cr_action = action,
      cr_symbol = cw_symbol w, cr_stream_kind = cw_stream_kind w, cr_owner = owner, cr_observation = observation,
      cr_ownership_activation_record_sha256 = activation, cr_previous_record_sha256 = cw_previous_digest w\<rparr>"

definition output_append ::
  "'v externals \<Rightarrow> (canonical_output_record \<Rightarrow> bytes) \<Rightarrow> canonical_output_record \<Rightarrow> canonical_output_writer
     \<Rightarrow> canonical_output_ack res \<times> canonical_output_writer" where
  "output_append E to_vec r w =
     (if cw_poisoned w then (Err (Fail ''canonical output writer is poisoned''), w)
      else
        let body = to_vec r in
        if OUTPUT_MAX_RECORD_BYTES < length body
        then (Err (Fail ''canonical output record exceeds maximum size''), w)
        else
          (case write_frame E body (cw_sink w) of
             (False, sk) \<Rightarrow>
               (Err (Fail ''sync canonical output; writer poisoned''), w\<lparr>cw_sink := sk, cw_poisoned := True\<rparr>)
           | (True, sk) \<Rightarrow>
               (case add_u64 (cw_record_count w) 1 of
                  Inl e \<Rightarrow> (Err e, w\<lparr>cw_sink := sk\<rparr>)
                | Inr count \<Rightarrow>
                    (case add_u64 (cw_end_offset w) (length (encode_frame E body)) of
                       Inl e \<Rightarrow> (Err e, w\<lparr>cw_sink := sk, cw_record_count := count\<rparr>)
                     | Inr offset \<Rightarrow>
                         (Ok \<lparr>ca_schema = ''CanonicalOutputAckV1'', ca_action = cr_action r,
                              ca_durable_record_count = count, ca_durable_through_offset = offset,
                              ca_last_record_sha256 = sha256_hex E body, ca_owner = cr_owner r\<rparr>,
                          w\<lparr>cw_sink := sk, cw_record_count := count, cw_end_offset := offset,
                            cw_previous_digest := sha256_hex E body\<rparr>)))))"

definition output_from_sink ::
  "'v externals \<Rightarrow> (canonical_output_record \<Rightarrow> bytes) \<Rightarrow> sink \<Rightarrow> string \<Rightarrow> boundary_stream_kind \<Rightarrow> canonical_output_owner
     \<Rightarrow> canonical_output_writer res" where
  "output_from_sink E to_vec sk symbol kind owner =
     (case validate_output_identity symbol owner of
        Inl e \<Rightarrow> Err e
      | Inr _ \<Rightarrow>
     (case sink_write_all OUTPUT_MAGIC sk of
        (False, _) \<Rightarrow> Err (Fail ''sync canonical output magic'')
      | (True, sk1) \<Rightarrow>
     (case sink_sync sk1 of
        (False, _) \<Rightarrow> Err (Fail ''sync canonical output magic'')
      | (True, sk2) \<Rightarrow>
          let w = \<lparr>cw_sink = sk2, cw_symbol = symbol, cw_stream_kind = kind, cw_owner = owner, cw_record_count = 0,
                   cw_end_offset = length OUTPUT_MAGIC, cw_previous_digest = ZERO_DIGEST, cw_poisoned = False\<rparr>
          in (case output_append E to_vec (output_record OutInitialized owner None None w) w of
                (Inl e, _) \<Rightarrow> Err e
              | (Inr _, w1) \<Rightarrow> Ok w1))))"

text \<open>The continuity test of \<open>publish\<close> and of the scan.\<close>

definition output_continuous :: "boundary_stream_kind \<Rightarrow> nat \<Rightarrow> canonical_observation \<Rightarrow> bool" where
  "output_continuous kind expected x =
     (case kind of
        Depth \<Rightarrow> co_first_sequence x \<le> expected \<and> expected \<le> co_final_sequence x
      | Trade \<Rightarrow> co_first_sequence x = expected \<and> co_final_sequence x = expected)"

definition publish ::
  "'v externals \<Rightarrow> (canonical_output_record \<Rightarrow> bytes) \<Rightarrow> canonical_observation \<Rightarrow> canonical_output_writer
     \<Rightarrow> canonical_output_ack res \<times> canonical_output_writer" where
  "publish E to_vec x w =
     (if co_symbol x \<noteq> cw_symbol w \<or> co_stream_kind x \<noteq> cw_stream_kind w
         \<or> co_connection_epoch x \<noteq> oo_connection_epoch (cw_owner w)
      then (Err (Fail ''canonical observation rejected by output ownership fence''), w)
      else case checked_add (oo_last_sequence (cw_owner w)) 1 of
        None \<Rightarrow> (Err (Fail ''canonical output sequence overflow''), w)
      | Some expected \<Rightarrow>
          if \<not> output_continuous (cw_stream_kind w) expected x
          then (Err (FailN ''canonical output gap'' [expected, co_first_sequence x, co_final_sequence x]), w)
          else
            let next = (cw_owner w)\<lparr>oo_last_sequence := co_final_sequence x\<rparr> in
            (case output_append E to_vec (output_record OutObservation next (Some x) None w) w of
               (Inl e, w1) \<Rightarrow> (Err e, w1)
             | (Inr ack, w1) \<Rightarrow> (Ok ack, w1\<lparr>cw_owner := next\<rparr>)))"

definition next_fencing_token :: "nat \<Rightarrow> nat" where
  "next_fencing_token t = (case checked_add t 1 of None \<Rightarrow> 0 | Some n \<Rightarrow> n)"

definition change_owner ::
  "'v externals \<Rightarrow> (canonical_output_record \<Rightarrow> bytes) \<Rightarrow> string \<Rightarrow> string \<Rightarrow> nat \<Rightarrow> nat \<Rightarrow> string \<Rightarrow> canonical_output_writer
     \<Rightarrow> canonical_output_ack res \<times> canonical_output_writer" where
  "change_owner E to_vec generation epoch token boundary activation w =
     (if trim_is_empty generation \<or> trim_is_empty epoch \<or> generation = oo_generation_id (cw_owner w)
         \<or> epoch = oo_connection_epoch (cw_owner w) \<or> token \<noteq> next_fencing_token (oo_fencing_token (cw_owner w))
         \<or> boundary \<noteq> oo_last_sequence (cw_owner w) \<or> \<not> valid_digest activation
      then (Err (Fail ''invalid canonical output ownership transition''), w)
      else
        let next = \<lparr>oo_generation_id = generation, oo_connection_epoch = epoch, oo_fencing_token = token,
                    oo_last_sequence = boundary\<rparr> in
        (case output_append E to_vec (output_record OutOwnershipChanged next None (Some activation) w) w of
           (Inl e, w1) \<Rightarrow> (Err e, w1)
         | (Inr ack, w1) \<Rightarrow> (Ok ack, w1\<lparr>cw_owner := next\<rparr>)))"

section \<open>The scan\<close>

record output_scan_state =
  cx_records :: nat
  cx_observations :: nat
  cx_ownership_changes :: nat
  cx_previous :: string
  cx_symbol :: "string option"
  cx_kind :: "boundary_stream_kind option"
  cx_owner :: "canonical_output_owner option"
  cx_last_observation :: "canonical_observation option"

definition validate_output_record :: "canonical_output_record \<Rightarrow> output_scan_state \<Rightarrow> unit res" where
  "validate_output_record r s =
     (if cr_schema r \<noteq> ''CanonicalOutputRecordV1'' \<or> cr_record_index r \<noteq> cx_records s
         \<or> cr_previous_record_sha256 r \<noteq> cx_previous s
         \<or> (case cx_symbol s of None \<Rightarrow> False | Some v \<Rightarrow> v \<noteq> cr_symbol r)
         \<or> (case cx_kind s of None \<Rightarrow> False | Some v \<Rightarrow> v \<noteq> cr_stream_kind r)
      then Err (Fail ''canonical output record identity mismatch'')
      else rbind (validate_output_identity (cr_symbol r) (cr_owner r)) (\<lambda>_.
        case cr_action r of
          OutInitialized \<Rightarrow>
            check (\<not> (cx_records s \<noteq> 0 \<or> cx_owner s \<noteq> None \<or> cr_observation r \<noteq> None
                     \<or> cr_ownership_activation_record_sha256 r \<noteq> None))
              (Fail ''illegal canonical output initialization'')
        | OutObservation \<Rightarrow>
            rbind (ok_or (Fail ''observation before initialization'') (cx_owner s)) (\<lambda>old.
            rbind (ok_or (Fail ''observation record lacks observation'') (cr_observation r)) (\<lambda>x.
            rbind (ok_or (Fail ''sequence overflow'') (checked_add (oo_last_sequence old) 1)) (\<lambda>expected.
            check (\<not> (\<not> output_continuous (cr_stream_kind r) expected x \<or> co_symbol x \<noteq> cr_symbol r
                     \<or> co_stream_kind x \<noteq> cr_stream_kind r \<or> co_connection_epoch x \<noteq> oo_connection_epoch old
                     \<or> oo_generation_id (cr_owner r) \<noteq> oo_generation_id old
                     \<or> oo_connection_epoch (cr_owner r) \<noteq> oo_connection_epoch old
                     \<or> oo_fencing_token (cr_owner r) \<noteq> oo_fencing_token old
                     \<or> oo_last_sequence (cr_owner r) \<noteq> co_final_sequence x
                     \<or> cr_ownership_activation_record_sha256 r \<noteq> None))
              (Fail ''invalid canonical output observation''))))
        | OutOwnershipChanged \<Rightarrow>
            rbind (ok_or (Fail ''ownership change before initialization'') (cx_owner s)) (\<lambda>old.
            rbind (ok_or (Fail ''ownership change lacks activation proof'') (cr_ownership_activation_record_sha256 r)) (\<lambda>digest.
            check (\<not> (\<not> valid_digest digest \<or> cr_observation r \<noteq> None
                     \<or> oo_generation_id (cr_owner r) = oo_generation_id old
                     \<or> oo_connection_epoch (cr_owner r) = oo_connection_epoch old
                     \<or> oo_fencing_token (cr_owner r) \<noteq> next_fencing_token (oo_fencing_token old)
                     \<or> oo_last_sequence (cr_owner r) \<noteq> oo_last_sequence old))
              (Fail ''invalid canonical output ownership change'')))))"

text \<open>
  One accepted record; a file of \<open>u64\<close> length holds fewer than \<open>u64::MAX\<close> records, so the counts of a
  scan cannot overflow.
\<close>

definition output_scan_step :: "canonical_output_record \<Rightarrow> string \<Rightarrow> output_scan_state \<Rightarrow> unit res \<times> output_scan_state" where
  "output_scan_step r digest s =
     (case validate_output_record r s of
        Inl e \<Rightarrow> (Err (Fail ''invalid canonical output transition/continuity''), s)
      | Inr _ \<Rightarrow>
          let s1 = (case cr_action r of
                      OutObservation \<Rightarrow>
                        s\<lparr>cx_observations := cx_observations s + 1, cx_last_observation := cr_observation r\<rparr>
                    | OutOwnershipChanged \<Rightarrow> s\<lparr>cx_ownership_changes := cx_ownership_changes s + 1\<rparr>
                    | OutInitialized \<Rightarrow> s)
          in (Ok (), s1\<lparr>cx_symbol := Some (case cx_symbol s of None \<Rightarrow> cr_symbol r | Some v \<Rightarrow> v),
                        cx_kind := Some (case cx_kind s of None \<Rightarrow> cr_stream_kind r | Some v \<Rightarrow> v),
                        cx_owner := Some (cr_owner r), cx_previous := digest, cx_records := cx_records s + 1\<rparr>))"

definition output_scan_start :: output_scan_state where
  "output_scan_start = \<lparr>cx_records = 0, cx_observations = 0, cx_ownership_changes = 0, cx_previous = ZERO_DIGEST,
     cx_symbol = None, cx_kind = None, cx_owner = None, cx_last_observation = None\<rparr>"

text \<open>The loop, on the bytes still to read: the state, the offset it reached and why it stopped.\<close>

function output_scan_loop ::
  "'v externals \<Rightarrow> (bytes \<Rightarrow> canonical_output_record option) \<Rightarrow> bytes \<Rightarrow> nat \<Rightarrow> output_scan_state
     \<Rightarrow> output_scan_state \<times> nat \<times> string option" where
  "output_scan_loop E from_slice bs off s =
     (if bs = [] then (s, off, None)
      else if length bs < 4 then (s, off, Some ''partial canonical output length'')
      else
        let n = from_be_bytes (take 4 bs); rest = drop 4 bs in
        if n = 0 \<or> OUTPUT_MAX_RECORD_BYTES < n then (s, off, Some ''invalid canonical output record length'')
        else if length rest < n + 32 then (s, off, Some ''partial canonical output record'')
        else if sha256 E (take n rest) \<noteq> take 32 (drop n rest)
        then (s, off, Some ''canonical output digest mismatch'')
        else case from_slice (take n rest) of
          None \<Rightarrow> (s, off, Some ''invalid canonical output JSON'')
        | Some r \<Rightarrow>
            (case output_scan_step r (hex (take 32 (drop n rest))) s of
               (Inl e, s1) \<Rightarrow> (s1, off, Some ''invalid canonical output transition/continuity'')
             | (Inr _, s1) \<Rightarrow> output_scan_loop E from_slice (drop (n + 32) rest) (off + (4 + n + 32)) s1))"
  by pat_completeness auto
termination
  by (relation "measure (\<lambda>(E, from_slice, bs, off, s). length bs)") auto

declare output_scan_loop.simps [simp del]

definition scan_canonical_output ::
  "'v externals \<Rightarrow> (bytes \<Rightarrow> canonical_output_record option) \<Rightarrow> bytes \<Rightarrow> canonical_output_scan res" where
  "scan_canonical_output E from_slice bs =
     (if take 8 bs \<noteq> OUTPUT_MAGIC then Err (Fail ''bad canonical output magic'')
      else
        let (s, offset, reason) = output_scan_loop E from_slice (drop 8 bs) (length OUTPUT_MAGIC) output_scan_start
        in Ok \<lparr>cn_schema = ''CanonicalOutputScanV1'', cn_records = cx_records s, cn_observations = cx_observations s,
               cn_ownership_changes = cx_ownership_changes s, cn_last_good_offset = offset,
               cn_clean_eof = (reason = None \<and> offset = length bs), cn_reason = reason, cn_symbol = cx_symbol s,
               cn_stream_kind = cx_kind s, cn_owner = cx_owner s, cn_last_observation = cx_last_observation s,
               cn_last_record_sha256 = cx_previous s\<rparr>)"

section \<open>Resuming and recovering\<close>

text \<open>\<open>bs\<close> is the file when it is scanned, \<open>sk\<close> the file opened for appending afterwards.\<close>

definition output_resume ::
  "'v externals \<Rightarrow> (bytes \<Rightarrow> canonical_output_record option) \<Rightarrow> bytes \<Rightarrow> sink \<Rightarrow> canonical_output_writer res" where
  "output_resume E from_slice bs sk =
     rbind (scan_canonical_output E from_slice bs) (\<lambda>scan.
     if \<not> cn_clean_eof scan \<or> cn_records scan = 0
     then Err (Fail ''canonical output cannot resume from an unclean journal'')
     else rbind (ok_or (Fail ''canonical output scan lacks symbol'') (cn_symbol scan)) (\<lambda>symbol.
       rbind (ok_or (Fail ''canonical output scan lacks stream kind'') (cn_stream_kind scan)) (\<lambda>kind.
       rbind (ok_or (Fail ''canonical output scan lacks owner'') (cn_owner scan)) (\<lambda>owner.
       if length (sk_data sk) \<noteq> cn_last_good_offset scan
       then Err (Fail ''canonical output changed during resume'')
       else Ok \<lparr>cw_sink = sk, cw_symbol = symbol, cw_stream_kind = kind, cw_owner = owner,
                cw_record_count = cn_records scan, cw_end_offset = cn_last_good_offset scan,
                cw_previous_digest = cn_last_record_sha256 scan, cw_poisoned = False\<rparr>))))"

text \<open>
  \<open>bs\<close> is the source when it is scanned, \<open>bs2\<close> when it is copied, \<open>sk\<close> the new destination file
  (none when \<open>create_new\<close> refuses); the result carries the recovered file.
\<close>

definition recover_canonical_output_prefix ::
  "'v externals \<Rightarrow> (bytes \<Rightarrow> canonical_output_record option) \<Rightarrow> bytes \<Rightarrow> bytes \<Rightarrow> sink option
     \<Rightarrow> (canonical_output_scan \<times> bytes) res" where
  "recover_canonical_output_prefix E from_slice bs bs2 destination =
     rbind (scan_canonical_output E from_slice bs) (\<lambda>source.
     if cn_records source = 0 then Err (Fail ''canonical output has no complete record to recover'')
     else if length bs2 < cn_last_good_offset source
     then Err (Fail ''canonical recovery source shrank after scan'')
     else rbind (ok_or (Fail ''create canonical recovered prefix'') destination) (\<lambda>sk.
       case sink_write_all (take (cn_last_good_offset source) bs2) sk of
         (False, _) \<Rightarrow> Err (Fail ''copy canonical recovered prefix'')
       | (True, sk1) \<Rightarrow>
           (case sink_sync sk1 of
              (False, _) \<Rightarrow> Err (Fail ''sync canonical recovered prefix'')
            | (True, sk2) \<Rightarrow>
                rbind (scan_canonical_output E from_slice (sk_data sk2)) (\<lambda>recovered.
                if \<not> cn_clean_eof recovered \<or> cn_records recovered \<noteq> cn_records source
                   \<or> cn_last_record_sha256 recovered \<noteq> cn_last_record_sha256 source
                   \<or> cn_owner recovered \<noteq> cn_owner source
                then Err (Fail ''recovered canonical prefix failed exact rescan'')
                else Ok (recovered, sk_data sk2)))))"

end
