(* ===== verification/Concrete_Codec.thy ===== *)
theory Concrete_Codec
  imports Ownership Boundary_Journal Canonical_Output Concrete_Externals
begin

text \<open>
  A concrete codec for the journal records, used by the witnesses only: every field in turn, a string as
  its bytes each after a one and closed by a zero, a number in unary, an option with a leading flag. It has
  the round trip the theorems ask of \<open>serde_json\<close>.
\<close>

section \<open>Fields\<close>

fun enc_str :: "string \<Rightarrow> bytes" where
  "enc_str [] = [0]"
| "enc_str (c # cs) = 1 # of_nat (of_char c) # enc_str cs"

fun dec_str_bytes :: "bytes \<Rightarrow> (string \<times> bytes) option" where
  "dec_str_bytes [] = None"
| "dec_str_bytes (b # bs) =
     (if b = 0 then Some ([], bs)
      else (case bs of
              [] \<Rightarrow> None
            | c # rest \<Rightarrow> map_option (\<lambda>(s, r). (char_of (unat c) # s, r)) (dec_str_bytes rest)))"

fun enc_nat :: "nat \<Rightarrow> bytes" where
  "enc_nat 0 = [0]"
| "enc_nat (Suc n) = 1 # enc_nat n"

fun dec_nat :: "bytes \<Rightarrow> (nat \<times> bytes) option" where
  "dec_nat [] = None"
| "dec_nat (b # bs) = (if b = 0 then Some (0, bs) else map_option (\<lambda>(n, r). (Suc n, r)) (dec_nat bs))"

fun enc_opt :: "('a \<Rightarrow> bytes) \<Rightarrow> 'a option \<Rightarrow> bytes" where
  "enc_opt f None = [0]"
| "enc_opt f (Some x) = 1 # f x"

fun dec_opt :: "(bytes \<Rightarrow> ('a \<times> bytes) option) \<Rightarrow> bytes \<Rightarrow> ('a option \<times> bytes) option" where
  "dec_opt d [] = None"
| "dec_opt d (b # bs) = (if b = 0 then Some (None, bs) else map_option (\<lambda>(x, r). (Some x, r)) (d bs))"

lemma dec_enc_str [simp]: "dec_str_bytes (enc_str s @ rest) = Some (s, rest)"
proof (induction s)
  case (Cons c cs)
  have "unat (of_nat (of_char c) :: 8 word) = of_char c" by (simp add: unat_of_nat)
  then show ?case using Cons by simp
qed simp

lemma dec_enc_nat [simp]: "dec_nat (enc_nat n @ rest) = Some (n, rest)"
  by (induction n) simp_all

lemma length_enc [simp]: "length (enc_str s) = 2 * length s + 1" "length (enc_nat n) = n + 1"
  by (induction s) (simp_all, induction n, simp_all)

section \<open>Boundaries\<close>

definition enc_position :: "raw_position \<Rightarrow> bytes" where
  "enc_position p = enc_str (rp_connection_epoch p) @ enc_str (rp_stream p) @ enc_nat (rp_frame_index p) @ enc_str (rp_record_sha256 p)"

definition dec_position :: "bytes \<Rightarrow> (raw_position \<times> bytes) option" where
  "dec_position b0 =
     Option.bind (dec_str_bytes b0) (\<lambda>(e, b1). Option.bind (dec_str_bytes b1) (\<lambda>(s, b2). Option.bind (dec_nat b2) (\<lambda>(f, b3).
     Option.bind (dec_str_bytes b3) (\<lambda>(d, b4).
       Some (\<lparr>rp_connection_epoch = e, rp_stream = s, rp_frame_index = f, rp_record_sha256 = d\<rparr>, b4)))))"

lemma dec_enc_position [simp]: "dec_position (enc_position p @ rest) = Some (p, rest)"
  by (simp add: dec_position_def enc_position_def)

definition enc_durability :: "boundary_durability \<Rightarrow> bytes" where
  "enc_durability d = enc_nat (bd_durable_through_frame_index d) @ enc_nat (bd_durable_through_offset d)
     @ enc_str (bd_last_record_sha256 d)"

definition dec_durability :: "bytes \<Rightarrow> (boundary_durability \<times> bytes) option" where
  "dec_durability b0 =
     Option.bind (dec_nat b0) (\<lambda>(f, b1). Option.bind (dec_nat b1) (\<lambda>(off, b2). Option.bind (dec_str_bytes b2) (\<lambda>(d, b3).
       Some (\<lparr>bd_durable_through_frame_index = f, bd_durable_through_offset = off, bd_last_record_sha256 = d\<rparr>, b3))))"

lemma dec_enc_durability [simp]: "dec_durability (enc_durability p @ rest) = Some (p, rest)"
  by (simp add: dec_durability_def enc_durability_def)

definition enc_kind :: "boundary_stream_kind \<Rightarrow> bytes" where
  "enc_kind k = (case k of Depth \<Rightarrow> [0] | Trade \<Rightarrow> [1])"

definition dec_kind :: "bytes \<Rightarrow> (boundary_stream_kind \<times> bytes) option" where
  "dec_kind bs = (case bs of [] \<Rightarrow> None | b # rest \<Rightarrow> Some (if b = 0 then Depth else Trade, rest))"

lemma dec_enc_kind [simp]: "dec_kind (enc_kind k @ rest) = Some (k, rest)"
  by (cases k) (simp_all add: dec_kind_def enc_kind_def)

definition enc_boundary :: "handover_boundary \<Rightarrow> bytes" where
  "enc_boundary b =
     enc_str (hb_schema b) @ enc_str (hb_boundary_id b) @ enc_str (hb_environment b) @ enc_str (hb_symbol b)
     @ enc_kind (hb_stream_kind b) @ enc_str (hb_stream b) @ enc_str (hb_predecessor_epoch b) @ enc_str (hb_successor_epoch b)
     @ enc_nat (hb_boundary_sequence b) @ enc_str (hb_boundary_sha256 b) @ enc_position (hb_predecessor_last_selected b)
     @ enc_position (hb_successor_boundary_observation b) @ enc_position (hb_successor_first_selected b)
     @ enc_durability (hb_predecessor_durability b) @ enc_durability (hb_successor_durability b)
     @ enc_str (hb_spec_revision b) @ enc_str (hb_selector_version b)"

definition dec_boundary :: "bytes \<Rightarrow> (handover_boundary \<times> bytes) option" where
  "dec_boundary b0 =
     Option.bind (dec_str_bytes b0) (\<lambda>(x1, b1). Option.bind (dec_str_bytes b1) (\<lambda>(x2, b2). Option.bind (dec_str_bytes b2) (\<lambda>(x3, b3).
     Option.bind (dec_str_bytes b3) (\<lambda>(x4, b4). Option.bind (dec_kind b4) (\<lambda>(x5, b5). Option.bind (dec_str_bytes b5) (\<lambda>(x6, b6).
     Option.bind (dec_str_bytes b6) (\<lambda>(x7, b7). Option.bind (dec_str_bytes b7) (\<lambda>(x8, b8). Option.bind (dec_nat b8) (\<lambda>(x9, b9).
     Option.bind (dec_str_bytes b9) (\<lambda>(x10, b10). Option.bind (dec_position b10) (\<lambda>(x11, b11). Option.bind (dec_position b11) (\<lambda>(x12, b12).
     Option.bind (dec_position b12) (\<lambda>(x13, b13). Option.bind (dec_durability b13) (\<lambda>(x14, b14).
     Option.bind (dec_durability b14) (\<lambda>(x15, b15). Option.bind (dec_str_bytes b15) (\<lambda>(x16, b16). Option.bind (dec_str_bytes b16) (\<lambda>(x17, b17).
       Some (\<lparr>hb_schema = x1, hb_boundary_id = x2, hb_environment = x3, hb_symbol = x4, hb_stream_kind = x5, hb_stream = x6,
         hb_predecessor_epoch = x7, hb_successor_epoch = x8, hb_boundary_sequence = x9, hb_boundary_sha256 = x10,
         hb_predecessor_last_selected = x11, hb_successor_boundary_observation = x12, hb_successor_first_selected = x13,
         hb_predecessor_durability = x14, hb_successor_durability = x15, hb_spec_revision = x16, hb_selector_version = x17\<rparr>,
         b17))))))))))))))))))"

lemma dec_enc_boundary [simp]: "dec_boundary (enc_boundary b @ rest) = Some (b, rest)"
  by (simp add: dec_boundary_def enc_boundary_def)

lemma dec_enc_opt_boundary [simp]: "dec_opt dec_boundary (enc_opt enc_boundary x @ rest) = Some (x, rest)"
  by (cases x) simp_all

lemma dec_enc_opt_str [simp]: "dec_opt dec_str_bytes (enc_opt enc_str x @ rest) = Some (x, rest)"
  by (cases x) simp_all

definition enc_boundary_record :: "boundary_journal_record \<Rightarrow> bytes" where
  "enc_boundary_record r =
     enc_str (bj_schema r) @ enc_nat (bj_record_index r) @ enc_nat (case bj_action r of Proposed \<Rightarrow> 0 | Committed \<Rightarrow> 1)
     @ enc_str (bj_boundary_id r) @ enc_opt enc_boundary (bj_boundary r)
     @ enc_opt enc_str (bj_proposal_record_sha256 r) @ enc_str (bj_previous_record_sha256 r)"

definition dec_boundary_record :: "bytes \<Rightarrow> boundary_journal_record option" where
  "dec_boundary_record b0 =
     Option.bind (dec_str_bytes b0) (\<lambda>(x1, b1). Option.bind (dec_nat b1) (\<lambda>(x2, b2). Option.bind (dec_nat b2) (\<lambda>(x3, b3).
     Option.bind (dec_str_bytes b3) (\<lambda>(x4, b4). Option.bind (dec_opt dec_boundary b4) (\<lambda>(x5, b5).
     Option.bind (dec_opt dec_str_bytes b5) (\<lambda>(x6, b6). Option.bind (dec_str_bytes b6) (\<lambda>(x7, b7).
       Some \<lparr>bj_schema = x1, bj_record_index = x2, bj_action = (if x3 = 0 then Proposed else Committed),
         bj_boundary_id = x4, bj_boundary = x5, bj_proposal_record_sha256 = x6, bj_previous_record_sha256 = x7\<rparr>)))))))"

lemma dec_enc_last [simp]: "dec_str_bytes (enc_str s) = Some (s, [])"
  using dec_enc_str [of s "[]"] by simp

lemma boundary_codec: "record_round_trip enc_boundary_record dec_boundary_record"
  by (auto simp: record_round_trip_def dec_boundary_record_def enc_boundary_record_def split: boundary_journal_action.split)

section \<open>Ownership\<close>

definition enc_snapshot :: "source_pointer_snapshot \<Rightarrow> bytes" where
  "enc_snapshot s =
     enc_str (sp_schema s) @ enc_str (sp_symbol s) @ enc_str (sp_generation_id s) @ enc_str (sp_depth_epoch s)
     @ enc_str (sp_trade_epoch s) @ enc_nat (sp_fencing_token s) @ enc_nat (sp_depth_last_sequence s)
     @ enc_nat (sp_trade_last_sequence s)"

definition dec_snapshot :: "bytes \<Rightarrow> (source_pointer_snapshot \<times> bytes) option" where
  "dec_snapshot b0 =
     Option.bind (dec_str_bytes b0) (\<lambda>(x1, b1). Option.bind (dec_str_bytes b1) (\<lambda>(x2, b2). Option.bind (dec_str_bytes b2) (\<lambda>(x3, b3).
     Option.bind (dec_str_bytes b3) (\<lambda>(x4, b4). Option.bind (dec_str_bytes b4) (\<lambda>(x5, b5). Option.bind (dec_nat b5) (\<lambda>(x6, b6).
     Option.bind (dec_nat b6) (\<lambda>(x7, b7). Option.bind (dec_nat b7) (\<lambda>(x8, b8).
       Some (\<lparr>sp_schema = x1, sp_symbol = x2, sp_generation_id = x3, sp_depth_epoch = x4, sp_trade_epoch = x5,
         sp_fencing_token = x6, sp_depth_last_sequence = x7, sp_trade_last_sequence = x8\<rparr>, b8)))))))))"

lemma dec_enc_snapshot [simp]: "dec_snapshot (enc_snapshot s @ rest) = Some (s, rest)"
  by (simp add: dec_snapshot_def enc_snapshot_def)

definition enc_activation :: "ownership_activation \<Rightarrow> bytes" where
  "enc_activation a =
     enc_str (oa_schema a) @ enc_str (oa_activation_id a) @ enc_str (oa_symbol a) @ enc_str (oa_predecessor_generation a)
     @ enc_str (oa_successor_generation a) @ enc_str (oa_predecessor_depth_epoch a) @ enc_str (oa_predecessor_trade_epoch a)
     @ enc_str (oa_successor_depth_epoch a) @ enc_str (oa_successor_trade_epoch a) @ enc_str (oa_depth_boundary_id a)
     @ enc_str (oa_trade_boundary_id a) @ enc_str (oa_depth_commit_record_sha256 a) @ enc_str (oa_trade_commit_record_sha256 a)
     @ enc_nat (oa_depth_boundary_sequence a) @ enc_nat (oa_trade_boundary_sequence a) @ enc_nat (oa_fencing_token a)"

definition dec_activation :: "bytes \<Rightarrow> (ownership_activation \<times> bytes) option" where
  "dec_activation b0 =
     Option.bind (dec_str_bytes b0) (\<lambda>(x1, b1). Option.bind (dec_str_bytes b1) (\<lambda>(x2, b2). Option.bind (dec_str_bytes b2) (\<lambda>(x3, b3).
     Option.bind (dec_str_bytes b3) (\<lambda>(x4, b4). Option.bind (dec_str_bytes b4) (\<lambda>(x5, b5). Option.bind (dec_str_bytes b5) (\<lambda>(x6, b6).
     Option.bind (dec_str_bytes b6) (\<lambda>(x7, b7). Option.bind (dec_str_bytes b7) (\<lambda>(x8, b8). Option.bind (dec_str_bytes b8) (\<lambda>(x9, b9).
     Option.bind (dec_str_bytes b9) (\<lambda>(x10, b10). Option.bind (dec_str_bytes b10) (\<lambda>(x11, b11). Option.bind (dec_str_bytes b11) (\<lambda>(x12, b12).
     Option.bind (dec_str_bytes b12) (\<lambda>(x13, b13). Option.bind (dec_nat b13) (\<lambda>(x14, b14). Option.bind (dec_nat b14) (\<lambda>(x15, b15).
     Option.bind (dec_nat b15) (\<lambda>(x16, b16).
       Some (\<lparr>oa_schema = x1, oa_activation_id = x2, oa_symbol = x3, oa_predecessor_generation = x4, oa_successor_generation = x5,
         oa_predecessor_depth_epoch = x6, oa_predecessor_trade_epoch = x7, oa_successor_depth_epoch = x8,
         oa_successor_trade_epoch = x9, oa_depth_boundary_id = x10, oa_trade_boundary_id = x11,
         oa_depth_commit_record_sha256 = x12, oa_trade_commit_record_sha256 = x13, oa_depth_boundary_sequence = x14,
         oa_trade_boundary_sequence = x15, oa_fencing_token = x16\<rparr>, b16)))))))))))))))))"

lemma dec_enc_activation [simp]: "dec_activation (enc_activation a @ rest) = Some (a, rest)"
  by (simp add: dec_activation_def enc_activation_def)

lemma dec_enc_opt_snapshot [simp]: "dec_opt dec_snapshot (enc_opt enc_snapshot x @ rest) = Some (x, rest)"
  by (cases x) simp_all

lemma dec_enc_opt_activation [simp]: "dec_opt dec_activation (enc_opt enc_activation x @ rest) = Some (x, rest)"
  by (cases x) simp_all

definition enc_ownership_record :: "ownership_record \<Rightarrow> bytes" where
  "enc_ownership_record r =
     enc_str (or_schema r) @ enc_nat (or_record_index r)
     @ enc_nat (case or_action r of Initialized \<Rightarrow> 0 | Prepared \<Rightarrow> 1 | Activated \<Rightarrow> 2)
     @ enc_opt enc_snapshot (or_initial_owner r) @ enc_opt enc_activation (or_activation r)
     @ enc_opt enc_str (or_prepared_record_sha256 r) @ enc_str (or_previous_record_sha256 r)"

definition dec_ownership_record :: "bytes \<Rightarrow> ownership_record option" where
  "dec_ownership_record b0 =
     Option.bind (dec_str_bytes b0) (\<lambda>(x1, b1). Option.bind (dec_nat b1) (\<lambda>(x2, b2). Option.bind (dec_nat b2) (\<lambda>(x3, b3).
     Option.bind (dec_opt dec_snapshot b3) (\<lambda>(x4, b4). Option.bind (dec_opt dec_activation b4) (\<lambda>(x5, b5).
     Option.bind (dec_opt dec_str_bytes b5) (\<lambda>(x6, b6). Option.bind (dec_str_bytes b6) (\<lambda>(x7, b7).
       Some \<lparr>or_schema = x1, or_record_index = x2,
         or_action = (if x3 = 0 then Initialized else if x3 = 1 then Prepared else Activated),
         or_initial_owner = x4, or_activation = x5, or_prepared_record_sha256 = x6, or_previous_record_sha256 = x7\<rparr>)))))))"

lemma ownership_codec: "record_round_trip enc_ownership_record dec_ownership_record"
  by (auto simp: record_round_trip_def dec_ownership_record_def enc_ownership_record_def split: ownership_action.split)

section \<open>The canonical output\<close>

definition enc_output_owner :: "canonical_output_owner \<Rightarrow> bytes" where
  "enc_output_owner x = enc_str (oo_generation_id x) @ enc_str (oo_connection_epoch x) @ enc_nat (oo_fencing_token x)
     @ enc_nat (oo_last_sequence x)"

definition dec_output_owner :: "bytes \<Rightarrow> (canonical_output_owner \<times> bytes) option" where
  "dec_output_owner b0 =
     Option.bind (dec_str_bytes b0) (\<lambda>(x1, b1). Option.bind (dec_str_bytes b1) (\<lambda>(x2, b2). Option.bind (dec_nat b2) (\<lambda>(x3, b3).
     Option.bind (dec_nat b3) (\<lambda>(x4, b4).
       Some (\<lparr>oo_generation_id = x1, oo_connection_epoch = x2, oo_fencing_token = x3, oo_last_sequence = x4\<rparr>, b4)))))"

lemma dec_enc_output_owner [simp]: "dec_output_owner (enc_output_owner x @ rest) = Some (x, rest)"
  by (simp add: dec_output_owner_def enc_output_owner_def)

definition enc_observation :: "canonical_observation \<Rightarrow> bytes" where
  "enc_observation x = enc_str (co_symbol x) @ enc_kind (co_stream_kind x) @ enc_str (co_stream x)
     @ enc_str (co_connection_epoch x) @ enc_nat (co_frame_index x) @ enc_nat (co_first_sequence x)
     @ enc_nat (co_final_sequence x) @ enc_str (co_record_sha256 x) @ enc_str (co_observation_sha256 x)"

definition dec_observation :: "bytes \<Rightarrow> (canonical_observation \<times> bytes) option" where
  "dec_observation b0 =
     Option.bind (dec_str_bytes b0) (\<lambda>(x1, b1). Option.bind (dec_kind b1) (\<lambda>(x2, b2). Option.bind (dec_str_bytes b2) (\<lambda>(x3, b3).
     Option.bind (dec_str_bytes b3) (\<lambda>(x4, b4). Option.bind (dec_nat b4) (\<lambda>(x5, b5). Option.bind (dec_nat b5) (\<lambda>(x6, b6).
     Option.bind (dec_nat b6) (\<lambda>(x7, b7). Option.bind (dec_str_bytes b7) (\<lambda>(x8, b8). Option.bind (dec_str_bytes b8) (\<lambda>(x9, b9).
       Some (\<lparr>co_symbol = x1, co_stream_kind = x2, co_stream = x3, co_connection_epoch = x4, co_frame_index = x5,
         co_first_sequence = x6, co_final_sequence = x7, co_record_sha256 = x8, co_observation_sha256 = x9\<rparr>, b9))))))))))"

lemma dec_enc_observation [simp]: "dec_observation (enc_observation x @ rest) = Some (x, rest)"
  by (simp add: dec_observation_def enc_observation_def)

lemma dec_enc_opt_observation [simp]: "dec_opt dec_observation (enc_opt enc_observation x @ rest) = Some (x, rest)"
  by (cases x) simp_all

definition enc_output_record :: "canonical_output_record \<Rightarrow> bytes" where
  "enc_output_record r =
     enc_str (cr_schema r) @ enc_nat (cr_record_index r)
     @ enc_nat (case cr_action r of OutInitialized \<Rightarrow> 0 | OutObservation \<Rightarrow> 1 | OutOwnershipChanged \<Rightarrow> 2)
     @ enc_str (cr_symbol r) @ enc_kind (cr_stream_kind r) @ enc_output_owner (cr_owner r)
     @ enc_opt enc_observation (cr_observation r) @ enc_opt enc_str (cr_ownership_activation_record_sha256 r)
     @ enc_str (cr_previous_record_sha256 r)"

definition dec_output_record :: "bytes \<Rightarrow> canonical_output_record option" where
  "dec_output_record b0 =
     Option.bind (dec_str_bytes b0) (\<lambda>(x1, b1). Option.bind (dec_nat b1) (\<lambda>(x2, b2). Option.bind (dec_nat b2) (\<lambda>(x3, b3).
     Option.bind (dec_str_bytes b3) (\<lambda>(x4, b4). Option.bind (dec_kind b4) (\<lambda>(x5, b5). Option.bind (dec_output_owner b5) (\<lambda>(x6, b6).
     Option.bind (dec_opt dec_observation b6) (\<lambda>(x7, b7). Option.bind (dec_opt dec_str_bytes b7) (\<lambda>(x8, b8).
     Option.bind (dec_str_bytes b8) (\<lambda>(x9, b9).
       Some \<lparr>cr_schema = x1, cr_record_index = x2,
         cr_action = (if x3 = 0 then OutInitialized else if x3 = 1 then OutObservation else OutOwnershipChanged),
         cr_symbol = x4, cr_stream_kind = x5, cr_owner = x6, cr_observation = x7,
         cr_ownership_activation_record_sha256 = x8, cr_previous_record_sha256 = x9\<rparr>)))))))))"

lemma output_record_codec: "record_round_trip enc_output_record dec_output_record"
  by (auto simp: record_round_trip_def dec_output_record_def enc_output_record_def split: canonical_output_action.split)

lemma enc_str_nonempty [simp]: "enc_str s \<noteq> []"
  by (cases s) simp_all

end
