(* ===== verification/Transport_Safety.thy ===== *)
theory Transport_Safety
  imports Transport Concrete_Externals "HOL-Library.Sublist"
begin

text \<open>
  The properties of the WebSocket session: no received frame is lost silently, answered pings stay within
  the venue's rate, and a connection that stops answering is found out.
\<close>

section \<open>Sessions\<close>

datatype transport_op = HandleInput ws_input nat | WatchdogTick nat nat nat | DrainFrame

fun transport_step ::
  "'v externals \<Rightarrow> transport_op \<Rightarrow> public_ws_session
     \<Rightarrow> transport_action list res \<times> queued_raw_frame option \<times> public_ws_session" where
  "transport_step E (HandleInput input t) s = (case ws_handle E input t s of (r, s1) \<Rightarrow> (r, None, s1))"
| "transport_step E (WatchdogTick t i d) s = (case watchdog_tick t i d s of (r, s1) \<Rightarrow> (r, None, s1))"
| "transport_step E DrainFrame s = (case drain_one (ws_raw_sink s) of (f, k) \<Rightarrow> (Ok [], f, s\<lparr>ws_raw_sink := k\<rparr>))"

type_synonym transport_log = "(transport_op \<times> transport_action list res \<times> queued_raw_frame option) list"

fun transport_run :: "'v externals \<Rightarrow> transport_op list \<Rightarrow> public_ws_session \<Rightarrow> transport_log \<times> public_ws_session" where
  "transport_run E [] s = ([], s)"
| "transport_run E (op # ops) s =
     (let (r, f, s1) = transport_step E op s; (log, s2) = transport_run E ops s1 in ((op, r, f) # log, s2))"

fun payload_of :: "transport_op \<Rightarrow> bytes list" where
  "payload_of (HandleInput (WsData p) t) = [p]"
| "payload_of op = []"

definition data_payloads :: "transport_op list \<Rightarrow> bytes list" where
  "data_payloads ops = concat (map payload_of ops)"

definition drained_frames :: "transport_log \<Rightarrow> queued_raw_frame list" where
  "drained_frames log = List.map_filter (\<lambda>(op, r, f). f) log"

lemma transport_run_Cons:
  assumes "transport_run E (op # ops) s = (log, s')"
  obtains r f s1 log1 where "transport_step E op s = (r, f, s1)" "transport_run E ops s1 = (log1, s')"
    "log = (op, r, f) # log1"
  using assms by (auto split: prod.splits)

section \<open>Frames\<close>

definition frames_inv :: "nat \<Rightarrow> queued_raw_frame list \<Rightarrow> bytes list \<Rightarrow> public_ws_session \<Rightarrow> bool" where
  "frames_inv capacity drained payloads s \<longleftrightarrow>
     (let k = ws_raw_sink s; all = drained @ rk_queue k in
      map qf_frame_index all = [0..<ws_next_frame_index s] \<and> prefix (map qf_payload all) payloads
      \<and> (\<not> terminal_session s \<longrightarrow> map qf_payload all = payloads)
      \<and> rk_capacity k = capacity \<and> length (rk_queue k) \<le> capacity \<and> rk_enqueued k = ws_next_frame_index s
      \<and> rk_drained k = length drained \<and> rk_local_drops k \<le> (if ws_state s = TsFailed then 1 else 0)
      \<and> ws_next_frame_index s \<le> u64_max)"

lemma frames_inv_new: "ws_session_new epoch capacity = Ok s \<Longrightarrow> frames_inv capacity [] [] s"
  by (auto simp: ws_session_new_def raw_sink_new_def frames_inv_def Let_def u64_max_def split: if_splits)

text \<open>A step that leaves the queue and the index alone.\<close>

lemma frames_inv_idle:
  assumes "frames_inv capacity drained payloads s" "ws_raw_sink s' = ws_raw_sink s"
    "ws_next_frame_index s' = ws_next_frame_index s" "terminal_session s \<Longrightarrow> ws_state s' = ws_state s"
    "later = [] \<or> terminal_session s'"
  shows "frames_inv capacity drained (payloads @ later) s'"
proof -
  have "prefix xs payloads \<Longrightarrow> prefix xs (payloads @ later)" for xs by (simp add: prefix_prefix)
  moreover have "\<not> terminal_session s' \<Longrightarrow> \<not> terminal_session s" using assms(4) by (auto simp: terminal_session_def)
  moreover have "ws_state s = TsFailed \<Longrightarrow> ws_state s' = TsFailed" using assms(4) by (simp add: terminal_session_def)
  ultimately show ?thesis using assms(1-3,5) by (auto simp: frames_inv_def Let_def split: if_splits)
qed

lemma frames_inv_data:
  assumes "frames_inv capacity drained payloads s" "\<not> terminal_session s" "handle_data E p t s = (r, s')"
  shows "frames_inv capacity drained (payloads @ [p]) s'"
proof -
  let ?k = "ws_raw_sink s"
  let ?fr = "\<lparr>qf_frame_index = ws_next_frame_index s, qf_receive_mono_ns = t, qf_payload = p\<rparr>"
  show ?thesis
  proof (cases "MAX_DATA_PAYLOAD_BYTES < length p \<or> u64_max < ws_next_frame_index s + 1")
    case True
    then have "s' = s\<lparr>ws_state := TsFailed\<rparr>" using assms(3)
      by (auto simp: handle_data_def invalidate_def checked_add_def split: if_splits)
    then show ?thesis using assms(2) by (intro frames_inv_idle [OF assms(1)]) (auto simp: terminal_session_def)
  next
    case False
    then have le: "\<not> MAX_DATA_PAYLOAD_BYTES < length p" "ws_next_frame_index s + 1 \<le> u64_max" by simp_all
    note inv = assms(1) [unfolded frames_inv_def Let_def]
    have ns: "ws_state s \<noteq> TsFailed" using assms(2) by (simp add: terminal_session_def)
    show ?thesis
    proof (cases "rk_capacity ?k \<le> length (rk_queue ?k)")
      case True
      then have s': "s' = s\<lparr>ws_raw_sink := ?k\<lparr>rk_local_drops := rk_local_drops ?k + 1\<rparr>, ws_state := TsFailed\<rparr>"
        using assms(3) le by (simp add: handle_data_def checked_add_def raw_enqueue_def invalidate_def Let_def)
      show ?thesis using inv ns unfolding s' frames_inv_def Let_def by (auto simp: terminal_session_def prefix_prefix)
    next
      case False
      let ?k1 = "?k\<lparr>rk_queue := rk_queue ?k @ [?fr], rk_enqueued := rk_enqueued ?k + 1,
        rk_max_depth := max (rk_max_depth ?k) (length (rk_queue ?k @ [?fr]))\<rparr>"
      have s': "\<exists>st. s' = s\<lparr>ws_raw_sink := ?k1, ws_next_frame_index := ws_next_frame_index s + 1, ws_state := st\<rparr>"
        using assms(3) False le
        by (auto simp: handle_data_def checked_add_def raw_enqueue_def Let_def split: sum.splits if_splits
            intro: exI [of _ "ws_state s"])
      then obtain st where s': "s' = s\<lparr>ws_raw_sink := ?k1, ws_next_frame_index := ws_next_frame_index s + 1, ws_state := st\<rparr>" ..
      have eqp: "map qf_payload (drained @ rk_queue ?k) = payloads" using inv assms(2) by blast
      show ?thesis using inv ns eqp False le
        unfolding s' frames_inv_def Let_def by (auto simp: prefix_def)
    qed
  qed
qed

lemma handle_ping_idle:
  assumes "handle_ping p t s = (r, s')"
  shows "ws_raw_sink s' = ws_raw_sink s" "ws_next_frame_index s' = ws_next_frame_index s"
  using assms by (auto simp: handle_ping_def invalidate_def Let_def split: if_splits)

lemma frames_inv_handle:
  assumes "frames_inv capacity drained payloads s" "ws_handle E input t s = (r, s')"
  shows "frames_inv capacity drained (payloads @ payload_of (HandleInput input t)) s'"
proof (cases "terminal_session s")
  case True
  then have "s' = s" using assms(2) by (simp add: ws_handle_def)
  then show ?thesis using True by (intro frames_inv_idle [OF assms(1)]) simp_all
next
  case alive: False
  show ?thesis
  proof (cases "case ws_last_receive_mono_ns s of None \<Rightarrow> False | Some previous \<Rightarrow> t < previous")
    case True
    then have "s' = s\<lparr>ws_state := TsFailed\<rparr>" using assms(2) alive by (simp add: ws_handle_def invalidate_def)
    then show ?thesis using alive by (intro frames_inv_idle [OF assms(1)]) (simp_all add: terminal_session_def)
  next
    case False
    let ?s = "s\<lparr>ws_last_receive_mono_ns := Some t\<rparr>"
    have inv: "frames_inv capacity drained payloads ?s" using frames_inv_idle [OF assms(1), of ?s "[]"] by simp
    have alive': "\<not> terminal_session ?s" using alive by (simp add: terminal_session_def)
    show ?thesis
    proof (cases input)
      case (WsData p)
      then have "handle_data E p t ?s = (r, s')" using assms(2) alive False by (simp add: ws_handle_def Let_def)
      then show ?thesis using frames_inv_data [OF inv alive'] WsData by simp
    next
      case (WsPing p)
      then have "handle_ping p t ?s = (r, s')" using assms(2) alive False by (simp add: ws_handle_def Let_def)
      note h = handle_ping_idle [OF this]
      show ?thesis using WsPing alive' by (intro frames_inv_idle [OF inv h]) simp_all
    next
      case (WsPong p)
      then have "ws_raw_sink s' = ws_raw_sink ?s" "ws_next_frame_index s' = ws_next_frame_index ?s"
        using assms(2) alive False by (auto simp: ws_handle_def Let_def split: if_splits)
      then show ?thesis using WsPong alive' by (intro frames_inv_idle [OF inv]) simp_all
    next
      case (WsClose c m)
      then have "s' = ?s\<lparr>ws_state := TsClosed\<rparr>" using assms(2) alive False by (simp add: ws_handle_def Let_def)
      then show ?thesis using WsClose alive' by (intro frames_inv_idle [OF inv]) simp_all
    next
      case (WsTransportError m)
      then have "s' = ?s\<lparr>ws_state := TsFailed\<rparr>" using assms(2) alive False
        by (simp add: ws_handle_def Let_def invalidate_def)
      then show ?thesis using WsTransportError alive' by (intro frames_inv_idle [OF inv]) simp_all
    qed
  qed
qed

lemma watchdog_tick_idle:
  assumes "watchdog_tick t i d s = (r, s')"
  shows "ws_raw_sink s' = ws_raw_sink s" "ws_next_frame_index s' = ws_next_frame_index s"
    "terminal_session s \<Longrightarrow> s' = s" "ws_outbound_control_ns s' = ws_outbound_control_ns s"
    "ws_last_receive_mono_ns s' = ws_last_receive_mono_ns s"
  using assms by (auto simp: watchdog_tick_def invalidate_def Let_def split: if_splits)

lemma frames_inv_drain:
  assumes "frames_inv capacity drained payloads s" "drain_one (ws_raw_sink s) = (f, k)"
  shows "frames_inv capacity (drained @ (case f of None \<Rightarrow> [] | Some x \<Rightarrow> [x])) payloads (s\<lparr>ws_raw_sink := k\<rparr>)"
  using assms by (cases "rk_queue (ws_raw_sink s)") (auto simp: drain_one_def frames_inv_def Let_def terminal_session_def split: if_splits)

lemma frames_inv_step:
  assumes "frames_inv capacity drained payloads s" "transport_step E op s = (r, f, s')"
  shows "frames_inv capacity (drained @ (case f of None \<Rightarrow> [] | Some x \<Rightarrow> [x])) (payloads @ payload_of op) s'"
proof (cases op)
  case (HandleInput input t)
  then have "ws_handle E input t s = (r, s')" "f = None" using assms(2) by (auto split: prod.splits)
  then show ?thesis using frames_inv_handle [OF assms(1)] HandleInput by simp
next
  case (WatchdogTick t i d)
  then have w: "watchdog_tick t i d s = (r, s')" "f = None" using assms(2) by (auto split: prod.splits)
  note h = watchdog_tick_idle [OF w(1)]
  show ?thesis using frames_inv_idle [OF assms(1) h(1,2), of "[]"] h(3) w(2) WatchdogTick by auto
next
  case DrainFrame
  then obtain k where "drain_one (ws_raw_sink s) = (f, k)" "s' = s\<lparr>ws_raw_sink := k\<rparr>" using assms(2) by (auto split: prod.splits)
  then show ?thesis using frames_inv_drain [OF assms(1)] DrainFrame by simp
qed

lemma drained_frames_Cons: "drained_frames ((op, r, f) # log) = (case f of None \<Rightarrow> [] | Some x \<Rightarrow> [x]) @ drained_frames log"
  by (simp add: drained_frames_def map_filter_simps split: option.split)

lemma frames_inv_run:
  assumes "transport_run E ops s = (log, s')" "frames_inv capacity drained payloads s"
  shows "frames_inv capacity (drained @ drained_frames log) (payloads @ data_payloads ops) s'"
  using assms
proof (induction ops arbitrary: s log drained payloads)
  case Nil
  then show ?case by (simp add: drained_frames_def data_payloads_def map_filter_simps)
next
  case (Cons op ops)
  obtain r f s1 log1 where t: "transport_step E op s = (r, f, s1)" "transport_run E ops s1 = (log1, s')" "log = (op, r, f) # log1"
    by (rule transport_run_Cons [OF Cons.prems(1)])
  have "data_payloads (op # ops) = payload_of op @ data_payloads ops" by (simp add: data_payloads_def)
  then show ?case using Cons.IH [OF t(2) frames_inv_step [OF Cons.prems(2) t(1)]] t(3) by (simp add: drained_frames_Cons)
qed

text \<open>
  C17. No received frame is lost silently: after any sequence of inputs, watchdog ticks and drains, the
  drained and the queued frames together carry the indices from zero without a hole and the first payloads
  received, in order; while the session has not closed or failed they are all the payloads received; the
  queue stays within its capacity and the counters agree with it.
\<close>

theorem transport_loses_nothing:
  assumes "ws_session_new epoch capacity = Ok s0" "transport_run E ops s0 = (log, s)"
    and "frames = drained_frames log @ rk_queue (ws_raw_sink s)"
  shows "(map qf_frame_index frames = [0..<ws_next_frame_index s])
    \<and> (prefix (map qf_payload frames) (data_payloads ops))
    \<and> (\<not> terminal_session s \<longrightarrow> map qf_payload frames = data_payloads ops)
    \<and> (length (rk_queue (ws_raw_sink s)) \<le> capacity \<and> rk_enqueued (ws_raw_sink s) = length frames
       \<and> rk_drained (ws_raw_sink s) = length (drained_frames log) \<and> rk_local_drops (ws_raw_sink s) \<le> 1
       \<and> ws_next_frame_index s \<le> u64_max)"
proof -
  note inv = frames_inv_run [OF assms(2) frames_inv_new [OF assms(1)], unfolded frames_inv_def Let_def append_Nil, folded assms(3)]
  have r1: "map qf_frame_index frames = [0..<ws_next_frame_index s]" using inv by blast
  have r2: "prefix (map qf_payload frames) (data_payloads ops)"
    and r3: "\<not> terminal_session s \<longrightarrow> map qf_payload frames = data_payloads ops" using inv by blast+
  have "length frames = ws_next_frame_index s" using arg_cong [OF r1, of length] by simp
  then have r4: "length (rk_queue (ws_raw_sink s)) \<le> capacity \<and> rk_enqueued (ws_raw_sink s) = length frames
       \<and> rk_drained (ws_raw_sink s) = length (drained_frames log) \<and> rk_local_drops (ws_raw_sink s) \<le> 1
       \<and> ws_next_frame_index s \<le> u64_max" using inv by (auto split: if_splits)
  show ?thesis by (rule conjI [OF r1 conjI [OF r2 conjI [OF r3 r4]]])
qed

section \<open>Control messages\<close>

text \<open>The times at which pings were answered, and at which any control message was sent.\<close>

fun pong_time :: "transport_op \<times> transport_action list res \<times> queued_raw_frame option \<Rightarrow> nat list" where
  "pong_time (HandleInput (WsPing p) t, Inr [RespondPong q], f) = [t]"
| "pong_time x = []"

fun control_time :: "transport_op \<times> transport_action list res \<times> queued_raw_frame option \<Rightarrow> nat list" where
  "control_time (HandleInput (WsPing p) t, Inr [RespondPong q], f) = [t]"
| "control_time (WatchdogTick t i d, Inr [SendPing q], f) = [t]"
| "control_time x = []"

definition pong_times :: "transport_log \<Rightarrow> nat list" where
  "pong_times log = concat (map pong_time log)"

definition control_times :: "transport_log \<Rightarrow> nat list" where
  "control_times log = concat (map control_time log)"

definition spaced :: "nat list \<Rightarrow> bool" where
  "spaced ts \<longleftrightarrow> (\<forall>i. i + MAX_CLIENT_CONTROL_PER_SECOND < length ts \<longrightarrow>
     ts ! i + ONE_SECOND_NS \<le> ts ! (i + MAX_CLIENT_CONTROL_PER_SECOND))"

definition control_inv :: "nat list \<Rightarrow> public_ws_session \<Rightarrow> bool" where
  "control_inv pongs s \<longleftrightarrow> spaced pongs
     \<and> (\<exists>old. pongs = old @ ws_outbound_control_ns s
          \<and> (\<forall>t\<in>set old. \<exists>m. ws_last_receive_mono_ns s = Some m \<and> t + ONE_SECOND_NS \<le> m))"

lemma control_inv_same:
  assumes "control_inv pongs s" "ws_outbound_control_ns s' = ws_outbound_control_ns s"
    "\<And>m. ws_last_receive_mono_ns s = Some m \<Longrightarrow> \<exists>m'. ws_last_receive_mono_ns s' = Some m' \<and> m \<le> m'"
  shows "control_inv pongs s'"
  using assms unfolding control_inv_def by (metis order_trans)

lemma spaced_snoc:
  assumes "spaced (old @ control)" "length control < MAX_CLIENT_CONTROL_PER_SECOND"
    "\<forall>x\<in>set old. x + ONE_SECOND_NS \<le> t"
  shows "spaced ((old @ control) @ [t])"
  unfolding spaced_def
proof (intro allI impI)
  fix i
  assume i: "i + MAX_CLIENT_CONTROL_PER_SECOND < length ((old @ control) @ [t])"
  show "((old @ control) @ [t]) ! i + ONE_SECOND_NS \<le> ((old @ control) @ [t]) ! (i + MAX_CLIENT_CONTROL_PER_SECOND)"
  proof (cases "i + MAX_CLIENT_CONTROL_PER_SECOND < length (old @ control)")
    case True
    then show ?thesis using assms(1) by (simp add: spaced_def nth_append del: append_assoc)
  next
    case False
    then have e: "i + MAX_CLIENT_CONTROL_PER_SECOND = length (old @ control)" using i by simp
    then have "i < length old" using assms(2) by simp
    then have "((old @ control) @ [t]) ! i = old ! i" "old ! i \<in> set old" by (simp_all add: nth_append)
    then show ?thesis using assms(3) unfolding e nth_append_length by simp
  qed
qed

lemma handle_data_control:
  assumes "handle_data E p t s = (r, s')"
  shows "ws_outbound_control_ns s' = ws_outbound_control_ns s" "ws_last_receive_mono_ns s' = ws_last_receive_mono_ns s"
  using assms by (auto simp: handle_data_def invalidate_def Let_def split: if_splits option.splits prod.splits bool.splits sum.splits)

lemma control_inv_ping:
  assumes "control_inv pongs s" "handle_ping p t s = (r, s')" "ws_last_receive_mono_ns s = Some t"
  shows "control_inv (pongs @ pong_time (HandleInput (WsPing p) t, r, None)) s'"
proof (cases "MAX_CONTROL_PAYLOAD_BYTES < length p")
  case True
  then have "r = Inr [InvalidateEpoch ''ping payload exceeds WebSocket control-frame limit'']" "s' = s\<lparr>ws_state := TsFailed\<rparr>"
    using assms(2) by (simp_all add: handle_ping_def invalidate_def)
  then show ?thesis using control_inv_same [OF assms(1)] by simp
next
  case False
  let ?P = "\<lambda>oldest. ONE_SECOND_NS \<le> saturating_sub t oldest"
  let ?c = "dropWhile ?P (ws_outbound_control_ns s)"
  obtain old where old: "pongs = old @ ws_outbound_control_ns s" "\<forall>x\<in>set old. x + ONE_SECOND_NS \<le> t" and sp: "spaced pongs"
    using assms(1,3) by (auto simp: control_inv_def)
  define gone where "gone = old @ takeWhile ?P (ws_outbound_control_ns s)"
  have g: "pongs = gone @ ?c" using old(1) by (simp add: gone_def)
  have gt: "\<forall>x\<in>set gone. x + ONE_SECOND_NS \<le> t"
    using old(2) by (auto simp: gone_def saturating_sub_def ONE_SECOND_NS_def dest: set_takeWhileD)
  show ?thesis
  proof (cases "MAX_CLIENT_CONTROL_PER_SECOND \<le> length ?c")
    case True
    then have e: "r = Inr [InvalidateEpoch ''client control-message rate would exceed 5 per second'']"
      "s' = s\<lparr>ws_outbound_control_ns := ?c, ws_state := TsFailed\<rparr>"
      using assms(2) False by (simp_all add: handle_ping_def invalidate_def Let_def)
    have "\<exists>old. pongs = old @ ?c \<and> (\<forall>t'\<in>set old. t' + ONE_SECOND_NS \<le> t)" using g gt by blast
    then show ?thesis using sp assms(3) unfolding e by (simp add: control_inv_def)
  next
    case F2: False
    then have e: "r = Inr [RespondPong p]" "s' = s\<lparr>ws_outbound_control_ns := ?c @ [t]\<rparr>"
      using assms(2) False by (simp_all add: handle_ping_def Let_def)
    have "spaced ((gone @ ?c) @ [t])" using F2 sp g gt by (intro spaced_snoc) simp_all
    moreover have "\<exists>old. pongs @ [t] = old @ ?c @ [t] \<and> (\<forall>t'\<in>set old. t' + ONE_SECOND_NS \<le> t)" using g gt by auto
    ultimately show ?thesis using assms(3) g unfolding e by (simp add: control_inv_def)
  qed
qed

lemma control_inv_step:
  assumes "control_inv pongs s" "transport_step E op s = (r, f, s')"
  shows "control_inv (pongs @ pong_time (op, r, f)) s'"
proof (cases op)
  case (HandleInput input t)
  then have h: "ws_handle E input t s = (r, s')" "f = None" using assms(2) by (auto split: prod.splits)
  show ?thesis
  proof (cases "terminal_session s \<or> (case ws_last_receive_mono_ns s of None \<Rightarrow> False | Some previous \<Rightarrow> t < previous)")
    case True
    then have "ws_outbound_control_ns s' = ws_outbound_control_ns s" "ws_last_receive_mono_ns s' = ws_last_receive_mono_ns s"
      "pong_time (op, r, f) = []"
      using h HandleInput by (auto simp: ws_handle_def invalidate_def split: if_splits)
    then show ?thesis using control_inv_same [OF assms(1)] by simp
  next
    case False
    let ?s = "s\<lparr>ws_last_receive_mono_ns := Some t\<rparr>"
    have c: "control_inv pongs ?s" using False by (intro control_inv_same [OF assms(1)]) (auto split: option.splits)
    show ?thesis
    proof (cases input)
      case (WsData p)
      then have "handle_data E p t ?s = (r, s')" using h False by (simp add: ws_handle_def Let_def)
      then show ?thesis using control_inv_same [OF c] handle_data_control [of E p t ?s r s'] WsData HandleInput by auto
    next
      case (WsPing p)
      then have "handle_ping p t ?s = (r, s')" using h False by (simp add: ws_handle_def Let_def)
      then show ?thesis using control_inv_ping [OF c] WsPing HandleInput h(2) by simp
    qed (use h False HandleInput control_inv_same [OF c] in \<open>auto simp: ws_handle_def invalidate_def Let_def split: if_splits\<close>)
  qed
next
  case (WatchdogTick t i d)
  then have w: "watchdog_tick t i d s = (r, s')" using assms(2) by (auto split: prod.splits)
  show ?thesis using control_inv_same [OF assms(1)] watchdog_tick_idle(4,5) [OF w] WatchdogTick by simp
next
  case DrainFrame
  then have "ws_outbound_control_ns s' = ws_outbound_control_ns s" "ws_last_receive_mono_ns s' = ws_last_receive_mono_ns s"
    using assms(2) by (auto split: prod.splits)
  then show ?thesis using control_inv_same [OF assms(1)] DrainFrame by simp
qed

lemma control_inv_run:
  assumes "transport_run E ops s = (log, s')" "control_inv pongs s"
  shows "control_inv (pongs @ pong_times log) s'"
  using assms
proof (induction ops arbitrary: s log pongs)
  case Nil
  then show ?case by (simp add: pong_times_def)
next
  case (Cons op ops)
  obtain r f s1 log1 where t: "transport_step E op s = (r, f, s1)" "transport_run E ops s1 = (log1, s')" "log = (op, r, f) # log1"
    by (rule transport_run_Cons [OF Cons.prems(1)])
  show ?case using Cons.IH [OF t(2) control_inv_step [OF Cons.prems(2) t(1)]] t(3) by (simp add: pong_times_def)
qed

text \<open>
  Answered pings keep the venue's rate: whatever arrives, any six consecutive pongs span at least a
  second.
\<close>

theorem pong_rate_bounded:
  assumes "ws_session_new epoch capacity = Ok s0" "transport_run E ops s0 = (log, s)"
    and "i + 5 < length (pong_times log)"
  shows "pong_times log ! i + ONE_SECOND_NS \<le> pong_times log ! (i + 5)"
proof -
  have "control_inv [] s0" using assms(1)
    by (auto simp: ws_session_new_def raw_sink_new_def control_inv_def spaced_def split: if_splits)
  from control_inv_run [OF assms(2) this] have "spaced (pong_times log)" by (simp add: control_inv_def)
  then show ?thesis using assms(3) by (simp add: spaced_def MAX_CLIENT_CONTROL_PER_SECOND_def)
qed

section \<open>The watchdog\<close>

fun is_pong :: "transport_op \<Rightarrow> bool" where
  "is_pong (HandleInput (WsPong p) t) = True"
| "is_pong op = False"

definition waits_since :: "nat \<Rightarrow> public_ws_session \<Rightarrow> bool" where
  "waits_since t s \<longleftrightarrow> terminal_session s \<or> ws_awaiting_pong s \<and> ws_last_ping_sent_mono_ns s = Some t"

lemma handle_data_watch:
  assumes "handle_data E p t s = (r, s')"
  shows "ws_awaiting_pong s' = ws_awaiting_pong s" "ws_last_ping_sent_mono_ns s' = ws_last_ping_sent_mono_ns s"
  using assms by (auto simp: handle_data_def invalidate_def Let_def split: if_splits option.splits prod.splits bool.splits sum.splits)

lemma handle_ping_watch:
  assumes "handle_ping p t s = (r, s')"
  shows "ws_awaiting_pong s' = ws_awaiting_pong s" "ws_last_ping_sent_mono_ns s' = ws_last_ping_sent_mono_ns s"
  using assms by (auto simp: handle_ping_def invalidate_def Let_def split: if_splits)

lemma terminal_stays:
  assumes "transport_step E op s = (r, f, s')" "terminal_session s"
  shows "terminal_session s'"
  using assms by (cases op) (auto simp: ws_handle_def watchdog_tick_def terminal_session_def split: prod.splits if_splits)

lemma waits_since_step:
  assumes "transport_step E op s = (r, f, s')" "waits_since t s" "\<not> is_pong op"
  shows "waits_since t s'"
proof (cases "terminal_session s")
  case True
  then show ?thesis using terminal_stays [OF assms(1)] by (simp add: waits_since_def)
next
  case alive: False
  then have w: "ws_awaiting_pong s" "ws_last_ping_sent_mono_ns s = Some t" using assms(2) by (auto simp: waits_since_def)
  show ?thesis
  proof (cases op)
    case (HandleInput input m)
    then have h: "ws_handle E input m s = (r, s')" using assms(1) by (auto split: prod.splits)
    have "terminal_session s' \<or> ws_awaiting_pong s' \<and> ws_last_ping_sent_mono_ns s' = Some t"
    proof (cases input)
      case (WsData p)
      then show ?thesis
        using h alive w handle_data_watch [of E p m "s\<lparr>ws_last_receive_mono_ns := Some m\<rparr>" r s']
        by (auto simp: ws_handle_def invalidate_def Let_def split: if_splits)
    next
      case (WsPing p)
      then show ?thesis
        using h alive w handle_ping_watch [of p m "s\<lparr>ws_last_receive_mono_ns := Some m\<rparr>" r s']
        by (auto simp: ws_handle_def invalidate_def Let_def split: if_splits)
    next
      case (WsPong p)
      then show ?thesis using assms(3) HandleInput by simp
    qed (use h alive w in \<open>auto simp: ws_handle_def invalidate_def Let_def terminal_session_def split: if_splits\<close>)
    then show ?thesis by (simp add: waits_since_def)
  next
    case (WatchdogTick n i d)
    then have "watchdog_tick n i d s = (r, s')" using assms(1) by (auto split: prod.splits)
    then show ?thesis using alive w
      by (auto simp: watchdog_tick_def invalidate_def Let_def waits_since_def terminal_session_def split: if_splits)
  next
    case DrainFrame
    then show ?thesis using assms(1) w by (auto simp: waits_since_def split: prod.splits)
  qed
qed

lemma late_tick_fails:
  assumes "transport_step E (WatchdogTick now i d) s = (Inr acts, f, s')" "waits_since t s" "t + d \<le> now"
  shows "terminal_session s'"
proof -
  have "watchdog_tick now i d s = (Inr acts, s')" using assms(1) by (auto split: prod.splits)
  then show ?thesis using assms(2,3)
    by (auto simp: watchdog_tick_def invalidate_def Let_def waits_since_def terminal_session_def saturating_sub_def
        split: if_splits)
qed

lemma terminal_run: "transport_run E ops s = (log, s') \<Longrightarrow> terminal_session s \<Longrightarrow> terminal_session s'"
proof (induction ops arbitrary: s log)
  case (Cons op ops)
  obtain r f s1 log1 where t: "transport_step E op s = (r, f, s1)" "transport_run E ops s1 = (log1, s')"
    by (rule transport_run_Cons [OF Cons.prems(1)])
  show ?case by (rule Cons.IH [OF t(2) terminal_stays [OF t(1) Cons.prems(2)]])
qed simp

lemma unanswered_run:
  assumes "transport_run E ops s = (log, s')" "waits_since t s" "\<not> list_ex is_pong ops"
    "(WatchdogTick now i d, Inr acts, f) \<in> set log" "t + d \<le> now"
  shows "terminal_session s'"
  using assms
proof (induction ops arbitrary: s log)
  case (Cons op ops)
  obtain r g s1 log1 where t: "transport_step E op s = (r, g, s1)" "transport_run E ops s1 = (log1, s')" "log = (op, r, g) # log1"
    by (rule transport_run_Cons [OF Cons.prems(1)])
  show ?case
  proof (cases "(WatchdogTick now i d, Inr acts, f) = (op, r, g)")
    case True
    then show ?thesis using late_tick_fails [of E now i d s acts f s1 t] t(1) Cons.prems(2,5) terminal_run [OF t(2)] by simp
  next
    case False
    have "waits_since t s1" using Cons.prems(3) by (intro waits_since_step [OF t(1) Cons.prems(2)]) simp
    then show ?thesis using Cons.IH [OF t(2)] Cons.prems(3-5) t(3) False by auto
  qed
qed simp

text \<open>
  The watchdog finds a dead connection: after it has sent a ping, if no pong arrives, the first tick it
  accepts at or past the deadline leaves the session terminal, whatever else was received in between.
\<close>

theorem unanswered_ping_ends_session:
  assumes "watchdog_tick t i0 d0 s = (Ok [SendPing p], s1)" "transport_run E ops s1 = (log, s2)"
    and "\<not> list_ex is_pong ops" "(WatchdogTick now i d, Ok acts, f) \<in> set log" "t + d \<le> now"
  shows "terminal_session s2"
proof -
  have "waits_since t s1" using assms(1)
    by (auto simp: watchdog_tick_def invalidate_def Let_def waits_since_def split: if_splits)
  then show ?thesis using unanswered_run [OF assms(2) _ assms(3-5)] by blast
qed

definition demo_ws :: public_ws_session where
  "demo_ws =
     \<lparr>ws_epoch = ''e1'', ws_state = TsOpen,
      ws_raw_sink = \<lparr>rk_capacity = 4, rk_queue = [], rk_enqueued = 0, rk_drained = 0, rk_max_depth = 0, rk_local_drops = 0\<rparr>,
      ws_next_frame_index = 0, ws_last_receive_mono_ns = None, ws_outbound_control_ns = [],
      ws_last_ping_sent_mono_ns = None, ws_awaiting_pong = False, ws_last_pong_mono_ns = None,
      ws_last_ping_rtt_ns = None, ws_last_watchdog_tick_mono_ns = None\<rparr>"

lemma demo_ws_new: "ws_session_new ''e1'' 4 = Ok demo_ws"
proof -
  have "\<not> trim_is_empty ''e1''" by code_simp
  then show ?thesis by (simp add: ws_session_new_def raw_sink_new_def demo_ws_def)
qed

text \<open>
  The watchdog's own pings are not part of that rate: a session can send six control messages within
  one second and stay open.
\<close>

theorem watchdog_pings_exceed_rate:
  "\<exists>s0 log s. ws_session_new ''e1'' 4 = Ok s0
     \<and> transport_run E [WatchdogTick 10 1000 1000, HandleInput (WsPing []) 20, HandleInput (WsPing []) 20,
         HandleInput (WsPing []) 20, HandleInput (WsPing []) 20, HandleInput (WsPing []) 20] s0 = (log, s)
     \<and> \<not> terminal_session s \<and> control_times log = [10, 20, 20, 20, 20, 20]"
  unfolding demo_ws_new
  by (simp add: demo_ws_def transport_run.simps watchdog_tick_def ws_handle_def handle_ping_def terminal_session_def
      Let_def control_times_def saturating_sub_def ONE_SECOND_NS_def MAX_CLIENT_CONTROL_PER_SECOND_def)

section \<open>Witnesses\<close>

definition demo_transport_ops :: "transport_op list" where
  "demo_transport_ops = [HandleInput (WsData [1]) 5, HandleInput (WsData [2]) 6, DrainFrame]"

lemma demo_transport_run:
  assumes "json_from_slice E = (\<lambda>_. None)"
  shows "transport_run E demo_transport_ops demo_ws =
    ([(HandleInput (WsData [1]) 5, Ok [RawEnqueued 0], None), (HandleInput (WsData [2]) 6, Ok [RawEnqueued 1], None),
      (DrainFrame, Ok [], Some \<lparr>qf_frame_index = 0, qf_receive_mono_ns = 5, qf_payload = [1]\<rparr>)],
     demo_ws\<lparr>ws_raw_sink := \<lparr>rk_capacity = 4, rk_queue = [\<lparr>qf_frame_index = 1, qf_receive_mono_ns = 6, qf_payload = [2]\<rparr>],
         rk_enqueued = 2, rk_drained = 1, rk_max_depth = 2, rk_local_drops = 0\<rparr>,
       ws_next_frame_index := 2, ws_last_receive_mono_ns := Some 6\<rparr>)"
  using assms
  by (simp add: demo_transport_ops_def demo_ws_def ws_handle_def handle_data_def raw_enqueue_def drain_one_def terminal_session_def
      Let_def classify_server_shutdown_def MAX_DATA_PAYLOAD_BYTES_def checked_add_def u64_max_def)

theorem transport_loses_nothing_witness:
  "map qf_payload (drained_frames (fst (transport_run (table_externals []) demo_transport_ops demo_ws))
     @ rk_queue (ws_raw_sink (snd (transport_run (table_externals []) demo_transport_ops demo_ws)))) = [[1], [2]]"
proof -
  have j: "json_from_slice (table_externals []) = (\<lambda>_. None)" by simp
  have t: "\<not> terminal_session (snd (transport_run (table_externals []) demo_transport_ops demo_ws))"
    unfolding demo_transport_run [OF j] by (simp add: terminal_session_def demo_ws_def)
  show ?thesis
    using transport_loses_nothing [OF demo_ws_new surjective_pairing refl, of "table_externals []" demo_transport_ops] t
    by (simp add: data_payloads_def demo_transport_ops_def)
qed

definition demo_ping_ops :: "transport_op list" where
  "demo_ping_ops = [HandleInput (WsPing []) 20, HandleInput (WsPing []) 20, HandleInput (WsPing []) 20,
     HandleInput (WsPing []) 20, HandleInput (WsPing []) 20, HandleInput (WsPing []) 2000000000]"

lemma demo_ping_times: "pong_times (fst (transport_run E demo_ping_ops demo_ws)) = [20, 20, 20, 20, 20, 2000000000]"
  by (simp add: demo_ping_ops_def demo_ws_def ws_handle_def handle_ping_def terminal_session_def
      Let_def pong_times_def saturating_sub_def ONE_SECOND_NS_def MAX_CLIENT_CONTROL_PER_SECOND_def
      MAX_CONTROL_PAYLOAD_BYTES_def)

theorem pong_rate_bounded_witness:
  "pong_times (fst (transport_run (table_externals []) demo_ping_ops demo_ws)) ! 0 + ONE_SECOND_NS
     \<le> pong_times (fst (transport_run (table_externals []) demo_ping_ops demo_ws)) ! (0 + 5)"
  by (rule pong_rate_bounded [OF demo_ws_new surjective_pairing]) (simp add: demo_ping_times)

theorem unanswered_ping_ends_session_witness:
  "terminal_session (snd (transport_run (table_externals []) [WatchdogTick 2000 1000 1000]
     (demo_ws\<lparr>ws_last_watchdog_tick_mono_ns := Some 10, ws_last_ping_sent_mono_ns := Some 10, ws_awaiting_pong := True\<rparr>)))"
proof (rule unanswered_ping_ends_session [OF _ surjective_pairing])
  show "watchdog_tick 10 1000 1000 demo_ws = (Ok [SendPing []],
      demo_ws\<lparr>ws_last_watchdog_tick_mono_ns := Some 10, ws_last_ping_sent_mono_ns := Some 10, ws_awaiting_pong := True\<rparr>)"
    by (simp add: watchdog_tick_def demo_ws_def terminal_session_def Let_def)
  show "(WatchdogTick 2000 1000 1000, Ok [InvalidateEpoch ''watchdog pong deadline exceeded: transport dead''], None)
    \<in> set (fst (transport_run (table_externals []) [WatchdogTick 2000 1000 1000]
     (demo_ws\<lparr>ws_last_watchdog_tick_mono_ns := Some 10, ws_last_ping_sent_mono_ns := Some 10, ws_awaiting_pong := True\<rparr>)))"
    by (simp add: watchdog_tick_def demo_ws_def terminal_session_def Let_def invalidate_def saturating_sub_def)
qed simp_all

end
