(* ===== verification/Rotation_Witness.thy ===== *)
theory Rotation_Witness
  imports Live_Rotation_Safety Boundary_Selection Concrete_Codec Transport_Safety
begin

text \<open>
  Concrete boundaries, journals, ledgers and rotations: the properties of the handover components applied
  to inputs on which their hypotheses hold.
\<close>

section \<open>Boundaries\<close>

abbreviation DE :: "jv externals" where "DE \<equiv> table_externals []"

definition demo_position :: "string \<Rightarrow> string \<Rightarrow> nat \<Rightarrow> raw_position" where
  "demo_position e s n = \<lparr>rp_connection_epoch = e, rp_stream = s, rp_frame_index = n, rp_record_sha256 = demo_sha64\<rparr>"

definition demo_boundary :: "string \<Rightarrow> boundary_stream_kind \<Rightarrow> string \<Rightarrow> string \<Rightarrow> string \<Rightarrow> nat \<Rightarrow> handover_boundary" where
  "demo_boundary i kind s old new n =
     \<lparr>hb_schema = ''HandoverBoundaryV1'', hb_boundary_id = i, hb_environment = ''production-public-market-data'',
      hb_symbol = ''BTCUSDT'', hb_stream_kind = kind, hb_stream = s, hb_predecessor_epoch = old, hb_successor_epoch = new,
      hb_boundary_sequence = n, hb_boundary_sha256 = demo_sha64, hb_predecessor_last_selected = demo_position old s 1,
      hb_successor_boundary_observation = demo_position new s 0, hb_successor_first_selected = demo_position new s 1,
      hb_predecessor_durability = \<lparr>bd_durable_through_frame_index = 1, bd_durable_through_offset = 8, bd_last_record_sha256 = demo_sha64\<rparr>,
      hb_successor_durability = \<lparr>bd_durable_through_frame_index = 1, bd_durable_through_offset = 8, bd_last_record_sha256 = demo_sha64\<rparr>,
      hb_spec_revision = ''r1'', hb_selector_version = SELECTOR_VERSION\<rparr>"

lemma demo_digest [simp]: "validate_boundary_digest demo_sha64 = Ok ()" "length demo_sha64 = 64"
  by (simp_all add: validate_boundary_digest_def demo_sha64_def list_all_iff is_lower_hex_def)

lemma demo_boundary_sel [simp]:
  "hb_stream_kind (demo_boundary i kind s old new n) = kind" "hb_predecessor_epoch (demo_boundary i kind s old new n) = old"
  "hb_successor_epoch (demo_boundary i kind s old new n) = new" "hb_boundary_sequence (demo_boundary i kind s old new n) = n"
  "hb_boundary_sha256 (demo_boundary i kind s old new n) = demo_sha64" "hb_boundary_id (demo_boundary i kind s old new n) = i"
  "hb_symbol (demo_boundary i kind s old new n) = ''BTCUSDT''"
  by (simp_all add: demo_boundary_def)

lemma demo_boundary_ok:
  "\<not> trim_is_empty i \<Longrightarrow> \<not> trim_is_empty old \<Longrightarrow> \<not> trim_is_empty new \<Longrightarrow> old \<noteq> new \<Longrightarrow>
     validate_boundary (demo_boundary i kind s old new n) = Ok ()"
  by (simp add: validate_boundary_def demo_boundary_def demo_position_def in_scope_def SELECTOR_VERSION_def trim_is_empty_def)

lemma not_blank [simp]:
  "\<not> trim_is_empty ''A''" "\<not> trim_is_empty ''B''" "\<not> trim_is_empty ''TA''" "\<not> trim_is_empty ''TB''" "\<not> trim_is_empty ''d1''"
  "\<not> trim_is_empty ''t1''" "\<not> trim_is_empty ''g1''" "\<not> trim_is_empty ''g2''" "\<not> trim_is_empty ''a1''"
  by (simp_all add: trim_is_empty_def)

subsection \<open>The selection\<close>

definition demo_observation :: "string \<Rightarrow> nat \<Rightarrow> nat \<Rightarrow> canonical_observation" where
  "demo_observation e f n =
     \<lparr>co_symbol = ''BTCUSDT'', co_stream_kind = Trade, co_stream = ''trade'', co_connection_epoch = e, co_frame_index = f,
      co_first_sequence = n, co_final_sequence = n, co_record_sha256 = demo_sha64, co_observation_sha256 = demo_sha64\<rparr>"

definition demo_old :: "canonical_observation list" where
  "demo_old = [demo_observation ''TA'' 0 3, demo_observation ''TA'' 1 4, demo_observation ''TA'' 2 5]"

definition demo_new :: "canonical_observation list" where
  "demo_new = [demo_observation ''TB'' 0 4, demo_observation ''TB'' 1 5]"

definition demo_selected :: "canonical_selection" where
  "demo_selected =
     (let refs = map selected_ref [demo_observation ''TA'' 0 3, demo_observation ''TA'' 1 4, demo_observation ''TB'' 1 5] in
      \<lparr>cs_schema = ''CanonicalSelectionV1'', cs_boundary_id = ''t1'', cs_symbol = ''BTCUSDT'', cs_stream_kind = Trade,
       cs_boundary_sequence = 4, cs_selected = refs, cs_excluded_overlap_records = 2, cs_excluded_duplicate_records = 0,
       cs_first_sequence = 3, cs_final_sequence = 5, cs_selection_sha256 = hex (pad32 [])\<rparr>)"

lemma demo_select:
  "select_canonical DE (\<lambda>_. []) (demo_boundary ''t1'' Trade ''trade'' ''TA'' ''TB'' 4) demo_old demo_new = Ok demo_selected"
proof -
  have v: "validate_boundary (demo_boundary ''t1'' Trade ''trade'' ''TA'' ''TB'' 4) = Ok ()"
    by (rule demo_boundary_ok) simp_all
  show ?thesis unfolding select_canonical_def v
    by (simp add: validate_observations_def observation_fits_def demo_old_def demo_new_def demo_observation_def demo_boundary_def
        add_u64_def u64_max_def find_position_def demo_position_def validate_boundary_observations_def checked_add_def
        validate_and_select_sequence_def selection_candidates_def excluded_overlap_def demo_selected_def Let_def sha256_hex_def
        selected_ref_def)
qed

theorem canonical_selection_contiguous_witness:
  "length (cs_selected demo_selected) + cs_excluded_duplicate_records demo_selected + cs_excluded_overlap_records demo_selected
     = length demo_old + length demo_new
   \<and> successively (ref_follows Trade) (cs_selected demo_selected)"
  using canonical_selection_contiguous [OF demo_select] by simp

definition demo_durability :: boundary_durability where
  "demo_durability = \<lparr>bd_durable_through_frame_index = 1, bd_durable_through_offset = 8, bd_last_record_sha256 = demo_sha64\<rparr>"

lemma demo_derive:
  "derive_handover_boundary ''t1'' Trade demo_old demo_new demo_durability demo_durability ''r1''
     = Ok (demo_boundary ''t1'' Trade ''trade'' ''TA'' ''TB'' 4)"
proof -
  have v: "validate_boundary (demo_boundary ''t1'' Trade ''trade'' ''TA'' ''TB'' 4) = Ok ()"
    by (rule demo_boundary_ok) simp_all
  have l: "splice_loop Trade (predecessor_by_sequence demo_old) None demo_new
      = Ok (Some (demo_observation ''TA'' 1 4, demo_observation ''TB'' 0 4, demo_observation ''TB'' 1 5))"
    by (simp add: demo_old_def demo_new_def predecessor_by_sequence_def demo_observation_def checked_add_def u64_max_def
        continues_def)
  have b: "demo_boundary ''t1'' Trade ''trade'' ''TA'' ''TB'' 4 =
      \<lparr>hb_schema = ''HandoverBoundaryV1'', hb_boundary_id = ''t1'',
             hb_environment = ''production-public-market-data'', hb_symbol = ''BTCUSDT'',
             hb_stream_kind = Trade, hb_stream = ''trade'', hb_predecessor_epoch = ''TA'', hb_successor_epoch = ''TB'',
             hb_boundary_sequence = 4, hb_boundary_sha256 = demo_sha64,
             hb_predecessor_last_selected = position (demo_observation ''TA'' 1 4),
             hb_successor_boundary_observation = position (demo_observation ''TB'' 0 4),
             hb_successor_first_selected = position (demo_observation ''TB'' 1 5),
             hb_predecessor_durability = demo_durability, hb_successor_durability = demo_durability,
             hb_spec_revision = ''r1'', hb_selector_version = SELECTOR_VERSION\<rparr>"
    by (simp add: demo_boundary_def demo_position_def position_def demo_observation_def demo_durability_def)
  show ?thesis using l v unfolding derive_handover_boundary_def demo_old_def demo_new_def b
    by (simp add: demo_observation_def Let_def)
qed

theorem derived_boundary_is_proved_witness:
  "\<exists>p s c. find_position demo_old (demo_position ''TA'' ''trade'' 1) = Ok p \<and> find_position demo_new (demo_position ''TB'' ''trade'' 0) = Ok s
     \<and> find_position demo_new (demo_position ''TB'' ''trade'' 1) = Ok c
     \<and> validate_boundary_observations (demo_boundary ''t1'' Trade ''trade'' ''TA'' ''TB'' 4) p s c = Ok ()"
proof -
  have "validate_observations (demo_boundary ''t1'' Trade ''trade'' ''TA'' ''TB'' 4) demo_old ''TA'' = Ok ()"
    "validate_observations (demo_boundary ''t1'' Trade ''trade'' ''TA'' ''TB'' 4) demo_new ''TB'' = Ok ()"
    by (simp_all add: validate_observations_def observation_fits_def demo_old_def demo_new_def demo_observation_def demo_boundary_def
        add_u64_def u64_max_def)
  then show ?thesis using derived_boundary_is_proved [OF demo_derive] by (simp add: demo_boundary_def)
qed

section \<open>The boundary journal\<close>

lemma DE_len [simp]: "sha256_len32 DE" by (rule pad32_len)

lemma DE_hex [simp]: "length (sha256_hex DE bs) = 64" by (rule length_sha256_hex) simp

definition demo_sink :: "io_outcome list \<Rightarrow> sink" where
  "demo_sink plan = \<lparr>sk_data = [], sk_synced = 0, sk_plan = plan\<rparr>"

abbreviation demo_b :: handover_boundary where "demo_b \<equiv> demo_boundary ''t1'' Trade ''trade'' ''TA'' ''TB'' 4"

definition demo_bw0 :: boundary_journal_writer where
  "demo_bw0 = \<lparr>bw_sink = \<lparr>sk_data = BOUNDARY_MAGIC, sk_synced = 8, sk_plan = []\<rparr>, bw_end_offset = 8,
     bw_previous_digest = ZERO_DIGEST, bw_proposal = None, bw_committed = False, bw_poisoned = False\<rparr>"

lemma demo_bw0_new: "boundary_from_sink (demo_sink []) = Ok demo_bw0"
  by (simp add: boundary_from_sink_def demo_sink_def sink_write_all_def sink_sync_def demo_bw0_def BOUNDARY_MAGIC_def)

lemma length_ZERO_DIGEST [simp]: "length ZERO_DIGEST = 64"
  by (simp add: ZERO_DIGEST_def)

lemma demo_boundary_lengths:
  "length (enc_boundary_record (proposal_record ZERO_DIGEST demo_b)) \<le> 4096"
  "length d = 64 \<Longrightarrow> length (enc_boundary_record (commit_record d ''t1'' d)) \<le> 4096"
  by (simp_all add: enc_boundary_record_def proposal_record_def commit_record_def enc_boundary_def demo_boundary_def
      enc_kind_def enc_position_def demo_position_def enc_durability_def SELECTOR_VERSION_def)

lemma frame_length [simp]: "length (encode_frame DE b) = 36 + length b"
  using length_encode_frame [OF DE_len, of b] by simp

lemma demo_boundary_run:
  "\<exists>ack1 ack2 w. boundary_run DE enc_boundary_record [ProposeBoundary demo_b, CommitBoundary ''t1''] demo_bw0
     = ([(ProposeBoundary demo_b, Ok ack1), (CommitBoundary ''t1'', Ok ack2)], w)"
proof -
  have v: "validate_boundary demo_b = Ok ()" by (rule demo_boundary_ok) simp_all
  define w1 where "w1 = snd (boundary_propose DE enc_boundary_record demo_b demo_bw0)"
  let ?body = "enc_boundary_record (proposal_record ZERO_DIGEST demo_b)"
  have p: "\<exists>ack. boundary_propose DE enc_boundary_record demo_b demo_bw0 = (Ok ack,
      demo_bw0\<lparr>bw_sink := \<lparr>sk_data = BOUNDARY_MAGIC @ encode_frame DE ?body, sk_synced = 44 + length ?body, sk_plan = []\<rparr>,
        bw_end_offset := 44 + length ?body, bw_previous_digest := sha256_hex DE ?body,
        bw_proposal := Some (demo_b, sha256_hex DE ?body)\<rparr>)"
    using v demo_boundary_lengths(1)
    by (simp add: boundary_propose_def demo_bw0_def boundary_append_def Let_def BOUNDARY_MAX_RECORD_BYTES_def u32_max_def
        write_frame_def sink_write_all_def sink_sync_def checked_add_def u64_max_def BOUNDARY_MAGIC_def)
  then obtain ack1 where p1: "boundary_propose DE enc_boundary_record demo_b demo_bw0 = (Ok ack1, w1)" using w1_def by fastforce
  have w1: "bw_committed w1 = False" "bw_poisoned w1 = False" "sk_plan (bw_sink w1) = []" "bw_end_offset w1 = 44 + length ?body"
    "bw_proposal w1 = Some (demo_b, sha256_hex DE ?body)" "bw_previous_digest w1 = sha256_hex DE ?body"
    using p w1_def by (auto simp: demo_bw0_def)
  have "length (enc_boundary_record (commit_record (sha256_hex DE ?body) ''t1'' (sha256_hex DE ?body))) \<le> 4096"
    by (rule demo_boundary_lengths(2)) simp
  then have "\<exists>ack2 w. boundary_commit DE enc_boundary_record ''t1'' w1 = (Ok ack2, w)"
    using w1 demo_boundary_lengths(1)
    by (simp add: boundary_commit_def boundary_append_def Let_def BOUNDARY_MAX_RECORD_BYTES_def u32_max_def
        write_frame_def sink_write_all_def sink_sync_def checked_add_def u64_max_def)
  then show ?thesis using p1 by auto
qed

theorem boundary_commit_crash_safe_witness:
  "\<exists>log w. boundary_run DE enc_boundary_record [ProposeBoundary demo_b, CommitBoundary ''t1''] demo_bw0 = (log, w)
     \<and> (\<exists>b. bs_committed (scan_boundary_journal DE dec_boundary_record (take (sk_synced (bw_sink w)) (sk_data (bw_sink w)))) = Some b
          \<and> hb_boundary_id b = ''t1'')"
proof -
  obtain ack1 ack2 w where r: "boundary_run DE enc_boundary_record [ProposeBoundary demo_b, CommitBoundary ''t1''] demo_bw0
     = ([(ProposeBoundary demo_b, Ok ack1), (CommitBoundary ''t1'', Ok ack2)], w)" using demo_boundary_run by blast
  have "(CommitBoundary ''t1'', Ok ack2) \<in> set [(ProposeBoundary demo_b, Ok ack1), (CommitBoundary ''t1'', Ok ack2)]" by simp
  moreover have "sk_data (demo_sink []) = []" by (simp add: demo_sink_def)
  ultimately have "\<exists>b. bs_committed (scan_boundary_journal DE dec_boundary_record (take (sk_synced (bw_sink w)) (sk_data (bw_sink w)))) = Some b
      \<and> hb_boundary_id b = ''t1''"
    using boundary_commit_crash_safe [OF DE_len boundary_codec demo_bw0_new _ r order_refl refl] by blast
  then show ?thesis using r by blast
qed

section \<open>The ledger\<close>

definition demo_owner :: source_pointer_snapshot where
  "demo_owner = \<lparr>sp_schema = ''SourcePointerSnapshotV1'', sp_symbol = ''BTCUSDT'', sp_generation_id = ''g1'', sp_depth_epoch = ''A'',
     sp_trade_epoch = ''TA'', sp_fencing_token = 1, sp_depth_last_sequence = 9, sp_trade_last_sequence = 4\<rparr>"

definition demo_depth :: committed_boundary_proof where
  "demo_depth = \<lparr>cp_boundary = demo_boundary ''d1'' Depth ''depth'' ''A'' ''B'' 9, cp_commit_record_sha256 = demo_sha64\<rparr>"

definition demo_trade :: committed_boundary_proof where
  "demo_trade = \<lparr>cp_boundary = demo_boundary ''t1'' Trade ''trade'' ''TA'' ''TB'' 4, cp_commit_record_sha256 = demo_sha64\<rparr>"

definition demo_activation :: ownership_activation where
  "demo_activation = \<lparr>oa_schema = ''OwnershipActivationV1'', oa_activation_id = ''a1'', oa_symbol = ''BTCUSDT'',
     oa_predecessor_generation = ''g1'', oa_successor_generation = ''g2'', oa_predecessor_depth_epoch = ''A'',
     oa_predecessor_trade_epoch = ''TA'', oa_successor_depth_epoch = ''B'', oa_successor_trade_epoch = ''TB'',
     oa_depth_boundary_id = ''d1'', oa_trade_boundary_id = ''t1'', oa_depth_commit_record_sha256 = demo_sha64,
     oa_trade_commit_record_sha256 = demo_sha64, oa_depth_boundary_sequence = 9, oa_trade_boundary_sequence = 4,
     oa_fencing_token = 2\<rparr>"

lemma demo_proof_boundaries [simp]:
  "validate_boundary (cp_boundary demo_depth) = Ok ()" "validate_boundary (cp_boundary demo_trade) = Ok ()"
  unfolding demo_depth_def demo_trade_def by (simp_all add: demo_boundary_ok)

lemma demo_owner_ok [simp]: "validate_snapshot demo_owner = Ok ()"
  by (simp add: validate_snapshot_def demo_owner_def in_scope_def)

lemma demo_activation_ok [simp]: "validate_activation demo_activation = Ok ()"
  by (simp add: validate_activation_def demo_activation_def in_scope_def)

lemma demo_derive_activation: "derive_ownership_activation ''a1'' ''g2'' demo_owner demo_depth demo_trade = Ok demo_activation"
proof -
  have "validate_activation_proofs demo_activation demo_depth demo_trade = Ok ()"
    unfolding validate_activation_proofs_def by (simp, simp add: demo_activation_def demo_depth_def demo_trade_def)
  then show ?thesis unfolding derive_ownership_activation_def using demo_activation_ok
    by (simp, simp add: demo_owner_def demo_depth_def demo_trade_def demo_activation_def checked_add_def u64_max_def numeral_2_eq_2)
qed

lemma demo_predecessor_ok: "validate_activation_predecessor demo_owner demo_activation = Ok ()"
  unfolding validate_activation_predecessor_def
  by (simp, simp add: demo_owner_def demo_activation_def checked_add_def u64_max_def)

definition demo_body0 :: bytes where "demo_body0 = enc_ownership_record (initialized_record demo_owner)"
definition demo_body1 :: bytes where
  "demo_body1 = enc_ownership_record (prepared_record 1 (sha256_hex DE demo_body0) demo_activation)"
definition demo_body2 :: bytes where
  "demo_body2 = enc_ownership_record (activated_record 2 (sha256_hex DE demo_body1) (sha256_hex DE demo_body1))"

lemma demo_body_lengths:
  "length demo_body0 \<le> 4096" "length demo_body1 \<le> 4096" "length demo_body2 \<le> 4096"
  by (simp_all add: demo_body0_def demo_body1_def demo_body2_def enc_ownership_record_def initialized_record_def prepared_record_def
      activated_record_def enc_snapshot_def enc_activation_def demo_owner_def demo_activation_def)

text \<open>The ledgers of a session whose first six sink operations succeed, before the rest of the plan.\<close>

definition demo_plan :: "io_outcome list \<Rightarrow> io_outcome list" where
  "demo_plan rest = [IoOk, IoOk, IoOk, IoOk, IoOk, IoOk] @ rest"

definition demo_l0 :: "io_outcome list \<Rightarrow> ownership_ledger_writer" where
  "demo_l0 rest = \<lparr>ow_sink = \<lparr>sk_data = OWNERSHIP_MAGIC @ encode_frame DE demo_body0, sk_synced = 44 + length demo_body0,
       sk_plan = [IoOk, IoOk] @ rest\<rparr>, ow_end_offset = 44 + length demo_body0, ow_previous_digest = sha256_hex DE demo_body0,
     ow_record_count = 1, ow_active_owner = demo_owner, ow_pending = None, ow_poisoned = False\<rparr>"

definition demo_l1 :: "io_outcome list \<Rightarrow> ownership_ledger_writer" where
  "demo_l1 rest = (demo_l0 rest)\<lparr>ow_sink := \<lparr>sk_data = OWNERSHIP_MAGIC @ encode_frame DE demo_body0 @ encode_frame DE demo_body1,
       sk_synced = 80 + length demo_body0 + length demo_body1, sk_plan = rest\<rparr>,
     ow_end_offset := 80 + length demo_body0 + length demo_body1, ow_previous_digest := sha256_hex DE demo_body1,
     ow_record_count := 2, ow_pending := Some (demo_activation, sha256_hex DE demo_body1)\<rparr>"

lemma demo_l0_new: "ownership_from_sink DE enc_ownership_record (demo_sink (demo_plan rest)) demo_owner = Ok (demo_l0 rest)"
  using demo_body_lengths(1) unfolding demo_body0_def
  by (simp add: ownership_from_sink_def demo_sink_def demo_plan_def sink_write_all_def sink_sync_def ownership_append_def Let_def
      OWNERSHIP_MAX_RECORD_BYTES_def u32_max_def write_frame_def add_u64_def u64_max_def checked_add_def demo_l0_def demo_body0_def
      OWNERSHIP_MAGIC_def)

lemma demo_prepare: "\<exists>ack. ownership_prepare DE enc_ownership_record demo_activation (demo_l0 rest) = (Ok ack, demo_l1 rest)"
  using demo_body_lengths demo_predecessor_ok
  by (simp add: ownership_prepare_def demo_l0_def sink_write_all_def sink_sync_def ownership_append_def Let_def
      OWNERSHIP_MAX_RECORD_BYTES_def u32_max_def write_frame_def add_u64_def u64_max_def checked_add_def demo_l1_def
      OWNERSHIP_MAGIC_def numeral_2_eq_2 demo_body1_def [symmetric, unfolded One_nat_def])

definition demo_l2 :: ownership_ledger_writer where
  "demo_l2 = (demo_l1 [])\<lparr>ow_sink := \<lparr>sk_data = OWNERSHIP_MAGIC @ encode_frame DE demo_body0 @ encode_frame DE demo_body1
         @ encode_frame DE demo_body2, sk_synced = 116 + length demo_body0 + length demo_body1 + length demo_body2, sk_plan = []\<rparr>,
     ow_end_offset := 116 + length demo_body0 + length demo_body1 + length demo_body2,
     ow_previous_digest := sha256_hex DE demo_body2, ow_record_count := 3, ow_pending := None,
     ow_active_owner := successor_snapshot demo_activation\<rparr>"

lemma demo_activate: "\<exists>ack. ownership_activate DE enc_ownership_record ''a1'' (demo_l1 []) = (Ok ack, demo_l2)"
proof -
  have i: "oa_activation_id demo_activation = ''a1''" by (simp add: demo_activation_def)
  show ?thesis using demo_body_lengths i
    by (simp add: ownership_activate_def demo_l1_def demo_l0_def sink_write_all_def sink_sync_def ownership_append_def Let_def
      OWNERSHIP_MAX_RECORD_BYTES_def u32_max_def write_frame_def add_u64_def u64_max_def checked_add_def demo_l2_def
      OWNERSHIP_MAGIC_def numeral_3_eq_3 demo_body2_def [symmetric])
qed

lemma demo_bounded [simp]: "ledger_bounded (demo_l0 rest)" "ledger_bounded (demo_l1 rest)" "ledger_bounded demo_l2"
  using demo_body_lengths
  by (simp_all add: ledger_bounded_def demo_l0_def demo_l1_def demo_l2_def OWNERSHIP_MAGIC_def u64_max_def)

lemma demo_written: "written_ledger DE enc_ownership_record (demo_l0 rest)" "written_ledger DE enc_ownership_record (demo_l1 rest)"
proof -
  have sk: "sk_data (demo_sink (demo_plan rest)) = []" by (simp add: demo_sink_def)
  have "ownership_run DE enc_ownership_record [] (demo_l0 rest) = ([], demo_l0 rest)" by simp
  then show "written_ledger DE enc_ownership_record (demo_l0 rest)" unfolding written_ledger_def using demo_l0_new sk by blast
  obtain ack where "ownership_prepare DE enc_ownership_record demo_activation (demo_l0 rest) = (Ok ack, demo_l1 rest)" using demo_prepare by blast
  then have "ownership_run DE enc_ownership_record [PrepareOwner demo_activation] (demo_l0 rest)
      = ([(PrepareOwner demo_activation, Ok ack)], demo_l1 rest)" by simp
  then show "written_ledger DE enc_ownership_record (demo_l1 rest)" unfolding written_ledger_def using demo_l0_new sk by blast
qed

theorem accepted_ledger_fences_witness:
  "\<exists>bodies rs first (owner :: source_pointer_snapshot). sk_data (ow_sink (demo_l1 [])) = OWNERSHIP_MAGIC @ frame_bytes DE bodies
     \<and> rs = frames_of DE dec_ownership_record bodies \<and> length rs = 2
     \<and> or_initial_owner (fst (hd rs)) = Some first \<and> sp_fencing_token owner = sp_fencing_token first + activations rs"
proof -
  obtain bodies st where inv: "ledger_inv DE dec_ownership_record (demo_l1 []) bodies st"
    using written_ledger_inv [OF DE_len ownership_codec demo_written(2) demo_bounded(2), of "[]"] by blast
  define scan where "scan = scan_ownership_ledger DE dec_ownership_record (sk_data (ow_sink (demo_l1 [])))"
  let ?n = "length (sk_data (ow_sink (demo_l1 [])))"
  have n: "sk_synced (ow_sink (demo_l1 [])) \<le> ?n" by (simp add: demo_l1_def OWNERSHIP_MAGIC_def)
  have sc: "scan = scan_ownership_ledger DE dec_ownership_record (take ?n (sk_data (ow_sink (demo_l1 []))))"
    unfolding scan_def by (simp only: take_all order_refl)
  have l1: "\<not> ow_poisoned (demo_l1 [])" "ow_record_count (demo_l1 []) = 2" by (simp_all add: demo_l1_def demo_l0_def)
  have s: "os_clean_eof scan" "os_records scan = 2"
    using ledger_crash_scan(1) [OF DE_len inv n sc] l1 by auto
  then have "0 < os_records scan" by simp
  from accepted_ledger_fences [OF scan_def s(1) this] obtain bodies rs first owner where
    b: "sk_data (ow_sink (demo_l1 [])) = OWNERSHIP_MAGIC @ frame_bytes DE bodies" "rs = frames_of DE dec_ownership_record bodies"
      "length rs = os_records scan" "or_initial_owner (fst (hd rs)) = Some first" "os_active_owner scan = Some owner"
      "sp_fencing_token owner = sp_fencing_token first + activations rs" by (elim exE conjE) (rule that)
  have "length rs = 2" using b(3) s(2) by simp
  then show ?thesis using b(1,2,4,6) by (intro exI conjI)
qed

theorem ownership_survives_crash_witness:
  "\<exists>log w. ownership_run DE enc_ownership_record [PrepareOwner demo_activation, ActivateOwner ''a1''] (demo_l0 []) = (log, w)
     \<and> w = demo_l2 \<and> sp_fencing_token (ow_active_owner w) = sp_fencing_token demo_owner + length (filter is_activation log)
     \<and> os_active_owner (scan_ownership_ledger DE dec_ownership_record (take (sk_synced (ow_sink w)) (sk_data (ow_sink w))))
         = Some (ow_active_owner w)"
proof -
  obtain ack1 ack2 where a: "ownership_prepare DE enc_ownership_record demo_activation (demo_l0 []) = (Ok ack1, demo_l1 [])"
    "ownership_activate DE enc_ownership_record ''a1'' (demo_l1 []) = (Ok ack2, demo_l2)" using demo_prepare demo_activate by blast
  obtain log where r: "ownership_run DE enc_ownership_record [PrepareOwner demo_activation, ActivateOwner ''a1''] (demo_l0 []) = (log, demo_l2)"
    using a by simp
  have sk: "sk_data (demo_sink (demo_plan [])) = []" by (simp add: demo_sink_def)
  have b: "length (sk_data (ow_sink demo_l2)) \<le> u64_max" using demo_bounded(3) by (simp add: ledger_bounded_def)
  have np: "\<not> ow_poisoned demo_l2" by (simp add: demo_l2_def demo_l1_def demo_l0_def)
  note t = ownership_survives_crash [OF DE_len ownership_codec demo_l0_new sk r b order_refl refl]
  show ?thesis using r t np by blast
qed

section \<open>The pointer\<close>

definition demo_pointer :: canonical_source_pointer where
  "demo_pointer = \<lparr>ptr_owner = demo_owner, ptr_state = PointerLive, ptr_fenced_rejections = 0, ptr_gap_reason = None\<rparr>"

definition demo_pointer_ops :: "pointer_op list" where
  "demo_pointer_ops = [AcceptObservation Depth ''A'' 1 10 12, AcceptObservation Depth ''X'' 1 13 13,
     AcceptObservation Trade ''TA'' 1 5 5]"

theorem fenced_publication_contiguous_witness:
  "contiguous_ranges Depth 9 [(10, 12)] 12
   \<and> same_owner demo_owner (ptr_owner (snd (pointer_run demo_pointer_ops demo_pointer)))"
proof -
  have e: "accepted_ranges Depth (fst (pointer_run demo_pointer_ops demo_pointer)) = [(10, 12)]"
    "owner_last Depth (ptr_owner (snd (pointer_run demo_pointer_ops demo_pointer))) = 12"
    by (simp_all add: demo_pointer_ops_def demo_pointer_def demo_owner_def pointer_accept_def owner_epoch_def owner_last_def
        set_owner_last_def checked_add_def u64_max_def fence_reject_def add_u64_def)
  have o: "ptr_owner demo_pointer = demo_owner" "owner_last Depth demo_owner = 9"
    by (simp_all add: demo_pointer_def owner_last_def demo_owner_def)
  show ?thesis
    using fenced_publication_contiguous [OF surjective_pairing, where kind = Depth and ops = demo_pointer_ops and p = demo_pointer]
    unfolding e o by blast
qed

section \<open>Rotations\<close>

definition demo_coordinator :: live_rotation_coordinator where
  "demo_coordinator = \<lparr>lc_handover = demo_converged, lc_pointer = demo_pointer\<rparr>"

abbreviation demo_candidate :: epoch_status where
  "demo_candidate \<equiv> \<lparr>es_epoch = ''B'', es_state = LiveBook, es_final_update_id = Some 9, es_state_sha256 = Some demo_sha64\<rparr>"

lemma demo_matches:
  "candidate_converged demo_converged" "depth_proof_matches demo_converged demo_candidate demo_depth demo_trade"
  "proofs_continue_pointer demo_owner demo_depth demo_trade"
  by (simp_all add: candidate_converged_def demo_converged_state depth_proof_matches_def demo_depth_def demo_trade_def
      proofs_continue_pointer_def demo_owner_def)

lemma demo_coordinator_sel [simp]: "lc_handover demo_coordinator = demo_converged" "lc_pointer demo_coordinator = demo_pointer"
  "ptr_owner demo_pointer = demo_owner" "ptr_state demo_pointer = PointerLive"
  by (simp_all add: demo_coordinator_def demo_pointer_def)

definition demo_rotation :: "(sink \<Rightarrow> bytes res) \<Rightarrow> io_outcome list
    \<Rightarrow> live_activation_report res \<times> live_rotation_coordinator \<times> ownership_ledger_writer" where
  "demo_rotation read_path rest = activate_committed DE enc_ownership_record dec_ownership_record enc_snapshot read_path ''a1'' ''g2''
     demo_depth demo_trade demo_coordinator (demo_l0 rest)"

lemma demo_rotation_ledger: "snd (snd (demo_rotation read_path [])) = demo_l2"
proof -
  have i: "oa_activation_id demo_activation = ''a1''" by (simp add: demo_activation_def)
  obtain ack1 ack2 where a: "ownership_prepare DE enc_ownership_record demo_activation (demo_l0 []) = (Ok ack1, demo_l1 [])"
    "ownership_activate DE enc_ownership_record ''a1'' (demo_l1 []) = (Ok ack2, demo_l2)" using demo_prepare demo_activate by blast
  show ?thesis unfolding demo_rotation_def activate_committed_def
    by (simp add: demo_converged_state(3) demo_matches demo_derive_activation a i split: sum.split prod.split)
qed

lemma demo_rotation_eq:
  "demo_rotation read_path [] = (fst (demo_rotation read_path []), fst (snd (demo_rotation read_path [])), demo_l2)"
  using demo_rotation_ledger by (metis prod.collapse)

lemma successor_not_owner: "successor_snapshot demo_activation \<noteq> demo_owner" "ow_active_owner demo_l2 = successor_snapshot demo_activation"
  "ow_active_owner (demo_l0 rest) = demo_owner"
  by (simp_all add: successor_snapshot_def demo_activation_def demo_owner_def demo_l2_def demo_l0_def)

text \<open>Witness: the ledger's path reads its own file.\<close>

theorem activation_all_or_nothing_witness:
  "\<exists>report. fst (demo_rotation (\<lambda>sk. Ok (sk_data sk)) []) = Ok report \<and> lr_fencing_token report = 2
     \<and> ptr_owner (lc_pointer (fst (snd (demo_rotation (\<lambda>sk. Ok (sk_data sk)) [])))) = successor_snapshot demo_activation"
proof -
  have h: "handover_reachable (lc_handover demo_coordinator)" using demo_converged_reachable by simp
  note t = activation_all_or_nothing [OF DE_len ownership_codec h demo_written(1) demo_bounded(1,3) _
      demo_rotation_eq [unfolded demo_rotation_def], of "\<lambda>sk. Ok (sk_data sk)", folded demo_rotation_def]
  have "case fst (demo_rotation (\<lambda>sk. Ok (sk_data sk)) []) of Inl e \<Rightarrow> False
    | Inr report \<Rightarrow> lr_fencing_token report = 2
        \<and> ptr_owner (lc_pointer (fst (snd (demo_rotation (\<lambda>sk. Ok (sk_data sk)) [])))) = successor_snapshot demo_activation"
    using t successor_not_owner by (cases "fst (demo_rotation (\<lambda>sk. Ok (sk_data sk)) [])") (auto simp: demo_owner_def)
  then show ?thesis by (cases "fst (demo_rotation (\<lambda>sk. Ok (sk_data sk)) [])") auto
qed

text \<open>Witness: the ledger's path cannot be read after the activation.\<close>

theorem activation_fails_closed_witness:
  "fst (demo_rotation (\<lambda>_. Err (Fail ''open'')) []) = Err (Fail ''open'')
   \<and> ptr_state (lc_pointer (fst (snd (demo_rotation (\<lambda>_. Err (Fail ''open'')) [])))) = PointerGap"
proof -
  have i: "oa_activation_id demo_activation = ''a1''" by (simp add: demo_activation_def)
  obtain ack1 ack2 where a: "ownership_prepare DE enc_ownership_record demo_activation (demo_l0 []) = (Ok ack1, demo_l1 [])"
    "ownership_activate DE enc_ownership_record ''a1'' (demo_l1 []) = (Ok ack2, demo_l2)" using demo_prepare demo_activate by blast
  have r: "fst (demo_rotation (\<lambda>_. Err (Fail ''open'')) []) = Err (Fail ''open'')"
    unfolding demo_rotation_def activate_committed_def
    by (simp add: demo_converged_state(3) demo_matches demo_derive_activation a i rescan_pointer_def)
  have h: "handover_reachable (lc_handover demo_coordinator)" using demo_converged_reachable by simp
  have c: "hc_candidate (lc_handover demo_coordinator) = Some demo_candidate" by (simp add: demo_converged_state)
  show ?thesis
    using activation_fails_closed [OF h c demo_rotation_eq [unfolded demo_rotation_def] demo_written(1) demo_bounded(3,1) DE_len
        ownership_codec, of "\<lambda>_. Err (Fail ''open'')", folded demo_rotation_def] r successor_not_owner by auto
qed

text \<open>Witness: the sync of the activation record fails.\<close>

theorem unsynced_activation_leaves_two_owners_witness:
  "\<exists>e l' p. demo_rotation (\<lambda>sk. Ok (sk_data sk)) [IoOk, IoErr 0] = (Err e, demo_coordinator, l')
     \<and> ptr_state (lc_pointer demo_coordinator) = PointerLive
     \<and> pointer_recover (scan_ownership_ledger DE dec_ownership_record (sk_data (ow_sink l'))) (Some (demo_depth, demo_trade)) = Ok p
     \<and> ptr_state p = PointerLive \<and> sp_fencing_token (ptr_owner p) = 2"
proof -
  let ?rest = "[IoOk, IoErr 0]"
  obtain ack where p: "ownership_prepare DE enc_ownership_record demo_activation (demo_l0 ?rest) = (Ok ack, demo_l1 ?rest)"
    using demo_prepare by blast
  have c: "candidate_converged (lc_handover demo_coordinator)" "hc_candidate (lc_handover demo_coordinator) = Some demo_candidate"
    "depth_proof_matches (lc_handover demo_coordinator) demo_candidate demo_depth demo_trade"
    "proofs_continue_pointer (ptr_owner (lc_pointer demo_coordinator)) demo_depth demo_trade"
    "derive_ownership_activation ''a1'' ''g2'' (ptr_owner (lc_pointer demo_coordinator)) demo_depth demo_trade = Ok demo_activation"
    "ptr_state (lc_pointer demo_coordinator) = PointerLive"
    using demo_matches demo_derive_activation by (simp_all add: demo_converged_state)
  have l: "\<not> ow_poisoned (demo_l1 ?rest)" "sk_plan (ow_sink (demo_l1 ?rest)) = IoOk # IoErr 0 # []"
    "length (enc_ownership_record (activated_record (ow_record_count (demo_l1 ?rest)) (ow_previous_digest (demo_l1 ?rest))
       (ow_previous_digest (demo_l1 ?rest)))) \<le> OWNERSHIP_MAX_RECORD_BYTES"
    using demo_body_lengths(3)
    by (simp_all add: demo_l1_def demo_l0_def OWNERSHIP_MAX_RECORD_BYTES_def demo_body2_def)
  have f: "sp_fencing_token (ptr_owner (lc_pointer demo_coordinator)) + 1 = 2" by (simp add: demo_owner_def)
  show ?thesis
    using unsynced_activation_leaves_two_owners [OF DE_len ownership_codec demo_written(2) demo_bounded(2) c(1-5) p l(1) c(6) l(2,3),
        where snap_vec = enc_snapshot and read_path = "\<lambda>sk. Ok (sk_data sk)"]
    unfolding f demo_rotation_def .
qed

text \<open>Witness: the session of the active epoch is closed by the peer.\<close>

theorem transport_end_opens_gap_witness:
  "\<exists>h'. apply_transport_actions ''A'' None [EpochClosed (''websocket close code='' @ close_code None @ '' reason='' @ ''bye'')]
     demo_converged = (Ok (), h') \<and> hc_publication h' = PubGap \<and> es_state (hc_active h') = Failed \<and> handover_reachable h'"
proof -
  have h: "ws_handle DE (WsClose None ''bye'') 7 (demo_ws\<lparr>ws_epoch := ''A''\<rparr>)
      = (Ok [EpochClosed (''websocket close code='' @ close_code None @ '' reason='' @ ''bye'')],
         demo_ws\<lparr>ws_epoch := ''A'', ws_last_receive_mono_ns := Some 7, ws_state := TsClosed\<rparr>)"
    by (simp add: ws_handle_def demo_ws_def terminal_session_def Let_def)
  have e: "es_epoch (hc_active demo_converged) = ws_epoch (demo_ws\<lparr>ws_epoch := ''A''\<rparr>)" "es_state (hc_active demo_converged) \<noteq> Failed"
    by (simp_all add: demo_converged_state)
  have t: "\<not> terminal_session (demo_ws\<lparr>ws_epoch := ''A''\<rparr>)"
    "terminal_session (demo_ws\<lparr>ws_epoch := ''A'', ws_last_receive_mono_ns := Some 7, ws_state := TsClosed\<rparr>)"
    by (simp_all add: terminal_session_def demo_ws_def)
  show ?thesis using transport_end_opens_gap [OF demo_converged_reachable e disjI1 [OF h] t, of None] by simp
qed

end
