(* ===== verification/Generation_Supervisor.thy ===== *)
theory Generation_Supervisor
  imports Rust_Prelude "HOL-Library.Char_ord"
begin

text \<open>
  The lifecycle of raw capture generations, \<open>src/rust/lob-replay/src/generation_supervisor.rs\<close>: one
  active generation, at most one candidate that collects evidence until it may be promoted, the
  generations still draining, and the gaps in between. Every \<open>&mut self\<close> operation answers its result
  and the supervisor it leaves; the clock advances also when the operation is refused afterwards.
\<close>

section \<open>Identities and evidence\<close>

datatype raw_supervisor_state = RawLive | RawHandover | RawGap | RawRecovering

datatype generation_role = RoleActive | RoleCandidate | RoleDraining

datatype candidate_reason = PlannedRotation | ShutdownNotice | RetryAfterFailure | RecoveryAfterGap

datatype candidate_fact = DepthConnected | TradeConnected | SnapshotPersisted | DepthDurable | TradeDurable
  | DepthContinuityProven | TradeContinuityProven

record generation_identity =
  gn_generation_id :: string
  gn_depth_epoch :: string
  gn_trade_epoch :: string

definition validate_generation_identity :: "generation_identity \<Rightarrow> unit res" where
  "validate_generation_identity i =
     (if trim_is_empty (gn_generation_id i) \<or> trim_is_empty (gn_depth_epoch i) \<or> trim_is_empty (gn_trade_epoch i)
         \<or> gn_generation_id i = gn_depth_epoch i \<or> gn_generation_id i = gn_trade_epoch i
         \<or> gn_depth_epoch i = gn_trade_epoch i
      then Err (Fail ''generation ID and stream epochs must be distinct and non-empty'') else Ok ())"

definition generation_identity_new :: "string \<Rightarrow> string \<Rightarrow> string \<Rightarrow> generation_identity res" where
  "generation_identity_new generation_id depth_epoch trade_epoch =
     (let i = \<lparr>gn_generation_id = generation_id, gn_depth_epoch = depth_epoch, gn_trade_epoch = trade_epoch\<rparr>
      in rbind (validate_generation_identity i) (\<lambda>_. Ok i))"

definition contains_epoch :: "string \<Rightarrow> generation_identity \<Rightarrow> bool" where
  "contains_epoch epoch i \<longleftrightarrow> gn_depth_epoch i = epoch \<or> gn_trade_epoch i = epoch"

record candidate_readiness =
  rd_depth_connected :: bool
  rd_trade_connected :: bool
  rd_snapshot_persisted :: bool
  rd_depth_durable :: bool
  rd_trade_durable :: bool
  rd_depth_continuity_proven :: bool
  rd_trade_continuity_proven :: bool

definition readiness_empty :: candidate_readiness where
  "readiness_empty = \<lparr>rd_depth_connected = False, rd_trade_connected = False, rd_snapshot_persisted = False,
     rd_depth_durable = False, rd_trade_durable = False, rd_depth_continuity_proven = False,
     rd_trade_continuity_proven = False\<rparr>"

definition is_ready :: "candidate_readiness \<Rightarrow> bool" where
  "is_ready r \<longleftrightarrow> rd_depth_connected r \<and> rd_trade_connected r \<and> rd_snapshot_persisted r \<and> rd_depth_durable r
     \<and> rd_trade_durable r \<and> rd_depth_continuity_proven r \<and> rd_trade_continuity_proven r"

text \<open>The match of \<open>observe\<close>: what a fact presupposes, the flag it reads and the flag it sets.\<close>

definition fact_guard :: "candidate_fact \<Rightarrow> candidate_readiness \<Rightarrow> unit res" where
  "fact_guard ft r =
     (case ft of
        DepthConnected \<Rightarrow> Ok ()
      | TradeConnected \<Rightarrow> Ok ()
      | SnapshotPersisted \<Rightarrow> check (rd_depth_connected r) (Fail ''snapshot cannot be persisted before depth connects'')
      | DepthDurable \<Rightarrow> check (rd_depth_connected r) (Fail ''depth cannot become durable before it connects'')
      | TradeDurable \<Rightarrow> check (rd_trade_connected r) (Fail ''trade cannot become durable before it connects'')
      | DepthContinuityProven \<Rightarrow> check (rd_snapshot_persisted r \<and> rd_depth_durable r)
          (Fail ''depth continuity requires a durable snapshot-backed depth prefix'')
      | TradeContinuityProven \<Rightarrow> check (rd_trade_durable r) (Fail ''trade continuity requires a durable trade prefix''))"

definition fact_flag :: "candidate_fact \<Rightarrow> candidate_readiness \<Rightarrow> bool" where
  "fact_flag ft r =
     (case ft of
        DepthConnected \<Rightarrow> rd_depth_connected r | TradeConnected \<Rightarrow> rd_trade_connected r
      | SnapshotPersisted \<Rightarrow> rd_snapshot_persisted r | DepthDurable \<Rightarrow> rd_depth_durable r
      | TradeDurable \<Rightarrow> rd_trade_durable r | DepthContinuityProven \<Rightarrow> rd_depth_continuity_proven r
      | TradeContinuityProven \<Rightarrow> rd_trade_continuity_proven r)"

definition set_fact :: "candidate_fact \<Rightarrow> candidate_readiness \<Rightarrow> candidate_readiness" where
  "set_fact ft r =
     (case ft of
        DepthConnected \<Rightarrow> r\<lparr>rd_depth_connected := True\<rparr> | TradeConnected \<Rightarrow> r\<lparr>rd_trade_connected := True\<rparr>
      | SnapshotPersisted \<Rightarrow> r\<lparr>rd_snapshot_persisted := True\<rparr> | DepthDurable \<Rightarrow> r\<lparr>rd_depth_durable := True\<rparr>
      | TradeDurable \<Rightarrow> r\<lparr>rd_trade_durable := True\<rparr>
      | DepthContinuityProven \<Rightarrow> r\<lparr>rd_depth_continuity_proven := True\<rparr>
      | TradeContinuityProven \<Rightarrow> r\<lparr>rd_trade_continuity_proven := True\<rparr>)"

definition readiness_observe :: "candidate_fact \<Rightarrow> candidate_readiness \<Rightarrow> bool res \<times> candidate_readiness" where
  "readiness_observe ft r =
     (case fact_guard ft r of
        Inl e \<Rightarrow> (Err e, r)
      | Inr _ \<Rightarrow> if fact_flag ft r then (Ok False, r) else (Ok True, set_fact ft r))"

section \<open>The supervisor\<close>

record generation_status =
  gt_identity :: generation_identity
  gt_role :: generation_role
  gt_opened_mono_ns :: nat
  gt_reason :: candidate_reason
  gt_readiness :: candidate_readiness

record raw_supervisor_config =
  rc_segment_interval_ns :: nat
  rc_planned_rotation_age_ns :: nat
  rc_active_max_age_ns :: nat
  rc_candidate_timeout_ns :: nat
  rc_backoff_initial_ns :: nat
  rc_backoff_max_ns :: nat

definition validate_durations :: "raw_supervisor_config \<Rightarrow> unit res" where
  "validate_durations c =
     (if rc_segment_interval_ns c = 0 \<or> rc_planned_rotation_age_ns c = 0 \<or> rc_active_max_age_ns c = 0
         \<or> rc_candidate_timeout_ns c = 0 \<or> rc_backoff_initial_ns c = 0 \<or> rc_backoff_max_ns c = 0
         \<or> rc_active_max_age_ns c \<le> rc_planned_rotation_age_ns c \<or> rc_backoff_max_ns c < rc_backoff_initial_ns c
      then Err (Fail ''invalid raw generation supervisor durations'') else Ok ())"

record candidate_request =
  cq_reason :: candidate_reason
  cq_not_before_mono_ns :: nat

record time_advance =
  ta_segment_rollovers :: nat
  ta_current_segment_index :: nat
  ta_candidate_request :: "candidate_request option"
  ta_candidate_timed_out :: bool
  ta_entered_gap :: bool

datatype server_shutdown_outcome = CandidateStarted | CandidateAlreadyInProgress | IgnoredNonActiveEpoch

datatype disconnect_outcome = ActiveFailed | CandidateFailed | DrainingClosed | AlreadyTerminal

record promotion =
  pm_predecessor :: "generation_identity option"
  pm_successor :: generation_identity
  pm_gap_was_open :: bool

record generation_supervisor =
  rg_config :: raw_supervisor_config
  rg_state :: raw_supervisor_state
  rg_clock_origin_ns :: nat
  rg_last_mono_ns :: nat
  rg_current_segment_index :: nat
  rg_active :: "generation_status option"
  rg_candidate :: "generation_status option"
  rg_draining :: "generation_status list"
  rg_used_tokens :: "string set"
  rg_pending_reason :: "candidate_reason option"
  rg_next_candidate_not_before_ns :: "nat option"
  rg_retry_attempt :: nat
  rg_gap_count :: nat

definition generation_supervisor_new ::
  "raw_supervisor_config \<Rightarrow> generation_identity \<Rightarrow> nat \<Rightarrow> generation_supervisor res" where
  "generation_supervisor_new config initial now =
     rbind (validate_durations config) (\<lambda>_. rbind (validate_generation_identity initial) (\<lambda>_.
       Ok \<lparr>rg_config = config, rg_state = RawLive, rg_clock_origin_ns = now, rg_last_mono_ns = now,
           rg_current_segment_index = 0,
           rg_active = Some \<lparr>gt_identity = initial, gt_role = RoleActive, gt_opened_mono_ns = now,
             gt_reason = RecoveryAfterGap,
             gt_readiness = \<lparr>rd_depth_connected = True, rd_trade_connected = True, rd_snapshot_persisted = True,
               rd_depth_durable = True, rd_trade_durable = True, rd_depth_continuity_proven = True,
               rd_trade_continuity_proven = True\<rparr>\<rparr>,
           rg_candidate = None, rg_draining = [],
           rg_used_tokens = {gn_generation_id initial, gn_depth_epoch initial, gn_trade_epoch initial},
           rg_pending_reason = None, rg_next_candidate_not_before_ns = None, rg_retry_attempt = 0,
           rg_gap_count = 0\<rparr>))"

definition qualification_has_gap :: "generation_supervisor \<Rightarrow> bool" where
  "qualification_has_gap s \<longleftrightarrow> rg_gap_count s \<noteq> 0"

text \<open>\<open>1_u64.checked_shl(shift)\<close> is defined for the shifts up to 63 that reach it.\<close>

definition retry_delay :: "raw_supervisor_config \<Rightarrow> nat \<Rightarrow> nat" where
  "retry_delay c attempt = min (saturating_mul (rc_backoff_initial_ns c) (2 ^ min attempt 63)) (rc_backoff_max_ns c)"

definition schedule_retry :: "nat \<Rightarrow> candidate_reason \<Rightarrow> generation_supervisor \<Rightarrow> generation_supervisor" where
  "schedule_retry now reason s =
     s\<lparr>rg_retry_attempt := min (rg_retry_attempt s + 1) u32_max, rg_pending_reason := Some reason,
       rg_next_candidate_not_before_ns := Some (saturating_add now (retry_delay (rg_config s) (rg_retry_attempt s)))\<rparr>"

definition enter_gap :: "nat \<Rightarrow> generation_supervisor \<Rightarrow> unit res \<times> generation_supervisor" where
  "enter_gap now s =
     (if rg_active s = None then (Err (Fail ''cannot fail an absent active generation''), s)
      else
        let s1 = s\<lparr>rg_active := None, rg_candidate := None\<rparr> in
        case checked_add (rg_gap_count s1) 1 of
          None \<Rightarrow> (Err (Fail ''gap count overflow''), s1)
        | Some n \<Rightarrow>
            (Ok (), (schedule_retry now RecoveryAfterGap (s1\<lparr>rg_gap_count := n\<rparr>))\<lparr>rg_state := RawGap\<rparr>))"

definition fail_candidate :: "nat \<Rightarrow> generation_supervisor \<Rightarrow> unit res \<times> generation_supervisor" where
  "fail_candidate now s =
     (if rg_candidate s = None then (Err (Fail ''no candidate to fail''), s)
      else (Ok (), (schedule_retry now RetryAfterFailure (s\<lparr>rg_candidate := None\<rparr>))
              \<lparr>rg_state := (if rg_active s \<noteq> None then RawLive else RawGap)\<rparr>))"

text \<open>Plain \<open>now - opened\<close> subtractions abort on underflow.\<close>

definition age_reached :: "nat \<Rightarrow> nat \<Rightarrow> generation_status option \<Rightarrow> bool res" where
  "age_reached now limit g =
     (case g of None \<Rightarrow> Ok False | Some g \<Rightarrow> rbind (sub_u64 now (gt_opened_mono_ns g)) (\<lambda>age. Ok (limit \<le> age)))"

definition candidate_request_at :: "nat \<Rightarrow> generation_supervisor \<Rightarrow> candidate_request option res" where
  "candidate_request_at now s =
     (if rg_candidate s \<noteq> None then Ok None
      else
        let not_before = (case rg_next_candidate_not_before_ns s of None \<Rightarrow> now | Some t \<Rightarrow> t) in
        if now < not_before then Ok None
        else if rg_active s = None
        then Ok (Some \<lparr>cq_reason = RecoveryAfterGap, cq_not_before_mono_ns = not_before\<rparr>)
        else case rg_pending_reason s of
          Some reason \<Rightarrow> Ok (Some \<lparr>cq_reason = reason, cq_not_before_mono_ns = not_before\<rparr>)
        | None \<Rightarrow>
            rbind (age_reached now (rc_planned_rotation_age_ns (rg_config s)) (rg_active s)) (\<lambda>due.
              Ok (if due then Some \<lparr>cq_reason = PlannedRotation, cq_not_before_mono_ns = now\<rparr> else None)))"

text \<open>The end of \<open>advance_time\<close>.\<close>

definition advance_report :: "nat \<Rightarrow> nat \<Rightarrow> bool \<Rightarrow> bool \<Rightarrow> generation_supervisor \<Rightarrow> time_advance res" where
  "advance_report now rollovers timed_out entered s =
     rbind (candidate_request_at now s) (\<lambda>request.
       Ok \<lparr>ta_segment_rollovers = rollovers, ta_current_segment_index = rg_current_segment_index s,
           ta_candidate_request = request, ta_candidate_timed_out = timed_out, ta_entered_gap = entered\<rparr>)"

text \<open>Its deadline checks: a hard deadline of the active generation first, else the candidate's timeout.\<close>

definition advance_deadlines ::
  "nat \<Rightarrow> nat \<Rightarrow> generation_supervisor \<Rightarrow> time_advance res \<times> generation_supervisor" where
  "advance_deadlines now rollovers s =
     (case age_reached now (rc_active_max_age_ns (rg_config s)) (rg_active s) of
        Inl e \<Rightarrow> (Err e, s)
      | Inr True \<Rightarrow>
          (case enter_gap now s of
             (Inl e, s1) \<Rightarrow> (Err e, s1)
           | (Inr _, s1) \<Rightarrow> (advance_report now rollovers False True s1, s1))
      | Inr False \<Rightarrow>
          (case age_reached now (rc_candidate_timeout_ns (rg_config s)) (rg_candidate s) of
             Inl e \<Rightarrow> (Err e, s)
           | Inr True \<Rightarrow>
               (case fail_candidate now s of
                  (Inl e, s1) \<Rightarrow> (Err e, s1)
                | (Inr _, s1) \<Rightarrow> (advance_report now rollovers True False s1, s1))
           | Inr False \<Rightarrow> (advance_report now rollovers False False s, s)))"

definition advance_generations :: "nat \<Rightarrow> generation_supervisor \<Rightarrow> time_advance res \<times> generation_supervisor" where
  "advance_generations now s =
     (if now < rg_last_mono_ns s
      then (Err (FailN ''supervisor monotonic time regressed'' [rg_last_mono_ns s, now]), s)
      else
        let s1 = s\<lparr>rg_last_mono_ns := now\<rparr> in
        case sub_u64 now (rg_clock_origin_ns s1) of
          Inl e \<Rightarrow> (Err e, s1)
        | Inr elapsed \<Rightarrow>
            if rc_segment_interval_ns (rg_config s1) = 0 then (Err Panic, s1)
            else
              let target = elapsed div rc_segment_interval_ns (rg_config s1) in
              case checked_sub target (rg_current_segment_index s1) of
                None \<Rightarrow> (Err (Fail ''segment clock regressed''), s1)
              | Some rollovers \<Rightarrow> advance_deadlines now rollovers (s1\<lparr>rg_current_segment_index := target\<rparr>))"

definition identity_tokens :: "generation_identity \<Rightarrow> string list" where
  "identity_tokens i = [gn_generation_id i, gn_depth_epoch i, gn_trade_epoch i]"

definition register_identity :: "generation_identity \<Rightarrow> generation_supervisor \<Rightarrow> unit res \<times> generation_supervisor" where
  "register_identity i s =
     (case validate_generation_identity i of
        Inl e \<Rightarrow> (Err e, s)
      | Inr _ \<Rightarrow>
          (case find (\<lambda>token. token \<in> rg_used_tokens s) (identity_tokens i) of
             Some token \<Rightarrow> (Err (FailS ''generation identity token cannot be reused'' [token]), s)
           | None \<Rightarrow> (Ok (), s\<lparr>rg_used_tokens := rg_used_tokens s \<union> set (identity_tokens i)\<rparr>)))"

definition start_candidate ::
  "generation_identity \<Rightarrow> candidate_reason \<Rightarrow> nat \<Rightarrow> generation_supervisor \<Rightarrow> unit res \<times> generation_supervisor" where
  "start_candidate i reason now s =
     (if rg_candidate s \<noteq> None then (Err (Fail ''a candidate already exists''), s)
      else case register_identity i s of
        (Inl e, s1) \<Rightarrow> (Err e, s1)
      | (Inr _, s1) \<Rightarrow>
          (Ok (), s1\<lparr>rg_candidate := Some \<lparr>gt_identity = i, gt_role = RoleCandidate, gt_opened_mono_ns = now,
               gt_reason = reason, gt_readiness = readiness_empty\<rparr>,
             rg_pending_reason := None, rg_next_candidate_not_before_ns := None,
             rg_state := (if rg_active s1 \<noteq> None then RawHandover else RawRecovering)\<rparr>))"

definition start_due_candidate ::
  "generation_identity \<Rightarrow> nat \<Rightarrow> generation_supervisor \<Rightarrow> unit res \<times> generation_supervisor" where
  "start_due_candidate i now s =
     (case validate_generation_identity i of
        Inl e \<Rightarrow> (Err e, s)
      | Inr _ \<Rightarrow>
          (case advance_generations now s of
             (Inl e, s1) \<Rightarrow> (Err e, s1)
           | (Inr report, s1) \<Rightarrow>
               (case ta_candidate_request report of
                  None \<Rightarrow> (Err (Fail ''no candidate is due''), s1)
                | Some request \<Rightarrow> start_candidate i (cq_reason request) now s1)))"

definition on_server_shutdown ::
  "string \<Rightarrow> generation_identity \<Rightarrow> nat \<Rightarrow> generation_supervisor \<Rightarrow> server_shutdown_outcome res \<times> generation_supervisor" where
  "on_server_shutdown source_epoch i now s =
     (case validate_generation_identity i of
        Inl e \<Rightarrow> (Err e, s)
      | Inr _ \<Rightarrow>
          (case advance_generations now s of
             (Inl e, s1) \<Rightarrow> (Err e, s1)
           | (Inr _, s1) \<Rightarrow>
               (case rg_active s1 of
                  None \<Rightarrow> (Ok IgnoredNonActiveEpoch, s1)
                | Some active \<Rightarrow>
                    if \<not> contains_epoch source_epoch (gt_identity active) then (Ok IgnoredNonActiveEpoch, s1)
                    else if rg_candidate s1 \<noteq> None then (Ok CandidateAlreadyInProgress, s1)
                    else (case start_candidate i ShutdownNotice now s1 of
                            (Inl e, s2) \<Rightarrow> (Err e, s2)
                          | (Inr _, s2) \<Rightarrow> (Ok CandidateStarted, s2)))))"

definition observe_candidate_fact ::
  "candidate_fact \<Rightarrow> nat \<Rightarrow> generation_supervisor \<Rightarrow> bool res \<times> generation_supervisor" where
  "observe_candidate_fact ft now s =
     (case advance_generations now s of
        (Inl e, s1) \<Rightarrow> (Err e, s1)
      | (Inr _, s1) \<Rightarrow>
          (case rg_candidate s1 of
             None \<Rightarrow> (Err (Fail ''candidate fact observed without a candidate''), s1)
           | Some g \<Rightarrow>
               (case readiness_observe ft (gt_readiness g) of
                  (r, readiness) \<Rightarrow> (r, s1\<lparr>rg_candidate := Some (g\<lparr>gt_readiness := readiness\<rparr>)\<rparr>))))"

definition promote_generation :: "nat \<Rightarrow> generation_supervisor \<Rightarrow> promotion res \<times> generation_supervisor" where
  "promote_generation now s =
     (case advance_generations now s of
        (Inl e, s1) \<Rightarrow> (Err e, s1)
      | (Inr _, s1) \<Rightarrow>
          (case rg_candidate s1 of
             None \<Rightarrow> (Err (Fail ''no candidate to promote''), s1)
           | Some candidate \<Rightarrow>
               if \<not> is_ready (gt_readiness candidate)
               then (Err (Fail ''candidate lacks complete raw continuity evidence''), s1)
               else
                 (Ok \<lparr>pm_predecessor = map_option gt_identity (rg_active s1), pm_successor = gt_identity candidate,
                      pm_gap_was_open = (rg_active s1 = None)\<rparr>,
                  s1\<lparr>rg_candidate := None,
                     rg_draining := (case rg_active s1 of
                         None \<Rightarrow> rg_draining s1
                       | Some predecessor \<Rightarrow> rg_draining s1 @ [predecessor\<lparr>gt_role := RoleDraining\<rparr>]),
                     rg_active := Some (candidate\<lparr>gt_role := RoleActive\<rparr>), rg_state := RawLive,
                     rg_pending_reason := None, rg_next_candidate_not_before_ns := None,
                     rg_retry_attempt := 0\<rparr>)))"

text \<open>\<open>position\<close> followed by \<open>remove\<close>; none when nothing matches.\<close>

definition remove_first :: "('a \<Rightarrow> bool) \<Rightarrow> 'a list \<Rightarrow> 'a list option" where
  "remove_first P xs = (case dropWhile (\<lambda>x. \<not> P x) xs of [] \<Rightarrow> None | _ # ys \<Rightarrow> Some (takeWhile (\<lambda>x. \<not> P x) xs @ ys))"

definition close_draining_generation :: "string \<Rightarrow> nat \<Rightarrow> generation_supervisor \<Rightarrow> bool res \<times> generation_supervisor" where
  "close_draining_generation generation_id now s =
     (case advance_generations now s of
        (Inl e, s1) \<Rightarrow> (Err e, s1)
      | (Inr _, s1) \<Rightarrow>
          (case remove_first (\<lambda>g. gn_generation_id (gt_identity g) = generation_id) (rg_draining s1) of
             None \<Rightarrow> (Ok False, s1)
           | Some rest \<Rightarrow> (Ok True, s1\<lparr>rg_draining := rest\<rparr>)))"

definition in_generation :: "string \<Rightarrow> generation_status option \<Rightarrow> bool" where
  "in_generation epoch g = (case g of None \<Rightarrow> False | Some g \<Rightarrow> contains_epoch epoch (gt_identity g))"

definition disconnect_epoch ::
  "string \<Rightarrow> string \<Rightarrow> nat \<Rightarrow> generation_supervisor \<Rightarrow> disconnect_outcome res \<times> generation_supervisor" where
  "disconnect_epoch epoch reason now s =
     (if trim_is_empty reason then (Err (Fail ''disconnect reason must not be empty''), s)
      else case advance_generations now s of
        (Inl e, s1) \<Rightarrow> (Err e, s1)
      | (Inr _, s1) \<Rightarrow>
          if in_generation epoch (rg_active s1) then
            (case enter_gap now s1 of
               (Inl e, s2) \<Rightarrow> (Err e, s2) | (Inr _, s2) \<Rightarrow> (Ok ActiveFailed, s2))
          else if in_generation epoch (rg_candidate s1) then
            (case fail_candidate now s1 of
               (Inl e, s2) \<Rightarrow> (Err e, s2) | (Inr _, s2) \<Rightarrow> (Ok CandidateFailed, s2))
          else case remove_first (\<lambda>g. contains_epoch epoch (gt_identity g)) (rg_draining s1) of
            Some rest \<Rightarrow> (Ok DrainingClosed, s1\<lparr>rg_draining := rest\<rparr>)
          | None \<Rightarrow>
              if epoch \<in> rg_used_tokens s1 then (Ok AlreadyTerminal, s1)
              else (Err (FailS ''disconnect references unknown epoch'' [epoch]), s1))"

end
