(* ===== verification/Generation_Supervisor_Safety.thy ===== *)
theory Generation_Supervisor_Safety
  imports Generation_Supervisor "HOL-Library.Multiset"
begin

text \<open>
  The invariant of the generation supervisor over every sequence of operations, refused ones included,
  the count of its gaps, the ages it tolerates, and the way out of a gap.
\<close>

section \<open>Operations as steps\<close>

datatype generation_op = AdvanceTo nat | StartDue generation_identity nat
  | ShutdownSeen string generation_identity nat | ObserveFact candidate_fact nat | PromoteNow nat
  | CloseDraining string nat | DisconnectNow string string nat

definition forget :: "'a res \<times> 's \<Rightarrow> unit res \<times> 's" where
  "forget p = (case p of (Inl e, s) \<Rightarrow> (Err e, s) | (Inr _, s) \<Rightarrow> (Ok (), s))"

fun generation_step :: "generation_op \<Rightarrow> generation_supervisor \<Rightarrow> unit res \<times> generation_supervisor" where
  "generation_step (AdvanceTo t) s = forget (advance_generations t s)"
| "generation_step (StartDue i t) s = start_due_candidate i t s"
| "generation_step (ShutdownSeen e i t) s = forget (on_server_shutdown e i t s)"
| "generation_step (ObserveFact f t) s = forget (observe_candidate_fact f t s)"
| "generation_step (PromoteNow t) s = forget (promote_generation t s)"
| "generation_step (CloseDraining g t) s = forget (close_draining_generation g t s)"
| "generation_step (DisconnectNow e r t) s = forget (disconnect_epoch e r t s)"

text \<open>An operation that ends the active generation without a successor.\<close>

definition lost_active :: "generation_supervisor \<Rightarrow> generation_supervisor \<Rightarrow> bool" where
  "lost_active s s' \<longleftrightarrow> rg_active s \<noteq> None \<and> rg_active s' = None"

text \<open>The states a supervisor reaches, with the number of times its active generation was lost.\<close>

inductive generation_run :: "generation_supervisor \<Rightarrow> nat \<Rightarrow> generation_supervisor \<Rightarrow> bool" for s0 where
  generation_start: "generation_run s0 0 s0"
| generation_next: "generation_run s0 n s \<Longrightarrow> generation_step op s = (r, s') \<Longrightarrow>
    generation_run s0 (if lost_active s s' then n + 1 else n) s'"

section \<open>The invariant\<close>

definition opt_list :: "'a option \<Rightarrow> 'a list" where
  "opt_list v = (case v of None \<Rightarrow> [] | Some x \<Rightarrow> [x])"

lemma opt_list_simps [simp]: "opt_list None = []" "opt_list (Some x) = [x]"
  by (simp_all add: opt_list_def)

definition present_generations :: "generation_supervisor \<Rightarrow> generation_status list" where
  "present_generations s = opt_list (rg_active s) @ opt_list (rg_candidate s) @ rg_draining s"

definition status_tokens :: "generation_status \<Rightarrow> string list" where
  "status_tokens g = identity_tokens (gt_identity g)"

definition present_tokens :: "generation_supervisor \<Rightarrow> string list" where
  "present_tokens s = concat (map status_tokens (present_generations s))"

definition evidence_ordered :: "candidate_readiness \<Rightarrow> bool" where
  "evidence_ordered r \<longleftrightarrow> (rd_snapshot_persisted r \<or> rd_depth_durable r \<longrightarrow> rd_depth_connected r)
     \<and> (rd_trade_durable r \<longrightarrow> rd_trade_connected r)
     \<and> (rd_depth_continuity_proven r \<longrightarrow> rd_snapshot_persisted r \<and> rd_depth_durable r)
     \<and> (rd_trade_continuity_proven r \<longrightarrow> rd_trade_durable r)"

definition state_of :: "generation_status option \<Rightarrow> generation_status option \<Rightarrow> raw_supervisor_state" where
  "state_of active candidate =
     (if active = None then (if candidate = None then RawGap else RawRecovering)
      else if candidate = None then RawLive else RawHandover)"

definition clock_ok :: "generation_supervisor \<Rightarrow> bool" where
  "clock_ok s \<longleftrightarrow> validate_durations (rg_config s) = Ok () \<and> rg_clock_origin_ns s \<le> rg_last_mono_ns s
     \<and> rg_current_segment_index s
         = (rg_last_mono_ns s - rg_clock_origin_ns s) div rc_segment_interval_ns (rg_config s)
     \<and> (\<forall>g\<in>set (present_generations s). gt_opened_mono_ns g \<le> rg_last_mono_ns s)
     \<and> (\<forall>t. rg_next_candidate_not_before_ns s = Some t \<longrightarrow> t \<le> rg_last_mono_ns s + rc_backoff_max_ns (rg_config s))"

definition tokens_ok :: "generation_supervisor \<Rightarrow> bool" where
  "tokens_ok s \<longleftrightarrow> distinct (present_tokens s) \<and> set (present_tokens s) \<subseteq> rg_used_tokens s"

definition generation_roles_ok :: "generation_supervisor \<Rightarrow> bool" where
  "generation_roles_ok s \<longleftrightarrow> (\<forall>g. rg_active s = Some g \<longrightarrow> gt_role g = RoleActive \<and> is_ready (gt_readiness g))
     \<and> (\<forall>g. rg_candidate s = Some g \<longrightarrow> gt_role g = RoleCandidate \<and> evidence_ordered (gt_readiness g))
     \<and> (\<forall>g\<in>set (rg_draining s). gt_role g = RoleDraining)
     \<and> (rg_gap_count s < u64_max \<longrightarrow> rg_state s = state_of (rg_active s) (rg_candidate s))"

definition generation_inv :: "generation_supervisor \<Rightarrow> bool" where
  "generation_inv s \<longleftrightarrow> clock_ok s \<and> tokens_ok s \<and> generation_roles_ok s"

lemmas generation_inv_defs = generation_inv_def clock_ok_def tokens_ok_def generation_roles_ok_def present_tokens_def
  present_generations_def status_tokens_def state_of_def

lemma validate_generation_identity_distinct:
  "validate_generation_identity i = Ok () \<Longrightarrow> distinct (identity_tokens i)"
  by (auto simp: validate_generation_identity_def identity_tokens_def split: if_splits)

lemma generation_new_inv: "generation_supervisor_new config i t = Ok s \<Longrightarrow> generation_inv s \<and> rg_gap_count s = 0"
  using validate_generation_identity_distinct [of i]
  by (auto simp: generation_supervisor_new_def generation_inv_defs is_ready_def identity_tokens_def)

section \<open>The clock\<close>

text \<open>Retries wait at most the configured maximum.\<close>

lemma schedule_retry_simps [simp]:
  "rg_config (schedule_retry t r s) = rg_config s" "rg_state (schedule_retry t r s) = rg_state s"
  "rg_clock_origin_ns (schedule_retry t r s) = rg_clock_origin_ns s" "rg_last_mono_ns (schedule_retry t r s) = rg_last_mono_ns s"
  "rg_current_segment_index (schedule_retry t r s) = rg_current_segment_index s"
  "rg_active (schedule_retry t r s) = rg_active s" "rg_candidate (schedule_retry t r s) = rg_candidate s"
  "rg_draining (schedule_retry t r s) = rg_draining s" "rg_used_tokens (schedule_retry t r s) = rg_used_tokens s"
  "rg_gap_count (schedule_retry t r s) = rg_gap_count s"
  by (simp_all add: schedule_retry_def)

lemma schedule_retry_bound:
  "rg_next_candidate_not_before_ns (schedule_retry now r s) = Some t \<Longrightarrow> t \<le> now + rc_backoff_max_ns (rg_config s)"
  by (auto simp: schedule_retry_def saturating_add_def retry_delay_def)

lemma enter_gap_cases:
  assumes "enter_gap now s = (r, s')"
  obtains (absent) "rg_active s = None" "s' = s" "r = Err (Fail ''cannot fail an absent active generation'')"
  | (overflow) "rg_active s \<noteq> None" "u64_max \<le> rg_gap_count s" "s' = s\<lparr>rg_active := None, rg_candidate := None\<rparr>"
      "r = Err (Fail ''gap count overflow'')"
  | (gap) "rg_active s \<noteq> None" "rg_gap_count s < u64_max" "r = Ok ()"
      "s' = (schedule_retry now RecoveryAfterGap (s\<lparr>rg_active := None, rg_candidate := None, rg_gap_count := rg_gap_count s + 1\<rparr>))
         \<lparr>rg_state := RawGap\<rparr>"
proof -
  consider (a) "rg_active s = None" | (o) "rg_active s \<noteq> None" "checked_add (rg_gap_count s) 1 = None"
    | (g) "rg_active s \<noteq> None" "checked_add (rg_gap_count s) 1 = Some (rg_gap_count s + 1)"
    by (cases "rg_active s = None"; cases "rg_gap_count s + 1 \<le> u64_max") simp_all
  then show ?thesis
  proof cases
    case a
    show ?thesis by (rule absent [OF a]) (use assms a in \<open>simp_all add: enter_gap_def\<close>)
  next
    case o
    have "u64_max \<le> rg_gap_count s" using o(2) by simp
    moreover have "enter_gap now s = (Err (Fail ''gap count overflow''), s\<lparr>rg_active := None, rg_candidate := None\<rparr>)"
      unfolding enter_gap_def Let_def using o by (simp add: checked_add_def)
    ultimately show ?thesis using overflow [OF o(1)] assms by simp
  next
    case g
    have "rg_gap_count s < u64_max" using g(2) by simp
    moreover have "enter_gap now s = (Ok (), (schedule_retry now RecoveryAfterGap
        (s\<lparr>rg_active := None, rg_candidate := None, rg_gap_count := rg_gap_count s + 1\<rparr>))\<lparr>rg_state := RawGap\<rparr>)"
      unfolding enter_gap_def Let_def using g by (simp add: checked_add_def)
    ultimately show ?thesis using gap [OF g(1)] assms by simp
  qed
qed

text \<open>Ending the active and the candidate generation keeps what is said of the others.\<close>

lemma tokens_ok_fewer:
  assumes "tokens_ok s" "rg_active s' = None \<or> rg_active s' = rg_active s" "rg_candidate s' = None"
    "rg_draining s' = rg_draining s" "rg_used_tokens s' = rg_used_tokens s"
  shows "tokens_ok s'"
proof -
  have "distinct (a @ d) \<and> set (a @ d) \<subseteq> u \<and> distinct d \<and> set d \<subseteq> u"
    if "distinct (a @ c @ d)" "set (a @ c @ d) \<subseteq> u" for a c d :: "string list" and u using that by auto
  from this [OF assms(1) [unfolded tokens_ok_def present_tokens_def present_generations_def map_append concat_append,
      THEN conjunct1] assms(1) [unfolded tokens_ok_def present_tokens_def present_generations_def map_append concat_append,
      THEN conjunct2]]
  show ?thesis using assms(2-) by (elim disjE) (simp_all add: tokens_ok_def present_tokens_def present_generations_def)
qed

lemma clock_ok_fewer:
  assumes "clock_ok s" "rg_active s' = None \<or> rg_active s' = rg_active s" "rg_candidate s' = None"
    "rg_draining s' = rg_draining s" "rg_config s' = rg_config s" "rg_clock_origin_ns s' = rg_clock_origin_ns s"
    "rg_last_mono_ns s' = rg_last_mono_ns s" "rg_current_segment_index s' = rg_current_segment_index s"
    "\<And>t. rg_next_candidate_not_before_ns s' = Some t \<Longrightarrow> t \<le> rg_last_mono_ns s + rc_backoff_max_ns (rg_config s)"
  shows "clock_ok s'"
  using assms by (auto simp: clock_ok_def present_generations_def)

lemma enter_gap_inv:
  assumes "enter_gap (rg_last_mono_ns s) s = (r, s')" "generation_inv s"
  shows "generation_inv s' \<and> r \<noteq> Err Panic"
proof -
  have parts: "clock_ok s" "tokens_ok s" "generation_roles_ok s" using assms(2) by (simp_all add: generation_inv_def)
  from assms(1) show ?thesis
  proof (cases rule: enter_gap_cases)
    case absent
    then show ?thesis using assms(2) by simp
  next
    case overflow
    have "clock_ok s'" by (rule clock_ok_fewer [OF parts(1)]) (use overflow parts(1) in \<open>auto simp: clock_ok_def\<close>)
    moreover have "tokens_ok s'" by (rule tokens_ok_fewer [OF parts(2)]) (simp_all add: overflow)
    moreover have "generation_roles_ok s'" using parts(3) overflow by (simp add: generation_roles_ok_def)
    ultimately show ?thesis using overflow by (simp add: generation_inv_def)
  next
    case gap
    have "clock_ok s'"
      by (rule clock_ok_fewer [OF parts(1)]) (auto simp: gap(4) dest!: schedule_retry_bound)
    moreover have "tokens_ok s'" by (rule tokens_ok_fewer [OF parts(2)]) (simp_all add: gap)
    moreover have "generation_roles_ok s'" using parts(3) gap by (simp add: generation_roles_ok_def state_of_def)
    ultimately show ?thesis using gap by (simp add: generation_inv_def)
  qed
qed

lemma fail_candidate_inv:
  assumes "fail_candidate (rg_last_mono_ns s) s = (r, s')" "generation_inv s"
  shows "generation_inv s' \<and> r \<noteq> Err Panic"
proof (cases "rg_candidate s = None")
  case False
  have parts: "clock_ok s" "tokens_ok s" "generation_roles_ok s" using assms(2) by (simp_all add: generation_inv_def)
  have e: "r = Ok ()" "s' = (schedule_retry (rg_last_mono_ns s) RetryAfterFailure (s\<lparr>rg_candidate := None\<rparr>))
     \<lparr>rg_state := (if rg_active s \<noteq> None then RawLive else RawGap)\<rparr>"
    using False assms(1) by (auto simp: fail_candidate_def)
  have "clock_ok s'" by (rule clock_ok_fewer [OF parts(1)]) (auto simp: e(2) dest!: schedule_retry_bound)
  moreover have "tokens_ok s'" by (rule tokens_ok_fewer [OF parts(2)]) (simp_all add: e)
  moreover have "generation_roles_ok s'" using parts(3) by (simp add: e generation_roles_ok_def state_of_def)
  ultimately show ?thesis by (simp add: generation_inv_def e)
qed (use assms in \<open>auto simp: fail_candidate_def\<close>)

definition overdue :: "nat \<Rightarrow> nat \<Rightarrow> generation_status option \<Rightarrow> bool" where
  "overdue now limit v \<longleftrightarrow> (\<exists>g. v = Some g \<and> limit \<le> now - gt_opened_mono_ns g)"

lemma age_reached_Ok:
  assumes "\<forall>g\<in>set (opt_list v). gt_opened_mono_ns g \<le> now"
  shows "age_reached now limit v = Ok (overdue now limit v)"
  using assms by (cases v) (simp_all add: age_reached_def overdue_def)

lemma candidate_request_at_Ok: "generation_inv s \<Longrightarrow> rg_last_mono_ns s \<le> now \<Longrightarrow> \<exists>q. candidate_request_at now s = Ok q"
  by (auto simp: candidate_request_at_def Let_def age_reached_Ok generation_inv_defs split: option.splits)

text \<open>
  What advancing the clock does: it refuses a time before the last one, and otherwise the clock and the
  segment move and at most one of the deadlines strikes.
\<close>

definition ticked :: "nat \<Rightarrow> generation_supervisor \<Rightarrow> generation_supervisor" where
  "ticked now s = s\<lparr>rg_last_mono_ns := now,
     rg_current_segment_index := (now - rg_clock_origin_ns s) div rc_segment_interval_ns (rg_config s)\<rparr>"

lemma ticked_simps [simp]:
  "rg_active (ticked now s) = rg_active s" "rg_candidate (ticked now s) = rg_candidate s"
  "rg_gap_count (ticked now s) = rg_gap_count s" "rg_config (ticked now s) = rg_config s"
  "rg_last_mono_ns (ticked now s) = now" "rg_draining (ticked now s) = rg_draining s"
  "rg_used_tokens (ticked now s) = rg_used_tokens s"
  "rg_next_candidate_not_before_ns (ticked now s) = rg_next_candidate_not_before_ns s"
  by (simp_all add: ticked_def)

lemma ticked_inv: "generation_inv s \<Longrightarrow> rg_last_mono_ns s \<le> now \<Longrightarrow> generation_inv (ticked now s)"
  unfolding generation_inv_def
proof (elim conjE, intro conjI)
  assume a: "rg_last_mono_ns s \<le> now" "clock_ok s"
  show "clock_ok (ticked now s)"
    using a order.trans [OF _ a(1)] by (fastforce simp: clock_ok_def ticked_def present_generations_def)
qed (simp_all add: tokens_ok_def generation_roles_ok_def ticked_def present_tokens_def present_generations_def)

lemma advance_deadlines_eq:
  assumes "generation_inv s"
  shows "advance_deadlines (rg_last_mono_ns s) k s =
    (if overdue (rg_last_mono_ns s) (rc_active_max_age_ns (rg_config s)) (rg_active s) then
       (case enter_gap (rg_last_mono_ns s) s of
          (Inl e, s1) \<Rightarrow> (Err e, s1) | (Inr _, s1) \<Rightarrow> (advance_report (rg_last_mono_ns s) k False True s1, s1))
     else if overdue (rg_last_mono_ns s) (rc_candidate_timeout_ns (rg_config s)) (rg_candidate s) then
       (case fail_candidate (rg_last_mono_ns s) s of
          (Inl e, s1) \<Rightarrow> (Err e, s1) | (Inr _, s1) \<Rightarrow> (advance_report (rg_last_mono_ns s) k True False s1, s1))
     else (advance_report (rg_last_mono_ns s) k False False s, s))"
proof -
  have "\<forall>g\<in>set (opt_list (rg_active s)). gt_opened_mono_ns g \<le> rg_last_mono_ns s"
    "\<forall>g\<in>set (opt_list (rg_candidate s)). gt_opened_mono_ns g \<le> rg_last_mono_ns s"
    using assms by (auto simp: generation_inv_def clock_ok_def present_generations_def)
  then show ?thesis by (simp add: advance_deadlines_def age_reached_Ok split: bool.splits)
qed

lemma advance_generations_eq:
  assumes "generation_inv s" "rg_last_mono_ns s \<le> now"
  shows "advance_generations now s =
    advance_deadlines now (rg_current_segment_index (ticked now s) - rg_current_segment_index s) (ticked now s)"
proof -
  have i: "rg_clock_origin_ns s \<le> now" "rc_segment_interval_ns (rg_config s) \<noteq> 0"
    "rg_current_segment_index s \<le> (now - rg_clock_origin_ns s) div rc_segment_interval_ns (rg_config s)"
    using assms by (auto simp: generation_inv_def clock_ok_def validate_durations_def div_le_mono split: if_splits)
  then show ?thesis using assms by (simp add: advance_generations_def Let_def ticked_def checked_sub_def)
qed

lemma advance_report_no_panic:
  "generation_inv s \<Longrightarrow> rg_last_mono_ns s \<le> now \<Longrightarrow> \<exists>a. advance_report now k t g s = Ok a"
  using candidate_request_at_Ok by (fastforce simp: advance_report_def)

lemma enter_gap_last: "enter_gap now s = (r, s') \<Longrightarrow> rg_last_mono_ns s' = rg_last_mono_ns s"
  by (erule enter_gap_cases) simp_all

lemma fail_candidate_last: "fail_candidate now s = (r, s') \<Longrightarrow> rg_last_mono_ns s' = rg_last_mono_ns s"
  by (auto simp: fail_candidate_def split: if_splits)

lemma advance_deadlines_inv:
  assumes "advance_deadlines (rg_last_mono_ns s) k s = (r, s')" "generation_inv s"
  shows "generation_inv s' \<and> r \<noteq> Err Panic \<and> rg_last_mono_ns s' = rg_last_mono_ns s"
proof -
  have rep: "generation_inv s1 \<Longrightarrow> rg_last_mono_ns s1 = rg_last_mono_ns s \<Longrightarrow>
      \<exists>a. advance_report (rg_last_mono_ns s) k t g s1 = Ok a" for s1 t g using advance_report_no_panic by simp
  obtain rg sg rf sf where g: "enter_gap (rg_last_mono_ns s) s = (rg, sg)" and f: "fail_candidate (rg_last_mono_ns s) s = (rf, sf)"
    by fastforce
  note i = enter_gap_inv [OF g assms(2)] fail_candidate_inv [OF f assms(2)] enter_gap_last [OF g] fail_candidate_last [OF f]
  show ?thesis
    using assms(1) i rep [of sg False True] rep [of sf True False] rep [of s False False] assms(2)
    unfolding advance_deadlines_eq [OF assms(2)] g f by (auto split: if_splits sum.splits)
qed

lemma advance_inv:
  assumes "advance_generations now s = (r, s')" "generation_inv s"
  shows "generation_inv s' \<and> r \<noteq> Err Panic \<and> rg_last_mono_ns s' = max now (rg_last_mono_ns s)"
proof (cases "now < rg_last_mono_ns s")
  case True
  then show ?thesis using assms by (auto simp: advance_generations_def)
next
  case False
  then have "advance_deadlines (rg_last_mono_ns (ticked now s)) (rg_current_segment_index (ticked now s) - rg_current_segment_index s)
      (ticked now s) = (r, s')" using assms advance_generations_eq by simp
  from advance_deadlines_inv [OF this] show ?thesis using False ticked_inv [OF assms(2)] by simp
qed

section \<open>The operations\<close>

lemma start_candidate_inv:
  assumes "start_candidate i reason (rg_last_mono_ns s) s = (r, s')" "generation_inv s"
  shows "generation_inv s' \<and> r \<noteq> Err Panic"
proof (cases "r = Ok ()")
  case False
  then show ?thesis using assms
    by (auto simp: start_candidate_def register_identity_def validate_generation_identity_def
        split: if_splits option.splits sum.splits prod.splits)
next
  case True
  then have v: "validate_generation_identity i = Ok ()" and c: "rg_candidate s = None"
    and u: "set (identity_tokens i) \<inter> rg_used_tokens s = {}"
    and e: "s' = s\<lparr>rg_used_tokens := rg_used_tokens s \<union> set (identity_tokens i),
      rg_candidate := Some \<lparr>gt_identity = i, gt_role = RoleCandidate, gt_opened_mono_ns = rg_last_mono_ns s,
          gt_reason = reason, gt_readiness = readiness_empty\<rparr>,
      rg_pending_reason := None, rg_next_candidate_not_before_ns := None,
      rg_state := (if rg_active s \<noteq> None then RawHandover else RawRecovering)\<rparr>"
    using assms(1)
    by (auto simp: start_candidate_def register_identity_def find_None_iff split: if_splits option.splits sum.splits prod.splits)
  have parts: "clock_ok s" "tokens_ok s" "generation_roles_ok s" using assms(2) by (simp_all add: generation_inv_def)
  have "clock_ok s'" using parts(1) c by (auto simp: e clock_ok_def present_generations_def)
  moreover have "tokens_ok s'"
  proof -
    have "distinct (a @ n @ d) \<and> set (a @ n @ d) \<subseteq> w \<union> set n"
      if "distinct (a @ d)" "set (a @ d) \<subseteq> w" "distinct n" "set n \<inter> w = {}" for a d n :: "string list" and w
      using that by auto
    from this [OF _ _ validate_generation_identity_distinct [OF v] u,
        of "concat (map status_tokens (opt_list (rg_active s)))" "concat (map status_tokens (rg_draining s))"]
    show ?thesis using parts(2) c by (simp add: e tokens_ok_def present_tokens_def present_generations_def status_tokens_def)
  qed
  moreover have "generation_roles_ok s'"
    using parts(3) by (simp add: e generation_roles_ok_def state_of_def evidence_ordered_def readiness_empty_def)
  ultimately show ?thesis using True by (simp add: generation_inv_def)
qed

lemma readiness_observe_props:
  assumes "readiness_observe f r = (x, r')"
  shows "evidence_ordered r \<Longrightarrow> evidence_ordered r'" and "x \<noteq> Err Panic"
  using assms
  by (cases f; auto simp: readiness_observe_def fact_guard_def fact_flag_def set_fact_def evidence_ordered_def check_def
      split: if_splits)+

text \<open>Every operation starts by advancing the clock and stops there when that is refused.\<close>

lemma advance_cases:
  assumes "generation_inv s"
  obtains (refused) e s1 where "advance_generations now s = (Err e, s1)" "e \<noteq> Panic" "generation_inv s1"
  | (advanced) a s1 where "advance_generations now s = (Ok a, s1)" "generation_inv s1" "now = rg_last_mono_ns s1"
proof (cases "advance_generations now s")
  case (Pair r s1)
  note i = advance_inv [OF Pair assms]
  show ?thesis
  proof (cases r)
    case (Inl e)
    show ?thesis by (rule refused [of e s1]) (use Pair i Inl in simp_all)
  next
    case (Inr a)
    have "\<not> now < rg_last_mono_ns s" using Pair Inr by (auto simp: advance_generations_def)
    then show ?thesis by (intro advanced [of a s1]) (use Pair i Inr in simp_all)
  qed
qed

lemma observe_inv:
  assumes "observe_candidate_fact f now s = (r, s')" "generation_inv s"
  shows "generation_inv s' \<and> r \<noteq> Err Panic"
proof (cases rule: advance_cases [OF assms(2), of now, case_names refused advanced])
  case (refused e s1)
  then show ?thesis using assms(1) by (auto simp: observe_candidate_fact_def)
next
  case (advanced a s1)
  show ?thesis
  proof (cases "rg_candidate s1")
    case None
    then show ?thesis using assms(1) advanced by (auto simp: observe_candidate_fact_def)
  next
    case (Some g)
    obtain rd where o: "readiness_observe f (gt_readiness g) = (r, rd)"
      and e: "s' = s1\<lparr>rg_candidate := Some (g\<lparr>gt_readiness := rd\<rparr>)\<rparr>"
      using assms(1) advanced Some by (auto simp: observe_candidate_fact_def split: prod.splits)
    have parts: "clock_ok s1" "tokens_ok s1" "generation_roles_ok s1" using advanced(2) by (simp_all add: generation_inv_def)
    have "clock_ok s'" using parts(1) Some by (simp add: e clock_ok_def present_generations_def)
    moreover have "tokens_ok s'"
      using parts(2) Some by (simp add: e tokens_ok_def present_tokens_def present_generations_def status_tokens_def)
    moreover have "generation_roles_ok s'"
      using parts(3) Some readiness_observe_props(1) [OF o] by (simp add: e generation_roles_ok_def state_of_def)
    ultimately show ?thesis using readiness_observe_props(2) [OF o] by (simp add: generation_inv_def)
  qed
qed

lemma promote_generation_inv:
  assumes "promote_generation now s = (r, s')" "generation_inv s"
  shows "generation_inv s' \<and> r \<noteq> Err Panic"
proof (cases rule: advance_cases [OF assms(2), of now, case_names refused advanced])
  case (refused e s1)
  then show ?thesis using assms(1) by (auto simp: promote_generation_def)
next
  case (advanced a s1)
  show ?thesis
  proof (cases "\<exists>g. rg_candidate s1 = Some g \<and> is_ready (gt_readiness g)")
    case False
    then show ?thesis using assms(1) advanced by (auto simp: promote_generation_def split: option.splits if_splits)
  next
    case True
    then obtain g where c: "rg_candidate s1 = Some g" "is_ready (gt_readiness g)" by blast
    have parts: "clock_ok s1" "tokens_ok s1" "generation_roles_ok s1" using advanced(2) by (simp_all add: generation_inv_def)
    define d where "d = map (\<lambda>p. p\<lparr>gt_role := RoleDraining\<rparr>) (opt_list (rg_active s1))"
    have e: "s' = s1\<lparr>rg_candidate := None, rg_draining := rg_draining s1 @ d,
        rg_active := Some (g\<lparr>gt_role := RoleActive\<rparr>), rg_state := RawLive, rg_pending_reason := None,
        rg_next_candidate_not_before_ns := None, rg_retry_attempt := 0\<rparr>" and r: "r \<noteq> Err Panic"
      using assms(1) advanced c by (auto simp: promote_generation_def d_def split: option.splits)
    have "clock_ok s'" using parts(1) c(1) by (auto simp: e clock_ok_def present_generations_def d_def)
    moreover have "tokens_ok s'"
    proof -
      have t: "concat (map status_tokens d) = concat (map status_tokens (opt_list (rg_active s1)))"
        by (simp add: d_def o_def status_tokens_def [abs_def])
      have m: "mset (present_tokens s') = mset (present_tokens s1)"
        using c(1) by (simp add: e present_tokens_def present_generations_def t status_tokens_def)
      show ?thesis using parts(2) mset_eq_imp_distinct_iff [OF m] mset_eq_setD [OF m] by (simp add: e tokens_ok_def)
    qed
    moreover have "generation_roles_ok s'" using parts(3) c by (auto simp: e generation_roles_ok_def state_of_def d_def opt_list_def split: option.splits)
    ultimately show ?thesis using r by (simp add: generation_inv_def)
  qed
qed

lemma remove_first_Some:
  "remove_first P xs = Some ys \<Longrightarrow> \<exists>as x bs. xs = as @ x # bs \<and> ys = as @ bs \<and> P x"
proof (cases "dropWhile (\<lambda>x. \<not> P x) xs")
  case (Cons x bs)
  assume "remove_first P xs = Some ys"
  then have "ys = takeWhile (\<lambda>x. \<not> P x) xs @ bs" using Cons by (simp add: remove_first_def)
  moreover have "xs = takeWhile (\<lambda>x. \<not> P x) xs @ x # bs" using takeWhile_dropWhile_id [of "\<lambda>x. \<not> P x" xs] Cons by simp
  moreover have "P x" using hd_dropWhile [of "\<lambda>x. \<not> P x" xs] Cons by simp
  ultimately show ?thesis by blast
qed (simp add: remove_first_def)

lemma drop_draining_inv:
  assumes "remove_first P (rg_draining s) = Some rest" "generation_inv s"
  shows "generation_inv (s\<lparr>rg_draining := rest\<rparr>)"
proof -
  obtain as x bs where d: "rg_draining s = as @ x # bs" "rest = as @ bs" using remove_first_Some [OF assms(1)] by blast
  have parts: "clock_ok s" "tokens_ok s" "generation_roles_ok s" using assms(2) by (simp_all add: generation_inv_def)
  have "tokens_ok (s\<lparr>rg_draining := rest\<rparr>)"
    using parts(2) by (auto simp: d tokens_ok_def present_tokens_def present_generations_def)
  then show ?thesis using parts(1,3) d by (simp add: generation_inv_def clock_ok_def generation_roles_ok_def present_generations_def)
qed

lemma generation_step_inv:
  assumes "generation_step op s = (r, s')" "generation_inv s"
  shows "generation_inv s' \<and> r \<noteq> Err Panic"
proof -
  note adv = advance_cases [OF assms(2), case_names refused advanced]
  show ?thesis
  proof (cases op)
    case (AdvanceTo t)
    then show ?thesis using assms advance_inv [of t s]
      by (cases "advance_generations t s") (auto simp: forget_def split: sum.splits)
  next
    case (StartDue i t)
    show ?thesis
    proof (cases rule: adv [of t])
      case (refused e s1)
      then show ?thesis using assms StartDue
        by (auto simp: start_due_candidate_def validate_generation_identity_def split: sum.splits if_splits)
    next
      case (advanced a s1)
      then show ?thesis using assms StartDue start_candidate_inv [of i _ s1 r s']
        by (auto simp: start_due_candidate_def validate_generation_identity_def split: sum.splits option.splits if_splits)
    qed
  next
    case (ShutdownSeen ep i t)
    show ?thesis
    proof (cases rule: adv [of t])
      case (refused e s1)
      then show ?thesis using assms ShutdownSeen
        by (auto simp: on_server_shutdown_def forget_def validate_generation_identity_def split: sum.splits if_splits)
    next
      case (advanced a s1)
      obtain r2 s2 where c: "start_candidate i ShutdownNotice t s1 = (r2, s2)" by fastforce
      show ?thesis using assms ShutdownSeen advanced c start_candidate_inv [of i _ s1 r2 s2]
        by (auto simp: on_server_shutdown_def forget_def validate_generation_identity_def
            split: sum.splits option.splits if_splits prod.splits)
    qed
  next
    case (ObserveFact f t)
    then show ?thesis using assms observe_inv [of f t s]
      by (cases "observe_candidate_fact f t s") (auto simp: forget_def split: sum.splits)
  next
    case (PromoteNow t)
    then show ?thesis using assms promote_generation_inv [of t s]
      by (cases "promote_generation t s") (auto simp: forget_def split: sum.splits)
  next
    case (CloseDraining g t)
    show ?thesis
    proof (cases rule: adv [of t])
      case (refused e s1)
      then show ?thesis using assms CloseDraining by (auto simp: close_draining_generation_def forget_def)
    next
      case (advanced a s1)
      then show ?thesis using assms CloseDraining drop_draining_inv [of _ s1]
        by (auto simp: close_draining_generation_def forget_def split: option.splits)
    qed
  next
    case (DisconnectNow ep reason t)
    show ?thesis
    proof (cases rule: adv [of t])
      case (refused e s1)
      then show ?thesis using assms DisconnectNow by (auto simp: disconnect_epoch_def forget_def split: if_splits)
    next
      case (advanced a s1)
      obtain rg sg rf sf where g: "enter_gap t s1 = (rg, sg)" and f: "fail_candidate t s1 = (rf, sf)" by fastforce
      show ?thesis using assms DisconnectNow advanced g f drop_draining_inv [of _ s1] enter_gap_inv [of s1 rg sg]
          fail_candidate_inv [of s1 rf sf]
        by (auto simp: disconnect_epoch_def forget_def split: option.splits if_splits sum.splits)
    qed
  qed
qed

section \<open>Gaps\<close>

text \<open>Which of its deadlines an advance of the clock found passed.\<close>

lemma advance_effect:
  assumes "advance_generations now s = (r, s1)" "generation_inv s"
  obtains (late) "now < rg_last_mono_ns s" "s1 = s" "\<exists>e. r = Err e"
  | (expired) rg where "rg_last_mono_ns s \<le> now" "enter_gap now (ticked now s) = (rg, s1)"
      "overdue now (rc_active_max_age_ns (rg_config s)) (rg_active s)"
  | (timed_out) "rg_last_mono_ns s \<le> now" "fail_candidate now (ticked now s) = (Ok (), s1)"
      "\<not> overdue now (rc_active_max_age_ns (rg_config s)) (rg_active s)"
      "overdue now (rc_candidate_timeout_ns (rg_config s)) (rg_candidate s)"
  | (quiet) "rg_last_mono_ns s \<le> now" "s1 = ticked now s"
      "\<not> overdue now (rc_active_max_age_ns (rg_config s)) (rg_active s)"
      "\<not> overdue now (rc_candidate_timeout_ns (rg_config s)) (rg_candidate s)"
proof (cases "now < rg_last_mono_ns s")
  case True
  then show ?thesis using assms(1) by (intro late) (auto simp: advance_generations_def)
next
  case False
  then have le: "rg_last_mono_ns s \<le> now" by simp
  note eq = assms(1) [unfolded advance_generations_eq [OF assms(2) le]
      advance_deadlines_eq [OF ticked_inv [OF assms(2) le], unfolded ticked_simps]]
  obtain rg sg where g: "enter_gap now (ticked now s) = (rg, sg)" by fastforce
  obtain rf sf where f: "fail_candidate now (ticked now s) = (rf, sf)" by fastforce
  show ?thesis
  proof (cases "overdue now (rc_active_max_age_ns (rg_config s)) (rg_active s)")
    case True
    then have "sg = s1" using eq g by (auto split: sum.splits)
    then show ?thesis using expired [OF le _ True, of rg] g by blast
  next
    case a: False
    show ?thesis
    proof (cases "overdue now (rc_candidate_timeout_ns (rg_config s)) (rg_candidate s)")
      case True
      have "rf = Ok ()" using f True by (auto simp: fail_candidate_def overdue_def split: if_splits)
      moreover have "sf = s1" using eq f a True by (auto split: sum.splits)
      ultimately show ?thesis using timed_out [OF le _ a True] f by blast
    next
      case False
      then show ?thesis using eq a by (intro quiet [OF le]) auto
    qed
  qed
qed

definition gaps_counted :: "generation_supervisor \<Rightarrow> generation_supervisor \<Rightarrow> bool" where
  "gaps_counted s s' \<longleftrightarrow> rg_gap_count s \<le> rg_gap_count s' \<and> (rg_active s = None \<longrightarrow> rg_active s' = None)
     \<and> (rg_gap_count s' < u64_max \<longrightarrow> rg_gap_count s' = rg_gap_count s + (if lost_active s s' then 1 else 0))"

lemma gaps_counted_trans: "gaps_counted s s1 \<Longrightarrow> gaps_counted s1 s2 \<Longrightarrow> gaps_counted s s2"
  by (auto simp: gaps_counted_def lost_active_def split: if_splits)

lemma gaps_counted_same:
  "rg_active s' = rg_active s \<Longrightarrow> rg_gap_count s' = rg_gap_count s \<Longrightarrow> gaps_counted s s'"
  by (auto simp: gaps_counted_def lost_active_def)

lemma enter_gap_counted: "enter_gap now s = (r, s') \<Longrightarrow> gaps_counted s s' \<and> (rg_active s \<noteq> None \<longrightarrow> rg_candidate s' = None)"
  by (erule enter_gap_cases) (simp_all add: gaps_counted_def lost_active_def)

lemma fail_candidate_counted: "fail_candidate now s = (r, s') \<Longrightarrow> gaps_counted s s' \<and> rg_candidate s' = None"
  by (auto simp: fail_candidate_def gaps_counted_same split: if_splits)

lemma advance_counted:
  assumes "advance_generations now s = (r, s1)" "generation_inv s"
  shows "gaps_counted s s1" and "rg_candidate s1 \<noteq> None \<Longrightarrow> rg_active s1 = rg_active s \<and> rg_gap_count s1 = rg_gap_count s"
proof -
  have t: "gaps_counted s (ticked now s)" by (simp add: gaps_counted_same)
  from assms have "gaps_counted s s1 \<and> (rg_candidate s1 \<noteq> None \<longrightarrow> rg_active s1 = rg_active s \<and> rg_gap_count s1 = rg_gap_count s)"
  proof (cases rule: advance_effect)
    case late
    then show ?thesis by (simp add: gaps_counted_same)
  next
    case (expired rg)
    then show ?thesis using enter_gap_counted [OF expired(2)] gaps_counted_trans [OF t, of s1] by (auto simp: overdue_def)
  next
    case timed_out
    then show ?thesis using fail_candidate_counted [OF timed_out(2)] gaps_counted_trans [OF t, of s1] by auto
  next
    case quiet
    then show ?thesis using t by simp
  qed
  then show "gaps_counted s s1" and "rg_candidate s1 \<noteq> None \<Longrightarrow> rg_active s1 = rg_active s \<and> rg_gap_count s1 = rg_gap_count s"
    by auto
qed

lemma start_candidate_counted: "start_candidate i reason now s = (r, s') \<Longrightarrow> gaps_counted s s'"
  by (auto simp: start_candidate_def register_identity_def gaps_counted_same split: if_splits option.splits sum.splits prod.splits)

lemma generation_step_counted:
  assumes "generation_step op s = (r, s')" "generation_inv s"
  shows "rg_gap_count s \<le> rg_gap_count s'
    \<and> (rg_gap_count s' < u64_max \<longrightarrow> rg_gap_count s' = rg_gap_count s + (if lost_active s s' then 1 else 0))"
proof -
  note adv = advance_counted [OF _ assms(2)]
  have via: "rg_gap_count s \<le> rg_gap_count s'
    \<and> (rg_gap_count s' < u64_max \<longrightarrow> rg_gap_count s' = rg_gap_count s + (if lost_active s s' then 1 else 0))"
    if "gaps_counted s s1" "gaps_counted s1 s'" for s1 using gaps_counted_trans [OF that] by (auto simp: gaps_counted_def)
  have refl: "gaps_counted s' s'" by (simp add: gaps_counted_same)
  show ?thesis
  proof (cases op)
    case (AdvanceTo t)
    obtain ra s1 where a: "advance_generations t s = (ra, s1)" by fastforce
    then have "s' = s1" using assms(1) AdvanceTo by (auto simp: forget_def split: sum.splits)
    then show ?thesis using via [OF adv(1) [OF a]] refl by simp
  next
    case (StartDue i t)
    obtain ra s1 where a: "advance_generations t s = (ra, s1)" by fastforce
    have "s' = s \<or> gaps_counted s1 s'"
      using assms(1) StartDue start_candidate_counted [of i _ t s1 r s'] refl
      by (auto simp: start_due_candidate_def a split: sum.splits option.splits)
    then show ?thesis using via [OF adv(1) [OF a]] via [of s] refl by auto
  next
    case (ShutdownSeen ep i t)
    obtain ra s1 where a: "advance_generations t s = (ra, s1)" by fastforce
    obtain rc sc where c: "start_candidate i ShutdownNotice t s1 = (rc, sc)" by fastforce
    have "s' = s \<or> s' = s1 \<or> s' = sc"
      using assms(1) ShutdownSeen by (auto simp: on_server_shutdown_def forget_def a c split: sum.splits option.splits if_splits)
    then show ?thesis using via [OF adv(1) [OF a]] via [of s] refl start_candidate_counted [OF c] by auto
  next
    case (ObserveFact f t)
    obtain ra s1 where a: "advance_generations t s = (ra, s1)" by fastforce
    have "gaps_counted s1 s'" using assms(1) ObserveFact
      by (auto simp: observe_candidate_fact_def forget_def a gaps_counted_same split: sum.splits option.splits prod.splits)
    then show ?thesis using via [OF adv(1) [OF a]] by blast
  next
    case (PromoteNow t)
    obtain ra s1 where a: "advance_generations t s = (ra, s1)" by fastforce
    show ?thesis
    proof (cases "s' = s1")
      case True
      then show ?thesis using via [OF adv(1) [OF a]] refl by simp
    next
      case False
      then have "rg_candidate s1 \<noteq> None" "rg_active s' \<noteq> None" "rg_gap_count s' = rg_gap_count s1"
        using assms(1) PromoteNow by (auto simp: promote_generation_def forget_def a split: sum.splits option.splits if_splits)
      then show ?thesis using adv(2) [OF a] by (auto simp: lost_active_def)
    qed
  next
    case (CloseDraining g t)
    obtain ra s1 where a: "advance_generations t s = (ra, s1)" by fastforce
    have "gaps_counted s1 s'" using assms(1) CloseDraining
      by (auto simp: close_draining_generation_def forget_def a gaps_counted_same split: sum.splits option.splits)
    then show ?thesis using via [OF adv(1) [OF a]] by blast
  next
    case (DisconnectNow ep reason t)
    obtain ra s1 where a: "advance_generations t s = (ra, s1)" by fastforce
    obtain rg sg where g: "enter_gap t s1 = (rg, sg)" by fastforce
    obtain rf sf where f: "fail_candidate t s1 = (rf, sf)" by fastforce
    have "s' = s \<or> gaps_counted s1 s'" using assms(1) DisconnectNow enter_gap_counted [OF g] fail_candidate_counted [OF f]
      by (auto simp: disconnect_epoch_def forget_def a g f gaps_counted_same split: sum.splits option.splits if_splits)
    then show ?thesis using via [OF adv(1) [OF a]] via [of s] refl by auto
  qed
qed

lemma generation_run_inv:
  assumes "generation_run s0 n s" "generation_inv s0" "rg_gap_count s0 = 0"
  shows "generation_inv s \<and> (rg_gap_count s < u64_max \<longrightarrow> rg_gap_count s = n)"
  using assms
proof (induction rule: generation_run.induct)
  case (generation_next n s op r s')
  then show ?case using generation_step_inv [of op s r s'] generation_step_counted [of op s r s'] by (simp split: if_splits)
qed simp

text \<open>
  C10. Whatever is asked of a generation supervisor, in whatever order and at whatever times, its state
  names exactly which of an active and a candidate generation exist, the tokens of the generations it
  holds are pairwise distinct and registered, the active generation has complete evidence and a candidate
  has it only in the order connection, durability, continuity, the segment index is the elapsed time in
  segment intervals, the gap count is the number of times the active generation was lost, and no
  operation aborts.
\<close>

theorem generation_supervisor_consistent:
  assumes "generation_supervisor_new config initial t0 = Ok s0" "generation_run s0 n s" "rg_gap_count s < u64_max"
  shows "rg_state s = state_of (rg_active s) (rg_candidate s)
    \<and> distinct (present_tokens s) \<and> set (present_tokens s) \<subseteq> rg_used_tokens s
    \<and> (\<forall>g. rg_active s = Some g \<longrightarrow> is_ready (gt_readiness g))
    \<and> (\<forall>g. rg_candidate s = Some g \<longrightarrow> evidence_ordered (gt_readiness g))
    \<and> rg_current_segment_index s
        = (rg_last_mono_ns s - rg_clock_origin_ns s) div rc_segment_interval_ns (rg_config s)
    \<and> rg_gap_count s = n \<and> (qualification_has_gap s \<longleftrightarrow> 0 < n)
    \<and> (\<forall>op. fst (generation_step op s) \<noteq> Err Panic)"
proof -
  have i: "generation_inv s \<and> rg_gap_count s = n"
    using generation_run_inv [OF assms(2)] generation_new_inv [OF assms(1)] assms(3) by simp
  have "fst (generation_step op s) \<noteq> Err Panic" for op
    using generation_step_inv [of op s "fst (generation_step op s)" "snd (generation_step op s)"] i by simp
  then show ?thesis using i assms(3)
    by (auto simp: generation_inv_def clock_ok_def tokens_ok_def generation_roles_ok_def qualification_has_gap_def)
qed

section \<open>Deadlines\<close>

definition within_deadlines :: "generation_supervisor \<Rightarrow> bool" where
  "within_deadlines s \<longleftrightarrow> \<not> overdue (rg_last_mono_ns s) (rc_active_max_age_ns (rg_config s)) (rg_active s)
     \<and> \<not> overdue (rg_last_mono_ns s) (rc_candidate_timeout_ns (rg_config s)) (rg_candidate s)"

lemma advance_within:
  assumes "advance_generations now s = (Ok a, s1)" "generation_inv s"
  shows "within_deadlines s1"
  using assms
proof (cases rule: advance_effect)
  case (expired rg)
  have "rg_active s1 = None \<and> rg_candidate s1 = None" using expired(2,3)
    by (auto elim!: enter_gap_cases simp: overdue_def)
  then show ?thesis by (simp add: within_deadlines_def overdue_def)
next
  case timed_out
  then show ?thesis by (auto simp: within_deadlines_def overdue_def fail_candidate_def split: if_splits)
next
  case quiet
  then show ?thesis by (simp add: within_deadlines_def)
qed simp

lemma start_candidate_within:
  assumes "start_candidate i q (rg_last_mono_ns s) s = (Ok (), s')" "within_deadlines s"
    "0 < rc_candidate_timeout_ns (rg_config s)"
  shows "within_deadlines s'"
  using assms
  by (auto simp: start_candidate_def register_identity_def within_deadlines_def overdue_def
      split: if_splits option.splits sum.splits prod.splits)

lemma promote_within:
  assumes "promote_generation now s = (Ok p, s')" "generation_inv s"
  shows "\<not> overdue (rg_last_mono_ns s') (rc_candidate_timeout_ns (rg_config s')) (rg_active s') \<and> rg_candidate s' = None"
proof -
  obtain a s1 where a: "advance_generations now s = (Ok a, s1)"
    using assms(1) by (auto simp: promote_generation_def split: prod.splits sum.splits)
  have "within_deadlines s1" by (rule advance_within [OF a assms(2)])
  then show ?thesis using assms(1)
    by (auto simp: promote_generation_def a within_deadlines_def overdue_def split: option.splits if_splits)
qed

lemma step_within:
  assumes "generation_step op s = (Ok (), s')" "generation_inv s" "\<nexists>t. op = PromoteNow t"
  shows "within_deadlines s'"
proof -
  have tm: "0 < rc_candidate_timeout_ns (rg_config s1)" if "generation_inv s1" for s1
    using that by (auto simp: generation_inv_def clock_ok_def validate_durations_def split: if_splits)
  note adv = advance_cases [OF assms(2), case_names refused advanced] and inw = advance_within [OF _ assms(2)]
  show ?thesis
  proof (cases op)
    case (AdvanceTo t)
    then show ?thesis using assms(1) inw by (auto simp: forget_def split: prod.splits sum.splits)
  next
    case (StartDue i t)
    then show ?thesis using assms(1) inw tm start_candidate_within
      by (cases rule: adv [of t]) (auto simp: start_due_candidate_def split: sum.splits option.splits)
  next
    case (ShutdownSeen ep i t)
    then show ?thesis using assms(1) inw tm start_candidate_within
      by (cases rule: adv [of t])
        (auto simp: on_server_shutdown_def forget_def split: sum.splits option.splits if_splits prod.splits)
  next
    case (ObserveFact f t)
    then show ?thesis using assms(1) inw
      by (cases rule: adv [of t])
        (fastforce simp: observe_candidate_fact_def forget_def within_deadlines_def overdue_def
          split: sum.splits option.splits prod.splits)+
  next
    case (PromoteNow t)
    then show ?thesis using assms(3) by simp
  next
    case (CloseDraining g t)
    then show ?thesis using assms(1) inw
      by (cases rule: adv [of t])
        (fastforce simp: close_draining_generation_def forget_def within_deadlines_def split: sum.splits option.splits)+
  next
    case (DisconnectNow ep reason t)
    show ?thesis
    proof (cases rule: adv [of t])
      case (refused e s1)
      then show ?thesis using assms(1) DisconnectNow by (auto simp: disconnect_epoch_def forget_def split: if_splits)
    next
      case (advanced a s1)
      note w = inw [OF advanced(1)]
      have g: "enter_gap t s1 = (Inr x, s2) \<Longrightarrow> within_deadlines s2" for x s2
        by (erule enter_gap_cases) (simp_all add: within_deadlines_def overdue_def)
      have f: "fail_candidate t s1 = (Inr x, s2) \<Longrightarrow> within_deadlines s2" for x s2
        using w by (auto simp: fail_candidate_def within_deadlines_def overdue_def split: if_splits)
      show ?thesis using assms(1) DisconnectNow advanced w g f
        by (auto simp: disconnect_epoch_def forget_def within_deadlines_def [of "_\<lparr>rg_draining := _\<rparr>"] split: sum.splits option.splits prod.splits if_splits)
          (simp_all add: within_deadlines_def)
    qed
  qed
qed

text \<open>The age a successful operation allows the active generation: a promotion bounds the successor by
  the candidate timeout only.\<close>

definition active_age_limit :: "generation_op \<Rightarrow> raw_supervisor_config \<Rightarrow> nat" where
  "active_age_limit op c = (case op of PromoteNow _ \<Rightarrow> rc_candidate_timeout_ns c | _ \<Rightarrow> rc_active_max_age_ns c)"

text \<open>
  C34. Every operation that succeeds leaves the candidate younger than its timeout and the active
  generation younger than its maximum age; after a promotion the new active generation is younger than
  the candidate timeout and there is no candidate left.
\<close>

theorem generation_deadlines_enforced:
  assumes "generation_supervisor_new config initial t0 = Ok s0" "generation_run s0 n s"
    and "generation_step op s = (Ok (), s')"
  shows "(\<forall>g. rg_candidate s' = Some g \<longrightarrow> rg_last_mono_ns s' - gt_opened_mono_ns g < rc_candidate_timeout_ns (rg_config s'))
    \<and> (\<forall>g. rg_active s' = Some g \<longrightarrow> rg_last_mono_ns s' - gt_opened_mono_ns g < active_age_limit op (rg_config s'))
    \<and> (\<forall>t. op = PromoteNow t \<longrightarrow> rg_candidate s' = None)"
proof -
  have i: "generation_inv s" using generation_run_inv [OF assms(2)] generation_new_inv [OF assms(1)] by simp
  show ?thesis
  proof (cases "\<exists>t. op = PromoteNow t")
    case True
    then obtain t p where "op = PromoteNow t" "promote_generation t s = (Ok p, s')"
      using assms(3) by (auto simp: forget_def split: prod.splits sum.splits)
    then show ?thesis using promote_within [OF _ i] by (simp add: overdue_def active_age_limit_def not_le)
  next
    case False
    then show ?thesis using step_within [OF assms(3) i]
      by (cases op) (simp_all add: within_deadlines_def overdue_def active_age_limit_def not_le)
  qed
qed

section \<open>The way out of a gap\<close>

text \<open>Operations in sequence, up to the first that fails.\<close>

fun generation_steps :: "generation_op list \<Rightarrow> generation_supervisor \<Rightarrow> unit res \<times> generation_supervisor" where
  "generation_steps [] s = (Ok (), s)"
| "generation_steps (op # ops) s =
     (case generation_step op s of (Inl e, s1) \<Rightarrow> (Err e, s1) | (Inr _, s1) \<Rightarrow> generation_steps ops s1)"

lemma generation_steps_append:
  "generation_steps xs s = (Ok (), s1) \<Longrightarrow> generation_steps (xs @ ys) s = generation_steps ys s1"
  by (induction xs arbitrary: s) (auto split: prod.splits sum.splits)

text \<open>Evidence in an order the guards admit.\<close>

fun admissible :: "candidate_fact list \<Rightarrow> candidate_readiness \<Rightarrow> bool" where
  "admissible [] r = True"
| "admissible (f # fs) r \<longleftrightarrow> fact_guard f r = Ok () \<and> \<not> fact_flag f r \<and> admissible fs (set_fact f r)"

lemma ticked_same: "generation_inv s \<Longrightarrow> ticked (rg_last_mono_ns s) s = s"
  by (simp add: ticked_def generation_inv_def clock_ok_def)

lemma advance_idle:
  assumes "generation_inv s" "within_deadlines s"
  shows "\<exists>a. advance_generations (rg_last_mono_ns s) s = (Ok a, s)"
  using assms advance_generations_eq [OF assms(1) order_refl] advance_deadlines_eq [OF assms(1)]
    advance_report_no_panic [OF assms(1) order_refl]
  by (simp add: ticked_same within_deadlines_def)

lemma observe_all:
  assumes "generation_inv s" "rg_active s = None" "rg_candidate s = Some g" "gt_opened_mono_ns g = rg_last_mono_ns s"
    "admissible fs (gt_readiness g)"
  shows "\<exists>s1. generation_steps (map (\<lambda>f. ObserveFact f (rg_last_mono_ns s)) fs) s = (Ok (), s1) \<and> generation_inv s1
    \<and> s1 = s\<lparr>rg_candidate := Some (g\<lparr>gt_readiness := fold set_fact fs (gt_readiness g)\<rparr>)\<rparr>"
  using assms
proof (induction fs arbitrary: s g)
  case (Cons f fs)
  have w: "within_deadlines s" using Cons.prems(1-4)
    by (auto simp: within_deadlines_def overdue_def generation_inv_def clock_ok_def validate_durations_def split: if_splits)
  obtain a where a: "advance_generations (rg_last_mono_ns s) s = (Ok a, s)" using advance_idle [OF Cons.prems(1) w] by blast
  define g1 s1 where "g1 = g\<lparr>gt_readiness := set_fact f (gt_readiness g)\<rparr>" and "s1 = s\<lparr>rg_candidate := Some g1\<rparr>"
  have o: "observe_candidate_fact f (rg_last_mono_ns s) s = (Ok True, s1)"
    using a Cons.prems(3,5) by (simp add: observe_candidate_fact_def readiness_observe_def g1_def s1_def)
  have i: "generation_inv s1" using observe_inv [OF o Cons.prems(1)] by simp
  have "\<exists>s2. generation_steps (map (\<lambda>f. ObserveFact f (rg_last_mono_ns s1)) fs) s1 = (Ok (), s2) \<and> generation_inv s2
    \<and> s2 = s1\<lparr>rg_candidate := Some (g1\<lparr>gt_readiness := fold set_fact fs (gt_readiness g1)\<rparr>)\<rparr>"
    by (rule Cons.IH [OF i]) (use Cons.prems in \<open>simp_all add: s1_def g1_def\<close>)
  then show ?case using o by (simp add: s1_def g1_def forget_def)
next
  case Nil
  have "s = s\<lparr>rg_candidate := Some g\<rparr>" using Nil.prems(3) by (cases s) simp
  then show ?case using Nil.prems(1) by simp
qed

lemma promote_idle:
  assumes "generation_inv s" "rg_active s = None" "rg_candidate s = Some g" "gt_opened_mono_ns g = rg_last_mono_ns s"
    "is_ready (gt_readiness g)"
  shows "\<exists>s1. promote_generation (rg_last_mono_ns s) s
      = (Ok \<lparr>pm_predecessor = None, pm_successor = gt_identity g, pm_gap_was_open = True\<rparr>, s1)
    \<and> rg_state s1 = RawLive \<and> rg_active s1 = Some (g\<lparr>gt_role := RoleActive\<rparr>) \<and> rg_gap_count s1 = rg_gap_count s"
proof -
  have "within_deadlines s" using assms(1-4)
    by (auto simp: within_deadlines_def overdue_def generation_inv_def clock_ok_def validate_durations_def split: if_splits)
  then show ?thesis using advance_idle [OF assms(1)] assms(2,3,5) by (auto simp: promote_generation_def)
qed

text \<open>
  C29. A gap can always be left: once the maximum backoff has passed since the last clock reading, a
  candidate with a fresh identity may start, every order of evidence the guards admit is taken, and with
  complete evidence the promotion makes it the active generation and reports that a gap was open.
\<close>

theorem generation_gap_recovers:
  assumes "generation_supervisor_new config initial t0 = Ok s0" "generation_run s0 n s" "rg_gap_count s < u64_max"
    and "rg_state s = RawGap" "rg_last_mono_ns s + rc_backoff_max_ns (rg_config s) \<le> now"
    and "validate_generation_identity i = Ok ()" "set (identity_tokens i) \<inter> rg_used_tokens s = {}"
    and "admissible fs readiness_empty" "is_ready (fold set_fact fs readiness_empty)"
  shows "\<exists>s1 s2 g. generation_steps (StartDue i now # map (\<lambda>f. ObserveFact f now) fs) s = (Ok (), s1)
    \<and> promote_generation now s1
      = (Ok \<lparr>pm_predecessor = None, pm_successor = i, pm_gap_was_open = True\<rparr>, s2)
    \<and> rg_state s2 = RawLive \<and> rg_active s2 = Some g \<and> gt_identity g = i \<and> rg_gap_count s2 = n"
proof -
  have inv: "generation_inv s" and n: "rg_gap_count s = n"
    using generation_run_inv [OF assms(2)] generation_new_inv [OF assms(1)] assms(3) by simp_all
  have none: "rg_active s = None" "rg_candidate s = None"
    using inv assms(3,4) by (auto simp: generation_inv_def generation_roles_ok_def state_of_def split: if_splits)
  have le: "rg_last_mono_ns s \<le> now" using assms(5) by simp
  have due: "\<exists>q. candidate_request_at now (ticked now s) = Ok (Some q)"
    using none assms(5) inv by (fastforce simp: candidate_request_at_def Let_def generation_inv_def clock_ok_def split: option.splits)
  have "advance_generations now s = (advance_report now
      (rg_current_segment_index (ticked now s) - rg_current_segment_index s) False False (ticked now s), ticked now s)"
    using advance_generations_eq [OF inv le] advance_deadlines_eq [OF ticked_inv [OF inv le]] none by (simp add: overdue_def)
  then obtain a q where a: "advance_generations now s = (Ok a, ticked now s)" "ta_candidate_request a = Some q"
    using due by (auto simp: advance_report_def)
  define g where "g = \<lparr>gt_identity = i, gt_role = RoleCandidate, gt_opened_mono_ns = now, gt_reason = cq_reason q,
     gt_readiness = readiness_empty\<rparr>"
  obtain s1 where c: "start_candidate i (cq_reason q) now (ticked now s) = (Ok (), s1)" "rg_candidate s1 = Some g"
    "rg_active s1 = None" "rg_gap_count s1 = n" "rg_last_mono_ns s1 = now"
    using none n assms(6,7)
    by (auto simp: start_candidate_def register_identity_def g_def find_None_iff disjoint_iff split: option.splits)
  have st: "start_due_candidate i now s = (Ok (), s1)" using a c(1) assms(6) by (simp add: start_due_candidate_def)
  have i1: "generation_inv s1"
    using generation_step_inv [of "StartDue i now" s] st inv by simp
  obtain s2 where o: "generation_steps (map (\<lambda>f. ObserveFact f now) fs) s1 = (Ok (), s2)" "generation_inv s2"
    "s2 = s1\<lparr>rg_candidate := Some (g\<lparr>gt_readiness := fold set_fact fs readiness_empty\<rparr>)\<rparr>"
    using observe_all [OF i1 c(3,2)] assms(8) c(5) by (auto simp: g_def)
  obtain s3 where "promote_generation now s2 = (Ok \<lparr>pm_predecessor = None, pm_successor = i, pm_gap_was_open = True\<rparr>, s3)"
    "rg_state s3 = RawLive" "rg_active s3 = Some (g\<lparr>gt_readiness := fold set_fact fs readiness_empty, gt_role := RoleActive\<rparr>)"
    "rg_gap_count s3 = n"
    using promote_idle [OF o(2)] c(3-5) assms(9) by (auto simp: o(3) g_def)
  then show ?thesis using st o(1) by (auto simp: g_def)
qed

section \<open>A generation lost and replaced\<close>

definition demo_durations :: raw_supervisor_config where
  "demo_durations = \<lparr>rc_segment_interval_ns = 10, rc_planned_rotation_age_ns = 50, rc_active_max_age_ns = 100,
     rc_candidate_timeout_ns = 20, rc_backoff_initial_ns = 2, rc_backoff_max_ns = 8\<rparr>"

definition demo_identity :: "string \<Rightarrow> generation_identity" where
  "demo_identity x = \<lparr>gn_generation_id = CHR ''g'' # x, gn_depth_epoch = CHR ''d'' # x, gn_trade_epoch = CHR ''t'' # x\<rparr>"

definition demo_supervisor :: generation_supervisor where
  "demo_supervisor = the (case generation_supervisor_new demo_durations (demo_identity ''1'') 0 of Inr s \<Rightarrow> Some s | Inl _ \<Rightarrow> None)"

lemmas demo_generation_defs = demo_supervisor_def demo_durations_def demo_identity_def generation_supervisor_new_def
  validate_durations_def validate_generation_identity_def trim_is_empty_def str_bytes_def

lemma demo_supervisor_new: "generation_supervisor_new demo_durations (demo_identity ''1'') 0 = Ok demo_supervisor"
  by (simp add: demo_generation_defs)

text \<open>The state after the depth stream of the first generation disconnects at time 35.\<close>

definition demo_gap :: generation_supervisor where
  "demo_gap = snd (generation_step (DisconnectNow ''d1'' ''reset'' 35) demo_supervisor)"

lemma demo_gap_eq:
  "generation_step (DisconnectNow ''d1'' ''reset'' 35) demo_supervisor = (Ok (), demo_gap)"
  "rg_active demo_gap = None" "rg_gap_count demo_gap = 1" "rg_state demo_gap = RawGap" "rg_last_mono_ns demo_gap = 35"
  "rg_config demo_gap = demo_durations" "rg_used_tokens demo_gap = {''g1'', ''d1'', ''t1''}"
  "rg_current_segment_index demo_gap = 3"
  by (simp_all add: demo_gap_def demo_generation_defs disconnect_epoch_def advance_generations_def advance_deadlines_def
      age_reached_def checked_sub_def advance_report_def candidate_request_at_def in_generation_def contains_epoch_def enter_gap_def
      checked_add_def u64_max_def schedule_retry_def forget_def sub_u64_def)

lemma demo_gap_run: "generation_run demo_supervisor 1 demo_gap"
proof -
  have "rg_active demo_supervisor \<noteq> None" by (simp add: demo_generation_defs)
  then show ?thesis using generation_next [OF generation_start demo_gap_eq(1)] demo_gap_eq(2) by (simp add: lost_active_def)
qed

text \<open>Witness: after the disconnect.\<close>

theorem generation_supervisor_consistent_witness:
  "rg_state demo_gap = state_of (rg_active demo_gap) (rg_candidate demo_gap) \<and> rg_gap_count demo_gap = 1
   \<and> rg_current_segment_index demo_gap = 3"
  using generation_supervisor_consistent [OF demo_supervisor_new demo_gap_run] demo_gap_eq(3,8) by (simp add: u64_max_def)

text \<open>The planned rotation is due at 50: a candidate is started at 55 and the clock read again at 74.\<close>

definition demo_rotating :: generation_supervisor where
  "demo_rotating = snd (generation_step (StartDue (demo_identity ''2'') 55) demo_supervisor)"

definition demo_waiting :: generation_supervisor where
  "demo_waiting = snd (generation_step (AdvanceTo 74) demo_rotating)"

lemmas demo_rotation_eval = demo_generation_defs start_due_candidate_def start_candidate_def register_identity_def
  advance_generations_def advance_deadlines_def age_reached_def checked_sub_def advance_report_def candidate_request_at_def
  identity_tokens_def checked_add_def u64_max_def forget_def sub_u64_def

lemma demo_rotating_eq:
  "generation_step (StartDue (demo_identity ''2'') 55) demo_supervisor = (Ok (), demo_rotating)"
  "generation_step (AdvanceTo 74) demo_rotating = (Ok (), demo_waiting)"
  "map_option gt_opened_mono_ns (rg_active demo_waiting) = Some 0" "map_option gt_opened_mono_ns (rg_candidate demo_waiting) = Some 55"
  "rg_last_mono_ns demo_waiting = 74" "rg_config demo_waiting = demo_durations"
  by (simp_all add: demo_rotating_def demo_waiting_def demo_rotation_eval)

text \<open>Witness: the active generation is 74 old, the candidate 19.\<close>

theorem generation_deadlines_enforced_witness:
  "(\<exists>g. rg_active demo_waiting = Some g \<and> 74 - gt_opened_mono_ns g < 100)
    \<and> (\<exists>g. rg_candidate demo_waiting = Some g \<and> 74 - gt_opened_mono_ns g < 20)"
  using generation_deadlines_enforced [OF demo_supervisor_new generation_next [OF generation_start demo_rotating_eq(1)]
      demo_rotating_eq(2)] demo_rotating_eq(3-6)
  by (auto simp: active_age_limit_def demo_durations_def)

text \<open>Witness: a second generation, started when the backoff is over.\<close>

theorem generation_gap_recovers_witness:
  "\<exists>s1 s2 g. generation_steps (StartDue (demo_identity ''2'') 43 # map (\<lambda>f. ObserveFact f 43)
        [DepthConnected, TradeConnected, SnapshotPersisted, DepthDurable, TradeDurable, TradeContinuityProven,
         DepthContinuityProven]) demo_gap = (Ok (), s1)
    \<and> promote_generation 43 s1
      = (Ok \<lparr>pm_predecessor = None, pm_successor = demo_identity ''2'', pm_gap_was_open = True\<rparr>, s2)
    \<and> rg_state s2 = RawLive \<and> rg_active s2 = Some g \<and> gt_identity g = demo_identity ''2'' \<and> rg_gap_count s2 = 1"
  by (rule generation_gap_recovers [OF demo_supervisor_new demo_gap_run])
    (simp_all add: demo_gap_eq u64_max_def demo_durations_def demo_identity_def validate_generation_identity_def
      trim_is_empty_def str_bytes_def identity_tokens_def fact_guard_def fact_flag_def set_fact_def readiness_empty_def is_ready_def)

end
