(* ===== verification/Canonical_Output_Safety.thy ===== *)
theory Canonical_Output_Safety
  imports Canonical_Output
begin

text \<open>
  The properties of \<open>canonical_output.rs\<close>: what a scanned output says about the published stream, what a
  crash leaves of a written one, that a resumed writer is the writer that stopped, and that the valid
  prefix of any damaged output can be recovered.
\<close>

section \<open>The scan is a chained log\<close>

lemma output_step_Ok:
  "output_scan_step r d s = (Inr u, s') \<Longrightarrow> validate_output_record r s = Ok ()"
  by (auto simp: output_scan_step_def split: sum.splits)

lemma output_step_Err: "output_scan_step r d s = (Inl e, s') \<Longrightarrow> s' = s"
  by (auto simp: output_scan_step_def Let_def split: sum.splits)

lemma output_step_chains:
  "output_scan_step r d s = (Inr u, s') \<Longrightarrow>
     cx_records s' = cx_records s + 1 \<and> cx_previous s' = d \<and> cr_previous_record_sha256 r = cx_previous s"
  by (auto simp: output_scan_step_def validate_output_record_def Let_def split: sum.splits if_splits)

interpretation output_log: chained_log output_scan_step cx_records cx_previous cr_previous_record_sha256
  by unfold_locales (rule output_step_chains)

text \<open>The loop of this scan is the shared one, with an empty body refused.\<close>

abbreviation output_frame_scan where
  "output_frame_scan E from_slice \<equiv>
     frame_scan E ''output'' OUTPUT_MAX_RECORD_BYTES (nonempty_body from_slice) output_scan_step"

lemma output_scan_loop_frames:
  "\<exists>reason'. output_frame_scan E from_slice bs off s
      = (fst (output_scan_loop E from_slice bs off s), fst (snd (output_scan_loop E from_slice bs off s)), reason')
    \<and> (reason' = None \<longleftrightarrow> snd (snd (output_scan_loop E from_slice bs off s)) = None)"
proof (induction E from_slice bs off s rule: output_scan_loop.induct)
  case (1 E from_slice bs off s)
  let ?n = "from_be_bytes (take 4 bs)" and ?rest = "drop 4 bs"
  consider (eof) "bs = []"
    | (bad) m where "next_frame E ''output'' OUTPUT_MAX_RECORD_BYTES bs = FrameBad m" "bs \<noteq> []"
    | (frame) "4 \<le> length bs" "?n \<le> OUTPUT_MAX_RECORD_BYTES" "?n + 32 \<le> length ?rest"
        "sha256 E (take ?n ?rest) = take 32 (drop ?n ?rest)"
        "next_frame E ''output'' OUTPUT_MAX_RECORD_BYTES bs
          = Frame (take ?n ?rest) (take 32 (drop ?n ?rest)) (drop (?n + 32) ?rest)"
  proof (cases "next_frame E ''output'' OUTPUT_MAX_RECORD_BYTES bs")
    case FrameEof
    then show ?thesis by (intro eof) (auto simp: next_frame_def Let_def split: if_splits)
  next
    case (FrameBad m)
    then show ?thesis by (intro bad) (auto simp: next_frame_def)
  next
    case (Frame body d rest)
    then show ?thesis by (intro frame) (auto simp: next_frame_def Let_def split: if_splits)
  qed
  then show ?case
  proof cases
    case eof
    then have "next_frame E ''output'' OUTPUT_MAX_RECORD_BYTES bs = FrameEof" by (simp add: next_frame_def)
    then show ?thesis using eof by (simp add: frame_scan_cases(1) output_scan_loop.simps)
  next
    case bad
    have "\<exists>m. output_scan_loop E from_slice bs off s = (s, off, Some m)"
      using bad by (subst output_scan_loop.simps) (auto simp: next_frame_def Let_def split: if_splits)
    then show ?thesis by (auto simp: frame_scan_cases(2) [OF bad(1)])
  next
    case frame
    note f = frame_scan_cases(3) [OF frame(5)]
    have len: "length (take ?n ?rest) = ?n" using frame(3) by simp
    show ?thesis
    proof (cases "?n = 0")
      case True
      have "output_scan_loop E from_slice bs off s = (s, off, Some ''invalid canonical output record length'')"
        using frame(1) True by (subst output_scan_loop.simps) auto
      then show ?thesis using True by (simp add: f nonempty_body_def)
    next
      case False
      then have ne: "take ?n ?rest \<noteq> []" using len by auto
      have g: "\<not> (length bs < 4)" "\<not> (?n = 0 \<or> OUTPUT_MAX_RECORD_BYTES < ?n)" "\<not> (length ?rest < ?n + 32)" "bs \<noteq> []"
        "\<not> sha256 E (take ?n ?rest) \<noteq> take 32 (drop ?n ?rest)" using frame False by auto
      have loop: "output_scan_loop E from_slice bs off s = (case from_slice (take ?n ?rest) of
          None \<Rightarrow> (s, off, Some ''invalid canonical output JSON'')
        | Some r \<Rightarrow>
            (case output_scan_step r (hex (take 32 (drop ?n ?rest))) s of
               (Inl e, s1) \<Rightarrow> (s1, off, Some ''invalid canonical output transition/continuity'')
             | (Inr _, s1) \<Rightarrow> output_scan_loop E from_slice (drop (?n + 32) ?rest) (off + (4 + ?n + 32)) s1))"
        using g by (subst output_scan_loop.simps) (simp add: Let_def)
      show ?thesis
      proof (cases "from_slice (take ?n ?rest)")
        case None
        then show ?thesis using ne by (simp add: f loop nonempty_body_def)
      next
        case (Some r)
        obtain x s1 where x: "output_scan_step r (hex (take 32 (drop ?n ?rest))) s = (x, s1)" by fastforce
        show ?thesis
        proof (cases x)
          case (Inl e)
          then show ?thesis using ne Some x by (simp add: f loop nonempty_body_def)
        next
          case (Inr u)
          have "output_frame_scan E from_slice bs off s
              = output_frame_scan E from_slice (drop (?n + 32) ?rest) (off + (4 + ?n + 32)) s1"
            using ne Some x Inr len by (simp add: f nonempty_body_def)
          moreover have "output_scan_loop E from_slice bs off s
              = output_scan_loop E from_slice (drop (?n + 32) ?rest) (off + (4 + ?n + 32)) s1"
            using Some x Inr by (simp add: loop)
          moreover note "1.IH" [OF g(4,1) refl refl g(2,3,5) Some x [symmetric] Inr]
          ultimately show ?thesis by simp
        qed
      qed
    qed
  qed
qed

section \<open>What a scan says\<close>

lemma magic_length [simp]: "length OUTPUT_MAGIC = 8"
  by (simp add: OUTPUT_MAGIC_def)

definition scanned_as :: "output_scan_state \<Rightarrow> canonical_output_scan \<Rightarrow> bool" where
  "scanned_as st scan \<longleftrightarrow> cn_records scan = cx_records st \<and> cn_observations scan = cx_observations st
     \<and> cn_ownership_changes scan = cx_ownership_changes st \<and> cn_symbol scan = cx_symbol st
     \<and> cn_stream_kind scan = cx_kind st \<and> cn_owner scan = cx_owner st
     \<and> cn_last_observation scan = cx_last_observation st \<and> cn_last_record_sha256 scan = cx_previous st"

lemma scan_output_frames:
  assumes "output_frame_scan E from_slice bs (length OUTPUT_MAGIC) output_scan_start = (st, off, reason)"
  shows "\<exists>scan. scan_canonical_output E from_slice (OUTPUT_MAGIC @ bs) = Ok scan \<and> scanned_as st scan
    \<and> cn_last_good_offset scan = off \<and> (cn_clean_eof scan \<longleftrightarrow> reason = None \<and> off = 8 + length bs)"
proof -
  obtain reason' where l: "output_scan_loop E from_slice bs 8 output_scan_start = (st, off, reason')"
    "reason' = None \<longleftrightarrow> reason = None"
    using output_scan_loop_frames [of E from_slice bs 8 output_scan_start] assms
    by (cases "output_scan_loop E from_slice bs 8 output_scan_start") auto
  have m: "take 8 (OUTPUT_MAGIC @ bs) = OUTPUT_MAGIC" "drop 8 (OUTPUT_MAGIC @ bs) = bs" by simp_all
  show ?thesis unfolding scan_canonical_output_def m using l by (simp add: scanned_as_def)
qed

lemma scan_output_Ok:
  assumes "scan_canonical_output E from_slice bs = Ok scan"
  obtains bodies rest st where "bs = OUTPUT_MAGIC @ frame_bytes E bodies @ rest"
    "frames_fit OUTPUT_MAX_RECORD_BYTES (nonempty_body from_slice) bodies"
    "run_steps output_scan_step (frames_of E (nonempty_body from_slice) bodies) output_scan_start = Some st"
    "scanned_as st scan" "cn_last_good_offset scan = 8 + length (frame_bytes E bodies)"
    "cn_clean_eof scan \<Longrightarrow> rest = []"
proof -
  have t: "take 8 bs = OUTPUT_MAGIC" using assms by (auto simp: scan_canonical_output_def split: if_splits)
  then have m: "bs = OUTPUT_MAGIC @ drop 8 bs" by (metis append_take_drop_id)
  obtain st off reason where f: "output_frame_scan E from_slice (drop 8 bs) 8 output_scan_start = (st, off, reason)"
    by (rule prod_cases3)
  obtain scan' where sc: "scan_canonical_output E from_slice (OUTPUT_MAGIC @ drop 8 bs) = Ok scan'" "scanned_as st scan'"
    "cn_last_good_offset scan' = off" "cn_clean_eof scan' \<longleftrightarrow> reason = None \<and> off = 8 + length (drop 8 bs)"
    using scan_output_frames [of E from_slice "drop 8 bs" st off reason] f by auto
  have e: "scan' = scan" using sc(1) assms m by simp
  obtain bodies rest where b: "drop 8 bs = frame_bytes E bodies @ rest" "off = 8 + length (frame_bytes E bodies)"
    "frames_fit OUTPUT_MAX_RECORD_BYTES (nonempty_body from_slice) bodies"
    "run_steps output_scan_step (frames_of E (nonempty_body from_slice) bodies) output_scan_start = Some st"
    "reason = None \<longrightarrow> rest = []"
    using frame_scan_prefix [of output_scan_step, OF _ f] output_step_Err by blast
  show ?thesis by (rule that [of bodies rest st]) (use m b sc e in auto)
qed

text \<open>The records of a file, its observations, and the number of its ownership changes.\<close>

definition output_observations :: "(canonical_output_record \<times> string) list \<Rightarrow> canonical_observation list" where
  "output_observations rs = concat (map (\<lambda>(r, d). case cr_observation r of None \<Rightarrow> [] | Some x \<Rightarrow> [x]) rs)"

lemma output_observations_simps [simp]:
  "output_observations [] = []" "output_observations (xs @ ys) = output_observations xs @ output_observations ys"
  by (simp_all add: output_observations_def)

definition observed_range :: "canonical_observation \<Rightarrow> nat \<times> nat" where
  "observed_range x = (co_first_sequence x, co_final_sequence x)"

definition ownership_changes :: "(canonical_output_record \<times> string) list \<Rightarrow> nat" where
  "ownership_changes rs = length (filter (\<lambda>(r, d). cr_action r = OutOwnershipChanged) rs)"

lemma contiguous_ranges_snoc:
  assumes "contiguous_ranges k l rs m" "fst x \<le> m + 1" "m + 1 \<le> snd x" "k = Trade \<longrightarrow> fst x = m + 1 \<and> snd x = m + 1"
  shows "contiguous_ranges k l (rs @ [x]) (snd x)"
  using assms
proof (induction rs arbitrary: l)
  case Nil
  then show ?case by (cases x) simp
next
  case (Cons y rs)
  then show ?case by (cases y) simp
qed

text \<open>The state a list of accepted records leads to, described by the records.\<close>

definition output_state_ok :: "(canonical_output_record \<times> string) list \<Rightarrow> output_scan_state \<Rightarrow> bool" where
  "output_state_ok rs st \<longleftrightarrow>
     (\<exists>first owner kind symbol. cr_action (fst (hd rs)) = OutInitialized \<and> cr_owner (fst (hd rs)) = first
        \<and> cx_owner st = Some owner \<and> cx_kind st = Some kind \<and> cx_symbol st = Some symbol
        \<and> validate_output_identity symbol owner = Ok ()
        \<and> contiguous_ranges kind (oo_last_sequence first) (map observed_range (output_observations rs)) (oo_last_sequence owner)
        \<and> oo_fencing_token owner = oo_fencing_token first + ownership_changes rs
        \<and> cx_observations st = length (output_observations rs) \<and> cx_ownership_changes st = ownership_changes rs
        \<and> cx_last_observation st = (if output_observations rs = [] then None else Some (last (output_observations rs)))
        \<and> (\<forall>(r, d)\<in>set rs. cr_symbol r = symbol \<and> cr_stream_kind r = kind
             \<and> (\<forall>x. cr_observation r = Some x \<longrightarrow>
                  co_symbol x = symbol \<and> co_stream_kind x = kind \<and> co_connection_epoch x = oo_connection_epoch (cr_owner r))))"

lemma output_first_ok:
  assumes "output_scan_step r d output_scan_start = (Inr u, st)"
  shows "output_state_ok [(r, d)] st"
proof -
  note v = output_step_Ok [OF assms]
  have a: "cr_action r = OutInitialized" "cr_observation r = None" "validate_output_identity (cr_symbol r) (cr_owner r) = Ok ()"
    using v by (auto simp: validate_output_record_def output_scan_start_def split: if_splits canonical_output_action.splits)
  then show ?thesis using assms v
    by (auto simp: output_scan_step_def output_state_ok_def output_scan_start_def ownership_changes_def output_observations_def)
qed

lemma output_state_step:
  assumes "output_state_ok rs st" "rs \<noteq> []" "0 < cx_records st" "output_scan_step r d st = (Inr u, st')"
  shows "output_state_ok (rs @ [(r, d)]) st'"
proof -
  note v = output_step_Ok [OF assms(4)]
  obtain owner kind symbol where o: "cx_owner st = Some owner" "cx_kind st = Some kind" "cx_symbol st = Some symbol"
    and ih: "cr_action (fst (hd rs)) = OutInitialized"
      "contiguous_ranges kind (oo_last_sequence (cr_owner (fst (hd rs)))) (map observed_range (output_observations rs)) (oo_last_sequence owner)"
      "oo_fencing_token owner = oo_fencing_token (cr_owner (fst (hd rs))) + ownership_changes rs"
      "cx_observations st = length (output_observations rs)" "cx_ownership_changes st = ownership_changes rs"
      "cx_last_observation st = (if output_observations rs = [] then None else Some (last (output_observations rs)))"
      "\<forall>(r, d)\<in>set rs. cr_symbol r = symbol \<and> cr_stream_kind r = kind \<and> (\<forall>x. cr_observation r = Some x \<longrightarrow>
          co_symbol x = symbol \<and> co_stream_kind x = kind \<and> co_connection_epoch x = oo_connection_epoch (cr_owner r))"
    using assms(1) unfolding output_state_ok_def by blast
  have hd: "hd (rs @ [(r, d)]) = hd rs" using assms(2) by simp
  have r: "cr_symbol r = symbol" "cr_stream_kind r = kind" "validate_output_identity symbol (cr_owner r) = Ok ()"
    "oo_fencing_token (cr_owner r) \<noteq> 0"
    using v o by (auto simp: validate_output_record_def validate_output_identity_def split: if_splits)
  show ?thesis
  proof (cases "cr_action r")
    case OutInitialized
    then show ?thesis using v assms(3) by (auto simp: validate_output_record_def split: if_splits)
  next
    case OutObservation
    obtain x where x: "cr_observation r = Some x" "output_continuous kind (oo_last_sequence owner + 1) x" "co_symbol x = symbol"
      "co_stream_kind x = kind" "co_connection_epoch x = oo_connection_epoch owner"
      "oo_connection_epoch (cr_owner r) = oo_connection_epoch owner" "oo_fencing_token (cr_owner r) = oo_fencing_token owner"
      "oo_last_sequence (cr_owner r) = co_final_sequence x"
      using v o r OutObservation by (auto simp: validate_output_record_def split: if_splits)
    have obs: "output_observations (rs @ [(r, d)]) = output_observations rs @ [x]"
      using x(1) by (simp add: output_observations_def)
    have ch: "ownership_changes (rs @ [(r, d)]) = ownership_changes rs" using OutObservation by (simp add: ownership_changes_def)
    have con: "contiguous_ranges kind (oo_last_sequence (cr_owner (fst (hd rs))))
        (map observed_range (output_observations rs) @ [observed_range x]) (co_final_sequence x)"
      using contiguous_ranges_snoc [OF ih(2), of "observed_range x"] x(2)
      by (cases kind) (simp_all add: observed_range_def output_continuous_def)
    have st': "st' = st\<lparr>cx_observations := cx_observations st + 1, cx_last_observation := Some x, cx_owner := Some (cr_owner r),
        cx_previous := d, cx_records := cx_records st + 1\<rparr>"
      using assms(4) v OutObservation o x(1) by (cases st) (simp add: output_scan_step_def)
    show ?thesis unfolding output_state_ok_def hd obs ch st'
      using ih o r x con by (intro exI [of _ "cr_owner (fst (hd rs))"] exI [of _ "cr_owner r"] exI [of _ kind] exI [of _ symbol]) auto
  next
    case OutOwnershipChanged
    have c: "cr_observation r = None" "oo_last_sequence (cr_owner r) = oo_last_sequence owner"
      "oo_fencing_token (cr_owner r) = next_fencing_token (oo_fencing_token owner)"
      using v o OutOwnershipChanged by (auto simp: validate_output_record_def split: if_splits)
    have tok: "oo_fencing_token (cr_owner r) = oo_fencing_token owner + 1"
      using c(3) r(4) by (simp add: next_fencing_token_def checked_add_def split: if_splits)
    have obs: "output_observations (rs @ [(r, d)]) = output_observations rs"
      using c(1) by (simp add: output_observations_def)
    have ch: "ownership_changes (rs @ [(r, d)]) = ownership_changes rs + 1"
      using OutOwnershipChanged by (simp add: ownership_changes_def)
    have st': "st' = st\<lparr>cx_ownership_changes := cx_ownership_changes st + 1, cx_owner := Some (cr_owner r),
        cx_previous := d, cx_records := cx_records st + 1\<rparr>"
      using assms(4) v OutOwnershipChanged o by (cases st) (simp add: output_scan_step_def)
    show ?thesis unfolding output_state_ok_def hd obs ch st'
      using ih o r c tok
      by (intro exI [of _ "cr_owner (fst (hd rs))"] exI [of _ "cr_owner r"] exI [of _ kind] exI [of _ symbol]) auto
  qed
qed

lemma accepted_output_ok:
  assumes "run_steps output_scan_step rs output_scan_start = Some st" "rs \<noteq> []"
  shows "output_state_ok rs st"
  using assms
proof (induction rs arbitrary: st rule: rev_induct)
  case (snoc x rs)
  obtain r d where x: "x = (r, d)" by (cases x)
  obtain st0 where s: "run_steps output_scan_step rs output_scan_start = Some st0" "output_scan_step r d st0 = (Inr (), st)"
    using snoc.prems(1) x by (auto simp: run_steps_append split: option.splits prod.splits sum.splits)
  show ?case
  proof (cases "rs = []")
    case True
    then show ?thesis using s output_first_ok x by simp
  next
    case False
    then have "0 < cx_records st0" using output_log.run_linked [OF s(1)] by (simp add: output_scan_start_def)
    then show ?thesis using output_state_step [OF snoc.IH [OF s(1) False] False _ s(2)] x by simp
  qed
qed simp

text \<open>
  C28. Whatever file is scanned, the part of it the scan reports as good is one contiguous published
  stream: it starts with an initial owner, every observation continues the one before it without a gap,
  also across ownership changes, and carries the connection epoch of the owner of its record, every
  ownership change adds one to the fencing token, and the reported counts, owner and last observation are
  those of the records.
\<close>

theorem scanned_output_contiguous:
  assumes "scan_canonical_output E from_slice bs = Ok scan" "0 < cn_records scan"
  shows "\<exists>bodies rs first owner kind. take (cn_last_good_offset scan) bs = OUTPUT_MAGIC @ frame_bytes E bodies
    \<and> rs = frames_of E from_slice bodies \<and> length rs = cn_records scan
    \<and> cr_action (fst (hd rs)) = OutInitialized \<and> cr_owner (fst (hd rs)) = first
    \<and> cn_owner scan = Some owner \<and> cn_stream_kind scan = Some kind
    \<and> contiguous_ranges kind (oo_last_sequence first) (map observed_range (output_observations rs)) (oo_last_sequence owner)
    \<and> oo_fencing_token owner = oo_fencing_token first + ownership_changes rs
    \<and> cn_observations scan = length (output_observations rs) \<and> cn_ownership_changes scan = ownership_changes rs
    \<and> cn_last_observation scan = (if output_observations rs = [] then None else Some (last (output_observations rs)))
    \<and> (\<forall>(r, d)\<in>set rs. \<forall>x. cr_observation r = Some x \<longrightarrow> co_connection_epoch x = oo_connection_epoch (cr_owner r))"
proof -
  obtain bodies rest st where b: "bs = OUTPUT_MAGIC @ frame_bytes E bodies @ rest"
    "frames_fit OUTPUT_MAX_RECORD_BYTES (nonempty_body from_slice) bodies"
    "run_steps output_scan_step (frames_of E (nonempty_body from_slice) bodies) output_scan_start = Some st"
    "scanned_as st scan" "cn_last_good_offset scan = 8 + length (frame_bytes E bodies)"
    by (rule scan_output_Ok [OF assms(1)])
  have rs: "frames_of E (nonempty_body from_slice) bodies = frames_of E from_slice bodies"
    using b(2) by (auto simp: frames_of_def frames_fit_def nonempty_body_def)
  have n: "length (frames_of E from_slice bodies) = cn_records scan"
    using output_log.run_linked [OF b(3)] b(4) rs by (simp add: scanned_as_def output_scan_start_def)
  have "frames_of E from_slice bodies \<noteq> []" using n assms(2) by auto
  then have ok: "output_state_ok (frames_of E from_slice bodies) st" using accepted_output_ok [OF b(3)] rs by simp
  have t: "take (cn_last_good_offset scan) bs = OUTPUT_MAGIC @ frame_bytes E bodies" unfolding b(1,5) by simp
  obtain owner kind symbol where o: "cx_owner st = Some owner" "cx_kind st = Some kind"
      "cr_action (fst (hd (frames_of E from_slice bodies))) = OutInitialized"
      "contiguous_ranges kind (oo_last_sequence (cr_owner (fst (hd (frames_of E from_slice bodies)))))
         (map observed_range (output_observations (frames_of E from_slice bodies))) (oo_last_sequence owner)"
      "oo_fencing_token owner
         = oo_fencing_token (cr_owner (fst (hd (frames_of E from_slice bodies)))) + ownership_changes (frames_of E from_slice bodies)"
      "cx_observations st = length (output_observations (frames_of E from_slice bodies))"
      "cx_ownership_changes st = ownership_changes (frames_of E from_slice bodies)"
      "cx_last_observation st = (if output_observations (frames_of E from_slice bodies) = [] then None
         else Some (last (output_observations (frames_of E from_slice bodies))))"
      "\<forall>(r, d)\<in>set (frames_of E from_slice bodies). cr_symbol r = symbol \<and> cr_stream_kind r = kind \<and> (\<forall>x. cr_observation r = Some x \<longrightarrow>
          co_symbol x = symbol \<and> co_stream_kind x = kind \<and> co_connection_epoch x = oo_connection_epoch (cr_owner r))"
    using ok unfolding output_state_ok_def by blast
  have "\<forall>(r, d)\<in>set (frames_of E from_slice bodies). \<forall>x. cr_observation r = Some x \<longrightarrow>
      co_connection_epoch x = oo_connection_epoch (cr_owner r)" using o(9) by fastforce
  then show ?thesis using n t o(1-8) b(4) unfolding scanned_as_def
    by (intro exI [of _ bodies] exI [of _ "frames_of E from_slice bodies"]
        exI [of _ "cr_owner (fst (hd (frames_of E from_slice bodies)))"] exI [of _ owner] exI [of _ kind] conjI) simp_all
qed

end
