(* ===== verification/Canonical_Output_Crash.thy ===== *)
theory Canonical_Output_Crash
  imports Canonical_Output_Safety
begin

text \<open>
  The writer of the canonical output: what its file holds after any sequence of publications and
  ownership changes on a sink that may fail, what a crash can leave of it, and the writer a resume gives.
\<close>

section \<open>Operations\<close>

datatype output_op = PublishObservation canonical_observation | ChangeOwner string string nat nat string

fun output_step ::
  "'v externals \<Rightarrow> (canonical_output_record \<Rightarrow> bytes) \<Rightarrow> output_op \<Rightarrow> canonical_output_writer
     \<Rightarrow> canonical_output_ack res \<times> canonical_output_writer" where
  "output_step E to_vec (PublishObservation x) w = publish E to_vec x w"
| "output_step E to_vec (ChangeOwner g e t b a) w = change_owner E to_vec g e t b a w"

fun output_run ::
  "'v externals \<Rightarrow> (canonical_output_record \<Rightarrow> bytes) \<Rightarrow> output_op list \<Rightarrow> canonical_output_writer
     \<Rightarrow> (output_op \<times> canonical_output_ack res) list \<times> canonical_output_writer" where
  "output_run E to_vec [] w = ([], w)"
| "output_run E to_vec (op # ops) w =
     (let (r, w1) = output_step E to_vec op w; (log, w2) = output_run E to_vec ops w1 in ((op, r) # log, w2))"

fun acknowledged :: "(output_op \<times> canonical_output_ack res) list \<Rightarrow> canonical_observation list" where
  "acknowledged ((PublishObservation x, Inr a) # log) = x # acknowledged log"
| "acknowledged (_ # log) = acknowledged log"
| "acknowledged [] = []"

definition output_bounded :: "canonical_output_writer \<Rightarrow> bool" where
  "output_bounded w \<longleftrightarrow> length (sk_data (cw_sink w)) \<le> u64_max"

section \<open>Appending one record\<close>

definition output_bodies ::
  "'v externals \<Rightarrow> (bytes \<Rightarrow> canonical_output_record option) \<Rightarrow> bytes list \<Rightarrow> output_scan_state \<Rightarrow> bool" where
  "output_bodies E from_slice bodies st \<longleftrightarrow>
     frames_fit OUTPUT_MAX_RECORD_BYTES (nonempty_body from_slice) bodies
     \<and> run_steps output_scan_step (frames_of E (nonempty_body from_slice) bodies) output_scan_start = Some st"

abbreviation body_observations where
  "body_observations E from_slice bodies \<equiv> output_observations (frames_of E (nonempty_body from_slice) bodies)"

definition output_file ::
  "'v externals \<Rightarrow> (bytes \<Rightarrow> canonical_output_record option) \<Rightarrow> canonical_output_writer \<Rightarrow> bytes list \<Rightarrow> output_scan_state \<Rightarrow> bool" where
  "output_file E from_slice w bodies st \<longleftrightarrow> output_bodies E from_slice bodies st
     \<and> cx_records st = cw_record_count w \<and> cx_previous st = cw_previous_digest w
     \<and> cw_end_offset w = 8 + length (frame_bytes E bodies) \<and> cw_end_offset w \<le> sk_synced (cw_sink w)"

definition output_whole :: "'v externals \<Rightarrow> canonical_output_writer \<Rightarrow> bytes list \<Rightarrow> bool" where
  "output_whole E w bodies \<longleftrightarrow> sk_data (cw_sink w) = OUTPUT_MAGIC @ frame_bytes E bodies"

lemma output_bodies_snoc:
  assumes "output_bodies E from_slice bodies st" "record_round_trip to_vec from_slice" "nonempty_codec to_vec"
    "length (to_vec r) \<le> OUTPUT_MAX_RECORD_BYTES" "output_scan_step r (sha256_hex E (to_vec r)) st = (Ok (), st')"
  shows "output_bodies E from_slice (bodies @ [to_vec r]) st'"
    and "body_observations E from_slice (bodies @ [to_vec r])
      = body_observations E from_slice bodies @ (case cr_observation r of None \<Rightarrow> [] | Some x \<Rightarrow> [x])"
proof -
  have p: "nonempty_body from_slice (to_vec r) = Some r"
    using assms(2,3) by (simp add: nonempty_body_def record_round_trip_def nonempty_codec_def)
  show "output_bodies E from_slice (bodies @ [to_vec r]) st'"
    using assms(1,4,5) p
    by (auto simp: output_bodies_def frames_fit_def frames_of_def run_steps_append OUTPUT_MAX_RECORD_BYTES_def)
  show "body_observations E from_slice (bodies @ [to_vec r])
      = body_observations E from_slice bodies @ (case cr_observation r of None \<Rightarrow> [] | Some x \<Rightarrow> [x])"
    using p by (simp add: frames_of_def output_observations_def)
qed

lemma output_append_cases:
  assumes "sha256_len32 E" "output_file E from_slice w bodies st" "\<not> cw_poisoned w \<longrightarrow> output_whole E w bodies"
    "output_append E to_vec r w = (res, w')" "output_bounded w'"
  obtains (same) e where "res = Err e" "w' = w"
  | (torn) e sk k where "res = Err e" "w' = w\<lparr>cw_sink := sk, cw_poisoned := True\<rparr>" "\<not> cw_poisoned w"
      "length (to_vec r) \<le> OUTPUT_MAX_RECORD_BYTES"
      "sk_data sk = sk_data (cw_sink w) @ take k (encode_frame E (to_vec r))" "sk_synced sk = sk_synced (cw_sink w)"
  | (acked) ack sk where "res = Ok ack" "\<not> cw_poisoned w" "length (to_vec r) \<le> OUTPUT_MAX_RECORD_BYTES"
      "w' = w\<lparr>cw_sink := sk, cw_record_count := cw_record_count w + 1,
         cw_end_offset := cw_end_offset w + length (encode_frame E (to_vec r)),
         cw_previous_digest := sha256_hex E (to_vec r)\<rparr>"
      "sk_data sk = sk_data (cw_sink w) @ encode_frame E (to_vec r)" "sk_synced sk = length (sk_data sk)"
proof (cases "cw_poisoned w \<or> OUTPUT_MAX_RECORD_BYTES < length (to_vec r)")
  case True
  then show ?thesis using assms(4) same by (cases "cw_poisoned w") (auto simp: output_append_def Let_def)
next
  case False
  then have u: "\<not> cw_poisoned w" "length (to_vec r) \<le> OUTPUT_MAX_RECORD_BYTES" by auto
  obtain ok sk where wf: "write_frame E (to_vec r) (cw_sink w) = (ok, sk)" by fastforce
  show ?thesis
  proof (cases ok)
    case True
    have d: "sk_data sk = sk_data (cw_sink w) @ encode_frame E (to_vec r)" "sk_synced sk = length (sk_data sk)"
      using write_frame_True wf True by auto
    have "cw_sink w' = sk" using assms(4) u wf True by (auto simp: output_append_def Let_def split: sum.splits)
    then have b: "8 + length (frame_bytes E bodies) + length (encode_frame E (to_vec r)) \<le> u64_max"
      using assms(3,5) u(1) d by (simp add: output_bounded_def output_whole_def)
    have "cx_records st = length bodies"
      using assms(2) output_log.run_linked [of "frames_of E (nonempty_body from_slice) bodies" output_scan_start st]
      by (simp add: output_file_def output_bodies_def output_scan_start_def frames_of_def)
    then have c: "cw_record_count w + 1 \<le> u64_max"
      using count_le_bytes [OF assms(1), of bodies] b assms(2) by (simp add: output_file_def)
    have "output_append E to_vec r w = (Ok \<lparr>ca_schema = ''CanonicalOutputAckV1'', ca_action = cr_action r,
          ca_durable_record_count = cw_record_count w + 1,
          ca_durable_through_offset = cw_end_offset w + length (encode_frame E (to_vec r)),
          ca_last_record_sha256 = sha256_hex E (to_vec r), ca_owner = cr_owner r\<rparr>,
        w\<lparr>cw_sink := sk, cw_record_count := cw_record_count w + 1,
          cw_end_offset := cw_end_offset w + length (encode_frame E (to_vec r)),
          cw_previous_digest := sha256_hex E (to_vec r)\<rparr>)"
      using u wf True b c assms(2) by (simp add: output_append_def Let_def add_u64_def output_file_def)
    then show ?thesis using assms(4) by (intro acked [OF _ u _ d]) simp_all
  next
    case False
    obtain k where "sk_data sk = sk_data (cw_sink w) @ take k (encode_frame E (to_vec r))"
      "sk_synced sk = sk_synced (cw_sink w)" using write_frame_False [of E "to_vec r" "cw_sink w" sk] wf False by auto
    then show ?thesis using assms(4) u wf False by (intro torn [of _ sk k]) (auto simp: output_append_def Let_def)
  qed
qed

section \<open>The invariant\<close>

definition output_view :: "canonical_output_writer \<Rightarrow> output_scan_state \<Rightarrow> bool" where
  "output_view w st \<longleftrightarrow> cx_symbol st = Some (cw_symbol w) \<and> cx_kind st = Some (cw_stream_kind w)
     \<and> cx_owner st = Some (cw_owner w)"

text \<open>\<open>tried\<close>: the observations given to \<open>publish\<close> so far.\<close>

definition output_inv ::
  "'v externals \<Rightarrow> (bytes \<Rightarrow> canonical_output_record option) \<Rightarrow> (canonical_observation \<Rightarrow> bool) \<Rightarrow> canonical_output_writer
     \<Rightarrow> bytes list \<Rightarrow> output_scan_state \<Rightarrow> bool" where
  "output_inv E from_slice tried w bodies st \<longleftrightarrow>
     output_file E from_slice w bodies st \<and> output_view w st \<and> bodies \<noteq> []
     \<and> (output_whole E w bodies
        \<or> cw_poisoned w \<and> (\<exists>body st' k extra. output_bodies E from_slice (bodies @ [body]) st'
             \<and> body_observations E from_slice (bodies @ [body]) = body_observations E from_slice bodies @ extra
             \<and> (\<forall>x\<in>set extra. tried x) \<and> length extra \<le> 1
             \<and> sk_data (cw_sink w) = OUTPUT_MAGIC @ frame_bytes E bodies @ take k (encode_frame E body)))"

lemma output_inv_whole: "output_inv E from_slice tried w bodies st \<Longrightarrow> \<not> cw_poisoned w \<longrightarrow> output_whole E w bodies"
  by (auto simp: output_inv_def)

text \<open>A record the scan would accept, appended: either nothing but the sink changes, or it is acknowledged.\<close>

lemma output_append_inv:
  assumes "sha256_len32 E" "record_round_trip to_vec from_slice" "nonempty_codec to_vec"
    and "output_inv E from_slice tried w bodies st" "output_append E to_vec r w = (res, w')" "output_bounded w'"
    and "output_scan_step r (sha256_hex E (to_vec r)) st = (Ok (), st')" "\<forall>x. cr_observation r = Some x \<longrightarrow> tried x"
    and "cr_symbol r = cw_symbol w" "cr_stream_kind r = cw_stream_kind w"
  shows "case res of
      Inl e \<Rightarrow> output_inv E from_slice tried w' bodies st
    | Inr ack \<Rightarrow> output_inv E from_slice tried (w'\<lparr>cw_owner := cr_owner r\<rparr>) (bodies @ [to_vec r]) st'
        \<and> body_observations E from_slice (bodies @ [to_vec r])
            = body_observations E from_slice bodies @ (case cr_observation r of None \<Rightarrow> [] | Some x \<Rightarrow> [x])"
proof -
  have fl: "output_file E from_slice w bodies st" and view: "output_view w st" and ne: "bodies \<noteq> []"
    using assms(4) by (simp_all add: output_inv_def)
  have bod: "output_bodies E from_slice bodies st" using fl by (simp add: output_file_def)
  note snoc = output_bodies_snoc [OF bod assms(2,3) _ assms(7)]
  show ?thesis
  proof (cases rule: output_append_cases [OF assms(1) fl output_inv_whole [OF assms(4)] assms(5,6), case_names same torn acked])
    case (same e)
    then show ?thesis using assms(4) by simp
  next
    case (torn e sk k)
    define extra where "extra = (case cr_observation r of None \<Rightarrow> [] | Some x \<Rightarrow> [x])"
    have tr: "\<forall>x\<in>set extra. tried x" "length extra \<le> 1" using assms(8) by (auto simp: extra_def split: option.splits)
    have "output_whole E w bodies" using output_inv_whole [OF assms(4)] torn(3) by blast
    then have d: "sk_data (cw_sink w') = OUTPUT_MAGIC @ frame_bytes E bodies @ take k (encode_frame E (to_vec r))"
      using torn(2,5) by (simp add: output_whole_def)
    have "output_file E from_slice w' bodies st" "output_view w' st" "cw_poisoned w'"
      using torn(2,6) fl view by (simp_all add: output_file_def output_view_def)
    then have "output_inv E from_slice tried w' bodies st" unfolding output_inv_def
      using snoc [OF torn(4), folded extra_def] tr d ne
      by (intro conjI disjI2 exI [of _ "to_vec r"] exI [of _ st'] exI [of _ k] exI [of _ extra])
    then show ?thesis using torn(1) by simp
  next
    case (acked ack sk)
    have w: "output_whole E w bodies" using output_inv_whole [OF assms(4)] acked(2) by blast
    have "cx_records st' = cx_records st + 1" "cx_previous st' = sha256_hex E (to_vec r)"
      using output_step_chains [OF assms(7)] by simp_all
    moreover have "cx_symbol st' = cx_symbol st" "cx_kind st' = cx_kind st" "cx_owner st' = Some (cr_owner r)"
      using assms(7) view
      by (auto simp: output_scan_step_def output_view_def Let_def split: sum.splits canonical_output_action.splits)
    ultimately have "output_inv E from_slice tried (w'\<lparr>cw_owner := cr_owner r\<rparr>) (bodies @ [to_vec r]) st'"
      using snoc(1) [OF acked(3)] acked w fl view
      by (simp add: output_inv_def output_file_def output_view_def output_whole_def)
    then show ?thesis using snoc(2) [OF acked(3)] acked(1) by simp
  qed
qed

section \<open>The operations\<close>

lemma output_inv_identity:
  assumes "output_inv E from_slice tried w bodies st"
  shows "validate_output_identity (cw_symbol w) (cw_owner w) = Ok ()"
proof -
  have "output_state_ok (frames_of E (nonempty_body from_slice) bodies) st"
    using assms by (intro accepted_output_ok) (auto simp: output_inv_def output_file_def output_bodies_def frames_of_def)
  then show ?thesis using assms by (auto simp: output_state_ok_def output_inv_def output_view_def)
qed

lemma output_inv_st:
  assumes "output_inv E from_slice tried w bodies st"
  shows "cx_records st = cw_record_count w" "cx_previous st = cw_previous_digest w" "cx_symbol st = Some (cw_symbol w)"
    "cx_kind st = Some (cw_stream_kind w)" "cx_owner st = Some (cw_owner w)"
  using assms by (simp_all add: output_inv_def output_file_def output_view_def)

lemma publish_accepted:
  assumes "output_inv E from_slice tried w bodies st" "checked_add (oo_last_sequence (cw_owner w)) 1 = Some expected"
    "output_continuous (cw_stream_kind w) expected x" "co_symbol x = cw_symbol w" "co_stream_kind x = cw_stream_kind w"
    "co_connection_epoch x = oo_connection_epoch (cw_owner w)"
    "r = output_record OutObservation ((cw_owner w)\<lparr>oo_last_sequence := co_final_sequence x\<rparr>) (Some x) None w"
  shows "\<exists>st'. output_scan_step r d st = (Ok (), st')"
proof -
  have "validate_output_record r st = Ok ()"
    using assms(2-7) output_inv_identity [OF assms(1)] output_inv_st [OF assms(1)]
    by (simp add: validate_output_record_def output_record_def validate_output_identity_def split: if_splits)
  then show ?thesis by (simp add: output_scan_step_def Let_def)
qed

lemma change_owner_accepted:
  assumes "output_inv E from_slice tried w bodies st" "\<not> trim_is_empty generation" "\<not> trim_is_empty epoch"
    "generation \<noteq> oo_generation_id (cw_owner w)" "epoch \<noteq> oo_connection_epoch (cw_owner w)"
    "token = next_fencing_token (oo_fencing_token (cw_owner w))" "token \<noteq> 0" "valid_digest activation"
    "r = output_record OutOwnershipChanged \<lparr>oo_generation_id = generation, oo_connection_epoch = epoch,
       oo_fencing_token = token, oo_last_sequence = oo_last_sequence (cw_owner w)\<rparr> None (Some activation) w"
  shows "\<exists>st'. output_scan_step r d st = (Ok (), st')"
proof -
  have "validate_output_record r st = Ok ()"
    using assms(2-9) output_inv_identity [OF assms(1)] output_inv_st [OF assms(1)]
    by (simp add: validate_output_record_def output_record_def validate_output_identity_def split: if_splits)
  then show ?thesis by (simp add: output_scan_step_def Let_def)
qed

text \<open>What a step adds to the published observations.\<close>

definition output_codec ::
  "'v externals \<Rightarrow> (canonical_output_record \<Rightarrow> bytes) \<Rightarrow> (bytes \<Rightarrow> canonical_output_record option) \<Rightarrow> bool" where
  "output_codec E to_vec from_slice \<longleftrightarrow>
     sha256_len32 E \<and> record_round_trip to_vec from_slice \<and> nonempty_codec to_vec"

lemma publish_inv:
  assumes "output_codec E to_vec from_slice" "output_inv E from_slice tried w bodies st" "publish E to_vec x w = (res, w')"
    "output_bounded w'" "tried x"
  shows "\<exists>bodies' st'. output_inv E from_slice tried w' bodies' st' \<and> body_observations E from_slice bodies'
    = body_observations E from_slice bodies @ acknowledged [(PublishObservation x, res)]"
proof (cases "co_symbol x = cw_symbol w \<and> co_stream_kind x = cw_stream_kind w
    \<and> co_connection_epoch x = oo_connection_epoch (cw_owner w)
    \<and> (\<exists>expected. checked_add (oo_last_sequence (cw_owner w)) 1 = Some expected
          \<and> output_continuous (cw_stream_kind w) expected x)")
  case False
  then have "w' = w" "\<exists>e. res = Err e" using assms(3) by (auto simp: publish_def split: if_splits option.splits)
  then show ?thesis using assms(2) by auto
next
  case True
  then obtain expected where g: "co_symbol x = cw_symbol w" "co_stream_kind x = cw_stream_kind w"
    "co_connection_epoch x = oo_connection_epoch (cw_owner w)"
    "checked_add (oo_last_sequence (cw_owner w)) 1 = Some expected" "output_continuous (cw_stream_kind w) expected x" by blast
  define r where "r = output_record OutObservation ((cw_owner w)\<lparr>oo_last_sequence := co_final_sequence x\<rparr>) (Some x) None w"
  obtain res1 w1 where a: "output_append E to_vec r w = (res1, w1)" by fastforce
  obtain st' where st': "output_scan_step r (sha256_hex E (to_vec r)) st = (Ok (), st')"
    using publish_accepted [OF assms(2) g(4,5,1,2,3) r_def] by blast
  have pub: "publish E to_vec x w = (case res1 of Inl e \<Rightarrow> (Err e, w1) | Inr ack \<Rightarrow> (Ok ack, w1\<lparr>cw_owner := cr_owner r\<rparr>))"
    using g a by (simp add: publish_def r_def output_record_def Let_def checked_add_def split: sum.splits)
  have b: "output_bounded w1" using assms(3,4) pub by (auto simp: output_bounded_def split: sum.splits)
  have c: "sha256_len32 E" "record_round_trip to_vec from_slice" "nonempty_codec to_vec"
    using assms(1) by (simp_all add: output_codec_def)
  have rr: "\<forall>y. cr_observation r = Some y \<longrightarrow> tried y" "cr_symbol r = cw_symbol w" "cr_stream_kind r = cw_stream_kind w"
    "cr_observation r = Some x" using assms(5) by (simp_all add: r_def output_record_def)
  note i = output_append_inv [OF c assms(2) a b st' rr(1-3)]
  show ?thesis
  proof (cases res1)
    case (Inl e)
    then show ?thesis using i assms(3) pub by auto
  next
    case (Inr ack)
    then show ?thesis using i assms(3) pub rr(4) by auto
  qed
qed

lemma change_owner_inv:
  assumes "output_codec E to_vec from_slice" "output_inv E from_slice tried w bodies st"
    "change_owner E to_vec g e t b a w = (res, w')" "output_bounded w'" "t \<noteq> 0"
  shows "\<exists>bodies' st'. output_inv E from_slice tried w' bodies' st' \<and> body_observations E from_slice bodies'
    = body_observations E from_slice bodies"
proof (cases "trim_is_empty g \<or> trim_is_empty e \<or> g = oo_generation_id (cw_owner w)
         \<or> e = oo_connection_epoch (cw_owner w) \<or> t \<noteq> next_fencing_token (oo_fencing_token (cw_owner w))
         \<or> b \<noteq> oo_last_sequence (cw_owner w) \<or> \<not> valid_digest a")
  case True
  then have "w' = w" using assms(3) by (simp add: change_owner_def)
  then show ?thesis using assms(2) by auto
next
  case False
  define r where "r = output_record OutOwnershipChanged \<lparr>oo_generation_id = g, oo_connection_epoch = e, oo_fencing_token = t,
       oo_last_sequence = oo_last_sequence (cw_owner w)\<rparr> None (Some a) w"
  obtain res1 w1 where ap: "output_append E to_vec r w = (res1, w1)" by fastforce
  have "\<not> trim_is_empty g" "\<not> trim_is_empty e" "g \<noteq> oo_generation_id (cw_owner w)" "e \<noteq> oo_connection_epoch (cw_owner w)"
    "t = next_fencing_token (oo_fencing_token (cw_owner w))" "valid_digest a" using False by auto
  then obtain st' where st': "output_scan_step r (sha256_hex E (to_vec r)) st = (Ok (), st')"
    using change_owner_accepted [OF assms(2) _ _ _ _ _ assms(5) _ r_def] by blast
  have ch: "change_owner E to_vec g e t b a w = (case res1 of Inl e \<Rightarrow> (Err e, w1) | Inr ack \<Rightarrow> (Ok ack, w1\<lparr>cw_owner := cr_owner r\<rparr>))"
    using False ap by (simp add: change_owner_def r_def output_record_def split: sum.splits)
  have bd: "output_bounded w1" using assms(3,4) ch by (auto simp: output_bounded_def split: sum.splits)
  have c: "sha256_len32 E" "record_round_trip to_vec from_slice" "nonempty_codec to_vec"
    using assms(1) by (simp_all add: output_codec_def)
  have rr: "\<forall>y. cr_observation r = Some y \<longrightarrow> tried y" "cr_symbol r = cw_symbol w" "cr_stream_kind r = cw_stream_kind w"
    "cr_observation r = None" by (simp_all add: r_def output_record_def)
  note i = output_append_inv [OF c assms(2) ap bd st' rr(1-3)]
  show ?thesis
  proof (cases res1)
    case (Inl x)
    then show ?thesis using i assms(3) ch by auto
  next
    case (Inr ack)
    then show ?thesis using i assms(3) ch rr(4) by auto
  qed
qed

lemma output_append_grows:
  "output_append E to_vec r w = (res, w') \<Longrightarrow> length (sk_data (cw_sink w)) \<le> length (sk_data (cw_sink w'))"
  using write_frame_True [of E "to_vec r" "cw_sink w"] write_frame_False [of E "to_vec r" "cw_sink w"]
  by (auto simp: output_append_def Let_def split: if_splits prod.splits bool.splits sum.splits)

lemma output_step_grows: "output_step E to_vec op w = (res, w') \<Longrightarrow> output_bounded w' \<Longrightarrow> output_bounded w"
  by (cases op)
    (auto simp: publish_def change_owner_def output_bounded_def Let_def split: if_splits option.splits prod.splits sum.splits
      dest!: output_append_grows)

lemma output_run_grows: "output_run E to_vec ops w = (log, w') \<Longrightarrow> output_bounded w' \<Longrightarrow> output_bounded w"
proof (induction ops arbitrary: w log)
  case (Cons op ops)
  obtain r w1 where s: "output_step E to_vec op w = (r, w1)" by fastforce
  have "output_bounded w1" using Cons s by (auto split: prod.splits)
  then show ?case using output_step_grows [OF s] by simp
qed simp

text \<open>A fencing token is never zero.\<close>

fun proper_op :: "output_op \<Rightarrow> bool" where
  "proper_op (ChangeOwner g e t b a) \<longleftrightarrow> t \<noteq> 0"
| "proper_op (PublishObservation x) \<longleftrightarrow> True"

lemma acknowledged_Cons: "acknowledged (x # log) = acknowledged [x] @ acknowledged log"
  by (cases x; cases "fst x"; cases "snd x") auto

lemma output_run_inv:
  assumes "output_codec E to_vec from_slice" "output_inv E from_slice tried w bodies st"
    "output_run E to_vec ops w = (log, w')" "output_bounded w'" "\<forall>x. PublishObservation x \<in> set ops \<longrightarrow> tried x"
    "list_all proper_op ops"
  shows "\<exists>bodies' st'. output_inv E from_slice tried w' bodies' st'
    \<and> body_observations E from_slice bodies' = body_observations E from_slice bodies @ acknowledged log"
  using assms(2-6)
proof (induction ops arbitrary: w log bodies st)
  case (Cons op ops)
  obtain r w1 where s: "output_step E to_vec op w = (r, w1)" by fastforce
  obtain log1 where t: "output_run E to_vec ops w1 = (log1, w')" "log = (op, r) # log1"
    using Cons.prems(2) s by (auto split: prod.splits)
  have b1: "output_bounded w1" by (rule output_run_grows [OF t(1) Cons.prems(3)])
  obtain bodies1 st1 where i1: "output_inv E from_slice tried w1 bodies1 st1"
    "body_observations E from_slice bodies1 = body_observations E from_slice bodies @ acknowledged [(op, r)]"
  proof (cases op)
    case (PublishObservation x)
    then show ?thesis using that publish_inv [OF assms(1) Cons.prems(1) _ b1, of x r] s Cons.prems(4) by auto
  next
    case (ChangeOwner g e t b a)
    then show ?thesis using that change_owner_inv [OF assms(1) Cons.prems(1) _ b1, of g e t b a r] s Cons.prems(5) by auto
  qed
  show ?case using Cons.IH [OF i1(1) t(1) Cons.prems(3)] i1(2) Cons.prems(4,5) t(2) acknowledged_Cons [of "(op, r)" log1] by auto
qed auto

section \<open>Creation\<close>

lemma output_start:
  assumes "output_codec E to_vec from_slice" "output_from_sink E to_vec sk symbol kind owner = Ok w" "sk_data sk = []"
    "output_bounded w"
  shows "\<exists>bodies st. output_inv E from_slice tried w bodies st \<and> body_observations E from_slice bodies = []"
proof -
  have c: "sha256_len32 E" "record_round_trip to_vec from_slice" "nonempty_codec to_vec"
    using assms(1) by (simp_all add: output_codec_def)
  define w0 where "w0 sk2 = \<lparr>cw_sink = sk2, cw_symbol = symbol, cw_stream_kind = kind, cw_owner = owner, cw_record_count = 0,
       cw_end_offset = length OUTPUT_MAGIC, cw_previous_digest = ZERO_DIGEST, cw_poisoned = False\<rparr>" for sk2
  obtain sk1 sk2 ack where f: "sink_write_all OUTPUT_MAGIC sk = (True, sk1)" "sink_sync sk1 = (True, sk2)"
    "validate_output_identity symbol owner = Ok ()"
    "output_append E to_vec (output_record OutInitialized owner None None (w0 sk2)) (w0 sk2) = (Ok ack, w)"
    using assms(2) unfolding output_from_sink_def Let_def w0_def by (auto split: prod.splits bool.splits sum.splits)
  have s: "sk_data sk2 = OUTPUT_MAGIC" "sk_synced sk2 = 8" "validate_output_identity symbol owner = Ok ()"
    using write_magic [OF f(1,2) assms(3)] f(3) by simp_all
  define r where "r = output_record OutInitialized owner None None (w0 sk2)"
  have fl: "output_file E from_slice (w0 sk2) [] output_scan_start"
    using s by (simp add: output_file_def output_bodies_def w0_def output_scan_start_def frames_fit_def frames_of_def)
  have wh: "\<not> cw_poisoned (w0 sk2) \<longrightarrow> output_whole E (w0 sk2) []" using s(1) by (simp add: output_whole_def w0_def)
  have ap': "output_append E to_vec r (w0 sk2) = (Ok ack, w)" using f(4) by (simp add: r_def)
  have v: "validate_output_record r output_scan_start = Ok ()"
    using s(3) by (simp add: validate_output_record_def r_def output_record_def w0_def output_scan_start_def)
  obtain st' where st': "output_scan_step r (sha256_hex E (to_vec r)) output_scan_start = (Ok (), st')"
    using v by (simp add: output_scan_step_def Let_def)
  have stv: "cx_symbol st' = Some symbol" "cx_kind st' = Some kind" "cx_owner st' = Some owner"
    using st' v by (auto simp: output_scan_step_def r_def output_record_def w0_def output_scan_start_def)
  have bod: "output_bodies E from_slice [] output_scan_start" using fl by (simp add: output_file_def)
  show ?thesis
  proof (cases rule: output_append_cases [OF c(1) fl wh ap' assms(4), case_names same torn acked])
    case (acked ack' sk3)
    note sn = output_bodies_snoc [OF bod c(2,3) acked(3) st']
    have "output_inv E from_slice tried w ([] @ [to_vec r]) st'"
      using sn(1) acked s stv output_step_chains [OF st'] fl
      by (simp add: output_inv_def output_file_def output_view_def output_whole_def w0_def output_scan_start_def)
    moreover have "body_observations E from_slice ([] @ [to_vec r]) = []"
      using sn(2) by (simp add: r_def output_record_def frames_of_def)
    ultimately show ?thesis by blast
  qed simp_all
qed

section \<open>Crashes, resuming and recovery\<close>

lemma output_crash_scan:
  assumes "sha256_len32 E" "output_inv E from_slice tried w bodies st" "sk_synced (cw_sink w) \<le> n"
  obtains scan bodies' st' extra where "scan_canonical_output E from_slice (take n (sk_data (cw_sink w))) = Ok scan"
    "scanned_as st' scan" "output_bodies E from_slice bodies' st'" "cn_last_good_offset scan = 8 + length (frame_bytes E bodies')"
    "take (cn_last_good_offset scan) (sk_data (cw_sink w)) = OUTPUT_MAGIC @ frame_bytes E bodies'"
    "body_observations E from_slice bodies' = body_observations E from_slice bodies @ extra" "\<forall>x\<in>set extra. tried x" "length extra \<le> 1"
    "\<not> cw_poisoned w \<Longrightarrow> bodies' = bodies \<and> st' = st \<and> cn_clean_eof scan"
proof -
  have fl: "output_bodies E from_slice bodies st" "8 + length (frame_bytes E bodies) \<le> n"
    using assms(2,3) by (simp_all add: output_inv_def output_file_def)
  have fr: "frames_fit OUTPUT_MAX_RECORD_BYTES (nonempty_body from_slice) bodies"
    "run_steps output_scan_step (frames_of E (nonempty_body from_slice) bodies) output_scan_start = Some st"
    using fl(1) by (simp_all add: output_bodies_def)
  show ?thesis
  proof (cases "output_whole E w bodies")
    case True
    then have im: "take n (sk_data (cw_sink w)) = OUTPUT_MAGIC @ frame_bytes E bodies" using fl(2) by (simp add: output_whole_def)
    have fs: "output_frame_scan E from_slice (frame_bytes E bodies) (length OUTPUT_MAGIC) output_scan_start
        = (st, length OUTPUT_MAGIC + length (frame_bytes E bodies), None)"
      by (rule scan_whole_journal [OF assms(1) fr])
    obtain scan where sc: "scan_canonical_output E from_slice (OUTPUT_MAGIC @ frame_bytes E bodies) = Ok scan"
      "scanned_as st scan" "cn_last_good_offset scan = 8 + length (frame_bytes E bodies)" "cn_clean_eof scan"
      using scan_output_frames [OF fs] by auto
    show ?thesis
      by (rule that [of scan st bodies "[]"]) (use sc im fl(1) True in \<open>simp_all add: output_whole_def\<close>)
  next
    case False
    then obtain body st1 k extra where t: "cw_poisoned w" "output_bodies E from_slice (bodies @ [body]) st1"
      "body_observations E from_slice (bodies @ [body]) = body_observations E from_slice bodies @ extra" "\<forall>x\<in>set extra. tried x" "length extra \<le> 1"
      "sk_data (cw_sink w) = OUTPUT_MAGIC @ frame_bytes E bodies @ take k (encode_frame E body)"
      using assms(2) unfolding output_inv_def by blast
    obtain j where j: "j \<le> k" "take n (sk_data (cw_sink w)) = OUTPUT_MAGIC @ frame_bytes E bodies @ take j (encode_frame E body)"
      using take_journal [of OUTPUT_MAGIC "frame_bytes E bodies" n k "encode_frame E body"] fl(2) t(6) by auto
    have fr1: "frames_fit OUTPUT_MAX_RECORD_BYTES (nonempty_body from_slice) (bodies @ [body])"
      "run_steps output_scan_step (frames_of E (nonempty_body from_slice) (bodies @ [body])) output_scan_start = Some st1"
      using t(2) by (simp_all add: output_bodies_def)
    show ?thesis
    proof (cases "j < length (encode_frame E body)")
      case True
      have fit: "length body \<le> OUTPUT_MAX_RECORD_BYTES" "length body < 256 ^ 4" using fr1(1) by (auto simp: frames_fit_def)
      obtain reason where cut: "output_frame_scan E from_slice (take j (encode_frame E body)) (8 + length (frame_bytes E bodies)) st
          = (st, 8 + length (frame_bytes E bodies), reason)"
        using frame_scan_cut [OF assms(1) fit True, where noun = "''output''" and parse = "nonempty_body from_slice"
            and step = output_scan_step and off = "8 + length (frame_bytes E bodies)" and s = st] by blast
      have fs: "output_frame_scan E from_slice (frame_bytes E bodies @ take j (encode_frame E body)) (length OUTPUT_MAGIC)
          output_scan_start = (st, 8 + length (frame_bytes E bodies), reason)"
        using cut frame_scan_written [OF assms(1) fr, of "''output''" "take j (encode_frame E body)" "length OUTPUT_MAGIC"] by simp
      obtain scan where sc: "scan_canonical_output E from_slice (take n (sk_data (cw_sink w))) = Ok scan"
        "scanned_as st scan" "cn_last_good_offset scan = 8 + length (frame_bytes E bodies)"
        using scan_output_frames [OF fs] j(2) by auto
      show ?thesis by (rule that [of scan st bodies "[]"]) (use sc fl(1) t(1,6) in simp_all)
    next
      case F: False
      then have whole: "take j (encode_frame E body) = encode_frame E body" "take k (encode_frame E body) = encode_frame E body"
        using j(1) by simp_all
      have fs: "output_frame_scan E from_slice (frame_bytes E (bodies @ [body])) (length OUTPUT_MAGIC) output_scan_start
          = (st1, length OUTPUT_MAGIC + length (frame_bytes E (bodies @ [body])), None)"
        by (rule scan_whole_journal [OF assms(1) fr1])
      obtain scan where sc: "scan_canonical_output E from_slice (take n (sk_data (cw_sink w))) = Ok scan"
        "scanned_as st1 scan" "cn_last_good_offset scan = 8 + length (frame_bytes E (bodies @ [body]))"
        using scan_output_frames [OF fs] j(2) whole(1) by auto
      show ?thesis by (rule that [of scan st1 "bodies @ [body]" extra]) (use sc t whole in simp_all)
    qed
  qed
qed

text \<open>
  C11. The canonical output survives crashes: after any sequence of publications and ownership changes on
  any sink, what a crash leaves of the file beyond its last sync still scans, and the observations in the
  part the scan reports as good are exactly the acknowledged ones in order, followed at most by one whose
  sync failed; and when no write failed the scan is clean and resuming from the file gives back the writer
  that stopped.
\<close>

theorem output_survives_crash:
  assumes "output_codec E to_vec from_slice" "output_from_sink E to_vec sk0 symbol kind owner = Ok w0" "sk_data sk0 = []"
    and "output_run E to_vec ops w0 = (log, w)" "list_all proper_op ops" "output_bounded w" "sk_synced (cw_sink w) \<le> n"
  shows "\<exists>scan bodies extra. scan_canonical_output E from_slice (take n (sk_data (cw_sink w))) = Ok scan
    \<and> take (cn_last_good_offset scan) (sk_data (cw_sink w)) = OUTPUT_MAGIC @ frame_bytes E bodies
    \<and> output_observations (frames_of E from_slice bodies) = acknowledged log @ extra
    \<and> (\<forall>x\<in>set extra. PublishObservation x \<in> set ops) \<and> length extra \<le> 1
    \<and> (\<not> cw_poisoned w \<longrightarrow> extra = [] \<and> cn_clean_eof scan
        \<and> output_resume E from_slice (take n (sk_data (cw_sink w))) (cw_sink w) = Ok w)"
proof -
  let ?tried = "\<lambda>x. PublishObservation x \<in> set ops"
  have c: "sha256_len32 E" using assms(1) by (simp add: output_codec_def)
  obtain bodies0 st0 where i0: "output_inv E from_slice ?tried w0 bodies0 st0" "body_observations E from_slice bodies0 = []"
    using output_start [OF assms(1-3) output_run_grows [OF assms(4,6)]] by blast
  obtain bodies st where i: "output_inv E from_slice ?tried w bodies st" "body_observations E from_slice bodies = acknowledged log"
    using output_run_inv [OF assms(1) i0(1) assms(4,6) _ assms(5)] i0(2) by auto
  obtain scan bodies' st' extra where s: "scan_canonical_output E from_slice (take n (sk_data (cw_sink w))) = Ok scan"
    "scanned_as st' scan" "output_bodies E from_slice bodies' st'" "cn_last_good_offset scan = 8 + length (frame_bytes E bodies')"
    "take (cn_last_good_offset scan) (sk_data (cw_sink w)) = OUTPUT_MAGIC @ frame_bytes E bodies'"
    "body_observations E from_slice bodies' = body_observations E from_slice bodies @ extra" "\<forall>x\<in>set extra. ?tried x" "length extra \<le> 1"
    "\<not> cw_poisoned w \<Longrightarrow> bodies' = bodies \<and> st' = st \<and> cn_clean_eof scan"
    by (rule output_crash_scan [OF c i(1) assms(7)]) (rule that, assumption+)
  have eq: "frames_of E from_slice bodies' = frames_of E (nonempty_body from_slice) bodies'"
    using s(3) by (auto simp: output_bodies_def frames_of_def frames_fit_def nonempty_body_def)
  have res: "extra = [] \<and> cn_clean_eof scan \<and> output_resume E from_slice (take n (sk_data (cw_sink w))) (cw_sink w) = Ok w"
    if "\<not> cw_poisoned w"
  proof -
    have b: "bodies' = bodies" "st' = st" "cn_clean_eof scan" using s(9) that by auto
    have "output_whole E w bodies" using output_inv_whole [OF i(1)] that by blast
    then have d: "length (sk_data (cw_sink w)) = cn_last_good_offset scan" using s(4) b by (simp add: output_whole_def)
    have e: "cw_end_offset w = cn_last_good_offset scan" "cn_records scan \<noteq> 0"
      using i(1) s(2,4) b output_log.run_linked [of "frames_of E (nonempty_body from_slice) bodies" output_scan_start st]
      by (auto simp: output_inv_def output_file_def output_bodies_def scanned_as_def output_scan_start_def frames_of_def)
    show ?thesis using s(1,2,6) b d e output_inv_st [OF i(1)] that
      by (cases w) (simp add: output_resume_def scanned_as_def)
  qed
  show ?thesis using s(1,5,6,7,8) i(2) eq res by (intro exI [of _ scan] exI [of _ bodies'] exI [of _ extra]) auto
qed

text \<open>
  The valid prefix of an output can always be recovered: when at least its first record is whole, and
  the source still has the bytes that were scanned, copying to a new file whose writes succeed gives a file
  that scans cleanly with the records, the owner and the last observation of the source, and a writer
  resumes from it.
\<close>

theorem output_prefix_recoverable:
  assumes "sha256_len32 E" "scan_canonical_output E from_slice bs = Ok scan" "0 < cn_records scan"
    and "take (cn_last_good_offset scan) bs2 = take (cn_last_good_offset scan) bs"
    and "sk_data sk = []" "sk_plan sk = []"
  shows "\<exists>recovered out w. recover_canonical_output_prefix E from_slice bs bs2 (Some sk) = Ok (recovered, out)
    \<and> out = take (cn_last_good_offset scan) bs \<and> cn_clean_eof recovered
    \<and> cn_records recovered = cn_records scan \<and> cn_owner recovered = cn_owner scan
    \<and> cn_last_observation recovered = cn_last_observation scan
    \<and> output_resume E from_slice out \<lparr>sk_data = out, sk_synced = length out, sk_plan = []\<rparr> = Ok w
    \<and> Some (cw_owner w) = cn_owner scan \<and> cw_record_count w = cn_records scan"
proof -
  obtain bodies rest st where b: "bs = OUTPUT_MAGIC @ frame_bytes E bodies @ rest"
    "frames_fit OUTPUT_MAX_RECORD_BYTES (nonempty_body from_slice) bodies"
    "run_steps output_scan_step (frames_of E (nonempty_body from_slice) bodies) output_scan_start = Some st"
    "scanned_as st scan" "cn_last_good_offset scan = 8 + length (frame_bytes E bodies)"
    by (rule scan_output_Ok [OF assms(2)])
  have lg: "take (cn_last_good_offset scan) bs = OUTPUT_MAGIC @ frame_bytes E bodies" unfolding b(1,5) by simp
  then have long: "cn_last_good_offset scan \<le> length bs2" using arg_cong [OF assms(4), of length] b(5) by simp
  have fs: "output_frame_scan E from_slice (frame_bytes E bodies) (length OUTPUT_MAGIC) output_scan_start
      = (st, length OUTPUT_MAGIC + length (frame_bytes E bodies), None)"
    by (rule scan_whole_journal [OF assms(1) b(2,3)])
  obtain recovered where r: "scan_canonical_output E from_slice (OUTPUT_MAGIC @ frame_bytes E bodies) = Ok recovered"
    "scanned_as st recovered" "cn_last_good_offset recovered = 8 + length (frame_bytes E bodies)" "cn_clean_eof recovered"
    using scan_output_frames [OF fs] by auto
  have ne: "frames_of E (nonempty_body from_slice) bodies \<noteq> []"
    using output_log.run_linked [OF b(3)] b(4) assms(3) by (auto simp: scanned_as_def output_scan_start_def)
  then obtain owner kind symbol where o: "cx_owner st = Some owner" "cx_kind st = Some kind" "cx_symbol st = Some symbol"
    using accepted_output_ok [OF b(3)] unfolding output_state_ok_def by blast
  have "recover_canonical_output_prefix E from_slice bs bs2 (Some sk) = Ok (recovered, OUTPUT_MAGIC @ frame_bytes E bodies)"
    using assms(2-6) long r b(4) lg
    by (simp add: recover_canonical_output_prefix_def sink_write_all_def sink_sync_def scanned_as_def)
  moreover have "\<exists>w. output_resume E from_slice (OUTPUT_MAGIC @ frame_bytes E bodies)
      \<lparr>sk_data = OUTPUT_MAGIC @ frame_bytes E bodies, sk_synced = length (OUTPUT_MAGIC @ frame_bytes E bodies), sk_plan = []\<rparr> = Ok w
      \<and> cw_owner w = owner \<and> cw_record_count w = cn_records scan"
    using r b(4) o assms(3) by (simp add: output_resume_def scanned_as_def)
  ultimately show ?thesis using r b(4) o lg by (auto simp: scanned_as_def)
qed

end
