(* ===== verification/Canonical_Output_Witness.thy ===== *)
theory Canonical_Output_Witness
  imports Canonical_Output_Crash Rotation_Witness
begin

text \<open>
  A concrete canonical output: one trade published, then the owner changed. The properties of the output
  are applied to its file.
\<close>

definition demo_out_owner :: canonical_output_owner where
  "demo_out_owner = \<lparr>oo_generation_id = ''g1'', oo_connection_epoch = ''TA'', oo_fencing_token = 1, oo_last_sequence = 9\<rparr>"

definition demo_trade_obs :: canonical_observation where
  "demo_trade_obs = \<lparr>co_symbol = ''BTCUSDT'', co_stream_kind = Trade, co_stream = ''trade'', co_connection_epoch = ''TA'',
     co_frame_index = 0, co_first_sequence = 10, co_final_sequence = 10, co_record_sha256 = ZERO_DIGEST,
     co_observation_sha256 = ZERO_DIGEST\<rparr>"

definition demo_out_empty :: canonical_output_writer where
  "demo_out_empty = \<lparr>cw_sink = \<lparr>sk_data = OUTPUT_MAGIC, sk_synced = 8, sk_plan = []\<rparr>, cw_symbol = ''BTCUSDT'',
     cw_stream_kind = Trade, cw_owner = demo_out_owner, cw_record_count = 0, cw_end_offset = length OUTPUT_MAGIC,
     cw_previous_digest = ZERO_DIGEST, cw_poisoned = False\<rparr>"

text \<open>An append whose writes succeed.\<close>

definition appended :: "canonical_output_record \<Rightarrow> canonical_output_writer \<Rightarrow> canonical_output_writer" where
  "appended r w = w\<lparr>cw_sink := \<lparr>sk_data = sk_data (cw_sink w) @ encode_frame DE (enc_output_record r),
       sk_synced = length (sk_data (cw_sink w) @ encode_frame DE (enc_output_record r)), sk_plan = []\<rparr>,
     cw_record_count := cw_record_count w + 1,
     cw_end_offset := cw_end_offset w + length (encode_frame DE (enc_output_record r)),
     cw_previous_digest := sha256_hex DE (enc_output_record r)\<rparr>"

lemma append_ok:
  assumes "\<not> cw_poisoned w" "sk_plan (cw_sink w) = []" "length (enc_output_record r) \<le> 4096" "cw_record_count w \<le> 4096"
    "cw_end_offset w \<le> 65536"
  shows "\<exists>ack. output_append DE enc_output_record r w = (Ok ack, appended r w)"
  using assms
  by (simp add: output_append_def Let_def OUTPUT_MAX_RECORD_BYTES_def write_frame_def sink_write_all_def sink_sync_def
      add_u64_def u64_max_def appended_def)

definition demo_out_first :: canonical_output_record where
  "demo_out_first = output_record OutInitialized demo_out_owner None None demo_out_empty"

definition demo_out0 :: canonical_output_writer where
  "demo_out0 = appended demo_out_first demo_out_empty"

lemma demo_out_lengths:
  assumes "length (cw_previous_digest w) = 64" "cw_symbol w = ''BTCUSDT''" "cw_record_count w \<le> 2"
    "length (oo_generation_id own) + length (oo_connection_epoch own) + oo_fencing_token own + oo_last_sequence own \<le> 100"
    "v = None \<or> v = Some demo_trade_obs" "a = None \<or> a = Some ZERO_DIGEST"
  shows "length (enc_output_record (output_record action own v a w)) \<le> 4096"
proof -
  have "length (enc_opt enc_observation v) \<le> 1000" "length (enc_opt enc_str a) \<le> 1000" "length (enc_kind k) \<le> 1"
    "(case action of OutInitialized \<Rightarrow> 0 | OutObservation \<Rightarrow> 1 | OutOwnershipChanged \<Rightarrow> 2) \<le> (2 :: nat)" for k
    using assms(5,6)
    by (auto simp: enc_observation_def demo_trade_obs_def enc_kind_def split: boundary_stream_kind.splits canonical_output_action.splits)
  then show ?thesis using assms(1-4)
    by (simp add: enc_output_record_def output_record_def enc_output_owner_def)
      (use \<open>\<And>k. length (enc_kind k) \<le> 1\<close> [of "cw_stream_kind w"] in linarith)
qed

lemma demo_out_empty_simps:
  "\<not> cw_poisoned demo_out_empty" "sk_plan (cw_sink demo_out_empty) = []" "cw_record_count demo_out_empty = 0"
  "cw_end_offset demo_out_empty = 8" "cw_previous_digest demo_out_empty = ZERO_DIGEST" "cw_symbol demo_out_empty = ''BTCUSDT''"
  by (simp_all add: demo_out_empty_def)

lemma demo_first_length: "length (enc_output_record demo_out_first) \<le> 4096"
  unfolding demo_out_first_def by (rule demo_out_lengths) (simp_all add: demo_out_empty_def demo_out_owner_def)

lemma demo_out0_new: "output_from_sink DE enc_output_record (demo_sink []) ''BTCUSDT'' Trade demo_out_owner = Ok demo_out0"
proof -
  have v: "validate_output_identity ''BTCUSDT'' demo_out_owner = Ok ()"
    by (simp add: validate_output_identity_def demo_out_owner_def trim_is_empty_def str_bytes_def)
  obtain ack where a: "output_append DE enc_output_record demo_out_first demo_out_empty = (Ok ack, demo_out0)"
    unfolding demo_out0_def using append_ok [OF demo_out_empty_simps(1,2) demo_first_length] demo_out_empty_simps by auto
  have s: "sink_write_all OUTPUT_MAGIC (demo_sink []) = (True, \<lparr>sk_data = OUTPUT_MAGIC, sk_synced = 0, sk_plan = []\<rparr>)"
    "sink_sync \<lparr>sk_data = OUTPUT_MAGIC, sk_synced = 0, sk_plan = []\<rparr> = (True, \<lparr>sk_data = OUTPUT_MAGIC, sk_synced = 8, sk_plan = []\<rparr>)"
    by (simp_all add: sink_write_all_def sink_sync_def demo_sink_def)
  show ?thesis using a [unfolded demo_out_first_def demo_out_empty_def] v s by (simp add: output_from_sink_def Let_def)
qed

definition demo_out1 :: canonical_output_writer where
  "demo_out1 = (appended (output_record OutObservation (demo_out_owner\<lparr>oo_last_sequence := 10\<rparr>) (Some demo_trade_obs) None demo_out0)
     demo_out0)\<lparr>cw_owner := demo_out_owner\<lparr>oo_last_sequence := 10\<rparr>\<rparr>"

definition demo_next_owner :: canonical_output_owner where
  "demo_next_owner = \<lparr>oo_generation_id = ''g2'', oo_connection_epoch = ''TB'', oo_fencing_token = 2, oo_last_sequence = 10\<rparr>"

definition demo_out2 :: canonical_output_writer where
  "demo_out2 = (appended (output_record OutOwnershipChanged demo_next_owner None (Some ZERO_DIGEST) demo_out1) demo_out1)
     \<lparr>cw_owner := demo_next_owner\<rparr>"

lemma appended_simps [simp]:
  "cw_poisoned (appended r w) = cw_poisoned w" "sk_plan (cw_sink (appended r w)) = []" "cw_symbol (appended r w) = cw_symbol w"
  "cw_stream_kind (appended r w) = cw_stream_kind w" "cw_owner (appended r w) = cw_owner w"
  "cw_record_count (appended r w) = cw_record_count w + 1" "length (cw_previous_digest (appended r w)) = 64"
  "cw_end_offset (appended r w) = cw_end_offset w + (36 + length (enc_output_record r))"
  "length (sk_data (cw_sink (appended r w))) = length (sk_data (cw_sink w)) + (36 + length (enc_output_record r))"
  "sk_synced (cw_sink (appended r w)) = length (sk_data (cw_sink (appended r w)))"
  by (simp_all add: appended_def)

lemma demo_out0_simps:
  "\<not> cw_poisoned demo_out0" "sk_plan (cw_sink demo_out0) = []" "cw_record_count demo_out0 = 1" "cw_owner demo_out0 = demo_out_owner"
  "cw_symbol demo_out0 = ''BTCUSDT''" "cw_stream_kind demo_out0 = Trade" "length (cw_previous_digest demo_out0) = 64"
  "cw_end_offset demo_out0 \<le> 4140" "length (sk_data (cw_sink demo_out0)) \<le> 4140"
  using demo_first_length by (simp_all add: demo_out0_def demo_out_empty_def)

lemma demo_publish: "\<exists>ack. publish DE enc_output_record demo_trade_obs demo_out0 = (Ok ack, demo_out1)"
proof -
  let ?r = "output_record OutObservation (demo_out_owner\<lparr>oo_last_sequence := 10\<rparr>) (Some demo_trade_obs) None demo_out0"
  have "length (enc_output_record ?r) \<le> 4096"
    by (rule demo_out_lengths) (use demo_out0_simps in \<open>simp_all add: demo_out_owner_def\<close>)
  then obtain ack where "output_append DE enc_output_record ?r demo_out0 = (Ok ack, appended ?r demo_out0)"
    using append_ok [of demo_out0 ?r] demo_out0_simps by auto
  then show ?thesis using demo_out0_simps
    by (simp add: publish_def demo_trade_obs_def [THEN arg_cong [where f = co_symbol]] demo_out1_def demo_trade_obs_def
        demo_out_owner_def checked_add_def u64_max_def output_continuous_def Let_def)
qed

lemma demo_out1_simps:
  "\<not> cw_poisoned demo_out1" "sk_plan (cw_sink demo_out1) = []" "cw_record_count demo_out1 = 2"
  "cw_owner demo_out1 = demo_out_owner\<lparr>oo_last_sequence := 10\<rparr>" "cw_symbol demo_out1 = ''BTCUSDT''"
  "length (cw_previous_digest demo_out1) = 64" "cw_end_offset demo_out1 \<le> 8280" "length (sk_data (cw_sink demo_out1)) \<le> 8280"
proof -
  let ?r = "output_record OutObservation (demo_out_owner\<lparr>oo_last_sequence := 10\<rparr>) (Some demo_trade_obs) None demo_out0"
  have "length (enc_output_record ?r) \<le> 4096"
    by (rule demo_out_lengths) (use demo_out0_simps in \<open>simp_all add: demo_out_owner_def\<close>)
  then show "\<not> cw_poisoned demo_out1" "sk_plan (cw_sink demo_out1) = []" "cw_record_count demo_out1 = 2"
    "cw_owner demo_out1 = demo_out_owner\<lparr>oo_last_sequence := 10\<rparr>" "cw_symbol demo_out1 = ''BTCUSDT''"
    "length (cw_previous_digest demo_out1) = 64" "cw_end_offset demo_out1 \<le> 8280" "length (sk_data (cw_sink demo_out1)) \<le> 8280"
    using demo_out0_simps by (simp_all add: demo_out1_def)
qed

lemma demo_change:
  "\<exists>ack. change_owner DE enc_output_record ''g2'' ''TB'' 2 10 ZERO_DIGEST demo_out1 = (Ok ack, demo_out2)"
  "\<not> cw_poisoned demo_out2" "output_bounded demo_out2" "sk_synced (cw_sink demo_out2) = length (sk_data (cw_sink demo_out2))"
proof -
  let ?r = "output_record OutOwnershipChanged demo_next_owner None (Some ZERO_DIGEST) demo_out1"
  have l: "length (enc_output_record ?r) \<le> 4096"
    by (rule demo_out_lengths) (use demo_out1_simps in \<open>simp_all add: demo_next_owner_def\<close>)
  have d: "valid_digest ZERO_DIGEST"
    by (simp add: valid_digest_def ZERO_DIGEST_def is_lower_hex_def is_ascii_digit_def list_all_iff)
  obtain ack where "output_append DE enc_output_record ?r demo_out1 = (Ok ack, appended ?r demo_out1)"
    using append_ok [of demo_out1 ?r] l demo_out1_simps by auto
  then show "\<exists>ack. change_owner DE enc_output_record ''g2'' ''TB'' 2 10 ZERO_DIGEST demo_out1 = (Ok ack, demo_out2)"
    using demo_out1_simps d
    by (simp add: change_owner_def demo_out2_def demo_next_owner_def demo_out_owner_def trim_is_empty_def str_bytes_def
        next_fencing_token_def checked_add_def u64_max_def Let_def)
  show "\<not> cw_poisoned demo_out2" "output_bounded demo_out2" "sk_synced (cw_sink demo_out2) = length (sk_data (cw_sink demo_out2))"
    using demo_out1_simps l by (simp_all add: demo_out2_def output_bounded_def u64_max_def)
qed

abbreviation demo_out_ops :: "output_op list" where
  "demo_out_ops \<equiv> [PublishObservation demo_trade_obs, ChangeOwner ''g2'' ''TB'' 2 10 ZERO_DIGEST]"

lemma demo_out_codec: "output_codec DE enc_output_record dec_output_record"
  by (simp add: output_codec_def output_record_codec nonempty_codec_def enc_output_record_def)

lemma demo_out_run: "\<exists>log. output_run DE enc_output_record demo_out_ops demo_out0 = (log, demo_out2) \<and> acknowledged log = [demo_trade_obs]"
  using demo_publish demo_change(1) by auto

text \<open>Witness: the file of the publication and the change, with nothing lost.\<close>

theorem output_survives_crash_witness:
  "output_resume DE dec_output_record (sk_data (cw_sink demo_out2)) (cw_sink demo_out2) = Ok demo_out2
   \<and> (\<exists>scan bodies. scan_canonical_output DE dec_output_record (sk_data (cw_sink demo_out2)) = Ok scan
        \<and> output_observations (frames_of DE dec_output_record bodies) = [demo_trade_obs])"
proof -
  obtain log where r: "output_run DE enc_output_record demo_out_ops demo_out0 = (log, demo_out2)" "acknowledged log = [demo_trade_obs]"
    using demo_out_run by blast
  have e: "sk_data (demo_sink []) = []" by (simp add: demo_sink_def)
  have p: "list_all proper_op demo_out_ops" by simp
  show ?thesis
    using output_survives_crash [OF demo_out_codec demo_out0_new e r(1) p demo_change(3), of "length (sk_data (cw_sink demo_out2))"]
      demo_change(2,4) r(2) by auto
qed

lemma demo_out_scan: "\<exists>scan. scan_canonical_output DE dec_output_record (sk_data (cw_sink demo_out2)) = Ok scan \<and> 0 < cn_records scan"
proof -
  obtain log where r: "output_run DE enc_output_record demo_out_ops demo_out0 = (log, demo_out2)" using demo_out_run by blast
  have e: "sk_data (demo_sink []) = []" by (simp add: demo_sink_def)
  obtain b0 st0 where i0: "output_inv DE dec_output_record (\<lambda>_. True) demo_out0 b0 st0"
    using output_start [OF demo_out_codec demo_out0_new e output_run_grows [OF r demo_change(3)]] by blast
  obtain b st where i: "output_inv DE dec_output_record (\<lambda>_. True) demo_out2 b st"
    using output_run_inv [OF demo_out_codec i0 r demo_change(3)] by auto
  show ?thesis
  proof (rule output_crash_scan [OF DE_len i, of "length (sk_data (cw_sink demo_out2))"])
    fix scan st' bodies' extra
    assume "scan_canonical_output DE dec_output_record (take (length (sk_data (cw_sink demo_out2))) (sk_data (cw_sink demo_out2))) = Ok scan"
      "scanned_as st' scan" "\<not> cw_poisoned demo_out2 \<Longrightarrow> bodies' = b \<and> st' = st \<and> cn_clean_eof scan"
    moreover have "cw_record_count demo_out2 = 3" using demo_out1_simps by (simp add: demo_out2_def)
    ultimately show ?thesis using demo_change(2) output_inv_st(1) [OF i] by (auto simp: scanned_as_def)
  qed (simp add: demo_change(4))
qed

text \<open>Witness: the same file, scanned.\<close>

theorem scanned_output_contiguous_witness:
  "\<exists>scan bodies kind (first :: canonical_output_owner) (owner :: canonical_output_owner). scan_canonical_output DE dec_output_record (sk_data (cw_sink demo_out2)) = Ok scan
    \<and> take (cn_last_good_offset scan) (sk_data (cw_sink demo_out2)) = OUTPUT_MAGIC @ frame_bytes DE bodies
    \<and> contiguous_ranges kind (oo_last_sequence first)
        (map observed_range (output_observations (frames_of DE dec_output_record bodies))) (oo_last_sequence owner)"
proof -
  obtain scan where s: "scan_canonical_output DE dec_output_record (sk_data (cw_sink demo_out2)) = Ok scan" "0 < cn_records scan"
    using demo_out_scan by blast
  from scanned_output_contiguous [OF s] obtain bodies rs kind and first owner :: canonical_output_owner where
    "take (cn_last_good_offset scan) (sk_data (cw_sink demo_out2)) = OUTPUT_MAGIC @ frame_bytes DE bodies"
    "rs = frames_of DE dec_output_record bodies"
    "contiguous_ranges kind (oo_last_sequence first) (map observed_range (output_observations rs)) (oo_last_sequence owner)"
    by (elim exE conjE) (rule that)
  then show ?thesis using s(1) by blast
qed

text \<open>Witness: the same file with a torn byte after it, recovered.\<close>

theorem output_prefix_recoverable_witness:
  "\<exists>scan recovered out. scan_canonical_output DE dec_output_record (sk_data (cw_sink demo_out2)) = Ok scan
    \<and> recover_canonical_output_prefix DE dec_output_record (sk_data (cw_sink demo_out2)) (sk_data (cw_sink demo_out2) @ [7])
        (Some (demo_sink [])) = Ok (recovered, out)
    \<and> cn_clean_eof recovered \<and> cn_owner recovered = cn_owner scan"
proof -
  obtain scan where s: "scan_canonical_output DE dec_output_record (sk_data (cw_sink demo_out2)) = Ok scan" "0 < cn_records scan"
    using demo_out_scan by blast
  have "cn_last_good_offset scan \<le> length (sk_data (cw_sink demo_out2))"
    by (rule scan_output_Ok [OF s(1)]) simp
  then have t: "take (cn_last_good_offset scan) (sk_data (cw_sink demo_out2) @ [7]) = take (cn_last_good_offset scan) (sk_data (cw_sink demo_out2))"
    by simp
  show ?thesis using output_prefix_recoverable [OF DE_len s t, of "demo_sink []"] s(1) by (auto simp: demo_sink_def)
qed

end
