(* ===== verification/Durability_Progress.thy ===== *)
theory Durability_Progress
  imports Raw_Log_Reader Lanes Byte_Lines
begin

text \<open>
  The durable journal of group-commit watermarks, \<open>src/rust/lob-replay/src/durability_progress.rs\<close>: the
  append-only JSONL writer, its scan, and the readers that use an acknowledgement to cut, verify or
  continue the raw log it speaks about. A file is its bytes, or nothing when it cannot be opened;
  \<open>serde_json\<close> on the two structs is a record of parameters. \<open>usize\<close> has the width of \<open>u64\<close>.
\<close>

section \<open>Data\<close>

record progress_body =
  pb_schema :: string
  pb_record_index :: nat
  pb_raw_path :: string
  pb_ack :: durability_ack
  pb_previous_record_sha256 :: string

record progress_envelope =
  pe_body :: progress_body
  pe_record_sha256 :: string

record progress_codec =
  pc_body_to_vec :: "progress_body \<Rightarrow> bytes option"
  pc_to_vec :: "progress_envelope \<Rightarrow> bytes option"
  pc_from_slice :: "bytes \<Rightarrow> progress_envelope option"

record durability_progress_scan =
  ds_schema :: string
  ds_records :: nat
  ds_clean_eof :: bool
  ds_reason :: "string option"
  ds_latest_ack :: "durability_ack option"
  ds_last_record_sha256 :: string
  ds_acknowledgements :: "durability_ack list"

record durability_progress_writer =
  pw_file :: sink
  pw_raw_path :: string
  pw_record_count :: nat
  pw_previous_digest :: string
  pw_latest_ack :: "durability_ack option"
  pw_poisoned :: bool

definition validate_ack :: "durability_ack \<Rightarrow> unit res" where
  "validate_ack a =
     (if da_schema a \<noteq> ''DurabilityAckV1'' \<or> da_durable_record_count a = 0 \<or> da_durable_through_offset a = 0
         \<or> length (da_last_record_sha256 a) \<noteq> 64 \<or> \<not> list_all is_ascii_hexdigit (da_last_record_sha256 a)
         \<or> length (da_streams a) \<noteq> 1
      then Err (Fail ''invalid durability ACK'') else Ok ())"

text \<open>\<open>ack\<close> does not advance both the record count and the offset of the acknowledgement before it.\<close>

definition ack_stalls :: "durability_ack option \<Rightarrow> durability_ack \<Rightarrow> bool" where
  "ack_stalls previous a =
     (case previous of
        None \<Rightarrow> False
      | Some p \<Rightarrow> da_durable_record_count a \<le> da_durable_record_count p
          \<or> da_durable_through_offset a \<le> da_durable_through_offset p)"

section \<open>The writer\<close>

text \<open>\<open>create_new\<close> on a path that did not exist, for the raw identity the caller chose.\<close>

definition progress_create :: "sink \<Rightarrow> string \<Rightarrow> durability_progress_writer" where
  "progress_create sk raw_identity = \<lparr>pw_file = sk, pw_raw_path = raw_identity, pw_record_count = 0,
     pw_previous_digest = ZERO_DIGEST, pw_latest_ack = None, pw_poisoned = False\<rparr>"

definition progress_append ::
  "'v externals \<Rightarrow> progress_codec \<Rightarrow> durability_ack \<Rightarrow> durability_progress_writer \<Rightarrow> unit res \<times> durability_progress_writer" where
  "progress_append E C a w =
     (if pw_poisoned w then (Err (Fail ''durability progress writer is poisoned''), w)
      else case validate_ack a of
        Inl e \<Rightarrow> (Err e, w)
      | Inr _ \<Rightarrow>
          if ack_stalls (pw_latest_ack w) a
          then (Err (Fail ''durability progress must advance record count and offset''), w)
          else
            let body = \<lparr>pb_schema = ''RawDurabilityProgressV1'', pb_record_index = pw_record_count w,
                        pb_raw_path = pw_raw_path w, pb_ack = a, pb_previous_record_sha256 = pw_previous_digest w\<rparr> in
            (case pc_body_to_vec C body of
               None \<Rightarrow> (Err (Fail ''serialize durability progress''), w)
             | Some bb \<Rightarrow>
                 let digest = sha256_hex E bb in
                 (case pc_to_vec C \<lparr>pe_body = body, pe_record_sha256 = digest\<rparr> of
                    None \<Rightarrow> (Err (Fail ''serialize progress envelope''), w)
                  | Some bs \<Rightarrow>
                      (case sink_write_all (bs @ [newline]) (pw_file w) of
                         (False, s1) \<Rightarrow>
                           (Err (Fail ''sync durability progress; writer poisoned''), w\<lparr>pw_file := s1, pw_poisoned := True\<rparr>)
                       | (True, s1) \<Rightarrow>
                           (case sink_sync s1 of
                              (False, s2) \<Rightarrow>
                                (Err (Fail ''sync durability progress; writer poisoned''),
                                 w\<lparr>pw_file := s2, pw_poisoned := True\<rparr>)
                            | (True, s2) \<Rightarrow>
                                (case add_u64 (pw_record_count w) 1 of
                                   Inl e \<Rightarrow> (Err e, w\<lparr>pw_file := s2\<rparr>)
                                 | Inr n \<Rightarrow>
                                     (Ok (), w\<lparr>pw_file := s2, pw_record_count := n, pw_previous_digest := digest,
                                        pw_latest_ack := Some a\<rparr>)))))))"

section \<open>Portable references\<close>

text \<open>\<open>trim()\<close> leaves the text alone: no blank at its start and none at its end.\<close>

definition is_trimmed :: "string \<Rightarrow> bool" where
  "is_trimmed s \<longleftrightarrow> \<not> list_ex (\<lambda>k. trim_is_empty (take (k + 1) s) \<or> trim_is_empty (drop k s)) [0..<length s]"

text \<open>
  \<open>Path::components\<close> of a relative path: repeated separators and a \<open>.\<close> after the first component are
  skipped; a leading \<open>.\<close> and every \<open>..\<close> are not normal components.
\<close>

definition path_components :: "string \<Rightarrow> string list" where
  "path_components p =
     (case split_char CHR ''/'' p of
        [] \<Rightarrow> []
      | c # cs \<Rightarrow> (if c = [] then [] else [c]) @ filter (\<lambda>x. x \<noteq> [] \<and> x \<noteq> ''.'') cs)"

definition validate_portable_raw_reference :: "string \<Rightarrow> unit res" where
  "validate_portable_raw_reference r =
     (if r = [] \<or> \<not> is_trimmed r \<or> list_ex (\<lambda>c. c = CHR 0x5C \<or> c = CHR '':'' \<or> c = CHR 0x00) r
      then Err (Fail ''raw reference must be a portable safe relative path'')
      else if hd r = CHR ''/'' then Err (Fail ''raw reference must be a portable safe relative path'')
      else if list_ex (\<lambda>c. c = ''.'' \<or> c = ''..'') (path_components r)
      then Err (Fail ''raw reference must contain only normal path components'')
      else if path_components r = [] then Err (Fail ''raw reference must contain a file path'')
      else Ok ())"

section \<open>The scan\<close>

record progress_scan_state =
  px_records :: nat
  px_previous :: string
  px_acks :: "durability_ack list"

definition px_latest :: "progress_scan_state \<Rightarrow> durability_ack option" where
  "px_latest s = (if px_acks s = [] then None else Some (last (px_acks s)))"

function progress_scan_loop ::
  "'v externals \<Rightarrow> progress_codec \<Rightarrow> bytes \<Rightarrow> progress_scan_state \<Rightarrow> (progress_scan_state \<times> string option) res" where
  "progress_scan_loop E C bs s =
     (if bs = [] then Ok (s, None)
      else if newline \<notin> set bs then Ok (s, Some ''partial durability progress tail'')
      else
        let line = takeWhile (\<lambda>b. b \<noteq> newline) bs in
        (case pc_from_slice C line of
           None \<Rightarrow> Ok (s, Some ''invalid durability progress JSON'')
         | Some env \<Rightarrow>
             (case pc_body_to_vec C (pe_body env) of
                None \<Rightarrow> Err (Fail ''reserialize durability progress'')
              | Some bb \<Rightarrow>
                  let digest = sha256_hex E bb; body = pe_body env in
                  if pb_schema body \<noteq> ''RawDurabilityProgressV1'' \<or> pb_record_index body \<noteq> px_records s
                     \<or> pb_previous_record_sha256 body \<noteq> px_previous s \<or> pe_record_sha256 env \<noteq> digest
                     \<or> validate_ack (pb_ack body) \<noteq> Ok ()
                  then Ok (s, Some ''invalid durability progress chain/record'')
                  else if ack_stalls (px_latest s) (pb_ack body)
                  then Ok (s, Some ''non-monotonic durability progress'')
                  else progress_scan_loop E C (drop (length line + 1) bs)
                         \<lparr>px_records = px_records s + 1, px_previous = digest, px_acks = px_acks s @ [pb_ack body]\<rparr>)))"
  by pat_completeness auto
termination
  by (relation "measure (\<lambda>(E, C, bs, s). length bs)") auto

declare progress_scan_loop.simps [simp del]

definition progress_scan_start :: progress_scan_state where
  "progress_scan_start = \<lparr>px_records = 0, px_previous = ZERO_DIGEST, px_acks = []\<rparr>"

definition scan_durability_progress ::
  "'v externals \<Rightarrow> progress_codec \<Rightarrow> bytes option \<Rightarrow> durability_progress_scan res" where
  "scan_durability_progress E C path =
     rbind (open_file path) (\<lambda>bs.
     rbind (progress_scan_loop E C bs progress_scan_start) (\<lambda>(s, reason).
       Ok \<lparr>ds_schema = ''DurabilityProgressScanV1'', ds_records = px_records s, ds_clean_eof = (reason = None),
           ds_reason = reason, ds_latest_ack = px_latest s, ds_last_record_sha256 = px_previous s,
           ds_acknowledgements = px_acks s\<rparr>))"

section \<open>Using an acknowledgement\<close>

text \<open>The record an acknowledgement of one stream names as its last.\<close>

definition ack_matches_record :: "durability_ack \<Rightarrow> raw_record_envelope \<Rightarrow> bool" where
  "ack_matches_record a last_record \<longleftrightarrow>
     re_end_offset last_record = da_durable_through_offset a \<and> re_record_sha256 last_record = da_last_record_sha256 a
     \<and> length (da_streams a) = 1
     \<and> wm_connection_epoch (hd (da_streams a)) = rf_connection_epoch (re_frame last_record)
     \<and> wm_stream (hd (da_streams a)) = rf_stream (re_frame last_record)
     \<and> wm_durable_through_frame_index (hd (da_streams a)) = rf_frame_index (re_frame last_record)"

definition verify_progress_against_raw ::
  "'v externals \<Rightarrow> durability_progress_scan \<Rightarrow> bytes option \<Rightarrow> durability_ack res" where
  "verify_progress_against_raw E scan raw =
     rbind (ok_or (Fail ''durability progress has no complete ACK'') (ds_latest_ack scan)) (\<lambda>a.
     rbind (read_raw_records E raw) (\<lambda>records.
     if da_durable_record_count a = 0 \<or> length records < da_durable_record_count a
     then Err (Fail ''raw file does not contain the durable progress prefix'')
     else if \<not> ack_matches_record a (records ! (da_durable_record_count a - 1))
     then Err (Fail ''durability progress does not match the exact raw prefix'')
     else Ok a))"

text \<open>\<open>destination\<close> is the new file, none when \<open>create_new\<close> refuses; the result carries its bytes.\<close>

definition freeze_durable_raw_prefix ::
  "'v externals \<Rightarrow> durability_progress_scan \<Rightarrow> bytes option \<Rightarrow> sink option \<Rightarrow> (durability_ack \<times> bytes) res" where
  "freeze_durable_raw_prefix E scan raw destination =
     rbind (ok_or (Fail ''durability progress has no complete ACK'') (ds_latest_ack scan)) (\<lambda>a.
     rbind (open_file raw) (\<lambda>source.
     if length source < da_durable_through_offset a
     then Err (Fail ''live raw is shorter than its durable watermark'')
     else rbind (ok_or (Fail ''create frozen prefix'') destination) (\<lambda>sk.
       case sink_write_all (take (da_durable_through_offset a) source) sk of
         (False, _) \<Rightarrow> Err (Fail ''copy durable raw prefix'')
       | (True, sk1) \<Rightarrow>
           (case sink_sync sk1 of
              (False, _) \<Rightarrow> Err (Fail ''sync frozen durable prefix'')
            | (True, sk2) \<Rightarrow>
                rbind (read_raw_records E (Some (sk_data sk2))) (\<lambda>frozen.
                if frozen = [] then Err (Fail ''frozen durable prefix has no records'')
                else if length frozen \<noteq> da_durable_record_count a \<or> \<not> ack_matches_record a (last frozen)
                then Err (Fail ''frozen raw prefix does not match durability progress'')
                else Ok (a, sk_data sk2))))))"

definition read_durable_raw_delta ::
  "'v externals \<Rightarrow> bytes option \<Rightarrow> durability_ack \<Rightarrow> durability_ack \<Rightarrow> raw_record_envelope list res" where
  "read_durable_raw_delta E raw previous next =
     rbind (validate_ack previous) (\<lambda>_. rbind (validate_ack next) (\<lambda>_.
     let old = hd (da_streams previous); new = hd (da_streams next) in
     if wm_connection_epoch old \<noteq> wm_connection_epoch new \<or> wm_stream old \<noteq> wm_stream new
        \<or> da_durable_record_count next \<le> da_durable_record_count previous
        \<or> da_durable_through_offset next \<le> da_durable_through_offset previous
        \<or> wm_durable_through_frame_index new \<le> wm_durable_through_frame_index old
     then Err (Fail ''durability delta does not strictly continue one raw stream'')
     else rbind (ok_or (Fail ''durability frame index overflow'') (checked_add (wm_durable_through_frame_index old) 1)) (\<lambda>index.
       rbind (read_raw_record_range E raw (da_durable_through_offset previous) (da_durable_through_offset next)
                (da_last_record_sha256 previous) (wm_connection_epoch old) (wm_stream old) index) (\<lambda>records.
       if records = [] then Err (Fail ''durability delta produced no records'')
       else if length records \<noteq> da_durable_record_count next - da_durable_record_count previous
          \<or> re_record_sha256 (last records) \<noteq> da_last_record_sha256 next
          \<or> rf_frame_index (re_frame (last records)) \<noteq> wm_durable_through_frame_index new
          \<or> rf_connection_epoch (re_frame (last records)) \<noteq> wm_connection_epoch new
          \<or> rf_stream (re_frame (last records)) \<noteq> wm_stream new
       then Err (Fail ''durability delta does not match its terminal ACK'')
       else Ok records))))"

definition observation_record :: "canonical_observation \<Rightarrow> raw_record_envelope \<Rightarrow> bool" where
  "observation_record x r \<longleftrightarrow> rf_connection_epoch (re_frame r) = co_connection_epoch x
     \<and> rf_stream (re_frame r) = co_stream x \<and> rf_frame_index (re_frame r) = co_frame_index x
     \<and> re_record_sha256 r = co_record_sha256 x"

definition durable_cursor_at_observation ::
  "'v externals \<Rightarrow> bytes option \<Rightarrow> durability_ack \<Rightarrow> canonical_observation \<Rightarrow> durability_ack res" where
  "durable_cursor_at_observation E raw terminal x =
     rbind (validate_ack terminal) (\<lambda>_.
     let stream = hd (da_streams terminal) in
     if co_connection_epoch x \<noteq> wm_connection_epoch stream \<or> co_stream x \<noteq> wm_stream stream
        \<or> wm_durable_through_frame_index stream < co_frame_index x
     then Err (Fail ''canonical observation is outside the durable raw stream'')
     else rbind (read_raw_records_through_offset E raw (da_durable_through_offset terminal)) (\<lambda>records.
       if length records \<noteq> da_durable_record_count terminal
       then Err (Fail ''terminal ACK count differs from durable raw prefix'')
       else if records = [] then Err (Fail ''durable raw prefix is empty'')
       else if re_record_sha256 (last records) \<noteq> da_last_record_sha256 terminal
          \<or> re_end_offset (last records) \<noteq> da_durable_through_offset terminal
       then Err (Fail ''terminal ACK differs from durable raw prefix'')
       else case filter (observation_record x) records of
         [] \<Rightarrow> Err (Fail ''canonical observation lineage is absent from durable raw'')
       | [r] \<Rightarrow>
           rbind (add_u64 (re_record_index r) 1) (\<lambda>count.
           Ok \<lparr>da_schema = ''DurabilityAckV1'', da_durable_record_count = count,
               da_durable_through_offset = re_end_offset r, da_last_record_sha256 = re_record_sha256 r,
               da_streams = [\<lparr>wm_connection_epoch = rf_connection_epoch (re_frame r), wm_stream = rf_stream (re_frame r),
                              wm_durable_through_frame_index = rf_frame_index (re_frame r)\<rparr>]\<rparr>)
       | _ # _ # _ \<Rightarrow> Err (Fail ''canonical observation lineage is not unique in durable raw'')))"

end
