(* ===== verification/Durability_Progress_Safety.thy ===== *)
theory Durability_Progress_Safety
  imports Durability_Progress Raw_Log_Safety
begin

text \<open>
  The theorems on durability watermarks: the progress journal reads back exactly the acknowledgements it
  accepted after any crash, and an acknowledgement read back from it cuts and continues the raw log it was
  issued for at exactly the acknowledged frames.
\<close>

section \<open>The progress journal\<close>

text \<open>Reading back what \<open>serde_json\<close> wrote; a rendered envelope has no line feed.\<close>

definition progress_codec_ok :: "progress_codec \<Rightarrow> bool" where
  "progress_codec_ok C \<longleftrightarrow> (\<forall>env bs. pc_to_vec C env = Some bs \<longrightarrow> pc_from_slice C bs = Some env \<and> newline \<notin> set bs)"

definition last_ack :: "durability_ack list \<Rightarrow> durability_ack option" where
  "last_ack acks = (if acks = [] then None else Some (last acks))"

text \<open>The line that follows \<open>acks\<close> in a journal whose last digest is \<open>d\<close>, and the digest after it.\<close>

definition next_line ::
  "'v externals \<Rightarrow> progress_codec \<Rightarrow> string \<Rightarrow> durability_ack list \<Rightarrow> string \<Rightarrow> durability_ack \<Rightarrow> bytes \<Rightarrow> string \<Rightarrow> bool" where
  "next_line E C raw acks d a l d' \<longleftrightarrow> validate_ack a = Ok () \<and> \<not> ack_stalls (last_ack acks) a
     \<and> (\<exists>body bb. body = \<lparr>pb_schema = ''RawDurabilityProgressV1'', pb_record_index = length acks, pb_raw_path = raw,
              pb_ack = a, pb_previous_record_sha256 = d\<rparr>
          \<and> pc_body_to_vec C body = Some bb \<and> d' = sha256_hex E bb
          \<and> pc_to_vec C \<lparr>pe_body = body, pe_record_sha256 = d'\<rparr> = Some l)"

inductive progress_chain ::
  "'v externals \<Rightarrow> progress_codec \<Rightarrow> string \<Rightarrow> durability_ack list \<Rightarrow> bytes \<Rightarrow> string \<Rightarrow> bool"
  for E C raw where
  chain_start: "progress_chain E C raw [] [] ZERO_DIGEST"
| chain_line: "progress_chain E C raw acks bs d \<Longrightarrow> next_line E C raw acks d a l d' \<Longrightarrow>
    progress_chain E C raw (acks @ [a]) (bs @ l @ [newline]) d'"

definition scanned_acks :: "durability_ack list \<Rightarrow> string \<Rightarrow> progress_scan_state" where
  "scanned_acks acks d = \<lparr>px_records = length acks, px_previous = d, px_acks = acks\<rparr>"

lemma px_latest_scanned [simp]: "px_latest (scanned_acks acks d) = last_ack acks"
  by (simp add: px_latest_def scanned_acks_def last_ack_def)

lemma scan_loop_line:
  assumes "progress_codec_ok C" "next_line E C raw acks d a l d'"
  shows "progress_scan_loop E C (l @ newline # rest) (scanned_acks acks d) = progress_scan_loop E C rest (scanned_acks (acks @ [a]) d')"
proof -
  obtain body bb where b: "body = \<lparr>pb_schema = ''RawDurabilityProgressV1'', pb_record_index = length acks, pb_raw_path = raw,
      pb_ack = a, pb_previous_record_sha256 = d\<rparr>" "pc_body_to_vec C body = Some bb" "d' = sha256_hex E bb"
    "pc_to_vec C \<lparr>pe_body = body, pe_record_sha256 = d'\<rparr> = Some l"
    using assms(2) unfolding next_line_def by blast
  have c: "pc_from_slice C l = Some \<lparr>pe_body = body, pe_record_sha256 = d'\<rparr>" "newline \<notin> set l"
    using assms(1) b(4) unfolding progress_codec_ok_def by blast+
  have t: "takeWhile (\<lambda>b. b \<noteq> newline) (l @ newline # rest) = l"
    using c(2) by (subst takeWhile_append2) auto
  have s: "validate_ack a = Ok ()" "\<not> ack_stalls (last_ack acks) a" using assms(2) by (simp_all add: next_line_def)
  show ?thesis
    by (subst progress_scan_loop.simps) (use b(1-3) c(1) s in \<open>simp add: t Let_def\<close>, simp add: scanned_acks_def)
qed

lemma scan_loop_progress:
  assumes "progress_chain E C raw acks bs d" "progress_codec_ok C"
  shows "progress_scan_loop E C (bs @ rest) progress_scan_start = progress_scan_loop E C rest (scanned_acks acks d)"
  using assms
proof (induction arbitrary: rest rule: progress_chain.induct)
  case chain_start
  then show ?case by (simp add: progress_scan_start_def scanned_acks_def)
next
  case (chain_line acks bs d a l d')
  then show ?case using scan_loop_line [of C E raw acks d a l d' rest] by simp
qed

lemma scan_loop_end: "progress_scan_loop E C [] s = Ok (s, None)"
  by (subst progress_scan_loop.simps) simp

lemma scan_loop_partial:
  "newline \<notin> set tail \<Longrightarrow> tail \<noteq> [] \<Longrightarrow> progress_scan_loop E C tail s = Ok (s, Some ''partial durability progress tail'')"
  by (subst progress_scan_loop.simps) simp

section \<open>Writing\<close>

fun progress_run ::
  "'v externals \<Rightarrow> progress_codec \<Rightarrow> durability_ack list \<Rightarrow> durability_progress_writer
    \<Rightarrow> durability_ack list \<times> durability_progress_writer" where
  "progress_run E C [] w = ([], w)"
| "progress_run E C (a # as) w =
     (let (r, w1) = progress_append E C a w; (accepted, w2) = progress_run E C as w1
      in ((case r of Inl _ \<Rightarrow> accepted | Inr _ \<Rightarrow> a # accepted), w2))"

text \<open>
  The journal holds the accepted acknowledgements, and nothing more while the writer is usable; a poisoned
  writer may have left a part of one further line, all of it unsynced.
\<close>

definition progress_inv ::
  "'v externals \<Rightarrow> progress_codec \<Rightarrow> (durability_ack \<Rightarrow> bool) \<Rightarrow> durability_ack list \<Rightarrow> durability_progress_writer \<Rightarrow> bool" where
  "progress_inv E C tried acks w \<longleftrightarrow> (\<exists>bs d. progress_chain E C (pw_raw_path w) acks bs d \<and> sk_synced (pw_file w) = length bs
     \<and> (\<not> pw_poisoned w \<longrightarrow> sk_data (pw_file w) = bs \<and> pw_record_count w = length acks
          \<and> pw_previous_digest w = d \<and> pw_latest_ack w = last_ack acks)
     \<and> (pw_poisoned w \<longrightarrow> (\<exists>a l d' m. tried a \<and> next_line E C (pw_raw_path w) acks d a l d'
          \<and> sk_data (pw_file w) = bs @ take m (l @ [newline]))))"

lemma progress_append_inv:
  assumes "progress_inv E C tried acks w" "progress_append E C a w = (r, w')" "tried a" "length acks < u64_max"
  shows "progress_inv E C tried (case r of Inl _ \<Rightarrow> acks | Inr _ \<Rightarrow> acks @ [a]) w'"
proof (cases "w' = w \<and> (\<exists>e. r = Err e)")
  case True
  then show ?thesis using assms(1) by auto
next
  case False
  have np: "\<not> pw_poisoned w" and v: "validate_ack a = Ok ()" "\<not> ack_stalls (pw_latest_ack w) a"
    using False assms(2) by (cases "validate_ack a"; auto simp: progress_append_def split: if_splits)+
  obtain bs d where i: "progress_chain E C (pw_raw_path w) acks bs d" "sk_synced (pw_file w) = length bs"
    "sk_data (pw_file w) = bs" "pw_record_count w = length acks" "pw_previous_digest w = d" "pw_latest_ack w = last_ack acks"
    using assms(1) np by (auto simp: progress_inv_def)
  define body where "body = \<lparr>pb_schema = ''RawDurabilityProgressV1'', pb_record_index = length acks,
    pb_raw_path = pw_raw_path w, pb_ack = a, pb_previous_record_sha256 = d\<rparr>"
  obtain bb l ok1 s1 where b: "pc_body_to_vec C body = Some bb"
    "pc_to_vec C \<lparr>pe_body = body, pe_record_sha256 = sha256_hex E bb\<rparr> = Some l"
    "sink_write_all (l @ [newline]) (pw_file w) = (ok1, s1)"
    using False assms(2) np v i(4,5)
    by (auto simp: progress_append_def Let_def body_def split: option.splits prod.splits bool.splits)
  have nl: "next_line E C (pw_raw_path w) acks d a l (sha256_hex E bb)"
    unfolding next_line_def using v i(6) b(1,2) by (auto simp: body_def)
  note p1 = sink_write_all_props [OF b(3)]
  have r0: "progress_append E C a w =
      (if \<not> ok1 then (Err (Fail ''sync durability progress; writer poisoned''), w\<lparr>pw_file := s1, pw_poisoned := True\<rparr>)
       else if \<not> fst (sink_sync s1)
       then (Err (Fail ''sync durability progress; writer poisoned''), w\<lparr>pw_file := snd (sink_sync s1), pw_poisoned := True\<rparr>)
       else (Ok (), w\<lparr>pw_file := snd (sink_sync s1), pw_record_count := length acks + 1,
              pw_previous_digest := sha256_hex E bb, pw_latest_ack := Some a\<rparr>))"
    using np v b i(4,5) assms(4)
    by (auto simp: progress_append_def Let_def body_def add_u64_def split: prod.splits bool.splits)
  show ?thesis
  proof (cases "ok1 \<and> fst (sink_sync s1)")
    case True
    have p2: "sk_data (snd (sink_sync s1)) = sk_data s1" "sk_synced (snd (sink_sync s1)) = length (sk_data s1)"
      using sink_sync_props [OF surjective_pairing, of s1] True by simp_all
    show ?thesis using assms(2) r0 True chain_line [OF i(1) nl] p1(2) p2 i(3) np
      by (auto simp: progress_inv_def last_ack_def)
  next
    case bad: False
    obtain m where m: "sk_data (pw_file w') = bs @ take m (l @ [newline])" "sk_synced (pw_file w') = length bs"
      "pw_poisoned w'" "pw_raw_path w' = pw_raw_path w" "\<exists>e. r = Err e"
    proof (cases ok1)
      case True
      then show ?thesis using assms(2) r0 bad p1(1,2) i(2,3) sink_sync_props [OF surjective_pairing, of s1]
        by (intro that [of "length (l @ [newline])"]) auto
    next
      case no: False
      obtain k where "sk_data s1 = sk_data (pw_file w) @ take (min k (length (l @ [newline]) - 1)) (l @ [newline])"
        using p1(3) no by blast
      then show ?thesis using assms(2) r0 no p1(1) i(2,3) by (intro that [of "min k (length l)"]) auto
    qed
    obtain e where "r = Err e" using m(5) ..
    then show ?thesis unfolding progress_inv_def m(2,4)
      using i(1) nl m(1,3) assms(3) by (intro exI [of _ bs] exI [of _ d]) (simp del: take_append, blast)
  qed
qed

lemma progress_run_inv:
  assumes "progress_inv E C tried acks w" "progress_run E C as w = (accepted, w')" "\<forall>a\<in>set as. tried a"
    and "length acks + length as \<le> u64_max"
  shows "progress_inv E C tried (acks @ accepted) w'"
  using assms
proof (induction as arbitrary: acks w accepted)
  case Nil
  then show ?case by simp
next
  case (Cons a as)
  obtain r w1 rest where r: "progress_append E C a w = (r, w1)" "progress_run E C as w1 = (rest, w')"
    "accepted = (case r of Inl _ \<Rightarrow> rest | Inr _ \<Rightarrow> a # rest)"
    using Cons.prems(2) by (auto simp: Let_def split: prod.splits)
  have "progress_inv E C tried (case r of Inl _ \<Rightarrow> acks | Inr _ \<Rightarrow> acks @ [a]) w1"
    using progress_append_inv [OF Cons.prems(1) r(1)] Cons.prems(3,4) by simp
  then show ?case
    using Cons.IH [OF _ r(2), of "case r of Inl _ \<Rightarrow> acks | Inr _ \<Rightarrow> acks @ [a]"] Cons.prems(3,4) r(3)
    by (auto split: sum.splits)
qed

text \<open>Every acknowledgement of a journal advances both the record count and the offset of all before it.\<close>

definition acks_advance :: "durability_ack list \<Rightarrow> bool" where
  "acks_advance = sorted_wrt (\<lambda>a b. da_durable_record_count a < da_durable_record_count b
     \<and> da_durable_through_offset a < da_durable_through_offset b)"

lemma progress_chain_advances: "progress_chain E C raw acks bs d \<Longrightarrow> acks_advance acks"
proof (induction rule: progress_chain.induct)
  case (chain_line acks bs d a l d')
  have "da_durable_record_count b < da_durable_record_count a \<and> da_durable_through_offset b < da_durable_through_offset a"
    if "b \<in> set acks" for b
  proof -
    obtain ys y where y: "acks = ys @ [y]" using \<open>b \<in> set acks\<close> by (cases acks rule: rev_exhaust) auto
    have "da_durable_record_count y < da_durable_record_count a \<and> da_durable_through_offset y < da_durable_through_offset a"
      using chain_line.hyps(2) y by (simp add: next_line_def ack_stalls_def last_ack_def)
    then show ?thesis using chain_line.IH that unfolding y acks_advance_def by (fastforce simp: sorted_wrt_append)
  qed
  then show ?case using chain_line.IH by (simp add: acks_advance_def sorted_wrt_append)
qed (simp add: acks_advance_def)

lemma scan_loop_cut:
  assumes "progress_codec_ok C" "progress_chain E C raw acks bs d"
    and "tail \<noteq> [] \<longrightarrow> (\<exists>a l d' k. a \<in> tried \<and> next_line E C raw acks d a l d' \<and> tail = take k (l @ [newline]))"
  shows "\<exists>extra d2 reason. progress_scan_loop E C (bs @ tail) progress_scan_start = Ok (scanned_acks (acks @ extra) d2, reason)
    \<and> set extra \<subseteq> tried \<and> length extra \<le> 1 \<and> acks_advance (acks @ extra) \<and> (tail = [] \<longrightarrow> extra = [] \<and> reason = None)"
proof (cases "tail = []")
  case True
  then show ?thesis using scan_loop_progress [OF assms(2,1), of tail] progress_chain_advances [OF assms(2)]
    by (intro exI [of _ "[]"] exI [of _ d] exI [of _ None]) (simp add: scan_loop_end)
next
  case False
  then obtain a l d' k where a: "a \<in> tried" "next_line E C raw acks d a l d'" "tail = take k (l @ [newline])"
    using assms(3) by blast
  have nolf: "newline \<notin> set l" using a(2) assms(1) unfolding next_line_def progress_codec_ok_def by blast
  show ?thesis
  proof (cases "k \<le> length l")
    case True
    then have "newline \<notin> set tail" using nolf a(3) by (auto dest: in_set_takeD)
    then show ?thesis
      using False scan_loop_progress [OF assms(2,1), of tail] progress_chain_advances [OF assms(2)]
      by (intro exI [of _ "[]"] exI [of _ d] exI [of _ "Some ''partial durability progress tail''"]) (simp add: scan_loop_partial)
  next
    case whole: False
    then have "tail = l @ newline # []" using a(3) by simp
    then show ?thesis
      using False a(1) scan_loop_progress [OF assms(2,1), of tail] scan_loop_line [OF assms(1) a(2), of "[]"]
        progress_chain_advances [OF chain_line [OF assms(2) a(2)]]
      by (intro exI [of _ "[a]"] exI [of _ d'] exI [of _ None]) (simp add: scan_loop_end)
  qed
qed

text \<open>
  C21. The watermark journal survives crashes: after any acknowledgements were offered to a fresh journal on
  any sink, what a crash leaves of the file beyond its last sync still scans, to exactly the acknowledgements
  the writer accepted, in order and each advancing count and offset, followed at most by one whose sync
  failed; and while no write failed the scan is clean.
\<close>

theorem progress_survives_crash:
  assumes "progress_codec_ok C" "progress_run E C as (progress_create \<lparr>sk_data = [], sk_synced = 0, sk_plan = plan\<rparr> raw) = (accepted, w)"
    and "length as \<le> u64_max" "sk_synced (pw_file w) \<le> n"
  shows "\<exists>scan extra. scan_durability_progress E C (Some (take n (sk_data (pw_file w)))) = Ok scan
    \<and> ds_acknowledgements scan = accepted @ extra \<and> set extra \<subseteq> set as \<and> length extra \<le> 1
    \<and> acks_advance (ds_acknowledgements scan) \<and> ds_latest_ack scan = last_ack (ds_acknowledgements scan)
    \<and> (\<not> pw_poisoned w \<longrightarrow> extra = [] \<and> ds_clean_eof scan \<and> ds_latest_ack scan = pw_latest_ack w)"
proof -
  have "progress_inv E C (\<lambda>a. a \<in> set as) [] (progress_create \<lparr>sk_data = [], sk_synced = 0, sk_plan = plan\<rparr> raw)"
    by (auto simp: progress_inv_def progress_create_def last_ack_def intro: chain_start)
  then have "progress_inv E C (\<lambda>a. a \<in> set as) accepted w"
    using progress_run_inv [OF _ assms(2), of "\<lambda>a. a \<in> set as" "[]"] assms(3) by simp
  then obtain bs d where i: "progress_chain E C (pw_raw_path w) accepted bs d" "sk_synced (pw_file w) = length bs"
    "\<not> pw_poisoned w \<Longrightarrow> sk_data (pw_file w) = bs \<and> pw_latest_ack w = last_ack accepted"
    "pw_poisoned w \<Longrightarrow> \<exists>a l d' m. a \<in> set as \<and> next_line E C (pw_raw_path w) accepted d a l d'
          \<and> sk_data (pw_file w) = bs @ take m (l @ [newline])"
    unfolding progress_inv_def by blast
  obtain tail where t: "take n (sk_data (pw_file w)) = bs @ tail" "pw_poisoned w \<or> tail = []"
    "tail \<noteq> [] \<Longrightarrow> \<exists>a l d' k. a \<in> set as \<and> next_line E C (pw_raw_path w) accepted d a l d' \<and> tail = take k (l @ [newline])"
  proof (cases "pw_poisoned w")
    case True
    then obtain a l d' m where a: "a \<in> set as" "next_line E C (pw_raw_path w) accepted d a l d'"
      "sk_data (pw_file w) = bs @ take m (l @ [newline])" using i(4) by blast
    have "take n (sk_data (pw_file w)) = bs @ take (min (n - length bs) m) (l @ [newline])"
      using assms(4) i(2) take_append [of n bs "take m (l @ [newline])"] by (simp add: a(3) del: take_append)
    then show ?thesis using a(1,2) True by (intro that) blast+
  next
    case False
    then show ?thesis using i(2,3) assms(4) by (intro that [of "[]"]) auto
  qed
  obtain extra d2 reason where e: "progress_scan_loop E C (bs @ tail) progress_scan_start = Ok (scanned_acks (accepted @ extra) d2, reason)"
    "set extra \<subseteq> set as" "length extra \<le> 1" "acks_advance (accepted @ extra)" "tail = [] \<longrightarrow> extra = [] \<and> reason = None"
    using scan_loop_cut [OF assms(1) i(1), of tail "set as"] t(3) by blast
  obtain scan where sc: "scan_durability_progress E C (Some (take n (sk_data (pw_file w)))) = Ok scan"
    "ds_acknowledgements scan = accepted @ extra" "ds_latest_ack scan = last_ack (accepted @ extra)" "ds_clean_eof scan \<longleftrightarrow> reason = None"
    using e(1) t(1) by (simp add: scan_durability_progress_def open_file_def) (simp add: scanned_acks_def)
  show ?thesis using sc e(2-5) t(2) i(3) by (intro exI [of _ scan] exI [of _ extra]) auto
qed

end
