(* ===== verification/Durable_Prefix.thy ===== *)
theory Durable_Prefix
  imports Durability_Progress_Safety
begin

text \<open>
  What an acknowledgement of a raw-log session is good for: freezing the acknowledged prefix, reading the
  records between two acknowledgements, and resuming after an observation, all on whatever a crash left
  of the file.
\<close>

section \<open>Logs of one stream\<close>

lemma set_AList_update: "set (AList.update k v x) \<subseteq> insert (k, v) (set x)"
  by (induction x) auto

lemma chain_keys:
  "raw_chain E to_vec p [] fs bs p' x' \<Longrightarrow> (\<forall>e\<in>set x'. 0 < snd e) \<and> fst ` set x' = frame_key ` set fs"
proof (induction rule: raw_chain.induct)
  case (chain_snoc fs bs p' x' f body)
  then show ?case using set_AList_update [of "frame_key f" "cf_frame_index f + 1" x'] by (auto simp: dom_update)
qed simp

lemma watermark_of_pos:
  "0 < n \<Longrightarrow> watermark_of (k, n) = Some \<lparr>wm_connection_epoch = fst k, wm_stream = snd k, wm_durable_through_frame_index = n - 1\<rparr>"
  by (simp add: watermark_of_def checked_sub_def)

lemma watermarks_length: "\<forall>e\<in>set x. 0 < snd e \<Longrightarrow> length (durability_watermarks x) = length x"
  by (induction x) (auto simp: durability_watermarks_def map_filter_simps watermark_of_pos)

lemma one_key:
  "raw_chain E to_vec p x fs bs p' x' \<Longrightarrow> \<forall>f\<in>set fs. frame_key f = k \<Longrightarrow>
     expected_next x' k = expected_next x k + length fs
     \<and> map cf_frame_index fs = [expected_next x k ..< expected_next x k + length fs]"
proof (induction rule: raw_chain.induct)
  case (chain_snoc fs bs p' x' f body)
  then show ?case by (auto simp: expected_next_def update_conv')
qed simp

lemma one_key_map:
  "raw_chain E to_vec p [] fs bs p' x' \<Longrightarrow> \<forall>f\<in>set fs. frame_key f = k \<Longrightarrow> x' = (if fs = [] then [] else [(k, length fs)])"
proof (induction rule: raw_chain.induct)
  case (chain_snoc fs bs p' x' f body)
  then show ?case by (auto simp: expected_next_def)
qed simp

lemma single_stream:
  assumes "raw_chain E to_vec p [] fs bs p' x'" "length (durability_watermarks x') = 1"
  shows "\<exists>k. x' = [(k, length fs)] \<and> fs \<noteq> [] \<and> (\<forall>f\<in>set fs. frame_key f = k) \<and> map cf_frame_index fs = [0 ..< length fs]
    \<and> durability_watermarks x'
      = [\<lparr>wm_connection_epoch = fst k, wm_stream = snd k, wm_durable_through_frame_index = length fs - 1\<rparr>]"
proof -
  have k0: "\<forall>e\<in>set x'. 0 < snd e" "fst ` set x' = frame_key ` set fs" using chain_keys [OF assms(1)] by auto
  have "length x' = 1" using assms(2) watermarks_length [OF k0(1)] by simp
  then obtain k n where x: "x' = [(k, n)]" by (cases x') auto
  have keys: "\<forall>f\<in>set fs. frame_key f = k" "fs \<noteq> []" using k0(2) x by auto
  have "n = length fs" "map cf_frame_index fs = [0 ..< length fs]"
    using one_key [OF assms(1) keys(1)] x by (auto simp: expected_next_def)
  then show ?thesis using x keys k0(1) by (auto simp: durability_watermarks_def map_filter_simps watermark_of_pos)
qed

lemma chain_last:
  assumes "chain_positions E to_vec p x s fs envs" "raw_chain E to_vec p x fs bs p' x'" "fs \<noteq> []"
  shows "envs \<noteq> [] \<and> last envs = envs ! (length fs - 1)
    \<and> re_end_offset (last envs) = s + length bs \<and> re_record_sha256 (last envs) = p'"
proof -
  have l: "length envs = length fs" "length fs - 1 < length fs" using assms(1,3) by (auto simp: chain_positions_def)
  then have ne: "envs \<noteq> []" by auto
  then have ne: "envs \<noteq> []" "last envs = envs ! (length fs - 1)" using last_conv_nth [OF ne] l(1) by simp_all
  obtain b q y where b: "raw_chain E to_vec p x (take (Suc (length fs - 1)) fs) b q y"
    "re_end_offset (envs ! (length fs - 1)) = s + length b" "re_record_sha256 (envs ! (length fs - 1)) = q"
    using assms(1) l(2) unfolding chain_positions_def by metis
  have "b = bs \<and> q = p'" using raw_chain_det [OF assms(2)] b(1) assms(3) by fastforce
  then show ?thesis using b(2,3) ne by simp
qed

lemma envelope_frame: "envelopes_of n fs envs \<Longrightarrow> i < length fs \<Longrightarrow> re_frame (envs ! i) = raw_frame_of (fs ! i)"
  unfolding envelopes_of_def by (metis length_map nth_map)

section \<open>Acknowledgements of a session\<close>

text \<open>\<open>acked_session E to_vec w0 acc acks w\<close>: a session in which \<open>acks\<close> were seen as the last acknowledgement.\<close>

inductive acked_session ::
  "'v externals \<Rightarrow> (raw_record \<Rightarrow> bytes option) \<Rightarrow> raw_log_writer \<Rightarrow> captured_frame list \<Rightarrow> durability_ack set \<Rightarrow> raw_log_writer \<Rightarrow> bool"
  for E to_vec w0 where
  acked_start: "acked_session E to_vec w0 [] {} w0"
| acked_more: "acked_session E to_vec w0 acc acks w \<Longrightarrow> session E to_vec w acc' w' \<Longrightarrow>
    acked_session E to_vec w0 (acc @ acc') (acks \<union> set_option (w_last_ack w')) w'"

definition ack_count_le :: "nat \<Rightarrow> raw_log_writer \<Rightarrow> bool" where
  "ack_count_le n w \<longleftrightarrow> (\<forall>a. w_last_ack w = Some a \<longrightarrow> da_durable_record_count a \<le> n)"

lemma writer_sync_ack:
  assumes "writer_sync w = (r, w')" "sk_synced (w_sink w) \<le> length (sk_data (w_sink w))"
  shows "sk_synced (w_sink w) \<le> sk_synced (w_sink w')"
    and "w_last_ack w' = (case r of Inl _ \<Rightarrow> w_last_ack w | Inr a \<Rightarrow> Some a)"
    and "r = Ok a \<Longrightarrow> da_durable_record_count a = w_record_count w"
  using assms sink_sync_props [OF surjective_pairing, of "w_sink w"]
  by (auto simp: writer_sync_def Let_def split: if_splits prod.splits)

lemma append_commit_ack:
  assumes "append_commit E w f body = (r, w')" "\<not> fatal r" "sk_synced (w_sink w) \<le> length (sk_data (w_sink w))"
  shows "sk_synced (w_sink w) \<le> sk_synced (w_sink w')
    \<and> (w_last_ack w' = w_last_ack w
       \<or> (\<exists>rc a. r = Ok rc \<and> w_last_ack w' = Some a \<and> da_durable_record_count a = w_record_count w + 1))"
proof -
  define w5 where "w5 = w\<lparr>w_previous_digest := sha256_hex E body,
    w_expected := AList.update (frame_key f) (expected_next (w_expected w) (frame_key f) + 1) (w_expected w),
    w_record_count := w_record_count w + 1, w_end_offset := w_end_offset w + length (encode_record E body),
    w_since_sync := w_since_sync w + 1\<rparr>"
  have f: "w_sink w5 = w_sink w" "w_last_ack w5 = w_last_ack w" "w_record_count w5 = w_record_count w + 1"
    by (simp_all add: w5_def)
  have "w' = w5 \<or> (\<exists>q. writer_sync w5 = (q, w') \<and> (\<forall>a. q = Ok a \<longrightarrow> (\<exists>rc. r = Ok rc)))"
    using assms(1,2)
    by (auto simp: append_commit_def Let_def fatal_def w5_def split: if_splits option.splits prod.splits sum.splits)
  then show ?thesis
  proof
    assume "w' = w5"
    then show ?thesis by (simp add: f)
  next
    assume "\<exists>q. writer_sync w5 = (q, w') \<and> (\<forall>a. q = Ok a \<longrightarrow> (\<exists>rc. r = Ok rc))"
    then obtain q where q: "writer_sync w5 = (q, w')" "\<forall>a. q = Ok a \<longrightarrow> (\<exists>rc. r = Ok rc)" by blast
    show ?thesis using writer_sync_ack [OF q(1)] q(2) assms(3) f by (auto split: sum.splits)
  qed
qed

lemma writer_append_ack:
  assumes "writer_append E to_vec w f = (r, w')" "\<not> fatal r" "sk_synced (w_sink w) \<le> length (sk_data (w_sink w))"
  shows "sk_synced (w_sink w) \<le> sk_synced (w_sink w')
    \<and> (w_last_ack w' = w_last_ack w
       \<or> (\<exists>rc a. r = Ok rc \<and> w_last_ack w' = Some a \<and> da_durable_record_count a = w_record_count w + 1))"
proof (cases "w' = w")
  case False
  then obtain body ok sk where b: "sink_write_all (encode_record E body) (w_sink w) = (ok, sk)"
    "(r, w') = (if ok then append_commit E (w\<lparr>w_sink := sk\<rparr>) f body
        else (Err (Fail ''write raw record; writer poisoned''), w\<lparr>w_sink := sk, w_poisoned := True\<rparr>))"
    using assms(1) by (auto simp: writer_append_def Let_def split: if_splits option.splits prod.splits)
  note p = sink_write_all_props [OF b(1)]
  show ?thesis
  proof (cases ok)
    case True
    then show ?thesis using append_commit_ack [of E "w\<lparr>w_sink := sk\<rparr>" f body r w'] assms(2,3) b(2) p(1,2) by auto
  next
    case False
    then show ?thesis using b(2) p(1) by simp
  qed
qed simp

lemma session_extends:
  assumes "session E to_vec w acc' w'" "writer_log E to_vec p x fs w" "file_frames acc w fs" "ack_count_le (length acc) w"
  shows "\<exists>gs. writer_log E to_vec p x (fs @ gs) w' \<and> file_frames (acc @ acc') w' (fs @ gs)
    \<and> sk_synced (w_sink w) \<le> sk_synced (w_sink w') \<and> ack_count_le (length (acc @ acc')) w'"
  using assms
proof (induction rule: session.induct)
  case session_start
  then show ?case by (intro exI [of _ "[]"]) simp
next
  case (session_append acc' w1 f receipt w2)
  obtain gs where g: "writer_log E to_vec p x (fs @ gs) w1" "file_frames (acc @ acc') w1 (fs @ gs)"
    "sk_synced (w_sink w) \<le> sk_synced (w_sink w1)" "ack_count_le (length (acc @ acc')) w1"
    using session_append.IH session_append.prems by blast
  have "\<not> w_poisoned w1" using session_append(3) by (auto simp: writer_append_def)
  then have same: "fs @ gs = acc @ acc'" using g(2) by (auto simp: file_frames_def)
  have count: "w_record_count w1 = length (fs @ gs)" "sk_synced (w_sink w1) \<le> length (sk_data (w_sink w1))"
    using g(1) by (auto simp: writer_log_def)
  note eq = same count [unfolded same]
  have l: "writer_log E to_vec p x ((fs @ gs) @ [f]) w2 \<and> \<not> w_poisoned w2"
    using writer_append_log [OF g(1) session_append(2,3)] by (simp add: fatal_def)
  have "sk_synced (w_sink w1) \<le> sk_synced (w_sink w2) \<and> ack_count_le (length (acc @ acc' @ [f])) w2"
    using writer_append_ack [OF session_append(3)] g(4) eq(2,3) by (fastforce simp: fatal_def ack_count_le_def)
  then show ?case using l g(3) same by (intro exI [of _ "gs @ [f]"]) (simp add: file_frames_def, metis append_assoc)
next
  case (session_reject acc' w1 f e w2)
  obtain gs where g: "writer_log E to_vec p x (fs @ gs) w1" "file_frames (acc @ acc') w1 (fs @ gs)"
    "sk_synced (w_sink w) \<le> sk_synced (w_sink w1)" "ack_count_le (length (acc @ acc')) w1"
    using session_reject.IH session_reject.prems by blast
  have y: "sk_synced (w_sink w1) \<le> length (sk_data (w_sink w1))" using g(1) by (simp add: writer_log_def)
  have k: "sk_synced (w_sink w1) \<le> sk_synced (w_sink w2)" "w_last_ack w2 = w_last_ack w1"
    using writer_append_ack [OF session_reject(3,4) y] by auto
  from writer_append_log [OF g(1) session_reject(2-4)] consider
    (same) "writer_log E to_vec p x (fs @ gs) w2" "w2 = w1 \<or> w_poisoned w2"
    | (more) "writer_log E to_vec p x ((fs @ gs) @ [f]) w2" "w_poisoned w2" "\<not> w_poisoned w1"
    by auto
  then show ?case
  proof cases
    case same
    then show ?thesis using g k by (intro exI [of _ gs]) (auto simp: file_frames_def ack_count_le_def)
  next
    case more
    then show ?thesis using g k by (intro exI [of _ "gs @ [f]"]) (auto simp: file_frames_def ack_count_le_def)
  qed
next
  case (session_sync acc' w1 r w2)
  obtain gs where g: "writer_log E to_vec p x (fs @ gs) w1" "file_frames (acc @ acc') w1 (fs @ gs)"
    "sk_synced (w_sink w) \<le> sk_synced (w_sink w1)" "ack_count_le (length (acc @ acc')) w1"
    using session_sync.IH session_sync.prems by blast
  have y: "sk_synced (w_sink w1) \<le> length (sk_data (w_sink w1))" "w_record_count w1 = length (fs @ gs)" using g(1) by (auto simp: writer_log_def)
  have k: "file_frames (acc @ acc') w2 (fs @ gs)"
    using g(2) poisoned_sync session_sync(2) by (fastforce simp: file_frames_def)
  have a: "ack_count_le (length (acc @ acc')) w2"
  proof (cases "w_poisoned w1")
    case True
    then show ?thesis using poisoned_sync session_sync(2) g(4) by fastforce
  next
    case False
    then have "w_record_count w1 = length (acc @ acc')" using y(2) g(2) by (simp only: file_frames_def) simp
    then show ?thesis using writer_sync_ack(2,3) [OF session_sync(2) y(1)] g(4)
      by (auto simp: ack_count_le_def split: sum.splits)
  qed
  show ?case using writer_sync_log [OF g(1) session_sync(2)] k a g(3) writer_sync_ack(1) [OF session_sync(2) y(1)]
    by (intro exI [of _ gs]) simp
qed

definition ack_kept ::
  "'v externals \<Rightarrow> (raw_record \<Rightarrow> bytes option) \<Rightarrow> captured_frame list \<Rightarrow> nat \<Rightarrow> raw_log_writer \<Rightarrow> durability_ack \<Rightarrow> bool" where
  "ack_kept E to_vec fs n w a \<longleftrightarrow> ack_covers E to_vec ZERO_DIGEST [] fs a
     \<and> da_durable_through_offset a \<le> sk_synced (w_sink w) \<and> da_durable_record_count a \<le> n"

lemma acked_session_log:
  assumes "acked_session E to_vec w0 acc acks w" "writer_from_sink sk sync_every = Ok w0" "sk_data sk = []"
  shows "\<exists>fs. writer_log E to_vec ZERO_DIGEST [] fs w \<and> file_frames acc w fs \<and> ack_count_le (length acc) w
    \<and> (\<forall>a\<in>acks. ack_kept E to_vec fs (length acc) w a)"
  using assms(1)
proof (induction rule: acked_session.induct)
  case acked_start
  have "w_last_ack w0 = None" using assms(2)
    by (auto simp: writer_from_sink_def writer_initialize_def Let_def split: if_splits prod.splits)
  then show ?case using fresh_log [OF assms(2,3)] by (auto simp: file_frames_def ack_count_le_def)
next
  case (acked_more acc acks w acc' w')
  then obtain fs where fs: "writer_log E to_vec ZERO_DIGEST [] fs w" "file_frames acc w fs" "ack_count_le (length acc) w"
    "\<forall>a\<in>acks. ack_kept E to_vec fs (length acc) w a" by blast
  obtain gs where g: "writer_log E to_vec ZERO_DIGEST [] (fs @ gs) w'" "file_frames (acc @ acc') w' (fs @ gs)"
    "sk_synced (w_sink w) \<le> sk_synced (w_sink w')" "ack_count_le (length (acc @ acc')) w'"
    using session_extends [OF acked_more.hyps(2) fs(1-3)] by blast
  have "ack_kept E to_vec (fs @ gs) (length (acc @ acc')) w' a" if "a \<in> acks \<union> set_option (w_last_ack w')" for a
    using that
  proof
    assume "a \<in> acks"
    then show ?thesis using fs(4) g(3) by (fastforce simp: ack_kept_def intro: ack_covers_mono)
  next
    assume "a \<in> set_option (w_last_ack w')"
    then show ?thesis using g(1,4) by (auto simp: ack_kept_def writer_log_def ack_count_le_def)
  qed
  then show ?case using g by blast
qed

section \<open>The acknowledged prefix of a crash image\<close>

text \<open>
  \<open>img\<close> starts with the bytes \<open>bs\<close> of the frames of \<open>acc\<close> that \<open>a\<close> acknowledges, all of the one
  stream \<open>k\<close>.
\<close>

definition acked_prefix ::
  "'v externals \<Rightarrow> (raw_record \<Rightarrow> bytes option) \<Rightarrow> bytes \<Rightarrow> captured_frame list \<Rightarrow> durability_ack \<Rightarrow> stream_key \<Rightarrow> bytes \<Rightarrow> bool" where
  "acked_prefix E to_vec img acc a k bs \<longleftrightarrow>
     raw_chain E to_vec ZERO_DIGEST [] (take (da_durable_record_count a) acc) bs (da_last_record_sha256 a) [(k, da_durable_record_count a)]
     \<and> 0 < da_durable_record_count a \<and> da_durable_record_count a \<le> length acc
     \<and> da_durable_through_offset a = 8 + length bs \<and> 8 + length bs \<le> u64_max \<and> take (8 + length bs) img = MAGIC @ bs
     \<and> (\<forall>f\<in>set (take (da_durable_record_count a) acc). frame_key f = k)
     \<and> map cf_frame_index (take (da_durable_record_count a) acc) = [0 ..< da_durable_record_count a]
     \<and> da_streams a = [\<lparr>wm_connection_epoch = fst k, wm_stream = snd k,
          wm_durable_through_frame_index = da_durable_record_count a - 1\<rparr>]"

lemma acked_prefix_exists:
  assumes "acked_session E to_vec w0 acc acks w" "writer_from_sink sk sync_every = Ok w0" "sk_data sk = []"
    and "a \<in> acks" "length (da_streams a) = 1" "sk_synced (w_sink w) \<le> n"
  shows "\<exists>k bs. acked_prefix E to_vec (take n (sk_data (w_sink w))) acc a k bs"
proof -
  obtain fs where fs: "writer_log E to_vec ZERO_DIGEST [] fs w" "file_frames acc w fs" "ack_kept E to_vec fs (length acc) w a"
    using acked_session_log [OF assms(1-3)] assms(4) by blast
  obtain fs1 fs2 bs1 x1 where c: "fs = fs1 @ fs2" "raw_chain E to_vec ZERO_DIGEST [] fs1 bs1 (da_last_record_sha256 a) x1"
    "da_durable_record_count a = length fs1" "da_durable_through_offset a = 8 + length bs1" "da_streams a = durability_watermarks x1"
    "length fs1 \<le> length acc" "8 + length bs1 \<le> sk_synced (w_sink w)"
    using fs(3) by (auto simp: ack_kept_def ack_covers_def)
  have t: "take (length fs1) acc = fs1" using c(1,6) fs(2) by (auto simp: file_frames_def append_eq_append_conv_if split: if_splits)
  obtain k where k: "x1 = [(k, length fs1)]" "fs1 \<noteq> []" "\<forall>f\<in>set fs1. frame_key f = k" "map cf_frame_index fs1 = [0 ..< length fs1]"
    "durability_watermarks x1 = [\<lparr>wm_connection_epoch = fst k, wm_stream = snd k, wm_durable_through_frame_index = length fs1 - 1\<rparr>]"
    using single_stream [OF c(2)] assms(5) c(5) by auto
  obtain bs tail where b: "raw_chain E to_vec ZERO_DIGEST [] fs bs (w_previous_digest w) (w_expected w)"
    "sk_data (w_sink w) = MAGIC @ bs @ tail" "8 + length bs \<le> u64_max"
    using fs(1) by (auto simp: writer_log_def)
  obtain b2 where b2: "bs = bs1 @ b2" using raw_chain_append [OF b(1) [unfolded c(1)]] raw_chain_det [OF c(2)] by blast
  have "take (8 + length bs1) (take n (sk_data (w_sink w))) = MAGIC @ bs1"
    using c(7) assms(6) by (simp add: b(2) b2 min_def)
  then show ?thesis unfolding acked_prefix_def
    using c k b(3) b2 t by (intro exI [of _ k] exI [of _ bs1]) auto
qed

lemma acked_prefix_read:
  assumes "acked_prefix E to_vec img acc a k bs" "raw_externals_ok E to_vec"
  shows "\<exists>envs. read_raw_records_after_magic E 8 ZERO_DIGEST [] 0 bs = Ok envs
    \<and> envelopes_of 0 (take (da_durable_record_count a) acc) envs
    \<and> chain_positions E to_vec ZERO_DIGEST [] 8 (take (da_durable_record_count a) acc) envs
    \<and> length envs = da_durable_record_count a \<and> ack_matches_record a (last envs)"
proof -
  let ?c = "da_durable_record_count a" and ?fs = "take (da_durable_record_count a) acc"
  have p: "raw_chain E to_vec ZERO_DIGEST [] ?fs bs (da_last_record_sha256 a) [(k, ?c)]" "0 < ?c" "?c \<le> length acc"
    "da_durable_through_offset a = 8 + length bs" "8 + length bs \<le> u64_max" "\<forall>f\<in>set ?fs. frame_key f = k"
    "map cf_frame_index ?fs = [0 ..< ?c]"
    "da_streams a = [\<lparr>wm_connection_epoch = fst k, wm_stream = snd k, wm_durable_through_frame_index = ?c - 1\<rparr>]"
    using assms(1) by (auto simp: acked_prefix_def)
  obtain envs where e: "envelopes_of 0 ?fs envs" "chain_positions E to_vec ZERO_DIGEST [] 8 ?fs envs"
    "\<And>rest. read_raw_records_after_magic E 8 ZERO_DIGEST [] 0 (bs @ rest)
          = rbind (read_raw_records_after_magic E (8 + length bs) (da_last_record_sha256 a) [(k, ?c)] (0 + length ?fs) rest)
              (\<lambda>rs. Ok (envs @ rs))"
    using read_records_chain [OF p(1) assms(2) p(5), of 0] by blast
  have l: "length envs = ?c" "length ?fs = ?c" "?c - 1 < ?c" using e(2) p(2,3) by (auto simp: chain_positions_def)
  have key: "frame_key (?fs ! (?c - 1)) = k" using p(6) l(2,3) by (metis nth_mem)
  have idx: "cf_frame_index (?fs ! (?c - 1)) = ?c - 1" using p(7) l(2,3) by (metis add_0 nth_map nth_upt)
  have "?fs \<noteq> []" using l(2) p(2) by auto
  then have "ack_matches_record a (last envs)"
    using chain_last [OF e(2) p(1)] envelope_frame [OF e(1), of "?c - 1"] p(4,8) key idx l(2,3)
    by (auto simp: ack_matches_record_def raw_frame_of_def frame_key_def)
  then show ?thesis using e(1,2) e(3) [of "[]"] l(1) by auto
qed

lemma acked_prefix_image:
  "acked_prefix E to_vec img acc a k bs \<Longrightarrow> da_durable_through_offset a \<le> length img
     \<and> take (da_durable_through_offset a) img = MAGIC @ bs"
  unfolding acked_prefix_def by (metis length_MAGIC length_append length_take min.cobounded1)

text \<open>
  Freezing an acknowledged prefix. For every acknowledgement of a session of one stream that the
  watermark journal names as its latest, and for whatever a crash left of the raw file beyond its last sync,
  the durable prefix can be copied to a new file whose writes succeed: the copy is verified against the
  acknowledgement and holds exactly the acknowledged frames, and it verifies against the journal again.
\<close>

theorem durable_prefix_freezes:
  assumes "raw_externals_ok E to_vec" "writer_from_sink sk sync_every = Ok w0" "sk_data sk = []"
    and "acked_session E to_vec w0 acc acks w" "sk_synced (w_sink w) \<le> n"
    and "ds_latest_ack scan = Some a" "a \<in> acks" "validate_ack a = Ok ()"
  shows "\<exists>out. freeze_durable_raw_prefix E scan (Some (take n (sk_data (w_sink w)))) (Some \<lparr>sk_data = [], sk_synced = 0, sk_plan = []\<rparr>)
        = Ok (a, out)
    \<and> read_raw_log E (Some out) = Ok (map raw_frame_of (take (da_durable_record_count a) acc))
    \<and> da_durable_record_count a \<le> length acc \<and> verify_progress_against_raw E scan (Some out) = Ok a"
proof -
  let ?img = "take n (sk_data (w_sink w))"
  have one: "length (da_streams a) = 1" using assms(8) by (auto simp: validate_ack_def split: if_splits)
  obtain k bs where p: "acked_prefix E to_vec ?img acc a k bs"
    using acked_prefix_exists [OF assms(4,2,3,7) one assms(5)] by blast
  obtain envs where e: "read_raw_records_after_magic E 8 ZERO_DIGEST [] 0 bs = Ok envs"
    "envelopes_of 0 (take (da_durable_record_count a) acc) envs" "length envs = da_durable_record_count a" "ack_matches_record a (last envs)"
    using acked_prefix_read [OF p assms(1)] by blast
  have pos: "0 < da_durable_record_count a" "da_durable_record_count a \<le> length acc" using p by (auto simp: acked_prefix_def)
  then have ne: "envs \<noteq> []" using e(3) by auto
  have rd: "read_raw_records E (Some (MAGIC @ bs)) = Ok envs" using e(1) by (simp add: read_raw_records_def open_file_def)
  have im: "\<not> length ?img < da_durable_through_offset a" "take (da_durable_through_offset a) ?img = MAGIC @ bs"
    using acked_prefix_image [OF p] by auto
  have "freeze_durable_raw_prefix E scan (Some ?img) (Some \<lparr>sk_data = [], sk_synced = 0, sk_plan = []\<rparr>) = Ok (a, MAGIC @ bs)"
    using im rd ne e(3,4) assms(6)
    by (simp add: freeze_durable_raw_prefix_def open_file_def sink_write_all_def sink_sync_def del: length_take take_take)
  moreover have "verify_progress_against_raw E scan (Some (MAGIC @ bs)) = Ok a"
    using rd ne e(3,4) assms(6) pos by (simp add: verify_progress_against_raw_def last_conv_nth)
  ultimately show ?thesis using rd e(2) pos by (auto simp: read_raw_log_def envelopes_frames)
qed

section \<open>Reading between acknowledgements\<close>

lemma acked_prefix_delta:
  assumes "acked_prefix E to_vec img acc a k bs" "acked_prefix E to_vec img acc b k' bs'" "raw_externals_ok E to_vec"
    and "da_durable_record_count a < da_durable_record_count b" "validate_ack a = Ok ()" "validate_ack b = Ok ()"
  shows "\<exists>records. read_durable_raw_delta E (Some img) a b = Ok records
    \<and> map re_frame records = map raw_frame_of (drop (da_durable_record_count a) (take (da_durable_record_count b) acc))"
proof -
  let ?m = "da_durable_record_count a" and ?n = "da_durable_record_count b"
  let ?d = "drop ?m (take ?n acc)"
  note A = assms(1) [unfolded acked_prefix_def] and B = assms(2) [unfolded acked_prefix_def]
  have len: "?m \<le> length acc" "?n \<le> length acc" "0 < ?m" using A B by auto
  have split: "take ?n acc = take ?m acc @ ?d" using assms(4) by (metis append_take_drop_id min.strict_order_iff take_take)
  have "hd acc \<in> set (take ?m acc)" "hd acc \<in> set (take ?n acc)"
    using len assms(4) by (cases acc; cases "?m"; cases "?n"; auto)+
  then have k: "k' = k" using A B by metis
  obtain b1 b2 p1 x1 where c0: "raw_chain E to_vec ZERO_DIGEST [] (take ?m acc) b1 p1 x1"
    "raw_chain E to_vec p1 x1 ?d b2 (da_last_record_sha256 b) [(k, ?n)]" "bs' = b1 @ b2"
    using raw_chain_split [of E to_vec ZERO_DIGEST "[]" "take ?m acc" ?d] B split k by metis
  have c: "raw_chain E to_vec (da_last_record_sha256 a) [(k, ?m)] ?d b2 (da_last_record_sha256 b) [(k, ?n)]" "bs' = bs @ b2"
    using raw_chain_det [OF _ c0(1)] c0(2,3) A by blast+
  have off: "da_durable_through_offset a = 8 + length bs" "da_durable_through_offset b = 8 + length bs + length b2"
    "8 + length bs + length b2 \<le> u64_max" using A B c(2) by auto
  have ld: "length ?d = ?n - ?m" "0 < length ?d" using len assms(4) by auto
  have b2: "0 < length b2" using raw_chain_length [OF c(1)] ld(2) by linarith
  obtain envs where e: "envelopes_of 0 ?d envs" "chain_positions E to_vec (da_last_record_sha256 a) [(k, ?m)] (8 + length bs) ?d envs"
    "\<And>rest. read_raw_records_after_magic E (8 + length bs) (da_last_record_sha256 a) [(k, ?m)] 0 (b2 @ rest)
        = rbind (read_raw_records_after_magic E (8 + length bs + length b2) (da_last_record_sha256 b) [(k, ?n)] (0 + length ?d) rest)
            (\<lambda>rs. Ok (envs @ rs))"
    using read_records_chain [OF c(1) assms(3) off(3), of 0] by blast
  have rd: "read_raw_records_after_magic E (8 + length bs) (da_last_record_sha256 a) [(k, ?m)] 0 b2 = Ok envs"
    using e(3) [of "[]"] by simp
  have "?d \<noteq> []" using ld(2) by blast
  note last = chain_last [OF e(2) c(1) this]
  have key: "frame_key (?d ! (length ?d - 1)) = k" using B k split ld(2) by (metis UnCI diff_less nth_mem set_append zero_less_one)
  have "?d ! (length ?d - 1) = take ?n acc ! (?n - 1)" using ld len assms(4) by (simp add: nth_drop)
  then have idx: "cf_frame_index (?d ! (length ?d - 1)) = ?n - 1"
    using B len assms(4) by (metis add_0 diff_less gr_implies_not0 length_take min.absorb2 nth_map nth_upt not_gr_zero zero_less_one)
  have fr: "re_frame (last envs) = raw_frame_of (?d ! (length ?d - 1))" using envelope_frame [OF e(1)] ld(2) last by (metis diff_less zero_less_one)
  have im: "take (length b2) (drop (8 + length bs) img) = b2"
  proof -
    have "take (8 + length bs + length b2) img = MAGIC @ bs @ b2" using B c(2) by (simp add: add.assoc)
    then have "drop (8 + length bs) (take (8 + length bs + length b2) img) = b2" by simp
    then show ?thesis by (simp add: drop_take)
  qed
  have il: "8 + length bs + length b2 \<le> length img" using acked_prefix_image [OF assms(2)] off(2) by simp
  have "?m \<le> u64_max" using raw_chain_length [of E to_vec ZERO_DIGEST "[]" "take ?m acc" bs] A off(3) len(1) by fastforce
  then have "read_raw_record_range E (Some img) (8 + length bs) (8 + length bs + length b2) (da_last_record_sha256 a) (fst k) (snd k) ?m = Ok envs"
    using rd im il b2 last [THEN conjunct1] last [THEN conjunct2, THEN conjunct2] by (simp add: read_raw_record_range_def open_file_def)
  moreover have "checked_add (?m - 1) 1 = Some ?m" using len(3) \<open>?m \<le> u64_max\<close> by (simp add: checked_add_def)
  moreover have "length envs = ?n - ?m" using e(2) ld(1) by (simp add: chain_positions_def)
  moreover have "da_streams a = [\<lparr>wm_connection_epoch = fst k, wm_stream = snd k, wm_durable_through_frame_index = ?m - 1\<rparr>]"
    "da_streams b = [\<lparr>wm_connection_epoch = fst k, wm_stream = snd k, wm_durable_through_frame_index = ?n - 1\<rparr>]"
    using A B k by simp_all
  moreover have "rf_frame_index (re_frame (last envs)) = ?n - 1" "rf_connection_epoch (re_frame (last envs)) = fst k"
    "rf_stream (re_frame (last envs)) = snd k"
    using key idx unfolding fr by (auto simp: raw_frame_of_def frame_key_def simp del: nth_drop)
  ultimately have "read_durable_raw_delta E (Some img) a b = Ok envs"
    using assms(4-6) off(1,2) b2 last [THEN conjunct1] last [THEN conjunct2, THEN conjunct2] len(3)
    by (simp add: read_durable_raw_delta_def Let_def diff_le_mono2 not_le)
  then show ?thesis using e(1) envelopes_frames by blast
qed

section \<open>Resuming after an observation\<close>

lemma filter_unique:
  assumes "distinct (map g xs)" "i < length xs" "P (xs ! i)" "\<forall>y\<in>set xs. P y \<longrightarrow> g y = g (xs ! i)"
  shows "filter P xs = [xs ! i]"
  using assms
proof (induction xs arbitrary: i)
  case (Cons z zs)
  show ?case
  proof (cases i)
    case 0
    then have "\<forall>y\<in>set zs. \<not> P y" using Cons.prems(1,4) by (auto simp: image_iff)
    then show ?thesis using Cons.prems(3) 0 by (simp add: filter_empty_conv)
  next
    case (Suc j)
    have "g z \<noteq> g (zs ! j)" using Cons.prems(1,2) Suc by (auto simp: image_iff)
    moreover have later: "\<forall>y\<in>set (z # zs). P y \<longrightarrow> g y = g (zs ! j)" using Cons.prems(4) unfolding Suc nth_Cons_Suc .
    ultimately have "\<not> P z" by (metis list.set_intros(1))
    moreover have "filter P zs = [zs ! j]" 
    proof (rule Cons.IH)
      show "\<forall>y\<in>set zs. P y \<longrightarrow> g y = g (zs ! j)" using later by (metis list.set_intros(2))
    qed (use Cons.prems(1-3) Suc in simp_all)
    ultimately show ?thesis by (simp add: Suc)
  qed
qed simp

lemma raw_chain_digest:
  "raw_chain E to_vec p x fs bs p' x' \<Longrightarrow> fs \<noteq> [] \<Longrightarrow> \<exists>body. p' = sha256_hex E body"
  by (erule raw_chain.cases) auto

lemma hex_digest_ok: "sha256_len32 E \<Longrightarrow> length (sha256_hex E body) = 64 \<and> list_all is_ascii_hexdigit (sha256_hex E body)"
  using is_lower_hex_hex [of "sha256 E body"]
  by (auto simp: sha256_hex_def sha256_len32_def list_all_iff is_lower_hex_def is_ascii_hexdigit_def)

text \<open>The acknowledgement of the first \<open>i + 1\<close> frames of a prefix that is itself acknowledged.\<close>

lemma acked_prefix_shorter:
  assumes "acked_prefix E to_vec img acc a k bs" "raw_externals_ok E to_vec" "i < da_durable_record_count a"
    and "raw_chain E to_vec ZERO_DIGEST [] (take (Suc i) acc) b q y"
    and "c = \<lparr>da_schema = ''DurabilityAckV1'', da_durable_record_count = Suc i, da_durable_through_offset = 8 + length b,
        da_last_record_sha256 = q, da_streams = [\<lparr>wm_connection_epoch = fst k, wm_stream = snd k, wm_durable_through_frame_index = i\<rparr>]\<rparr>"
  shows "acked_prefix E to_vec img acc c k b \<and> validate_ack c = Ok ()"
proof -
  let ?n = "da_durable_record_count a"
  note A = assms(1) [unfolded acked_prefix_def]
  have split: "take ?n acc = take (Suc i) acc @ drop (Suc i) (take ?n acc)"
    using assms(3) by (metis append_take_drop_id min.absorb1 less_eq_Suc_le take_take)
  have sub: "set (take (Suc i) acc) \<subseteq> set (take ?n acc)" using assms(3) by (simp add: set_take_subset_set_take)
  have idx: "map cf_frame_index (take (Suc i) acc) = [0 ..< Suc i]"
  proof -
    have "map cf_frame_index (take (Suc i) acc) = take (Suc i) (map cf_frame_index (take ?n acc))"
      using assms(3) by (simp add: take_map min_def)
    then show ?thesis using A assms(3) by (simp add: take_upt)
  qed
  have li: "Suc i \<le> length acc" using A assms(3) by linarith
  then have ne: "take (Suc i) acc \<noteq> []" by auto
  have keys: "\<forall>f\<in>set (take (Suc i) acc). frame_key f = k" using A sub by blast
  have y: "y = [(k, Suc i)]" using one_key_map [OF assms(4) keys] ne li by simp
  obtain bs2 where bs: "bs = b @ bs2" using raw_chain_append [of E to_vec ZERO_DIGEST "[]" "take (Suc i) acc"] raw_chain_det [OF assms(4)] A split by metis
  have im: "take (8 + length b) img = MAGIC @ b"
  proof -
    have "take (8 + length b) img = take (8 + length b) (take (8 + length bs) img)" by (simp add: bs min_def)
    also have "\<dots> = MAGIC @ b" using A by (simp add: bs)
    finally show ?thesis .
  qed
  obtain body where "q = sha256_hex E body" using raw_chain_digest [OF assms(4) ne] by blast
  then have "length q = 64 \<and> list_all is_ascii_hexdigit q" using hex_digest_ok [of E body] assms(2) by (simp add: raw_externals_ok_def)
  then have "validate_ack c = Ok ()" by (simp add: validate_ack_def assms(5))
  moreover have "8 + length b \<le> u64_max" using A bs by auto
  ultimately show ?thesis unfolding acked_prefix_def using assms(4) y li im keys idx by (simp add: assms(5))
qed

lemma cursor_of_observation:
  assumes "acked_prefix E to_vec img acc a k bs" "raw_externals_ok E to_vec" "validate_ack a = Ok ()"
    and "read_raw_records_through_offset E (Some img) (da_durable_through_offset a) = Ok envs"
    and "i < length envs" "observation_record x (envs ! i)"
  shows "\<exists>c b. durable_cursor_at_observation E (Some img) a x = Ok c \<and> da_durable_record_count c = Suc i
    \<and> i < da_durable_record_count a \<and> acked_prefix E to_vec img acc c k b \<and> validate_ack c = Ok ()"
proof -
  let ?n = "da_durable_record_count a"
  note A = assms(1) [unfolded acked_prefix_def]
  obtain es where e: "read_raw_records_after_magic E 8 ZERO_DIGEST [] 0 bs = Ok es"
    "envelopes_of 0 (take ?n acc) es" "chain_positions E to_vec ZERO_DIGEST [] 8 (take ?n acc) es"
    "length es = ?n" "ack_matches_record a (last es)"
    using acked_prefix_read [OF assms(1,2)] by blast
  have im: "da_durable_through_offset a \<le> length img" "take (da_durable_through_offset a) img = MAGIC @ bs"
    using acked_prefix_image [OF assms(1)] by auto
  have es: "envs = es" using assms(4) im e(1) by (auto simp: read_raw_records_through_offset_def open_file_def split: if_splits)
  have i: "i < ?n" "i < length (take ?n acc)" using assms(5) es e(4) A by auto
  have key: "\<And>j. j < ?n \<Longrightarrow> frame_key (take ?n acc ! j) = k" using A by (metis length_take min.absorb2 nth_mem)
  have idx: "\<And>j. j < ?n \<Longrightarrow> cf_frame_index (take ?n acc ! j) = j" using A by (metis add_0 length_take min.absorb2 nth_map nth_upt)
  have fr: "\<And>j. j < ?n \<Longrightarrow> re_frame (es ! j) = raw_frame_of (take ?n acc ! j)"
    using envelope_frame [OF e(2)] A by (metis length_take min.absorb2)
  have frf: "rf_connection_epoch (re_frame (es ! j)) = fst k \<and> rf_stream (re_frame (es ! j)) = snd k \<and> rf_frame_index (re_frame (es ! j)) = j"
    if "j < ?n" for j using fr [OF that] key [OF that] idx [OF that] by (auto simp: raw_frame_of_def frame_key_def)
  have "map (\<lambda>r. rf_frame_index (re_frame r)) es = [0 ..< ?n]" using frf e(4) by (intro nth_equalityI) simp_all
  then have dist: "distinct (map (\<lambda>r. rf_frame_index (re_frame r)) es)" by simp
  have uniq: "filter (observation_record x) es = [es ! i]"
    by (rule filter_unique [OF dist]) (use assms(5,6) es in \<open>auto simp: observation_record_def\<close>)
  have rec: "re_record_index (es ! i) = i" using e(2,4) i by (metis add_0 envelopes_of_def nth_map nth_upt)
  obtain b q y where b: "raw_chain E to_vec ZERO_DIGEST [] (take (Suc i) (take ?n acc)) b q y"
    "re_end_offset (es ! i) = 8 + length b" "re_record_sha256 (es ! i) = q"
    using e(3) i(2) unfolding chain_positions_def by blast
  define c where "c = \<lparr>da_schema = ''DurabilityAckV1'', da_durable_record_count = Suc i, da_durable_through_offset = 8 + length b,
    da_last_record_sha256 = q, da_streams = [\<lparr>wm_connection_epoch = fst k, wm_stream = snd k, wm_durable_through_frame_index = i\<rparr>]\<rparr>"
  have "raw_chain E to_vec ZERO_DIGEST [] (take (Suc i) acc) b q y" using b(1) i(1) by (simp add: min_def split: if_splits)
  then have c: "acked_prefix E to_vec img acc c k b \<and> validate_ack c = Ok ()"
    by (rule acked_prefix_shorter [OF assms(1,2) i(1) _ c_def])
  have x: "co_connection_epoch x = fst k" "co_stream x = snd k" "co_frame_index x = i"
    using assms(6) es frf [OF i(1)] by (auto simp: observation_record_def)
  have u: "add_u64 i 1 = Ok (Suc i)"
    using raw_chain_length [OF A [THEN conjunct1]] A i by (simp add: add_u64_def)
  have ne: "es \<noteq> []" using e(4) A by auto
  have st: "hd (da_streams a) = \<lparr>wm_connection_epoch = fst k, wm_stream = snd k, wm_durable_through_frame_index = ?n - 1\<rparr>"
    "\<not> ?n - 1 < i" using A i(1) by auto
  have "re_end_offset (last es) = da_durable_through_offset a" "re_record_sha256 (last es) = da_last_record_sha256 a"
    using e(5) by (simp_all add: ack_matches_record_def)
  then have "durable_cursor_at_observation E (Some img) a x = Ok c"
    using assms(3) assms(4) [unfolded es] e(4) ne uniq rec u b(2,3) frf [OF i(1)] x st
    by (simp add: durable_cursor_at_observation_def Let_def c_def)
  then show ?thesis using c i(1) by (intro exI [of _ c] exI [of _ b]) (simp add: c_def)
qed

text \<open>
  C22. Resuming after an observation loses and repeats nothing. Take any acknowledgement of a session of one
  stream, whatever a crash left of the raw file beyond its last sync, and an observation whose lineage is a
  record of the acknowledged prefix: the cursor at that observation counts exactly the records up to it, and
  unless it is the last one, reading on from the cursor to the acknowledgement returns exactly the frames that
  follow it, up to the acknowledged ones.
\<close>

theorem resume_after_observation:
  assumes "raw_externals_ok E to_vec" "writer_from_sink sk sync_every = Ok w0" "sk_data sk = []"
    and "acked_session E to_vec w0 acc acks w" "sk_synced (w_sink w) \<le> n" "a \<in> acks" "validate_ack a = Ok ()"
    and "read_raw_records_through_offset E (Some (take n (sk_data (w_sink w)))) (da_durable_through_offset a) = Ok envs"
    and "i < length envs" "observation_record x (envs ! i)"
  shows "\<exists>c. durable_cursor_at_observation E (Some (take n (sk_data (w_sink w)))) a x = Ok c \<and> da_durable_record_count c = i + 1
    \<and> (i + 1 < da_durable_record_count a \<longrightarrow>
        (\<exists>records. read_durable_raw_delta E (Some (take n (sk_data (w_sink w)))) c a = Ok records
          \<and> map re_frame records = map raw_frame_of (drop (i + 1) (take (da_durable_record_count a) acc))))"
proof -
  have one: "length (da_streams a) = 1" using assms(7) by (auto simp: validate_ack_def split: if_splits)
  obtain k bs where p: "acked_prefix E to_vec (take n (sk_data (w_sink w))) acc a k bs"
    using acked_prefix_exists [OF assms(4,2,3,6) one assms(5)] by blast
  obtain c b where c: "durable_cursor_at_observation E (Some (take n (sk_data (w_sink w)))) a x = Ok c"
    "da_durable_record_count c = Suc i" "acked_prefix E to_vec (take n (sk_data (w_sink w))) acc c k b" "validate_ack c = Ok ()"
    using cursor_of_observation [OF p assms(1,7-10)] by blast
  show ?thesis using c(1,2) acked_prefix_delta [OF c(3) p assms(1) _ c(4) assms(7)] by auto
qed

end
