(* ===== verification/Durability_Follower.thy ===== *)
theory Durability_Follower
  imports Durability_Progress
begin

text \<open>
  The incremental audit of a watermark journal, \<open>src/rust/lob-replay/src/durability_follower.rs\<close>. What a poll
  can see of the file system is a view: the bytes behind the journal handle the follower keeps open, and what
  the two paths name, with the device identity of the file. One view holds for the whole of a poll, and a
  \<open>read\<close> fills its buffer while bytes are left.
\<close>

section \<open>Data\<close>

type_synonym file_identity = "nat \<times> nat"

record follower_view =
  fv_opened :: bytes
  fv_journal :: "(file_identity \<times> bytes) option"
  fv_raw :: "(file_identity \<times> bytes) option"

record follower_cursor =
  fc_schema :: string
  fc_journal_offset :: nat
  fc_next_record_index :: nat
  fc_previous_progress_record_sha256 :: string
  fc_latest_ack :: "durability_ack option"
  fc_raw_record_count :: nat
  fc_raw_offset :: nat
  fc_raw_previous_record_sha256 :: string
  fc_raw_next_frame_index :: nat

record verified_progress =
  vp_schema :: string
  vp_record_index :: nat
  vp_journal_start_offset :: nat
  vp_journal_end_offset :: nat
  vp_progress_record_sha256 :: string
  vp_acknowledged_records :: nat
  vp_ack :: durability_ack

record follower_poll =
  fp_schema :: string
  fp_records :: "verified_progress list"
  fp_pending_tail_bytes :: nat
  fp_journal_read_offset :: nat
  fp_cursor :: follower_cursor

record segment_follower =
  sf_expected_raw_path :: string
  sf_genesis :: segment_genesis
  sf_progress_identity :: file_identity
  sf_raw_identity :: file_identity
  sf_read_offset :: nat
  sf_pending :: bytes
  sf_cursor :: follower_cursor
  sf_poisoned :: bool

definition MAX_PROGRESS_RECORD_BYTES :: nat where "MAX_PROGRESS_RECORD_BYTES = 1048576"

definition READ_CHUNK_BYTES :: nat where "READ_CHUNK_BYTES = 65536"

section \<open>Validation\<close>

definition follower_validate_digest :: "string \<Rightarrow> string \<Rightarrow> unit res" where
  "follower_validate_digest value field =
     check (length value = 64 \<and> list_all is_lower_hex value) (FailS ''must be a lowercase SHA-256 digest'' [field])"

definition follower_validate_genesis :: "segment_genesis \<Rightarrow> unit res" where
  "follower_validate_genesis g =
     (if sg_schema g \<noteq> ''RawSegmentGenesisV1'' \<or> trim_is_empty (sg_connection_epoch g) \<or> trim_is_empty (sg_stream g)
      then Err (Fail ''invalid durability follower segment genesis'')
      else rbind (follower_validate_digest (sg_previous_segment_terminal_sha256 g) ''previous_segment_terminal_sha256'') (\<lambda>_.
        let root = (sg_segment_index g = 0 \<and> sg_next_frame_index g = 0 \<and> sg_previous_segment_terminal_sha256 g = ZERO_DIGEST);
            successor = (0 < sg_segment_index g \<and> 0 < sg_next_frame_index g \<and> sg_previous_segment_terminal_sha256 g \<noteq> ZERO_DIGEST)
        in check (root \<or> successor) (Fail ''durability follower genesis is neither root nor successor'')))"

definition follower_validate_ack :: "durability_ack \<Rightarrow> segment_genesis \<Rightarrow> unit res" where
  "follower_validate_ack a g =
     (if da_schema a \<noteq> ''DurabilityAckV1'' \<or> da_durable_record_count a = 0 \<or> da_durable_through_offset a \<le> length MAGIC
         \<or> length (da_streams a) \<noteq> 1
      then Err (Fail ''invalid durability follower ACK'')
      else rbind (follower_validate_digest (da_last_record_sha256 a) ''last_record_sha256'') (\<lambda>_.
        let watermark = hd (da_streams a) in
        if wm_connection_epoch watermark \<noteq> sg_connection_epoch g \<or> wm_stream watermark \<noteq> sg_stream g
        then Err (Fail ''durability follower ACK identity drift'')
        else rbind (ok_or (Fail ''durability follower ACK frame range overflow'')
                      (checked_add (sg_next_frame_index g) (da_durable_record_count a - 1))) (\<lambda>expected_frame.
          check (wm_durable_through_frame_index watermark = expected_frame) (Fail ''durability follower ACK count/frame mismatch''))))"

section \<open>Opening\<close>

definition follower_open :: "follower_view \<Rightarrow> segment_genesis \<Rightarrow> string \<Rightarrow> segment_follower res" where
  "follower_open v genesis expected_raw_path =
     rbind (follower_validate_genesis genesis) (\<lambda>_.
     rbind (ok_or (Fail ''open raw segment'') (fv_raw v)) (\<lambda>(raw_identity, raw).
     if take (length MAGIC) raw \<noteq> MAGIC then Err (Fail ''bad raw segment magic'')
     else rbind (ok_or (Fail ''open durability progress'') (fv_journal v)) (\<lambda>(progress_identity, _).
       Ok \<lparr>sf_expected_raw_path = expected_raw_path, sf_genesis = genesis, sf_progress_identity = progress_identity,
           sf_raw_identity = raw_identity, sf_read_offset = 0, sf_pending = [],
           sf_cursor = \<lparr>fc_schema = ''DurabilityFollowerCursorV1'', fc_journal_offset = 0, fc_next_record_index = 0,
             fc_previous_progress_record_sha256 = ZERO_DIGEST, fc_latest_ack = None, fc_raw_record_count = 0,
             fc_raw_offset = length MAGIC, fc_raw_previous_record_sha256 = sg_previous_segment_terminal_sha256 genesis,
             fc_raw_next_frame_index = sg_next_frame_index genesis\<rparr>,
           sf_poisoned = False\<rparr>)))"

section \<open>Polling\<close>

definition check_file_identity_and_length :: "follower_view \<Rightarrow> segment_follower \<Rightarrow> unit res" where
  "check_file_identity_and_length v f =
     rbind (ok_or (Fail ''metadata durability progress'') (fv_journal v)) (\<lambda>(jid, journal).
     if jid \<noteq> sf_progress_identity f then Err (Fail ''durability progress file was replaced'')
     else if length journal < sf_read_offset f \<or> length journal < fc_journal_offset (sf_cursor f)
     then Err (Fail ''durability progress file was truncated'')
     else rbind (ok_or (Fail ''metadata raw segment'') (fv_raw v)) (\<lambda>(rid, raw).
       if rid \<noteq> sf_raw_identity f then Err (Fail ''raw segment file was replaced'')
       else check (fc_raw_offset (sf_cursor f) \<le> length raw) (Fail ''raw segment file was truncated below verified cursor'')))"

definition ack_regresses :: "durability_ack option \<Rightarrow> durability_ack \<Rightarrow> bool" where
  "ack_regresses previous a =
     (case previous of
        None \<Rightarrow> False
      | Some p \<Rightarrow> da_durable_record_count a \<le> da_durable_record_count p \<or> da_durable_through_offset a \<le> da_durable_through_offset p
          \<or> wm_durable_through_frame_index (hd (da_streams a)) \<le> wm_durable_through_frame_index (hd (da_streams p)))"

text \<open>The raw half of the cursor moves behind the acknowledged records, its frame index last.\<close>

definition verify_ack_against_raw ::
  "'v externals \<Rightarrow> bytes option \<Rightarrow> segment_genesis \<Rightarrow> durability_ack \<Rightarrow> follower_cursor \<Rightarrow> nat res \<times> follower_cursor" where
  "verify_ack_against_raw E raw_file g a c =
     (let result =
        rbind (follower_validate_ack a g) (\<lambda>_.
        if ack_regresses (fc_latest_ack c) a then Err (Fail ''durability progress ACK regressed or did not advance'')
        else if da_durable_record_count a \<le> fc_raw_record_count c \<or> da_durable_through_offset a \<le> fc_raw_offset c
        then Err (Fail ''durability progress ACK does not advance raw cursor'')
        else rbind (ok_or (Fail ''metadata raw segment'') raw_file) (\<lambda>raw.
          if length raw < da_durable_through_offset a then Err (Fail ''raw segment is shorter than durability ACK'')
          else rbind (read_raw_record_range E (Some raw) (fc_raw_offset c) (da_durable_through_offset a)
                        (fc_raw_previous_record_sha256 c) (sg_connection_epoch g) (sg_stream g) (fc_raw_next_frame_index c)) (\<lambda>records.
            rbind (ok_or (Fail ''durability ACK record count regressed'')
                     (checked_sub (da_durable_record_count a) (fc_raw_record_count c))) (\<lambda>acknowledged.
            if records = [] then Err (Fail ''durability ACK produced no raw records'')
            else if length records \<noteq> acknowledged
               \<or> list_ex (\<lambda>r. rf_connection_epoch (re_frame r) \<noteq> sg_connection_epoch g \<or> rf_stream (re_frame r) \<noteq> sg_stream g) records
               \<or> re_end_offset (last records) \<noteq> da_durable_through_offset a
               \<or> re_record_sha256 (last records) \<noteq> da_last_record_sha256 a
               \<or> rf_frame_index (re_frame (last records)) \<noteq> wm_durable_through_frame_index (hd (da_streams a))
            then Err (Fail ''durability ACK does not match exact raw segment range'')
            else Ok acknowledged)))) in
      case result of
        Inl e \<Rightarrow> (Err e, c)
      | Inr acknowledged \<Rightarrow>
          let c1 = c\<lparr>fc_raw_record_count := da_durable_record_count a, fc_raw_offset := da_durable_through_offset a,
                     fc_raw_previous_record_sha256 := da_last_record_sha256 a\<rparr> in
          (case checked_add (wm_durable_through_frame_index (hd (da_streams a))) 1 of
             None \<Rightarrow> (Err (Fail ''durability raw frame cursor overflow''), c1)
           | Some n \<Rightarrow> (Ok acknowledged, c1\<lparr>fc_raw_next_frame_index := n\<rparr>)))"

text \<open>One pass of the loop of \<open>consume_complete_records\<close>: the checks of the line, then its effect on the cursor.\<close>

definition check_progress_line ::
  "'v externals \<Rightarrow> progress_codec \<Rightarrow> follower_view \<Rightarrow> bytes \<Rightarrow> segment_follower \<Rightarrow> (progress_body \<times> string) res" where
  "check_progress_line E C v line f =
     (if line = [] \<or> MAX_PROGRESS_RECORD_BYTES < length line
      then Err (Fail ''invalid durability progress record length'')
      else rbind (ok_or (Fail ''invalid durability progress JSON'') (pc_from_slice C line)) (\<lambda>env.
        rbind (ok_or (Fail ''reserialize durability progress'') (pc_body_to_vec C (pe_body env))) (\<lambda>bb.
        if pb_schema (pe_body env) \<noteq> ''RawDurabilityProgressV1''
           \<or> pb_record_index (pe_body env) \<noteq> fc_next_record_index (sf_cursor f)
           \<or> pb_previous_record_sha256 (pe_body env) \<noteq> fc_previous_progress_record_sha256 (sf_cursor f)
           \<or> pe_record_sha256 env \<noteq> sha256_hex E bb
        then Err (Fail ''durability progress fork or invalid hash chain'')
        else if pb_raw_path (pe_body env) \<noteq> sf_expected_raw_path f then Err (Fail ''durability progress raw_path drift'')
        else rbind (check_file_identity_and_length v f) (\<lambda>_. Ok (pe_body env, sha256_hex E bb)))))"

definition consume_record ::
  "'v externals \<Rightarrow> progress_codec \<Rightarrow> follower_view \<Rightarrow> bytes \<Rightarrow> segment_follower \<Rightarrow> verified_progress res \<times> segment_follower" where
  "consume_record E C v line f =
     (case check_progress_line E C v line f of
        Inl e \<Rightarrow> (Err e, f)
      | Inr (body, digest) \<Rightarrow>
          (case verify_ack_against_raw E (map_option snd (fv_raw v)) (sf_genesis f) (pb_ack body) (sf_cursor f) of
             (Inl e, c1) \<Rightarrow> (Err e, f\<lparr>sf_cursor := c1\<rparr>)
           | (Inr acknowledged, c1) \<Rightarrow>
               (case checked_add (fc_journal_offset c1) (length line + 1) of
                  None \<Rightarrow> (Err (Fail ''durability progress cursor overflow''), f\<lparr>sf_cursor := c1\<rparr>)
                | Some end_offset \<Rightarrow>
                    let c2 = c1\<lparr>fc_journal_offset := end_offset\<rparr> in
                    (case checked_add (fc_next_record_index c2) 1 of
                       None \<Rightarrow> (Err (Fail ''durability progress record index overflow''), f\<lparr>sf_cursor := c2\<rparr>)
                     | Some index \<Rightarrow>
                         (Ok \<lparr>vp_schema = ''VerifiedDurabilityProgressV1'', vp_record_index = pb_record_index body,
                              vp_journal_start_offset = fc_journal_offset c1, vp_journal_end_offset = end_offset,
                              vp_progress_record_sha256 = digest, vp_acknowledged_records = acknowledged, vp_ack = pb_ack body\<rparr>,
                          f\<lparr>sf_cursor := c2\<lparr>fc_next_record_index := index, fc_previous_progress_record_sha256 := digest,
                                         fc_latest_ack := Some (pb_ack body)\<rparr>\<rparr>)))))"

function consume_complete_records ::
  "'v externals \<Rightarrow> progress_codec \<Rightarrow> follower_view \<Rightarrow> verified_progress list \<Rightarrow> segment_follower
    \<Rightarrow> verified_progress list res \<times> segment_follower" where
  "consume_complete_records E C v verified f =
     (if newline \<notin> set (sf_pending f) then (Ok verified, f)
      else
        let line = takeWhile (\<lambda>b. b \<noteq> newline) (sf_pending f) in
        (case consume_record E C v line f of
           (Inl e, f1) \<Rightarrow> (Err e, f1)
         | (Inr r, f1) \<Rightarrow>
             consume_complete_records E C v (verified @ [r]) (f1\<lparr>sf_pending := drop (length line + 1) (sf_pending f)\<rparr>)))"
  by pat_completeness auto
termination
  by (relation "measure (\<lambda>(E, C, v, verified, f). length (sf_pending f))") (auto dest: length_pos_if_in_set)

declare consume_complete_records.simps [simp del]

lemma consume_record_frame:
  "consume_record E C v line f = (r, f1) \<Longrightarrow> f1 = f\<lparr>sf_cursor := sf_cursor f1\<rparr>"
  by (auto simp: consume_record_def Let_def split: sum.splits prod.splits option.splits)

lemma consume_record_keeps:
  assumes "consume_record E C v line f = (r, f1)"
  shows "sf_read_offset f1 = sf_read_offset f" "sf_pending f1 = sf_pending f" "sf_genesis f1 = sf_genesis f"
    "sf_expected_raw_path f1 = sf_expected_raw_path f" "sf_progress_identity f1 = sf_progress_identity f"
    "sf_raw_identity f1 = sf_raw_identity f" "sf_poisoned f1 = sf_poisoned f"
  by (subst consume_record_frame [OF assms], simp)+

lemma consume_none: "newline \<notin> set (sf_pending f) \<Longrightarrow> consume_complete_records E C v verified f = (Ok verified, f)"
  by (subst consume_complete_records.simps) simp

lemma consume_line:
  assumes "newline \<in> set (sf_pending f)" "line = takeWhile (\<lambda>b. b \<noteq> newline) (sf_pending f)" "consume_record E C v line f = (q, f1)"
  shows "consume_complete_records E C v verified f = (case q of Inl e \<Rightarrow> (Err e, f1)
    | Inr r \<Rightarrow> consume_complete_records E C v (verified @ [r]) (f1\<lparr>sf_pending := drop (length line + 1) (sf_pending f)\<rparr>))"
  by (subst consume_complete_records.simps) (use assms in \<open>simp add: Let_def split: sum.split\<close>)

lemma consume_read_offset:
  "consume_complete_records E C v verified f = (r, f') \<Longrightarrow> sf_read_offset f' = sf_read_offset f"
proof (induction E C v verified f arbitrary: r f' rule: consume_complete_records.induct)
  case (1 E C v verified f)
  define line where "line = takeWhile (\<lambda>b. b \<noteq> newline) (sf_pending f)"
  obtain q f1 where q: "consume_record E C v line f = (q, f1)" by fastforce
  show ?case
  proof (cases "newline \<in> set (sf_pending f)")
    case True
    show ?thesis using 1(2) 1(1) [OF _ line_def q [symmetric], of _ r f'] True consume_record_keeps(1) [OF q]
      unfolding consume_line [OF True line_def q] by (auto split: sum.splits)
  next
    case False
    then show ?thesis using 1(2) by (simp add: consume_none)
  qed
qed

function poll_loop ::
  "'v externals \<Rightarrow> progress_codec \<Rightarrow> follower_view \<Rightarrow> verified_progress list \<Rightarrow> segment_follower
    \<Rightarrow> verified_progress list res \<times> segment_follower" where
  "poll_loop E C v verified f =
     (let chunk = take READ_CHUNK_BYTES (drop (sf_read_offset f) (fv_opened v)) in
      if chunk = [] then (Ok verified, f)
      else case checked_add (sf_read_offset f) (length chunk) of
        None \<Rightarrow> (Err (Fail ''durability progress read offset overflow''), f)
      | Some off \<Rightarrow>
          (case consume_complete_records E C v verified (f\<lparr>sf_read_offset := off, sf_pending := sf_pending f @ chunk\<rparr>) of
             (Inl e, f1) \<Rightarrow> (Err e, f1)
           | (Inr verified1, f1) \<Rightarrow>
               if MAX_PROGRESS_RECORD_BYTES < length (sf_pending f1)
               then (Err (Fail ''durability progress record exceeds maximum size''), f1)
               else poll_loop E C v verified1 f1))"
  by pat_completeness auto
termination
proof (relation "measure (\<lambda>(E, C, v, verified, f). length (fv_opened v) - sf_read_offset f)")
  show "wf (measure (\<lambda>(E :: 'v externals, C :: progress_codec, v :: follower_view, verified :: verified_progress list, f :: segment_follower).
      length (fv_opened v) - sf_read_offset f))" by simp
qed (auto dest!: sym [of "(_, _)"] consume_read_offset)

declare poll_loop.simps [simp del]

definition poll_inner ::
  "'v externals \<Rightarrow> progress_codec \<Rightarrow> follower_view \<Rightarrow> segment_follower \<Rightarrow> follower_poll res \<times> segment_follower" where
  "poll_inner E C v f =
     (case check_file_identity_and_length v f of
        Inl e \<Rightarrow> (Err e, f)
      | Inr _ \<Rightarrow>
          (case poll_loop E C v [] f of
             (Inl e, f1) \<Rightarrow> (Err e, f1)
           | (Inr verified, f1) \<Rightarrow>
               (Ok \<lparr>fp_schema = ''DurabilityFollowerPollV1'', fp_records = verified, fp_pending_tail_bytes = length (sf_pending f1),
                    fp_journal_read_offset = sf_read_offset f1, fp_cursor = sf_cursor f1\<rparr>, f1)))"

definition follower_poll_step ::
  "'v externals \<Rightarrow> progress_codec \<Rightarrow> follower_view \<Rightarrow> segment_follower \<Rightarrow> follower_poll res \<times> segment_follower" where
  "follower_poll_step E C v f =
     (if sf_poisoned f then (Err (Fail ''durability follower is poisoned''), f)
      else case poll_inner E C v f of
        (Inl e, f1) \<Rightarrow> (Err e, f1\<lparr>sf_poisoned := True\<rparr>)
      | (Inr p, f1) \<Rightarrow> (Ok p, f1))"

definition require_clean_eof ::
  "'v externals \<Rightarrow> progress_codec \<Rightarrow> follower_view \<Rightarrow> segment_follower \<Rightarrow> follower_cursor res \<times> segment_follower" where
  "require_clean_eof E C v f =
     (case follower_poll_step E C v f of
        (Inl e, f1) \<Rightarrow> (Err e, f1)
      | (Inr p, f1) \<Rightarrow>
          if fp_pending_tail_bytes p \<noteq> 0
          then (Err (Fail ''partial durability progress tail at final audit''), f1\<lparr>sf_poisoned := True\<rparr>)
          else (Ok (sf_cursor f1), f1))"

end
