(* ===== verification/Durability_Follower_Safety.thy ===== *)
theory Durability_Follower_Safety
  imports Durability_Follower
begin

text \<open>
  The follower's theorems: reading a growing journal piece by piece comes to the same as reading it once,
  and what its cursor has passed is the whole verified prefix of the raw segment.
\<close>

section \<open>Successful lines\<close>

text \<open>What a line that is accepted contributes, as a relation on cursors.\<close>

definition line_step ::
  "'v externals \<Rightarrow> progress_codec \<Rightarrow> bytes \<Rightarrow> string \<Rightarrow> segment_genesis \<Rightarrow> bytes \<Rightarrow> follower_cursor
    \<Rightarrow> verified_progress \<Rightarrow> follower_cursor \<Rightarrow> bool" where
  "line_step E C raw path g line c r c' \<longleftrightarrow> line \<noteq> [] \<and> length line \<le> MAX_PROGRESS_RECORD_BYTES
     \<and> (\<exists>env bb n c1. pc_from_slice C line = Some env \<and> pc_body_to_vec C (pe_body env) = Some bb
        \<and> pb_schema (pe_body env) = ''RawDurabilityProgressV1'' \<and> pb_record_index (pe_body env) = fc_next_record_index c
        \<and> pb_previous_record_sha256 (pe_body env) = fc_previous_progress_record_sha256 c \<and> pe_record_sha256 env = sha256_hex E bb
        \<and> pb_raw_path (pe_body env) = path \<and> verify_ack_against_raw E (Some raw) g (pb_ack (pe_body env)) c = (Ok n, c1)
        \<and> fc_journal_offset c + (length line + 1) \<le> u64_max \<and> fc_next_record_index c + 1 \<le> u64_max
        \<and> r = \<lparr>vp_schema = ''VerifiedDurabilityProgressV1'', vp_record_index = pb_record_index (pe_body env),
               vp_journal_start_offset = fc_journal_offset c, vp_journal_end_offset = fc_journal_offset c + (length line + 1),
               vp_progress_record_sha256 = sha256_hex E bb, vp_acknowledged_records = n, vp_ack = pb_ack (pe_body env)\<rparr>
        \<and> c' = c1\<lparr>fc_journal_offset := fc_journal_offset c + (length line + 1), fc_next_record_index := fc_next_record_index c + 1,
               fc_previous_progress_record_sha256 := sha256_hex E bb, fc_latest_ack := Some (pb_ack (pe_body env))\<rparr>)"

lemma verify_ack_journal:
  "verify_ack_against_raw E raw g a c = (Ok n, c1) \<Longrightarrow> fc_journal_offset c1 = fc_journal_offset c \<and> fc_next_record_index c1 = fc_next_record_index c"
  by (auto simp: verify_ack_against_raw_def Let_def split: sum.splits option.splits)

lemma consume_record_Ok:
  assumes "fv_raw v = Some (rid, raw)" "consume_record E C v line f = (Ok r, f1)"
  shows "check_file_identity_and_length v f = Ok ()
    \<and> (\<exists>c'. line_step E C raw (sf_expected_raw_path f) (sf_genesis f) line (sf_cursor f) r c' \<and> f1 = f\<lparr>sf_cursor := c'\<rparr>)"
proof -
  obtain body d where b: "check_progress_line E C v line f = Ok (body, d)"
    using assms(2) by (cases "check_progress_line E C v line f") (auto simp: consume_record_def)
  then obtain env bb where e: "line \<noteq> []" "length line \<le> MAX_PROGRESS_RECORD_BYTES"
    "pc_from_slice C line = Some env" "pc_body_to_vec C (pe_body env) = Some bb"
    "pb_schema (pe_body env) = ''RawDurabilityProgressV1''" "pb_record_index (pe_body env) = fc_next_record_index (sf_cursor f)"
    "pb_previous_record_sha256 (pe_body env) = fc_previous_progress_record_sha256 (sf_cursor f)" "pe_record_sha256 env = sha256_hex E bb"
    "pb_raw_path (pe_body env) = sf_expected_raw_path f" "check_file_identity_and_length v f = Ok ()" "body = pe_body env" "d = sha256_hex E bb"
    by (auto simp: check_progress_line_def split: if_splits)
  obtain q c1 where q: "verify_ack_against_raw E (Some raw) (sf_genesis f) (pb_ack body) (sf_cursor f) = (q, c1)" by fastforce
  then obtain n where n: "q = Ok n" using assms b by (cases q) (auto simp: consume_record_def)
  have o1: "fc_journal_offset (sf_cursor f) + (length line + 1) \<le> u64_max \<and> fc_next_record_index (sf_cursor f) + 1 \<le> u64_max"
    and r: "r = \<lparr>vp_schema = ''VerifiedDurabilityProgressV1'', vp_record_index = pb_record_index body,
       vp_journal_start_offset = fc_journal_offset (sf_cursor f), vp_journal_end_offset = fc_journal_offset (sf_cursor f) + (length line + 1),
       vp_progress_record_sha256 = d, vp_acknowledged_records = n, vp_ack = pb_ack body\<rparr>"
    and f1: "f1 = f\<lparr>sf_cursor := c1\<lparr>fc_journal_offset := fc_journal_offset (sf_cursor f) + (length line + 1),
       fc_next_record_index := fc_next_record_index (sf_cursor f) + 1,
       fc_previous_progress_record_sha256 := d, fc_latest_ack := Some (pb_ack body)\<rparr>\<rparr>"
    using assms b q n verify_ack_journal [OF q [unfolded n]]
    by (auto simp: consume_record_def Let_def checked_add_def split: if_splits)
  have "line_step E C raw (sf_expected_raw_path f) (sf_genesis f) line (sf_cursor f) r (sf_cursor f1)"
    unfolding line_step_def using e q n o1 r f1 by (intro conjI exI [of _ env] exI [of _ bb] exI [of _ n] exI [of _ c1]) simp_all
  then show ?thesis using e(10) f1 by (intro conjI exI [of _ "sf_cursor f1"]) simp_all
qed

lemma consume_record_step:
  assumes "fv_raw v = Some (rid, raw)" "check_file_identity_and_length v f = Ok ()"
    and "line_step E C raw (sf_expected_raw_path f) (sf_genesis f) line (sf_cursor f) r c'"
  shows "consume_record E C v line f = (Ok r, f\<lparr>sf_cursor := c'\<rparr>)"
proof -
  obtain env bb n c1 where e: "line \<noteq> []" "length line \<le> MAX_PROGRESS_RECORD_BYTES"
    "pc_from_slice C line = Some env" "pc_body_to_vec C (pe_body env) = Some bb"
    "pb_schema (pe_body env) = ''RawDurabilityProgressV1''" "pb_record_index (pe_body env) = fc_next_record_index (sf_cursor f)"
    "pb_previous_record_sha256 (pe_body env) = fc_previous_progress_record_sha256 (sf_cursor f)" "pe_record_sha256 env = sha256_hex E bb"
    "pb_raw_path (pe_body env) = sf_expected_raw_path f"
    "verify_ack_against_raw E (Some raw) (sf_genesis f) (pb_ack (pe_body env)) (sf_cursor f) = (Ok n, c1)"
    "fc_journal_offset (sf_cursor f) + (length line + 1) \<le> u64_max" "fc_next_record_index (sf_cursor f) + 1 \<le> u64_max"
    "r = \<lparr>vp_schema = ''VerifiedDurabilityProgressV1'', vp_record_index = pb_record_index (pe_body env),
       vp_journal_start_offset = fc_journal_offset (sf_cursor f), vp_journal_end_offset = fc_journal_offset (sf_cursor f) + (length line + 1),
       vp_progress_record_sha256 = sha256_hex E bb, vp_acknowledged_records = n, vp_ack = pb_ack (pe_body env)\<rparr>"
    "c' = c1\<lparr>fc_journal_offset := fc_journal_offset (sf_cursor f) + (length line + 1),
       fc_next_record_index := fc_next_record_index (sf_cursor f) + 1,
       fc_previous_progress_record_sha256 := sha256_hex E bb, fc_latest_ack := Some (pb_ack (pe_body env))\<rparr>"
    using assms(3) unfolding line_step_def by blast
  show ?thesis using assms(1,2) e verify_ack_journal [OF e(10)] by (simp add: consume_record_def check_progress_line_def Let_def checked_add_def)
qed

section \<open>Acknowledgements checked against the raw segment\<close>

definition range_matches :: "segment_genesis \<Rightarrow> durability_ack \<Rightarrow> nat \<Rightarrow> raw_record_envelope list \<Rightarrow> bool" where
  "range_matches g a n records \<longleftrightarrow> records \<noteq> [] \<and> length records = n
     \<and> (\<forall>r\<in>set records. rf_connection_epoch (re_frame r) = sg_connection_epoch g \<and> rf_stream (re_frame r) = sg_stream g)
     \<and> re_end_offset (last records) = da_durable_through_offset a \<and> re_record_sha256 (last records) = da_last_record_sha256 a
     \<and> rf_frame_index (re_frame (last records)) = wm_durable_through_frame_index (hd (da_streams a))"

lemma verify_ack_Ok:
  "verify_ack_against_raw E (Some raw) g a c = (Ok n, c1) \<longleftrightarrow> follower_validate_ack a g = Ok () \<and> \<not> ack_regresses (fc_latest_ack c) a
     \<and> fc_raw_record_count c < da_durable_record_count a \<and> fc_raw_offset c < da_durable_through_offset a
     \<and> da_durable_through_offset a \<le> length raw \<and> n = da_durable_record_count a - fc_raw_record_count c
     \<and> (\<exists>records. read_raw_record_range E (Some raw) (fc_raw_offset c) (da_durable_through_offset a) (fc_raw_previous_record_sha256 c)
            (sg_connection_epoch g) (sg_stream g) (fc_raw_next_frame_index c) = Ok records \<and> range_matches g a n records)
     \<and> wm_durable_through_frame_index (hd (da_streams a)) + 1 \<le> u64_max
     \<and> c1 = c\<lparr>fc_raw_record_count := da_durable_record_count a, fc_raw_offset := da_durable_through_offset a,
          fc_raw_previous_record_sha256 := da_last_record_sha256 a,
          fc_raw_next_frame_index := wm_durable_through_frame_index (hd (da_streams a)) + 1\<rparr>"
  (is "?l \<longleftrightarrow> ?r")
proof
  assume ?l
  then show ?r
    by (auto simp: verify_ack_against_raw_def range_matches_def Let_def list_ex_iff checked_add_def checked_sub_def
        split: sum.splits if_splits)
next
  assume r: ?r
  then show ?l
    by (auto simp: verify_ack_against_raw_def range_matches_def Let_def list_ex_iff checked_add_def checked_sub_def)
qed

lemma range_of_prefix:
  "e \<le> length raw \<Longrightarrow> read_raw_record_range E (Some (raw @ rest)) s e p ep st i = read_raw_record_range E (Some raw) s e p ep st i"
  by (auto simp: read_raw_record_range_def open_file_def drop_append)

lemma verify_ack_mono:
  "verify_ack_against_raw E (Some raw) g a c = (Ok n, c1) \<Longrightarrow> verify_ack_against_raw E (Some (raw @ rest)) g a c = (Ok n, c1)"
  unfolding verify_ack_Ok by (auto simp: range_of_prefix)

lemma line_step_mono: "line_step E C raw path g line c r c' \<Longrightarrow> line_step E C (raw @ rest) path g line c r c'"
  unfolding line_step_def by (blast intro: verify_ack_mono)

fun line_steps ::
  "'v externals \<Rightarrow> progress_codec \<Rightarrow> bytes \<Rightarrow> string \<Rightarrow> segment_genesis \<Rightarrow> bytes list \<Rightarrow> follower_cursor
    \<Rightarrow> verified_progress list \<Rightarrow> follower_cursor \<Rightarrow> bool" where
  "line_steps E C raw path g [] c rs c' \<longleftrightarrow> rs = [] \<and> c' = c"
| "line_steps E C raw path g (l # ls) c rs c' \<longleftrightarrow>
     (\<exists>r rs1 c1. newline \<notin> set l \<and> line_step E C raw path g l c r c1 \<and> rs = r # rs1 \<and> line_steps E C raw path g ls c1 rs1 c')"

lemma line_steps_append:
  "line_steps E C raw path g (ls @ ms) c rs c' \<longleftrightarrow>
     (\<exists>rs1 rs2 c1. rs = rs1 @ rs2 \<and> line_steps E C raw path g ls c rs1 c1 \<and> line_steps E C raw path g ms c1 rs2 c')"
proof (induction ls arbitrary: c rs)
  case (Cons l ls)
  show ?case
  proof
    assume "line_steps E C raw path g ((l # ls) @ ms) c rs c'"
    then obtain r rs1 c1 where a: "newline \<notin> set l" "line_step E C raw path g l c r c1" "rs = r # rs1" "line_steps E C raw path g (ls @ ms) c1 rs1 c'"
      by auto
    obtain rs2 rs3 c2 where "rs1 = rs2 @ rs3" "line_steps E C raw path g ls c1 rs2 c2" "line_steps E C raw path g ms c2 rs3 c'"
      using a(4) Cons.IH by blast
    then show "\<exists>rs1 rs2 c1. rs = rs1 @ rs2 \<and> line_steps E C raw path g (l # ls) c rs1 c1 \<and> line_steps E C raw path g ms c1 rs2 c'"
      using a by (intro exI [of _ "r # rs2"] exI [of _ rs3] exI [of _ c2]) auto
  next
    assume "\<exists>rs1 rs2 c1. rs = rs1 @ rs2 \<and> line_steps E C raw path g (l # ls) c rs1 c1 \<and> line_steps E C raw path g ms c1 rs2 c'"
    then show "line_steps E C raw path g ((l # ls) @ ms) c rs c'" using Cons.IH by fastforce
  qed
qed auto

lemma line_steps_mono: "line_steps E C raw path g ls c rs c' \<Longrightarrow> line_steps E C (raw @ rest) path g ls c rs c'"
proof (induction ls arbitrary: c rs)
  case (Cons l ls)
  then show ?case using line_step_mono by fastforce
qed simp

text \<open>Where the cursor is after some lines: behind their bytes in the journal, inside the raw file.\<close>

lemma line_step_bounds:
  "line_step E C raw path g l c r c' \<Longrightarrow> fc_journal_offset c' = fc_journal_offset c + length l + 1 \<and> fc_raw_offset c' \<le> length raw
     \<and> length l \<le> MAX_PROGRESS_RECORD_BYTES"
  by (auto simp: line_step_def verify_ack_Ok)

lemma line_steps_bounds:
  "line_steps E C raw path g ls c rs c' \<Longrightarrow> fc_raw_offset c \<le> length raw \<Longrightarrow>
     fc_journal_offset c' = fc_journal_offset c + length (lines_bytes ls) \<and> fc_raw_offset c' \<le> length raw
     \<and> (\<forall>l\<in>set ls. newline \<notin> set l \<and> length l \<le> MAX_PROGRESS_RECORD_BYTES)"
proof (induction ls arbitrary: c rs)
  case (Cons l ls)
  then obtain r rs1 c1 where a: "newline \<notin> set l" "line_step E C raw path g l c r c1" "line_steps E C raw path g ls c1 rs1 c'" by auto
  show ?case using Cons.IH [OF a(3)] line_step_bounds [OF a(2)] a(1) by auto
qed simp

section \<open>Consuming the buffer\<close>

lemma consume_Ok:
  assumes "fv_raw v = Some (rid, raw)" "consume_complete_records E C v verified f = (Ok verified', f')"
  shows "\<exists>ls tail rs c'. sf_pending f = lines_bytes ls @ tail \<and> newline \<notin> set tail \<and> verified' = verified @ rs
    \<and> line_steps E C raw (sf_expected_raw_path f) (sf_genesis f) ls (sf_cursor f) rs c'
    \<and> f' = f\<lparr>sf_cursor := c', sf_pending := tail\<rparr>"
  using assms
proof (induction E C v verified f arbitrary: verified' f' rule: consume_complete_records.induct)
  case (1 E C v verified f)
  show ?case
  proof (cases "newline \<in> set (sf_pending f)")
    case False
    then show ?thesis using 1(3) by (intro exI [of _ "[]"] exI [of _ "sf_pending f"]) (simp add: consume_none)
  next
    case True
    define line where "line = takeWhile (\<lambda>b. b \<noteq> newline) (sf_pending f)"
    define rest where "rest = drop (length line + 1) (sf_pending f)"
    obtain q f1 where q: "consume_record E C v line f = (q, f1)" by fastforce
    obtain r where r: "q = Ok r" "consume_complete_records E C v (verified @ [r]) (f1\<lparr>sf_pending := rest\<rparr>) = (Ok verified', f')"
      using 1(3) unfolding consume_line [OF True line_def q] rest_def by (cases q) auto
    obtain c1 where c1: "line_step E C raw (sf_expected_raw_path f) (sf_genesis f) line (sf_cursor f) r c1" "f1 = f\<lparr>sf_cursor := c1\<rparr>"
      using consume_record_Ok [OF 1(2) q [unfolded r(1)]] by blast
    have nl: "\<not> newline \<notin> set (sf_pending f)" using True by simp
    obtain ls tail rs c' where i: "rest = lines_bytes ls @ tail" "newline \<notin> set tail" "verified' = (verified @ [r]) @ rs"
      "line_steps E C raw (sf_expected_raw_path f) (sf_genesis f) ls c1 rs c'" "f' = f\<lparr>sf_cursor := c', sf_pending := tail\<rparr>"
      using 1(1) [OF nl line_def q [symmetric] r(1) 1(2) r(2) [unfolded rest_def]] by (auto simp: c1(2) rest_def)
    have "sf_pending f = line @ newline # rest" unfolding line_def rest_def by (rule first_line [OF True])
    moreover have "newline \<notin> set line" unfolding line_def by (auto dest: set_takeWhileD)
    ultimately show ?thesis using i c1(1)
      by (intro exI [of _ "line # ls"] exI [of _ tail] exI [of _ "r # rs"] exI [of _ c']) auto
  qed
qed

definition seen :: "file_identity \<Rightarrow> bytes \<Rightarrow> file_identity \<Rightarrow> bytes \<Rightarrow> follower_view" where
  "seen jid j rid raw = \<lparr>fv_opened = j, fv_journal = Some (jid, j), fv_raw = Some (rid, raw)\<rparr>"

definition tracks :: "file_identity \<Rightarrow> bytes \<Rightarrow> file_identity \<Rightarrow> bytes \<Rightarrow> segment_follower \<Rightarrow> bool" where
  "tracks jid j rid raw f \<longleftrightarrow> sf_progress_identity f = jid \<and> sf_raw_identity f = rid \<and> sf_read_offset f \<le> length j
     \<and> fc_journal_offset (sf_cursor f) + length (sf_pending f) = sf_read_offset f \<and> fc_raw_offset (sf_cursor f) \<le> length raw"

lemma tracks_check: "tracks jid j rid raw f \<Longrightarrow> check_file_identity_and_length (seen jid j rid raw) f = Ok ()"
  by (auto simp: tracks_def check_file_identity_and_length_def seen_def)

lemma consume_steps:
  assumes "tracks jid j rid raw f" "sf_pending f = lines_bytes ls @ tail" "newline \<notin> set tail"
    and "line_steps E C raw (sf_expected_raw_path f) (sf_genesis f) ls (sf_cursor f) rs c'"
  shows "consume_complete_records E C (seen jid j rid raw) verified f = (Ok (verified @ rs), f\<lparr>sf_cursor := c', sf_pending := tail\<rparr>)"
  using assms
proof (induction ls arbitrary: f rs verified)
  case Nil
  then have "newline \<notin> set (sf_pending f)" by simp
  then show ?case using Nil by (simp add: consume_none)
next
  case (Cons l ls)
  obtain r rs1 c1 where s: "newline \<notin> set l" "line_step E C raw (sf_expected_raw_path f) (sf_genesis f) l (sf_cursor f) r c1"
    "rs = r # rs1" "line_steps E C raw (sf_expected_raw_path f) (sf_genesis f) ls c1 rs1 c'" using Cons.prems(4) by auto
  have l: "l = takeWhile (\<lambda>b. b \<noteq> newline) (sf_pending f)" "newline \<in> set (sf_pending f)"
    using Cons.prems(2) take_line [OF s(1)] by simp_all
  have c: "consume_record E C (seen jid j rid raw) l f = (Ok r, f\<lparr>sf_cursor := c1\<rparr>)"
    by (rule consume_record_step [OF _ tracks_check [OF Cons.prems(1)] s(2)]) (simp add: seen_def)
  have d: "drop (length l + 1) (sf_pending f) = lines_bytes ls @ tail" using Cons.prems(2) by simp
  let ?f = "f\<lparr>sf_cursor := c1, sf_pending := lines_bytes ls @ tail\<rparr>"
  have t: "tracks jid j rid raw ?f" using Cons.prems(1,2) line_step_bounds [OF s(2)] by (simp add: tracks_def)
  show ?case using Cons.IH [OF t, of rs1 "verified @ [r]"] s(3,4) Cons.prems(3)
    unfolding consume_line [OF l(2,1) c] d by simp
qed

section \<open>Reading the journal in chunks\<close>

text \<open>
  What is buffered and what is left of the journal are the lines \<open>ls\<close>, all accepted, and a \<open>tail\<close> without a
  line feed that fits the buffer.
\<close>

definition absorbs ::
  "'v externals \<Rightarrow> progress_codec \<Rightarrow> bytes \<Rightarrow> bytes \<Rightarrow> segment_follower \<Rightarrow> bytes list \<Rightarrow> bytes \<Rightarrow> verified_progress list
    \<Rightarrow> follower_cursor \<Rightarrow> bool" where
  "absorbs E C j raw f ls tail rs c' \<longleftrightarrow> sf_pending f @ drop (sf_read_offset f) j = lines_bytes ls @ tail
     \<and> newline \<notin> set tail \<and> length tail \<le> MAX_PROGRESS_RECORD_BYTES
     \<and> line_steps E C raw (sf_expected_raw_path f) (sf_genesis f) ls (sf_cursor f) rs c'"

definition buffered :: "segment_follower \<Rightarrow> bool" where
  "buffered f \<longleftrightarrow> newline \<notin> set (sf_pending f) \<and> length (sf_pending f) \<le> MAX_PROGRESS_RECORD_BYTES"

definition moved :: "bytes \<Rightarrow> bytes \<Rightarrow> follower_cursor \<Rightarrow> segment_follower \<Rightarrow> segment_follower" where
  "moved j tail c' f = f\<lparr>sf_read_offset := length j, sf_pending := tail, sf_cursor := c'\<rparr>"

lemma poll_loop_end:
  "sf_read_offset f = length (fv_opened v) \<Longrightarrow> poll_loop E C v verified f = (Ok verified, f)"
  by (subst poll_loop.simps) simp

lemma poll_loop_chunk:
  assumes "chunk = take READ_CHUNK_BYTES (drop (sf_read_offset f) (fv_opened v))" "chunk \<noteq> []" "sf_read_offset f + length chunk \<le> u64_max"
    and "consume_complete_records E C v verified (f\<lparr>sf_read_offset := sf_read_offset f + length chunk, sf_pending := sf_pending f @ chunk\<rparr>) = (q, f1)"
  shows "poll_loop E C v verified f = (case q of Inl e \<Rightarrow> (Err e, f1)
    | Inr verified1 \<Rightarrow> if MAX_PROGRESS_RECORD_BYTES < length (sf_pending f1)
        then (Err (Fail ''durability progress record exceeds maximum size''), f1) else poll_loop E C v verified1 f1)"
  by (subst poll_loop.simps) (use assms in \<open>simp add: Let_def checked_add_def split: sum.split\<close>)

lemma chunk_rest: "xs = take n xs @ drop (length (take n xs)) xs"
  by (cases "n \<le> length xs") simp_all

lemma poll_loop_Ok:
  assumes "tracks jid j rid raw f" "buffered f" "poll_loop E C (seen jid j rid raw) verified f = (Ok verified', f')"
    and "sf_read_offset f \<le> u64_max"
  shows "\<exists>ls tail rs c'. absorbs E C j raw f ls tail rs c' \<and> verified' = verified @ rs \<and> f' = moved j tail c' f \<and> length j \<le> u64_max"
  using assms
proof (induction "length j - sf_read_offset f" arbitrary: f verified rule: less_induct)
  case less
  let ?v = "seen jid j rid raw"
  define chunk where "chunk = take READ_CHUNK_BYTES (drop (sf_read_offset f) (fv_opened ?v))"
  show ?case
  proof (cases "sf_read_offset f = length j")
    case True
    then have "poll_loop E C ?v verified f = (Ok verified, f)" by (intro poll_loop_end) (simp add: seen_def)
    then show ?thesis using less.prems True
      by (intro exI [of _ "[]"] exI [of _ "sf_pending f"] exI [of _ "sf_cursor f"])
        (simp add: absorbs_def buffered_def moved_def)
  next
    case False
    then have lt: "sf_read_offset f < length j" using less.prems(1) by (simp add: tracks_def)
    then have ne: "chunk \<noteq> []" by (simp add: chunk_def seen_def READ_CHUNK_BYTES_def)
    have u: "sf_read_offset f + length chunk \<le> u64_max"
    proof (rule ccontr)
      assume "\<not> ?thesis"
      then show False using less.prems(3) ne by (subst (asm) poll_loop.simps) (simp add: chunk_def [symmetric] Let_def checked_add_def)
    qed
    let ?f = "f\<lparr>sf_read_offset := sf_read_offset f + length chunk, sf_pending := sf_pending f @ chunk\<rparr>"
    obtain q f1 where q: "consume_complete_records E C ?v verified ?f = (q, f1)" by fastforce
    obtain v1 where v1: "q = Ok v1" "\<not> MAX_PROGRESS_RECORD_BYTES < length (sf_pending f1)" "poll_loop E C ?v v1 f1 = (Ok verified', f')"
      using less.prems(3) unfolding poll_loop_chunk [OF chunk_def ne u q] by (cases q) (auto split: if_splits)
    have fr: "fv_raw ?v = Some (rid, raw)" by (simp add: seen_def)
    obtain ls1 t rs1 c1 where c: "sf_pending f @ chunk = lines_bytes ls1 @ t" "newline \<notin> set t" "v1 = verified @ rs1"
      "line_steps E C raw (sf_expected_raw_path f) (sf_genesis f) ls1 (sf_cursor f) rs1 c1" "f1 = ?f\<lparr>sf_cursor := c1, sf_pending := t\<rparr>"
      using consume_Ok [OF fr q [unfolded v1(1)]] by auto
    have len: "length chunk \<le> length j - sf_read_offset f" by (simp add: chunk_def seen_def)
    have b: "fc_journal_offset c1 = fc_journal_offset (sf_cursor f) + length (lines_bytes ls1)" "fc_raw_offset c1 \<le> length raw"
      using line_steps_bounds [OF c(4)] less.prems(1) by (simp_all add: tracks_def)
    have t1: "tracks jid j rid raw f1" "buffered f1" "sf_read_offset f1 \<le> u64_max"
      using less.prems(1) b len lt arg_cong [OF c(1), of length] c(2,5) v1(2) u by (auto simp: tracks_def buffered_def)
    have m: "length j - sf_read_offset f1 < length j - sf_read_offset f" using ne lt c(5) by (simp add: diff_less_mono2)
    obtain ls2 tail rs2 c2 where r: "absorbs E C j raw f1 ls2 tail rs2 c2" "verified' = v1 @ rs2" "f' = moved j tail c2 f1" "length j \<le> u64_max"
      using less.hyps [OF m t1(1,2) v1(3) t1(3)] by blast
    have dr: "drop (sf_read_offset f) j = chunk @ drop (sf_read_offset f + length chunk) j"
      using chunk_rest [of "drop (sf_read_offset f) j" READ_CHUNK_BYTES] by (simp add: chunk_def seen_def add.commute)
    have "absorbs E C j raw f (ls1 @ ls2) tail (rs1 @ rs2) c2"
    proof -
      have "t @ drop (sf_read_offset f + length chunk) j = lines_bytes ls2 @ tail" using r(1) c(5) by (simp add: absorbs_def)
      then have "sf_pending f @ drop (sf_read_offset f) j = lines_bytes (ls1 @ ls2) @ tail"
        using c(1) dr by (metis append_assoc lines_bytes_simps(3))
      then show ?thesis using r(1) c(4,5) by (auto simp: absorbs_def line_steps_append)
    qed
    then show ?thesis using r c(3,5) by (intro exI [of _ "ls1 @ ls2"] exI [of _ tail] exI [of _ "rs1 @ rs2"] exI [of _ c2]) (simp add: moved_def)
  qed
qed

lemma poll_loop_steps:
  assumes "tracks jid j rid raw f" "absorbs E C j raw f ls tail rs c'" "length j \<le> u64_max" "buffered f"
  shows "poll_loop E C (seen jid j rid raw) verified f = (Ok (verified @ rs), moved j tail c' f)"
  using assms
proof (induction "length j - sf_read_offset f" arbitrary: f verified ls rs rule: less_induct)
  case less
  let ?v = "seen jid j rid raw"
  define chunk where "chunk = take READ_CHUNK_BYTES (drop (sf_read_offset f) (fv_opened ?v))"
  have a: "sf_pending f @ drop (sf_read_offset f) j = lines_bytes ls @ tail" "newline \<notin> set tail" "length tail \<le> MAX_PROGRESS_RECORD_BYTES"
    "line_steps E C raw (sf_expected_raw_path f) (sf_genesis f) ls (sf_cursor f) rs c'" using less.prems(2) by (simp_all add: absorbs_def)
  have bl: "\<forall>l\<in>set ls. newline \<notin> set l \<and> length l \<le> MAX_PROGRESS_RECORD_BYTES"
    using line_steps_bounds [OF a(4)] less.prems(1) by (simp add: tracks_def)
  show ?case
  proof (cases "sf_read_offset f = length j")
    case True
    then have "poll_loop E C ?v verified f = (Ok verified, f)" by (intro poll_loop_end) (simp add: seen_def)
    moreover have "ls = []" using a(1) True less.prems(4) by (cases ls) (auto simp: buffered_def)
    ultimately show ?thesis using a(1,4) True by (simp add: moved_def)
  next
    case False
    then have lt: "sf_read_offset f < length j" using less.prems(1) by (simp add: tracks_def)
    then have ne: "chunk \<noteq> []" by (simp add: chunk_def seen_def READ_CHUNK_BYTES_def)
    have len: "sf_read_offset f + length chunk \<le> length j" using lt by (simp add: chunk_def seen_def)
    define rest where "rest = drop (sf_read_offset f + length chunk) j"
    have dr: "drop (sf_read_offset f) j = chunk @ rest"
      using chunk_rest [of "drop (sf_read_offset f) j" READ_CHUNK_BYTES] by (simp add: chunk_def seen_def add.commute rest_def)
    have eq: "lines_bytes ls @ tail = (sf_pending f @ chunk) @ rest" using a(1) dr by simp
    obtain ls1 ls2 t where s: "ls = ls1 @ ls2" "sf_pending f @ chunk = lines_bytes ls1 @ t" "newline \<notin> set t" "t @ rest = lines_bytes ls2 @ tail"
      using lines_split [OF eq _ a(2)] bl by blast
    obtain rs1 rs2 c1 where r: "rs = rs1 @ rs2" "line_steps E C raw (sf_expected_raw_path f) (sf_genesis f) ls1 (sf_cursor f) rs1 c1"
      "line_steps E C raw (sf_expected_raw_path f) (sf_genesis f) ls2 c1 rs2 c'" using a(4) s(1) by (auto simp: line_steps_append)
    let ?f = "f\<lparr>sf_read_offset := sf_read_offset f + length chunk, sf_pending := sf_pending f @ chunk\<rparr>"
    let ?g = "?f\<lparr>sf_cursor := c1, sf_pending := t\<rparr>"
    have tf: "tracks jid j rid raw ?f" using less.prems(1) len by (simp add: tracks_def)
    have q: "consume_complete_records E C ?v verified ?f = (Ok (verified @ rs1), ?g)"
      by (rule consume_steps [OF tf]) (use s r in simp_all)
    have tl: "length t \<le> MAX_PROGRESS_RECORD_BYTES" by (rule piece_length [OF s(4,3)]) (use bl s(1) a(3) in simp_all)
    have b: "fc_journal_offset c1 = fc_journal_offset (sf_cursor f) + length (lines_bytes ls1)" "fc_raw_offset c1 \<le> length raw"
      using line_steps_bounds [OF r(2)] less.prems(1) by (simp_all add: tracks_def)
    have tg: "tracks jid j rid raw ?g" using less.prems(1) b len arg_cong [OF s(2), of length] by (simp add: tracks_def)
    have ab: "absorbs E C j raw ?g ls2 tail rs2 c'" using s(4) a(2,3) r(3) by (simp add: absorbs_def rest_def)
    have bg: "buffered ?g" using s(3) tl by (simp add: buffered_def)
    have m: "length j - sf_read_offset ?g < length j - sf_read_offset f" using ne lt by (simp add: diff_less_mono2)
    have u: "sf_read_offset f + length chunk \<le> u64_max" using len less.prems(3) by simp
    show ?thesis using less.hyps [OF m tg ab less.prems(3) bg, of "verified @ rs1"] tl r(1)
      unfolding poll_loop_chunk [OF chunk_def ne u q] by (simp add: moved_def)
  qed
qed

section \<open>Polls\<close>

fun polls ::
  "'v externals \<Rightarrow> progress_codec \<Rightarrow> follower_view list \<Rightarrow> segment_follower \<Rightarrow> (verified_progress list \<times> segment_follower) res" where
  "polls E C [] f = Ok ([], f)"
| "polls E C (v # vs) f =
     (case follower_poll_step E C v f of
        (Inl e, _) \<Rightarrow> Err e
      | (Inr p, f1) \<Rightarrow> rbind (polls E C vs f1) (\<lambda>(rs, f2). Ok (fp_records p @ rs, f2)))"

definition fresh_poll :: "segment_follower \<Rightarrow> bool" where
  "fresh_poll f \<longleftrightarrow> buffered f \<and> \<not> sf_poisoned f \<and> sf_read_offset f \<le> u64_max"

lemma poll_step_Ok:
  assumes "tracks jid j rid raw f" "fresh_poll f" "follower_poll_step E C (seen jid j rid raw) f = (Ok p, f')"
  shows "\<exists>ls tail c'. absorbs E C j raw f ls tail (fp_records p) c' \<and> f' = moved j tail c' f \<and> length j \<le> u64_max"
proof -
  obtain q f1 where q: "poll_loop E C (seen jid j rid raw) [] f = (q, f1)" by fastforce
  obtain vs where v: "q = Ok vs" "fp_records p = vs" "f' = f1"
    using assms tracks_check [OF assms(1)] q by (cases q) (auto simp: follower_poll_step_def poll_inner_def fresh_poll_def)
  show ?thesis using poll_loop_Ok [OF assms(1) _ q [unfolded v(1)]] assms(2) v by (auto simp: fresh_poll_def)
qed

lemma poll_step_absorbs:
  assumes "tracks jid j rid raw f" "fresh_poll f" "absorbs E C j raw f ls tail rs c'" "length j \<le> u64_max"
  shows "\<exists>p. follower_poll_step E C (seen jid j rid raw) f = (Ok p, moved j tail c' f) \<and> fp_records p = rs \<and> fp_pending_tail_bytes p = length tail"
  using poll_loop_steps [OF assms(1,3,4), of "[]"] tracks_check [OF assms(1)] assms(2)
  by (auto simp: follower_poll_step_def poll_inner_def fresh_poll_def moved_def)

lemma moved_state:
  assumes "tracks jid j rid raw f" "fresh_poll f" "absorbs E C j raw f ls tail rs c'" "length j \<le> u64_max"
  shows "tracks jid (j @ j2) rid (raw @ raw2) (moved j tail c' f)" "fresh_poll (moved j tail c' f)"
proof -
  have a: "sf_pending f @ drop (sf_read_offset f) j = lines_bytes ls @ tail" "newline \<notin> set tail" "length tail \<le> MAX_PROGRESS_RECORD_BYTES"
    "line_steps E C raw (sf_expected_raw_path f) (sf_genesis f) ls (sf_cursor f) rs c'" using assms(3) by (simp_all add: absorbs_def)
  have b: "fc_journal_offset c' = fc_journal_offset (sf_cursor f) + length (lines_bytes ls)" "fc_raw_offset c' \<le> length raw"
    using line_steps_bounds [OF a(4)] assms(1) by (simp_all add: tracks_def)
  show "tracks jid (j @ j2) rid (raw @ raw2) (moved j tail c' f)"
    using assms(1) b arg_cong [OF a(1), of length] by (auto simp: tracks_def moved_def)
  show "fresh_poll (moved j tail c' f)" using assms(2,4) a(2,3) by (simp add: fresh_poll_def moved_def buffered_def)
qed

text \<open>Two polls in a row come to one poll of the later files.\<close>

lemma absorbs_trans:
  assumes "absorbs E C j raw f ls tail rs c1" "absorbs E C (j @ j2) (raw @ raw2) (moved j tail c1 f) ls2 tail2 rs2 c2"
    and "sf_read_offset f \<le> length j"
  shows "absorbs E C (j @ j2) (raw @ raw2) f (ls @ ls2) tail2 (rs @ rs2) c2"
proof -
  have a: "sf_pending f @ drop (sf_read_offset f) j = lines_bytes ls @ tail"
    "line_steps E C raw (sf_expected_raw_path f) (sf_genesis f) ls (sf_cursor f) rs c1"
    and b: "tail @ j2 = lines_bytes ls2 @ tail2" "newline \<notin> set tail2" "length tail2 \<le> MAX_PROGRESS_RECORD_BYTES"
    "line_steps E C (raw @ raw2) (sf_expected_raw_path f) (sf_genesis f) ls2 c1 rs2 c2"
    using assms(1,2) by (simp_all add: absorbs_def moved_def)
  have "sf_pending f @ drop (sf_read_offset f) (j @ j2) = lines_bytes (ls @ ls2) @ tail2"
    using a(1) b(1) assms(3) by (simp, metis append_assoc)
  then show ?thesis using line_steps_mono [OF a(2)] b unfolding absorbs_def line_steps_append by blast
qed

text \<open>Snapshots of a journal and a raw segment that only grow.\<close>

definition grows :: "bytes \<times> bytes \<Rightarrow> bytes \<times> bytes \<Rightarrow> bool" where
  "grows s s' \<longleftrightarrow> (\<exists>j2 raw2. s' = (fst s @ j2, snd s @ raw2))"

abbreviation snapshots :: "file_identity \<Rightarrow> file_identity \<Rightarrow> (bytes \<times> bytes) list \<Rightarrow> follower_view list" where
  "snapshots jid rid ss \<equiv> map (\<lambda>(j, raw). seen jid j rid raw) ss"

lemma polls_absorb:
  assumes "sorted_wrt grows (s # ss)" "tracks jid (fst s) rid (snd s) f" "fresh_poll f"
    and "polls E C (snapshots jid rid (s # ss)) f = Ok (rs, f')" "last (s # ss) = (j, raw)"
  shows "\<exists>ls tail c'. absorbs E C j raw f ls tail rs c' \<and> f' = moved j tail c' f \<and> length j \<le> u64_max"
  using assms
proof (induction ss arbitrary: s f rs)
  case Nil
  then obtain p where "follower_poll_step E C (seen jid j rid raw) f = (Ok p, f')" "rs = fp_records p"
    by (auto split: prod.splits sum.splits)
  then show ?case using poll_step_Ok [of jid j rid raw f E C p f'] Nil.prems by simp
next
  case (Cons s' ss)
  obtain j1 raw1 where s: "s = (j1, raw1)" by fastforce
  obtain p f1 rs2 where p: "follower_poll_step E C (seen jid j1 rid raw1) f = (Ok p, f1)" "rs = fp_records p @ rs2"
    "polls E C (snapshots jid rid (s' # ss)) f1 = Ok (rs2, f')"
    using Cons.prems(4) s by (auto split: prod.splits sum.splits)
  have t: "tracks jid j1 rid raw1 f" using Cons.prems(2) s by simp
  obtain ls1 t1 c1 where a: "absorbs E C j1 raw1 f ls1 t1 (fp_records p) c1" "f1 = moved j1 t1 c1 f" "length j1 \<le> u64_max"
    using poll_step_Ok [OF t Cons.prems(3) p(1)] by blast
  obtain j2 raw2 where g: "s' = (j1 @ j2, raw1 @ raw2)" using Cons.prems(1) s by (auto simp: grows_def)
  have t1: "tracks jid (fst s') rid (snd s') f1" "fresh_poll f1"
    unfolding a(2) g fst_conv snd_conv by (rule moved_state [OF t Cons.prems(3) a(1,3)])+
  obtain ls2 t2 c2 where b: "absorbs E C j raw f1 ls2 t2 rs2 c2" "f' = moved j t2 c2 f1" "length j \<le> u64_max"
    using Cons.IH [OF _ t1 p(3)] Cons.prems(1,5) by auto
  have "last (s' # ss) \<in> set (s' # ss)" by (rule last_in_set) simp
  then obtain j3 raw3 where l: "j = j1 @ j3" "raw = raw1 @ raw3"
    using Cons.prems(1,5) s by (fastforce simp: grows_def)
  have "absorbs E C j raw f (ls1 @ ls2) t2 (fp_records p @ rs2) c2"
    unfolding l by (rule absorbs_trans [OF a(1)]) (use b(1) a(2) l t in \<open>simp_all add: tracks_def\<close>)
  then show ?case using p(2) b(2,3) a(2) by (auto simp: moved_def)
qed

lemma follower_open_tracks:
  assumes "follower_open (seen jid j rid raw) g path = Ok f"
  shows "fresh_poll f" "take (length MAGIC) raw = MAGIC" "follower_validate_genesis g = Ok ()"
    "tracks jid (j @ j2) rid (raw @ raw2) f" "sf_genesis f = g" "sf_expected_raw_path f = path"
    "sf_cursor f = \<lparr>fc_schema = ''DurabilityFollowerCursorV1'', fc_journal_offset = 0, fc_next_record_index = 0,
       fc_previous_progress_record_sha256 = ZERO_DIGEST, fc_latest_ack = None, fc_raw_record_count = 0,
       fc_raw_offset = length MAGIC, fc_raw_previous_record_sha256 = sg_previous_segment_terminal_sha256 g,
       fc_raw_next_frame_index = sg_next_frame_index g\<rparr>"
proof -
  have v: "follower_validate_genesis g = Ok ()" "take (length MAGIC) raw = MAGIC"
    using assms by (auto simp: follower_open_def seen_def split: if_splits)
  then have f: "f = \<lparr>sf_expected_raw_path = path, sf_genesis = g, sf_progress_identity = jid,
           sf_raw_identity = rid, sf_read_offset = 0, sf_pending = [],
           sf_cursor = \<lparr>fc_schema = ''DurabilityFollowerCursorV1'', fc_journal_offset = 0, fc_next_record_index = 0,
             fc_previous_progress_record_sha256 = ZERO_DIGEST, fc_latest_ack = None, fc_raw_record_count = 0,
             fc_raw_offset = length MAGIC, fc_raw_previous_record_sha256 = sg_previous_segment_terminal_sha256 g,
             fc_raw_next_frame_index = sg_next_frame_index g\<rparr>,
           sf_poisoned = False\<rparr>"
    using assms by (simp add: follower_open_def seen_def)
  have "length MAGIC \<le> length raw" using arg_cong [OF v(2), of length] by simp
  then show "fresh_poll f" "take (length MAGIC) raw = MAGIC" "follower_validate_genesis g = Ok ()"
    "tracks jid (j @ j2) rid (raw @ raw2) f" "sf_genesis f = g" "sf_expected_raw_path f = path"
    "sf_cursor f = \<lparr>fc_schema = ''DurabilityFollowerCursorV1'', fc_journal_offset = 0, fc_next_record_index = 0,
       fc_previous_progress_record_sha256 = ZERO_DIGEST, fc_latest_ack = None, fc_raw_record_count = 0,
       fc_raw_offset = length MAGIC, fc_raw_previous_record_sha256 = sg_previous_segment_terminal_sha256 g,
       fc_raw_next_frame_index = sg_next_frame_index g\<rparr>"
    using v by (simp_all add: f fresh_poll_def buffered_def tracks_def)
qed

text \<open>
  C32. Following a journal while it grows comes to the same as auditing it once at the end: when polls of
  growing snapshots of the journal and the raw segment all succeed, wherever they cut lines and records, one
  poll of the last snapshot by a follower opened at the same time succeeds with the same verified records and
  ends in the same state.
\<close>

theorem following_equals_final_audit:
  assumes "follower_open (seen jid j0 rid raw0) g path = Ok f" "sorted_wrt grows ((j0, raw0) # ss)" "ss \<noteq> []"
    and "polls E C (snapshots jid rid ss) f = Ok (rs, f')"
  shows "polls E C (snapshots jid rid [last ss]) f = Ok (rs, f')"
proof -
  obtain s ss' where ss: "ss = s # ss'" using assms(3) by (cases ss) auto
  obtain j raw where l: "last ss = (j, raw)" by fastforce
  have g: "grows (j0, raw0) x" if "x \<in> set ss" for x using assms(2) that by simp
  obtain jl rl where l0: "j = j0 @ jl" "raw = raw0 @ rl" using g [OF last_in_set [OF assms(3)]] l by (auto simp: grows_def)
  obtain js rs1 where s0: "s = (j0 @ js, raw0 @ rs1)" using g [of s] ss by (auto simp: grows_def)
  note t = follower_open_tracks [OF assms(1)]
  obtain ls tail c' where a: "absorbs E C j raw f ls tail rs c'" "f' = moved j tail c' f" "length j \<le> u64_max"
    using polls_absorb [of s ss' jid rid f E C rs f' j raw] assms(2,4) ss l t(1,4) s0 by auto
  obtain p where "follower_poll_step E C (seen jid j rid raw) f = (Ok p, moved j tail c' f)" "fp_records p = rs"
    using poll_step_absorbs [OF _ t(1) a(1,3)] t(4) l0 by blast
  then show ?thesis using l a(2) by simp
qed

end
