(* ===== verification/Durability_Follower_Raw.thy ===== *)
theory Durability_Follower_Raw
  imports Durability_Follower_Safety Raw_Log_Correct
begin

text \<open>
  What the follower has verified of the raw segment: the ranges it read one by one are the records a single
  read of the segment finds up to the cursor.
\<close>

section \<open>Reading a range and going on\<close>

definition record_key :: "raw_record_envelope \<Rightarrow> stream_key" where
  "record_key r = (rf_connection_epoch (re_frame r), rf_stream (re_frame r))"

lemma accept_record_Ok:
  assumes "accept_record E p x body digest = (Inr frame, x')"
  shows "rf_frame_index frame = expected_next x (rf_connection_epoch frame, rf_stream frame)
    \<and> x' = AList.update (rf_connection_epoch frame, rf_stream frame) (rf_frame_index frame + 1) x"
  using assms by (auto simp: accept_record_def decode_frame_def Let_def split: sum.splits if_splits)

lemma read_next_more:
  assumes "read_next_raw_record E p x b = (Inr (Some (frame, d, len)), x', rest)"
  shows "read_next_raw_record E p x (b @ b2) = (Inr (Some (frame, d, len)), x', rest @ b2)"
    and "rf_frame_index frame = expected_next x (rf_connection_epoch frame, rf_stream frame)"
    and "x' = AList.update (rf_connection_epoch frame, rf_stream frame) (rf_frame_index frame + 1) x"
proof -
  obtain body digest where s: "b = be_bytes 4 (length body) @ body @ digest @ rest" "length digest = 32"
    "length body \<le> MAX_RECORD_BYTES" "d = hex digest" "len = 4 + length body + 32"
    "accept_record E p x body digest = (Inr frame, x')"
    by (rule read_next_shape [OF assms]) (rule that, assumption+)
  have n: "from_be_bytes (be_bytes 4 (length body)) = length body"
    by (rule from_be_bytes_be_bytes) (rule MAX_RECORD_BYTES_u32 [OF s(3)])
  have "be_bytes 4 (length body) @ body @ digest @ rest @ b2 \<noteq> []" using s(2) by auto
  then show "read_next_raw_record E p x (b @ b2) = (Inr (Some (frame, d, len)), x', rest @ b2)"
    using s by (simp add: read_next_raw_record_def read_exact_append n Let_def)
  show "rf_frame_index frame = expected_next x (rf_connection_epoch frame, rf_stream frame)"
    and "x' = AList.update (rf_connection_epoch frame, rf_stream frame) (rf_frame_index frame + 1) x"
    using accept_record_Ok [OF s(6)] by auto
qed

lemma read_next_None: "read_next_raw_record E p x b = (Inr None, x', rest) \<Longrightarrow> b = []"
  by (auto simp: read_next_raw_record_def Let_def split: if_splits option.splits prod.splits sum.splits)

lemma read_records_cases:
  assumes "read_raw_records_after_magic E s p x n b = Ok rs"
  obtains "b = []" "rs = []"
  | frame d len x' rest rs1 where "read_next_raw_record E p x b = (Inr (Some (frame, d, len)), x', rest)" "s + len \<le> u64_max"
    "read_raw_records_after_magic E (s + len) d x' (n + 1) rest = Ok rs1"
    "rs = \<lparr>re_record_index = n, re_start_offset = s, re_end_offset = s + len, re_record_sha256 = d, re_frame = frame\<rparr> # rs1"
proof -
  obtain q x' rest where q: "read_next_raw_record E p x b = (q, x', rest)" by (metis prod_cases3)
  consider (none) "q = Inr None" | (some) frame d len where "q = Inr (Some (frame, d, len))"
    using assms q by (subst (asm) read_raw_records_after_magic.simps) (auto split: sum.splits option.splits)
  then show thesis
  proof cases
    case none
    then show thesis using assms q read_next_None [of E p x b x' rest] that(1)
      by (subst (asm) read_raw_records_after_magic.simps) simp
  next
    case some
    then show thesis using assms q that(2) [of frame d len x' rest]
      by (subst (asm) read_raw_records_after_magic.simps) (auto simp: checked_add_def split: if_splits)
  qed
qed

lemma read_records_next:
  assumes "read_next_raw_record E p x b = (Inr (Some (frame, d, len)), x', rest)" "s + len \<le> u64_max"
  shows "read_raw_records_after_magic E s p x n b
    = rbind (read_raw_records_after_magic E (s + len) d x' (n + 1) rest)
        (\<lambda>rs. Ok (\<lparr>re_record_index = n, re_start_offset = s, re_end_offset = s + len, re_record_sha256 = d, re_frame = frame\<rparr> # rs))"
  by (subst read_raw_records_after_magic.simps) (use assms in \<open>simp add: checked_add_def\<close>)

lemma read_records_more:
  assumes "read_raw_records_after_magic E s p [(k, m)] n b = Ok rs" "\<forall>r\<in>set rs. record_key r = k"
  shows "read_raw_records_after_magic E s p [(k, m)] n (b @ b2)
      = rbind (read_raw_records_after_magic E (if rs = [] then s else re_end_offset (last rs))
            (if rs = [] then p else re_record_sha256 (last rs)) [(k, m + length rs)] (n + length rs) b2) (\<lambda>rs2. Ok (rs @ rs2))
    \<and> (rs \<noteq> [] \<longrightarrow> rf_frame_index (re_frame (last rs)) + 1 = m + length rs)"
  using assms
proof (induction rs arbitrary: s p m n b)
  case Nil
  have "rbind q (\<lambda>rs. Ok ([] @ rs)) = q" for q :: "raw_record_envelope list res" by (cases q) auto
  then show ?case using read_records_cases [OF Nil(1)] by fastforce
next
  case (Cons r rs)
  obtain frame d len x' rest where a: "read_next_raw_record E p [(k, m)] b = (Inr (Some (frame, d, len)), x', rest)" "s + len \<le> u64_max"
    "read_raw_records_after_magic E (s + len) d x' (n + 1) rest = Ok rs"
    "r = \<lparr>re_record_index = n, re_start_offset = s, re_end_offset = s + len, re_record_sha256 = d, re_frame = frame\<rparr>"
    by (rule read_records_cases [OF Cons.prems(1)]) auto
  have k: "(rf_connection_epoch frame, rf_stream frame) = k" using Cons.prems(2) a(4) by (simp add: record_key_def)
  have x: "x' = [(k, m + 1)]" "rf_frame_index frame = m"
    using read_next_more(2,3) [OF a(1)] k by (auto simp: expected_next_def)
  have i: "read_raw_records_after_magic E (s + len) d x' (n + 1) (rest @ b2)
      = rbind (read_raw_records_after_magic E (if rs = [] then s + len else re_end_offset (last rs))
            (if rs = [] then d else re_record_sha256 (last rs)) [(k, m + 1 + length rs)] (n + 1 + length rs) b2) (\<lambda>rs2. Ok (rs @ rs2))"
    "rs \<noteq> [] \<longrightarrow> rf_frame_index (re_frame (last rs)) + 1 = m + 1 + length rs"
    using Cons.IH [OF a(3) [unfolded x(1)]] Cons.prems(2) x(1) by auto
  show ?case using i a(4) x(2) read_records_next [OF read_next_more(1) [OF a(1)] a(2)]
    by (auto simp: rbind_assoc)
qed

text \<open>The record numbers start anywhere; nothing else depends on where.\<close>

abbreviation unnumbered :: "raw_record_envelope list \<Rightarrow> raw_record_envelope list" where
  "unnumbered rs \<equiv> map (\<lambda>r. r\<lparr>re_record_index := 0\<rparr>) rs"

lemma read_records_renumber:
  "read_raw_records_after_magic E s p x n b = Ok rs \<Longrightarrow>
     \<exists>rs'. read_raw_records_after_magic E s p x m b = Ok rs' \<and> unnumbered rs' = unnumbered rs"
proof (induction rs arbitrary: s p x n m b)
  case Nil
  have "b = []" by (rule read_records_cases [OF Nil]) auto
  then show ?case by simp
next
  case (Cons r rs)
  obtain frame d len x' rest where a: "read_next_raw_record E p x b = (Inr (Some (frame, d, len)), x', rest)" "s + len \<le> u64_max"
    "read_raw_records_after_magic E (s + len) d x' (n + 1) rest = Ok rs"
    "r = \<lparr>re_record_index = n, re_start_offset = s, re_end_offset = s + len, re_record_sha256 = d, re_frame = frame\<rparr>"
    by (rule read_records_cases [OF Cons.prems]) auto
  obtain rs' where "read_raw_records_after_magic E (s + len) d x' (m + 1) rest = Ok rs'" "unnumbered rs' = unnumbered rs"
    using Cons.IH [OF a(3), of "m + 1"] by blast
  then show ?case using a(4) by (simp add: read_records_next [OF a(1,2)])
qed

lemma unnumbered_same:
  assumes "unnumbered rs' = unnumbered rs"
  shows "length rs' = length rs" "map re_frame rs' = map re_frame rs"
    "rs \<noteq> [] \<Longrightarrow> re_end_offset (last rs') = re_end_offset (last rs) \<and> re_record_sha256 (last rs') = re_record_sha256 (last rs)
      \<and> re_frame (last rs') = re_frame (last rs)"
proof -
  show l: "length rs' = length rs" using arg_cong [OF assms, of length] by simp
  show "map re_frame rs' = map re_frame rs" using arg_cong [OF assms, of "map re_frame"] by (simp add: comp_def)
  assume ne: "rs \<noteq> []"
  then have "rs' \<noteq> []" using l by auto
  then have "(last rs')\<lparr>re_record_index := 0\<rparr> = (last rs)\<lparr>re_record_index := 0\<rparr>"
    using arg_cong [OF assms, of last] ne by (simp add: last_map)
  then show "re_end_offset (last rs') = re_end_offset (last rs) \<and> re_record_sha256 (last rs') = re_record_sha256 (last rs)
      \<and> re_frame (last rs') = re_frame (last rs)"
    by (cases "last rs'"; cases "last rs") simp
qed

section \<open>The verified prefix\<close>

definition genesis_key :: "segment_genesis \<Rightarrow> stream_key" where
  "genesis_key g = (sg_connection_epoch g, sg_stream g)"

text \<open>Reading the segment up to the cursor finds the records the cursor counts.\<close>

definition raw_verified :: "'v externals \<Rightarrow> bytes \<Rightarrow> segment_genesis \<Rightarrow> follower_cursor \<Rightarrow> bool" where
  "raw_verified E raw g c \<longleftrightarrow> 8 \<le> fc_raw_offset c \<and> fc_raw_offset c \<le> length raw
     \<and> fc_raw_next_frame_index c = sg_next_frame_index g + fc_raw_record_count c
     \<and> (\<exists>records. read_raw_records_after_magic E 8 (sg_previous_segment_terminal_sha256 g) [(genesis_key g, sg_next_frame_index g)] 0
            (take (fc_raw_offset c - 8) (drop 8 raw)) = Ok records
          \<and> length records = fc_raw_record_count c \<and> (\<forall>r\<in>set records. record_key r = genesis_key g)
          \<and> (if records = [] then 8 else re_end_offset (last records)) = fc_raw_offset c
          \<and> (if records = [] then sg_previous_segment_terminal_sha256 g else re_record_sha256 (last records)) = fc_raw_previous_record_sha256 c)"

lemma take_between: "a \<le> b \<Longrightarrow> b \<le> e \<Longrightarrow> take (e - a) (drop a xs) = take (b - a) (drop a xs) @ take (e - b) (drop b xs)"
proof -
  assume "a \<le> b" "b \<le> e"
  then have "take (e - a) (drop a xs) = take ((b - a) + (e - b)) (drop a xs)" by simp
  also have "\<dots> = take (b - a) (drop a xs) @ take (e - b) (drop (b - a) (drop a xs))" by (rule take_add)
  finally show ?thesis using \<open>a \<le> b\<close> by simp
qed

lemma range_records:
  assumes "read_raw_record_range E (Some raw) s e p ep st i = Ok records"
  shows "read_raw_records_after_magic E s p [((ep, st), i)] 0 (take (e - s) (drop s raw)) = Ok records"
  using assms by (auto simp: read_raw_record_range_def open_file_def split: if_splits)

lemma verify_ack_verified:
  assumes "raw_verified E raw g c" "verify_ack_against_raw E (Some raw) g a c = (Ok n, c')"
  shows "raw_verified E raw g c' \<and> fc_raw_record_count c' = fc_raw_record_count c + n"
proof -
  obtain rs where a: "read_raw_records_after_magic E 8 (sg_previous_segment_terminal_sha256 g) [(genesis_key g, sg_next_frame_index g)] 0
        (take (fc_raw_offset c - 8) (drop 8 raw)) = Ok rs"
    "length rs = fc_raw_record_count c" "\<forall>r\<in>set rs. record_key r = genesis_key g"
    "(if rs = [] then 8 else re_end_offset (last rs)) = fc_raw_offset c"
    "(if rs = [] then sg_previous_segment_terminal_sha256 g else re_record_sha256 (last rs)) = fc_raw_previous_record_sha256 c"
    and c: "8 \<le> fc_raw_offset c" "fc_raw_next_frame_index c = sg_next_frame_index g + length rs"
    using assms(1) unfolding raw_verified_def by auto
  obtain qs where q: "read_raw_record_range E (Some raw) (fc_raw_offset c) (da_durable_through_offset a) (fc_raw_previous_record_sha256 c)
      (sg_connection_epoch g) (sg_stream g) (fc_raw_next_frame_index c) = Ok qs" "range_matches g a n qs"
    and v: "fc_raw_record_count c < da_durable_record_count a" "fc_raw_offset c < da_durable_through_offset a"
      "da_durable_through_offset a \<le> length raw" "n = da_durable_record_count a - fc_raw_record_count c"
      "c' = c\<lparr>fc_raw_record_count := da_durable_record_count a, fc_raw_offset := da_durable_through_offset a,
          fc_raw_previous_record_sha256 := da_last_record_sha256 a,
          fc_raw_next_frame_index := wm_durable_through_frame_index (hd (da_streams a)) + 1\<rparr>"
    using assms(2) unfolding verify_ack_Ok by blast
  have m: "qs \<noteq> []" "length qs = n" "\<forall>r\<in>set qs. record_key r = genesis_key g" "re_end_offset (last qs) = da_durable_through_offset a"
    "re_record_sha256 (last qs) = da_last_record_sha256 a" "rf_frame_index (re_frame (last qs)) = wm_durable_through_frame_index (hd (da_streams a))"
    using q(2) by (auto simp: range_matches_def record_key_def genesis_key_def)
  let ?b2 = "take (da_durable_through_offset a - fc_raw_offset c) (drop (fc_raw_offset c) raw)"
  note rr = range_records [OF q(1), folded genesis_key_def]
  have nx: "rf_frame_index (re_frame (last qs)) + 1 = sg_next_frame_index g + length rs + length qs"
    using read_records_more [OF rr, of "[]"] m(1,3) c(2) by simp
  obtain qs' where q': "read_raw_records_after_magic E (fc_raw_offset c) (fc_raw_previous_record_sha256 c)
      [(genesis_key g, fc_raw_next_frame_index c)] (0 + length rs) ?b2 = Ok qs'" "unnumbered qs' = unnumbered qs"
    using read_records_renumber [OF rr, of "0 + length rs"] by blast
  note u = unnumbered_same [OF q'(2)]
  have ne: "qs' \<noteq> []" using u(1) m(1) by auto
  have keys: "\<forall>r\<in>set qs'. record_key r = genesis_key g"
  proof
    fix r assume "r \<in> set qs'"
    then have "re_frame r \<in> set (map re_frame qs)" using u(2) by (metis image_eqI set_map)
    then show "record_key r = genesis_key g" using m(3) by (auto simp: record_key_def)
  qed
  have "take (da_durable_through_offset a - 8) (drop 8 raw) = take (fc_raw_offset c - 8) (drop 8 raw) @ ?b2"
    by (rule take_between [OF c(1)]) (use v(2) in simp)
  then have "read_raw_records_after_magic E 8 (sg_previous_segment_terminal_sha256 g) [(genesis_key g, sg_next_frame_index g)] 0
        (take (da_durable_through_offset a - 8) (drop 8 raw)) = Ok (rs @ qs')"
    using read_records_more [OF a(1,3), of ?b2] q'(1) by (simp add: a(4,5) c(2))
  then show ?thesis
    unfolding raw_verified_def v(5)
    using c(1) v(1-4) a(2,3) keys ne u m nx by (auto intro!: exI [of _ "rs @ qs'"])
qed

lemma line_step_fields:
  assumes "line_step E C raw path g l c r c'"
  obtains env :: progress_envelope and n :: nat and c1 :: follower_cursor where "verify_ack_against_raw E (Some raw) g (pb_ack (pe_body env)) c = (Ok n, c1)"
    "vp_acknowledged_records r = n" "vp_ack r = pb_ack (pe_body env)" "fc_latest_ack c' = Some (pb_ack (pe_body env))"
    "fc_raw_offset c' = fc_raw_offset c1" "fc_raw_record_count c' = fc_raw_record_count c1"
    "fc_raw_previous_record_sha256 c' = fc_raw_previous_record_sha256 c1" "fc_raw_next_frame_index c' = fc_raw_next_frame_index c1"
proof -
  obtain env :: progress_envelope and bb n and c1 :: follower_cursor where "verify_ack_against_raw E (Some raw) g (pb_ack (pe_body env)) c = (Ok n, c1)"
    "r = \<lparr>vp_schema = ''VerifiedDurabilityProgressV1'', vp_record_index = pb_record_index (pe_body env),
       vp_journal_start_offset = fc_journal_offset c, vp_journal_end_offset = fc_journal_offset c + (length l + 1),
       vp_progress_record_sha256 = sha256_hex E bb, vp_acknowledged_records = n, vp_ack = pb_ack (pe_body env)\<rparr>"
    "c' = c1\<lparr>fc_journal_offset := fc_journal_offset c + (length l + 1), fc_next_record_index := fc_next_record_index c + 1,
       fc_previous_progress_record_sha256 := sha256_hex E bb, fc_latest_ack := Some (pb_ack (pe_body env))\<rparr>"
    using assms unfolding line_step_def by blast
  then show thesis by (intro that [of env n c1]) simp_all
qed

lemma line_step_verified:
  assumes "line_step E C raw path g l c r c'" "raw_verified E raw g c"
  shows "raw_verified E raw g c' \<and> fc_raw_record_count c' = fc_raw_record_count c + vp_acknowledged_records r
    \<and> fc_latest_ack c' = Some (vp_ack r) \<and> da_durable_record_count (vp_ack r) = fc_raw_record_count c' \<and> 0 < fc_raw_record_count c'"
proof -
  obtain env :: progress_envelope and n and c1 :: follower_cursor where v: "verify_ack_against_raw E (Some raw) g (pb_ack (pe_body env)) c = (Ok n, c1)"
    "vp_acknowledged_records r = n" "vp_ack r = pb_ack (pe_body env)" "fc_latest_ack c' = Some (pb_ack (pe_body env))"
    "fc_raw_offset c' = fc_raw_offset c1" "fc_raw_record_count c' = fc_raw_record_count c1"
    "fc_raw_previous_record_sha256 c' = fc_raw_previous_record_sha256 c1" "fc_raw_next_frame_index c' = fc_raw_next_frame_index c1"
    by (rule line_step_fields [OF assms(1)]) (rule that, assumption+)
  have "0 < da_durable_record_count (pb_ack (pe_body env))" using v(1) by (auto simp: verify_ack_Ok)
  moreover have "fc_raw_record_count c1 = da_durable_record_count (pb_ack (pe_body env))" using v(1) by (auto simp: verify_ack_Ok)
  moreover have "raw_verified E raw g c' = raw_verified E raw g c1" unfolding raw_verified_def v(5-8) ..
  ultimately show ?thesis using verify_ack_verified [OF assms(2) v(1)] v(2-6) by simp
qed

lemma line_steps_verified:
  "line_steps E C raw path g ls c rs c' \<Longrightarrow> raw_verified E raw g c \<Longrightarrow>
     raw_verified E raw g c' \<and> fc_raw_record_count c' = fc_raw_record_count c + sum_list (map vp_acknowledged_records rs)
     \<and> (rs \<noteq> [] \<longrightarrow> fc_latest_ack c' = Some (vp_ack (last rs)) \<and> da_durable_record_count (vp_ack (last rs)) = fc_raw_record_count c'
        \<and> 0 < fc_raw_record_count c')"
proof (induction ls arbitrary: c rs)
  case (Cons l ls)
  then obtain r rs1 c1 where a: "line_step E C raw path g l c r c1" "rs = r # rs1" "line_steps E C raw path g ls c1 rs1 c'" by auto
  have s: "raw_verified E raw g c1" "fc_raw_record_count c1 = fc_raw_record_count c + vp_acknowledged_records r"
    "fc_latest_ack c1 = Some (vp_ack r)" "da_durable_record_count (vp_ack r) = fc_raw_record_count c1" "0 < fc_raw_record_count c1"
    using line_step_verified [OF a(1) Cons.prems(2)] by auto
  have "rs1 = [] \<Longrightarrow> c' = c1" using a(3) by (cases ls) auto
  then show ?case using Cons.IH [OF a(3) s(1)] s a(2) by auto
qed simp

lemma genesis_valid: "follower_validate_genesis g = Ok () \<Longrightarrow> validate_segment_genesis g = Ok ()"
  by (auto simp: follower_validate_genesis_def validate_segment_genesis_def follower_validate_digest_def validate_sha256_def Let_def split: if_splits)

text \<open>
  C33. What the follower has verified is the whole raw segment up to its cursor: after any successful polls of
  growing snapshots, reading the segment up to the cursor from its genesis succeeds, with exactly the records
  the cursor counts, the digest and the next frame index it carries; every record was acknowledged by exactly
  one verified line, and the last verified acknowledgement covers all of them.
\<close>

theorem followed_prefix_is_whole:
  assumes "follower_open (seen jid j0 rid raw0) g path = Ok f" "sorted_wrt grows ((j0, raw0) # ss)" "ss \<noteq> []"
    and "polls E C (snapshots jid rid ss) f = Ok (rs, f')" "c = sf_cursor f'"
  shows "\<exists>records. read_raw_segment_records E (Some (take (fc_raw_offset c) (snd (last ss)))) g = Ok records
    \<and> length records = fc_raw_record_count c \<and> fc_raw_record_count c = sum_list (map vp_acknowledged_records rs)
    \<and> fc_raw_next_frame_index c = sg_next_frame_index g + fc_raw_record_count c
    \<and> (rs \<noteq> [] \<longrightarrow> fc_latest_ack c = Some (vp_ack (last rs)) \<and> da_durable_record_count (vp_ack (last rs)) = fc_raw_record_count c
        \<and> re_record_sha256 (last records) = fc_raw_previous_record_sha256 c)"
proof -
  obtain s ss' where ss: "ss = s # ss'" using assms(3) by (cases ss) auto
  obtain j raw where l: "last ss = (j, raw)" by fastforce
  have g: "grows (j0, raw0) x" if "x \<in> set ss" for x using assms(2) that by simp
  obtain jl rl where l0: "j = j0 @ jl" "raw = raw0 @ rl" using g [OF last_in_set [OF assms(3)]] l by (auto simp: grows_def)
  obtain js rs1 where s0: "s = (j0 @ js, raw0 @ rs1)" using g [of s] ss by (auto simp: grows_def)
  note t = follower_open_tracks [OF assms(1)]
  obtain ls tail c' where a: "absorbs E C j raw f ls tail rs c'" "f' = moved j tail c' f"
    using polls_absorb [of s ss' jid rid f E C rs f' j raw] assms(2,4) ss l t(1,4) s0 by auto
  have m0: "8 \<le> length raw0" using arg_cong [OF t(2), of length] by simp
  then have m: "take 8 raw = MAGIC" "8 \<le> length raw0" using t(2) l0 by auto
  have v0: "raw_verified E raw g (sf_cursor f)" using m l0 by (simp add: raw_verified_def t(7))
  have cc: "c = c'" using a(2) assms(5) by (simp add: moved_def)
  have v: "raw_verified E raw g c" "fc_raw_record_count c = sum_list (map vp_acknowledged_records rs)"
    "rs \<noteq> [] \<longrightarrow> fc_latest_ack c = Some (vp_ack (last rs)) \<and> da_durable_record_count (vp_ack (last rs)) = fc_raw_record_count c
      \<and> 0 < fc_raw_record_count c"
    using line_steps_verified [OF _ v0, of C path ls rs c'] a(1) cc t(5,6,7) by (auto simp: absorbs_def)
  obtain records where r: "read_raw_records_after_magic E 8 (sg_previous_segment_terminal_sha256 g) [(genesis_key g, sg_next_frame_index g)] 0
      (take (fc_raw_offset c - 8) (drop 8 raw)) = Ok records"
    "length records = fc_raw_record_count c" "\<forall>r\<in>set records. record_key r = genesis_key g"
    "(if records = [] then sg_previous_segment_terminal_sha256 g else re_record_sha256 (last records)) = fc_raw_previous_record_sha256 c"
    "8 \<le> fc_raw_offset c" "fc_raw_next_frame_index c = sg_next_frame_index g + fc_raw_record_count c"
    using v(1) unfolding raw_verified_def by blast
  have "read_magic (take (fc_raw_offset c) raw) = Ok (take (fc_raw_offset c - 8) (drop 8 raw))"
  proof -
    have "take (fc_raw_offset c) raw = MAGIC @ take (fc_raw_offset c - 8) (drop 8 raw)"
      using take_between [of 0 8 "fc_raw_offset c" raw] r(5) m(1) by simp
    then show ?thesis by simp
  qed
  then have seg: "read_raw_segment_records E (Some (take (fc_raw_offset c) raw)) g = Ok records"
    using r(1,3) genesis_valid [OF t(3)]
    by (auto simp: read_raw_segment_records_def open_file_def Let_def genesis_key_def record_key_def list_ex_iff)
  have "records \<noteq> []" if "rs \<noteq> []" using v(3) r(2) that by auto
  then show ?thesis using seg r v(2,3) l by (intro exI [of _ records]) auto
qed

end
