(* ===== verification/Durability_Witness.thy ===== *)
theory Durability_Witness
  imports Durable_Prefix Durability_Follower_Raw Raw_Log_Witness
begin

text \<open>
  A capture session of two frames, its two acknowledgements and their watermark journal: the hypotheses of
  the durability theorems hold together on them.
\<close>

section \<open>Two frames\<close>

definition two_frame :: captured_frame where
  "two_frame = demo_frame\<lparr>cf_frame_index := 1\<rparr>"

definition two_record :: raw_record where
  "two_record = raw_record_of (table_externals []) (sha256_hex (table_externals []) [7]) two_frame"

definition two_E :: "jv externals" where
  "two_E = table_externals [([7], record_value demo_record), ([8], record_value two_record)]"

definition two_to_vec :: "raw_record \<Rightarrow> bytes option" where
  "two_to_vec r = (if r = demo_record then Some [7] else if r = two_record then Some [8] else None)"

lemma two_distinct: "demo_record \<noteq> two_record"
  by (simp add: demo_record_def two_record_def raw_record_of_def two_frame_def)

lemma two_externals_ok: "raw_externals_ok two_E two_to_vec"
proof -
  have "serde_round_trip two_E two_to_vec"
    by (auto simp: serde_round_trip_def two_to_vec_def two_E_def demo_record_def two_record_def raw_record_of_def
        intro!: record_value_json split: if_splits)
  then show ?thesis by (simp add: raw_externals_ok_def two_E_def pad32_len table_b64)
qed

lemma two_serialize:
  "two_to_vec (raw_record_of two_E ZERO_DIGEST demo_frame) = Some [7]"
  "two_to_vec (raw_record_of two_E (sha256_hex two_E [7]) two_frame) = Some [8]"
proof -
  have h: "sha256_hex two_E [7] = sha256_hex (table_externals []) [7]" by (simp add: two_E_def sha256_hex_def)
  have "raw_record_of two_E ZERO_DIGEST demo_frame = demo_record" "raw_record_of two_E (sha256_hex two_E [7]) two_frame = two_record"
    unfolding h unfolding two_E_def demo_record_def two_record_def by (rule raw_record_of_table)+
  then show "two_to_vec (raw_record_of two_E ZERO_DIGEST demo_frame) = Some [7]"
    "two_to_vec (raw_record_of two_E (sha256_hex two_E [7]) two_frame) = Some [8]"
    using two_distinct by (simp_all add: two_to_vec_def)
qed

lemma two_frames_wf: "frame_wf demo_frame" "frame_wf two_frame"
  by (simp_all add: frame_wf_def demo_frame_def two_frame_def u64_max_def)

lemma two_lengths: "length (encode_record two_E [7]) = 37" "length (encode_record two_E [8]) = 37"
  by (simp_all add: length_encode_record two_E_def pad32_len)

definition two_ack :: "nat \<Rightarrow> string \<Rightarrow> durability_ack" where
  "two_ack i d = \<lparr>da_schema = ''DurabilityAckV1'', da_durable_record_count = i + 1, da_durable_through_offset = 45 + 37 * i,
     da_last_record_sha256 = d,
     da_streams = [\<lparr>wm_connection_epoch = ''e'', wm_stream = ''s'', wm_durable_through_frame_index = i\<rparr>]\<rparr>"

definition ack1 :: durability_ack where "ack1 = two_ack 0 (sha256_hex two_E [7])"
definition ack2 :: durability_ack where "ack2 = two_ack 1 (sha256_hex two_E [8])"

definition two_w1 :: raw_log_writer where
  "two_w1 = demo_w0\<lparr>w_sink := \<lparr>sk_data = MAGIC @ encode_record two_E [7], sk_synced = 45, sk_plan = []\<rparr>,
     w_previous_digest := sha256_hex two_E [7], w_expected := [((''e'', ''s''), 1)], w_record_count := 1, w_end_offset := 45,
     w_last_ack := Some ack1\<rparr>"

definition two_w2 :: raw_log_writer where
  "two_w2 = demo_w0\<lparr>w_sink := \<lparr>sk_data = MAGIC @ encode_record two_E [7] @ encode_record two_E [8], sk_synced = 82, sk_plan = []\<rparr>,
     w_previous_digest := sha256_hex two_E [8], w_expected := [((''e'', ''s''), 2)], w_record_count := 2, w_end_offset := 82,
     w_last_ack := Some ack2\<rparr>"

lemma two_watermarks:
  "durability_watermarks [((''e'', ''s''), Suc i)]
     = [\<lparr>wm_connection_epoch = ''e'', wm_stream = ''s'', wm_durable_through_frame_index = i\<rparr>]"
  by (simp add: durability_watermarks_def List.map_filter_def watermark_of_def checked_sub_def)

lemmas writer_eval = writer_append_def append_commit_def writer_sync_def Let_def sink_write_all_def sink_sync_def demo_w0_def
  two_lengths MAX_RECORD_BYTES_def u32_max_def u64_max_def frame_key_def expected_next_def checked_add_def two_watermarks

lemma two_append1: "\<exists>r. writer_append two_E two_to_vec demo_w0 demo_frame = (Ok r, two_w1)"
  by (simp add: writer_eval two_serialize two_w1_def ack1_def two_ack_def)

lemma two_frame_sel [simp]:
  "cf_frame_index two_frame = 1" "cf_connection_epoch two_frame = ''e''" "cf_stream two_frame = ''s''"
  by (simp_all add: two_frame_def)

lemma two_append2: "\<exists>r. writer_append two_E two_to_vec two_w1 two_frame = (Ok r, two_w2)"
  using two_watermarks [of 1]
  by (simp add: writer_eval two_serialize two_w1_def two_w2_def ack2_def two_ack_def numeral_2_eq_2)

lemma two_acked: "acked_session two_E two_to_vec demo_w0 [demo_frame, two_frame] {ack1, ack2} two_w2"
proof -
  have s1: "session two_E two_to_vec demo_w0 [demo_frame] two_w1"
    using two_append1 session_append [OF session_start two_frames_wf(1)] by fastforce
  have s2: "session two_E two_to_vec two_w1 [two_frame] two_w2"
    using two_append2 session_append [OF session_start two_frames_wf(2)] by fastforce
  show ?thesis using acked_more [OF acked_more [OF acked_start s1] s2] by (simp add: two_w1_def two_w2_def insert_commute)
qed

lemma two_synced: "sk_synced (w_sink two_w2) = 82" by (simp add: two_w2_def)

lemma two_valid: "validate_ack ack1 = Ok ()" "validate_ack ack2 = Ok ()"
  using hex_digest_ok [of two_E] by (simp_all add: validate_ack_def ack1_def ack2_def two_ack_def two_E_def pad32_len)

text \<open>Witness: the file of the two frames cut inside the second record, from which the first is recovered.\<close>

lemma two_session: "session two_E two_to_vec demo_w0 [demo_frame, two_frame] two_w2"
proof -
  have "session two_E two_to_vec demo_w0 [demo_frame] two_w1"
    using two_append1 session_append [OF session_start two_frames_wf(1)] by fastforce
  then show ?thesis using two_append2 session_append [OF _ two_frames_wf(2)] by fastforce
qed

lemma two_chains:
  "\<exists>x. raw_chain two_E two_to_vec ZERO_DIGEST [] [demo_frame] (encode_record two_E [7]) (sha256_hex two_E [7]) x"
  "\<exists>p x. raw_chain two_E two_to_vec ZERO_DIGEST [] [demo_frame, two_frame] (encode_record two_E [7] @ encode_record two_E [8]) p x"
proof -
  have c: "raw_chain two_E two_to_vec ZERO_DIGEST [] [demo_frame] (encode_record two_E [7]) (sha256_hex two_E [7])
      (AList.update (frame_key demo_frame) 1 [])"
    using raw_chain.chain_snoc [of two_E two_to_vec ZERO_DIGEST "[]" "[]" "[]" ZERO_DIGEST "[]" demo_frame "[7]"]
    by (simp add: raw_chain.chain_nil two_frames_wf two_serialize expected_next_def u64_max_def MAX_RECORD_BYTES_def)
  then show "\<exists>x. raw_chain two_E two_to_vec ZERO_DIGEST [] [demo_frame] (encode_record two_E [7]) (sha256_hex two_E [7]) x" by blast
  show "\<exists>p x. raw_chain two_E two_to_vec ZERO_DIGEST [] [demo_frame, two_frame] (encode_record two_E [7] @ encode_record two_E [8]) p x"
    using raw_chain.chain_snoc [OF c, of two_frame "[8]"]
    by (auto simp: two_frames_wf two_serialize expected_next_def u64_max_def MAX_RECORD_BYTES_def frame_key_def)
qed

lemma two_torn_scan: "\<exists>sc. scan_raw_log two_E (Some (take 60 (sk_data (w_sink two_w2)))) = Ok sc \<and> \<not> sc_clean_eof sc"
proof -
  let ?tail = "take 15 (encode_record two_E [8])"
  have tk: "take 60 (sk_data (w_sink two_w2)) = MAGIC @ encode_record two_E [7] @ ?tail" by (simp add: two_w2_def two_lengths)
  have "torn two_E ?tail" "?tail \<noteq> []"
    using two_lengths(2) by (auto simp: torn_def MAX_RECORD_BYTES_def intro!: exI [of _ "[8]"] exI [of _ 15])
  then show ?thesis unfolding tk using scan_raw_log_chain [OF _ two_externals_ok] two_chains(1) two_lengths(1)
    by (fastforce simp: u64_max_def)
qed

theorem raw_log_recovery_witness:
  "\<exists>rv out. recover_raw_log_prefix two_E (Some (take 60 (sk_data (w_sink two_w2)))) None = Ok (rv, out)
     \<and> read_raw_log two_E (Some out) = Ok [raw_frame_of demo_frame] \<and> rv_recovered_records rv = 1 \<and> rv_excluded_tail_bytes rv = 15"
proof -
  obtain sc where sc: "scan_raw_log two_E (Some (take 60 (sk_data (w_sink two_w2)))) = Ok sc" "\<not> sc_clean_eof sc"
    using two_torn_scan by blast
  have len: "length (sk_data (w_sink two_w2)) = 82" by (simp add: two_w2_def two_lengths)
  have n: "8 \<le> (60::nat)" "60 \<le> length (sk_data (w_sink two_w2))" using len by simp_all
  obtain rv fs1 fs2 bs1 p1 x1 tail where
    r: "recover_raw_log_prefix two_E (Some (take 60 (sk_data (w_sink two_w2)))) None = Ok (rv, MAGIC @ bs1)"
    "file_frames [demo_frame, two_frame] two_w2 (fs1 @ fs2)" "raw_chain two_E two_to_vec ZERO_DIGEST [] fs1 bs1 p1 x1"
    "take 60 (sk_data (w_sink two_w2)) = MAGIC @ bs1 @ tail"
    "\<forall>fsA z bsA pA xA. fs1 @ fs2 = fsA @ z \<longrightarrow> raw_chain two_E two_to_vec ZERO_DIGEST [] fsA bsA pA xA
       \<longrightarrow> 8 + length bsA \<le> 60 \<longrightarrow> length fsA \<le> length fs1"
    "read_raw_log two_E (Some (MAGIC @ bs1)) = Ok (map raw_frame_of fs1)"
    "rv = \<lparr>rv_source_file_size = 60, rv_copied_valid_prefix_bytes = 8 + length bs1, rv_excluded_tail_bytes = length tail,
       rv_recovered_records = length fs1, rv_last_record_sha256 = p1\<rparr>"
    using raw_log_recovery [OF two_externals_ok demo_w0_fresh empty_sink_data two_session n sc]
    by (elim exE conjE) (rule that, assumption+)
  have fs: "fs1 @ fs2 = [demo_frame, two_frame]" using r(2) by (simp add: file_frames_def two_w2_def demo_w0_def)
  have total: "8 + length bs1 + length tail = 60" using arg_cong [OF r(4), of length] len by simp
  have "length [demo_frame] \<le> length fs1"
    using r(5) [rule_format, of "[demo_frame]" "[two_frame]"] fs two_chains(1) two_lengths(1) by auto
  moreover have "fs1 \<noteq> [demo_frame, two_frame]" using raw_chain_det [OF r(3)] two_chains(2) two_lengths total by fastforce
  ultimately have one: "fs1 = [demo_frame]" using fs by (auto simp: append_eq_Cons_conv)
  then have "length bs1 = 37" using raw_chain_det [OF r(3)] two_chains(1) two_lengths(1) by fastforce
  then show ?thesis using r(1,6,7) one total by auto
qed

section \<open>The watermark journal\<close>

definition progress_env :: "nat \<Rightarrow> string \<Rightarrow> durability_ack \<Rightarrow> progress_envelope" where
  "progress_env i previous a = \<lparr>pe_body = \<lparr>pb_schema = ''RawDurabilityProgressV1'', pb_record_index = i, pb_raw_path = ''d.bnraw'',
     pb_ack = a, pb_previous_record_sha256 = previous\<rparr>, pe_record_sha256 = sha256_hex two_E [word_of_nat i]\<rparr>"

definition progress1 :: progress_envelope where "progress1 = progress_env 0 ZERO_DIGEST ack1"
definition progress2 :: progress_envelope where "progress2 = progress_env 1 (sha256_hex two_E [0]) ack2"

definition two_codec :: progress_codec where
  "two_codec = \<lparr>pc_body_to_vec = (\<lambda>b. Some [word_of_nat (pb_record_index b)]),
     pc_to_vec = (\<lambda>e. if e = progress1 then Some [65] else if e = progress2 then Some [66] else None),
     pc_from_slice = map_of [([65], progress1), ([66], progress2)]\<rparr>"

lemma two_codec_ok: "progress_codec_ok two_codec"
  by (auto simp: progress_codec_ok_def two_codec_def newline_def)

definition failing_file :: sink where
  "failing_file = \<lparr>sk_data = [], sk_synced = 0, sk_plan = [IoOk, IoOk, IoOk, IoErr 0]\<rparr>"

definition two_journal :: durability_progress_writer where
  "two_journal = \<lparr>pw_file = \<lparr>sk_data = [65, 10, 66, 10], sk_synced = 2, sk_plan = []\<rparr>, pw_raw_path = ''d.bnraw'',
     pw_record_count = 1, pw_previous_digest = sha256_hex two_E [0], pw_latest_ack = Some ack1, pw_poisoned = True\<rparr>"

lemma progress_distinct: "progress2 \<noteq> progress1" by (simp add: progress1_def progress2_def progress_env_def)

lemma two_progress: "progress_run two_E two_codec [ack1, ack2] (progress_create failing_file ''d.bnraw'') = ([ack1], two_journal)"
proof -
  have "ack_stalls None ack1 = False" "ack_stalls (Some ack1) ack2 = False"
    by (simp_all add: ack_stalls_def ack1_def ack2_def two_ack_def)
  then show ?thesis using progress_distinct
    by (simp add: progress_append_def progress_create_def failing_file_def two_valid two_codec_def Let_def sink_write_all_def sink_sync_def
        progress1_def progress2_def progress_env_def add_u64_def u64_max_def two_journal_def newline_def)
qed

text \<open>Witness: the sync of the second acknowledgement fails and its line stays in the file.\<close>

theorem progress_survives_crash_witness:
  "\<exists>scan extra. scan_durability_progress two_E two_codec (Some (take 4 (sk_data (pw_file two_journal)))) = Ok scan
    \<and> ds_acknowledgements scan = [ack1] @ extra \<and> set extra \<subseteq> {ack1, ack2} \<and> length extra \<le> 1
    \<and> acks_advance (ds_acknowledgements scan) \<and> ds_latest_ack scan = last_ack (ds_acknowledgements scan)
    \<and> (\<not> pw_poisoned two_journal \<longrightarrow> extra = [] \<and> ds_clean_eof scan \<and> ds_latest_ack scan = pw_latest_ack two_journal)"
  using progress_survives_crash [OF two_codec_ok two_progress [unfolded failing_file_def], of 4]
  by (simp add: u64_max_def two_journal_def)

section \<open>The raw log\<close>

definition two_scan :: durability_progress_scan where
  "two_scan = \<lparr>ds_schema = ''DurabilityProgressScanV1'', ds_records = 1, ds_clean_eof = True, ds_reason = None,
     ds_latest_ack = Some ack1, ds_last_record_sha256 = sha256_hex two_E [0], ds_acknowledgements = [ack1]\<rparr>"

text \<open>Witness: the first acknowledgement is frozen from a file that already holds two frames.\<close>

theorem durable_prefix_freezes_witness:
  "\<exists>out. freeze_durable_raw_prefix two_E two_scan (Some (take 82 (sk_data (w_sink two_w2))))
        (Some \<lparr>sk_data = [], sk_synced = 0, sk_plan = []\<rparr>) = Ok (ack1, out)
    \<and> read_raw_log two_E (Some out) = Ok [raw_frame_of demo_frame] \<and> verify_progress_against_raw two_E two_scan (Some out) = Ok ack1"
  using durable_prefix_freezes [OF two_externals_ok demo_w0_fresh empty_sink_data two_acked, of 82 two_scan ack1]
  by (simp add: two_synced two_scan_def two_valid, simp add: ack1_def two_ack_def)

definition observation_of :: "raw_record_envelope \<Rightarrow> canonical_observation" where
  "observation_of r = \<lparr>co_symbol = ''BTCUSDT'', co_stream_kind = Trade, co_stream = rf_stream (re_frame r),
     co_connection_epoch = rf_connection_epoch (re_frame r), co_frame_index = rf_frame_index (re_frame r),
     co_first_sequence = 1, co_final_sequence = 1, co_record_sha256 = re_record_sha256 r, co_observation_sha256 = ZERO_DIGEST\<rparr>"

lemma two_records_read:
  "\<exists>envs. read_raw_records_through_offset two_E (Some (take 82 (sk_data (w_sink two_w2)))) (da_durable_through_offset ack2) = Ok envs
     \<and> length envs = 2"
proof -
  obtain k bs where p: "acked_prefix two_E two_to_vec (take 82 (sk_data (w_sink two_w2))) [demo_frame, two_frame] ack2 k bs"
    using acked_prefix_exists [OF two_acked demo_w0_fresh empty_sink_data, of ack2 82] two_synced by (auto simp: ack2_def two_ack_def)
  obtain envs where e: "read_raw_records_after_magic two_E 8 ZERO_DIGEST [] 0 bs = Ok envs"
    "length envs = da_durable_record_count ack2" "ack_matches_record ack2 (last envs)"
    using acked_prefix_read [OF p two_externals_ok] by blast
  then show ?thesis using acked_prefix_image [OF p]
    by (auto simp: read_raw_records_through_offset_def open_file_def ack_matches_record_def Let_def ack2_def two_ack_def)
qed

text \<open>Witness: reading on after the observation of the first frame returns the second.\<close>

theorem resume_after_observation_witness:
  "\<exists>envs c records. read_raw_records_through_offset two_E (Some (take 82 (sk_data (w_sink two_w2)))) (da_durable_through_offset ack2) = Ok envs
     \<and> durable_cursor_at_observation two_E (Some (take 82 (sk_data (w_sink two_w2)))) ack2 (observation_of (envs ! 0)) = Ok c
     \<and> da_durable_record_count c = 1
     \<and> read_durable_raw_delta two_E (Some (take 82 (sk_data (w_sink two_w2)))) c ack2 = Ok records
     \<and> map re_frame records = [raw_frame_of two_frame]"
proof -
  obtain envs where e: "read_raw_records_through_offset two_E (Some (take 82 (sk_data (w_sink two_w2)))) (da_durable_through_offset ack2) = Ok envs"
    "length envs = 2" using two_records_read by blast
  have "observation_record (observation_of (envs ! 0)) (envs ! 0)" by (simp add: observation_record_def observation_of_def)
  from resume_after_observation [OF two_externals_ok demo_w0_fresh empty_sink_data two_acked _ _ two_valid(2) e(1) _ this]
  show ?thesis using e two_synced by (simp add: ack2_def two_ack_def)
qed

section \<open>Following the journal\<close>

definition two_genesis :: segment_genesis where
  "two_genesis = \<lparr>sg_schema = ''RawSegmentGenesisV1'', sg_segment_index = 0, sg_previous_segment_terminal_sha256 = ZERO_DIGEST,
     sg_connection_epoch = ''e'', sg_stream = ''s'', sg_next_frame_index = 0\<rparr>"

definition two_raw :: bytes where
  "two_raw = MAGIC @ encode_record two_E [7] @ encode_record two_E [8]"

lemma single_range:
  assumes "frame_wf f" "frame_key f = (ep, st)" "cf_frame_index f + 1 \<le> u64_max" "two_to_vec (raw_record_of two_E p f) = Some body"
    and "length body \<le> MAX_RECORD_BYTES" "8 \<le> s" "e = s + length (encode_record two_E body)" "e \<le> length raw" "e \<le> u64_max"
    and "take (e - s) (drop s raw) = encode_record two_E body"
  shows "read_raw_record_range two_E (Some raw) s e p ep st (cf_frame_index f)
    = Ok [\<lparr>re_record_index = 0, re_start_offset = s, re_end_offset = e, re_record_sha256 = sha256_hex two_E body, re_frame = raw_frame_of f\<rparr>]"
proof -
  have n: "read_next_raw_record two_E p [((ep, st), cf_frame_index f)] (encode_record two_E body @ [])
      = (Ok (Some (raw_frame_of f, sha256_hex two_E body, length (encode_record two_E body))), [((ep, st), cf_frame_index f + 1)], [])"
    using read_next_encoded [OF two_externals_ok assms(1,4) _ assms(3,5), of "[((ep, st), cf_frame_index f)]" "[]"] assms(2)
    by (simp add: expected_next_def)
  have pos: "s < e" using assms(7) encode_record_min [of two_E body] by linarith
  show ?thesis
    using read_records_next [OF n, of s 0] assms pos
    by (simp add: read_raw_record_range_def open_file_def)
qed

lemma two_slices:
  "length two_raw = 82" "take 37 (drop 8 two_raw) = encode_record two_E [7]" "take 37 (drop 45 two_raw) = encode_record two_E [8]"
  using two_lengths by (simp_all add: two_raw_def)

lemma two_range1:
  "read_raw_record_range two_E (Some two_raw) 8 45 ZERO_DIGEST ''e'' ''s'' 0
    = Ok [\<lparr>re_record_index = 0, re_start_offset = 8, re_end_offset = 45, re_record_sha256 = sha256_hex two_E [7], re_frame = raw_frame_of demo_frame\<rparr>]"
  using single_range [OF two_frames_wf(1) _ _ two_serialize(1), of "''e''" "''s''" 8 45 two_raw]
  by (simp add: frame_key_def u64_max_def MAX_RECORD_BYTES_def two_slices two_lengths)

lemma two_range2:
  "read_raw_record_range two_E (Some two_raw) 45 82 (sha256_hex two_E [7]) ''e'' ''s'' 1
    = Ok [\<lparr>re_record_index = 0, re_start_offset = 45, re_end_offset = 82, re_record_sha256 = sha256_hex two_E [8], re_frame = raw_frame_of two_frame\<rparr>]"
  using single_range [OF two_frames_wf(2) _ _ two_serialize(2), of "''e''" "''s''" 45 82 two_raw]
  by (simp add: frame_key_def u64_max_def MAX_RECORD_BYTES_def two_slices two_lengths)

definition cursor0 :: follower_cursor where
  "cursor0 = \<lparr>fc_schema = ''DurabilityFollowerCursorV1'', fc_journal_offset = 0, fc_next_record_index = 0,
     fc_previous_progress_record_sha256 = ZERO_DIGEST, fc_latest_ack = None, fc_raw_record_count = 0, fc_raw_offset = 8,
     fc_raw_previous_record_sha256 = ZERO_DIGEST, fc_raw_next_frame_index = 0\<rparr>"

definition cursor1 :: follower_cursor where
  "cursor1 = cursor0\<lparr>fc_journal_offset := 2, fc_next_record_index := 1, fc_previous_progress_record_sha256 := sha256_hex two_E [0],
     fc_latest_ack := Some ack1, fc_raw_record_count := 1, fc_raw_offset := 45, fc_raw_previous_record_sha256 := sha256_hex two_E [7],
     fc_raw_next_frame_index := 1\<rparr>"

definition cursor2 :: follower_cursor where
  "cursor2 = cursor0\<lparr>fc_journal_offset := 4, fc_next_record_index := 2, fc_previous_progress_record_sha256 := sha256_hex two_E [1],
     fc_latest_ack := Some ack2, fc_raw_record_count := 2, fc_raw_offset := 82, fc_raw_previous_record_sha256 := sha256_hex two_E [8],
     fc_raw_next_frame_index := 2\<rparr>"

definition verified1 :: verified_progress where
  "verified1 = \<lparr>vp_schema = ''VerifiedDurabilityProgressV1'', vp_record_index = 0, vp_journal_start_offset = 0, vp_journal_end_offset = 2,
     vp_progress_record_sha256 = sha256_hex two_E [0], vp_acknowledged_records = 1, vp_ack = ack1\<rparr>"

definition verified2 :: verified_progress where
  "verified2 = \<lparr>vp_schema = ''VerifiedDurabilityProgressV1'', vp_record_index = 1, vp_journal_start_offset = 2, vp_journal_end_offset = 4,
     vp_progress_record_sha256 = sha256_hex two_E [1], vp_acknowledged_records = 1, vp_ack = ack2\<rparr>"

lemma two_hex: "length (sha256_hex two_E b) = 64 \<and> list_all is_lower_hex (sha256_hex two_E b)"
  using is_lower_hex_hex [of "sha256 two_E b"] pad32_len by (simp add: sha256_hex_def two_E_def sha256_len32_def)

lemma two_follower_valid:
  "follower_validate_ack ack1 two_genesis = Ok ()" "follower_validate_ack ack2 two_genesis = Ok ()"
  "follower_validate_genesis two_genesis = Ok ()"
  using two_hex
  by (simp_all add: follower_validate_ack_def follower_validate_genesis_def follower_validate_digest_def ack1_def ack2_def two_ack_def
      two_genesis_def checked_add_def u64_max_def Let_def ZERO_DIGEST_def trim_is_empty_def is_lower_hex_def
      is_ascii_digit_def list_all_iff)

lemma two_verify1:
  "verify_ack_against_raw two_E (Some two_raw) two_genesis ack1 cursor0
    = (Ok 1, cursor0\<lparr>fc_raw_record_count := 1, fc_raw_offset := 45, fc_raw_previous_record_sha256 := sha256_hex two_E [7], fc_raw_next_frame_index := 1\<rparr>)"
  unfolding verify_ack_Ok
  using two_follower_valid(1) two_range1
  by (simp add: cursor0_def ack1_def two_ack_def two_genesis_def ack_regresses_def two_slices u64_max_def range_matches_def
      raw_frame_of_def)

lemma two_verify2:
  "verify_ack_against_raw two_E (Some two_raw) two_genesis ack2 cursor1
    = (Ok 1, cursor1\<lparr>fc_raw_record_count := 2, fc_raw_offset := 82, fc_raw_previous_record_sha256 := sha256_hex two_E [8], fc_raw_next_frame_index := 2\<rparr>)"
  unfolding verify_ack_Ok
  using two_follower_valid(2) two_range2
  by (simp add: cursor1_def cursor0_def ack1_def ack2_def two_ack_def two_genesis_def ack_regresses_def two_slices u64_max_def range_matches_def
      raw_frame_of_def)

lemma two_line1: "line_step two_E two_codec two_raw ''d.bnraw'' two_genesis [65] cursor0 verified1 cursor1"
  unfolding line_step_def
  by (intro conjI exI [of _ progress1] exI [of _ "[0]"] exI [of _ 1]
      exI [of _ "cursor0\<lparr>fc_raw_record_count := 1, fc_raw_offset := 45, fc_raw_previous_record_sha256 := sha256_hex two_E [7], fc_raw_next_frame_index := 1\<rparr>"])
    (use two_verify1 in \<open>simp_all add: MAX_PROGRESS_RECORD_BYTES_def two_codec_def progress1_def progress_env_def cursor0_def cursor1_def verified1_def u64_max_def\<close>)

lemma two_line2: "line_step two_E two_codec two_raw ''d.bnraw'' two_genesis [66] cursor1 verified2 cursor2"
  unfolding line_step_def
  by (intro conjI exI [of _ progress2] exI [of _ "[1]"] exI [of _ 1]
      exI [of _ "cursor1\<lparr>fc_raw_record_count := 2, fc_raw_offset := 82, fc_raw_previous_record_sha256 := sha256_hex two_E [8], fc_raw_next_frame_index := 2\<rparr>"])
    (use two_verify2 in \<open>simp_all add: MAX_PROGRESS_RECORD_BYTES_def two_codec_def progress2_def progress_env_def cursor0_def cursor1_def cursor2_def verified2_def u64_max_def\<close>)

definition two_follower :: segment_follower where
  "two_follower = \<lparr>sf_expected_raw_path = ''d.bnraw'', sf_genesis = two_genesis, sf_progress_identity = (1, 1), sf_raw_identity = (1, 2),
     sf_read_offset = 0, sf_pending = [], sf_cursor = cursor0, sf_poisoned = False\<rparr>"

lemma two_open: "follower_open (seen (1, 1) [] (1, 2) MAGIC) two_genesis ''d.bnraw'' = Ok two_follower"
  using two_follower_valid(3) by (simp add: follower_open_def seen_def two_follower_def cursor0_def two_genesis_def)

definition two_snapshots :: "(bytes \<times> bytes) list" where
  "two_snapshots = [([65, 10, 66], two_raw), ([65, 10, 66, 10], two_raw)]"

definition two_final :: segment_follower where
  "two_final = moved [65, 10, 66, 10] [] cursor2 two_follower"

lemma two_polls: "polls two_E two_codec (snapshots (1, 1) (1, 2) two_snapshots) two_follower = Ok ([verified1, verified2], two_final)"
proof -
  note t = follower_open_tracks [OF two_open]
  have tr: "tracks (1, 1) j (1, 2) two_raw two_follower" for j using t(4) [of j] by (simp add: two_raw_def)
  have a1: "absorbs two_E two_codec [65, 10, 66] two_raw two_follower [[65]] [66] [verified1] cursor1"
    using two_line1 by (simp add: absorbs_def two_follower_def newline_def MAX_PROGRESS_RECORD_BYTES_def)
  obtain p1 where p1: "follower_poll_step two_E two_codec (seen (1, 1) [65, 10, 66] (1, 2) two_raw) two_follower
      = (Ok p1, moved [65, 10, 66] [66] cursor1 two_follower)" "fp_records p1 = [verified1]"
    using poll_step_absorbs [OF tr t(1) a1] by (auto simp: u64_max_def)
  let ?f = "moved [65, 10, 66] [66] cursor1 two_follower"
  have u: "length ([65, 10, 66] :: bytes) \<le> u64_max" by (simp add: u64_max_def)
  note m = moved_state(1) [OF tr t(1) a1 u, of "[10]" "[]"] moved_state(2) [OF tr t(1) a1 u]
  have a2: "absorbs two_E two_codec [65, 10, 66, 10] two_raw ?f [[66]] [] [verified2] cursor2"
    using two_line2 by (simp add: absorbs_def moved_def two_follower_def newline_def)
  obtain p2 where "follower_poll_step two_E two_codec (seen (1, 1) [65, 10, 66, 10] (1, 2) two_raw) ?f
      = (Ok p2, moved [65, 10, 66, 10] [] cursor2 ?f)" "fp_records p2 = [verified2]"
    using poll_step_absorbs [OF _ m(2) a2, of "(1, 1)" "(1, 2)"] m(1) by (auto simp: u64_max_def)
  then show ?thesis using p1 by (simp add: two_snapshots_def two_final_def moved_def)
qed

lemma two_growing: "sorted_wrt grows (([], MAGIC) # two_snapshots)" "two_snapshots \<noteq> []"
  by (simp_all add: two_snapshots_def grows_def two_raw_def)

text \<open>Witness: two polls, the first of them in the middle of the second line.\<close>

theorem following_equals_final_audit_witness:
  "polls two_E two_codec (snapshots (1, 1) (1, 2) [([65, 10, 66, 10], two_raw)]) two_follower = Ok ([verified1, verified2], two_final)"
  using following_equals_final_audit [OF two_open two_growing two_polls] by (simp add: two_snapshots_def)

text \<open>Witness: the same polls verify both records of the segment.\<close>

theorem followed_prefix_is_whole_witness:
  "\<exists>records. read_raw_segment_records two_E (Some two_raw) two_genesis = Ok records \<and> length records = 2
    \<and> re_record_sha256 (last records) = sha256_hex two_E [8]"
  using followed_prefix_is_whole [OF two_open two_growing two_polls refl] two_slices(1)
  by (auto simp: two_final_def moved_def cursor2_def two_snapshots_def)

end
