(* ===== verification/Segment_Chain.thy ===== *)
theory Segment_Chain
  imports Framed_Log Raw_Log_Reader Durability_Progress
begin

text \<open>
  The segment manifest of \<open>segment_chain.rs\<close>: the geneses of a chain of raw segments, the check that turns
  a finished raw file and its terminal acknowledgement into a seal, the manifest writer, the scan of a
  manifest, the verification of the files it names and the recovery of its valid prefix. The file system is
  a map from paths to file contents that does not change during one call; paths are those of a Unix system.
\<close>

section \<open>Data\<close>

type_synonym file_map = "string \<Rightarrow> bytes option"

definition MANIFEST_MAGIC :: bytes where
  "MANIFEST_MAGIC = [0x42, 0x4E, 0x53, 0x45, 0x47, 0x00, 0x01, 0x0A]"

definition MAX_MANIFEST_RECORD_BYTES :: nat where "MAX_MANIFEST_RECORD_BYTES = 1048576"

record manifest_body =
  mb_schema :: string
  mb_record_index :: nat
  mb_previous_manifest_record_sha256 :: string
  mb_seal :: segment_seal

record manifest_entry =
  me_schema :: string
  me_record_index :: nat
  me_previous_manifest_record_sha256 :: string
  me_manifest_record_sha256 :: string
  me_seal :: segment_seal

record manifest_ack =
  ma_schema :: string
  ma_record_index :: nat
  ma_segment_index :: nat
  ma_durable_through_offset :: nat
  ma_record_sha256 :: string

record manifest_scan =
  mn_schema :: string
  mn_path :: string
  mn_file_size :: nat
  mn_records :: nat
  mn_last_good_offset :: nat
  mn_clean_eof :: bool
  mn_reason :: "string option"
  mn_last_record_sha256 :: string
  mn_entries :: "manifest_entry list"

record manifest_recovery =
  mv_schema :: string
  mv_source_file_size :: nat
  mv_copied_valid_prefix_bytes :: nat
  mv_excluded_tail_bytes :: nat
  mv_recovered_records :: nat
  mv_last_record_sha256 :: string

record verified_raw_segment =
  vr_raw_path :: string
  vr_genesis :: segment_genesis
  vr_ack :: durability_ack
  vr_seal :: segment_seal

record manifest_writer =
  mw_sink :: sink
  mw_record_count :: nat
  mw_end_offset :: nat
  mw_previous_digest :: string
  mw_last_seal :: "segment_seal option"
  mw_raw_files :: "string set"
  mw_poisoned :: bool

section \<open>Paths\<close>

text \<open>\<open>Path::file_name\<close>: the last component when it is a normal one.\<close>

definition path_file_name :: "string \<Rightarrow> string option" where
  "path_file_name p =
     (case rev (path_components p) of
        [] \<Rightarrow> None
      | c # _ \<Rightarrow> if c = ''.'' \<or> c = ''..'' then None else Some c)"

text \<open>\<open>Path::join\<close>.\<close>

definition path_join :: "string \<Rightarrow> string \<Rightarrow> string" where
  "path_join base p =
     (if p \<noteq> [] \<and> hd p = CHR ''/'' then p
      else if base = [] \<or> last base = CHR ''/'' then base @ p
      else base @ ''/'' @ p)"

definition validate_relative_file :: "string \<Rightarrow> unit res" where
  "validate_relative_file raw_file =
     (if trim_is_empty raw_file \<or> hd raw_file = CHR ''/''
         \<or> (case path_components raw_file of [c] \<Rightarrow> c = ''.'' \<or> c = ''..'' | _ \<Rightarrow> True)
      then Err (Fail ''raw segment file must be one relative file name'')
      else Ok ())"

section \<open>Seals and geneses\<close>

definition manifest_validate_digest :: "string \<Rightarrow> string \<Rightarrow> unit res" where
  "manifest_validate_digest value field =
     check (length value = 64 \<and> list_all is_lower_hex value) (FailS ''must be a lowercase SHA-256 digest'' [field])"

definition validate_seal_shape :: "segment_seal \<Rightarrow> unit res" where
  "validate_seal_shape s =
     (if ss_schema s \<noteq> ''RawSegmentSealV1'' \<or> trim_is_empty (ss_connection_epoch s) \<or> trim_is_empty (ss_stream s)
         \<or> ss_records s = 0 \<or> ss_durable_through_offset s \<le> length MANIFEST_MAGIC
         \<or> ss_last_frame_index s < ss_first_frame_index s
      then Err (Fail ''invalid raw segment seal'')
      else
        rbind (validate_relative_file (ss_raw_file s)) (\<lambda>_.
        rbind (manifest_validate_digest (ss_previous_segment_terminal_sha256 s) ''previous_segment_terminal_sha256'') (\<lambda>_.
        rbind (manifest_validate_digest (ss_terminal_record_sha256 s) ''terminal_record_sha256'') (\<lambda>_.
        rbind (ok_or (Fail ''raw segment seal frame range overflow'')
                 (Option.bind (checked_sub (ss_last_frame_index s) (ss_first_frame_index s)) (\<lambda>value. checked_add value 1))) (\<lambda>expected.
        if ss_records s \<noteq> expected then Err (Fail ''raw segment seal count does not match frame range'')
        else
          let root = (ss_segment_index s = 0 \<and> ss_first_frame_index s = 0
                \<and> ss_previous_segment_terminal_sha256 s = ZERO_DIGEST);
              successor = (0 < ss_segment_index s \<and> 0 < ss_first_frame_index s
                \<and> ss_previous_segment_terminal_sha256 s \<noteq> ZERO_DIGEST)
          in check (root \<or> successor) (Fail ''raw segment seal is neither root nor successor''))))))"

definition root_segment_genesis :: "string \<Rightarrow> string \<Rightarrow> segment_genesis res" where
  "root_segment_genesis connection_epoch stream =
     (if trim_is_empty connection_epoch \<or> trim_is_empty stream
      then Err (Fail ''root segment identity must not be empty'')
      else Ok \<lparr>sg_schema = ''RawSegmentGenesisV1'', sg_segment_index = 0,
               sg_previous_segment_terminal_sha256 = ZERO_DIGEST, sg_connection_epoch = connection_epoch,
               sg_stream = stream, sg_next_frame_index = 0\<rparr>)"

definition successor_segment_genesis :: "segment_seal \<Rightarrow> segment_genesis res" where
  "successor_segment_genesis previous =
     rbind (validate_seal_shape previous) (\<lambda>_.
     rbind (ok_or (Fail ''raw segment index overflow'') (checked_add (ss_segment_index previous) 1)) (\<lambda>index.
     rbind (ok_or (Fail ''raw segment frame index overflow'') (checked_add (ss_last_frame_index previous) 1)) (\<lambda>frame.
     Ok \<lparr>sg_schema = ''RawSegmentGenesisV1'', sg_segment_index = index,
         sg_previous_segment_terminal_sha256 = ss_terminal_record_sha256 previous,
         sg_connection_epoch = ss_connection_epoch previous, sg_stream = ss_stream previous,
         sg_next_frame_index = frame\<rparr>)))"

definition validate_manifest_transition ::
  "nat \<Rightarrow> segment_seal option \<Rightarrow> string set \<Rightarrow> segment_seal \<Rightarrow> unit res" where
  "validate_manifest_transition record_index previous raw_files s =
     rbind (validate_seal_shape s) (\<lambda>_.
     if ss_segment_index s \<noteq> record_index \<or> ss_raw_file s \<in> raw_files
     then Err (Fail ''segment index/file is duplicate or out of order'')
     else case previous of
       None \<Rightarrow>
         check (\<not> (ss_segment_index s \<noteq> 0 \<or> ss_first_frame_index s \<noteq> 0
                  \<or> ss_previous_segment_terminal_sha256 s \<noteq> ZERO_DIGEST))
           (Fail ''segment manifest must begin at the exact root'')
     | Some old \<Rightarrow>
         rbind (ok_or (Fail ''segment index overflow'') (checked_add (ss_segment_index old) 1)) (\<lambda>expected_segment.
         rbind (ok_or (Fail ''segment frame index overflow'') (checked_add (ss_last_frame_index old) 1)) (\<lambda>expected_frame.
         check (\<not> (ss_segment_index s \<noteq> expected_segment \<or> ss_connection_epoch s \<noteq> ss_connection_epoch old
                  \<or> ss_stream s \<noteq> ss_stream old \<or> ss_first_frame_index s \<noteq> expected_frame
                  \<or> ss_previous_segment_terminal_sha256 s \<noteq> ss_terminal_record_sha256 old))
           (Fail ''segment manifest transition is not exactly contiguous''))))"

definition ack_from_seal :: "segment_seal \<Rightarrow> durability_ack" where
  "ack_from_seal s = \<lparr>da_schema = ''DurabilityAckV1'', da_durable_record_count = ss_records s,
     da_durable_through_offset = ss_durable_through_offset s, da_last_record_sha256 = ss_terminal_record_sha256 s,
     da_streams = [\<lparr>wm_connection_epoch = ss_connection_epoch s, wm_stream = ss_stream s,
                    wm_durable_through_frame_index = ss_last_frame_index s\<rparr>]\<rparr>"

definition verify_and_seal_raw_segment ::
  "'v externals \<Rightarrow> file_map \<Rightarrow> string \<Rightarrow> string \<Rightarrow> segment_genesis \<Rightarrow> durability_ack \<Rightarrow> verified_raw_segment res" where
  "verify_and_seal_raw_segment E fs raw_path raw_file g a =
     rbind (validate_relative_file raw_file) (\<lambda>_.
     if path_file_name raw_path \<noteq> Some raw_file
     then Err (Fail ''raw segment path does not match manifest file name'')
     else rbind (scan_raw_segment E (fs raw_path) g) (\<lambda>scan.
       if \<not> sc_clean_eof scan then Err (Fail ''raw segment has no clean EOF'')
       else if da_schema a \<noteq> ''DurabilityAckV1'' \<or> length (da_streams a) \<noteq> 1
       then Err (Fail ''invalid raw segment terminal ACK'')
       else
         let watermark = hd (da_streams a) in
         if sc_file_size scan \<noteq> da_durable_through_offset a \<or> sc_last_good_offset scan \<noteq> da_durable_through_offset a
            \<or> sc_records scan \<noteq> da_durable_record_count a \<or> sc_last_record_sha256 scan \<noteq> da_last_record_sha256 a
            \<or> sc_streams scan \<noteq> da_streams a \<or> wm_connection_epoch watermark \<noteq> sg_connection_epoch g
            \<or> wm_stream watermark \<noteq> sg_stream g
         then Err (Fail ''terminal ACK does not match the exact raw segment'')
         else rbind (seal_raw_segment g raw_file a) (\<lambda>seal.
           rbind (validate_seal_shape seal) (\<lambda>_.
           Ok \<lparr>vr_raw_path = raw_path, vr_genesis = g, vr_ack = a, vr_seal = seal\<rparr>))))"

section \<open>The manifest writer\<close>

definition manifest_from_sink :: "sink \<Rightarrow> manifest_writer res" where
  "manifest_from_sink sk =
     (case sink_write_all MANIFEST_MAGIC sk of
        (False, _) \<Rightarrow> Err (Fail ''write segment manifest magic'')
      | (True, sk1) \<Rightarrow>
          (case sink_sync sk1 of
             (False, _) \<Rightarrow> Err (Fail ''sync segment manifest magic'')
           | (True, sk2) \<Rightarrow>
               Ok \<lparr>mw_sink = sk2, mw_record_count = 0, mw_end_offset = length MANIFEST_MAGIC,
                   mw_previous_digest = ZERO_DIGEST, mw_last_seal = None, mw_raw_files = {}, mw_poisoned = False\<rparr>))"

definition manifest_body_of :: "segment_seal \<Rightarrow> manifest_writer \<Rightarrow> manifest_body" where
  "manifest_body_of s w = \<lparr>mb_schema = ''RawSegmentManifestRecordV1'', mb_record_index = mw_record_count w,
     mb_previous_manifest_record_sha256 = mw_previous_digest w, mb_seal = s\<rparr>"

text \<open>The checks of \<open>append_verified\<close> before anything is written: the body and the next counters.\<close>

definition prepare_manifest_record ::
  "'v externals \<Rightarrow> (manifest_body \<Rightarrow> bytes) \<Rightarrow> file_map \<Rightarrow> verified_raw_segment \<Rightarrow> manifest_writer
     \<Rightarrow> (segment_seal \<times> bytes \<times> nat \<times> nat) res" where
  "prepare_manifest_record E to_vec fs v w =
     rbind (verify_and_seal_raw_segment E fs (vr_raw_path v) (ss_raw_file (vr_seal v)) (vr_genesis v) (vr_ack v)) (\<lambda>current.
     if vr_seal current \<noteq> vr_seal v then Err (Fail ''raw segment changed after verification'')
     else rbind (validate_manifest_transition (mw_record_count w) (mw_last_seal w) (mw_raw_files w) (vr_seal current)) (\<lambda>_.
       let body = to_vec (manifest_body_of (vr_seal current) w) in
       if MAX_MANIFEST_RECORD_BYTES < length body then Err (Fail ''segment manifest record exceeds maximum size'')
       else if 2 ^ 32 \<le> length body then Err (Fail ''segment manifest record length does not fit u32'')
       else rbind (ok_or (Fail ''segment manifest record index overflow'') (checked_add (mw_record_count w) 1)) (\<lambda>count.
         rbind (ok_or (Fail ''segment manifest offset overflow'')
                  (checked_add (mw_end_offset w) (length (encode_frame E body)))) (\<lambda>offset.
         Ok (vr_seal current, body, count, offset)))))"

definition append_verified ::
  "'v externals \<Rightarrow> (manifest_body \<Rightarrow> bytes) \<Rightarrow> file_map \<Rightarrow> verified_raw_segment \<Rightarrow> manifest_writer
     \<Rightarrow> manifest_ack res \<times> manifest_writer" where
  "append_verified E to_vec fs v w =
     (if mw_poisoned w then (Err (Fail ''raw segment manifest writer is poisoned''), w)
      else case prepare_manifest_record E to_vec fs v w of
        Inl e \<Rightarrow> (Err e, w)
      | Inr (seal, body, count, offset) \<Rightarrow>
          (case write_frame E body (mw_sink w) of
             (False, sk1) \<Rightarrow>
               (Err (Fail ''sync raw segment manifest; writer poisoned''), w\<lparr>mw_sink := sk1, mw_poisoned := True\<rparr>)
           | (True, sk1) \<Rightarrow>
               (Ok \<lparr>ma_schema = ''RawSegmentManifestAckV1'', ma_record_index = mw_record_count w,
                    ma_segment_index = ss_segment_index seal, ma_durable_through_offset = offset,
                    ma_record_sha256 = sha256_hex E body\<rparr>,
                w\<lparr>mw_sink := sk1, mw_record_count := count, mw_end_offset := offset,
                  mw_previous_digest := sha256_hex E body, mw_raw_files := insert (ss_raw_file seal) (mw_raw_files w),
                  mw_last_seal := Some seal\<rparr>)))"

section \<open>The scan\<close>

record manifest_scan_state =
  mx_entries :: "manifest_entry list"
  mx_previous :: string
  mx_last_seal :: "segment_seal option"
  mx_raw_files :: "string set"

definition manifest_scan_start :: manifest_scan_state where
  "manifest_scan_start = \<lparr>mx_entries = [], mx_previous = ZERO_DIGEST, mx_last_seal = None, mx_raw_files = {}\<rparr>"

definition manifest_entry_of :: "manifest_body \<Rightarrow> string \<Rightarrow> manifest_entry" where
  "manifest_entry_of b digest = \<lparr>me_schema = ''RawSegmentManifestEntryV1'', me_record_index = mb_record_index b,
     me_previous_manifest_record_sha256 = mb_previous_manifest_record_sha256 b, me_manifest_record_sha256 = digest,
     me_seal = mb_seal b\<rparr>"

definition manifest_scan_step ::
  "manifest_body \<Rightarrow> string \<Rightarrow> manifest_scan_state \<Rightarrow> unit res \<times> manifest_scan_state" where
  "manifest_scan_step b digest s =
     (if mb_schema b \<noteq> ''RawSegmentManifestRecordV1'' \<or> mb_record_index b \<noteq> length (mx_entries s)
         \<or> mb_previous_manifest_record_sha256 b \<noteq> mx_previous s
         \<or> validate_manifest_transition (mb_record_index b) (mx_last_seal s) (mx_raw_files s) (mb_seal b) \<noteq> Ok ()
      then (Err (Fail ''invalid segment manifest chain/record''), s)
      else (Ok (), \<lparr>mx_entries = mx_entries s @ [manifest_entry_of b digest], mx_previous = digest,
                    mx_last_seal = Some (mb_seal b), mx_raw_files = insert (ss_raw_file (mb_seal b)) (mx_raw_files s)\<rparr>))"

text \<open>One read of the loop: the prefix, the length, the body and its digest.\<close>

definition manifest_frame :: "'v externals \<Rightarrow> bytes \<Rightarrow> frame" where
  "manifest_frame E bs =
     (if bs = [] then FrameEof
      else if length bs < 4 then FrameBad ''partial segment manifest length prefix''
      else
        let n = from_be_bytes (take 4 bs); rest = drop 4 bs in
        if n = 0 \<or> MAX_MANIFEST_RECORD_BYTES < n then FrameBad ''segment manifest record length exceeds limit''
        else if length rest < n then FrameBad ''partial segment manifest body''
        else if length rest < n + 32 then FrameBad ''partial segment manifest digest''
        else if sha256 E (take n rest) \<noteq> take 32 (drop n rest) then FrameBad ''segment manifest record digest mismatch''
        else Frame (take n rest) (take 32 (drop n rest)) (drop (n + 32) rest))"

lemma manifest_frame_rest: "manifest_frame E bs = Frame body d rest \<Longrightarrow> length rest < length bs"
  by (auto simp: manifest_frame_def Let_def split: if_splits)

function manifest_scan_loop ::
  "'v externals \<Rightarrow> (bytes \<Rightarrow> manifest_body option) \<Rightarrow> bytes \<Rightarrow> nat \<Rightarrow> manifest_scan_state
     \<Rightarrow> (manifest_scan_state \<times> nat \<times> string option) res" where
  "manifest_scan_loop E from_slice bs off s =
     (case manifest_frame E bs of
        FrameEof \<Rightarrow> Ok (s, off, None)
      | FrameBad m \<Rightarrow> Ok (s, off, Some m)
      | Frame body d rest \<Rightarrow>
          (case from_slice body of
             None \<Rightarrow> Ok (s, off, Some ''invalid segment manifest JSON'')
           | Some b \<Rightarrow>
               (case manifest_scan_step b (hex d) s of
                  (Inl e, _) \<Rightarrow> Ok (s, off, Some ''invalid segment manifest chain/record'')
                | (Inr _, s1) \<Rightarrow>
                    (case checked_add off (4 + length body + 32) of
                       None \<Rightarrow> Err (Fail ''segment manifest scan offset overflow'')
                     | Some off1 \<Rightarrow> manifest_scan_loop E from_slice rest off1 s1))))"
  by pat_completeness auto
termination
  by (relation "measure (\<lambda>(E, from_slice, bs, off, s). length bs)") (auto dest: manifest_frame_rest)

declare manifest_scan_loop.simps [simp del]

definition scan_segment_manifest ::
  "'v externals \<Rightarrow> (bytes \<Rightarrow> manifest_body option) \<Rightarrow> file_map \<Rightarrow> string \<Rightarrow> manifest_scan res" where
  "scan_segment_manifest E from_slice fs path =
     rbind (ok_or (Fail ''open'') (fs path)) (\<lambda>bs.
     if take 8 bs \<noteq> MANIFEST_MAGIC
     then Ok \<lparr>mn_schema = ''RawSegmentManifestScanV1'', mn_path = path, mn_file_size = length bs, mn_records = 0,
              mn_last_good_offset = 0, mn_clean_eof = False, mn_reason = Some ''bad segment manifest magic'',
              mn_last_record_sha256 = ZERO_DIGEST, mn_entries = []\<rparr>
     else rbind (manifest_scan_loop E from_slice (drop 8 bs) (length MANIFEST_MAGIC) manifest_scan_start) (\<lambda>(s, off, reason).
       Ok \<lparr>mn_schema = ''RawSegmentManifestScanV1'', mn_path = path, mn_file_size = length bs,
           mn_records = length (mx_entries s), mn_last_good_offset = off, mn_clean_eof = (reason = None),
           mn_reason = reason, mn_last_record_sha256 = mx_previous s, mn_entries = mx_entries s\<rparr>))"

section \<open>The files of a manifest\<close>

definition genesis_from_seal :: "segment_seal \<Rightarrow> segment_genesis" where
  "genesis_from_seal s = \<lparr>sg_schema = ''RawSegmentGenesisV1'', sg_segment_index = ss_segment_index s,
     sg_previous_segment_terminal_sha256 = ss_previous_segment_terminal_sha256 s,
     sg_connection_epoch = ss_connection_epoch s, sg_stream = ss_stream s, sg_next_frame_index = ss_first_frame_index s\<rparr>"

fun verify_entry_files ::
  "'v externals \<Rightarrow> file_map \<Rightarrow> string \<Rightarrow> manifest_entry list \<Rightarrow> verified_raw_segment list res" where
  "verify_entry_files E fs base [] = Ok []"
| "verify_entry_files E fs base (e # es) =
     rbind (verify_and_seal_raw_segment E fs (path_join base (ss_raw_file (me_seal e))) (ss_raw_file (me_seal e))
              (genesis_from_seal (me_seal e)) (ack_from_seal (me_seal e))) (\<lambda>artifact.
     if vr_seal artifact \<noteq> me_seal e then Err (Fail ''manifest seal differs from verified raw segment'')
     else rbind (verify_entry_files E fs base es) (\<lambda>vs. Ok (artifact # vs)))"

definition rescan_manifest ::
  "'v externals \<Rightarrow> (bytes \<Rightarrow> manifest_body option) \<Rightarrow> file_map \<Rightarrow> manifest_scan \<Rightarrow> unit res" where
  "rescan_manifest E from_slice fs scan =
     (if \<not> mn_clean_eof scan then Err (Fail ''cannot verify files from an unclean segment manifest'')
      else rbind (scan_segment_manifest E from_slice fs (mn_path scan)) (\<lambda>current.
        check (current = scan) (Fail ''segment manifest changed after it was scanned'')))"

definition verify_segment_manifest_files ::
  "'v externals \<Rightarrow> (bytes \<Rightarrow> manifest_body option) \<Rightarrow> file_map \<Rightarrow> manifest_scan \<Rightarrow> string \<Rightarrow> verified_raw_segment list res" where
  "verify_segment_manifest_files E from_slice fs scan base =
     rbind (rescan_manifest E from_slice fs scan) (\<lambda>_. verify_entry_files E fs base (mn_entries scan))"

definition verify_segment_manifest_prefix_files ::
  "'v externals \<Rightarrow> (bytes \<Rightarrow> manifest_body option) \<Rightarrow> file_map \<Rightarrow> manifest_scan \<Rightarrow> string \<Rightarrow> nat
     \<Rightarrow> verified_raw_segment list res" where
  "verify_segment_manifest_prefix_files E from_slice fs scan base through =
     rbind (rescan_manifest E from_slice fs scan) (\<lambda>_.
     rbind (ok_or (Fail ''segment prefix index overflow'') (checked_add through 1)) (\<lambda>count.
     if length (mn_entries scan) < count
     then Err (FailN ''segment manifest has too few entries'' [length (mn_entries scan), through])
     else verify_entry_files E fs base (take count (mn_entries scan))))"

text \<open>
  \<open>bs2\<close> is the source when it is copied, \<open>sk\<close> the new destination file (none when \<open>create_new\<close> refuses);
  the result carries the recovered file.
\<close>

definition recover_segment_manifest_prefix ::
  "'v externals \<Rightarrow> (bytes \<Rightarrow> manifest_body option) \<Rightarrow> file_map \<Rightarrow> string \<Rightarrow> bytes \<Rightarrow> string \<Rightarrow> sink option
     \<Rightarrow> (manifest_recovery \<times> bytes) res" where
  "recover_segment_manifest_prefix E from_slice fs source bs2 destination output =
     rbind (scan_segment_manifest E from_slice fs source) (\<lambda>scan.
     if mn_clean_eof scan then Err (Fail ''source segment manifest already has a clean EOF'')
     else if mn_last_good_offset scan < length MANIFEST_MAGIC
     then Err (Fail ''source has no recoverable segment manifest prefix'')
     else rbind (ok_or (Fail ''create recovered segment manifest'') output) (\<lambda>sk.
       let copied = take (mn_last_good_offset scan) bs2 in
       case sink_write_all copied sk of
         (False, _) \<Rightarrow> Err (Fail ''copy recoverable segment manifest prefix'')
       | (True, sk1) \<Rightarrow>
           if length copied \<noteq> mn_last_good_offset scan then Err (Fail ''short copy while recovering segment manifest'')
           else
             (case sink_sync sk1 of
                (False, _) \<Rightarrow> Err (Fail ''sync recovered segment manifest'')
              | (True, sk2) \<Rightarrow>
                  rbind (scan_segment_manifest E from_slice (fs(destination \<mapsto> sk_data sk2)) destination) (\<lambda>recovered.
                  if \<not> mn_clean_eof recovered \<or> mn_entries recovered \<noteq> mn_entries scan
                     \<or> mn_last_record_sha256 recovered \<noteq> mn_last_record_sha256 scan
                  then Err (Fail ''recovered segment manifest prefix failed verification'')
                  else Ok (\<lparr>mv_schema = ''RawSegmentManifestRecoveryV1'', mv_source_file_size = mn_file_size scan,
                            mv_copied_valid_prefix_bytes = length copied,
                            mv_excluded_tail_bytes = mn_file_size scan - length copied,
                            mv_recovered_records = mn_records recovered,
                            mv_last_record_sha256 = mn_last_record_sha256 recovered\<rparr>, sk_data sk2)))))"

end
