(* ===== verification/Segment_Chain_Safety.thy ===== *)
theory Segment_Chain_Safety
  imports Segment_Chain Durability_Follower_Raw
begin

text \<open>
  What a segment manifest says about the raw files it names: read one after the other they are a single raw
  log. The scans of the single files, each started from the genesis of its seal, join into one scan of their
  concatenation.
\<close>

section \<open>Joining scans of raw segments\<close>

definition joins ::
  "'v externals \<Rightarrow> string \<Rightarrow> expected_map \<Rightarrow> bytes \<Rightarrow> nat \<Rightarrow> string \<Rightarrow> expected_map \<Rightarrow> bool" where
  "joins E p x bs n q y \<longleftrightarrow> n \<le> length bs \<and> (\<forall>r g rest. r + n \<le> u64_max \<longrightarrow> g + length bs \<le> u64_max \<longrightarrow>
     scan_loop E None p x r g (bs @ rest) = scan_loop E None q y (r + n) (g + length bs) rest)"

lemma joins_append:
  assumes "joins E p x bs n q y" "joins E q y bs2 n2 q2 y2"
  shows "joins E p x (bs @ bs2) (n + n2) q2 y2"
  using assms by (auto simp: joins_def algebra_simps)

lemma joins_nil [simp]: "joins E p x [] 0 p x"
  by (simp add: joins_def)

lemma joins_whole:
  assumes "joins E p x bs n q y" "8 + length bs \<le> u64_max"
  shows "scan_loop E None p x 0 8 bs = Ok (n, 8 + length bs, None, q, y)"
proof -
  have "scan_loop E None p x 0 8 (bs @ []) = scan_loop E None q y (0 + n) (8 + length bs) []"
    by (rule conjunct2 [OF assms(1) [unfolded joins_def], rule_format]) (use assms in \<open>simp_all add: joins_def\<close>)
  then show ?thesis by simp
qed

lemma scan_loop_next:
  assumes "read_next_raw_record E p x b = (Inr (Some (frame, d, len)), x', rest)" "r + 1 \<le> u64_max" "g + len \<le> u64_max"
  shows "scan_loop E None p x r g b = scan_loop E None d x' (r + 1) (g + len) rest"
  by (subst scan_loop.simps) (use assms in \<open>simp add: checked_add_def\<close>)

lemma read_next_length:
  assumes "read_next_raw_record E p x b = (Inr (Some (frame, d, len)), x', rest)"
  shows "length b = len + length rest" "1 \<le> len"
  by (rule read_next_shape [OF assms], simp)+

lemma joins_one:
  assumes "read_next_raw_record E p x b = (Inr (Some (frame, d, len)), x', rest)"
  shows "joins E p x (take len b) 1 d x'"
proof -
  note l = read_next_length [OF assms]
  obtain body digest where s: "b = be_bytes 4 (length body) @ body @ digest @ rest" "length digest = 32"
    "length body \<le> MAX_RECORD_BYTES" "d = hex digest" "len = 4 + length body + 32"
    "accept_record E p x body digest = (Inr frame, x')"
    by (rule read_next_shape [OF assms]) (rule that, assumption+)
  have t: "take len b = be_bytes 4 (length body) @ body @ digest" using s(1,2,5) by simp
  have n: "from_be_bytes (be_bytes 4 (length body)) = length body"
    by (rule from_be_bytes_be_bytes) (rule MAX_RECORD_BYTES_u32 [OF s(3)])
  have ne: "be_bytes 4 (length body) @ body @ digest @ more \<noteq> []" for more using s(2) by auto
  have "read_next_raw_record E p x (take len b @ more) = (Inr (Some (frame, d, len)), x', more)" for more
    using s ne [of more] by (simp add: t read_next_raw_record_def read_exact_append n Let_def)
  then show ?thesis using l by (auto simp: joins_def scan_loop_next)
qed

lemma scan_loop_cases:
  assumes "scan_loop E (Some k) p x r g b = Ok (r', g', None, q, y)"
  obtains "b = []" "r' = r" "g' = g" "q = p" "y = x"
  | frame d len x' rest where "read_next_raw_record E p x b = (Inr (Some (frame, d, len)), x', rest)"
    "(rf_connection_epoch frame, rf_stream frame) = k" "scan_loop E (Some k) d x' (r + 1) (g + len) rest = Ok (r', g', None, q, y)"
proof -
  obtain z x' rest where z: "read_next_raw_record E p x b = (z, x', rest)" by (metis prod_cases3)
  consider (none) "z = Inr None" | (some) frame d len where "z = Inr (Some (frame, d, len))"
    using assms z by (subst (asm) scan_loop.simps) (auto split: sum.splits option.splits if_splits)
  then show thesis
  proof cases
    case none
    then have b: "b = []" using z read_next_None by metis
    then show thesis using assms that(1) by simp
  next
    case some
    then show thesis using assms z that(2) [of frame d len x' rest]
      by (subst (asm) scan_loop.simps) (auto simp: checked_add_def split: if_splits)
  qed
qed

lemma segment_joins:
  assumes "scan_loop E (Some k) p [(k, m)] r g bs = Ok (r', g', None, q, y)"
  shows "\<exists>n. r' = r + n \<and> g' = g + length bs \<and> y = [(k, m + n)] \<and> joins E p [(k, m)] bs n q y \<and> (n = 0 \<longrightarrow> q = p \<and> bs = [])"
  using assms
proof (induction "length bs" arbitrary: p m r g bs rule: less_induct)
  case less
  show ?case
  proof (rule scan_loop_cases [OF less.prems])
    assume "bs = []" "r' = r" "g' = g" "q = p" "y = [(k, m)]"
    then show ?thesis by (intro exI [of _ 0]) simp
  next
    fix frame d len x' rest
    assume a: "read_next_raw_record E p [(k, m)] bs = (Inr (Some (frame, d, len)), x', rest)"
      "(rf_connection_epoch frame, rf_stream frame) = k" "scan_loop E (Some k) d x' (r + 1) (g + len) rest = Ok (r', g', None, q, y)"
    note l = read_next_length [OF a(1)]
    have x: "x' = [(k, m + 1)]" using read_next_more(2,3) [OF a(1)] a(2) by (simp add: expected_next_def)
    obtain n where n: "r' = r + 1 + n" "g' = g + len + length rest" "y = [(k, m + 1 + n)]" "joins E d [(k, m + 1)] rest n q y"
      using less.hyps [of rest d "m + 1" "r + 1" "g + len"] a(3) x l by auto
    have "bs = take len bs @ rest" by (rule read_next_shape [OF a(1)]) simp
    then have "joins E p [(k, m)] bs (1 + n) q y"
      using joins_append [OF joins_one [OF a(1)] n(4) [folded x]] by simp
    then show ?thesis using n l by (intro exI [of _ "1 + n"]) simp
  qed
qed

lemma decode_frame_key:
  "decode_frame E value payload stream epoch index = Ok frame \<Longrightarrow> rf_connection_epoch frame = epoch \<and> rf_stream frame = stream"
  by (auto simp: decode_frame_def)

lemma accept_record_root:
  assumes "accept_record E p [(k, 0)] body digest = (Inr frame, [(k, 1)])" "(rf_connection_epoch frame, rf_stream frame) = k"
  shows "accept_record E p [] body digest = (Inr frame, [(k, 1)])"
proof -
  obtain v payload stream epoch index where h: "decode_header E p body digest = Ok (v, payload, stream, epoch, index)"
    using assms(1) by (cases "decode_header E p body digest") (auto simp: accept_record_def)
  have f: "decode_frame E v payload stream epoch index = Ok frame" "index = expected_next [(k, 0)] (epoch, stream)"
    using assms(1) h by (auto simp: accept_record_def Let_def split: if_splits)
  have "k = (epoch, stream)" using decode_frame_key [OF f(1)] assms(2) by auto
  then show ?thesis using h f assms(1) by (simp add: accept_record_def expected_next_def u64_max_def)
qed

text \<open>A stream that starts at frame 0 needs no entry in the table of expected indices.\<close>

lemma root_joins:
  assumes "scan_loop E (Some k) p [(k, 0)] r g bs = Ok (r', g', None, q, y)" "bs \<noteq> []"
  shows "\<exists>n. r' = r + n \<and> g' = g + length bs \<and> y = [(k, n)] \<and> joins E p [] bs n q y"
proof (rule scan_loop_cases [OF assms(1)])
  assume "bs = []"
  then show ?thesis using assms(2) by simp
next
  fix frame d len x' rest
  assume a: "read_next_raw_record E p [(k, 0)] bs = (Inr (Some (frame, d, len)), x', rest)"
    "(rf_connection_epoch frame, rf_stream frame) = k" "scan_loop E (Some k) d x' (r + 1) (g + len) rest = Ok (r', g', None, q, y)"
  note l = read_next_length [OF a(1)]
  have x: "x' = [(k, 1)]" using read_next_more(2,3) [OF a(1)] a(2) by (simp add: expected_next_def)
  obtain body digest where s: "bs = be_bytes 4 (length body) @ body @ digest @ rest" "length digest = 32"
    "length body \<le> MAX_RECORD_BYTES" "d = hex digest" "len = 4 + length body + 32"
    "accept_record E p [(k, 0)] body digest = (Inr frame, x')"
    by (rule read_next_shape [OF a(1)]) (rule that, assumption+)
  have n4: "from_be_bytes (be_bytes 4 (length body)) = length body"
    by (rule from_be_bytes_be_bytes) (rule MAX_RECORD_BYTES_u32 [OF s(3)])
  have "accept_record E p [] body digest = (Inr frame, x')"
    using accept_record_root s(6) a(2) x by simp
  then have "read_next_raw_record E p [] bs = (Inr (Some (frame, d, len)), x', rest)"
    using s assms(2) by (simp add: read_next_raw_record_def read_exact_append n4 Let_def)
  from joins_one [OF this] have one: "joins E p [] (take len bs) 1 d [(k, 1)]" using x by simp
  obtain n where n: "r' = r + 1 + n" "g' = g + len + length rest" "y = [(k, 1 + n)]" "joins E d [(k, 1)] rest n q y"
    using segment_joins [OF a(3) [unfolded x]] by auto
  have "bs = take len bs @ rest" using s by simp
  then have "joins E p [] bs (1 + n) q y" using joins_append [OF one n(4)] by simp
  then show ?thesis using n l by (intro exI [of _ "1 + n"]) simp
qed

section \<open>The manifest scan is a chained log\<close>

lemma manifest_step_Ok:
  "manifest_scan_step b d s = (Inr u, s') \<Longrightarrow>
     validate_manifest_transition (length (mx_entries s)) (mx_last_seal s) (mx_raw_files s) (mb_seal b) = Ok ()
     \<and> mx_entries s' = mx_entries s @ [manifest_entry_of b d] \<and> mx_last_seal s' = Some (mb_seal b)
     \<and> mx_raw_files s' = insert (ss_raw_file (mb_seal b)) (mx_raw_files s)"
  by (auto simp: manifest_scan_step_def split: if_splits)

lemma manifest_step_Err: "manifest_scan_step b d s = (Inl e, s') \<Longrightarrow> s' = s"
  by (auto simp: manifest_scan_step_def split: if_splits)

interpretation manifest_log: chained_log manifest_scan_step "\<lambda>s. length (mx_entries s)" mx_previous mb_previous_manifest_record_sha256
  by unfold_locales (auto simp: manifest_scan_step_def split: if_splits)

abbreviation manifest_frame_scan where
  "manifest_frame_scan E from_slice \<equiv>
     frame_scan E ''segment manifest'' MAX_MANIFEST_RECORD_BYTES (nonempty_body from_slice) manifest_scan_step"

lemma manifest_frame_cases:
  obtains "manifest_frame E bs = FrameEof" "next_frame E noun MAX_MANIFEST_RECORD_BYTES bs = FrameEof"
  | m m' where "manifest_frame E bs = FrameBad m" "next_frame E noun MAX_MANIFEST_RECORD_BYTES bs = FrameBad m'"
  | m d rest where "manifest_frame E bs = FrameBad m" "next_frame E noun MAX_MANIFEST_RECORD_BYTES bs = Frame [] d rest"
  | body d rest where "manifest_frame E bs = Frame body d rest" "next_frame E noun MAX_MANIFEST_RECORD_BYTES bs = Frame body d rest"
      "body \<noteq> []"
proof (cases "next_frame E noun MAX_MANIFEST_RECORD_BYTES bs")
  case FrameEof
  then show thesis by (intro that(1)) (auto simp: next_frame_def manifest_frame_def Let_def split: if_splits)
next
  case (FrameBad m')
  then have "\<exists>m. manifest_frame E bs = FrameBad m" by (auto simp: next_frame_def manifest_frame_def Let_def split: if_splits)
  then show thesis using FrameBad that(2) by blast
next
  case (Frame body d rest)
  show thesis
  proof (cases "body = []")
    case True
    then have "from_be_bytes (take 4 bs) = 0" "bs \<noteq> []" "\<not> length bs < 4"
      using next_frame_sound(5) [OF Frame] Frame by (auto simp: next_frame_def Let_def split: if_splits)
    then have "\<exists>m. manifest_frame E bs = FrameBad m" by (simp add: manifest_frame_def Let_def)
    then show thesis using Frame True that(3) by blast
  next
    case False
    then have "from_be_bytes (take 4 bs) \<noteq> 0" using next_frame_sound(5) [OF Frame] by (metis length_0_conv)
    then have "manifest_frame E bs = Frame body d rest"
      using Frame by (auto simp: next_frame_def manifest_frame_def Let_def split: if_splits)
    then show thesis using Frame False that(4) by blast
  qed
qed

lemma manifest_scan_loop_frames:
  "case manifest_scan_loop E from_slice bs off s of
     Inl e \<Rightarrow> u64_max < off + length bs
   | Inr (s', off', reason) \<Rightarrow>
       \<exists>reason'. manifest_frame_scan E from_slice bs off s = (s', off', reason') \<and> (reason' = None \<longleftrightarrow> reason = None)"
proof (induction "length bs" arbitrary: bs off s rule: less_induct)
  case less
  show ?case
  proof (rule manifest_frame_cases [of E bs "''segment manifest''"])
    assume "manifest_frame E bs = FrameEof" "next_frame E ''segment manifest'' MAX_MANIFEST_RECORD_BYTES bs = FrameEof"
    then show ?thesis by (simp add: manifest_scan_loop.simps [of E from_slice bs] frame_scan_cases(1))
  next
    fix m m'
    assume "manifest_frame E bs = FrameBad m" "next_frame E ''segment manifest'' MAX_MANIFEST_RECORD_BYTES bs = FrameBad m'"
    then show ?thesis by (simp add: manifest_scan_loop.simps [of E from_slice bs] frame_scan_cases(2))
  next
    fix m d rest
    assume "manifest_frame E bs = FrameBad m" "next_frame E ''segment manifest'' MAX_MANIFEST_RECORD_BYTES bs = Frame [] d rest"
    then show ?thesis by (simp add: manifest_scan_loop.simps [of E from_slice bs] frame_scan_cases(3) nonempty_body_def)
  next
    fix body d rest
    assume f: "manifest_frame E bs = Frame body d rest" "body \<noteq> []"
      and g: "next_frame E ''segment manifest'' MAX_MANIFEST_RECORD_BYTES bs = Frame body d rest"
    have len: "length bs = 4 + length body + 32 + length rest"
      using arg_cong [OF next_frame_sound(1) [OF g], of length] next_frame_sound(2,4) [OF g] by (simp add: encode_frame_def)
    show ?thesis
    proof (cases "\<exists>b s1. from_slice body = Some b \<and> manifest_scan_step b (hex d) s = (Inr (), s1)")
      case False
      then show ?thesis
        using f by (auto simp: manifest_scan_loop.simps [of E from_slice bs] frame_scan_cases(3) [OF g] nonempty_body_def
            dest: manifest_step_Err split: option.splits prod.splits sum.splits)
    next
      case True
      then obtain b s1 where b: "from_slice body = Some b" "manifest_scan_step b (hex d) s = (Inr (), s1)" by blast
      have "manifest_scan_loop E from_slice bs off s = (case checked_add off (4 + length body + 32) of
          None \<Rightarrow> Err (Fail ''segment manifest scan offset overflow'') | Some off1 \<Rightarrow> manifest_scan_loop E from_slice rest off1 s1)"
        using f b by (subst manifest_scan_loop.simps) simp
      moreover have "manifest_frame_scan E from_slice bs off s = manifest_frame_scan E from_slice rest (off + (4 + length body + 32)) s1"
        using f b by (simp add: frame_scan_cases(3) [OF g] nonempty_body_def)
      ultimately show ?thesis
        using less.hyps [of rest "off + (4 + length body + 32)" s1] len
        by (auto simp: checked_add_def split: sum.splits)
    qed
  qed
qed

lemma manifest_magic_length [simp]: "length MANIFEST_MAGIC = 8"
  by (simp add: MANIFEST_MAGIC_def)

definition manifest_scanned_as :: "manifest_scan_state \<Rightarrow> manifest_scan \<Rightarrow> bool" where
  "manifest_scanned_as st scan \<longleftrightarrow> mn_entries scan = mx_entries st \<and> mn_records scan = length (mx_entries st)
     \<and> mn_last_record_sha256 scan = mx_previous st"

lemma scan_manifest_frames:
  assumes "manifest_frame_scan E from_slice bs 8 manifest_scan_start = (st, off, reason)" "fs path = Some (MANIFEST_MAGIC @ bs)"
    "8 + length bs \<le> u64_max"
  obtains scan where "scan_segment_manifest E from_slice fs path = Ok scan" "manifest_scanned_as st scan"
    "mn_last_good_offset scan = off" "mn_clean_eof scan \<longleftrightarrow> reason = None"
proof -
  obtain reason' where l: "manifest_scan_loop E from_slice bs 8 manifest_scan_start = Ok (st, off, reason')"
    "reason' = None \<longleftrightarrow> reason = None"
    using manifest_scan_loop_frames [where E = E and from_slice = from_slice and bs = bs and off = 8 and s = manifest_scan_start] assms(1,3) by (auto split: sum.splits prod.splits)
  have "\<exists>scan. scan_segment_manifest E from_slice fs path = Ok scan \<and> manifest_scanned_as st scan
      \<and> mn_last_good_offset scan = off \<and> (mn_clean_eof scan \<longleftrightarrow> reason = None)"
    using assms(2) l by (simp add: scan_segment_manifest_def manifest_scanned_as_def)
  then show thesis using that by blast
qed

section \<open>The seals a manifest names\<close>

text \<open>Each seal continues the one before it; the first one is a root.\<close>

fun seals_follow :: "segment_seal option \<Rightarrow> segment_seal list \<Rightarrow> bool" where
  "seals_follow prev [] \<longleftrightarrow> True"
| "seals_follow prev (s # ss) \<longleftrightarrow> validate_seal_shape s = Ok ()
     \<and> (case prev of
          None \<Rightarrow> ss_segment_index s = 0 \<and> ss_first_frame_index s = 0 \<and> ss_previous_segment_terminal_sha256 s = ZERO_DIGEST
        | Some old \<Rightarrow> ss_segment_index s = ss_segment_index old + 1 \<and> ss_connection_epoch s = ss_connection_epoch old
            \<and> ss_stream s = ss_stream old \<and> ss_first_frame_index s = ss_last_frame_index old + 1
            \<and> ss_previous_segment_terminal_sha256 s = ss_terminal_record_sha256 old)
     \<and> seals_follow (Some s) ss"

lemma manifest_transition_Ok:
  "validate_manifest_transition i prev files s = Ok () \<Longrightarrow> seals_follow (Some s) ss \<Longrightarrow> seals_follow prev (s # ss)"
  by (auto simp: validate_manifest_transition_def checked_add_def split: if_splits option.splits)

lemma manifest_run_follows:
  assumes "run_steps manifest_scan_step rs s = Some s'"
  shows "seals_follow (mx_last_seal s) (map (mb_seal \<circ> fst) rs)"
    and "mx_entries s' = mx_entries s @ map (\<lambda>(b, d). manifest_entry_of b d) rs"
  using assms
proof (induction rs arbitrary: s)
  case (Cons x rs)
  obtain b d where x: "x = (b, d)" by (cases x)
  {
    case 1
    then obtain s1 where s1: "manifest_scan_step b d s = (Inr (), s1)" "run_steps manifest_scan_step rs s1 = Some s'"
      using x by (auto split: prod.splits sum.splits)
    then show ?case using manifest_step_Ok [OF s1(1)] Cons.IH(1) [OF s1(2)] x
      by (auto intro!: manifest_transition_Ok simp del: seals_follow.simps)
  next
    case 2
    then obtain s1 where s1: "manifest_scan_step b d s = (Inr (), s1)" "run_steps manifest_scan_step rs s1 = Some s'"
      using x by (auto split: prod.splits sum.splits)
    then show ?case using manifest_step_Ok [OF s1(1)] Cons.IH(2) [OF s1(2)] x by simp
  }
qed simp_all

lemma scanned_seals_follow:
  assumes "scan_segment_manifest E from_slice fs path = Ok scan"
  shows "seals_follow None (map me_seal (mn_entries scan))"
proof -
  obtain bs where bs: "fs path = Some bs" using assms by (cases "fs path") (auto simp: scan_segment_manifest_def)
  show ?thesis
  proof (cases "take 8 bs = MANIFEST_MAGIC")
    case False
    then show ?thesis using assms bs by (auto simp: scan_segment_manifest_def)
  next
    case True
    obtain s off reason where l: "manifest_scan_loop E from_slice (drop 8 bs) 8 manifest_scan_start = Ok (s, off, reason)"
      "mn_entries scan = mx_entries s" using assms bs True by (auto simp: scan_segment_manifest_def)
    obtain reason' where fr: "manifest_frame_scan E from_slice (drop 8 bs) 8 manifest_scan_start = (s, off, reason')"
      using manifest_scan_loop_frames [where E = E and from_slice = from_slice and bs = "drop 8 bs" and off = 8 and s = manifest_scan_start] l(1) by auto
    obtain bodies where "run_steps manifest_scan_step (frames_of E (nonempty_body from_slice) bodies) manifest_scan_start = Some s"
      using frame_scan_prefix [OF _ fr] manifest_step_Err by blast
    from manifest_run_follows [OF this] show ?thesis using l(2)
      by (simp add: manifest_scan_start_def manifest_entry_of_def comp_def split_beta)
  qed
qed

section \<open>The files a manifest names\<close>

definition segment_records :: "file_map \<Rightarrow> verified_raw_segment \<Rightarrow> bytes" where
  "segment_records fs v = (case fs (vr_raw_path v) of None \<Rightarrow> [] | Some bs \<Rightarrow> drop (length MAGIC) bs)"

abbreviation seal_key :: "segment_seal \<Rightarrow> stream_key" where
  "seal_key s \<equiv> (ss_connection_epoch s, ss_stream s)"

lemma read_magic_Ok: "read_magic bs = Ok rest \<Longrightarrow> bs = MAGIC @ rest"
  by (auto simp: read_magic_def split: if_splits option.splits prod.splits dest: read_exact_SomeD)

lemma verified_segment_scan:
  assumes "verify_and_seal_raw_segment E fs path raw_file (genesis_from_seal s) (ack_from_seal s) = Ok v"
  shows "\<exists>g y. vr_raw_path v = path \<and> scan_loop E (Some (seal_key s)) (ss_previous_segment_terminal_sha256 s)
    [(seal_key s, ss_first_frame_index s)] 0 8 (segment_records fs v) = Ok (ss_records s, g, None, ss_terminal_record_sha256 s, y)"
proof -
  obtain scan where sc: "scan_raw_segment E (fs path) (genesis_from_seal s) = Ok scan" "sc_clean_eof scan"
    "sc_records scan = ss_records s" "sc_last_record_sha256 scan = ss_terminal_record_sha256 s" "vr_raw_path v = path"
    using assms by (auto simp: verify_and_seal_raw_segment_def ack_from_seal_def Let_def split: if_splits)
  obtain bs where bs: "fs path = Some bs"
    using sc(1) by (auto simp: scan_raw_segment_def scan_raw_log_from_def open_file_def Let_def ok_or_def split: option.splits)
  obtain rest where r: "read_magic bs = Ok rest"
    using sc(1,2) bs by (cases "read_magic bs") (auto simp: scan_raw_segment_def scan_raw_log_from_def open_file_def Let_def)
  have "segment_records fs v = rest" using bs read_magic_Ok [OF r] sc(5) by (simp add: segment_records_def)
  then show ?thesis using sc bs r
    by (auto simp: scan_raw_segment_def scan_raw_log_from_def open_file_def Let_def genesis_from_seal_def)
qed

lemma sealed_records:
  "validate_seal_shape s = Ok () \<Longrightarrow> 0 < ss_records s \<and> ss_first_frame_index s + ss_records s = ss_last_frame_index s + 1"
  by (auto simp: validate_seal_shape_def checked_sub_def checked_add_def split: if_splits)

lemma later_segments_join:
  assumes "verify_entry_files E fs base es = Ok vs" "seals_follow (Some old) (map me_seal es)"
  shows "joins E (ss_terminal_record_sha256 old) [(seal_key old, ss_last_frame_index old + 1)] (concat (map (segment_records fs) vs))
      (sum_list (map (ss_records \<circ> me_seal) es)) (ss_terminal_record_sha256 (last (old # map me_seal es)))
      [(seal_key old, ss_last_frame_index old + 1 + sum_list (map (ss_records \<circ> me_seal) es))]"
  using assms
proof (induction es arbitrary: vs old)
  case Nil
  then show ?case by simp
next
  case (Cons e es)
  let ?s = "me_seal e"
  obtain v vs' where v: "verify_and_seal_raw_segment E fs (path_join base (ss_raw_file ?s)) (ss_raw_file ?s)
      (genesis_from_seal ?s) (ack_from_seal ?s) = Ok v" "verify_entry_files E fs base es = Ok vs'" "vs = v # vs'"
    using Cons.prems(1) by (auto split: if_splits)
  have f: "validate_seal_shape ?s = Ok ()" "seal_key ?s = seal_key old" "ss_first_frame_index ?s = ss_last_frame_index old + 1"
    "ss_previous_segment_terminal_sha256 ?s = ss_terminal_record_sha256 old" "seals_follow (Some ?s) (map me_seal es)"
    using Cons.prems(2) by auto
  note n = sealed_records [OF f(1)]
  obtain g y where "scan_loop E (Some (seal_key ?s)) (ss_previous_segment_terminal_sha256 ?s)
      [(seal_key ?s, ss_first_frame_index ?s)] 0 8 (segment_records fs v) = Ok (ss_records ?s, g, None, ss_terminal_record_sha256 ?s, y)"
    using verified_segment_scan [OF v(1)] by blast
  from segment_joins [OF this] have j: "joins E (ss_terminal_record_sha256 old) [(seal_key old, ss_last_frame_index old + 1)]
      (segment_records fs v) (ss_records ?s) (ss_terminal_record_sha256 ?s) [(seal_key ?s, ss_last_frame_index ?s + 1)]"
    using f(2-4) n by auto
  have eq: "ss_last_frame_index old + 1 + (ss_records ?s + m) = ss_last_frame_index ?s + 1 + m" for m using f(3) n by simp
  have "last (old # map me_seal (e # es)) = last (?s # map me_seal es)" by simp
  then show ?case using joins_append [OF j Cons.IH [OF v(2) f(5)]] v(3) f(2) by (simp only: list.map concat.simps sum_list.Cons comp_apply eq)
qed

text \<open>
  C19. A verified manifest is one raw log: when a scanned manifest is clean and every file it names verifies
  against its seal, the records of these files one after the other are a raw log that scans cleanly from the
  root, whose single stream runs without a gap from frame 0 through the number of sealed records, and that
  ends with the terminal digest of the last seal.
\<close>

theorem manifest_is_one_log:
  assumes "scan_segment_manifest E from_slice fs path = Ok scan" "verify_segment_manifest_files E from_slice fs scan base = Ok vs"
    and "vs \<noteq> []" "joined = concat (map (segment_records fs) vs)" "8 + length joined \<le> u64_max"
    and "seals = map me_seal (mn_entries scan)"
  shows "\<exists>sc. scan_raw_log E (Some (MAGIC @ joined)) = Ok sc \<and> sc_clean_eof sc
    \<and> sc_records sc = sum_list (map ss_records seals) \<and> sc_last_record_sha256 sc = ss_terminal_record_sha256 (last seals)
    \<and> sc_streams sc = [\<lparr>wm_connection_epoch = ss_connection_epoch (hd seals), wm_stream = ss_stream (hd seals),
        wm_durable_through_frame_index = sc_records sc - 1\<rparr>]"
proof -
  have ve: "verify_entry_files E fs base (mn_entries scan) = Ok vs" using assms(2) by (auto simp: verify_segment_manifest_files_def)
  then obtain e es where e: "mn_entries scan = e # es" using assms(3) by (cases "mn_entries scan") auto
  let ?s = "me_seal e"
  obtain v vs' where v: "verify_and_seal_raw_segment E fs (path_join base (ss_raw_file ?s)) (ss_raw_file ?s)
      (genesis_from_seal ?s) (ack_from_seal ?s) = Ok v" "verify_entry_files E fs base es = Ok vs'" "vs = v # vs'"
    using ve e by (auto split: if_splits)
  have f: "validate_seal_shape ?s = Ok ()" "ss_first_frame_index ?s = 0" "ss_previous_segment_terminal_sha256 ?s = ZERO_DIGEST"
    "seals_follow (Some ?s) (map me_seal es)"
    using scanned_seals_follow [OF assms(1)] e by auto
  note n = sealed_records [OF f(1)]
  obtain g y where sl: "scan_loop E (Some (seal_key ?s)) ZERO_DIGEST [(seal_key ?s, 0)] 0 8 (segment_records fs v)
      = Ok (ss_records ?s, g, None, ss_terminal_record_sha256 ?s, y)"
    using verified_segment_scan [OF v(1)] f(2,3) by auto
  have "segment_records fs v \<noteq> []" using sl n by auto
  from root_joins [OF sl this] have r: "joins E ZERO_DIGEST [] (segment_records fs v) (ss_records ?s)
      (ss_terminal_record_sha256 ?s) [(seal_key ?s, ss_last_frame_index ?s + 1)]"
    using f(2) n by auto
  let ?N = "sum_list (map ss_records seals)"
  have sl2: "seals = ?s # map me_seal es" using assms(6) e by simp
  have total: "?N = ss_records ?s + sum_list (map (ss_records \<circ> me_seal) es)"
    "ss_last_frame_index ?s + 1 + sum_list (map (ss_records \<circ> me_seal) es) = ?N" using sl2 n f(2) by simp_all
  have "joins E ZERO_DIGEST [] joined ?N (ss_terminal_record_sha256 (last seals)) [(seal_key ?s, ?N)]"
    using joins_append [OF r later_segments_join [OF v(2) f(4)]] assms(4) v(3)
    by (simp only: sl2 [symmetric] total(2)) (simp only: total(1) list.map concat.simps)
  from joins_whole [OF this assms(5)] have "scan_loop E None ZERO_DIGEST [] 0 8 joined = Ok (?N, 8 + length joined, None, ss_terminal_record_sha256 (last seals), [(seal_key ?s, ?N)])" .
  moreover have "0 < ?N" using n sl2 by simp
  ultimately show ?thesis using sl2
    by (auto simp: scan_raw_log_def scan_raw_log_from_def open_file_def durability_watermarks_def watermark_of_def checked_sub_def)
qed

end
