(* ===== verification/Segment_Chain_Crash.thy ===== *)
theory Segment_Chain_Crash
  imports Segment_Chain_Safety
begin

text \<open>
  The manifest writer: what its file holds after any attempts to publish segments on a sink that may fail,
  and what a crash leaves of it.
\<close>

text \<open>Attempts to publish, each with the file system it meets; the seals whose publication was acknowledged.\<close>

fun manifest_run ::
  "'v externals \<Rightarrow> (manifest_body \<Rightarrow> bytes) \<Rightarrow> (file_map \<times> verified_raw_segment) list \<Rightarrow> manifest_writer
     \<Rightarrow> segment_seal list \<times> manifest_writer" where
  "manifest_run E to_vec [] w = ([], w)"
| "manifest_run E to_vec ((fs, v) # ops) w =
     (let (r, w1) = append_verified E to_vec fs v w; (seals, w2) = manifest_run E to_vec ops w1
      in (if isl r then seals else vr_seal v # seals, w2))"

definition manifest_codec :: "'v externals \<Rightarrow> (manifest_body \<Rightarrow> bytes) \<Rightarrow> (bytes \<Rightarrow> manifest_body option) \<Rightarrow> bool" where
  "manifest_codec E to_vec from_slice \<longleftrightarrow> sha256_len32 E \<and> record_round_trip to_vec from_slice \<and> nonempty_codec to_vec"

abbreviation manifest_image where
  "manifest_image E from_slice \<equiv>
     journal_image E MAX_MANIFEST_RECORD_BYTES (nonempty_body from_slice) manifest_scan_step manifest_scan_start MANIFEST_MAGIC"

abbreviation manifest_bodies where
  "manifest_bodies E from_slice \<equiv>
     journal_bodies E MAX_MANIFEST_RECORD_BYTES (nonempty_body from_slice) manifest_scan_step manifest_scan_start"

definition manifest_inv ::
  "'v externals \<Rightarrow> (bytes \<Rightarrow> manifest_body option) \<Rightarrow> segment_seal set \<Rightarrow> manifest_writer \<Rightarrow> bytes list \<Rightarrow> manifest_scan_state \<Rightarrow> bool" where
  "manifest_inv E from_slice tried w bodies st \<longleftrightarrow>
     manifest_image E from_slice (\<lambda>b. mb_seal b \<in> tried) (mw_sink w) (mw_poisoned w) bodies st
     \<and> length (mx_entries st) = mw_record_count w \<and> mx_previous st = mw_previous_digest w
     \<and> mx_last_seal st = mw_last_seal w \<and> mx_raw_files st = mw_raw_files w"

lemma manifest_start:
  assumes "manifest_from_sink sk = Ok w" "sk_data sk = []"
  shows "manifest_inv E from_slice tried w [] manifest_scan_start"
proof -
  obtain sk1 sk2 where s: "sink_write_all MANIFEST_MAGIC sk = (True, sk1)" "sink_sync sk1 = (True, sk2)"
    "w = \<lparr>mw_sink = sk2, mw_record_count = 0, mw_end_offset = length MANIFEST_MAGIC,
       mw_previous_digest = ZERO_DIGEST, mw_last_seal = None, mw_raw_files = {}, mw_poisoned = False\<rparr>"
    using assms(1) by (auto simp: manifest_from_sink_def split: prod.splits bool.splits)
  then show ?thesis using write_magic [OF s(1,2) assms(2)]
    by (simp add: manifest_inv_def journal_image_def journal_bodies_def frames_fit_def frames_of_def manifest_scan_start_def)
qed

lemma prepared_record:
  assumes "prepare_manifest_record E to_vec fs v w = Ok (seal, body, count, offset)"
  shows "seal = vr_seal v" "body = to_vec (manifest_body_of seal w)" "length body \<le> MAX_MANIFEST_RECORD_BYTES"
    "count = mw_record_count w + 1" "validate_manifest_transition (mw_record_count w) (mw_last_seal w) (mw_raw_files w) seal = Ok ()"
  using assms by (auto simp: prepare_manifest_record_def Let_def checked_add_def split: if_splits)

lemma manifest_append_inv:
  assumes "manifest_codec E to_vec from_slice" "manifest_inv E from_slice tried w bodies st" "vr_seal v \<in> tried"
    and "append_verified E to_vec fs v w = (r, w')"
  shows "\<exists>bodies' st'. manifest_inv E from_slice tried w' bodies' st'
    \<and> map me_seal (mx_entries st') = map me_seal (mx_entries st) @ (if isl r then [] else [vr_seal v])"
proof (cases "mw_poisoned w \<or> isl (prepare_manifest_record E to_vec fs v w)")
  case True
  then have "w' = w \<and> isl r"
    using assms(4) by (cases "prepare_manifest_record E to_vec fs v w") (auto simp: append_verified_def split: if_splits)
  then show ?thesis using assms(2) by auto
next
  case False
  then obtain seal body count offset where p: "prepare_manifest_record E to_vec fs v w = Ok (seal, body, count, offset)"
    "\<not> mw_poisoned w" by (cases "prepare_manifest_record E to_vec fs v w") auto
  note q = prepared_record [OF p(1)]
  let ?b = "manifest_body_of seal w" and ?P = "\<lambda>b. mb_seal b \<in> tried"
  have i: "manifest_image E from_slice ?P (mw_sink w) False bodies st" "length (mx_entries st) = mw_record_count w"
    "mx_previous st = mw_previous_digest w" "mx_last_seal st = mw_last_seal w" "mx_raw_files st = mw_raw_files w"
    using assms(2) p(2) by (auto simp: manifest_inv_def)
  have parse: "nonempty_body from_slice body = Some ?b"
    using assms(1) q(2) by (simp add: manifest_codec_def record_round_trip_def nonempty_codec_def nonempty_body_def)
  obtain st' where st': "manifest_scan_step ?b (sha256_hex E body) st = (Ok (), st')"
    using i q(5) by (simp add: manifest_scan_step_def manifest_body_of_def)
  have next_bodies: "manifest_bodies E from_slice (bodies @ [body]) st'"
    by (rule journal_bodies_snoc [where st = st])
      (use parse st' i(1) q(3) in \<open>simp_all add: journal_image_def MAX_MANIFEST_RECORD_BYTES_def\<close>)
  have s: "mx_entries st' = mx_entries st @ [manifest_entry_of ?b (sha256_hex E body)]" "mx_previous st' = sha256_hex E body"
    "mx_last_seal st' = Some seal" "mx_raw_files st' = insert (ss_raw_file seal) (mx_raw_files st)"
    using manifest_step_Ok [OF st'] manifest_log.step_chains [OF st'] by (simp_all add: manifest_body_of_def)
  obtain ok sk1 where wf: "write_frame E body (mw_sink w) = (ok, sk1)" by fastforce
  show ?thesis
  proof (cases ok)
    case True
    then have r: "\<not> isl r" "w' = w\<lparr>mw_sink := sk1, mw_record_count := count, mw_end_offset := offset,
        mw_previous_digest := sha256_hex E body, mw_raw_files := insert (ss_raw_file seal) (mw_raw_files w), mw_last_seal := Some seal\<rparr>"
      using assms(4) p wf by (auto simp: append_verified_def)
    have "manifest_inv E from_slice tried w' (bodies @ [body]) st'"
      using journal_image_written [OF i(1) _ next_bodies] wf True r(2) s i q(4) p(2) by (simp add: manifest_inv_def)
    then show ?thesis using r(1) s(1) q(1)
      by (intro exI [of _ "bodies @ [body]"] exI [of _ st']) (simp add: manifest_entry_of_def manifest_body_of_def)
  next
    case False
    then have r: "isl r" "w' = w\<lparr>mw_sink := sk1, mw_poisoned := True\<rparr>"
      using assms(4) p wf by (auto simp: append_verified_def)
    have "manifest_inv E from_slice tried w' bodies st"
      using journal_image_torn [OF i(1) _ next_bodies] wf False r(2) i parse assms(3) q(1)
      by (simp add: manifest_inv_def manifest_body_of_def)
    then show ?thesis using r(1) by auto
  qed
qed

lemma manifest_run_inv:
  assumes "manifest_codec E to_vec from_slice" "manifest_inv E from_slice tried w bodies st"
    and "\<forall>(fs, v)\<in>set ops. vr_seal v \<in> tried" "manifest_run E to_vec ops w = (seals, w')"
  shows "\<exists>bodies' st'. manifest_inv E from_slice tried w' bodies' st'
    \<and> map me_seal (mx_entries st') = map me_seal (mx_entries st) @ seals"
  using assms(2-)
proof (induction ops arbitrary: w bodies st seals)
  case Nil
  then show ?case by auto
next
  case (Cons op ops)
  obtain fs v where op: "op = (fs, v)" by (cases op)
  obtain r w1 where a: "append_verified E to_vec fs v w = (r, w1)" by fastforce
  obtain seals1 where rest: "manifest_run E to_vec ops w1 = (seals1, w')" "seals = (if isl r then [] else [vr_seal v]) @ seals1"
    using Cons.prems(3) op a by (auto split: prod.splits)
  obtain bodies1 st1 where i: "manifest_inv E from_slice tried w1 bodies1 st1"
    "map me_seal (mx_entries st1) = map me_seal (mx_entries st) @ (if isl r then [] else [vr_seal v])"
    using manifest_append_inv [OF assms(1) Cons.prems(1) _ a] Cons.prems(2) op by auto
  show ?case using Cons.IH [OF i(1) _ rest(1)] Cons.prems(2) i(2) rest(2) by auto
qed

text \<open>
  C20. A manifest survives crashes: after any attempts to publish verified segments on any sink, what a crash
  leaves of the manifest beyond its last sync still scans, and the seals the scan returns are exactly those
  whose publication was acknowledged, in order, followed at most by one whose sync failed; when no write
  failed the scan is clean.
\<close>

theorem manifest_survives_crash:
  assumes "manifest_codec E to_vec from_slice" "manifest_from_sink sk0 = Ok w0" "sk_data sk0 = []"
    and "manifest_run E to_vec ops w0 = (seals, w)" "sk_synced (mw_sink w) \<le> n"
    and "fs path = Some (take n (sk_data (mw_sink w)))" "length (sk_data (mw_sink w)) \<le> u64_max"
  shows "\<exists>scan extra. scan_segment_manifest E from_slice fs path = Ok scan
    \<and> map me_seal (mn_entries scan) = seals @ extra \<and> length extra \<le> 1
    \<and> set extra \<subseteq> {vr_seal v | fs' v. (fs', v) \<in> set ops} \<and> (\<not> mw_poisoned w \<longrightarrow> extra = [] \<and> mn_clean_eof scan)"
proof -
  let ?tried = "{vr_seal v | fs' v. (fs', v) \<in> set ops}"
  have c: "sha256_len32 E" using assms(1) by (simp add: manifest_codec_def)
  obtain bodies st where i: "manifest_inv E from_slice ?tried w bodies st" "map me_seal (mx_entries st) = seals"
    using manifest_run_inv [OF assms(1) manifest_start [OF assms(2,3), of E from_slice ?tried] _ assms(4)]
    by (auto simp: manifest_scan_start_def)
  have im: "manifest_image E from_slice (\<lambda>b. mb_seal b \<in> ?tried) (mw_sink w) (mw_poisoned w) bodies st"
    using i(1) by (simp add: manifest_inv_def)
  obtain bs bodies' st' reason where k: "take n (sk_data (mw_sink w)) = MANIFEST_MAGIC @ bs"
    "manifest_frame_scan E from_slice bs 8 manifest_scan_start = (st', 8 + length (frame_bytes E bodies'), reason)"
    "manifest_bodies E from_slice bodies' st'"
    "bodies' = bodies \<or> (\<exists>body. bodies' = bodies @ [body] \<and> mb_seal (the (nonempty_body from_slice body)) \<in> ?tried)"
    "\<not> mw_poisoned w \<Longrightarrow> bodies' = bodies \<and> reason = None"
    by (rule journal_image_crash [OF c im assms(5), where noun = "''segment manifest''"]) (rule that, simp_all)
  have "8 + length bs \<le> u64_max" using arg_cong [OF k(1), of length] assms(7) by simp
  then obtain scan where s: "scan_segment_manifest E from_slice fs path = Ok scan" "manifest_scanned_as st' scan"
    "mn_clean_eof scan \<longleftrightarrow> reason = None"
    using scan_manifest_frames [OF k(2), of fs path] assms(6) k(1) by metis
  have seals_of: "map me_seal (mx_entries y) = map (mb_seal \<circ> fst) (frames_of E (nonempty_body from_slice) b)"
    if "manifest_bodies E from_slice b y" for b y
    using manifest_run_follows(2) that
    by (fastforce simp: journal_bodies_def manifest_scan_start_def manifest_entry_of_def comp_def split_beta)
  have b: "manifest_bodies E from_slice bodies st" using im by (simp add: journal_image_def)
  define extra where "extra = drop (length seals) (map me_seal (mx_entries st'))"
  have e: "map me_seal (mx_entries st') = seals @ extra \<and> length extra \<le> 1 \<and> set extra \<subseteq> ?tried"
    using k(4) seals_of [OF b] seals_of [OF k(3)] i(2) unfolding extra_def by (auto simp: frames_of_def) (metis)
  moreover have "\<not> mw_poisoned w \<longrightarrow> extra = []" using k(5) seals_of [OF b] seals_of [OF k(3)] i(2) unfolding extra_def by auto
  ultimately show ?thesis using s k(5) by (auto simp: manifest_scanned_as_def)
qed

end
