(* ===== verification/Segment_Chain_Witness.thy ===== *)
theory Segment_Chain_Witness
  imports Segment_Chain_Crash Durability_Witness Concrete_Codec
begin

text \<open>
  Two sealed segments of one record each and the manifest that names them: the hypotheses of the manifest
  theorems hold together on them.
\<close>

section \<open>Two segments\<close>

definition seg_seal :: "nat \<Rightarrow> segment_seal" where
  "seg_seal n = \<lparr>ss_schema = ''RawSegmentSealV1'', ss_segment_index = n, ss_raw_file = (if n = 0 then ''a'' else ''b''),
     ss_connection_epoch = ''e'', ss_stream = ''s'', ss_first_frame_index = n, ss_last_frame_index = n, ss_records = 1,
     ss_durable_through_offset = 45,
     ss_previous_segment_terminal_sha256 = (if n = 0 then ZERO_DIGEST else sha256_hex two_E [7]),
     ss_terminal_record_sha256 = sha256_hex two_E (if n = 0 then [7] else [8])\<rparr>"

definition seg_path :: "nat \<Rightarrow> string" where
  "seg_path n = (if n = 0 then ''d/a'' else ''d/b'')"

definition seg_files :: file_map where
  "seg_files = [''d/a'' \<mapsto> MAGIC @ encode_record two_E [7], ''d/b'' \<mapsto> MAGIC @ encode_record two_E [8]]"

definition seg_verified :: "nat \<Rightarrow> verified_raw_segment" where
  "seg_verified n = \<lparr>vr_raw_path = seg_path n, vr_genesis = genesis_from_seal (seg_seal n),
     vr_ack = ack_from_seal (seg_seal n), vr_seal = seg_seal n\<rparr>"

lemma zero_digest_hex: "length ZERO_DIGEST = 64" "list_all is_lower_hex ZERO_DIGEST"
  by (simp_all add: ZERO_DIGEST_def is_lower_hex_def is_ascii_digit_def list_all_iff)

lemma two_digest_nonzero: "sha256_hex two_E [7] \<noteq> ZERO_DIGEST"
proof
  assume "sha256_hex two_E [7] = ZERO_DIGEST"
  then have "sha256_hex two_E [7] ! 1 = ZERO_DIGEST ! 1" by simp
  then show False by (simp add: sha256_hex_def two_E_def pad32_def hex_digit_def ZERO_DIGEST_def char_of_def)
qed

lemma seg_names: "validate_relative_file ''a'' = Ok ()" "validate_relative_file ''b'' = Ok ()"
  "path_file_name ''d/a'' = Some ''a''" "path_file_name ''d/b'' = Some ''b''"
  by (simp_all add: validate_relative_file_def path_file_name_def path_components_def trim_is_empty_def)

lemma seg_genesis_valid: "n \<le> 1 \<Longrightarrow> validate_segment_genesis (genesis_from_seal (seg_seal n)) = Ok ()"
  using zero_digest_hex two_digest_nonzero two_hex
  by (auto simp: validate_segment_genesis_def genesis_from_seal_def seg_seal_def validate_sha256_def Let_def trim_is_empty_def)

lemma seg_shape: "n \<le> 1 \<Longrightarrow> validate_seal_shape (seg_seal n) = Ok ()"
  using zero_digest_hex two_digest_nonzero two_hex seg_names
  by (auto simp: validate_seal_shape_def seg_seal_def manifest_validate_digest_def Let_def trim_is_empty_def checked_sub_def checked_add_def
      u64_max_def)

lemma seg_scan_loop:
  assumes "frame_wf f" "frame_key f = k" "cf_frame_index f + 1 \<le> u64_max" "two_to_vec (raw_record_of two_E p f) = Some body"
    and "length body \<le> MAX_RECORD_BYTES" "length (encode_record two_E body) = 37"
  shows "scan_loop two_E (Some k) p [(k, cf_frame_index f)] 0 8 (encode_record two_E body)
    = Ok (1, 45, None, sha256_hex two_E body, [(k, cf_frame_index f + 1)])"
proof -
  have n: "read_next_raw_record two_E p [(k, cf_frame_index f)] (encode_record two_E body @ [])
      = (Ok (Some (raw_frame_of f, sha256_hex two_E body, length (encode_record two_E body))), [(k, cf_frame_index f + 1)], [])"
    using read_next_encoded [OF two_externals_ok assms(1,4) _ assms(3,5), of "[(k, cf_frame_index f)]" "[]"] assms(2)
    by (simp add: expected_next_def)
  show ?thesis using n assms
    by (subst scan_loop.simps) (auto simp: raw_frame_of_def frame_key_def checked_add_def u64_max_def)
qed

lemma seg_scan0: "scan_loop two_E (Some (''e'', ''s'')) ZERO_DIGEST [((''e'', ''s''), 0)] 0 8 (encode_record two_E [7])
    = Ok (1, 45, None, sha256_hex two_E [7], [((''e'', ''s''), 1)])"
  using seg_scan_loop [OF two_frames_wf(1) _ _ two_serialize(1), of "(''e'', ''s'')"] two_lengths(1)
  by (simp add: frame_key_def u64_max_def MAX_RECORD_BYTES_def)

lemma seg_scan1: "scan_loop two_E (Some (''e'', ''s'')) (sha256_hex two_E [7]) [((''e'', ''s''), 1)] 0 8 (encode_record two_E [8])
    = Ok (1, 45, None, sha256_hex two_E [8], [((''e'', ''s''), 2)])"
  using seg_scan_loop [OF two_frames_wf(2) _ _ two_serialize(2), of "(''e'', ''s'')"] two_lengths(2)
  by (simp add: frame_key_def u64_max_def MAX_RECORD_BYTES_def two_frame_def numeral_2_eq_2)

lemma seg_verify:
  assumes "n \<le> 1" "fs (seg_path n) = seg_files (seg_path n)"
  shows "verify_and_seal_raw_segment two_E fs (seg_path n) (ss_raw_file (seg_seal n)) (genesis_from_seal (seg_seal n))
    (ack_from_seal (seg_seal n)) = Ok (seg_verified n)"
proof -
  have n: "n = 0 \<or> n = 1" using assms(1) by linarith
  have sc: "\<exists>scan. scan_raw_segment two_E (fs (seg_path n)) (genesis_from_seal (seg_seal n)) = Ok scan \<and> sc_clean_eof scan
      \<and> sc_file_size scan = 45 \<and> sc_last_good_offset scan = 45 \<and> sc_records scan = 1
      \<and> sc_last_record_sha256 scan = ss_terminal_record_sha256 (seg_seal n) \<and> sc_streams scan = da_streams (ack_from_seal (seg_seal n))"
    using n seg_genesis_valid [OF assms(1)] seg_scan0 seg_scan1 two_lengths assms(2)
    by (auto simp: scan_raw_segment_def scan_raw_log_from_def open_file_def seg_files_def seg_path_def genesis_from_seal_def
        seg_seal_def Let_def ack_from_seal_def durability_watermarks_def watermark_of_def checked_sub_def List.map_filter_def)
  have "seal_raw_segment (genesis_from_seal (seg_seal n)) (ss_raw_file (seg_seal n)) (ack_from_seal (seg_seal n)) = Ok (seg_seal n)"
    using n seg_genesis_valid [OF assms(1)] two_hex
    by (auto simp: seal_raw_segment_def ack_from_seal_def genesis_from_seal_def seg_seal_def validate_sha256_def Let_def
        trim_is_empty_def checked_sub_def checked_add_def u64_max_def)
  moreover have "validate_relative_file (ss_raw_file (seg_seal n)) = Ok ()" "path_file_name (seg_path n) = Some (ss_raw_file (seg_seal n))"
    using seg_names n by (auto simp: seg_seal_def seg_path_def)
  ultimately show ?thesis using sc seg_shape [OF assms(1)]
    by (auto simp: verify_and_seal_raw_segment_def seg_verified_def ack_from_seal_def genesis_from_seal_def seg_seal_def)
qed

section \<open>The manifest\<close>

definition enc_seal :: "segment_seal \<Rightarrow> bytes" where
  "enc_seal s = enc_str (ss_schema s) @ enc_nat (ss_segment_index s) @ enc_str (ss_raw_file s) @ enc_str (ss_connection_epoch s)
     @ enc_str (ss_stream s) @ enc_nat (ss_first_frame_index s) @ enc_nat (ss_last_frame_index s) @ enc_nat (ss_records s)
     @ enc_nat (ss_durable_through_offset s) @ enc_str (ss_previous_segment_terminal_sha256 s) @ enc_str (ss_terminal_record_sha256 s)"

definition dec_seal :: "bytes \<Rightarrow> (segment_seal \<times> bytes) option" where
  "dec_seal b0 =
     Option.bind (dec_str_bytes b0) (\<lambda>(x1, b1). Option.bind (dec_nat b1) (\<lambda>(x2, b2). Option.bind (dec_str_bytes b2) (\<lambda>(x3, b3).
     Option.bind (dec_str_bytes b3) (\<lambda>(x4, b4). Option.bind (dec_str_bytes b4) (\<lambda>(x5, b5). Option.bind (dec_nat b5) (\<lambda>(x6, b6).
     Option.bind (dec_nat b6) (\<lambda>(x7, b7). Option.bind (dec_nat b7) (\<lambda>(x8, b8). Option.bind (dec_nat b8) (\<lambda>(x9, b9).
     Option.bind (dec_str_bytes b9) (\<lambda>(x10, b10). Option.bind (dec_str_bytes b10) (\<lambda>(x11, b11).
       Some (\<lparr>ss_schema = x1, ss_segment_index = x2, ss_raw_file = x3, ss_connection_epoch = x4, ss_stream = x5,
         ss_first_frame_index = x6, ss_last_frame_index = x7, ss_records = x8, ss_durable_through_offset = x9,
         ss_previous_segment_terminal_sha256 = x10, ss_terminal_record_sha256 = x11\<rparr>, b11))))))))))))"

lemma dec_enc_seal [simp]: "dec_seal (enc_seal s @ rest) = Some (s, rest)"
  by (simp add: dec_seal_def enc_seal_def)

definition enc_manifest :: "manifest_body \<Rightarrow> bytes" where
  "enc_manifest b = enc_str (mb_schema b) @ enc_nat (mb_record_index b) @ enc_seal (mb_seal b)
     @ enc_str (mb_previous_manifest_record_sha256 b)"

definition dec_manifest :: "bytes \<Rightarrow> manifest_body option" where
  "dec_manifest b0 =
     Option.bind (dec_str_bytes b0) (\<lambda>(x1, b1). Option.bind (dec_nat b1) (\<lambda>(x2, b2). Option.bind (dec_seal b2) (\<lambda>(x3, b3).
     Option.bind (dec_str_bytes b3) (\<lambda>(x4, b4).
       Some \<lparr>mb_schema = x1, mb_record_index = x2, mb_previous_manifest_record_sha256 = x4, mb_seal = x3\<rparr>))))"

lemma seg_codec: "manifest_codec two_E enc_manifest dec_manifest"
proof -
  have "enc_str s @ r \<noteq> []" for s r by (cases s) simp_all
  then show ?thesis
    by (simp add: manifest_codec_def record_round_trip_def nonempty_codec_def dec_manifest_def enc_manifest_def two_E_def pad32_len)
qed

definition seg_w0 :: manifest_writer where
  "seg_w0 = \<lparr>mw_sink = \<lparr>sk_data = MANIFEST_MAGIC, sk_synced = 8, sk_plan = []\<rparr>, mw_record_count = 0, mw_end_offset = 8,
     mw_previous_digest = ZERO_DIGEST, mw_last_seal = None, mw_raw_files = {}, mw_poisoned = False\<rparr>"

definition seg_published :: "nat \<Rightarrow> manifest_writer \<Rightarrow> manifest_writer" where
  "seg_published n w = (let body = enc_manifest (manifest_body_of (seg_seal n) w); d = sk_data (mw_sink w) @ encode_frame two_E body in
     w\<lparr>mw_sink := \<lparr>sk_data = d, sk_synced = length d, sk_plan = []\<rparr>, mw_record_count := mw_record_count w + 1,
       mw_end_offset := mw_end_offset w + length (encode_frame two_E body), mw_previous_digest := sha256_hex two_E body,
       mw_raw_files := insert (ss_raw_file (seg_seal n)) (mw_raw_files w), mw_last_seal := Some (seg_seal n)\<rparr>)"

definition seg_w1 :: manifest_writer where "seg_w1 = seg_published 0 seg_w0"
definition seg_w2 :: manifest_writer where "seg_w2 = seg_published 1 seg_w1"

lemma seg_body_length:
  assumes "n \<le> 1" "mw_record_count w \<le> 1" "length (mw_previous_digest w) = 64"
  shows "length (enc_manifest (manifest_body_of (seg_seal n) w)) \<le> 1000"
  using assms zero_digest_hex two_hex
  by (auto simp: enc_manifest_def enc_seal_def manifest_body_of_def seg_seal_def)

lemma seg_transitions:
  "validate_manifest_transition 0 None {} (seg_seal 0) = Ok ()"
  "validate_manifest_transition 1 (Some (seg_seal 0)) {''a''} (seg_seal 1) = Ok ()"
  using seg_shape [of 0] seg_shape [of 1]
  by (simp_all add: validate_manifest_transition_def, simp_all add: seg_seal_def checked_add_def u64_max_def)

lemma seg_append:
  assumes "n \<le> 1" "\<not> mw_poisoned w" "sk_plan (mw_sink w) = []" "mw_record_count w \<le> 1" "length (mw_previous_digest w) = 64"
    and "mw_end_offset w \<le> 2000" "validate_manifest_transition (mw_record_count w) (mw_last_seal w) (mw_raw_files w) (seg_seal n) = Ok ()"
  shows "\<exists>ack. append_verified two_E enc_manifest seg_files (seg_verified n) w = (Ok ack, seg_published n w)"
proof -
  let ?b = "enc_manifest (manifest_body_of (seg_seal n) w)"
  have l: "length ?b \<le> 1000" by (rule seg_body_length [OF assms(1,4,5)])
  have e: "length (encode_frame two_E ?b) \<le> 1036" using l length_encode_frame [of two_E ?b] by (simp add: two_E_def pad32_len)
  have v: "verify_and_seal_raw_segment two_E seg_files (vr_raw_path (seg_verified n)) (ss_raw_file (vr_seal (seg_verified n)))
      (vr_genesis (seg_verified n)) (vr_ack (seg_verified n)) = Ok (seg_verified n)"
    using seg_verify [OF assms(1), of seg_files] by (simp add: seg_verified_def)
  have "prepare_manifest_record two_E enc_manifest seg_files (seg_verified n) w
      = Ok (seg_seal n, ?b, mw_record_count w + 1, mw_end_offset w + length (encode_frame two_E ?b))"
    using v l e assms(4,6,7)
    by (simp add: prepare_manifest_record_def Let_def MAX_MANIFEST_RECORD_BYTES_def checked_add_def u64_max_def seg_verified_def)
  then show ?thesis using assms(2,3)
    by (simp add: append_verified_def write_frame_def sink_write_all_def sink_sync_def seg_published_def Let_def)
qed

lemma seg_offset: "mw_end_offset seg_w1 \<le> 2000" "mw_end_offset seg_w2 \<le> 4000" "length (sk_data (mw_sink seg_w2)) = mw_end_offset seg_w2"
proof -
  have p: "mw_end_offset (seg_published n w) \<le> mw_end_offset w + 1036"
    if "n \<le> 1" "mw_record_count w \<le> 1" "length (mw_previous_digest w) = 64" for n w
    using seg_body_length [OF that] length_encode_frame [of two_E] by (simp add: seg_published_def Let_def two_E_def pad32_len)
  show "mw_end_offset seg_w1 \<le> 2000" using p [of 0 seg_w0] zero_digest_hex by (simp add: seg_w1_def seg_w0_def)
  moreover have "mw_record_count seg_w1 \<le> 1" "length (mw_previous_digest seg_w1) = 64"
    using two_hex by (simp_all add: seg_w1_def seg_published_def seg_w0_def Let_def)
  ultimately show "mw_end_offset seg_w2 \<le> 4000" using p [of 1 seg_w1] by (simp add: seg_w2_def)
  show "length (sk_data (mw_sink seg_w2)) = mw_end_offset seg_w2"
    by (simp add: seg_w2_def seg_w1_def seg_w0_def seg_published_def Let_def)
qed

definition seg_ops :: "(file_map \<times> verified_raw_segment) list" where
  "seg_ops = [(seg_files, seg_verified 0), (seg_files, seg_verified 1)]"

lemma seg_run: "manifest_run two_E enc_manifest seg_ops seg_w0 = ([seg_seal 0, seg_seal 1], seg_w2)"
proof -
  have "\<exists>ack. append_verified two_E enc_manifest seg_files (seg_verified 0) seg_w0 = (Ok ack, seg_w1)"
    unfolding seg_w1_def by (rule seg_append) (use zero_digest_hex seg_transitions in \<open>simp_all add: seg_w0_def\<close>)
  moreover have "\<exists>ack. append_verified two_E enc_manifest seg_files (seg_verified 1) seg_w1 = (Ok ack, seg_w2)"
    unfolding seg_w2_def
    by (rule seg_append) (use seg_offset(1) two_hex seg_transitions in \<open>simp_all add: seg_w1_def seg_w0_def seg_published_def Let_def,
      simp_all add: seg_seal_def\<close>)
  moreover have "vr_seal (seg_verified n) = seg_seal n" for n by (simp add: seg_verified_def)
  ultimately show ?thesis by (auto simp: seg_ops_def)
qed

lemma seg_new: "manifest_from_sink (empty_sink []) = Ok seg_w0"
  by (simp add: manifest_from_sink_def sink_write_all_def sink_sync_def empty_sink_def seg_w0_def)

definition seg_all_files :: file_map where
  "seg_all_files = seg_files(''m'' \<mapsto> sk_data (mw_sink seg_w2))"

text \<open>Witness: the manifest of the two segments scans to their seals.\<close>

theorem manifest_survives_crash_witness:
  "\<exists>scan. scan_segment_manifest two_E dec_manifest seg_all_files ''m'' = Ok scan
    \<and> map me_seal (mn_entries scan) = [seg_seal 0, seg_seal 1] \<and> mn_clean_eof scan"
proof -
  have s: "sk_synced (mw_sink seg_w2) \<le> mw_end_offset seg_w2" "\<not> mw_poisoned seg_w2"
    by (simp_all add: seg_w2_def seg_w1_def seg_w0_def seg_published_def Let_def)
  show ?thesis
    using manifest_survives_crash [OF seg_codec seg_new empty_sink_data seg_run s(1), of seg_all_files "''m''"] seg_offset s(2)
    by (auto simp: seg_all_files_def u64_max_def)
qed

lemma seg_scan_verified:
  "\<exists>scan. scan_segment_manifest two_E dec_manifest seg_all_files ''m'' = Ok scan
    \<and> map me_seal (mn_entries scan) = [seg_seal 0, seg_seal 1]
    \<and> verify_segment_manifest_files two_E dec_manifest seg_all_files scan ''d'' = Ok [seg_verified 0, seg_verified 1]"
proof -
  obtain bodies st where i: "manifest_inv two_E dec_manifest UNIV seg_w2 bodies st" "map me_seal (mx_entries st) = [seg_seal 0, seg_seal 1]"
    using manifest_run_inv [OF seg_codec manifest_start [OF seg_new empty_sink_data] _ seg_run, of UNIV]
    by (auto simp: manifest_scan_start_def)
  have b: "journal_bodies two_E MAX_MANIFEST_RECORD_BYTES (nonempty_body dec_manifest) manifest_scan_step manifest_scan_start bodies st"
    "sk_data (mw_sink seg_w2) = MANIFEST_MAGIC @ frame_bytes two_E bodies"
    using i(1) by (auto simp: manifest_inv_def journal_image_def seg_w2_def seg_w1_def seg_w0_def seg_published_def Let_def)
  have "sha256_len32 two_E" by (simp add: two_E_def pad32_len)
  from scan_whole_journal [OF this, where parse = "nonempty_body dec_manifest" and step = manifest_scan_step
      and limit = MAX_MANIFEST_RECORD_BYTES and bodies = bodies and s = manifest_scan_start and noun = "''segment manifest''" and off = 8]
  have "manifest_frame_scan two_E dec_manifest (frame_bytes two_E bodies) 8 manifest_scan_start
      = (st, 8 + length (frame_bytes two_E bodies), None)"
    using b(1) by (simp add: journal_bodies_def)
  moreover have "8 + length (frame_bytes two_E bodies) \<le> u64_max"
    using seg_offset arg_cong [OF b(2), of length] by (simp add: u64_max_def)
  ultimately obtain scan where s: "scan_segment_manifest two_E dec_manifest seg_all_files ''m'' = Ok scan" "manifest_scanned_as st scan"
    "mn_clean_eof scan"
    using scan_manifest_frames [of two_E dec_manifest "frame_bytes two_E bodies" st _ None seg_all_files "''m''"] b(2)
    by (auto simp: seg_all_files_def)
  obtain e0 e1 where e: "mn_entries scan = [e0, e1]" "me_seal e0 = seg_seal 0" "me_seal e1 = seg_seal 1"
    using i(2) s(2) by (auto simp: manifest_scanned_as_def map_eq_Cons_conv)
  have p: "mn_path scan = ''m''" using s(1) by (auto simp: scan_segment_manifest_def split: if_splits)
  have j: "path_join ''d'' (ss_raw_file (seg_seal 0)) = seg_path 0" "path_join ''d'' (ss_raw_file (seg_seal 1)) = seg_path 1"
    by (simp_all add: path_join_def seg_seal_def seg_path_def)
  have "seg_all_files (seg_path n) = seg_files (seg_path n)" for n by (simp add: seg_all_files_def seg_path_def)
  note v = seg_verify [of 0 seg_all_files, OF _ this] seg_verify [of 1 seg_all_files, OF _ this]
  have "verify_entry_files two_E seg_all_files ''d'' (mn_entries scan) = Ok [seg_verified 0, seg_verified 1]"
    using v j by (simp add: e del: One_nat_def) (simp add: seg_verified_def)
  then show ?thesis using s e p by (auto simp: verify_segment_manifest_files_def rescan_manifest_def)
qed

text \<open>Witness: the two files together are one raw log of two records.\<close>

theorem manifest_is_one_log_witness:
  "\<exists>sc. scan_raw_log two_E (Some (MAGIC @ encode_record two_E [7] @ encode_record two_E [8])) = Ok sc \<and> sc_clean_eof sc
    \<and> sc_records sc = 2 \<and> sc_last_record_sha256 sc = sha256_hex two_E [8]"
proof -
  obtain scan where s: "scan_segment_manifest two_E dec_manifest seg_all_files ''m'' = Ok scan"
    "map me_seal (mn_entries scan) = [seg_seal 0, seg_seal 1]"
    "verify_segment_manifest_files two_E dec_manifest seg_all_files scan ''d'' = Ok [seg_verified 0, seg_verified 1]"
    using seg_scan_verified by (elim exE conjE) (rule that, assumption+)
  have c: "encode_record two_E [7] @ encode_record two_E [8] = concat (map (segment_records seg_all_files) [seg_verified 0, seg_verified 1])"
    by (simp add: segment_records_def seg_verified_def seg_all_files_def seg_files_def seg_path_def)
  show ?thesis
    using manifest_is_one_log [OF s(1,3) _ c _ s(2) [symmetric]] two_lengths by (auto simp: u64_max_def seg_seal_def)
qed

end
