(* ===== verification/Session_Replay.thy ===== *)
theory Session_Replay
  imports Order_Book Raw_Log_Reader
begin

text \<open>
  The replay, audit and monitor of a capture session in \<open>lib.rs\<close>: a session is a directory with the raw logs of
  one snapshot, the depth stream and the trade stream. The directory is the map from file names to contents.
  Reports are records; the bytes \<open>serde_json\<close> gives a report, over which its digest is taken, are a parameter.
\<close>

type_synonym session_files = "string \<Rightarrow> bytes option"

section \<open>Replay\<close>

record replay_result =
  rs_symbol :: string
  rs_state :: string
  rs_snapshot_last_update_id :: nat
  rs_final_update_id :: nat
  rs_depth_records :: nat
  rs_applied_records :: nat
  rs_old_records :: nat
  rs_first_applied_frame_index :: nat
  rs_bid_levels :: nat
  rs_ask_levels :: nat
  rs_best_bid :: string
  rs_best_ask :: string
  rs_spread :: string
  rs_state_sha256 :: string

text \<open>The counters of the loop over the depth frames, with the book it drives.\<close>

record replay_progress =
  rg_book :: local_order_book
  rg_applied :: nat
  rg_old :: nat
  rg_first_applied :: "nat option"

definition replay_frame :: "'v externals \<Rightarrow> raw_frame \<Rightarrow> replay_progress \<Rightarrow> replay_progress res" where
  "replay_frame E f s =
     (case apply_depth E (rg_book s) (rf_payload f) of
        (Inl e, _) \<Rightarrow> Err e
      | (Inr Old, b) \<Rightarrow> Ok (s\<lparr>rg_book := b, rg_old := rg_old s + 1\<rparr>)
      | (Inr Applied, b) \<Rightarrow>
          Ok (s\<lparr>rg_book := b, rg_applied := rg_applied s + 1,
                rg_first_applied := Some (case rg_first_applied s of None \<Rightarrow> rf_frame_index f | Some i \<Rightarrow> i)\<rparr>))"

fun replay_depth :: "'v externals \<Rightarrow> raw_frame list \<Rightarrow> replay_progress \<Rightarrow> replay_progress res" where
  "replay_depth E [] s = Ok s"
| "replay_depth E (f # fs) s = rbind (replay_frame E f s) (\<lambda>s1. replay_depth E fs s1)"

definition start_replay :: "'v externals \<Rightarrow> raw_frame \<Rightarrow> (nat \<times> local_order_book) res" where
  "start_replay E snapshot =
     rbind (new_book (rf_symbol snapshot)) (\<lambda>book.
     case load_snapshot E book (rf_payload snapshot) of
       (Inl e, _) \<Rightarrow> Err e
     | (Inr snapshot_id, book1) \<Rightarrow> Ok (snapshot_id, book1))"

definition progress_of :: "local_order_book \<Rightarrow> replay_progress" where
  "progress_of b = \<lparr>rg_book = b, rg_applied = 0, rg_old = 0, rg_first_applied = None\<rparr>"

definition replay_session :: "'v externals \<Rightarrow> session_files \<Rightarrow> replay_result res" where
  "replay_session E files =
     rbind (read_raw_log E (files ''snapshot.bnraw'')) (\<lambda>snapshots.
     if length snapshots \<noteq> 1 then Err (Fail ''session must contain exactly one snapshot'')
     else rbind (read_raw_log E (files ''depth.bnraw'')) (\<lambda>depth.
       rbind (start_replay E (hd snapshots)) (\<lambda>(snapshot_id, book0).
       rbind (replay_depth E depth (progress_of book0)) (\<lambda>s.
       let book = rg_book s in
       if lb_state book \<noteq> Live then Err (Fail ''replay did not reach LIVE'')
       else
         rbind (best_bid book) (\<lambda>bid.
         rbind (best_ask book) (\<lambda>ask.
         rbind (ok_or (Fail ''missing final ID'') (lb_last_update_id book)) (\<lambda>final_id.
         rbind (ok_or (Fail ''no applied frame'') (rg_first_applied s)) (\<lambda>first_applied.
         rbind (fd_checked_sub ask bid) (\<lambda>spread.
         Ok \<lparr>rs_symbol = lb_symbol book, rs_state = ''LIVE'', rs_snapshot_last_update_id = snapshot_id,
             rs_final_update_id = final_id, rs_depth_records = length depth, rs_applied_records = rg_applied s,
             rs_old_records = rg_old s, rs_first_applied_frame_index = first_applied,
             rs_bid_levels = length (lb_bids book), rs_ask_levels = length (lb_asks book),
             rs_best_bid = fd_display bid, rs_best_ask = fd_display ask, rs_spread = fd_display spread,
             rs_state_sha256 = state_digest E book\<rparr>)))))))))"

section \<open>Clocks\<close>

definition clock_permits_one_way :: "raw_frame \<Rightarrow> bool" where
  "clock_permits_one_way f \<longleftrightarrow> rf_clock_quality f = ''SYNCHRONIZED'' \<and> rf_clock_offset_ns f \<noteq> None
     \<and> rf_clock_uncertainty_ns f \<noteq> None"

record clock_summary =
  ck_qualities :: "string set"
  ck_sources :: "string set"
  ck_event_age_available :: bool

definition add_clock :: "raw_frame \<Rightarrow> clock_summary \<Rightarrow> clock_summary" where
  "add_clock f c = \<lparr>ck_qualities = insert (rf_clock_quality f) (ck_qualities c),
     ck_sources = insert (rf_clock_source f) (ck_sources c),
     ck_event_age_available = (ck_event_age_available c \<and> clock_permits_one_way f)\<rparr>"

definition no_clock :: clock_summary where
  "no_clock = \<lparr>ck_qualities = {}, ck_sources = {}, ck_event_age_available = True\<rparr>"

section \<open>Trade identities\<close>

record trade_ids =
  ti_first_id :: "nat option"
  ti_previous_id :: "nat option"
  ti_missing_ids :: nat
  ti_duplicate_ids :: nat
  ti_out_of_order_ids :: nat

definition no_trades :: trade_ids where
  "no_trades = \<lparr>ti_first_id = None, ti_previous_id = None, ti_missing_ids = 0, ti_duplicate_ids = 0, ti_out_of_order_ids = 0\<rparr>"

text \<open>The counting both trade reports do with one trade id.\<close>

definition count_trade_id :: "nat \<Rightarrow> trade_ids \<Rightarrow> trade_ids res" where
  "count_trade_id trade_id s =
     (let first = Some (case ti_first_id s of None \<Rightarrow> trade_id | Some i \<Rightarrow> i) in
      case ti_previous_id s of
        None \<Rightarrow> Ok (s\<lparr>ti_first_id := first, ti_previous_id := Some trade_id\<rparr>)
      | Some previous \<Rightarrow>
          if trade_id = previous
          then Ok (s\<lparr>ti_first_id := first, ti_duplicate_ids := ti_duplicate_ids s + 1, ti_previous_id := Some trade_id\<rparr>)
          else if trade_id < previous
          then Ok (s\<lparr>ti_first_id := first, ti_out_of_order_ids := ti_out_of_order_ids s + 1, ti_previous_id := Some trade_id\<rparr>)
          else if previous + 1 < trade_id
          then rbind (ok_or (Fail ''missing trade ID count overflow'')
                        (checked_add (ti_missing_ids s) (trade_id - previous - 1))) (\<lambda>missing.
               Ok (s\<lparr>ti_first_id := first, ti_missing_ids := missing, ti_previous_id := Some trade_id\<rparr>))
          else Ok (s\<lparr>ti_first_id := first, ti_previous_id := Some trade_id\<rparr>))"

definition trade_value :: "'v externals \<Rightarrow> string \<Rightarrow> raw_frame \<Rightarrow> 'v res" where
  "trade_value E expected_symbol f =
     rbind (ok_or (Fail ''invalid trade JSON'') (json_from_slice E (rf_payload f))) (\<lambda>v.
     rbind (required_str E v ''e'') (\<lambda>e.
     if e \<noteq> ''trade'' then Err (Fail ''unexpected trade type/symbol'')
     else rbind (required_str E v ''s'') (\<lambda>s.
       if s \<noteq> expected_symbol \<or> rf_symbol f \<noteq> expected_symbol then Err (Fail ''unexpected trade type/symbol'')
       else Ok v)))"

definition identity_step :: "'v externals \<Rightarrow> string \<Rightarrow> raw_frame \<Rightarrow> trade_ids \<Rightarrow> trade_ids res" where
  "identity_step E expected_symbol f s =
     rbind (trade_value E expected_symbol f) (\<lambda>v.
     rbind (required_u64 E v ''t'') (\<lambda>trade_id. count_trade_id trade_id s))"

fun identity_loop :: "'v externals \<Rightarrow> string \<Rightarrow> raw_frame list \<Rightarrow> trade_ids \<Rightarrow> trade_ids res" where
  "identity_loop E symbol [] s = Ok s"
| "identity_loop E symbol (f # fs) s = rbind (identity_step E symbol f s) (\<lambda>s1. identity_loop E symbol fs s1)"

record trade_identities =
  tr_records :: nat
  tr_ids :: trade_ids

definition trade_identity_report :: "'v externals \<Rightarrow> raw_frame list \<Rightarrow> string \<Rightarrow> trade_identities res" where
  "trade_identity_report E frames expected_symbol =
     (if frames = [] then Err (Fail ''trade log is empty'')
      else rbind (identity_loop E expected_symbol frames no_trades) (\<lambda>s.
        Ok \<lparr>tr_records = length frames, tr_ids = s\<rparr>))"

definition trade_ids_contiguous :: "trade_ids \<Rightarrow> bool" where
  "trade_ids_contiguous s \<longleftrightarrow> ti_missing_ids s = 0 \<and> ti_duplicate_ids s = 0 \<and> ti_out_of_order_ids s = 0"

section \<open>Audit\<close>

record session_lineage =
  sl_snapshot_connection_epoch :: string
  sl_depth_connection_epochs :: "string set"
  sl_trade_connection_epochs :: "string set"

record session_health =
  sh_raw_integrity :: string
  sh_book_state :: string
  sh_snapshot_last_update_id :: nat
  sh_final_update_id :: nat
  sh_depth_records :: nat
  sh_applied_depth_records :: nat
  sh_old_depth_records :: nat
  sh_first_applied_frame_index :: nat
  sh_trade_ids_contiguous :: bool
  sh_validity :: "string list"

record book_summary =
  bs_bid_levels :: nat
  bs_ask_levels :: nat
  bs_best_bid :: string
  bs_best_ask :: string
  bs_spread :: string
  bs_state_sha256 :: string

record dataset_audit =
  au_schema :: string
  au_symbol :: string
  au_dataset_policy :: string
  au_lineage :: session_lineage
  au_cross_stream_total_order_available :: bool
  au_clock :: clock_summary
  au_health :: session_health
  au_book :: book_summary
  au_trades :: trade_identities
  au_excluded_from_audit :: "string list"

definition validity_flags :: "bool \<Rightarrow> string list" where
  "validity_flags contiguous = [''RAW_INTEGRITY'', ''BOOK_LIVE''] @ (if contiguous then [''TRADE_IDS_CONTIGUOUS''] else [])"

text \<open>The report and the digest that is added to it.\<close>

definition audit_session :: "'v externals \<Rightarrow> (dataset_audit \<Rightarrow> bytes option) \<Rightarrow> session_files \<Rightarrow> (dataset_audit \<times> string) res" where
  "audit_session E to_vec files =
     rbind (read_raw_log E (files ''snapshot.bnraw'')) (\<lambda>snapshots.
     rbind (read_raw_log E (files ''depth.bnraw'')) (\<lambda>depth.
     rbind (read_raw_log E (files ''trade.bnraw'')) (\<lambda>trade.
     if length snapshots \<noteq> 1 then Err (Fail ''session must contain exactly one snapshot'')
     else
       let symbol = rf_symbol (hd snapshots) in
       rbind (replay_session E files) (\<lambda>replay.
       rbind (trade_identity_report E trade symbol) (\<lambda>trades.
       let contiguous = trade_ids_contiguous (tr_ids trades);
           audit = \<lparr>au_schema = ''DatasetAuditV1'', au_symbol = symbol, au_dataset_policy = ''RAW_IMMUTABLE_DERIVATIONS_SEPARATE'',
             au_lineage = \<lparr>sl_snapshot_connection_epoch = rf_connection_epoch (hd snapshots),
               sl_depth_connection_epochs = rf_connection_epoch ` set depth, sl_trade_connection_epochs = rf_connection_epoch ` set trade\<rparr>,
             au_cross_stream_total_order_available = False,
             au_clock = fold add_clock (snapshots @ depth @ trade) no_clock,
             au_health = \<lparr>sh_raw_integrity = ''PASS'', sh_book_state = rs_state replay,
               sh_snapshot_last_update_id = rs_snapshot_last_update_id replay, sh_final_update_id = rs_final_update_id replay,
               sh_depth_records = rs_depth_records replay, sh_applied_depth_records = rs_applied_records replay,
               sh_old_depth_records = rs_old_records replay, sh_first_applied_frame_index = rs_first_applied_frame_index replay,
               sh_trade_ids_contiguous = contiguous, sh_validity = validity_flags contiguous\<rparr>,
             au_book = \<lparr>bs_bid_levels = rs_bid_levels replay, bs_ask_levels = rs_ask_levels replay, bs_best_bid = rs_best_bid replay,
               bs_best_ask = rs_best_ask replay, bs_spread = rs_spread replay, bs_state_sha256 = rs_state_sha256 replay\<rparr>,
             au_trades = trades,
             au_excluded_from_audit = [''IMBALANCE'', ''MICROPRICE'', ''AGGRESSOR_AGGREGATES'', ''SIGNALS'', ''FILL_OR_PROFITABILITY_CLAIMS'']\<rparr>
       in rbind (ok_or (Fail ''serialize canonical audit'') (to_vec audit)) (\<lambda>canonical.
         Ok (audit, sha256_hex E canonical)))))))"

section \<open>Monitor\<close>

record trade_tally =
  ta_ids :: trade_ids
  ta_epochs :: "string set"
  ta_clock :: clock_summary
  ta_buyer_count :: nat
  ta_seller_count :: nat
  ta_buyer_quantities :: "fixed_decimal list"
  ta_seller_quantities :: "fixed_decimal list"

text \<open>One trade of \<open>trade_report\<close>; with \<open>m = true\<close> the buyer is the maker and the seller the aggressor.\<close>

definition tally_step :: "'v externals \<Rightarrow> string \<Rightarrow> raw_frame \<Rightarrow> trade_tally \<Rightarrow> trade_tally res" where
  "tally_step E expected_symbol f t =
     rbind (trade_value E expected_symbol f) (\<lambda>v.
     rbind (required_u64 E v ''t'') (\<lambda>trade_id.
     rbind (required_str E v ''q'') (\<lambda>text.
     rbind (fd_parse text) (\<lambda>quantity.
     if is_zero quantity \<or> is_negative quantity then Err (Fail ''trade quantity must be positive'')
     else rbind (ok_or (Fail ''missing/invalid boolean field m'') (field_bool E v ''m'')) (\<lambda>buyer_is_maker.
       rbind (count_trade_id trade_id (ta_ids t)) (\<lambda>ids.
       let t1 = t\<lparr>ta_ids := ids, ta_epochs := insert (rf_connection_epoch f) (ta_epochs t), ta_clock := add_clock f (ta_clock t)\<rparr> in
       Ok (if buyer_is_maker
           then t1\<lparr>ta_seller_count := ta_seller_count t + 1, ta_seller_quantities := ta_seller_quantities t @ [quantity]\<rparr>
           else t1\<lparr>ta_buyer_count := ta_buyer_count t + 1, ta_buyer_quantities := ta_buyer_quantities t @ [quantity]\<rparr>)))))))"

fun tally_loop :: "'v externals \<Rightarrow> string \<Rightarrow> raw_frame list \<Rightarrow> trade_tally \<Rightarrow> trade_tally res" where
  "tally_loop E symbol [] t = Ok t"
| "tally_loop E symbol (f # fs) t = rbind (tally_step E symbol f t) (\<lambda>t1. tally_loop E symbol fs t1)"

record trade_flow =
  tf_identities :: trade_identities
  tf_buyer_aggressor_count :: nat
  tf_seller_aggressor_count :: nat
  tf_buyer_aggressor_base_qty :: string
  tf_seller_aggressor_base_qty :: string
  tf_aggressor_qty_imbalance_ppm :: int

definition trade_report ::
  "'v externals \<Rightarrow> bytes option \<Rightarrow> string \<Rightarrow> clock_summary \<Rightarrow> (trade_flow \<times> string set \<times> clock_summary) res" where
  "trade_report E file expected_symbol clock =
     rbind (read_raw_log E file) (\<lambda>frames.
     if frames = [] then Err (Fail ''trade log is empty'')
     else rbind (tally_loop E expected_symbol frames
                   \<lparr>ta_ids = no_trades, ta_epochs = {}, ta_clock = clock, ta_buyer_count = 0, ta_seller_count = 0,
                    ta_buyer_quantities = [], ta_seller_quantities = []\<rparr>) (\<lambda>t.
       rbind (sum_decimals (ta_buyer_quantities t)) (\<lambda>buyer.
       rbind (sum_decimals (ta_seller_quantities t)) (\<lambda>seller.
       rbind (imbalance_ppm buyer seller) (\<lambda>imbalance.
       Ok (\<lparr>tf_identities = \<lparr>tr_records = length frames, tr_ids = ta_ids t\<rparr>,
            tf_buyer_aggressor_count = ta_buyer_count t, tf_seller_aggressor_count = ta_seller_count t,
            tf_buyer_aggressor_base_qty = fd_display buyer, tf_seller_aggressor_base_qty = fd_display seller,
            tf_aggressor_qty_imbalance_ppm = imbalance\<rparr>, ta_epochs t, ta_clock t))))))"

record book_liquidity =
  bq_top_bid_base_qty :: string
  bq_top_ask_base_qty :: string
  bq_top_imbalance_ppm :: int
  bq_microprice_position_ppm :: int
  bq_bid_5_base_qty :: string
  bq_ask_5_base_qty :: string
  bq_depth_5_imbalance_ppm :: int
  bq_bid_20_base_qty :: string
  bq_ask_20_base_qty :: string
  bq_depth_20_imbalance_ppm :: int

text \<open>The quantities of the best levels, best first, summed before the trades are read.\<close>

record top_levels =
  tl_best_bid :: fixed_decimal
  tl_best_ask :: fixed_decimal
  tl_bid_qty :: fixed_decimal
  tl_ask_qty :: fixed_decimal
  tl_bid_5 :: fixed_decimal
  tl_ask_5 :: fixed_decimal
  tl_bid_20 :: fixed_decimal
  tl_ask_20 :: fixed_decimal

definition top_of_book :: "local_order_book \<Rightarrow> top_levels res" where
  "top_of_book b =
     (let bids = take 20 (rev (lb_bids b)); asks = take 20 (lb_asks b) in
      if length bids < 20 \<or> length asks < 20 then Err (Fail ''book has fewer than 20 levels on one side'')
      else
        rbind (sum_decimals (map snd (take 5 bids))) (\<lambda>bid_5.
        rbind (sum_decimals (map snd (take 5 asks))) (\<lambda>ask_5.
        rbind (sum_decimals (map snd bids)) (\<lambda>bid_20.
        rbind (sum_decimals (map snd asks)) (\<lambda>ask_20.
        Ok \<lparr>tl_best_bid = fst (hd bids), tl_best_ask = fst (hd asks), tl_bid_qty = snd (hd bids), tl_ask_qty = snd (hd asks),
            tl_bid_5 = bid_5, tl_ask_5 = ask_5, tl_bid_20 = bid_20, tl_ask_20 = ask_20\<rparr>)))))"

definition liquidity_of :: "top_levels \<Rightarrow> book_liquidity res" where
  "liquidity_of t =
     rbind (imbalance_ppm (tl_bid_qty t) (tl_ask_qty t)) (\<lambda>top_imbalance.
     rbind (fd_checked_add (tl_bid_qty t) (tl_ask_qty t)) (\<lambda>both.
     rbind (ratio_ppm (tl_bid_qty t) both) (\<lambda>microprice.
     rbind (imbalance_ppm (tl_bid_5 t) (tl_ask_5 t)) (\<lambda>imbalance_5.
     rbind (imbalance_ppm (tl_bid_20 t) (tl_ask_20 t)) (\<lambda>imbalance_20.
     Ok \<lparr>bq_top_bid_base_qty = fd_display (tl_bid_qty t), bq_top_ask_base_qty = fd_display (tl_ask_qty t),
         bq_top_imbalance_ppm = top_imbalance, bq_microprice_position_ppm = microprice,
         bq_bid_5_base_qty = fd_display (tl_bid_5 t), bq_ask_5_base_qty = fd_display (tl_ask_5 t), bq_depth_5_imbalance_ppm = imbalance_5,
         bq_bid_20_base_qty = fd_display (tl_bid_20 t), bq_ask_20_base_qty = fd_display (tl_ask_20 t),
         bq_depth_20_imbalance_ppm = imbalance_20\<rparr>)))))"

record microstructure_report =
  mr_schema :: string
  mr_symbol :: string
  mr_lineage_policy :: string
  mr_lineage :: session_lineage
  mr_clock :: clock_summary
  mr_health :: session_health
  mr_book :: book_summary
  mr_liquidity :: book_liquidity
  mr_trades :: trade_flow
  mr_limitations :: "string list"

fun monitor_depth ::
  "'v externals \<Rightarrow> string \<Rightarrow> raw_frame list \<Rightarrow> clock_summary \<Rightarrow> replay_progress \<Rightarrow> (clock_summary \<times> replay_progress) res" where
  "monitor_depth E symbol [] c s = Ok (c, s)"
| "monitor_depth E symbol (f # fs) c s =
     (if rf_symbol f \<noteq> symbol then Err (Fail ''unexpected depth symbol'')
      else rbind (replay_frame E f s) (\<lambda>s1. monitor_depth E symbol fs (add_clock f c) s1))"

definition monitor_session ::
  "'v externals \<Rightarrow> (microstructure_report \<Rightarrow> bytes option) \<Rightarrow> session_files \<Rightarrow> (microstructure_report \<times> string) res" where
  "monitor_session E to_vec files =
     rbind (read_raw_log E (files ''snapshot.bnraw'')) (\<lambda>snapshots.
     if length snapshots \<noteq> 1 then Err (Fail ''session must contain exactly one snapshot'')
     else
       let snapshot = hd snapshots; symbol = rf_symbol snapshot in
       rbind (start_replay E snapshot) (\<lambda>(snapshot_id, book0).
       rbind (read_raw_log E (files ''depth.bnraw'')) (\<lambda>depth.
       rbind (monitor_depth E symbol depth (add_clock snapshot no_clock) (progress_of book0)) (\<lambda>(clock, s).
       let book = rg_book s in
       if lb_state book \<noteq> Live then Err (Fail ''replay did not reach LIVE'')
       else
         rbind (top_of_book book) (\<lambda>top.
         rbind (trade_report E (files ''trade.bnraw'') symbol clock) (\<lambda>(trades, trade_epochs, clock1).
         let contiguous = trade_ids_contiguous (tr_ids (tf_identities trades)) in
         rbind (ok_or (Fail ''missing final ID'') (lb_last_update_id book)) (\<lambda>final_id.
         rbind (ok_or (Fail ''no applied frame'') (rg_first_applied s)) (\<lambda>first_applied.
         rbind (fd_checked_sub (tl_best_ask top) (tl_best_bid top)) (\<lambda>spread.
         rbind (liquidity_of top) (\<lambda>liquidity.
         let report = \<lparr>mr_schema = ''MicrostructureReportV1'', mr_symbol = symbol,
               mr_lineage_policy = ''DEPTH_AND_TRADE_INDEPENDENT_NO_TOTAL_ORDER'',
               mr_lineage = \<lparr>sl_snapshot_connection_epoch = rf_connection_epoch snapshot,
                 sl_depth_connection_epochs = rf_connection_epoch ` set depth, sl_trade_connection_epochs = trade_epochs\<rparr>,
               mr_clock = clock1,
               mr_health = \<lparr>sh_raw_integrity = ''PASS'', sh_book_state = ''LIVE'', sh_snapshot_last_update_id = snapshot_id,
                 sh_final_update_id = final_id, sh_depth_records = length depth, sh_applied_depth_records = rg_applied s,
                 sh_old_depth_records = rg_old s, sh_first_applied_frame_index = first_applied,
                 sh_trade_ids_contiguous = contiguous, sh_validity = validity_flags contiguous\<rparr>,
               mr_book = \<lparr>bs_bid_levels = length (lb_bids book), bs_ask_levels = length (lb_asks book),
                 bs_best_bid = fd_display (tl_best_bid top), bs_best_ask = fd_display (tl_best_ask top),
                 bs_spread = fd_display spread, bs_state_sha256 = state_digest E book\<rparr>,
               mr_liquidity = liquidity, mr_trades = trades,
               mr_limitations = [''NO_DEPTH_TRADE_TOTAL_ORDER'', ''NO_L3_QUEUE_POSITION'', ''NO_HIDDEN_LIQUIDITY_INFERENCE'',
                 ''NO_FILL_OR_PROFITABILITY_CLAIM'']\<rparr>
         in rbind (ok_or (Fail ''serialize canonical report'') (to_vec report)) (\<lambda>canonical.
           Ok (report, sha256_hex E canonical))))))))))))"

end
