(* ===== verification/Session_Replay_Safety.thy ===== *)
theory Session_Replay_Safety
  imports Session_Replay Order_Book_Safety
begin

text \<open>
  The theorems on the session reports: a replay that succeeds has folded exactly the live updates of the
  depth stream over the snapshot, without a hole in the update ids; the contiguity flag of the trade reports is
  exact; the monitor and the audit agree on everything they both report.
\<close>

section \<open>The reference replay\<close>

definition depth_span :: "'v externals \<Rightarrow> raw_frame \<Rightarrow> nat \<times> nat" where
  "depth_span E f =
     (case Option.bind (json_from_slice E (rf_payload f)) (\<lambda>v. Option.bind (field_u64 E v ''U'') (\<lambda>a.
             map_option (Pair a) (field_u64 E v ''u''))) of
        None \<Rightarrow> (0, 0) | Some s \<Rightarrow> s)"

definition depth_changes :: "'v externals \<Rightarrow> raw_frame \<Rightarrow> level list \<times> level list" where
  "depth_changes E f =
     (case json_from_slice E (rf_payload f) of
        None \<Rightarrow> ([], []) | Some v \<Rightarrow> (case depth_levels E v of Inl _ \<Rightarrow> ([], []) | Inr c \<Rightarrow> c))"

text \<open>The frames that carry something newer than what was seen before them.\<close>

fun live_frames :: "'v externals \<Rightarrow> nat \<Rightarrow> raw_frame list \<Rightarrow> raw_frame list" where
  "live_frames E n [] = []"
| "live_frames E n (f # fs) =
     (if snd (depth_span E f) \<le> n then live_frames E n fs else f # live_frames E (snd (depth_span E f)) fs)"

definition folded_side ::
  "(level list \<times> level list \<Rightarrow> level list) \<Rightarrow> 'v externals \<Rightarrow> raw_frame list \<Rightarrow> side \<Rightarrow> (fixed_decimal \<rightharpoonup> fixed_decimal)" where
  "folded_side sel E fs m = foldl (\<lambda>m f. update_map m (sel (depth_changes E f))) (map_of m) fs"

lemma apply_depth_cases:
  assumes "apply_depth E b0 (rf_payload f) = (Ok oc, b1)" "book_ok E b0" "lb_last_update_id b0 = Some n"
  obtains (old) "oc = Old" "b1 = b0" "snd (depth_span E f) \<le> n" "n + 1 \<le> u64_max"
  | (live) a z where "oc = Applied" "depth_span E f = (a, z)" "a \<le> n + 1" "n < z" "n + 1 \<le> u64_max" "book_ok E b1"
      "lb_last_update_id b1 = Some z" "lb_state b1 = Live" "lb_symbol b1 = lb_symbol b0"
      "map_of (lb_bids b1) = update_map (map_of (lb_bids b0)) (fst (depth_changes E f))"
      "map_of (lb_asks b1) = update_map (map_of (lb_asks b0)) (snd (depth_changes E f))"
proof -
  obtain v where v: "json_from_slice E (rf_payload f) = Some v" and ap: "apply_depth_value E b0 v = (Ok oc, b1)"
    using assms(1) by (cases "json_from_slice E (rf_payload f)") (auto simp: apply_depth_def)
  obtain a z x where ids: "depth_ids E b0 v = Ok (a, z, x)"
    using ap by (auto simp: apply_depth_value_def prepare_depth_value_def split: sum.splits)
  have span: "depth_span E f = (a, z)" and x: "x = n + 1" "n + 1 \<le> u64_max"
    using ids v assms(3) by (auto simp: depth_span_def depth_ids_def expected_update_def checked_add_def split: if_splits)
  show thesis
  proof (cases "z < x")
    case True
    then show thesis using apply_depth_value_old [OF ids True] ap old span x by simp
  next
    case False
    then have pos: "a \<le> x" "x \<le> z" using ap apply_depth_value_gap [OF ids] by (cases "x < a"; auto)+
    then obtain ub ua where lev: "depth_levels E v = Ok (ub, ua)"
      using ap apply_depth_value_levels [OF ids] by (auto split: sum.splits)
    note lo = depth_levels_ok [OF lev] and acc = depth_ids_accepts [OF ids]
    have so: "side_ok (lb_bids b0)" "side_ok (lb_asks b0)" using assms(2) by (simp_all add: book_ok_def)
    note sides = applied_book_sides [OF so conjunct1 [OF lo] conjunct2 [OF lo], of E z]
    have eq: "apply_depth_value E b0 v = (case check_invariants (applied_book E b0 z ub ua) of
              (Inl e, b') \<Rightarrow> (Err e, b') | (Inr _, b') \<Rightarrow> (Ok Applied, b'))"
      using apply_depth_value_levels [OF ids pos] apply_prepared_Apply [OF assms(2) _ _ _ _ pos] lo acc lev by simp
    have b: "b1 = applied_book E b0 z ub ua" "oc = Applied"
      using sides(1,2) by (cases rule: check_invariants_cases; use ap eq in auto)+
    have ok: "book_ok E b1" using apply_depth_value_ok [OF assms(2), of v] ap by simp
    have ch: "depth_changes E f = (ub, ua)" using v lev by (simp add: depth_changes_def)
    show thesis by (rule live [of a z]) (use span pos x b ok sides ch in simp_all)
  qed
qed

lemma replay_frame_cases:
  assumes "replay_frame E f s = Ok s'" "book_ok E (rg_book s)" "lb_last_update_id (rg_book s) = Some n"
  obtains (old) "snd (depth_span E f) \<le> n" "s' = s\<lparr>rg_old := rg_old s + 1\<rparr>"
  | (live) a z b where "depth_span E f = (a, z)" "a \<le> n + 1" "n < z" "book_ok E b" "lb_last_update_id b = Some z"
      "lb_symbol b = lb_symbol (rg_book s)"
      "map_of (lb_bids b) = update_map (map_of (lb_bids (rg_book s))) (fst (depth_changes E f))"
      "map_of (lb_asks b) = update_map (map_of (lb_asks (rg_book s))) (snd (depth_changes E f))"
      "s' = s\<lparr>rg_book := b, rg_applied := rg_applied s + 1,
         rg_first_applied := Some (case rg_first_applied s of None \<Rightarrow> rf_frame_index f | Some i \<Rightarrow> i)\<rparr>"
proof -
  obtain oc b where ap: "apply_depth E (rg_book s) (rf_payload f) = (Ok oc, b)"
    using assms(1) by (auto simp: replay_frame_def split: prod.splits sum.splits)
  show thesis
    using ap assms(2,3)
  proof (cases rule: apply_depth_cases)
    case old
    then show thesis using that(1) assms(1) ap by (simp add: replay_frame_def)
  next
    case (live a z)
    then show thesis using that(2) [of a z b] assms(1) ap by (simp add: replay_frame_def)
  qed
qed

text \<open>What the loop over the depth frames has done, seen from the live frames among them.\<close>

definition replayed :: "'v externals \<Rightarrow> nat \<Rightarrow> raw_frame list \<Rightarrow> replay_progress \<Rightarrow> replay_progress \<Rightarrow> bool" where
  "replayed E n fs s s' \<longleftrightarrow> (let live = live_frames E n fs in
     book_ok E (rg_book s') \<and> lb_symbol (rg_book s') = lb_symbol (rg_book s)
     \<and> lb_last_update_id (rg_book s') = Some (if live = [] then n else snd (depth_span E (last live)))
     \<and> map_of (lb_bids (rg_book s')) = folded_side fst E live (lb_bids (rg_book s))
     \<and> map_of (lb_asks (rg_book s')) = folded_side snd E live (lb_asks (rg_book s))
     \<and> rg_applied s' = rg_applied s + length live \<and> rg_old s' + length live = rg_old s + length fs
     \<and> rg_first_applied s' = (case rg_first_applied s of Some i \<Rightarrow> Some i
         | None \<Rightarrow> if live = [] then None else Some (rf_frame_index (hd live)))
     \<and> (\<forall>i. n < i \<and> i \<le> (if live = [] then n else snd (depth_span E (last live))) \<longrightarrow>
          (\<exists>f\<in>set live. fst (depth_span E f) \<le> i \<and> i \<le> snd (depth_span E f))))"

lemma folded_side_Cons:
  "map_of m' = update_map (map_of m) (sel (depth_changes E f)) \<Longrightarrow> folded_side sel E (f # fs) m = folded_side sel E fs m'"
  by (simp add: folded_side_def)

lemma live_frames_newer:
  "live_frames E n fs \<noteq> [] \<Longrightarrow> n < snd (depth_span E (last (live_frames E n fs)))"
proof (induction fs arbitrary: n)
  case (Cons f fs)
  then show ?case by (cases "live_frames E (snd (depth_span E f)) fs = []") (fastforce split: if_splits)+
qed simp

lemma replay_depth_replayed:
  assumes "replay_depth E fs s = Ok s'" "book_ok E (rg_book s)" "lb_last_update_id (rg_book s) = Some n"
  shows "replayed E n fs s s'"
  using assms
proof (induction fs arbitrary: s n)
  case Nil
  then show ?case by (auto simp: replayed_def folded_side_def split: option.split)
next
  case (Cons f fs)
  obtain s1 where s1: "replay_frame E f s = Ok s1" "replay_depth E fs s1 = Ok s'" using Cons.prems(1) by auto
  show ?case
  proof (rule replay_frame_cases [OF s1(1) Cons.prems(2,3)])
    assume o: "snd (depth_span E f) \<le> n" "s1 = s\<lparr>rg_old := rg_old s + 1\<rparr>"
    from Cons.IH [OF s1(2), of n] show ?thesis using o Cons.prems(2,3) by (auto simp: replayed_def Let_def)
  next
    fix a z b
    assume l: "depth_span E f = (a, z)" "a \<le> n + 1" "n < z" "book_ok E b" "lb_last_update_id b = Some z"
      "lb_symbol b = lb_symbol (rg_book s)"
      "map_of (lb_bids b) = update_map (map_of (lb_bids (rg_book s))) (fst (depth_changes E f))"
      "map_of (lb_asks b) = update_map (map_of (lb_asks (rg_book s))) (snd (depth_changes E f))"
      "s1 = s\<lparr>rg_book := b, rg_applied := rg_applied s + 1,
         rg_first_applied := Some (case rg_first_applied s of None \<Rightarrow> rf_frame_index f | Some i \<Rightarrow> i)\<rparr>"
    let ?live = "live_frames E z fs"
    have lv: "live_frames E n (f # fs) = f # ?live" using l(1,3) by simp
    have ih: "replayed E z fs s1 s'" using Cons.IH [OF s1(2), of z] l by simp
    have cov: "\<exists>g\<in>set (f # ?live). fst (depth_span E g) \<le> i \<and> i \<le> snd (depth_span E g)"
      if "n < i" "i \<le> snd (depth_span E (last (f # ?live)))" for i
    proof (cases "i \<le> z")
      case True
      then show ?thesis using that l(1,2) by auto
    next
      case False
      then show ?thesis using that ih l(1) by (auto simp: replayed_def Let_def split: if_splits)
    qed
    show ?thesis using ih l cov folded_side_Cons [where sel = fst, OF l(7), of ?live] folded_side_Cons [where sel = snd, OF l(8), of ?live]
      unfolding replayed_def lv Let_def by (auto split: option.splits)
  qed
qed

lemma start_replay_book:
  assumes "start_replay E f = Ok (n, b)"
  shows "book_ok E b" "lb_last_update_id b = Some n" "lb_symbol b = rf_symbol f"
proof -
  obtain b0 where b0: "new_book (rf_symbol f) = Ok b0" "load_snapshot E b0 (rf_payload f) = (Ok n, b)"
  proof (cases "new_book (rf_symbol f)")
    case (Inr b0)
    then show thesis using assms that by (cases "load_snapshot E b0 (rf_payload f)") (auto simp: start_replay_def split: sum.splits)
  qed (use assms in \<open>simp add: start_replay_def\<close>)
  show "book_ok E b" using load_snapshot_ok [OF new_book_ok [OF b0(1)], of E "rf_payload f"] b0(2) by simp
  show "lb_last_update_id b = Some n" "lb_symbol b = rf_symbol f"
    using b0 by (auto simp: load_snapshot_def new_book_def check_invariants_def Let_def split: if_splits option.splits sum.splits prod.splits)
qed

text \<open>
  C9. A successful replay is the reference replay: the live frames of the depth log, those newer than all
  before them, are counted as applied and the others as old; the update ids from the snapshot to the final one
  are covered without a hole; and the final book has exactly the levels the live frames leave of the snapshot
  when their changes are applied as updates of two maps, is sorted, uncrossed and fingerprinted accordingly, and
  its digest and best prices are the reported ones.
\<close>

theorem replay_session_is_reference:
  assumes "replay_session E files = Ok r"
  shows "\<exists>snapshot book0 depth live book bid ask. read_raw_log E (files ''snapshot.bnraw'') = Ok [snapshot]
    \<and> start_replay E snapshot = Ok (rs_snapshot_last_update_id r, book0) \<and> read_raw_log E (files ''depth.bnraw'') = Ok depth
    \<and> live = live_frames E (rs_snapshot_last_update_id r) depth \<and> live \<noteq> []
    \<and> rs_applied_records r = length live \<and> rs_old_records r = length depth - length live
    \<and> rs_first_applied_frame_index r = rf_frame_index (hd live) \<and> rs_final_update_id r = snd (depth_span E (last live))
    \<and> (\<forall>i. rs_snapshot_last_update_id r < i \<and> i \<le> rs_final_update_id r \<longrightarrow>
         (\<exists>f\<in>set live. fst (depth_span E f) \<le> i \<and> i \<le> snd (depth_span E f)))
    \<and> book_ok E book \<and> is_live book \<and> map_of (lb_bids book) = folded_side fst E live (lb_bids book0)
    \<and> map_of (lb_asks book) = folded_side snd E live (lb_asks book0)
    \<and> best_bid book = Ok bid \<and> best_ask book = Ok ask \<and> units bid < units ask
    \<and> rs_best_bid r = fd_display bid \<and> rs_best_ask r = fd_display ask \<and> rs_state_sha256 r = state_digest E book"
proof -
  obtain snapshots depth book0 s bid ask where a: "read_raw_log E (files ''snapshot.bnraw'') = Ok snapshots" "length snapshots = 1"
    "read_raw_log E (files ''depth.bnraw'') = Ok depth" "start_replay E (hd snapshots) = Ok (rs_snapshot_last_update_id r, book0)"
    "replay_depth E depth (progress_of book0) = Ok s" "is_live (rg_book s)" "best_bid (rg_book s) = Ok bid" "best_ask (rg_book s) = Ok ask"
    "lb_last_update_id (rg_book s) = Some (rs_final_update_id r)" "rg_first_applied s = Some (rs_first_applied_frame_index r)"
    "rs_applied_records r = rg_applied s" "rs_old_records r = rg_old s" "rs_state_sha256 r = state_digest E (rg_book s)"
    "rs_best_bid r = fd_display bid" "rs_best_ask r = fd_display ask"
    using assms by (auto simp: replay_session_def Let_def is_live_def split: if_splits)
  let ?n = "rs_snapshot_last_update_id r" let ?live = "live_frames E ?n depth"
  note b0 = start_replay_book [OF a(4)]
  have rp: "replayed E ?n depth (progress_of book0) s"
    using replay_depth_replayed [OF a(5)] b0 by (simp add: progress_of_def)
  then have ne: "?live \<noteq> []" using a(10) by (auto simp: replayed_def Let_def progress_of_def)
  have un: "uncrossed (lb_bids (rg_book s)) (lb_asks (rg_book s))" "lb_bids (rg_book s) \<noteq> []" "lb_asks (rg_book s) \<noteq> []"
    using rp a(6-8) by (auto simp: replayed_def Let_def book_ok_def is_live_def accepts_depth_def best_bid_def best_ask_def)
  then have "units bid < units ask" using a(7,8) by (auto simp: best_bid_last best_ask_hd uncrossed_def)
  moreover have "snapshots = [hd snapshots]" using a(2) by (cases snapshots) auto
  ultimately show ?thesis using a rp ne
    by (intro exI [of _ "hd snapshots"] exI [of _ book0] exI [of _ depth] exI [of _ ?live] exI [of _ "rg_book s"] exI [of _ bid] exI [of _ ask])
      (auto simp: replayed_def Let_def progress_of_def)
qed

section \<open>Trade identities\<close>

definition trade_id_of :: "'v externals \<Rightarrow> raw_frame \<Rightarrow> nat" where
  "trade_id_of E f = (case Option.bind (json_from_slice E (rf_payload f)) (\<lambda>v. field_u64 E v ''t'') of None \<Rightarrow> 0 | Some i \<Rightarrow> i)"

fun count_ids :: "nat list \<Rightarrow> trade_ids \<Rightarrow> trade_ids res" where
  "count_ids [] s = Ok s"
| "count_ids (i # ids) s = rbind (count_trade_id i s) (\<lambda>s1. count_ids ids s1)"

lemma trade_value_json: "trade_value E symbol f = Ok v \<Longrightarrow> json_from_slice E (rf_payload f) = Some v"
  by (auto simp: trade_value_def split: if_splits)

lemma identity_loop_counts:
  "identity_loop E symbol fs s = Ok s' \<Longrightarrow> count_ids (map (trade_id_of E) fs) s = Ok s'"
  by (induction fs arbitrary: s) (auto simp: identity_step_def trade_id_of_def dest!: trade_value_json)

definition id_steps :: "nat list \<Rightarrow> (nat \<times> nat) list" where
  "id_steps ids = zip ids (tl ids)"

lemma id_steps_single [simp]: "id_steps [i] = []"
  by (simp add: id_steps_def)

definition counted_as :: "nat list \<Rightarrow> trade_ids \<Rightarrow> bool" where
  "counted_as ids s \<longleftrightarrow> ti_first_id s = Some (hd ids) \<and> ti_previous_id s = Some (last ids)
     \<and> ti_missing_ids s = sum_list (map (\<lambda>(p, t). t - p - 1) (id_steps ids))
     \<and> ti_duplicate_ids s = length (filter (\<lambda>(p, t). t = p) (id_steps ids))
     \<and> ti_out_of_order_ids s = length (filter (\<lambda>(p, t). t < p) (id_steps ids))"

lemma id_steps_snoc: "ids \<noteq> [] \<Longrightarrow> id_steps (ids @ [i]) = id_steps ids @ [(last ids, i)]"
proof (induction ids)
  case (Cons j ids)
  then show ?case by (cases ids) (auto simp: id_steps_def)
qed simp

lemma counted_as_snoc:
  assumes "counted_as ids s" "ids \<noteq> []" "count_trade_id i s = Ok s'"
  shows "counted_as (ids @ [i]) s'"
  using assms by (auto simp: counted_as_def count_trade_id_def id_steps_snoc checked_add_def Let_def split: if_splits)

lemma count_ids_counted:
  "count_ids js s = Ok s' \<Longrightarrow> counted_as ids s \<Longrightarrow> ids \<noteq> [] \<Longrightarrow> counted_as (ids @ js) s'"
proof (induction js arbitrary: s ids)
  case (Cons i js)
  then obtain s1 where "count_trade_id i s = Ok s1" "count_ids js s1 = Ok s'" by auto
  then show ?case using Cons.IH [of s1 "ids @ [i]"] counted_as_snoc Cons.prems by auto
qed simp

lemma count_ids_start:
  assumes "count_ids ids no_trades = Ok s" "ids \<noteq> []"
  shows "counted_as ids s"
proof -
  obtain i js where i: "ids = i # js" using assms(2) by (cases ids) auto
  then obtain s1 where s1: "count_trade_id i no_trades = Ok s1" "count_ids js s1 = Ok s" using assms(1) by auto
  then have "counted_as [i] s1" by (auto simp: counted_as_def count_trade_id_def no_trades_def)
  then show ?thesis using count_ids_counted [OF s1(2)] i by fastforce
qed

lemma consecutive_iff:
  "ids \<noteq> [] \<Longrightarrow> (\<forall>(p, t)\<in>set (id_steps ids). t = Suc p) \<longleftrightarrow> ids = [hd ids ..< hd ids + length ids]"
proof (induction ids rule: rev_nonempty_induct)
  case (snoc i ids)
  have l: "last [hd ids ..< hd ids + length ids] = hd ids + length ids - 1" using snoc.hyps by simp
  have "ids @ [i] = [hd ids ..< hd ids + length ids + 1] \<longleftrightarrow> ids = [hd ids ..< hd ids + length ids] \<and> i = hd ids + length ids"
    by (simp add: upt_Suc)
  moreover have "i = Suc (last ids) \<longleftrightarrow> i = hd ids + length ids" if "ids = [hd ids ..< hd ids + length ids]"
    using that l snoc.hyps by (metis Suc_pred' add_gr_0 length_greater_0_conv)
  ultimately show ?case using snoc by (auto simp: id_steps_snoc)
qed simp

lemma contiguous_iff:
  assumes "counted_as ids s" "ids \<noteq> []"
  shows "trade_ids_contiguous s \<longleftrightarrow> ids = [hd ids ..< hd ids + length ids]"
proof -
  have "trade_ids_contiguous s \<longleftrightarrow> (\<forall>(p, t)\<in>set (id_steps ids). t - p - 1 = 0 \<and> t \<noteq> p \<and> \<not> t < p)"
    using assms(1) by (auto simp: counted_as_def trade_ids_contiguous_def sum_list_eq_0_iff filter_empty_conv)
  also have "\<dots> \<longleftrightarrow> (\<forall>(p, t)\<in>set (id_steps ids). t = Suc p)" by (rule ball_cong) auto
  finally show ?thesis using consecutive_iff [OF assms(2)] by simp
qed

text \<open>
  C36. The contiguity verdict of an audit is exact: the session is certified as having contiguous trade ids if
  and only if the ids of the trade log are consecutive numbers in order; and the report counts the missing ids,
  the repeated and the backward steps of that log exactly.
\<close>

theorem audit_contiguity_exact:
  assumes "audit_session E to_vec files = Ok (a, d)"
  shows "\<exists>trades ids. read_raw_log E (files ''trade.bnraw'') = Ok trades \<and> ids = map (trade_id_of E) trades \<and> ids \<noteq> []
    \<and> tr_records (au_trades a) = length ids \<and> counted_as ids (tr_ids (au_trades a))
    \<and> (sh_trade_ids_contiguous (au_health a) \<longleftrightarrow> ids = [hd ids ..< hd ids + length ids])
    \<and> (''TRADE_IDS_CONTIGUOUS'' \<in> set (sh_validity (au_health a)) \<longleftrightarrow> ids = [hd ids ..< hd ids + length ids])"
proof -
  obtain trades symbol where t: "read_raw_log E (files ''trade.bnraw'') = Ok trades"
    "trade_identity_report E trades symbol = Ok (au_trades a)"
    "sh_trade_ids_contiguous (au_health a) = trade_ids_contiguous (tr_ids (au_trades a))"
    "sh_validity (au_health a) = validity_flags (trade_ids_contiguous (tr_ids (au_trades a)))"
    using assms by (auto simp: audit_session_def Let_def split: if_splits)
  have i: "trades \<noteq> []" "identity_loop E symbol trades no_trades = Ok (tr_ids (au_trades a))" "tr_records (au_trades a) = length trades"
    using t(2) by (auto simp: trade_identity_report_def split: if_splits dest!: sym [of _ "au_trades a"])
  have c: "counted_as (map (trade_id_of E) trades) (tr_ids (au_trades a))"
    using count_ids_start [OF identity_loop_counts [OF i(2)]] i(1) by simp
  show ?thesis using t i c contiguous_iff [OF c] by (auto simp: validity_flags_def)
qed

section \<open>Monitor and audit\<close>

lemma monitor_depth_replays:
  "monitor_depth E symbol fs c s = Ok (c', s') \<Longrightarrow> replay_depth E fs s = Ok s' \<and> c' = fold add_clock fs c"
  by (induction fs arbitrary: c s) (auto split: if_splits)

lemma tally_loop_identities:
  assumes "tally_loop E symbol fs t = Ok t'"
  shows "identity_loop E symbol fs (ta_ids t) = Ok (ta_ids t') \<and> ta_epochs t' = ta_epochs t \<union> rf_connection_epoch ` set fs
    \<and> ta_clock t' = fold add_clock fs (ta_clock t)"
  using assms
proof (induction fs arbitrary: t)
  case (Cons f fs)
  then obtain t1 where t1: "tally_step E symbol f t = Ok t1" "tally_loop E symbol fs t1 = Ok t'" by auto
  have "identity_step E symbol f (ta_ids t) = Ok (ta_ids t1) \<and> ta_epochs t1 = insert (rf_connection_epoch f) (ta_epochs t)
      \<and> ta_clock t1 = add_clock f (ta_clock t)"
    using t1(1) by (auto simp: tally_step_def identity_step_def Let_def split: if_splits)
  then show ?case using Cons.IH [OF t1(2)] by auto
qed simp

lemma top_of_book_best:
  assumes "top_of_book b = Ok t"
  shows "best_bid b = Ok (tl_best_bid t)" "best_ask b = Ok (tl_best_ask t)"
proof -
  have l: "20 \<le> length (lb_bids b)" "20 \<le> length (lb_asks b)" "tl_best_bid t = fst (hd (take 20 (rev (lb_bids b))))"
    "tl_best_ask t = fst (hd (take 20 (lb_asks b)))"
    using assms by (auto simp: top_of_book_def Let_def split: if_splits)
  then have ne: "lb_bids b \<noteq> []" "lb_asks b \<noteq> []" by auto
  show "best_bid b = Ok (tl_best_bid t)" "best_ask b = Ok (tl_best_ask t)"
    using l ne by (simp_all add: best_bid_last best_ask_hd hd_rev)
qed

text \<open>
  C37. The monitor and the audit agree: every session the monitor reports on can be audited, and the two
  reports, computed by separate loops, have the same symbol, lineage, clock summary, health, book summary and trade
  identities.
\<close>

theorem monitor_agrees_with_audit:
  assumes "monitor_session E report_to_vec files = Ok (m, dm)" "\<forall>a. audit_to_vec a \<noteq> None"
  shows "\<exists>a da. audit_session E audit_to_vec files = Ok (a, da) \<and> au_symbol a = mr_symbol m \<and> au_lineage a = mr_lineage m
    \<and> au_clock a = mr_clock m \<and> au_health a = mr_health m \<and> au_book a = mr_book m \<and> au_trades a = tf_identities (mr_trades m)"
proof -
  obtain snapshots n b0 depth c s top trades epochs c1 final_id first_applied spread where
    a: "read_raw_log E (files ''snapshot.bnraw'') = Ok snapshots" "length snapshots = 1"
      "start_replay E (hd snapshots) = Ok (n, b0)" "read_raw_log E (files ''depth.bnraw'') = Ok depth"
      "monitor_depth E (rf_symbol (hd snapshots)) depth (add_clock (hd snapshots) no_clock) (progress_of b0) = Ok (c, s)"
      "lb_state (rg_book s) = Live" "top_of_book (rg_book s) = Ok top"
      "trade_report E (files ''trade.bnraw'') (rf_symbol (hd snapshots)) c = Ok (trades, epochs, c1)"
      "lb_last_update_id (rg_book s) = Some final_id" "rg_first_applied s = Some first_applied"
      "fd_checked_sub (tl_best_ask top) (tl_best_bid top) = Ok spread"
    and m: "mr_symbol m = rf_symbol (hd snapshots)" "mr_clock m = c1" "mr_trades m = trades"
      "mr_lineage m = \<lparr>sl_snapshot_connection_epoch = rf_connection_epoch (hd snapshots),
         sl_depth_connection_epochs = rf_connection_epoch ` set depth, sl_trade_connection_epochs = epochs\<rparr>"
      "mr_health m = \<lparr>sh_raw_integrity = ''PASS'', sh_book_state = ''LIVE'', sh_snapshot_last_update_id = n,
         sh_final_update_id = final_id, sh_depth_records = length depth, sh_applied_depth_records = rg_applied s,
         sh_old_depth_records = rg_old s, sh_first_applied_frame_index = first_applied,
         sh_trade_ids_contiguous = trade_ids_contiguous (tr_ids (tf_identities trades)),
         sh_validity = validity_flags (trade_ids_contiguous (tr_ids (tf_identities trades)))\<rparr>"
      "mr_book m = \<lparr>bs_bid_levels = length (lb_bids (rg_book s)), bs_ask_levels = length (lb_asks (rg_book s)),
         bs_best_bid = fd_display (tl_best_bid top), bs_best_ask = fd_display (tl_best_ask top),
         bs_spread = fd_display spread, bs_state_sha256 = state_digest E (rg_book s)\<rparr>"
    using assms(1) by (auto simp: monitor_session_def Let_def split: if_splits)
  note d = monitor_depth_replays [OF a(5)] and top = top_of_book_best [OF a(7)]
  have rp: "\<exists>r. replay_session E files = Ok r \<and> rs_state r = ''LIVE'' \<and> rs_snapshot_last_update_id r = n \<and> rs_final_update_id r = final_id
      \<and> rs_depth_records r = length depth \<and> rs_applied_records r = rg_applied s \<and> rs_old_records r = rg_old s
      \<and> rs_first_applied_frame_index r = first_applied \<and> rs_bid_levels r = length (lb_bids (rg_book s))
      \<and> rs_ask_levels r = length (lb_asks (rg_book s)) \<and> rs_best_bid r = fd_display (tl_best_bid top)
      \<and> rs_best_ask r = fd_display (tl_best_ask top) \<and> rs_spread r = fd_display spread \<and> rs_state_sha256 r = state_digest E (rg_book s)"
    using a d top by (simp add: replay_session_def Let_def)
  obtain frames t where t: "read_raw_log E (files ''trade.bnraw'') = Ok frames" "frames \<noteq> []"
    "tally_loop E (rf_symbol (hd snapshots)) frames \<lparr>ta_ids = no_trades, ta_epochs = {}, ta_clock = c, ta_buyer_count = 0,
       ta_seller_count = 0, ta_buyer_quantities = [], ta_seller_quantities = []\<rparr> = Ok t"
    "tf_identities trades = \<lparr>tr_records = length frames, tr_ids = ta_ids t\<rparr>" "epochs = ta_epochs t" "c1 = ta_clock t"
    using a(8) by (auto simp: trade_report_def split: if_splits)
  note q = tally_loop_identities [OF t(3)]
  have id: "trade_identity_report E frames (rf_symbol (hd snapshots)) = Ok (tf_identities trades)"
    using t(2,4) q by (simp add: trade_identity_report_def)
  have "snapshots = [hd snapshots]" using a(2) by (cases snapshots) auto
  then have ck: "fold add_clock (snapshots @ depth @ frames) no_clock = c1"
    using d q t(6) by (metis (no_types, lifting) append_Cons append_Nil comp_apply fold_append fold_simps(2) trade_tally.select_convs(3))
  show ?thesis
    using rp a t id ck q m assms(2) by (auto simp: audit_session_def Let_def)
qed

end
