(* ===== verification/Session_Replay_Witness.thy ===== *)
theory Session_Replay_Witness
  imports Session_Replay_Safety Raw_Log_Witness Order_Book_Witness
begin

text \<open>
  A concrete session: a snapshot with twenty levels on each side, one depth update and one trade, each in a
  raw log of one record.
\<close>

section \<open>The session\<close>

definition sess_frame :: "byte \<Rightarrow> captured_frame" where
  "sess_frame p = demo_frame\<lparr>cf_payload := [p]\<rparr>"

definition sess_levels :: "nat \<Rightarrow> nat \<Rightarrow> jv list" where
  "sess_levels a b = map (\<lambda>n. jlevel (dec_str n) ''1'') [a ..< b]"

definition sess_snapshot :: jv where
  "sess_snapshot = JObj [(''lastUpdateId'', JNum 10), (''bids'', JArr (sess_levels 1 21)), (''asks'', JArr (sess_levels 21 41))]"

definition sess_depth :: jv where
  "sess_depth = JObj [(''e'', JStr ''depthUpdate''), (''s'', JStr ''BTCUSDT''), (''U'', JNum 11), (''u'', JNum 11),
     (''b'', JArr []), (''a'', JArr [])]"

definition sess_trade :: jv where
  "sess_trade = JObj [(''e'', JStr ''trade''), (''s'', JStr ''BTCUSDT''), (''t'', JNum 5), (''q'', JStr ''1''), (''m'', JBool False)]"

definition sess_record :: "byte \<Rightarrow> raw_record" where
  "sess_record p = raw_record_of (table_externals []) ZERO_DIGEST (sess_frame p)"

definition sess_E :: "jv externals" where
  "sess_E = table_externals
     [([1], record_value (sess_record 11)), ([2], record_value (sess_record 12)), ([3], record_value (sess_record 13)),
      ([11], sess_snapshot), ([12], sess_depth), ([13], sess_trade)]"

definition sess_to_vec :: "raw_record \<Rightarrow> bytes option" where
  "sess_to_vec r = (if r = sess_record 11 then Some [1] else if r = sess_record 12 then Some [2]
     else if r = sess_record 13 then Some [3] else None)"

lemma sess_distinct: "sess_record p = sess_record q \<longleftrightarrow> p = q"
proof
  assume "sess_record p = sess_record q"
  then have "bytes_str [p] = bytes_str [q]" by (simp add: sess_record_def raw_record_of_def sess_frame_def)
  then show "p = q" using str_bytes_bytes_str by (metis list.inject)
qed simp

lemma sess_externals_ok: "raw_externals_ok sess_E sess_to_vec"
proof -
  have rj: "record_json sess_E (record_value (sess_record p)) (sess_record p)" for p
    unfolding sess_E_def
    by (rule record_value_json) (simp_all add: sess_record_def raw_record_of_def record_wf_def sess_frame_def demo_frame_def u64_max_def)
  have "json_from_slice sess_E [1] = Some (record_value (sess_record 11))" "json_from_slice sess_E [2] = Some (record_value (sess_record 12))"
    "json_from_slice sess_E [3] = Some (record_value (sess_record 13))" by (simp_all add: sess_E_def)
  then have "serde_round_trip sess_E sess_to_vec"
    using rj by (auto simp: serde_round_trip_def sess_to_vec_def split: if_splits)
  then show ?thesis by (simp add: raw_externals_ok_def sess_E_def pad32_len table_b64)
qed

definition sess_log :: "byte \<Rightarrow> bytes" where
  "sess_log b = MAGIC @ encode_record sess_E [b]"

lemma sess_read:
  assumes "sess_to_vec (sess_record p) = Some [b]"
  shows "read_raw_log sess_E (Some (sess_log b)) = Ok [raw_frame_of (sess_frame p)]"
proof -
  have r: "raw_record_of sess_E ZERO_DIGEST (sess_frame p) = sess_record p"
    unfolding sess_E_def sess_record_def by (rule raw_record_of_table)
  have "raw_chain sess_E sess_to_vec ZERO_DIGEST [] ([] @ [sess_frame p]) ([] @ encode_record sess_E [b]) (sha256_hex sess_E [b])
      (AList.update (frame_key (sess_frame p)) (cf_frame_index (sess_frame p) + 1) [])"
    by (rule raw_chain.chain_snoc [OF raw_chain.chain_nil])
      (use assms r in \<open>simp_all add: frame_wf_def sess_frame_def demo_frame_def u64_max_def expected_next_def MAX_RECORD_BYTES_def\<close>)
  then have c: "raw_chain sess_E sess_to_vec ZERO_DIGEST [] [sess_frame p] (encode_record sess_E [b]) (sha256_hex sess_E [b])
      (AList.update (frame_key (sess_frame p)) (cf_frame_index (sess_frame p) + 1) [])" by simp
  have "length (encode_record sess_E [b]) = 37" by (simp add: length_encode_record sess_E_def pad32_len)
  then have l: "8 + length (encode_record sess_E [b]) \<le> u64_max" by (simp add: u64_max_def)
  obtain envs where "read_raw_records sess_E (Some (MAGIC @ encode_record sess_E [b])) = Ok envs" "envelopes_of 0 [sess_frame p] envs"
    using read_raw_records_chain [OF c sess_externals_ok l] by blast
  then show ?thesis by (simp add: read_raw_log_def sess_log_def envelopes_of_def)
qed

definition sess_files :: session_files where
  "sess_files = [''snapshot.bnraw'' \<mapsto> sess_log 1, ''depth.bnraw'' \<mapsto> sess_log 2, ''trade.bnraw'' \<mapsto> sess_log 3]"

lemma sess_reads:
  "read_raw_log sess_E (sess_files ''snapshot.bnraw'') = Ok [raw_frame_of (sess_frame 11)]"
  "read_raw_log sess_E (sess_files ''depth.bnraw'') = Ok [raw_frame_of (sess_frame 12)]"
  "read_raw_log sess_E (sess_files ''trade.bnraw'') = Ok [raw_frame_of (sess_frame 13)]"
  by (simp_all add: sess_files_def sess_read sess_to_vec_def sess_distinct)

lemma sess_frame_sel [simp]:
  "rf_payload (raw_frame_of (sess_frame p)) = [p]" "rf_symbol (raw_frame_of (sess_frame p)) = ''BTCUSDT''"
  by (simp_all add: raw_frame_of_def sess_frame_def demo_frame_def)

section \<open>The book\<close>

lemma dec_safe: "\<bar>n\<bar> \<le> 100 \<Longrightarrow> valid_decimal (dec n)"
  by (simp add: valid_decimal_def safe_range_def canonical_form_def dec_def MAX_SAFE_COEFFICIENT_def i128_max_def POW10_18_def)

lemma dec_less: "\<bar>m\<bar> \<le> 100 \<Longrightarrow> \<bar>n\<bar> \<le> 100 \<Longrightarrow> fd_less (dec m) (dec n) \<longleftrightarrow> m < n"
  using fd_cmp_units [of "dec m" "dec n"] dec_safe [of m] dec_safe [of n]
  by (simp add: valid_decimal_def fd_less_def dec_def units_def cmp_int_def)

lemma dec_parse: "n \<le> 100 \<Longrightarrow> fd_parse (dec_str n) = Ok (dec (int n))"
  using fd_parse_display [of "dec (int n)"] dec_safe [of "int n"] by (simp add: fd_display_def dec_def)

lemma bt_above:
  assumes "\<forall>a\<in>fst ` set m. lt a k \<and> \<not> lt k a"
  shows "bt_get lt k m = None" "bt_insert lt k v m = m @ [(k, v)]"
  using assms by (induction m) auto

definition sess_side :: "nat \<Rightarrow> nat \<Rightarrow> side" where
  "sess_side a b = map (\<lambda>n. (dec (int n), dec 1)) [a ..< b]"

definition sess_bids :: side where "sess_bids = sess_side 1 21"
definition sess_asks :: side where "sess_asks = sess_side 21 41"

lemma sess_load:
  "c \<le> a \<Longrightarrow> 0 < a \<Longrightarrow> a + k \<le> 100 \<Longrightarrow>
     load_side_loop sess_E side (sess_levels a (a + k)) (sess_side c a) = Ok (sess_side c (a + k))"
proof (induction k arbitrary: a)
  case 0
  then show ?case by (simp add: sess_levels_def)
next
  case (Suc k)
  have lv: "sess_levels a (a + Suc k) = jlevel (dec_str a) ''1'' # sess_levels (Suc a) (Suc a + k)"
    by (simp add: sess_levels_def upt_conv_Cons del: upt_Suc)
  have p: "parse_level sess_E side (jlevel (dec_str a) ''1'') = Ok (dec (int a), dec 1)"
    using Suc.prems by (simp add: parse_level_def jlevel_def sess_E_def dec_parse)
  have up: "\<forall>x\<in>fst ` set (sess_side c a). fd_less x (dec (int a)) \<and> \<not> fd_less (dec (int a)) x"
    using Suc.prems by (auto simp: dec_less sess_side_def)
  have "sess_side c a @ [(dec (int a), dec 1)] = sess_side c (Suc a)" using Suc.prems by (simp add: sess_side_def)
  then show ?case using Suc.IH [of "Suc a"] Suc.prems bt_above [OF up] unfolding lv by (simp add: p)
qed

definition sess_book :: local_order_book where
  "sess_book = \<lparr>lb_symbol = ''BTCUSDT'', lb_state = Syncing, lb_last_update_id = Some 10, lb_bids = sess_bids,
     lb_asks = sess_asks, lb_fingerprint = side_fingerprint sess_E ask_tag sess_asks
       (side_fingerprint sess_E bid_tag sess_bids [0, 0, 0, 0])\<rparr>"

lemma sess_ends: "last sess_bids = (dec 20, dec 1)" "hd sess_asks = (dec 21, dec 1)" "sess_bids \<noteq> []" "sess_asks \<noteq> []"
  by (simp_all add: last_map hd_map sess_bids_def sess_asks_def sess_side_def)

lemma sess_invariants:
  "lb_bids b = sess_bids \<Longrightarrow> lb_asks b = sess_asks \<Longrightarrow> check_invariants b = (Ok (), b)"
  using sess_ends dec_less [of 20 21]
  by (simp add: check_invariants_def best_bid_last best_ask_hd fd_less_def split: sum.splits)

lemma sess_start: "start_replay sess_E (raw_frame_of (sess_frame 11)) = Ok (10, sess_book)"
proof -
  have sd: "sess_side a a = []" for a by (simp add: sess_side_def)
  have l: "load_side sess_E (Some (sess_levels 1 21)) ''bid'' = Ok sess_bids"
    "load_side sess_E (Some (sess_levels 21 41)) ''ask'' = Ok sess_asks"
    using sess_load [of 1 1 20 "''bid''"] sess_load [of 21 21 20 "''ask''"] sess_ends
    by (simp_all add: load_side_def sess_bids_def sess_asks_def sd)
  have f: "json_from_slice sess_E [11] = Some sess_snapshot" "required_u64 sess_E sess_snapshot ''lastUpdateId'' = Ok 10"
    "field_array sess_E sess_snapshot ''bids'' = Some (sess_levels 1 21)" "field_array sess_E sess_snapshot ''asks'' = Some (sess_levels 21 41)"
    by (simp_all add: sess_E_def sess_snapshot_def field_u64_def field_array_def u64_max_def)
  have lb: "load_side sess_E (field_array sess_E sess_snapshot ''bids'') ''bid'' = Ok sess_bids"
    "load_side sess_E (field_array sess_E sess_snapshot ''asks'') ''ask'' = Ok sess_asks"
    unfolding f(3,4) by (rule l)+
  have "check_invariants sess_book = (Ok (), sess_book)" by (rule sess_invariants) (simp_all add: sess_book_def)
  then have "load_snapshot sess_E \<lparr>lb_symbol = ''BTCUSDT'', lb_state = Empty, lb_last_update_id = None, lb_bids = [], lb_asks = [],
      lb_fingerprint = [0, 0, 0, 0]\<rparr> [11] = (Ok 10, sess_book)"
    by (simp add: load_snapshot_def f(1,2) lb Let_def sess_book_def)
  then show ?thesis by (simp add: start_replay_def new_book_def)
qed

definition sess_final :: local_order_book where
  "sess_final = sess_book\<lparr>lb_last_update_id := Some 11, lb_state := Live\<rparr>"

lemma sess_replay:
  "replay_frame sess_E (raw_frame_of (sess_frame 12)) (progress_of sess_book)
    = Ok \<lparr>rg_book = sess_final, rg_applied = 1, rg_old = 0, rg_first_applied = Some 0\<rparr>"
proof -
  have ids: "depth_ids sess_E sess_book sess_depth = Ok (11, 11, 11)"
    by (simp add: depth_ids_def sess_E_def sess_depth_def sess_book_def accepts_depth_def expected_update_def field_str_def field_u64_def
        required_str_def required_u64_def u64_max_def checked_add_def)
  have lev: "depth_levels sess_E sess_depth = Ok ([], [])"
    by (simp add: depth_levels_def sess_E_def sess_depth_def field_array_def)
  have pr: "apply_prepared_depth sess_E sess_book (PreparedApply 11 11 [] []) = (Ok Applied, sess_final)"
    using sess_invariants [of sess_final]
    by (simp add: apply_prepared_depth_def sess_book_def sess_final_def accepts_depth_def expected_update_def checked_add_def u64_max_def
)
  have "apply_depth_value sess_E sess_book sess_depth = (Ok Applied, sess_final)"
    by (simp add: apply_depth_value_def prepare_depth_value_def ids lev pr)
  moreover have "json_from_slice sess_E [12] = Some sess_depth" by (simp add: sess_E_def)
  ultimately show ?thesis
    by (simp add: replay_frame_def apply_depth_def progress_of_def raw_frame_of_def sess_frame_def demo_frame_def)
qed

section \<open>Sums\<close>

lemma dec_sums:
  "\<bar>m\<bar> \<le> 100 \<Longrightarrow> \<bar>n\<bar> \<le> 100 \<Longrightarrow> fd_checked_add (dec m) (dec n) = Ok (dec (m + n))"
  "\<bar>m\<bar> \<le> 100 \<Longrightarrow> \<bar>n\<bar> \<le> 100 \<Longrightarrow> fd_checked_sub (dec m) (dec n) = Ok (dec (m - n))"
  by (auto simp: fd_checked_add_def fd_checked_sub_def aligned_def Let_def dec_def pow10_i128_def mul_i128_def in_i128_def
      i128_max_def i128_min_def canonical_def)

lemma dec_ratio: "\<bar>m\<bar> \<le> 100 \<Longrightarrow> 0 < n \<Longrightarrow> n \<le> 100 \<Longrightarrow> \<bar>m\<bar> \<le> n \<Longrightarrow> \<exists>r. ratio_ppm (dec m) (dec n) = Ok r"
proof -
  assume a: "\<bar>m\<bar> \<le> 100" "0 < n" "n \<le> 100" "\<bar>m\<bar> \<le> n"
  have "\<bar>m * 1000000\<bar> div n \<le> \<bar>m * 1000000\<bar>" using a(2) zdiv_mono2 [of "\<bar>m * 1000000\<bar>" 1 n] by simp
  moreover have "0 \<le> \<bar>m * 1000000\<bar> div n" using a(2) by (simp add: pos_imp_zdiv_nonneg_iff)
  ultimately have "\<bar>trunc_div (m * 1000000) n\<bar> \<le> 100000000" using a by (auto simp: trunc_div_def abs_mult)
  then show ?thesis using a
    by (auto simp: ratio_ppm_def dec_def pow10_i128_def mul_i128_def in_i128_def i128_max_def i128_min_def checked_mul_i128_def
        PPM_SCALE_def i64_min_def i64_max_def Let_def)
qed

lemma ones_sum: "0 \<le> k \<Longrightarrow> k + int n \<le> 100 \<Longrightarrow> sum_from (dec k) (replicate n (dec 1)) = Ok (dec (k + int n))"
  by (induction n arbitrary: k) (auto simp: dec_sums algebra_simps)

lemma ones_total: "n \<le> 100 \<Longrightarrow> sum_decimals (replicate n (dec 1)) = Ok (dec (int n))"
  using ones_sum [of 0 n] by (simp add: sum_decimals_def dec_def)

lemma dec_imbalance: "0 \<le> m \<Longrightarrow> 0 \<le> n \<Longrightarrow> 0 < m + n \<Longrightarrow> m + n \<le> 100 \<Longrightarrow> \<exists>r. imbalance_ppm (dec m) (dec n) = Ok r"
  using dec_ratio [of "m - n" "m + n"] by (simp add: imbalance_ppm_def dec_sums)

lemma side_ones: "map snd (sess_side a b) = replicate (b - a) (dec 1)"
  by (simp add: sess_side_def map_replicate_const comp_def)

lemma sess_ones: "map snd sess_bids = replicate 20 (dec 1)" "map snd sess_asks = replicate 20 (dec 1)"
  using side_ones [of 1 21] side_ones [of 21 41] by (simp_all add: sess_bids_def sess_asks_def)

lemma sess_quantities:
  "map snd (take k (rev sess_bids)) = replicate (min k 20) (dec 1)" "map snd (take k sess_asks) = replicate (min k 20) (dec 1)"
  "map snd (rev sess_bids) = replicate 20 (dec 1)"
  by (simp_all only: take_map [symmetric] rev_map [symmetric] sess_ones rev_replicate take_replicate)

lemma sess_lengths: "length sess_bids = 20" "length sess_asks = 20"
  by (simp_all add: sess_bids_def sess_asks_def sess_side_def)

definition sess_top :: top_levels where
  "sess_top = \<lparr>tl_best_bid = dec 20, tl_best_ask = dec 21, tl_bid_qty = dec 1, tl_ask_qty = dec 1, tl_bid_5 = dec 5, tl_ask_5 = dec 5,
     tl_bid_20 = dec 20, tl_ask_20 = dec 20\<rparr>"

lemma sess_top_of_book: "top_of_book sess_final = Ok sess_top"
proof -
  have h: "hd (take 20 (rev sess_bids)) = (dec 20, dec 1)" "hd (take 20 sess_asks) = (dec 21, dec 1)"
    "hd (rev sess_bids) = (dec 20, dec 1)" "hd sess_asks = (dec 21, dec 1)"
    using sess_ends sess_lengths by (simp_all add: hd_rev)
  have s: "take 5 (take 20 (rev sess_bids)) = take 5 (rev sess_bids)" "take 5 (take 20 sess_asks) = take 5 sess_asks"
    by (simp_all add: min_def)
  show ?thesis
    unfolding top_of_book_def Let_def sess_final_def sess_book_def
    using sess_lengths ones_total [of 5] ones_total [of 20] sess_quantities
    by (simp add: h s sess_top_def sess_ones)
qed

lemma sess_liquidity: "\<exists>q. liquidity_of sess_top = Ok q"
  using dec_imbalance [of 1 1] dec_imbalance [of 5 5] dec_imbalance [of 20 20] dec_ratio [of 1 2] dec_sums(1) [of 1 1]
  by (auto simp: liquidity_of_def sess_top_def)

lemma sess_trade_value: "trade_value sess_E ''BTCUSDT'' (raw_frame_of (sess_frame 13)) = Ok sess_trade"
  by (simp add: trade_value_def sess_E_def sess_trade_def field_str_def required_str_def)

lemma sess_trade_fields: "required_u64 sess_E sess_trade ''t'' = Ok 5" "required_str sess_E sess_trade ''q'' = Ok ''1''"
  "field_bool sess_E sess_trade ''m'' = Some False"
  by (simp_all add: sess_E_def sess_trade_def field_str_def field_u64_def field_bool_def u64_max_def)

definition sess_ids :: trade_ids where
  "sess_ids = no_trades\<lparr>ti_first_id := Some 5, ti_previous_id := Some 5\<rparr>"

lemma sess_count: "count_trade_id 5 no_trades = Ok sess_ids"
  by (simp add: count_trade_id_def no_trades_def sess_ids_def)

lemma sess_trades: "\<exists>t epochs c'. trade_report sess_E (sess_files ''trade.bnraw'') ''BTCUSDT'' c = Ok (t, epochs, c')"
proof -
  have z: "sum_decimals [] = Ok (dec 0)" "sum_decimals [dec 1] = Ok (dec 1)"
    using ones_total [of 0] ones_total [of 1] by simp_all
  show ?thesis
    using dec_imbalance [of 1 0]
    by (auto simp: trade_report_def sess_reads tally_step_def sess_trade_value sess_trade_fields sess_count z Let_def)
qed

lemma sess_monitor: "\<exists>m. monitor_session sess_E (\<lambda>_. Some []) sess_files = Ok m"
proof -
  obtain t epochs c' where t: "trade_report sess_E (sess_files ''trade.bnraw'') ''BTCUSDT''
      (add_clock (raw_frame_of (sess_frame 12)) (add_clock (raw_frame_of (sess_frame 11)) no_clock)) = Ok (t, epochs, c')"
    using sess_trades by blast
  obtain q where "liquidity_of sess_top = Ok q" using sess_liquidity by blast
  moreover have "fd_checked_sub (tl_best_ask sess_top) (tl_best_bid sess_top) = Ok (dec 1)"
    using dec_sums(2) [of 21 20] by (simp add: sess_top_def)
  moreover have "lb_state sess_final = Live" "lb_last_update_id sess_final = Some 11" by (simp_all add: sess_final_def)
  ultimately show ?thesis using t
    by (simp add: monitor_session_def sess_reads sess_start sess_replay sess_top_of_book Let_def)
qed

text \<open>Witness: the session that was monitored can be audited, with the same book.\<close>

theorem monitor_agrees_with_audit_witness:
  "\<exists>m dm a da. monitor_session sess_E (\<lambda>_. Some []) sess_files = Ok (m, dm) \<and> audit_session sess_E (\<lambda>_. Some []) sess_files = Ok (a, da)
    \<and> au_health a = mr_health m \<and> au_book a = mr_book m"
proof -
  obtain m dm where m: "monitor_session sess_E (\<lambda>_. Some []) sess_files = Ok (m, dm)" using sess_monitor by auto
  show ?thesis using m monitor_agrees_with_audit [OF m, of "\<lambda>_. Some []"] by auto
qed

lemma sess_replayed: "\<exists>r. replay_session sess_E sess_files = Ok r \<and> rs_snapshot_last_update_id r = 10"
proof -
  have "fd_checked_sub (dec 21) (dec 20) = Ok (dec 1)" using dec_sums(2) [of 21 20] by simp
  moreover have "lb_state sess_final = Live" "lb_last_update_id sess_final = Some 11" by (simp_all add: sess_final_def)
  moreover have "best_bid sess_final = Ok (dec 20)" "best_ask sess_final = Ok (dec 21)"
    using top_of_book_best [OF sess_top_of_book] by (simp_all add: sess_top_def)
  ultimately show ?thesis by (simp add: replay_session_def sess_reads sess_start sess_replay Let_def)
qed

text \<open>Witness: one live frame, from update id 10 to 11.\<close>

theorem replay_session_is_reference_witness:
  "\<exists>r. replay_session sess_E sess_files = Ok r \<and> rs_applied_records r = 1 \<and> rs_final_update_id r = 11"
proof -
  obtain r where r: "replay_session sess_E sess_files = Ok r" "rs_snapshot_last_update_id r = 10" using sess_replayed by blast
  have "depth_span sess_E (raw_frame_of (sess_frame 12)) = (11, 11)"
    by (simp add: depth_span_def sess_E_def sess_depth_def field_u64_def u64_max_def)
  then show ?thesis using replay_session_is_reference [OF r(1)] r sess_reads(2) by auto
qed

lemma sess_audited: "\<exists>a d. audit_session sess_E (\<lambda>_. Some []) sess_files = Ok (a, d)"
proof -
  obtain r where r: "replay_session sess_E sess_files = Ok r" using sess_replayed by blast
  have "trade_identity_report sess_E [raw_frame_of (sess_frame 13)] ''BTCUSDT'' = Ok \<lparr>tr_records = 1, tr_ids = sess_ids\<rparr>"
    by (simp add: trade_identity_report_def identity_step_def sess_trade_value sess_trade_fields sess_count)
  then show ?thesis by (simp add: audit_session_def sess_reads r Let_def)
qed

text \<open>Witness: one trade is contiguous.\<close>

theorem audit_contiguity_exact_witness:
  "\<exists>a d. audit_session sess_E (\<lambda>_. Some []) sess_files = Ok (a, d) \<and> ''TRADE_IDS_CONTIGUOUS'' \<in> set (sh_validity (au_health a))"
proof -
  obtain a d where a: "audit_session sess_E (\<lambda>_. Some []) sess_files = Ok (a, d)" using sess_audited by blast
  show ?thesis using audit_contiguity_exact [OF a] a sess_reads(3) by auto
qed

end
