(* ===== verification/Observations.thy ===== *)
theory Observations
  imports Order_Book Raw_Log_Reader Boundary "HOL-Library.Sublist"
begin

text \<open>
  \<open>src/rust/lob-replay/src/observations.rs\<close>: neutral observations of a raw log. A depth record becomes the
  digest of the book it leaves, a trade record the digest of its canonical fields. Whole logs and windows of
  records are materialised, a cursor materialises one record at a time, and the search for the latest depth
  convergence of two windows compares the incremental fingerprints of the two books and hashes only the
  books of a candidate. The bytes \<open>serde_json::to_vec\<close> gives the digest materials are parameters; a path is its
  display string beside the content of the file.
\<close>

section \<open>Payloads\<close>

definition strict_object :: "'v externals \<Rightarrow> bytes \<Rightarrow> string \<Rightarrow> 'v res" where
  "strict_object E payload label =
     rbind (ok_or (FailS ''payload is not valid JSON'' [label]) (json_from_slice E payload)) (\<lambda>v.
     if \<not> json_is_object E v then Err (FailS ''payload root must be object'' [label]) else Ok v)"

definition obs_field_u64 :: "'v externals \<Rightarrow> 'v \<Rightarrow> string \<Rightarrow> nat res" where
  "obs_field_u64 E v f = ok_or (FailS ''invalid non-negative integer field'' [f]) (field_u64 E v f)"

definition obs_field_bool :: "'v externals \<Rightarrow> 'v \<Rightarrow> string \<Rightarrow> bool res" where
  "obs_field_bool E v f = ok_or (FailS ''invalid boolean field'' [f]) (field_bool E v f)"

text \<open>\<open>str::contains\<close> and \<open>str::ends_with\<close>.\<close>

definition str_contains :: "string \<Rightarrow> string \<Rightarrow> bool" where
  "str_contains s t = sublist t s"

definition str_ends_with :: "string \<Rightarrow> string \<Rightarrow> bool" where
  "str_ends_with s t = suffix t s"

type_synonym identity3 = "string \<times> string \<times> string"

definition frame_identity :: "raw_record_envelope \<Rightarrow> identity3" where
  "frame_identity r = (rf_symbol (re_frame r), rf_stream (re_frame r), rf_connection_epoch (re_frame r))"

definition identity :: "raw_record_envelope list \<Rightarrow> identity3 res" where
  "identity records =
     (case records of
        [] \<Rightarrow> Err (Fail ''raw source has no records'')
      | first # _ \<Rightarrow>
          if list_ex (\<lambda>r. frame_identity r \<noteq> frame_identity first) records
          then Err (Fail ''raw source mixes symbol/stream/epoch identity'')
          else Ok (frame_identity first))"

fun require_contiguous_frames :: "raw_record_envelope list \<Rightarrow> unit res" where
  "require_contiguous_frames (r0 # r1 # rs) =
     rbind (ok_or (Fail ''raw frame index overflow'') (checked_add (rf_frame_index (re_frame r0)) 1)) (\<lambda>next.
     if rf_frame_index (re_frame r1) \<noteq> next
     then Err (Fail ''raw observation window has a frame gap or duplicate'')
     else require_contiguous_frames (r1 # rs))"
| "require_contiguous_frames _ = Ok ()"

definition depth_event_ids :: "'v externals \<Rightarrow> bytes \<Rightarrow> (nat \<times> nat) res" where
  "depth_event_ids E payload =
     rbind (strict_object E payload ''depth'') (\<lambda>v.
     if field_str E v ''e'' \<noteq> Some ''depthUpdate'' then Err (Fail ''unexpected depth event type'')
     else rbind (obs_field_u64 E v ''U'') (\<lambda>first. rbind (obs_field_u64 E v ''u'') (\<lambda>final. Ok (first, final))))"

definition server_shutdown_payload :: "'v externals \<Rightarrow> bytes \<Rightarrow> bool res" where
  "server_shutdown_payload E payload =
     rbind (strict_object E payload ''serverShutdown/control'') (\<lambda>v.
     if field_str E v ''e'' \<noteq> Some ''serverShutdown'' then Ok False
     else rbind (obs_field_u64 E v ''E'') (\<lambda>_. Ok True))"

section \<open>Trades\<close>

record canonical_trade_event =
  ct_best_match :: bool
  ct_buyer_is_maker :: bool
  ct_price :: string
  ct_quantity :: string
  ct_schema :: string
  ct_symbol :: string
  ct_trade_id :: nat
  ct_trade_time :: nat

type_synonym trade_to_vec = "canonical_trade_event \<Rightarrow> bytes option"

definition trade_observation_digest_value :: "'v externals \<Rightarrow> trade_to_vec \<Rightarrow> 'v \<Rightarrow> string \<Rightarrow> (nat \<times> string) res" where
  "trade_observation_digest_value E tv v symbol =
     (if field_str E v ''e'' \<noteq> Some ''trade'' \<or> field_str E v ''s'' \<noteq> Some symbol
      then Err (Fail ''unexpected trade event type or symbol'')
      else
        rbind (obs_field_u64 E v ''t'') (\<lambda>trade_id.
        rbind (obs_field_u64 E v ''E'') (\<lambda>_.
        rbind (obs_field_u64 E v ''T'') (\<lambda>trade_time.
        rbind (ok_or (Fail ''trade price must be a string'') (field_str E v ''p'')) (\<lambda>raw_price.
        rbind (ok_or (Fail ''trade quantity must be a string'') (field_str E v ''q'')) (\<lambda>raw_quantity.
        rbind (fd_parse raw_price) (\<lambda>price.
        rbind (fd_parse raw_quantity) (\<lambda>quantity.
        if is_zero price \<or> is_negative price \<or> is_zero quantity \<or> is_negative quantity
        then Err (Fail ''trade price/quantity must be positive'')
        else
          rbind (obs_field_bool E v ''M'') (\<lambda>best_match.
          rbind (obs_field_bool E v ''m'') (\<lambda>buyer_is_maker.
          rbind (ok_or (Fail ''serialize canonical trade event'')
                   (tv \<lparr>ct_best_match = best_match, ct_buyer_is_maker = buyer_is_maker, ct_price = fd_display price,
                        ct_quantity = fd_display quantity, ct_schema = ''CanonicalTradeEventV1'', ct_symbol = symbol,
                        ct_trade_id = trade_id, ct_trade_time = trade_time\<rparr>)) (\<lambda>encoded.
          Ok (trade_id, sha256_hex E encoded))))))))))))"

definition trade_observation_digest :: "'v externals \<Rightarrow> trade_to_vec \<Rightarrow> bytes \<Rightarrow> string \<Rightarrow> (nat \<times> string) res" where
  "trade_observation_digest E tv payload symbol =
     rbind (strict_object E payload ''trade'') (\<lambda>v. trade_observation_digest_value E tv v symbol)"

definition validated_trade_id :: "'v externals \<Rightarrow> trade_to_vec \<Rightarrow> 'v \<Rightarrow> string \<Rightarrow> nat res" where
  "validated_trade_id E tv v symbol = rbind (trade_observation_digest_value E tv v symbol) (\<lambda>(trade_id, _). Ok trade_id)"

definition trade_observation :: "identity3 \<Rightarrow> raw_record_envelope \<Rightarrow> nat \<Rightarrow> string \<Rightarrow> canonical_observation" where
  "trade_observation i r trade_id event_digest =
     \<lparr>co_symbol = fst i, co_stream_kind = Trade, co_stream = fst (snd i), co_connection_epoch = snd (snd i),
      co_frame_index = rf_frame_index (re_frame r), co_first_sequence = trade_id, co_final_sequence = trade_id,
      co_record_sha256 = re_record_sha256 r, co_observation_sha256 = event_digest\<rparr>"

definition materialize_trade_record :: "'v externals \<Rightarrow> trade_to_vec \<Rightarrow> raw_record_envelope \<Rightarrow> canonical_observation res" where
  "materialize_trade_record E tv r =
     (if \<not> in_scope (rf_symbol (re_frame r)) \<or> \<not> str_ends_with (rf_stream (re_frame r)) ''@trade''
      then Err (Fail ''trade record identity outside canonical scope'')
      else rbind (trade_observation_digest E tv (rf_payload (re_frame r)) (rf_symbol (re_frame r))) (\<lambda>(trade_id, digest).
        Ok (trade_observation (frame_identity r) r trade_id digest)))"

text \<open>The trade of one record against the previous trade id, in both trade loops.\<close>

definition next_trade ::
  "'v externals \<Rightarrow> trade_to_vec \<Rightarrow> identity3 \<Rightarrow> nat option \<Rightarrow> raw_record_envelope \<Rightarrow> (nat \<times> canonical_observation) res" where
  "next_trade E tv i previous r =
     rbind (trade_observation_digest E tv (rf_payload (re_frame r)) (fst i)) (\<lambda>(trade_id, digest).
     if (case previous of None \<Rightarrow> False | Some p \<Rightarrow> trade_id \<le> p)
     then Err (Fail ''trade ID duplicated or regressed'')
     else Ok (trade_id, trade_observation i r trade_id digest))"

fun trade_window_loop ::
  "'v externals \<Rightarrow> trade_to_vec \<Rightarrow> identity3 \<Rightarrow> nat option \<Rightarrow> raw_record_envelope list \<Rightarrow> canonical_observation list res" where
  "trade_window_loop E tv i previous [] = Ok []"
| "trade_window_loop E tv i previous (r # rs) =
     rbind (server_shutdown_payload E (rf_payload (re_frame r))) (\<lambda>down.
     if down then trade_window_loop E tv i previous rs
     else rbind (next_trade E tv i previous r) (\<lambda>(trade_id, x).
       rbind (trade_window_loop E tv i (Some trade_id) rs) (\<lambda>xs. Ok (x # xs))))"

definition materialize_trade_record_window ::
  "'v externals \<Rightarrow> trade_to_vec \<Rightarrow> raw_record_envelope list \<Rightarrow> canonical_observation list res" where
  "materialize_trade_record_window E tv records =
     rbind (identity records) (\<lambda>i.
     rbind (require_contiguous_frames records) (\<lambda>_.
     if \<not> in_scope (fst i) \<or> \<not> str_ends_with (fst (snd i)) ''@trade''
     then Err (Fail ''trade window identity outside canonical scope'')
     else trade_window_loop E tv i None records))"

section \<open>The depth cursor\<close>

text \<open>\<open>depth_window_observation\<close>, the literal the cursor and the loops write out.\<close>

definition depth_window_observation ::
  "identity3 \<Rightarrow> raw_record_envelope \<Rightarrow> nat \<Rightarrow> nat \<Rightarrow> string \<Rightarrow> canonical_observation" where
  "depth_window_observation i r first final digest =
     \<lparr>co_symbol = fst i, co_stream_kind = Depth, co_stream = fst (snd i), co_connection_epoch = snd (snd i),
      co_frame_index = rf_frame_index (re_frame r), co_first_sequence = first, co_final_sequence = final,
      co_record_sha256 = re_record_sha256 r, co_observation_sha256 = digest\<rparr>"

text \<open>\<open>LocalOrderBook::new\<close> followed by \<open>load_snapshot\<close>.\<close>

definition open_book :: "'v externals \<Rightarrow> string \<Rightarrow> raw_record_envelope \<Rightarrow> (nat \<times> local_order_book) res" where
  "open_book E symbol snapshot =
     rbind (new_book symbol) (\<lambda>b.
     case load_snapshot E b (rf_payload (re_frame snapshot)) of
       (Inl e, _) \<Rightarrow> Err e
     | (Inr n, b1) \<Rightarrow> Ok (n, b1))"

record depth_cursor =
  dc_symbol :: string
  dc_stream :: string
  dc_connection_epoch :: string
  dc_book :: local_order_book
  dc_live_started :: bool

definition cursor_from_snapshot :: "'v externals \<Rightarrow> raw_record_envelope \<Rightarrow> raw_record_envelope \<Rightarrow> depth_cursor res" where
  "cursor_from_snapshot E snapshot first =
     (if \<not> str_contains (rf_stream (re_frame first)) ''@depth''
         \<or> rf_symbol (re_frame snapshot) \<noteq> rf_symbol (re_frame first)
      then Err (Fail ''depth cursor snapshot/stream identity mismatch'')
      else rbind (open_book E (rf_symbol (re_frame first)) snapshot) (\<lambda>(_, book).
        Ok \<lparr>dc_symbol = rf_symbol (re_frame first), dc_stream = rf_stream (re_frame first),
            dc_connection_epoch = rf_connection_epoch (re_frame first), dc_book = book, dc_live_started = False\<rparr>))"

definition cursor_identity :: "depth_cursor \<Rightarrow> identity3" where
  "cursor_identity c = (dc_symbol c, dc_stream c, dc_connection_epoch c)"

definition cursor_apply_record ::
  "'v externals \<Rightarrow> depth_cursor \<Rightarrow> raw_record_envelope \<Rightarrow> canonical_observation option res \<times> depth_cursor" where
  "cursor_apply_record E c r =
     (let payload = rf_payload (re_frame r) in
      if frame_identity r \<noteq> cursor_identity c then (Err (Fail ''depth cursor record identity mismatch''), c)
      else case server_shutdown_payload E payload of
        Inl e \<Rightarrow> (Err e, c)
      | Inr True \<Rightarrow> (Ok None, c)
      | Inr False \<Rightarrow>
          (case depth_event_ids E payload of
             Inl e \<Rightarrow> (Err e, c)
           | Inr (first, final) \<Rightarrow>
               (case apply_depth E (dc_book c) payload of
                  (Inl e, b) \<Rightarrow> (Err e, c\<lparr>dc_book := b\<rparr>)
                | (Inr Old, b) \<Rightarrow>
                    (if dc_live_started c then Err (Fail ''stale depth record appeared after cursor became LIVE'') else Ok None,
                     c\<lparr>dc_book := b\<rparr>)
                | (Inr Applied, b) \<Rightarrow>
                    (Ok (Some (depth_window_observation (cursor_identity c) r first final (state_digest E b))),
                     c\<lparr>dc_book := b, dc_live_started := True\<rparr>))))"

fun cursor_apply_all ::
  "'v externals \<Rightarrow> depth_cursor \<Rightarrow> raw_record_envelope list \<Rightarrow> (canonical_observation list \<times> depth_cursor) res" where
  "cursor_apply_all E c [] = Ok ([], c)"
| "cursor_apply_all E c (r # rs) =
     (case cursor_apply_record E c r of
        (Inl e, _) \<Rightarrow> Err e
      | (Inr x, c1) \<Rightarrow> rbind (cursor_apply_all E c1 rs) (\<lambda>(xs, c2).
          Ok (case x of None \<Rightarrow> xs | Some y \<Rightarrow> y # xs, c2)))"

text \<open>The loop of \<open>from_durable_prefix\<close> drops the observations.\<close>

definition cursor_from_durable_prefix :: "'v externals \<Rightarrow> bytes option \<Rightarrow> bytes option \<Rightarrow> nat \<Rightarrow> depth_cursor res" where
  "cursor_from_durable_prefix E snapshot_file depth_file durable_through_offset =
     rbind (read_raw_records E snapshot_file) (\<lambda>snapshots.
     if length snapshots \<noteq> 1 then Err (Fail ''depth cursor requires one snapshot'')
     else rbind (read_raw_records_through_offset E depth_file durable_through_offset) (\<lambda>records.
       rbind (identity records) (\<lambda>i.
       if \<not> str_contains (fst (snd i)) ''@depth'' \<or> rf_symbol (re_frame (hd snapshots)) \<noteq> fst i
       then Err (Fail ''depth cursor snapshot/stream identity mismatch'')
       else rbind (cursor_from_snapshot E (hd snapshots) (hd records)) (\<lambda>c.
         rbind (cursor_apply_all E c records) (\<lambda>(_, c1).
         if \<not> dc_live_started c1 then Err (Fail ''depth cursor prefix never reached LIVE observations'')
         else Ok c1)))))"

section \<open>Depth windows\<close>

fun depth_window_loop ::
  "'v externals \<Rightarrow> identity3 \<Rightarrow> local_order_book \<Rightarrow> canonical_observation list \<Rightarrow> raw_record_envelope list
     \<Rightarrow> canonical_observation list res" where
  "depth_window_loop E i book observations [] = Ok observations"
| "depth_window_loop E i book observations (r # rs) =
     rbind (server_shutdown_payload E (rf_payload (re_frame r))) (\<lambda>down.
     if down then depth_window_loop E i book observations rs
     else rbind (depth_event_ids E (rf_payload (re_frame r))) (\<lambda>(first, final).
       case apply_depth E book (rf_payload (re_frame r)) of
         (Inl e, _) \<Rightarrow> Err e
       | (Inr Old, b) \<Rightarrow>
           if observations \<noteq> [] then Err (Fail ''stale depth record appeared after window became LIVE'')
           else depth_window_loop E i b observations rs
       | (Inr Applied, b) \<Rightarrow>
           depth_window_loop E i b (observations @ [depth_window_observation i r first final (state_digest E b)]) rs))"

definition materialize_depth_record_window ::
  "'v externals \<Rightarrow> raw_record_envelope \<Rightarrow> raw_record_envelope list \<Rightarrow> canonical_observation list res" where
  "materialize_depth_record_window E snapshot records =
     rbind (identity records) (\<lambda>i.
     rbind (require_contiguous_frames records) (\<lambda>_.
     if \<not> str_contains (fst (snd i)) ''@depth'' \<or> rf_symbol (re_frame snapshot) \<noteq> fst i
     then Err (Fail ''depth window snapshot/stream identity mismatch'')
     else rbind (open_book E (fst i) snapshot) (\<lambda>(_, book).
       rbind (depth_window_loop E i book [] records) (\<lambda>observations.
       if observations = [] then Err (Fail ''depth window never reached LIVE'') else Ok observations))))"

section \<open>The latest convergence of two windows\<close>

record depth_window_event =
  dw_record_index :: nat
  dw_first_sequence :: nat
  dw_final_sequence :: nat

record applied_depth_window_event =
  aw_event_index :: nat
  aw_first_sequence :: nat
  aw_final_sequence :: nat

record depth_convergence_candidate =
  cc_predecessor :: applied_depth_window_event
  cc_successor :: applied_depth_window_event
  cc_continuation :: depth_window_event

record latest_depth_window_convergence_v1 =
  lc_predecessor_boundary :: canonical_observation
  lc_successor_boundary :: canonical_observation
  lc_successor_continuation :: canonical_observation

fun window_events :: "'v externals \<Rightarrow> nat \<Rightarrow> raw_record_envelope list \<Rightarrow> depth_window_event list res" where
  "window_events E k [] = Ok []"
| "window_events E k (r # rs) =
     rbind (server_shutdown_payload E (rf_payload (re_frame r))) (\<lambda>down.
     if down then window_events E (k + 1) rs
     else rbind (depth_event_ids E (rf_payload (re_frame r))) (\<lambda>(first, final).
       rbind (window_events E (k + 1) rs) (\<lambda>events.
       Ok (\<lparr>dw_record_index = k, dw_first_sequence = first, dw_final_sequence = final\<rparr> # events))))"

definition prepare_depth_window ::
  "'v externals \<Rightarrow> raw_record_envelope \<Rightarrow> raw_record_envelope list \<Rightarrow> (identity3 \<times> depth_window_event list) res" where
  "prepare_depth_window E snapshot records =
     rbind (identity records) (\<lambda>i.
     rbind (require_contiguous_frames records) (\<lambda>_.
     if \<not> str_contains (fst (snd i)) ''@depth'' \<or> rf_symbol (re_frame snapshot) \<noteq> fst i
     then Err (Fail ''depth window snapshot/stream identity mismatch'')
     else rbind (window_events E 0 records) (\<lambda>events. Ok (i, events))))"

text \<open>\<open>records[index]\<close>, which aborts out of range.\<close>

definition record_at :: "raw_record_envelope list \<Rightarrow> nat \<Rightarrow> raw_record_envelope res" where
  "record_at records k = (if k < length records then Ok (records ! k) else Err Panic)"

text \<open>The book and the two counters a window is advanced with.\<close>

record window_lane =
  wl_book :: local_order_book
  wl_next_event :: nat
  wl_live_started :: bool

function advance_depth_window ::
  "'v externals \<Rightarrow> raw_record_envelope list \<Rightarrow> depth_window_event list \<Rightarrow> window_lane
     \<Rightarrow> (applied_depth_window_event option \<times> window_lane) res" where
  "advance_depth_window E records events l =
     (if wl_next_event l < length events
      then
        let event_index = wl_next_event l; event = events ! event_index in
        rbind (record_at records (dw_record_index event)) (\<lambda>r.
        case apply_depth E (wl_book l) (rf_payload (re_frame r)) of
          (Inl e, _) \<Rightarrow> Err e
        | (Inr Old, b) \<Rightarrow>
            if wl_live_started l then Err (Fail ''stale depth record appeared after window became LIVE'')
            else advance_depth_window E records events (l\<lparr>wl_book := b, wl_next_event := event_index + 1\<rparr>)
        | (Inr Applied, b) \<Rightarrow>
            Ok (Some \<lparr>aw_event_index = event_index, aw_first_sequence = dw_first_sequence event,
                      aw_final_sequence = dw_final_sequence event\<rparr>,
                l\<lparr>wl_book := b, wl_next_event := event_index + 1, wl_live_started := True\<rparr>))
      else Ok (None, l))"
  by pat_completeness auto
termination
  by (relation "measure (\<lambda>(E, rs, es, l). length es - wl_next_event l)") auto

declare advance_depth_window.simps [simp del]

fun replay_window_loop ::
  "'v externals \<Rightarrow> raw_record_envelope list \<Rightarrow> local_order_book \<Rightarrow> bool \<Rightarrow> depth_window_event list
     \<Rightarrow> (local_order_book \<times> bool) res" where
  "replay_window_loop E records book live [] = Ok (book, live)"
| "replay_window_loop E records book live (event # events) =
     rbind (record_at records (dw_record_index event)) (\<lambda>r.
     case apply_depth E book (rf_payload (re_frame r)) of
       (Inl e, _) \<Rightarrow> Err e
     | (Inr Old, b) \<Rightarrow>
         if live then Err (Fail ''stale depth record appeared after window became LIVE'')
         else replay_window_loop E records b live events
     | (Inr Applied, b) \<Rightarrow> replay_window_loop E records b True events)"

definition replay_depth_window_through ::
  "'v externals \<Rightarrow> raw_record_envelope \<Rightarrow> raw_record_envelope list \<Rightarrow> depth_window_event list \<Rightarrow> nat \<Rightarrow> local_order_book res" where
  "replay_depth_window_through E snapshot records events through_event =
     rbind (open_book E (rf_symbol (re_frame snapshot)) snapshot) (\<lambda>(_, book).
     rbind (replay_window_loop E records book False (take (through_event + 1) events)) (\<lambda>(b, live).
     if \<not> live then Err (Fail ''depth window never reached LIVE'') else Ok b))"

lemma advance_progress:
  "advance_depth_window E records events l = Ok (x, l') \<Longrightarrow>
     length events - wl_next_event l' + (case x of None \<Rightarrow> 0 | Some _ \<Rightarrow> 1) \<le> length events - wl_next_event l"
proof (induction E records events l rule: advance_depth_window.induct)
  case (1 E records events l)
  show ?case
  proof (cases "wl_next_event l < length events")
    case True
    let ?ev = "events ! wl_next_event l"
    obtain r where r: "record_at records (dw_record_index ?ev) = Ok r"
      using "1.prems" True by (subst (asm) advance_depth_window.simps) (auto simp: Let_def)
    obtain oc b where ap: "apply_depth E (wl_book l) (rf_payload (re_frame r)) = (Ok oc, b)"
      using "1.prems" True r by (subst (asm) advance_depth_window.simps) (auto simp: Let_def split: prod.splits sum.splits)
    show ?thesis
    proof (cases oc)
      case Applied
      then show ?thesis using "1.prems" True r ap
        by (subst (asm) advance_depth_window.simps) (auto simp: Let_def)
    next
      case Old
      then show ?thesis using "1.prems" True r ap "1.IH" [OF True refl refl r ap [symmetric]]
        by (subst (asm) advance_depth_window.simps) (auto simp: Let_def split: if_splits)
    qed
  next
    case False
    then show ?thesis using "1.prems" by (subst (asm) advance_depth_window.simps) auto
  qed
qed

definition lane_work :: "depth_window_event list \<Rightarrow> applied_depth_window_event option \<times> window_lane \<Rightarrow> nat" where
  "lane_work events c = length events - wl_next_event (snd c) + (case fst c of None \<Rightarrow> 0 | Some _ \<Rightarrow> 1)"

type_synonym lane_cursor = "applied_depth_window_event option \<times> window_lane"

text \<open>The test of the \<open>Equal\<close> arm: a candidate when the fingerprints agree and the successor's next event bridges.\<close>

definition equal_candidate ::
  "depth_window_event list \<Rightarrow> local_order_book \<Rightarrow> local_order_book \<Rightarrow> applied_depth_window_event \<Rightarrow> applied_depth_window_event
     \<Rightarrow> depth_convergence_candidate list res" where
  "equal_candidate successor_events predecessor_book successor_book predecessor successor =
     (let k = aw_event_index successor + 1 in
      if same_state_fingerprint predecessor_book successor_book \<and> k < length successor_events
      then
        let continuation = successor_events ! k in
        rbind (ok_or (Fail ''depth boundary sequence overflow'') (checked_add (aw_final_sequence successor) 1)) (\<lambda>next.
        Ok (if dw_first_sequence continuation \<le> next \<and> next \<le> dw_final_sequence continuation
            then [\<lparr>cc_predecessor = predecessor, cc_successor = successor, cc_continuation = continuation\<rparr>] else []))
      else Ok [])"

function merge_depth_windows ::
  "'v externals \<Rightarrow> raw_record_envelope list \<Rightarrow> depth_window_event list \<Rightarrow> raw_record_envelope list \<Rightarrow> depth_window_event list
     \<Rightarrow> lane_cursor \<Rightarrow> lane_cursor \<Rightarrow> depth_convergence_candidate list
     \<Rightarrow> (lane_cursor \<times> lane_cursor \<times> depth_convergence_candidate list) res" where
  "merge_depth_windows E ra ea rb eb ca cb candidates =
     (case (fst ca, fst cb) of
        (Some predecessor, Some successor) \<Rightarrow>
          if aw_final_sequence predecessor < aw_final_sequence successor
          then rbind (advance_depth_window E ra ea (snd ca)) (\<lambda>ca1.
               merge_depth_windows E ra ea rb eb ca1 cb candidates)
          else if aw_final_sequence successor < aw_final_sequence predecessor
          then rbind (advance_depth_window E rb eb (snd cb)) (\<lambda>cb1.
               merge_depth_windows E ra ea rb eb ca cb1 candidates)
          else rbind (equal_candidate eb (wl_book (snd ca)) (wl_book (snd cb)) predecessor successor) (\<lambda>new.
               rbind (advance_depth_window E ra ea (snd ca)) (\<lambda>ca1.
               rbind (advance_depth_window E rb eb (snd cb)) (\<lambda>cb1.
               merge_depth_windows E ra ea rb eb ca1 cb1 (candidates @ new))))
      | _ \<Rightarrow> Ok (ca, cb, candidates))"
  by pat_completeness auto
termination
proof (relation "measure (\<lambda>(E, ra, ea, rb, eb, ca, cb, cs). lane_work ea ca + lane_work eb cb)", goal_cases)
  case 1
  then show ?case by simp
qed (auto simp: lane_work_def dest!: advance_progress split: option.splits)

declare merge_depth_windows.simps [simp del]

function drain_depth_window ::
  "'v externals \<Rightarrow> raw_record_envelope list \<Rightarrow> depth_window_event list \<Rightarrow> lane_cursor \<Rightarrow> lane_cursor res" where
  "drain_depth_window E records events c =
     (if fst c \<noteq> None then rbind (advance_depth_window E records events (snd c)) (\<lambda>c1. drain_depth_window E records events c1)
      else Ok c)"
  by pat_completeness auto
termination
proof (relation "measure (\<lambda>(E, rs, es, c). lane_work es c)", goal_cases)
  case 1
  then show ?case by simp
qed (auto simp: lane_work_def dest!: advance_progress split: option.splits)

declare drain_depth_window.simps [simp del]

text \<open>The loop over the candidates, latest first.\<close>

fun confirm_candidates ::
  "'v externals \<Rightarrow> raw_record_envelope \<Rightarrow> identity3 \<Rightarrow> raw_record_envelope list \<Rightarrow> depth_window_event list \<Rightarrow> identity3
     \<Rightarrow> raw_record_envelope list \<Rightarrow> depth_window_event list \<Rightarrow> depth_convergence_candidate list
     \<Rightarrow> latest_depth_window_convergence_v1 res" where
  "confirm_candidates E snapshot ia ra ea ib rb eb [] = Err (Fail ''no exact depth convergence with documented B continuation'')"
| "confirm_candidates E snapshot ia ra ea ib rb eb (c # cs) =
     (let p = cc_predecessor c; s = cc_successor c; n = cc_continuation c in
      rbind (replay_depth_window_through E snapshot ra ea (aw_event_index p)) (\<lambda>predecessor_book.
      rbind (replay_depth_window_through E snapshot rb eb (aw_event_index s)) (\<lambda>successor_book.
      if \<not> same_state predecessor_book successor_book
      then confirm_candidates E snapshot ia ra ea ib rb eb cs
      else
        let digest = state_digest E predecessor_book in
        rbind (record_at ra (dw_record_index (ea ! aw_event_index p))) (\<lambda>predecessor_record.
        rbind (record_at rb (dw_record_index (eb ! aw_event_index s))) (\<lambda>successor_record.
        rbind (record_at rb (dw_record_index n)) (\<lambda>continuation_record.
        Ok \<lparr>lc_predecessor_boundary =
               depth_window_observation ia predecessor_record (aw_first_sequence p) (aw_final_sequence p) digest,
            lc_successor_boundary =
               depth_window_observation ib successor_record (aw_first_sequence s) (aw_final_sequence s) digest,
            lc_successor_continuation =
               depth_window_observation ib continuation_record (dw_first_sequence n) (dw_final_sequence n) []\<rparr>))))))"

definition latest_depth_window_convergence ::
  "'v externals \<Rightarrow> raw_record_envelope \<Rightarrow> raw_record_envelope list \<Rightarrow> raw_record_envelope list
     \<Rightarrow> latest_depth_window_convergence_v1 res" where
  "latest_depth_window_convergence E snapshot ra rb =
     rbind (prepare_depth_window E snapshot ra) (\<lambda>(ia, ea).
     rbind (prepare_depth_window E snapshot rb) (\<lambda>(ib, eb).
     if fst ia \<noteq> fst ib then Err (Fail ''depth overlap symbols differ'')
     else
       rbind (open_book E (fst ia) snapshot) (\<lambda>(_, predecessor_book).
       rbind (open_book E (fst ib) snapshot) (\<lambda>(_, successor_book).
       rbind (advance_depth_window E ra ea \<lparr>wl_book = predecessor_book, wl_next_event = 0, wl_live_started = False\<rparr>) (\<lambda>ca0.
       rbind (advance_depth_window E rb eb \<lparr>wl_book = successor_book, wl_next_event = 0, wl_live_started = False\<rparr>) (\<lambda>cb0.
       rbind (merge_depth_windows E ra ea rb eb ca0 cb0 []) (\<lambda>(ca, cb, candidates).
       rbind (drain_depth_window E ra ea ca) (\<lambda>_.
       rbind (drain_depth_window E rb eb cb) (\<lambda>_.
       confirm_candidates E snapshot ia ra ea ib rb eb (rev candidates))))))))))"

section \<open>Whole logs\<close>

record observation_materialization =
  om_schema :: string
  om_symbol :: string
  om_stream_kind :: boundary_stream_kind
  om_stream :: string
  om_connection_epoch :: string
  om_raw_path :: string
  om_raw_last_record_sha256 :: string
  om_snapshot_path :: "string option"
  om_snapshot_record_sha256 :: "string option"
  om_snapshot_last_update_id :: "nat option"
  om_raw_records :: nat
  om_skipped_initial_old_records :: nat
  om_observations :: "canonical_observation list"
  om_first_sequence :: nat
  om_final_sequence :: nat
  om_materialization_sha256 :: string

text \<open>The digest items have the fields of the observations.\<close>

record materialization_digest =
  md_observations :: "canonical_observation list"
  md_raw_last_record_sha256 :: string
  md_schema :: string
  md_skipped_initial_old_records :: nat
  md_snapshot_last_update_id :: "nat option"
  md_snapshot_record_sha256 :: "string option"
  md_stream_kind :: boundary_stream_kind

type_synonym digest_to_vec = "materialization_digest \<Rightarrow> bytes option"

definition finalize ::
  "'v externals \<Rightarrow> digest_to_vec \<Rightarrow> string \<Rightarrow> bytes option \<Rightarrow> boundary_stream_kind \<Rightarrow> raw_record_envelope list
     \<Rightarrow> canonical_observation list \<Rightarrow> nat \<Rightarrow> string option \<Rightarrow> string option \<Rightarrow> nat option
     \<Rightarrow> observation_materialization res" where
  "finalize E dv raw_path raw_file kind records observations skipped snapshot_path snapshot_record_sha256 snapshot_last_update_id =
     (if observations = [] then Err (Fail ''materialization produced no observations'')
      else
        rbind (identity records) (\<lambda>(symbol, stream, epoch).
        rbind (scan_raw_log E raw_file) (\<lambda>scan.
        if \<not> sc_clean_eof scan then Err (Fail ''raw source is corrupt/incomplete'')
        else
          rbind (ok_or (Fail ''serialize observation materialization digest'')
            (dv \<lparr>md_observations = observations, md_raw_last_record_sha256 = sc_last_record_sha256 scan,
                 md_schema = ''ObservationMaterializationDigestV1'', md_skipped_initial_old_records = skipped,
                 md_snapshot_last_update_id = snapshot_last_update_id,
                 md_snapshot_record_sha256 = snapshot_record_sha256, md_stream_kind = kind\<rparr>)) (\<lambda>encoded.
          Ok \<lparr>om_schema = ''ObservationMaterializationV1'', om_symbol = symbol, om_stream_kind = kind, om_stream = stream,
              om_connection_epoch = epoch, om_raw_path = raw_path, om_raw_last_record_sha256 = sc_last_record_sha256 scan,
              om_snapshot_path = snapshot_path, om_snapshot_record_sha256 = snapshot_record_sha256,
              om_snapshot_last_update_id = snapshot_last_update_id, om_raw_records = length records,
              om_skipped_initial_old_records = skipped, om_observations = observations,
              om_first_sequence = co_first_sequence (hd observations),
              om_final_sequence = co_final_sequence (last observations),
              om_materialization_sha256 = sha256_hex E encoded\<rparr>))))"

fun depth_log_loop ::
  "'v externals \<Rightarrow> identity3 \<Rightarrow> local_order_book \<Rightarrow> canonical_observation list \<Rightarrow> nat \<Rightarrow> raw_record_envelope list
     \<Rightarrow> (canonical_observation list \<times> nat) res" where
  "depth_log_loop E i book observations skipped [] = Ok (observations, skipped)"
| "depth_log_loop E i book observations skipped (r # rs) =
     rbind (depth_event_ids E (rf_payload (re_frame r))) (\<lambda>(first, final).
     case apply_depth E book (rf_payload (re_frame r)) of
       (Inl e, _) \<Rightarrow> Err e
     | (Inr Old, b) \<Rightarrow>
         if observations \<noteq> [] then Err (Fail ''stale depth record appeared after canonical LIVE observations'')
         else depth_log_loop E i b observations (skipped + 1) rs
     | (Inr Applied, b) \<Rightarrow>
         depth_log_loop E i b (observations @ [depth_window_observation i r first final (state_digest E b)]) skipped rs)"

definition materialize_depth_observations ::
  "'v externals \<Rightarrow> digest_to_vec \<Rightarrow> string \<Rightarrow> bytes option \<Rightarrow> string \<Rightarrow> bytes option \<Rightarrow> observation_materialization res" where
  "materialize_depth_observations E dv snapshot_path snapshot_file depth_path depth_file =
     rbind (read_raw_records E snapshot_file) (\<lambda>snapshots.
     if length snapshots \<noteq> 1 then Err (Fail ''depth materialization requires one snapshot'')
     else rbind (read_raw_records E depth_file) (\<lambda>records.
       rbind (identity records) (\<lambda>i.
       if \<not> str_contains (fst (snd i)) ''@depth'' then Err (Fail ''depth source stream is not a depth stream'')
       else if rf_symbol (re_frame (hd snapshots)) \<noteq> fst i then Err (Fail ''snapshot/depth symbol mismatch'')
       else rbind (open_book E (fst i) (hd snapshots)) (\<lambda>(snapshot_last_update_id, book).
         rbind (depth_log_loop E i book [] 0 records) (\<lambda>(observations, skipped).
         finalize E dv depth_path depth_file Depth records observations skipped (Some snapshot_path)
           (Some (re_record_sha256 (hd snapshots))) (Some snapshot_last_update_id))))))"

fun trade_log_loop ::
  "'v externals \<Rightarrow> trade_to_vec \<Rightarrow> identity3 \<Rightarrow> nat option \<Rightarrow> raw_record_envelope list \<Rightarrow> canonical_observation list res" where
  "trade_log_loop E tv i previous [] = Ok []"
| "trade_log_loop E tv i previous (r # rs) =
     rbind (next_trade E tv i previous r) (\<lambda>(trade_id, x).
     rbind (trade_log_loop E tv i (Some trade_id) rs) (\<lambda>xs. Ok (x # xs)))"

definition materialize_trade_observations ::
  "'v externals \<Rightarrow> trade_to_vec \<Rightarrow> digest_to_vec \<Rightarrow> string \<Rightarrow> bytes option \<Rightarrow> observation_materialization res" where
  "materialize_trade_observations E tv dv trade_path trade_file =
     rbind (read_raw_records E trade_file) (\<lambda>records.
     rbind (identity records) (\<lambda>i.
     if \<not> in_scope (fst i) then Err (Fail ''symbol outside scope'')
     else if \<not> str_ends_with (fst (snd i)) ''@trade'' then Err (Fail ''trade source stream is not an individual trade stream'')
     else rbind (trade_log_loop E tv i None records) (\<lambda>observations.
       finalize E dv trade_path trade_file Trade records observations 0 None None None)))"

end
