(* ===== verification/Canonical_State.thy ===== *)
theory Canonical_State
  imports Order_Book_Correct
begin

text \<open>
  The canonical text of a book determines the book: the rendering over which \<open>state_digest\<close> is taken can be read
  back level by level, so two books with the same text have the same levels, update id and symbol.
\<close>

definition quote :: char where "quote = CHR 0x22"

lemma dec_str_chars: "c \<in> set (dec_str n) \<Longrightarrow> is_ascii_digit c"
  using dec_str_digits [of n] by (simp add: list_all_iff)

lemma fd_display_chars: "c \<in> set (fd_display d) \<Longrightarrow> is_ascii_digit c \<or> c = CHR ''-'' \<or> c = CHR ''.''"
  by (auto simp: fd_display_def Let_def is_ascii_digit_def split: if_splits dest!: in_set_takeD in_set_dropD dec_str_chars)

lemma fd_display_no_quote: "quote \<notin> set (fd_display d)"
  using fd_display_chars [of quote d] by (auto simp: quote_def is_ascii_digit_def)

lemma split_at: "c \<notin> set xs \<Longrightarrow> c \<notin> set ys \<Longrightarrow> xs @ c # r = ys @ c # s \<Longrightarrow> xs = ys \<and> r = s"
proof (induction xs arbitrary: ys)
  case Nil
  then show ?case by (cases ys) auto
next
  case (Cons x xs)
  then show ?case by (cases ys) auto
qed

lemma fd_display_inject: "valid_decimal a \<Longrightarrow> valid_decimal b \<Longrightarrow> fd_display a = fd_display b \<Longrightarrow> a = b"
  using fd_parse_display by (metis sum.inject(2))

lemma canonical_level_inject:
  assumes "valid_decimal p" "valid_decimal q" "valid_decimal p'" "valid_decimal q'"
    and "fd_display p @ ''\",\"'' @ fd_display q @ ''\"]'' @ r = fd_display p' @ ''\",\"'' @ fd_display q' @ ''\"]'' @ r'"
  shows "p = p' \<and> q = q' \<and> r = r'"
proof -
  have "fd_display p @ quote # (CHR '','' # quote # fd_display q @ quote # (CHR '']'' # r))
      = fd_display p' @ quote # (CHR '','' # quote # fd_display q' @ quote # (CHR '']'' # r'))"
    using assms(5) by (simp add: quote_def)
  from split_at [OF fd_display_no_quote fd_display_no_quote this]
  have a: "fd_display p = fd_display p'" "fd_display q @ quote # (CHR '']'' # r) = fd_display q' @ quote # (CHR '']'' # r')" by simp_all
  from split_at [OF fd_display_no_quote fd_display_no_quote a(2)]
  have "fd_display q = fd_display q'" "r = r'" by simp_all
  with a(1) assms(1-4) show ?thesis by (simp add: fd_display_inject)
qed

definition side_decimals :: "side \<Rightarrow> bool" where
  "side_decimals m \<longleftrightarrow> (\<forall>l\<in>set m. valid_decimal (fst l) \<and> valid_decimal (snd l))"

lemma canonical_levels_inject:
  assumes "side_decimals m" "side_decimals m'"
    and "canonical_levels c m @ CHR '']'' # r = canonical_levels c m' @ CHR '']'' # r'"
  shows "m = m' \<and> r = r'"
  using assms
proof (induction m arbitrary: m' c)
  case Nil
  then show ?case by (cases m') (auto split: if_splits)
next
  case (Cons l m)
  obtain p q where l: "l = (p, q)" by (cases l)
  obtain p' q' n where m': "m' = (p', q') # n" using Cons.prems(3) by (cases m') (auto simp: l split: if_splits)
  have v: "valid_decimal p" "valid_decimal q" "valid_decimal p'" "valid_decimal q'" "side_decimals m" "side_decimals n"
    using Cons.prems(1,2) by (simp_all add: l m' side_decimals_def)
  have eq: "fd_display p @ ''\",\"'' @ fd_display q @ ''\"]'' @ (canonical_levels True m @ CHR '']'' # r)
      = fd_display p' @ ''\",\"'' @ fd_display q' @ ''\"]'' @ (canonical_levels True n @ CHR '']'' # r')"
    using Cons.prems(3) by (auto simp: l m' split: if_splits)
  from canonical_level_inject [OF v(1-4) eq] Cons.IH [OF v(5,6), of True] show ?case by (simp add: l m')
qed

lemma side_ok_decimals: "side_ok m \<Longrightarrow> side_decimals m" "side_ok m \<Longrightarrow> side_decimals (rev m)"
  by (auto simp: side_ok_def side_decimals_def level_ok_def)

lemma canonical_state_inject:
  assumes "side_ok (lb_bids a)" "side_ok (lb_asks a)" "side_ok (lb_bids b)" "side_ok (lb_asks b)"
    and "lb_last_update_id a = Some m" "lb_last_update_id b = Some n" "canonical_state a = canonical_state b"
  shows "lb_bids a = lb_bids b \<and> lb_asks a = lb_asks b \<and> m = n \<and> lb_symbol a = lb_symbol b"
proof -
  define rest where "rest x k = '',\"bids\":['' @ canonical_levels False (rev (lb_bids x)) @ CHR '']'' #
      ('',\"last_update_id\":'' @ dec_str k @ '',\"symbol\":\"'' @ lb_symbol x @ ''\"}'')" for x :: local_order_book and k
  have eq: "canonical_levels False (lb_asks a) @ CHR '']'' # rest a m = canonical_levels False (lb_asks b) @ CHR '']'' # rest b n"
    using assms(5-7) by (simp add: canonical_state_def rest_def)
  from canonical_levels_inject [OF side_ok_decimals(1) [OF assms(2)] side_ok_decimals(1) [OF assms(4)] eq]
  have asks: "lb_asks a = lb_asks b" and r: "rest a m = rest b n" by simp_all
  from r have "canonical_levels False (rev (lb_bids a)) @ CHR '']'' # ('',\"last_update_id\":'' @ dec_str m @ '',\"symbol\":\"'' @ lb_symbol a @ ''\"}'')
      = canonical_levels False (rev (lb_bids b)) @ CHR '']'' # ('',\"last_update_id\":'' @ dec_str n @ '',\"symbol\":\"'' @ lb_symbol b @ ''\"}'')"
    by (simp add: rest_def)
  from canonical_levels_inject [OF side_ok_decimals(2) [OF assms(1)] side_ok_decimals(2) [OF assms(3)] this]
  have bids: "lb_bids a = lb_bids b"
    and t: "dec_str m @ CHR '','' # ''\"symbol\":\"'' @ lb_symbol a @ ''\"}'' = dec_str n @ CHR '','' # ''\"symbol\":\"'' @ lb_symbol b @ ''\"}''"
    by simp_all
  have nc: "CHR '','' \<notin> set (dec_str k)" for k using dec_str_chars [of "CHR '',''" k] by (auto simp: is_ascii_digit_def)
  from split_at [OF nc nc t] have "dec_str m = dec_str n" "lb_symbol a = lb_symbol b" by simp_all
  moreover from this(1) have "m = n" by (metis digits_val_dec_str)
  ultimately show ?thesis using asks bids by simp
qed

end
