(* ===== verification/Depth_Convergence.thy ===== *)
theory Depth_Convergence
  imports Observations Canonical_State Session_Replay_Safety Boundary_Selection
begin

text \<open>
  The search for the latest depth convergence against its reference: the windows materialised update by update,
  spliced by their digests. A window is seen as its trace, the applied events with the books they leave, and the
  error that ends it, if any; advancing a lane takes the head of the trace.
\<close>

section \<open>Traces\<close>

type_synonym traced = "applied_depth_window_event \<times> raw_record_envelope \<times> local_order_book"

abbreviation traced_event :: "traced \<Rightarrow> applied_depth_window_event" where "traced_event x \<equiv> fst x"
abbreviation traced_book :: "traced \<Rightarrow> local_order_book" where "traced_book x \<equiv> snd (snd x)"
abbreviation traced_final :: "traced \<Rightarrow> nat" where "traced_final x \<equiv> aw_final_sequence (fst x)"

definition applied_event :: "nat \<Rightarrow> depth_window_event \<Rightarrow> applied_depth_window_event" where
  "applied_event k ev = \<lparr>aw_event_index = k, aw_first_sequence = dw_first_sequence ev, aw_final_sequence = dw_final_sequence ev\<rparr>"

fun window_trace ::
  "'v externals \<Rightarrow> raw_record_envelope list \<Rightarrow> nat \<Rightarrow> bool \<Rightarrow> local_order_book \<Rightarrow> depth_window_event list
     \<Rightarrow> traced list \<times> error option" where
  "window_trace E records k live b [] = ([], None)"
| "window_trace E records k live b (ev # evs) =
     (case record_at records (dw_record_index ev) of
        Inl e \<Rightarrow> ([], Some e)
      | Inr r \<Rightarrow>
          (case apply_depth E b (rf_payload (re_frame r)) of
             (Inl e, _) \<Rightarrow> ([], Some e)
           | (Inr Old, b1) \<Rightarrow>
               if live then ([], Some (Fail ''stale depth record appeared after window became LIVE''))
               else window_trace E records (k + 1) live b1 evs
           | (Inr Applied, b1) \<Rightarrow>
               (case window_trace E records (k + 1) True b1 evs of (ts, e) \<Rightarrow> ((applied_event k ev, r, b1) # ts, e))))"

definition lane_trace ::
  "'v externals \<Rightarrow> raw_record_envelope list \<Rightarrow> depth_window_event list \<Rightarrow> window_lane \<Rightarrow> traced list \<times> error option" where
  "lane_trace E records events l =
     window_trace E records (wl_next_event l) (wl_live_started l) (wl_book l) (drop (wl_next_event l) events)"

text \<open>A cursor stands at a trace: it holds the head and its lane has the rest.\<close>

definition stands_at ::
  "'v externals \<Rightarrow> raw_record_envelope list \<Rightarrow> depth_window_event list \<Rightarrow> lane_cursor \<Rightarrow> traced list \<Rightarrow> error option \<Rightarrow> bool" where
  "stands_at E records events c ts e =
     (case fst c of
        None \<Rightarrow> ts = [] \<and> e = None
      | Some x \<Rightarrow> (\<exists>r rest. ts = (x, r, wl_book (snd c)) # rest \<and> lane_trace E records events (snd c) = (rest, e)))"

lemma advance_trace:
  "lane_trace E records events l = (ts, e) \<Longrightarrow>
     (if ts = [] \<and> e \<noteq> None then advance_depth_window E records events l = Err (the e)
      else \<exists>c. advance_depth_window E records events l = Ok c \<and> stands_at E records events c ts e)"
proof (induction E records events l rule: advance_depth_window.induct)
  case (1 E records events l)
  show ?case
  proof (cases "wl_next_event l < length events")
    case False
    then show ?thesis using "1.prems" by (auto simp: lane_trace_def stands_at_def advance_depth_window.simps [of E records events l])
  next
    case True
    let ?ev = "events ! wl_next_event l"
    have dr: "drop (wl_next_event l) events = ?ev # drop (Suc (wl_next_event l)) events" using True by (rule Cons_nth_drop_Suc [symmetric])
    note tr = "1.prems" [unfolded lane_trace_def dr window_trace.simps]
    show ?thesis
    proof (cases "record_at records (dw_record_index ?ev)")
      case (Inl e')
      then show ?thesis using tr True by (auto simp: advance_depth_window.simps [of E records events l] Let_def)
    next
      case r: (Inr r)
      obtain oc b where ap: "apply_depth E (wl_book l) (rf_payload (re_frame r)) = (oc, b)" by fastforce
      consider (err) e' where "oc = Inl e'" | (old) "oc = Inr Old" | (new) "oc = Inr Applied"
        by (cases oc) (auto intro: apply_outcome.exhaust)
      then show ?thesis
      proof cases
        case err
        then show ?thesis using tr True r ap by (auto simp: advance_depth_window.simps [of E records events l] Let_def)
      next
        case old
        let ?l = "l\<lparr>wl_book := b, wl_next_event := wl_next_event l + 1\<rparr>"
        show ?thesis
        proof (cases "wl_live_started l")
          case True
          then show ?thesis using tr \<open>wl_next_event l < length events\<close> r ap old
            by (auto simp: advance_depth_window.simps [of E records events l] Let_def)
        next
          case False
          have t1: "lane_trace E records events ?l = (ts, e)" using tr r ap old False by (simp add: lane_trace_def)
          have eq: "advance_depth_window E records events l = advance_depth_window E records events ?l"
            using True r ap old False by (simp add: advance_depth_window.simps [of E records events l] Let_def)
          show ?thesis unfolding eq by (rule "1.IH" [OF True refl refl r ap [symmetric] old refl False t1])
        qed
      next
        case new
        obtain ts' where "window_trace E records (wl_next_event l + 1) True b (drop (Suc (wl_next_event l)) events) = (ts', e)"
          and "ts = (applied_event (wl_next_event l) ?ev, r, b) # ts'"
          using tr r ap new by (auto split: prod.splits)
        then show ?thesis using True r ap new
          by (auto simp: advance_depth_window.simps [of E records events l] Let_def stands_at_def lane_trace_def applied_event_def)
      qed
    qed
  qed
qed

lemma drain_trace:
  "stands_at E records events c ts e \<Longrightarrow>
     (case e of None \<Rightarrow> \<exists>c'. drain_depth_window E records events c = Ok c' | Some x \<Rightarrow> drain_depth_window E records events c = Err x)"
proof (induction E records events c arbitrary: ts rule: drain_depth_window.induct)
  case (1 E records events c)
  show ?case
  proof (cases "fst c")
    case None
    then show ?thesis using "1.prems" by (simp add: stands_at_def drain_depth_window.simps [of E records events c])
  next
    case (Some x)
    then obtain rest where rest: "lane_trace E records events (snd c) = (rest, e)" using "1.prems" by (auto simp: stands_at_def)
    show ?thesis
    proof (cases "rest = [] \<and> e \<noteq> None")
      case True
      then show ?thesis using advance_trace [OF rest] Some by (auto simp: drain_depth_window.simps [of E records events c])
    next
      case False
      then obtain c1 where c1: "advance_depth_window E records events (snd c) = Ok c1" "stands_at E records events c1 rest e"
        using advance_trace [OF rest] by auto
      have eq: "drain_depth_window E records events c = drain_depth_window E records events c1"
        using Some c1(1) by (simp add: drain_depth_window.simps [of E records events c])
      show ?thesis unfolding eq by (rule "1.IH" [OF _ c1]) (simp add: Some)
    qed
  qed
qed

section \<open>What a trace is made of\<close>

definition events_ok :: "'v externals \<Rightarrow> raw_record_envelope list \<Rightarrow> depth_window_event list \<Rightarrow> bool" where
  "events_ok E records events \<longleftrightarrow> (\<forall>ev\<in>set events. dw_record_index ev < length records
     \<and> depth_span E (re_frame (records ! dw_record_index ev)) = (dw_first_sequence ev, dw_final_sequence ev))"

text \<open>
  A live trace from update id \<open>n\<close> and event \<open>j\<close> on: every event bridges what is before it, and a trace that ends
  without an error ends with the events.
\<close>

fun chained ::
  "'v externals \<Rightarrow> raw_record_envelope list \<Rightarrow> depth_window_event list \<Rightarrow> string \<Rightarrow> error option \<Rightarrow> nat \<Rightarrow> nat \<Rightarrow> traced list \<Rightarrow> bool" where
  "chained E records events symbol e n j [] \<longleftrightarrow> (e = None \<longrightarrow> j = length events)"
| "chained E records events symbol e n j ((x, r, b) # ts) \<longleftrightarrow> j < length events \<and> x = applied_event j (events ! j)
     \<and> record_at records (dw_record_index (events ! j)) = Ok r \<and> aw_first_sequence x \<le> n + 1 \<and> n < aw_final_sequence x
     \<and> n + 1 \<le> u64_max \<and> book_ok E b \<and> lb_state b = Live \<and> lb_symbol b = symbol \<and> lb_last_update_id b = Some (aw_final_sequence x)
     \<and> chained E records events symbol e (aw_final_sequence x) (j + 1) ts"

lemma window_trace_chained:
  assumes "window_trace E records k live b (drop k events) = (ts, e)" "events_ok E records events" "book_ok E b"
    "lb_last_update_id b = Some n" "k \<le> length events"
  shows "if live then chained E records events (lb_symbol b) e n k ts
         else ts = [] \<or> (\<exists>j. chained E records events (lb_symbol b) e n j ts)"
  using assms
proof (induction "drop k events" arbitrary: k live b ts n)
  case Nil
  then show ?case by auto
next
  case (Cons ev evs)
  have k: "k < length events" "ev = events ! k" "evs = drop (Suc k) events"
    using Cons.hyps(2) Cons.prems(5) by (metis Cons_nth_drop_Suc drop_all list.distinct(1) list.inject not_le)+
  note tr = Cons.prems(1) [folded Cons.hyps(2), unfolded window_trace.simps]
  have ev: "dw_record_index ev < length records"
    "depth_span E (re_frame (records ! dw_record_index ev)) = (dw_first_sequence ev, dw_final_sequence ev)"
    using Cons.prems(2) k nth_mem [OF k(1)] by (auto simp: events_ok_def)
  define r where "r = records ! dw_record_index ev"
  have r: "record_at records (dw_record_index ev) = Ok r" using ev(1) by (simp add: record_at_def r_def)
  obtain oc b1 where ap: "apply_depth E b (rf_payload (re_frame r)) = (oc, b1)" by fastforce
  show ?case
  proof (cases oc)
    case (Inl e')
    then show ?thesis using tr r ap by auto
  next
    case (Inr o1)
    note ap = ap [unfolded Inr]
    show ?thesis
      using ap Cons.prems(3,4)
    proof (cases rule: apply_depth_cases)
      case old
      show ?thesis
      proof (cases live)
        case True
        then show ?thesis using tr r ap old by auto
      next
        case False
        then have "window_trace E records (Suc k) live b (drop (Suc k) events) = (ts, e)" using tr r ap old k(3) by simp
        then show ?thesis using Cons.hyps(1) [of "Suc k" live b ts n] Cons.prems k False by simp
      qed
    next
      case (live a z)
      obtain ts' where t: "window_trace E records (Suc k) True b1 (drop (Suc k) events) = (ts', e)"
        "ts = (applied_event k ev, r, b1) # ts'"
        using tr r ap live(1) k(3) by (auto split: prod.splits)
      have c: "chained E records events (lb_symbol b) e z (Suc k) ts'"
        using Cons.hyps(1) [OF k(3) t(1) Cons.prems(2) live(6,7)] k(1) live(9) by simp
      have "a = dw_first_sequence ev" "z = dw_final_sequence ev" using live(2) ev(2) by (simp_all add: r_def)
      then have "chained E records events (lb_symbol b) e n k ts"
        using c t(2) k r live by (simp add: applied_event_def)
      then show ?thesis by auto
    qed
  qed
qed

lemma chained_final: "chained E records events symbol e n j ts \<Longrightarrow> x \<in> set ts \<Longrightarrow> n < traced_final x"
  by (induction ts arbitrary: n j) (force)+

lemma chained_sorted: "chained E records events symbol e n j ts \<Longrightarrow> sorted_wrt (\<lambda>x y. traced_final x < traced_final y) ts"
proof (induction ts arbitrary: n j)
  case (Cons x ts)
  obtain a r b where x: "x = (a, r, b)" by (cases x)
  have "chained E records events symbol e (aw_final_sequence a) (j + 1) ts" using Cons.prems by (auto simp: x)
  with Cons.IH chained_final [OF this] show ?case by (simp add: x)
qed simp

lemma chained_book:
  "chained E records events symbol e n j ts \<Longrightarrow> x \<in> set ts \<Longrightarrow>
     book_ok E (traced_book x) \<and> lb_state (traced_book x) = Live \<and> lb_symbol (traced_book x) = symbol
     \<and> lb_last_update_id (traced_book x) = Some (traced_final x)"
  by (induction ts arbitrary: n j) (force)+

section \<open>Joining two traces\<close>

type_synonym joint = "traced \<times> traced \<times> traced"

text \<open>The candidates of the merge: equal final ids, equal fingerprints and a further event of the successor.\<close>

fun joined :: "traced list \<Rightarrow> traced list \<Rightarrow> joint list" where
  "joined (a # ta) (b # tb) =
     (if traced_final a < traced_final b then joined ta (b # tb)
      else if traced_final b < traced_final a then joined (a # ta) tb
      else (if same_state_fingerprint (traced_book a) (traced_book b) \<and> tb \<noteq> [] then [(a, b, hd tb)] else []) @ joined ta tb)"
| "joined _ _ = []"

definition candidate_of :: "depth_window_event list \<Rightarrow> joint \<Rightarrow> depth_convergence_candidate" where
  "candidate_of events t = (case t of (a, b, z) \<Rightarrow>
     \<lparr>cc_predecessor = traced_event a, cc_successor = traced_event b, cc_continuation = events ! aw_event_index (traced_event z)\<rparr>)"

lemma equal_candidate_chained:
  assumes "chained E records events symbol None n j ((x, r, b) # tb)"
  shows "equal_candidate events book b p x =
     Ok (map (candidate_of events) (if same_state_fingerprint book b \<and> tb \<noteq> [] then [((p, q, book), (x, r, b), hd tb)] else []))"
proof (cases tb)
  case Nil
  then show ?thesis using assms by (auto simp: equal_candidate_def Let_def applied_event_def)
next
  case (Cons z tb')
  obtain y s c where z: "z = (y, s, c)" by (cases z)
  have "aw_event_index x = j" "j + 1 < length events" "y = applied_event (j + 1) (events ! (j + 1))"
    "aw_first_sequence y \<le> aw_final_sequence x + 1" "aw_final_sequence x < aw_final_sequence y" "aw_final_sequence x + 1 \<le> u64_max"
    using assms by (auto simp: Cons z applied_event_def)
  then show ?thesis by (auto simp: equal_candidate_def Let_def Cons z candidate_of_def applied_event_def checked_add_def)
qed

definition merged_candidates ::
  "'v externals \<Rightarrow> raw_record_envelope list \<Rightarrow> depth_window_event list \<Rightarrow> raw_record_envelope list \<Rightarrow> depth_window_event list
     \<Rightarrow> lane_cursor \<Rightarrow> lane_cursor \<Rightarrow> depth_convergence_candidate list \<Rightarrow> depth_convergence_candidate list res" where
  "merged_candidates E ra ea rb eb ca cb cs =
     rbind (merge_depth_windows E ra ea rb eb ca cb cs) (\<lambda>(ca1, cb1, cs1).
     rbind (drain_depth_window E ra ea ca1) (\<lambda>_. rbind (drain_depth_window E rb eb cb1) (\<lambda>_. Ok cs1)))"

lemma merged_stuck:
  assumes "fst ca = None \<or> fst cb = None" "stands_at E ra ea ca ta xa" "stands_at E rb eb cb tb xb"
  shows "merged_candidates E ra ea rb eb ca cb cs = Ok out \<longleftrightarrow> xa = None \<and> xb = None \<and> out = cs @ map (candidate_of eb) (joined ta tb)"
proof -
  have "merge_depth_windows E ra ea rb eb ca cb cs = Ok (ca, cb, cs)"
    using assms(1) by (subst merge_depth_windows.simps) (auto split: option.splits)
  moreover have "joined ta tb = []" using assms by (cases ta; cases tb) (auto simp: stands_at_def split: option.splits)
  ultimately show ?thesis using drain_trace [OF assms(2)] drain_trace [OF assms(3)]
    by (auto simp: merged_candidates_def split: option.splits)
qed

text \<open>One step of the merge, over an advance that stands at the rest of a trace or fails with its error.\<close>

lemma advance_then:
  assumes "lane_trace E records events l = (ts, e)"
    and "\<And>c. stands_at E records events c ts e \<Longrightarrow> advance_depth_window E records events l = Ok c \<Longrightarrow> f c = Ok out \<longleftrightarrow> e = None \<and> P"
  shows "rbind (advance_depth_window E records events l) f = Ok out \<longleftrightarrow> e = None \<and> P"
  using advance_trace [OF assms(1)] assms(2) by (cases "ts = [] \<and> e \<noteq> None") auto

lemma merged_candidates_joined:
  assumes "stands_at E ra ea ca ta xa" "stands_at E rb eb cb tb xb"
    and "chained E rb eb symbol xb n j tb"
  shows "merged_candidates E ra ea rb eb ca cb cs = Ok out \<longleftrightarrow> xa = None \<and> xb = None \<and> out = cs @ map (candidate_of eb) (joined ta tb)"
  using assms
proof (induction E ra ea rb eb ca cb cs arbitrary: ta tb n j rule: merge_depth_windows.induct)
  case (1 E ra ea rb eb ca cb cs)
  show ?case
  proof (cases "fst ca = None \<or> fst cb = None")
    case True
    then show ?thesis using merged_stuck "1.prems"(1,2) by blast
  next
    case False
    then obtain p s where ps: "fst ca = Some p" "fst cb = Some s" by auto
    obtain r ta' where a: "ta = (p, r, wl_book (snd ca)) # ta'" "lane_trace E ra ea (snd ca) = (ta', xa)"
      using "1.prems"(1) ps by (auto simp: stands_at_def)
    obtain q tb' where b: "tb = (s, q, wl_book (snd cb)) # tb'" "lane_trace E rb eb (snd cb) = (tb', xb)"
      using "1.prems"(2) ps by (auto simp: stands_at_def)
    have cb': "chained E rb eb symbol xb (aw_final_sequence s) (j + 1) tb'" using "1.prems"(3) by (auto simp: b)
    consider (lt) "aw_final_sequence p < aw_final_sequence s" | (gt) "aw_final_sequence s < aw_final_sequence p"
      | (eq) "aw_final_sequence p = aw_final_sequence s" by linarith
    then show ?thesis
    proof cases
      case lt
      have st: "merged_candidates E ra ea rb eb ca cb cs =
          rbind (advance_depth_window E ra ea (snd ca)) (\<lambda>ca1. merged_candidates E ra ea rb eb ca1 cb cs)"
        using lt ps by (simp add: merged_candidates_def merge_depth_windows.simps [of E ra ea rb eb ca cb cs] rbind_assoc)
      show ?thesis unfolding st
      proof (rule advance_then [OF a(2)])
        fix ca1
        assume c1: "stands_at E ra ea ca1 ta' xa" "advance_depth_window E ra ea (snd ca) = Ok ca1"
        show "merged_candidates E ra ea rb eb ca1 cb cs = Ok out \<longleftrightarrow> xa = None \<and> xb = None \<and> out = cs @ map (candidate_of eb) (joined ta tb)"
          using "1.IH"(1) [OF refl ps lt c1(2) c1(1) "1.prems"(2,3)] lt by (simp add: a b)
      qed
    next
      case gt
      then have ng: "\<not> aw_final_sequence p < aw_final_sequence s" by simp
      have st: "merged_candidates E ra ea rb eb ca cb cs =
          rbind (advance_depth_window E rb eb (snd cb)) (\<lambda>cb1. merged_candidates E ra ea rb eb ca cb1 cs)"
        using gt ps by (simp add: merged_candidates_def merge_depth_windows.simps [of E ra ea rb eb ca cb cs] rbind_assoc)
      have "rbind (advance_depth_window E rb eb (snd cb)) (\<lambda>cb1. merged_candidates E ra ea rb eb ca cb1 cs) = Ok out
          \<longleftrightarrow> xb = None \<and> xa = None \<and> out = cs @ map (candidate_of eb) (joined ta tb)"
      proof (rule advance_then [OF b(2)])
        fix cb1
        assume c1: "stands_at E rb eb cb1 tb' xb" "advance_depth_window E rb eb (snd cb) = Ok cb1"
        show "merged_candidates E ra ea rb eb ca cb1 cs = Ok out \<longleftrightarrow> xb = None \<and> xa = None \<and> out = cs @ map (candidate_of eb) (joined ta tb)"
          using "1.IH"(2) [OF refl ps ng gt c1(2) "1.prems"(1) c1(1) cb'] gt by (auto simp: a b)
      qed
      then show ?thesis unfolding st by auto
    next
      case eq
      then have ne: "\<not> aw_final_sequence p < aw_final_sequence s" "\<not> aw_final_sequence s < aw_final_sequence p" by simp_all
      let ?q = "equal_candidate eb (wl_book (snd ca)) (wl_book (snd cb)) p s"
      let ?here = "if same_state_fingerprint (wl_book (snd ca)) (wl_book (snd cb)) \<and> tb' \<noteq> []
          then [((p, r, wl_book (snd ca)), (s, q, wl_book (snd cb)), hd tb')] else []"
      have st: "merged_candidates E ra ea rb eb ca cb cs =
          rbind ?q (\<lambda>new. rbind (advance_depth_window E ra ea (snd ca)) (\<lambda>ca1. rbind (advance_depth_window E rb eb (snd cb)) (\<lambda>cb1.
            merged_candidates E ra ea rb eb ca1 cb1 (cs @ new))))"
        using ne ps by (simp add: merged_candidates_def merge_depth_windows.simps [of E ra ea rb eb ca cb cs] rbind_assoc)
      have step: "rbind (advance_depth_window E ra ea (snd ca)) (\<lambda>ca1. rbind (advance_depth_window E rb eb (snd cb)) (\<lambda>cb1.
            merged_candidates E ra ea rb eb ca1 cb1 (cs @ new))) = Ok out
          \<longleftrightarrow> xa = None \<and> xb = None \<and> out = (cs @ new) @ map (candidate_of eb) (joined ta' tb')" if new: "?q = Ok new" for new
      proof (rule advance_then [OF a(2)])
        fix ca1
        assume c1: "stands_at E ra ea ca1 ta' xa" "advance_depth_window E ra ea (snd ca) = Ok ca1"
        have "rbind (advance_depth_window E rb eb (snd cb)) (\<lambda>cb1. merged_candidates E ra ea rb eb ca1 cb1 (cs @ new)) = Ok out
          \<longleftrightarrow> xb = None \<and> xa = None \<and> out = (cs @ new) @ map (candidate_of eb) (joined ta' tb')"
        proof (rule advance_then [OF b(2)])
          fix cb1
          assume d1: "stands_at E rb eb cb1 tb' xb" "advance_depth_window E rb eb (snd cb) = Ok cb1"
          show "merged_candidates E ra ea rb eb ca1 cb1 (cs @ new) = Ok out
            \<longleftrightarrow> xb = None \<and> xa = None \<and> out = (cs @ new) @ map (candidate_of eb) (joined ta' tb')"
            using "1.IH"(3) [OF refl ps ne new c1(2) d1(2) c1(1) d1(1) cb'] by auto
        qed
        then show "rbind (advance_depth_window E rb eb (snd cb)) (\<lambda>cb1. merged_candidates E ra ea rb eb ca1 cb1 (cs @ new)) = Ok out
          \<longleftrightarrow> xa = None \<and> xb = None \<and> out = (cs @ new) @ map (candidate_of eb) (joined ta' tb')" by auto
      qed
      have jn: "joined ta tb = ?here @ joined ta' tb'" using ne by (simp add: a b)
      show ?thesis
      proof (cases xb)
        case None
        have q: "?q = Ok (map (candidate_of eb) ?here)"
          by (rule equal_candidate_chained) (rule "1.prems"(3) [unfolded b(1) None])
        show ?thesis unfolding st q rbind_simps step [OF q] jn by simp
      next
        case (Some e')
        then show ?thesis unfolding st using step by (cases ?q) auto
      qed
    qed
  qed
qed

section \<open>Confirming a candidate\<close>

lemma window_trace_index: "window_trace E records k live b evs = (ts, e) \<Longrightarrow> x \<in> set ts \<Longrightarrow> k \<le> aw_event_index (traced_event x)"
proof (induction evs arbitrary: k live b ts)
  case (Cons ev evs)
  then show ?case
    by (fastforce simp: applied_event_def split: sum.splits prod.splits apply_outcome.splits if_splits)
qed simp

lemma window_trace_replay:
  "window_trace E records k live b evs = (ts, e) \<Longrightarrow> x \<in> set ts \<Longrightarrow>
     replay_window_loop E records b live (take (Suc (aw_event_index (traced_event x)) - k) evs) = Ok (traced_book x, True)"
proof (induction evs arbitrary: k live b ts)
  case (Cons ev evs)
  have ix: "k \<le> aw_event_index (traced_event x)" using window_trace_index [OF Cons.prems] .
  obtain r where r: "record_at records (dw_record_index ev) = Ok r" using Cons.prems by (auto split: sum.splits)
  obtain oc b1 where ap: "apply_depth E b (rf_payload (re_frame r)) = (Ok oc, b1)"
    using Cons.prems r by (auto split: prod.splits sum.splits)
  show ?case
  proof (cases oc)
    case Old
    then have nl: "\<not> live" "window_trace E records (k + 1) live b1 evs = (ts, e)"
      using Cons.prems r ap by (auto split: if_splits)
    have "k + 1 \<le> aw_event_index (traced_event x)" using window_trace_index [OF nl(2) Cons.prems(2)] .
    then have "Suc (aw_event_index (traced_event x)) - k = Suc (Suc (aw_event_index (traced_event x)) - (k + 1))" by simp
    then show ?thesis using Cons.IH [OF nl(2) Cons.prems(2)] r ap Old nl(1) by simp
  next
    case Applied
    obtain ts' where t: "window_trace E records (k + 1) True b1 evs = (ts', e)" "ts = (applied_event k ev, r, b1) # ts'"
      using Cons.prems(1) r ap Applied by (auto split: prod.splits)
    show ?thesis
    proof (cases "x \<in> set ts'")
      case True
      have "k + 1 \<le> aw_event_index (traced_event x)" using window_trace_index [OF t(1) True] .
      then have "Suc (aw_event_index (traced_event x)) - k = Suc (Suc (aw_event_index (traced_event x)) - (k + 1))" by simp
      then show ?thesis using Cons.IH [OF t(1) True] r ap Applied by simp
    next
      case False
      then have "x = (applied_event k ev, r, b1)" using Cons.prems(2) t(2) by simp
      then show ?thesis using r ap Applied by (simp add: applied_event_def)
    qed
  qed
qed simp

lemma chained_event:
  "chained E records events symbol e n j ts \<Longrightarrow> x \<in> set ts \<Longrightarrow>
     aw_event_index (traced_event x) < length events
     \<and> traced_event x = applied_event (aw_event_index (traced_event x)) (events ! aw_event_index (traced_event x))
     \<and> record_at records (dw_record_index (events ! aw_event_index (traced_event x))) = Ok (fst (snd x))"
proof (induction ts arbitrary: n j)
  case (Cons y ts)
  obtain a r b where y: "y = (a, r, b)" by (cases y)
  have c: "chained E records events symbol e (aw_final_sequence a) (j + 1) ts" using Cons.prems by (auto simp: y)
  show ?case using Cons.IH [OF c] Cons.prems by (auto simp: y applied_event_def)
qed simp

definition observed :: "'v externals \<Rightarrow> identity3 \<Rightarrow> traced \<Rightarrow> canonical_observation" where
  "observed E i x = depth_window_observation i (fst (snd x)) (aw_first_sequence (fst x)) (aw_final_sequence (fst x)) (state_digest E (traced_book x))"

definition unhashed :: "canonical_observation \<Rightarrow> canonical_observation" where
  "unhashed x = x\<lparr>co_observation_sha256 := []\<rparr>"

definition convergence_of :: "splice \<Rightarrow> latest_depth_window_convergence_v1" where
  "convergence_of t = (case t of (p, s, z) \<Rightarrow>
     \<lparr>lc_predecessor_boundary = p, lc_successor_boundary = s, lc_successor_continuation = unhashed z\<rparr>)"

definition observed_joint :: "'v externals \<Rightarrow> identity3 \<Rightarrow> identity3 \<Rightarrow> joint \<Rightarrow> splice" where
  "observed_joint E ia ib t = (case t of (a, b, z) \<Rightarrow> (observed E ia a, observed E ib b, observed E ib z))"

definition exact :: "joint \<Rightarrow> bool" where
  "exact t = (case t of (a, b, z) \<Rightarrow> same_state (traced_book a) (traced_book b))"

lemma same_state_digest: "same_state a b \<Longrightarrow> state_digest E a = state_digest E b"
  by (simp add: same_state_def state_digest_def canonical_state_def)

text \<open>The window a trace belongs to, opened on the snapshot.\<close>

definition window_of ::
  "'v externals \<Rightarrow> raw_record_envelope \<Rightarrow> raw_record_envelope list \<Rightarrow> depth_window_event list \<Rightarrow> traced list \<Rightarrow> error option \<Rightarrow> bool" where
  "window_of E snapshot records events ts e \<longleftrightarrow> (\<exists>n b. open_book E (rf_symbol (re_frame snapshot)) snapshot = Ok (n, b)
     \<and> window_trace E records 0 False b events = (ts, e) \<and> (ts = [] \<or> (\<exists>j. chained E records events (rf_symbol (re_frame snapshot)) e n j ts)))"

lemma window_replay:
  "window_of E snapshot records events ts e \<Longrightarrow> x \<in> set ts \<Longrightarrow>
     replay_depth_window_through E snapshot records events (aw_event_index (traced_event x)) = Ok (traced_book x)"
proof -
  assume a: "window_of E snapshot records events ts e" "x \<in> set ts"
  then obtain n b where b: "open_book E (rf_symbol (re_frame snapshot)) snapshot = Ok (n, b)"
    "window_trace E records 0 False b events = (ts, e)" by (auto simp: window_of_def)
  show ?thesis using window_trace_replay [OF b(2) a(2)] by (simp add: replay_depth_window_through_def b(1))
qed

lemma window_event:
  assumes "window_of E snapshot records events ts e" "x \<in> set ts"
  shows "traced_event x = applied_event (aw_event_index (traced_event x)) (events ! aw_event_index (traced_event x))"
    "record_at records (dw_record_index (events ! aw_event_index (traced_event x))) = Ok (fst (snd x))"
  using assms by (auto simp: window_of_def dest: chained_event)

lemma confirm_joints:
  assumes "window_of E snapshot ra ea ta xa" "window_of E snapshot rb eb tb xb"
    and "\<forall>t\<in>set js. fst t \<in> set ta \<and> fst (snd t) \<in> set tb \<and> snd (snd t) \<in> set tb"
  shows "confirm_candidates E snapshot ia ra ea ib rb eb (map (candidate_of eb) js) = Ok c \<longleftrightarrow>
     (\<exists>t. find exact js = Some t \<and> c = convergence_of (observed_joint E ia ib t))"
  using assms(3)
proof (induction js)
  case (Cons t js)
  obtain a b z where t: "t = (a, b, z)" by (cases t)
  have m: "a \<in> set ta" "b \<in> set tb" "z \<in> set tb" using Cons.prems by (simp_all add: t)
  note ev = window_event(2) [OF assms(1) m(1)] window_event(2) [OF assms(2) m(2)] window_event(2) [OF assms(2) m(3)]
  have ze: "aw_first_sequence (fst z) = dw_first_sequence (eb ! aw_event_index (fst z))"
    "aw_final_sequence (fst z) = dw_final_sequence (eb ! aw_event_index (fst z))"
    using window_event(1) [OF assms(2) m(3)] by (metis applied_event_def applied_depth_window_event.select_convs(2,3))+
  have confirm: "confirm_candidates E snapshot ia ra ea ib rb eb (map (candidate_of eb) (t # js)) =
      (if exact t then Ok (convergence_of (observed_joint E ia ib t))
       else confirm_candidates E snapshot ia ra ea ib rb eb (map (candidate_of eb) js))"
    using window_replay [OF assms(1) m(1)] window_replay [OF assms(2) m(2)] ev ze same_state_digest [of "traced_book a" "traced_book b" E]
    by (simp add: t candidate_of_def Let_def exact_def convergence_of_def observed_joint_def observed_def unhashed_def
        depth_window_observation_def)
  show ?case
  proof (cases "exact t")
    case True
    then show ?thesis unfolding confirm by (simp del: split_paired_Ex) (rule eq_commute)
  next
    case False
    then show ?thesis unfolding confirm using Cons by (simp del: split_paired_Ex)
  qed
qed simp

end
