(* ===== verification/Depth_Convergence_Safety.thy ===== *)
theory Depth_Convergence_Safety
  imports Depth_Convergence
begin

text \<open>
  The fast search for the latest depth convergence finds what the splice of the fully materialised windows finds.
\<close>

section \<open>Matching traces\<close>

lemma exact_simp [simp]: "exact (a, b, z) = same_state (traced_book a) (traced_book b)"
  by (simp add: exact_def)

abbreviation ascending :: "traced list \<Rightarrow> bool" where
  "ascending \<equiv> sorted_wrt (\<lambda>x y. traced_final x < traced_final y)"

definition partner :: "traced list \<Rightarrow> traced \<Rightarrow> traced option" where
  "partner ta b = find (\<lambda>a. traced_final a = traced_final b \<and> same_state (traced_book a) (traced_book b)) ta"

fun matches :: "traced list \<Rightarrow> traced list \<Rightarrow> joint list" where
  "matches ta (b # z # tb) = (case partner ta b of None \<Rightarrow> [] | Some a \<Rightarrow> [(a, b, z)]) @ matches ta (z # tb)"
| "matches ta _ = []"

lemma find_append: "find P (xs @ ys) = (case find P xs of None \<Rightarrow> find P ys | Some x \<Rightarrow> Some x)"
  by (induction xs) auto

lemma find_SomeD: "find P xs = Some x \<Longrightarrow> x \<in> set xs \<and> P x"
  by (induction xs) (auto split: if_splits)

lemma find_rev: "find P (rev xs) = (if filter P xs = [] then None else Some (last (filter P xs)))"
  by (induction xs) (auto simp: find_append)

lemma find_rev_unique:
  assumes "\<And>x y. x \<in> set xs \<Longrightarrow> y \<in> set xs \<Longrightarrow> P x \<Longrightarrow> P y \<Longrightarrow> x = y"
  shows "find P (rev xs) = find P xs"
proof (cases "find P xs")
  case None
  then show ?thesis by (metis find_None_iff set_rev)
next
  case (Some a)
  then obtain b where "find P (rev xs) = Some b" by (metis find_None_iff find_SomeD not_None_eq set_rev)
  then show ?thesis using Some assms by (metis find_SomeD set_rev)
qed

lemma ascending_unique: "ascending ts \<Longrightarrow> x \<in> set ts \<Longrightarrow> y \<in> set ts \<Longrightarrow> traced_final x = traced_final y \<Longrightarrow> x = y"
  by (induction ts) auto

lemma partner_skip: "traced_final a \<noteq> traced_final b \<Longrightarrow> partner (a # ta) b = partner ta b"
  by (simp add: partner_def)

lemma partner_None: "\<forall>a\<in>set ta. traced_final a \<noteq> traced_final b \<Longrightarrow> partner ta b = None"
  by (auto simp: partner_def find_None_iff)

lemma matches_skip: "\<forall>b\<in>set tb. traced_final a < traced_final b \<Longrightarrow> matches (a # ta) tb = matches ta tb"
  by (induction "a # ta" tb rule: matches.induct) (simp_all add: partner_skip)

lemma matches_drop: "\<forall>a\<in>set ta. traced_final b < traced_final a \<Longrightarrow> matches ta (b # tb) = matches ta tb"
proof (cases tb)
  case (Cons z tb')
  assume "\<forall>a\<in>set ta. traced_final b < traced_final a"
  then have "partner ta b = None" by (intro partner_None) auto
  then show ?thesis by (simp add: Cons)
qed simp

lemma matches_Nil [simp]: "matches [] tb = []"
  by (induction "[] :: traced list" tb rule: matches.induct) (simp_all add: partner_def)

text \<open>No candidate is lost to the fingerprint, since equal books have equal fingerprints.\<close>

lemma joined_exact:
  assumes "ascending ta" "ascending tb"
    and "\<And>a b. a \<in> set ta \<Longrightarrow> b \<in> set tb \<Longrightarrow> same_state (traced_book a) (traced_book b)
           \<Longrightarrow> same_state_fingerprint (traced_book a) (traced_book b)"
  shows "filter exact (joined ta tb) = matches ta tb"
  using assms
proof (induction ta tb rule: joined.induct)
  case (1 a ta b tb)
  consider (lt) "traced_final a < traced_final b" | (gt) "traced_final b < traced_final a"
    | (eq) "traced_final a = traced_final b" by linarith
  then show ?case
  proof cases
    case lt
    then have "matches (a # ta) (b # tb) = matches ta (b # tb)" using "1.prems"(2) by (intro matches_skip) auto
    with lt "1.IH"(1) "1.prems" show ?thesis by (simp del: split_paired_All)
  next
    case gt
    then have "matches (a # ta) (b # tb) = matches (a # ta) tb" using "1.prems"(1) by (intro matches_drop) auto
    with gt "1.IH"(2) "1.prems" show ?thesis by (simp del: split_paired_All)
  next
    case eq
    have rest: "matches (a # ta) tb = matches ta tb" using "1.prems"(2) eq by (intro matches_skip) auto
    have none: "\<forall>x\<in>set ta. traced_final x \<noteq> traced_final b" using "1.prems"(1) eq by auto
    have part: "partner (a # ta) b = (if same_state (traced_book a) (traced_book b) then Some a else None)"
      using eq partner_None [OF none] by (simp add: partner_def)
    have ih: "filter exact (joined ta tb) = matches ta tb" using "1.IH"(3) eq "1.prems" by (simp del: split_paired_All)
    show ?thesis
    proof (cases tb)
      case Nil
      then show ?thesis using eq ih by simp
    next
      case (Cons z tb')
      have "same_state_fingerprint (traced_book a) (traced_book b)" if "same_state (traced_book a) (traced_book b)"
        using "1.prems"(3) [of a b] that by simp
      then show ?thesis using eq ih rest part Cons by auto
    qed
  qed
qed simp_all

section \<open>The splice of the observations\<close>

lemma by_sequence_partner:
  assumes "ascending ta"
  shows "predecessor_by_sequence (map (observed E i) ta) k = map_option (observed E i) (find (\<lambda>a. traced_final a = k) ta)"
proof -
  have "map_of (map (\<lambda>x. (co_final_sequence x, x)) (rev (map (observed E i) ta))) k
      = map_option (observed E i) (find (\<lambda>a. traced_final a = k) (rev ta))"
    by (induction ta rule: rev_induct) (simp_all add: observed_def depth_window_observation_def)
  moreover have "find (\<lambda>a. traced_final a = k) (rev ta) = find (\<lambda>a. traced_final a = k) ta"
    by (rule find_rev_unique) (rule ascending_unique [OF assms], simp_all)
  ultimately show ?thesis by (simp add: predecessor_by_sequence_def)
qed

lemma partner_find:
  assumes "ascending ta"
  shows "partner ta b = (case find (\<lambda>a. traced_final a = traced_final b) ta of None \<Rightarrow> None
    | Some a \<Rightarrow> if same_state (traced_book a) (traced_book b) then Some a else None)"
  using assms
proof (induction ta)
  case (Cons x ta)
  show ?case
  proof (cases "traced_final x = traced_final b")
    case True
    then have "\<forall>a\<in>set ta. traced_final a \<noteq> traced_final b" using Cons.prems by auto
    from partner_None [OF this] True show ?thesis by (simp add: partner_def)
  next
    case False
    then show ?thesis using Cons by (simp add: partner_skip)
  qed
qed (simp add: partner_def)

lemma matches_final: "t \<in> set (matches ta tb) \<Longrightarrow> fst t \<in> set ta \<and> fst (snd t) \<in> set tb \<and> snd (snd t) \<in> set tb
    \<and> traced_final (fst t) = traced_final (fst (snd t))"
proof (induction ta tb rule: matches.induct)
  case (1 ta b z tb)
  then show ?case by (auto simp: partner_def split: option.splits dest!: find_SomeD sym [of "Some _"])
qed simp_all

definition chosen :: "'v externals \<Rightarrow> identity3 \<Rightarrow> identity3 \<Rightarrow> splice option \<Rightarrow> joint list \<Rightarrow> splice option" where
  "chosen E ia ib sel ms = (if ms = [] then sel else Some (observed_joint E ia ib (last ms)))"

lemma splice_matches:
  assumes "ascending ta" "chained E rb eb symbol e n j tb"
    and "\<And>a b. a \<in> set ta \<Longrightarrow> b \<in> set tb \<Longrightarrow> state_digest E (traced_book a) = state_digest E (traced_book b)
           \<longleftrightarrow> same_state (traced_book a) (traced_book b)"
    and "\<And>p s c. sel = Some (p, s, c) \<Longrightarrow> co_final_sequence p \<le> n"
  shows "splice_loop Depth (predecessor_by_sequence (map (observed E ia) ta)) sel (map (observed E ib) tb)
     = Ok (chosen E ia ib sel (matches ta tb))"
  using assms(2-4)
proof (induction tb arbitrary: sel n j)
  case (Cons b tb)
  show ?case
  proof (cases tb)
    case Nil
    then show ?thesis by (simp add: chosen_def)
  next
    case tb: (Cons z tb')
    obtain x r bk where b: "b = (x, r, bk)" by (cases b)
    obtain y q ck where z: "z = (y, q, ck)" by (cases z)
    have ch: "chained E rb eb symbol e (traced_final b) (j + 1) tb" using Cons.prems(1) by (auto simp: b)
    have step: "n < traced_final b" "traced_final b + 1 \<le> u64_max" "aw_first_sequence y \<le> traced_final b + 1" "traced_final b + 1 \<le> traced_final z"
      using Cons.prems(1) by (auto simp: b z tb)
    have dg: "\<And>a b. a \<in> set ta \<Longrightarrow> b \<in> set tb \<Longrightarrow> state_digest E (traced_book a) = state_digest E (traced_book b)
           \<longleftrightarrow> same_state (traced_book a) (traced_book b)" using Cons.prems(2) by auto
    have skip: ?thesis if "partner ta b = None"
      "splice_loop Depth (predecessor_by_sequence (map (observed E ia) ta)) sel (map (observed E ib) (b # tb))
       = splice_loop Depth (predecessor_by_sequence (map (observed E ia) ta)) sel (map (observed E ib) tb)"
    proof -
      have "co_final_sequence p \<le> traced_final b" if "sel = Some (p, s, c)" for p s c using Cons.prems(3) [OF that] step(1) by simp
      from Cons.IH [OF ch dg this] that show ?thesis by (simp add: tb)
    qed
    show ?thesis
    proof (cases "find (\<lambda>a. traced_final a = traced_final b) ta")
      case None
      then show ?thesis
        by (intro skip) (simp_all add: partner_find [OF assms(1)] by_sequence_partner [OF assms(1)] tb, simp add: observed_def depth_window_observation_def)
    next
      case (Some a)
      then have a: "a \<in> set ta" "traced_final a = traced_final b" by (auto dest: find_SomeD)
      have obs: "co_final_sequence (observed E i v) = traced_final v" "co_observation_sha256 (observed E i v) = state_digest E (traced_book v)"
        "co_first_sequence (observed E i v) = aw_first_sequence (fst v)" for i v
        by (simp_all add: observed_def depth_window_observation_def)
      have dab: "state_digest E (traced_book a) = state_digest E (traced_book b) \<longleftrightarrow> same_state (traced_book a) (traced_book b)"
        using Cons.prems(2) [OF a(1), of b] by simp
      show ?thesis
      proof (cases "same_state (traced_book a) (traced_book b)")
        case False
        then show ?thesis using Some dab
          by (intro skip) (simp_all add: partner_find [OF assms(1)] by_sequence_partner [OF assms(1)] tb obs)
      next
        case True
        have part: "partner ta b = Some a" using Some True by (simp add: partner_find [OF assms(1)])
        let ?t = "observed_joint E ia ib (a, b, z)"
        have new: "(case sel of None \<Rightarrow> True | Some (old, _, _) \<Rightarrow> co_final_sequence old < co_final_sequence (observed E ia a))"
          using Cons.prems(3) step(1) a(2) by (fastforce simp: obs split: option.splits)
        have "splice_loop Depth (predecessor_by_sequence (map (observed E ia) ta)) sel (map (observed E ib) (b # tb))
          = splice_loop Depth (predecessor_by_sequence (map (observed E ia) ta)) (Some ?t) (map (observed E ib) tb)"
          using Some True dab step new a(2)
          by (simp add: tb by_sequence_partner [OF assms(1)] obs checked_add_def continues_def observed_joint_def z)
        also have "\<dots> = Ok (chosen E ia ib (Some ?t) (matches ta tb))"
          by (rule Cons.IH [OF ch dg]) (use a(2) in \<open>auto simp: observed_joint_def obs\<close>)
        finally show ?thesis using part by (simp add: chosen_def tb)
      qed
    qed
  qed
qed (simp add: chosen_def)

section \<open>Windows and traces\<close>

lemma drop_eq_ConsD: "drop k xs = y # ys \<Longrightarrow> k < length xs \<and> xs ! k = y \<and> drop (Suc k) xs = ys"
  by (metis Cons_nth_drop_Suc drop_all list.distinct(1) list.inject not_le)

lemma depth_event_ids_span: "depth_event_ids E (rf_payload f) = Ok (a, z) \<Longrightarrow> depth_span E f = (a, z)"
  by (auto simp: depth_event_ids_def strict_object_def depth_span_def obs_field_u64_def split: if_splits)

lemma window_events_ok: "window_events E k rs = Ok evs \<Longrightarrow> drop k records = rs \<Longrightarrow> events_ok E records evs"
proof (induction rs arbitrary: k evs)
  case (Cons r rs)
  note d = drop_eq_ConsD [OF Cons.prems(2)]
  then show ?case using Cons.IH [of "k + 1"] Cons.prems(1)
    by (auto simp: events_ok_def depth_event_ids_span split: if_splits)
qed (simp add: events_ok_def)

lemma depth_window_loop_trace:
  "drop k records = rs \<Longrightarrow> depth_window_loop E i b obs rs = Ok out \<longleftrightarrow>
     (\<exists>evs ts. window_events E k rs = Ok evs \<and> window_trace E records j (obs \<noteq> []) b evs = (ts, None)
        \<and> out = obs @ map (observed E i) ts)"
proof (induction rs arbitrary: k j b obs)
  case Nil
  then show ?case by auto
next
  case (Cons r rs)
  have d: "k < length records" "records ! k = r" "drop (k + 1) records = rs" using drop_eq_ConsD [OF Cons.prems] by simp_all
  have r: "record_at records k = Ok r" using d by (simp add: record_at_def)
  note ih = Cons.IH [OF d(3)]
  show ?case
  proof (cases "server_shutdown_payload E (rf_payload (re_frame r))")
    case (Inr down)
    show ?thesis
    proof (cases down)
      case True
      then show ?thesis using ih [of b obs j] Inr by simp
    next
      case False
      show ?thesis
      proof (cases "depth_event_ids E (rf_payload (re_frame r))")
        case ids: (Inr az)
        obtain a z where az: "az = (a, z)" by (cases az)
        obtain oc b1 where ap: "apply_depth E b (rf_payload (re_frame r)) = (oc, b1)" by fastforce
        consider (err) e' where "oc = Inl e'" | (old) "oc = Inr Old" | (new) "oc = Inr Applied"
          by (cases oc) (auto intro: apply_outcome.exhaust)
        then show ?thesis
        proof cases
          case err
          then show ?thesis using Inr False ids az ap r by auto
        next
          case old
          then show ?thesis using Inr False ids az ap r ih [of b1 obs "j + 1"] by auto
        next
          case new
          let ?x = "depth_window_observation i r a z (state_digest E b1)"
          have st: "depth_window_loop E i b obs (r # rs) = depth_window_loop E i b1 (obs @ [?x]) rs"
            using new Inr False ids az ap by simp
          show ?thesis unfolding st ih [of b1 "obs @ [?x]" "j + 1"] using new Inr False ids az ap r
            by (fastforce simp: observed_def applied_event_def split: prod.splits)
        qed
      next
        case (Inl e)
        then show ?thesis using Inr False by simp
      qed
    qed
  next
    case (Inl e)
    then show ?thesis by simp
  qed
qed

lemma open_book_facts:
  assumes "open_book E (rf_symbol (re_frame snapshot)) snapshot = Ok (n, b)"
  shows "book_ok E b" "lb_last_update_id b = Some n" "lb_symbol b = rf_symbol (re_frame snapshot)"
proof -
  have "start_replay E (re_frame snapshot) = Ok (n, b)" using assms by (simp add: open_book_def start_replay_def)
  then show "book_ok E b" "lb_last_update_id b = Some n" "lb_symbol b = rf_symbol (re_frame snapshot)" by (rule start_replay_book)+
qed

lemma prepare_Ok:
  assumes "prepare_depth_window E snapshot records = Ok (i, events)"
  shows "fst i = rf_symbol (re_frame snapshot)" "events_ok E records events" "window_events E 0 records = Ok events"
  using assms window_events_ok [of E 0 records events records] by (auto simp: prepare_depth_window_def split: if_splits)

lemma window_of_trace:
  assumes "prepare_depth_window E snapshot records = Ok (i, events)"
    "open_book E (rf_symbol (re_frame snapshot)) snapshot = Ok (n, b)" "window_trace E records 0 False b events = (ts, e)"
  shows "window_of E snapshot records events ts e" "\<exists>j. chained E records events (rf_symbol (re_frame snapshot)) e n j ts"
proof -
  note o = open_book_facts [OF assms(2)]
  have "ts = [] \<or> (\<exists>j. chained E records events (rf_symbol (re_frame snapshot)) e n j ts)"
    using window_trace_chained [of E records 0 False b events ts e n] assms(3) prepare_Ok(2) [OF assms(1)] o by simp
  then show "window_of E snapshot records events ts e" "\<exists>j. chained E records events (rf_symbol (re_frame snapshot)) e n j ts"
    using assms by (auto simp: window_of_def intro: exI [of _ "length events"])
qed

lemma materialize_trace:
  assumes "prepare_depth_window E snapshot records = Ok (i, events)"
    "open_book E (rf_symbol (re_frame snapshot)) snapshot = Ok (n, b)" "window_trace E records 0 False b events = (ts, e)"
  shows "materialize_depth_record_window E snapshot records = Ok obs \<longleftrightarrow> e = None \<and> ts \<noteq> [] \<and> obs = map (observed E i) ts"
proof -
  have "materialize_depth_record_window E snapshot records = Ok obs \<longleftrightarrow> depth_window_loop E i b [] records = Ok obs \<and> obs \<noteq> []"
    using assms(1,2) prepare_Ok(1) [OF assms(1)]
    by (auto simp: materialize_depth_record_window_def prepare_depth_window_def split: if_splits)
  then show ?thesis
    using depth_window_loop_trace [of 0 records records E i b "[]" obs 0] prepare_Ok(3) [OF assms(1)] assms(3) by auto
qed

lemma materialize_prepared:
  assumes "materialize_depth_record_window E snapshot records = Ok obs"
  shows "\<exists>i events n b. prepare_depth_window E snapshot records = Ok (i, events) \<and> open_book E (rf_symbol (re_frame snapshot)) snapshot = Ok (n, b)"
proof -
  obtain i n b where i: "identity records = Ok i" "require_contiguous_frames records = Ok ()" "str_contains (fst (snd i)) ''@depth''"
    "rf_symbol (re_frame snapshot) = fst i" "open_book E (fst i) snapshot = Ok (n, b)" "depth_window_loop E i b [] records = Ok obs"
    using assms by (auto simp: materialize_depth_record_window_def split: if_splits)
  then obtain evs where "window_events E 0 records = Ok evs" using depth_window_loop_trace [of 0 records records E i b "[]" obs 0] by auto
  then show ?thesis using i by (cases i) (auto simp: prepare_depth_window_def)
qed

section \<open>The search\<close>

lemma joined_members: "t \<in> set (joined ta tb) \<Longrightarrow> fst t \<in> set ta \<and> fst (snd t) \<in> set tb \<and> snd (snd t) \<in> set tb"
  by (induction ta tb rule: joined.induct) (auto split: if_splits)

lemma latest_trace:
  assumes p: "prepare_depth_window E snapshot ra = Ok (ia, ea)" "prepare_depth_window E snapshot rb = Ok (ib, eb)"
    "open_book E (rf_symbol (re_frame snapshot)) snapshot = Ok (n, b)"
    and t: "window_trace E ra 0 False b ea = (ta, xa)" "window_trace E rb 0 False b eb = (tb, xb)"
  shows "latest_depth_window_convergence E snapshot ra rb = Ok c \<longleftrightarrow> xa = None \<and> xb = None
     \<and> (\<exists>j. find exact (rev (joined ta tb)) = Some j \<and> c = convergence_of (observed_joint E ia ib j))"
proof -
  let ?l = "\<lparr>wl_book = b, wl_next_event = 0, wl_live_started = False\<rparr>"
  let ?confirm = "confirm_candidates E snapshot ia ra ea ib rb eb"
  have l: "lane_trace E ra ea ?l = (ta, xa)" "lane_trace E rb eb ?l = (tb, xb)" using t by (simp_all add: lane_trace_def)
  obtain j where ch: "chained E rb eb (rf_symbol (re_frame snapshot)) xb n j tb" using window_of_trace(2) [OF p(2,3) t(2)] by blast
  have conf: "?confirm (rev (map (candidate_of eb) (joined ta tb))) = Ok c \<longleftrightarrow>
      (\<exists>j. find exact (rev (joined ta tb)) = Some j \<and> c = convergence_of (observed_joint E ia ib j))"
    unfolding rev_map
    by (rule confirm_joints [OF window_of_trace(1) [OF p(1,3) t(1)] window_of_trace(1) [OF p(2,3) t(2)]]) (use joined_members in auto)
  have "latest_depth_window_convergence E snapshot ra rb =
      rbind (advance_depth_window E ra ea ?l) (\<lambda>ca. rbind (advance_depth_window E rb eb ?l) (\<lambda>cb.
      rbind (merged_candidates E ra ea rb eb ca cb []) (\<lambda>cs. ?confirm (rev cs))))"
    using p prepare_Ok(1) [OF p(1)] prepare_Ok(1) [OF p(2)]
    by (simp add: latest_depth_window_convergence_def merged_candidates_def rbind_assoc case_prod_unfold)
  moreover have "rbind (advance_depth_window E ra ea ?l) (\<lambda>ca. rbind (advance_depth_window E rb eb ?l) (\<lambda>cb.
      rbind (merged_candidates E ra ea rb eb ca cb []) (\<lambda>cs. ?confirm (rev cs)))) = Ok c
    \<longleftrightarrow> xa = None \<and> (xb = None \<and> ?confirm (rev (map (candidate_of eb) (joined ta tb))) = Ok c)"
  proof (rule advance_then [OF l(1)])
    fix ca
    assume ca: "stands_at E ra ea ca ta xa"
    have "rbind (advance_depth_window E rb eb ?l) (\<lambda>cb. rbind (merged_candidates E ra ea rb eb ca cb []) (\<lambda>cs. ?confirm (rev cs))) = Ok c
      \<longleftrightarrow> xb = None \<and> (xa = None \<and> ?confirm (rev (map (candidate_of eb) (joined ta tb))) = Ok c)"
    proof (rule advance_then [OF l(2)])
      fix cb
      assume cb: "stands_at E rb eb cb tb xb"
      show "rbind (merged_candidates E ra ea rb eb ca cb []) (\<lambda>cs. ?confirm (rev cs)) = Ok c
        \<longleftrightarrow> xb = None \<and> (xa = None \<and> ?confirm (rev (map (candidate_of eb) (joined ta tb))) = Ok c)"
        unfolding rbind_eq_Ok merged_candidates_joined [OF ca cb ch] by auto
    qed
    then show "rbind (advance_depth_window E rb eb ?l) (\<lambda>cb. rbind (merged_candidates E ra ea rb eb ca cb []) (\<lambda>cs. ?confirm (rev cs))) = Ok c
      \<longleftrightarrow> xa = None \<and> (xb = None \<and> ?confirm (rev (map (candidate_of eb) (joined ta tb))) = Ok c)" by auto
  qed
  ultimately show ?thesis using conf by simp
qed

text \<open>The books the updates of a window leave, and a digest that separates their canonical texts.\<close>

definition window_books :: "'v externals \<Rightarrow> raw_record_envelope \<Rightarrow> raw_record_envelope list \<Rightarrow> local_order_book list" where
  "window_books E snapshot records =
     (case rbind (prepare_depth_window E snapshot records) (\<lambda>(i, events). rbind (open_book E (fst i) snapshot) (\<lambda>(_, b).
             Ok (map traced_book (fst (window_trace E records 0 False b events))))) of
        Inl _ \<Rightarrow> [] | Inr bs \<Rightarrow> bs)"

definition digest_separates :: "'v externals \<Rightarrow> local_order_book list \<Rightarrow> bool" where
  "digest_separates E bs \<longleftrightarrow> inj_on (sha256 E) (set (map (\<lambda>b. str_bytes (canonical_state b)) bs))"

lemma digest_same_state:
  assumes "book_ok E a" "book_ok E b" "lb_state a = Live" "lb_state b = Live" "lb_last_update_id a = Some m" "lb_last_update_id b = Some n"
    and "digest_separates E bs" "a \<in> set bs" "b \<in> set bs"
  shows "state_digest E a = state_digest E b \<longleftrightarrow> same_state a b"
proof
  assume "state_digest E a = state_digest E b"
  then have "sha256 E (str_bytes (canonical_state a)) = sha256 E (str_bytes (canonical_state b))"
    unfolding state_digest_def sha256_hex_def by (rule hex_inject)
  then have "str_bytes (canonical_state a) = str_bytes (canonical_state b)"
    using assms(7-9) by (auto simp: digest_separates_def dest: inj_onD)
  then have "canonical_state a = canonical_state b" by (rule str_bytes_inject)
  then show "same_state a b" using canonical_state_inject [of a b m n] assms(1-6) by (simp add: book_ok_def same_state_def)
qed (rule same_state_digest)

lemma same_state_fingerprint_ok:
  "book_ok E a \<Longrightarrow> book_ok E b \<Longrightarrow> lb_state a = Live \<Longrightarrow> same_state a b \<Longrightarrow> same_state_fingerprint a b"
  by (auto simp: book_ok_def same_state_def same_state_fingerprint_def)

text \<open>
  C12. The fast search is the reference search. When the digest separates the books of the two windows, the
  search over fingerprints finds a convergence exactly when both windows materialise and the splice of their
  fully hashed observations selects one, and it is that one: the two boundary observations, and the successor's
  next observation without its digest.
\<close>

theorem latest_convergence_is_splice:
  assumes "digest_separates E (window_books E snapshot ra @ window_books E snapshot rb)"
  shows "latest_depth_window_convergence E snapshot ra rb = Ok c \<longleftrightarrow>
    (\<exists>oa ob t. materialize_depth_record_window E snapshot ra = Ok oa \<and> materialize_depth_record_window E snapshot rb = Ok ob
      \<and> splice_loop Depth (predecessor_by_sequence oa) None ob = Ok (Some t) \<and> c = convergence_of t)"
proof (cases "\<exists>ia ea ib eb n b. prepare_depth_window E snapshot ra = Ok (ia, ea) \<and> prepare_depth_window E snapshot rb = Ok (ib, eb)
    \<and> open_book E (rf_symbol (re_frame snapshot)) snapshot = Ok (n, b)")
  case False
  have "latest_depth_window_convergence E snapshot ra rb \<noteq> Ok c"
    using False prepare_Ok(1) [of E snapshot ra] by (fastforce simp: latest_depth_window_convergence_def split: if_splits)
  moreover have "\<not> (materialize_depth_record_window E snapshot ra = Ok oa \<and> materialize_depth_record_window E snapshot rb = Ok ob)" for oa ob
    using False materialize_prepared [of E snapshot ra oa] materialize_prepared [of E snapshot rb ob] by blast
  ultimately show ?thesis by blast
next
  case True
  then obtain ia ea ib eb n b where p: "prepare_depth_window E snapshot ra = Ok (ia, ea)" "prepare_depth_window E snapshot rb = Ok (ib, eb)"
    "open_book E (rf_symbol (re_frame snapshot)) snapshot = Ok (n, b)" by blast
  obtain ta xa tb xb where t: "window_trace E ra 0 False b ea = (ta, xa)" "window_trace E rb 0 False b eb = (tb, xb)" by fastforce
  obtain j k where ch: "chained E ra ea (rf_symbol (re_frame snapshot)) xa n j ta" "chained E rb eb (rf_symbol (re_frame snapshot)) xb n k tb"
    using window_of_trace(2) [OF p(1,3) t(1)] window_of_trace(2) [OF p(2,3) t(2)] by blast
  have bks: "window_books E snapshot ra = map traced_book ta" "window_books E snapshot rb = map traced_book tb"
    using p t prepare_Ok(1) [OF p(1)] prepare_Ok(1) [OF p(2)] by (simp_all add: window_books_def)
  have dg: "state_digest E (traced_book a) = state_digest E (traced_book s) \<longleftrightarrow> same_state (traced_book a) (traced_book s)"
    if "a \<in> set ta" "s \<in> set tb" for a s
    by (rule digest_same_state [where m = "traced_final a" and n = "traced_final s", OF _ _ _ _ _ _ assms])
      (use that chained_book [OF ch(1) that(1)] chained_book [OF ch(2) that(2)] in \<open>simp_all add: bks del: split_paired_Ex\<close>)
  have fp: "same_state_fingerprint (traced_book a) (traced_book s)"
    if "a \<in> set ta" "s \<in> set tb" "same_state (traced_book a) (traced_book s)" for a s
    using that(3) chained_book [OF ch(1) that(1)] chained_book [OF ch(2) that(2)] by (intro same_state_fingerprint_ok) blast+
  note asc = chained_sorted [OF ch(1)] chained_sorted [OF ch(2)]
  have je: "filter exact (joined ta tb) = matches ta tb" by (rule joined_exact [OF asc fp])
  have sp: "splice_loop Depth (predecessor_by_sequence (map (observed E ia) ta)) None (map (observed E ib) tb)
      = Ok (chosen E ia ib None (matches ta tb))" by (rule splice_matches [OF asc(1) ch(2) dg]) simp_all
  have ne: "ta \<noteq> [] \<and> tb \<noteq> []" if "matches ta tb \<noteq> []" using that by (cases ta; cases tb) auto
  show ?thesis
    unfolding latest_trace [OF p t] materialize_trace [OF p(1,3) t(1)] materialize_trace [OF p(2,3) t(2)] find_rev je
    using sp ne by (auto simp: chosen_def simp del: split_paired_Ex split_paired_All split: if_splits)
qed

end
