(* ===== verification/Observations_Safety.thy ===== *)
theory Observations_Safety
  imports Observations
begin

text \<open>
  The cursor and the window are one function of the records, and a trade window is the record-wise
  materialisation with strictly increasing trade ids.
\<close>

section \<open>The cursor\<close>

lemma identity_Ok:
  "identity records = Ok i \<longleftrightarrow> records \<noteq> [] \<and> i = frame_identity (hd records) \<and> list_all (\<lambda>r. frame_identity r = i) records"
  by (cases records) (auto simp: identity_def list_ex_iff list_all_iff split: if_splits)

lemma cursor_apply_identity: "cursor_apply_record E c r = (res, c') \<Longrightarrow> cursor_identity c' = cursor_identity c"
  by (auto simp: cursor_apply_record_def Let_def cursor_identity_def split: if_splits sum.splits prod.splits bool.splits apply_outcome.splits)

lemma cursor_apply_refuses: "frame_identity r \<noteq> cursor_identity c \<Longrightarrow> \<exists>e. cursor_apply_record E c r = (Err e, c)"
  by (simp add: cursor_apply_record_def)

lemma cursor_apply_all_identity:
  "cursor_apply_all E c rs = Ok (xs, c') \<Longrightarrow> list_all (\<lambda>r. frame_identity r = cursor_identity c) rs"
proof (induction rs arbitrary: c xs)
  case (Cons r rs)
  then obtain x c1 ys where a: "cursor_apply_record E c r = (Ok x, c1)" "cursor_apply_all E c1 rs = Ok (ys, c')"
    by (auto split: prod.splits sum.splits)
  then have "frame_identity r = cursor_identity c" using cursor_apply_refuses [of r c E] by auto
  then show ?case using Cons.IH [OF a(2)] cursor_apply_identity [OF a(1)] by simp
qed simp

lemma window_loop_cursor:
  assumes "list_all (\<lambda>r. frame_identity r = cursor_identity c) rs" "dc_live_started c = (acc \<noteq> [])"
  shows "depth_window_loop E (cursor_identity c) (dc_book c) acc rs = Ok out \<longleftrightarrow>
    (\<exists>xs c'. cursor_apply_all E c rs = Ok (xs, c') \<and> out = acc @ xs)"
  using assms
proof (induction rs arbitrary: c acc)
  case (Cons r rs)
  let ?p = "rf_payload (re_frame r)"
  have i: "frame_identity r = cursor_identity c" "list_all (\<lambda>r. frame_identity r = cursor_identity c) rs"
    using Cons.prems(1) by simp_all
  have same: "cursor_identity (c\<lparr>dc_book := b\<rparr>) = cursor_identity c"
    "cursor_identity (c\<lparr>dc_book := b, dc_live_started := l\<rparr>) = cursor_identity c" for b l
    by (simp_all add: cursor_identity_def)
  consider (bad) e where "server_shutdown_payload E ?p = Err e" | (down) "server_shutdown_payload E ?p = Ok True"
    | (ids) e where "server_shutdown_payload E ?p = Ok False" "depth_event_ids E ?p = Err e"
    | (ev) a z where "server_shutdown_payload E ?p = Ok False" "depth_event_ids E ?p = Ok (a, z)"
    by (metis old.prod.exhaust sumE)
  then show ?case
  proof cases
    case down
    then show ?thesis using Cons.IH [OF i(2) Cons.prems(2)] i(1) by (simp add: cursor_apply_record_def)
  next
    case (ev a z)
    obtain oc b where ap: "apply_depth E (dc_book c) ?p = (oc, b)" by fastforce
    consider (err) e' where "oc = Inl e'" | (old) "oc = Inr Old" | (new) "oc = Inr Applied"
      by (cases oc) (auto intro: apply_outcome.exhaust)
    then show ?thesis
    proof cases
      case old
      then show ?thesis using ev ap i(1) Cons.prems(2) Cons.IH [of "c\<lparr>dc_book := b\<rparr>" acc] i(2) same(1)
        by (cases "acc = []") (simp_all add: cursor_apply_record_def)
    next
      case new
      let ?x = "depth_window_observation (cursor_identity c) r a z (state_digest E b)"
      let ?c = "c\<lparr>dc_book := b, dc_live_started := True\<rparr>"
      have "depth_window_loop E (cursor_identity c) b (acc @ [?x]) rs = Ok out \<longleftrightarrow>
          (\<exists>xs c'. cursor_apply_all E ?c rs = Ok (xs, c') \<and> out = (acc @ [?x]) @ xs)"
        using Cons.IH [of ?c "acc @ [?x]"] i(2) same(2) by simp
      then show ?thesis using new ev ap i(1) by (auto simp: cursor_apply_record_def)
    qed (use ev ap i(1) in \<open>simp add: cursor_apply_record_def\<close>)
  qed (use i(1) in \<open>simp_all add: cursor_apply_record_def\<close>)
qed auto

lemma cursor_from_snapshot_Ok:
  "cursor_from_snapshot E snapshot first = Ok c \<longleftrightarrow> str_contains (rf_stream (re_frame first)) ''@depth''
     \<and> rf_symbol (re_frame snapshot) = rf_symbol (re_frame first)
     \<and> (\<exists>n b. open_book E (rf_symbol (re_frame first)) snapshot = Ok (n, b) \<and> cursor_identity c = frame_identity first
         \<and> dc_book c = b \<and> \<not> dc_live_started c)"
  by (cases c) (auto simp: cursor_from_snapshot_def cursor_identity_def frame_identity_def split: if_splits)

text \<open>
  C38. The cursor is the window. A window materialises exactly when its frames are consecutive, at least one
  observation results and the cursor opened on the same snapshot accepts its records one at a time; then both
  yield the same observations. The cursor alone checks neither of the first two conditions.
\<close>

theorem cursor_equals_window:
  assumes "records \<noteq> []"
  shows "materialize_depth_record_window E snapshot records = Ok obs \<longleftrightarrow>
    require_contiguous_frames records = Ok () \<and> obs \<noteq> []
    \<and> (\<exists>c c'. cursor_from_snapshot E snapshot (hd records) = Ok c \<and> cursor_apply_all E c records = Ok (obs, c'))"
  (is "?window \<longleftrightarrow> ?frames \<and> _ \<and> ?cursor")
proof -
  let ?i = "frame_identity (hd records)"
  have w: "?window \<longleftrightarrow> ?frames \<and> obs \<noteq> [] \<and> list_all (\<lambda>r. frame_identity r = ?i) records
      \<and> str_contains (fst (snd ?i)) ''@depth'' \<and> rf_symbol (re_frame snapshot) = fst ?i
      \<and> (\<exists>n b. open_book E (fst ?i) snapshot = Ok (n, b) \<and> depth_window_loop E ?i b [] records = Ok obs)"
    using assms by (auto simp: materialize_depth_record_window_def identity_Ok split: if_splits)
  have cur: "?cursor \<longleftrightarrow> list_all (\<lambda>r. frame_identity r = ?i) records
      \<and> str_contains (fst (snd ?i)) ''@depth'' \<and> rf_symbol (re_frame snapshot) = fst ?i
      \<and> (\<exists>n b. open_book E (fst ?i) snapshot = Ok (n, b) \<and> depth_window_loop E ?i b [] records = Ok obs)" (is "_ \<longleftrightarrow> ?rhs")
  proof
    assume ?cursor
    then obtain c c' where c: "cursor_from_snapshot E snapshot (hd records) = Ok c" "cursor_apply_all E c records = Ok (obs, c')" by blast
    then obtain n b where b: "open_book E (rf_symbol (re_frame (hd records))) snapshot = Ok (n, b)" "cursor_identity c = ?i" "dc_book c = b"
      "\<not> dc_live_started c" by (auto simp: cursor_from_snapshot_Ok)
    have all: "list_all (\<lambda>r. frame_identity r = ?i) records" using cursor_apply_all_identity [OF c(2)] b(2) by simp
    then have "depth_window_loop E ?i b [] records = Ok obs"
      using window_loop_cursor [of c records "[]" E obs] c(2) b by simp
    then show ?rhs using all b(1) c(1) by (auto simp: cursor_from_snapshot_Ok frame_identity_def)
  next
    assume r: ?rhs
    then obtain n b where b: "open_book E (fst ?i) snapshot = Ok (n, b)" "depth_window_loop E ?i b [] records = Ok obs" by blast
    define c where "c = \<lparr>dc_symbol = fst ?i, dc_stream = fst (snd ?i), dc_connection_epoch = snd (snd ?i), dc_book = b, dc_live_started = False\<rparr>"
    have ci: "cursor_identity c = ?i" by (simp add: c_def cursor_identity_def)
    have "cursor_from_snapshot E snapshot (hd records) = Ok c"
      using r b(1) ci by (auto simp: cursor_from_snapshot_Ok frame_identity_def c_def)
    moreover have "\<exists>c'. cursor_apply_all E c records = Ok (obs, c')"
      using window_loop_cursor [of c records "[]" E obs] r b(2) ci by (auto simp: c_def)
    ultimately show ?cursor by blast
  qed
  show ?thesis unfolding w cur by blast
qed

section \<open>Trade windows\<close>

lemma next_trade_record:
  assumes "frame_identity r = i" "in_scope (fst i)" "str_ends_with (fst (snd i)) ''@trade''"
  shows "next_trade E tv i previous r = Ok (t, x) \<longleftrightarrow>
    materialize_trade_record E tv r = Ok x \<and> t = co_final_sequence x \<and> (\<forall>p. previous = Some p \<longrightarrow> p < co_final_sequence x)"
  using assms by (auto simp: next_trade_def materialize_trade_record_def trade_observation_def frame_identity_def split: option.splits if_splits)

lemma trade_window_loop_Ok:
  assumes "list_all (\<lambda>r. frame_identity r = i) rs" "in_scope (fst i)" "str_ends_with (fst (snd i)) ''@trade''"
  shows "trade_window_loop E tv i previous rs = Ok xs \<longleftrightarrow>
    list_all (\<lambda>r. \<exists>d. server_shutdown_payload E (rf_payload (re_frame r)) = Ok d) rs
    \<and> traverse (materialize_trade_record E tv) (filter (\<lambda>r. server_shutdown_payload E (rf_payload (re_frame r)) = Ok False) rs) = Ok xs
    \<and> sorted_wrt (\<lambda>x y. co_final_sequence x < co_final_sequence y) xs
    \<and> (\<forall>p x. previous = Some p \<longrightarrow> x \<in> set xs \<longrightarrow> p < co_final_sequence x)"
  using assms(1)
proof (induction rs arbitrary: previous xs)
  case (Cons r rs)
  have r: "frame_identity r = i" "list_all (\<lambda>r. frame_identity r = i) rs" using Cons.prems by simp_all
  consider (bad) e where "server_shutdown_payload E (rf_payload (re_frame r)) = Err e"
    | (down) "server_shutdown_payload E (rf_payload (re_frame r)) = Ok True"
    | (live) "server_shutdown_payload E (rf_payload (re_frame r)) = Ok False" by (metis sumE)
  then show ?case
  proof cases
    case live
    have "trade_window_loop E tv i previous (r # rs) = Ok xs \<longleftrightarrow> (\<exists>x ys. materialize_trade_record E tv r = Ok x
        \<and> (\<forall>p. previous = Some p \<longrightarrow> p < co_final_sequence x) \<and> trade_window_loop E tv i (Some (co_final_sequence x)) rs = Ok ys
        \<and> xs = x # ys)"
      using live by (auto simp: next_trade_record [OF r(1) assms(2,3)])
    then show ?thesis
      using live unfolding Cons.IH [OF r(2)] by (cases xs) (auto intro: less_trans)
  qed (use Cons.IH [OF r(2)] in auto)
qed auto

text \<open>
  A trade window is its records one by one. The window materialises exactly when its records share one
  identity in scope on consecutive frames, every payload is an object, every record but the shutdown notices
  materialises alone, and the trade ids strictly increase; its observations are then those of the records.
\<close>

theorem trade_window_exact:
  "materialize_trade_record_window E tv records = Ok obs \<longleftrightarrow>
    (\<exists>i. identity records = Ok i \<and> in_scope (fst i) \<and> str_ends_with (fst (snd i)) ''@trade'')
    \<and> require_contiguous_frames records = Ok ()
    \<and> list_all (\<lambda>r. \<exists>d. server_shutdown_payload E (rf_payload (re_frame r)) = Ok d) records
    \<and> traverse (materialize_trade_record E tv)
        (filter (\<lambda>r. server_shutdown_payload E (rf_payload (re_frame r)) = Ok False) records) = Ok obs
    \<and> sorted_wrt (\<lambda>x y. co_final_sequence x < co_final_sequence y) obs"
proof (cases "\<exists>i. identity records = Ok i \<and> in_scope (fst i) \<and> str_ends_with (fst (snd i)) ''@trade''")
  case False
  then show ?thesis by (auto simp: materialize_trade_record_window_def split: if_splits)
next
  case True
  then obtain i where i: "identity records = Ok i" "in_scope (fst i)" "str_ends_with (fst (snd i)) ''@trade''" by blast
  have "list_all (\<lambda>r. frame_identity r = i) records" using i(1) identity_Ok by metis
  from trade_window_loop_Ok [OF this i(2,3), of E tv None obs] i show ?thesis
    by (simp add: materialize_trade_record_window_def)
qed

end
