(* ===== verification/Observations_Witness.thy ===== *)
theory Observations_Witness
  imports Depth_Convergence_Safety Observations_Safety Order_Book_Witness
begin

text \<open>
  Two concrete windows over one snapshot: both connections deliver the updates 11 and 12, so the books converge at 11
  with 12 as the successor's continuation. The digest here keeps the last 32 bytes.
\<close>

definition tail32 :: "bytes \<Rightarrow> bytes" where
  "tail32 bs = take 32 (rev bs @ replicate 32 0)"

definition conv_depth :: "int \<Rightarrow> jv" where
  "conv_depth n = JObj [(''e'', JStr ''depthUpdate''), (''s'', JStr ''BTCUSDT''), (''U'', JNum n), (''u'', JNum n),
     (''b'', JArr []), (''a'', JArr [])]"

definition conv_snapshot :: jv where
  "conv_snapshot = JObj [(''lastUpdateId'', JNum 10), (''bids'', JArr [jlevel ''1'' ''1'']), (''asks'', JArr [jlevel ''2'' ''1''])]"

definition conv_E :: "jv externals" where
  "conv_E = (table_externals [([1], conv_snapshot), ([2], conv_depth 11), ([3], conv_depth 12)])\<lparr>sha256 := tail32\<rparr>"

lemma conv_E_sel [simp]:
  "sha256 conv_E = tail32" "json_get conv_E = jv_get" "json_as_str conv_E = jv_str" "json_as_u64 conv_E = jv_u64"
  "json_as_array conv_E = jv_array" "json_object_keys conv_E = jv_keys"
  "json_from_slice conv_E [1] = Some conv_snapshot" "json_from_slice conv_E [2] = Some (conv_depth 11)"
  "json_from_slice conv_E [3] = Some (conv_depth 12)"
  by (simp_all add: conv_E_def)

definition conv_record :: "string \<Rightarrow> nat \<Rightarrow> byte \<Rightarrow> raw_record_envelope" where
  "conv_record epoch index p =
     \<lparr>re_record_index = index, re_start_offset = 0, re_end_offset = 0, re_record_sha256 = [],
      re_frame = \<lparr>rf_venue = [], rf_environment = [], rf_endpoint = [], rf_symbol = ''BTCUSDT'', rf_stream = ''btcusdt@depth'',
        rf_connection_epoch = epoch, rf_frame_index = index, rf_receive_wall_ns = 0, rf_receive_mono_ns = 0, rf_payload = [p],
        rf_clock_quality = [], rf_clock_source = [], rf_clock_offset_ns = None, rf_clock_uncertainty_ns = None,
        rf_recorder_state = [], rf_spec_revision = []\<rparr>\<rparr>"

definition conv_window :: "string \<Rightarrow> nat \<Rightarrow> raw_record_envelope list" where
  "conv_window epoch k = [conv_record epoch k 2, conv_record epoch (k + 1) 3]"

definition conv_fp :: fingerprint where
  "conv_fp = book_fingerprint conv_E [(dec 1, dec 1)] [(dec 2, dec 1)]"

definition conv_book :: "book_state \<Rightarrow> nat \<Rightarrow> local_order_book" where
  "conv_book s n = \<lparr>lb_symbol = ''BTCUSDT'', lb_state = s, lb_last_update_id = Some n, lb_bids = [(dec 1, dec 1)],
     lb_asks = [(dec 2, dec 1)], lb_fingerprint = conv_fp\<rparr>"

lemma conv_invariants: "check_invariants (conv_book s n) = (Ok (), conv_book s n)"
  by (simp add: check_invariants_def best_bid_def best_ask_def conv_book_def bt_last_def fd_cmp_def aligned_def dec_def cmp_int_def
      pow10_i128_def mul_i128_def in_i128_def i128_max_def i128_min_def Let_def)

lemma conv_depth_fields:
  "field_str conv_E (conv_depth n) ''e'' = Some ''depthUpdate''" "field_str conv_E (conv_depth n) ''s'' = Some ''BTCUSDT''"
  "field_array conv_E (conv_depth n) ''b'' = Some []" "field_array conv_E (conv_depth n) ''a'' = Some []"
  "0 \<le> n \<Longrightarrow> n \<le> 100 \<Longrightarrow> field_u64 conv_E (conv_depth n) ''U'' = Some (nat n)"
  "0 \<le> n \<Longrightarrow> n \<le> 100 \<Longrightarrow> field_u64 conv_E (conv_depth n) ''u'' = Some (nat n)"
  "json_is_object conv_E (conv_depth n)"
  by (simp_all add: conv_depth_def field_str_def field_u64_def field_array_def u64_max_def json_is_object_def)

lemma conv_apply:
  "s = book_state.Syncing \<or> s = Live \<Longrightarrow> apply_depth conv_E (conv_book s 10) [2] = (Ok Applied, conv_book Live 11)"
  "apply_depth conv_E (conv_book Live 11) [3] = (Ok Applied, conv_book Live 12)"
proof -
  have step: "apply_depth_value conv_E (conv_book s n) (conv_depth (int n + 1)) = (Ok Applied, conv_book Live (n + 1))"
    if "s = book_state.Syncing \<or> s = Live" "n \<le> 50" for s n
  proof -
    have "nat (int n + 1) = n + 1" by simp
    then have ids: "depth_ids conv_E (conv_book s n) (conv_depth (int n + 1)) = Ok (n + 1, n + 1, n + 1)"
      using that by (auto simp: depth_ids_def conv_book_def accepts_depth_def expected_update_def conv_depth_fields required_str_def
          required_u64_def u64_max_def checked_add_def)
    have "(if s = book_state.Syncing then Live else s) = Live" using that(1) by auto
    then have "apply_prepared_depth conv_E (conv_book s n) (PreparedApply (n + 1) (n + 1) [] []) = (Ok Applied, conv_book Live (n + 1))"
      using that conv_invariants [of Live "n + 1"]
      by (auto simp: apply_prepared_depth_def conv_book_def accepts_depth_def expected_update_def checked_add_def u64_max_def)
    then show ?thesis
      by (simp add: apply_depth_value_def prepare_depth_value_def ids depth_levels_def conv_depth_fields)
  qed
  show "s = book_state.Syncing \<or> s = Live \<Longrightarrow> apply_depth conv_E (conv_book s 10) [2] = (Ok Applied, conv_book Live 11)"
    using step [of s 10] by (simp add: apply_depth_def)
  show "apply_depth conv_E (conv_book Live 11) [3] = (Ok Applied, conv_book Live 12)"
    using step [of Live 11] by (simp add: apply_depth_def)
qed

lemma conv_open: "open_book conv_E ''BTCUSDT'' (conv_record e k 1) = Ok (10, conv_book book_state.Syncing 10)"
proof -
  have p: "fd_parse ''1'' = Ok (dec 1)" "fd_parse ''2'' = Ok (dec 2)" by code_simp+
  have z: "\<not> is_zero (dec 1)" "\<not> is_negative (dec 1)" "\<not> is_zero (dec 2)" "\<not> is_negative (dec 2)"
    by (simp_all add: is_zero_def is_negative_def dec_def)
  have l: "load_side conv_E (field_array conv_E conv_snapshot ''bids'') ''bid'' = Ok [(dec 1, dec 1)]"
    "load_side conv_E (field_array conv_E conv_snapshot ''asks'') ''ask'' = Ok [(dec 2, dec 1)]"
    by (simp_all add: load_side_def field_array_def conv_snapshot_def parse_level_def jlevel_def p z)
  have req: "required_u64 conv_E conv_snapshot ''lastUpdateId'' = Ok 10"
    by (simp add: conv_snapshot_def field_u64_def u64_max_def)
  have "load_snapshot conv_E \<lparr>lb_symbol = ''BTCUSDT'', lb_state = Empty, lb_last_update_id = None, lb_bids = [], lb_asks = [],
      lb_fingerprint = [0, 0, 0, 0]\<rparr> [1] = (Ok 10, conv_book book_state.Syncing 10)"
    using conv_invariants [of book_state.Syncing 10, unfolded conv_book_def conv_fp_def book_fingerprint_def]
    by (simp add: load_snapshot_def req l Let_def conv_book_def conv_fp_def book_fingerprint_def del: side_fingerprint.simps)
  then show ?thesis by (simp add: open_book_def new_book_def conv_record_def)
qed

lemma conv_payloads:
  "server_shutdown_payload conv_E [2] = Ok False" "server_shutdown_payload conv_E [3] = Ok False"
  "depth_event_ids conv_E [2] = Ok (11, 11)" "depth_event_ids conv_E [3] = Ok (12, 12)"
  by (simp_all add: server_shutdown_payload_def depth_event_ids_def strict_object_def conv_depth_fields obs_field_u64_def)

lemma conv_record_sel [simp]:
  "rf_payload (re_frame (conv_record e k p)) = [p]" "rf_symbol (re_frame (conv_record e k p)) = ''BTCUSDT''"
  "rf_frame_index (re_frame (conv_record e k p)) = k"
  "frame_identity (conv_record e k p) = (''BTCUSDT'', ''btcusdt@depth'', e)"
  "rf_stream (re_frame (conv_record e k p)) = ''btcusdt@depth''" "rf_connection_epoch (re_frame (conv_record e k p)) = e"
  by (simp_all add: conv_record_def frame_identity_def)

lemma conv_stream: "str_contains ''btcusdt@depth'' ''@depth''"
  unfolding str_contains_def sublist_code by simp

lemma conv_frames: "k \<le> 10 \<Longrightarrow> require_contiguous_frames (conv_window e k) = Ok ()"
  by (simp add: conv_window_def checked_add_def u64_max_def)

definition conv_observation :: "string \<Rightarrow> nat \<Rightarrow> byte \<Rightarrow> nat \<Rightarrow> canonical_observation" where
  "conv_observation e k p n = depth_window_observation (''BTCUSDT'', ''btcusdt@depth'', e) (conv_record e k p) n n (state_digest conv_E (conv_book Live n))"

lemma conv_identity: "identity (conv_window e k) = Ok (''BTCUSDT'', ''btcusdt@depth'', e)"
  by (simp add: identity_def conv_window_def)

lemma conv_materialize:
  "k \<le> 10 \<Longrightarrow> materialize_depth_record_window conv_E (conv_record s j 1) (conv_window e k)
     = Ok [conv_observation e k 2 11, conv_observation e (k + 1) 3 12]"
  by (simp add: materialize_depth_record_window_def conv_identity conv_frames conv_stream conv_open)
    (auto simp: conv_window_def conv_payloads conv_apply conv_observation_def)

lemma conv_books:
  "k \<le> 10 \<Longrightarrow> window_books conv_E (conv_record s j 1) (conv_window e k) = [conv_book Live 11, conv_book Live 12]"
  by (simp add: window_books_def prepare_depth_window_def conv_identity conv_frames conv_stream conv_open)
    (simp add: conv_window_def conv_payloads record_at_def conv_apply conv_open)

lemma conv_digests: "sha256 conv_E (str_bytes (canonical_state (conv_book Live 11))) \<noteq> sha256 conv_E (str_bytes (canonical_state (conv_book Live 12)))"
proof -
  have d: "dec_str 11 = ''11''" "dec_str 12 = ''12''" by code_simp+
  define pre where "pre = ''{\"asks\":['' @ canonical_levels False [(dec 2, dec 1)] @ ''],\"bids\":['' @ canonical_levels False [(dec 1, dec 1)]
      @ ''],\"last_update_id\":''"
  have "canonical_state (conv_book Live n) = pre @ dec_str n @ '',\"symbol\":\"BTCUSDT\"}''" for n
    by (simp add: canonical_state_def conv_book_def pre_def)
  then show ?thesis by (simp add: tail32_def d str_bytes_def)
qed

text \<open>Witness: the two windows converge at 11, and the fast search says so.\<close>

theorem latest_convergence_is_splice_witness:
  "\<exists>c. latest_depth_window_convergence conv_E (conv_record ''s'' 0 1) (conv_window ''a'' 5) (conv_window ''b'' 0) = Ok c
    \<and> co_final_sequence (lc_predecessor_boundary c) = 11 \<and> co_final_sequence (lc_successor_continuation c) = 12"
proof -
  let ?a = "[conv_observation ''a'' 5 2 11, conv_observation ''a'' 6 3 12]"
  let ?b = "[conv_observation ''b'' 0 2 11, conv_observation ''b'' 1 3 12]"
  let ?t = "(conv_observation ''a'' 5 2 11, conv_observation ''b'' 0 2 11, conv_observation ''b'' 1 3 12)"
  have ds: "digest_separates conv_E (window_books conv_E (conv_record ''s'' 0 1) (conv_window ''a'' 5)
      @ window_books conv_E (conv_record ''s'' 0 1) (conv_window ''b'' 0))"
    using conv_digests by (auto simp: conv_books digest_separates_def inj_on_def)
  have sp: "splice_loop Depth (predecessor_by_sequence ?a) None ?b = Ok (Some ?t)"
    by (simp add: predecessor_by_sequence_def conv_observation_def depth_window_observation_def continues_def checked_add_def u64_max_def)
  have "latest_depth_window_convergence conv_E (conv_record ''s'' 0 1) (conv_window ''a'' 5) (conv_window ''b'' 0) = Ok (convergence_of ?t)"
    unfolding latest_convergence_is_splice [OF ds] using sp conv_materialize [of 5 "''s''" 0 "''a''"] conv_materialize [of 0 "''s''" 0 "''b''"] by auto
  then show ?thesis by (auto simp: convergence_of_def unhashed_def conv_observation_def depth_window_observation_def)
qed

text \<open>Witness: the cursor follows the first of the windows.\<close>

theorem cursor_equals_window_witness:
  "\<exists>c c'. cursor_from_snapshot conv_E (conv_record ''s'' 0 1) (hd (conv_window ''a'' 5)) = Ok c
    \<and> cursor_apply_all conv_E c (conv_window ''a'' 5) = Ok ([conv_observation ''a'' 5 2 11, conv_observation ''a'' 6 3 12], c')"
proof -
  have "conv_window ''a'' 5 \<noteq> []" by (simp add: conv_window_def)
  from cursor_equals_window [OF this, of conv_E "conv_record ''s'' 0 1" "[conv_observation ''a'' 5 2 11, conv_observation ''a'' 6 3 12]"]
  show ?thesis using conv_materialize [of 5 "''s''" 0 "''a''"] by simp
qed

end
