(* ===== verification/Capture_Config.thy ===== *)
theory Capture_Config
  imports Raw_Log_Reader
begin

text \<open>
  \<open>src/rust/lob-replay/src/capture_config.rs\<close>: the capture configuration is compared with the compiled endpoints and
  constants before a socket or a file is opened. The strict \<open>serde\<close> reading of the file is a parameter.
\<close>

definition PUBLIC_WS_BASE :: string where "PUBLIC_WS_BASE = ''wss://data-stream.binance.vision:443''"
definition PUBLIC_REST_BASE :: string where "PUBLIC_REST_BASE = ''https://data-api.binance.vision''"
definition PUBLIC_SPEC_REVISION :: string where "PUBLIC_SPEC_REVISION = ''976cc580553890e92031b77306147c0ed1de5a46''"

record json_config =
  jc_websocket_base :: string
  jc_rest_base :: string
  jc_depth_interval :: string
  jc_time_unit :: string
  jc_streams :: "string list"

record public_market_data_config =
  pc_schema_version :: string
  pc_environment :: string
  pc_venue :: string
  pc_symbols :: "string list"
  pc_json :: json_config
  pc_credentials :: string
  pc_order_entry :: string
  pc_spec_revision :: string

definition validate_public_capture_config ::
  "(bytes \<Rightarrow> public_market_data_config option) \<Rightarrow> bytes option \<Rightarrow> unit res" where
  "validate_public_capture_config from_slice config_file =
     rbind (ok_or (Fail ''read public capture config'') config_file) (\<lambda>bs.
     rbind (ok_or (Fail ''parse public capture config'') (from_slice bs)) (\<lambda>config.
     if pc_schema_version config \<noteq> ''1'' \<or> pc_environment config \<noteq> ''production-public-market-data''
        \<or> pc_venue config \<noteq> ''binance-spot'' \<or> pc_symbols config \<noteq> [''BTCUSDT'', ''ETHUSDT'']
        \<or> jc_websocket_base (pc_json config) \<noteq> PUBLIC_WS_BASE \<or> jc_rest_base (pc_json config) \<noteq> PUBLIC_REST_BASE
        \<or> jc_depth_interval (pc_json config) \<noteq> ''100ms'' \<or> jc_time_unit (pc_json config) \<noteq> ''MICROSECOND''
        \<or> jc_streams (pc_json config) \<noteq> [''depth'', ''trade''] \<or> pc_credentials config \<noteq> ''FORBIDDEN''
        \<or> pc_order_entry config \<noteq> ''ABSENT'' \<or> pc_spec_revision config \<noteq> PUBLIC_SPEC_REVISION
     then Err (Fail ''public capture config differs from the compiled effective contract'')
     else Ok ()))"

definition effective_config :: public_market_data_config where
  "effective_config =
     \<lparr>pc_schema_version = ''1'', pc_environment = ''production-public-market-data'', pc_venue = ''binance-spot'',
      pc_symbols = [''BTCUSDT'', ''ETHUSDT''],
      pc_json = \<lparr>jc_websocket_base = PUBLIC_WS_BASE, jc_rest_base = PUBLIC_REST_BASE, jc_depth_interval = ''100ms'',
        jc_time_unit = ''MICROSECOND'', jc_streams = [''depth'', ''trade'']\<rparr>,
      pc_credentials = ''FORBIDDEN'', pc_order_entry = ''ABSENT'', pc_spec_revision = PUBLIC_SPEC_REVISION\<rparr>"

text \<open>Every field is compared: only one configuration passes.\<close>

lemma capture_config_exact:
  "validate_public_capture_config from_slice config_file = Ok () \<longleftrightarrow> (\<exists>bs. config_file = Some bs \<and> from_slice bs = Some effective_config)"
proof -
  have "c = effective_config" if "validate_public_capture_config (\<lambda>_. Some c) (Some []) = Ok ()" for c
  proof (cases c)
    case (fields a b d e j f g h)
    then show ?thesis using that by (cases j) (simp add: validate_public_capture_config_def effective_config_def split: if_splits)
  qed
  moreover have "validate_public_capture_config (\<lambda>_. Some effective_config) (Some []) = Ok ()"
    by (simp add: validate_public_capture_config_def effective_config_def)
  ultimately show ?thesis
    by (cases config_file; cases "from_slice (the config_file)") (auto simp: validate_public_capture_config_def)
qed

end
