(* ===== verification/Socket_Addr.thy ===== *)
theory Socket_Addr
  imports Rust_Prelude
begin

text \<open>
  \<open>str::parse::<SocketAddr>()\<close> of the Rust standard library, as far as the crate asks: whether the address is
  unspecified, and the port. The parser is the one of \<open>core::net::parser\<close>: decimal and hexadecimal numbers with a
  digit limit, dotted IPv4, IPv6 with one elision and an IPv4 tail, an optional scope, and the port.
\<close>

record socket_addr =
  sa_unspecified :: bool
  sa_port :: nat

type_synonym 'a parser = "string \<Rightarrow> ('a \<times> string) option"

definition hex_value :: "char \<Rightarrow> nat option" where
  "hex_value c =
     (let n = (of_char c :: nat) in
      if 48 \<le> n \<and> n \<le> 57 then Some (n - 48)
      else if 97 \<le> n \<and> n \<le> 102 then Some (n - 87)
      else if 65 \<le> n \<and> n \<le> 70 then Some (n - 55)
      else None)"

text \<open>\<open>char::to_digit(radix)\<close>.\<close>

definition digit_in :: "nat \<Rightarrow> char \<Rightarrow> nat option" where
  "digit_in radix c = Option.bind (hex_value c) (\<lambda>d. if d < radix then Some d else None)"

text \<open>
  The loop of \<open>read_number\<close>: at most \<open>limit\<close> digits when a limit is given, none when the value leaves the type. It
  answers the value, the number of digits and the rest.
\<close>

fun number_loop :: "nat \<Rightarrow> nat option \<Rightarrow> nat \<Rightarrow> nat \<Rightarrow> nat \<Rightarrow> string \<Rightarrow> (nat \<times> nat \<times> string) option" where
  "number_loop radix limit bound value digits [] = Some (value, digits, [])"
| "number_loop radix limit bound value digits (c # cs) =
     (case digit_in radix c of
        None \<Rightarrow> Some (value, digits, c # cs)
      | Some d \<Rightarrow>
          if bound < value * radix + d \<or> (case limit of None \<Rightarrow> False | Some m \<Rightarrow> m < digits + 1) then None
          else number_loop radix limit bound (value * radix + d) (digits + 1) cs)"

definition read_number :: "nat \<Rightarrow> nat option \<Rightarrow> bool \<Rightarrow> nat \<Rightarrow> nat parser" where
  "read_number radix limit allow_zero_prefix bound s =
     (case number_loop radix limit bound 0 0 s of
        None \<Rightarrow> None
      | Some (value, digits, rest) \<Rightarrow>
          if digits = 0 \<or> (\<not> allow_zero_prefix \<and> s \<noteq> [] \<and> hd s = CHR ''0'' \<and> 1 < digits) then None
          else Some (value, rest))"

definition read_char :: "char \<Rightarrow> unit parser" where
  "read_char c s = (case s of x # xs \<Rightarrow> if x = c then Some ((), xs) else None | [] \<Rightarrow> None)"

text \<open>\<open>read_separator\<close>: the separator comes before every element but the first.\<close>

definition read_separator :: "char \<Rightarrow> nat \<Rightarrow> 'a parser \<Rightarrow> 'a parser" where
  "read_separator sep index inner s =
     (if 0 < index then Option.bind (read_char sep s) (\<lambda>(_, r). inner r) else inner s)"

definition read_octet :: "nat parser" where
  "read_octet = read_number 10 (Some 3) False 255"

definition read_ipv4 :: "nat list parser" where
  "read_ipv4 s =
     Option.bind (read_octet s) (\<lambda>(a, r1).
     Option.bind (read_separator CHR ''.'' 1 read_octet r1) (\<lambda>(b, r2).
     Option.bind (read_separator CHR ''.'' 2 read_octet r2) (\<lambda>(c, r3).
     Option.bind (read_separator CHR ''.'' 3 read_octet r3) (\<lambda>(d, r4).
     Some ([a, b, c, d], r4)))))"

text \<open>
  \<open>read_groups\<close> from group \<open>i\<close> of \<open>i + limit\<close>: the groups read, whether they ended with an IPv4 address, and the rest.
  An IPv4 address takes two groups, so it is tried while at least two are left.
\<close>

fun read_groups :: "nat \<Rightarrow> nat \<Rightarrow> string \<Rightarrow> nat list \<times> bool \<times> string" where
  "read_groups i 0 s = ([], False, s)"
| "read_groups i (Suc limit) s =
     (case (if 0 < limit then read_separator CHR '':'' i read_ipv4 s else None) of
        Some ([a, b, c, d], r) \<Rightarrow> ([a * 256 + b, c * 256 + d], True, r)
      | _ \<Rightarrow>
          (case read_separator CHR '':'' i (read_number 16 (Some 4) True 65535) s of
             None \<Rightarrow> ([], False, s)
           | Some (g, r) \<Rightarrow>
               (case read_groups (i + 1) limit r of (gs, v4, r1) \<Rightarrow> (g # gs, v4, r1))))"

definition read_ipv6 :: "nat list parser" where
  "read_ipv6 s =
     (case read_groups 0 8 s of
        (head, head_v4, r) \<Rightarrow>
          if length head = 8 then Some (head, r)
          else if head_v4 then None
          else
            Option.bind (read_char CHR '':'' r) (\<lambda>(_, r1).
            Option.bind (read_char CHR '':'' r1) (\<lambda>(_, r2).
            case read_groups 0 (8 - (length head + 1)) r2 of
              (tail, _, r3) \<Rightarrow> Some (head @ replicate (8 - length head - length tail) 0 @ tail, r3))))"

definition read_port :: "nat parser" where
  "read_port s = Option.bind (read_char CHR '':'' s) (\<lambda>(_, r). read_number 10 None True 65535 r)"

text \<open>An optional scope, \<open>%\<close> and a number, is skipped.\<close>

definition read_scope :: "string \<Rightarrow> string" where
  "read_scope s =
     (case Option.bind (read_char CHR ''%'' s) (\<lambda>(_, r). read_number 10 None True u32_max r) of
        None \<Rightarrow> s | Some (_, r) \<Rightarrow> r)"

definition socket_addr_v4 :: "socket_addr parser" where
  "socket_addr_v4 s =
     Option.bind (read_ipv4 s) (\<lambda>(ip, r).
     Option.bind (read_port r) (\<lambda>(port, r1).
     Some (\<lparr>sa_unspecified = list_all (\<lambda>x. x = 0) ip, sa_port = port\<rparr>, r1)))"

definition socket_addr_v6 :: "socket_addr parser" where
  "socket_addr_v6 s =
     Option.bind (read_char CHR ''['' s) (\<lambda>(_, r).
     Option.bind (read_ipv6 r) (\<lambda>(ip, r1).
     Option.bind (read_char CHR '']'' (read_scope r1)) (\<lambda>(_, r2).
     Option.bind (read_port r2) (\<lambda>(port, r3).
     Some (\<lparr>sa_unspecified = list_all (\<lambda>x. x = 0) ip, sa_port = port\<rparr>, r3)))))"

definition parse_socket_addr :: "string \<Rightarrow> socket_addr option" where
  "parse_socket_addr s =
     (case (case socket_addr_v4 s of None \<Rightarrow> socket_addr_v6 s | Some x \<Rightarrow> Some x) of
        Some (a, []) \<Rightarrow> Some a
      | _ \<Rightarrow> None)"

end
