(* ===== verification/Transport_Journal.thy ===== *)
theory Transport_Journal
  imports Raw_Log Byte_Lines Segment_Chain Socket_Addr "HOL-Library.Sublist"
begin

text \<open>
  \<open>src/rust/lob-replay/src/transport_journal.rs\<close>: the hash-chained journal of what a connection's transport did, one
  JSON line per event: the shape of every payload, the writer, the scan with its lifecycle checks, the seal and the
  diagnosis. A payload is a \<open>serde_json\<close> value behind the accessors of the externals; the codec of body and envelope is
  a record of parameters.
\<close>

section \<open>Data\<close>

definition TRANSPORT_MAX_RECORD_BYTES :: nat where "TRANSPORT_MAX_RECORD_BYTES = 1048576"
definition MAX_JOURNAL_BYTES :: nat where "MAX_JOURNAL_BYTES = 67108864"

record 'v transport_body =
  tb_schema :: string
  tb_record_index :: nat
  tb_wall_ns :: nat
  tb_mono_ns :: nat
  tb_stream :: string
  tb_connection_epoch :: string
  tb_event :: string
  tb_payload :: 'v
  tb_previous_record_sha256 :: string

record 'v transport_envelope =
  te_body :: "'v transport_body"
  te_record_sha256 :: string

record 'v transport_codec =
  tc_body_to_vec :: "'v transport_body \<Rightarrow> bytes option"
  tc_envelope_to_vec :: "'v transport_envelope \<Rightarrow> bytes option"
  tc_envelope_from_slice :: "bytes \<Rightarrow> 'v transport_envelope option"

record transport_seal =
  ts_schema :: string
  ts_file :: string
  ts_records :: nat
  ts_terminal_record_sha256 :: string
  ts_file_bytes :: nat
  ts_file_sha256 :: string

record 'v transport_diagnosis =
  td_schema :: string
  td_stream :: string
  td_connection_epoch :: string
  td_records :: nat
  td_terminal_record_sha256 :: string
  td_terminal_status :: string
  td_terminal_error :: "string option"
  td_terminal_received :: nat
  td_websocket_remote_endpoint :: "string option"
  td_read_timeouts :: nat
  td_last_tcp_info :: "'v option"
  td_event_counts :: "string \<Rightarrow> nat option"
  td_classification :: string
  td_attribution_scope :: string

record transport_writer =
  tw_path :: string
  tw_file_name :: string
  tw_sink :: sink
  tw_stream :: string
  tw_connection_epoch :: string
  tw_next_index :: nat
  tw_previous_record_sha256 :: string

section \<open>Payloads\<close>

definition valid_sha256 :: "string \<Rightarrow> bool" where
  "valid_sha256 s \<longleftrightarrow> length s = 64 \<and> list_all is_lower_hex s"

definition exact_keys :: "'v externals \<Rightarrow> 'v \<Rightarrow> string list \<Rightarrow> bool" where
  "exact_keys E v expected \<longleftrightarrow> json_object_keys E v = Some expected"

text \<open>\<open>object.get(field).is_some_and(p)\<close>.\<close>

definition field_is :: "'v externals \<Rightarrow> 'v \<Rightarrow> string \<Rightarrow> ('v \<Rightarrow> bool) \<Rightarrow> bool" where
  "field_is E v f p = (case json_get E v f of None \<Rightarrow> False | Some x \<Rightarrow> p x)"

definition str_is :: "'v externals \<Rightarrow> 'v \<Rightarrow> string \<Rightarrow> (string \<Rightarrow> bool) \<Rightarrow> bool" where
  "str_is E v f p = (case field_str E v f of None \<Rightarrow> False | Some x \<Rightarrow> p x)"

definition u64_is :: "'v externals \<Rightarrow> 'v \<Rightarrow> string \<Rightarrow> (nat \<Rightarrow> bool) \<Rightarrow> bool" where
  "u64_is E v f p = (case field_u64 E v f of None \<Rightarrow> False | Some x \<Rightarrow> p x)"

definition state_name :: "int \<Rightarrow> string" where
  "state_name n =
     (if n = 0 then ''CLOSED'' else if n = 1 then ''LISTEN'' else if n = 2 then ''SYN_SENT'' else if n = 3 then ''SYN_RECEIVED''
      else if n = 4 then ''ESTABLISHED'' else if n = 5 then ''FIN_WAIT_1'' else if n = 6 then ''FIN_WAIT_2''
      else if n = 7 then ''CLOSE_WAIT'' else if n = 8 then ''CLOSING'' else if n = 9 then ''LAST_ACK''
      else if n = 10 then ''TIME_WAIT'' else ''UNKNOWN'')"

definition valid_windows_tcp_sample :: "'v externals \<Rightarrow> 'v \<Rightarrow> bool" where
  "valid_windows_tcp_sample E v \<longleftrightarrow>
     exact_keys E v [''api'', ''api_version'', ''bytes_in'', ''bytes_in_flight'', ''bytes_out'', ''bytes_reordered'',
       ''bytes_retransmitted'', ''congestion_window_bytes'', ''connection_time_ms'', ''duplicate_acks_in'', ''fast_retransmits'',
       ''min_rtt_us'', ''mss'', ''receive_buffer_bytes'', ''receive_window_bytes'', ''rtt_us'', ''schema'', ''send_window_bytes'',
       ''state'', ''state_name'', ''syn_retransmits'', ''timeout_episodes'', ''timestamps_enabled'']
     \<and> field_str E v ''schema'' = Some ''WindowsTcpInfoV0'' \<and> field_str E v ''api'' = Some ''SIO_TCP_INFO''
     \<and> field_u64 E v ''api_version'' = Some 0
     \<and> list_all (\<lambda>f. u64_is E v f (\<lambda>n. n \<le> u32_max))
         [''bytes_in_flight'', ''bytes_reordered'', ''bytes_retransmitted'', ''congestion_window_bytes'', ''connection_time_ms'',
          ''duplicate_acks_in'', ''fast_retransmits'', ''min_rtt_us'', ''mss'', ''receive_buffer_bytes'', ''receive_window_bytes'',
          ''rtt_us'', ''send_window_bytes'', ''timeout_episodes'']
     \<and> list_all (\<lambda>f. field_u64 E v f \<noteq> None) [''bytes_in'', ''bytes_out'', ''connection_time_ms'']
     \<and> u64_is E v ''syn_retransmits'' (\<lambda>n. n \<le> 255)
     \<and> (case field_i64 E v ''state'' of None \<Rightarrow> False
         | Some n \<Rightarrow> - 2147483648 \<le> n \<and> n \<le> 2147483647 \<and> field_str E v ''state_name'' = Some (state_name n))
     \<and> field_is E v ''timestamps_enabled'' (\<lambda>x. json_as_bool E x \<noteq> None)"

definition valid_tcp_observation :: "'v externals \<Rightarrow> 'v \<Rightarrow> bool" where
  "valid_tcp_observation E v \<longleftrightarrow> json_is_object E v \<and>
     (case field_str E v ''status'' of
        None \<Rightarrow> False
      | Some status \<Rightarrow>
          if status = ''AVAILABLE'' then exact_keys E v [''sample'', ''status''] \<and> field_is E v ''sample'' (valid_windows_tcp_sample E)
          else if status = ''UNAVAILABLE'' then exact_keys E v [''error'', ''status''] \<and> str_is E v ''error'' (\<lambda>s. \<not> trim_is_empty s)
          else status = ''UNSUPPORTED_PLATFORM'' \<and> exact_keys E v [''status''])"

definition valid_socket_endpoint :: "'v externals \<Rightarrow> nat option \<Rightarrow> 'v \<Rightarrow> bool" where
  "valid_socket_endpoint E expected_port v =
     (case Option.bind (json_as_str E v) parse_socket_addr of
        None \<Rightarrow> False
      | Some a \<Rightarrow> \<not> sa_unspecified a \<and> sa_port a \<noteq> 0 \<and> (case expected_port of None \<Rightarrow> True | Some p \<Rightarrow> sa_port a = p))"

definition valid_websocket_error :: "'v externals \<Rightarrow> 'v \<Rightarrow> bool" where
  "valid_websocket_error E v \<longleftrightarrow> json_is_object E v \<and>
     (case field_str E v ''category'' of
        None \<Rightarrow> False
      | Some category \<Rightarrow>
          if category = ''IO''
          then exact_keys E v [''category'', ''io_kind'', ''message'', ''native_os_error'']
            \<and> str_is E v ''io_kind'' (\<lambda>s. s \<noteq> []) \<and> str_is E v ''message'' (\<lambda>s. s \<noteq> [])
            \<and> field_is E v ''native_os_error'' (\<lambda>x. json_is_null E x \<or> json_as_i64 E x \<noteq> None)
          else category \<noteq> [] \<and> exact_keys E v [''category'', ''message''] \<and> str_is E v ''message'' (\<lambda>s. s \<noteq> []))"

definition has_text :: "'v externals \<Rightarrow> 'v \<Rightarrow> string \<Rightarrow> bool" where
  "has_text E v f = str_is E v f (\<lambda>s. \<not> trim_is_empty s)"

definition has_u64 :: "'v externals \<Rightarrow> 'v \<Rightarrow> string \<Rightarrow> bool" where
  "has_u64 E v f \<longleftrightarrow> field_u64 E v f \<noteq> None"

definition has_tcp_info :: "'v externals \<Rightarrow> 'v \<Rightarrow> bool" where
  "has_tcp_info E v = field_is E v ''tcp_info'' (valid_tcp_observation E)"

definition diagnostic_host :: "'v externals \<Rightarrow> 'v \<Rightarrow> bool" where
  "diagnostic_host E v \<longleftrightarrow> field_str E v ''host'' = Some ''data-stream.binance.vision'' \<and> field_u64 E v ''port'' = Some 443
     \<and> field_str E v ''role'' = Some ''DIAGNOSTIC_OBSERVATION_NOT_CONNECT_SELECTION''"

definition valid_supervisor_stop :: "'v externals \<Rightarrow> 'v \<Rightarrow> bool" where
  "valid_supervisor_stop E v \<longleftrightarrow>
     exact_keys E v [''campaign_failure_record_sha256'', ''reason'', ''source'', ''tcp_info'']
     \<and> field_is E v ''campaign_failure_record_sha256''
         (\<lambda>x. json_is_null E x \<or> (case json_as_str E x of None \<Rightarrow> False | Some s \<Rightarrow> valid_sha256 s))
     \<and> has_text E v ''reason''
     \<and> str_is E v ''source'' (\<lambda>s. s = ''CAMPAIGN_STOP_REQUEST'' \<or> s = ''LOCAL_GENERATION_SUPERVISOR'')
     \<and> has_tcp_info E v
     \<and> (if field_str E v ''source'' = Some ''CAMPAIGN_STOP_REQUEST'' then str_is E v ''campaign_failure_record_sha256'' valid_sha256
        else field_str E v ''source'' = Some ''LOCAL_GENERATION_SUPERVISOR''
          \<and> field_is E v ''campaign_failure_record_sha256'' (json_is_null E))"

definition valid_terminal :: "'v externals \<Rightarrow> 'v \<Rightarrow> bool" where
  "valid_terminal E v \<longleftrightarrow> exact_keys E v [''error'', ''received'', ''status''] \<and> has_u64 E v ''received''
     \<and> (if field_str E v ''status'' = Some ''STOPPED'' then field_is E v ''error'' (json_is_null E)
        else field_str E v ''status'' = Some ''FAILED'' \<and> has_text E v ''error'')"

definition valid_pong :: "'v externals \<Rightarrow> 'v \<Rightarrow> bool" where
  "valid_pong E v \<longleftrightarrow>
     (exact_keys E v [''payload_bytes'', ''payload_sha256''] \<or> exact_keys E v [''payload_bytes'', ''payload_sha256'', ''watchdog_rtt_ms''])
     \<and> has_u64 E v ''payload_bytes'' \<and> str_is E v ''payload_sha256'' valid_sha256
     \<and> (case json_get E v ''watchdog_rtt_ms'' of None \<Rightarrow> True | Some x \<Rightarrow> json_is_null E x \<or> json_as_u64 E x \<noteq> None)"

definition valid_close :: "'v externals \<Rightarrow> 'v \<Rightarrow> bool" where
  "valid_close E x \<longleftrightarrow> json_is_null E x
     \<or> exact_keys E x [''code'', ''reason''] \<and> field_str E x ''code'' \<noteq> None \<and> field_str E x ''reason'' \<noteq> None"

definition deadline_payload :: "'v externals \<Rightarrow> 'v \<Rightarrow> bool" where
  "deadline_payload E v \<longleftrightarrow> exact_keys E v [''deadline_ms'', ''inactive_ms'', ''tcp_info''] \<and> has_u64 E v ''deadline_ms''
     \<and> has_u64 E v ''inactive_ms'' \<and> has_tcp_info E v"

definition valid_transport_payload :: "'v externals \<Rightarrow> string \<Rightarrow> 'v \<Rightarrow> bool" where
  "valid_transport_payload E event v =
     (if \<not> json_is_object E v then False
      else if event = ''CONNECT_ATTEMPT''
      then exact_keys E v [''uri''] \<and> str_is E v ''uri'' (\<lambda>s. prefix ''wss://data-stream.binance.vision:443/ws/'' s)
      else if event = ''DNS_OBSERVED''
      then exact_keys E v [''addresses'', ''host'', ''port'', ''role''] \<and> diagnostic_host E v
        \<and> (case field_array E v ''addresses'' of None \<Rightarrow> False
            | Some xs \<Rightarrow> xs \<noteq> [] \<and> list_all (valid_socket_endpoint E (Some 443)) xs)
      else if event = ''DNS_FAILED''
      then exact_keys E v [''error'', ''host'', ''port'', ''role''] \<and> has_text E v ''error'' \<and> diagnostic_host E v
      else if event = ''CONNECT_FAILED'' then exact_keys E v [''error''] \<and> field_is E v ''error'' (valid_websocket_error E)
      else if event = ''WEBSOCKET_UPGRADE_REJECTED''
      then exact_keys E v [''http_status''] \<and> u64_is E v ''http_status'' (\<lambda>n. 100 \<le> n \<and> n \<le> 599 \<and> n \<noteq> 101)
      else if event = ''WEBSOCKET_CONNECTED''
      then exact_keys E v [''local_endpoint'', ''remote_endpoint'', ''tcp_info'', ''websocket_http_status'']
        \<and> field_is E v ''local_endpoint'' (valid_socket_endpoint E None)
        \<and> field_is E v ''remote_endpoint'' (valid_socket_endpoint E (Some 443))
        \<and> field_u64 E v ''websocket_http_status'' = Some 101 \<and> has_tcp_info E v
      else if event = ''FAULT_INJECTED_SILENT_STALL''
      then exact_keys E v [''after_mono_ns'', ''stream''] \<and> has_u64 E v ''after_mono_ns''
        \<and> str_is E v ''stream'' (\<lambda>s. s = ''depth'' \<or> s = ''trade'')
      else if event = ''READ_TIMEOUT''
      then exact_keys E v [''inactive_ms'', ''io_kind'', ''native_os_error'', ''tcp_info''] \<and> has_u64 E v ''inactive_ms''
        \<and> has_text E v ''io_kind'' \<and> field_is E v ''native_os_error'' (\<lambda>x. json_is_null E x \<or> json_as_i64 E x \<noteq> None)
        \<and> has_tcp_info E v
      else if event = ''TRANSPORT_DEADLINE'' then deadline_payload E v
      else if event = ''SOCKET_READ_ERROR''
      then exact_keys E v [''error'', ''tcp_info''] \<and> field_is E v ''error'' (valid_websocket_error E) \<and> has_tcp_info E v
      else if event = ''WEBSOCKET_CLOSE''
      then exact_keys E v [''close'', ''tcp_info''] \<and> field_is E v ''close'' (valid_close E) \<and> has_tcp_info E v
      else if event = ''WS_PING_PONG_FLUSHED''
      then exact_keys E v [''payload_bytes'', ''payload_sha256''] \<and> has_u64 E v ''payload_bytes''
        \<and> str_is E v ''payload_sha256'' valid_sha256
      else if event = ''WS_PONG_RECEIVED'' then valid_pong E v
      else if event = ''WATCHDOG_PING_SENT''
      then exact_keys E v [''deadline_ms'', ''interval_ms''] \<and> has_u64 E v ''deadline_ms'' \<and> has_u64 E v ''interval_ms''
      else if event = ''WATCHDOG_PONG_DEADLINE'' then deadline_payload E v
      else if event = ''UNEXPECTED_RAW_FRAME'' then exact_keys E v []
      else if event = ''CLIENT_STOP_OBSERVED'' then exact_keys E v [''tcp_info''] \<and> has_tcp_info E v
      else if event = ''SUPERVISOR_FAILURE_STOP'' then valid_supervisor_stop E v
      else if event = ''PRODUCER_FAILURE''
      then exact_keys E v [''error'', ''stage''] \<and> has_text E v ''error'' \<and> field_str E v ''stage'' = Some ''PRODUCER_LOOP''
      else event = ''TRANSPORT_TERMINAL'' \<and> valid_terminal E v)"

section \<open>The scan\<close>

text \<open>The local variables of the loop.\<close>

record 'v transport_scan =
  tx_expected_index :: nat
  tx_previous :: string
  tx_stream :: "string option"
  tx_epoch :: "string option"
  tx_first_event :: "string option"
  tx_last_event :: "string option"
  tx_last_payload :: "'v option"
  tx_connected :: bool
  tx_client_stop :: bool
  tx_failure_reason :: "string option"
  tx_terminal_seen :: bool

definition transport_scan_start :: "'v transport_scan" where
  "transport_scan_start = \<lparr>tx_expected_index = 0, tx_previous = ZERO_DIGEST, tx_stream = None, tx_epoch = None, tx_first_event = None,
     tx_last_event = None, tx_last_payload = None, tx_connected = False, tx_client_stop = False, tx_failure_reason = None,
     tx_terminal_seen = False\<rparr>"

definition transport_record_ok :: "'v externals \<Rightarrow> string \<Rightarrow> 'v transport_envelope \<Rightarrow> 'v transport_scan \<Rightarrow> bool" where
  "transport_record_ok E digest env s \<longleftrightarrow>
     tb_schema (te_body env) = ''TransportJournalRecordV1'' \<and> tb_record_index (te_body env) = tx_expected_index s
     \<and> tb_wall_ns (te_body env) \<noteq> 0 \<and> (tb_stream (te_body env) = ''depth'' \<or> tb_stream (te_body env) = ''trade'')
     \<and> \<not> trim_is_empty (tb_connection_epoch (te_body env)) \<and> \<not> trim_is_empty (tb_event (te_body env))
     \<and> valid_transport_payload E (tb_event (te_body env)) (tb_payload (te_body env))
     \<and> tb_previous_record_sha256 (te_body env) = tx_previous s \<and> te_record_sha256 env = digest
     \<and> valid_sha256 (te_record_sha256 env)"

definition lifecycle_sequence :: "string \<Rightarrow> 'v transport_scan \<Rightarrow> bool" where
  "lifecycle_sequence event s \<longleftrightarrow>
     \<not> tx_terminal_seen s \<and> (tx_expected_index s = 0 \<longrightarrow> event = ''CONNECT_ATTEMPT'')
     \<and> (tx_expected_index s = 1 \<longrightarrow> event = ''DNS_OBSERVED'' \<or> event = ''DNS_FAILED'')
     \<and> (tx_expected_index s = 2 \<longrightarrow> event \<in> {''CONNECT_FAILED'', ''WEBSOCKET_UPGRADE_REJECTED'', ''WEBSOCKET_CONNECTED'',
          ''SUPERVISOR_FAILURE_STOP'', ''PRODUCER_FAILURE''})"

definition socket_events :: "string set" where
  "socket_events = {''READ_TIMEOUT'', ''TRANSPORT_DEADLINE'', ''SOCKET_READ_ERROR'', ''WEBSOCKET_CLOSE'', ''WS_PING_PONG_FLUSHED'',
     ''WS_PONG_RECEIVED'', ''WATCHDOG_PING_SENT'', ''WATCHDOG_PONG_DEADLINE'', ''UNEXPECTED_RAW_FRAME'',
     ''FAULT_INJECTED_SILENT_STALL'', ''CLIENT_STOP_OBSERVED''}"

text \<open>The \<open>match\<close> on the event.\<close>

definition lifecycle_event :: "'v externals \<Rightarrow> string \<Rightarrow> 'v \<Rightarrow> 'v transport_scan \<Rightarrow> 'v transport_scan res" where
  "lifecycle_event E event payload s =
     (if event = ''WEBSOCKET_CONNECTED''
      then (if tx_connected s then Err (Fail ''transport journal contains duplicate WebSocket connection'')
            else Ok (s\<lparr>tx_connected := True\<rparr>))
      else if event \<in> socket_events
      then (if \<not> tx_connected s then Err (Fail ''transport event precedes WebSocket connection'')
            else Ok (if event = ''CLIENT_STOP_OBSERVED'' then s\<lparr>tx_client_stop := True\<rparr> else s))
      else if event = ''SUPERVISOR_FAILURE_STOP''
      then (if 2 < tx_expected_index s \<and> \<not> tx_connected s then Err (Fail ''supervisor failure stop has no observable socket boundary'') else Ok s)
      else if event = ''PRODUCER_FAILURE'' then Ok (s\<lparr>tx_failure_reason := field_str E payload ''error''\<rparr>)
      else if event = ''TRANSPORT_TERMINAL''
      then
        let status = field_str E payload ''status''; error = field_str E payload ''error'' in
        if status = Some ''STOPPED'' \<and> (\<not> tx_client_stop s \<or> tx_failure_reason s \<noteq> None)
           \<or> status = Some ''FAILED'' \<and> (tx_failure_reason s = None \<or> error \<noteq> tx_failure_reason s)
        then Err (Fail ''transport terminal contradicts its observed lifecycle'')
        else Ok (s\<lparr>tx_terminal_seen := True\<rparr>)
      else Ok s)"

definition transport_scan_step ::
  "'v externals \<Rightarrow> 'v transport_codec \<Rightarrow> (string \<times> string \<times> string) option \<Rightarrow> bytes \<Rightarrow> 'v transport_scan \<Rightarrow> 'v transport_scan res" where
  "transport_scan_step E C expected_identity line s =
     rbind (ok_or (Fail ''invalid transport journal JSON'') (tc_envelope_from_slice C line)) (\<lambda>env.
     rbind (ok_or (Fail ''serialize scanned transport journal body'') (tc_body_to_vec C (te_body env))) (\<lambda>body_bytes.
     let digest = sha256_hex E body_bytes; event = tb_event (te_body env); payload = tb_payload (te_body env) in
     if \<not> transport_record_ok E digest env s then Err (Fail ''transport journal identity/hash chain is invalid'')
     else if (case tx_stream s of None \<Rightarrow> False | Some v \<Rightarrow> v \<noteq> tb_stream (te_body env))
          \<or> (case tx_epoch s of None \<Rightarrow> False | Some v \<Rightarrow> v \<noteq> tb_connection_epoch (te_body env))
     then Err (Fail ''transport journal changed stream or connection epoch'')
     else if tx_expected_index s = 0
          \<and> (case expected_identity of None \<Rightarrow> False | Some (_, _, uri) \<Rightarrow> field_str E payload ''uri'' \<noteq> Some uri)
     then Err (Fail ''transport journal connect URI differs from its stream binding'')
     else if \<not> lifecycle_sequence event s then Err (Fail ''transport journal lifecycle sequence is invalid'')
     else if 2 < tx_expected_index s \<and> \<not> tx_connected s \<and> event \<noteq> ''PRODUCER_FAILURE''
          \<and> \<not> (event = ''TRANSPORT_TERMINAL'' \<and> tx_failure_reason s \<noteq> None)
     then Err (Fail ''transport journal advanced without a WebSocket connection'')
     else if tx_client_stop s \<and> event \<noteq> ''TRANSPORT_TERMINAL'' then Err (Fail ''transport journal continued after client stop'')
     else if tx_failure_reason s \<noteq> None \<and> event \<noteq> ''TRANSPORT_TERMINAL''
     then Err (Fail ''transport journal continued after producer failure'')
     else rbind (lifecycle_event E event payload s) (\<lambda>s1.
       rbind (ok_or (Fail ''transport journal index overflow'') (checked_add (tx_expected_index s) 1)) (\<lambda>index.
       Ok (s1\<lparr>tx_stream := Some (case tx_stream s of None \<Rightarrow> tb_stream (te_body env) | Some v \<Rightarrow> v),
              tx_epoch := Some (case tx_epoch s of None \<Rightarrow> tb_connection_epoch (te_body env) | Some v \<Rightarrow> v),
              tx_first_event := Some (case tx_first_event s of None \<Rightarrow> event | Some v \<Rightarrow> v),
              tx_last_event := Some event, tx_last_payload := Some payload, tx_previous := digest, tx_expected_index := index\<rparr>)))))"

text \<open>\<open>take(MAX_RECORD_BYTES + 1).read_until(newline)\<close>, one line with its newline.\<close>

definition read_transport_line :: "bytes \<Rightarrow> bytes" where
  "read_transport_line bs =
     (let chunk = take (TRANSPORT_MAX_RECORD_BYTES + 1) bs; line = takeWhile (\<lambda>b. b \<noteq> newline) chunk
      in if newline \<in> set chunk then line @ [newline] else chunk)"

lemma read_transport_line_pos: "bs \<noteq> [] \<Longrightarrow> read_transport_line bs \<noteq> []"
  by (cases bs) (auto simp: read_transport_line_def Let_def)

function transport_scan_loop ::
  "'v externals \<Rightarrow> 'v transport_codec \<Rightarrow> (string \<times> string \<times> string) option \<Rightarrow> bytes \<Rightarrow> 'v transport_scan \<Rightarrow> 'v transport_scan res" where
  "transport_scan_loop E C identity bs s =
     (if bs = [] then Ok s
      else
        let line = read_transport_line bs in
        if TRANSPORT_MAX_RECORD_BYTES < length line \<or> last line \<noteq> newline
        then Err (Fail ''transport journal contains an oversized or partial record'')
        else rbind (transport_scan_step E C identity (butlast line) s) (\<lambda>s1.
          transport_scan_loop E C identity (drop (length line) bs) s1))"
  by pat_completeness auto
termination
  by (relation "measure (\<lambda>(E, C, i, bs, s). length bs)") (auto intro!: diff_less dest: read_transport_line_pos)

declare transport_scan_loop.simps [simp del]

definition scan_transport_journal_internal ::
  "'v externals \<Rightarrow> 'v transport_codec \<Rightarrow> string \<Rightarrow> bytes option \<Rightarrow> (string \<times> string \<times> string) option \<Rightarrow> nat option \<Rightarrow> transport_seal res" where
  "scan_transport_journal_internal E C path journal_file expected_identity expected_terminal_received =
     rbind (ok_or (Fail ''open'') journal_file) (\<lambda>bs.
     if bs = [] \<or> MAX_JOURNAL_BYTES < length bs then Err (Fail ''transport journal is empty or exceeds its total size bound'')
     else rbind (transport_scan_loop E C expected_identity bs transport_scan_start) (\<lambda>s.
       if tx_expected_index s = 0 then Err (Fail ''transport journal is empty'')
       else if (case expected_identity of None \<Rightarrow> False
                | Some (stream, epoch, _) \<Rightarrow> tx_stream s \<noteq> Some stream \<or> tx_epoch s \<noteq> Some epoch)
       then Err (Fail ''transport journal differs from its bound stream/epoch'')
       else if tx_first_event s \<noteq> Some ''CONNECT_ATTEMPT'' \<or> tx_last_event s \<noteq> Some ''TRANSPORT_TERMINAL'' \<or> \<not> tx_terminal_seen s
       then Err (Fail ''transport journal lifecycle boundary is invalid'')
       else rbind (case expected_terminal_received of
                     None \<Rightarrow> Ok ()
                   | Some expected_received \<Rightarrow>
                       (case tx_last_payload s of
                          None \<Rightarrow> Err (Fail ''transport terminal payload is not an object'')
                        | Some payload \<Rightarrow>
                            if \<not> json_is_object E payload then Err (Fail ''transport terminal payload is not an object'')
                            else check (tx_last_event s = Some ''TRANSPORT_TERMINAL'' \<and> exact_keys E payload [''error'', ''received'', ''status'']
                                   \<and> field_is E payload ''error'' (json_is_null E) \<and> field_u64 E payload ''received'' = Some expected_received
                                   \<and> field_str E payload ''status'' = Some ''STOPPED'')
                                 (Fail ''sealed transport journal terminal status/count is invalid''))) (\<lambda>_.
         rbind (ok_or (Fail ''transport journal path lacks a UTF-8 file name'') (path_file_name path)) (\<lambda>file_name.
         Ok \<lparr>ts_schema = ''TransportJournalSealV1'', ts_file = file_name, ts_records = tx_expected_index s,
             ts_terminal_record_sha256 = tx_previous s, ts_file_bytes = length bs, ts_file_sha256 = sha256_hex E bs\<rparr>))))"

definition scan_transport_journal ::
  "'v externals \<Rightarrow> 'v transport_codec \<Rightarrow> string \<Rightarrow> bytes option \<Rightarrow> transport_seal res" where
  "scan_transport_journal E C path journal_file = scan_transport_journal_internal E C path journal_file None None"

definition verify_sealed_transport_journal ::
  "'v externals \<Rightarrow> 'v transport_codec \<Rightarrow> string \<Rightarrow> bytes option \<Rightarrow> string \<Rightarrow> string \<Rightarrow> string \<Rightarrow> nat \<Rightarrow> transport_seal res" where
  "verify_sealed_transport_journal E C path journal_file stream connection_epoch expected_uri expected_received =
     (if trim_is_empty expected_uri then Err (Fail ''transport journal expected URI is empty'')
      else scan_transport_journal_internal E C path journal_file (Some (stream, connection_epoch, expected_uri)) (Some expected_received))"

section \<open>The writer\<close>

text \<open>\<open>sk\<close> is the new file, none when \<open>create_new\<close> refuses.\<close>

definition transport_create :: "string \<Rightarrow> sink option \<Rightarrow> string \<Rightarrow> string \<Rightarrow> transport_writer res" where
  "transport_create path sk stream connection_epoch =
     (if stream \<noteq> ''depth'' \<and> stream \<noteq> ''trade'' \<or> trim_is_empty connection_epoch
      then Err (Fail ''transport journal stream/connection epoch is invalid'')
      else rbind (ok_or (Fail ''transport journal path lacks a UTF-8 file name'') (path_file_name path)) (\<lambda>file_name.
        rbind (ok_or (Fail ''create'') sk) (\<lambda>out.
        Ok \<lparr>tw_path = path, tw_file_name = file_name, tw_sink = out, tw_stream = stream, tw_connection_epoch = connection_epoch,
            tw_next_index = 0, tw_previous_record_sha256 = ZERO_DIGEST\<rparr>)))"

definition transport_body_of :: "transport_writer \<Rightarrow> nat \<Rightarrow> nat \<Rightarrow> string \<Rightarrow> 'v \<Rightarrow> 'v transport_body" where
  "transport_body_of w wall_ns mono_ns event payload =
     \<lparr>tb_schema = ''TransportJournalRecordV1'', tb_record_index = tw_next_index w, tb_wall_ns = wall_ns, tb_mono_ns = mono_ns,
      tb_stream = tw_stream w, tb_connection_epoch = tw_connection_epoch w, tb_event = event, tb_payload = payload,
      tb_previous_record_sha256 = tw_previous_record_sha256 w\<rparr>"

definition transport_append ::
  "'v externals \<Rightarrow> 'v transport_codec \<Rightarrow> nat \<Rightarrow> nat \<Rightarrow> string \<Rightarrow> 'v \<Rightarrow> transport_writer \<Rightarrow> string res \<times> transport_writer" where
  "transport_append E C wall_ns mono_ns event payload w =
     (if wall_ns = 0 \<or> trim_is_empty event then (Err (Fail ''transport journal timestamp/event is invalid''), w)
      else if \<not> valid_transport_payload E event payload then (Err (FailS ''transport journal payload is invalid'' [event]), w)
      else
        let body = transport_body_of w wall_ns mono_ns event payload in
        case tc_body_to_vec C body of
          None \<Rightarrow> (Err (Fail ''serialize transport journal body''), w)
        | Some body_bytes \<Rightarrow>
            let digest = sha256_hex E body_bytes in
            (case tc_envelope_to_vec C \<lparr>te_body = body, te_record_sha256 = digest\<rparr> of
               None \<Rightarrow> (Err (Fail ''serialize transport journal envelope''), w)
             | Some encoded \<Rightarrow>
                 let bytes = encoded @ [newline] in
                 if TRANSPORT_MAX_RECORD_BYTES < length bytes then (Err (Fail ''transport journal record exceeds its bounded size''), w)
                 else
                   (case sink_write_all bytes (tw_sink w) of
                      (False, sk1) \<Rightarrow> (Err (Fail ''sync transport journal''), w\<lparr>tw_sink := sk1\<rparr>)
                    | (True, sk1) \<Rightarrow>
                        (case sink_sync sk1 of
                           (False, sk2) \<Rightarrow> (Err (Fail ''sync transport journal''), w\<lparr>tw_sink := sk2\<rparr>)
                         | (True, sk2) \<Rightarrow>
                             (case checked_add (tw_next_index w) 1 of
                                None \<Rightarrow> (Err (Fail ''transport journal index overflow''), w\<lparr>tw_sink := sk2\<rparr>)
                              | Some index \<Rightarrow>
                                  (Ok digest, w\<lparr>tw_sink := sk2, tw_next_index := index, tw_previous_record_sha256 := digest\<rparr>))))))"

definition transport_seal_journal :: "'v externals \<Rightarrow> 'v transport_codec \<Rightarrow> transport_writer \<Rightarrow> transport_seal res" where
  "transport_seal_journal E C w =
     (if tw_next_index w = 0 then Err (Fail ''cannot seal an empty transport journal'')
      else case sink_sync (tw_sink w) of
        (False, _) \<Rightarrow> Err (Fail ''seal transport journal'')
      | (True, sk) \<Rightarrow>
          let seal = \<lparr>ts_schema = ''TransportJournalSealV1'', ts_file = tw_file_name w, ts_records = tw_next_index w,
                ts_terminal_record_sha256 = tw_previous_record_sha256 w, ts_file_bytes = length (sk_data sk),
                ts_file_sha256 = sha256_hex E (sk_data sk)\<rparr>
          in rbind (scan_transport_journal E C (tw_path w) (Some (sk_data sk))) (\<lambda>scanned.
             if scanned \<noteq> seal then Err (Fail ''transport journal seal differs from independent rescan'') else Ok seal))"

section \<open>The diagnosis\<close>

record 'v diagnosis_tally =
  dt_event_counts :: "string \<Rightarrow> nat option"
  dt_remote_endpoint :: "string option"
  dt_read_timeouts :: nat
  dt_last_tcp_info :: "'v option"
  dt_terminal_status :: "string option"
  dt_terminal_error :: "string option"
  dt_terminal_received :: "nat option"

definition diagnosis_start :: "'v diagnosis_tally" where
  "diagnosis_start = \<lparr>dt_event_counts = Map.empty, dt_remote_endpoint = None, dt_read_timeouts = 0, dt_last_tcp_info = None,
     dt_terminal_status = None, dt_terminal_error = None, dt_terminal_received = None\<rparr>"

definition count_of :: "(string \<Rightarrow> nat option) \<Rightarrow> string \<Rightarrow> nat" where
  "count_of m k = (case m k of None \<Rightarrow> 0 | Some n \<Rightarrow> n)"

definition diagnose_line ::
  "'v externals \<Rightarrow> 'v transport_codec \<Rightarrow> bytes \<Rightarrow> 'v diagnosis_tally \<Rightarrow> 'v diagnosis_tally res" where
  "diagnose_line E C line t =
     rbind (ok_or (Fail ''parse validated diagnostic journal'') (tc_envelope_from_slice C line)) (\<lambda>env.
     let event = tb_event (te_body env); payload = tb_payload (te_body env) in
     rbind (ok_or (Fail ''transport diagnostic event count overflow'') (checked_add (count_of (dt_event_counts t) event) 1)) (\<lambda>count.
     rbind (if event = ''READ_TIMEOUT''
            then ok_or (Fail ''transport diagnostic timeout count overflow'') (checked_add (dt_read_timeouts t) 1)
            else Ok (dt_read_timeouts t)) (\<lambda>timeouts.
     Ok (t\<lparr>dt_event_counts := (dt_event_counts t)(event \<mapsto> count),
           dt_remote_endpoint := (if event = ''WEBSOCKET_CONNECTED'' then field_str E payload ''remote_endpoint'' else dt_remote_endpoint t),
           dt_read_timeouts := timeouts,
           dt_last_tcp_info := (case json_get E payload ''tcp_info'' of None \<Rightarrow> dt_last_tcp_info t | Some v \<Rightarrow> Some v),
           dt_terminal_status := (if event = ''TRANSPORT_TERMINAL'' then field_str E payload ''status'' else dt_terminal_status t),
           dt_terminal_error := (if event = ''TRANSPORT_TERMINAL'' then field_str E payload ''error'' else dt_terminal_error t),
           dt_terminal_received := (if event = ''TRANSPORT_TERMINAL'' then field_u64 E payload ''received'' else dt_terminal_received t)\<rparr>))))"

fun diagnose_lines ::
  "'v externals \<Rightarrow> 'v transport_codec \<Rightarrow> bytes list \<Rightarrow> 'v diagnosis_tally \<Rightarrow> 'v diagnosis_tally res" where
  "diagnose_lines E C [] t = Ok t"
| "diagnose_lines E C (l # ls) t = rbind (diagnose_line E C l t) (\<lambda>t1. diagnose_lines E C ls t1)"

text \<open>\<open>split(newline)\<close> on bytes.\<close>

fun split_newline :: "bytes \<Rightarrow> bytes list" where
  "split_newline [] = [[]]"
| "split_newline (b # bs) =
     (if b = newline then [] # split_newline bs
      else (case split_newline bs of l # ls \<Rightarrow> (b # l) # ls | [] \<Rightarrow> [[b]]))"

definition classify_transport :: "'v externals \<Rightarrow> string \<Rightarrow> 'v diagnosis_tally \<Rightarrow> string" where
  "classify_transport E status t =
     (let saw = (\<lambda>event. count_of (dt_event_counts t) event \<noteq> 0) in
      if status = ''STOPPED'' then ''CLEAN_CLIENT_STOP''
      else if saw ''SUPERVISOR_FAILURE_STOP'' then ''SUPERVISOR_FAILURE_STOP_OBSERVED''
      else if saw ''CONNECT_FAILED'' then ''CONNECT_FAILURE_OBSERVED''
      else if saw ''WEBSOCKET_UPGRADE_REJECTED'' then ''WEBSOCKET_UPGRADE_REJECTION_OBSERVED''
      else if saw ''WEBSOCKET_CLOSE'' then ''WEBSOCKET_CLOSE_FRAME_OBSERVED''
      else if saw ''SOCKET_READ_ERROR'' then ''SOCKET_READ_ERROR_OBSERVED''
      else if saw ''TRANSPORT_DEADLINE''
      then
        (if Option.bind (dt_last_tcp_info t) (\<lambda>v. Option.bind (json_get E v ''sample'') (\<lambda>x. field_str E x ''state_name''))
              = Some ''ESTABLISHED''
         then ''TRANSPORT_SILENCE_WITH_LOCAL_TCP_ESTABLISHED'' else ''TRANSPORT_SILENCE_WITHOUT_LOCAL_ESTABLISHED_PROOF'')
      else ''LOCAL_PRODUCER_FAILURE_WITHOUT_TRANSPORT_SUBTYPE'')"

text \<open>\<open>again\<close> is the file when it is read the second time.\<close>

definition diagnose_sealed_transport_journal ::
  "'v externals \<Rightarrow> 'v transport_codec \<Rightarrow> string \<Rightarrow> bytes option \<Rightarrow> bytes option \<Rightarrow> string \<Rightarrow> string \<Rightarrow> string \<Rightarrow> nat \<Rightarrow> transport_seal
     \<Rightarrow> 'v transport_diagnosis res" where
  "diagnose_sealed_transport_journal E C path journal_file again stream connection_epoch expected_uri expected_received expected_seal =
     (if trim_is_empty expected_uri then Err (Fail ''transport journal expected URI is empty'')
      else rbind (scan_transport_journal_internal E C path journal_file (Some (stream, connection_epoch, expected_uri)) None) (\<lambda>scanned.
        if scanned \<noteq> expected_seal then Err (Fail ''transport journal differs from its expected seal'')
        else rbind (ok_or (Fail ''read diagnostic journal'') again) (\<lambda>bs.
          if length bs \<noteq> ts_file_bytes scanned \<or> sha256_hex E bs \<noteq> ts_file_sha256 scanned
          then Err (Fail ''transport journal changed between validation and diagnosis'')
          else rbind (diagnose_lines E C (filter (\<lambda>l. l \<noteq> []) (split_newline bs)) diagnosis_start) (\<lambda>t.
            rbind (ok_or (Fail ''transport diagnosis lacks terminal status'') (dt_terminal_status t)) (\<lambda>status.
            rbind (ok_or (Fail ''transport diagnosis lacks terminal received count'') (dt_terminal_received t)) (\<lambda>received.
            if received \<noteq> expected_received then Err (Fail ''transport diagnosis received count differs from stream manifest'')
            else Ok \<lparr>td_schema = ''TransportJournalDiagnosisV1'', td_stream = stream, td_connection_epoch = connection_epoch,
                   td_records = ts_records scanned, td_terminal_record_sha256 = ts_terminal_record_sha256 scanned,
                   td_terminal_status = status, td_terminal_error = dt_terminal_error t, td_terminal_received = received,
                   td_websocket_remote_endpoint = dt_remote_endpoint t, td_read_timeouts = dt_read_timeouts t,
                   td_last_tcp_info = dt_last_tcp_info t, td_event_counts = dt_event_counts t,
                   td_classification = classify_transport E status t,
                   td_attribution_scope = ''OBSERVED_LOCAL_SOCKET_AND_WEBSOCKET_BOUNDARY_ONLY''\<rparr>))))))"

end
