(* ===== verification/Transport_Journal_Safety.thy ===== *)
theory Transport_Journal_Safety
  imports Transport_Journal
begin

text \<open>
  The flags and counters of the journal scan implement a small automaton, and a journal that verifies as cleanly
  stopped has the lifecycle of one connection that was opened once and ended by the client.
\<close>

section \<open>The lifecycle as an automaton\<close>

datatype phase = Unstarted | Attempted | Resolved | Unconnected | Open | ClientStopped | ProducerFailed string | Ended

definition next_phase :: "'v externals \<Rightarrow> phase \<Rightarrow> string \<Rightarrow> 'v \<Rightarrow> phase option" where
  "next_phase E p event payload =
     (let failed = map_option ProducerFailed (field_str E payload ''error'') in
      case p of
        Unstarted \<Rightarrow> if event = ''CONNECT_ATTEMPT'' then Some Attempted else None
      | Attempted \<Rightarrow> if event = ''DNS_OBSERVED'' \<or> event = ''DNS_FAILED'' then Some Resolved else None
      | Resolved \<Rightarrow>
          if event = ''WEBSOCKET_CONNECTED'' then Some Open
          else if event = ''PRODUCER_FAILURE'' then failed
          else if event \<in> {''CONNECT_FAILED'', ''WEBSOCKET_UPGRADE_REJECTED'', ''SUPERVISOR_FAILURE_STOP''} then Some Unconnected
          else None
      | Unconnected \<Rightarrow> if event = ''PRODUCER_FAILURE'' then failed else None
      | Open \<Rightarrow>
          if event = ''CLIENT_STOP_OBSERVED'' then Some ClientStopped
          else if event = ''PRODUCER_FAILURE'' then failed
          else if event = ''WEBSOCKET_CONNECTED'' \<or> event = ''TRANSPORT_TERMINAL'' then None
          else Some Open
      | ClientStopped \<Rightarrow> if event = ''TRANSPORT_TERMINAL'' \<and> field_str E payload ''status'' = Some ''STOPPED'' then Some Ended else None
      | ProducerFailed reason \<Rightarrow>
          if event = ''TRANSPORT_TERMINAL'' \<and> field_str E payload ''status'' = Some ''FAILED'' \<and> field_str E payload ''error'' = Some reason
          then Some Ended else None
      | Ended \<Rightarrow> None)"

fun run_phases :: "'v externals \<Rightarrow> phase \<Rightarrow> 'v transport_envelope list \<Rightarrow> phase option" where
  "run_phases E p [] = Some p"
| "run_phases E p (env # envs) =
     (case next_phase E p (tb_event (te_body env)) (tb_payload (te_body env)) of None \<Rightarrow> None | Some q \<Rightarrow> run_phases E q envs)"

definition in_phase :: "'v transport_scan \<Rightarrow> phase \<Rightarrow> bool" where
  "in_phase s p =
     (case p of
        Unstarted \<Rightarrow> tx_expected_index s = 0 \<and> \<not> tx_connected s \<and> \<not> tx_client_stop s \<and> tx_failure_reason s = None \<and> \<not> tx_terminal_seen s
      | Attempted \<Rightarrow> tx_expected_index s = 1 \<and> \<not> tx_connected s \<and> \<not> tx_client_stop s \<and> tx_failure_reason s = None \<and> \<not> tx_terminal_seen s
      | Resolved \<Rightarrow> tx_expected_index s = 2 \<and> \<not> tx_connected s \<and> \<not> tx_client_stop s \<and> tx_failure_reason s = None \<and> \<not> tx_terminal_seen s
      | Unconnected \<Rightarrow> 2 < tx_expected_index s \<and> \<not> tx_connected s \<and> \<not> tx_client_stop s \<and> tx_failure_reason s = None \<and> \<not> tx_terminal_seen s
      | Open \<Rightarrow> 2 < tx_expected_index s \<and> tx_connected s \<and> \<not> tx_client_stop s \<and> tx_failure_reason s = None \<and> \<not> tx_terminal_seen s
      | ClientStopped \<Rightarrow> 2 < tx_expected_index s \<and> tx_connected s \<and> tx_client_stop s \<and> tx_failure_reason s = None \<and> \<not> tx_terminal_seen s
      | ProducerFailed reason \<Rightarrow> 2 < tx_expected_index s \<and> \<not> tx_client_stop s \<and> tx_failure_reason s = Some reason \<and> \<not> tx_terminal_seen s
      | Ended \<Rightarrow> 2 < tx_expected_index s \<and> tx_terminal_seen s)"

lemma payload_facts:
  assumes "valid_transport_payload E event v"
  shows "event = ''PRODUCER_FAILURE'' \<Longrightarrow> \<exists>e. field_str E v ''error'' = Some e"
    "event = ''TRANSPORT_TERMINAL'' \<Longrightarrow> field_str E v ''status'' = Some ''STOPPED'' \<or> field_str E v ''status'' = Some ''FAILED''"
  using assms by (auto simp: valid_transport_payload_def valid_terminal_def has_text_def str_is_def split: if_splits option.splits)

text \<open>What one accepted line says, and how it moves the automaton.\<close>

definition accepted_line :: "'v externals \<Rightarrow> 'v transport_codec \<Rightarrow> bytes \<Rightarrow> 'v transport_envelope \<Rightarrow> 'v transport_scan \<Rightarrow> 'v transport_scan \<Rightarrow> bool" where
  "accepted_line E C line env s s' \<longleftrightarrow> tc_envelope_from_slice C line = Some env
     \<and> (\<exists>body. tc_body_to_vec C (te_body env) = Some body \<and> te_record_sha256 env = sha256_hex E body)
     \<and> valid_transport_payload E (tb_event (te_body env)) (tb_payload (te_body env))
     \<and> tb_previous_record_sha256 (te_body env) = tx_previous s \<and> tb_record_index (te_body env) = tx_expected_index s
     \<and> tx_previous s' = te_record_sha256 env \<and> tx_expected_index s' = tx_expected_index s + 1
     \<and> tx_stream s' = Some (tb_stream (te_body env)) \<and> tx_epoch s' = Some (tb_connection_epoch (te_body env))
     \<and> (\<forall>v. tx_stream s = Some v \<longrightarrow> tb_stream (te_body env) = v) \<and> (\<forall>v. tx_epoch s = Some v \<longrightarrow> tb_connection_epoch (te_body env) = v)
     \<and> tx_last_event s' = Some (tb_event (te_body env)) \<and> tx_last_payload s' = Some (tb_payload (te_body env))"

lemma if_Err_Ok: "(if c then Err e else x) = Ok y \<longleftrightarrow> \<not> c \<and> x = Ok y"
  by simp

lemma if_two_Err: "((if a \<or> b then Err e else Ok x) = Ok y) = (\<not> a \<and> \<not> b \<and> y = x)"
  by auto

lemma not_in_four: "x \<notin> {a, b, c, d} \<Longrightarrow> x \<noteq> a \<and> x \<noteq> b \<and> x \<noteq> c \<and> x \<noteq> d"
  by simp

lemma lifecycle_event_literal:
  "lifecycle_event E ''WEBSOCKET_CONNECTED'' v s = Ok s1 \<longleftrightarrow> \<not> tx_connected s \<and> s1 = s\<lparr>tx_connected := True\<rparr>"
  "lifecycle_event E ''CLIENT_STOP_OBSERVED'' v s = Ok s1 \<longleftrightarrow> tx_connected s \<and> s1 = s\<lparr>tx_client_stop := True\<rparr>"
  "lifecycle_event E ''PRODUCER_FAILURE'' v s = Ok s1 \<longleftrightarrow> s1 = s\<lparr>tx_failure_reason := field_str E v ''error''\<rparr>"
  by (auto simp: lifecycle_event_def socket_events_def)

lemma lifecycle_event_terminal:
  "lifecycle_event E ''TRANSPORT_TERMINAL'' v s = Ok s1 \<longleftrightarrow>
     \<not> (field_str E v ''status'' = Some ''STOPPED'' \<and> (\<not> tx_client_stop s \<or> tx_failure_reason s \<noteq> None))
     \<and> \<not> (field_str E v ''status'' = Some ''FAILED'' \<and> (tx_failure_reason s = None \<or> field_str E v ''error'' \<noteq> tx_failure_reason s))
     \<and> s1 = s\<lparr>tx_terminal_seen := True\<rparr>"
proof -
  have "''TRANSPORT_TERMINAL'' \<notin> socket_events" by (simp add: socket_events_def)
  moreover have "''TRANSPORT_TERMINAL'' \<noteq> ''WEBSOCKET_CONNECTED''" "''TRANSPORT_TERMINAL'' \<noteq> ''SUPERVISOR_FAILURE_STOP''"
    "''TRANSPORT_TERMINAL'' \<noteq> ''PRODUCER_FAILURE''" by simp_all
  ultimately show ?thesis
    unfolding lifecycle_event_def Let_def by (simp only: if_False if_True refl if_two_Err)
qed

lemma lifecycle_event_other:
  assumes "event \<notin> {''WEBSOCKET_CONNECTED'', ''CLIENT_STOP_OBSERVED'', ''PRODUCER_FAILURE'', ''TRANSPORT_TERMINAL''}"
    "lifecycle_event E event v s = Ok s1"
  shows "s1 = s"
proof -
  have "event \<noteq> ''WEBSOCKET_CONNECTED'' \<and> event \<noteq> ''CLIENT_STOP_OBSERVED'' \<and> event \<noteq> ''PRODUCER_FAILURE''
      \<and> event \<noteq> ''TRANSPORT_TERMINAL''"
    by (rule not_in_four [OF assms(1)])
  then show ?thesis using assms(2) unfolding lifecycle_event_def Let_def by (simp split: if_split_asm)
qed

lemma lifecycle_event_Ok:
  assumes "lifecycle_event E event payload s = Ok s1"
  shows "event = ''WEBSOCKET_CONNECTED'' \<Longrightarrow> \<not> tx_connected s \<and> s1 = s\<lparr>tx_connected := True\<rparr>"
    and "event = ''CLIENT_STOP_OBSERVED'' \<Longrightarrow> tx_connected s \<and> s1 = s\<lparr>tx_client_stop := True\<rparr>"
    and "event = ''PRODUCER_FAILURE'' \<Longrightarrow> s1 = s\<lparr>tx_failure_reason := field_str E payload ''error''\<rparr>"
    and "event = ''TRANSPORT_TERMINAL'' \<Longrightarrow>
      \<not> (field_str E payload ''status'' = Some ''STOPPED'' \<and> (\<not> tx_client_stop s \<or> tx_failure_reason s \<noteq> None))
      \<and> \<not> (field_str E payload ''status'' = Some ''FAILED'' \<and> (tx_failure_reason s = None \<or> field_str E payload ''error'' \<noteq> tx_failure_reason s))
      \<and> s1 = s\<lparr>tx_terminal_seen := True\<rparr>"
    and "event \<notin> {''WEBSOCKET_CONNECTED'', ''CLIENT_STOP_OBSERVED'', ''PRODUCER_FAILURE'', ''TRANSPORT_TERMINAL''} \<Longrightarrow> s1 = s"
proof -
  show "\<not> tx_connected s \<and> s1 = s\<lparr>tx_connected := True\<rparr>" if e: "event = ''WEBSOCKET_CONNECTED''"
    by (rule lifecycle_event_literal(1) [THEN iffD1, OF assms [unfolded e]])
  show "tx_connected s \<and> s1 = s\<lparr>tx_client_stop := True\<rparr>" if e: "event = ''CLIENT_STOP_OBSERVED''"
    by (rule lifecycle_event_literal(2) [THEN iffD1, OF assms [unfolded e]])
  show "s1 = s\<lparr>tx_failure_reason := field_str E payload ''error''\<rparr>" if e: "event = ''PRODUCER_FAILURE''"
    by (rule lifecycle_event_literal(3) [THEN iffD1, OF assms [unfolded e]])
  show "\<not> (field_str E payload ''status'' = Some ''STOPPED'' \<and> (\<not> tx_client_stop s \<or> tx_failure_reason s \<noteq> None))
      \<and> \<not> (field_str E payload ''status'' = Some ''FAILED'' \<and> (tx_failure_reason s = None \<or> field_str E payload ''error'' \<noteq> tx_failure_reason s))
      \<and> s1 = s\<lparr>tx_terminal_seen := True\<rparr>" if e: "event = ''TRANSPORT_TERMINAL''"
    by (rule lifecycle_event_terminal [THEN iffD1, OF assms [unfolded e]])
qed (rule lifecycle_event_other [OF _ assms])

lemma scan_step_Ok:
  assumes "transport_scan_step E C i line s = Ok s'"
  obtains env body s1 where "tc_envelope_from_slice C line = Some env" "tc_body_to_vec C (te_body env) = Some body"
    "transport_record_ok E (sha256_hex E body) env s"
    "\<not> ((case tx_stream s of None \<Rightarrow> False | Some v \<Rightarrow> v \<noteq> tb_stream (te_body env))
        \<or> (case tx_epoch s of None \<Rightarrow> False | Some v \<Rightarrow> v \<noteq> tb_connection_epoch (te_body env)))"
    "lifecycle_sequence (tb_event (te_body env)) s"
    "\<not> (2 < tx_expected_index s \<and> \<not> tx_connected s \<and> tb_event (te_body env) \<noteq> ''PRODUCER_FAILURE''
        \<and> \<not> (tb_event (te_body env) = ''TRANSPORT_TERMINAL'' \<and> tx_failure_reason s \<noteq> None))"
    "\<not> (tx_client_stop s \<and> tb_event (te_body env) \<noteq> ''TRANSPORT_TERMINAL'')"
    "\<not> (tx_failure_reason s \<noteq> None \<and> tb_event (te_body env) \<noteq> ''TRANSPORT_TERMINAL'')"
    "lifecycle_event E (tb_event (te_body env)) (tb_payload (te_body env)) s = Ok s1"
    "s' = s1\<lparr>tx_stream := Some (case tx_stream s of None \<Rightarrow> tb_stream (te_body env) | Some v \<Rightarrow> v),
       tx_epoch := Some (case tx_epoch s of None \<Rightarrow> tb_connection_epoch (te_body env) | Some v \<Rightarrow> v),
       tx_first_event := Some (case tx_first_event s of None \<Rightarrow> tb_event (te_body env) | Some v \<Rightarrow> v),
       tx_last_event := Some (tb_event (te_body env)), tx_last_payload := Some (tb_payload (te_body env)),
       tx_previous := sha256_hex E body, tx_expected_index := tx_expected_index s + 1\<rparr>"
  using assms unfolding transport_scan_step_def Let_def rbind_eq_Ok ok_or_eq_Ok if_Err_Ok checked_add_Some not_not
  by (elim exE conjE) (rule that, assumption+, simp)

lemma scan_step_accepted:
  assumes "transport_scan_step E C i line s = Ok s'"
  shows "\<exists>env. accepted_line E C line env s s'"
  using assms
proof (rule scan_step_Ok)
  fix env body s1
  assume a: "tc_envelope_from_slice C line = Some env" "tc_body_to_vec C (te_body env) = Some body"
    "transport_record_ok E (sha256_hex E body) env s"
    "\<not> ((case tx_stream s of None \<Rightarrow> False | Some v \<Rightarrow> v \<noteq> tb_stream (te_body env))
        \<or> (case tx_epoch s of None \<Rightarrow> False | Some v \<Rightarrow> v \<noteq> tb_connection_epoch (te_body env)))"
    "lifecycle_event E (tb_event (te_body env)) (tb_payload (te_body env)) s = Ok s1"
    "s' = s1\<lparr>tx_stream := Some (case tx_stream s of None \<Rightarrow> tb_stream (te_body env) | Some v \<Rightarrow> v),
       tx_epoch := Some (case tx_epoch s of None \<Rightarrow> tb_connection_epoch (te_body env) | Some v \<Rightarrow> v),
       tx_first_event := Some (case tx_first_event s of None \<Rightarrow> tb_event (te_body env) | Some v \<Rightarrow> v),
       tx_last_event := Some (tb_event (te_body env)), tx_last_payload := Some (tb_payload (te_body env)),
       tx_previous := sha256_hex E body, tx_expected_index := tx_expected_index s + 1\<rparr>"
  have "accepted_line E C line env s s'"
    unfolding accepted_line_def using a by (auto simp: transport_record_ok_def split: option.splits)
  then show ?thesis by blast
qed

definition connects_to :: "'v externals \<Rightarrow> (string \<times> string \<times> string) option \<Rightarrow> 'v transport_envelope \<Rightarrow> bool" where
  "connects_to E expected_identity env =
     (case expected_identity of None \<Rightarrow> True | Some (_, _, uri) \<Rightarrow> field_str E (tb_payload (te_body env)) ''uri'' = Some uri)"

lemma scan_step_uri:
  assumes "transport_scan_step E C i line s = Ok s'" "tc_envelope_from_slice C line = Some env" "tx_expected_index s = 0"
  shows "connects_to E i env"
  using assms unfolding transport_scan_step_def Let_def rbind_eq_Ok ok_or_eq_Ok if_Err_Ok
  by (elim exE conjE) (simp add: connects_to_def split: option.split_asm prod.split_asm)

lemma scan_step_phase:
  assumes "transport_scan_step E C i line s = Ok s'" "tc_envelope_from_slice C line = Some env" "in_phase s p"
  shows "\<exists>q. next_phase E p (tb_event (te_body env)) (tb_payload (te_body env)) = Some q \<and> in_phase s' q"
proof -
  let ?ev = "tb_event (te_body env)" let ?v = "tb_payload (te_body env)"
  obtain s1 where st: "lifecycle_sequence ?ev s" "lifecycle_event E ?ev ?v s = Ok s1" "valid_transport_payload E ?ev ?v"
    "\<not> (2 < tx_expected_index s \<and> \<not> tx_connected s \<and> ?ev \<noteq> ''PRODUCER_FAILURE'' \<and> \<not> (?ev = ''TRANSPORT_TERMINAL'' \<and> tx_failure_reason s \<noteq> None))"
    "\<not> (tx_client_stop s \<and> ?ev \<noteq> ''TRANSPORT_TERMINAL'')" "\<not> (tx_failure_reason s \<noteq> None \<and> ?ev \<noteq> ''TRANSPORT_TERMINAL'')"
    and s': "tx_expected_index s' = tx_expected_index s + 1" "tx_connected s' = tx_connected s1" "tx_client_stop s' = tx_client_stop s1"
    "tx_failure_reason s' = tx_failure_reason s1" "tx_terminal_seen s' = tx_terminal_seen s1"
    using assms(1)
  proof (rule scan_step_Ok)
    fix env' body s1
    assume a: "tc_envelope_from_slice C line = Some env'" "transport_record_ok E (sha256_hex E body) env' s"
      "lifecycle_sequence (tb_event (te_body env')) s"
      "\<not> (2 < tx_expected_index s \<and> \<not> tx_connected s \<and> tb_event (te_body env') \<noteq> ''PRODUCER_FAILURE''
          \<and> \<not> (tb_event (te_body env') = ''TRANSPORT_TERMINAL'' \<and> tx_failure_reason s \<noteq> None))"
      "\<not> (tx_client_stop s \<and> tb_event (te_body env') \<noteq> ''TRANSPORT_TERMINAL'')"
      "\<not> (tx_failure_reason s \<noteq> None \<and> tb_event (te_body env') \<noteq> ''TRANSPORT_TERMINAL'')"
      "lifecycle_event E (tb_event (te_body env')) (tb_payload (te_body env')) s = Ok s1"
      "s' = s1\<lparr>tx_stream := Some (case tx_stream s of None \<Rightarrow> tb_stream (te_body env') | Some v \<Rightarrow> v),
         tx_epoch := Some (case tx_epoch s of None \<Rightarrow> tb_connection_epoch (te_body env') | Some v \<Rightarrow> v),
         tx_first_event := Some (case tx_first_event s of None \<Rightarrow> tb_event (te_body env') | Some v \<Rightarrow> v),
         tx_last_event := Some (tb_event (te_body env')), tx_last_payload := Some (tb_payload (te_body env')),
         tx_previous := sha256_hex E body, tx_expected_index := tx_expected_index s + 1\<rparr>"
    then have "env' = env" using assms(2) by simp
    then show thesis using a by (intro that [of s1]) (simp_all add: transport_record_ok_def)
  qed
  note pf = payload_facts [OF st(3)] and le = lifecycle_event_Ok [OF st(2)]
  consider (conn) "?ev = ''WEBSOCKET_CONNECTED''" | (stop) "?ev = ''CLIENT_STOP_OBSERVED''" | (fail) "?ev = ''PRODUCER_FAILURE''"
    | (terminal) "?ev = ''TRANSPORT_TERMINAL''"
    | (other) "?ev \<notin> {''WEBSOCKET_CONNECTED'', ''CLIENT_STOP_OBSERVED'', ''PRODUCER_FAILURE'', ''TRANSPORT_TERMINAL''}" by blast
  then show ?thesis
  proof cases
    case conn
    then show ?thesis using assms(3) st(1,4-6) s' le(1)
      by (cases p) (simp_all add: in_phase_def next_phase_def lifecycle_sequence_def)
  next
    case stop
    then show ?thesis using assms(3) st(1,4-6) s' le(2)
      by (cases p) (simp_all add: in_phase_def next_phase_def lifecycle_sequence_def)
  next
    case fail
    then obtain e where "field_str E ?v ''error'' = Some e" using pf(1) by blast
    then show ?thesis using fail assms(3) st(1,4-6) s' le(3)
      by (cases p) (simp_all add: in_phase_def next_phase_def lifecycle_sequence_def)
  next
    case terminal
    then show ?thesis using assms(3) st(1,4-6) s' le(4) pf(2)
      by (cases p) (auto simp: in_phase_def next_phase_def lifecycle_sequence_def)
  next
    case other
    then have same: "s1 = s" by (rule le(5))
    show ?thesis using other assms(3) st(1,4-6) s' unfolding same
      by (cases p) (simp_all add: in_phase_def next_phase_def lifecycle_sequence_def)
  qed
qed

section \<open>The whole journal\<close>

fun transport_chained :: "'v externals \<Rightarrow> 'v transport_codec \<Rightarrow> string \<Rightarrow> nat \<Rightarrow> 'v transport_envelope list \<Rightarrow> bool" where
  "transport_chained E C previous index [] = True"
| "transport_chained E C previous index (env # envs) \<longleftrightarrow>
     tb_previous_record_sha256 (te_body env) = previous \<and> tb_record_index (te_body env) = index
     \<and> map_option (sha256_hex E) (tc_body_to_vec C (te_body env)) = Some (te_record_sha256 env)
     \<and> valid_transport_payload E (tb_event (te_body env)) (tb_payload (te_body env))
     \<and> transport_chained E C (te_record_sha256 env) (index + 1) envs"

definition bound_to :: "string \<Rightarrow> string \<Rightarrow> 'v transport_envelope \<Rightarrow> bool" where
  "bound_to stream epoch env \<longleftrightarrow> tb_stream (te_body env) = stream \<and> tb_connection_epoch (te_body env) = epoch"

text \<open>The state after the scan of the envelopes, as far as the seal reads it.\<close>

definition scanned_to :: "'v transport_envelope list \<Rightarrow> 'v transport_scan \<Rightarrow> 'v transport_scan \<Rightarrow> bool" where
  "scanned_to envs s s' \<longleftrightarrow> tx_expected_index s' = tx_expected_index s + length envs
     \<and> (envs = [] \<longrightarrow> s' = s)
     \<and> (envs \<noteq> [] \<longrightarrow> tx_previous s' = te_record_sha256 (last envs) \<and> tx_last_payload s' = Some (tb_payload (te_body (last envs)))
          \<and> (\<exists>stream epoch. tx_stream s' = Some stream \<and> tx_epoch s' = Some epoch \<and> list_all (bound_to stream epoch) envs
               \<and> (\<forall>v. tx_stream s = Some v \<longrightarrow> v = stream) \<and> (\<forall>v. tx_epoch s = Some v \<longrightarrow> v = epoch)))"

lemma prefix_first_line: "x \<in> set c \<Longrightarrow> prefix (takeWhile (\<lambda>b. b \<noteq> x) c @ [x]) c"
  by (induction c) auto

lemma read_transport_line_split:
  assumes "bs \<noteq> []" "last (read_transport_line bs) = newline"
  shows "bs = butlast (read_transport_line bs) @ newline # drop (length (read_transport_line bs)) bs"
proof -
  let ?l = "read_transport_line bs" and ?c = "take (TRANSPORT_MAX_RECORD_BYTES + 1) bs"
  have "prefix ?l ?c" by (simp add: read_transport_line_def Let_def prefix_first_line del: take_Suc_Cons)
  then have "prefix ?l bs" by (rule prefix_order.trans) (rule take_is_prefix)
  then have "bs = ?l @ drop (length ?l) bs" by (metis prefixE append_eq_conv_conj)
  moreover have "?l = butlast ?l @ [newline]"
    using assms(2) append_butlast_last_id [OF read_transport_line_pos [OF assms(1)]] by simp
  ultimately show ?thesis by (metis append.assoc append_Cons append_Nil)
qed

lemma scanned_to_Cons:
  assumes "accepted_line E C line env s s1" "scanned_to envs s1 s'"
  shows "scanned_to (env # envs) s s'"
proof (cases "envs = []")
  case True
  then show ?thesis using assms by (auto simp: scanned_to_def accepted_line_def bound_to_def)
next
  case False
  then obtain stream epoch where b: "tx_stream s' = Some stream" "tx_epoch s' = Some epoch" "list_all (bound_to stream epoch) envs"
    "\<forall>v. tx_stream s1 = Some v \<longrightarrow> v = stream" "\<forall>v. tx_epoch s1 = Some v \<longrightarrow> v = epoch"
    using assms(2) unfolding scanned_to_def by blast
  moreover have "tb_stream (te_body env) = stream" "tb_connection_epoch (te_body env) = epoch"
    using assms(1) b(4,5) by (simp_all add: accepted_line_def)
  moreover have "tx_expected_index s' = tx_expected_index s + length (env # envs)" "tx_previous s' = te_record_sha256 (last (env # envs))"
    "tx_last_payload s' = Some (tb_payload (te_body (last (env # envs))))"
    using assms False by (simp_all add: scanned_to_def accepted_line_def)
  moreover have "(\<forall>v. tx_stream s = Some v \<longrightarrow> v = tb_stream (te_body env))" "(\<forall>v. tx_epoch s = Some v \<longrightarrow> v = tb_connection_epoch (te_body env))"
    using assms(1) by (auto simp: accepted_line_def)
  ultimately show ?thesis by (auto simp: scanned_to_def bound_to_def)
qed

text \<open>The lines of a scanned journal, and what was accepted of them.\<close>

definition scanned_lines ::
  "'v externals \<Rightarrow> 'v transport_codec \<Rightarrow> bytes \<Rightarrow> bytes list \<Rightarrow> 'v transport_envelope list \<Rightarrow> string \<Rightarrow> nat \<Rightarrow> bool" where
  "scanned_lines E C bs lines envs previous index \<longleftrightarrow> bs = concat (map (\<lambda>l. l @ [newline]) lines)
     \<and> map (tc_envelope_from_slice C) lines = map Some envs \<and> transport_chained E C previous index envs"

lemma scan_loop_lines:
  assumes "transport_scan_loop E C i bs s = Ok s'" "in_phase s p"
  shows "\<exists>lines envs q. scanned_lines E C bs lines envs (tx_previous s) (tx_expected_index s) \<and> scanned_to envs s s'
           \<and> run_phases E p envs = Some q \<and> in_phase s' q \<and> (tx_expected_index s = 0 \<longrightarrow> envs \<noteq> [] \<longrightarrow> connects_to E i (hd envs))"
  using assms
proof (induction E C i bs s arbitrary: p rule: transport_scan_loop.induct)
  case (1 E C i bs s)
  show ?case
  proof (cases "bs = []")
    case True
    then have "s' = s" using 1(2) by (simp add: transport_scan_loop.simps)
    then show ?thesis using 1(3) True
      by (intro exI [of _ "[]"] exI [of _ p]) (simp add: scanned_lines_def scanned_to_def)
  next
    case False
    let ?l = "read_transport_line bs"
    have ok: "\<not> (TRANSPORT_MAX_RECORD_BYTES < length ?l \<or> last ?l \<noteq> newline)"
      and ex: "\<exists>s1. transport_scan_step E C i (butlast ?l) s = Ok s1 \<and> transport_scan_loop E C i (drop (length ?l) bs) s1 = Ok s'"
      using 1(2) False by (subst (asm) transport_scan_loop.simps, simp add: Let_def split: if_split_asm)+
    from ex obtain s1 where st: "transport_scan_step E C i (butlast ?l) s = Ok s1"
      and rest: "transport_scan_loop E C i (drop (length ?l) bs) s1 = Ok s'" by blast
    obtain env where acc: "accepted_line E C (butlast ?l) env s s1" using scan_step_accepted [OF st] by blast
    then have dec: "tc_envelope_from_slice C (butlast ?l) = Some env" by (simp add: accepted_line_def)
    obtain q where q: "next_phase E p (tb_event (te_body env)) (tb_payload (te_body env)) = Some q" "in_phase s1 q"
      using scan_step_phase [OF st dec 1(3)] by blast
    obtain lines envs r where r: "scanned_lines E C (drop (length ?l) bs) lines envs (tx_previous s1) (tx_expected_index s1)"
      "scanned_to envs s1 s'" "run_phases E q envs = Some r" "in_phase s' r"
      using 1(1) [OF False refl ok st rest q(2)] by blast
    have "scanned_lines E C bs (butlast ?l # lines) (env # envs) (tx_previous s) (tx_expected_index s)"
      using r(1) acc read_transport_line_split [OF False] ok by (auto simp: scanned_lines_def accepted_line_def)
    moreover have "run_phases E p (env # envs) = Some r" using q(1) r(3) by simp
    ultimately show ?thesis using scanned_to_Cons [OF acc r(2)] r(4) scan_step_uri [OF st dec] by (metis list.sel(1))
  qed
qed

section \<open>A cleanly stopped journal\<close>

text \<open>The event and the terminal status of an envelope.\<close>

abbreviation env_event :: "'v transport_envelope \<Rightarrow> string" where
  "env_event env \<equiv> tb_event (te_body env)"

abbreviation env_field :: "'v externals \<Rightarrow> 'v transport_envelope \<Rightarrow> string \<Rightarrow> string option" where
  "env_field E env f \<equiv> field_str E (tb_payload (te_body env)) f"

definition lifecycle_events :: "string list" where
  "lifecycle_events = [''WEBSOCKET_CONNECTED'', ''CLIENT_STOP_OBSERVED'', ''PRODUCER_FAILURE'', ''TRANSPORT_TERMINAL'']"

lemma run_phases_Cons:
  "run_phases E p (env # envs) = Some q \<Longrightarrow>
     \<exists>r. next_phase E p (env_event env) (tb_payload (te_body env)) = Some r \<and> run_phases E r envs = Some q"
  by (simp split: option.split_asm)

lemma next_phase_from:
  "next_phase E Ended ev v = Some q \<Longrightarrow> False"
  "next_phase E ClientStopped ev v = Some q \<Longrightarrow> q = Ended \<and> ev = ''TRANSPORT_TERMINAL''"
  "next_phase E (ProducerFailed r) ev v = Some q \<Longrightarrow> q = Ended \<and> field_str E v ''status'' = Some ''FAILED''"
  "next_phase E Unconnected ev v = Some q \<Longrightarrow> \<exists>r. q = ProducerFailed r"
  "next_phase E Unstarted ev v = Some q \<Longrightarrow> q = Attempted \<and> ev = ''CONNECT_ATTEMPT''"
  "next_phase E Attempted ev v = Some q \<Longrightarrow> q = Resolved \<and> (ev = ''DNS_OBSERVED'' \<or> ev = ''DNS_FAILED'')"
  "next_phase E Resolved ev v = Some q \<Longrightarrow> q = Open \<and> ev = ''WEBSOCKET_CONNECTED'' \<or> (\<exists>r. q = ProducerFailed r) \<or> q = Unconnected"
  "next_phase E Open ev v = Some q \<Longrightarrow> q = ClientStopped \<and> ev = ''CLIENT_STOP_OBSERVED'' \<or> (\<exists>r. q = ProducerFailed r)
     \<or> q = Open \<and> ev \<notin> set lifecycle_events"
  by (simp_all add: next_phase_def lifecycle_events_def Let_def split: if_split_asm) blast+

lemma run_Ended: "run_phases E Ended envs = Some q \<Longrightarrow> envs = []"
  by (cases envs) (auto dest!: run_phases_Cons dest: next_phase_from(1) simp del: run_phases.simps(2))

lemma run_ClientStopped:
  assumes "run_phases E ClientStopped envs = Some Ended"
  shows "\<exists>t. envs = [t] \<and> env_event t = ''TRANSPORT_TERMINAL''"
proof (cases envs)
  case (Cons t rest)
  then obtain r where r: "next_phase E ClientStopped (env_event t) (tb_payload (te_body t)) = Some r" "run_phases E r rest = Some Ended"
    using run_phases_Cons assms by blast
  then show ?thesis using next_phase_from(2) [OF r(1)] run_Ended Cons by blast
qed (use assms in simp)

lemma run_ProducerFailed:
  assumes "run_phases E (ProducerFailed reason) envs = Some Ended"
  shows "envs \<noteq> [] \<and> env_field E (last envs) ''status'' = Some ''FAILED''"
proof (cases envs)
  case (Cons t rest)
  then obtain r where r: "next_phase E (ProducerFailed reason) (env_event t) (tb_payload (te_body t)) = Some r" "run_phases E r rest = Some Ended"
    using run_phases_Cons assms by blast
  then show ?thesis using next_phase_from(3) [OF r(1)] run_Ended [of E rest Ended] Cons by simp
qed (use assms in simp)

lemma run_Unconnected:
  assumes "run_phases E Unconnected envs = Some Ended"
  shows "envs \<noteq> [] \<and> env_field E (last envs) ''status'' = Some ''FAILED''"
proof (cases envs)
  case (Cons t rest)
  then obtain r where r: "next_phase E Unconnected (env_event t) (tb_payload (te_body t)) = Some r" "run_phases E r rest = Some Ended"
    using run_phases_Cons assms by blast
  then show ?thesis using next_phase_from(4) [OF r(1)] run_ProducerFailed Cons by fastforce
qed (use assms in simp)

lemma run_Open:
  assumes "run_phases E Open envs = Some Ended" "env_field E (last envs) ''status'' = Some ''STOPPED''"
  shows "\<exists>mid c t. envs = mid @ [c, t] \<and> env_event c = ''CLIENT_STOP_OBSERVED'' \<and> env_event t = ''TRANSPORT_TERMINAL''
           \<and> list_all (\<lambda>env. env_event env \<notin> set lifecycle_events) mid"
  using assms
proof (induction envs)
  case (Cons e envs)
  obtain r where r: "next_phase E Open (env_event e) (tb_payload (te_body e)) = Some r" "run_phases E r envs = Some Ended"
    using run_phases_Cons [OF Cons.prems(1)] by blast
  consider (stop) "r = ClientStopped" "env_event e = ''CLIENT_STOP_OBSERVED''" | (fail) reason where "r = ProducerFailed reason"
    | (stay) "r = Open" "env_event e \<notin> set lifecycle_events"
    using next_phase_from(8) [OF r(1)] by blast
  then show ?case
  proof cases
    case stop
    then obtain t where "envs = [t]" "env_event t = ''TRANSPORT_TERMINAL''" using run_ClientStopped r(2) by blast
    then show ?thesis using stop by (intro exI [of _ "[]"]) simp
  next
    case fail
    then show ?thesis using run_ProducerFailed [of E reason envs] r(2) Cons.prems(2) by simp
  next
    case stay
    then have "envs \<noteq> []" using r(2) by auto
    then obtain mid c t where "envs = mid @ [c, t]" "env_event c = ''CLIENT_STOP_OBSERVED''" "env_event t = ''TRANSPORT_TERMINAL''"
      "list_all (\<lambda>env. env_event env \<notin> set lifecycle_events) mid"
      using Cons.IH r(2) Cons.prems(2) stay(1) by auto
    then show ?thesis using stay(2) by (intro exI [of _ "e # mid"]) simp
  qed
qed simp

text \<open>The whole life of a connection that its client ended.\<close>

definition clean_lifecycle :: "'v transport_envelope list \<Rightarrow> bool" where
  "clean_lifecycle envs \<longleftrightarrow> (\<exists>a d w mid c t. envs = a # d # w # mid @ [c, t] \<and> env_event a = ''CONNECT_ATTEMPT''
     \<and> (env_event d = ''DNS_OBSERVED'' \<or> env_event d = ''DNS_FAILED'') \<and> env_event w = ''WEBSOCKET_CONNECTED''
     \<and> list_all (\<lambda>env. env_event env \<notin> set lifecycle_events) mid
     \<and> env_event c = ''CLIENT_STOP_OBSERVED'' \<and> env_event t = ''TRANSPORT_TERMINAL'')"

lemma run_Unstarted:
  assumes "run_phases E Unstarted envs = Some Ended" "env_field E (last envs) ''status'' = Some ''STOPPED''"
  shows "clean_lifecycle envs"
proof -
  obtain a e1 where a: "envs = a # e1" "env_event a = ''CONNECT_ATTEMPT''" "run_phases E Attempted e1 = Some Ended"
    using assms(1) by (cases envs) (auto dest!: run_phases_Cons next_phase_from(5) simp del: run_phases.simps(2))
  obtain d e2 where d: "e1 = d # e2" "env_event d = ''DNS_OBSERVED'' \<or> env_event d = ''DNS_FAILED''" "run_phases E Resolved e2 = Some Ended"
    using a(3) by (cases e1) (auto dest!: run_phases_Cons next_phase_from(6) simp del: run_phases.simps(2))
  obtain w e3 r where w: "e2 = w # e3" "next_phase E Resolved (env_event w) (tb_payload (te_body w)) = Some r" "run_phases E r e3 = Some Ended"
    using d(3) by (cases e2) (auto dest!: run_phases_Cons simp del: run_phases.simps(2))
  have failed: "\<not> (e3 \<noteq> [] \<and> env_field E (last e3) ''status'' = Some ''FAILED'')" using assms(2) a(1) d(1) w(1) by auto
  have "r \<noteq> Unconnected" "\<And>reason. r \<noteq> ProducerFailed reason" using run_ProducerFailed run_Unconnected w(3) failed by blast+
  then have "r = Open" "env_event w = ''WEBSOCKET_CONNECTED''" using next_phase_from(7) [OF w(2)] by blast+
  moreover have "e3 \<noteq> []" using \<open>r = Open\<close> w(3) by auto
  ultimately show ?thesis using run_Open [of E e3] a d w(1,3) assms(2) unfolding clean_lifecycle_def by (metis last_ConsR list.distinct(1))
qed

lemma in_phase_start: "in_phase transport_scan_start Unstarted"
  by (simp add: in_phase_def transport_scan_start_def)

lemma in_phase_terminal: "in_phase s p \<Longrightarrow> tx_terminal_seen s \<Longrightarrow> p = Ended"
  by (cases p) (simp_all add: in_phase_def)

lemma verified_scan:
  assumes "verify_sealed_transport_journal E C path f stream epoch uri received = Ok seal"
  obtains bs s payload where "f = Some bs" "transport_scan_loop E C (Some (stream, epoch, uri)) bs transport_scan_start = Ok s"
    "tx_expected_index s \<noteq> 0" "tx_stream s = Some stream" "tx_epoch s = Some epoch" "tx_terminal_seen s" "tx_last_payload s = Some payload"
    "field_u64 E payload ''received'' = Some received" "field_str E payload ''status'' = Some ''STOPPED''"
    "ts_records seal = tx_expected_index s" "ts_terminal_record_sha256 seal = tx_previous s" "ts_file_bytes seal = length bs"
    "ts_file_sha256 seal = sha256_hex E bs"
  using assms unfolding verify_sealed_transport_journal_def scan_transport_journal_internal_def rbind_eq_Ok ok_or_eq_Ok if_Err_Ok
  by (elim exE conjE) (simp split: option.split_asm if_split_asm, rule that, assumption+, auto)

text \<open>
  C39. A transport journal that verifies as sealed is, byte for byte, the lines of a hash chain of envelopes from the zero
  digest with consecutive indices, all of the stream and connection epoch asked for, whose events are the life of one
  connection that its client ended: one connect attempt to the bound URI, one DNS observation, one WebSocket connection,
  then neither a second connection, a client stop, a producer failure nor a terminal until the client stop, and the
  terminal record right after it with the message count asked for. The seal is the length, the last digest, the size and
  the SHA-256 of exactly that file.
\<close>

theorem sealed_transport_journal_lifecycle:
  assumes "verify_sealed_transport_journal E C path f stream epoch uri received = Ok seal"
  shows "\<exists>bs lines envs. f = Some bs \<and> scanned_lines E C bs lines envs ZERO_DIGEST 0
     \<and> list_all (bound_to stream epoch) envs \<and> clean_lifecycle envs \<and> env_field E (hd envs) ''uri'' = Some uri
     \<and> field_u64 E (tb_payload (te_body (last envs))) ''received'' = Some received
     \<and> ts_records seal = length envs \<and> ts_terminal_record_sha256 seal = te_record_sha256 (last envs)
     \<and> ts_file_bytes seal = length bs \<and> ts_file_sha256 seal = sha256_hex E bs"
  using assms
proof (rule verified_scan)
  fix bs s payload
  assume v: "f = Some bs" "transport_scan_loop E C (Some (stream, epoch, uri)) bs transport_scan_start = Ok s"
    "tx_expected_index s \<noteq> 0" "tx_stream s = Some stream" "tx_epoch s = Some epoch" "tx_terminal_seen s" "tx_last_payload s = Some payload"
    "field_u64 E payload ''received'' = Some received" "field_str E payload ''status'' = Some ''STOPPED''"
    "ts_records seal = tx_expected_index s" "ts_terminal_record_sha256 seal = tx_previous s" "ts_file_bytes seal = length bs"
    "ts_file_sha256 seal = sha256_hex E bs"
  obtain lines envs q where r: "scanned_lines E C bs lines envs ZERO_DIGEST 0" "scanned_to envs transport_scan_start s"
    "run_phases E Unstarted envs = Some q" "in_phase s q" "envs \<noteq> [] \<longrightarrow> connects_to E (Some (stream, epoch, uri)) (hd envs)"
    using scan_loop_lines [OF v(2) in_phase_start] by (auto simp: transport_scan_start_def)
  have ne: "envs \<noteq> []" using r(2) v(3) by (auto simp: scanned_to_def transport_scan_start_def)
  have last: "tx_previous s = te_record_sha256 (last envs)" "payload = tb_payload (te_body (last envs))"
    "list_all (bound_to stream epoch) envs" "tx_expected_index s = length envs"
    using r(2) ne v(4,5,7) by (auto simp: scanned_to_def transport_scan_start_def)
  have "clean_lifecycle envs"
    using run_Unstarted [of E envs] r(3) in_phase_terminal [OF r(4) v(6)] v(9) last(2) by simp
  moreover have "env_field E (hd envs) ''uri'' = Some uri" using r(5) ne by (simp add: connects_to_def)
  ultimately show ?thesis using v(1,8,10-13) r(1) last by (intro exI [of _ bs] exI [of _ lines] exI [of _ envs]) simp
qed

end
