(* ===== verification/Transport_Journal_Witness.thy ===== *)
theory Transport_Journal_Witness
  imports Transport_Journal_Safety Concrete_Externals
begin

text \<open>
  A concrete journal of five records: a connection whose DNS observation failed, that connected, and that its client
  stopped. Line \<open>k\<close> of the file is the byte \<open>k\<close>.
\<close>

definition journal_E :: "jv externals" where
  "journal_E = table_externals []"

definition no_tcp :: jv where
  "no_tcp = JObj [(''status'', JStr ''UNSUPPORTED_PLATFORM'')]"

definition journal_uri :: string where
  "journal_uri = ''wss://data-stream.binance.vision:443/ws/btcusdt@trade''"

definition journal_events :: "(string \<times> jv) list" where
  "journal_events =
     [(''CONNECT_ATTEMPT'', JObj [(''uri'', JStr journal_uri)]),
      (''DNS_FAILED'', JObj [(''error'', JStr ''timeout''), (''host'', JStr ''data-stream.binance.vision''), (''port'', JNum 443),
         (''role'', JStr ''DIAGNOSTIC_OBSERVATION_NOT_CONNECT_SELECTION'')]),
      (''WEBSOCKET_CONNECTED'', JObj [(''local_endpoint'', JStr ''10.0.0.2:50000''), (''remote_endpoint'', JStr ''18.1.2.3:443''),
         (''tcp_info'', no_tcp), (''websocket_http_status'', JNum 101)]),
      (''CLIENT_STOP_OBSERVED'', JObj [(''tcp_info'', no_tcp)]),
      (''TRANSPORT_TERMINAL'', JObj [(''error'', JNull), (''received'', JNum 7), (''status'', JStr ''STOPPED'')])]"

definition journal_digest :: "nat \<Rightarrow> string" where
  "journal_digest k = (case k of 0 \<Rightarrow> ZERO_DIGEST | Suc j \<Rightarrow> sha256_hex journal_E [of_nat j])"

definition journal_env :: "nat \<Rightarrow> jv transport_envelope" where
  "journal_env k =
     \<lparr>te_body = \<lparr>tb_schema = ''TransportJournalRecordV1'', tb_record_index = k, tb_wall_ns = 1, tb_mono_ns = 1, tb_stream = ''trade'',
        tb_connection_epoch = ''epoch'', tb_event = fst (journal_events ! k), tb_payload = snd (journal_events ! k),
        tb_previous_record_sha256 = journal_digest k\<rparr>,
      te_record_sha256 = journal_digest (Suc k)\<rparr>"

definition diagnosis_codec :: "jv transport_codec" where
  "diagnosis_codec =
     \<lparr>tc_body_to_vec = (\<lambda>b. Some [of_nat (tb_record_index b)]),
      tc_envelope_to_vec = (\<lambda>e. Some [of_nat (tb_record_index (te_body e))]),
      tc_envelope_from_slice = (\<lambda>bs. case bs of [b] \<Rightarrow> if unat b < 5 then Some (journal_env (unat b)) else None | _ \<Rightarrow> None)\<rparr>"

definition journal_identity :: "(string \<times> string \<times> string) option" where
  "journal_identity = Some (''trade'', ''epoch'', journal_uri)"

definition journal_state :: "nat \<Rightarrow> bool \<Rightarrow> bool \<Rightarrow> bool \<Rightarrow> jv transport_scan" where
  "journal_state k connected stop terminal =
     \<lparr>tx_expected_index = k, tx_previous = journal_digest k, tx_stream = Some ''trade'', tx_epoch = Some ''epoch'',
      tx_first_event = Some ''CONNECT_ATTEMPT'', tx_last_event = Some (fst (journal_events ! (k - 1))),
      tx_last_payload = Some (snd (journal_events ! (k - 1))), tx_connected = connected, tx_client_stop = stop, tx_failure_reason = None,
      tx_terminal_seen = terminal\<rparr>"

lemma journal_E_sel [simp]:
  "json_get journal_E = jv_get" "json_as_str journal_E = jv_str" "json_as_u64 journal_E = jv_u64" "json_as_i64 journal_E = jv_i64"
  "json_is_null journal_E = jv_is_null" "json_object_keys journal_E = jv_keys" "sha256 journal_E = pad32"
  by (simp_all add: journal_E_def)

lemmas payload_eval = json_is_object_def exact_keys_def field_is_def str_is_def u64_is_def has_text_def has_u64_def has_tcp_info_def
  field_str_def field_u64_def jv_is_null_def

lemma parse_endpoints:
  "parse_socket_addr ''10.0.0.2:50000'' = Some \<lparr>sa_unspecified = False, sa_port = 50000\<rparr>"
  "parse_socket_addr ''18.1.2.3:443'' = Some \<lparr>sa_unspecified = False, sa_port = 443\<rparr>"
  by (simp_all add: parse_socket_addr_def socket_addr_v4_def read_ipv4_def read_port_def read_octet_def read_separator_def read_char_def
      read_number_def digit_in_def hex_value_def)

lemma tcp_ok: "valid_tcp_observation journal_E no_tcp"
  by (simp add: valid_tcp_observation_def no_tcp_def payload_eval)

lemma below_five:
  assumes "k < (5::nat)" "P 0" "P 1" "P 2" "P 3" "P 4"
  shows "P k"
proof -
  consider "k = 0" | "k = 1" | "k = 2" | "k = 3" | "k = 4" using assms(1) by linarith
  then show ?thesis using assms(2-6) by cases simp_all
qed

lemma journal_payload_ok: "k < 5 \<Longrightarrow> valid_transport_payload journal_E (fst (journal_events ! k)) (snd (journal_events ! k))"
proof (erule below_five)
  show "valid_transport_payload journal_E (fst (journal_events ! 0)) (snd (journal_events ! 0))"
    by code_simp
  show "valid_transport_payload journal_E (fst (journal_events ! 1)) (snd (journal_events ! 1))"
    by (simp add: journal_events_def valid_transport_payload_def payload_eval diagnostic_host_def u64_max_def trim_is_empty_def)
  show "valid_transport_payload journal_E (fst (journal_events ! 2)) (snd (journal_events ! 2))"
    using tcp_ok by (simp add: journal_events_def valid_transport_payload_def payload_eval valid_socket_endpoint_def parse_endpoints u64_max_def)
  show "valid_transport_payload journal_E (fst (journal_events ! 3)) (snd (journal_events ! 3))"
    using tcp_ok by (simp add: journal_events_def valid_transport_payload_def payload_eval)
  show "valid_transport_payload journal_E (fst (journal_events ! 4)) (snd (journal_events ! 4))"
    by (simp add: journal_events_def valid_transport_payload_def payload_eval valid_terminal_def u64_max_def)
qed

lemma journal_digest_ok: "k < 5 \<Longrightarrow> valid_sha256 (sha256_hex journal_E [of_nat k])"
  by (erule below_five) code_simp+

lemma journal_event_text: "k < 5 \<Longrightarrow> \<not> trim_is_empty (fst (journal_events ! k))"
  by (erule below_five) (simp_all add: journal_events_def trim_is_empty_def)

lemma journal_record_ok:
  assumes "k < 5" "tx_expected_index s = k" "tx_previous s = journal_digest k"
  shows "transport_record_ok journal_E (sha256_hex journal_E [of_nat k]) (journal_env k) s"
  using assms journal_payload_ok journal_digest_ok journal_event_text
  by (simp add: transport_record_ok_def journal_env_def journal_digest_def trim_is_empty_def)

lemma journal_decode: "k < 5 \<Longrightarrow> tc_envelope_from_slice diagnosis_codec [of_nat k] = Some (journal_env k)"
  by (simp add: diagnosis_codec_def unat_of_nat)

lemma journal_step:
  fixes s :: "jv transport_scan"
  defines "event k \<equiv> fst (journal_events ! k)" and "payload k \<equiv> snd (journal_events ! k)"
  assumes "k < 5" "tx_expected_index s = k" "tx_previous s = journal_digest k" "tx_stream s \<in> {None, Some ''trade''}"
    "tx_epoch s \<in> {None, Some ''epoch''}" "lifecycle_sequence (event k) s" "2 < k \<Longrightarrow> tx_connected s" "tx_failure_reason s = None"
    "tx_client_stop s \<Longrightarrow> event k = ''TRANSPORT_TERMINAL''" "lifecycle_event journal_E (event k) (payload k) s = Ok s1"
  shows "transport_scan_step journal_E diagnosis_codec journal_identity [of_nat k] s =
    Ok (s1\<lparr>tx_stream := Some ''trade'', tx_epoch := Some ''epoch'',
       tx_first_event := Some (case tx_first_event s of None \<Rightarrow> event k | Some v \<Rightarrow> v), tx_last_event := Some (event k),
       tx_last_payload := Some (payload k), tx_previous := journal_digest (k + 1), tx_expected_index := k + 1\<rparr>)"
proof -
  have env: "tc_body_to_vec diagnosis_codec (te_body (journal_env k)) = Some [of_nat k]" "tb_stream (te_body (journal_env k)) = ''trade''"
    "tb_connection_epoch (te_body (journal_env k)) = ''epoch''" "tb_event (te_body (journal_env k)) = event k"
    "tb_payload (te_body (journal_env k)) = payload k" "journal_digest (k + 1) = sha256_hex journal_E [of_nat k]"
    by (simp_all add: diagnosis_codec_def journal_env_def event_def payload_def journal_digest_def)
  have uri: "\<not> (k = 0 \<and> (case journal_identity of None \<Rightarrow> False | Some (_, _, uri) \<Rightarrow> field_str journal_E (payload k) ''uri'' \<noteq> Some uri))"
    by (cases k) (simp_all add: journal_identity_def payload_def journal_events_def field_str_def)
  have bound: "\<not> ((case tx_stream s of None \<Rightarrow> False | Some v \<Rightarrow> v \<noteq> ''trade'') \<or> (case tx_epoch s of None \<Rightarrow> False | Some v \<Rightarrow> v \<noteq> ''epoch''))"
    "(case tx_stream s of None \<Rightarrow> ''trade'' | Some v \<Rightarrow> v) = ''trade''" "(case tx_epoch s of None \<Rightarrow> ''epoch'' | Some v \<Rightarrow> v) = ''epoch''"
    using assms(6,7) by auto
  have guards: "\<not> (2 < k \<and> \<not> tx_connected s \<and> event k \<noteq> ''PRODUCER_FAILURE'' \<and> \<not> (event k = ''TRANSPORT_TERMINAL'' \<and> tx_failure_reason s \<noteq> None))"
    "\<not> (tx_client_stop s \<and> event k \<noteq> ''TRANSPORT_TERMINAL'')" "\<not> (tx_failure_reason s \<noteq> None \<and> event k \<noteq> ''TRANSPORT_TERMINAL'')"
    using assms(9-11) by auto
  have index: "checked_add k 1 = Some (k + 1)" using assms(3) by (simp add: u64_max_def)
  note ok = journal_record_ok [OF assms(3-5)]
  show ?thesis
    unfolding transport_scan_step_def journal_decode [OF assms(3)] rbind_def ok_or_def option.case sum.case Let_def env assms(4) index
    by (simp only: ok uri bound guards assms(8,12) if_False if_True not_True_eq_False option.case sum.case)
qed

lemmas event_eval = lifecycle_sequence_def lifecycle_event_def socket_events_def journal_events_def journal_state_def Let_def
  field_str_def

lemma journal_steps:
  "transport_scan_step journal_E diagnosis_codec journal_identity [0] transport_scan_start = Ok (journal_state 1 False False False)"
  "transport_scan_step journal_E diagnosis_codec journal_identity [1] (journal_state 1 False False False) = Ok (journal_state 2 False False False)"
  "transport_scan_step journal_E diagnosis_codec journal_identity [2] (journal_state 2 False False False) = Ok (journal_state 3 True False False)"
  "transport_scan_step journal_E diagnosis_codec journal_identity [3] (journal_state 3 True False False) = Ok (journal_state 4 True True False)"
  "transport_scan_step journal_E diagnosis_codec journal_identity [4] (journal_state 4 True True False) = Ok (journal_state 5 True True True)"
proof -
  show "transport_scan_step journal_E diagnosis_codec journal_identity [0] transport_scan_start = Ok (journal_state 1 False False False)"
    using journal_step [of 0 "transport_scan_start" "transport_scan_start"] by (simp add: event_eval transport_scan_start_def journal_digest_def)
  show "transport_scan_step journal_E diagnosis_codec journal_identity [1] (journal_state 1 False False False) = Ok (journal_state 2 False False False)"
    using journal_step [of 1 "journal_state 1 False False False" "journal_state 1 False False False"]
    by (simp add: event_eval numeral_2_eq_2)
  show "transport_scan_step journal_E diagnosis_codec journal_identity [2] (journal_state 2 False False False) = Ok (journal_state 3 True False False)"
    using journal_step [of 2 "journal_state 2 False False False" "journal_state 2 True False False"] by (simp add: event_eval)
  show "transport_scan_step journal_E diagnosis_codec journal_identity [3] (journal_state 3 True False False) = Ok (journal_state 4 True True False)"
    using journal_step [of 3 "journal_state 3 True False False" "journal_state 3 True True False"] by (simp add: event_eval)
  show "transport_scan_step journal_E diagnosis_codec journal_identity [4] (journal_state 4 True True False) = Ok (journal_state 5 True True True)"
    using journal_step [of 4 "journal_state 4 True True False" "journal_state 4 True True True"] by (simp add: event_eval)
qed

lemma read_short_line: "b \<noteq> newline \<Longrightarrow> read_transport_line (b # newline # rest) = [b, newline]"
  by (simp add: read_transport_line_def TRANSPORT_MAX_RECORD_BYTES_def Let_def)

lemma scan_short_line:
  "b \<noteq> newline \<Longrightarrow> transport_scan_loop E C i (b # newline # rest) s = rbind (transport_scan_step E C i [b] s) (transport_scan_loop E C i rest)"
  by (subst transport_scan_loop.simps) (simp add: read_short_line TRANSPORT_MAX_RECORD_BYTES_def)

definition journal_bytes :: bytes where
  "journal_bytes = [0, newline, 1, newline, 2, newline, 3, newline, 4, newline]"

lemma journal_scans: "transport_scan_loop journal_E diagnosis_codec journal_identity journal_bytes transport_scan_start = Ok (journal_state 5 True True True)"
proof -
  have nl: "(0::byte) \<noteq> newline" "(1::byte) \<noteq> newline" "(2::byte) \<noteq> newline" "(3::byte) \<noteq> newline" "(4::byte) \<noteq> newline"
    by (simp_all add: newline_def)
  show ?thesis unfolding journal_bytes_def
    by (simp only: scan_short_line nl journal_steps rbind_simps transport_scan_loop.simps [of _ _ _ "[]"] not_False_eq_True if_True refl)
qed

definition journal_seal :: transport_seal where
  "journal_seal = \<lparr>ts_schema = ''TransportJournalSealV1'', ts_file = ''j'', ts_records = 5, ts_terminal_record_sha256 = journal_digest 5,
     ts_file_bytes = 10, ts_file_sha256 = sha256_hex journal_E journal_bytes\<rparr>"

lemma journal_verifies:
  "verify_sealed_transport_journal journal_E diagnosis_codec ''j'' (Some journal_bytes) ''trade'' ''epoch'' journal_uri 7 = Ok journal_seal"
proof -
  have "path_file_name ''j'' = Some ''j''" by code_simp
  moreover have "\<not> trim_is_empty journal_uri" by (simp add: journal_uri_def trim_is_empty_def)
  moreover have "journal_bytes \<noteq> []" "length journal_bytes = 10" by (simp_all add: journal_bytes_def)
  ultimately show ?thesis
    using journal_scans
    by (simp add: verify_sealed_transport_journal_def scan_transport_journal_internal_def journal_identity_def MAX_JOURNAL_BYTES_def
        journal_state_def journal_events_def payload_eval u64_max_def journal_seal_def)
qed

theorem sealed_transport_journal_lifecycle_witness:
  "\<exists>bs lines envs. Some journal_bytes = Some bs \<and> scanned_lines journal_E diagnosis_codec bs lines envs ZERO_DIGEST 0
     \<and> list_all (bound_to ''trade'' ''epoch'') envs \<and> clean_lifecycle envs \<and> env_field journal_E (hd envs) ''uri'' = Some journal_uri
     \<and> field_u64 journal_E (tb_payload (te_body (last envs))) ''received'' = Some 7
     \<and> ts_records journal_seal = length envs \<and> ts_terminal_record_sha256 journal_seal = te_record_sha256 (last envs)
     \<and> ts_file_bytes journal_seal = length bs \<and> ts_file_sha256 journal_seal = sha256_hex journal_E bs"
  by (rule sealed_transport_journal_lifecycle [OF journal_verifies])

end
