(* ===== verification/Spec2Isabelle.thy ===== *)
theory Spec2Isabelle
  imports Fixed_Decimal_Safety Raw_Log_Witness Order_Book_Witness Identity_Log_Safety Trade_Union_Witness
    Depth_Frontier Journal_Audit_Witness Handover_Safety Hot_Redundancy_Safety Watchdog Rotation_Witness
    Generation_Supervisor_Safety Canonical_Output_Witness Durability_Witness Segment_Chain_Witness Session_Replay_Witness Observations_Witness Capture_Config
    Transport_Journal_Witness
begin

text \<open>
  Verification library of the market-data capture crate \<open>src/rust/lob-replay\<close>.

  \<^bold>\<open>The program.\<close> Capture lanes receive trades and depth updates of a venue over WebSocket sessions, append every
  frame to a raw log whose records form a hash chain, and acknowledge what has been synced to disk. Finished
  raw files are sealed into the manifest of a segment chain. An order book is replayed from the frames; a
  trade union merges the trades of redundant lanes; a rotation moves the right to publish from one connection
  epoch to the next through a boundary journal, an ownership ledger and a fenced output. Readers follow and
  audit all of these files, also after a crash.

  \<^bold>\<open>Foundations.\<close>
  \<^item> \<open>Rust_Prelude\<close>: the result type \<open>'a res\<close> (\<open>Inl\<close> an error value, \<open>Panic\<close> for an abort), checked, saturating
    and plain \<open>u64\<close> arithmetic, byte encodings, hexadecimal text, string operations. A \<open>u64\<close> is a natural
    number; a plain addition that leaves the range is \<open>Panic\<close>. A string is its list of characters.
  \<^item> \<open>Externals\<close>: SHA-256, base64 and the \<open>serde_json::Value\<close> accessors as one record of functions \<open>E\<close>, with their
    documented behaviour as hypotheses (\<open>sha256_len32\<close>, \<open>b64_round_trip\<close>). Struct codecs are further
    parameters with a round trip as hypothesis (\<open>serde_round_trip\<close>, \<open>record_round_trip\<close>, \<open>nonempty_codec\<close>,
    \<open>progress_codec_ok\<close>, \<open>journal_codec_ok\<close>). \<open>Concrete_Externals\<close> and \<open>Concrete_Codec\<close> give instances, so that
    the witnesses show these hypotheses to be satisfiable.
  \<^item> \<open>BTree_Map\<close>: sorted association lists for \<open>BTreeMap\<close>; the locale \<open>btree_order\<close> states what a key order must
    satisfy, interpreted on numbers, strings, lanes and decimal prices.
  \<^item> \<open>Framed_Log\<close>: the framing of \<open>boundary.rs\<close>, \<open>ownership.rs\<close>, \<open>canonical_output.rs\<close> and \<open>segment_chain.rs\<close> (length, JSON body,
    digest), its scan loop, writing on a failing sink and the shape of the file after a crash. The locale
    \<open>chained_log\<close> is the contract of the semantic check of a journal, interpreted on the four journals.
  \<^item> \<open>Byte_Lines\<close>: files of lines, for the JSONL journals.

  A file is its bytes; a sink (\<open>sk_data\<close>, \<open>sk_synced\<close>, a plan of outcomes) is a file under failing writes and
  syncs. A crash keeps some prefix of the data that is no shorter than what was synced. Loops are functions with
  a measure (the bytes left to read), so no fuel is needed; that a scan ends on every input without aborting is
  proved where its arithmetic could abort.

  \<^bold>\<open>Components\<close> (theory: file; what is shown).
  \<^item> \<open>Fixed_Decimal\<close>, \<open>Fixed_Decimal_Safety\<close>: \<open>FixedDecimal\<close> of \<open>lib.rs\<close>. Parsing, printing, comparison and sums are
    exact; when a sum aborts.
  \<^item> \<open>Raw_Log\<close>, \<open>Raw_Log_Reader\<close>, \<open>Raw_Log_Correct\<close>, \<open>Raw_Log_Safety\<close>, \<open>Raw_Log_Total\<close>: the raw writer, readers, scan and
    recovery of \<open>lib.rs\<close>. \<open>raw_chain\<close> is the abstract log; the writer keeps it under every sink outcome, the
    readers invert it, a crash loses nothing that was acknowledged, the scan is total.
  \<^item> \<open>Order_Book\<close>, \<open>Order_Book_Correct\<close>, \<open>Order_Book_Safety\<close>: \<open>LocalOrderBook\<close> of \<open>lib.rs\<close>. The invariant of every reachable
    book, the effect of a depth update on every branch, the incremental fingerprint, checkpoints.
  \<^item> \<open>Identity_Log\<close>, \<open>Identity_Log_Safety\<close>: the durable trade identities of \<open>live_arbitration.rs\<close>; the locale
    \<open>identity_store\<close> is the contract the trade union relies on.
  \<^item> \<open>Lanes\<close>, \<open>Trade_Union\<close>, \<open>Trade_Union_Correct\<close>, \<open>Trade_Union_Safety\<close>: the arbiter of \<open>live_arbitration.rs\<close>. Nothing is
    lost, duplicated or published out of order.
  \<^item> \<open>Depth_Frontier\<close>: depth frontiers and the lane switch of \<open>live_arbitration.rs\<close>.
  \<^item> \<open>Journal_Audit\<close>, \<open>Journal_Audit_Correct\<close>, \<open>Journal_Audit_Safety\<close>: the canonical live journal of \<open>live_arbitration.rs\<close>, its
    audit over resume-chained segments, the recovery and incremental scans.
  \<^item> \<open>Handover\<close>, \<open>Handover_Safety\<close> (\<open>handover.rs\<close>), \<open>Hot_Redundancy\<close>, \<open>Hot_Redundancy_Safety\<close> (\<open>hot_redundancy.rs\<close>), \<open>Watchdog\<close>
    (\<open>liveness.rs\<close>), \<open>Generation_Supervisor\<close>, \<open>Generation_Supervisor_Safety\<close> (\<open>generation_supervisor.rs\<close>): state machines with
    their invariants over all operation sequences, refused operations included; deadlines and the way out of a gap.
  \<^item> \<open>Boundary\<close>, \<open>Boundary_Journal\<close>, \<open>Boundary_Selection\<close>: \<open>boundary.rs\<close> and \<open>splice.rs\<close>. The boundary journal commits in two
    records; a derived boundary is proved by the records; the selection across it is contiguous.
  \<^item> \<open>Ownership\<close>, \<open>Ownership_Ledger\<close>, \<open>Ownership_Safety\<close> (\<open>ownership.rs\<close>), \<open>Live_Rotation\<close>, \<open>Live_Rotation_Safety\<close>
    (\<open>live_rotation.rs\<close>, \<open>orchestrator.rs\<close>), \<open>Transport\<close>, \<open>Transport_Safety\<close> (\<open>transport.rs\<close>): fencing of the published
    stream, activation that completes or leaves the owner with the ledger writer untouched or
    closed, the session that delivers frames.
  \<^item> \<open>Canonical_Output\<close>, \<open>Canonical_Output_Safety\<close>, \<open>Canonical_Output_Crash\<close>: \<open>canonical_output.rs\<close>. The published file is one
    contiguous stream across owners and survives crashes.
  \<^item> \<open>Durability_Progress\<close>, \<open>Durability_Progress_Safety\<close>, \<open>Durable_Prefix\<close> (\<open>durability_progress.rs\<close>), \<open>Durability_Follower\<close>,
    \<open>Durability_Follower_Safety\<close>, \<open>Durability_Follower_Raw\<close> (\<open>durability_follower.rs\<close>): watermarks, freezing and resuming at
    them, following a growing file.
  \<^item> \<open>Segment_Chain\<close>, \<open>Segment_Chain_Safety\<close>, \<open>Segment_Chain_Crash\<close>: \<open>segment_chain.rs\<close>. The verified files of a manifest
    are together one raw log; the manifest survives crashes.
  \<^item> \<open>Session_Replay\<close>, \<open>Session_Replay_Safety\<close> (\<open>lib.rs\<close>): \<open>replay_session\<close>, \<open>audit_session\<close> and \<open>monitor_session\<close>, the
    three readings of one capture session. The replay is the reference fold of the order book and of the trade
    identities over the accepted records; the audit is exact on contiguity; the monitor agrees with the audit
    on the same session.
  \<^item> \<open>Observations\<close>, \<open>Observations_Safety\<close>, \<open>Canonical_State\<close>, \<open>Depth_Convergence\<close>, \<open>Depth_Convergence_Safety\<close>
    (\<open>observations.rs\<close>): the neutral observations of records, windows and whole logs, the depth cursor and the search
    for the latest convergence of two depth windows. The text a book is hashed over determines the book; the
    search over incremental fingerprints finds exactly what the splice of \<open>splice.rs\<close> selects from the fully hashed
    windows, when the digest separates the books of these windows; the window is the cursor fed one record at a
    time, with checks of consecutive frames and of a result; a trade window is its records one by one with increasing ids.
  \<^item> \<open>Capture_Config\<close> (\<open>capture_config.rs\<close>): exactly one configuration passes the comparison with the compiled constants.
  \<^item> \<open>Socket_Addr\<close>, \<open>Transport_Journal\<close>, \<open>Transport_Journal_Safety\<close> (\<open>transport_journal.rs\<close>): the diagnosis journal of a
    connection, its payload shapes, its writer, its lifecycle scan, its seal and its diagnosis. The flags of the scan
    implement a small automaton, and a sealed journal is one connection opened once and ended by its client.
  The \<open>_Witness\<close> theories apply the theorems to concrete sessions, journals and files.

  \<^bold>\<open>Not modelled.\<close>
  \<^item> Sockets, processes, directories, file identities as the operating system assigns them, and the programs
    under \<open>bin/\<close> that drive the library over them; the Windows probes (\<open>windows_etw.rs\<close>, \<open>windows_tcp.rs\<close>,
    \<open>windows_time.rs\<close>), which are unsafe calls into the system.
  \<^item> The replays and artifact verifiers over whole capture directories (\<open>generation_artifact.rs\<close>, \<open>generation_handover.rs\<close>, \<open>campaign_artifact.rs\<close>, \<open>hot_redundancy_artifact.rs\<close>, \<open>market_replay.rs\<close>,
    \<open>complete_replay.rs\<close>, \<open>qualified_cache.rs\<close>): they combine the modelled readers with directory walks and report
    formats.
  \<^item> Concurrency inside one call: a file does not change while one operation reads it, except where the code
    reads it twice and the model takes both contents (recovery copies, rescans, follower snapshots).
\<close>

end
